(* ===== verification/Prelude.thy ===== *)
theory Prelude
  imports Main "HOL-Library.Word"
begin

text \<open>
  Shared vocabulary of the development: the fixed-width integer types of the C sources, byte
  buffers with the two list operations every storage layer reduces to (reading a byte range,
  overwriting a byte range), little-endian layout of integers, and two interfaces stated as
  locales: \<open>reg_field\<close> (a bit field of a hardware register, read and written by a pair of
  macros) and \<open>codec\<close> (a fixed-width binary layout of a C struct).
\<close>

unbundle bit_operations_syntax

type_synonym u8 = "8 word"
type_synonym u16 = "16 word"
type_synonym u32 = "32 word"
type_synonym u64 = "64 word"
type_synonym bytes = "u8 list"

named_theorems layout_simps \<open>lengths and decompositions of struct layouts\<close>
named_theorems field_simps_reg \<open>read-over-write facts of register fields\<close>

section \<open>Byte ranges of a buffer\<close>

definition subrange :: "nat \<Rightarrow> nat \<Rightarrow> 'a list \<Rightarrow> 'a list" where
  "subrange off n xs = take n (drop off xs)"

definition overwrite :: "nat \<Rightarrow> 'a list \<Rightarrow> 'a list \<Rightarrow> 'a list" where
  "overwrite off ys xs = take off xs @ ys @ drop (off + length ys) xs"

lemma length_subrange [simp]: "length (subrange off n xs) = min n (length xs - off)"
  by (simp add: subrange_def)

lemma length_overwrite [simp]:
  "off + length ys \<le> length xs \<Longrightarrow> length (overwrite off ys xs) = length xs"
  by (simp add: overwrite_def)

lemma subrange_zero [simp]: "subrange off 0 xs = []"
  by (simp add: subrange_def)

lemma subrange_all [simp]: "subrange 0 (length xs) xs = xs"
  by (simp add: subrange_def)

lemma overwrite_Nil [simp]: "overwrite off [] xs = xs"
  by (simp add: overwrite_def)

lemma nth_subrange: "i < n \<Longrightarrow> off + i < length xs \<Longrightarrow> subrange off n xs ! i = xs ! (off + i)"
  by (simp add: subrange_def)

lemma nth_overwrite:
  "off + length ys \<le> length xs \<Longrightarrow> i < length xs \<Longrightarrow>
   overwrite off ys xs ! i = (if off \<le> i \<and> i < off + length ys then ys ! (i - off) else xs ! i)"
  by (auto simp: overwrite_def nth_append)

lemma subrange_append:
  "subrange off m xs @ subrange (off + m) n xs = subrange off (m + n) xs"
  by (simp add: subrange_def take_add add.commute)

lemma subrange_subrange:
  "o2 + n2 \<le> n1 \<Longrightarrow> subrange o2 n2 (subrange o1 n1 xs) = subrange (o1 + o2) n2 xs"
  by (simp add: subrange_def drop_take add.commute min_def)

lemma take_subrange: "m \<le> n \<Longrightarrow> take m (subrange off n xs) = subrange off m xs"
  by (simp add: subrange_def min_def)

lemma subrange_overwrite_same:
  "off + length ys \<le> length xs \<Longrightarrow> subrange off (length ys) (overwrite off ys xs) = ys"
  by (simp add: subrange_def overwrite_def)

lemma subrange_overwrite_disjoint:
  assumes "off + length ys \<le> length xs" and "o2 + n2 \<le> off \<or> off + length ys \<le> o2"
  shows "subrange o2 n2 (overwrite off ys xs) = subrange o2 n2 xs"
proof (rule nth_equalityI)
  show "length (subrange o2 n2 (overwrite off ys xs)) = length (subrange o2 n2 xs)"
    using assms by simp
  show "subrange o2 n2 (overwrite off ys xs) ! i = subrange o2 n2 xs ! i"
    if "i < length (subrange o2 n2 (overwrite off ys xs))" for i
    using that assms by (auto simp: nth_subrange nth_overwrite)
qed

lemma overwrite_append:
  assumes "off + length ys + length zs \<le> length xs"
  shows "overwrite (off + length ys) zs (overwrite off ys xs) = overwrite off (ys @ zs) xs"
proof (rule nth_equalityI)
  show "length (overwrite (off + length ys) zs (overwrite off ys xs)) =
        length (overwrite off (ys @ zs) xs)"
    using assms by simp
  show "overwrite (off + length ys) zs (overwrite off ys xs) ! i = overwrite off (ys @ zs) xs ! i"
    if "i < length (overwrite (off + length ys) zs (overwrite off ys xs))" for i
    using that assms by (auto simp: nth_overwrite nth_append)
qed

lemma overwrite_nested:
  assumes "o1 + n1 \<le> length xs" and "o2 + length ys \<le> n1"
  shows "overwrite o1 (overwrite o2 ys (subrange o1 n1 xs)) xs = overwrite (o1 + o2) ys xs"
proof (rule nth_equalityI)
  show "length (overwrite o1 (overwrite o2 ys (subrange o1 n1 xs)) xs) =
        length (overwrite (o1 + o2) ys xs)"
    using assms by simp
  show "overwrite o1 (overwrite o2 ys (subrange o1 n1 xs)) xs ! i = overwrite (o1 + o2) ys xs ! i"
    if "i < length (overwrite o1 (overwrite o2 ys (subrange o1 n1 xs)) xs)" for i
    using that assms by (auto simp: nth_overwrite nth_subrange)
qed

section \<open>Words as natural numbers\<close>

lemma unat_ucast_mod: "unat (ucast (x :: 'a::len word) :: 'b::len word) = unat x mod 2 ^ LENGTH('b)"
  by (simp add: unsigned_ucast_eq take_bit_eq_mod)

lemma unat_ucast_up:
  "LENGTH('a) \<le> LENGTH('b) \<Longrightarrow> unat (ucast (x :: 'a::len word) :: 'b::len word) = unat x"
proof -
  assume le: "LENGTH('a) \<le> LENGTH('b)"
  have "unat x < 2 ^ LENGTH('a)" by simp
  also have "\<dots> \<le> (2::nat) ^ LENGTH('b)" using le by simp
  finally show ?thesis by (simp add: unat_ucast_mod)
qed

lemma unat_ucast_small:
  "unat x < 2 ^ LENGTH('b) \<Longrightarrow> unat (ucast (x :: 'a::len word) :: 'b::len word) = unat x"
  by (simp add: unat_ucast_mod)

lemma unat_shift_right: "unat (drop_bit n (x :: 'a::len word)) = unat x div 2 ^ n"
  unfolding unat_drop_bit_eq by (rule drop_bit_eq_div)

lemma unat_shift_left:
  "unat x * 2 ^ n < 2 ^ LENGTH('a) \<Longrightarrow> unat (push_bit n (x :: 'a::len word)) = unat x * 2 ^ n"
  by (simp only: unsigned_push_bit_eq push_bit_eq_mult [of n "unat x"] take_bit_nat_eq_self)

lemma unat_pow2: "n < LENGTH('a) \<Longrightarrow> unat (push_bit n (1 :: 'a::len word)) = 2 ^ n"
  by (subst unat_shift_left) simp_all

lemma unat_low_bits: "unat ((x :: 'a::len word) AND (push_bit n 1 - 1)) = unat x mod 2 ^ n"
proof -
  have "x AND (push_bit n 1 - 1) = take_bit n x"
    by (simp only: take_bit_eq_mask mask_eq_exp_minus_1 push_bit_of_1)
  then show ?thesis
    by (simp only: unsigned_take_bit_eq take_bit_eq_mod [of n "unat x"])
qed

lemma unat_diff: "y \<le> x \<Longrightarrow> unat (x - y) = unat x - unat y"
  by (simp add: unat_sub)

lemma unat_u32_bound: "unat (x :: u32) < 4294967296"
  using unsigned_less [of x, where 'a = nat] by simp

lemma unat_u64_bound: "unat (x :: u64) < 18446744073709551616"
  using unsigned_less [of x, where 'a = nat] by simp

lemma div_mult_bound: "(x::nat) < k * g \<Longrightarrow> x div g < k"
  by (simp add: less_mult_imp_div_less)

lemma unat_min: "unat (min a b) = min (unat a) (unat b)"
  by (simp add: min_def word_le_nat_alt)

lemma unat_Suc_bound: "unat (x :: u32) < unat (y :: u32) \<Longrightarrow> unat (x + 1) = unat x + 1"
  using unat_u32_bound [of y] by (simp add: unat_word_ariths(1))

section \<open>Little-endian integers\<close>

primrec of_le :: "bytes \<Rightarrow> 'a::len word" where
  "of_le [] = 0"
| "of_le (b # bs) = ucast b OR push_bit 8 (of_le bs)"

primrec le_bytes :: "nat \<Rightarrow> 'a::len word \<Rightarrow> bytes" where
  "le_bytes 0 w = []"
| "le_bytes (Suc n) w = ucast w # le_bytes n (drop_bit 8 w)"

lemma length_le_bytes [simp, layout_simps]: "length (le_bytes n w) = n"
  by (induction n arbitrary: w) auto

lemma bit_byte_high [simp]: "8 \<le> n \<Longrightarrow> \<not> bit (b :: u8) n"
  using bit_imp_le_length [of b n] by auto

lemma bit_u32_high [simp]: "32 \<le> n \<Longrightarrow> \<not> bit (c :: u32) n"
  using bit_imp_le_length [of c n] by auto

lemma xor_right_cancel: "(a XOR c = b XOR c) = (a = (b :: 'a::len word))"
  by (metis xor.assoc xor.right_neutral xor_self_eq)

lemma ucast_u8_u32_inj: "(ucast (a :: u8) :: u32) = ucast b \<longleftrightarrow> a = b"
  using unat_ucast_up [of a, where 'b = 32] unat_ucast_up [of b, where 'b = 32]
  by (auto simp: word_unat_eq_iff)

lemma of_le_le_bytes: "of_le (le_bytes n w) = take_bit (8 * n) w"
proof (induction n arbitrary: w)
  case 0
  then show ?case by simp
next
  case (Suc n)
  show ?case
    by (rule bit_word_eqI) (auto simp: Suc bit_simps)
qed

lemma of_le_high: "8 * length bs \<le> n \<Longrightarrow> \<not> bit (of_le bs :: 'a::len word) n"
  by (induction bs arbitrary: n) (auto simp: bit_simps)

lemma le_bytes_of_le:
  "length bs = n \<Longrightarrow> 8 * n \<le> LENGTH('a) \<Longrightarrow> le_bytes n (of_le bs :: 'a::len word) = bs"
proof (induction bs arbitrary: n)
  case Nil
  then show ?case by simp
next
  case (Cons b bs)
  then obtain m where n: "n = Suc m" by (cases n) auto
  let ?w = "ucast b OR push_bit 8 (of_le bs) :: 'a word"
  have lo: "ucast ?w = b"
    using Cons.prems n by (intro bit_word_eqI) (auto simp: bit_simps)
  have hi: "drop_bit 8 ?w = of_le bs"
  proof (rule bit_word_eqI)
    fix k assume "k < LENGTH('a)"
    show "bit (drop_bit 8 ?w) k = bit (of_le bs :: 'a word) k"
      using Cons.prems n of_le_high [of bs k, where 'a = 'a]
      by (cases "8 + k < LENGTH('a)") (auto simp: bit_simps)
  qed
  have "le_bytes m (of_le bs :: 'a word) = bs"
    using Cons n by simp
  then show ?case
    unfolding n of_le.simps le_bytes.simps lo hi by simp
qed

text \<open>Fields of a structure in memory.\<close>

definition u16_at :: "nat \<Rightarrow> bytes \<Rightarrow> u16" where
  "u16_at off b = of_le (subrange off 2 b)"

definition u32_at :: "nat \<Rightarrow> bytes \<Rightarrow> u32" where
  "u32_at off b = of_le (subrange off 4 b)"

definition u64_at :: "nat \<Rightarrow> bytes \<Rightarrow> u64" where
  "u64_at off b = of_le (subrange off 8 b)"

lemma subrange_app_skip:
  "length xs \<le> off \<Longrightarrow> subrange off n (xs @ ys) = subrange (off - length xs) n ys"
  by (simp add: subrange_def)

lemma subrange_app_take: "length xs = n \<Longrightarrow> subrange 0 n (xs @ ys) = xs"
  by (simp add: subrange_def)

lemma of_le_exact: "of_le (le_bytes 4 (w :: u32)) = w" "of_le (le_bytes 2 (v :: u16)) = v"
  by (simp_all add: of_le_le_bytes take_bit_word_eq_self)

lemmas layout = subrange_app_skip subrange_app_take of_le_exact u32_at_def u16_at_def nth_append

lemma le_exact: "length bs = 4 \<Longrightarrow> le_bytes 4 (of_le bs :: u32) = bs" "length bs = 2 \<Longrightarrow> le_bytes 2 (of_le bs :: u16) = bs"
  by (simp_all add: le_bytes_of_le)

lemma subrange_join: "off2 = off + m \<Longrightarrow> subrange off m xs @ subrange off2 n xs = subrange off (m + n) xs"
  by (simp add: subrange_append)

text \<open>C strings: the bytes before the first NUL.\<close>

definition cstr :: "bytes \<Rightarrow> bytes" where
  "cstr b = takeWhile (\<lambda>c. c \<noteq> 0) b"

definition c_lit :: "string \<Rightarrow> bytes" where
  "c_lit s = map of_char s"

section \<open>Register bit fields\<close>

text \<open>
  A field of \<open>w\<close> bits at position \<open>sh\<close>. The two bit-level laws are what a pair of
  get/set macros promises: reading extracts exactly the field, writing changes exactly the field.
\<close>

locale reg_field =
  fixes get :: "'a::len word \<Rightarrow> 'a word"
    and put :: "'a word \<Rightarrow> 'a word \<Rightarrow> 'a word"
    and sh w :: nat
  assumes get_bit: "bit (get r) n \<longleftrightarrow> n < w \<and> bit r (sh + n)"
    and put_bit: "n < LENGTH('a) \<Longrightarrow>
      bit (put v r) n \<longleftrightarrow> (if sh \<le> n \<and> n < sh + w then bit v (n - sh) else bit r n)"
    and fits: "sh + w \<le> LENGTH('a)"
begin

lemma get_put: "get (put v r) = take_bit w v"
  using fits by (intro bit_word_eqI) (auto simp: get_bit put_bit bit_simps)

lemma get_put_small: "unat v < 2 ^ w \<Longrightarrow> get (put v r) = v"
proof -
  assume "unat v < 2 ^ w"
  then have "unat (take_bit w v) = unat v"
    by (simp add: unsigned_take_bit_eq take_bit_nat_eq_self)
  then show ?thesis
    by (simp add: get_put word_unat_eq_iff)
qed

lemma put_get: "put (get r) r = r"
  by (intro bit_word_eqI) (auto simp: get_bit put_bit)

lemma put_put: "put v (put v' r) = put v r"
  by (intro bit_word_eqI) (auto simp: put_bit)

lemma get_less: "unat (get r) < 2 ^ w"
proof -
  have "get r = take_bit w (get r)"
    by (intro bit_word_eqI) (auto simp: get_bit bit_simps)
  then have "unat (get r) = take_bit w (unat (get r))"
    by (metis unsigned_take_bit_eq)
  then show ?thesis
    by (metis take_bit_nat_less_exp)
qed

lemma frame:
  assumes "\<And>r n. bit (g r) n \<longleftrightarrow> n < w2 \<and> bit r (sh2 + n)"
    and "sh + w \<le> sh2 \<or> sh2 + w2 \<le> sh" and "sh2 + w2 \<le> LENGTH('a)"
  shows "g (put v r) = (g r :: 'a word)"
  using assms fits by (intro bit_word_eqI) (auto simp: put_bit)

end

section \<open>Fixed-width layouts\<close>

text \<open>
  A packed C struct of \<open>len\<close> bytes: \<open>enc\<close> is its image in memory, \<open>dec\<close> the
  reinterpretation of that many bytes as the struct (a pointer cast in the sources).
\<close>

locale codec =
  fixes len :: nat and enc :: "'s \<Rightarrow> bytes" and dec :: "bytes \<Rightarrow> 's" and wf :: "'s \<Rightarrow> bool"
  assumes length_enc: "wf s \<Longrightarrow> length (enc s) = len"
    and dec_enc: "wf s \<Longrightarrow> dec (enc s @ rest) = s"
    and wf_dec: "length bs = len \<Longrightarrow> wf (dec bs)"
    and enc_dec: "length bs = len \<Longrightarrow> enc (dec bs) = bs"
begin

lemma enc_inj: "wf s \<Longrightarrow> wf t \<Longrightarrow> enc s = enc t \<Longrightarrow> s = t"
  using dec_enc [of s "[]"] dec_enc [of t "[]"] by simp

lemma dec_enc_exact: "wf s \<Longrightarrow> dec (enc s) = s"
  using dec_enc [of s "[]"] by simp

lemma dec_inj: "length bs = len \<Longrightarrow> length cs = len \<Longrightarrow> dec bs = dec cs \<Longrightarrow> bs = cs"
  by (metis enc_dec)

end

end
