(* ===== verification/Tegrabl_Utils.thy ===== *)
theory Tegrabl_Utils
  imports Prelude
begin

text \<open>
  The checksum and byte-order helpers of \<open>lib/utils/tegrabl_utils.c\<close>. The table-driven CRC-32
  is related to the bit-serial definition of the reflected polynomial \<open>0xEDB88320\<close>, and shown to
  chain over concatenated buffers, which is what readers that work chunk by chunk rely on.
\<close>

section \<open>CRC-32\<close>

definition tegrabl_crc32_tab :: "u32 list" where
  "tegrabl_crc32_tab = [
    0x00000000, 0x77073096, 0xee0e612c, 0x990951ba, 0x076dc419, 0x706af48f, 0xe963a535, 0x9e6495a3,
    0x0edb8832, 0x79dcb8a4, 0xe0d5e91e, 0x97d2d988, 0x09b64c2b, 0x7eb17cbd, 0xe7b82d07, 0x90bf1d91,
    0x1db71064, 0x6ab020f2, 0xf3b97148, 0x84be41de, 0x1adad47d, 0x6ddde4eb, 0xf4d4b551, 0x83d385c7,
    0x136c9856, 0x646ba8c0, 0xfd62f97a, 0x8a65c9ec, 0x14015c4f, 0x63066cd9, 0xfa0f3d63, 0x8d080df5,
    0x3b6e20c8, 0x4c69105e, 0xd56041e4, 0xa2677172, 0x3c03e4d1, 0x4b04d447, 0xd20d85fd, 0xa50ab56b,
    0x35b5a8fa, 0x42b2986c, 0xdbbbc9d6, 0xacbcf940, 0x32d86ce3, 0x45df5c75, 0xdcd60dcf, 0xabd13d59,
    0x26d930ac, 0x51de003a, 0xc8d75180, 0xbfd06116, 0x21b4f4b5, 0x56b3c423, 0xcfba9599, 0xb8bda50f,
    0x2802b89e, 0x5f058808, 0xc60cd9b2, 0xb10be924, 0x2f6f7c87, 0x58684c11, 0xc1611dab, 0xb6662d3d,
    0x76dc4190, 0x01db7106, 0x98d220bc, 0xefd5102a, 0x71b18589, 0x06b6b51f, 0x9fbfe4a5, 0xe8b8d433,
    0x7807c9a2, 0x0f00f934, 0x9609a88e, 0xe10e9818, 0x7f6a0dbb, 0x086d3d2d, 0x91646c97, 0xe6635c01,
    0x6b6b51f4, 0x1c6c6162, 0x856530d8, 0xf262004e, 0x6c0695ed, 0x1b01a57b, 0x8208f4c1, 0xf50fc457,
    0x65b0d9c6, 0x12b7e950, 0x8bbeb8ea, 0xfcb9887c, 0x62dd1ddf, 0x15da2d49, 0x8cd37cf3, 0xfbd44c65,
    0x4db26158, 0x3ab551ce, 0xa3bc0074, 0xd4bb30e2, 0x4adfa541, 0x3dd895d7, 0xa4d1c46d, 0xd3d6f4fb,
    0x4369e96a, 0x346ed9fc, 0xad678846, 0xda60b8d0, 0x44042d73, 0x33031de5, 0xaa0a4c5f, 0xdd0d7cc9,
    0x5005713c, 0x270241aa, 0xbe0b1010, 0xc90c2086, 0x5768b525, 0x206f85b3, 0xb966d409, 0xce61e49f,
    0x5edef90e, 0x29d9c998, 0xb0d09822, 0xc7d7a8b4, 0x59b33d17, 0x2eb40d81, 0xb7bd5c3b, 0xc0ba6cad,
    0xedb88320, 0x9abfb3b6, 0x03b6e20c, 0x74b1d29a, 0xead54739, 0x9dd277af, 0x04db2615, 0x73dc1683,
    0xe3630b12, 0x94643b84, 0x0d6d6a3e, 0x7a6a5aa8, 0xe40ecf0b, 0x9309ff9d, 0x0a00ae27, 0x7d079eb1,
    0xf00f9344, 0x8708a3d2, 0x1e01f268, 0x6906c2fe, 0xf762575d, 0x806567cb, 0x196c3671, 0x6e6b06e7,
    0xfed41b76, 0x89d32be0, 0x10da7a5a, 0x67dd4acc, 0xf9b9df6f, 0x8ebeeff9, 0x17b7be43, 0x60b08ed5,
    0xd6d6a3e8, 0xa1d1937e, 0x38d8c2c4, 0x4fdff252, 0xd1bb67f1, 0xa6bc5767, 0x3fb506dd, 0x48b2364b,
    0xd80d2bda, 0xaf0a1b4c, 0x36034af6, 0x41047a60, 0xdf60efc3, 0xa867df55, 0x316e8eef, 0x4669be79,
    0xcb61b38c, 0xbc66831a, 0x256fd2a0, 0x5268e236, 0xcc0c7795, 0xbb0b4703, 0x220216b9, 0x5505262f,
    0xc5ba3bbe, 0xb2bd0b28, 0x2bb45a92, 0x5cb36a04, 0xc2d7ffa7, 0xb5d0cf31, 0x2cd99e8b, 0x5bdeae1d,
    0x9b64c2b0, 0xec63f226, 0x756aa39c, 0x026d930a, 0x9c0906a9, 0xeb0e363f, 0x72076785, 0x05005713,
    0x95bf4a82, 0xe2b87a14, 0x7bb12bae, 0x0cb61b38, 0x92d28e9b, 0xe5d5be0d, 0x7cdcefb7, 0x0bdbdf21,
    0x86d3d2d4, 0xf1d4e242, 0x68ddb3f8, 0x1fda836e, 0x81be16cd, 0xf6b9265b, 0x6fb077e1, 0x18b74777,
    0x88085ae6, 0xff0f6a70, 0x66063bca, 0x11010b5c, 0x8f659eff, 0xf862ae69, 0x616bffd3, 0x166ccf45,
    0xa00ae278, 0xd70dd2ee, 0x4e048354, 0x3903b3c2, 0xa7672661, 0xd06016f7, 0x4969474d, 0x3e6e77db,
    0xaed16a4a, 0xd9d65adc, 0x40df0b66, 0x37d83bf0, 0xa9bcae53, 0xdebb9ec5, 0x47b2cf7f, 0x30b5ffe9,
    0xbdbdf21c, 0xcabac28a, 0x53b39330, 0x24b4a3a6, 0xbad03605, 0xcdd70693, 0x54de5729, 0x23d967bf,
    0xb3667a2e, 0xc4614ab8, 0x5d681b02, 0x2a6f2b94, 0xb40bbe37, 0xc30c8ea1, 0x5a05df1b, 0x2d02ef8d]"

text \<open>The loop body and the loop over the buffer.\<close>

definition crc32_byte :: "u32 \<Rightarrow> u8 \<Rightarrow> u32" where
  "crc32_byte final_crc b =
     tegrabl_crc32_tab ! unat ((final_crc XOR ucast b) AND 0xFF) XOR drop_bit 8 final_crc"

definition tegrabl_utils_crc32 :: "u32 \<Rightarrow> bytes \<Rightarrow> u32" where
  "tegrabl_utils_crc32 val buffer = foldl crc32_byte (val XOR NOT 0) buffer XOR NOT 0"

text \<open>Reference: one bit of polynomial division, eight of them per byte.\<close>

definition crc32_bit :: "u32 \<Rightarrow> u32" where
  "crc32_bit c = (if odd c then drop_bit 1 c XOR 0xEDB88320 else drop_bit 1 c)"

definition crc32_bits8 :: "u32 \<Rightarrow> u32" where
  "crc32_bits8 c = crc32_bit (crc32_bit (crc32_bit (crc32_bit
                    (crc32_bit (crc32_bit (crc32_bit (crc32_bit c)))))))"

definition crc32_reference :: "u32 \<Rightarrow> bytes \<Rightarrow> u32" where
  "crc32_reference val buffer =
     foldl (\<lambda>c b. crc32_bits8 (c XOR ucast b)) (val XOR NOT 0) buffer XOR NOT 0"

lemma length_crc32_tab [simp]: "length tegrabl_crc32_tab = 256"
  by (simp add: tegrabl_crc32_tab_def)

fun entries_from :: "(u32 \<Rightarrow> u32) \<Rightarrow> u32 \<Rightarrow> u32 list \<Rightarrow> bool" where
  "entries_from f i [] = True"
| "entries_from f i (x # xs) = (x = f i \<and> entries_from f (i + 1) xs)"

lemma entries_from_nth: "entries_from f i xs \<Longrightarrow> k < length xs \<Longrightarrow> xs ! k = f (i + of_nat k)"
  by (induction xs arbitrary: i k) (auto simp: nth_Cons' ac_simps split: if_splits)

lemma crc32_tab_entries: "entries_from crc32_bits8 0 tegrabl_crc32_tab"
  by (simp add: tegrabl_crc32_tab_def crc32_bits8_def crc32_bit_def)

lemma crc32_bit_xor: "crc32_bit (a XOR b) = crc32_bit a XOR crc32_bit b"
  by (rule bit_word_eqI) (auto simp: crc32_bit_def bit_simps even_xor_iff)

lemma crc32_bits8_xor: "crc32_bits8 (a XOR b) = crc32_bits8 a XOR crc32_bits8 b"
  by (simp add: crc32_bits8_def crc32_bit_xor)

lemma crc32_bit_even: "\<not> bit c 0 \<Longrightarrow> crc32_bit c = drop_bit 1 c"
  by (simp add: crc32_bit_def bit_0)

lemma crc32_bits8_shift: "take_bit 8 c = 0 \<Longrightarrow> crc32_bits8 c = drop_bit 8 c"
proof -
  assume z: "take_bit 8 c = 0"
  have nb: "\<not> bit (drop_bit k c) 0" if "k < 8" for k
  proof -
    have "bit (take_bit 8 c) k = bit c k" using that by (simp add: bit_simps)
    then show ?thesis using z by (simp add: bit_simps)
  qed
  have step: "crc32_bit (drop_bit k c) = drop_bit (Suc k) c" if "k < 8" for k
    using crc32_bit_even [OF nb [OF that]] by (simp add: drop_bit_drop_bit)
  have "crc32_bit c = drop_bit 1 c" and "crc32_bit (drop_bit 1 c) = drop_bit 2 c"
    using step [of 0] step [of 1] by (simp_all add: numeral_2_eq_2)
  then show ?thesis
    using step [of 2] step [of 3] step [of 4] step [of 5] step [of 6] step [of 7]
    by (simp add: crc32_bits8_def del: One_nat_def)
qed

lemma crc32_tab_nth: "i < 256 \<Longrightarrow> tegrabl_crc32_tab ! i = crc32_bits8 (of_nat i)"
  using entries_from_nth [OF crc32_tab_entries, of i] by simp

lemma crc32_byte_reference: "crc32_byte c b = crc32_bits8 (c XOR ucast b)"
proof -
  let ?x = "c XOR ucast b :: u32"
  have ff: "(0xFF :: u32) = mask 8" by (simp add: mask_eq_exp_minus_1)
  have lo: "unat (?x AND 0xFF) < 256"
    using take_bit_nat_less_exp [of 8 "unat ?x"]
    by (simp only: ff take_bit_eq_mask [symmetric] unsigned_take_bit_eq) simp
  have hi: "take_bit 8 (push_bit 8 (drop_bit 8 ?x)) = 0"
    by (rule bit_word_eqI) (simp add: bit_simps)
  have split: "?x = (?x AND 0xFF) XOR push_bit 8 (drop_bit 8 ?x)"
    unfolding ff by (rule bit_word_eqI) (auto simp: bit_simps dest: bit_imp_le_length)
  have up: "drop_bit 8 (push_bit 8 (drop_bit 8 ?x)) = drop_bit 8 c"
    by (rule bit_word_eqI) (auto simp: bit_simps dest: bit_imp_le_length)
  have "tegrabl_crc32_tab ! unat (?x AND 0xFF) = crc32_bits8 (?x AND 0xFF)"
    by (simp only: crc32_tab_nth [OF lo] of_nat_unat ucast_id)
  then have "crc32_bits8 ?x = tegrabl_crc32_tab ! unat (?x AND 0xFF) XOR drop_bit 8 c"
    by (subst split) (simp only: crc32_bits8_xor crc32_bits8_shift [OF hi] up)
  then show ?thesis by (simp add: crc32_byte_def)
qed


lemma crc32_fold_reference:
  "foldl crc32_byte c buffer = foldl (\<lambda>c b. crc32_bits8 (c XOR ucast b)) c buffer"
  by (rule arg_cong [where f = "\<lambda>f. foldl f c buffer"]) (simp add: fun_eq_iff crc32_byte_reference)

lemma crc32_bit_inj: "crc32_bit a = crc32_bit b \<Longrightarrow> a = b"
proof -
  assume eq: "crc32_bit a = crc32_bit b"
  have top: "bit (crc32_bit c) 31 = bit c 0" for c
    by (simp add: crc32_bit_def bit_simps bit_0)
  have par: "bit a 0 = bit b 0" using top [of a] top [of b] eq by simp
  have rest: "bit (crc32_bit c) n = (bit c (Suc n) \<noteq> (bit c 0 \<and> bit (0xEDB88320 :: u32) n))"
    if "n < 31" for c n
    using that by (auto simp: crc32_bit_def bit_simps bit_0)
  show "a = b"
  proof (rule bit_word_eqI)
    fix n assume n: "n < LENGTH(32)"
    show "bit a n = bit b n"
    proof (cases n)
      case 0
      then show ?thesis using par by simp
    next
      case (Suc m)
      then have "m < 31" using n by simp
      then show ?thesis using rest [of m a] rest [of m b] eq par Suc by auto
    qed
  qed
qed

lemma crc32_bits8_inj: "crc32_bits8 a = crc32_bits8 b \<Longrightarrow> a = b"
  unfolding crc32_bits8_def by (blast dest: crc32_bit_inj)

lemma crc32_byte_inj_state: "crc32_byte c b = crc32_byte d b \<Longrightarrow> c = d"
  by (drule crc32_bits8_inj [OF trans [OF trans [OF crc32_byte_reference [symmetric]] crc32_byte_reference]])
     (simp add: xor_right_cancel)

lemma crc32_byte_inj_byte: "crc32_byte c b = crc32_byte c b' \<Longrightarrow> b = b'"
proof -
  assume "crc32_byte c b = crc32_byte c b'"
  then have "c XOR ucast b = c XOR ucast b'"
    by (simp add: crc32_byte_reference crc32_bits8_inj)
  then have "(ucast b :: u32) = ucast b'"
    by (metis xor.commute xor_right_cancel)
  then show "b = b'"
    by (simp add: ucast_u8_u32_inj)
qed

lemma crc32_fold_inj_state: "foldl crc32_byte c buffer = foldl crc32_byte d buffer \<Longrightarrow> c = d"
  by (induction buffer arbitrary: c d) (auto dest: crc32_byte_inj_state)

text \<open>Splitting a buffer: the final inversion of one call is undone by the next.\<close>

lemma crc32_append:
  "tegrabl_utils_crc32 (tegrabl_utils_crc32 val xs) ys = tegrabl_utils_crc32 val (xs @ ys)"
  by (simp add: tegrabl_utils_crc32_def xor.assoc)

section \<open>Byte checksums\<close>

definition tegrabl_utils_checksum :: "bytes \<Rightarrow> u32" where
  "tegrabl_utils_checksum buffer = foldl (\<lambda>checksum b. checksum + ucast b) 0 buffer"

primrec crc8_bits :: "nat \<Rightarrow> u8 \<Rightarrow> u8 \<Rightarrow> u8" where
  "crc8_bits 0 t crc8 = crc8"
| "crc8_bits (Suc k) t crc8 =
     (let odd_bit = ((t XOR crc8) AND 1 = 1);
          crc8 = drop_bit 1 crc8;
          t = drop_bit 1 t
      in crc8_bits k t (if odd_bit then crc8 XOR 0x8C else crc8))"

definition tegrabl_utils_crc8 :: "bytes \<Rightarrow> u8" where
  "tegrabl_utils_crc8 buffer = foldl (\<lambda>crc8 t. crc8_bits 8 t crc8) 0 buffer"

primrec to_binary_loop :: "nat \<Rightarrow> u8 \<Rightarrow> u32 \<Rightarrow> u32" where
  "to_binary_loop 0 byte_value byte_num = byte_num"
| "to_binary_loop (Suc i) byte_value byte_num =
     (let bit_value = drop_bit i (byte_value AND push_bit i 1)
      in to_binary_loop i byte_value (byte_num * 10 + ucast bit_value))"

definition tegrabl_utils_convert_to_binary :: "u8 \<Rightarrow> u32" where
  "tegrabl_utils_convert_to_binary byte_value = to_binary_loop 8 byte_value 0"

section \<open>Byte order\<close>

text \<open>The sources reinterpret the word as four bytes in memory order (little-endian).\<close>

definition be32tole32 :: "u32 \<Rightarrow> u32" where
  "be32tole32 data =
     (let dptr = le_bytes 4 data
      in push_bit 24 (ucast (dptr ! 0)) OR push_bit 16 (ucast (dptr ! 1)) OR
         push_bit 8 (ucast (dptr ! 2)) OR ucast (dptr ! 3))"

definition le32tobe32 :: "u32 \<Rightarrow> u32" where
  "le32tobe32 data =
     of_le [ucast (drop_bit 24 data AND 0xFF), ucast (drop_bit 16 data AND 0xFF),
            ucast (drop_bit 8 data AND 0xFF), ucast (data AND 0xFF)]"

section \<open>Number parsing\<close>

text \<open>
  A C string is the list of its characters up to the terminating NUL, so the end of the list reads
  as NUL. \<open>tegrabl_utils_strtoul_parse\<close> is a scan that keeps the accumulator, the flag
  \<open>any\<close> (no digit yet, some digit, overflow) and the position; the model returns the value and
  the offset that the source stores in \<open>endptr\<close>.
\<close>

abbreviation ULONG_MAX :: u64 where "ULONG_MAX \<equiv> 0xFFFFFFFFFFFFFFFF"

definition check_overflow :: "u64 \<Rightarrow> u32 \<Rightarrow> nat \<Rightarrow> bool" where
  "check_overflow acc val base =
     (let cutoff = ULONG_MAX div of_nat base;
          cutlim = ULONG_MAX mod of_nat base
      in acc > cutoff \<or> (acc = cutoff \<and> ucast val > cutlim))"

definition digit_value :: "nat \<Rightarrow> u8 \<Rightarrow> nat" where
  "digit_value base c =
     (if 48 \<le> c \<and> c \<le> 57 then unat c - 48
      else if 65 \<le> c \<and> c \<le> 90 then unat c - 65 + 10
      else if 97 \<le> c \<and> c \<le> 122 then unat c - 97 + 10
      else base)"

datatype scan_any = No_digit | Some_digit | Overflowed

primrec strtoul_loop :: "nat \<Rightarrow> bytes \<Rightarrow> u64 \<Rightarrow> scan_any \<Rightarrow> nat \<Rightarrow> u64 \<times> scan_any \<times> nat" where
  "strtoul_loop base [] acc any pos = (acc, any, pos)"
| "strtoul_loop base (c # s) acc any pos =
     (let temp1 = digit_value base c
      in if temp1 \<ge> base then (acc, any, pos)
         else if any = Overflowed then strtoul_loop base s acc any (Suc pos)
         else if check_overflow acc (of_nat temp1) base
           then strtoul_loop base s ULONG_MAX Overflowed (Suc pos)
         else strtoul_loop base s (acc * of_nat base + of_nat temp1) Some_digit (Suc pos))"

definition tegrabl_utils_strtoul_parse :: "bytes \<Rightarrow> nat \<Rightarrow> nat \<Rightarrow> bool \<Rightarrow> u64 \<times> nat" where
  "tegrabl_utils_strtoul_parse s start base neg =
     (case strtoul_loop base s 0 No_digit start of (acc, any, pos) \<Rightarrow>
        (if neg \<and> any = Some_digit then - acc else acc,
         if any \<noteq> No_digit then pos else 0))"

definition isspace :: "u8 \<Rightarrow> bool" where
  "isspace c = (c = 32 \<or> (9 \<le> c \<and> c \<le> 13))"

definition remove_spaces :: "bytes \<Rightarrow> bytes" where
  "remove_spaces s = dropWhile isspace s"

definition is_valid_base :: "int \<Rightarrow> bool" where
  "is_valid_base base = (\<not> (base < 0 \<or> base = 1 \<or> base > 36))"

fun has_hex_base_chars :: "bytes \<Rightarrow> bool" where
  "has_hex_base_chars (c0 # c1 # s) = (c0 = 48 \<and> (c1 = 120 \<or> c1 = 88))"
| "has_hex_base_chars s = False"

definition tegrabl_utils_strtoul :: "bytes \<Rightarrow> int \<Rightarrow> u64 \<times> nat" where
  "tegrabl_utils_strtoul nptr base =
     (if \<not> is_valid_base base then (0, 0)
      else
        let s = remove_spaces nptr;
            neg = (s \<noteq> [] \<and> hd s = 45);
            s = (if s \<noteq> [] \<and> (hd s = 45 \<or> hd s = 43) then tl s else s);
            hex = ((base = 0 \<or> base = 16) \<and> has_hex_base_chars s);
            base = (if hex then 16 else base);
            s = (if hex then drop 2 s else s);
            base = (if base = 0 then (if s \<noteq> [] \<and> hd s = 48 then 8 else 10) else base)
        in tegrabl_utils_strtoul_parse s (length nptr - length s) (nat base) neg)"

end
