(* ===== verification/Tegrabl_Utils_Correct.thy ===== *)
theory Tegrabl_Utils_Correct
  imports Tegrabl_Utils
begin

text \<open>
  Correctness of the utilities: the table-driven CRC-32 is the bitwise CRC, detects every corrupted
  byte and composes over chunks; the byte checksum is the sum modulo 32 bits; the byte-order
  conversions reverse the bytes; \<open>tegrabl_utils_strtoul\<close> reads back every digit string, saturating
  on overflow.
\<close>

section \<open>Lemmas\<close>

lemma crc32_one_byte:
  assumes "b \<noteq> b'"
  shows "tegrabl_utils_crc32 val (xs @ b # ys) \<noteq> tegrabl_utils_crc32 val (xs @ b' # ys)"
proof
  assume "tegrabl_utils_crc32 val (xs @ b # ys) = tegrabl_utils_crc32 val (xs @ b' # ys)"
  then have "foldl crc32_byte (crc32_byte (foldl crc32_byte (val XOR NOT 0) xs) b) ys =
      foldl crc32_byte (crc32_byte (foldl crc32_byte (val XOR NOT 0) xs) b') ys"
    by (simp add: tegrabl_utils_crc32_def xor_right_cancel)
  then show False
    using crc32_fold_inj_state crc32_byte_inj_byte assms by blast
qed

lemma crc32_update_differs:
  assumes "i < length bs" and "b \<noteq> bs ! i"
  shows "tegrabl_utils_crc32 val (bs[i := b]) \<noteq> tegrabl_utils_crc32 val bs"
proof -
  have "bs[i := b] = take i bs @ b # drop (Suc i) bs" "bs = take i bs @ bs ! i # drop (Suc i) bs"
    using assms(1) by (simp_all add: upd_conv_take_nth_drop id_take_nth_drop)
  then show ?thesis
    using crc32_one_byte [OF assms(2), of val "take i bs" "drop (Suc i) bs"] by metis
qed

lemma checksum_sum: "unat (foldl (\<lambda>c b. c + ucast b) a bs :: u32) = (unat a + sum_list (map unat (bs::bytes))) mod 2^32"
proof (induction bs arbitrary: a)
  case Nil
  then show ?case using unsigned_less [of a, where 'a = nat] by simp
next
  case (Cons b bs)
  have "unat (a + ucast b) = (unat a + unat b) mod 2 ^ 32"
    by (simp add: unat_word_ariths(1) unat_ucast_up)
  then show ?case
    using mod_add_left_eq [of "unat a + unat b" "2^32" "sum_list (map unat bs)"]
    by (simp add: Cons add.assoc)
qed

lemma le_bytes_4: "le_bytes 4 d = [ucast d, ucast (drop_bit 8 d), ucast (drop_bit 16 d), ucast (drop_bit 24 d)]"
  by (simp add: eval_nat_numeral(2,3) drop_bit_drop_bit)

lemma be32tole32_le32tobe32: "be32tole32 d = le32tobe32 d"
proof -
  have m: "(0xFF :: u32) = mask 8" by (simp add: mask_eq_exp_minus_1)
  show ?thesis unfolding be32tole32_def le32tobe32_def m le_bytes_4
  by (rule bit_word_eqI) (auto simp: bit_simps)
qed

lemma le32tobe32_bytes: "le_bytes 4 (le32tobe32 d) = rev (le_bytes 4 d)"
proof -
  have m: "(0xFF :: u32) = mask 8" by (simp add: mask_eq_exp_minus_1)
  have u: "ucast (x AND mask 8) = (ucast x :: u8)" for x :: u32
     by (rule bit_word_eqI) (auto simp: bit_simps)
  have "le32tobe32 d = of_le (rev (le_bytes 4 d))"
    unfolding le32tobe32_def m u le_bytes_4 by simp
  then show ?thesis by (simp add: le_bytes_of_le)
qed

lemma digit_overflow:
  assumes "2 \<le> base" "base \<le> 36" "d < base"
  shows "check_overflow acc (of_nat d) base \<longleftrightarrow> 2^64 \<le> unat acc * base + d"
proof -
  have b: "unat (of_nat base :: u64) = base" using assms by (simp add: unat_of_nat)
  have m: "unat (ULONG_MAX) = 2^64 - 1" by simp
  have dd: "unat (ucast (of_nat d :: u32) :: u64) = d" using assms by (simp add: unat_ucast_up unat_of_nat)
  have e: "check_overflow acc (of_nat d) base \<longleftrightarrow> (2^64 - 1) div base < unat acc \<or> (unat acc = (2^64 - 1) div base \<and> (2^64 - 1) mod base < d)"
    unfolding check_overflow_def Let_def word_less_nat_alt word_unat_eq_iff[of acc] unat_div_distrib unat_mod_distrib b m dd by simp
  define q r where "q = (2^64 - 1) div base" and "r = (2^64 - 1::nat) mod base"
  have qr: "q * base + r = 2^64 - 1" and rb: "r < base"
    using assms by (simp_all add: q_def r_def)
  note e = e [folded q_def r_def]
  show ?thesis
  proof (cases "unat acc" q rule: linorder_cases)
    case less
    then have "Suc (unat acc) * base \<le> q * base" by (intro mult_le_mono1) simp
    then show ?thesis using e qr less assms by (simp add: algebra_simps)
  next
    case equal
    then show ?thesis using e qr by (auto simp: algebra_simps)
  next
    case greater
    then have "Suc q * base \<le> unat acc * base" by (intro mult_le_mono1) simp
    then show ?thesis using e qr rb greater by (simp add: algebra_simps)
  qed
qed

fun horner :: "nat \<Rightarrow> nat \<Rightarrow> nat list \<Rightarrow> nat" where
  "horner b a [] = a" | "horner b a (d # ds) = horner b (a * b + d) ds"

definition digit_char :: "nat \<Rightarrow> u8" where
  "digit_char d = (if d < 10 then of_nat (48 + d) else of_nat (87 + d))"

lemma unat_digit_char: "d < 36 \<Longrightarrow> unat (digit_char d) = (if d < 10 then 48 + d else 87 + d)"
proof -
  assume "d < 36"
  have "unat (of_nat k :: u8) = k" if "k < 256" for k
    using that by (simp only: unat_of_nat) simp
  from this [of "48 + d"] this [of "87 + d"] show ?thesis
    using \<open>d < 36\<close> by (simp add: digit_char_def del: of_nat_add)
qed

lemma digit_value_char: "d < 36 \<Longrightarrow> digit_value base (digit_char d) = d"
  by (simp add: digit_value_def word_le_nat_alt unat_digit_char)

lemma horner_mono: "0 < b \<Longrightarrow> a \<le> horner b a ds"
proof (induction ds arbitrary: a)
  case (Cons d ds)
  have "a \<le> a * b + d" using Cons.prems by (cases b) auto
  also have "\<dots> \<le> horner b (a * b + d) ds" using Cons by blast
  finally show ?case by simp
qed simp

lemma loop_overflowed:
  "\<forall>d\<in>set ds. d < base \<Longrightarrow> base \<le> 36 \<Longrightarrow>
   strtoul_loop base (map digit_char ds) acc Overflowed pos = (acc, Overflowed, pos + length ds)"
  by (induction ds arbitrary: pos) (auto simp: digit_value_char)

lemma loop_digits:
  assumes "2 \<le> base" "base \<le> 36"
  shows "\<forall>d\<in>set ds. d < base \<Longrightarrow> any \<noteq> Overflowed \<Longrightarrow>
   strtoul_loop base (map digit_char ds) acc any pos =
    (if horner base (unat acc) ds < 2^64 
     then (of_nat (horner base (unat acc) ds), (if ds = [] then any else Some_digit), pos + length ds)
     else (ULONG_MAX, Overflowed, pos + length ds))"
proof (induction ds arbitrary: acc any pos)
  case Nil
  then show ?case using unsigned_less [of acc, where 'a = nat] by simp
next
  case (Cons d ds)
  have d: "d < base" "d < 36" using Cons.prems assms by auto
  let ?h = "unat acc * base + d"
  have dv: "digit_value base (digit_char d) = d" using d by (simp add: digit_value_char)
  show ?case
  proof (cases "2^64 \<le> ?h")
    case True
    then have "check_overflow acc (of_nat d) base" using digit_overflow assms d by simp
    moreover have "\<not> horner base (unat acc) (d # ds) < 2^64"
      using True horner_mono [of base ?h ds] assms by simp
    ultimately show ?thesis using Cons.prems d assms by (simp add: dv loop_overflowed)
  next
    case False
    then have no: "\<not> check_overflow acc (of_nat d) base" using digit_overflow assms d by simp
    have "unat (acc * of_nat base + of_nat d) = ?h"
      using False assms d by (simp add: unat_word_ariths unat_of_nat)
    then show ?thesis using Cons.IH [of Some_digit "acc * of_nat base + of_nat d" "Suc pos"] Cons.prems no d
      by (simp add: dv)
  qed
qed

lemma digit_char_not_sign: "d < 36 \<Longrightarrow> digit_char d \<noteq> 45 \<and> digit_char d \<noteq> 43 \<and> \<not> isspace (digit_char d)"
  by (simp add: isspace_def word_unat_eq_iff word_le_nat_alt unat_digit_char)

lemma digits_no_hex_prefix: "\<forall>d\<in>set ds. d < 16 \<Longrightarrow> \<not> has_hex_base_chars (map digit_char ds)"
  by (cases "map digit_char ds" rule: has_hex_base_chars.cases)
    (auto simp: word_unat_eq_iff unat_digit_char split: if_splits)

section \<open>Properties\<close>

text \<open>
  C32. The table-driven CRC-32 computes the bitwise CRC of the reflected polynomial 0xEDB88320 for
  every start value and buffer: all 256 table entries are right and the loop uses them correctly.
\<close>

theorem crc32_table_driven_correct: "tegrabl_utils_crc32 val buffer = crc32_reference val buffer"
  by (simp add: tegrabl_utils_crc32_def crc32_reference_def crc32_fold_reference)

text \<open>
  The CRC detects every corruption confined to one byte: changing a byte of the buffer to any
  other value changes the CRC.
\<close>

theorem crc32_detects_byte_corruption:
  assumes "i < length bs" and "b \<noteq> bs ! i"
  shows "tegrabl_utils_crc32 val (bs[i := b]) \<noteq> tegrabl_utils_crc32 val bs"
  using crc32_update_differs [OF assms] .

text \<open>
  Feeding a buffer in chunks, each call starting from the CRC of the bytes before, gives the CRC
  of the whole buffer; starting from 0 is the plain CRC.
\<close>

theorem crc32_chunked:
  "foldl tegrabl_utils_crc32 val chunks =
     (if chunks = [] then val else tegrabl_utils_crc32 val (concat chunks))"
proof (induction chunks arbitrary: val)
  case (Cons c chunks)
  then show ?case
    by (cases "chunks = []") (auto simp: crc32_append)
qed simp

text \<open>
  Parsing a non-empty string of digits of any base from 2 to 36 yields the number the digits
  denote, or the maximal value when that number does not fit 64 bits, and consumes the whole string.
\<close>

theorem strtoul_digits:
  assumes "2 \<le> base" "base \<le> 36" "ds \<noteq> []" "\<forall>d\<in>set ds. d < base"
  shows "tegrabl_utils_strtoul (map digit_char ds) (int base) =
     (if horner base 0 ds < 2^64 then of_nat (horner base 0 ds) else ULONG_MAX, length ds)"
proof -
  let ?s = "map digit_char ds"
  have d: "hd ds < 36" using assms by (cases ds) auto
  have hd: "?s \<noteq> []" "hd ?s = digit_char (hd ds)"
    using assms(3) by (simp_all add: hd_map)
  have sp: "remove_spaces ?s = ?s"
    using digit_char_not_sign [OF d] assms(3) by (cases ds) (simp_all add: remove_spaces_def)
  have hx: "\<not> (int base = 16 \<and> has_hex_base_chars ?s)"
    using digits_no_hex_prefix [of ds] assms by auto
  show ?thesis
    using assms digit_char_not_sign [OF d] hx hd
    by (auto simp: tegrabl_utils_strtoul_def is_valid_base_def Let_def sp
         tegrabl_utils_strtoul_parse_def loop_digits [OF assms(1,2)])
qed

text \<open>
  The byte sum is the sum of the bytes modulo 32 bits, and the two byte-order conversions are the
  same function: it reverses the bytes of the word in memory.
\<close>

theorem checksum_and_byte_order:
  "unat (tegrabl_utils_checksum bs) = sum_list (map unat bs) mod 2 ^ 32 \<and>
   be32tole32 d = le32tobe32 d \<and> le_bytes 4 (le32tobe32 d) = rev (le_bytes 4 d)"
  using checksum_sum [of 0 bs]
  by (simp add: tegrabl_utils_checksum_def be32tole32_le32tobe32 le32tobe32_bytes)

end
