(* ===== verification/Tegrabl_Error.thy ===== *)
theory Tegrabl_Error
  imports Prelude
begin

text \<open>
  The 32-bit error values every operation returns (\<open>include/tegrabl_error.h\<close>): a reason, an
  auxiliary code, the module where the error was raised (lowest layer) and the module that last
  passed it on (highest layer), packed as four bytes with the bit-field macros of
  \<open>include/lib/tegrabl_utils.h\<close>. Reasons and modules are the constants of the header that the
  modelled components use.
\<close>

section \<open>Bit-field macros\<close>

definition BITFIELD_ONES :: "nat \<Rightarrow> 'a::len word" where
  "BITFIELD_ONES width = push_bit width 1 - 1"

definition BITFIELD_MASK :: "nat \<Rightarrow> nat \<Rightarrow> 'a::len word" where
  "BITFIELD_MASK width shift = push_bit shift (BITFIELD_ONES width)"

definition BITFIELD_SET :: "'a::len word \<Rightarrow> 'a word \<Rightarrow> nat \<Rightarrow> nat \<Rightarrow> 'a word" where
  "BITFIELD_SET var value width shift =
     (var AND NOT (BITFIELD_MASK width shift)) OR push_bit shift (value AND BITFIELD_ONES width)"

lemma BITFIELD_ONES_mask: "BITFIELD_ONES width = mask width"
  by (simp add: BITFIELD_ONES_def mask_eq_exp_minus_1)

lemma bit_BITFIELD_SET:
  "n < LENGTH('a) \<Longrightarrow> bit (BITFIELD_SET (var :: 'a::len word) value width shift) n \<longleftrightarrow>
     (if shift \<le> n \<and> n < shift + width then bit value (n - shift) else bit var n)"
  by (auto simp: BITFIELD_SET_def BITFIELD_MASK_def BITFIELD_ONES_mask bit_simps)

section \<open>Error values\<close>

type_synonym tegrabl_error_t = u32

abbreviation TEGRABL_NO_ERROR :: tegrabl_error_t where "TEGRABL_NO_ERROR \<equiv> 0"

abbreviation TEGRABL_ERR_NOT_SUPPORTED :: u32 where "TEGRABL_ERR_NOT_SUPPORTED \<equiv> 0x01"
abbreviation TEGRABL_ERR_INVALID :: u32 where "TEGRABL_ERR_INVALID \<equiv> 0x02"
abbreviation TEGRABL_ERR_NO_MEMORY :: u32 where "TEGRABL_ERR_NO_MEMORY \<equiv> 0x03"
abbreviation TEGRABL_ERR_OVERFLOW :: u32 where "TEGRABL_ERR_OVERFLOW \<equiv> 0x04"
abbreviation TEGRABL_ERR_UNDERFLOW :: u32 where "TEGRABL_ERR_UNDERFLOW \<equiv> 0x05"
abbreviation TEGRABL_ERR_TOO_LARGE :: u32 where "TEGRABL_ERR_TOO_LARGE \<equiv> 0x07"
abbreviation TEGRABL_ERR_TOO_SMALL :: u32 where "TEGRABL_ERR_TOO_SMALL \<equiv> 0x08"
abbreviation TEGRABL_ERR_OUT_OF_RANGE :: u32 where "TEGRABL_ERR_OUT_OF_RANGE \<equiv> 0x0b"
abbreviation TEGRABL_ERR_NOT_FOUND :: u32 where "TEGRABL_ERR_NOT_FOUND \<equiv> 0x0d"
abbreviation TEGRABL_ERR_INVALID_STATE :: u32 where "TEGRABL_ERR_INVALID_STATE \<equiv> 0x15"
abbreviation TEGRABL_ERR_VERIFY_FAILED :: u32 where "TEGRABL_ERR_VERIFY_FAILED \<equiv> 0x18"
abbreviation TEGRABL_ERR_INVALID_CONFIG :: u32 where "TEGRABL_ERR_INVALID_CONFIG \<equiv> 0x1c"
abbreviation TEGRABL_ERR_INVALID_VERSION :: u32 where "TEGRABL_ERR_INVALID_VERSION \<equiv> 0x1e"
abbreviation TEGRABL_ERR_NOT_INITIALIZED :: u32 where "TEGRABL_ERR_NOT_INITIALIZED \<equiv> 0x20"
abbreviation TEGRABL_ERR_ALREADY_EXISTS :: u32 where "TEGRABL_ERR_ALREADY_EXISTS \<equiv> 0x21"
abbreviation TEGRABL_ERR_BAD_PARAMETER :: u32 where "TEGRABL_ERR_BAD_PARAMETER \<equiv> 0x2a"

abbreviation TEGRABL_ERR_PARTITION_MANAGER :: u32 where "TEGRABL_ERR_PARTITION_MANAGER \<equiv> 0x0d"
abbreviation TEGRABL_ERR_BLOCK_DEV :: u32 where "TEGRABL_ERR_BLOCK_DEV \<equiv> 0x0e"
abbreviation TEGRABL_ERR_GPT :: u32 where "TEGRABL_ERR_GPT \<equiv> 0x1c"
abbreviation TEGRABL_ERR_FASTBOOT :: u32 where "TEGRABL_ERR_FASTBOOT \<equiv> 0x18"
abbreviation TEGRABL_ERR_SPARSE :: u32 where "TEGRABL_ERR_SPARSE \<equiv> 0x33"
abbreviation TEGRABL_ERR_AB_BOOTCTRL :: u32 where "TEGRABL_ERR_AB_BOOTCTRL \<equiv> 0x54"

definition TEGRABL_ERROR_REASON :: "tegrabl_error_t \<Rightarrow> u32" where
  "TEGRABL_ERROR_REASON error = error AND BITFIELD_ONES 8"

definition TEGRABL_ERROR_AUX_INFO :: "tegrabl_error_t \<Rightarrow> u32" where
  "TEGRABL_ERROR_AUX_INFO error = drop_bit 8 error AND BITFIELD_ONES 8"

definition TEGRABL_ERROR_MODULE :: "tegrabl_error_t \<Rightarrow> u32" where
  "TEGRABL_ERROR_MODULE error = drop_bit 16 error AND BITFIELD_ONES 8"

definition TEGRABL_ERROR_HIGHEST_MODULE :: "tegrabl_error_t \<Rightarrow> u32" where
  "TEGRABL_ERROR_HIGHEST_MODULE error = drop_bit 24 error AND BITFIELD_ONES 8"

definition tegrabl_error_value :: "u32 \<Rightarrow> u8 \<Rightarrow> u32 \<Rightarrow> tegrabl_error_t" where
  "tegrabl_error_value module aux_info reason =
     (let error = TEGRABL_NO_ERROR;
          error = BITFIELD_SET error module 8 24;
          error = BITFIELD_SET error module 8 16;
          error = BITFIELD_SET error (ucast aux_info) 8 8
      in BITFIELD_SET error reason 8 0)"

definition tegrabl_err_set_highest_module :: "tegrabl_error_t \<Rightarrow> u32 \<Rightarrow> tegrabl_error_t" where
  "tegrabl_err_set_highest_module error module = BITFIELD_SET error module 8 24"

definition tegrabl_err_set_lowest_module :: "tegrabl_error_t \<Rightarrow> u32 \<Rightarrow> tegrabl_error_t" where
  "tegrabl_err_set_lowest_module error module = BITFIELD_SET error module 8 16"

definition tegrabl_err_set_aux_info :: "tegrabl_error_t \<Rightarrow> u8 \<Rightarrow> tegrabl_error_t" where
  "tegrabl_err_set_aux_info error aux_info = BITFIELD_SET error (ucast aux_info) 8 8"

section \<open>The four fields\<close>

interpretation err_reason: reg_field TEGRABL_ERROR_REASON "\<lambda>v r. BITFIELD_SET r v 8 0" 0 8
  by unfold_locales (auto simp: TEGRABL_ERROR_REASON_def BITFIELD_ONES_mask bit_BITFIELD_SET bit_simps)

interpretation err_aux: reg_field TEGRABL_ERROR_AUX_INFO "\<lambda>v r. BITFIELD_SET r v 8 8" 8 8
  by unfold_locales (auto simp: TEGRABL_ERROR_AUX_INFO_def BITFIELD_ONES_mask bit_BITFIELD_SET bit_simps)

interpretation err_low: reg_field TEGRABL_ERROR_MODULE "\<lambda>v r. BITFIELD_SET r v 8 16" 16 8
  by unfold_locales (auto simp: TEGRABL_ERROR_MODULE_def BITFIELD_ONES_mask bit_BITFIELD_SET bit_simps)

interpretation err_high: reg_field TEGRABL_ERROR_HIGHEST_MODULE "\<lambda>v r. BITFIELD_SET r v 8 24" 24 8
  by unfold_locales
    (auto simp: TEGRABL_ERROR_HIGHEST_MODULE_def BITFIELD_ONES_mask bit_BITFIELD_SET bit_simps)

lemmas err_frames =
  err_reason.frame [OF err_aux.get_bit] err_reason.frame [OF err_low.get_bit]
  err_reason.frame [OF err_high.get_bit] err_aux.frame [OF err_reason.get_bit]
  err_aux.frame [OF err_low.get_bit] err_aux.frame [OF err_high.get_bit]
  err_low.frame [OF err_reason.get_bit] err_low.frame [OF err_aux.get_bit]
  err_low.frame [OF err_high.get_bit] err_high.frame [OF err_reason.get_bit]
  err_high.frame [OF err_aux.get_bit] err_high.frame [OF err_low.get_bit]

lemmas err_fields = err_reason.get_put err_aux.get_put err_low.get_put err_high.get_put

lemma reason_error_value [simp]:
  "TEGRABL_ERROR_REASON (tegrabl_error_value m a r) = take_bit 8 r"
  by (simp add: tegrabl_error_value_def err_fields)

lemma fields_of_no_error [simp]:
  "TEGRABL_ERROR_REASON 0 = 0" "TEGRABL_ERROR_HIGHEST_MODULE 0 = 0"
  by (simp_all add: TEGRABL_ERROR_REASON_def TEGRABL_ERROR_HIGHEST_MODULE_def)

text \<open>The two facts component proofs use to see that a raised error is an error.\<close>

lemma error_value_is_error [simp]: "take_bit 8 r \<noteq> 0 \<Longrightarrow> tegrabl_error_value m a r \<noteq> 0"
  by (metis fields_of_no_error(1) reason_error_value)

lemma set_highest_is_error [simp]:
  "take_bit 8 m \<noteq> 0 \<Longrightarrow> tegrabl_err_set_highest_module e m \<noteq> 0"
  unfolding tegrabl_err_set_highest_module_def
  by (metis err_high.get_put fields_of_no_error(2))

lemma reason_set_highest [simp]:
  "TEGRABL_ERROR_REASON (tegrabl_err_set_highest_module e m) = TEGRABL_ERROR_REASON e"
  by (simp add: tegrabl_err_set_highest_module_def err_frames)

end
