(* ===== verification/Storage_Interface.thy ===== *)
theory Storage_Interface
  imports Tegrabl_Error
begin

text \<open>
  The contract between the storage layers. \<open>same_outside a b\<close> relates two images of a medium
  that agree outside the byte range from \<open>a\<close> to \<open>b\<close>. The locale \<open>byte_store\<close> is what a
  layer that offers byte reads and writes promises to the layer above: a successful read returns
  the bytes of the image, a successful write overwrites exactly its range, and a write that fails
  half way has touched nothing outside the blocks its range meets. The block device framework and
  the partition manager provide it; the partition manager and the A/B metadata store are clients.
\<close>

section \<open>Images that agree outside a range\<close>

definition same_outside :: "nat \<Rightarrow> nat \<Rightarrow> 'a list \<Rightarrow> 'a list \<Rightarrow> bool" where
  "same_outside a b xs ys \<longleftrightarrow>
     length xs = length ys \<and> take a xs = take a ys \<and> drop b xs = drop b ys"

lemma same_outside_refl [simp]: "same_outside a b xs xs"
  by (simp add: same_outside_def)

lemma same_outside_trans:
  "same_outside a b xs ys \<Longrightarrow> same_outside a b ys zs \<Longrightarrow> same_outside a b xs zs"
  by (simp add: same_outside_def)

lemma same_outside_length: "same_outside a b xs ys \<Longrightarrow> length xs = length ys"
  by (simp add: same_outside_def)

lemma same_outside_mono:
  assumes "same_outside a b xs ys" and "a' \<le> a" and "b \<le> b'"
  shows "same_outside a' b' xs ys"
proof -
  have "take a' xs = take a' (take a xs)" "take a' ys = take a' (take a ys)"
    using assms(2) by (simp_all add: min_def)
  moreover have "drop b' xs = drop (b' - b) (drop b xs)" "drop b' ys = drop (b' - b) (drop b ys)"
    using assms(3) by simp_all
  ultimately show ?thesis
    using assms(1) unfolding same_outside_def by metis
qed

lemma same_outside_overwrite:
  "off + length ys \<le> length xs \<Longrightarrow> same_outside off (off + length ys) (overwrite off ys xs) xs"
  by (simp add: same_outside_def overwrite_def)

lemma same_outside_subrange:
  assumes "same_outside a b xs ys" and "off + n \<le> a \<or> b \<le> off"
  shows "subrange off n xs = subrange off n ys"
  using assms(2)
proof
  assume le: "off + n \<le> a"
  have "subrange off n zs = take n (drop off (take a zs))" for zs :: "'a list"
    using le by (simp add: subrange_def drop_take min_def)
  then show ?thesis
    using assms(1) by (simp add: same_outside_def)
next
  assume "b \<le> off"
  then have "subrange off n zs = take n (drop (off - b) (drop b zs))" for zs :: "'a list"
    by (simp add: subrange_def)
  then show ?thesis
    using assms(1) unfolding same_outside_def by metis
qed

text \<open>The first and last byte of the blocks of size \<open>g\<close> that a range meets.\<close>

definition floor_to :: "nat \<Rightarrow> nat \<Rightarrow> nat" where
  "floor_to g n = n div g * g"

definition ceil_to :: "nat \<Rightarrow> nat \<Rightarrow> nat" where
  "ceil_to g n = (n + g - 1) div g * g"

lemma floor_to_le: "floor_to g n \<le> n"
  by (simp add: floor_to_def)

lemma ceil_to_ge: "0 < g \<Longrightarrow> n \<le> ceil_to g n"
proof -
  assume g: "0 < g"
  have "n + g - 1 = ceil_to g n + (n + g - 1) mod g"
    by (simp add: ceil_to_def)
  moreover have "(n + g - 1) mod g < g"
    using g by simp
  ultimately show ?thesis by linarith
qed

lemma floor_to_mult [simp]: "0 < g \<Longrightarrow> floor_to g (k * g) = k * g"
  by (simp add: floor_to_def)

lemma ceil_to_mult [simp]: "0 < g \<Longrightarrow> ceil_to g (k * g) = k * g"
proof -
  assume g: "0 < g"
  then have "(k * g + g - 1) div g = k"
    by (intro div_nat_eqI) (simp_all add: algebra_simps)
  then show ?thesis
    by (simp add: ceil_to_def)
qed

lemma floor_to_mono: "m \<le> n \<Longrightarrow> floor_to g m \<le> floor_to g n"
  by (simp add: floor_to_def div_le_mono)

lemma ceil_to_mono: "m \<le> n \<Longrightarrow> ceil_to g m \<le> ceil_to g n"
  by (simp add: ceil_to_def div_le_mono)

section \<open>Byte stores\<close>

text \<open>
  \<open>rd s buf off n\<close> and \<open>wr s buf data off n\<close> are the layer's operations with the address of
  the caller's buffer; \<open>img\<close> is the medium's contents, \<open>gran\<close> its block size. The laws are
  stated for ranges whose end does not wrap around 64 bits.
\<close>

locale byte_store =
  fixes img :: "'s \<Rightarrow> bytes" and gran :: "'s \<Rightarrow> nat" and ok :: "'s \<Rightarrow> bool"
    and rd :: "'s \<Rightarrow> u64 \<Rightarrow> u64 \<Rightarrow> u64 \<Rightarrow> (tegrabl_error_t \<times> bytes) \<times> 's"
    and wr :: "'s \<Rightarrow> u64 \<Rightarrow> bytes \<Rightarrow> u64 \<Rightarrow> u64 \<Rightarrow> tegrabl_error_t \<times> 's"
  assumes gran_pos: "ok s \<Longrightarrow> 0 < gran s"
    and rd_keeps: "ok s \<Longrightarrow> unat off + unat n < 2 ^ 64 \<Longrightarrow> rd s buf off n = ((e, d), s') \<Longrightarrow>
      ok s' \<and> gran s' = gran s \<and> img s' = img s"
    and rd_data: "ok s \<Longrightarrow> unat off + unat n < 2 ^ 64 \<Longrightarrow>
      rd s buf off n = ((TEGRABL_NO_ERROR, d), s') \<Longrightarrow>
      unat off + unat n \<le> length (img s) \<and> d = subrange (unat off) (unat n) (img s)"
    and wr_keeps: "ok s \<Longrightarrow> unat off + unat n < 2 ^ 64 \<Longrightarrow> length d = unat n \<Longrightarrow>
      wr s buf d off n = (e, s') \<Longrightarrow>
      ok s' \<and> gran s' = gran s \<and>
      same_outside (floor_to (gran s) (unat off)) (ceil_to (gran s) (unat off + unat n))
        (img s') (img s)"
    and wr_data: "ok s \<Longrightarrow> unat off + unat n < 2 ^ 64 \<Longrightarrow> length d = unat n \<Longrightarrow>
      wr s buf d off n = (TEGRABL_NO_ERROR, s') \<Longrightarrow>
      unat off + unat n \<le> length (img s) \<and> img s' = overwrite (unat off) d (img s)"
begin

lemma read_back:
  assumes "ok s" "unat off + unat n < 2 ^ 64" "length d = unat n"
    and "wr s buf d off n = (TEGRABL_NO_ERROR, s')"
    and "rd s' buf' off n = ((TEGRABL_NO_ERROR, d'), s'')"
  shows "d' = d"
proof -
  have "ok s'" using wr_keeps [OF assms(1-4)] by simp
  from rd_data [OF this assms(2,5)] wr_data [OF assms(1-4)] assms(3)
  show ?thesis by (metis subrange_overwrite_same)
qed

lemma read_elsewhere:
  assumes "ok s" "unat off + unat n < 2 ^ 64" "length d = unat n"
    and "unat off2 + unat n2 < 2 ^ 64"
    and "unat off2 + unat n2 \<le> unat off \<or> unat off + unat n \<le> unat off2"
    and "wr s buf d off n = (TEGRABL_NO_ERROR, s')"
    and "rd s' buf' off2 n2 = ((TEGRABL_NO_ERROR, d'), s'')"
  shows "d' = subrange (unat off2) (unat n2) (img s)"
proof -
  have "ok s'" using wr_keeps [OF assms(1-3,6)] by simp
  from rd_data [OF this assms(4,7)] wr_data [OF assms(1-3,6)] assms(3,5)
  show ?thesis by (simp add: subrange_overwrite_disjoint)
qed

lemma rewrite_same:
  assumes "ok s" "unat off + unat n < 2 ^ 64"
    and "rd s buf off n = ((TEGRABL_NO_ERROR, d), s1)"
    and "wr s1 buf' d off n = (TEGRABL_NO_ERROR, s2)"
  shows "img s2 = img s"
proof -
  have s1: "ok s1" "img s1 = img s" using rd_keeps [OF assms(1-3)] by simp_all
  have d: "d = subrange (unat off) (unat n) (img s)" "unat off + unat n \<le> length (img s)"
    using rd_data [OF assms(1-3)] by simp_all
  then have "length d = unat n" by simp
  from wr_data [OF s1(1) assms(2) this assms(4)] d s1(2)
  show ?thesis by (simp add: overwrite_def subrange_def min_def) (metis append_take_drop_id drop_drop add.commute)
qed

lemma two_copies:
  assumes "ok s" "unat o1 + unat n < 2 ^ 64" "unat o2 + unat n < 2 ^ 64" "length d = unat n"
    and "unat o1 + unat n \<le> floor_to (gran s) (unat o2) \<or>
         ceil_to (gran s) (unat o2 + unat n) \<le> unat o1"
    and "wr s b1 d o1 n = (TEGRABL_NO_ERROR, s1)"
    and "wr s1 b2 d' o2 n = (e, s2)" "length d' = unat n"
  shows "subrange (unat o1) (unat n) (img s2) = d"
proof -
  have s1: "ok s1" "gran s1 = gran s" using wr_keeps [OF assms(1,2,4,6)] by simp_all
  have "subrange (unat o1) (unat n) (img s2) = subrange (unat o1) (unat n) (img s1)"
    using wr_keeps [OF s1(1) assms(3,8,7)] assms(5) s1(2) by (intro same_outside_subrange) auto
  then show ?thesis
    using wr_data [OF assms(1,2,4,6)] assms(4) by (metis subrange_overwrite_same)
qed

end

end
