(* ===== verification/Blockdev.thy ===== *)
theory Blockdev
  imports Storage_Interface
begin

text \<open>
  The block device framework (\<open>lib/blockdev/tegrabl_blockdev.c\<close>): byte reads and writes on top
  of a driver's block operations, range checks, the registry of devices with reference counts,
  ioctls and asynchronous transfers.

  A device is a record with the fields of \<open>struct tegrabl_bdev\<close>; the driver's function
  pointers are fields too (the driver sits behind \<open>priv_data\<close>, of type \<open>'d\<close>). The hooks
  \<open>read\<close> and \<open>write\<close> are not fields: \<open>tegrabl_blockdev_initialize_bdev\<close> sets them to
  the default implementations and no driver of the tree replaces them. Devices live in a heap
  indexed by address; the registry is the list of addresses linked through \<open>node\<close>. Memory
  comes from an allocation environment that says, per allocation site, which address (or NULL) an
  aligned allocation returns. Buffers are given by their address (for the alignment checks) and
  their contents. The profiling hooks of \<open>CONFIG_ENABLE_BLOCKDEV_KPI\<close> are left out.
\<close>

section \<open>Data\<close>

type_synonym bnum_t = u32
type_synonym off_t = u64

text \<open>\<open>alloc site alignment size\<close> is the address the allocator returns, \<open>None\<close> for NULL.\<close>

type_synonym alloc_env = "nat \<Rightarrow> u64 \<Rightarrow> u64 \<Rightarrow> u64 option"

abbreviation (input) TEGRABL_STORAGE_SDMMC_RPMB :: u32 where "TEGRABL_STORAGE_SDMMC_RPMB \<equiv> 2"
abbreviation (input) TEGRABL_STORAGE_QSPI_FLASH :: u32 where "TEGRABL_STORAGE_QSPI_FLASH \<equiv> 3"
abbreviation (input) TEGRABL_STORAGE_MAX :: u32 where "TEGRABL_STORAGE_MAX \<equiv> 11"
abbreviation (input) TEGRABL_STORAGE_INVALID :: u32 where "TEGRABL_STORAGE_INVALID \<equiv> 11"

abbreviation (input) TEGRABL_IOCTL_BLOCK_SIZE :: u32 where "TEGRABL_IOCTL_BLOCK_SIZE \<equiv> 0"
abbreviation (input) TEGRABL_IOCTL_DEVICE_CACHE_FLUSH :: u32 where "TEGRABL_IOCTL_DEVICE_CACHE_FLUSH \<equiv> 4"
abbreviation (input) TEGRABL_IOCTL_INVALID :: u32 where "TEGRABL_IOCTL_INVALID \<equiv> 9"

abbreviation (input) TEGRABL_BLOCKDEV_WRITE :: u8 where "TEGRABL_BLOCKDEV_WRITE \<equiv> 1"
abbreviation (input) TEGRABL_BLOCKDEV_READ :: u8 where "TEGRABL_BLOCKDEV_READ \<equiv> 2"

abbreviation (input) TEGRABL_BLOCKDEV_MEM_ALIGN_SIZE :: u64 where "TEGRABL_BLOCKDEV_MEM_ALIGN_SIZE \<equiv> 8"

text \<open>A transfer; \<open>is_secure_erase\<close> and \<open>xfer_status\<close>, which nothing modelled reads, are left out.\<close>

record xfer_info =
  xfer_dev :: "nat option"
  xfer_type :: u8
  xfer_buf :: u64
  start_block :: bnum_t
  xfer_block_count :: bnum_t
  is_non_blocking :: bool
  xfer_id_field :: u32

record 'd bdev_ops =
  op_read_block :: "'d \<Rightarrow> bnum_t \<Rightarrow> bnum_t \<Rightarrow> (tegrabl_error_t \<times> bytes) \<times> 'd"
  op_write_block :: "'d \<Rightarrow> bytes \<Rightarrow> bnum_t \<Rightarrow> bnum_t \<Rightarrow> tegrabl_error_t \<times> 'd"
  op_erase :: "'d \<Rightarrow> bnum_t \<Rightarrow> bnum_t \<Rightarrow> bool \<Rightarrow> tegrabl_error_t \<times> 'd"
  op_xfer :: "'d \<Rightarrow> xfer_info \<Rightarrow> tegrabl_error_t \<times> 'd"
  op_xfer_wait :: "'d \<Rightarrow> xfer_info \<Rightarrow> u64 \<Rightarrow> (tegrabl_error_t \<times> u8) \<times> 'd"
  op_ioctl :: "'d \<Rightarrow> u32 \<Rightarrow> tegrabl_error_t \<times> 'd"
  op_close :: "('d \<Rightarrow> tegrabl_error_t \<times> 'd) option"

record 'd tegrabl_bdev =
  ref :: u32
  device_id :: u32
  dev_size :: u64
  block_size_log2 :: u32
  block_count :: bnum_t
  published :: bool
  buf_align_size :: u32
  priv_data :: 'd
  ops :: "'d bdev_ops"

abbreviation BD_ERROR :: "u32 \<Rightarrow> u8 \<Rightarrow> tegrabl_error_t" where
  "BD_ERROR reason aux \<equiv> tegrabl_error_value TEGRABL_ERR_BLOCK_DEV aux reason"

abbreviation BD_HIGHEST :: "tegrabl_error_t \<Rightarrow> tegrabl_error_t" where
  "BD_HIGHEST e \<equiv> tegrabl_err_set_highest_module e TEGRABL_ERR_BLOCK_DEV"

definition MOD_POW2 :: "u64 \<Rightarrow> u32 \<Rightarrow> u64" where
  "MOD_POW2 n d = n AND ucast (d - 1)"

definition MOD_LOG2 :: "u64 \<Rightarrow> u32 \<Rightarrow> u64" where
  "MOD_LOG2 n logd = n AND (push_bit (unat logd) 1 - 1)"

definition DIV_FLOOR_LOG2 :: "u64 \<Rightarrow> u32 \<Rightarrow> u64" where
  "DIV_FLOOR_LOG2 n logd = drop_bit (unat logd) n"

definition DIV_CEIL_LOG2 :: "u64 \<Rightarrow> u32 \<Rightarrow> u64" where
  "DIV_CEIL_LOG2 n logd = drop_bit (unat logd) (n + push_bit (unat logd) 1 - 1)"

definition TEGRABL_BLOCKDEV_BLOCK_SIZE :: "'d tegrabl_bdev \<Rightarrow> u64" where
  "TEGRABL_BLOCKDEV_BLOCK_SIZE dev = push_bit (unat (block_size_log2 dev)) 1"

definition tegrabl_blockdev_get_storage_type :: "'d tegrabl_bdev option \<Rightarrow> u32" where
  "tegrabl_blockdev_get_storage_type bdev =
     (case bdev of
        Some d \<Rightarrow> min (drop_bit 16 (device_id d) AND 0xFF) TEGRABL_STORAGE_INVALID
      | None \<Rightarrow> TEGRABL_STORAGE_INVALID)"

definition tegrabl_blockdev_get_instance :: "'d tegrabl_bdev option \<Rightarrow> u32" where
  "tegrabl_blockdev_get_instance bdev =
     (case bdev of Some d \<Rightarrow> device_id d AND 0xFF | None \<Rightarrow> 0xFF)"

definition tegrabl_blockdev_buffer_aligned :: "'d tegrabl_bdev \<Rightarrow> u64 \<Rightarrow> bool" where
  "tegrabl_blockdev_buffer_aligned dev buf = (MOD_POW2 buf (buf_align_size dev) = 0)"

section \<open>Block operations with range checks\<close>

text \<open>
  The operations of this section take the device itself; a NULL device and a zero count are
  rejected with the same error, so the NULL case is the null result of the handle-level operations
  below. \<open>range_bad\<close> is the check the source repeats: the sum is a 32-bit addition.
\<close>

definition range_bad :: "'d tegrabl_bdev \<Rightarrow> bnum_t \<Rightarrow> bnum_t \<Rightarrow> bool" where
  "range_bad dev block count = (block > block_count dev \<or> block + count > block_count dev)"

definition bdev_read_block ::
  "'d tegrabl_bdev \<Rightarrow> u64 \<Rightarrow> bnum_t \<Rightarrow> bnum_t \<Rightarrow> (tegrabl_error_t \<times> bytes) \<times> 'd tegrabl_bdev"
where
  "bdev_read_block dev buf block count =
     (if count = 0 then ((BD_ERROR TEGRABL_ERR_INVALID 8, []), dev)
      else if \<not> tegrabl_blockdev_buffer_aligned dev buf then ((BD_ERROR TEGRABL_ERR_INVALID 25, []), dev)
      else if ref dev = 0 then ((BD_ERROR TEGRABL_ERR_INVALID 9, []), dev)
      else if range_bad dev block count then ((BD_ERROR TEGRABL_ERR_OVERFLOW 1, []), dev)
      else
        (case op_read_block (ops dev) (priv_data dev) block count of ((error, data), p) \<Rightarrow>
           ((if error \<noteq> TEGRABL_NO_ERROR then BD_HIGHEST error else error, data),
            dev\<lparr>priv_data := p\<rparr>)))"

definition bdev_write_block ::
  "'d tegrabl_bdev \<Rightarrow> u64 \<Rightarrow> bytes \<Rightarrow> bnum_t \<Rightarrow> bnum_t \<Rightarrow> tegrabl_error_t \<times> 'd tegrabl_bdev"
where
  "bdev_write_block dev buf data block count =
     (if count = 0 \<or> buf = 0 then (BD_ERROR TEGRABL_ERR_INVALID 12, dev)
      else if \<not> tegrabl_blockdev_buffer_aligned dev buf then (BD_ERROR TEGRABL_ERR_INVALID 26, dev)
      else if range_bad dev block count then (BD_ERROR TEGRABL_ERR_OVERFLOW 3, dev)
      else if ref dev = 0 then (BD_ERROR TEGRABL_ERR_INVALID 13, dev)
      else
        (case op_write_block (ops dev) (priv_data dev) data block count of (error, p) \<Rightarrow>
           (if error \<noteq> TEGRABL_NO_ERROR then BD_HIGHEST error else error, dev\<lparr>priv_data := p\<rparr>)))"

definition bdev_erase ::
  "'d tegrabl_bdev \<Rightarrow> bnum_t \<Rightarrow> bnum_t \<Rightarrow> bool \<Rightarrow> tegrabl_error_t \<times> 'd tegrabl_bdev"
where
  "bdev_erase dev block count is_secure =
     (if count = 0 then (BD_ERROR TEGRABL_ERR_INVALID 14, dev)
      else if range_bad dev block count then (BD_ERROR TEGRABL_ERR_OVERFLOW 4, dev)
      else if ref dev = 0 then (BD_ERROR TEGRABL_ERR_INVALID 15, dev)
      else
        (case op_erase (ops dev) (priv_data dev) block count is_secure of (error, p) \<Rightarrow>
           (if error \<noteq> TEGRABL_NO_ERROR then BD_HIGHEST error else error, dev\<lparr>priv_data := p\<rparr>)))"

section \<open>Byte reads\<close>

text \<open>
  \<open>tegrabl_blockdev_default_read\<close> works in three stages, each of which moves the buffer pointer,
  shortens \<open>len\<close> and advances \<open>block\<close>: the rest of a first block, whole blocks, the start of
  a last block. A stage's state is \<open>(dev, buf, len, block, data)\<close>, with \<open>data\<close> the bytes
  stored into the caller's buffer so far.
\<close>

type_synonym 'd rd_state = "'d tegrabl_bdev \<times> u64 \<times> u64 \<times> bnum_t \<times> bytes"

definition default_read_first ::
  "u64 option \<Rightarrow> off_t \<Rightarrow> 'd rd_state \<Rightarrow> tegrabl_error_t \<times> 'd rd_state"
where
  "default_read_first partial offset st =
     (case st of (dev, buf, len, block, data) \<Rightarrow>
        if MOD_LOG2 offset (block_size_log2 dev) = 0 then (TEGRABL_NO_ERROR, st)
        else
          (case bdev_read_block dev (the partial) block 1 of ((error, blk), dev) \<Rightarrow>
             if error \<noteq> TEGRABL_NO_ERROR then (error, (dev, buf, len, block, data))
             else
               let block_offset = MOD_LOG2 offset (block_size_log2 dev);
                   tocopy = min (TEGRABL_BLOCKDEV_BLOCK_SIZE dev - block_offset) len
               in (TEGRABL_NO_ERROR,
                   (dev, buf + tocopy, len - tocopy, block + 1,
                    data @ subrange (unat block_offset) (unat tocopy) blk))))"

definition default_read_middle ::
  "alloc_env \<Rightarrow> 'd rd_state \<Rightarrow> tegrabl_error_t \<times> 'd rd_state"
where
  "default_read_middle alloc st =
     (case st of (dev, buf, len, block, data) \<Rightarrow>
        if len < ucast (push_bit (unat (block_size_log2 dev)) (1 :: u32)) then (TEGRABL_NO_ERROR, st)
        else
          let count = DIV_FLOOR_LOG2 len (block_size_log2 dev);
              nbytes = push_bit (unat (block_size_log2 dev)) count
          in if nbytes > len then (BD_ERROR TEGRABL_ERR_INVALID 1, st)
             else
               let target =
                     (if tegrabl_blockdev_buffer_aligned dev buf then Some buf
                      else alloc 1 TEGRABL_BLOCKDEV_MEM_ALIGN_SIZE
                             (count * TEGRABL_BLOCKDEV_BLOCK_SIZE dev))
               in if target = None then (BD_ERROR TEGRABL_ERR_NO_MEMORY 1, st)
                  else
                    (case bdev_read_block dev (the target) block (ucast count) of
                       ((error, blks), dev) \<Rightarrow>
                         if error \<noteq> TEGRABL_NO_ERROR
                         then (BD_HIGHEST error, (dev, buf, len, block, data))
                         else (TEGRABL_NO_ERROR,
                               (dev, buf + nbytes, len - nbytes, block + ucast count,
                                data @ take (unat nbytes) blks))))"

definition default_read_last ::
  "u64 option \<Rightarrow> 'd rd_state \<Rightarrow> tegrabl_error_t \<times> 'd rd_state"
where
  "default_read_last partial st =
     (case st of (dev, buf, len, block, data) \<Rightarrow>
        if len = 0 then (TEGRABL_NO_ERROR, st)
        else if partial = None then (BD_ERROR TEGRABL_ERR_NO_MEMORY 0, st)
        else
          (case bdev_read_block dev (the partial) block 1 of ((error, blk), dev) \<Rightarrow>
             if error \<noteq> TEGRABL_NO_ERROR
             then (BD_HIGHEST error, (dev, buf, len, block, data))
             else (TEGRABL_NO_ERROR, (dev, buf, len, block, data @ take (unat len) blk))))"

definition tegrabl_blockdev_default_read ::
  "alloc_env \<Rightarrow> 'd tegrabl_bdev \<Rightarrow> u64 \<Rightarrow> off_t \<Rightarrow> off_t \<Rightarrow>
   (tegrabl_error_t \<times> bytes) \<times> 'd tegrabl_bdev"
where
  "tegrabl_blockdev_default_read alloc dev buffer offset len =
     (if buffer = 0 then ((BD_ERROR TEGRABL_ERR_INVALID 0, []), dev)
      else
        let need = (MOD_LOG2 offset (block_size_log2 dev) \<noteq> 0 \<or> MOD_LOG2 len (block_size_log2 dev) \<noteq> 0);
            partial = (if need then alloc 0 TEGRABL_BLOCKDEV_MEM_ALIGN_SIZE
                                      (TEGRABL_BLOCKDEV_BLOCK_SIZE dev) else None)
        in if need \<and> partial = None then ((BD_ERROR TEGRABL_ERR_NO_MEMORY 0, []), dev)
           else
             let st0 = (dev, buffer, len, ucast (DIV_FLOOR_LOG2 offset (block_size_log2 dev)), []);
                 (e1, st1) = default_read_first partial offset st0;
                 (e2, st2) = (if e1 \<noteq> TEGRABL_NO_ERROR then (e1, st1) else default_read_middle alloc st1);
                 (e3, st3) = (if e2 \<noteq> TEGRABL_NO_ERROR then (e2, st2) else default_read_last partial st2)
             in (case st3 of (dev, _, _, _, data) \<Rightarrow> ((e3, data), dev)))"

definition bdev_read ::
  "alloc_env \<Rightarrow> 'd tegrabl_bdev \<Rightarrow> u64 \<Rightarrow> off_t \<Rightarrow> off_t \<Rightarrow>
   (tegrabl_error_t \<times> bytes) \<times> 'd tegrabl_bdev"
where
  "bdev_read alloc dev buf offset len =
     (if len = 0 then ((BD_ERROR TEGRABL_ERR_INVALID 6, []), dev)
      else if ref dev = 0 then ((BD_ERROR TEGRABL_ERR_INVALID 7, []), dev)
      else if offset \<ge> dev_size dev \<or> offset + len > dev_size dev
        then ((BD_ERROR TEGRABL_ERR_OVERFLOW 0, []), dev)
      else
        (case tegrabl_blockdev_default_read alloc dev buf offset len of ((error, data), dev) \<Rightarrow>
           ((if error \<noteq> TEGRABL_NO_ERROR then BD_HIGHEST error else error, data), dev)))"

section \<open>Byte writes\<close>

text \<open>
  \<open>tegrabl_blockdev_default_write\<close> has the same three stages; a partial block is read, patched
  and written back. Here \<open>data\<close> is the part of the caller's buffer still to be written, so it
  shrinks as \<open>buf\<close> moves.
\<close>

definition default_write_first ::
  "u64 option \<Rightarrow> off_t \<Rightarrow> 'd rd_state \<Rightarrow> tegrabl_error_t \<times> 'd rd_state"
where
  "default_write_first partial offset st =
     (case st of (dev, buf, len, block, data) \<Rightarrow>
        if MOD_LOG2 offset (block_size_log2 dev) = 0 then (TEGRABL_NO_ERROR, st)
        else
          (case bdev_read_block dev (the partial) block 1 of ((error, blk), dev) \<Rightarrow>
             if error \<noteq> TEGRABL_NO_ERROR then (BD_HIGHEST error, (dev, buf, len, block, data))
             else
               let block_offset = MOD_LOG2 offset (block_size_log2 dev);
                   tocopy = min (TEGRABL_BLOCKDEV_BLOCK_SIZE dev - block_offset) len;
                   patched = overwrite (unat block_offset) (take (unat tocopy) data) blk
               in (case bdev_write_block dev (the partial) patched block 1 of (error, dev) \<Rightarrow>
                     if error \<noteq> TEGRABL_NO_ERROR
                     then (BD_HIGHEST error, (dev, buf, len, block, data))
                     else (TEGRABL_NO_ERROR,
                           (dev, buf + tocopy, len - tocopy, block + 1,
                            drop (unat tocopy) data)))))"

definition default_write_middle ::
  "alloc_env \<Rightarrow> 'd rd_state \<Rightarrow> tegrabl_error_t \<times> 'd rd_state"
where
  "default_write_middle alloc st =
     (case st of (dev, buf, len, block, data) \<Rightarrow>
        if len < ucast (push_bit (unat (block_size_log2 dev)) (1 :: u32)) then (TEGRABL_NO_ERROR, st)
        else
          let count = DIV_FLOOR_LOG2 len (block_size_log2 dev);
              nbytes = push_bit (unat (block_size_log2 dev)) count
          in if nbytes > len then (BD_ERROR TEGRABL_ERR_INVALID 3, st)
             else
               let src =
                     (if tegrabl_blockdev_buffer_aligned dev buf then Some buf
                      else alloc 1 TEGRABL_BLOCKDEV_MEM_ALIGN_SIZE
                             (count * TEGRABL_BLOCKDEV_BLOCK_SIZE dev))
               in if src = None then (BD_ERROR TEGRABL_ERR_NO_MEMORY 2, st)
                  else
                    (case bdev_write_block dev (the src) (take (unat nbytes) data) block (ucast count) of
                       (error, dev) \<Rightarrow>
                         if error \<noteq> TEGRABL_NO_ERROR
                         then (BD_HIGHEST error, (dev, buf, len, block, data))
                         else (TEGRABL_NO_ERROR,
                               (dev, buf + nbytes, len - nbytes, block + ucast count,
                                drop (unat nbytes) data))))"

definition default_write_last ::
  "u64 option \<Rightarrow> 'd rd_state \<Rightarrow> tegrabl_error_t \<times> 'd rd_state"
where
  "default_write_last partial st =
     (case st of (dev, buf, len, block, data) \<Rightarrow>
        if len = 0 then (TEGRABL_NO_ERROR, st)
        else if partial = None then (BD_ERROR TEGRABL_ERR_NO_MEMORY 0, st)
        else
          (case bdev_read_block dev (the partial) block 1 of ((error, blk), dev) \<Rightarrow>
             if error \<noteq> TEGRABL_NO_ERROR
             then (BD_HIGHEST error, (dev, buf, len, block, data))
             else
               (case bdev_write_block dev (the partial)
                       (overwrite 0 (take (unat len) data) blk) block 1 of (error, dev) \<Rightarrow>
                  if error \<noteq> TEGRABL_NO_ERROR
                  then (BD_HIGHEST error, (dev, buf, len, block, data))
                  else (TEGRABL_NO_ERROR, (dev, buf, len, block, data)))))"

definition tegrabl_blockdev_default_write ::
  "alloc_env \<Rightarrow> 'd tegrabl_bdev \<Rightarrow> u64 \<Rightarrow> bytes \<Rightarrow> off_t \<Rightarrow> off_t \<Rightarrow>
   tegrabl_error_t \<times> 'd tegrabl_bdev"
where
  "tegrabl_blockdev_default_write alloc dev buffer data offset len =
     (if buffer = 0 then (BD_ERROR TEGRABL_ERR_INVALID 2, dev)
      else
        let need = (MOD_LOG2 offset (block_size_log2 dev) \<noteq> 0 \<or> MOD_LOG2 len (block_size_log2 dev) \<noteq> 0);
            partial = (if need then alloc 0 TEGRABL_BLOCKDEV_MEM_ALIGN_SIZE
                                      (TEGRABL_BLOCKDEV_BLOCK_SIZE dev) else None)
        in if need \<and> partial = None then (BD_ERROR TEGRABL_ERR_NO_MEMORY 0, dev)
           else
             let st0 = (dev, buffer, len, ucast (DIV_FLOOR_LOG2 offset (block_size_log2 dev)), data);
                 (e1, st1) = default_write_first partial offset st0;
                 (e2, st2) = (if e1 \<noteq> TEGRABL_NO_ERROR then (e1, st1) else default_write_middle alloc st1);
                 (e3, st3) = (if e2 \<noteq> TEGRABL_NO_ERROR then (e2, st2) else default_write_last partial st2)
             in (case st3 of (dev, _, _, _, _) \<Rightarrow> (e3, dev)))"

definition bdev_write ::
  "alloc_env \<Rightarrow> 'd tegrabl_bdev \<Rightarrow> u64 \<Rightarrow> bytes \<Rightarrow> off_t \<Rightarrow> off_t \<Rightarrow>
   tegrabl_error_t \<times> 'd tegrabl_bdev"
where
  "bdev_write alloc dev buf data offset len =
     (if len = 0 then (BD_ERROR TEGRABL_ERR_INVALID 10, dev)
      else if ref dev = 0 then (BD_ERROR TEGRABL_ERR_INVALID 11, dev)
      else if offset \<ge> dev_size dev \<or> offset + len > dev_size dev
        then (BD_ERROR TEGRABL_ERR_OVERFLOW 2, dev)
      else
        (case tegrabl_blockdev_default_write alloc dev buf data offset len of (error, dev) \<Rightarrow>
           (if error \<noteq> TEGRABL_NO_ERROR then BD_HIGHEST error else error, dev)))"

section \<open>Default hooks and initialisation\<close>

definition tegrabl_blockdev_default_read_block ::
  "'d \<Rightarrow> bnum_t \<Rightarrow> bnum_t \<Rightarrow> (tegrabl_error_t \<times> bytes) \<times> 'd" where
  "tegrabl_blockdev_default_read_block p block count = ((BD_ERROR TEGRABL_ERR_NOT_SUPPORTED 1, []), p)"

definition tegrabl_blockdev_default_write_block ::
  "'d \<Rightarrow> bytes \<Rightarrow> bnum_t \<Rightarrow> bnum_t \<Rightarrow> tegrabl_error_t \<times> 'd" where
  "tegrabl_blockdev_default_write_block p buf block count = (BD_ERROR TEGRABL_ERR_NOT_SUPPORTED 2, p)"

definition tegrabl_blockdev_default_erase ::
  "'d \<Rightarrow> bnum_t \<Rightarrow> bnum_t \<Rightarrow> bool \<Rightarrow> tegrabl_error_t \<times> 'd" where
  "tegrabl_blockdev_default_erase p block count is_secure = (BD_ERROR TEGRABL_ERR_NOT_SUPPORTED 0, p)"

definition tegrabl_blockdev_initialize_bdev ::
  "'d tegrabl_bdev option \<Rightarrow> u32 \<Rightarrow> u32 \<Rightarrow> bnum_t \<Rightarrow> tegrabl_error_t \<times> 'd tegrabl_bdev option"
where
  "tegrabl_blockdev_initialize_bdev dev dev_id bslog2 count =
     (case dev of
        None \<Rightarrow> (BD_ERROR TEGRABL_ERR_INVALID 18, None)
      | Some d \<Rightarrow>
          (TEGRABL_NO_ERROR,
           Some (d\<lparr>device_id := dev_id, block_size_log2 := bslog2, block_count := count,
                   dev_size := push_bit (unat bslog2) (ucast count), ref := 0,
                   ops := (ops d)\<lparr>op_read_block := tegrabl_blockdev_default_read_block,
                                  op_write_block := tegrabl_blockdev_default_write_block,
                                  op_erase := tegrabl_blockdev_default_erase,
                                  op_close := None\<rparr>\<rparr>)))"

section \<open>The registry\<close>

record 'd bd_state =
  dev_heap :: "nat \<Rightarrow> 'd tegrabl_bdev option"
  bdevs :: "nat list option"
  xfer_id :: u32
  close_log :: "'d list"

definition dev_update :: "nat \<Rightarrow> 'd tegrabl_bdev \<Rightarrow> 'd bd_state \<Rightarrow> 'd bd_state" where
  "dev_update a d s = s\<lparr>dev_heap := (dev_heap s)(a := Some d)\<rparr>"

definition registered :: "'d bd_state \<Rightarrow> nat list" where
  "registered s = (case bdevs s of None \<Rightarrow> [] | Some as \<Rightarrow> as)"

definition tegrabl_blockdev_init :: "bool \<Rightarrow> 'd bd_state \<Rightarrow> tegrabl_error_t \<times> 'd bd_state" where
  "tegrabl_blockdev_init malloc_ok s =
     (case bdevs s of
        Some _ \<Rightarrow> (TEGRABL_NO_ERROR, s)
      | None \<Rightarrow> if \<not> malloc_ok then (BD_ERROR TEGRABL_ERR_NO_MEMORY 2, s)
                else (TEGRABL_NO_ERROR, s\<lparr>bdevs := Some []\<rparr>))"

definition bdev_inc_ref :: "nat \<Rightarrow> 'd bd_state \<Rightarrow> 'd bd_state" where
  "bdev_inc_ref a s =
     (case dev_heap s a of None \<Rightarrow> s | Some d \<Rightarrow> dev_update a (d\<lparr>ref := ref d + 1\<rparr>) s)"

text \<open>The last reference unlinks the device, runs its close hook (the device's state after the hook
  is recorded in \<open>close_log\<close>) and frees it, but only when it is still linked.\<close>

definition run_close :: "'d tegrabl_bdev \<Rightarrow> 'd bd_state \<Rightarrow> 'd bd_state" where
  "run_close d s =
     (case op_close (ops d) of
        None \<Rightarrow> s
      | Some close \<Rightarrow> s\<lparr>close_log := close_log s @ [snd (close (priv_data d))]\<rparr>)"

definition bdev_dec_ref :: "nat \<Rightarrow> 'd bd_state \<Rightarrow> tegrabl_error_t \<times> 'd bd_state" where
  "bdev_dec_ref a s =
     (case dev_heap s a of
        None \<Rightarrow> (TEGRABL_NO_ERROR, s)
      | Some d \<Rightarrow>
          let oldval = ref d;
              s = (if ref d > 0 then dev_update a (d\<lparr>ref := ref d - 1\<rparr>) s else s)
          in if oldval = 1 then
               (if a \<notin> set (registered s) then (BD_ERROR TEGRABL_ERR_INVALID 4, s)
                else (TEGRABL_NO_ERROR,
                      (run_close d s)\<lparr>bdevs := map_option (remove1 a) (bdevs s),
                                      dev_heap := (dev_heap s)(a := None)\<rparr>))
             else (TEGRABL_NO_ERROR, s))"

fun open_scan :: "(nat \<Rightarrow> 'd tegrabl_bdev option) \<Rightarrow> u32 \<Rightarrow> nat list \<Rightarrow> nat option" where
  "open_scan h dev_id [] = None"
| "open_scan h dev_id (a # as) =
     (case h a of
        None \<Rightarrow> None
      | Some entry \<Rightarrow>
          if ref entry = 0 then None
          else if device_id entry = dev_id then Some a
          else open_scan h dev_id as)"

definition TEGRABL_BLOCK_DEVICE_ID :: "u32 \<Rightarrow> u32 \<Rightarrow> u32" where
  "TEGRABL_BLOCK_DEVICE_ID storage_type inst = push_bit 16 storage_type OR inst"

definition tegrabl_blockdev_open :: "u32 \<Rightarrow> u32 \<Rightarrow> 'd bd_state \<Rightarrow> nat option \<times> 'd bd_state" where
  "tegrabl_blockdev_open storage_type inst s =
     (if storage_type \<ge> TEGRABL_STORAGE_INVALID then (None, s)
      else
        (case open_scan (dev_heap s) (TEGRABL_BLOCK_DEVICE_ID storage_type inst) (registered s) of
           None \<Rightarrow> (None, s)
         | Some a \<Rightarrow> (Some a, bdev_inc_ref a s)))"

fun next_after :: "nat \<Rightarrow> nat list \<Rightarrow> nat option" where
  "next_after a [] = None"
| "next_after a [b] = None"
| "next_after a (b # c # as) = (if a = b then Some c else next_after a (c # as))"

definition tegrabl_blockdev_next_device :: "nat option \<Rightarrow> 'd bd_state \<Rightarrow> nat option" where
  "tegrabl_blockdev_next_device curr_bdev s =
     (case curr_bdev of
        None \<Rightarrow> (case registered s of [] \<Rightarrow> None | a # _ \<Rightarrow> Some a)
      | Some a \<Rightarrow> next_after a (registered s))"

definition tegrabl_blockdev_close :: "nat option \<Rightarrow> 'd bd_state \<Rightarrow> tegrabl_error_t \<times> 'd bd_state" where
  "tegrabl_blockdev_close dev s =
     (case dev of
        None \<Rightarrow> (BD_ERROR TEGRABL_ERR_INVALID 5, s)
      | Some a \<Rightarrow> (TEGRABL_NO_ERROR, snd (bdev_dec_ref a s)))"

definition tegrabl_blockdev_register_device ::
  "nat option \<Rightarrow> 'd bd_state \<Rightarrow> tegrabl_error_t \<times> 'd bd_state"
where
  "tegrabl_blockdev_register_device dev s =
     (case dev of
        None \<Rightarrow> (BD_ERROR TEGRABL_ERR_INVALID 20, s)
      | Some a \<Rightarrow>
          let s = bdev_inc_ref a s;
              duplicate = (\<exists>b \<in> set (registered s).
                 map_option device_id (dev_heap s b) = map_option device_id (dev_heap s a))
          in if duplicate then (BD_ERROR TEGRABL_ERR_ALREADY_EXISTS 0, s)
             else (TEGRABL_NO_ERROR, s\<lparr>bdevs := map_option (\<lambda>as. as @ [a]) (bdevs s)\<rparr>))"

text \<open>Unlinking a device that is not linked dereferences NULL: \<open>None\<close> is that fault.\<close>

definition tegrabl_blockdev_unregister_device ::
  "nat option \<Rightarrow> 'd bd_state \<Rightarrow> (tegrabl_error_t \<times> 'd bd_state) option"
where
  "tegrabl_blockdev_unregister_device dev s =
     (case dev of
        None \<Rightarrow> Some (BD_ERROR TEGRABL_ERR_INVALID 21, s)
      | Some a \<Rightarrow>
          if a \<notin> set (registered s) then None
          else Some (TEGRABL_NO_ERROR,
                     snd (bdev_dec_ref a (s\<lparr>bdevs := map_option (remove1 a) (bdevs s)\<rparr>))))"

definition storage_name :: "string list" where
  "storage_name = [''SDMMC_BOOT'', ''SDMMC_USER'', ''SDMMC_RPMB'', ''QSPI_FLASH'', ''SATA'',
     ''USB_MS'', ''SDCARD'', ''UFS'', ''UFS_USER'', ''UFS_RPMB'', ''NVME'']"

definition tegrabl_blockdev_get_name :: "u32 \<Rightarrow> string option" where
  "tegrabl_blockdev_get_name type =
     (if type \<ge> TEGRABL_STORAGE_MAX then None else Some (storage_name ! unat type))"

section \<open>Operations on handles\<close>

text \<open>Running a device operation through a handle; \<open>null\<close> is the result for a NULL handle.\<close>

definition on_dev ::
  "nat option \<Rightarrow> 'r \<Rightarrow> ('d tegrabl_bdev \<Rightarrow> 'r \<times> 'd tegrabl_bdev) \<Rightarrow> 'd bd_state \<Rightarrow> 'r \<times> 'd bd_state"
where
  "on_dev dev null f s =
     (case dev of
        None \<Rightarrow> (null, s)
      | Some a \<Rightarrow>
          (case dev_heap s a of
             None \<Rightarrow> (null, s)
           | Some d \<Rightarrow> (case f d of (r, d') \<Rightarrow> (r, dev_update a d' s))))"

definition tegrabl_blockdev_read where
  "tegrabl_blockdev_read alloc dev buf offset len =
     on_dev dev (BD_ERROR TEGRABL_ERR_INVALID 6, []) (\<lambda>d. bdev_read alloc d buf offset len)"

definition tegrabl_blockdev_read_block where
  "tegrabl_blockdev_read_block dev buf block count =
     on_dev dev (BD_ERROR TEGRABL_ERR_INVALID 8, []) (\<lambda>d. bdev_read_block d buf block count)"

definition tegrabl_blockdev_write where
  "tegrabl_blockdev_write alloc dev buf data offset len =
     on_dev dev (BD_ERROR TEGRABL_ERR_INVALID 10) (\<lambda>d. bdev_write alloc d buf data offset len)"

definition tegrabl_blockdev_write_block where
  "tegrabl_blockdev_write_block dev buf data block count =
     on_dev dev (BD_ERROR TEGRABL_ERR_INVALID 12) (\<lambda>d. bdev_write_block d buf data block count)"

definition tegrabl_blockdev_erase where
  "tegrabl_blockdev_erase dev block count is_secure =
     on_dev dev (BD_ERROR TEGRABL_ERR_INVALID 14) (\<lambda>d. bdev_erase d block count is_secure)"

definition tegrabl_blockdev_erase_all where
  "tegrabl_blockdev_erase_all dev is_secure =
     on_dev dev (BD_ERROR TEGRABL_ERR_INVALID 16) (\<lambda>d. bdev_erase d 0 (block_count d) is_secure)"

text \<open>The ioctl that asks for the block size is answered here; its result is the second component.\<close>

definition tegrabl_blockdev_ioctl ::
  "nat option \<Rightarrow> u32 \<Rightarrow> bool \<Rightarrow> 'd bd_state \<Rightarrow> (tegrabl_error_t \<times> u64 option) \<times> 'd bd_state"
where
  "tegrabl_blockdev_ioctl dev ioctl args =
     on_dev dev (BD_ERROR TEGRABL_ERR_INVALID 17, None)
       (\<lambda>d. if ioctl \<ge> TEGRABL_IOCTL_INVALID \<or> \<not> args then ((BD_ERROR TEGRABL_ERR_INVALID 17, None), d)
            else if ioctl = TEGRABL_IOCTL_BLOCK_SIZE
              then ((TEGRABL_NO_ERROR, Some (TEGRABL_BLOCKDEV_BLOCK_SIZE d)), d)
            else (case op_ioctl (ops d) (priv_data d) ioctl of (error, p) \<Rightarrow>
                    ((if error \<noteq> TEGRABL_NO_ERROR then BD_HIGHEST error else error, None),
                     d\<lparr>priv_data := p\<rparr>)))"

definition bdev_xfer ::
  "xfer_info \<Rightarrow> 'd tegrabl_bdev \<Rightarrow> tegrabl_error_t \<times> 'd tegrabl_bdev"
where
  "bdev_xfer xfer dev =
     (if range_bad dev (start_block xfer) (xfer_block_count xfer)
        then (BD_ERROR TEGRABL_ERR_OVERFLOW 5, dev)
      else if ref dev = 0 then (BD_ERROR TEGRABL_ERR_INVALID 23, dev)
      else
        (case op_xfer (ops dev) (priv_data dev) xfer of (error, p) \<Rightarrow>
           (if error \<noteq> TEGRABL_NO_ERROR then BD_HIGHEST error else error, dev\<lparr>priv_data := p\<rparr>)))"

definition tegrabl_blockdev_xfer ::
  "xfer_info \<Rightarrow> 'd bd_state \<Rightarrow> (tegrabl_error_t \<times> xfer_info) \<times> 'd bd_state"
where
  "tegrabl_blockdev_xfer xfer s =
     (case on_dev (xfer_dev xfer) (BD_ERROR TEGRABL_ERR_INVALID 22) (bdev_xfer xfer) s of (error, s) \<Rightarrow>
        if error \<noteq> TEGRABL_NO_ERROR then ((error, xfer), s)
        else ((error, xfer\<lparr>xfer_id_field := xfer_id s\<rparr>), s\<lparr>xfer_id := xfer_id s + 1\<rparr>))"

definition tegrabl_blockdev_xfer_wait ::
  "xfer_info \<Rightarrow> u64 \<Rightarrow> 'd bd_state \<Rightarrow> (tegrabl_error_t \<times> u8) \<times> 'd bd_state"
where
  "tegrabl_blockdev_xfer_wait xfer timeout =
     on_dev (xfer_dev xfer) (BD_ERROR TEGRABL_ERR_INVALID 24, 0)
       (\<lambda>d. case op_xfer_wait (ops d) (priv_data d) xfer timeout of ((error, status), p) \<Rightarrow>
              ((if error \<noteq> TEGRABL_NO_ERROR then BD_HIGHEST error else error, status),
               d\<lparr>priv_data := p\<rparr>))"

end
