(* ===== verification/Blockdev_Correct.thy ===== *)
theory Blockdev_Correct
  imports Blockdev
begin

text \<open>
  Correctness of the byte reads and writes of the block device framework. The driver behind a
  device is described by what its block hooks document: \<open>driver_ok\<close> (a successful block read
  returns the blocks, a successful block write replaces them, a failing one touches only them) and
  \<open>driver_live\<close> (in-range requests succeed). \<open>bdev_ok\<close> is the invariant of an initialised
  device over such a driver. Each stage of the default read and write keeps a loop invariant
  (\<open>rd_inv\<close>, \<open>wr_inv\<close>); composed, they show that the framework is a \<open>byte_store\<close>.
\<close>

section \<open>The driver contract and the device invariant\<close>

definition driver_ok :: "('d \<Rightarrow> bytes) \<Rightarrow> nat \<Rightarrow> nat \<Rightarrow> 'd bdev_ops \<Rightarrow> bool" where
  "driver_ok contents lg nblk bo \<longleftrightarrow>
     (\<forall>p b c e data p'.
        length (contents p) = nblk * 2 ^ lg \<and> unat b + unat c \<le> nblk \<and>
        op_read_block bo p b c = ((e, data), p') \<longrightarrow>
        contents p' = contents p \<and>
        (e = TEGRABL_NO_ERROR \<longrightarrow>
           data = subrange (unat b * 2 ^ lg) (unat c * 2 ^ lg) (contents p))) \<and>
     (\<forall>p b c e data p'.
        length (contents p) = nblk * 2 ^ lg \<and> unat b + unat c \<le> nblk \<and>
        length data = unat c * 2 ^ lg \<and> op_write_block bo p data b c = (e, p') \<longrightarrow>
        same_outside (unat b * 2 ^ lg) ((unat b + unat c) * 2 ^ lg) (contents p') (contents p) \<and>
        (e = TEGRABL_NO_ERROR \<longrightarrow> contents p' = overwrite (unat b * 2 ^ lg) data (contents p)))"

definition bdev_img :: "('d \<Rightarrow> bytes) \<Rightarrow> 'd tegrabl_bdev \<Rightarrow> bytes" where
  "bdev_img contents dev = contents (priv_data dev)"

definition bdev_gran :: "'d tegrabl_bdev \<Rightarrow> nat" where
  "bdev_gran dev = 2 ^ unat (block_size_log2 dev)"

definition bdev_ok :: "('d \<Rightarrow> bytes) \<Rightarrow> 'd tegrabl_bdev \<Rightarrow> bool" where
  "bdev_ok contents dev \<longleftrightarrow>
     unat (block_size_log2 dev) < 32 \<and>
     dev_size dev = push_bit (unat (block_size_log2 dev)) (ucast (block_count dev)) \<and>
     length (bdev_img contents dev) = unat (block_count dev) * bdev_gran dev \<and>
     driver_ok contents (unat (block_size_log2 dev)) (unat (block_count dev)) (ops dev)"

lemma bdev_img_update [simp]: "bdev_img contents (dev\<lparr>priv_data := p\<rparr>) = contents p"
  by (simp add: bdev_img_def)

lemma bdev_gran_update [simp]: "bdev_gran (dev\<lparr>priv_data := p\<rparr>) = bdev_gran dev"
  by (simp add: bdev_gran_def)

lemma bdev_gran_pos [simp]: "0 < bdev_gran dev"
  by (simp add: bdev_gran_def)

lemma range_bad_iff:
  "unat b + unat c < 2 ^ 32 \<Longrightarrow> range_bad dev b c \<longleftrightarrow> unat (block_count dev) < unat b + unat c"
  unfolding range_bad_def word_less_nat_alt
  by (auto simp: unat_word_ariths(1))

lemma bdev_size_unat:
  assumes "bdev_ok contents dev"
  shows "unat (dev_size dev) = length (bdev_img contents dev)"
proof -
  have lg: "unat (block_size_log2 dev) < 32" using assms by (simp add: bdev_ok_def)
  have "unat (ucast (block_count dev) :: u64) = unat (block_count dev)"
    by (rule unat_ucast_up) simp
  moreover have "unat (block_count dev) * 2 ^ unat (block_size_log2 dev) < 2 ^ 32 * 2 ^ 32"
    using lg unsigned_less [of "block_count dev"]
    power_strict_increasing [OF lg, of 2]
    by (intro mult_strict_mono) auto
  ultimately have "unat (push_bit (unat (block_size_log2 dev)) (ucast (block_count dev) :: u64)) =
      unat (block_count dev) * 2 ^ unat (block_size_log2 dev)"
    by (subst unat_shift_left) simp_all
  then show ?thesis
    using assms by (simp add: bdev_ok_def bdev_gran_def)
qed


lemma bdev_ok_update:
  "bdev_ok contents dev \<Longrightarrow> length (contents p) = length (bdev_img contents dev) \<Longrightarrow>
   bdev_ok contents (dev\<lparr>priv_data := p\<rparr>)"
  by (simp add: bdev_ok_def)

lemma driver_read:
  assumes "bdev_ok contents dev" and "unat b + unat c \<le> unat (block_count dev)"
    and "op_read_block (ops dev) (priv_data dev) b c = ((e, data), p)"
  shows "contents p = bdev_img contents dev"
    and "e = TEGRABL_NO_ERROR \<Longrightarrow>
      data = subrange (unat b * bdev_gran dev) (unat c * bdev_gran dev) (bdev_img contents dev)"
  using assms unfolding bdev_ok_def driver_ok_def bdev_img_def bdev_gran_def by blast+

lemma driver_write:
  assumes "bdev_ok contents dev" and "unat b + unat c \<le> unat (block_count dev)"
    and "length data = unat c * bdev_gran dev"
    and "op_write_block (ops dev) (priv_data dev) data b c = (e, p)"
  shows "same_outside (unat b * bdev_gran dev) ((unat b + unat c) * bdev_gran dev)
      (contents p) (bdev_img contents dev)"
    and "e = TEGRABL_NO_ERROR \<Longrightarrow>
      contents p = overwrite (unat b * bdev_gran dev) data (bdev_img contents dev)"
  using assms unfolding bdev_ok_def driver_ok_def bdev_img_def bdev_gran_def by blast+

lemma read_block_cases:
  assumes "bdev_read_block dev buf b c = ((e, data), dev')"
  obtains (rejected) "e \<noteq> TEGRABL_NO_ERROR" "dev' = dev"
  | (hook) e0 p where "c \<noteq> 0" "\<not> range_bad dev b c"
      "op_read_block (ops dev) (priv_data dev) b c = ((e0, data), p)"
      "dev' = dev\<lparr>priv_data := p\<rparr>" "e = TEGRABL_NO_ERROR \<longleftrightarrow> e0 = TEGRABL_NO_ERROR"
proof (cases "c = 0 \<or> \<not> tegrabl_blockdev_buffer_aligned dev buf \<or> ref dev = 0 \<or> range_bad dev b c")
  case True
  then show ?thesis
    using assms rejected by (auto simp: bdev_read_block_def split: if_splits)
next
  case False
  obtain e0 d0 p where *: "op_read_block (ops dev) (priv_data dev) b c = ((e0, d0), p)"
    by (metis surj_pair)
  then show ?thesis
    using False assms hook [of e0 p] by (auto simp: bdev_read_block_def split: if_splits)
qed

lemma write_block_cases:
  assumes "bdev_write_block dev buf data b c = (e, dev')"
  obtains (rejected) "e \<noteq> TEGRABL_NO_ERROR" "dev' = dev"
  | (hook) e0 p where "c \<noteq> 0" "\<not> range_bad dev b c"
      "op_write_block (ops dev) (priv_data dev) data b c = (e0, p)"
      "dev' = dev\<lparr>priv_data := p\<rparr>" "e = TEGRABL_NO_ERROR \<longleftrightarrow> e0 = TEGRABL_NO_ERROR"
proof (cases "c = 0 \<or> buf = 0 \<or> \<not> tegrabl_blockdev_buffer_aligned dev buf \<or> ref dev = 0 \<or>
              range_bad dev b c")
  case True
  then show ?thesis
    using assms rejected by (auto simp: bdev_write_block_def split: if_splits)
next
  case False
  obtain e0 p where *: "op_write_block (ops dev) (priv_data dev) data b c = (e0, p)"
    by (metis surj_pair)
  then show ?thesis
    using False assms hook [of e0 p] by (auto simp: bdev_write_block_def split: if_splits)
qed

text \<open>What a block operation leaves of the device: everything but the driver's private state.\<close>

definition same_dev :: "('d \<Rightarrow> bytes) \<Rightarrow> 'd tegrabl_bdev \<Rightarrow> 'd tegrabl_bdev \<Rightarrow> bool" where
  "same_dev contents dev dev' \<longleftrightarrow>
     bdev_ok contents dev' \<and> (\<exists>p. dev' = dev\<lparr>priv_data := p\<rparr>)"

lemma same_dev_refl: "bdev_ok contents dev \<Longrightarrow> same_dev contents dev dev"
  unfolding same_dev_def by (metis tegrabl_bdev.surjective tegrabl_bdev.update_convs(8))

lemma same_dev_trans:
  "same_dev contents d1 d2 \<Longrightarrow> same_dev contents d2 d3 \<Longrightarrow> same_dev contents d1 d3"
  by (auto simp: same_dev_def)

lemma same_devD:
  assumes "same_dev contents dev dev'"
  shows "bdev_ok contents dev'" "block_size_log2 dev' = block_size_log2 dev"
    "block_count dev' = block_count dev" "bdev_gran dev' = bdev_gran dev" "ref dev' = ref dev"
    "dev_size dev' = dev_size dev" "buf_align_size dev' = buf_align_size dev" "ops dev' = ops dev"
  using assms by (auto simp: same_dev_def bdev_gran_def)

section \<open>Block requests\<close>

lemma read_block_ok:
  assumes "bdev_ok contents dev" and "unat b + unat c < 2 ^ 32"
    and "bdev_read_block dev buf b c = ((e, data), dev')"
  shows "same_dev contents dev dev' \<and> bdev_img contents dev' = bdev_img contents dev \<and>
    (e = TEGRABL_NO_ERROR \<longrightarrow> unat b + unat c \<le> unat (block_count dev) \<and>
      data = subrange (unat b * bdev_gran dev) (unat c * bdev_gran dev) (bdev_img contents dev))"
  using assms(3)
proof (cases rule: read_block_cases)
  case rejected
  then show ?thesis using assms(1) by (simp add: same_dev_refl)
next
  case (hook e0 p)
  have le: "unat b + unat c \<le> unat (block_count dev)"
    using hook(2) range_bad_iff [OF assms(2), of dev] by simp
  note d = driver_read [OF assms(1) le hook(3)]
  have "same_dev contents dev dev'"
    using hook(4) bdev_ok_update [OF assms(1)] d(1) by (auto simp: same_dev_def)
  then show ?thesis
    using hook(4,5) d le by simp
qed

lemma write_block_ok:
  assumes "bdev_ok contents dev" and "unat b + unat c < 2 ^ 32"
    and "length data = unat c * bdev_gran dev"
    and "bdev_write_block dev buf data b c = (e, dev')"
  shows "same_dev contents dev dev' \<and>
    same_outside (unat b * bdev_gran dev) ((unat b + unat c) * bdev_gran dev)
      (bdev_img contents dev') (bdev_img contents dev) \<and>
    (e = TEGRABL_NO_ERROR \<longrightarrow> unat b + unat c \<le> unat (block_count dev) \<and>
      bdev_img contents dev' = overwrite (unat b * bdev_gran dev) data (bdev_img contents dev))"
  using assms(4)
proof (cases rule: write_block_cases)
  case rejected
  then show ?thesis using assms(1) by (simp add: same_dev_refl)
next
  case (hook e0 p)
  have le: "unat b + unat c \<le> unat (block_count dev)"
    using hook(2) range_bad_iff [OF assms(2), of dev] by simp
  note d = driver_write [OF assms(1) le assms(3) hook(3)]
  have "same_dev contents dev dev'"
    using hook(4) bdev_ok_update [OF assms(1)] same_outside_length [OF d(1)]
    by (auto simp: same_dev_def)
  then show ?thesis
    using hook(4,5) d le by simp
qed

text \<open>The macros in natural numbers.\<close>

lemma bdev_ok_lg: "bdev_ok contents dev \<Longrightarrow> unat (block_size_log2 dev) < 32"
  by (simp add: bdev_ok_def)

lemma unat_MOD_LOG2: "unat (MOD_LOG2 n (block_size_log2 dev)) = unat n mod bdev_gran dev"
  by (simp only: MOD_LOG2_def unat_low_bits bdev_gran_def)

lemma unat_DIV_FLOOR: "unat (DIV_FLOOR_LOG2 n (block_size_log2 dev)) = unat n div bdev_gran dev"
  by (simp only: DIV_FLOOR_LOG2_def unat_shift_right bdev_gran_def)

lemma unat_BLOCK_SIZE:
  "bdev_ok contents dev \<Longrightarrow> unat (TEGRABL_BLOCKDEV_BLOCK_SIZE dev) = bdev_gran dev"
  using bdev_ok_lg [of contents dev]
  unfolding TEGRABL_BLOCKDEV_BLOCK_SIZE_def bdev_gran_def by (intro unat_pow2) simp

lemma unat_block_size_u32:
  "bdev_ok contents dev \<Longrightarrow>
   unat (ucast (push_bit (unat (block_size_log2 dev)) (1 :: u32)) :: u64) = bdev_gran dev"
  using bdev_ok_lg [of contents dev]
    unat_pow2 [of "unat (block_size_log2 dev)", where 'a = 32]
  unfolding bdev_gran_def by (subst unat_ucast_up) simp_all

lemma unat_shift_count:
  "unat (push_bit (unat (block_size_log2 dev)) (DIV_FLOOR_LOG2 n (block_size_log2 dev)) :: u64) =
   unat n div bdev_gran dev * bdev_gran dev"
proof -
  have "unat n div bdev_gran dev * bdev_gran dev \<le> unat n" by simp
  also have "\<dots> < 2 ^ 64" using unsigned_less [of n] by simp
  finally show ?thesis
    using unat_shift_left [of "DIV_FLOOR_LOG2 n (block_size_log2 dev)" "unat (block_size_log2 dev)"]
    unfolding unat_DIV_FLOOR bdev_gran_def [symmetric] by simp
qed

section \<open>Byte reads\<close>

definition rd_keeps :: "('d \<Rightarrow> bytes) \<Rightarrow> 'd tegrabl_bdev \<Rightarrow> 'd rd_state \<Rightarrow> bool" where
  "rd_keeps contents dev0 st \<longleftrightarrow>
     same_dev contents dev0 (fst st) \<and> bdev_img contents (fst st) = bdev_img contents dev0"

definition rd_inv :: "('d \<Rightarrow> bytes) \<Rightarrow> 'd tegrabl_bdev \<Rightarrow> nat \<Rightarrow> nat \<Rightarrow> 'd rd_state \<Rightarrow> bool" where
  "rd_inv contents dev0 off n st \<longleftrightarrow>
     (case st of (dev, buf, len, block, data) \<Rightarrow>
        off + n \<le> length (bdev_img contents dev0) \<and> unat len \<le> n \<and>
        data = subrange off (n - unat len) (bdev_img contents dev0) \<and>
        (len \<noteq> 0 \<longrightarrow> unat block * bdev_gran dev0 = off + (n - unat len)))"

lemma img_blocks:
  "bdev_ok contents dev \<Longrightarrow> length (bdev_img contents dev) = unat (block_count dev) * bdev_gran dev"
  by (simp add: bdev_ok_def)

lemma unat_start_block:
  assumes "bdev_ok contents dev" "unat off < length (bdev_img contents dev)"
  shows "unat (ucast (DIV_FLOOR_LOG2 off (block_size_log2 dev)) :: u32) = unat off div bdev_gran dev"
    and "unat off div bdev_gran dev < unat (block_count dev)"
proof -
  show lt: "unat off div bdev_gran dev < unat (block_count dev)"
    using assms by (simp add: img_blocks div_mult_bound)
  also have "\<dots> < 2 ^ 32" using unat_u32_bound [of "block_count dev"] by simp
  finally show "unat (ucast (DIV_FLOOR_LOG2 off (block_size_log2 dev)) :: u32) =
      unat off div bdev_gran dev"
    by (subst unat_ucast_small) (simp_all add: unat_DIV_FLOOR)
qed

definition first_chunk :: "'d tegrabl_bdev \<Rightarrow> u64 \<Rightarrow> u64 \<Rightarrow> u64" where
  "first_chunk dev off len =
     min (TEGRABL_BLOCKDEV_BLOCK_SIZE dev - MOD_LOG2 off (block_size_log2 dev)) len"

lemma first_chunk_unat:
  assumes "bdev_ok contents dev"
  shows "unat (first_chunk dev off len) = min (bdev_gran dev - unat off mod bdev_gran dev) (unat len)"
proof -
  have "MOD_LOG2 off (block_size_log2 dev) \<le> TEGRABL_BLOCKDEV_BLOCK_SIZE dev"
    unfolding word_le_nat_alt unat_MOD_LOG2 unat_BLOCK_SIZE [OF assms] 
    by (simp add: less_imp_le)
  then show ?thesis
    by (simp add: first_chunk_def unat_min unat_diff unat_MOD_LOG2 unat_BLOCK_SIZE [OF assms])
qed

lemma first_chunk_bounds:
  fixes off len :: u64
  assumes "bdev_ok contents dev"
  shows "unat off mod bdev_gran dev + unat (first_chunk dev off len) \<le> bdev_gran dev"
    and "first_chunk dev off len \<le> len"
    and "unat (first_chunk dev off len) \<le> unat len"
    and "unat (len - first_chunk dev off len) = unat len - unat (first_chunk dev off len)"
proof -
  show "unat off mod bdev_gran dev + unat (first_chunk dev off len) \<le> bdev_gran dev"
    unfolding first_chunk_unat [OF assms]
    using mod_less_divisor [OF bdev_gran_pos, of "unat off" dev] by linarith
  show le: "first_chunk dev off len \<le> len" by (simp add: first_chunk_def)
  then show "unat (first_chunk dev off len) \<le> unat len" by (simp add: word_le_nat_alt)
  show "unat (len - first_chunk dev off len) = unat len - unat (first_chunk dev off len)"
    by (rule unat_diff) (rule le)
qed

lemma first_chunk_aligned:
  assumes "bdev_ok contents dev" and "len - first_chunk dev off len \<noteq> 0"
  shows "(unat off div bdev_gran dev + 1) * bdev_gran dev = unat off + unat (first_chunk dev off len)"
proof -
  have "unat (first_chunk dev off len) < unat len"
  proof -
    have "unat (len - first_chunk dev off len) \<noteq> 0"
      using assms(2) by (simp only: unat_eq_zero not_False_eq_True)
    then show ?thesis
      using first_chunk_bounds(4) [OF assms(1), where off = off and len = len] by linarith
  qed
  then have "unat (first_chunk dev off len) = bdev_gran dev - unat off mod bdev_gran dev"
    using first_chunk_unat [OF assms(1), of off len] by linarith
  moreover have "unat off = unat off div bdev_gran dev * bdev_gran dev + unat off mod bdev_gran dev"
    by simp
  moreover have "unat off mod bdev_gran dev < bdev_gran dev" by simp
  ultimately show ?thesis
    unfolding add_mult_distrib mult_1 by linarith
qed

lemma default_read_first_ok:
  assumes ok: "bdev_ok contents dev" and len: "len \<noteq> 0"
    and fits: "unat off + unat len \<le> length (bdev_img contents dev)"
    and run: "default_read_first partial off
      (dev, buf, len, ucast (DIV_FLOOR_LOG2 off (block_size_log2 dev)), []) = (e, st)"
  shows "rd_keeps contents dev st \<and>
    (e = TEGRABL_NO_ERROR \<longrightarrow> rd_inv contents dev (unat off) (unat len) st)"
proof (cases "MOD_LOG2 off (block_size_log2 dev) = 0")
  case True
  then have "unat off mod bdev_gran dev = 0"
    using unat_MOD_LOG2 [of off dev] by simp
  then have "unat off div bdev_gran dev * bdev_gran dev = unat off" by auto
  moreover have "unat off < length (bdev_img contents dev)"
    using fits len by (simp add: word_unat_eq_iff)
  ultimately show ?thesis
    using True run fits ok by (auto simp: default_read_first_def rd_keeps_def rd_inv_def same_dev_refl
        unat_start_block)
next
  case False
  let ?g = "bdev_gran dev" and ?b = "ucast (DIV_FLOOR_LOG2 off (block_size_log2 dev)) :: u32"
  let ?m = "MOD_LOG2 off (block_size_log2 dev)"
  let ?t = "first_chunk dev off len"
  have in_dev: "unat off < length (bdev_img contents dev)"
    using fits len by (simp add: word_unat_eq_iff)
  note b = unat_start_block [OF ok in_dev]
  note t = first_chunk_bounds [OF ok, where off = off and len = len]
  obtain e0 blk dev' where rb: "bdev_read_block dev (the partial) ?b 1 = ((e0, blk), dev')"
    by (metis surj_pair)
  have "unat ?b + unat (1 :: u32) < 2 ^ 32"
    using b unat_u32_bound [of "block_count dev"] by simp
  note R = read_block_ok [OF ok this rb]
  show ?thesis
  proof (cases "e0 = TEGRABL_NO_ERROR")
    case False
    then show ?thesis
      using R rb run \<open>?m \<noteq> 0\<close> by (auto simp: default_read_first_def rd_keeps_def)
  next
    case True
    have st: "e = TEGRABL_NO_ERROR"
      "st = (dev', buf + ?t, len - ?t, ?b + 1, subrange (unat ?m) (unat ?t) blk)"
      using True rb run \<open>?m \<noteq> 0\<close> same_devD [of contents dev dev'] R
      by (auto simp: default_read_first_def Let_def first_chunk_def TEGRABL_BLOCKDEV_BLOCK_SIZE_def)
    have "subrange (unat ?m) (unat ?t) blk = subrange (unat off) (unat ?t) (bdev_img contents dev)"
      using R True b t(1) by (simp add: subrange_subrange unat_MOD_LOG2)
    moreover have "unat (?b + 1) * ?g = unat off + unat ?t" if "len - ?t \<noteq> 0"
      using first_chunk_aligned [OF ok that] unat_Suc_bound [of ?b "block_count dev"] b by simp
    ultimately show ?thesis
      using R st fits t by (auto simp: rd_keeps_def rd_inv_def)
  qed
qed

definition whole_bytes :: "'d tegrabl_bdev \<Rightarrow> u64 \<Rightarrow> u64" where
  "whole_bytes dev len =
     push_bit (unat (block_size_log2 dev)) (DIV_FLOOR_LOG2 len (block_size_log2 dev))"

lemma unat_whole_bytes: "unat (whole_bytes dev len) = unat len div bdev_gran dev * bdev_gran dev"
  unfolding whole_bytes_def by (rule unat_shift_count)

lemma whole_bytes_le: "whole_bytes dev len \<le> len"
  unfolding word_le_nat_alt unat_whole_bytes by simp

lemma unat_rest: "unat (len - whole_bytes dev len) = unat len mod bdev_gran dev"
  by (simp add: unat_diff [OF whole_bytes_le] unat_whole_bytes minus_div_mult_eq_mod)

lemma whole_count:
  assumes "bdev_ok contents dev"
    and "unat block * bdev_gran dev + unat len \<le> length (bdev_img contents dev)"
  shows "unat (ucast (DIV_FLOOR_LOG2 len (block_size_log2 dev)) :: u32) = unat len div bdev_gran dev"
    and "unat block + unat len div bdev_gran dev \<le> unat (block_count dev)"
    and "unat (block + ucast (DIV_FLOOR_LOG2 len (block_size_log2 dev)) :: u32) =
      unat block + unat len div bdev_gran dev"
proof -
  have "(unat block + unat len div bdev_gran dev) * bdev_gran dev \<le>
      unat block * bdev_gran dev + unat len"
    by (simp add: add_mult_distrib)
  also have "\<dots> \<le> unat (block_count dev) * bdev_gran dev"
    using assms by (simp add: img_blocks)
  finally show le: "unat block + unat len div bdev_gran dev \<le> unat (block_count dev)"
    by simp
  then have lt: "unat block + unat len div bdev_gran dev < 4294967296"
    using unat_u32_bound [of "block_count dev"] by linarith
  show cnt: "unat (ucast (DIV_FLOOR_LOG2 len (block_size_log2 dev)) :: u32) =
      unat len div bdev_gran dev"
    using lt by (subst unat_ucast_small) (simp_all add: unat_DIV_FLOOR)
  show "unat (block + ucast (DIV_FLOOR_LOG2 len (block_size_log2 dev)) :: u32) =
      unat block + unat len div bdev_gran dev"
    using lt by (simp add: unat_word_ariths(1) cnt)
qed

lemma last_block:
  assumes "bdev_ok contents dev" and "len \<noteq> 0"
    and "unat block * bdev_gran dev + unat len \<le> length (bdev_img contents dev)"
  shows "unat block < unat (block_count dev)" and "unat block + unat (1 :: u32) < 2 ^ 32"
proof -
  have "unat len \<noteq> 0" using assms(2) by (simp add: unat_eq_zero)
  then have "unat block * bdev_gran dev < unat (block_count dev) * bdev_gran dev"
    using assms(3) img_blocks [OF assms(1)] by linarith
  then show "unat block < unat (block_count dev)" by simp
  then show "unat block + unat (1 :: u32) < 2 ^ 32"
    using unat_u32_bound [of "block_count dev"] by simp
qed

lemma rd_keeps_step:
  "rd_keeps contents dev0 (dev, x) \<Longrightarrow> same_dev contents dev dev' \<Longrightarrow>
   bdev_img contents dev' = bdev_img contents dev \<Longrightarrow> rd_keeps contents dev0 (dev', y)"
  using same_dev_trans by (auto simp: rd_keeps_def)

lemma default_read_middle_cases:
  assumes run: "default_read_middle alloc (dev, buf, len, block, data) = (e, st')"
    and ok: "bdev_ok contents dev"
  obtains (small) "unat len < bdev_gran dev" "e = TEGRABL_NO_ERROR" "st' = (dev, buf, len, block, data)"
  | (stopped) "e \<noteq> TEGRABL_NO_ERROR" "st' = (dev, buf, len, block, data)"
  | (ran) target e0 blks dev' where "bdev_gran dev \<le> unat len"
      "bdev_read_block dev target block (ucast (DIV_FLOOR_LOG2 len (block_size_log2 dev))) =
        ((e0, blks), dev')"
      "e0 \<noteq> TEGRABL_NO_ERROR \<longrightarrow> e \<noteq> TEGRABL_NO_ERROR \<and> st' = (dev', buf, len, block, data)"
      "e0 = TEGRABL_NO_ERROR \<longrightarrow> e = TEGRABL_NO_ERROR \<and>
        st' = (dev', buf + whole_bytes dev len, len - whole_bytes dev len,
          block + ucast (DIV_FLOOR_LOG2 len (block_size_log2 dev)),
          data @ take (unat (whole_bytes dev len)) blks)"
  using run whole_bytes_le [of dev len] unat_block_size_u32 [OF ok]
  by (auto simp: default_read_middle_def Let_def whole_bytes_def [symmetric] word_less_nat_alt
      split: if_splits prod.splits)

lemma whole_progress:
  assumes "unat block * bdev_gran dev = off + (n - unat len)" and "unat len \<le> n"
    and "unat (block + ucast (DIV_FLOOR_LOG2 len (block_size_log2 dev)) :: u32) =
      unat block + unat len div bdev_gran dev"
  shows "n - unat len + unat (whole_bytes dev len) = n - unat (len - whole_bytes dev len)"
    and "unat (block + ucast (DIV_FLOOR_LOG2 len (block_size_log2 dev)) :: u32) * bdev_gran dev =
      off + (n - unat (len - whole_bytes dev len))"
    and "unat (len - whole_bytes dev len) \<le> n"
proof -
  show eq: "n - unat len + unat (whole_bytes dev len) = n - unat (len - whole_bytes dev len)"
    using assms(2) unat_diff [OF whole_bytes_le, of len dev] whole_bytes_le [of dev len]
    by (simp add: word_le_nat_alt)
  show "unat (block + ucast (DIV_FLOOR_LOG2 len (block_size_log2 dev)) :: u32) * bdev_gran dev =
      off + (n - unat (len - whole_bytes dev len))"
    unfolding eq [symmetric] using assms(1,3) by (simp add: add_mult_distrib unat_whole_bytes)
  show "unat (len - whole_bytes dev len) \<le> n"
    using assms(2) by (simp add: unat_diff [OF whole_bytes_le])
qed

lemma default_read_middle_ok:
  assumes keeps: "rd_keeps contents dev0 st" and inv: "rd_inv contents dev0 off n st"
    and run: "default_read_middle alloc st = (e, st')"
  shows "rd_keeps contents dev0 st' \<and> (e = TEGRABL_NO_ERROR \<longrightarrow>
    rd_inv contents dev0 off n st' \<and> unat (fst (snd (snd st'))) < bdev_gran dev0)"
proof -
  obtain dev buf len block data where st: "st = (dev, buf, len, block, data)"
    by (metis surj_pair)
  have ok: "bdev_ok contents dev" and g: "bdev_gran dev = bdev_gran dev0"
    and img: "bdev_img contents dev = bdev_img contents dev0"
    using keeps same_devD [of contents dev0 dev] by (auto simp: rd_keeps_def st)
  from run ok show ?thesis
    unfolding st
  proof (cases rule: default_read_middle_cases)
    case (ran target e0 blks dev')
    let ?w = "whole_bytes dev len"
    have "len \<noteq> 0" using ran(1) bdev_gran_pos [of dev] by (metis not_le unsigned_0)
    then have pos: "unat block * bdev_gran dev = off + (n - unat len)" "unat len \<le> n"
      "off + n \<le> length (bdev_img contents dev0)"
      "data = subrange off (n - unat len) (bdev_img contents dev0)"
      using inv g by (auto simp: rd_inv_def st)
    then have "unat block * bdev_gran dev + unat len \<le> length (bdev_img contents dev)"
      using img by simp
    note W = whole_count [OF ok this]
    note P = whole_progress [OF pos(1,2) W(3)]
    have R: "same_dev contents dev dev'" "bdev_img contents dev' = bdev_img contents dev"
      "e0 = TEGRABL_NO_ERROR \<Longrightarrow> take (unat ?w) blks =
         subrange (off + (n - unat len)) (unat ?w) (bdev_img contents dev0)"
      using read_block_ok [OF ok _ ran(2)] W unat_u32_bound [of "block_count dev"] pos(1) img
      by (simp_all add: unat_whole_bytes take_subrange)
    have "rd_keeps contents dev0 st'"
      using ran(3,4) rd_keeps_step [OF keeps [unfolded st] R(1,2)] by (cases "e0 = TEGRABL_NO_ERROR") auto
    moreover have "rd_inv contents dev0 off n st' \<and> unat (fst (snd (snd st'))) < bdev_gran dev0"
      if e: "e = TEGRABL_NO_ERROR"
    proof -
      have e0: "e0 = TEGRABL_NO_ERROR" using e ran(3) by blast
      have "data @ take (unat ?w) blks = subrange off (n - unat (len - ?w)) (bdev_img contents dev0)"
        unfolding pos(4) R(3) [OF e0] subrange_append P(1) ..
      then show ?thesis
        using ran(4) e0 pos(3) P(2,3) g by (simp add: rd_inv_def unat_rest)
    qed
    ultimately show ?thesis by blast
  qed (use keeps inv g in \<open>auto simp: st rd_keeps_def\<close>)
qed

lemma default_read_last_ok:
  assumes keeps: "rd_keeps contents dev0 st" and inv: "rd_inv contents dev0 off n st"
    and small: "unat (fst (snd (snd st))) < bdev_gran dev0"
    and run: "default_read_last partial st = (e, (dev', buf', len', block', data'))"
  shows "rd_keeps contents dev0 (dev', buf', len', block', data') \<and>
    (e = TEGRABL_NO_ERROR \<longrightarrow> data' = subrange off n (bdev_img contents dev0))"
proof -
  obtain dev buf len block data where st: "st = (dev, buf, len, block, data)"
    by (metis surj_pair)
  have ok: "bdev_ok contents dev" and g: "bdev_gran dev = bdev_gran dev0"
    and img: "bdev_img contents dev = bdev_img contents dev0"
    using keeps same_devD [of contents dev0 dev] by (auto simp: rd_keeps_def st)
  show ?thesis
  proof (cases "len = 0 \<or> partial = None")
    case True
    then show ?thesis
      using run keeps inv by (auto simp: default_read_last_def st rd_inv_def rd_keeps_def split: if_splits)
  next
    case False
    obtain e0 blk dev1 where rb: "bdev_read_block dev (the partial) block 1 = ((e0, blk), dev1)"
      by (metis surj_pair)
    have pos: "unat block * bdev_gran dev = off + (n - unat len)" "unat len \<le> n"
      "off + n \<le> length (bdev_img contents dev0)"
      "data = subrange off (n - unat len) (bdev_img contents dev0)"
      using inv g False by (auto simp: rd_inv_def st)
    have "unat block * bdev_gran dev + unat len \<le> length (bdev_img contents dev)"
      using pos img by simp
    note R = read_block_ok [OF ok last_block(2) [OF ok _ this] rb]
    have "take (unat len) blk = subrange (off + (n - unat len)) (unat len) (bdev_img contents dev0)"
      if "e0 = TEGRABL_NO_ERROR"
      using R that small g img pos(1) False by (simp add: st take_subrange)
    moreover have "n - unat len + unat len = n" using pos(2) by simp
    ultimately have "data @ take (unat len) blk = subrange off n (bdev_img contents dev0)"
      if "e0 = TEGRABL_NO_ERROR"
      using that pos(4) subrange_append [of off "n - unat len"] by metis
    moreover have "rd_keeps contents dev0 (dev1, y)" for y
      using rd_keeps_step [OF keeps [unfolded st]] R False by blast
    ultimately show ?thesis
      using run False rb by (auto simp: default_read_last_def st split: if_splits)
  qed
qed


lemma default_read_ok:
  assumes ok: "bdev_ok contents dev" and len: "len \<noteq> 0"
    and fits: "unat off + unat len \<le> length (bdev_img contents dev)"
    and run: "tegrabl_blockdev_default_read alloc dev buf off len = ((e, data), dev')"
  shows "same_dev contents dev dev' \<and> bdev_img contents dev' = bdev_img contents dev \<and>
    (e = TEGRABL_NO_ERROR \<longrightarrow> data = subrange (unat off) (unat len) (bdev_img contents dev))"
proof -
  define partial where "partial =
    (if MOD_LOG2 off (block_size_log2 dev) \<noteq> 0 \<or> MOD_LOG2 len (block_size_log2 dev) \<noteq> 0
     then alloc 0 TEGRABL_BLOCKDEV_MEM_ALIGN_SIZE (TEGRABL_BLOCKDEV_BLOCK_SIZE dev) else None)"
  obtain e1 st1 where 1: "default_read_first partial off
      (dev, buf, len, ucast (DIV_FLOOR_LOG2 off (block_size_log2 dev)), []) = (e1, st1)"
    by (metis surj_pair)
  obtain e2 st2 where 2: "default_read_middle alloc st1 = (e2, st2)" by (metis surj_pair)
  obtain e3 dev3 b3 l3 k3 d3 where 3: "default_read_last partial st2 = (e3, (dev3, b3, l3, k3, d3))"
    by (metis surj_pair)
  note S1 = default_read_first_ok [OF ok len fits 1]
  show ?thesis
  proof (cases "e1 = TEGRABL_NO_ERROR")
    case False
    then show ?thesis
      using run 1 S1 ok unfolding tegrabl_blockdev_default_read_def Let_def partial_def [symmetric]
      by (auto simp: rd_keeps_def same_dev_refl split: if_splits prod.splits)
  next
    case e1: True
    then have S2: "rd_keeps contents dev st2 \<and> (e2 = TEGRABL_NO_ERROR \<longrightarrow>
        rd_inv contents dev (unat off) (unat len) st2 \<and> unat (fst (snd (snd st2))) < bdev_gran dev)"
      using default_read_middle_ok [OF _ _ 2, of contents dev "unat off" "unat len"] S1 by blast
    show ?thesis
    proof (cases "e2 = TEGRABL_NO_ERROR")
      case False
      then show ?thesis
        using run 1 2 S2 e1 ok unfolding tegrabl_blockdev_default_read_def Let_def partial_def [symmetric]
        by (auto simp: rd_keeps_def same_dev_refl split: if_splits prod.splits)
    next
      case e2: True
      have "rd_keeps contents dev (dev3, b3, l3, k3, d3) \<and> (e3 = TEGRABL_NO_ERROR \<longrightarrow>
          d3 = subrange (unat off) (unat len) (bdev_img contents dev))"
        using default_read_last_ok [OF _ _ _ 3] S2 e2 by blast
      then show ?thesis
        using run 1 2 3 e1 e2 ok
        unfolding tegrabl_blockdev_default_read_def Let_def partial_def [symmetric]
        by (auto simp: rd_keeps_def same_dev_refl split: if_splits)
    qed
  qed
qed

lemma range_check_sound:
  assumes "bdev_ok contents dev" and "unat off + unat len < 2 ^ 64"
  shows "offset_bad = (off \<ge> dev_size dev \<or> off + len > dev_size dev) \<Longrightarrow> \<not> offset_bad \<Longrightarrow>
    unat off + unat len \<le> length (bdev_img contents dev)"
  using assms(2) by (simp add: word_le_nat_alt word_less_nat_alt bdev_size_unat [OF assms(1)]
      unat_word_ariths(1) not_less)

lemma bdev_read_ok:
  assumes ok: "bdev_ok contents dev" and nowrap: "unat off + unat len < 2 ^ 64"
    and run: "bdev_read alloc dev buf off len = ((e, data), dev')"
  shows "same_dev contents dev dev' \<and> bdev_img contents dev' = bdev_img contents dev \<and>
    (e = TEGRABL_NO_ERROR \<longrightarrow> unat off + unat len \<le> length (bdev_img contents dev) \<and>
      data = subrange (unat off) (unat len) (bdev_img contents dev))"
proof (cases "len = 0 \<or> ref dev = 0 \<or> off \<ge> dev_size dev \<or> off + len > dev_size dev")
  case True
  then show ?thesis
    using run same_dev_refl [OF ok] by (auto simp: bdev_read_def split: if_splits)
next
  case False
  obtain e0 d0 dev0 where d: "tegrabl_blockdev_default_read alloc dev buf off len = ((e0, d0), dev0)"
    by (metis surj_pair)
  have fits: "unat off + unat len \<le> length (bdev_img contents dev)"
    using range_check_sound [OF ok nowrap refl] False by blast
  have "len \<noteq> 0" using False by blast
  from default_read_ok [OF ok this fits d] show ?thesis
    using run False d fits by (auto simp: bdev_read_def not_le split: if_splits)
qed

section \<open>Byte writes\<close>

lemma ceil_to_block: "b * g < m \<Longrightarrow> (b + 1) * g \<le> ceil_to g m"
proof -
  assume lt: "b * g < m"
  then have "(b + 1) * g \<le> m + g - 1" by (simp add: add_mult_distrib)
  then have "b + 1 \<le> (m + g - 1) div g" if "0 < g"
    using that by (metis div_le_mono nonzero_mult_div_cancel_right less_not_refl2)
  then show ?thesis
    unfolding ceil_to_def by (cases "g = 0") (auto intro: mult_le_mono1 simp del: mult_Suc)
qed

definition wr_keeps ::
  "('d \<Rightarrow> bytes) \<Rightarrow> 'd tegrabl_bdev \<Rightarrow> nat \<Rightarrow> nat \<Rightarrow> 'd rd_state \<Rightarrow> bool" where
  "wr_keeps contents dev0 off n st \<longleftrightarrow>
     same_dev contents dev0 (fst st) \<and>
     same_outside (floor_to (bdev_gran dev0) off) (ceil_to (bdev_gran dev0) (off + n))
       (bdev_img contents (fst st)) (bdev_img contents dev0)"

definition wr_inv ::
  "('d \<Rightarrow> bytes) \<Rightarrow> 'd tegrabl_bdev \<Rightarrow> bytes \<Rightarrow> nat \<Rightarrow> 'd rd_state \<Rightarrow> bool" where
  "wr_inv contents dev0 data0 off st \<longleftrightarrow>
     (case st of (dev, buf, len, block, data) \<Rightarrow>
        off + length data0 \<le> length (bdev_img contents dev0) \<and> unat len \<le> length data0 \<and>
        data = drop (length data0 - unat len) data0 \<and>
        bdev_img contents dev =
          overwrite off (take (length data0 - unat len) data0) (bdev_img contents dev0) \<and>
        (len \<noteq> 0 \<longrightarrow> unat block * bdev_gran dev0 = off + (length data0 - unat len)))"

lemma wr_keeps_refl: "bdev_ok contents dev \<Longrightarrow> wr_keeps contents dev off n (dev, x)"
  by (simp add: wr_keeps_def same_dev_refl)

lemma wr_keeps_step:
  assumes "wr_keeps contents dev0 off n (dev, x)" and "same_dev contents dev dev'"
    and "same_outside a b (bdev_img contents dev') (bdev_img contents dev)"
    and "off \<le> a \<or> floor_to (bdev_gran dev0) off = a" and "b \<le> ceil_to (bdev_gran dev0) (off + n)"
  shows "wr_keeps contents dev0 off n (dev', y)"
proof -
  have "floor_to (bdev_gran dev0) off \<le> a"
    using assms(4) floor_to_le [of "bdev_gran dev0" off] by linarith
  then have "same_outside (floor_to (bdev_gran dev0) off) (ceil_to (bdev_gran dev0) (off + n))
      (bdev_img contents dev') (bdev_img contents dev)"
    using same_outside_mono [OF assms(3)] assms(5) by blast
  then show ?thesis
    using assms(1,2) same_dev_trans same_outside_trans by (fastforce simp: wr_keeps_def)
qed

lemma overwrite_progress:
  assumes "off + length d \<le> length xs" and "k + m \<le> length d"
  shows "overwrite (off + k) (take m (drop k d)) (overwrite off (take k d) xs) =
    overwrite off (take (k + m) d) xs"
proof -
  have "length (take k d) = k" using assms(2) by simp
  then show ?thesis
    using overwrite_append [of off "take k d" "take m (drop k d)" xs] assms by (simp add: take_add)
qed

lemma default_write_middle_cases:
  assumes run: "default_write_middle alloc (dev, buf, len, block, data) = (e, st')"
    and ok: "bdev_ok contents dev"
  obtains (small) "unat len < bdev_gran dev" "e = TEGRABL_NO_ERROR" "st' = (dev, buf, len, block, data)"
  | (stopped) "e \<noteq> TEGRABL_NO_ERROR" "st' = (dev, buf, len, block, data)"
  | (ran) src e0 dev' where "bdev_gran dev \<le> unat len"
      "bdev_write_block dev src (take (unat (whole_bytes dev len)) data) block
         (ucast (DIV_FLOOR_LOG2 len (block_size_log2 dev))) = (e0, dev')"
      "e0 \<noteq> TEGRABL_NO_ERROR \<longrightarrow> e \<noteq> TEGRABL_NO_ERROR \<and> st' = (dev', buf, len, block, data)"
      "e0 = TEGRABL_NO_ERROR \<longrightarrow> e = TEGRABL_NO_ERROR \<and>
        st' = (dev', buf + whole_bytes dev len, len - whole_bytes dev len,
          block + ucast (DIV_FLOOR_LOG2 len (block_size_log2 dev)),
          drop (unat (whole_bytes dev len)) data)"
  using run whole_bytes_le [of dev len] unat_block_size_u32 [OF ok]
  by (auto simp: default_write_middle_def Let_def whole_bytes_def [symmetric] word_less_nat_alt
      split: if_splits prod.splits)

lemma default_write_middle_ok:
  assumes keeps: "wr_keeps contents dev0 off (length d) st" and inv: "wr_inv contents dev0 d off st"
    and run: "default_write_middle alloc st = (e, st')"
  shows "wr_keeps contents dev0 off (length d) st' \<and> (e = TEGRABL_NO_ERROR \<longrightarrow>
    wr_inv contents dev0 d off st' \<and> unat (fst (snd (snd st'))) < bdev_gran dev0)"
proof -
  obtain dev buf len block data where st: "st = (dev, buf, len, block, data)"
    by (metis surj_pair)
  have ok: "bdev_ok contents dev" and g: "bdev_gran dev = bdev_gran dev0"
    and limg: "length (bdev_img contents dev) = length (bdev_img contents dev0)"
    using keeps same_devD [of contents dev0 dev] same_outside_length
    by (auto simp: wr_keeps_def st)
  from run ok show ?thesis
    unfolding st
  proof (cases rule: default_write_middle_cases)
    case (ran src e0 dev')
    let ?w = "whole_bytes dev len" and ?k = "length d - unat len"
    have "len \<noteq> 0" using ran(1) bdev_gran_pos [of dev] by (metis not_le unsigned_0)
    then have pos: "unat block * bdev_gran dev = off + ?k" "unat len \<le> length d"
      "off + length d \<le> length (bdev_img contents dev0)" "data = drop ?k d"
      "bdev_img contents dev = overwrite off (take ?k d) (bdev_img contents dev0)"
      using inv g by (auto simp: wr_inv_def st)
    then have "unat block * bdev_gran dev + unat len \<le> length (bdev_img contents dev)"
      using limg by simp
    note W = whole_count [OF ok this]
    note P = whole_progress [OF pos(1,2) W(3)]
    have wle: "unat ?w \<le> unat len" using whole_bytes_le by (simp add: word_le_nat_alt)
    then have "length (take (unat ?w) data) =
        unat (ucast (DIV_FLOOR_LOG2 len (block_size_log2 dev)) :: u32) * bdev_gran dev"
      using pos(2,4) W(1) by (simp add: unat_whole_bytes)
    note R = write_block_ok [OF ok _ this ran(2)]
    have R': "same_dev contents dev dev'"
      "same_outside (off + ?k) (off + ?k + unat ?w) (bdev_img contents dev') (bdev_img contents dev)"
      "e0 = TEGRABL_NO_ERROR \<Longrightarrow> bdev_img contents dev' =
         overwrite (off + ?k) (take (unat ?w) data) (bdev_img contents dev)"
      using R W pos(1) unat_u32_bound [of "block_count dev"]
      by (simp_all add: unat_whole_bytes add_mult_distrib)
    have "off + ?k + unat ?w \<le> off + length d" using wle pos(2) by simp
    then have "off + ?k + unat ?w \<le> ceil_to (bdev_gran dev0) (off + length d)"
      using ceil_to_ge [OF bdev_gran_pos, of "off + length d" dev0] by linarith
    then have "wr_keeps contents dev0 off (length d) (dev', y)" for y
      using wr_keeps_step [OF keeps [unfolded st] R'(1,2)] by simp
    moreover have "wr_inv contents dev0 d off st' \<and> unat (fst (snd (snd st'))) < bdev_gran dev0"
      if e: "e = TEGRABL_NO_ERROR"
    proof -
      have e0: "e0 = TEGRABL_NO_ERROR" using e ran(3) by blast
      have "bdev_img contents dev' = overwrite off (take (?k + unat ?w) d) (bdev_img contents dev0)"
        unfolding R'(3) [OF e0] pos(4,5) by (rule overwrite_progress) (use pos(2,3) wle in simp_all)
      moreover have "drop (unat ?w) data = drop (?k + unat ?w) d"
        by (simp add: pos(4) add.commute)
      ultimately show ?thesis
        using ran(4) e0 pos(3) P g by (simp add: wr_inv_def unat_rest)
    qed
    ultimately show ?thesis
      using ran(3,4) by (cases "e0 = TEGRABL_NO_ERROR") auto
  qed (use keeps inv g in \<open>auto simp: st wr_keeps_def\<close>)
qed


lemma patch_block_ok:
  assumes ok: "bdev_ok contents dev" and b: "unat b < unat (block_count dev)"
    and chunk: "m + length ys \<le> bdev_gran dev"
    and rb: "bdev_read_block dev buf b 1 = ((TEGRABL_NO_ERROR, blk), dev1)"
    and wb: "bdev_write_block dev1 buf (overwrite m ys blk) b 1 = (e, dev2)"
  shows "block_size_log2 dev1 = block_size_log2 dev \<and> same_dev contents dev dev2 \<and>
    same_outside (unat b * bdev_gran dev) ((unat b + 1) * bdev_gran dev)
      (bdev_img contents dev2) (bdev_img contents dev) \<and>
    (e = TEGRABL_NO_ERROR \<longrightarrow>
      bdev_img contents dev2 = overwrite (unat b * bdev_gran dev + m) ys (bdev_img contents dev))"
proof -
  have one: "unat b + unat (1 :: u32) < 2 ^ 32"
    using b unat_u32_bound [of "block_count dev"] by simp
  note R = read_block_ok [OF ok one rb]
  have sd1: "same_dev contents dev dev1" using R by blast
  note D1 = same_devD [OF sd1]
  have blk: "blk = subrange (unat b * bdev_gran dev) (bdev_gran dev) (bdev_img contents dev)"
    and inb: "unat b * bdev_gran dev + bdev_gran dev \<le> length (bdev_img contents dev)"
    using R b img_blocks [OF ok] mult_le_mono1 [of "unat b + 1" "unat (block_count dev)" "bdev_gran dev"]
    by simp_all
  have "length (overwrite m ys blk) = unat (1 :: u32) * bdev_gran dev1"
    using blk inb chunk D1(4) by simp
  note W = write_block_ok [OF D1(1) one this wb]
  have "same_dev contents dev dev2" using sd1 W same_dev_trans by blast
  then show ?thesis
    using W R D1(2,4) overwrite_nested [OF inb chunk] by (simp add: blk)
qed

lemma read_block_failed:
  assumes "bdev_ok contents dev" and "unat b < unat (block_count dev)"
    and "bdev_read_block dev buf b 1 = ((e, blk), dev1)" and "wr_keeps contents dev0 off n (dev, x)"
  shows "wr_keeps contents dev0 off n (dev1, y)"
proof -
  have "unat b + unat (1 :: u32) < 2 ^ 32"
    using assms(2) unat_u32_bound [of "block_count dev"] by simp
  from read_block_ok [OF assms(1) this assms(3)] assms(4) show ?thesis
    using same_dev_trans by (auto simp: wr_keeps_def)
qed

lemma patch_keeps:
  assumes "wr_keeps contents dev0 off n (dev, x)" and "same_dev contents dev dev2"
    and "same_outside (k * bdev_gran dev) ((k + 1) * bdev_gran dev)
      (bdev_img contents dev2) (bdev_img contents dev)"
    and "off \<le> k * bdev_gran dev \<or> k = off div bdev_gran dev" and "k * bdev_gran dev < off + n"
  shows "wr_keeps contents dev0 off n (dev2, y)"
proof -
  have g: "bdev_gran dev = bdev_gran dev0"
    using assms(1) same_devD(4) [of contents dev0 dev] by (simp add: wr_keeps_def)
  show ?thesis
    using wr_keeps_step [OF assms(1,2,3)] assms(4) ceil_to_block [OF assms(5)]
    by (cases y) (auto simp: g floor_to_def)
qed

lemma default_write_first_ok:
  assumes ok: "bdev_ok contents dev" and len: "len \<noteq> 0" "length d = unat len"
    and fits: "unat off + unat len \<le> length (bdev_img contents dev)"
    and run: "default_write_first partial off
      (dev, buf, len, ucast (DIV_FLOOR_LOG2 off (block_size_log2 dev)), d) = (e, st)"
  shows "wr_keeps contents dev (unat off) (length d) st \<and>
    (e = TEGRABL_NO_ERROR \<longrightarrow> wr_inv contents dev d (unat off) st)"
proof -
  let ?g = "bdev_gran dev" and ?b = "ucast (DIV_FLOOR_LOG2 off (block_size_log2 dev)) :: u32"
  let ?m = "MOD_LOG2 off (block_size_log2 dev)" and ?t = "first_chunk dev off len"
  have pos: "0 < unat len" using len(1) by (simp add: word_unat_eq_iff)
  then have "unat off < length (bdev_img contents dev)" using fits by simp
  note b = unat_start_block [OF ok this]
  note t = first_chunk_bounds [OF ok, where off = off and len = len]
  have m: "unat off div ?g * ?g + unat ?m = unat off" by (simp add: unat_MOD_LOG2)
  obtain e0 blk dev1 where rb: "bdev_read_block dev (the partial) ?b 1 = ((e0, blk), dev1)"
    by (metis surj_pair)
  consider "?m = 0" | "?m \<noteq> 0" "e0 \<noteq> TEGRABL_NO_ERROR" | "?m \<noteq> 0" "e0 = TEGRABL_NO_ERROR" by blast
  then show ?thesis
  proof cases
    case 1
    then show ?thesis
      using run fits ok m b(1) len by (auto simp: default_write_first_def wr_keeps_refl wr_inv_def)
  next
    case 2
    then show ?thesis
      using rb run read_block_failed [OF ok _ rb wr_keeps_refl [OF ok]] b
      by (auto simp: default_write_first_def)
  next
    case 3
    obtain e1 dev2 where
      wb: "bdev_write_block dev1 (the partial) (overwrite (unat ?m) (take (unat ?t) d) blk) ?b 1 = (e1, dev2)"
      by (metis surj_pair)
    have "unat ?m + length (take (unat ?t) d) \<le> ?g"
      using t(1,3) len(2) by (simp add: unat_MOD_LOG2)
    note P = patch_block_ok [OF ok _ this rb [unfolded 3(2)] wb]
    have st: "(e = TEGRABL_NO_ERROR \<longleftrightarrow> e1 = TEGRABL_NO_ERROR) \<and> fst st = dev2 \<and>
        (e1 = TEGRABL_NO_ERROR \<longrightarrow> st = (dev2, buf + ?t, len - ?t, ?b + 1, drop (unat ?t) d))"
      using 3 rb wb run P b
      by (auto simp: default_write_first_def Let_def first_chunk_def TEGRABL_BLOCKDEV_BLOCK_SIZE_def
          split: if_splits)
    have "unat off div ?g * ?g < unat off + length d" using len(2) pos m by linarith
    then have "wr_keeps contents dev (unat off) (length d) (dev2, y)" for y
      by (intro patch_keeps [OF wr_keeps_refl [OF ok], of _ "unat off div ?g"]) (use P b in simp_all)
    moreover have "unat (?b + 1) * ?g = unat off + unat ?t" if "len - ?t \<noteq> 0"
      using first_chunk_aligned [OF ok that] unat_Suc_bound [of ?b "block_count dev"] b by simp
    then have "wr_inv contents dev d (unat off) st" if "e = TEGRABL_NO_ERROR"
      using that st P b m fits len(2) t by (auto simp: wr_inv_def)
    ultimately show ?thesis
      using st by (metis prod.collapse)
  qed
qed

lemma default_write_last_ok:
  assumes keeps: "wr_keeps contents dev0 off (length d) st" and inv: "wr_inv contents dev0 d off st"
    and small: "unat (fst (snd (snd st))) < bdev_gran dev0"
    and run: "default_write_last partial st = (e, st')"
  shows "wr_keeps contents dev0 off (length d) st' \<and> (e = TEGRABL_NO_ERROR \<longrightarrow>
    bdev_img contents (fst st') = overwrite off d (bdev_img contents dev0))"
proof -
  obtain dev buf len block data where st: "st = (dev, buf, len, block, data)"
    by (metis surj_pair)
  have ok: "bdev_ok contents dev" and g: "bdev_gran dev = bdev_gran dev0"
    and limg: "length (bdev_img contents dev) = length (bdev_img contents dev0)"
    using keeps same_devD [of contents dev0 dev] same_outside_length
    by (auto simp: wr_keeps_def st)
  show ?thesis
  proof (cases "len = 0 \<or> partial = None")
    case True
    then show ?thesis
      using run keeps inv by (auto simp: default_write_last_def st wr_inv_def split: if_splits)
  next
    case False
    let ?k = "length d - unat len"
    have pos: "unat block * bdev_gran dev = off + ?k" "unat len \<le> length d" "0 < unat len"
      "off + length d \<le> length (bdev_img contents dev0)" "data = drop ?k d"
      "bdev_img contents dev = overwrite off (take ?k d) (bdev_img contents dev0)"
      using inv g False by (auto simp: wr_inv_def st word_unat_eq_iff)
    then have "unat block * bdev_gran dev + unat len \<le> length (bdev_img contents dev)"
      using limg by simp
    then have b: "unat block < unat (block_count dev)"
      using last_block(1) [OF ok] False by blast
    obtain e0 blk dev1 where rb: "bdev_read_block dev (the partial) block 1 = ((e0, blk), dev1)"
      by (metis surj_pair)
    obtain e1 dev2 where wb: "bdev_write_block dev1 (the partial)
        (overwrite 0 (take (unat len) data) blk) block 1 = (e1, dev2)"
      by (metis surj_pair)
    show ?thesis
    proof (cases "e0 = TEGRABL_NO_ERROR")
      case e0: False
      then show ?thesis
        using rb run False read_block_failed [OF ok b rb keeps [unfolded st]]
        by (auto simp: default_write_last_def st)
    next
      case e0: True
      have res: "(e = TEGRABL_NO_ERROR \<longleftrightarrow> e1 = TEGRABL_NO_ERROR) \<and> fst st' = dev2"
        using e0 rb wb run False by (auto simp: default_write_last_def st split: if_splits)
      have "0 + length (take (unat len) data) \<le> bdev_gran dev"
        using small g pos(2,5) by (simp add: st)
      note P = patch_block_ok [OF ok b this rb [unfolded e0] wb]
      have "unat block * bdev_gran dev < off + length d" using pos(1-3) by linarith
      then have "wr_keeps contents dev0 off (length d) (dev2, y)" for y
        by (intro patch_keeps [OF keeps [unfolded st], of _ "unat block"]) (use P pos(1) in simp_all)
      moreover have "bdev_img contents dev2 = overwrite off d (bdev_img contents dev0)"
        if "e1 = TEGRABL_NO_ERROR"
        using that P pos overwrite_progress [OF pos(4), of ?k "unat len"] by simp
      ultimately show ?thesis
        using res by (metis prod.collapse)
    qed
  qed
qed

lemma default_write_ok:
  assumes ok: "bdev_ok contents dev" and len: "len \<noteq> 0" "length d = unat len"
    and fits: "unat off + unat len \<le> length (bdev_img contents dev)"
    and run: "tegrabl_blockdev_default_write alloc dev buf d off len = (e, dev')"
  shows "wr_keeps contents dev (unat off) (length d) (dev', x) \<and> (e = TEGRABL_NO_ERROR \<longrightarrow>
    bdev_img contents dev' = overwrite (unat off) d (bdev_img contents dev))"
proof -
  define partial where "partial =
    (if MOD_LOG2 off (block_size_log2 dev) \<noteq> 0 \<or> MOD_LOG2 len (block_size_log2 dev) \<noteq> 0
     then alloc 0 TEGRABL_BLOCKDEV_MEM_ALIGN_SIZE (TEGRABL_BLOCKDEV_BLOCK_SIZE dev) else None)"
  obtain e1 st1 where 1: "default_write_first partial off
      (dev, buf, len, ucast (DIV_FLOOR_LOG2 off (block_size_log2 dev)), d) = (e1, st1)"
    by (metis surj_pair)
  obtain e2 st2 where 2: "default_write_middle alloc st1 = (e2, st2)" by (metis surj_pair)
  obtain e3 st3 where 3: "default_write_last partial st2 = (e3, st3)" by (metis surj_pair)
  note S1 = default_write_first_ok [OF ok len fits 1]
  have S2: "wr_keeps contents dev (unat off) (length d) st2 \<and> (e2 = TEGRABL_NO_ERROR \<longrightarrow>
      wr_inv contents dev d (unat off) st2 \<and> unat (fst (snd (snd st2))) < bdev_gran dev)"
    if "e1 = TEGRABL_NO_ERROR"
    using default_write_middle_ok [OF _ _ 2] S1 that by blast
  have S3: "wr_keeps contents dev (unat off) (length d) st3 \<and> (e3 = TEGRABL_NO_ERROR \<longrightarrow>
      bdev_img contents (fst st3) = overwrite (unat off) d (bdev_img contents dev))"
    if "e1 = TEGRABL_NO_ERROR" "e2 = TEGRABL_NO_ERROR"
    using default_write_last_ok [OF _ _ _ 3] S2 that by blast
  note unfolded = run [unfolded tegrabl_blockdev_default_write_def Let_def partial_def [symmetric]]
  consider "e \<noteq> TEGRABL_NO_ERROR" "dev' = dev" | "e = e1" "e1 \<noteq> TEGRABL_NO_ERROR" "dev' = fst st1"
    | "e = e2" "e1 = TEGRABL_NO_ERROR" "e2 \<noteq> TEGRABL_NO_ERROR" "dev' = fst st2"
    | "e = e3" "e1 = TEGRABL_NO_ERROR" "e2 = TEGRABL_NO_ERROR" "dev' = fst st3"
    using unfolded 1 2 3 by (auto split: if_splits prod.splits)
  then show ?thesis
    by cases (use S1 S2 S3 ok in \<open>auto simp: wr_keeps_def same_dev_refl\<close>)
qed

lemma bdev_write_ok:
  assumes ok: "bdev_ok contents dev" and nowrap: "unat off + unat len < 2 ^ 64"
    and d: "length d = unat len" and run: "bdev_write alloc dev buf d off len = (e, dev')"
  shows "wr_keeps contents dev (unat off) (unat len) (dev', x) \<and>
    (e = TEGRABL_NO_ERROR \<longrightarrow> unat off + unat len \<le> length (bdev_img contents dev) \<and>
      bdev_img contents dev' = overwrite (unat off) d (bdev_img contents dev))"
proof (cases "len = 0 \<or> ref dev = 0 \<or> off \<ge> dev_size dev \<or> off + len > dev_size dev")
  case True
  then show ?thesis
    using run wr_keeps_refl [OF ok] by (auto simp: bdev_write_def split: if_splits)
next
  case False
  obtain e0 dev0 where w: "tegrabl_blockdev_default_write alloc dev buf d off len = (e0, dev0)"
    by (metis surj_pair)
  have fits: "unat off + unat len \<le> length (bdev_img contents dev)"
    using range_check_sound [OF ok nowrap refl] False by blast
  have "len \<noteq> 0" using False by blast
  from default_write_ok [OF ok this d fits w, of x] show ?thesis
    using run False w fits d by (auto simp: bdev_write_def not_le split: if_splits)
qed

text \<open>The block device provides the byte store interface.\<close>

interpretation bd: byte_store "bdev_img contents" bdev_gran "bdev_ok contents"
  "bdev_read alloc" "bdev_write alloc" for contents :: "'d \<Rightarrow> bytes" and alloc
proof
  fix s s' :: "'d tegrabl_bdev" and off n buf e d
  show "0 < bdev_gran s" by simp
  show "bdev_ok contents s' \<and> bdev_gran s' = bdev_gran s \<and> bdev_img contents s' = bdev_img contents s"
    if "bdev_ok contents s" "unat off + unat n < 2 ^ 64" "bdev_read alloc s buf off n = ((e, d), s')"
    using bdev_read_ok [OF that] same_devD(1,4) by blast
  show "unat off + unat n \<le> length (bdev_img contents s) \<and>
      d = subrange (unat off) (unat n) (bdev_img contents s)"
    if "bdev_ok contents s" "unat off + unat n < 2 ^ 64"
      "bdev_read alloc s buf off n = ((TEGRABL_NO_ERROR, d), s')"
    using bdev_read_ok [OF that] by blast
  show "bdev_ok contents s' \<and> bdev_gran s' = bdev_gran s \<and>
      same_outside (floor_to (bdev_gran s) (unat off)) (ceil_to (bdev_gran s) (unat off + unat n))
        (bdev_img contents s') (bdev_img contents s)"
    if "bdev_ok contents s" "unat off + unat n < 2 ^ 64" "length d = unat n"
      "bdev_write alloc s buf d off n = (e, s')"
    using bdev_write_ok [OF that] same_devD(1,4) by (auto simp: wr_keeps_def)
  show "unat off + unat n \<le> length (bdev_img contents s) \<and>
      bdev_img contents s' = overwrite (unat off) d (bdev_img contents s)"
    if "bdev_ok contents s" "unat off + unat n < 2 ^ 64" "length d = unat n"
      "bdev_write alloc s buf d off n = (TEGRABL_NO_ERROR, s')"
    using bdev_write_ok [OF that] by blast
qed

section \<open>Requests that succeed\<close>

definition driver_live :: "nat \<Rightarrow> 'd bdev_ops \<Rightarrow> bool" where
  "driver_live nblk bo \<longleftrightarrow>
     (\<forall>p b c. unat b + unat c \<le> nblk \<longrightarrow> fst (fst (op_read_block bo p b c)) = TEGRABL_NO_ERROR) \<and>
     (\<forall>p d b c. unat b + unat c \<le> nblk \<longrightarrow> fst (op_write_block bo p d b c) = TEGRABL_NO_ERROR)"

definition bdev_live :: "('d \<Rightarrow> bytes) \<Rightarrow> alloc_env \<Rightarrow> 'd tegrabl_bdev \<Rightarrow> bool" where
  "bdev_live contents alloc dev \<longleftrightarrow>
     bdev_ok contents dev \<and> ref dev \<noteq> 0 \<and> driver_live (unat (block_count dev)) (ops dev) \<and>
     (\<forall>site align n. \<exists>a. alloc site align n = Some a \<and> a \<noteq> 0 \<and>
        tegrabl_blockdev_buffer_aligned dev a)"

lemma bdev_live_ok: "bdev_live contents alloc dev \<Longrightarrow> bdev_ok contents dev"
  by (simp add: bdev_live_def)

lemma aligned_same: "same_dev contents dev dev' \<Longrightarrow>
  tegrabl_blockdev_buffer_aligned dev' = tegrabl_blockdev_buffer_aligned dev"
  by (auto simp: tegrabl_blockdev_buffer_aligned_def same_dev_def)

lemma bdev_live_same:
  "bdev_live contents alloc dev \<Longrightarrow> same_dev contents dev dev' \<Longrightarrow> bdev_live contents alloc dev'"
  using same_devD [of contents dev dev'] by (simp add: bdev_live_def aligned_same)

lemma bdev_live_alloc:
  assumes "bdev_live contents alloc dev"
  obtains a where "alloc site align n = Some a" "a \<noteq> 0" "tegrabl_blockdev_buffer_aligned dev a"
  using assms unfolding bdev_live_def by blast

lemma read_block_succeeds:
  assumes "bdev_live contents alloc dev" "unat b + unat c \<le> unat (block_count dev)" "c \<noteq> 0"
    and "tegrabl_blockdev_buffer_aligned dev buf"
  shows "fst (fst (bdev_read_block dev buf b c)) = TEGRABL_NO_ERROR"
proof -
  have "\<not> range_bad dev b c"
    using assms(2) range_bad_iff [of b c dev] unat_u32_bound [of "block_count dev"] by simp
  then show ?thesis
    using assms by (auto simp: bdev_read_block_def bdev_live_def driver_live_def split: prod.splits)
      (metis fst_conv)+
qed

lemma write_block_succeeds:
  assumes "bdev_live contents alloc dev" "unat b + unat c \<le> unat (block_count dev)" "c \<noteq> 0"
    and "tegrabl_blockdev_buffer_aligned dev buf" "buf \<noteq> 0"
  shows "fst (bdev_write_block dev buf d b c) = TEGRABL_NO_ERROR"
proof -
  have "\<not> range_bad dev b c"
    using assms(2) range_bad_iff [of b c dev] unat_u32_bound [of "block_count dev"] by simp
  then show ?thesis
    using assms by (auto simp: bdev_write_block_def bdev_live_def driver_live_def split: prod.splits)
      (metis fst_conv)+
qed

lemma whole_count_pos:
  fixes block :: u32
  shows "bdev_ok contents dev \<Longrightarrow> unat block * bdev_gran dev + unat len \<le> length (bdev_img contents dev) \<Longrightarrow>
   bdev_gran dev \<le> unat len \<Longrightarrow>
   (ucast (DIV_FLOOR_LOG2 len (block_size_log2 dev)) :: u32) \<noteq> 0"
  using whole_count(1) [of contents dev block len] by (simp add: word_unat_eq_iff div_greater_zero_iff)

lemma default_read_first_succeeds:
  assumes live: "bdev_live contents alloc dev" and off: "unat off < length (bdev_img contents dev)"
    and part: "MOD_LOG2 off (block_size_log2 dev) \<noteq> 0 \<Longrightarrow>
      \<exists>a. partial = Some a \<and> tegrabl_blockdev_buffer_aligned dev a"
  shows "fst (default_read_first partial off
      (dev, buf, len, ucast (DIV_FLOOR_LOG2 off (block_size_log2 dev)), d)) = TEGRABL_NO_ERROR"
proof (cases "MOD_LOG2 off (block_size_log2 dev) = 0")
  case False
  then obtain a where a: "partial = Some a" "tegrabl_blockdev_buffer_aligned dev a" using part by blast
  note b = unat_start_block [OF bdev_live_ok [OF live] off]
  have "fst (fst (bdev_read_block dev a (ucast (DIV_FLOOR_LOG2 off (block_size_log2 dev))) 1)) =
      TEGRABL_NO_ERROR"
    by (rule read_block_succeeds [OF live _ _ a(2)]) (use b in simp_all)
  then show ?thesis
    using False a by (auto simp: default_read_first_def Let_def split: prod.splits)
qed (simp add: default_read_first_def)

lemma default_read_middle_succeeds:
  assumes live: "bdev_live contents alloc dev"
    and pos: "len \<noteq> 0 \<Longrightarrow> unat block * bdev_gran dev + unat len \<le> length (bdev_img contents dev)"
  shows "fst (default_read_middle alloc (dev, buf, len, block, d)) = TEGRABL_NO_ERROR"
proof (cases "unat len < bdev_gran dev")
  case True
  then show ?thesis
    using unat_block_size_u32 [OF bdev_live_ok [OF live]]
    by (simp add: default_read_middle_def word_less_nat_alt)
next
  case False
  let ?cnt = "ucast (DIV_FLOOR_LOG2 len (block_size_log2 dev)) :: u32"
  have "len \<noteq> 0" using False bdev_gran_pos [of dev] by (metis unsigned_0)
  note pos = pos [OF this]
  obtain t where t: "(if tegrabl_blockdev_buffer_aligned dev buf then Some buf
      else alloc 1 TEGRABL_BLOCKDEV_MEM_ALIGN_SIZE
        (DIV_FLOOR_LOG2 len (block_size_log2 dev) * TEGRABL_BLOCKDEV_BLOCK_SIZE dev)) = Some t"
    "tegrabl_blockdev_buffer_aligned dev t"
    using bdev_live_alloc [OF live] by metis
  have "fst (fst (bdev_read_block dev t block ?cnt)) = TEGRABL_NO_ERROR"
    using read_block_succeeds [OF live _ _ t(2)] whole_count [OF bdev_live_ok [OF live] pos]
      whole_count_pos [OF bdev_live_ok [OF live] pos] False by simp
  then show ?thesis
    using False whole_bytes_le [of dev len] unat_block_size_u32 [OF bdev_live_ok [OF live]]
    by (auto simp: default_read_middle_def Let_def t(1) word_less_nat_alt word_le_nat_alt
        whole_bytes_def [symmetric] split: prod.splits)
qed

lemma default_read_last_succeeds:
  assumes live: "bdev_live contents alloc dev"
    and pos: "len \<noteq> 0 \<Longrightarrow> unat block * bdev_gran dev + unat len \<le> length (bdev_img contents dev)"
    and part: "len \<noteq> 0 \<Longrightarrow> \<exists>a. partial = Some a \<and> tegrabl_blockdev_buffer_aligned dev a"
  shows "fst (default_read_last partial (dev, buf, len, block, d)) = TEGRABL_NO_ERROR"
proof (cases "len = 0")
  case False
  then obtain a where a: "partial = Some a" "tegrabl_blockdev_buffer_aligned dev a" using part by blast
  have "fst (fst (bdev_read_block dev a block 1)) = TEGRABL_NO_ERROR"
    by (rule read_block_succeeds [OF live _ _ a(2)])
      (use last_block [OF bdev_live_ok [OF live] False pos [OF False]] in simp_all)
  then show ?thesis
    using False a by (auto simp: default_read_last_def split: prod.splits)
qed (simp add: default_read_last_def)

lemma aligned_rest_zero:
  fixes g n l off k :: nat
  assumes "off mod g = 0" "n mod g = 0" "k * g = off + (n - l)" "l \<le> n" "l < g"
  shows "l = 0"
proof -
  have "g dvd off" "g dvd n" "g dvd off + (n - l)"
    using assms(1-3) by (auto simp: dvd_eq_mod_eq_0 [symmetric] simp flip: assms(3))
  then have "g dvd n - l" by (metis dvd_add_right_iff)
  then have "g dvd l" using \<open>g dvd n\<close> assms(4) by (metis dvd_diff_nat diff_diff_cancel)
  then show ?thesis using assms(5) by (metis dvd_imp_le not_le neq0_conv)
qed

definition partial_buf :: "alloc_env \<Rightarrow> 'd tegrabl_bdev \<Rightarrow> u64 \<Rightarrow> u64 \<Rightarrow> u64 option" where
  "partial_buf alloc dev off len =
    (if MOD_LOG2 off (block_size_log2 dev) \<noteq> 0 \<or> MOD_LOG2 len (block_size_log2 dev) \<noteq> 0
     then alloc 0 TEGRABL_BLOCKDEV_MEM_ALIGN_SIZE (TEGRABL_BLOCKDEV_BLOCK_SIZE dev) else None)"

lemma partial_buf_some:
  assumes "bdev_live contents alloc dev"
    and "MOD_LOG2 off (block_size_log2 dev) \<noteq> 0 \<or> MOD_LOG2 len (block_size_log2 dev) \<noteq> 0"
  shows "\<exists>a. partial_buf alloc dev off len = Some a \<and> a \<noteq> 0 \<and> tegrabl_blockdev_buffer_aligned dev a"
  using assms bdev_live_alloc unfolding partial_buf_def by metis

lemma partial_buf_for_rest:
  assumes live: "bdev_live contents alloc dev"
    and "len3 \<noteq> 0" "unat len3 < bdev_gran dev" "unat len3 \<le> unat len"
    and "k * bdev_gran dev = unat off + (unat len - unat len3)"
  shows "\<exists>a. partial_buf alloc dev off len = Some a \<and> a \<noteq> 0 \<and> tegrabl_blockdev_buffer_aligned dev a"
proof (rule partial_buf_some [OF live], rule ccontr)
  assume "\<not> (MOD_LOG2 off (block_size_log2 dev) \<noteq> 0 \<or> MOD_LOG2 len (block_size_log2 dev) \<noteq> 0)"
  then have "unat off mod bdev_gran dev = 0" "unat len mod bdev_gran dev = 0"
    using unat_MOD_LOG2 [of off dev] unat_MOD_LOG2 [of len dev] by auto
  then have "unat len3 = 0"
    using aligned_rest_zero [OF _ _ assms(5,4,3)] by simp
  then show False using assms(2) by (simp add: unat_eq_zero)
qed

lemma default_read_succeeds:
  assumes live: "bdev_live contents alloc dev" and buf: "buf \<noteq> 0" and len: "len \<noteq> 0"
    and fits: "unat off + unat len \<le> length (bdev_img contents dev)"
  shows "fst (fst (tegrabl_blockdev_default_read alloc dev buf off len)) = TEGRABL_NO_ERROR"
proof -
  note ok = bdev_live_ok [OF live]
  let ?p = "partial_buf alloc dev off len"
  have in_dev: "unat off < length (bdev_img contents dev)"
    using fits len by (simp add: word_unat_eq_iff)
  obtain e1 dev1 b1 len1 block1 d1 where 1: "default_read_first ?p off
      (dev, buf, len, ucast (DIV_FLOOR_LOG2 off (block_size_log2 dev)), []) =
      (e1, (dev1, b1, len1, block1, d1))"
    by (metis surj_pair)
  obtain e2 dev2 b2 len2 block2 d2 where
    2: "default_read_middle alloc (dev1, b1, len1, block1, d1) = (e2, (dev2, b2, len2, block2, d2))" by (metis surj_pair)
  obtain e3 st3 where 3: "default_read_last ?p (dev2, b2, len2, block2, d2) = (e3, st3)"
    by (metis surj_pair)
  have e1: "e1 = TEGRABL_NO_ERROR"
    using default_read_first_succeeds [OF live in_dev, of ?p buf len "[]"]
      partial_buf_some [OF live, of off len] 1 by auto
  have k1: "rd_keeps contents dev (dev1, b1, len1, block1, d1)"
    and i1: "rd_inv contents dev (unat off) (unat len) (dev1, b1, len1, block1, d1)"
    using default_read_first_ok [OF ok len fits 1] e1 by auto
  then have k1': "same_dev contents dev dev1" "bdev_img contents dev1 = bdev_img contents dev"
    by (auto simp: rd_keeps_def)
  have "unat block1 * bdev_gran dev1 + unat len1 \<le> length (bdev_img contents dev1)" if "len1 \<noteq> 0"
    using i1 that k1' same_devD(4) [OF k1'(1)] by (simp add: rd_inv_def)
  then have e2: "e2 = TEGRABL_NO_ERROR"
    using default_read_middle_succeeds [OF bdev_live_same [OF live k1'(1)], of len1 block1 b1 d1] 2
    by simp
  note S2 = default_read_middle_ok [OF k1 i1 2]
  have k2: "same_dev contents dev dev2" "bdev_img contents dev2 = bdev_img contents dev"
    and i2: "rd_inv contents dev (unat off) (unat len) (dev2, b2, len2, block2, d2)"
    and l2: "unat len2 < bdev_gran dev"
    using S2 e2 by (auto simp: rd_keeps_def)
  have "\<exists>a. ?p = Some a \<and> tegrabl_blockdev_buffer_aligned dev2 a" if "len2 \<noteq> 0"
    using partial_buf_for_rest [OF live that l2, of len "unat block2" off] i2 that aligned_same [OF k2(1)]
    by (auto simp: rd_inv_def)
  then have e3: "e3 = TEGRABL_NO_ERROR"
    using default_read_last_succeeds [OF bdev_live_same [OF live k2(1)], of len2 block2 ?p b2 d2] 3 k2 i2
      same_devD(4) [OF k2(1)]
    by (auto simp: rd_inv_def)
  show ?thesis
    using 1 2 3 e1 e2 e3 buf partial_buf_some [OF live, of off len]
    unfolding tegrabl_blockdev_default_read_def Let_def partial_buf_def [symmetric]
    by (auto split: prod.splits)
qed

lemma range_check_complete:
  assumes "bdev_ok contents dev" "len \<noteq> 0"
    and "unat off + unat len \<le> length (bdev_img contents dev)"
  shows "\<not> (off \<ge> dev_size dev \<or> off + len > dev_size dev)" and "unat off + unat len < 2 ^ 64"
proof -
  have "unat len \<noteq> 0" using assms(2) by (simp add: unat_eq_zero)
  moreover show lt: "unat off + unat len < 2 ^ 64"
    using assms(3) unat_u64_bound [of "dev_size dev"] bdev_size_unat [OF assms(1)] by simp
  ultimately show "\<not> (off \<ge> dev_size dev \<or> off + len > dev_size dev)"
    using assms(3) bdev_size_unat [OF assms(1)]
    by (simp add: word_le_nat_alt word_less_nat_alt unat_word_ariths(1))
qed

lemma bdev_read_succeeds:
  assumes live: "bdev_live contents alloc dev" and buf: "buf \<noteq> 0" and len: "len \<noteq> 0"
    and fits: "unat off + unat len \<le> length (bdev_img contents dev)"
  obtains dev' where "bdev_read alloc dev buf off len =
      ((TEGRABL_NO_ERROR, subrange (unat off) (unat len) (bdev_img contents dev)), dev')"
    "same_dev contents dev dev'" "bdev_img contents dev' = bdev_img contents dev"
proof -
  note ok = bdev_live_ok [OF live]
  note R = range_check_complete [OF ok len fits]
  obtain e d dev' where run: "bdev_read alloc dev buf off len = ((e, d), dev')"
    by (metis surj_pair)
  have "ref dev \<noteq> 0" using live by (simp add: bdev_live_def)
  then have "e = TEGRABL_NO_ERROR"
    using run default_read_succeeds [OF live buf len fits] len R(1)
    by (auto simp: bdev_read_def split: if_splits prod.splits)
  then show ?thesis
    using that run bdev_read_ok [OF ok R(2) run] by blast
qed


text \<open>The same for writes.\<close>

lemma patch_succeeds:
  assumes live: "bdev_live contents alloc dev" and b: "unat b < unat (block_count dev)"
    and "tegrabl_blockdev_buffer_aligned dev a" "a \<noteq> 0"
  obtains blk dev1 where "bdev_read_block dev a b 1 = ((TEGRABL_NO_ERROR, blk), dev1)"
    "\<And>d. fst (bdev_write_block dev1 a d b 1) = TEGRABL_NO_ERROR"
proof -
  obtain e blk dev1 where rb: "bdev_read_block dev a b 1 = ((e, blk), dev1)" by (metis surj_pair)
  have "e = TEGRABL_NO_ERROR"
    using read_block_succeeds [OF live _ _ assms(3), of b 1] b rb by simp
  have "unat b + unat (1 :: u32) < 2 ^ 32"
    using b unat_u32_bound [of "block_count dev"] by simp
  then have sd: "same_dev contents dev dev1"
    using read_block_ok [OF bdev_live_ok [OF live] _ rb] by blast
  have "fst (bdev_write_block dev1 a d b 1) = TEGRABL_NO_ERROR" for d
    using write_block_succeeds [OF bdev_live_same [OF live sd], of b 1 a d] b assms(3,4)
      same_devD(3) [OF sd] aligned_same [OF sd] by simp
  then show ?thesis using that rb \<open>e = TEGRABL_NO_ERROR\<close> by blast
qed

lemma default_write_first_succeeds:
  assumes live: "bdev_live contents alloc dev" and off: "unat off < length (bdev_img contents dev)"
    and part: "MOD_LOG2 off (block_size_log2 dev) \<noteq> 0 \<Longrightarrow>
      \<exists>a. partial = Some a \<and> a \<noteq> 0 \<and> tegrabl_blockdev_buffer_aligned dev a"
  shows "fst (default_write_first partial off
      (dev, buf, len, ucast (DIV_FLOOR_LOG2 off (block_size_log2 dev)), d)) = TEGRABL_NO_ERROR"
proof (cases "MOD_LOG2 off (block_size_log2 dev) = 0")
  case False
  then obtain a where a: "partial = Some a" "tegrabl_blockdev_buffer_aligned dev a" "a \<noteq> 0"
    using part by blast
  let ?b = "ucast (DIV_FLOOR_LOG2 off (block_size_log2 dev)) :: u32"
  have "unat ?b < unat (block_count dev)"
    using unat_start_block [OF bdev_live_ok [OF live] off] by simp
  then obtain blk dev1 where "bdev_read_block dev a ?b 1 = ((TEGRABL_NO_ERROR, blk), dev1)"
    "\<And>d. fst (bdev_write_block dev1 a d ?b 1) = TEGRABL_NO_ERROR"
    using patch_succeeds [OF live _ a(2,3)] by metis
  then show ?thesis
    using False a(1) by (auto simp: default_write_first_def Let_def split: prod.splits) (metis fst_conv)+
qed (simp add: default_write_first_def)

lemma default_write_middle_succeeds:
  assumes live: "bdev_live contents alloc dev"
    and pos: "len \<noteq> 0 \<Longrightarrow> unat block * bdev_gran dev + unat len \<le> length (bdev_img contents dev)"
    and buf: "buf \<noteq> 0"
  shows "fst (default_write_middle alloc (dev, buf, len, block, d)) = TEGRABL_NO_ERROR"
proof (cases "unat len < bdev_gran dev")
  case True
  then show ?thesis
    using unat_block_size_u32 [OF bdev_live_ok [OF live]]
    by (simp add: default_write_middle_def word_less_nat_alt)
next
  case False
  let ?cnt = "ucast (DIV_FLOOR_LOG2 len (block_size_log2 dev)) :: u32"
  have "len \<noteq> 0" using False bdev_gran_pos [of dev] by (metis unsigned_0)
  note pos = pos [OF this]
  obtain t where t: "(if tegrabl_blockdev_buffer_aligned dev buf then Some buf
      else alloc 1 TEGRABL_BLOCKDEV_MEM_ALIGN_SIZE
        (DIV_FLOOR_LOG2 len (block_size_log2 dev) * TEGRABL_BLOCKDEV_BLOCK_SIZE dev)) = Some t"
    "tegrabl_blockdev_buffer_aligned dev t" "t \<noteq> 0"
    using bdev_live_alloc [OF live] buf by metis
  have "fst (bdev_write_block dev t (take (unat (whole_bytes dev len)) d) block ?cnt) =
      TEGRABL_NO_ERROR"
    using write_block_succeeds [OF live _ _ t(2,3)] whole_count [OF bdev_live_ok [OF live] pos]
      whole_count_pos [OF bdev_live_ok [OF live] pos] False by simp
  then show ?thesis
    using False whole_bytes_le [of dev len] unat_block_size_u32 [OF bdev_live_ok [OF live]]
    by (auto simp: default_write_middle_def Let_def t(1) word_less_nat_alt word_le_nat_alt
        whole_bytes_def [symmetric] split: prod.splits)
qed

lemma default_write_last_succeeds:
  assumes live: "bdev_live contents alloc dev"
    and pos: "len \<noteq> 0 \<Longrightarrow> unat block * bdev_gran dev + unat len \<le> length (bdev_img contents dev)"
    and part: "len \<noteq> 0 \<Longrightarrow> \<exists>a. partial = Some a \<and> a \<noteq> 0 \<and> tegrabl_blockdev_buffer_aligned dev a"
  shows "fst (default_write_last partial (dev, buf, len, block, d)) = TEGRABL_NO_ERROR"
proof (cases "len = 0")
  case False
  then obtain a where a: "partial = Some a" "tegrabl_blockdev_buffer_aligned dev a" "a \<noteq> 0"
    using part by blast
  obtain blk dev1 where "bdev_read_block dev a block 1 = ((TEGRABL_NO_ERROR, blk), dev1)"
    "\<And>d. fst (bdev_write_block dev1 a d block 1) = TEGRABL_NO_ERROR"
    using patch_succeeds [OF live last_block(1) [OF bdev_live_ok [OF live] False pos [OF False]] a(2,3)]
    by metis
  then show ?thesis
    using False a(1) by (auto simp: default_write_last_def split: prod.splits) (metis fst_conv)+
qed (simp add: default_write_last_def)

lemma default_write_first_buf:
  assumes "default_write_first partial off (dev, buf, len, block, d) = (e, (dev1, buf1, r))"
    and "unat buf + unat len < 2 ^ 64" "buf \<noteq> 0"
  shows "buf1 \<noteq> 0"
proof -
  have "buf + min x len \<noteq> 0" for x
  proof -
    have "unat (min x len) \<le> unat len" by (simp add: unat_min)
    then have "unat (buf + min x len) = unat buf + unat (min x len)"
      using assms(2) by (simp add: unat_word_ariths(1))
    then show ?thesis using assms(3) by (metis add_is_0 unat_eq_zero)
  qed
  then show ?thesis
    using assms(1,3) by (auto simp: default_write_first_def Let_def split: if_splits prod.splits)
qed


lemma default_write_succeeds:
  assumes live: "bdev_live contents alloc dev" and buf: "buf \<noteq> 0" "unat buf + unat len < 2 ^ 64"
    and len: "len \<noteq> 0" "length d = unat len"
    and fits: "unat off + unat len \<le> length (bdev_img contents dev)"
  shows "fst (tegrabl_blockdev_default_write alloc dev buf d off len) = TEGRABL_NO_ERROR"
proof -
  note ok = bdev_live_ok [OF live]
  let ?p = "partial_buf alloc dev off len"
  have in_dev: "unat off < length (bdev_img contents dev)"
    using fits len by (simp add: word_unat_eq_iff)
  obtain e1 dev1 b1 len1 block1 d1 where 1: "default_write_first ?p off
      (dev, buf, len, ucast (DIV_FLOOR_LOG2 off (block_size_log2 dev)), d) =
      (e1, (dev1, b1, len1, block1, d1))"
    by (metis surj_pair)
  obtain e2 dev2 b2 len2 block2 d2 where
    2: "default_write_middle alloc (dev1, b1, len1, block1, d1) = (e2, (dev2, b2, len2, block2, d2))"
    by (metis surj_pair)
  obtain e3 st3 where 3: "default_write_last ?p (dev2, b2, len2, block2, d2) = (e3, st3)"
    by (metis surj_pair)
  have e1: "e1 = TEGRABL_NO_ERROR"
    using default_write_first_succeeds [OF live in_dev, of ?p buf len d]
      partial_buf_some [OF live, of off len] 1 by auto
  have k1: "wr_keeps contents dev (unat off) (length d) (dev1, b1, len1, block1, d1)"
    and i1: "wr_inv contents dev d (unat off) (dev1, b1, len1, block1, d1)"
    using default_write_first_ok [OF ok len fits 1] e1 by auto
  then have k1': "same_dev contents dev dev1"
    "length (bdev_img contents dev1) = length (bdev_img contents dev)"
    using same_outside_length by (auto simp: wr_keeps_def)
  have "unat block1 * bdev_gran dev1 + unat len1 \<le> length (bdev_img contents dev1)" if "len1 \<noteq> 0"
    using i1 that k1' same_devD(4) [OF k1'(1)] by (simp add: wr_inv_def)
  then have e2: "e2 = TEGRABL_NO_ERROR"
    using default_write_middle_succeeds [OF bdev_live_same [OF live k1'(1)], of len1 block1 b1 d1] 2
      default_write_first_buf [OF 1 buf(2,1)] by simp
  have k2: "same_dev contents dev dev2" "length (bdev_img contents dev2) = length (bdev_img contents dev)"
    and i2: "wr_inv contents dev d (unat off) (dev2, b2, len2, block2, d2)"
    and l2: "unat len2 < bdev_gran dev"
    using default_write_middle_ok [OF k1 i1 2] e2 same_outside_length by (auto simp: wr_keeps_def)
  have "\<exists>a. ?p = Some a \<and> a \<noteq> 0 \<and> tegrabl_blockdev_buffer_aligned dev2 a" if "len2 \<noteq> 0"
    using partial_buf_for_rest [OF live that l2, of len "unat block2" off] i2 that
      aligned_same [OF k2(1)] len(2)
    by (auto simp: wr_inv_def)
  then have e3: "e3 = TEGRABL_NO_ERROR"
    using default_write_last_succeeds [OF bdev_live_same [OF live k2(1)], of len2 block2 ?p b2 d2] 3 k2
      i2 same_devD(4) [OF k2(1)]
    by (auto simp: wr_inv_def)
  show ?thesis
    using 1 2 3 e1 e2 e3 buf partial_buf_some [OF live, of off len]
    unfolding tegrabl_blockdev_default_write_def Let_def partial_buf_def [symmetric]
    by (auto split: prod.splits)
qed

lemma bdev_write_succeeds:
  assumes live: "bdev_live contents alloc dev" and buf: "buf \<noteq> 0" "unat buf + unat len < 2 ^ 64"
    and len: "len \<noteq> 0" "length d = unat len"
    and fits: "unat off + unat len \<le> length (bdev_img contents dev)"
  obtains dev' where "bdev_write alloc dev buf d off len = (TEGRABL_NO_ERROR, dev')"
    "same_dev contents dev dev'"
    "bdev_img contents dev' = overwrite (unat off) d (bdev_img contents dev)"
proof -
  note ok = bdev_live_ok [OF live]
  note R = range_check_complete [OF ok len(1) fits]
  obtain e dev' where run: "bdev_write alloc dev buf d off len = (e, dev')" by (metis surj_pair)
  have "ref dev \<noteq> 0" using live by (simp add: bdev_live_def)
  then have "e = TEGRABL_NO_ERROR"
    using run default_write_succeeds [OF live buf len fits] len(1) R(1)
    by (auto simp: bdev_write_def split: if_splits prod.splits)
  then show ?thesis
    using that run bdev_write_ok [OF ok R(2) len(2) run] by (auto simp: wr_keeps_def)
qed


section \<open>A RAM disk\<close>

text \<open>A concrete driver on which the contracts hold: the private state is the medium itself.\<close>

definition ram_ops :: "nat \<Rightarrow> bytes bdev_ops" where
  "ram_ops lg =
     \<lparr>op_read_block = (\<lambda>p b c. ((TEGRABL_NO_ERROR, subrange (unat b * 2 ^ lg) (unat c * 2 ^ lg) p), p)),
      op_write_block = (\<lambda>p d b c. (TEGRABL_NO_ERROR, overwrite (unat b * 2 ^ lg) d p)),
      op_erase = tegrabl_blockdev_default_erase,
      op_xfer = (\<lambda>p x. (TEGRABL_NO_ERROR, p)),
      op_xfer_wait = (\<lambda>p x t. ((TEGRABL_NO_ERROR, 1), p)),
      op_ioctl = (\<lambda>p i. (TEGRABL_NO_ERROR, p)),
      op_close = Some (\<lambda>p. (TEGRABL_NO_ERROR, p))\<rparr>"

definition ram_dev :: "u32 \<Rightarrow> bnum_t \<Rightarrow> bytes \<Rightarrow> bytes tegrabl_bdev" where
  "ram_dev lg nblk img =
     \<lparr>ref = 1, device_id = 0x10003, dev_size = push_bit (unat lg) (ucast nblk),
      block_size_log2 = lg, block_count = nblk, published = False, buf_align_size = 4,
      priv_data = img, ops = ram_ops (unat lg)\<rparr>"

definition ram_alloc :: alloc_env where
  "ram_alloc site align n = Some 0x80000000"

lemma ram_ops_ok: "driver_ok (\<lambda>p. p) lg nblk (ram_ops lg)"
proof -
  have "same_outside (b * 2 ^ lg) ((b + c) * 2 ^ lg) (overwrite (b * 2 ^ lg) d p) p"
    if "length p = nblk * 2 ^ lg" "b + c \<le> nblk" "length d = c * 2 ^ lg" for b c and d p :: bytes
  proof -
    have "(b + c) * 2 ^ lg \<le> length p" using that(1,2) by simp
    then show ?thesis
      using same_outside_overwrite [of "b * 2 ^ lg" d p] that(3) by (simp add: add_mult_distrib)
  qed
  then show ?thesis
    by (simp add: driver_ok_def ram_ops_def)
qed

lemma ram_ops_live: "driver_live nblk (ram_ops lg)"
  by (simp add: driver_live_def ram_ops_def)

lemma ram_dev_live:
  "unat lg < 32 \<Longrightarrow> length img = unat nblk * 2 ^ unat lg \<Longrightarrow>
   bdev_live (\<lambda>p. p) ram_alloc (ram_dev lg nblk img)"
  by (simp add: bdev_live_def bdev_ok_def ram_dev_def ram_ops_ok ram_ops_live bdev_img_def bdev_gran_def
      ram_alloc_def tegrabl_blockdev_buffer_aligned_def MOD_POW2_def)

lemma ram_dev_img: "bdev_img (\<lambda>p. p) (ram_dev lg nblk img) = img"
  by (simp add: ram_dev_def bdev_img_def)

section \<open>Properties\<close>

text \<open>
  C2. On a live device (driver hooks and allocator work, the device is referenced), a byte read of
  any in-range interval succeeds, whatever its alignment to blocks and the alignment of the caller's
  buffer, and stores exactly the bytes of that interval of the medium, which it leaves unchanged.
\<close>

theorem bdev_read_total:
  assumes "bdev_live contents alloc dev" and "buf \<noteq> 0" and "len \<noteq> 0"
    and "unat off + unat len \<le> length (bdev_img contents dev)"
  shows "\<exists>dev'. bdev_read alloc dev buf off len =
      ((TEGRABL_NO_ERROR, subrange (unat off) (unat len) (bdev_img contents dev)), dev') \<and>
    bdev_img contents dev' = bdev_img contents dev \<and> bdev_live contents alloc dev'"
  using bdev_read_succeeds [OF assms] bdev_live_same [OF assms(1)] by metis

theorem bdev_read_total_witness:
  "\<exists>dev'. bdev_read ram_alloc (ram_dev 2 3 [0,1,2,3,4,5,6,7,8,9,10,11]) 9 3 6 =
      ((TEGRABL_NO_ERROR, [3,4,5,6,7,8]), dev') \<and>
    bdev_img (\<lambda>p. p) dev' = [0,1,2,3,4,5,6,7,8,9,10,11] \<and> bdev_live (\<lambda>p. p) ram_alloc dev'"
  using bdev_read_total [OF ram_dev_live, of 2 "[0,1,2,3,4,5,6,7,8,9,10,11]" 3 9 6 3]
  by (simp add: ram_dev_img subrange_def)

text \<open>
  C1. On a live device a byte write of any in-range interval succeeds and replaces exactly the bytes
  of that interval, also when it starts and ends inside blocks (read, patch, write back).
\<close>

theorem bdev_write_total:
  assumes "bdev_live contents alloc dev" and "buf \<noteq> 0" and "unat buf + unat len < 2 ^ 64"
    and "len \<noteq> 0" and "length data = unat len"
    and "unat off + unat len \<le> length (bdev_img contents dev)"
  shows "\<exists>dev'. bdev_write alloc dev buf data off len = (TEGRABL_NO_ERROR, dev') \<and>
    bdev_img contents dev' = overwrite (unat off) data (bdev_img contents dev) \<and>
    bdev_live contents alloc dev'"
  using bdev_write_succeeds [OF assms] bdev_live_same [OF assms(1)] by metis

theorem bdev_write_total_witness:
  "\<exists>dev'. bdev_write ram_alloc (ram_dev 2 3 [0,1,2,3,4,5,6,7,8,9,10,11]) 9 [21,22,23,24,25,26] 3 6 =
      (TEGRABL_NO_ERROR, dev') \<and>
    bdev_img (\<lambda>p. p) dev' = [0,1,2,21,22,23,24,25,26,9,10,11] \<and> bdev_live (\<lambda>p. p) ram_alloc dev'"
  using bdev_write_total [OF ram_dev_live, of 2 "[0,1,2,3,4,5,6,7,8,9,10,11]" 3 9 6
      "[21,22,23,24,25,26]" 3]
  by (simp add: ram_dev_img overwrite_def)

text \<open>
  C3. Whatever a driver's hooks return, a write changes nothing outside the blocks its interval
  meets, and a reported success means the interval lay inside the device and now holds the data: a
  failing write never damages other blocks.
\<close>

theorem bdev_write_contained:
  assumes "bdev_ok contents dev" and "unat off + unat len < 2 ^ 64" and "length data = unat len"
    and "bdev_write alloc dev buf data off len = (e, dev')"
  shows "same_outside (floor_to (bdev_gran dev) (unat off))
      (ceil_to (bdev_gran dev) (unat off + unat len)) (bdev_img contents dev') (bdev_img contents dev) \<and>
    (e = TEGRABL_NO_ERROR \<longrightarrow> unat off + unat len \<le> length (bdev_img contents dev) \<and>
      bdev_img contents dev' = overwrite (unat off) data (bdev_img contents dev))"
  using bd.wr_keeps [OF assms] bd.wr_data [OF assms(1-3)] assms(4) by blast

theorem bdev_write_contained_witness:
  "same_outside (floor_to 4 3) (ceil_to 4 5)
     (bdev_img (\<lambda>p. p) (snd (bdev_write ram_alloc (ram_dev 2 3 [0,1,2,3,4,5,6,7,8,9,10,11]) 9 [8,9] 3 2)))
     [0,1,2,3,4,5,6,7,8,9,10,11]"
  using bdev_write_contained [OF bdev_live_ok [OF ram_dev_live], of 2 "[0,1,2,3,4,5,6,7,8,9,10,11]" 3 3 2
      "[8,9]" ram_alloc 9 _ _, OF _ _ _ _ prod.collapse [symmetric]]
  by (simp add: ram_dev_img) (simp add: ram_dev_def bdev_gran_def)

text \<open>
  The 32-bit range check of the block requests is exact as long as the end of the request does
  not wrap, and only then: the request that starts at the end of the device and whose count is the
  negated block count passes the check, because the sum wraps to 0.
\<close>

theorem range_check_exact_unless_wrapping:
  "(unat block + unat count < 2 ^ 32 \<longrightarrow>
      (range_bad dev block count \<longleftrightarrow> unat (block_count dev) < unat block + unat count)) \<and>
   \<not> range_bad dev (block_count dev) (- block_count dev)"
  using range_bad_iff [of block count dev] by (auto simp: range_bad_def)

end
