(* ===== verification/Blockdev_Registry.thy ===== *)
theory Blockdev_Registry
  imports Blockdev_Correct
begin

text \<open>
  The registry of block devices as a state machine: clients initialise the registry, register
  devices, open and close them. \<open>reg_step\<close> runs the operations and counts, per device, the
  handles clients hold; \<open>reg_inv\<close> says the registered devices are live, have pairwise different
  ids, and carry one reference for the list and one per handle.
\<close>

section \<open>Invariant and steps\<close>

definition reg_inv :: "'d bd_state \<Rightarrow> (nat \<Rightarrow> nat) \<Rightarrow> bool" where
  "reg_inv s h \<longleftrightarrow>
     distinct (registered s) \<and>
     (\<forall>a \<in> set (registered s). \<exists>d. dev_heap s a = Some d \<and> unat (ref d) = 1 + h a) \<and>
     inj_on (\<lambda>a. map_option device_id (dev_heap s a)) (set (registered s))"

inductive reg_step :: "'d bd_state \<times> (nat \<Rightarrow> nat) \<Rightarrow> 'd bd_state \<times> (nat \<Rightarrow> nat) \<Rightarrow> bool" where
  init: "tegrabl_blockdev_init m s = (e, s') \<Longrightarrow> reg_step (s, h) (s', h)"
| register: "dev_heap s a = Some d \<Longrightarrow> ref d = 0 \<Longrightarrow> h a = 0 \<Longrightarrow>
    tegrabl_blockdev_register_device (Some a) s = (e, s') \<Longrightarrow> reg_step (s, h) (s', h)"
| opened: "tegrabl_blockdev_open t i s = (Some a, s') \<Longrightarrow> h a + 2 < 2 ^ 32 \<Longrightarrow>
    reg_step (s, h) (s', h(a := h a + 1))"
| open_failed: "tegrabl_blockdev_open t i s = (None, s') \<Longrightarrow> reg_step (s, h) (s', h)"
| close: "a \<in> set (registered s) \<Longrightarrow> 0 < h a \<Longrightarrow> tegrabl_blockdev_close (Some a) s = (e, s') \<Longrightarrow>
    reg_step (s, h) (s', h(a := h a - 1))"

lemma open_scan_found:
  "open_scan hp i as = Some a \<Longrightarrow> a \<in> set as \<and> (\<exists>d. hp a = Some d \<and> device_id d = i \<and> ref d \<noteq> 0)"
  by (induction as) (auto split: option.splits if_splits)

lemma open_scan_live:
  assumes "\<And>b. b \<in> set as \<Longrightarrow> \<exists>d. hp b = Some d \<and> ref d \<noteq> 0" and "a \<in> set as"
    and "hp a = Some d" and "inj_on (\<lambda>a. map_option device_id (hp a)) (set as)"
  shows "open_scan hp (device_id d) as = Some a"
  using assms
proof (induction as)
  case (Cons b as)
  then obtain db where b: "hp b = Some db" "ref db \<noteq> 0" by auto
  show ?case
  proof (cases "a = b")
    case True
    then show ?thesis using b Cons.prems by simp
  next
    case False
    have "map_option device_id (hp b) \<noteq> map_option device_id (hp a)"
      using Cons.prems(2,4) False by (metis inj_onD list.set_intros(1))
    then have "device_id db \<noteq> device_id d" using b Cons.prems(3) by simp
    moreover have "open_scan hp (device_id d) as = Some a"
      using Cons False by (intro Cons.IH) (auto simp: inj_on_def)
    ultimately show ?thesis using b by simp
  qed
qed simp

lemma registered_simps [simp]:
  "registered (dev_update a d s) = registered s"
  "registered (bdev_inc_ref a s) = registered s"
  "registered (run_close d s) = registered s"
  by (auto simp: registered_def dev_update_def bdev_inc_ref_def run_close_def split: option.splits)

lemma dev_heap_update [simp]:
  "dev_heap (dev_update a d s) = (dev_heap s)(a := Some d)"
  by (simp add: dev_update_def)

lemma reg_inv_update:
  assumes "reg_inv s h" and "dev_heap s a = Some d" and "a \<in> set (registered s)"
    and "unat r = 1 + k"
  shows "reg_inv (dev_update a (d\<lparr>ref := r\<rparr>) s) (h(a := k))"
proof -
  have "(\<lambda>b. map_option device_id (dev_heap (dev_update a (d\<lparr>ref := r\<rparr>) s) b)) =
      (\<lambda>b. map_option device_id (dev_heap s b))"
    using assms(2) by auto
  then show ?thesis
    using assms by (auto simp: reg_inv_def)
qed

lemma reg_inv_live:
  assumes "reg_inv s h" and "a \<in> set (registered s)"
  obtains d where "dev_heap s a = Some d" "unat (ref d) = 1 + h a"
  using assms by (auto simp: reg_inv_def)

lemma register_inv:
  assumes inv: "reg_inv s h" and d: "dev_heap s a = Some d" "ref d = 0" "h a = 0"
    and run: "tegrabl_blockdev_register_device (Some a) s = (e, s')"
  shows "reg_inv s' h"
proof -
  have notin: "a \<notin> set (registered s)"
    using reg_inv_live [OF inv] d by (metis Suc_eq_plus1_left option.inject unsigned_0 zero_neq_one add_is_0)
  let ?s = "bdev_inc_ref a s"
  have heap: "dev_heap ?s = (dev_heap s)(a := Some (d\<lparr>ref := 1\<rparr>))"
    using d by (simp add: bdev_inc_ref_def)
  have frame: "dev_heap ?s b = dev_heap s b" if "b \<in> set (registered s)" for b
    using that notin heap by auto
  then have inv': "reg_inv ?s h"
    using inv unfolding reg_inv_def by (auto simp: inj_on_def)
  show ?thesis
  proof (cases "e = TEGRABL_NO_ERROR \<and> bdevs s \<noteq> None")
    case True
    then obtain as where as: "bdevs s = Some as" by auto
    have nodup: "\<And>b. b \<in> set as \<Longrightarrow>
        map_option device_id (dev_heap ?s b) \<noteq> map_option device_id (dev_heap ?s a)"
      and s': "s' = ?s\<lparr>bdevs := Some (as @ [a])\<rparr>"
      using run True as by (auto simp: tegrabl_blockdev_register_device_def registered_def
          bdev_inc_ref_def dev_update_def Let_def split: if_splits option.splits)
    have reg: "registered s = as" "registered s' = as @ [a]" and hp: "dev_heap s' = dev_heap ?s"
      using as by (auto simp: s' registered_def bdev_inc_ref_def dev_update_def split: option.splits)
    have "inj_on (\<lambda>b. map_option device_id (dev_heap ?s b)) (insert a (set as))"
    proof (subst inj_on_insert, intro conjI)
      show "inj_on (\<lambda>b. map_option device_id (dev_heap ?s b)) (set as)"
        using inv' reg(1) by (simp add: reg_inv_def)
      show "map_option device_id (dev_heap ?s a) \<notin>
          (\<lambda>b. map_option device_id (dev_heap ?s b)) ` (set as - {a})"
        using nodup by (metis (no_types, lifting) DiffD1 imageE)
    qed
    moreover have "\<exists>d. dev_heap ?s a = Some d \<and> unat (ref d) = 1 + h a"
      using heap d(3) by simp
    ultimately show ?thesis
      using inv' notin unfolding reg_inv_def registered_simps reg hp by auto
  next
    case False
    then have "s' = ?s"
      using run by (auto simp: tegrabl_blockdev_register_device_def Let_def bdev_inc_ref_def dev_update_def
          split: if_splits option.splits)
    then show ?thesis using inv' by simp
  qed
qed

lemma close_inv:
  assumes inv: "reg_inv s h" and a: "a \<in> set (registered s)" "0 < h a"
    and run: "tegrabl_blockdev_close (Some a) s = (e, s')"
  shows "reg_inv s' (h(a := h a - 1)) \<and> registered s' = registered s"
proof -
  obtain d where d: "dev_heap s a = Some d" "unat (ref d) = 1 + h a"
    using reg_inv_live [OF inv a(1)] by metis
  have "ref d \<noteq> 1" "ref d \<noteq> 0" using d(2) a(2) by auto
  moreover have "unat (ref d - 1) = unat (ref d) - 1"
    using \<open>ref d \<noteq> 0\<close> by (simp add: unat_minus_one)
  ultimately show ?thesis
    using run d a reg_inv_update [OF inv d(1) a(1), of "ref d - 1" "h a - 1"]
    by (auto simp: tegrabl_blockdev_close_def bdev_dec_ref_def Let_def word_gt_0)
qed

lemma open_inv:
  assumes inv: "reg_inv s h" and "h a + 2 < 2 ^ 32"
    and run: "tegrabl_blockdev_open t i s = (Some a, s')"
  shows "reg_inv s' (h(a := h a + 1)) \<and> registered s' = registered s"
proof -
  have a: "a \<in> set (registered s)" and s': "s' = bdev_inc_ref a s"
    using run open_scan_found [of "dev_heap s" _ "registered s"]
    by (auto simp: tegrabl_blockdev_open_def split: if_splits option.splits)
  obtain d where d: "dev_heap s a = Some d" "unat (ref d) = 1 + h a"
    using reg_inv_live [OF inv a(1)] by metis
  have "unat (ref d + 1) = 1 + (h a + 1)"
    using d(2) assms(2) by (simp add: unat_word_ariths(1))
  then show ?thesis
    using reg_inv_update [OF inv d(1) a] d(1) by (simp add: s' bdev_inc_ref_def)
qed

lemma reg_step_inv: "reg_step x y \<Longrightarrow> reg_inv (fst x) (snd x) \<Longrightarrow> reg_inv (fst y) (snd y)"
proof (induction rule: reg_step.induct)
  case (init m s e s' h)
  then show ?case
    by (auto simp: tegrabl_blockdev_init_def reg_inv_def registered_def split: option.splits if_splits)
next
  case (open_failed t i s s' h)
  then show ?case by (auto simp: tegrabl_blockdev_open_def split: if_splits option.splits)
next
  case (register s a d h e s')
  then show ?case using register_inv by fastforce
next
  case (opened t i s a s' h)
  then show ?case using open_inv [of s h a t i s'] by (simp add: fun_upd_def)
next
  case (close a s h e s')
  then show ?case using close_inv [of s h a e s'] by (simp add: fun_upd_def)
qed


lemma reg_steps_inv:
  "reg_step\<^sup>*\<^sup>* x y \<Longrightarrow> reg_inv (fst x) (snd x) \<Longrightarrow> reg_inv (fst y) (snd y)"
  by (induction rule: rtranclp_induct) (auto dest: reg_step_inv)

lemma reg_inv_initial: "bdevs s = None \<Longrightarrow> reg_inv s h"
  by (simp add: reg_inv_def registered_def)

lemma block_device_id_open:
  assumes "reg_inv s h" and "a \<in> set (registered s)" and "dev_heap s a = Some d"
    and "device_id d = TEGRABL_BLOCK_DEVICE_ID t i" and "t < TEGRABL_STORAGE_INVALID"
  shows "fst (tegrabl_blockdev_open t i s) = Some a"
proof -
  have "\<exists>d. dev_heap s b = Some d \<and> ref d \<noteq> 0" if "b \<in> set (registered s)" for b
    using reg_inv_live [OF assms(1) that] by (metis add_is_0 unsigned_0 zero_neq_one)
  then have "open_scan (dev_heap s) (TEGRABL_BLOCK_DEVICE_ID t i) (registered s) = Some a"
    using open_scan_live [of "registered s" "dev_heap s" a d] assms by (auto simp: reg_inv_def)
  then show ?thesis
    using assms(5) by (simp add: tegrabl_blockdev_open_def not_le)
qed

lemma unregister_result:
  assumes "reg_inv s h" and "a \<in> set (registered s)" and "h a = 0"
    and "tegrabl_blockdev_unregister_device (Some a) s = Some (e, s')"
  shows "a \<notin> set (registered s') \<and> map_option ref (dev_heap s' a) = Some 0 \<and> close_log s' = close_log s"
proof -
  obtain d where d: "dev_heap s a = Some d" "unat (ref d) = 1"
    using reg_inv_live [OF assms(1,2)] assms(3) by auto
  have r: "ref d = 1" using d(2) by (simp add: word_unat_eq_iff)
  obtain as where as: "bdevs s = Some as" "a \<in> set as" "distinct as"
    using assms(1,2) by (auto simp: reg_inv_def registered_def split: option.splits)
  then show ?thesis
    using assms(4) d(1) r
    by (auto simp: tegrabl_blockdev_unregister_device_def bdev_dec_ref_def Let_def dev_update_def
        registered_def)
qed


text \<open>A run on a RAM disk: initialise, register the device at address 7, open it.\<close>

definition demo0 :: "bytes bd_state" where
  "demo0 = \<lparr>dev_heap = [7 \<mapsto> (ram_dev 2 3 [])\<lparr>ref := 0\<rparr>], bdevs = None, xfer_id = 0, close_log = []\<rparr>"

definition demo1 :: "bytes bd_state" where
  "demo1 = snd (tegrabl_blockdev_register_device (Some 7) (snd (tegrabl_blockdev_init True demo0)))"

definition demo2 :: "bytes bd_state" where
  "demo2 = snd (tegrabl_blockdev_open 1 3 demo1)"

lemmas demo_simps = demo0_def demo1_def demo2_def ram_dev_def tegrabl_blockdev_init_def
  tegrabl_blockdev_register_device_def tegrabl_blockdev_open_def Let_def registered_def
  bdev_inc_ref_def dev_update_def TEGRABL_BLOCK_DEVICE_ID_def

lemma demo_registered: "registered demo1 = [7]" "registered demo2 = [7]" "bdevs demo0 = None"
  by (simp_all add: demo_simps)

lemma demo_steps1: "reg_step\<^sup>*\<^sup>* (demo0, \<lambda>_. 0) (demo1, \<lambda>_. 0)"
proof -
  let ?s = "snd (tegrabl_blockdev_init True demo0)"
  have "reg_step (demo0, \<lambda>_. 0) (?s, \<lambda>_. 0)"
    by (rule reg_step.init [OF prod.collapse [symmetric]])
  moreover have "reg_step (?s, \<lambda>_. 0) (demo1, \<lambda>_. 0)"
    unfolding demo1_def by (rule reg_step.register [OF _ _ _ prod.collapse [symmetric],
        where d = "(ram_dev 2 3 [])\<lparr>ref := 0\<rparr>"])
      (simp_all add: demo_simps)
  ultimately show ?thesis by (meson r_into_rtranclp rtranclp.rtrancl_into_rtrancl)
qed

lemma demo_steps2: "reg_step\<^sup>*\<^sup>* (demo0, \<lambda>_. 0) (demo2, (\<lambda>_. 0)(7 := 1))"
proof -
  have "tegrabl_blockdev_open 1 3 demo1 = (Some 7, demo2)" by (simp add: demo_simps word_le_nat_alt)
  from reg_step.opened [OF this, of "\<lambda>_. 0"]
  have "reg_step (demo1, \<lambda>_. 0) (demo2, (\<lambda>_. 0)(7 := 1))" by simp
  then show ?thesis using demo_steps1 by (meson rtranclp.rtrancl_into_rtrancl)
qed

section \<open>Properties\<close>



text \<open>
  In every such state a registered device is found: opening its storage type and instance
  returns exactly that device, because ids of registered devices are pairwise different.
\<close>

theorem registered_device_opens:
  assumes "reg_step\<^sup>*\<^sup>* (s0, \<lambda>_. 0) (s, h)" and "bdevs s0 = None" and "a \<in> set (registered s)"
    and "dev_heap s a = Some d" and "device_id d = TEGRABL_BLOCK_DEVICE_ID t i"
    and "t < TEGRABL_STORAGE_INVALID"
  shows "fst (tegrabl_blockdev_open t i s) = Some a"
  using block_device_id_open [OF reg_steps_inv [OF assms(1), simplified] assms(3-6)]
    reg_inv_initial [OF assms(2)] by blast

text \<open>
  Unregistering a device no client holds takes it off the list before the last reference is
  dropped, so the drop finds it unlinked: the close hook does not run and the device, with reference
  count 0, is never freed.
\<close>

theorem unregister_skips_close:
  assumes "reg_step\<^sup>*\<^sup>* (s0, \<lambda>_. 0) (s, h)" and "bdevs s0 = None"
    and "a \<in> set (registered s)" and "h a = 0"
    and "tegrabl_blockdev_unregister_device (Some a) s = Some (e, s')"
  shows "a \<notin> set (registered s') \<and> map_option ref (dev_heap s' a) = Some 0 \<and>
    close_log s' = close_log s"
  using unregister_result [OF reg_steps_inv [OF assms(1), simplified] assms(3-5)]
    reg_inv_initial [OF assms(2)] by blast

end
