(* ===== verification/Gpt.thy ===== *)
theory Gpt
  imports Blockdev_Correct Tegrabl_Utils
begin

text \<open>
  The GUID partition table reader (\<open>lib/gpt/tegrabl_gpt.c\<close>): header validation, reading header and
  entry table from the primary or secondary location, and the list of partitions it publishes.
  Structures are read from the byte buffer at their C offsets: the header has \<open>hdr_size\<close> at byte
  12, \<open>hdr_crc32\<close> at 16, \<open>first_lba\<close> and \<open>last_lba\<close> at 40 and 48, \<open>table_start_lba\<close> at 72,
  \<open>num_entries\<close>, \<open>entry_size\<close> and \<open>table_crc32\<close> at 80, 84 and 88; an entry takes 128 bytes.
\<close>

section \<open>Data\<close>

abbreviation GPT_ERROR :: "u32 \<Rightarrow> u8 \<Rightarrow> tegrabl_error_t" where
  "GPT_ERROR reason aux \<equiv> tegrabl_error_value TEGRABL_ERR_GPT aux reason"

abbreviation GPT_HIGHEST :: "tegrabl_error_t \<Rightarrow> tegrabl_error_t" where
  "GPT_HIGHEST e \<equiv> tegrabl_err_set_highest_module e TEGRABL_ERR_GPT"

abbreviation (input) TEGRABL_GPT_MAX_PARTITION_NAME :: nat where "TEGRABL_GPT_MAX_PARTITION_NAME \<equiv> 36"
abbreviation (input) TEGRABL_GPT_MAX_PARTITION_ENTRIES :: nat where
  "TEGRABL_GPT_MAX_PARTITION_ENTRIES \<equiv> 128"
abbreviation (input) sizeof_gpt_entry :: nat where "sizeof_gpt_entry \<equiv> 128"

text \<open>\<open>struct tegrabl_partition_info\<close> of the partition manager; strings are the bytes of the
  character arrays that the publisher sets.\<close>

record tegrabl_partition_info =
  part_name :: bytes
  part_guid :: bytes
  part_ptype_guid :: bytes
  start_sector :: u64
  num_sectors :: u64
  total_size :: u64

section \<open>Header validation\<close>

text \<open>The result's second component is the buffer afterwards: the CRC field is zeroed while the CRC is
  computed, and stays zero when the check fails.\<close>

definition tegrabl_gpt_validate_header :: "bytes \<Rightarrow> u64 \<Rightarrow> tegrabl_error_t \<times> bytes" where
  "tegrabl_gpt_validate_header buf total_blocks =
     (if total_blocks = 0 then (GPT_ERROR TEGRABL_ERR_INVALID 0, buf)
      else if take 8 buf \<noteq> c_lit ''EFI PART'' then (GPT_ERROR TEGRABL_ERR_VERIFY_FAILED 0, buf)
      else if u32_at 12 buf \<noteq> 0x5C then (GPT_ERROR TEGRABL_ERR_INVALID 1, buf)
      else
        let hdr_crc32 = u32_at 16 buf;
            cleared = overwrite 16 (le_bytes 4 (0 :: u32)) buf
        in if hdr_crc32 \<noteq> tegrabl_utils_crc32 0 (take (unat (u32_at 12 buf)) cleared)
           then (GPT_ERROR TEGRABL_ERR_VERIFY_FAILED 1, cleared)
           else
             let restored = overwrite 16 (le_bytes 4 hdr_crc32) cleared
             in if u64_at 40 restored \<ge> total_blocks \<or> u64_at 48 restored \<ge> total_blocks
                then (GPT_ERROR TEGRABL_ERR_INVALID 2, restored)
                else (TEGRABL_NO_ERROR, restored))"

section \<open>Reading a table\<close>

text \<open>
  The caller's buffer pointer is \<open>None\<close> when it is NULL, else its address and contents. A table
  read that fails leaves a NULL pointer NULL (the buffer it allocated is lost); the block reads
  store into the buffer at its start and after one block.
\<close>

type_synonym gpt_buf = "(u64 \<times> bytes) option"

definition gpt_size :: "'d tegrabl_bdev \<Rightarrow> u32" where
  "gpt_size dev = of_nat (sizeof_gpt_entry * TEGRABL_GPT_MAX_PARTITION_ENTRIES) +
     ucast (TEGRABL_BLOCKDEV_BLOCK_SIZE dev)"

definition gpt_out :: "gpt_buf \<Rightarrow> u64 \<Rightarrow> bytes \<Rightarrow> gpt_buf" where
  "gpt_out buf addr content = (case buf of None \<Rightarrow> None | Some _ \<Rightarrow> Some (addr, content))"

text \<open>The part after the header: the limits on the table, the table's blocks and their CRC.\<close>

definition gpt_read_table ::
  "'d tegrabl_bdev \<Rightarrow> u64 \<Rightarrow> bytes \<Rightarrow> (tegrabl_error_t \<times> bytes) \<times> 'd tegrabl_bdev"
where
  "gpt_read_table dev a b =
     (if unat (u32_at 80 b) > TEGRABL_GPT_MAX_PARTITION_ENTRIES
        then ((GPT_ERROR TEGRABL_ERR_TOO_LARGE 1, b), dev)
      else if unat (u32_at 84 b) > sizeof_gpt_entry
        then ((GPT_ERROR TEGRABL_ERR_TOO_LARGE 2, b), dev)
      else
        let table_size = u32_at 80 b * u32_at 84 b;
            bs = TEGRABL_BLOCKDEV_BLOCK_SIZE dev
        in (case bdev_read_block dev (a + bs) (ucast (u64_at 72 b))
                   (ucast (DIV_CEIL_LOG2 (ucast table_size) (block_size_log2 dev))) of
              ((error, tab), dev) \<Rightarrow>
                let b = overwrite (unat bs) tab b in
                if error \<noteq> TEGRABL_NO_ERROR then ((GPT_HIGHEST error, b), dev)
                else if u32_at 88 b \<noteq> tegrabl_utils_crc32 0 (subrange (unat bs) (unat table_size) b)
                then ((GPT_ERROR TEGRABL_ERR_VERIFY_FAILED 2, b), dev)
                else ((TEGRABL_NO_ERROR, b), dev)))"

definition tegrabl_gpt_read_validate ::
  "alloc_env \<Rightarrow> 'd tegrabl_bdev \<Rightarrow> off_t \<Rightarrow> gpt_buf \<Rightarrow> u32 \<Rightarrow>
   (tegrabl_error_t \<times> gpt_buf \<times> u32) \<times> 'd tegrabl_bdev"
where
  "tegrabl_gpt_read_validate alloc dev offset buf buf_size =
     (let size = gpt_size dev;
          buffer = (case buf of
                      None \<Rightarrow> map_option (\<lambda>a. (a, replicate (unat size) 0)) (alloc 2 4096 (ucast size))
                    | Some b \<Rightarrow> Some b)
      in case buffer of
           None \<Rightarrow> ((GPT_ERROR TEGRABL_ERR_NO_MEMORY 0, None, buf_size), dev)
         | Some (a, b) \<Rightarrow>
             let buf_size = (if buf = None then size else buf_size) in
             if buf_size < size then ((GPT_ERROR TEGRABL_ERR_OVERFLOW 139, gpt_out buf a b, buf_size), dev)
             else
               (case bdev_read_block dev a (ucast (DIV_CEIL_LOG2 offset (block_size_log2 dev))) 1 of
                  ((error, blk), dev) \<Rightarrow>
                    if error \<noteq> TEGRABL_NO_ERROR
                    then ((GPT_HIGHEST error, gpt_out buf a (overwrite 0 blk b), buf_size), dev)
                    else
                      (case tegrabl_gpt_validate_header (overwrite 0 blk b) (ucast (block_count dev)) of
                         (error, b) \<Rightarrow>
                           if error \<noteq> TEGRABL_NO_ERROR then ((error, gpt_out buf a b, buf_size), dev)
                           else
                             (case gpt_read_table dev a b of ((error, b), dev) \<Rightarrow>
                                if error \<noteq> TEGRABL_NO_ERROR
                                then ((error, gpt_out buf a b, buf_size), dev)
                                else ((TEGRABL_NO_ERROR, Some (a, b), buf_size), dev)))))"

fun gpt_try ::
  "alloc_env \<Rightarrow> 'd tegrabl_bdev \<Rightarrow> off_t list \<Rightarrow> gpt_buf \<Rightarrow> u32 \<Rightarrow>
   (tegrabl_error_t \<times> gpt_buf \<times> u32) \<times> 'd tegrabl_bdev"
where
  "gpt_try alloc dev [] buf buf_size = ((GPT_ERROR TEGRABL_ERR_NOT_FOUND 0, buf, buf_size), dev)"
| "gpt_try alloc dev (off # offs) buf buf_size =
     (case tegrabl_gpt_read_validate alloc dev off buf buf_size of
        ((error, buf, buf_size), dev) \<Rightarrow>
          if error = TEGRABL_NO_ERROR then ((TEGRABL_NO_ERROR, buf, buf_size), dev)
          else gpt_try alloc dev offs buf buf_size)"

definition tegrabl_gpt_read ::
  "alloc_env \<Rightarrow> 'd tegrabl_bdev \<Rightarrow> off_t \<Rightarrow> gpt_buf \<Rightarrow> u32 \<Rightarrow>
   (tegrabl_error_t \<times> gpt_buf \<times> u32) \<times> 'd tegrabl_bdev"
where
  "tegrabl_gpt_read alloc dev offset buf buf_size =
     (let block_size = (ucast (TEGRABL_BLOCKDEV_BLOCK_SIZE dev) :: u32);
          offsets = (if offset > 0 then [offset]
                     else [ucast block_size, dev_size dev - ucast block_size])
      in gpt_try alloc dev offsets buf buf_size)"

section \<open>GUID strings\<close>

definition hex_digit :: "u8 \<Rightarrow> u8" where
  "hex_digit v = (if v > 9 then of_char CHR ''a'' + v - 10 else of_char CHR ''0'' + v)"

definition set_hex :: "u8 \<Rightarrow> nat \<Rightarrow> bytes \<Rightarrow> bytes" where
  "set_hex guid pos str = overwrite pos [hex_digit (drop_bit 4 guid), hex_digit (guid AND 0x0F)] str"

definition guid_to_str :: "bytes \<Rightarrow> bytes \<Rightarrow> bytes" where
  "guid_to_str guid guid_str =
     (let s = set_hex (guid ! 3) 0 (set_hex (guid ! 2) 2 (set_hex (guid ! 1) 4 (set_hex (guid ! 0) 6 guid_str)));
          s = s[8 := of_char CHR ''-''];
          s = set_hex (guid ! 5) 9 (set_hex (guid ! 4) 11 s);
          s = s[13 := of_char CHR ''-''];
          s = set_hex (guid ! 7) 14 (set_hex (guid ! 6) 16 s);
          s = s[18 := of_char CHR ''-''];
          s = set_hex (guid ! 9) 21 (set_hex (guid ! 8) 19 s);
          s = s[23 := of_char CHR ''-''];
          s = set_hex (guid ! 12) 28 (set_hex (guid ! 11) 26 (set_hex (guid ! 10) 24 s));
          s = set_hex (guid ! 15) 34 (set_hex (guid ! 14) 32 (set_hex (guid ! 13) 30 s))
      in s[36 := 0])"

section \<open>Publishing\<close>

text \<open>Entries are slices of the buffer. The character arrays of a fresh partition record are 37 bytes
  of allocated memory; every one of them is set.\<close>

definition gpt_entry :: "bytes \<Rightarrow> nat \<Rightarrow> nat \<Rightarrow> bytes" where
  "gpt_entry buffer bs k = subrange (bs + sizeof_gpt_entry * k) sizeof_gpt_entry buffer"

definition entry_used :: "bytes \<Rightarrow> bool" where
  "entry_used en \<longleftrightarrow> u64_at 40 en > u64_at 32 en"

definition entry_info :: "u32 \<Rightarrow> bytes \<Rightarrow> tegrabl_partition_info" where
  "entry_info lg en =
     (let n = u64_at 40 en - u64_at 32 en + 1 in
      \<lparr>part_name = map (\<lambda>i. ucast (u16_at (56 + 2 * i) en AND 0xFF)) [0..<TEGRABL_GPT_MAX_PARTITION_NAME] @ [0],
       part_guid = guid_to_str (subrange 16 16 en) (replicate 37 0),
       part_ptype_guid = guid_to_str (subrange 0 16 en) (replicate 37 0),
       start_sector = u64_at 32 en, num_sectors = n, total_size = push_bit (unat lg) n\<rparr>)"

text \<open>The second loop: it skips unused entries and stops at the entry that completes the count.\<close>

fun gpt_collect :: "u32 \<Rightarrow> nat \<Rightarrow> nat \<Rightarrow> bytes list \<Rightarrow> tegrabl_partition_info list" where
  "gpt_collect lg j num [] = []"
| "gpt_collect lg j num (en # ens) =
     (if u64_at 40 en \<le> u64_at 32 en then gpt_collect lg j num ens
      else entry_info lg en # (if j + 1 = num then [] else gpt_collect lg (j + 1) num ens))"

definition tegrabl_gpt_publish ::
  "alloc_env \<Rightarrow> bool \<Rightarrow> 'd tegrabl_bdev \<Rightarrow> off_t \<Rightarrow>
   (tegrabl_error_t \<times> tegrabl_partition_info list) \<times> 'd tegrabl_bdev"
where
  "tegrabl_gpt_publish alloc malloc_ok dev offset =
     (case tegrabl_gpt_read alloc dev offset None 0 of ((error, buf, _), dev) \<Rightarrow>
        if error \<noteq> TEGRABL_NO_ERROR then ((error, []), dev)
        else
          let buffer = snd (the buf);
              entries = map (gpt_entry buffer (unat (TEGRABL_BLOCKDEV_BLOCK_SIZE dev)))
                            [0..<TEGRABL_GPT_MAX_PARTITION_ENTRIES];
              num_entries = length (filter entry_used entries)
          in if \<not> malloc_ok then ((GPT_ERROR TEGRABL_ERR_NO_MEMORY 1, []), dev)
             else ((TEGRABL_NO_ERROR, gpt_collect (block_size_log2 dev) 0 num_entries entries), dev))"

end
