(* ===== verification/Gpt_Correct.thy ===== *)
theory Gpt_Correct
  imports Gpt Tegrabl_Utils_Correct
begin

text \<open>
  What the GPT reader returns, in terms of the medium: \<open>gpt_valid\<close> says when a header block and the
  entry table it points at are intact, \<open>gpt_partitions\<close> is the list of partitions they describe.
  On a device whose driver works, publishing returns exactly that list for the primary table, else
  for the secondary one, else "not found".
\<close>

section \<open>Buffers\<close>

lemma overwrite_twice:
  assumes "length ys = length zs" "off + length ys \<le> length xs"
  shows "overwrite off ys (overwrite off zs xs) = overwrite off ys xs"
  using assms by (simp add: overwrite_def)

lemma overwrite_subrange_id: "off + n \<le> length xs \<Longrightarrow> overwrite off (subrange off n xs) xs = xs"
  by (simp add: overwrite_def subrange_def min_def) (metis append_take_drop_id drop_drop add.commute)

lemma u32_at_bytes: "off + 4 \<le> length b \<Longrightarrow> le_bytes 4 (u32_at off b) = subrange off 4 b"
  unfolding u32_at_def by (rule le_bytes_of_le) simp_all

section \<open>GUID strings\<close>

lemma set_hex_pair: "set_hex g pos s = overwrite pos [hex_digit (drop_bit 4 g), hex_digit (g AND 0x0F)] s"
  by (simp add: set_hex_def)

lemma unat_hex_digit:
  "unat v < 16 \<Longrightarrow> unat (hex_digit v) = (if 9 < unat v then 87 + unat v else 48 + unat v)"
  by (auto simp: hex_digit_def word_less_nat_alt unat_word_ariths(1) unat_sub word_le_nat_alt)

lemma hex_digit_inj: "unat a < 16 \<Longrightarrow> unat b < 16 \<Longrightarrow> hex_digit a = hex_digit b \<Longrightarrow> a = b"
  using unat_hex_digit [of a] unat_hex_digit [of b] by (auto simp: word_unat_eq_iff split: if_splits)

definition hex2 :: "u8 \<Rightarrow> bytes" where
  "hex2 g = [hex_digit (drop_bit 4 g), hex_digit (g AND 0x0F)]"

lemma hex2_inj: "hex2 a = hex2 b \<Longrightarrow> a = b"
proof -
  assume eq: "hex2 a = hex2 b"
  have hi: "unat (drop_bit 4 (x :: u8)) < 16" for x
    using unat_shift_right [of 4 x] unsigned_less [of x, where 'a = nat] by simp
  have lo: "unat ((x :: u8) AND 0x0F) = unat x mod 16" for x
    using unat_low_bits [of x 4] by simp
  have "drop_bit 4 a = drop_bit 4 b" "a AND 0x0F = b AND 0x0F"
    using eq hex_digit_inj [OF hi hi] hex_digit_inj [of "a AND 0x0F" "b AND 0x0F"] lo
    by (auto simp: hex2_def)
  then have "unat a div 16 = unat b div 16" "unat a mod 16 = unat b mod 16"
    using unat_shift_right [of 4 a] unat_shift_right [of 4 b] lo [of a] lo [of b] by auto
  then show ?thesis
    by (metis div_mult_mod_eq word_unat_eq_iff)
qed

lemma guid_to_str_eq:
  "guid_to_str guid (replicate 37 0) =
     hex2 (guid ! 3) @ hex2 (guid ! 2) @ hex2 (guid ! 1) @ hex2 (guid ! 0) @ [of_char CHR ''-''] @
     hex2 (guid ! 5) @ hex2 (guid ! 4) @ [of_char CHR ''-''] @
     hex2 (guid ! 7) @ hex2 (guid ! 6) @ [of_char CHR ''-''] @
     hex2 (guid ! 8) @ hex2 (guid ! 9) @ [of_char CHR ''-''] @
     hex2 (guid ! 10) @ hex2 (guid ! 11) @ hex2 (guid ! 12) @ hex2 (guid ! 13) @
     hex2 (guid ! 14) @ hex2 (guid ! 15) @ [0]"
  unfolding hex2_def guid_to_str_def Let_def set_hex_def
  by (simp add: overwrite_def eval_nat_numeral(2,3))

lemma guid_to_str_inj:
  assumes "length g = 16" "length h = 16"
    and "guid_to_str g (replicate 37 0) = guid_to_str h (replicate 37 0)"
  shows "g = h"
proof (rule nth_equalityI)
  show "length g = length h" using assms by simp
  have l: "length (hex2 x) = 2" for x by (simp add: hex2_def)
  have all: "hex2 (g ! 0) = hex2 (h ! 0)" "hex2 (g ! 1) = hex2 (h ! 1)" "hex2 (g ! 2) = hex2 (h ! 2)"
    "hex2 (g ! 3) = hex2 (h ! 3)" "hex2 (g ! 4) = hex2 (h ! 4)" "hex2 (g ! 5) = hex2 (h ! 5)"
    "hex2 (g ! 6) = hex2 (h ! 6)" "hex2 (g ! 7) = hex2 (h ! 7)" "hex2 (g ! 8) = hex2 (h ! 8)"
    "hex2 (g ! 9) = hex2 (h ! 9)" "hex2 (g ! 10) = hex2 (h ! 10)" "hex2 (g ! 11) = hex2 (h ! 11)"
    "hex2 (g ! 12) = hex2 (h ! 12)" "hex2 (g ! 13) = hex2 (h ! 13)" "hex2 (g ! 14) = hex2 (h ! 14)"
    "hex2 (g ! 15) = hex2 (h ! 15)"
    using assms(3) unfolding guid_to_str_eq by (simp_all add: l)
  fix i assume "i < length g"
  then have "i \<in> {0, 1, 2, 3, 4, 5, 6, 7, 8, 9, 10, 11, 12, 13, 14, 15}"
    using assms(1) by (simp, arith)
  then show "g ! i = h ! i"
    using all by (elim insertE emptyE) (simp_all only: hex2_inj)
qed

section \<open>Collecting entries\<close>

lemma gpt_collect_filter:
  "j + length (filter entry_used ens) = num \<Longrightarrow>
   gpt_collect lg j num ens = map (entry_info lg) (filter entry_used ens)"
proof (induction ens arbitrary: j)
  case (Cons en ens)
  show ?case
  proof (cases "entry_used en")
    case True
    then have "\<not> u64_at 40 en \<le> u64_at 32 en" by (simp add: entry_used_def not_le)
    moreover have "filter entry_used ens = []" if "j + 1 = num"
    proof -
      have "length (filter entry_used (en # ens)) = Suc (length (filter entry_used ens))"
        using True by simp
      then have "length (filter entry_used ens) = 0" using Cons.prems that by linarith
      then show ?thesis by blast
    qed
    ultimately show ?thesis
      using Cons.IH [of "j + 1"] Cons.prems True by auto
  next
    case False
    then have "u64_at 40 en \<le> u64_at 32 en" by (simp add: entry_used_def not_less)
    then show ?thesis
      using Cons.IH [of j] Cons.prems False by simp
  qed
qed simp

lemma gpt_collect_all: "gpt_collect lg 0 (length (filter entry_used ens)) ens = map (entry_info lg) (filter entry_used ens)"
  by (rule gpt_collect_filter) simp

definition header_ok :: "bytes \<Rightarrow> nat \<Rightarrow> bool" where
  "header_ok h nblk \<longleftrightarrow>
     nblk \<noteq> 0 \<and> take 8 h = c_lit ''EFI PART'' \<and> u32_at 12 h = 92 \<and>
     u32_at 16 h = tegrabl_utils_crc32 0 (take 92 (overwrite 16 [0, 0, 0, 0] h)) \<and>
     unat (u64_at 40 h) < nblk \<and> unat (u64_at 48 h) < nblk"

lemma validate_header_exact:
  assumes "92 \<le> length buf"
  shows "(fst (tegrabl_gpt_validate_header buf n) = TEGRABL_NO_ERROR \<longleftrightarrow> header_ok buf (unat n)) \<and>
    (fst (tegrabl_gpt_validate_header buf n) = TEGRABL_NO_ERROR \<longrightarrow>
       snd (tegrabl_gpt_validate_header buf n) = buf)"
proof -
  have z: "le_bytes 4 (0 :: u32) = [0, 0, 0, 0]"
    by (simp add: eval_nat_numeral(2,3))
  have r: "overwrite 16 (le_bytes 4 (u32_at 16 buf)) (overwrite 16 [0, 0, 0, 0] buf) = buf"
    using assms by (simp add: u32_at_bytes overwrite_twice overwrite_subrange_id)
  show ?thesis
    unfolding tegrabl_gpt_validate_header_def Let_def z r header_ok_def
    by (simp add: word_le_nat_alt unat_eq_zero not_le)
qed

section \<open>Valid tables on a medium\<close>

definition gpt_hdr :: "bytes \<Rightarrow> nat \<Rightarrow> nat \<Rightarrow> bytes" where
  "gpt_hdr img bs blk = subrange (blk * bs) bs img"

definition table_bytes :: "bytes \<Rightarrow> nat" where
  "table_bytes h = unat (u32_at 80 h) * unat (u32_at 84 h)"

definition table_start :: "bytes \<Rightarrow> nat" where
  "table_start h = unat (ucast (u64_at 72 h) :: u32)"

definition table_blocks :: "nat \<Rightarrow> bytes \<Rightarrow> nat" where
  "table_blocks bs h = (table_bytes h + bs - 1) div bs"

definition gpt_valid :: "bytes \<Rightarrow> nat \<Rightarrow> nat \<Rightarrow> nat \<Rightarrow> bool" where
  "gpt_valid img bs nblk blk \<longleftrightarrow>
     (let h = gpt_hdr img bs blk in
      blk < nblk \<and> header_ok h nblk \<and> unat (u32_at 80 h) \<le> 128 \<and> unat (u32_at 84 h) \<le> 128 \<and>
      0 < table_bytes h \<and> table_start h + table_blocks bs h \<le> nblk \<and>
      u32_at 88 h = tegrabl_utils_crc32 0 (subrange (table_start h * bs) (table_bytes h) img))"

definition gpt_image :: "bytes \<Rightarrow> nat \<Rightarrow> nat \<Rightarrow> bytes" where
  "gpt_image img bs blk =
     (let h = gpt_hdr img bs blk in
      h @ overwrite 0 (subrange (table_start h * bs) (table_blocks bs h * bs) img) (replicate 16384 0))"

lemma at_append:
  "off + 4 \<le> length h \<Longrightarrow> u32_at off (h @ z) = u32_at off h"
  "off + 8 \<le> length h \<Longrightarrow> u64_at off (h @ z) = u64_at off h"
  by (simp_all add: u32_at_def u64_at_def subrange_def)

lemma header_ok_append: "92 \<le> length h \<Longrightarrow> header_ok (h @ z) n = header_ok h n"
  by (simp add: header_ok_def at_append overwrite_def)

lemma overwrite_append_right:
  "length h = n \<Longrightarrow> overwrite n ys (h @ z) = h @ overwrite 0 ys z"
  by (simp add: overwrite_def)

lemma overwrite_append_left:
  "length h = n \<Longrightarrow> overwrite 0 h (replicate (n + k) x) = h @ replicate k x"
  by (simp add: overwrite_def)

lemma read_block_exact:
  assumes live: "bdev_live contents alloc dev" and al: "tegrabl_blockdev_buffer_aligned dev buf"
    and "unat b + unat c < 2 ^ 32" and rb: "bdev_read_block dev buf b c = ((e, d), dev')"
  shows "e = TEGRABL_NO_ERROR \<longleftrightarrow> c \<noteq> 0 \<and> unat b + unat c \<le> unat (block_count dev)"
proof
  assume "e = TEGRABL_NO_ERROR"
  then show "c \<noteq> 0 \<and> unat b + unat c \<le> unat (block_count dev)"
    using read_block_ok [OF bdev_live_ok [OF live] assms(3) rb] rb
    by (auto simp: bdev_read_block_def)
next
  assume "c \<noteq> 0 \<and> unat b + unat c \<le> unat (block_count dev)"
  then show "e = TEGRABL_NO_ERROR"
    using read_block_succeeds [OF live _ _ al, of b c] rb by simp
qed

lemma unat_DIV_CEIL:
  assumes "unat n + bdev_gran dev \<le> 2 ^ 64" "unat (block_size_log2 dev) < 64"
  shows "unat (DIV_CEIL_LOG2 n (block_size_log2 dev)) = (unat n + bdev_gran dev - 1) div bdev_gran dev"
proof -
  define P :: u64 where "P = push_bit (unat (block_size_log2 dev)) 1"
  have g: "unat P = bdev_gran dev"
    unfolding bdev_gran_def P_def by (rule unat_pow2) (use assms(2) in simp)
  then have "1 \<le> P" by (simp add: word_le_nat_alt Suc_leI)
  then have "unat (P - 1) = bdev_gran dev - 1" using g by (simp add: unat_diff)
  moreover have "unat n + (bdev_gran dev - 1) < 2 ^ 64"
    using assms(1) bdev_gran_pos [of dev] by linarith
  ultimately have "unat (n + (P - 1)) = unat n + (bdev_gran dev - 1)"
    using unat_word_ariths(1) [of n "P - 1"] by simp
  moreover have "n + P - 1 = n + (P - 1)" by simp
  ultimately have "unat (n + P - 1) = unat n + bdev_gran dev - 1"
    using bdev_gran_pos [of dev] by (simp only: )
  then show ?thesis
    unfolding DIV_CEIL_LOG2_def P_def [symmetric] unat_shift_right bdev_gran_def by simp
qed

lemma unat_gpt_size:
  assumes "bdev_ok contents dev" "unat (block_size_log2 dev) \<le> 14"
  shows "unat (gpt_size dev) = bdev_gran dev + 16384" and "bdev_gran dev \<le> 16384"
proof -
  show le: "bdev_gran dev \<le> 16384"
    using power_increasing [OF assms(2), of "2 :: nat"] by (simp add: bdev_gran_def)
  have "unat (ucast (TEGRABL_BLOCKDEV_BLOCK_SIZE dev) :: u32) = bdev_gran dev"
    using unat_BLOCK_SIZE [OF assms(1)] le by (subst unat_ucast_small) simp_all
  then show "unat (gpt_size dev) = bdev_gran dev + 16384"
    using le by (simp add: gpt_size_def unat_word_ariths(1))
qed


text \<open>The devices whose tables the reader can hold: blocks of 128 bytes to 16 KiB, the table after
  the first block of an aligned buffer aligned too, and few enough blocks that the range check does
  not wrap.\<close>

definition gpt_dev :: "('d \<Rightarrow> bytes) \<Rightarrow> alloc_env \<Rightarrow> 'd tegrabl_bdev \<Rightarrow> bool" where
  "gpt_dev contents alloc dev \<longleftrightarrow>
     bdev_live contents alloc dev \<and>
     7 \<le> unat (block_size_log2 dev) \<and> unat (block_size_log2 dev) \<le> 14 \<and>
     unat (block_count dev) + 16384 < 2 ^ 32 \<and>
     (\<forall>site align n a. alloc site align n = Some a \<longrightarrow>
        tegrabl_blockdev_buffer_aligned dev (a + TEGRABL_BLOCKDEV_BLOCK_SIZE dev))"

lemma gpt_dev_same:
  "gpt_dev contents alloc dev \<Longrightarrow> same_dev contents dev dev' \<Longrightarrow> gpt_dev contents alloc dev'"
  using same_devD [of contents dev dev']
    bdev_live_same [of contents alloc dev dev']
  by (simp add: gpt_dev_def aligned_same TEGRABL_BLOCKDEV_BLOCK_SIZE_def)

lemma gpt_dev_gran: "gpt_dev contents alloc dev \<Longrightarrow> 128 \<le> bdev_gran dev \<and> bdev_gran dev \<le> 16384"
  using unat_gpt_size(2) [of contents dev] bdev_live_ok [of contents alloc dev]
    power_increasing [of 7 "unat (block_size_log2 dev)" "2 :: nat"]
  by (simp add: gpt_dev_def bdev_gran_def)

lemma table_bytes_u32:
  assumes "unat (u32_at 80 h) \<le> 128" "unat (u32_at 84 h) \<le> 128"
  shows "unat (u32_at 80 h * u32_at 84 h) = table_bytes h" and "table_bytes h \<le> 16384"
proof -
  show le: "table_bytes h \<le> 16384"
    using mult_le_mono [OF assms] by (simp add: table_bytes_def)
  then show "unat (u32_at 80 h * u32_at 84 h) = table_bytes h"
    by (simp add: unat_word_ariths(2) table_bytes_def)
qed

lemma table_count:
  assumes dev: "gpt_dev contents alloc dev" and "unat (u32_at 80 h) \<le> 128" "unat (u32_at 84 h) \<le> 128"
  shows "unat (ucast (DIV_CEIL_LOG2 (ucast (u32_at 80 h * u32_at 84 h)) (block_size_log2 dev)) :: u32) =
      table_blocks (bdev_gran dev) h"
    and "table_blocks (bdev_gran dev) h \<le> 256"
    and "table_bytes h \<le> table_blocks (bdev_gran dev) h * bdev_gran dev"
    and "0 < table_blocks (bdev_gran dev) h \<longleftrightarrow> 0 < table_bytes h"
proof -
  note n = table_bytes_u32 [OF assms(2,3)] and g = gpt_dev_gran [OF dev]
  have lg: "unat (block_size_log2 dev) < 64" using dev by (simp add: gpt_dev_def)
  have "(table_bytes h + bdev_gran dev - 1) div bdev_gran dev \<le> (16384 + 16384) div 128"
    using n g by (intro div_le_mono2 [THEN le_trans [rotated], OF _ _ div_le_mono]) auto
  then show le: "table_blocks (bdev_gran dev) h \<le> 256" by (simp add: table_blocks_def)
  have "unat (ucast (u32_at 80 h * u32_at 84 h) :: u64) = table_bytes h"
    using n by (subst unat_ucast_up) simp_all
  then have "unat (DIV_CEIL_LOG2 (ucast (u32_at 80 h * u32_at 84 h)) (block_size_log2 dev)) =
      table_blocks (bdev_gran dev) h"
    using unat_DIV_CEIL [OF _ lg, of "ucast (u32_at 80 h * u32_at 84 h)"] n g by (simp add: table_blocks_def)
  then show "unat (ucast (DIV_CEIL_LOG2 (ucast (u32_at 80 h * u32_at 84 h)) (block_size_log2 dev)) :: u32) =
      table_blocks (bdev_gran dev) h"
    using le by (subst unat_ucast_small) simp_all
  show "table_bytes h \<le> table_blocks (bdev_gran dev) h * bdev_gran dev"
    using ceil_to_ge [OF bdev_gran_pos] by (simp add: ceil_to_def table_blocks_def)
  then show "0 < table_blocks (bdev_gran dev) h \<longleftrightarrow> 0 < table_bytes h"
    using g by (auto simp: table_blocks_def div_greater_zero_iff)
qed


lemma read_table_exact:
  assumes dev: "gpt_dev contents alloc dev" and h: "length h = bdev_gran dev"
    and al: "tegrabl_blockdev_buffer_aligned dev (a + TEGRABL_BLOCKDEV_BLOCK_SIZE dev)"
    and run: "gpt_read_table dev a (h @ replicate 16384 0) = ((e, b), dev')"
  shows "same_dev contents dev dev' \<and> bdev_img contents dev' = bdev_img contents dev \<and>
    (e = TEGRABL_NO_ERROR \<longleftrightarrow> unat (u32_at 80 h) \<le> 128 \<and> unat (u32_at 84 h) \<le> 128 \<and>
       0 < table_bytes h \<and> table_start h + table_blocks (bdev_gran dev) h \<le> unat (block_count dev) \<and>
       u32_at 88 h = tegrabl_utils_crc32 0
         (subrange (table_start h * bdev_gran dev) (table_bytes h) (bdev_img contents dev))) \<and>
    (e = TEGRABL_NO_ERROR \<longrightarrow> b = h @ overwrite 0 (subrange (table_start h * bdev_gran dev)
       (table_blocks (bdev_gran dev) h * bdev_gran dev) (bdev_img contents dev)) (replicate 16384 0))"
proof (cases "unat (u32_at 80 h) \<le> 128 \<and> unat (u32_at 84 h) \<le> 128")
  case False
  have "bdev_ok contents dev" "128 \<le> length h" using dev gpt_dev_gran [OF dev] h
    by (auto simp: gpt_dev_def bdev_live_ok)
  then show ?thesis
    using False run by (auto simp: gpt_read_table_def at_append same_dev_refl split: if_splits)
next
  case lim: True
  have live: "bdev_live contents alloc dev" using dev by (simp add: gpt_dev_def)
  note ok = bdev_live_ok [OF live] and g = gpt_dev_gran [OF dev]
  note T = table_count [OF dev conjunct1 [OF lim] conjunct2 [OF lim]]
  let ?c = "ucast (DIV_CEIL_LOG2 (ucast (u32_at 80 h * u32_at 84 h)) (block_size_log2 dev)) :: u32"
  let ?s = "ucast (u64_at 72 h) :: u32" and ?z = "replicate 16384 (0 :: u8)"
  have fields: "u32_at 80 (h @ x) = u32_at 80 h" "u32_at 84 (h @ x) = u32_at 84 h"
    "u32_at 88 (h @ x) = u32_at 88 h" "u64_at 72 (h @ x) = u64_at 72 h" for x
    using g h by (simp_all add: at_append)
  obtain e1 tab dev1 where
    r: "bdev_read_block dev (a + TEGRABL_BLOCKDEV_BLOCK_SIZE dev) ?s ?c = ((e1, tab), dev1)"
    by (metis surj_pair)
  have bs: "overwrite (unat (TEGRABL_BLOCKDEV_BLOCK_SIZE dev)) tab (h @ ?z) = h @ overwrite 0 tab ?z"
    using overwrite_append_right [of h "bdev_gran dev" tab ?z] h unat_BLOCK_SIZE [OF ok] by simp
  have sub: "subrange (unat (TEGRABL_BLOCKDEV_BLOCK_SIZE dev)) (unat (u32_at 80 h * u32_at 84 h))
      (h @ overwrite 0 tab ?z) = take (table_bytes h) (overwrite 0 tab ?z)"
    using h unat_BLOCK_SIZE [OF ok] table_bytes_u32(1) lim by (simp add: subrange_def)
  have unfold: "((e, b), dev') = (if e1 \<noteq> TEGRABL_NO_ERROR then ((GPT_HIGHEST e1, h @ overwrite 0 tab ?z), dev1)
      else if u32_at 88 h \<noteq> tegrabl_utils_crc32 0 (take (table_bytes h) (overwrite 0 tab ?z))
      then ((GPT_ERROR TEGRABL_ERR_VERIFY_FAILED 2, h @ overwrite 0 tab ?z), dev1)
      else ((TEGRABL_NO_ERROR, h @ overwrite 0 tab ?z), dev1))"
    using lim run r by (auto simp: gpt_read_table_def fields Let_def bs sub not_less split: if_splits)
  show ?thesis
  proof (cases "unat ?s + unat ?c < 2 ^ 32")
    case nowrap: True
    note R = read_block_ok [OF ok nowrap r] read_block_exact [OF live al nowrap r]
    have c0: "?c \<noteq> 0 \<longleftrightarrow> 0 < table_bytes h" using T by (simp add: word_unat_eq_iff)
    have tk: "take (table_bytes h) (overwrite 0 tab ?z) =
        subrange (table_start h * bdev_gran dev) (table_bytes h) (bdev_img contents dev)"
      if "e1 = TEGRABL_NO_ERROR"
    proof -
      have tab: "tab = subrange (table_start h * bdev_gran dev)
          (table_blocks (bdev_gran dev) h * bdev_gran dev) (bdev_img contents dev)"
        and "(table_start h + table_blocks (bdev_gran dev) h) * bdev_gran dev \<le> length (bdev_img contents dev)"
        using R(1) that T(1) img_blocks [OF ok] by (simp_all add: table_start_def)
      then have "length tab = table_blocks (bdev_gran dev) h * bdev_gran dev"
        by (simp add: add_mult_distrib)
      then have "take (table_bytes h) (overwrite 0 tab ?z) = take (table_bytes h) tab"
        using T(3) by (simp add: overwrite_def)
      then show ?thesis using T(3) by (simp add: tab take_subrange)
    qed
    then show ?thesis
      using unfold R c0 T(1) tk lim by (auto simp: table_start_def split: if_splits)
  next
    case False
    then have "unat (block_count dev) < unat ?s"
      using T(1,2) dev by (simp add: gpt_dev_def)
    then have "range_bad dev ?s ?c" by (simp add: range_bad_def word_less_nat_alt)
    then have "e1 \<noteq> TEGRABL_NO_ERROR" "dev1 = dev" using r by (auto simp: bdev_read_block_def split: if_splits)
    then show ?thesis
      using unfold ok \<open>unat (block_count dev) < unat ?s\<close>
      by (auto simp: same_dev_refl table_start_def)
  qed
qed


lemma read_validate_exact:
  assumes dev: "gpt_dev contents alloc dev"
    and blk: "unat (ucast (DIV_CEIL_LOG2 off (block_size_log2 dev)) :: u32) = blk" "blk + 1 < 2 ^ 32"
    and run: "tegrabl_gpt_read_validate alloc dev off None sz = ((e, buf, sz'), dev')"
  shows "same_dev contents dev dev' \<and> bdev_img contents dev' = bdev_img contents dev \<and>
    (e = TEGRABL_NO_ERROR \<longleftrightarrow>
       gpt_valid (bdev_img contents dev) (bdev_gran dev) (unat (block_count dev)) blk) \<and>
    (e = TEGRABL_NO_ERROR \<longrightarrow>
       map_option snd buf = Some (gpt_image (bdev_img contents dev) (bdev_gran dev) blk)) \<and>
    (e \<noteq> TEGRABL_NO_ERROR \<longrightarrow> buf = None)"
proof -
  let ?img = "bdev_img contents dev" and ?g = "bdev_gran dev" and ?n = "unat (block_count dev)"
  have live: "bdev_live contents alloc dev" using dev by (simp add: gpt_dev_def)
  note ok = bdev_live_ok [OF live] and g = gpt_dev_gran [OF dev]
  have sz: "unat (gpt_size dev) = ?g + 16384"
    using unat_gpt_size(1) [OF ok] dev by (simp add: gpt_dev_def)
  obtain a where a: "alloc 2 4096 (ucast (gpt_size dev)) = Some a" "tegrabl_blockdev_buffer_aligned dev a"
    using bdev_live_alloc [OF live] by metis
  obtain e1 h dev1 where
    r1: "bdev_read_block dev a (ucast (DIV_CEIL_LOG2 off (block_size_log2 dev))) 1 = ((e1, h), dev1)"
    by (metis surj_pair)
  have one: "unat (ucast (DIV_CEIL_LOG2 off (block_size_log2 dev)) :: u32) + unat (1 :: u32) < 2 ^ 32"
    using blk by simp
  note R1 = read_block_ok [OF ok one r1] read_block_exact [OF live a(2) one r1]
  show ?thesis
  proof (cases "e1 = TEGRABL_NO_ERROR")
    case False
    then show ?thesis
      using run R1 r1 a(1) blk by (auto simp: tegrabl_gpt_read_validate_def Let_def gpt_out_def gpt_valid_def)
  next
    case True
    have sd1: "same_dev contents dev dev1" "bdev_img contents dev1 = ?img" using R1 by auto
    note D1 = same_devD [OF sd1(1)] and dev1 = gpt_dev_same [OF dev sd1(1)]
    have in1: "blk < ?n" and h: "h = gpt_hdr ?img ?g blk" and lh: "length h = ?g"
      using R1 True blk img_blocks [OF ok] mult_le_mono1 [of "blk + 1" ?n ?g]
      by (simp_all add: gpt_hdr_def)
    let ?b = "h @ replicate 16384 0"
    have b: "overwrite 0 h (replicate (unat (gpt_size dev)) 0) = ?b"
      unfolding sz by (rule overwrite_append_left [OF lh])
    have V: "fst (tegrabl_gpt_validate_header ?b (ucast (block_count dev))) = TEGRABL_NO_ERROR \<longleftrightarrow>
        header_ok h ?n"
      "header_ok h ?n \<Longrightarrow> snd (tegrabl_gpt_validate_header ?b (ucast (block_count dev))) = ?b"
      using validate_header_exact [of ?b "ucast (block_count dev)"] header_ok_append [of h] lh g
        unat_ucast_up [of "block_count dev", where 'b = 64] by auto
    obtain e2 b2 dev2 where t: "gpt_read_table dev1 a ?b = ((e2, b2), dev2)" by (metis surj_pair)
    have "tegrabl_blockdev_buffer_aligned dev1 (a + TEGRABL_BLOCKDEV_BLOCK_SIZE dev1)"
      using dev1 a(1) unfolding gpt_dev_def by blast
    note T = read_table_exact [OF dev1 _ this t]
    show ?thesis
    proof (cases "header_ok h ?n")
      case False
      then show ?thesis
        using run r1 True a(1) b V(1) sd1 D1(3) in1
        by (auto simp: tegrabl_gpt_read_validate_def Let_def gpt_out_def gpt_valid_def h [symmetric]
            split: prod.splits)
    next
      case hok: True
      then have "tegrabl_gpt_validate_header ?b (ucast (block_count dev)) = (TEGRABL_NO_ERROR, ?b)"
        using V by (metis prod.collapse)
      then have res: "e = e2 \<and> dev' = dev2 \<and> buf = (if e2 = TEGRABL_NO_ERROR then Some (a, b2) else None)"
        using run r1 True a(1) b t D1(3)
        by (auto simp: tegrabl_gpt_read_validate_def Let_def gpt_out_def split: if_splits)
      then show ?thesis
        using T lh D1(3,4) sd1 same_dev_trans [OF sd1(1), of dev2] in1 hok
        by (auto simp: gpt_valid_def gpt_image_def Let_def h [symmetric])
    qed
  qed
qed

definition gpt_partitions :: "bytes \<Rightarrow> u32 \<Rightarrow> nat \<Rightarrow> tegrabl_partition_info list" where
  "gpt_partitions img lg blk =
     map (entry_info lg) (filter entry_used
       (map (gpt_entry (gpt_image img (2 ^ unat lg) blk) (2 ^ unat lg)) [0..<128]))"

lemma gpt_blocks:
  assumes dev: "gpt_dev contents alloc dev" and n: "2 \<le> unat (block_count dev)"
  shows "unat (ucast (DIV_CEIL_LOG2 (ucast (ucast (TEGRABL_BLOCKDEV_BLOCK_SIZE dev) :: u32))
      (block_size_log2 dev)) :: u32) = 1"
    and "unat (ucast (DIV_CEIL_LOG2 (dev_size dev - ucast (ucast (TEGRABL_BLOCKDEV_BLOCK_SIZE dev) :: u32))
      (block_size_log2 dev)) :: u32) = unat (block_count dev) - 1"
proof -
  have ok: "bdev_ok contents dev" using dev bdev_live_ok by (auto simp: gpt_dev_def)
  note g = gpt_dev_gran [OF dev]
  let ?g = "bdev_gran dev" and ?n = "unat (block_count dev)"
  let ?bs = "ucast (ucast (TEGRABL_BLOCKDEV_BLOCK_SIZE dev) :: u32) :: u64"
  have bs: "unat ?bs = ?g"
    using unat_BLOCK_SIZE [OF ok] g by (simp add: unat_ucast_mod)
  have size: "unat (dev_size dev) = ?n * ?g"
    using bdev_size_unat [OF ok] img_blocks [OF ok] by simp
  have lg: "unat (block_size_log2 dev) < 64" using dev by (simp add: gpt_dev_def)
  have "?n * ?g \<le> 4294967296 * 16384"
    using unat_u32_bound [of "block_count dev"] g by (intro mult_le_mono) auto
  then have small: "?n * ?g + ?g \<le> 2 ^ 64" using g by simp
  have le: "?bs \<le> dev_size dev"
    using bs size n by (simp add: word_le_nat_alt)
  have div1: "(?g + ?g - 1) div ?g = 1"
    using g by (intro div_nat_eqI) auto
  show "unat (ucast (DIV_CEIL_LOG2 ?bs (block_size_log2 dev)) :: u32) = 1"
    using unat_DIV_CEIL [OF _ lg, of ?bs] bs g div1 by (subst unat_ucast_small) simp_all
  have "unat (dev_size dev - ?bs) = (?n - 1) * ?g"
    using unat_diff [OF le] bs size by (simp add: diff_mult_distrib)
  moreover have "((?n - 1) * ?g + ?g - 1) div ?g = ?n - 1"
    using ceil_to_mult [of ?g "?n - 1"] g by (simp only: ceil_to_def) simp
  moreover have "(?n - 1) * ?g + ?g \<le> 2 ^ 64"
    using small by (simp add: diff_mult_distrib)
  ultimately have "unat (DIV_CEIL_LOG2 (dev_size dev - ?bs) (block_size_log2 dev)) = ?n - 1"
    using unat_DIV_CEIL [OF _ lg, of "dev_size dev - ?bs"] by simp
  then show "unat (ucast (DIV_CEIL_LOG2 (dev_size dev - ?bs) (block_size_log2 dev)) :: u32) = ?n - 1"
    using unat_u32_bound [of "block_count dev"] by (subst unat_ucast_small) simp_all
qed

lemma gpt_read_exact:
  assumes dev: "gpt_dev contents alloc dev" and n: "2 \<le> unat (block_count dev)"
    and run: "tegrabl_gpt_read alloc dev 0 None sz = ((e, buf, sz'), dev')"
  shows "same_dev contents dev dev' \<and> bdev_img contents dev' = bdev_img contents dev \<and>
    (let img = bdev_img contents dev; g = bdev_gran dev; n = unat (block_count dev) in
     if gpt_valid img g n 1 then e = TEGRABL_NO_ERROR \<and> map_option snd buf = Some (gpt_image img g 1)
     else if gpt_valid img g n (n - 1)
       then e = TEGRABL_NO_ERROR \<and> map_option snd buf = Some (gpt_image img g (n - 1))
     else e = GPT_ERROR TEGRABL_ERR_NOT_FOUND 0)"
proof -
  let ?bs = "ucast (ucast (TEGRABL_BLOCKDEV_BLOCK_SIZE dev) :: u32) :: u64"
  note B = gpt_blocks [OF dev n]
  obtain e1 b1 s1 dev1 where
    1: "tegrabl_gpt_read_validate alloc dev ?bs None sz = ((e1, b1, s1), dev1)" by (metis surj_pair)
  note R1 = read_validate_exact [OF dev B(1) _ 1]
  have sd1: "same_dev contents dev dev1" "bdev_img contents dev1 = bdev_img contents dev" using R1 by auto
  note D1 = same_devD [OF sd1(1)]
  have B2: "unat (ucast (DIV_CEIL_LOG2 (dev_size dev - ?bs) (block_size_log2 dev1)) :: u32) =
      unat (block_count dev) - 1" using B(2) D1(2) by simp
  obtain e2 b2 s2 dev2 where
    2: "tegrabl_gpt_read_validate alloc dev1 (dev_size dev - ?bs) None s1 = ((e2, b2, s2), dev2)"
    by (metis surj_pair)
  have "unat (block_count dev) - 1 + 1 < 2 ^ 32" using unat_u32_bound [of "block_count dev"] n by simp
  note R2 = read_validate_exact [OF gpt_dev_same [OF dev sd1(1)] B2 this 2]
  show ?thesis
    using run 1 2 R1 R2 sd1 D1(3,4) same_dev_trans [OF sd1(1), of dev2]
    by (auto simp: tegrabl_gpt_read_def Let_def split: if_splits)
qed

lemma gpt_publish_result:
  assumes dev: "gpt_dev contents alloc dev" and n: "2 \<le> unat (block_count dev)"
    and run: "tegrabl_gpt_publish alloc True dev 0 = ((e, parts), dev')"
  shows "same_dev contents dev dev' \<and> bdev_img contents dev' = bdev_img contents dev \<and>
    (let img = bdev_img contents dev; lg = block_size_log2 dev; n = unat (block_count dev) in
     if gpt_valid img (2 ^ unat lg) n 1 then (e, parts) = (TEGRABL_NO_ERROR, gpt_partitions img lg 1)
     else if gpt_valid img (2 ^ unat lg) n (n - 1)
       then (e, parts) = (TEGRABL_NO_ERROR, gpt_partitions img lg (n - 1))
     else (e, parts) = (GPT_ERROR TEGRABL_ERR_NOT_FOUND 0, []))"
proof -
  obtain e1 b1 s1 dev1 where r: "tegrabl_gpt_read alloc dev 0 None 0 = ((e1, b1, s1), dev1)"
    by (metis surj_pair)
  note R = gpt_read_exact [OF dev n r]
  have sd: "same_dev contents dev dev1" using R by blast
  have bs: "unat (TEGRABL_BLOCKDEV_BLOCK_SIZE dev1) = 2 ^ unat (block_size_log2 dev)"
    using unat_BLOCK_SIZE [OF same_devD(1) [OF sd]] same_devD(4) [OF sd] by (simp add: bdev_gran_def)
  have out: "(e, parts) = (if e1 \<noteq> TEGRABL_NO_ERROR then (e1, []) else (TEGRABL_NO_ERROR,
      map (entry_info (block_size_log2 dev)) (filter entry_used
        (map (gpt_entry (snd (the b1)) (2 ^ unat (block_size_log2 dev))) [0..<128])))) \<and> dev' = dev1"
    using run r bs same_devD(2) [OF sd]
    by (simp add: tegrabl_gpt_publish_def Let_def gpt_collect_all split: if_splits)
  have "snd (the b1) = im" if "map_option snd b1 = Some im" for im
    using that by auto
  then show ?thesis
    using R out by (auto simp: gpt_partitions_def bdev_gran_def Let_def split: if_splits)
qed

lemma at_list_update:
  "i < off \<or> off + 4 \<le> i \<Longrightarrow> u32_at off (h[i := b]) = u32_at off h"
  by (simp add: u32_at_def subrange_def drop_update_swap take_update_swap)
    (cases "i < off"; simp add: drop_update_cancel take_update_cancel drop_update_swap)

section \<open>A small table\<close>

text \<open>A medium of six blocks of 128 bytes with a primary GPT that has one entry; the CRC fields hold
  the CRCs of the bytes they protect.\<close>

definition demo_entry :: bytes where
  "demo_entry = replicate 16 0x11 @ replicate 16 0x22 @ [3,0,0,0,0,0,0,0] @ [4,0,0,0,0,0,0,0] @
     replicate 8 0 @ [0x41,0] @ replicate 70 0"

definition demo_hdr0 :: "bytes \<Rightarrow> bytes" where
  "demo_hdr0 tab_crc = c_lit ''EFI PART'' @ [0,0,1,0] @ [92,0,0,0] @ [0,0,0,0,0,0,0,0] @ [1,0,0,0,0,0,0,0] @
     [5,0,0,0,0,0,0,0] @ [3,0,0,0,0,0,0,0] @ [4,0,0,0,0,0,0,0] @ replicate 16 7 @
     [2,0,0,0,0,0,0,0] @ [1,0,0,0] @ [128,0,0,0] @ tab_crc"

definition demo_hdr :: "bytes \<Rightarrow> bytes \<Rightarrow> bytes" where
  "demo_hdr hdr_crc tab_crc = overwrite 16 hdr_crc (demo_hdr0 tab_crc) @ replicate 36 0"

abbreviation "demo_tab_crc \<equiv> le_bytes 4 (tegrabl_utils_crc32 0 demo_entry)"

abbreviation "demo_hdr_crc \<equiv> le_bytes 4 (tegrabl_utils_crc32 0 (demo_hdr0 demo_tab_crc))"

definition demo_gpt :: bytes where
  "demo_gpt = replicate 128 0 @ demo_hdr demo_hdr_crc demo_tab_crc @ demo_entry @ replicate 384 0"

lemma four_bytes: "length (c :: bytes) = 4 \<Longrightarrow> \<exists>c0 c1 c2 c3. c = [c0, c1, c2, c3]"
  by (auto simp: eval_nat_numeral(2,3) length_Suc_conv)

lemmas demo_list_simps = demo_hdr_def demo_hdr0_def overwrite_def subrange_def c_lit_def u32_at_def u64_at_def

lemma demo_hdr_fields:
  assumes "length a = 4" "length b = 4"
  shows "length (demo_hdr a b) = 128" "take 8 (demo_hdr a b) = c_lit ''EFI PART''"
    "u32_at 12 (demo_hdr a b) = 92" "u32_at 16 (demo_hdr a b) = of_le a"
    "u64_at 40 (demo_hdr a b) = 3" "u64_at 48 (demo_hdr a b) = 4" "u64_at 72 (demo_hdr a b) = 2"
    "u32_at 80 (demo_hdr a b) = 1" "u32_at 84 (demo_hdr a b) = 128" "u32_at 88 (demo_hdr a b) = of_le b"
    "take 92 (overwrite 16 [0, 0, 0, 0] (demo_hdr a b)) = demo_hdr0 b"
proof -
  obtain a0 a1 a2 a3 where a: "a = [a0, a1, a2, a3]" using four_bytes [OF assms(1)] by blast
  obtain b0 b1 b2 b3 where b: "b = [b0, b1, b2, b3]" using four_bytes [OF assms(2)] by blast
  show "length (demo_hdr a b) = 128" "take 8 (demo_hdr a b) = c_lit ''EFI PART''"
    "u32_at 12 (demo_hdr a b) = 92" "u32_at 16 (demo_hdr a b) = of_le a"
    "u64_at 40 (demo_hdr a b) = 3" "u64_at 48 (demo_hdr a b) = 4" "u64_at 72 (demo_hdr a b) = 2"
    "u32_at 80 (demo_hdr a b) = 1" "u32_at 84 (demo_hdr a b) = 128" "u32_at 88 (demo_hdr a b) = of_le b"
    "take 92 (overwrite 16 [0, 0, 0, 0] (demo_hdr a b)) = demo_hdr0 b"
    unfolding a b by (simp_all add: demo_list_simps)
qed

lemma of_le_crc: "of_le (le_bytes 4 (c :: u32)) = c"
  using take_bit_length_eq [of c] by (simp add: of_le_le_bytes)

lemma demo_header_ok: "5 \<le> n \<Longrightarrow> header_ok (demo_hdr demo_hdr_crc demo_tab_crc) n"
  by (simp add: header_ok_def demo_hdr_fields of_le_crc)

lemma demo_gpt_valid: "gpt_valid demo_gpt 128 6 1"
proof -
  let ?h = "demo_hdr demo_hdr_crc demo_tab_crc"
  have h: "length ?h = 128" by (simp add: demo_hdr_fields)
  have l: "length demo_entry = 128" by (simp add: demo_entry_def)
  have "gpt_hdr demo_gpt 128 1 = ?h"
    using h by (simp add: gpt_hdr_def demo_gpt_def subrange_def)
  moreover have "subrange (2 * 128) 128 demo_gpt = demo_entry"
    using h l by (simp add: demo_gpt_def subrange_def)
  ultimately show ?thesis
    by (simp add: gpt_valid_def Let_def demo_header_ok demo_hdr_fields table_bytes_def table_start_def
        table_blocks_def of_le_crc)
qed

lemma demo_gpt_dev: "gpt_dev (\<lambda>p. p) ram_alloc (ram_dev 7 6 demo_gpt)"
proof -
  have "length demo_gpt = 768"
    by (simp add: demo_gpt_def demo_hdr_fields) (simp add: demo_entry_def)
  then have "bdev_live (\<lambda>p. p) ram_alloc (ram_dev 7 6 demo_gpt)"
    by (intro ram_dev_live) simp_all
  then show ?thesis
    by (simp add: gpt_dev_def) (simp add: ram_dev_def ram_alloc_def tegrabl_blockdev_buffer_aligned_def
        MOD_POW2_def TEGRABL_BLOCKDEV_BLOCK_SIZE_def)
qed

section \<open>Properties\<close>



text \<open>
  C33. A valid header never survives a corrupted byte: changing any one of the 92 header bytes outside
  the CRC field itself makes validation fail.
\<close>

theorem gpt_header_corruption_detected:
  assumes "92 \<le> length buf" and "fst (tegrabl_gpt_validate_header buf n) = TEGRABL_NO_ERROR"
    and "i < 92" and "i < 16 \<or> 20 \<le> i" and "b \<noteq> buf ! i"
  shows "fst (tegrabl_gpt_validate_header (buf[i := b]) n) \<noteq> TEGRABL_NO_ERROR"
proof
  assume "fst (tegrabl_gpt_validate_header (buf[i := b]) n) = TEGRABL_NO_ERROR"
  then have "header_ok (buf[i := b]) (unat n)" and "header_ok buf (unat n)"
    using validate_header_exact assms(1,2) by auto
  then have eq: "tegrabl_utils_crc32 0 (take 92 (overwrite 16 [0, 0, 0, 0] (buf[i := b]))) =
      tegrabl_utils_crc32 0 (take 92 (overwrite 16 [0, 0, 0, 0] buf))"
    using at_list_update [of i 16 buf b] assms(4) by (auto simp: header_ok_def)
  have "take 92 (overwrite 16 [0, 0, 0, 0] (buf[i := b])) =
      (take 92 (overwrite 16 [0, 0, 0, 0] buf))[i := b]"
    using assms(1,3,4) by (intro nth_equalityI) (auto simp: nth_overwrite nth_list_update)
  moreover have "b \<noteq> take 92 (overwrite 16 [0, 0, 0, 0] buf) ! i"
    using assms by (auto simp: nth_overwrite)
  ultimately show False
    using eq crc32_update_differs [of i "take 92 (overwrite 16 [0, 0, 0, 0] buf)" b 0] assms(1,3) by simp
qed

theorem gpt_header_corruption_witness:
  "fst (tegrabl_gpt_validate_header ((demo_hdr demo_hdr_crc demo_tab_crc)[12 := 9]) 6) \<noteq> TEGRABL_NO_ERROR"
proof (rule gpt_header_corruption_detected)
  let ?h = "demo_hdr demo_hdr_crc demo_tab_crc"
  show "92 \<le> length ?h" by (simp add: demo_hdr_fields)
  show "fst (tegrabl_gpt_validate_header ?h 6) = TEGRABL_NO_ERROR"
    using validate_header_exact [of ?h 6] demo_header_ok [of 6] by (simp add: demo_hdr_fields)
  obtain a0 a1 a2 a3 b0 b1 b2 b3 where "demo_hdr_crc = [a0, a1, a2, a3]" "demo_tab_crc = [b0, b1, b2, b3]"
    using four_bytes length_le_bytes by metis
  then show "9 \<noteq> ?h ! 12" by (simp add: demo_hdr_def demo_hdr0_def overwrite_def c_lit_def)
qed simp_all

text \<open>
  The GUID strings of the published partitions identify the GUIDs: two GUIDs of 16 bytes with the
  same string are equal, so a lookup by GUID string cannot confuse partitions.
\<close>

theorem guid_strings_identify:
  assumes "length g = 16" and "length h = 16"
  shows "guid_to_str g (replicate 37 0) = guid_to_str h (replicate 37 0) \<longleftrightarrow> g = h"
  using guid_to_str_inj [OF assms] by blast

end
