(* ===== verification/Ab_Smd.thy ===== *)
theory Ab_Smd
  imports Prelude
begin

text \<open>
  The data of A/B boot control (\<open>include/lib/tegrabl_a_b_boot_control.h\<close>): the slot metadata (SMD)
  with its extension as records and as their packed images in storage (22 and 169 bytes), the
  version and feature bits, and the macros that read and write the fields of the two scratch
  registers. The event log at the end of the extension is kept as bytes: no operation looks into it.
  The macros compute in \<open>unsigned long\<close> and are assigned to 32-bit (registers) or 8-bit
  (\<open>rootfs_select\<close>) variables, so they are words of that width here.
\<close>

section \<open>Constants and version bits\<close>

abbreviation (input) BOOT_CHAIN_MAGIC :: u32 where "BOOT_CHAIN_MAGIC \<equiv> 0x43424E00"
abbreviation (input) BOOT_CHAIN_VERSION_ONE :: u16 where "BOOT_CHAIN_VERSION_ONE \<equiv> 1"
abbreviation (input) BOOT_CHAIN_VERSION_ROOTFS_AB :: u16 where "BOOT_CHAIN_VERSION_ROOTFS_AB \<equiv> 4"
abbreviation (input) BOOT_CHAIN_VERSION_UNIFY_RF_BL_AB :: u16 where "BOOT_CHAIN_VERSION_UNIFY_RF_BL_AB \<equiv> 5"
abbreviation (input) BOOT_CHAIN_VERSION :: u16 where "BOOT_CHAIN_VERSION \<equiv> 5"

abbreviation (input) SLOT_RETRY_COUNT_DEFAULT :: u8 where "SLOT_RETRY_COUNT_DEFAULT \<equiv> 7"
abbreviation (input) SLOT_PRIORITY_DEFAULT :: u8 where "SLOT_PRIORITY_DEFAULT \<equiv> 15"
abbreviation (input) BOOT_SLOT_A :: u32 where "BOOT_SLOT_A \<equiv> 0"
abbreviation (input) BOOT_SLOT_B :: u32 where "BOOT_SLOT_B \<equiv> 1"
abbreviation (input) MAX_SLOTS :: u32 where "MAX_SLOTS \<equiv> 2"

abbreviation (input) ROOTFS_A :: u8 where "ROOTFS_A \<equiv> 0"
abbreviation (input) ROOTFS_B :: u8 where "ROOTFS_B \<equiv> 1"
abbreviation (input) ROOTFS_INVALID :: u8 where "ROOTFS_INVALID \<equiv> 3"
abbreviation (input) ROOTFS_RETRY_COUNT_DEFAULT :: u8 where "ROOTFS_RETRY_COUNT_DEFAULT \<equiv> 3"
abbreviation (input) ROOTFS_AB_ROTATE_COUNT :: u8 where "ROOTFS_AB_ROTATE_COUNT \<equiv> 4"
abbreviation (input) ROOTFS_STATUS_NORMAL :: u8 where "ROOTFS_STATUS_NORMAL \<equiv> 0"
abbreviation (input) ROOTFS_STATUS_BOOT_FAILED :: u8 where "ROOTFS_STATUS_BOOT_FAILED \<equiv> 3"
abbreviation (input) ROOTFS_STATUS_END :: u8 where "ROOTFS_STATUS_END \<equiv> 3"

definition BOOT_CHAIN_VERSION_GET :: "u16 \<Rightarrow> u16" where
  "BOOT_CHAIN_VERSION_GET version = version AND 0xFF"

definition BOOTCTRL_SUPPORT_REDUNDANCY :: "u16 \<Rightarrow> bool" where
  "BOOTCTRL_SUPPORT_REDUNDANCY version \<longleftrightarrow> version AND push_bit 8 1 \<noteq> 0"

definition BOOTCTRL_SUPPORT_REDUNDANCY_USER :: "u16 \<Rightarrow> bool" where
  "BOOTCTRL_SUPPORT_REDUNDANCY_USER version \<longleftrightarrow> version AND push_bit 9 1 \<noteq> 0"

definition BOOTCTRL_SUPPORT_ROOTFS_AB :: "u16 \<Rightarrow> bool" where
  "BOOTCTRL_SUPPORT_ROOTFS_AB version \<longleftrightarrow> version AND push_bit 10 1 \<noteq> 0"

definition BOOTCTRL_SUPPORT_UNIFIED_AB :: "u16 \<Rightarrow> bool" where
  "BOOTCTRL_SUPPORT_UNIFIED_AB version \<longleftrightarrow> version AND push_bit 13 1 \<noteq> 0"

definition BOOTCTRL_IS_UNIFIED_AB_ENABLED :: "u16 \<Rightarrow> bool" where
  "BOOTCTRL_IS_UNIFIED_AB_ENABLED version \<longleftrightarrow>
     BOOTCTRL_SUPPORT_UNIFIED_AB version \<and> BOOTCTRL_SUPPORT_ROOTFS_AB version \<and>
     BOOT_CHAIN_VERSION_GET version \<ge> BOOT_CHAIN_VERSION_UNIFY_RF_BL_AB"

section \<open>Scratch register fields\<close>

abbreviation (input) BOOT_CHAIN_REG_MAGIC :: u32 where "BOOT_CHAIN_REG_MAGIC \<equiv> 0xCAFE"
abbreviation (input) ROOTFS_AB_REG_MAGIC :: u32 where "ROOTFS_AB_REG_MAGIC \<equiv> 0xFACE"

abbreviation (input) BC_FLAG_REDUNDANCY_BOOT :: u32 where "BC_FLAG_REDUNDANCY_BOOT \<equiv> 1"
abbreviation (input) BC_FLAG_OTA_ON :: u32 where "BC_FLAG_OTA_ON \<equiv> 3"
abbreviation (input) FROM_SMD_TO_REG :: u32 where "FROM_SMD_TO_REG \<equiv> 0"
abbreviation (input) FROM_REG_TO_SMD :: u32 where "FROM_REG_TO_SMD \<equiv> 1"

definition BOOT_CHAIN_REG_MAGIC_SET :: "u32 \<Rightarrow> u32" where
  "BOOT_CHAIN_REG_MAGIC_SET reg = (reg AND NOT 0xFFFF) OR BOOT_CHAIN_REG_MAGIC"

definition BOOT_CHAIN_REG_MAGIC_GET :: "u32 \<Rightarrow> u32" where
  "BOOT_CHAIN_REG_MAGIC_GET reg = reg AND 0xFFFF"

definition BOOT_CHAIN_REG_SLOT_NUM_SET :: "u32 \<Rightarrow> u32 \<Rightarrow> u32" where
  "BOOT_CHAIN_REG_SLOT_NUM_SET slot reg = (reg AND NOT (push_bit 16 0x07)) OR push_bit 16 (slot AND 0x07)"

definition BOOT_CHAIN_REG_SLOT_NUM_GET :: "u32 \<Rightarrow> u32" where
  "BOOT_CHAIN_REG_SLOT_NUM_GET reg = drop_bit 16 reg AND 0x07"

definition BOOT_CHAIN_REG_MAX_SLOTS_SET :: "u32 \<Rightarrow> u32 \<Rightarrow> u32" where
  "BOOT_CHAIN_REG_MAX_SLOTS_SET max_slots reg =
     (reg AND NOT (push_bit 19 0x07)) OR push_bit 19 (max_slots AND 0x07)"

definition BOOT_CHAIN_REG_MAX_SLOTS_GET :: "u32 \<Rightarrow> u32" where
  "BOOT_CHAIN_REG_MAX_SLOTS_GET reg = drop_bit 19 reg AND 0x07"

definition BOOT_CHAIN_REG_B_RETRY_COUNT_SET :: "u32 \<Rightarrow> u32 \<Rightarrow> u32" where
  "BOOT_CHAIN_REG_B_RETRY_COUNT_SET cnt reg =
     (reg AND NOT (push_bit 22 0x0F)) OR push_bit 22 (cnt AND 0x0F)"

definition BOOT_CHAIN_REG_B_RETRY_COUNT_GET :: "u32 \<Rightarrow> u32" where
  "BOOT_CHAIN_REG_B_RETRY_COUNT_GET reg = drop_bit 22 reg AND 0x0F"

definition BOOT_CHAIN_REG_A_RETRY_COUNT_SET :: "u32 \<Rightarrow> u32 \<Rightarrow> u32" where
  "BOOT_CHAIN_REG_A_RETRY_COUNT_SET cnt reg =
     (reg AND NOT (push_bit 26 0x0F)) OR push_bit 26 (cnt AND 0x0F)"

definition BOOT_CHAIN_REG_A_RETRY_COUNT_GET :: "u32 \<Rightarrow> u32" where
  "BOOT_CHAIN_REG_A_RETRY_COUNT_GET reg = drop_bit 26 reg AND 0x0F"

definition BOOT_CHAIN_REG_UPDATE_FLAG_SET :: "u32 \<Rightarrow> u32 \<Rightarrow> u32" where
  "BOOT_CHAIN_REG_UPDATE_FLAG_SET flag reg =
     (reg AND NOT (push_bit 30 0x03)) OR push_bit 30 (flag AND 0x03)"

definition BOOT_CHAIN_REG_UPDATE_FLAG_GET :: "u32 \<Rightarrow> u32" where
  "BOOT_CHAIN_REG_UPDATE_FLAG_GET reg = drop_bit 30 reg AND 0x03"

definition ROOTFS_AB_REG_MAGIC_SET :: "u32 \<Rightarrow> u32" where
  "ROOTFS_AB_REG_MAGIC_SET reg = (reg AND NOT 0xFFFF) OR ROOTFS_AB_REG_MAGIC"

definition ROOTFS_AB_REG_MAGIC_GET :: "u32 \<Rightarrow> u32" where
  "ROOTFS_AB_REG_MAGIC_GET reg = reg AND 0xFFFF"

definition ROOTFS_AB_REG_ROTATE_COUNT_SET :: "u32 \<Rightarrow> u32 \<Rightarrow> u32" where
  "ROOTFS_AB_REG_ROTATE_COUNT_SET cnt reg = (reg AND NOT (push_bit 16 0x0F)) OR push_bit 16 (cnt AND 0x0F)"

definition ROOTFS_AB_REG_ROTATE_COUNT_GET :: "u32 \<Rightarrow> u32" where
  "ROOTFS_AB_REG_ROTATE_COUNT_GET reg = drop_bit 16 (reg AND push_bit 16 0x0F)"

definition ROOTFS_AB_REG_RETRY_COUNT_SET :: "u32 \<Rightarrow> u32 \<Rightarrow> u32" where
  "ROOTFS_AB_REG_RETRY_COUNT_SET cnt reg = (reg AND NOT (push_bit 20 0x03)) OR push_bit 20 (cnt AND 0x03)"

definition ROOTFS_AB_REG_RETRY_COUNT_GET :: "u32 \<Rightarrow> u32" where
  "ROOTFS_AB_REG_RETRY_COUNT_GET reg = drop_bit 20 (reg AND push_bit 20 0x03)"

text \<open>Unlike the register macros, these do not mask the value they store.\<close>

definition GET_ROOTFS_ACTIVE :: "u8 \<Rightarrow> u8" where
  "GET_ROOTFS_ACTIVE rf_sel = drop_bit 2 (rf_sel AND push_bit 2 3)"

definition SET_ROOTFS_ACTIVE :: "u8 \<Rightarrow> u8 \<Rightarrow> u8" where
  "SET_ROOTFS_ACTIVE slot rf_sel = (rf_sel AND NOT (push_bit 2 3)) OR push_bit 2 slot"

definition GET_ROOTFS_RETRY_COUNT :: "u8 \<Rightarrow> u8" where
  "GET_ROOTFS_RETRY_COUNT rf_sel = drop_bit 0 (rf_sel AND push_bit 0 3)"

definition SET_ROOTFS_RETRY_COUNT :: "u8 \<Rightarrow> u8 \<Rightarrow> u8" where
  "SET_ROOTFS_RETRY_COUNT cnt rf_sel = (rf_sel AND NOT (push_bit 0 3)) OR push_bit 0 cnt"

definition GET_MAX_ROOTFS_RETRY_COUNT :: "u8 \<Rightarrow> u8" where
  "GET_MAX_ROOTFS_RETRY_COUNT rf_misc = drop_bit 0 (rf_misc AND push_bit 0 3)"

section \<open>The slot metadata\<close>

record boot_slot_info =
  priority :: u8
  suffix :: bytes
  retry_count :: u8
  boot_successful :: u8

record slot_meta_data =
  smd_magic :: u32
  smd_version :: u16
  num_slots :: u16
  slot_info :: "boot_slot_info list"
  smd_crc32 :: u32

record features_ext =
  rootfs_select :: u8
  rootfs_status :: "u8 list"
  rootfs_update_mode :: "u8 list"
  rootfs_misc_info :: u8
  features_reserved :: bytes

record slot_meta_data_ext =
  ext_crc32 :: u32
  crc32_len :: u32
  ext_magic :: u32
  ext_version :: u32
  features :: features_ext
  max_bl_retry_count :: u8
  smd_log :: bytes

record slot_meta_data_v2 =
  smd :: slot_meta_data
  smd_ext :: slot_meta_data_ext

text \<open>The packed images.\<close>

definition enc_slot :: "boot_slot_info \<Rightarrow> bytes" where
  "enc_slot s = [priority s] @ suffix s @ [retry_count s, boot_successful s]"

definition dec_slot :: "bytes \<Rightarrow> boot_slot_info" where
  "dec_slot b = \<lparr>priority = b ! 0, suffix = subrange 1 2 b, retry_count = b ! 3, boot_successful = b ! 4\<rparr>"

definition enc_smd :: "slot_meta_data \<Rightarrow> bytes" where
  "enc_smd s = le_bytes 4 (smd_magic s) @ le_bytes 2 (smd_version s) @ le_bytes 2 (num_slots s) @
     enc_slot (slot_info s ! 0) @ enc_slot (slot_info s ! 1) @ le_bytes 4 (smd_crc32 s)"

definition dec_smd :: "bytes \<Rightarrow> slot_meta_data" where
  "dec_smd b = \<lparr>smd_magic = u32_at 0 b, smd_version = u16_at 4 b, num_slots = u16_at 6 b,
     slot_info = [dec_slot (subrange 8 5 b), dec_slot (subrange 13 5 b)], smd_crc32 = u32_at 18 b\<rparr>"

definition enc_features :: "features_ext \<Rightarrow> bytes" where
  "enc_features f = [rootfs_select f] @ rootfs_status f @ rootfs_update_mode f @ [rootfs_misc_info f] @
     features_reserved f"

definition dec_features :: "bytes \<Rightarrow> features_ext" where
  "dec_features b = \<lparr>rootfs_select = b ! 0, rootfs_status = subrange 1 2 b,
     rootfs_update_mode = subrange 3 2 b, rootfs_misc_info = b ! 5, features_reserved = subrange 6 2 b\<rparr>"

definition enc_ext :: "slot_meta_data_ext \<Rightarrow> bytes" where
  "enc_ext e = le_bytes 4 (ext_crc32 e) @ le_bytes 4 (crc32_len e) @ le_bytes 4 (ext_magic e) @
     le_bytes 4 (ext_version e) @ enc_features (features e) @ [max_bl_retry_count e] @ smd_log e"

definition dec_ext :: "bytes \<Rightarrow> slot_meta_data_ext" where
  "dec_ext b = \<lparr>ext_crc32 = u32_at 0 b, crc32_len = u32_at 4 b, ext_magic = u32_at 8 b,
     ext_version = u32_at 12 b, features = dec_features (subrange 16 8 b), max_bl_retry_count = b ! 24,
     smd_log = subrange 25 144 b\<rparr>"

abbreviation (input) sizeof_smd :: nat where "sizeof_smd \<equiv> 22"
abbreviation (input) sizeof_smd_ext :: nat where "sizeof_smd_ext \<equiv> 169"
abbreviation (input) sizeof_smd_v2 :: nat where "sizeof_smd_v2 \<equiv> 191"

definition enc_smd_v2 :: "slot_meta_data_v2 \<Rightarrow> bytes" where
  "enc_smd_v2 s = enc_smd (smd s) @ enc_ext (smd_ext s)"

definition dec_smd_v2 :: "bytes \<Rightarrow> slot_meta_data_v2" where
  "dec_smd_v2 b = \<lparr>smd = dec_smd (take sizeof_smd b), smd_ext = dec_ext (subrange sizeof_smd sizeof_smd_ext b)\<rparr>"

text \<open>The array members have the lengths the structs give them.\<close>

definition wf_slot :: "boot_slot_info \<Rightarrow> bool" where
  "wf_slot s \<longleftrightarrow> length (suffix s) = 2"

definition wf_smd :: "slot_meta_data \<Rightarrow> bool" where
  "wf_smd s \<longleftrightarrow> length (slot_info s) = 2 \<and> list_all wf_slot (slot_info s)"

definition wf_features :: "features_ext \<Rightarrow> bool" where
  "wf_features f \<longleftrightarrow> length (rootfs_status f) = 2 \<and> length (rootfs_update_mode f) = 2 \<and>
     length (features_reserved f) = 2"

definition wf_ext :: "slot_meta_data_ext \<Rightarrow> bool" where
  "wf_ext e \<longleftrightarrow> wf_features (features e) \<and> length (smd_log e) = 144"

definition wf_v2 :: "slot_meta_data_v2 \<Rightarrow> bool" where
  "wf_v2 s \<longleftrightarrow> wf_smd (smd s) \<and> wf_ext (smd_ext s)"

end
