(* ===== verification/Ab_Naming.thy ===== *)
theory Ab_Naming
  imports Prelude
begin

text \<open>
  Partition names and A/B suffixes (\<open>lib/a_b_boot/tegrabl_a_b_partition_naming.c\<close>). Names are C
  strings, given by their characters before the terminating NUL. Reading before the start of a
  string, which \<open>tegrabl_a_b_get_part_suffix\<close> does for names shorter than the suffix, is
  \<open>None\<close>.
\<close>

definition BOOT_CHAIN_SUFFIX_A :: bytes where "BOOT_CHAIN_SUFFIX_A = c_lit ''_a''"
definition BOOT_CHAIN_SUFFIX_B :: bytes where "BOOT_CHAIN_SUFFIX_B = c_lit ''_b''"
abbreviation (input) BOOT_CHAIN_SUFFIX_LEN :: nat where "BOOT_CHAIN_SUFFIX_LEN \<equiv> 2"

text \<open>\<open>strncmp (s, t, len) == 0\<close> for C strings: they agree up to \<open>len\<close> characters or to a
  common end.\<close>

definition strncmp_eq :: "bytes \<Rightarrow> bytes \<Rightarrow> nat \<Rightarrow> bool" where
  "strncmp_eq s t n \<longleftrightarrow> take n s = take n t"

definition tegrabl_a_b_match_part_name :: "bytes \<Rightarrow> bytes \<Rightarrow> bool" where
  "tegrabl_a_b_match_part_name part_name full_part_name =
     (let len = length part_name in
      if \<not> strncmp_eq part_name full_part_name len then False
      else
        let suffix = drop len full_part_name
        in len = length full_part_name \<or> suffix = BOOT_CHAIN_SUFFIX_A)"

definition tegrabl_a_b_match_part_name_with_suffix :: "bytes \<Rightarrow> bytes \<Rightarrow> bool" where
  "tegrabl_a_b_match_part_name_with_suffix part_name full_part_name =
     (let name_length = length full_part_name in
      if strncmp_eq part_name full_part_name (length part_name) then
        let suffix = drop (length part_name) full_part_name
        in name_length = length part_name \<or> BOOT_CHAIN_SUFFIX_A = suffix \<or> BOOT_CHAIN_SUFFIX_B = suffix
      else False)"

definition tegrabl_a_b_get_part_suffix :: "bytes \<Rightarrow> bytes option" where
  "tegrabl_a_b_get_part_suffix part =
     (if length part < BOOT_CHAIN_SUFFIX_LEN then None
      else if drop (length part - BOOT_CHAIN_SUFFIX_LEN) part = BOOT_CHAIN_SUFFIX_B
        then Some BOOT_CHAIN_SUFFIX_B
      else Some BOOT_CHAIN_SUFFIX_A)"

section \<open>Matching\<close>

lemma prefix_split: "take (length p) f = p \<longleftrightarrow> (\<exists>s. f = p @ s)"
  by (metis append_eq_conv_conj append_take_drop_id)

lemma strncmp_prefix: "strncmp_eq p f (length p) \<longleftrightarrow> (\<exists>s. f = p @ s)"
  unfolding strncmp_eq_def using prefix_split [of p f] by auto

lemma match_part_name_iff:
  "tegrabl_a_b_match_part_name p f \<longleftrightarrow> f = p \<or> f = p @ BOOT_CHAIN_SUFFIX_A"
  by (auto simp: tegrabl_a_b_match_part_name_def Let_def strncmp_prefix)

lemma match_with_suffix_iff:
  "tegrabl_a_b_match_part_name_with_suffix p f \<longleftrightarrow>
     f = p \<or> f = p @ BOOT_CHAIN_SUFFIX_A \<or> f = p @ BOOT_CHAIN_SUFFIX_B"
  by (auto simp: tegrabl_a_b_match_part_name_with_suffix_def Let_def strncmp_prefix)

lemma suffixes: "length BOOT_CHAIN_SUFFIX_A = 2" "length BOOT_CHAIN_SUFFIX_B = 2"
  "BOOT_CHAIN_SUFFIX_A \<noteq> BOOT_CHAIN_SUFFIX_B"
  by (simp_all add: BOOT_CHAIN_SUFFIX_A_def BOOT_CHAIN_SUFFIX_B_def c_lit_def)

lemma get_part_suffix_append:
  "tegrabl_a_b_get_part_suffix (p @ BOOT_CHAIN_SUFFIX_A) = Some BOOT_CHAIN_SUFFIX_A"
  "tegrabl_a_b_get_part_suffix (p @ BOOT_CHAIN_SUFFIX_B) = Some BOOT_CHAIN_SUFFIX_B"
  using suffixes by (auto simp: tegrabl_a_b_get_part_suffix_def)

section \<open>Properties\<close>

text \<open>
  A stored partition name matches a requested full name exactly when the request is that name or
  that name with the suffix of slot A (a partition without suffix belongs to slot A); with either
  suffix allowed it also matches slot B's; and the suffix read back from a suffixed name is the one
  appended. In particular a request for slot B never matches a partition of slot A.
\<close>

theorem partition_name_matching:
  "(tegrabl_a_b_match_part_name p f \<longleftrightarrow> f = p \<or> f = p @ BOOT_CHAIN_SUFFIX_A) \<and>
   (tegrabl_a_b_match_part_name_with_suffix p f \<longleftrightarrow>
      f = p \<or> f = p @ BOOT_CHAIN_SUFFIX_A \<or> f = p @ BOOT_CHAIN_SUFFIX_B) \<and>
   tegrabl_a_b_get_part_suffix (p @ BOOT_CHAIN_SUFFIX_A) = Some BOOT_CHAIN_SUFFIX_A \<and>
   tegrabl_a_b_get_part_suffix (p @ BOOT_CHAIN_SUFFIX_B) = Some BOOT_CHAIN_SUFFIX_B \<and>
   \<not> tegrabl_a_b_match_part_name p (p @ BOOT_CHAIN_SUFFIX_B)"
  using suffixes by (auto simp: match_part_name_iff match_with_suffix_iff get_part_suffix_append)

end
