(* ===== verification/Ab_Boot_Control.thy ===== *)
theory Ab_Boot_Control
  imports Ab_Smd Ab_Naming Tegrabl_Error "HOL-Library.Monad_Syntax"
begin

text \<open>
  A/B boot control (\<open>lib/a_b_boot/tegrabl_a_b_boot_control.c\<close>): the operations on a slot metadata
  buffer and on the two scratch registers; the operations that load and store the metadata are in
  \<open>Ab_Smd_Storage\<close>.

  The SMD buffer is a \<open>slot_meta_data_v2\<close>; where the source accepts a NULL pointer the argument is
  an option. The scratch registers are accessed through functions of the SoC code outside this
  repository, which are a parameter: \<open>soc\<close> holds the four accessors on a machine state of type
  \<open>'m\<close>, and \<open>scratch_ok\<close> is what the code relies on. Results of type \<open>option\<close> are \<open>None\<close> when
  an assertion fails (the processor then spins; assertions are configured in) or when an array is
  indexed out of its bounds.
\<close>

section \<open>Machine interface\<close>

record 'm soc_ops =
  op_get_boot_slot_reg :: "'m \<Rightarrow> u32"
  op_set_boot_slot_reg :: "u32 \<Rightarrow> 'm \<Rightarrow> 'm"
  op_get_rootfs_slot_reg :: "'m \<Rightarrow> u32"
  op_set_rootfs_slot_reg :: "u32 \<Rightarrow> 'm \<Rightarrow> 'm"

definition scratch_ok :: "'m soc_ops \<Rightarrow> bool" where
  "scratch_ok soc \<longleftrightarrow>
     (\<forall>v m. op_get_boot_slot_reg soc (op_set_boot_slot_reg soc v m) = v) \<and>
     (\<forall>v m. op_get_rootfs_slot_reg soc (op_set_boot_slot_reg soc v m) = op_get_rootfs_slot_reg soc m) \<and>
     (\<forall>v m. op_get_rootfs_slot_reg soc (op_set_rootfs_slot_reg soc v m) = v) \<and>
     (\<forall>v m. op_get_boot_slot_reg soc (op_set_rootfs_slot_reg soc v m) = op_get_boot_slot_reg soc m)"

abbreviation AB_ERROR :: "u32 \<Rightarrow> u8 \<Rightarrow> tegrabl_error_t" where
  "AB_ERROR reason aux \<equiv> tegrabl_error_value TEGRABL_ERR_AB_BOOTCTRL aux reason"

abbreviation AB_HIGHEST :: "tegrabl_error_t \<Rightarrow> tegrabl_error_t" where
  "AB_HIGHEST e \<equiv> tegrabl_err_set_highest_module e TEGRABL_ERR_AB_BOOTCTRL"

definition TEGRABL_ASSERT :: "bool \<Rightarrow> unit option" where
  "TEGRABL_ASSERT c = (if c then Some () else None)"

text \<open>\<open>slot_info[i]\<close> with its bounds, and its update.\<close>

definition slot_at :: "slot_meta_data_v2 \<Rightarrow> u32 \<Rightarrow> boot_slot_info option" where
  "slot_at s i = (if unat i < length (slot_info (smd s)) then Some (slot_info (smd s) ! unat i) else None)"

definition update_slot :: "u32 \<Rightarrow> (boot_slot_info \<Rightarrow> boot_slot_info) \<Rightarrow> slot_meta_data_v2 \<Rightarrow> slot_meta_data_v2" where
  "update_slot i f s =
     s\<lparr>smd := (smd s)\<lparr>slot_info := (slot_info (smd s))[unat i := f (slot_info (smd s) ! unat i)]\<rparr>\<rparr>"

text \<open>C's \<open>!x\<close> as an index.\<close>

definition c_not :: "'a::len word \<Rightarrow> 'b::len word" where
  "c_not x = (if x = 0 then 1 else 0)"

section \<open>Version and defaults\<close>

definition tegrabl_a_b_get_version :: "slot_meta_data_v2 option \<Rightarrow> u16 option" where
  "tegrabl_a_b_get_version p = map_option (\<lambda>s. smd_version (smd s)) p"

definition tegrabl_a_b_init :: "slot_meta_data_v2 option \<Rightarrow> slot_meta_data_v2 option" where
  "tegrabl_a_b_init p = do {
     s \<leftarrow> p;
     let s = update_slot 0 (\<lambda>i. i\<lparr>priority := 15, retry_count := 7, boot_successful := 1,
               suffix := BOOT_CHAIN_SUFFIX_A\<rparr>) s;
     let s = update_slot 1 (\<lambda>i. i\<lparr>priority := 0, retry_count := 0, boot_successful := 0,
               suffix := BOOT_CHAIN_SUFFIX_B\<rparr>) s;
     Some (s\<lparr>smd := (smd s)\<lparr>smd_magic := BOOT_CHAIN_MAGIC, smd_version := BOOT_CHAIN_VERSION,
               num_slots := 1\<rparr>\<rparr>)
   }"

definition tegrabl_a_b_get_max_num_slots :: "slot_meta_data_v2 option \<Rightarrow> u16 option" where
  "tegrabl_a_b_get_max_num_slots p = map_option (\<lambda>s. num_slots (smd s)) p"

definition tegrabl_a_b_is_valid :: "'m soc_ops \<Rightarrow> slot_meta_data_v2 option \<Rightarrow> 'm \<Rightarrow> bool" where
  "tegrabl_a_b_is_valid soc p m =
     (case p of
        None \<Rightarrow>
          let reg = op_get_boot_slot_reg soc m
          in BOOT_CHAIN_REG_MAGIC_GET reg = BOOT_CHAIN_REG_MAGIC \<and> BOOT_CHAIN_REG_MAX_SLOTS_GET reg > 1
      | Some s \<Rightarrow> smd_magic (smd s) = BOOT_CHAIN_MAGIC \<and> num_slots (smd s) > 1)"

section \<open>Choosing the boot slot\<close>

text \<open>The second component of these results is what the call stores to \<open>*active_slot\<close>,
  \<open>None\<close> when it stores nothing.\<close>

definition boot_chain_get_bootslot_from_reg :: "'m soc_ops \<Rightarrow> 'm \<Rightarrow> tegrabl_error_t \<times> u32 option" where
  "boot_chain_get_bootslot_from_reg soc m =
     (let reg = op_get_boot_slot_reg soc m in
      if \<not> tegrabl_a_b_is_valid soc None m then (AB_ERROR TEGRABL_ERR_NOT_FOUND 0, Some BOOT_SLOT_A)
      else (TEGRABL_NO_ERROR, Some (BOOT_CHAIN_REG_SLOT_NUM_GET reg)))"

text \<open>The loop over the slots: \<open>k\<close> iterations from index \<open>i\<close>, the best priority so far and the
  slot that has it (not assigned before the first bootable slot).\<close>

fun scan_slots :: "slot_meta_data_v2 \<Rightarrow> nat \<Rightarrow> u32 \<Rightarrow> u8 \<Rightarrow> u32 option \<Rightarrow> (u8 \<times> u32 option) option" where
  "scan_slots s 0 i max_priority slot = Some (max_priority, slot)"
| "scan_slots s (Suc k) i max_priority slot = do {
     info \<leftarrow> slot_at s i;
     if retry_count info \<noteq> 0 \<and> priority info \<noteq> 0 \<and> max_priority < priority info
     then scan_slots s k (i + 1) (priority info) (Some i)
     else scan_slots s k (i + 1) max_priority slot
   }"

definition boot_chain_get_bootslot_from_smd ::
  "slot_meta_data_v2 \<Rightarrow> (tegrabl_error_t \<times> u32 option) option"
where
  "boot_chain_get_bootslot_from_smd s =
     (if smd_magic (smd s) \<noteq> BOOT_CHAIN_MAGIC then Some (AB_ERROR TEGRABL_ERR_INVALID 0, None)
      else do {
        (max_priority, slot) \<leftarrow> scan_slots s (unat (num_slots (smd s))) 0 0 None;
        if max_priority = 0 then Some (AB_ERROR TEGRABL_ERR_INVALID 1, None)
        else do {
          slot \<leftarrow> slot;
          Some (TEGRABL_NO_ERROR, Some slot)
        }
      })"

definition tegrabl_a_b_get_active_slot ::
  "'m soc_ops \<Rightarrow> slot_meta_data_v2 option \<Rightarrow> 'm \<Rightarrow> (tegrabl_error_t \<times> u32 option) option"
where
  "tegrabl_a_b_get_active_slot soc p m =
     (case p of
        None \<Rightarrow> Some (boot_chain_get_bootslot_from_reg soc m)
      | Some s \<Rightarrow> boot_chain_get_bootslot_from_smd s)"

section \<open>Retry counts and the boot slot register\<close>

definition tegrabl_a_b_set_retry_count_reg :: "'m soc_ops \<Rightarrow> u32 \<Rightarrow> u8 \<Rightarrow> 'm \<Rightarrow> 'm" where
  "tegrabl_a_b_set_retry_count_reg soc slot cnt m =
     (let reg = op_get_boot_slot_reg soc m;
          reg = (if slot = BOOT_SLOT_A then BOOT_CHAIN_REG_A_RETRY_COUNT_SET (ucast cnt) reg
                 else if slot = BOOT_SLOT_B then BOOT_CHAIN_REG_B_RETRY_COUNT_SET (ucast cnt) reg
                 else reg)
      in op_set_boot_slot_reg soc reg m)"

definition tegrabl_a_b_get_retry_count_reg :: "u32 \<Rightarrow> u32 \<Rightarrow> u8 option" where
  "tegrabl_a_b_get_retry_count_reg slot reg =
     (if slot = BOOT_SLOT_A then Some (ucast (BOOT_CHAIN_REG_A_RETRY_COUNT_GET reg))
      else if slot = BOOT_SLOT_B then Some (ucast (BOOT_CHAIN_REG_B_RETRY_COUNT_GET reg))
      else None)"

definition tegrabl_a_b_copy_retry_count ::
  "slot_meta_data_v2 option \<Rightarrow> u32 \<Rightarrow> u32 \<Rightarrow> (slot_meta_data_v2 \<times> u32) option"
where
  "tegrabl_a_b_copy_retry_count p reg direct = do {
     s \<leftarrow> p;
     if direct = FROM_REG_TO_SMD then do {
       let s = update_slot BOOT_SLOT_A
                 (\<lambda>i. i\<lparr>retry_count := ucast (BOOT_CHAIN_REG_A_RETRY_COUNT_GET reg)\<rparr>) s;
       let s = update_slot BOOT_SLOT_B
                 (\<lambda>i. i\<lparr>retry_count := ucast (BOOT_CHAIN_REG_B_RETRY_COUNT_GET reg)\<rparr>) s;
       Some (s, reg)
     } else if direct = FROM_SMD_TO_REG then do {
       a \<leftarrow> slot_at s BOOT_SLOT_A;
       let reg = BOOT_CHAIN_REG_A_RETRY_COUNT_SET (ucast (retry_count a)) reg;
       b \<leftarrow> slot_at s BOOT_SLOT_B;
       let reg = BOOT_CHAIN_REG_B_RETRY_COUNT_SET (ucast (retry_count b)) reg;
       Some (s, reg)
     } else Some (s, reg)
   }"

definition tegrabl_a_b_save_boot_slot_reg ::
  "'m soc_ops \<Rightarrow> slot_meta_data_v2 option \<Rightarrow> u32 \<Rightarrow> 'm \<Rightarrow> 'm option"
where
  "tegrabl_a_b_save_boot_slot_reg soc p slot m = do {
     s \<leftarrow> p;
     let reg = op_get_boot_slot_reg soc m;
     let reg = BOOT_CHAIN_REG_SLOT_NUM_SET slot reg;
     max_slots \<leftarrow> tegrabl_a_b_get_max_num_slots p;
     let reg = BOOT_CHAIN_REG_MAX_SLOTS_SET (ucast max_slots) reg;
     (s, reg) \<leftarrow> tegrabl_a_b_copy_retry_count (Some s) reg FROM_SMD_TO_REG;
     info \<leftarrow> slot_at s slot;
     let reg = (if boot_successful info = 0 then BOOT_CHAIN_REG_UPDATE_FLAG_SET BC_FLAG_OTA_ON reg
                else if BOOTCTRL_SUPPORT_REDUNDANCY (smd_version (smd s))
                  then BOOT_CHAIN_REG_UPDATE_FLAG_SET BC_FLAG_REDUNDANCY_BOOT reg
                else reg);
     Some (op_set_boot_slot_reg soc reg m)
   }"

definition tegrabl_a_b_init_boot_slot_reg ::
  "'m soc_ops \<Rightarrow> slot_meta_data_v2 option \<Rightarrow> 'm \<Rightarrow> (tegrabl_error_t \<times> 'm) option"
where
  "tegrabl_a_b_init_boot_slot_reg soc p m =
     (let reg = op_get_boot_slot_reg soc m in
      if BOOT_CHAIN_REG_MAGIC_GET reg = BOOT_CHAIN_REG_MAGIC then Some (TEGRABL_NO_ERROR, m)
      else do {
        let reg = BOOT_CHAIN_REG_MAGIC_SET 0;
        let m = op_set_boot_slot_reg soc reg m;
        (err, slot) \<leftarrow> tegrabl_a_b_get_active_slot soc p m;
        if err \<noteq> TEGRABL_NO_ERROR then Some (err, m)
        else do {
          slot \<leftarrow> slot;
          m \<leftarrow> tegrabl_a_b_save_boot_slot_reg soc p slot m;
          Some (err, m)
        }
      })"

definition tegrabl_a_b_check_and_update_retry_count ::
  "slot_meta_data_v2 option \<Rightarrow> u32 \<Rightarrow> (tegrabl_error_t \<times> slot_meta_data_v2) option"
where
  "tegrabl_a_b_check_and_update_retry_count p slot = do {
     s \<leftarrow> p;
     info \<leftarrow> slot_at s slot;
     if BOOTCTRL_SUPPORT_REDUNDANCY (smd_version (smd s)) \<or> boot_successful info = 0
     then do {
       TEGRABL_ASSERT (retry_count info \<noteq> 0);
       Some (TEGRABL_NO_ERROR, update_slot slot (\<lambda>i. i\<lparr>retry_count := retry_count i - 1\<rparr>) s)
     } else Some (TEGRABL_NO_ERROR, s)
   }"

section \<open>Suffixes\<close>

text \<open>The suffix buffer is given by the string it holds afterwards, \<open>None\<close> when it is not written.
  Errors other than "not found" cannot come from the register lookup; the branch is kept.\<close>

definition tegrabl_a_b_get_bootslot_suffix ::
  "'m soc_ops \<Rightarrow> bool \<Rightarrow> 'm \<Rightarrow> (tegrabl_error_t \<times> bytes option) option"
where
  "tegrabl_a_b_get_bootslot_suffix soc full_suffix m = do {
     (err, slot) \<leftarrow> tegrabl_a_b_get_active_slot soc None m;
     if err \<noteq> TEGRABL_NO_ERROR \<and> TEGRABL_ERROR_REASON err \<noteq> TEGRABL_ERR_NOT_FOUND
     then Some (AB_ERROR TEGRABL_ERR_INVALID 0, None)
     else do {
       slot \<leftarrow> slot;
       if \<not> full_suffix \<and> slot = BOOT_SLOT_A then Some (TEGRABL_NO_ERROR, Some [])
       else Some (TEGRABL_NO_ERROR, Some (if slot = BOOT_SLOT_A then BOOT_CHAIN_SUFFIX_A else BOOT_CHAIN_SUFFIX_B))
     }
   }"

definition tegrabl_a_b_set_bootslot_suffix :: "u32 \<Rightarrow> bytes \<Rightarrow> bool \<Rightarrow> tegrabl_error_t \<times> bytes" where
  "tegrabl_a_b_set_bootslot_suffix slot part full_suffix =
     (if \<not> full_suffix \<and> slot = BOOT_SLOT_A then (TEGRABL_NO_ERROR, part)
      else (TEGRABL_NO_ERROR, part @ (if slot = BOOT_SLOT_A then BOOT_CHAIN_SUFFIX_A else BOOT_CHAIN_SUFFIX_B)))"

text \<open>The suffix is a C string: its first character is NUL when the list is empty.\<close>

definition tegrabl_a_b_get_slot_via_suffix :: "bytes \<Rightarrow> tegrabl_error_t \<times> u32 option" where
  "tegrabl_a_b_get_slot_via_suffix suf =
     (if suf = [] \<or> hd suf = of_char CHR ''a'' \<or> suf = BOOT_CHAIN_SUFFIX_A
        then (TEGRABL_NO_ERROR, Some BOOT_SLOT_A)
      else if hd suf = of_char CHR ''b'' \<or> suf = BOOT_CHAIN_SUFFIX_B
        then (TEGRABL_NO_ERROR, Some BOOT_SLOT_B)
      else (AB_ERROR TEGRABL_ERR_INVALID 0, None))"

section \<open>Slot attributes\<close>

text \<open>\<open>out_given\<close> says whether the caller's result pointer is not NULL. The checks against
  \<open>MAX_SLOTS\<close> keep these accesses inside the array.\<close>

definition tegrabl_a_b_get_slot_num :: "slot_meta_data_v2 option \<Rightarrow> bool \<Rightarrow> tegrabl_error_t \<times> u8 option" where
  "tegrabl_a_b_get_slot_num p out_given =
     (case p of
        None \<Rightarrow> (AB_ERROR TEGRABL_ERR_INVALID 0, None)
      | Some s \<Rightarrow> if \<not> out_given then (AB_ERROR TEGRABL_ERR_INVALID 0, None)
                  else (TEGRABL_NO_ERROR, Some (ucast (num_slots (smd s)))))"

definition slot_getter ::
  "(boot_slot_info \<Rightarrow> u8) \<Rightarrow> slot_meta_data_v2 option \<Rightarrow> u32 \<Rightarrow> bool \<Rightarrow> tegrabl_error_t \<times> u8 option"
where
  "slot_getter field p slot out_given =
     (case p of
        None \<Rightarrow> (AB_ERROR TEGRABL_ERR_INVALID 0, None)
      | Some s \<Rightarrow> if slot \<ge> MAX_SLOTS \<or> \<not> out_given then (AB_ERROR TEGRABL_ERR_INVALID 0, None)
                  else (TEGRABL_NO_ERROR, Some (field (slot_info (smd s) ! unat slot))))"

definition tegrabl_a_b_get_successful where
  "tegrabl_a_b_get_successful = slot_getter boot_successful"

definition tegrabl_a_b_get_retry_count where
  "tegrabl_a_b_get_retry_count = slot_getter retry_count"

definition tegrabl_a_b_get_priority where
  "tegrabl_a_b_get_priority = slot_getter priority"

definition tegrabl_a_b_is_unbootable ::
  "slot_meta_data_v2 option \<Rightarrow> u32 \<Rightarrow> bool \<Rightarrow> tegrabl_error_t \<times> bool option"
where
  "tegrabl_a_b_is_unbootable p slot out_given =
     (if p = None \<or> slot \<ge> MAX_SLOTS \<or> \<not> out_given then (AB_ERROR TEGRABL_ERR_INVALID 0, None)
      else
        (case tegrabl_a_b_get_priority p slot True of (error, prio) \<Rightarrow>
           if error \<noteq> TEGRABL_NO_ERROR then (AB_HIGHEST error, None)
           else
             (case tegrabl_a_b_get_retry_count p slot True of (error, cnt) \<Rightarrow>
                if error \<noteq> TEGRABL_NO_ERROR then (AB_HIGHEST error, None)
                else (TEGRABL_NO_ERROR, Some (the prio = 0 \<or> the cnt = 0)))))"

definition slot_setter ::
  "(u8 \<Rightarrow> boot_slot_info \<Rightarrow> boot_slot_info) \<Rightarrow> slot_meta_data_v2 option \<Rightarrow> u32 \<Rightarrow> u8 \<Rightarrow>
   tegrabl_error_t \<times> slot_meta_data_v2 option"
where
  "slot_setter upd p slot v =
     (case p of
        None \<Rightarrow> (AB_ERROR TEGRABL_ERR_INVALID 0, None)
      | Some s \<Rightarrow> if slot \<ge> MAX_SLOTS then (AB_ERROR TEGRABL_ERR_INVALID 0, p)
                  else (TEGRABL_NO_ERROR, Some (update_slot slot (upd v) s)))"

definition tegrabl_a_b_set_successful where
  "tegrabl_a_b_set_successful = slot_setter (\<lambda>v i. i\<lparr>boot_successful := v\<rparr>)"

definition tegrabl_a_b_set_retry_count where
  "tegrabl_a_b_set_retry_count = slot_setter (\<lambda>v i. i\<lparr>retry_count := v\<rparr>)"

definition tegrabl_a_b_set_priority where
  "tegrabl_a_b_set_priority = slot_setter (\<lambda>v i. i\<lparr>priority := v\<rparr>)"

definition tegrabl_get_max_retry_count :: "slot_meta_data_v2 \<Rightarrow> u8" where
  "tegrabl_get_max_retry_count s =
     (let max_bl_retry_count =
            (if BOOT_CHAIN_VERSION_GET (smd_version (smd s)) < BOOT_CHAIN_VERSION_ROOTFS_AB
             then SLOT_RETRY_COUNT_DEFAULT else max_bl_retry_count (smd_ext s))
      in if max_bl_retry_count = 0 \<or> max_bl_retry_count > SLOT_RETRY_COUNT_DEFAULT
         then SLOT_RETRY_COUNT_DEFAULT else max_bl_retry_count)"

definition get_max_rotate_count :: "slot_meta_data_v2 \<Rightarrow> u8" where
  "get_max_rotate_count s =
     (let max_bl_retry_count = tegrabl_get_max_retry_count s
      in if max_bl_retry_count * 2 < ROOTFS_AB_ROTATE_COUNT then max_bl_retry_count * 2
         else ROOTFS_AB_ROTATE_COUNT)"

definition lower_priority :: "boot_slot_info \<Rightarrow> boot_slot_info" where
  "lower_priority i = (if priority i > 1 then i\<lparr>priority := priority i - 1\<rparr> else i)"

definition tegrabl_a_b_set_active_slot ::
  "slot_meta_data_v2 option \<Rightarrow> u32 \<Rightarrow> tegrabl_error_t \<times> slot_meta_data_v2 option"
where
  "tegrabl_a_b_set_active_slot p slot_id =
     (if p = None \<or> slot_id \<ge> MAX_SLOTS then (AB_ERROR TEGRABL_ERR_INVALID 0, p)
      else
        let p = map_option (\<lambda>s. update_slot 1 lower_priority (update_slot 0 lower_priority s)) p
        in (case tegrabl_a_b_set_priority p slot_id SLOT_PRIORITY_DEFAULT of (error, p) \<Rightarrow>
              if error \<noteq> TEGRABL_NO_ERROR then (AB_HIGHEST error, p)
              else
                (case tegrabl_a_b_set_retry_count p slot_id (tegrabl_get_max_retry_count (the p)) of
                   (error, p) \<Rightarrow>
                     if error \<noteq> TEGRABL_NO_ERROR then (AB_HIGHEST error, p)
                     else
                       (case tegrabl_a_b_set_successful p slot_id 0 of (error, p) \<Rightarrow>
                          (if error \<noteq> TEGRABL_NO_ERROR then AB_HIGHEST error else error, p)))))"

section \<open>Root file systems\<close>

definition update_features :: "(features_ext \<Rightarrow> features_ext) \<Rightarrow> slot_meta_data_v2 \<Rightarrow> slot_meta_data_v2" where
  "update_features f s = s\<lparr>smd_ext := (smd_ext s)\<lparr>features := f (features (smd_ext s))\<rparr>\<rparr>"

definition ROOTFS_SELECT :: "slot_meta_data_v2 \<Rightarrow> u8" where
  "ROOTFS_SELECT s = rootfs_select (features (smd_ext s))"

definition tegrabl_get_rootfs_max_retry_count :: "slot_meta_data_v2 \<Rightarrow> u8" where
  "tegrabl_get_rootfs_max_retry_count s =
     (let max_rf_retry_count =
            (if BOOT_CHAIN_VERSION_GET (smd_version (smd s)) < BOOT_CHAIN_VERSION_UNIFY_RF_BL_AB
             then ROOTFS_RETRY_COUNT_DEFAULT
             else GET_MAX_ROOTFS_RETRY_COUNT (rootfs_misc_info (features (smd_ext s))))
      in if max_rf_retry_count > ROOTFS_RETRY_COUNT_DEFAULT \<or> max_rf_retry_count = 0
         then ROOTFS_RETRY_COUNT_DEFAULT else max_rf_retry_count)"

definition tegrabl_a_b_set_active_rootfs ::
  "slot_meta_data_v2 option \<Rightarrow> u8 \<Rightarrow> tegrabl_error_t \<times> slot_meta_data_v2 option"
where
  "tegrabl_a_b_set_active_rootfs p rootfs_id =
     (case p of
        None \<Rightarrow> (AB_ERROR TEGRABL_ERR_INVALID 0, None)
      | Some s \<Rightarrow>
          if rootfs_id \<noteq> ROOTFS_A \<and> rootfs_id \<noteq> ROOTFS_B \<and> rootfs_id \<noteq> ROOTFS_INVALID
          then (AB_ERROR TEGRABL_ERR_INVALID 0, p)
          else
            let s = update_features (\<lambda>f. f\<lparr>rootfs_select := SET_ROOTFS_ACTIVE rootfs_id (rootfs_select f)\<rparr>) s
            in (TEGRABL_NO_ERROR,
                Some (update_features (\<lambda>f. f\<lparr>rootfs_select :=
                  SET_ROOTFS_RETRY_COUNT (tegrabl_get_rootfs_max_retry_count s) (rootfs_select f)\<rparr>) s)))"

definition tegrabl_a_b_get_rootfs_retry_count ::
  "slot_meta_data_v2 option \<Rightarrow> bool \<Rightarrow> tegrabl_error_t \<times> u8 option"
where
  "tegrabl_a_b_get_rootfs_retry_count p out_given =
     (case p of
        None \<Rightarrow> (AB_ERROR TEGRABL_ERR_INVALID 0, None)
      | Some s \<Rightarrow> if \<not> out_given then (AB_ERROR TEGRABL_ERR_INVALID 0, None)
                  else (TEGRABL_NO_ERROR, Some (GET_ROOTFS_RETRY_COUNT (ROOTFS_SELECT s))))"

definition tegrabl_a_b_set_rootfs_retry_count ::
  "slot_meta_data_v2 option \<Rightarrow> u8 \<Rightarrow> tegrabl_error_t \<times> slot_meta_data_v2 option"
where
  "tegrabl_a_b_set_rootfs_retry_count p cnt =
     (case p of
        None \<Rightarrow> (AB_ERROR TEGRABL_ERR_INVALID 0, None)
      | Some s \<Rightarrow>
          if cnt > tegrabl_get_rootfs_max_retry_count s then (AB_ERROR TEGRABL_ERR_INVALID 0, p)
          else (TEGRABL_NO_ERROR,
                Some (update_features (\<lambda>f. f\<lparr>rootfs_select := SET_ROOTFS_RETRY_COUNT cnt (rootfs_select f)\<rparr>) s)))"

definition tegrabl_a_b_get_rootfs_status ::
  "slot_meta_data_v2 option \<Rightarrow> u32 \<Rightarrow> bool \<Rightarrow> tegrabl_error_t \<times> u8 option"
where
  "tegrabl_a_b_get_rootfs_status p slot_id out_given =
     (case p of
        None \<Rightarrow> (AB_ERROR TEGRABL_ERR_INVALID 0, None)
      | Some s \<Rightarrow> if slot_id \<ge> MAX_SLOTS \<or> \<not> out_given then (AB_ERROR TEGRABL_ERR_INVALID 0, None)
                  else (TEGRABL_NO_ERROR, Some (rootfs_status (features (smd_ext s)) ! unat slot_id)))"

definition tegrabl_a_b_set_rootfs_status ::
  "slot_meta_data_v2 option \<Rightarrow> u32 \<Rightarrow> u8 \<Rightarrow> tegrabl_error_t \<times> slot_meta_data_v2 option"
where
  "tegrabl_a_b_set_rootfs_status p slot_id st =
     (case p of
        None \<Rightarrow> (AB_ERROR TEGRABL_ERR_INVALID 0, None)
      | Some s \<Rightarrow>
          if slot_id \<ge> MAX_SLOTS then (AB_ERROR TEGRABL_ERR_INVALID 0, p)
          else if st > ROOTFS_STATUS_END then (AB_ERROR TEGRABL_ERR_INVALID 0, p)
          else (TEGRABL_NO_ERROR,
                Some (update_features (\<lambda>f. f\<lparr>rootfs_status := (rootfs_status f)[unat slot_id := st]\<rparr>) s)))"

definition tegrabl_a_b_init_rootfs_slot_reg ::
  "'m soc_ops \<Rightarrow> slot_meta_data_v2 option \<Rightarrow> 'm \<Rightarrow> (tegrabl_error_t \<times> 'm) option"
where
  "tegrabl_a_b_init_rootfs_slot_reg soc p m = do {
     version \<leftarrow> tegrabl_a_b_get_version p;
     if \<not> BOOTCTRL_SUPPORT_REDUNDANCY_USER version \<and> \<not> BOOTCTRL_SUPPORT_ROOTFS_AB version
     then Some (TEGRABL_NO_ERROR, m)
     else
       let rf_reg = op_get_rootfs_slot_reg soc m in
       if ROOTFS_AB_REG_MAGIC_GET rf_reg = ROOTFS_AB_REG_MAGIC then Some (TEGRABL_NO_ERROR, m)
       else
         let rf_reg = ROOTFS_AB_REG_MAGIC_SET 0;
             rf_reg = (if BOOTCTRL_SUPPORT_ROOTFS_AB version \<and> \<not> BOOTCTRL_SUPPORT_UNIFIED_AB version
                       then ROOTFS_AB_REG_RETRY_COUNT_SET
                              (case snd (tegrabl_a_b_get_rootfs_retry_count p True) of
                                 None \<Rightarrow> 0 | Some cnt \<Rightarrow> ucast cnt) rf_reg
                       else rf_reg)
         in Some (TEGRABL_NO_ERROR, op_set_rootfs_slot_reg soc rf_reg m)
   }"

text \<open>Selecting the root file system works on the SMD buffer and on the retry count in the register;
  the results of the attribute calls are ignored as in the source.\<close>

definition tegrabl_a_b_select_active_rootfs ::
  "'m soc_ops \<Rightarrow> slot_meta_data_v2 option \<Rightarrow> 'm \<Rightarrow>
   (tegrabl_error_t \<times> slot_meta_data_v2 option \<times> 'm) option"
where
  "tegrabl_a_b_select_active_rootfs soc p m =
     (case p of
        None \<Rightarrow> Some (AB_ERROR TEGRABL_ERR_INVALID 0, p, m)
      | Some s \<Rightarrow>
          let version = smd_version (smd s) in
          if \<not> BOOTCTRL_SUPPORT_ROOTFS_AB version \<or> BOOTCTRL_IS_UNIFIED_AB_ENABLED version
          then Some (TEGRABL_NO_ERROR, p, m)
          else
            let rfs_id = GET_ROOTFS_ACTIVE (ROOTFS_SELECT s);
                rf_reg = op_get_rootfs_slot_reg soc m;
                cnt = (ucast (ROOTFS_AB_REG_RETRY_COUNT_GET rf_reg) :: u8)
            in if cnt = 0 then
                 let p = snd (tegrabl_a_b_set_rootfs_status p (ucast rfs_id) ROOTFS_STATUS_BOOT_FAILED);
                     rfs_status = (case snd (tegrabl_a_b_get_rootfs_status p (c_not rfs_id) True) of
                                     None \<Rightarrow> ROOTFS_STATUS_NORMAL | Some st \<Rightarrow> st)
                 in if rfs_status = ROOTFS_STATUS_NORMAL then
                      let p = snd (tegrabl_a_b_set_active_rootfs p (c_not rfs_id));
                          cnt = (case snd (tegrabl_a_b_get_rootfs_retry_count p True) of
                                   None \<Rightarrow> cnt | Some c \<Rightarrow> c)
                      in Some (TEGRABL_NO_ERROR, p,
                           op_set_rootfs_slot_reg soc (ROOTFS_AB_REG_RETRY_COUNT_SET (ucast cnt - 1) rf_reg) m)
                    else Some (TEGRABL_NO_ERROR, snd (tegrabl_a_b_set_active_rootfs p ROOTFS_INVALID), m)
               else Some (TEGRABL_NO_ERROR, p,
                      op_set_rootfs_slot_reg soc (ROOTFS_AB_REG_RETRY_COUNT_SET (ucast cnt - 1) rf_reg) m))"

text \<open>The current root file system and the check for recovery on a given SMD buffer; the versions that
  load the SMD when called with NULL are in \<open>Ab_Smd_Storage\<close>.\<close>

definition current_rootfs_id :: "'m soc_ops \<Rightarrow> slot_meta_data_v2 \<Rightarrow> 'm \<Rightarrow> (tegrabl_error_t \<times> u8 option) option" where
  "current_rootfs_id soc s m =
     (let version = smd_version (smd s) in
      if \<not> BOOTCTRL_SUPPORT_ROOTFS_AB version then Some (AB_ERROR TEGRABL_ERR_INVALID 0, None)
      else if BOOTCTRL_IS_UNIFIED_AB_ENABLED version then do {
        (error, bl_slot) \<leftarrow> tegrabl_a_b_get_active_slot soc (Some s) m;
        if error \<noteq> TEGRABL_NO_ERROR then Some (error, None)
        else do {
          bl_slot \<leftarrow> bl_slot;
          Some (error, Some (ucast bl_slot))
        }
      } else Some (TEGRABL_NO_ERROR, Some (GET_ROOTFS_ACTIVE (ROOTFS_SELECT s))))"

definition rootfs_all_unbootable :: "'m soc_ops \<Rightarrow> slot_meta_data_v2 \<Rightarrow> 'm \<Rightarrow> (bool \<times> 'm) option" where
  "rootfs_all_unbootable soc s m =
     (let version = smd_version (smd s) in
      if BOOTCTRL_IS_UNIFIED_AB_ENABLED version \<or> BOOTCTRL_SUPPORT_REDUNDANCY_USER version then do {
        let rf_reg = op_get_rootfs_slot_reg soc m;
        TEGRABL_ASSERT (ROOTFS_AB_REG_MAGIC_GET rf_reg = ROOTFS_AB_REG_MAGIC);
        let rotate_count = (ucast (ROOTFS_AB_REG_ROTATE_COUNT_GET rf_reg) :: u8);
        if rotate_count \<ge> get_max_rotate_count s
        then Some (True, op_set_rootfs_slot_reg soc (ROOTFS_AB_REG_ROTATE_COUNT_SET 0 rf_reg) m)
        else Some (False, m)
      } else do {
        (err, rootfs_id) \<leftarrow> current_rootfs_id soc s m;
        if err \<noteq> TEGRABL_NO_ERROR then Some (False, m)
        else do {
          rootfs_id \<leftarrow> rootfs_id;
          Some (rootfs_id = ROOTFS_INVALID, m)
        }
      })"

section \<open>Redundancy\<close>

definition check_non_user_redundancy_status ::
  "'m soc_ops \<Rightarrow> u32 \<Rightarrow> slot_meta_data_v2 \<Rightarrow> 'm \<Rightarrow> tegrabl_error_t \<times> 'm"
where
  "check_non_user_redundancy_status soc reg s m =
     (let current_slot = BOOT_CHAIN_REG_SLOT_NUM_GET reg
      in (TEGRABL_NO_ERROR,
          tegrabl_a_b_set_retry_count_reg soc current_slot (tegrabl_get_max_retry_count s) m))"

definition check_rootfs_ab_status ::
  "'m soc_ops \<Rightarrow> u32 \<Rightarrow> slot_meta_data_v2 \<Rightarrow> 'm \<Rightarrow> tegrabl_error_t \<times> 'm"
where
  "check_rootfs_ab_status soc reg s m =
     (let current_slot = BOOT_CHAIN_REG_SLOT_NUM_GET reg
      in (TEGRABL_NO_ERROR,
          tegrabl_a_b_set_retry_count_reg soc current_slot (tegrabl_get_max_retry_count s) m))"

definition check_user_redundancy_status ::
  "'m soc_ops \<Rightarrow> u32 \<Rightarrow> slot_meta_data_v2 \<Rightarrow> 'm \<Rightarrow> (tegrabl_error_t \<times> slot_meta_data_v2 \<times> 'm) option"
where
  "check_user_redundancy_status soc bl_reg s m =
     (let current_slot = BOOT_CHAIN_REG_SLOT_NUM_GET bl_reg;
          m = tegrabl_a_b_set_retry_count_reg soc current_slot (tegrabl_get_max_retry_count s) m;
          bl_reg = op_get_boot_slot_reg soc m;
          (error, slot1_priority) = tegrabl_a_b_get_priority (Some s) current_slot True
      in if error \<noteq> TEGRABL_NO_ERROR then Some (error, s, m)
         else
           let (error, slot2_priority) = tegrabl_a_b_get_priority (Some s) (c_not current_slot) True
           in if error \<noteq> TEGRABL_NO_ERROR then Some (error, s, m)
              else do {
                let rf_reg = op_get_rootfs_slot_reg soc m;
                TEGRABL_ASSERT (ROOTFS_AB_REG_MAGIC_GET rf_reg = ROOTFS_AB_REG_MAGIC);
                let rotate_count = (ucast (ROOTFS_AB_REG_ROTATE_COUNT_GET rf_reg) :: u8) + 1;
                let max_rotate_count = get_max_rotate_count s;
                s \<leftarrow> (if rotate_count = max_rotate_count div 2 \<or> rotate_count = max_rotate_count then do {
                        other \<leftarrow> tegrabl_a_b_get_retry_count_reg (c_not current_slot) bl_reg;
                        if other \<noteq> 0 \<and> the slot1_priority \<noteq> 0 \<and> the slot2_priority \<noteq> 0 then do {
                          TEGRABL_ASSERT (the slot1_priority \<ge> the slot2_priority);
                          let p = snd (tegrabl_a_b_set_priority (Some s) current_slot 14);
                          snd (tegrabl_a_b_set_priority p (c_not current_slot) 15)
                        } else Some s
                      } else Some s);
                Some (TEGRABL_NO_ERROR, s,
                      op_set_rootfs_slot_reg soc (ROOTFS_AB_REG_ROTATE_COUNT_SET (ucast rotate_count) rf_reg) m)
              })"

definition check_redundancy_status ::
  "'m soc_ops \<Rightarrow> u32 \<Rightarrow> slot_meta_data_v2 \<Rightarrow> 'm \<Rightarrow> (tegrabl_error_t \<times> slot_meta_data_v2 \<times> 'm) option"
where
  "check_redundancy_status soc reg s m =
     (let version = smd_version (smd s) in
      if \<not> BOOTCTRL_SUPPORT_REDUNDANCY_USER version \<and> \<not> BOOTCTRL_SUPPORT_ROOTFS_AB version
      then (case check_non_user_redundancy_status soc reg s m of (error, m) \<Rightarrow> Some (error, s, m))
      else if BOOTCTRL_SUPPORT_REDUNDANCY_USER version \<or> BOOTCTRL_IS_UNIFIED_AB_ENABLED version
      then check_user_redundancy_status soc reg s m
      else if BOOTCTRL_SUPPORT_ROOTFS_AB version
      then (case check_rootfs_ab_status soc reg s m of (error, m) \<Rightarrow> Some (error, s, m))
      else Some (AB_ERROR TEGRABL_ERR_INVALID 0, s, m))"

end
