(* ===== verification/Partition_Manager.thy ===== *)
theory Partition_Manager
  imports Gpt Ab_Naming
begin

text \<open>
  The partition manager (\<open>lib/partition_manager/tegrabl_partition_manager.c\<close>): the list of published
  storage devices with their partitions, opening partitions by name, positioned reads and writes,
  erase, asynchronous transfers, publishing and unpublishing devices, and the verification of written
  partitions by CRC (\<open>CONFIG_ENABLE_RECOVERY_VERIFY_WRITE\<close>). A/B slots and GPT are configured in,
  the legacy NVPT publisher is not.

  A partition handle is a record; its pointer to the partition's description is modelled by the
  description, its block device by the device's address in the block device heap. A handle always
  names a live device: an address without a device stands for a dangling pointer and behaves like the
  NULL device of the block device layer. Partition names are the bytes of the character array; two
  names are equal when they agree up to their first NUL.
\<close>

section \<open>Data\<close>

abbreviation PM_ERROR :: "u32 \<Rightarrow> u8 \<Rightarrow> tegrabl_error_t" where
  "PM_ERROR reason aux \<equiv> tegrabl_error_value TEGRABL_ERR_PARTITION_MANAGER aux reason"

abbreviation PM_HIGHEST :: "tegrabl_error_t \<Rightarrow> tegrabl_error_t" where
  "PM_HIGHEST e \<equiv> tegrabl_err_set_highest_module e TEGRABL_ERR_PARTITION_MANAGER"

abbreviation (input) AUX_INFO_PARTITION_LOOKUP_ERR :: u8 where "AUX_INFO_PARTITION_LOOKUP_ERR \<equiv> 20"
abbreviation (input) AUX_INFO_PARTITION_NOT_FOUND :: u8 where "AUX_INFO_PARTITION_NOT_FOUND \<equiv> 22"
abbreviation (input) AUX_INFO_PARTITION_NOT_INIT :: u8 where "AUX_INFO_PARTITION_NOT_INIT \<equiv> 23"

abbreviation (input) TEGRABL_PARTITION_SEEK_SET :: u32 where "TEGRABL_PARTITION_SEEK_SET \<equiv> 0"
abbreviation (input) TEGRABL_PARTITION_SEEK_CUR :: u32 where "TEGRABL_PARTITION_SEEK_CUR \<equiv> 1"
abbreviation (input) TEGRABL_PARTITION_SEEK_END :: u32 where "TEGRABL_PARTITION_SEEK_END \<equiv> 2"

record tegrabl_storage_info =
  si_bdev :: nat
  si_partitions :: "tegrabl_partition_info list"

record tegrabl_partition =
  partition_info :: "tegrabl_partition_info option"
  block_device :: "nat option"
  part_offset :: u64

definition null_partition :: tegrabl_partition where
  "null_partition = \<lparr>partition_info = None, block_device = None, part_offset = 0\<rparr>"

record verify_list_info =
  verify_size :: u64
  verify_crc32 :: u32
  verify_name :: bytes

record 'd pm_state =
  bd :: "'d bd_state"
  storage_list :: "tegrabl_storage_info list option"
  set_verify_flag :: bool
  verify_all_partitions :: bool
  verify_list :: "verify_list_info list"

definition tegrabl_partition_pt_has_3_levels :: "bool \<Rightarrow> tegrabl_error_t" where
  "tegrabl_partition_pt_has_3_levels info_given =
     (if \<not> info_given then PM_ERROR TEGRABL_ERR_BAD_PARAMETER 0
      else PM_ERROR TEGRABL_ERR_NOT_SUPPORTED 0)"

section \<open>Opening partitions\<close>

definition match_partition_name :: "bytes \<Rightarrow> bytes \<Rightarrow> bool" where
  "match_partition_name name1 name = tegrabl_a_b_match_part_name (cstr name1) (cstr name)"

text \<open>The scan both lookups share: storage devices in list order, the partitions of each in order;
  the first match is the result, with its device.\<close>

fun find_partition ::
  "(tegrabl_storage_info \<Rightarrow> bool) \<Rightarrow> (tegrabl_partition_info \<Rightarrow> bool) \<Rightarrow> tegrabl_storage_info list \<Rightarrow>
   (tegrabl_partition_info \<times> nat) option"
where
  "find_partition dev_ok part_ok [] = None"
| "find_partition dev_ok part_ok (entry # entries) =
     (if \<not> dev_ok entry then find_partition dev_ok part_ok entries
      else
        (case find part_ok (si_partitions entry) of
           Some info \<Rightarrow> Some (info, si_bdev entry)
         | None \<Rightarrow> find_partition dev_ok part_ok entries))"

definition opened_partition :: "tegrabl_partition_info \<times> nat \<Rightarrow> tegrabl_partition" where
  "opened_partition r = \<lparr>partition_info = Some (fst r), block_device = Some (snd r), part_offset = 0\<rparr>"

text \<open>A NULL argument leaves the handle as it was.\<close>

definition tegrabl_partition_lookup_bdev ::
  "bytes option \<Rightarrow> tegrabl_partition option \<Rightarrow> nat option \<Rightarrow> 'd pm_state \<Rightarrow>
   tegrabl_error_t \<times> tegrabl_partition option"
where
  "tegrabl_partition_lookup_bdev partition_name part bdev s =
     (case (partition_name, part, bdev) of
        (Some name, Some _, Some dev) \<Rightarrow>
          (case storage_list s of
             None \<Rightarrow> (PM_ERROR TEGRABL_ERR_NOT_INITIALIZED AUX_INFO_PARTITION_NOT_INIT, part)
           | Some entries \<Rightarrow>
               (case find_partition (\<lambda>en. si_bdev en = dev) (\<lambda>p. cstr (part_name p) = cstr name) entries of
                  None \<Rightarrow> (PM_ERROR TEGRABL_ERR_NOT_FOUND AUX_INFO_PARTITION_NOT_FOUND, Some null_partition)
                | Some r \<Rightarrow> (TEGRABL_NO_ERROR, Some (opened_partition r))))
      | _ \<Rightarrow> (PM_ERROR TEGRABL_ERR_INVALID AUX_INFO_PARTITION_LOOKUP_ERR, part))"

definition tegrabl_partition_open ::
  "bytes option \<Rightarrow> tegrabl_partition option \<Rightarrow> 'd pm_state \<Rightarrow> tegrabl_error_t \<times> tegrabl_partition option"
where
  "tegrabl_partition_open partition_name part s =
     (case (partition_name, part) of
        (Some name, Some _) \<Rightarrow>
          (case storage_list s of
             None \<Rightarrow> (PM_ERROR TEGRABL_ERR_NOT_INITIALIZED AUX_INFO_PARTITION_NOT_INIT, part)
           | Some entries \<Rightarrow>
               (case find_partition (\<lambda>_. True) (\<lambda>p. match_partition_name (part_name p) name) entries of
                  None \<Rightarrow> (PM_ERROR TEGRABL_ERR_NOT_FOUND 0, Some null_partition)
                | Some r \<Rightarrow> (TEGRABL_NO_ERROR, Some (opened_partition r))))
      | _ \<Rightarrow> (PM_ERROR TEGRABL_ERR_INVALID 19, part))"

definition tegrabl_partition_size :: "tegrabl_partition option \<Rightarrow> u64" where
  "tegrabl_partition_size part =
     (case Option.bind part partition_info of None \<Rightarrow> 0 | Some info \<Rightarrow> total_size info)"

definition tegrabl_partition_close :: "tegrabl_partition option \<Rightarrow> tegrabl_partition option" where
  "tegrabl_partition_close part = map_option (\<lambda>_. null_partition) part"

section \<open>Reads, writes and erase\<close>

definition dev_log2 :: "nat \<Rightarrow> 'd pm_state \<Rightarrow> u32" where
  "dev_log2 a s = (case dev_heap (bd s) a of None \<Rightarrow> 0 | Some d \<Rightarrow> block_size_log2 d)"

text \<open>The operations below take a non-NULL handle and return it updated; \<open>handle_parts\<close> is the
  check that the handle has been opened.\<close>

definition handle_parts :: "tegrabl_partition \<Rightarrow> (tegrabl_partition_info \<times> nat) option" where
  "handle_parts part =
     (case (partition_info part, block_device part) of
        (Some info, Some a) \<Rightarrow> Some (info, a)
      | _ \<Rightarrow> None)"

definition tegrabl_partition_erase ::
  "tegrabl_partition option \<Rightarrow> bool \<Rightarrow> 'd pm_state \<Rightarrow> tegrabl_error_t \<times> 'd pm_state"
where
  "tegrabl_partition_erase part secure s =
     (case part of
        None \<Rightarrow> (PM_ERROR TEGRABL_ERR_INVALID 1, s)
      | Some p \<Rightarrow>
          (case handle_parts p of
             None \<Rightarrow> (PM_ERROR TEGRABL_ERR_NOT_INITIALIZED 2, s)
           | Some (info, a) \<Rightarrow>
               (case tegrabl_blockdev_erase (Some a) (ucast (start_sector info)) (ucast (num_sectors info))
                       secure (bd s) of
                  (error, b) \<Rightarrow>
                    (if error \<noteq> TEGRABL_NO_ERROR then PM_HIGHEST error else error, s\<lparr>bd := b\<rparr>))))"

definition tegrabl_partition_write ::
  "alloc_env \<Rightarrow> tegrabl_partition \<Rightarrow> u64 \<Rightarrow> bytes \<Rightarrow> u64 \<Rightarrow> 'd pm_state \<Rightarrow>
   (tegrabl_error_t \<times> tegrabl_partition) \<times> 'd pm_state"
where
  "tegrabl_partition_write alloc p buf data num_bytes s =
     (if buf = 0 \<or> num_bytes = 0 then ((PM_ERROR TEGRABL_ERR_INVALID 2, p), s)
      else
        (case handle_parts p of
           None \<Rightarrow> ((PM_ERROR TEGRABL_ERR_NOT_INITIALIZED 3, p), s)
         | Some (info, a) \<Rightarrow>
             if total_size info < num_bytes + part_offset p
             then ((PM_ERROR TEGRABL_ERR_OVERFLOW 0, p), s)
             else
               let offset = part_offset p + push_bit (unat (dev_log2 a s)) (start_sector info)
               in (case tegrabl_blockdev_write alloc (Some a) buf data offset num_bytes (bd s) of
                     (error, b) \<Rightarrow>
                       ((if error \<noteq> TEGRABL_NO_ERROR then PM_HIGHEST error else error,
                         p\<lparr>part_offset := part_offset p + num_bytes\<rparr>), s\<lparr>bd := b\<rparr>))))"

definition tegrabl_partition_start_in_block ::
  "tegrabl_partition option \<Rightarrow> bool \<Rightarrow> tegrabl_error_t \<times> u32 option"
where
  "tegrabl_partition_start_in_block part start_given =
     (case part of
        None \<Rightarrow> (PM_ERROR TEGRABL_ERR_INVALID 3, None)
      | Some p \<Rightarrow>
          if \<not> start_given then (PM_ERROR TEGRABL_ERR_INVALID 3, None)
          else
            (case partition_info p of
               None \<Rightarrow> (PM_ERROR TEGRABL_ERR_NOT_INITIALIZED 4, None)
             | Some info \<Rightarrow> (TEGRABL_NO_ERROR, Some (ucast (start_sector info)))))"

definition tegrabl_partition_read ::
  "alloc_env \<Rightarrow> tegrabl_partition \<Rightarrow> u64 \<Rightarrow> u64 \<Rightarrow> 'd pm_state \<Rightarrow>
   ((tegrabl_error_t \<times> bytes) \<times> tegrabl_partition) \<times> 'd pm_state"
where
  "tegrabl_partition_read alloc p buf num_bytes s =
     (if buf = 0 \<or> num_bytes = 0 then (((PM_ERROR TEGRABL_ERR_INVALID 4, []), p), s)
      else
        (case handle_parts p of
           None \<Rightarrow> (((PM_ERROR TEGRABL_ERR_NOT_INITIALIZED 4, []), p), s)
         | Some (info, a) \<Rightarrow>
             if total_size info < num_bytes + part_offset p
             then (((PM_ERROR TEGRABL_ERR_OVERFLOW 1, []), p), s)
             else
               let offset = part_offset p + push_bit (unat (dev_log2 a s)) (start_sector info)
               in (case tegrabl_blockdev_read alloc (Some a) buf offset num_bytes (bd s) of
                     ((error, data), b) \<Rightarrow>
                       if error \<noteq> TEGRABL_NO_ERROR
                       then (((PM_HIGHEST error, data), p), s\<lparr>bd := b\<rparr>)
                       else (((error, data), p\<lparr>part_offset := part_offset p + num_bytes\<rparr>), s\<lparr>bd := b\<rparr>))))"

text \<open>Seeking computes in signed 64-bit integers.\<close>

definition tegrabl_partition_seek ::
  "tegrabl_partition option \<Rightarrow> u64 \<Rightarrow> u32 \<Rightarrow> tegrabl_error_t \<times> tegrabl_partition option"
where
  "tegrabl_partition_seek part offset origin =
     (case part of
        None \<Rightarrow> (PM_ERROR TEGRABL_ERR_INVALID 5, None)
      | Some p \<Rightarrow>
          (case handle_parts p of
             None \<Rightarrow> (PM_ERROR TEGRABL_ERR_NOT_INITIALIZED 5, part)
           | Some (info, a) \<Rightarrow>
               let base = (if origin = TEGRABL_PARTITION_SEEK_SET then Some 0
                           else if origin = TEGRABL_PARTITION_SEEK_CUR then Some (part_offset p)
                           else if origin = TEGRABL_PARTITION_SEEK_END then Some (total_size info)
                           else None)
               in (case base of
                     None \<Rightarrow> (PM_ERROR TEGRABL_ERR_INVALID 6, part)
                   | Some b \<Rightarrow>
                       let new_offset = b + offset
                       in if sint new_offset < 0 then (PM_ERROR TEGRABL_ERR_UNDERFLOW 0, part)
                          else if total_size info < new_offset
                            then (PM_ERROR TEGRABL_ERR_OVERFLOW 2, part)
                          else (TEGRABL_NO_ERROR, Some (p\<lparr>part_offset := new_offset\<rparr>)))))"

definition tegrabl_partition_tell :: "tegrabl_partition option \<Rightarrow> int" where
  "tegrabl_partition_tell part =
     (case Option.bind part handle_parts of
        None \<Rightarrow> -1
      | Some _ \<Rightarrow> sint (part_offset (the part)))"

section \<open>Asynchronous transfers\<close>

text \<open>The two operations differ in their error codes only: both set the transfer type to a read.
  \<open>aux\<close> is the first of the four auxiliary codes of each.\<close>

definition partition_async ::
  "u8 \<Rightarrow> bool \<Rightarrow> tegrabl_partition option \<Rightarrow> u64 \<Rightarrow> u64 \<Rightarrow> u64 \<Rightarrow> 'd pm_state \<Rightarrow>
   (tegrabl_error_t \<times> xfer_info option) \<times> 'd pm_state"
where
  "partition_async aux malloc_ok part buf sector count s =
     (if part = None \<or> buf = 0 \<or> count = 0 then ((PM_ERROR TEGRABL_ERR_INVALID aux, None), s)
      else
        (case handle_parts (the part) of
           None \<Rightarrow> ((PM_ERROR TEGRABL_ERR_INVALID (aux + 1), None), s)
         | Some (info, a) \<Rightarrow>
             if num_sectors info < sector + count then ((PM_ERROR TEGRABL_ERR_INVALID (aux + 2), None), s)
             else if \<not> malloc_ok then ((PM_ERROR TEGRABL_ERR_INVALID (aux + 3), None), s)
             else
               let xfer = \<lparr>xfer_dev = Some a, xfer_type = TEGRABL_BLOCKDEV_READ, xfer_buf = buf,
                           start_block = ucast (start_sector info + sector),
                           xfer_block_count = ucast count, is_non_blocking = True, xfer_id_field = 0\<rparr>
               in (case tegrabl_blockdev_xfer xfer (bd s) of
                     ((err, xfer), b) \<Rightarrow> ((err, Some xfer), s\<lparr>bd := b\<rparr>))))"

definition tegrabl_partition_async_read where
  "tegrabl_partition_async_read = partition_async 7"

definition tegrabl_partition_async_write where
  "tegrabl_partition_async_write = partition_async 11"

section \<open>Publishing\<close>

definition set_published :: "nat \<Rightarrow> bool \<Rightarrow> 'd pm_state \<Rightarrow> 'd pm_state" where
  "set_published a v s =
     (case dev_heap (bd s) a of
        None \<Rightarrow> s
      | Some d \<Rightarrow> s\<lparr>bd := dev_update a (d\<lparr>published := v\<rparr>) (bd s)\<rparr>)"

text \<open>One publisher is configured, the GPT reader; a failure of the last publisher is reported as
  "not supported". \<open>malloc_parts\<close> and \<open>malloc_info\<close> say whether the two allocations succeed.\<close>

definition tegrabl_partition_publish ::
  "alloc_env \<Rightarrow> bool \<Rightarrow> bool \<Rightarrow> nat option \<Rightarrow> off_t \<Rightarrow> 'd pm_state \<Rightarrow> tegrabl_error_t \<times> 'd pm_state"
where
  "tegrabl_partition_publish alloc malloc_parts malloc_info dev offset s =
     (case dev of
        None \<Rightarrow> (PM_ERROR TEGRABL_ERR_INVALID 15, s)
      | Some a \<Rightarrow>
          (case dev_heap (bd s) a of
             None \<Rightarrow> (PM_ERROR TEGRABL_ERR_INVALID 15, s)
           | Some d \<Rightarrow>
               if published d then (TEGRABL_NO_ERROR, s)
               else
                 (case tegrabl_gpt_publish alloc malloc_parts d offset of ((error, partitions), d) \<Rightarrow>
                    let s = s\<lparr>bd := dev_update a d (bd s)\<rparr>
                    in if error \<noteq> TEGRABL_NO_ERROR
                       then (PM_ERROR TEGRABL_ERR_NOT_SUPPORTED 0, set_published a False s)
                       else if \<not> malloc_info then (PM_ERROR TEGRABL_ERR_NO_MEMORY 0, s)
                       else
                         let info = \<lparr>si_bdev = a, si_partitions = partitions\<rparr>
                         in (TEGRABL_NO_ERROR,
                             set_published a True
                               (s\<lparr>storage_list := map_option (Cons info) (storage_list s)\<rparr>)))))"

fun remove_storage :: "(nat \<Rightarrow> bool) \<Rightarrow> tegrabl_storage_info list \<Rightarrow> tegrabl_storage_info list" where
  "remove_storage same [] = []"
| "remove_storage same (en # ens) = (if same (si_bdev en) then ens else en # remove_storage same ens)"

definition tegrabl_partitions_unpublish :: "nat option \<Rightarrow> 'd pm_state \<Rightarrow> tegrabl_error_t \<times> 'd pm_state" where
  "tegrabl_partitions_unpublish dev s =
     (case dev of
        None \<Rightarrow> (PM_ERROR TEGRABL_ERR_INVALID 16, s)
      | Some a \<Rightarrow>
          (case dev_heap (bd s) a of
             None \<Rightarrow> (PM_ERROR TEGRABL_ERR_INVALID 16, s)
           | Some d \<Rightarrow>
               if \<not> published d then (TEGRABL_NO_ERROR, s)
               else
                 (case storage_list s of
                    None \<Rightarrow> (PM_ERROR TEGRABL_ERR_NOT_INITIALIZED 0, s)
                  | Some entries \<Rightarrow>
                      let same = (\<lambda>b. map_option device_id (dev_heap (bd s) b) = Some (device_id d))
                      in (TEGRABL_NO_ERROR,
                          set_published a False (s\<lparr>storage_list := Some (remove_storage same entries)\<rparr>)))))"

text \<open>The loops over all devices: \<open>tegrabl_blockdev_next_device\<close> walks the registered devices in
  order.\<close>

definition tegrabl_partition_manager_init ::
  "alloc_env \<Rightarrow> bool \<Rightarrow> 'd pm_state \<Rightarrow> tegrabl_error_t \<times> 'd pm_state"
where
  "tegrabl_partition_manager_init alloc malloc_ok s =
     (if \<not> malloc_ok then (PM_ERROR TEGRABL_ERR_NO_MEMORY 1, s\<lparr>storage_list := None\<rparr>)
      else
        let publish = (\<lambda>s a.
              if tegrabl_blockdev_get_storage_type (dev_heap (bd s) a) \<noteq> TEGRABL_STORAGE_SDMMC_RPMB
              then snd (tegrabl_partition_publish alloc True True (Some a) 0 s) else s);
            s = foldl publish (s\<lparr>storage_list := Some []\<rparr>) (registered (bd s))
        in (TEGRABL_NO_ERROR, s\<lparr>verify_list := []\<rparr>))"

definition tegrabl_partition_manager_flush_cache :: "'d pm_state \<Rightarrow> 'd pm_state" where
  "tegrabl_partition_manager_flush_cache s =
     foldl (\<lambda>s a. s\<lparr>bd := snd (tegrabl_blockdev_ioctl (Some a) TEGRABL_IOCTL_DEVICE_CACHE_FLUSH True (bd s))\<rparr>)
       s (registered (bd s))"

section \<open>Verifying written partitions\<close>

abbreviation (input) READ_BUFFER_SIZE :: u64 where "READ_BUFFER_SIZE \<equiv> 10485760"

lemma verify_chunk_decreases:
  assumes "sz \<noteq> 0"
  shows "unat (sz - min READ_BUFFER_SIZE sz) < unat sz"
proof -
  have pos: "0 < unat sz" using assms by (simp add: word_unat_eq_iff)
  moreover have "0 < unat (min READ_BUFFER_SIZE sz)"
    using pos by (simp add: unat_min)
  moreover have "unat (sz - min READ_BUFFER_SIZE sz) = unat sz - unat (min READ_BUFFER_SIZE sz)"
    by (rule unat_diff) simp
  ultimately show ?thesis by linarith
qed

function verify_loop ::
  "alloc_env \<Rightarrow> u64 \<Rightarrow> u64 \<Rightarrow> u32 \<Rightarrow> tegrabl_partition \<Rightarrow> 'd pm_state \<Rightarrow>
   (tegrabl_error_t \<times> u32) \<times> 'd pm_state"
where
  "verify_loop alloc buffer sz crc p s =
     (if sz = 0 then ((TEGRABL_NO_ERROR, crc), s)
      else
        let chunk_size = min READ_BUFFER_SIZE sz
        in (case tegrabl_partition_read alloc p buffer chunk_size s of (((error, data), p), s) \<Rightarrow>
              if error \<noteq> TEGRABL_NO_ERROR then ((error, crc), s)
              else verify_loop alloc buffer (sz - chunk_size) (tegrabl_utils_crc32 crc data) p s))"
  by pat_completeness auto
termination
  by (relation "measure (\<lambda>(alloc, buffer, sz, crc, p, s). unat sz)") (auto dest: verify_chunk_decreases)

declare verify_loop.simps [simp del]

definition read_verify_partition ::
  "alloc_env \<Rightarrow> tegrabl_partition \<Rightarrow> verify_list_info \<Rightarrow> u64 \<Rightarrow> 'd pm_state \<Rightarrow> tegrabl_error_t \<times> 'd pm_state"
where
  "read_verify_partition alloc part verify_info buffer s =
     (case tegrabl_partition_seek (Some part) (part_offset part) TEGRABL_PARTITION_SEEK_SET of
        (error, p) \<Rightarrow>
          if error \<noteq> TEGRABL_NO_ERROR then (error, s)
          else
            (case verify_loop alloc buffer (verify_size verify_info) 0 (the p) s of
               ((error, crc), s) \<Rightarrow>
                 if error \<noteq> TEGRABL_NO_ERROR then (error, s)
                 else (if verify_crc32 verify_info = crc then TEGRABL_NO_ERROR
                       else TEGRABL_ERR_VERIFY_FAILED, s)))"

text \<open>One pass over the list: state, the last error and whether some CRC differed. The loop stops at
  a partition that cannot be opened, which stays on the list with the entries after it.\<close>

fun verify_entries ::
  "alloc_env \<Rightarrow> u64 \<Rightarrow> verify_list_info list \<Rightarrow> tegrabl_error_t \<Rightarrow> bool \<Rightarrow> 'd pm_state \<Rightarrow>
   (tegrabl_error_t \<times> bool \<times> verify_list_info list) \<times> 'd pm_state"
where
  "verify_entries alloc buffer [] error failed s = ((error, failed, []), s)"
| "verify_entries alloc buffer (en # ens) error failed s =
     (case tegrabl_partition_open (Some (verify_name en)) (Some null_partition) s of (error, p) \<Rightarrow>
        if error \<noteq> TEGRABL_NO_ERROR then ((error, failed, en # ens), s)
        else
          (case (if verify_crc32 en \<noteq> 0 then read_verify_partition alloc (the p) en buffer s
                 else (PM_ERROR TEGRABL_ERR_INVALID 18, s)) of
             (error, s) \<Rightarrow>
               verify_entries alloc buffer ens error (failed \<or> error = TEGRABL_ERR_VERIFY_FAILED) s))"

definition tegrabl_partition_verify_write ::
  "alloc_env \<Rightarrow> 'd pm_state \<Rightarrow> tegrabl_error_t \<times> 'd pm_state"
where
  "tegrabl_partition_verify_write alloc s =
     (if verify_list s = [] then (PM_ERROR TEGRABL_ERR_INVALID 17, s)
      else
        (case alloc 3 4096 READ_BUFFER_SIZE of
           None \<Rightarrow> (PM_ERROR TEGRABL_ERR_NO_MEMORY 0, s)
         | Some buffer \<Rightarrow>
             (case verify_entries alloc buffer (verify_list s) TEGRABL_NO_ERROR False s of
                ((error, failed, rest), s) \<Rightarrow>
                  (if failed then TEGRABL_ERR_VERIFY_FAILED else error, s\<lparr>verify_list := rest\<rparr>))))"

definition tegrabl_partition_add_verify_node ::
  "bool \<Rightarrow> bytes \<Rightarrow> 'd pm_state \<Rightarrow> tegrabl_error_t \<times> 'd pm_state"
where
  "tegrabl_partition_add_verify_node malloc_ok name s =
     (if \<exists>en \<in> set (verify_list s). cstr (verify_name en) = cstr name then (TEGRABL_NO_ERROR, s)
      else if \<not> malloc_ok then (PM_ERROR TEGRABL_ERR_NO_MEMORY 0, s)
      else (TEGRABL_NO_ERROR,
            s\<lparr>verify_list := \<lparr>verify_size = 0, verify_crc32 = 0, verify_name = name\<rparr> # verify_list s\<rparr>))"

text \<open>When no entry has the partition's name the scan ends at the list head, and the source writes to
  (or unlinks) the head as if it were an entry: \<open>None\<close>.\<close>

definition tegrabl_partition_set_crc ::
  "bytes \<Rightarrow> u32 \<Rightarrow> u32 \<Rightarrow> bool \<Rightarrow> 'd pm_state \<Rightarrow> (tegrabl_error_t \<times> 'd pm_state) option"
where
  "tegrabl_partition_set_crc name crc sz is_sparse s =
     (case List.extract (\<lambda>en. cstr (verify_name en) = cstr name) (verify_list s) of
        None \<Rightarrow> None
      | Some (before, en, after) \<Rightarrow>
          if is_sparse then Some (TEGRABL_NO_ERROR, s\<lparr>verify_list := before @ after\<rparr>)
          else Some (TEGRABL_NO_ERROR,
                     s\<lparr>verify_list :=
                         before @ en\<lparr>verify_size := ucast sz, verify_crc32 := crc\<rparr> # after\<rparr>))"

definition tegrabl_partition_is_verify_enabled ::
  "bool \<Rightarrow> bytes \<Rightarrow> 'd pm_state \<Rightarrow> bool \<times> 'd pm_state"
where
  "tegrabl_partition_is_verify_enabled malloc_ok name s =
     (if \<not> set_verify_flag s then (False, s)
      else if verify_all_partitions s then
        (case tegrabl_partition_add_verify_node malloc_ok name s of (error, s) \<Rightarrow>
           (error = TEGRABL_NO_ERROR, s))
      else (\<exists>en \<in> set (verify_list s). cstr (verify_name en) = cstr name, s))"

definition tegrabl_partition_verify_enable ::
  "bool \<Rightarrow> bytes \<Rightarrow> 'd pm_state \<Rightarrow> tegrabl_error_t \<times> 'd pm_state"
where
  "tegrabl_partition_verify_enable malloc_ok name s =
     (if cstr name = c_lit ''all''
      then (TEGRABL_NO_ERROR, s\<lparr>verify_all_partitions := True, set_verify_flag := True\<rparr>)
      else
        (case tegrabl_partition_add_verify_node malloc_ok name s of (error, s) \<Rightarrow>
           if error = TEGRABL_NO_ERROR then (error, s\<lparr>set_verify_flag := True\<rparr>) else (error, s)))"

end
