(* ===== verification/Ab_Smd_Storage.thy ===== *)
theory Ab_Smd_Storage
  imports Ab_Boot_Control Partition_Manager
begin

text \<open>
  Loading and storing the slot metadata (\<open>lib/a_b_boot/tegrabl_a_b_boot_control.c\<close>, from
  \<open>load_smd_bin_copy\<close> on), on top of the partition manager. The two copies live in the partitions
  \<open>SMD\<close> and \<open>SMD_b\<close>.

  The state holds the file's three static variables: which copy is current, the SMD buffer with its
  address (\<open>None\<close> for a NULL \<open>smd_loadaddress\<close>) and the backup buffer. The buffers are decoded; a
  failed load leaves the previous contents, which nothing reads: the buffer is filled by the second
  copy or freed. \<open>tegrabl_a_b_get_smd\<close> hands out the buffer's address, so callers' changes are
  changes of \<open>smd_loadaddress\<close>. QSPI support is configured in.
\<close>

abbreviation (input) SMD_COPY_PRIMARY :: u32 where "SMD_COPY_PRIMARY \<equiv> 0"
abbreviation (input) SMD_COPY_SECONDARY :: u32 where "SMD_COPY_SECONDARY \<equiv> 1"
abbreviation (input) SMD_INVALID :: u32 where "SMD_INVALID \<equiv> 2"

record ('d, 'm) ab_state =
  ab_pm :: "'d pm_state"
  ab_soc :: 'm
  current_smd :: u32
  smd_loadaddress :: "(u64 \<times> slot_meta_data_v2) option"
  smd_backup :: "slot_meta_data_v2 option"

definition smd_part_name :: "u32 \<Rightarrow> bytes" where
  "smd_part_name bin_copy = (if bin_copy = SMD_COPY_PRIMARY then c_lit ''SMD'' else c_lit ''SMD_b'')"

text \<open>The checks on a loaded image: magic for version 1, else the CRC; the extension's CRC from
  version 4 on.\<close>

definition smd_crc :: "slot_meta_data_v2 \<Rightarrow> u32" where
  "smd_crc s = tegrabl_utils_crc32 0 (take (sizeof_smd - 4) (enc_smd (smd s)))"

definition smd_ext_crc :: "slot_meta_data_v2 \<Rightarrow> u32" where
  "smd_ext_crc s = tegrabl_utils_crc32 0 (drop 4 (enc_ext (smd_ext s)))"

definition smd_sane :: "slot_meta_data_v2 \<Rightarrow> bool" where
  "smd_sane s \<longleftrightarrow>
     (let version = BOOT_CHAIN_VERSION_GET (smd_version (smd s)) in
      (if version = BOOT_CHAIN_VERSION_ONE then smd_magic (smd s) = BOOT_CHAIN_MAGIC
       else smd_crc s = smd_crc32 (smd s)) \<and>
      (version \<ge> BOOT_CHAIN_VERSION_ROOTFS_AB \<longrightarrow> smd_ext_crc s = ext_crc32 (smd_ext s)))"

text \<open>\<open>addr\<close> is the address of the SMD buffer. The result also holds the buffer when it was read
  and verified.\<close>

definition load_smd_bin_copy ::
  "alloc_env \<Rightarrow> u64 \<Rightarrow> u32 \<Rightarrow> ('d, 'm) ab_state \<Rightarrow>
   (tegrabl_error_t \<times> slot_meta_data_v2 option) \<times> ('d, 'm) ab_state"
where
  "load_smd_bin_copy alloc addr bin_copy st =
     (let st = st\<lparr>current_smd := SMD_INVALID\<rparr> in
      case tegrabl_partition_open (Some (smd_part_name bin_copy)) (Some null_partition) (ab_pm st) of
        (error, part) \<Rightarrow>
          if error \<noteq> TEGRABL_NO_ERROR then ((AB_HIGHEST error, None), st)
          else
            (case tegrabl_partition_seek part 0 TEGRABL_PARTITION_SEEK_SET of (error, part) \<Rightarrow>
               if error \<noteq> TEGRABL_NO_ERROR then ((AB_HIGHEST error, None), st)
               else
                 (case tegrabl_partition_read alloc (the part) addr (of_nat sizeof_smd_v2) (ab_pm st) of
                    (((error, data), part), pm) \<Rightarrow>
                      let st = st\<lparr>ab_pm := pm\<rparr> in
                      if error \<noteq> TEGRABL_NO_ERROR then ((AB_HIGHEST error, None), st)
                      else
                        let s = dec_smd_v2 data in
                        if smd_sane s then ((TEGRABL_NO_ERROR, Some s), st\<lparr>current_smd := bin_copy\<rparr>)
                        else ((AB_ERROR TEGRABL_ERR_VERIFY_FAILED 0, None), st))))"

text \<open>The allocation sites are 4 for the buffer and 5 for the backup; \<open>None\<close> is a failed
  assertion.\<close>

definition init_loaded_smd ::
  "'m soc_ops \<Rightarrow> u64 \<Rightarrow> slot_meta_data_v2 \<Rightarrow> ('d, 'm) ab_state \<Rightarrow>
   ((tegrabl_error_t \<times> slot_meta_data_v2 option) \<times> ('d, 'm) ab_state) option"
where
  "init_loaded_smd soc addr s st = do {
     let st = st\<lparr>smd_backup := Some s\<rparr>;
     (_, m) \<leftarrow> tegrabl_a_b_init_rootfs_slot_reg soc (Some s) (ab_soc st);
     (_, p, m) \<leftarrow> tegrabl_a_b_select_active_rootfs soc (Some s) m;
     s \<leftarrow> p;
     Some ((TEGRABL_NO_ERROR, Some s), st\<lparr>ab_soc := m, smd_loadaddress := Some (addr, s)\<rparr>)
   }"

definition tegrabl_a_b_get_smd ::
  "'m soc_ops \<Rightarrow> alloc_env \<Rightarrow> ('d, 'm) ab_state \<Rightarrow>
   ((tegrabl_error_t \<times> slot_meta_data_v2 option) \<times> ('d, 'm) ab_state) option"
where
  "tegrabl_a_b_get_smd soc alloc st =
     (case smd_loadaddress st of
        Some (addr, s) \<Rightarrow> Some ((TEGRABL_NO_ERROR, Some s), st)
      | None \<Rightarrow>
          (case alloc 4 0 (of_nat sizeof_smd_v2) of
             None \<Rightarrow> Some ((AB_ERROR TEGRABL_ERR_NO_MEMORY 0, None), st)
           | Some addr \<Rightarrow>
               (case alloc 5 0 (of_nat sizeof_smd_v2) of
                  None \<Rightarrow> Some ((AB_ERROR TEGRABL_ERR_NO_MEMORY 0, None), st\<lparr>smd_backup := None\<rparr>)
                | Some _ \<Rightarrow>
                    (case load_smd_bin_copy alloc addr SMD_COPY_PRIMARY st of
                       ((error, s), st) \<Rightarrow>
                         if error = TEGRABL_NO_ERROR then init_loaded_smd soc addr (the s) st
                         else
                           (case load_smd_bin_copy alloc addr SMD_COPY_SECONDARY st of
                              ((error, s), st) \<Rightarrow>
                                if error = TEGRABL_NO_ERROR then init_loaded_smd soc addr (the s) st
                                else Some ((error, None), st\<lparr>smd_loadaddress := None, smd_backup := None\<rparr>))))))"

definition flush_smd_bin_copy ::
  "alloc_env \<Rightarrow> u64 \<Rightarrow> slot_meta_data_v2 \<Rightarrow> u32 \<Rightarrow> 'd pm_state \<Rightarrow> tegrabl_error_t \<times> 'd pm_state"
where
  "flush_smd_bin_copy alloc addr s bin_copy pm =
     (case tegrabl_partition_open (Some (smd_part_name bin_copy)) (Some null_partition) pm of
        (error, part) \<Rightarrow>
          if error \<noteq> TEGRABL_NO_ERROR then (AB_HIGHEST error, pm)
          else
            let qspi = (tegrabl_blockdev_get_storage_type
                          (Option.bind (block_device (the part)) (dev_heap (bd pm))) = TEGRABL_STORAGE_QSPI_FLASH)
            in (case (if qspi then tegrabl_partition_erase part False pm else (TEGRABL_NO_ERROR, pm)) of
                  (error, pm) \<Rightarrow>
                    if error \<noteq> TEGRABL_NO_ERROR then (AB_HIGHEST error, pm)
                    else
                      (case tegrabl_partition_seek part 0 TEGRABL_PARTITION_SEEK_SET of (error, part) \<Rightarrow>
                         if error \<noteq> TEGRABL_NO_ERROR then (AB_HIGHEST error, pm)
                         else
                           (case tegrabl_partition_write alloc (the part) addr (enc_smd_v2 s)
                                   (of_nat sizeof_smd_v2) pm of
                              ((error, part), pm) \<Rightarrow>
                                (if error \<noteq> TEGRABL_NO_ERROR then AB_HIGHEST error else error, pm)))))"

definition seal_smd :: "slot_meta_data_v2 \<Rightarrow> slot_meta_data_v2" where
  "seal_smd s =
     (let s = s\<lparr>smd := (smd s)\<lparr>smd_crc32 := smd_crc s\<rparr>\<rparr>
      in if BOOT_CHAIN_VERSION_GET (smd_version (smd s)) \<ge> BOOT_CHAIN_VERSION_ROOTFS_AB
         then s\<lparr>smd_ext := (smd_ext s)\<lparr>ext_crc32 := smd_ext_crc s\<rparr>\<rparr> else s)"

text \<open>The two copies in the order they are written: the one that is not current first.\<close>

definition tegrabl_a_b_flush_smd ::
  "alloc_env \<Rightarrow> u64 \<Rightarrow> slot_meta_data_v2 option \<Rightarrow> u32 \<Rightarrow> 'd pm_state \<Rightarrow>
   (tegrabl_error_t \<times> slot_meta_data_v2 option) \<times> 'd pm_state"
where
  "tegrabl_a_b_flush_smd alloc addr p current pm =
     (case p of
        None \<Rightarrow> ((AB_ERROR TEGRABL_ERR_INVALID 0, None), pm)
      | Some s \<Rightarrow>
          let s = seal_smd s;
              bin_copy = (if current = SMD_COPY_PRIMARY then SMD_COPY_SECONDARY else SMD_COPY_PRIMARY)
          in (case flush_smd_bin_copy alloc addr s bin_copy pm of (error, pm) \<Rightarrow>
                if error \<noteq> TEGRABL_NO_ERROR then ((error, Some s), pm)
                else
                  let bin_copy = (if current = SMD_COPY_PRIMARY then SMD_COPY_PRIMARY else SMD_COPY_SECONDARY)
                  in (case flush_smd_bin_copy alloc addr s bin_copy pm of (error, pm) \<Rightarrow>
                        ((error, Some s), pm))))"

text \<open>The end of \<open>tegrabl_a_b_update_smd\<close>: \<open>reg\<close> is the register as it was read last.\<close>

definition update_smd_done ::
  "'m soc_ops \<Rightarrow> u32 \<Rightarrow> tegrabl_error_t \<Rightarrow> ('d, 'm) ab_state \<Rightarrow> tegrabl_error_t \<times> ('d, 'm) ab_state"
where
  "update_smd_done soc reg error st =
     (let st = (if BOOT_CHAIN_REG_MAGIC_GET reg = BOOT_CHAIN_REG_MAGIC
                then st\<lparr>ab_soc := op_set_boot_slot_reg soc 0 (ab_soc st)\<rparr> else st)
      in (if error \<noteq> TEGRABL_NO_ERROR then AB_HIGHEST error else error, st))"

definition tegrabl_a_b_update_smd ::
  "'m soc_ops \<Rightarrow> alloc_env \<Rightarrow> ('d, 'm) ab_state \<Rightarrow> (tegrabl_error_t \<times> ('d, 'm) ab_state) option"
where
  "tegrabl_a_b_update_smd soc alloc st =
     (let reg = op_get_boot_slot_reg soc (ab_soc st);
          bc_flag = BOOT_CHAIN_REG_UPDATE_FLAG_GET reg
      in do {
        ((error, p), st) \<leftarrow> tegrabl_a_b_get_smd soc alloc st;
        if error \<noteq> TEGRABL_NO_ERROR then Some (update_smd_done soc reg (AB_HIGHEST error) st)
        else do {
          s \<leftarrow> p;
          let addr = fst (the (smd_loadaddress st));
          if BOOT_CHAIN_REG_MAGIC_GET reg = BOOT_CHAIN_REG_MAGIC \<and>
             (bc_flag = BC_FLAG_OTA_ON \<or> bc_flag = BC_FLAG_REDUNDANCY_BOOT)
          then do {
            (error, s, m) \<leftarrow>
              (if bc_flag = BC_FLAG_REDUNDANCY_BOOT \<and> BOOTCTRL_SUPPORT_REDUNDANCY (smd_version (smd s))
               then check_redundancy_status soc reg s (ab_soc st)
               else Some (TEGRABL_NO_ERROR, s, ab_soc st));
            let st = st\<lparr>ab_soc := m, smd_loadaddress := Some (addr, s)\<rparr>;
            if error \<noteq> TEGRABL_NO_ERROR then Some (update_smd_done soc reg error st)
            else do {
              let reg = op_get_boot_slot_reg soc m;
              (s, reg) \<leftarrow> tegrabl_a_b_copy_retry_count (Some s) reg FROM_REG_TO_SMD;
              let st = st\<lparr>smd_loadaddress := Some (addr, s)\<rparr>;
              if Some (enc_smd_v2 s) \<noteq> map_option enc_smd_v2 (smd_backup st)
              then
                (case tegrabl_a_b_flush_smd alloc addr (Some s) (current_smd st) (ab_pm st) of
                   ((error, p), pm) \<Rightarrow>
                     let st = st\<lparr>ab_pm := pm, smd_loadaddress := Some (addr, the p)\<rparr>
                     in Some (update_smd_done soc reg
                          (if error \<noteq> TEGRABL_NO_ERROR then AB_HIGHEST error else error) st))
              else Some (update_smd_done soc reg TEGRABL_NO_ERROR st)
            }
          } else Some (update_smd_done soc reg TEGRABL_NO_ERROR st)
        }
      })"

section \<open>Operations that load the SMD when called with NULL\<close>

definition tegrabl_a_b_get_current_rootfs_id ::
  "'m soc_ops \<Rightarrow> alloc_env \<Rightarrow> slot_meta_data_v2 option \<Rightarrow> bool \<Rightarrow> ('d, 'm) ab_state \<Rightarrow>
   ((tegrabl_error_t \<times> u8 option) \<times> ('d, 'm) ab_state) option"
where
  "tegrabl_a_b_get_current_rootfs_id soc alloc p out_given st =
     (if \<not> out_given then Some ((AB_ERROR TEGRABL_ERR_INVALID 0, None), st)
      else do {
        ((error, p), st) \<leftarrow> (if p = None then tegrabl_a_b_get_smd soc alloc st
                             else Some ((TEGRABL_NO_ERROR, p), st));
        if error \<noteq> TEGRABL_NO_ERROR then Some ((AB_HIGHEST error, None), st)
        else do {
          s \<leftarrow> p;
          r \<leftarrow> current_rootfs_id soc s (ab_soc st);
          Some (r, st)
        }
      })"

definition tegrabl_a_b_rootfs_is_all_unbootable ::
  "'m soc_ops \<Rightarrow> alloc_env \<Rightarrow> slot_meta_data_v2 option \<Rightarrow> ('d, 'm) ab_state \<Rightarrow>
   (bool \<times> ('d, 'm) ab_state) option"
where
  "tegrabl_a_b_rootfs_is_all_unbootable soc alloc p st = do {
     ((error, p), st) \<leftarrow> (if p = None then tegrabl_a_b_get_smd soc alloc st
                          else Some ((TEGRABL_NO_ERROR, p), st));
     if error \<noteq> TEGRABL_NO_ERROR then Some (False, st)
     else do {
       s \<leftarrow> p;
       (b, m) \<leftarrow> rootfs_all_unbootable soc s (ab_soc st);
       Some (b, st\<lparr>ab_soc := m\<rparr>)
     }
   }"

definition tegrabl_a_b_get_rootfs_suffix ::
  "'m soc_ops \<Rightarrow> alloc_env \<Rightarrow> bool \<Rightarrow> ('d, 'm) ab_state \<Rightarrow>
   ((tegrabl_error_t \<times> bytes option) \<times> ('d, 'm) ab_state) option"
where
  "tegrabl_a_b_get_rootfs_suffix soc alloc full_suffix st = do {
     ((err, rid), st) \<leftarrow> tegrabl_a_b_get_current_rootfs_id soc alloc None True st;
     rootfs_id \<leftarrow> (if err \<noteq> TEGRABL_NO_ERROR then Some ROOTFS_A else rid);
     Some (if \<not> full_suffix \<and> rootfs_id = ROOTFS_A then (TEGRABL_NO_ERROR, Some [])
           else if rootfs_id = ROOTFS_A then (TEGRABL_NO_ERROR, Some BOOT_CHAIN_SUFFIX_A)
           else if rootfs_id = ROOTFS_B then (TEGRABL_NO_ERROR, Some BOOT_CHAIN_SUFFIX_B)
           else (AB_ERROR TEGRABL_ERR_INVALID 0, None), st)
   }"

end
