(* ===== verification/Ab_Smd_Layout.thy ===== *)
theory Ab_Smd_Layout
  imports Ab_Smd
begin

text \<open>
  Read-over-write facts of the scratch register fields (interpretations of \<open>reg_field\<close>, one per
  pair of macros) and the layouts of the SMD structs (interpretations of \<open>codec\<close>): every struct is
  recovered from its image and every image of the right length is the image of the struct it holds.
\<close>

section \<open>Register fields\<close>

lemma reg_field_macros:
  fixes get :: "'a::len word \<Rightarrow> 'a word"
  assumes "sh + w \<le> LENGTH('a)" and "m = mask w"
    and "\<And>r. get r = drop_bit sh r AND m"
    and "\<And>v r. put v r = (r AND NOT (push_bit sh m)) OR push_bit sh (v AND m)"
  shows "reg_field get put sh w"
  by unfold_locales (use assms in \<open>auto simp: bit_simps\<close>)

lemma drop_and_push: "sh + w \<le> LENGTH('a) \<Longrightarrow> drop_bit sh ((r :: 'a::len word) AND push_bit sh (mask w)) = drop_bit sh r AND mask w"
  by (rule bit_word_eqI) (auto simp: bit_simps)

lemma drop_push_mask: "sh + w \<le> LENGTH('a) \<Longrightarrow> drop_bit sh (push_bit sh (mask w :: 'a::len word)) = mask w"
  by (rule bit_word_eqI) (auto simp: bit_simps)

lemma and_or_mask: "c AND m = c \<Longrightarrow> ((r AND NOT m) OR c) AND m = (c :: 'a::len word)"
  by (rule bit_word_eqI) (auto simp: bit_simps bit_eq_iff)

lemma small_masks: "(0x03 :: 'a::len word) = mask 2" "(0x07 :: 'a::len word) = mask 3" "(0x0F :: 'a::len word) = mask 4"
  by (simp_all add: mask_eq_exp_minus_1)

interpretation bc_slot: reg_field BOOT_CHAIN_REG_SLOT_NUM_GET BOOT_CHAIN_REG_SLOT_NUM_SET 16 3
  by (rule reg_field_macros) (simp_all add: BOOT_CHAIN_REG_SLOT_NUM_GET_def BOOT_CHAIN_REG_SLOT_NUM_SET_def small_masks)

interpretation bc_max: reg_field BOOT_CHAIN_REG_MAX_SLOTS_GET BOOT_CHAIN_REG_MAX_SLOTS_SET 19 3
  by (rule reg_field_macros)
    (simp_all add: BOOT_CHAIN_REG_MAX_SLOTS_GET_def BOOT_CHAIN_REG_MAX_SLOTS_SET_def small_masks)

interpretation bc_b: reg_field BOOT_CHAIN_REG_B_RETRY_COUNT_GET BOOT_CHAIN_REG_B_RETRY_COUNT_SET 22 4
  by (rule reg_field_macros)
    (simp_all add: BOOT_CHAIN_REG_B_RETRY_COUNT_GET_def BOOT_CHAIN_REG_B_RETRY_COUNT_SET_def small_masks)

interpretation bc_a: reg_field BOOT_CHAIN_REG_A_RETRY_COUNT_GET BOOT_CHAIN_REG_A_RETRY_COUNT_SET 26 4
  by (rule reg_field_macros)
    (simp_all add: BOOT_CHAIN_REG_A_RETRY_COUNT_GET_def BOOT_CHAIN_REG_A_RETRY_COUNT_SET_def small_masks)

interpretation bc_flag: reg_field BOOT_CHAIN_REG_UPDATE_FLAG_GET BOOT_CHAIN_REG_UPDATE_FLAG_SET 30 2
  by (rule reg_field_macros)
    (simp_all add: BOOT_CHAIN_REG_UPDATE_FLAG_GET_def BOOT_CHAIN_REG_UPDATE_FLAG_SET_def small_masks)

interpretation rf_rotate: reg_field ROOTFS_AB_REG_ROTATE_COUNT_GET ROOTFS_AB_REG_ROTATE_COUNT_SET 16 4
  by (rule reg_field_macros)
    (simp_all add: ROOTFS_AB_REG_ROTATE_COUNT_GET_def ROOTFS_AB_REG_ROTATE_COUNT_SET_def small_masks drop_push_mask)

interpretation rf_retry: reg_field ROOTFS_AB_REG_RETRY_COUNT_GET ROOTFS_AB_REG_RETRY_COUNT_SET 20 2
  by (rule reg_field_macros)
    (simp_all add: ROOTFS_AB_REG_RETRY_COUNT_GET_def ROOTFS_AB_REG_RETRY_COUNT_SET_def small_masks drop_push_mask)

text \<open>The magic numbers are the low halves of the registers; no field macro touches them.\<close>

lemma magic_get_bit:
  "bit (BOOT_CHAIN_REG_MAGIC_GET r) n \<longleftrightarrow> n < 16 \<and> bit r (0 + n)"
  "bit (ROOTFS_AB_REG_MAGIC_GET r) n \<longleftrightarrow> n < 16 \<and> bit r (0 + n)"
proof -
  have m: "(0xFFFF :: u32) = mask 16" by (simp add: mask_eq_exp_minus_1)
  show "bit (BOOT_CHAIN_REG_MAGIC_GET r) n \<longleftrightarrow> n < 16 \<and> bit r (0 + n)"
    "bit (ROOTFS_AB_REG_MAGIC_GET r) n \<longleftrightarrow> n < 16 \<and> bit r (0 + n)"
    unfolding BOOT_CHAIN_REG_MAGIC_GET_def ROOTFS_AB_REG_MAGIC_GET_def m
    by (auto simp: bit_simps dest: bit_imp_le_length)
qed

lemma magic_set [simp]:
  "BOOT_CHAIN_REG_MAGIC_GET (BOOT_CHAIN_REG_MAGIC_SET r) = BOOT_CHAIN_REG_MAGIC"
  "ROOTFS_AB_REG_MAGIC_GET (ROOTFS_AB_REG_MAGIC_SET r) = ROOTFS_AB_REG_MAGIC"
  unfolding BOOT_CHAIN_REG_MAGIC_GET_def BOOT_CHAIN_REG_MAGIC_SET_def ROOTFS_AB_REG_MAGIC_GET_def
    ROOTFS_AB_REG_MAGIC_SET_def by (rule and_or_mask; simp)+

lemmas magic_frames [simp] =
  bc_slot.frame [OF magic_get_bit(1), simplified] bc_max.frame [OF magic_get_bit(1), simplified]
  bc_b.frame [OF magic_get_bit(1), simplified] bc_a.frame [OF magic_get_bit(1), simplified]
  bc_flag.frame [OF magic_get_bit(1), simplified] rf_rotate.frame [OF magic_get_bit(2), simplified]
  rf_retry.frame [OF magic_get_bit(2), simplified]

lemmas bc_frames [simp] =
  bc_slot.frame [OF bc_max.get_bit, simplified] bc_slot.frame [OF bc_b.get_bit, simplified]
  bc_slot.frame [OF bc_a.get_bit, simplified] bc_slot.frame [OF bc_flag.get_bit, simplified]
  bc_max.frame [OF bc_slot.get_bit, simplified] bc_max.frame [OF bc_b.get_bit, simplified]
  bc_max.frame [OF bc_a.get_bit, simplified] bc_max.frame [OF bc_flag.get_bit, simplified]
  bc_b.frame [OF bc_slot.get_bit, simplified] bc_b.frame [OF bc_max.get_bit, simplified]
  bc_b.frame [OF bc_a.get_bit, simplified] bc_b.frame [OF bc_flag.get_bit, simplified]
  bc_a.frame [OF bc_slot.get_bit, simplified] bc_a.frame [OF bc_max.get_bit, simplified]
  bc_a.frame [OF bc_b.get_bit, simplified] bc_a.frame [OF bc_flag.get_bit, simplified]
  bc_flag.frame [OF bc_slot.get_bit, simplified] bc_flag.frame [OF bc_max.get_bit, simplified]
  bc_flag.frame [OF bc_b.get_bit, simplified] bc_flag.frame [OF bc_a.get_bit, simplified]
  rf_rotate.frame [OF rf_retry.get_bit, simplified] rf_retry.frame [OF rf_rotate.get_bit, simplified]

lemmas reg_puts [simp] =
  bc_slot.get_put bc_max.get_put bc_b.get_put bc_a.get_put bc_flag.get_put rf_rotate.get_put rf_retry.get_put

text \<open>The two fields of \<open>rootfs_select\<close>, for values that fit.\<close>

lemma rootfs_select_fields:
  assumes "take_bit 2 v = v"
  shows "GET_ROOTFS_ACTIVE (SET_ROOTFS_ACTIVE v r) = v"
    and "GET_ROOTFS_RETRY_COUNT (SET_ROOTFS_ACTIVE v r) = GET_ROOTFS_RETRY_COUNT r"
    and "GET_ROOTFS_RETRY_COUNT (SET_ROOTFS_RETRY_COUNT v r) = v"
    and "GET_ROOTFS_ACTIVE (SET_ROOTFS_RETRY_COUNT v r) = GET_ROOTFS_ACTIVE r"
proof -
  have hi: "\<not> bit v n" if "2 \<le> n" for n using assms that by (metis bit_take_bit_iff not_le)
  have lo: "n < 2" if "bit v n" for n using hi that by (metis not_le)
  note d = GET_ROOTFS_ACTIVE_def SET_ROOTFS_ACTIVE_def GET_ROOTFS_RETRY_COUNT_def
    SET_ROOTFS_RETRY_COUNT_def small_masks
  show "GET_ROOTFS_ACTIVE (SET_ROOTFS_ACTIVE v r) = v"
    "GET_ROOTFS_RETRY_COUNT (SET_ROOTFS_ACTIVE v r) = GET_ROOTFS_RETRY_COUNT r"
    "GET_ROOTFS_RETRY_COUNT (SET_ROOTFS_RETRY_COUNT v r) = v"
    "GET_ROOTFS_ACTIVE (SET_ROOTFS_RETRY_COUNT v r) = GET_ROOTFS_ACTIVE r"
    unfolding d by (rule bit_word_eqI; auto simp: bit_simps hi dest: lo)+
qed

lemma rootfs_fields_small [simp]:
  "unat (GET_ROOTFS_ACTIVE r) < 4" "unat (GET_ROOTFS_RETRY_COUNT r) < 4" "unat (GET_MAX_ROOTFS_RETRY_COUNT r) < 4"
proof -
  have b: "unat (x AND mask 2 :: u8) < 4" for x
    using unat_low_bits [of x 2] by (simp add: mask_eq_exp_minus_1)
  have "drop_bit 2 (r AND push_bit 2 (mask 2)) = drop_bit 2 r AND mask 2"
    by (rule drop_and_push) simp
  then show "unat (GET_ROOTFS_ACTIVE r) < 4" "unat (GET_ROOTFS_RETRY_COUNT r) < 4"
    "unat (GET_MAX_ROOTFS_RETRY_COUNT r) < 4"
    unfolding GET_ROOTFS_ACTIVE_def GET_ROOTFS_RETRY_COUNT_def GET_MAX_ROOTFS_RETRY_COUNT_def small_masks
    using b by simp_all
qed

section \<open>Layouts\<close>

interpretation slot: codec 5 enc_slot dec_slot wf_slot
proof
  fix s rest and bs :: bytes
  show "length (enc_slot s) = 5" if "wf_slot s" using that by (simp add: enc_slot_def wf_slot_def)
  show "dec_slot (enc_slot s @ rest) = s" if "wf_slot s"
    using that by (simp add: enc_slot_def dec_slot_def wf_slot_def layout subrange_def)
  assume l: "length bs = 5"
  then obtain a b c d e where "bs = [a, b, c, d, e]"
    by (auto simp: numeral_eq_Suc length_Suc_conv)
  then show "wf_slot (dec_slot bs)" "enc_slot (dec_slot bs) = bs"
    by (simp_all add: wf_slot_def dec_slot_def enc_slot_def subrange_def)
qed

lemma subrange_Suc_Cons [simp]: "subrange (Suc k) n (x # xs) = subrange k n xs"
  by (simp add: subrange_def)

interpretation smdc: codec 22 enc_smd dec_smd wf_smd
proof
  fix s rest and bs :: bytes
  assume wf: "wf_smd s"
  then obtain s0 s1 where si: "slot_info s = [s0, s1]" "wf_slot s0" "wf_slot s1"
    by (auto simp: wf_smd_def numeral_eq_Suc length_Suc_conv)
  note l = slot.length_enc [OF si(2)] slot.length_enc [OF si(3)]
  show "length (enc_smd s) = 22" by (simp add: enc_smd_def si l)
  show "dec_smd (enc_smd s @ rest) = s"
    using slot.dec_enc_exact [OF si(2)] slot.dec_enc_exact [OF si(3)]
    by (simp add: enc_smd_def dec_smd_def si(1) l layout)
next
  fix bs :: bytes
  assume l: "length bs = 22"
  show "wf_smd (dec_smd bs)" using l by (simp add: wf_smd_def dec_smd_def slot.wf_dec)
  have "enc_smd (dec_smd bs) = subrange 0 4 bs @ subrange 4 2 bs @ subrange 6 2 bs @ subrange 8 5 bs @
      subrange 13 5 bs @ subrange 18 4 bs"
    using l by (simp add: enc_smd_def dec_smd_def slot.enc_dec u32_at_def u16_at_def le_exact)
  also have "\<dots> = bs" using l by (simp add: subrange_join) (simp add: subrange_def)
  finally show "enc_smd (dec_smd bs) = bs" .
qed

interpretation feat: codec 8 enc_features dec_features wf_features
proof
  fix s rest and bs :: bytes
  show "length (enc_features s) = 8" if "wf_features s" using that by (simp add: enc_features_def wf_features_def)
  show "dec_features (enc_features s @ rest) = s" if "wf_features s"
    using that by (simp add: enc_features_def dec_features_def wf_features_def layout subrange_def)
  assume l: "length bs = 8"
  then obtain a b c d e f g h where "bs = [a, b, c, d, e, f, g, h]"
    by (auto simp: numeral_eq_Suc length_Suc_conv)
  then show "wf_features (dec_features bs)" "enc_features (dec_features bs) = bs"
    by (simp_all add: wf_features_def dec_features_def enc_features_def subrange_def)
qed

interpretation extc: codec 169 enc_ext dec_ext wf_ext
proof
  fix s rest and bs :: bytes
  assume wf: "wf_ext s"
  then have w: "wf_features (features s)" "length (smd_log s) = 144" by (simp_all add: wf_ext_def)
  note l = feat.length_enc [OF w(1)]
  show "length (enc_ext s) = 169" by (simp add: enc_ext_def l w)
  show "dec_ext (enc_ext s @ rest) = s"
    using feat.dec_enc_exact [OF w(1)] w(2)
    by (simp add: enc_ext_def dec_ext_def l layout)
next
  fix bs :: bytes
  assume l: "length bs = 169"
  show "wf_ext (dec_ext bs)" using l by (simp add: wf_ext_def dec_ext_def feat.wf_dec)
  have one: "[bs ! 24] = subrange 24 1 bs" using l by (simp add: subrange_def take_Suc_conv_app_nth)
  have "enc_ext (dec_ext bs) = subrange 0 4 bs @ subrange 4 4 bs @ subrange 8 4 bs @ subrange 12 4 bs @
      subrange 16 8 bs @ subrange 24 1 bs @ subrange 25 144 bs"
    unfolding one [symmetric] using l by (simp add: enc_ext_def dec_ext_def feat.enc_dec u32_at_def le_exact)
  also have "\<dots> = bs" using l by (simp add: subrange_join) (simp add: subrange_def)
  finally show "enc_ext (dec_ext bs) = bs" .
qed

interpretation v2: codec 191 enc_smd_v2 dec_smd_v2 wf_v2
proof
  fix s rest and bs :: bytes
  assume "wf_v2 s"
  then have w: "wf_smd (smd s)" "wf_ext (smd_ext s)" by (simp_all add: wf_v2_def)
  note l = smdc.length_enc [OF w(1)] extc.length_enc [OF w(2)]
  show "length (enc_smd_v2 s) = 191" by (simp add: enc_smd_v2_def l)
  show "dec_smd_v2 (enc_smd_v2 s @ rest) = s"
    using smdc.dec_enc_exact [OF w(1)] extc.dec_enc_exact [OF w(2)]
    by (simp add: enc_smd_v2_def dec_smd_v2_def l layout)
next
  fix bs :: bytes
  assume l: "length bs = 191"
  show "wf_v2 (dec_smd_v2 bs)" using l by (simp add: wf_v2_def dec_smd_v2_def smdc.wf_dec extc.wf_dec)
  show "enc_smd_v2 (dec_smd_v2 bs) = bs"
    using l by (simp add: enc_smd_v2_def dec_smd_v2_def smdc.enc_dec extc.enc_dec) (simp add: subrange_def)
qed

end
