(* ===== verification/Ab_Boot_Correct.thy ===== *)
theory Ab_Boot_Correct
  imports Ab_Boot_Control Ab_Smd_Layout
begin

text \<open>
  Correctness of A/B boot control on the SMD buffer and the scratch registers: slot selection finds
  the first bootable slot of highest priority, boot attempts as a step relation with the retry counts
  as a budget, the contents of the boot slot register, selection of the root file system, and the
  rotation between slots when the kernel does not come up. Everything about registers assumes
  \<open>scratch_ok\<close>: what is written to a scratch register is read back.
\<close>

section \<open>Slot selection\<close>

definition bootable :: "slot_meta_data_v2 \<Rightarrow> nat \<Rightarrow> bool" where
  "bootable s j \<longleftrightarrow> retry_count (slot_info (smd s) ! j) \<noteq> 0 \<and> priority (slot_info (smd s) ! j) \<noteq> 0"

abbreviation prio :: "slot_meta_data_v2 \<Rightarrow> nat \<Rightarrow> u8" where
  "prio s j \<equiv> priority (slot_info (smd s) ! j)"

text \<open>The best slot among the first \<open>n\<close>: bootable, of highest priority, the first of those.\<close>

definition is_best :: "slot_meta_data_v2 \<Rightarrow> nat \<Rightarrow> nat \<Rightarrow> bool" where
  "is_best s n j \<longleftrightarrow> j < n \<and> bootable s j \<and>
     (\<forall>k<n. bootable s k \<longrightarrow> prio s k \<le> prio s j) \<and> (\<forall>k<j. bootable s k \<longrightarrow> prio s k < prio s j)"

definition scan_inv :: "slot_meta_data_v2 \<Rightarrow> nat \<Rightarrow> u8 \<Rightarrow> u32 option \<Rightarrow> bool" where
  "scan_inv s n mp sl \<longleftrightarrow>
     (mp = 0 \<and> sl = None \<and> (\<forall>j<n. \<not> bootable s j)) \<or>
     (\<exists>j. sl = Some (of_nat j) \<and> mp = prio s j \<and> is_best s n j)"

lemma scan_inv_step:
  assumes "scan_inv s n mp sl"
  shows "if bootable s n \<and> mp < prio s n then scan_inv s (Suc n) (prio s n) (Some (of_nat n))
    else scan_inv s (Suc n) mp sl"
proof (cases "bootable s n \<and> mp < prio s n")
  case True
  have "is_best s (Suc n) n"
    unfolding is_best_def
  proof (intro conjI allI impI)
    show lt: "prio s k < prio s n" if "k < n" "bootable s k" for k
      using assms that True by (auto simp: scan_inv_def is_best_def dest: order.strict_trans1)
    show "prio s k \<le> prio s n" if "k < Suc n" "bootable s k" for k
      using lt [of k] that by (cases "k = n") auto
  qed (use True in auto)
  then show ?thesis using True by (auto simp: scan_inv_def)
next
  case False
  then have le: "bootable s n \<Longrightarrow> prio s n \<le> mp" by auto
  have "scan_inv s (Suc n) mp sl"
    using assms [unfolded scan_inv_def]
  proof (elim disjE exE conjE)
    assume a: "mp = 0" "sl = None" "\<forall>j<n. \<not> bootable s j"
    have "\<not> bootable s n" using le a(1) by (auto simp: bootable_def)
    then show ?thesis using a by (auto simp: scan_inv_def less_Suc_eq)
  next
    fix j assume a: "sl = Some (of_nat j)" "mp = prio s j" "is_best s n j"
    then have "is_best s (Suc n) j" using le by (auto simp: is_best_def less_Suc_eq)
    then show ?thesis using a by (auto simp: scan_inv_def)
  qed
  then show ?thesis using False by auto
qed

lemma scan_slots_best:
  assumes "unat i + k \<le> length (slot_info (smd s))" and "length (slot_info (smd s)) < 2 ^ 32"
    and "scan_inv s (unat i) mp sl"
  shows "\<exists>mp' sl'. scan_slots s k i mp sl = Some (mp', sl') \<and> scan_inv s (unat i + k) mp' sl'"
  using assms
proof (induction k arbitrary: i mp sl)
  case 0
  then show ?case by simp
next
  case (Suc k)
  have i1: "unat (i + 1) = Suc (unat i)"
    using Suc.prems(1,2) by (simp add: unat_word_ariths(1))
  have at: "slot_at s i = Some (slot_info (smd s) ! unat i)"
    using Suc.prems(1) by (simp add: slot_at_def)
  have i: "i = of_nat (unat i)" by simp
  have IH: "scan_inv s (unat (i + 1)) mp' sl' \<Longrightarrow>
      \<exists>mp'' sl''. scan_slots s k (i + 1) mp' sl' = Some (mp'', sl'') \<and> scan_inv s (unat i + Suc k) mp'' sl''"
    for mp' sl'
    using Suc.IH [of "i + 1" mp' sl'] Suc.prems(1,2) by (simp add: i1)
  show ?case
    using IH scan_inv_step [OF Suc.prems(3)] i
    by (auto simp: at i1 bootable_def split: if_splits)
qed

lemma bootslot_from_smd_best:
  assumes "wf_v2 s" and "num_slots (smd s) \<le> 2" and "smd_magic (smd s) = BOOT_CHAIN_MAGIC"
  shows "(\<exists>j. boot_chain_get_bootslot_from_smd s = Some (TEGRABL_NO_ERROR, Some (of_nat j)) \<and>
      is_best s (unat (num_slots (smd s))) j) \<or>
    (boot_chain_get_bootslot_from_smd s = Some (AB_ERROR TEGRABL_ERR_INVALID 1, None) \<and>
      (\<forall>j < unat (num_slots (smd s)). \<not> bootable s j))"
proof -
  have len: "length (slot_info (smd s)) = 2" using assms(1) by (simp add: wf_v2_def wf_smd_def)
  have "unat (num_slots (smd s)) \<le> 2" using assms(2) by (simp add: word_le_nat_alt)
  then obtain mp sl where scan: "scan_slots s (unat (num_slots (smd s))) 0 0 None = Some (mp, sl)"
    "scan_inv s (unat (num_slots (smd s))) mp sl"
    using scan_slots_best [of 0 "unat (num_slots (smd s))" s 0 None] len by (auto simp: scan_inv_def)
  then show ?thesis
    using assms(3) by (auto simp: boot_chain_get_bootslot_from_smd_def scan_inv_def is_best_def bootable_def)
qed

lemma scan_slots_overrun:
  assumes "length (slot_info (smd s)) < unat i + k" and "unat i + k < 2 ^ 32"
    and "unat i \<le> length (slot_info (smd s))"
  shows "scan_slots s k i mp sl = None"
  using assms
proof (induction k arbitrary: i mp sl)
  case 0
  then show ?case by simp
next
  case (Suc k)
  have "unat (i + 1) = Suc (unat i)" using Suc.prems(2) by (simp add: unat_word_ariths(1))
  then show ?case
    using Suc by (cases "slot_at s i") (auto simp: slot_at_def split: if_splits)
qed

section \<open>Slot attributes\<close>

lemma wf_slots: "wf_v2 s \<Longrightarrow> length (slot_info (smd s)) = 2"
  by (simp add: wf_v2_def wf_smd_def)

lemma wf_update_slot:
  "wf_v2 s \<Longrightarrow> (\<And>i. suffix (f i) = suffix i) \<Longrightarrow> wf_v2 (update_slot k f s)"
proof -
  assume w: "wf_v2 s" and f: "\<And>i. suffix (f i) = suffix i"
  have "length (suffix ((slot_info (smd s))[unat k := f (slot_info (smd s) ! unat k)] ! n)) = 2"
    if "n < length (slot_info (smd s))" for n
    using that w f by (cases "unat k = n") (auto simp: wf_v2_def wf_smd_def wf_slot_def list_all_length)
  then show "wf_v2 (update_slot k f s)"
    using w by (simp add: wf_v2_def wf_smd_def wf_slot_def update_slot_def list_all_length)
qed

lemma update_slot_simps [simp]:
  "smd_magic (smd (update_slot k f s)) = smd_magic (smd s)"
  "smd_version (smd (update_slot k f s)) = smd_version (smd s)"
  "num_slots (smd (update_slot k f s)) = num_slots (smd s)"
  "smd_ext (update_slot k f s) = smd_ext s"
  "length (slot_info (smd (update_slot k f s))) = length (slot_info (smd s))"
  by (simp_all add: update_slot_def)

lemma update_slot_nth:
  "unat k < length (slot_info (smd s)) \<Longrightarrow> j < length (slot_info (smd s)) \<Longrightarrow>
   slot_info (smd (update_slot k f s)) ! j =
     (if j = unat k then f (slot_info (smd s) ! j) else slot_info (smd s) ! j)"
  by (auto simp: update_slot_def nth_list_update)

lemma less_two_cases: "(slot :: u32) < 2 \<Longrightarrow> slot = 0 \<or> slot = 1"
  by (auto simp: word_less_nat_alt word_unat_eq_iff)

lemma max_retry_count_range: "0 < tegrabl_get_max_retry_count s" "tegrabl_get_max_retry_count s \<le> 7"
proof -
  have "x \<noteq> 0 \<Longrightarrow> 0 < (x :: u8)" for x by (simp add: word_gt_0)
  then show "0 < tegrabl_get_max_retry_count s" "tegrabl_get_max_retry_count s \<le> 7"
    by (auto simp: tegrabl_get_max_retry_count_def Let_def)
qed

lemma max_retry_count_update [simp]:
  "tegrabl_get_max_retry_count (update_slot k f s) = tegrabl_get_max_retry_count s"
  by (simp add: tegrabl_get_max_retry_count_def)

lemma set_active_slot_result:
  assumes "wf_v2 s" and "slot < 2"
  shows "\<exists>s'. tegrabl_a_b_set_active_slot (Some s) slot = (TEGRABL_NO_ERROR, Some s') \<and> wf_v2 s' \<and>
    smd_magic (smd s') = smd_magic (smd s) \<and> num_slots (smd s') = num_slots (smd s) \<and>
    (\<forall>j<2. slot_info (smd s') ! j =
       (if j = unat slot
        then (slot_info (smd s) ! j)\<lparr>priority := 15, retry_count := tegrabl_get_max_retry_count s,
               boot_successful := 0\<rparr>
        else lower_priority (slot_info (smd s) ! j)))"
proof -
  have len: "length (slot_info (smd s)) = 2" by (rule wf_slots [OF assms(1)])
  have slot: "\<not> 2 \<le> slot" "unat slot < 2" using assms(2) by (simp_all add: word_less_nat_alt word_le_nat_alt)
  let ?low = "update_slot 1 lower_priority (update_slot 0 lower_priority s)"
  let ?s' = "update_slot slot (\<lambda>i. i\<lparr>boot_successful := 0\<rparr>) (update_slot slot
      (\<lambda>i. i\<lparr>retry_count := tegrabl_get_max_retry_count s\<rparr>) (update_slot slot (\<lambda>i. i\<lparr>priority := 15\<rparr>) ?low))"
  have run: "tegrabl_a_b_set_active_slot (Some s) slot = (TEGRABL_NO_ERROR, Some ?s')"
    using slot by (simp add: tegrabl_a_b_set_active_slot_def tegrabl_a_b_set_priority_def
        tegrabl_a_b_set_retry_count_def tegrabl_a_b_set_successful_def slot_setter_def)
  have "suffix (lower_priority i) = suffix i" for i by (simp add: lower_priority_def)
  then have wf: "wf_v2 ?s'" by (intro wf_update_slot assms) simp_all
  have "slot_info (smd ?s') ! j =
       (if j = unat slot
        then (slot_info (smd s) ! j)\<lparr>priority := 15, retry_count := tegrabl_get_max_retry_count s,
               boot_successful := 0\<rparr>
        else lower_priority (slot_info (smd s) ! j))" if "j < 2" for j
  proof -
    have "j = 0 \<or> j = 1" using that by arith
    then show ?thesis
      using slot len by (auto simp: update_slot_nth lower_priority_def)
  qed
  then show ?thesis using run wf by auto
qed

section \<open>Boot attempts\<close>

text \<open>One boot of the device as far as the metadata is concerned: select a slot, then charge it.\<close>

inductive boot_attempt :: "slot_meta_data_v2 \<Rightarrow> slot_meta_data_v2 \<Rightarrow> bool" where
  attempt: "boot_chain_get_bootslot_from_smd s = Some (TEGRABL_NO_ERROR, Some slot) \<Longrightarrow>
    tegrabl_a_b_check_and_update_retry_count (Some s) slot = Some (TEGRABL_NO_ERROR, s') \<Longrightarrow>
    boot_attempt s s'"

inductive_cases boot_attemptE: "boot_attempt s s'"

text \<open>Every attempt is charged when redundancy is supported or no slot has been marked successful.\<close>

definition charged :: "slot_meta_data_v2 \<Rightarrow> bool" where
  "charged s \<longleftrightarrow> wf_v2 s \<and> num_slots (smd s) \<le> 2 \<and> smd_magic (smd s) = BOOT_CHAIN_MAGIC \<and>
     (BOOTCTRL_SUPPORT_REDUNDANCY (smd_version (smd s)) \<or>
      (\<forall>j<2. boot_successful (slot_info (smd s) ! j) = 0))"

definition retry_budget :: "slot_meta_data_v2 \<Rightarrow> nat" where
  "retry_budget s = unat (retry_count (slot_info (smd s) ! 0)) + unat (retry_count (slot_info (smd s) ! 1))"

lemma unat_dec: "(c :: u8) \<noteq> 0 \<Longrightarrow> unat c = Suc (unat (c - 1))"
  by (simp add: unat_minus_one unat_gt_0)

lemma charge_slot:
  assumes "charged s" and "j < 2" and "retry_count (slot_info (smd s) ! j) \<noteq> 0"
  shows "\<exists>s'. tegrabl_a_b_check_and_update_retry_count (Some s) (of_nat j) = Some (TEGRABL_NO_ERROR, s') \<and>
    charged s' \<and> retry_budget s = Suc (retry_budget s') \<and> num_slots (smd s') = num_slots (smd s)"
proof -
  have len: "length (slot_info (smd s)) = 2" using assms(1) wf_slots by (simp add: charged_def)
  have uj: "unat (of_nat j :: u32) = j" using assms(2) by (simp add: unat_of_nat)
  let ?s' = "update_slot (of_nat j) (\<lambda>i. i\<lparr>retry_count := retry_count i - 1\<rparr>) s"
  have run: "tegrabl_a_b_check_and_update_retry_count (Some s) (of_nat j) = Some (TEGRABL_NO_ERROR, ?s')"
    using assms len uj
    by (auto simp: tegrabl_a_b_check_and_update_retry_count_def slot_at_def TEGRABL_ASSERT_def charged_def)
  have nth: "slot_info (smd ?s') ! k = (if k = j
      then (slot_info (smd s) ! k)\<lparr>retry_count := retry_count (slot_info (smd s) ! k) - 1\<rparr>
      else slot_info (smd s) ! k)" if "k < 2" for k
    using that assms(2) len uj by (simp add: update_slot_nth)
  have "wf_v2 ?s'" using assms(1) by (intro wf_update_slot) (simp_all add: charged_def)
  then have "charged ?s'" using assms(1) nth by (auto simp: charged_def)
  moreover have "j = 0 \<or> j = 1" using assms(2) by arith
  then have "retry_budget s = Suc (retry_budget ?s')"
    using nth [of 0] nth [of 1] unat_dec [OF assms(3)] by (auto simp: retry_budget_def)
  ultimately show ?thesis using run by auto
qed

lemma selected_slot:
  assumes "charged s" and "boot_chain_get_bootslot_from_smd s = Some (TEGRABL_NO_ERROR, Some slot)"
  obtains j where "slot = of_nat j" "j < unat (num_slots (smd s))" "j < 2" "bootable s j"
proof -
  have "unat (num_slots (smd s)) \<le> 2" using assms(1) by (simp add: charged_def word_le_nat_alt)
  then show ?thesis
    using assms bootslot_from_smd_best [of s] that by (auto simp: charged_def is_best_def)
qed

lemma boot_attempt_step:
  assumes "boot_attempt s s'" and "charged s"
  shows "charged s' \<and> retry_budget s = Suc (retry_budget s') \<and> num_slots (smd s') = num_slots (smd s)"
  using assms(1)
proof (cases rule: boot_attempt.cases)
  case (attempt slot)
  obtain j where "slot = of_nat j" "j < 2" "bootable s j"
    by (rule selected_slot [OF assms(2) attempt(1)])
  then show ?thesis
    using charge_slot [OF assms(2), of j] attempt(2) by (auto simp: bootable_def)
qed

lemma boot_attempt_possible:
  assumes "charged s"
  shows "(\<exists>s'. boot_attempt s s') \<longleftrightarrow> (\<exists>j < unat (num_slots (smd s)). bootable s j)"
proof
  assume "\<exists>s'. boot_attempt s s'"
  then obtain s' where "boot_attempt s s'" ..
  then show "\<exists>j < unat (num_slots (smd s)). bootable s j"
    by (elim boot_attemptE) (metis selected_slot [OF assms])
next
  assume "\<exists>j < unat (num_slots (smd s)). bootable s j"
  then obtain j where b: "boot_chain_get_bootslot_from_smd s = Some (TEGRABL_NO_ERROR, Some (of_nat j))"
    using bootslot_from_smd_best [of s] assms by (auto simp: charged_def)
  obtain k where "(of_nat j :: u32) = of_nat k" "k < 2" "bootable s k"
    using selected_slot [OF assms b] by metis
  then show "\<exists>s'. boot_attempt s s'"
    using charge_slot [OF assms, of k] b by (auto simp: bootable_def intro!: boot_attempt.attempt)
qed

lemma boot_attempts_budget:
  assumes "(boot_attempt ^^ n) s s'" and "charged s"
  shows "charged s' \<and> retry_budget s = n + retry_budget s' \<and> num_slots (smd s') = num_slots (smd s)"
  using assms(1)
proof (induction n arbitrary: s')
  case 0
  then show ?case using assms(2) by simp
next
  case (Suc n)
  then obtain t where "(boot_attempt ^^ n) s t" "boot_attempt t s'" by auto
  then show ?case using Suc.IH boot_attempt_step by fastforce
qed

section \<open>The boot slot register\<close>

lemma scratchD:
  assumes "scratch_ok soc"
  shows "op_get_boot_slot_reg soc (op_set_boot_slot_reg soc v m) = v"
    and "op_get_rootfs_slot_reg soc (op_set_boot_slot_reg soc v m) = op_get_rootfs_slot_reg soc m"
    and "op_get_rootfs_slot_reg soc (op_set_rootfs_slot_reg soc v m) = v"
    and "op_get_boot_slot_reg soc (op_set_rootfs_slot_reg soc v m) = op_get_boot_slot_reg soc m"
  using assms by (simp_all add: scratch_ok_def)

lemma save_boot_slot_reg_fields:
  assumes "scratch_ok soc" and "wf_v2 s" and "slot < 2"
  obtains m' where "tegrabl_a_b_save_boot_slot_reg soc (Some s) slot m = Some m'"
    "BOOT_CHAIN_REG_MAGIC_GET (op_get_boot_slot_reg soc m') = BOOT_CHAIN_REG_MAGIC_GET (op_get_boot_slot_reg soc m)"
    "BOOT_CHAIN_REG_SLOT_NUM_GET (op_get_boot_slot_reg soc m') = slot"
    "BOOT_CHAIN_REG_MAX_SLOTS_GET (op_get_boot_slot_reg soc m') = take_bit 3 (ucast (num_slots (smd s)))"
    "BOOT_CHAIN_REG_A_RETRY_COUNT_GET (op_get_boot_slot_reg soc m') =
       take_bit 4 (ucast (retry_count (slot_info (smd s) ! 0)))"
    "BOOT_CHAIN_REG_B_RETRY_COUNT_GET (op_get_boot_slot_reg soc m') =
       take_bit 4 (ucast (retry_count (slot_info (smd s) ! 1)))"
    "BOOT_CHAIN_REG_UPDATE_FLAG_GET (op_get_boot_slot_reg soc m') =
       (if boot_successful (slot_info (smd s) ! unat slot) = 0 then BC_FLAG_OTA_ON
        else if BOOTCTRL_SUPPORT_REDUNDANCY (smd_version (smd s)) then BC_FLAG_REDUNDANCY_BOOT
        else BOOT_CHAIN_REG_UPDATE_FLAG_GET (op_get_boot_slot_reg soc m))"
    "op_get_rootfs_slot_reg soc m' = op_get_rootfs_slot_reg soc m"
proof -
  have len: "length (slot_info (smd s)) = 2" by (rule wf_slots [OF assms(2)])
  have "slot = 0 \<or> slot = 1" using assms(3) by (rule less_two_cases)
  then have slot: "take_bit 3 slot = slot" "unat slot < 2" by auto
  have at: "slot_at s 0 = Some (slot_info (smd s) ! 0)" "slot_at s 1 = Some (slot_info (smd s) ! 1)"
    "slot_at s slot = Some (slot_info (smd s) ! unat slot)"
    using len slot by (simp_all add: slot_at_def)
  define r where "r = BOOT_CHAIN_REG_B_RETRY_COUNT_SET (ucast (retry_count (slot_info (smd s) ! 1)))
    (BOOT_CHAIN_REG_A_RETRY_COUNT_SET (ucast (retry_count (slot_info (smd s) ! 0)))
      (BOOT_CHAIN_REG_MAX_SLOTS_SET (ucast (num_slots (smd s)))
        (BOOT_CHAIN_REG_SLOT_NUM_SET slot (op_get_boot_slot_reg soc m))))"
  define r' where "r' = (if boot_successful (slot_info (smd s) ! unat slot) = 0
    then BOOT_CHAIN_REG_UPDATE_FLAG_SET BC_FLAG_OTA_ON r
    else if BOOTCTRL_SUPPORT_REDUNDANCY (smd_version (smd s))
    then BOOT_CHAIN_REG_UPDATE_FLAG_SET BC_FLAG_REDUNDANCY_BOOT r else r)"
  have run: "tegrabl_a_b_save_boot_slot_reg soc (Some s) slot m = Some (op_set_boot_slot_reg soc r' m)"
    unfolding r'_def r_def tegrabl_a_b_save_boot_slot_reg_def tegrabl_a_b_get_max_num_slots_def
      tegrabl_a_b_copy_retry_count_def Let_def by (simp add: at)
  show ?thesis
    by (rule that [OF run]) (simp_all add: scratchD [OF assms(1)] r'_def r_def slot)
qed

lemma take_bit_small: "unat (v :: 'a::len word) < 2 ^ n \<Longrightarrow> take_bit n v = v"
  by (simp add: word_unat_eq_iff unsigned_take_bit_eq take_bit_nat_eq_self)

lemma ucast_up_small: "unat (c :: u8) < 2 ^ n \<Longrightarrow> take_bit n (ucast c :: u32) = ucast c"
  by (rule take_bit_small) (simp add: unat_ucast_up)

lemma ucast_down_up [simp]: "ucast (ucast (c :: u8) :: u32) = c"
  by (rule bit_word_eqI) (auto simp: bit_simps)

text \<open>From a cleared register: what the selection found in the metadata is what the register tells
  later stages.\<close>

lemma boot_slot_handover:
  assumes "scratch_ok soc" and "wf_v2 s" and "num_slots (smd s) \<le> 2"
    and "BOOT_CHAIN_REG_MAGIC_GET (op_get_boot_slot_reg soc m) \<noteq> BOOT_CHAIN_REG_MAGIC"
    and "boot_chain_get_bootslot_from_smd s = Some (TEGRABL_NO_ERROR, Some slot)"
  obtains m' where "tegrabl_a_b_init_boot_slot_reg soc (Some s) m = Some (TEGRABL_NO_ERROR, m')"
    "tegrabl_a_b_get_active_slot soc None m' =
      Some (if num_slots (smd s) = 2 then (TEGRABL_NO_ERROR, Some slot)
            else (AB_ERROR TEGRABL_ERR_NOT_FOUND 0, Some BOOT_SLOT_A))"
    "op_get_rootfs_slot_reg soc m' = op_get_rootfs_slot_reg soc m"
proof -
  have magic: "smd_magic (smd s) = BOOT_CHAIN_MAGIC"
    using assms(5) by (auto simp: boot_chain_get_bootslot_from_smd_def split: if_splits)
  have num: "unat (num_slots (smd s)) \<le> 2" using assms(3) by (simp add: word_le_nat_alt)
  obtain j where j: "slot = of_nat j" "j < unat (num_slots (smd s))"
    using bootslot_from_smd_best [OF assms(2,3) magic] assms(5) by (auto simp: is_best_def)
  then have slot: "slot < 2" using num by (auto simp: word_less_nat_alt unat_of_nat)
  let ?m = "op_set_boot_slot_reg soc (BOOT_CHAIN_REG_MAGIC_SET 0) m"
  obtain m' where m': "tegrabl_a_b_save_boot_slot_reg soc (Some s) slot ?m = Some m'"
    "BOOT_CHAIN_REG_MAGIC_GET (op_get_boot_slot_reg soc m') = BOOT_CHAIN_REG_MAGIC_GET (op_get_boot_slot_reg soc ?m)"
    "BOOT_CHAIN_REG_SLOT_NUM_GET (op_get_boot_slot_reg soc m') = slot"
    "BOOT_CHAIN_REG_MAX_SLOTS_GET (op_get_boot_slot_reg soc m') = take_bit 3 (ucast (num_slots (smd s)))"
    "op_get_rootfs_slot_reg soc m' = op_get_rootfs_slot_reg soc ?m"
    by (rule save_boot_slot_reg_fields [OF assms(1,2) slot])
  have init: "tegrabl_a_b_init_boot_slot_reg soc (Some s) m = Some (TEGRABL_NO_ERROR, m')"
    using assms(4,5) m'(1) by (simp add: tegrabl_a_b_init_boot_slot_reg_def tegrabl_a_b_get_active_slot_def Let_def)
  have n: "num_slots (smd s) = 1 \<or> num_slots (smd s) = 2"
    using num j(2) by (simp add: word_unat_eq_iff) arith
  have "tegrabl_a_b_get_active_slot soc None m' =
      Some (if num_slots (smd s) = 2 then (TEGRABL_NO_ERROR, Some slot)
            else (AB_ERROR TEGRABL_ERR_NOT_FOUND 0, Some BOOT_SLOT_A))"
    using n m'(2-4) by (auto simp: tegrabl_a_b_get_active_slot_def boot_chain_get_bootslot_from_reg_def
        tegrabl_a_b_is_valid_def Let_def scratchD [OF assms(1)])
  then show ?thesis using that [OF init] m'(5) by (simp add: scratchD [OF assms(1)])
qed

text \<open>Retry counts below 16 survive the way through the register.\<close>

lemma retry_counts_roundtrip_lemma:
  assumes "wf_v2 s" and "\<forall>j<2. unat (retry_count (slot_info (smd s) ! j)) < 16"
    and "tegrabl_a_b_copy_retry_count (Some s) reg FROM_SMD_TO_REG = Some (s1, reg1)"
    and "tegrabl_a_b_copy_retry_count (Some s2) reg1 FROM_REG_TO_SMD = Some (s3, reg2)"
    and "wf_v2 s2"
  shows "s1 = s \<and> reg2 = reg1 \<and> (\<forall>j<2. slot_info (smd s3) ! j =
      (slot_info (smd s2) ! j)\<lparr>retry_count := retry_count (slot_info (smd s) ! j)\<rparr>)"
proof -
  have len: "length (slot_info (smd s)) = 2" "length (slot_info (smd s2)) = 2"
    using assms(1,5) by (simp_all add: wf_slots)
  have at: "slot_at s 0 = Some (slot_info (smd s) ! 0)" "slot_at s 1 = Some (slot_info (smd s) ! 1)"
    using len by (simp_all add: slot_at_def)
  have s1: "s1 = s" and reg1: "reg1 = BOOT_CHAIN_REG_B_RETRY_COUNT_SET (ucast (retry_count (slot_info (smd s) ! 1)))
      (BOOT_CHAIN_REG_A_RETRY_COUNT_SET (ucast (retry_count (slot_info (smd s) ! 0))) reg)"
    using assms(3) by (auto simp: tegrabl_a_b_copy_retry_count_def at Let_def)
  have small: "take_bit 4 (ucast (retry_count (slot_info (smd s) ! j)) :: u32) =
      ucast (retry_count (slot_info (smd s) ! j))" if "j < 2" for j
    using assms(2) that by (intro ucast_up_small) simp
  have s3: "s3 = update_slot 1 (\<lambda>i. i\<lparr>retry_count := retry_count (slot_info (smd s) ! 1)\<rparr>)
      (update_slot 0 (\<lambda>i. i\<lparr>retry_count := retry_count (slot_info (smd s) ! 0)\<rparr>) s2)"
    and "reg2 = reg1"
    using assms(4) small [of 0] small [of 1]
    by (simp_all add: tegrabl_a_b_copy_retry_count_def Let_def reg1)
  have "slot_info (smd s3) ! j = (slot_info (smd s2) ! j)\<lparr>retry_count := retry_count (slot_info (smd s) ! j)\<rparr>"
    if "j < 2" for j
  proof -
    have "j = 0 \<or> j = 1" using that by arith
    then show ?thesis using len by (auto simp: s3 update_slot_nth)
  qed
  then show ?thesis using s1 \<open>reg2 = reg1\<close> by simp
qed

section \<open>Root file system selection\<close>

lemma rootfs_max_retry_range:
  "tegrabl_get_rootfs_max_retry_count s \<noteq> 0" "unat (tegrabl_get_rootfs_max_retry_count s) < 4"
proof -
  show "tegrabl_get_rootfs_max_retry_count s \<noteq> 0"
    by (simp add: tegrabl_get_rootfs_max_retry_count_def Let_def)
  have "unat (GET_MAX_ROOTFS_RETRY_COUNT x) < 4" for x by simp
  then show "unat (tegrabl_get_rootfs_max_retry_count s) < 4"
    by (simp add: tegrabl_get_rootfs_max_retry_count_def Let_def)
qed

lemma update_features_simps [simp]:
  "smd (update_features f s) = smd s"
  "features (smd_ext (update_features f s)) = f (features (smd_ext s))"
  "max_bl_retry_count (smd_ext (update_features f s)) = max_bl_retry_count (smd_ext s)"
  "smd_log (smd_ext (update_features f s)) = smd_log (smd_ext s)"
  by (simp_all add: update_features_def)

lemma wf_update_features:
  "wf_v2 s \<Longrightarrow> (wf_features (features (smd_ext s)) \<Longrightarrow> wf_features (f (features (smd_ext s)))) \<Longrightarrow>
   wf_v2 (update_features f s)"
  by (simp add: wf_v2_def wf_ext_def)

lemma set_active_rootfs_result:
  assumes "wf_v2 s" and "r \<in> {ROOTFS_A, ROOTFS_B, ROOTFS_INVALID}"
  obtains s' where "tegrabl_a_b_set_active_rootfs (Some s) r = (TEGRABL_NO_ERROR, Some s')"
    "wf_v2 s'" "GET_ROOTFS_ACTIVE (ROOTFS_SELECT s') = r"
    "GET_ROOTFS_RETRY_COUNT (ROOTFS_SELECT s') = tegrabl_get_rootfs_max_retry_count s"
    "rootfs_status (features (smd_ext s')) = rootfs_status (features (smd_ext s))" "smd s' = smd s"
proof -
  have r: "take_bit 2 r = r" using assms(2) by auto
  define s1 where "s1 = update_features (\<lambda>f. f\<lparr>rootfs_select := SET_ROOTFS_ACTIVE r (rootfs_select f)\<rparr>) s"
  have mx: "tegrabl_get_rootfs_max_retry_count s1 = tegrabl_get_rootfs_max_retry_count s"
    by (simp add: s1_def tegrabl_get_rootfs_max_retry_count_def)
  let ?c = "tegrabl_get_rootfs_max_retry_count s"
  have c: "take_bit 2 ?c = ?c" using rootfs_max_retry_range(2) by (intro take_bit_small) simp
  define s2 where "s2 = update_features (\<lambda>f. f\<lparr>rootfs_select := SET_ROOTFS_RETRY_COUNT ?c (rootfs_select f)\<rparr>) s1"
  have run: "tegrabl_a_b_set_active_rootfs (Some s) r = (TEGRABL_NO_ERROR, Some s2)"
    using assms(2) by (auto simp: tegrabl_a_b_set_active_rootfs_def Let_def s1_def [symmetric] s2_def mx)
  have "wf_v2 s2" unfolding s2_def s1_def
    by (intro wf_update_features assms(1)) (simp_all add: wf_features_def)
  then show ?thesis
    by (rule that [OF run]) (simp_all add: s2_def s1_def ROOTFS_SELECT_def rootfs_select_fields [OF c]
        rootfs_select_fields [OF r])
qed

lemma rf_retry_byte: "(ucast (ROOTFS_AB_REG_RETRY_COUNT_GET r) :: u8) = 0 \<longleftrightarrow> ROOTFS_AB_REG_RETRY_COUNT_GET r = 0"
proof -
  have "unat (ROOTFS_AB_REG_RETRY_COUNT_GET r) < 4" using rf_retry.get_less [of r] by simp
  then have "unat (ucast (ROOTFS_AB_REG_RETRY_COUNT_GET r) :: u8) = unat (ROOTFS_AB_REG_RETRY_COUNT_GET r)"
    by (intro unat_ucast_small) simp
  then show ?thesis by (simp add: word_unat_eq_iff)
qed

lemma retry_field_dec:
  assumes "unat (c :: u32) < 4" "c \<noteq> 0"
  shows "take_bit 2 (c - 1) = c - 1"
proof (rule take_bit_small)
  have "unat (c - 1) = unat c - 1" using assms(2) by (simp add: unat_minus_one)
  then show "unat (c - 1) < 2 ^ 2" using assms(1) by simp
qed

lemma rootfs_selection:
  assumes sc: "scratch_ok soc" and wf: "wf_v2 s" and ver: "BOOTCTRL_SUPPORT_ROOTFS_AB (smd_version (smd s))"
    "\<not> BOOTCTRL_IS_UNIFIED_AB_ENABLED (smd_version (smd s))"
    and rid: "rid = GET_ROOTFS_ACTIVE (ROOTFS_SELECT s)"
    and cnt: "cnt = ROOTFS_AB_REG_RETRY_COUNT_GET (op_get_rootfs_slot_reg soc m)"
  obtains s' m' where "tegrabl_a_b_select_active_rootfs soc (Some s) m = Some (TEGRABL_NO_ERROR, Some s', m')"
    "wf_v2 s'" "smd s' = smd s"
    "cnt \<noteq> 0 \<Longrightarrow> s' = s \<and> ROOTFS_AB_REG_RETRY_COUNT_GET (op_get_rootfs_slot_reg soc m') = cnt - 1"
    "cnt = 0 \<Longrightarrow> rid < 2 \<Longrightarrow> rootfs_status (features (smd_ext s')) ! unat rid = ROOTFS_STATUS_BOOT_FAILED"
    "cnt = 0 \<Longrightarrow> rootfs_status (features (smd_ext s)) ! unat (c_not rid :: u32) = ROOTFS_STATUS_NORMAL \<Longrightarrow>
       GET_ROOTFS_ACTIVE (ROOTFS_SELECT s') = c_not rid \<and>
       ROOTFS_AB_REG_RETRY_COUNT_GET (op_get_rootfs_slot_reg soc m') =
         ucast (tegrabl_get_rootfs_max_retry_count s) - 1"
    "cnt = 0 \<Longrightarrow> rootfs_status (features (smd_ext s)) ! unat (c_not rid :: u32) \<noteq> ROOTFS_STATUS_NORMAL \<Longrightarrow>
       GET_ROOTFS_ACTIVE (ROOTFS_SELECT s') = ROOTFS_INVALID \<and> m' = m"
proof (cases "cnt = 0")
  case False
  let ?reg = "ROOTFS_AB_REG_RETRY_COUNT_SET (cnt - 1) (op_get_rootfs_slot_reg soc m)"
  have small: "unat cnt < 4" using rf_retry.get_less [of "op_get_rootfs_slot_reg soc m"] cnt by simp
  then have up: "ucast (ucast cnt :: u8) = cnt"
    by (simp add: word_unat_eq_iff unat_ucast_up unat_ucast_small)
  have run: "tegrabl_a_b_select_active_rootfs soc (Some s) m =
      Some (TEGRABL_NO_ERROR, Some s, op_set_rootfs_slot_reg soc ?reg m)"
    using False ver cnt rf_retry_byte [of "op_get_rootfs_slot_reg soc m"] up
    by (simp add: tegrabl_a_b_select_active_rootfs_def Let_def)
  show ?thesis
    by (rule that [OF run wf refl]) (use False small in \<open>simp_all add: scratchD [OF sc] retry_field_dec\<close>)
next
  case True
  let ?st = "rootfs_status (features (smd_ext s))"
  have lst: "length ?st = 2" using wf by (simp add: wf_v2_def wf_ext_def wf_features_def)
  define s1 where "s1 = (if rid < 2 then
    update_features (\<lambda>f. f\<lparr>rootfs_status := (rootfs_status f)[unat rid := ROOTFS_STATUS_BOOT_FAILED]\<rparr>) s else s)"
  have ge: "(2 :: u32) \<le> ucast rid \<longleftrightarrow> \<not> rid < 2" by (simp add: word_le_nat_alt word_less_nat_alt unat_ucast_up not_less)
  have set: "snd (tegrabl_a_b_set_rootfs_status (Some s) (ucast rid) ROOTFS_STATUS_BOOT_FAILED) = Some s1"
    by (simp add: tegrabl_a_b_set_rootfs_status_def s1_def ge unat_ucast_up)
  have wf1: "wf_v2 s1" unfolding s1_def using wf by (auto intro!: wf_update_features simp: wf_features_def)
  have s1: "smd s1 = smd s" "ROOTFS_SELECT s1 = ROOTFS_SELECT s"
    "tegrabl_get_rootfs_max_retry_count s1 = tegrabl_get_rootfs_max_retry_count s"
    by (simp_all add: s1_def ROOTFS_SELECT_def tegrabl_get_rootfs_max_retry_count_def)
  have failed: "rid < 2 \<Longrightarrow> rootfs_status (features (smd_ext s1)) ! unat rid = ROOTFS_STATUS_BOOT_FAILED"
    using lst by (simp add: s1_def word_less_nat_alt)
  let ?o = "c_not rid :: u32"
  have ne: "unat ?o \<noteq> unat rid" by (auto simp: c_not_def word_unat_eq_iff)
  have o2: "\<not> (2 :: u32) \<le> ?o" by (simp add: c_not_def word_le_nat_alt)
  have get: "snd (tegrabl_a_b_get_rootfs_status (Some s1) ?o True) = Some (?st ! unat ?o)"
    using o2 ne by (simp add: tegrabl_a_b_get_rootfs_status_def s1_def)
  have reg0: "(ucast (ROOTFS_AB_REG_RETRY_COUNT_GET (op_get_rootfs_slot_reg soc m)) :: u8) = 0"
    using True cnt rf_retry_byte by simp
  let ?c = "tegrabl_get_rootfs_max_retry_count s"
  show ?thesis
  proof (cases "?st ! unat ?o = ROOTFS_STATUS_NORMAL")
    case norm: True
    obtain s' where s': "tegrabl_a_b_set_active_rootfs (Some s1) (c_not rid) = (TEGRABL_NO_ERROR, Some s')"
      "wf_v2 s'" "GET_ROOTFS_ACTIVE (ROOTFS_SELECT s') = c_not rid"
      "GET_ROOTFS_RETRY_COUNT (ROOTFS_SELECT s') = tegrabl_get_rootfs_max_retry_count s1"
      "rootfs_status (features (smd_ext s')) = rootfs_status (features (smd_ext s1))" "smd s' = smd s1"
      by (rule set_active_rootfs_result [OF wf1, of "c_not rid"]) (auto simp: c_not_def)
    let ?reg = "ROOTFS_AB_REG_RETRY_COUNT_SET (ucast ?c - 1) (op_get_rootfs_slot_reg soc m)"
    have run: "tegrabl_a_b_select_active_rootfs soc (Some s) m =
        Some (TEGRABL_NO_ERROR, Some s', op_set_rootfs_slot_reg soc ?reg m)"
      using ver set get norm s' reg0 rid
      by (simp add: tegrabl_a_b_select_active_rootfs_def Let_def tegrabl_a_b_get_rootfs_retry_count_def s1)
    have "unat (ucast ?c :: u32) < 4" "(ucast ?c :: u32) \<noteq> 0"
      using rootfs_max_retry_range [of s] by (simp_all add: unat_ucast_up word_unat_eq_iff)
    then have "take_bit 2 (ucast ?c - 1 :: u32) = ucast ?c - 1" by (rule retry_field_dec)
    then show ?thesis
      by (intro that [OF run]) (use True norm s' s1 failed in \<open>simp_all add: scratchD [OF sc]\<close>)
  next
    case bad: False
    obtain s' where s': "tegrabl_a_b_set_active_rootfs (Some s1) ROOTFS_INVALID = (TEGRABL_NO_ERROR, Some s')"
      "wf_v2 s'" "GET_ROOTFS_ACTIVE (ROOTFS_SELECT s') = ROOTFS_INVALID"
      "rootfs_status (features (smd_ext s')) = rootfs_status (features (smd_ext s1))" "smd s' = smd s1"
      by (rule set_active_rootfs_result [OF wf1, of ROOTFS_INVALID]) auto
    have run: "tegrabl_a_b_select_active_rootfs soc (Some s) m = Some (TEGRABL_NO_ERROR, Some s', m)"
      using ver set get bad s' reg0 rid by (simp add: tegrabl_a_b_select_active_rootfs_def Let_def s1)
    show ?thesis by (intro that [OF run]) (use True bad s' s1 failed in simp_all)
  qed
qed

section \<open>Redundancy for the kernel\<close>

lemma set_retry_count_reg_fields:
  assumes "scratch_ok soc" and "slot < 2" and "unat cnt < 16"
  shows "BOOT_CHAIN_REG_MAGIC_GET (op_get_boot_slot_reg soc (tegrabl_a_b_set_retry_count_reg soc slot cnt m)) =
      BOOT_CHAIN_REG_MAGIC_GET (op_get_boot_slot_reg soc m)"
    and "tegrabl_a_b_get_retry_count_reg slot
        (op_get_boot_slot_reg soc (tegrabl_a_b_set_retry_count_reg soc slot cnt m)) = Some cnt"
    and "tegrabl_a_b_get_retry_count_reg (c_not slot)
        (op_get_boot_slot_reg soc (tegrabl_a_b_set_retry_count_reg soc slot cnt m)) =
      tegrabl_a_b_get_retry_count_reg (c_not slot) (op_get_boot_slot_reg soc m)"
    and "op_get_rootfs_slot_reg soc (tegrabl_a_b_set_retry_count_reg soc slot cnt m) = op_get_rootfs_slot_reg soc m"
  using less_two_cases [OF assms(2)] ucast_up_small [of cnt 4] assms(3)
  by (auto simp: tegrabl_a_b_set_retry_count_reg_def tegrabl_a_b_get_retry_count_reg_def scratchD [OF assms(1)]
      Let_def c_not_def)

lemma set_retry_count_reg_magic:
  assumes "scratch_ok soc"
  shows "BOOT_CHAIN_REG_MAGIC_GET (op_get_boot_slot_reg soc (tegrabl_a_b_set_retry_count_reg soc slot cnt m)) =
      BOOT_CHAIN_REG_MAGIC_GET (op_get_boot_slot_reg soc m)"
    and "op_get_rootfs_slot_reg soc (tegrabl_a_b_set_retry_count_reg soc slot cnt m) = op_get_rootfs_slot_reg soc m"
  by (simp_all add: tegrabl_a_b_set_retry_count_reg_def scratchD [OF assms] Let_def)

lemma get_priority_ok:
  "slot < 2 \<Longrightarrow> tegrabl_a_b_get_priority (Some s) slot True =
    (TEGRABL_NO_ERROR, Some (prio s (unat slot)))"
  by (simp add: tegrabl_a_b_get_priority_def slot_getter_def not_le)

definition rotate_of :: "'m soc_ops \<Rightarrow> 'm \<Rightarrow> nat" where
  "rotate_of soc m = unat (ROOTFS_AB_REG_ROTATE_COUNT_GET (op_get_rootfs_slot_reg soc m))"

lemma rotate_of_less: "rotate_of soc m < 16"
  using rf_rotate.get_less [of "op_get_rootfs_slot_reg soc m"] by (simp add: rotate_of_def)

lemma rotate_byte:
  "unat (ucast (ROOTFS_AB_REG_ROTATE_COUNT_GET (op_get_rootfs_slot_reg soc m)) :: u8) = rotate_of soc m"
  unfolding rotate_of_def using rotate_of_less [of soc m] by (intro unat_ucast_small) (simp add: rotate_of_def)

lemma max_rotate_count_range: "unat (get_max_rotate_count s) \<in> {2, 4}"
proof -
  define c where "c = unat (tegrabl_get_max_retry_count s)"
  have "0 < c" "c \<le> 7"
    using max_retry_count_range [of s] by (simp_all add: c_def word_less_nat_alt word_le_nat_alt)
  moreover from this have "unat (tegrabl_get_max_retry_count s * 2) = c * 2"
    by (simp add: c_def unat_word_ariths(2))
  ultimately show ?thesis
    by (auto simp: get_max_rotate_count_def Let_def word_less_nat_alt)
qed

text \<open>The slots change places in priority.\<close>

definition swapped :: "u32 \<Rightarrow> slot_meta_data_v2 \<Rightarrow> slot_meta_data_v2" where
  "swapped slot s = update_slot (c_not slot) (\<lambda>i. i\<lparr>priority := 15\<rparr>) (update_slot slot (\<lambda>i. i\<lparr>priority := 14\<rparr>) s)"

lemma user_redundancy:
  assumes sc: "scratch_ok soc" and slot: "slot = BOOT_CHAIN_REG_SLOT_NUM_GET bl_reg" "slot < 2"
    and magic: "ROOTFS_AB_REG_MAGIC_GET (op_get_rootfs_slot_reg soc m) = ROOTFS_AB_REG_MAGIC"
    and pr: "prio s (unat (c_not slot :: u32)) \<le> prio s (unat slot)"
  obtains s' m' where "check_user_redundancy_status soc bl_reg s m = Some (TEGRABL_NO_ERROR, s', m')"
    "tegrabl_a_b_get_retry_count_reg slot (op_get_boot_slot_reg soc m') = Some (tegrabl_get_max_retry_count s)"
    "rotate_of soc m' = (rotate_of soc m + 1) mod 16"
    "ROOTFS_AB_REG_MAGIC_GET (op_get_rootfs_slot_reg soc m') = ROOTFS_AB_REG_MAGIC"
    "s' = (if (rotate_of soc m + 1 = unat (get_max_rotate_count s) div 2 \<or>
               rotate_of soc m + 1 = unat (get_max_rotate_count s)) \<and>
              tegrabl_a_b_get_retry_count_reg (c_not slot) (op_get_boot_slot_reg soc m) \<noteq> Some 0 \<and>
              prio s (unat slot) \<noteq> 0 \<and> prio s (unat (c_not slot :: u32)) \<noteq> 0
           then swapped slot s else s)"
proof -
  define m1 where "m1 = tegrabl_a_b_set_retry_count_reg soc slot (tegrabl_get_max_retry_count s) m"
  have small: "unat (tegrabl_get_max_retry_count s) < 16"
    using max_retry_count_range(2) [of s] by (simp add: word_le_nat_alt)
  note F = set_retry_count_reg_fields [OF sc slot(2) small, of m, folded m1_def]
  define rc where "rc = (ucast (ROOTFS_AB_REG_ROTATE_COUNT_GET (op_get_rootfs_slot_reg soc m)) :: u8) + 1"
  have urc: "unat rc = rotate_of soc m + 1"
    using rotate_byte [of soc m] rotate_of_less [of soc m] by (simp add: rc_def unat_word_ariths(1))
  have o2: "(c_not slot :: u32) < 2" by (simp add: c_not_def word_less_nat_alt)
  obtain oc where oc: "tegrabl_a_b_get_retry_count_reg (c_not slot) (op_get_boot_slot_reg soc m1) = Some oc"
    by (cases "slot = 0") (auto simp: tegrabl_a_b_get_retry_count_reg_def c_not_def)
  define m' where "m' = op_set_rootfs_slot_reg soc (ROOTFS_AB_REG_ROTATE_COUNT_SET (ucast rc)
      (op_get_rootfs_slot_reg soc m)) m1"
  have hit: "rc = get_max_rotate_count s div 2 \<or> rc = get_max_rotate_count s \<longleftrightarrow>
      rotate_of soc m + 1 = unat (get_max_rotate_count s) div 2 \<or>
      rotate_of soc m + 1 = unat (get_max_rotate_count s)"
    unfolding urc [symmetric] by (simp add: word_unat_eq_iff unat_div)
  define s' where "s' = (if (rc = get_max_rotate_count s div 2 \<or> rc = get_max_rotate_count s) \<and>
      oc \<noteq> 0 \<and> prio s (unat slot) \<noteq> 0 \<and> prio s (unat (c_not slot :: u32)) \<noteq> 0 then swapped slot s else s)"
  have set: "snd (tegrabl_a_b_set_priority (snd (tegrabl_a_b_set_priority (Some s) slot 14)) (c_not slot) 15) =
      Some (swapped slot s)"
    using slot(2) o2 by (simp add: tegrabl_a_b_set_priority_def slot_setter_def swapped_def not_le)
  have run: "check_user_redundancy_status soc bl_reg s m = Some (TEGRABL_NO_ERROR, s', m')"
    unfolding check_user_redundancy_status_def Let_def slot(1) [symmetric] m1_def [symmetric] F(4)
      get_priority_ok [OF slot(2)] get_priority_ok [OF o2] rc_def [symmetric]
    by (simp add: magic TEGRABL_ASSERT_def oc pr set s'_def m'_def)
  have "unat (ROOTFS_AB_REG_ROTATE_COUNT_GET (op_get_rootfs_slot_reg soc m')) = unat rc mod 16"
    unfolding m'_def scratchD [OF sc] rf_rotate.get_put unsigned_take_bit_eq
    by (simp add: take_bit_eq_mod unat_ucast_up)
  then have rot: "rotate_of soc m' = (rotate_of soc m + 1) mod 16" unfolding urc by (simp add: rotate_of_def)
  have oc': "tegrabl_a_b_get_retry_count_reg (c_not slot) (op_get_boot_slot_reg soc m) = Some oc"
    using oc F(3) by simp
  have s': "s' = (if (rotate_of soc m + 1 = unat (get_max_rotate_count s) div 2 \<or>
               rotate_of soc m + 1 = unat (get_max_rotate_count s)) \<and>
              tegrabl_a_b_get_retry_count_reg (c_not slot) (op_get_boot_slot_reg soc m) \<noteq> Some 0 \<and>
              prio s (unat slot) \<noteq> 0 \<and> prio s (unat (c_not slot :: u32)) \<noteq> 0
           then swapped slot s else s)"
    unfolding s'_def hit oc' by simp
  show ?thesis
    by (rule that [OF run _ rot _ s']) (use F(2) magic in \<open>simp_all add: m'_def scratchD [OF sc]\<close>)
qed

end
