(* ===== verification/Ab_Boot_Properties.thy ===== *)
theory Ab_Boot_Properties
  imports Ab_Boot_Correct
begin

text \<open>
  The properties of A/B boot control on metadata and registers, with a pair of words as the scratch
  registers and one concrete metadata buffer for the witnesses.
\<close>

section \<open>A concrete instance\<close>

text \<open>Two scratch registers as a pair, and metadata with both slots bootable.\<close>

definition pair_soc :: "(u32 \<times> u32) soc_ops" where
  "pair_soc = \<lparr>op_get_boot_slot_reg = fst, op_set_boot_slot_reg = (\<lambda>v m. (v, snd m)),
     op_get_rootfs_slot_reg = snd, op_set_rootfs_slot_reg = (\<lambda>v m. (fst m, v))\<rparr>"

lemma pair_soc_ok: "scratch_ok pair_soc"
  by (simp add: scratch_ok_def pair_soc_def)

definition demo_smd_v2 :: "u16 \<Rightarrow> u16 \<Rightarrow> slot_meta_data_v2" where
  "demo_smd_v2 version n =
     \<lparr>smd = \<lparr>smd_magic = BOOT_CHAIN_MAGIC, smd_version = version, num_slots = n,
              slot_info = [\<lparr>priority = 15, suffix = [0x5f, 0x61], retry_count = 2, boot_successful = 0\<rparr>,
                           \<lparr>priority = 14, suffix = [0x5f, 0x62], retry_count = 7, boot_successful = 0\<rparr>],
              smd_crc32 = 0\<rparr>,
      smd_ext = \<lparr>ext_crc32 = 0, crc32_len = 165, ext_magic = 0x43424E45, ext_version = 1,
                 features = \<lparr>rootfs_select = 3, rootfs_status = [0, 0], rootfs_update_mode = [0, 0],
                             rootfs_misc_info = 3, features_reserved = [0, 0]\<rparr>,
                 max_bl_retry_count = 7, smd_log = replicate 144 0\<rparr>\<rparr>"

lemma demo_smd_wf: "wf_v2 (demo_smd_v2 v n)"
  by (simp add: demo_smd_v2_def wf_v2_def wf_smd_def wf_slot_def wf_ext_def wf_features_def)

lemma demo_smd_fields [simp]:
  "smd_magic (smd (demo_smd_v2 v n)) = BOOT_CHAIN_MAGIC" "smd_version (smd (demo_smd_v2 v n)) = v"
  "num_slots (smd (demo_smd_v2 v n)) = n"
  by (simp_all add: demo_smd_v2_def)

lemma demo_slots:
  assumes "j < 2"
  shows "boot_successful (slot_info (smd (demo_smd_v2 v n)) ! j) = 0" "prio (demo_smd_v2 v n) j \<le> 15"
proof -
  have "j = 0 \<or> j = 1" using assms by arith
  then show "boot_successful (slot_info (smd (demo_smd_v2 v n)) ! j) = 0" "prio (demo_smd_v2 v n) j \<le> 15"
    by (auto simp: demo_smd_v2_def)
qed

lemma demo_bootable: "bootable (demo_smd_v2 v n) 0"
  by (simp add: bootable_def demo_smd_v2_def)

section \<open>Properties\<close>



text \<open>
  The number of slots is taken from storage and never compared with the size of the slot array:
  metadata with a valid magic that claims more than two slots makes the selection read past the
  array.
\<close>

theorem slot_count_overruns_array:
  assumes "wf_v2 s" and "smd_magic (smd s) = BOOT_CHAIN_MAGIC" and "num_slots (smd s) > 2"
  shows "tegrabl_a_b_get_active_slot soc (Some s) m = None \<and> tegrabl_a_b_is_valid soc (Some s) m"
proof -
  have n: "2 < unat (num_slots (smd s))" using assms(3) by (simp add: word_less_nat_alt)
  have "unat (num_slots (smd s)) < 2 ^ 32"
    using unsigned_less [of "num_slots (smd s)", where 'a = nat] by simp
  then have "scan_slots s (unat (num_slots (smd s))) 0 0 None = None"
    using n by (intro scan_slots_overrun) (simp_all add: wf_slots [OF assms(1)])
  moreover have "num_slots (smd s) > 1" using n by (simp add: word_less_nat_alt)
  ultimately show ?thesis
    using assms(2) by (simp add: tegrabl_a_b_get_active_slot_def boot_chain_get_bootslot_from_smd_def
        tegrabl_a_b_is_valid_def)
qed

text \<open>
  Activating a slot works: with priorities in their documented range (at most 15) the slot that
  \<open>tegrabl_a_b_set_active_slot\<close> is given is the one the selection returns afterwards.
\<close>

theorem set_active_slot_selected:
  assumes "wf_v2 s" and "smd_magic (smd s) = BOOT_CHAIN_MAGIC" and "num_slots (smd s) = 2"
    and "slot < 2" and "\<forall>j<2. prio s j \<le> 15"
  shows "\<exists>s'. tegrabl_a_b_set_active_slot (Some s) slot = (TEGRABL_NO_ERROR, Some s') \<and>
    tegrabl_a_b_get_active_slot soc (Some s') m = Some (TEGRABL_NO_ERROR, Some slot)"
proof -
  obtain s' where s': "tegrabl_a_b_set_active_slot (Some s) slot = (TEGRABL_NO_ERROR, Some s')" "wf_v2 s'"
    "smd_magic (smd s') = BOOT_CHAIN_MAGIC" "num_slots (smd s') = 2"
    "\<forall>j<2. slot_info (smd s') ! j =
       (if j = unat slot
        then (slot_info (smd s) ! j)\<lparr>priority := 15, retry_count := tegrabl_get_max_retry_count s,
               boot_successful := 0\<rparr>
        else lower_priority (slot_info (smd s) ! j))"
    using set_active_slot_result [OF assms(1,4)] assms(2,3) by auto
  have us: "unat slot < 2" using assms(4) by (simp add: word_less_nat_alt)
  have "0 < tegrabl_get_max_retry_count s" by (rule max_retry_count_range)
  then have b: "bootable s' (unat slot)" "prio s' (unat slot) = 15"
    using s'(5) us by (auto simp: bootable_def)
  have low: "prio s' j < 15" if "j < 2" "j \<noteq> unat slot" for j
  proof -
    have "prio s j \<le> 15" using assms(5) that(1) by blast
    then have "unat (prio s j) \<le> 15" by (simp add: word_le_nat_alt)
    moreover have "unat (prio s j - 1) = unat (prio s j) - 1" if "prio s j > 1"
      using that by (intro unat_minus_one) auto
    moreover have "prio s' j = (if prio s j > 1 then prio s j - 1 else prio s j)"
      using s'(5) that by (simp add: lower_priority_def)
    ultimately show ?thesis by (auto simp: word_less_nat_alt)
  qed
  from bootslot_from_smd_best [OF s'(2) _ s'(3)] b us
  obtain j where j: "boot_chain_get_bootslot_from_smd s' = Some (TEGRABL_NO_ERROR, Some (of_nat j))"
    "is_best s' 2 j" by (auto simp: s'(4))
  then have "prio s' (unat slot) \<le> prio s' j" "j < 2" using b(1) us by (auto simp: is_best_def)
  then have "j = unat slot" using low [of j] b(2) by (auto simp: not_less [symmetric])
  then show ?thesis using s'(1) j(1) by (simp add: tegrabl_a_b_get_active_slot_def)
qed



text \<open>
  Handing the choice to later boot stages: from a boot slot register without its magic,
  initialisation stores the selected slot, and asking for the active slot without metadata then gives
  the same slot on an A/B device, and slot A with "not found" on a device with one slot. The root
  file system register is not touched.
\<close>

theorem boot_slot_register_handover:
  assumes "scratch_ok soc" and "wf_v2 s" and "num_slots (smd s) \<le> 2"
    and "BOOT_CHAIN_REG_MAGIC_GET (op_get_boot_slot_reg soc m) \<noteq> BOOT_CHAIN_REG_MAGIC"
    and "tegrabl_a_b_get_active_slot soc (Some s) m = Some (TEGRABL_NO_ERROR, Some slot)"
  shows "\<exists>m'. tegrabl_a_b_init_boot_slot_reg soc (Some s) m = Some (TEGRABL_NO_ERROR, m') \<and>
    tegrabl_a_b_get_active_slot soc None m' =
      Some (if num_slots (smd s) = 2 then (TEGRABL_NO_ERROR, Some slot)
            else (AB_ERROR TEGRABL_ERR_NOT_FOUND 0, Some BOOT_SLOT_A)) \<and>
    op_get_rootfs_slot_reg soc m' = op_get_rootfs_slot_reg soc m"
proof -
  have "boot_chain_get_bootslot_from_smd s = Some (TEGRABL_NO_ERROR, Some slot)"
    using assms(5) by (simp add: tegrabl_a_b_get_active_slot_def)
  then show ?thesis by (rule boot_slot_handover [OF assms(1-4)]) blast
qed

text \<open>
  Retry counts survive the register: copying the counts of one metadata buffer to the register and
  from the register into another buffer gives that buffer the first one's retry counts and changes
  nothing else of its slots, for counts below 16 (the register has four bits for each).
\<close>

theorem retry_counts_roundtrip:
  assumes "wf_v2 s" and "wf_v2 s2" and "\<forall>j<2. unat (retry_count (slot_info (smd s) ! j)) < 16"
    and "tegrabl_a_b_copy_retry_count (Some s) reg FROM_SMD_TO_REG = Some (s1, reg1)"
    and "tegrabl_a_b_copy_retry_count (Some s2) reg1 FROM_REG_TO_SMD = Some (s3, reg2)"
  shows "s1 = s \<and> reg2 = reg1 \<and> (\<forall>j<2. slot_info (smd s3) ! j =
      (slot_info (smd s2) ! j)\<lparr>retry_count := retry_count (slot_info (smd s) ! j)\<rparr>)"
  by (rule retry_counts_roundtrip_lemma [OF assms(1,3,4,5,2)])

text \<open>
  Choosing the root file system when it has A/B copies of its own. While the register's retry
  count is positive it is decremented and the metadata stays; at 0 the current file system is marked
  as failed, and either the other one becomes active with a full retry count (stored decremented in
  the register) or, when the other one is not in the normal state, none is active any more. The count
  is never decremented from 0.
\<close>

theorem rootfs_selection_exact:
  assumes "scratch_ok soc" and "wf_v2 s" and "BOOTCTRL_SUPPORT_ROOTFS_AB (smd_version (smd s))"
    and "\<not> BOOTCTRL_IS_UNIFIED_AB_ENABLED (smd_version (smd s))"
  shows "let rid = GET_ROOTFS_ACTIVE (ROOTFS_SELECT s);
             cnt = ROOTFS_AB_REG_RETRY_COUNT_GET (op_get_rootfs_slot_reg soc m);
             other_ok = (rootfs_status (features (smd_ext s)) ! unat (c_not rid :: u32) = ROOTFS_STATUS_NORMAL)
         in \<exists>s' m'. tegrabl_a_b_select_active_rootfs soc (Some s) m = Some (TEGRABL_NO_ERROR, Some s', m') \<and>
              smd s' = smd s \<and>
              (if cnt \<noteq> 0
               then s' = s \<and> ROOTFS_AB_REG_RETRY_COUNT_GET (op_get_rootfs_slot_reg soc m') = cnt - 1
               else (rid < 2 \<longrightarrow> rootfs_status (features (smd_ext s')) ! unat rid = ROOTFS_STATUS_BOOT_FAILED) \<and>
                 (if other_ok
                  then GET_ROOTFS_ACTIVE (ROOTFS_SELECT s') = c_not rid \<and>
                    ROOTFS_AB_REG_RETRY_COUNT_GET (op_get_rootfs_slot_reg soc m') =
                      ucast (tegrabl_get_rootfs_max_retry_count s) - 1
                  else GET_ROOTFS_ACTIVE (ROOTFS_SELECT s') = ROOTFS_INVALID \<and> m' = m))"
  unfolding Let_def
  by (rule rootfs_selection [OF assms refl refl, of m]) auto

text \<open>
  Boots that do not reach the kernel, with redundancy for the kernel. Each pass restores the
  bootloader's retry count of the current slot and counts one rotation; when half of the rotations or
  all of them are used up and both slots are bootable, the slots swap priorities (14 and 15), and
  after the last one (\<open>get_max_rotate_count\<close>, which is 2 or 4) the check for recovery answers yes and
  resets the count, never before.
\<close>

theorem kernel_redundancy_rotates:
  assumes "scratch_ok soc" and "slot = BOOT_CHAIN_REG_SLOT_NUM_GET bl_reg" and "slot < 2"
    and "ROOTFS_AB_REG_MAGIC_GET (op_get_rootfs_slot_reg soc m) = ROOTFS_AB_REG_MAGIC"
    and "prio s (unat (c_not slot :: u32)) \<le> prio s (unat slot)"
    and "BOOTCTRL_SUPPORT_REDUNDANCY_USER (smd_version (smd s))"
    and "rotate_of soc m < unat (get_max_rotate_count s)"
  shows "\<exists>s' m' m''. check_redundancy_status soc bl_reg s m = Some (TEGRABL_NO_ERROR, s', m') \<and>
    tegrabl_a_b_get_retry_count_reg slot (op_get_boot_slot_reg soc m') = Some (tegrabl_get_max_retry_count s) \<and>
    rotate_of soc m' = rotate_of soc m + 1 \<and>
    s' = (if rotate_of soc m' \<in> {unat (get_max_rotate_count s) div 2, unat (get_max_rotate_count s)} \<and>
             tegrabl_a_b_get_retry_count_reg (c_not slot) (op_get_boot_slot_reg soc m) \<noteq> Some 0 \<and>
             prio s (unat slot) \<noteq> 0 \<and> prio s (unat (c_not slot :: u32)) \<noteq> 0
          then swapped slot s else s) \<and>
    rootfs_all_unbootable soc s' m' = Some (rotate_of soc m' = unat (get_max_rotate_count s), m'') \<and>
    (rotate_of soc m' = unat (get_max_rotate_count s) \<longrightarrow> rotate_of soc m'' = 0)"
proof -
  obtain s' m' where r: "check_user_redundancy_status soc bl_reg s m = Some (TEGRABL_NO_ERROR, s', m')"
    "tegrabl_a_b_get_retry_count_reg slot (op_get_boot_slot_reg soc m') = Some (tegrabl_get_max_retry_count s)"
    "rotate_of soc m' = (rotate_of soc m + 1) mod 16"
    "ROOTFS_AB_REG_MAGIC_GET (op_get_rootfs_slot_reg soc m') = ROOTFS_AB_REG_MAGIC"
    "s' = (if (rotate_of soc m + 1 = unat (get_max_rotate_count s) div 2 \<or>
               rotate_of soc m + 1 = unat (get_max_rotate_count s)) \<and>
              tegrabl_a_b_get_retry_count_reg (c_not slot) (op_get_boot_slot_reg soc m) \<noteq> Some 0 \<and>
              prio s (unat slot) \<noteq> 0 \<and> prio s (unat (c_not slot :: u32)) \<noteq> 0
           then swapped slot s else s)"
    by (rule user_redundancy [OF assms(1-5)])
  have mx: "get_max_rotate_count s' = get_max_rotate_count s" "smd_version (smd s') = smd_version (smd s)"
    by (simp_all add: r(5) swapped_def get_max_rotate_count_def)
  have rot: "rotate_of soc m' = rotate_of soc m + 1"
    using r(3) assms(7) max_rotate_count_range [of s] by auto
  define m'' where "m'' = (if rotate_of soc m' = unat (get_max_rotate_count s)
    then op_set_rootfs_slot_reg soc (ROOTFS_AB_REG_ROTATE_COUNT_SET 0 (op_get_rootfs_slot_reg soc m')) m' else m')"
  have "get_max_rotate_count s \<le> ucast (ROOTFS_AB_REG_ROTATE_COUNT_GET (op_get_rootfs_slot_reg soc m')) \<longleftrightarrow>
      rotate_of soc m' = unat (get_max_rotate_count s)"
    using rot assms(7) by (simp only: word_le_nat_alt rotate_byte) auto
  then have "rootfs_all_unbootable soc s' m' = Some (rotate_of soc m' = unat (get_max_rotate_count s), m'')"
    using r(4) assms(6) by (simp add: rootfs_all_unbootable_def mx Let_def TEGRABL_ASSERT_def m''_def)
  moreover have "rotate_of soc m'' = 0" if "rotate_of soc m' = unat (get_max_rotate_count s)"
    using that by (simp add: m''_def rotate_of_def scratchD [OF assms(1)])
  moreover have "check_redundancy_status soc bl_reg s m = Some (TEGRABL_NO_ERROR, s', m')"
    using assms(6) r(1) by (simp add: check_redundancy_status_def)
  ultimately show ?thesis using r(2,5) rot by auto
qed

text \<open>
  The packed layout of the metadata is faithful both ways: the 191 bytes of a buffer determine the
  struct they hold, and reading back the bytes of a struct returns it.
\<close>

theorem smd_layout_roundtrip:
  "(wf_v2 s \<longrightarrow> length (enc_smd_v2 s) = 191 \<and> dec_smd_v2 (enc_smd_v2 s) = s) \<and>
   (length b = 191 \<longrightarrow> wf_v2 (dec_smd_v2 b) \<and> enc_smd_v2 (dec_smd_v2 b) = b)"
  using v2.length_enc v2.dec_enc_exact v2.wf_dec v2.enc_dec by simp

end
