(* ===== verification/Partition_Correct.thy ===== *)
theory Partition_Correct
  imports Partition_Manager Gpt_Correct
begin

text \<open>
  Correctness of the partition manager. A partition is again a byte store (the interpretation
  \<open>pt\<close> of \<open>byte_store\<close>): its image is the part of the device between its first and last
  sector. On top of it: reads and writes that succeed, isolation of partitions from each other,
  lookup by name, seeking, publishing, and the verification of written partitions by CRC.
\<close>

lemma unat_add_nowrap: "unat a + unat b < 2 ^ 64 \<Longrightarrow> unat (a + b :: u64) = unat a + unat b"
  by (simp add: unat_word_ariths(1))

section \<open>A partition as a byte store\<close>

definition part_handle :: "tegrabl_partition_info \<Rightarrow> nat \<Rightarrow> u64 \<Rightarrow> tegrabl_partition" where
  "part_handle info a off = \<lparr>partition_info = Some info, block_device = Some a, part_offset = off\<rparr>"

definition part_dev :: "nat \<Rightarrow> 'd pm_state \<Rightarrow> 'd tegrabl_bdev" where
  "part_dev a s = the (dev_heap (bd s) a)"

definition part_start :: "tegrabl_partition_info \<Rightarrow> nat \<Rightarrow> 'd pm_state \<Rightarrow> nat" where
  "part_start info a s = unat (start_sector info) * bdev_gran (part_dev a s)"

definition part_img :: "('d \<Rightarrow> bytes) \<Rightarrow> tegrabl_partition_info \<Rightarrow> nat \<Rightarrow> 'd pm_state \<Rightarrow> bytes" where
  "part_img contents info a s =
     subrange (part_start info a s) (unat (total_size info)) (bdev_img contents (part_dev a s))"

definition part_ok :: "('d \<Rightarrow> bytes) \<Rightarrow> tegrabl_partition_info \<Rightarrow> nat \<Rightarrow> 'd pm_state \<Rightarrow> bool" where
  "part_ok contents info a s \<longleftrightarrow>
     dev_heap (bd s) a \<noteq> None \<and> bdev_ok contents (part_dev a s) \<and>
     unat (total_size info) = unat (num_sectors info) * bdev_gran (part_dev a s) \<and>
     part_start info a s + unat (total_size info) \<le> length (bdev_img contents (part_dev a s))"

definition part_rd where
  "part_rd alloc info a s buf off n =
     (case tegrabl_partition_read alloc (part_handle info a off) buf n s of
        (((e, d), p), s') \<Rightarrow> ((e, d), s'))"

definition part_wr where
  "part_wr alloc info a s buf d off n =
     (case tegrabl_partition_write alloc (part_handle info a off) buf d n s of
        ((e, p), s') \<Rightarrow> (e, s'))"

lemma on_dev_some:
  "dev_heap b a = Some d \<Longrightarrow> on_dev (Some a) null f b = (case f d of (r, d') \<Rightarrow> (r, dev_update a d' b))"
  by (simp add: on_dev_def)

lemma part_start_word:
  assumes "part_ok contents info a s"
  shows "unat (push_bit (unat (dev_log2 a s)) (start_sector info)) = part_start info a s"
    and "part_start info a s + unat (total_size info) < 2 ^ 64"
proof -
  obtain d where d: "dev_heap (bd s) a = Some d" "part_dev a s = d"
    using assms by (auto simp: part_ok_def part_dev_def)
  have ok: "bdev_ok contents d" using assms d by (simp add: part_ok_def)
  have "length (bdev_img contents d) < 2 ^ 64"
    using bdev_size_unat [OF ok] unat_u64_bound [of "dev_size d"] by simp
  then show "part_start info a s + unat (total_size info) < 2 ^ 64"
    using assms d by (simp add: part_ok_def)
  then have "unat (start_sector info) * 2 ^ unat (block_size_log2 d) < 2 ^ 64"
    using d by (simp add: part_start_def bdev_gran_def)
  then show "unat (push_bit (unat (dev_log2 a s)) (start_sector info)) = part_start info a s"
    using unat_shift_left [of "start_sector info" "unat (block_size_log2 d)"] d
    by (simp add: dev_log2_def part_start_def bdev_gran_def)
qed

lemma part_dev_update:
  "part_dev a (s\<lparr>bd := dev_update a d (bd s)\<rparr>) = d"
  by (simp add: part_dev_def dev_update_def)

lemma part_ok_update:
  assumes "part_ok contents info a s" and "same_dev contents (part_dev a s) d"
    and "length (bdev_img contents d) = length (bdev_img contents (part_dev a s))"
  shows "part_ok contents info a (s\<lparr>bd := dev_update a d (bd s)\<rparr>)"
  using assms same_devD [OF assms(2)]
  by (auto simp: part_ok_def part_dev_update part_start_def) (simp add: dev_update_def)

text \<open>The offset on the device of a range inside the partition.\<close>

lemma part_offset_word:
  assumes "part_ok contents info a s" and "unat off + unat n \<le> unat (total_size info)"
  shows "unat (off + push_bit (unat (dev_log2 a s)) (start_sector info)) = part_start info a s + unat off"
    and "part_start info a s + unat off + unat n < 2 ^ 64"
proof -
  define P where "P = push_bit (unat (dev_log2 a s)) (start_sector info)"
  have P: "unat P = part_start info a s"
    unfolding P_def by (rule part_start_word(1) [OF assms(1)])
  show sum: "part_start info a s + unat off + unat n < 2 ^ 64"
    using assms(2) part_start_word(2) [OF assms(1)] by linarith
  then have "unat off + unat P < 2 ^ 64" using P by linarith
  then have "unat (off + P) = unat off + unat P" by (rule unat_add_nowrap)
  then show "unat (off + push_bit (unat (dev_log2 a s)) (start_sector info)) =
      part_start info a s + unat off"
    unfolding P_def [symmetric] using P by linarith
qed

lemma check_part_range:
  "unat off + unat n < 2 ^ 64 \<Longrightarrow> \<not> total_size info < n + off \<longleftrightarrow> unat off + unat n \<le> unat (total_size info)"
  using unat_add_nowrap [of n off] by (simp add: word_less_nat_alt not_less add.commute)

lemma part_rd_cases:
  assumes run: "part_rd alloc info a s buf off n = ((e, d), s')" and ok: "part_ok contents info a s"
    and nowrap: "unat off + unat n < 2 ^ 64"
  obtains (rejected) "e \<noteq> TEGRABL_NO_ERROR" "s' = s"
  | (dev) e0 d' where "unat off + unat n \<le> unat (total_size info)"
      "bdev_read alloc (part_dev a s) buf (off + push_bit (unat (dev_log2 a s)) (start_sector info)) n =
        ((e0, d), d')"
      "s' = s\<lparr>bd := dev_update a d' (bd s)\<rparr>" "e = TEGRABL_NO_ERROR \<longleftrightarrow> e0 = TEGRABL_NO_ERROR"
proof -
  obtain dv where dv: "dev_heap (bd s) a = Some dv" "part_dev a s = dv"
    using ok by (auto simp: part_ok_def part_dev_def)
  obtain e0 d0 dv' where r: "bdev_read alloc dv buf
      (off + push_bit (unat (dev_log2 a s)) (start_sector info)) n = ((e0, d0), dv')"
    by (metis surj_pair)
  show ?thesis
    using run rejected dev [of e0 dv'] r dv check_part_range [OF nowrap, of info]
    by (auto simp: part_rd_def tegrabl_partition_read_def part_handle_def handle_parts_def Let_def
        tegrabl_blockdev_read_def on_dev_some split: if_splits)
qed

lemma part_wr_cases:
  assumes run: "part_wr alloc info a s buf d off n = (e, s')" and ok: "part_ok contents info a s"
    and nowrap: "unat off + unat n < 2 ^ 64"
  obtains (rejected) "e \<noteq> TEGRABL_NO_ERROR" "s' = s"
  | (dev) e0 d' where "unat off + unat n \<le> unat (total_size info)"
      "bdev_write alloc (part_dev a s) buf d (off + push_bit (unat (dev_log2 a s)) (start_sector info)) n =
        (e0, d')"
      "s' = s\<lparr>bd := dev_update a d' (bd s)\<rparr>" "e = TEGRABL_NO_ERROR \<longleftrightarrow> e0 = TEGRABL_NO_ERROR"
proof -
  obtain dv where dv: "dev_heap (bd s) a = Some dv" "part_dev a s = dv"
    using ok by (auto simp: part_ok_def part_dev_def)
  obtain e0 dv' where r: "bdev_write alloc dv buf d
      (off + push_bit (unat (dev_log2 a s)) (start_sector info)) n = (e0, dv')"
    by (metis surj_pair)
  show ?thesis
    using run rejected dev [of e0 dv'] r dv check_part_range [OF nowrap, of info]
    by (auto simp: part_wr_def tegrabl_partition_write_def part_handle_def handle_parts_def Let_def
        tegrabl_blockdev_write_def on_dev_some split: if_splits)
qed


lemma same_outside_shift:
  assumes "same_outside a b xs ys" and "k \<le> a"
  shows "same_outside (a - k) (b - k) (subrange k n xs) (subrange k n ys)"
proof -
  have tk: "take (a - k) (subrange k n zs) = take (min (a - k) n) (drop k (take a zs))" for zs :: "'a list"
    using assms(2) by (simp add: subrange_def drop_take min_def)
  have dr: "drop (b - k) (subrange k n zs) =
      take (n - (b - k)) (drop (k - b) (drop b zs))" for zs :: "'a list"
    by (simp add: subrange_def drop_take) (metis add.commute diff_add_inverse le_add_diff_inverse nat_le_linear diff_is_0_eq add_0)
  show ?thesis
    using assms(1) unfolding same_outside_def tk dr by (auto simp: same_outside_def)
qed


lemma floor_to_add: "0 < g \<Longrightarrow> floor_to g (k * g + n) = k * g + floor_to g n"
  by (simp add: floor_to_def add_mult_distrib)

lemma ceil_to_add: "0 < g \<Longrightarrow> ceil_to g (k * g + n) = k * g + ceil_to g n"
proof -
  assume g: "0 < g"
  then have "(k * g + n + g - 1) div g = (k * g + (n + g - 1)) div g" by (simp add: add.assoc)
  also have "\<dots> = k + (n + g - 1) div g" by (rule div_mult_self3) (use g in simp)
  finally show ?thesis
    by (simp add: ceil_to_def add_mult_distrib)
qed

lemma overwrite_subrange:
  assumes "k + n \<le> length xs" and "off + length ys \<le> n"
  shows "subrange k n (overwrite (k + off) ys xs) = overwrite off ys (subrange k n xs)"
proof (rule nth_equalityI)
  show "length (subrange k n (overwrite (k + off) ys xs)) = length (overwrite off ys (subrange k n xs))"
    using assms by simp
  show "subrange k n (overwrite (k + off) ys xs) ! i = overwrite off ys (subrange k n xs) ! i"
    if "i < length (subrange k n (overwrite (k + off) ys xs))" for i
    using that assms by (auto simp: nth_subrange nth_overwrite)
qed

lemma part_img_length:
  "part_ok contents info a s \<Longrightarrow> length (part_img contents info a s) = unat (total_size info)"
  unfolding part_ok_def part_img_def length_subrange by linarith

lemma part_rd_ok:
  assumes ok: "part_ok contents info a s" and nowrap: "unat off + unat n < 2 ^ 64"
    and run: "part_rd alloc info a s buf off n = ((e, d), s')"
  shows "part_ok contents info a s' \<and> bdev_gran (part_dev a s') = bdev_gran (part_dev a s) \<and>
    part_img contents info a s' = part_img contents info a s \<and>
    (e = TEGRABL_NO_ERROR \<longrightarrow> unat off + unat n \<le> length (part_img contents info a s) \<and>
      d = subrange (unat off) (unat n) (part_img contents info a s))"
  using run ok nowrap
proof (cases rule: part_rd_cases)
  case rejected
  then show ?thesis using ok by simp
next
  case (dev e0 d')
  let ?o = "off + push_bit (unat (dev_log2 a s)) (start_sector info)"
  note O = part_offset_word [OF ok dev(1)]
  have ok': "bdev_ok contents (part_dev a s)" using ok by (simp add: part_ok_def)
  have "unat ?o + unat n < 2 ^ 64" using O by simp
  note R = bdev_read_ok [OF ok' this dev(2)]
  have "part_ok contents info a s'" unfolding dev(3) using part_ok_update [OF ok] R by simp
  moreover have "part_img contents info a s' = part_img contents info a s"
    "bdev_gran (part_dev a s') = bdev_gran (part_dev a s)"
    using R same_devD(4) [of contents "part_dev a s" d']
    by (simp_all add: dev(3) part_img_def part_start_def part_dev_update)
  moreover have "d = subrange (unat off) (unat n) (part_img contents info a s)" if "e = TEGRABL_NO_ERROR"
    using R that dev(1,4) O by (simp add: part_img_def subrange_subrange)
  ultimately show ?thesis
    using dev(1) part_img_length [OF ok] by auto
qed

lemma part_wr_ok:
  assumes ok: "part_ok contents info a s" and nowrap: "unat off + unat n < 2 ^ 64"
    and len: "length d = unat n" and run: "part_wr alloc info a s buf d off n = (e, s')"
  shows "part_ok contents info a s' \<and> bdev_gran (part_dev a s') = bdev_gran (part_dev a s) \<and>
    same_outside (floor_to (bdev_gran (part_dev a s)) (unat off))
      (ceil_to (bdev_gran (part_dev a s)) (unat off + unat n))
      (part_img contents info a s') (part_img contents info a s) \<and>
    (e = TEGRABL_NO_ERROR \<longrightarrow> unat off + unat n \<le> length (part_img contents info a s) \<and>
      part_img contents info a s' = overwrite (unat off) d (part_img contents info a s))"
  using run ok nowrap
proof (cases rule: part_wr_cases)
  case rejected
  then show ?thesis using ok by simp
next
  case (dev e0 d')
  let ?o = "off + push_bit (unat (dev_log2 a s)) (start_sector info)" and ?g = "bdev_gran (part_dev a s)"
  let ?st = "unat (start_sector info)"
  note O = part_offset_word [OF ok dev(1)]
  have ok': "bdev_ok contents (part_dev a s)" using ok by (simp add: part_ok_def)
  have "unat ?o + unat n < 2 ^ 64" using O by simp
  note W = bdev_write_ok [OF ok' this len dev(2)]
  have sd: "same_dev contents (part_dev a s) d'"
    and so: "same_outside (floor_to ?g (unat ?o)) (ceil_to ?g (unat ?o + unat n))
      (bdev_img contents d') (bdev_img contents (part_dev a s))"
    using W by (auto simp: wr_keeps_def)
  have o: "unat ?o = ?st * ?g + unat off" using O(1) by (simp add: part_start_def)
  have "floor_to ?g (unat ?o) = ?st * ?g + floor_to ?g (unat off)"
    "ceil_to ?g (unat ?o + unat n) = ?st * ?g + ceil_to ?g (unat off + unat n)"
    unfolding o by (simp_all add: floor_to_add ceil_to_add add.assoc)
  then have sh: "same_outside (floor_to ?g (unat off)) (ceil_to ?g (unat off + unat n))
      (part_img contents info a s') (part_img contents info a s)"
    using same_outside_shift [OF so, of "?st * ?g" "unat (total_size info)"] same_devD(4) [OF sd]
    by (simp add: part_img_def part_start_def dev(3) part_dev_update)
  have "part_ok contents info a s'"
    unfolding dev(3) using part_ok_update [OF ok sd same_outside_length [OF so]] .
  moreover have "part_img contents info a s' = overwrite (unat off) d (part_img contents info a s)"
    if "e = TEGRABL_NO_ERROR"
    using W that dev(1,4) O ok len same_devD(4) [OF sd]
      overwrite_subrange [of "part_start info a s" "unat (total_size info)" _ "unat off" d]
    by (simp add: part_img_def part_start_def dev(3) part_dev_update part_ok_def)
  ultimately show ?thesis
    using sh dev(1,3) part_img_length [OF ok] same_devD(4) [OF sd] by (auto simp: part_dev_update)
qed

interpretation pt: byte_store "part_img contents info a" "\<lambda>s. bdev_gran (part_dev a s)"
  "part_ok contents info a" "part_rd alloc info a" "part_wr alloc info a"
  for contents :: "'d \<Rightarrow> bytes" and info a alloc
proof
  fix s s' :: "'d pm_state" and off n buf e d
  show "0 < bdev_gran (part_dev a s)" by simp
  show "part_ok contents info a s' \<and> bdev_gran (part_dev a s') = bdev_gran (part_dev a s) \<and>
      part_img contents info a s' = part_img contents info a s"
    if "part_ok contents info a s" "unat off + unat n < 2 ^ 64" "part_rd alloc info a s buf off n = ((e, d), s')"
    using part_rd_ok [OF that] by blast
  show "unat off + unat n \<le> length (part_img contents info a s) \<and>
      d = subrange (unat off) (unat n) (part_img contents info a s)"
    if "part_ok contents info a s" "unat off + unat n < 2 ^ 64"
      "part_rd alloc info a s buf off n = ((TEGRABL_NO_ERROR, d), s')"
    using part_rd_ok [OF that] by blast
  show "part_ok contents info a s' \<and> bdev_gran (part_dev a s') = bdev_gran (part_dev a s) \<and>
      same_outside (floor_to (bdev_gran (part_dev a s)) (unat off))
        (ceil_to (bdev_gran (part_dev a s)) (unat off + unat n))
        (part_img contents info a s') (part_img contents info a s)"
    if "part_ok contents info a s" "unat off + unat n < 2 ^ 64" "length d = unat n"
      "part_wr alloc info a s buf d off n = (e, s')"
    using part_wr_ok [OF that] by blast
  show "unat off + unat n \<le> length (part_img contents info a s) \<and>
      part_img contents info a s' = overwrite (unat off) d (part_img contents info a s)"
    if "part_ok contents info a s" "unat off + unat n < 2 ^ 64" "length d = unat n"
      "part_wr alloc info a s buf d off n = (TEGRABL_NO_ERROR, s')"
    using part_wr_ok [OF that] by blast
qed


section \<open>Reads and writes that succeed\<close>

definition part_live :: "('d \<Rightarrow> bytes) \<Rightarrow> alloc_env \<Rightarrow> tegrabl_partition_info \<Rightarrow> nat \<Rightarrow> 'd pm_state \<Rightarrow> bool" where
  "part_live contents alloc info a s \<longleftrightarrow>
     part_ok contents info a s \<and> bdev_live contents alloc (part_dev a s)"

text \<open>Two states that differ in nothing a reader of partitions can see.\<close>

definition pm_same :: "('d \<Rightarrow> bytes) \<Rightarrow> 'd pm_state \<Rightarrow> 'd pm_state \<Rightarrow> bool" where
  "pm_same contents s s' \<longleftrightarrow>
     storage_list s' = storage_list s \<and>
     (\<forall>b. dev_heap (bd s') b = dev_heap (bd s) b \<or>
        (\<exists>d d'. dev_heap (bd s) b = Some d \<and> dev_heap (bd s') b = Some d' \<and>
          same_dev contents d d' \<and> bdev_img contents d' = bdev_img contents d))"

lemma pm_same_refl [simp]: "pm_same contents s s"
  by (simp add: pm_same_def)

lemma pm_same_trans: "pm_same contents s s' \<Longrightarrow> pm_same contents s' s'' \<Longrightarrow> pm_same contents s s''"
proof -
  assume 1: "pm_same contents s s'" and 2: "pm_same contents s' s''"
  have "dev_heap (bd s'') b = dev_heap (bd s) b \<or>
      (\<exists>d d'. dev_heap (bd s) b = Some d \<and> dev_heap (bd s'') b = Some d' \<and>
        same_dev contents d d' \<and> bdev_img contents d' = bdev_img contents d)" for b
    using 1 [unfolded pm_same_def, THEN conjunct2, THEN spec [of _ b]]
      2 [unfolded pm_same_def, THEN conjunct2, THEN spec [of _ b]]
    by (elim disjE exE conjE) (auto dest: same_dev_trans)
  then show ?thesis using 1 2 by (simp add: pm_same_def)
qed

lemma pm_same_update:
  assumes "dev_heap (bd s) a = Some d" "same_dev contents d d'" "bdev_img contents d' = bdev_img contents d"
  shows "pm_same contents s (s\<lparr>bd := dev_update a d' (bd s)\<rparr>)"
  using assms by (simp add: pm_same_def dev_update_def)

lemma pm_same_part:
  assumes "pm_same contents s s'"
  shows "part_img contents info b s' = part_img contents info b s"
    and "part_live contents alloc info b s \<Longrightarrow> part_live contents alloc info b s'"
proof -
  have cases: "dev_heap (bd s') b = dev_heap (bd s) b \<or>
      dev_heap (bd s) b \<noteq> None \<and> dev_heap (bd s') b \<noteq> None \<and>
      same_dev contents (part_dev b s) (part_dev b s') \<and>
      bdev_img contents (part_dev b s') = bdev_img contents (part_dev b s)"
    using assms unfolding pm_same_def part_dev_def by (metis option.sel option.simps(3))
  then show "part_img contents info b s' = part_img contents info b s"
    by (auto simp: part_img_def part_start_def part_dev_def dest: same_devD(4))
  show "part_live contents alloc info b s'" if "part_live contents alloc info b s"
    using cases
  proof
    assume "dev_heap (bd s') b = dev_heap (bd s) b"
    then show ?thesis using that by (simp add: part_live_def part_ok_def part_start_def part_dev_def)
  next
    assume "dev_heap (bd s) b \<noteq> None \<and> dev_heap (bd s') b \<noteq> None \<and>
      same_dev contents (part_dev b s) (part_dev b s') \<and>
      bdev_img contents (part_dev b s') = bdev_img contents (part_dev b s)"
    then show ?thesis
      using that same_devD [of contents "part_dev b s" "part_dev b s'"]
        bdev_live_same [of contents alloc "part_dev b s" "part_dev b s'"]
      by (simp add: part_live_def part_ok_def part_start_def)
  qed
qed

lemma part_read_succeeds:
  assumes live: "part_live contents alloc info a s" and buf: "buf \<noteq> 0" and n: "n \<noteq> 0"
    and fits: "unat off + unat n \<le> unat (total_size info)"
  obtains s' where "tegrabl_partition_read alloc (part_handle info a off) buf n s =
      (((TEGRABL_NO_ERROR, subrange (unat off) (unat n) (part_img contents info a s)),
        part_handle info a (off + n)), s')"
    "pm_same contents s s'"
proof -
  have ok: "part_ok contents info a s" and dl: "bdev_live contents alloc (part_dev a s)"
    using live by (simp_all add: part_live_def)
  obtain dv where dv: "dev_heap (bd s) a = Some dv" "part_dev a s = dv"
    using ok by (auto simp: part_ok_def part_dev_def)
  let ?o = "off + push_bit (unat (dev_log2 a s)) (start_sector info)"
  note O = part_offset_word [OF ok fits]
  have "unat ?o + unat n \<le> length (bdev_img contents dv)"
    using O(1) fits ok dv by (simp add: part_ok_def)
  then obtain d' where d': "bdev_read alloc dv buf ?o n =
      ((TEGRABL_NO_ERROR, subrange (unat ?o) (unat n) (bdev_img contents dv)), d')"
    "same_dev contents dv d'" "bdev_img contents d' = bdev_img contents dv"
    using bdev_read_succeeds [OF dl [unfolded dv(2)] buf n] by metis
  have "unat off + unat n < 2 ^ 64" using fits unat_u64_bound [of "total_size info"] by simp
  then have "\<not> total_size info < n + off" using check_part_range fits by blast
  moreover have "subrange (unat ?o) (unat n) (bdev_img contents dv) =
      subrange (unat off) (unat n) (part_img contents info a s)"
    using O(1) fits dv by (simp add: part_img_def subrange_subrange)
  ultimately have run: "tegrabl_partition_read alloc (part_handle info a off) buf n s =
      (((TEGRABL_NO_ERROR, subrange (unat off) (unat n) (part_img contents info a s)),
        part_handle info a (off + n)), s\<lparr>bd := dev_update a d' (bd s)\<rparr>)"
    using d'(1) dv buf n by (simp add: tegrabl_partition_read_def part_handle_def handle_parts_def Let_def
        tegrabl_blockdev_read_def on_dev_some)
  show ?thesis
    using that [OF run] pm_same_update [OF dv(1) d'(2,3)] by simp
qed

lemma part_write_succeeds:
  assumes live: "part_live contents alloc info a s" and buf: "buf \<noteq> 0" "unat buf + unat n < 2 ^ 64"
    and n: "n \<noteq> 0" "length data = unat n"
    and fits: "unat off + unat n \<le> unat (total_size info)"
  obtains s' where "tegrabl_partition_write alloc (part_handle info a off) buf data n s =
      ((TEGRABL_NO_ERROR, part_handle info a (off + n)), s')"
    "part_live contents alloc info a s'"
    "part_img contents info a s' = overwrite (unat off) data (part_img contents info a s)"
proof -
  have ok: "part_ok contents info a s" and dl: "bdev_live contents alloc (part_dev a s)"
    using live by (simp_all add: part_live_def)
  obtain dv where dv: "dev_heap (bd s) a = Some dv" "part_dev a s = dv"
    using ok by (auto simp: part_ok_def part_dev_def)
  let ?o = "off + push_bit (unat (dev_log2 a s)) (start_sector info)"
  note O = part_offset_word [OF ok fits]
  have "unat ?o + unat n \<le> length (bdev_img contents dv)"
    using O(1) fits ok dv by (simp add: part_ok_def)
  then obtain d' where d': "bdev_write alloc dv buf data ?o n = (TEGRABL_NO_ERROR, d')"
    "same_dev contents dv d'"
    using bdev_write_succeeds [OF dl [unfolded dv(2)] buf n] by metis
  have nw: "unat off + unat n < 2 ^ 64" using fits unat_u64_bound [of "total_size info"] by simp
  then have "\<not> total_size info < n + off" using check_part_range fits by blast
  then have run: "tegrabl_partition_write alloc (part_handle info a off) buf data n s =
      ((TEGRABL_NO_ERROR, part_handle info a (off + n)), s\<lparr>bd := dev_update a d' (bd s)\<rparr>)"
    using d'(1) dv buf n by (simp add: tegrabl_partition_write_def part_handle_def handle_parts_def Let_def
        tegrabl_blockdev_write_def on_dev_some)
  then have "part_wr alloc info a s buf data off n = (TEGRABL_NO_ERROR, s\<lparr>bd := dev_update a d' (bd s)\<rparr>)"
    by (simp add: part_wr_def)
  note W = part_wr_ok [OF ok nw n(2) this]
  show ?thesis
  proof (rule that [OF run])
    show "part_live contents alloc info a (s\<lparr>bd := dev_update a d' (bd s)\<rparr>)"
      using W d' dv bdev_live_same [OF dl] by (simp add: part_live_def part_dev_update)
  qed (use W in blast)
qed

lemma verify_loop_crc:
  assumes "part_live contents alloc info a s" and "buffer \<noteq> 0"
    and "unat off + unat sz \<le> unat (total_size info)"
  shows "\<exists>s'. verify_loop alloc buffer sz crc (part_handle info a off) s =
    ((TEGRABL_NO_ERROR,
      tegrabl_utils_crc32 crc (subrange (unat off) (unat sz) (part_img contents info a s))), s') \<and>
    pm_same contents s s'"
  using assms
proof (induction "unat sz" arbitrary: sz crc off s rule: less_induct)
  case less
  show ?case
  proof (cases "sz = 0")
    case True
    then show ?thesis
      by (simp add: verify_loop.simps tegrabl_utils_crc32_def)
  next
    case False
    let ?c = "min READ_BUFFER_SIZE sz"
    have c0: "?c \<noteq> 0" using False by (simp add: min_def)
    have cle: "unat ?c \<le> unat sz" by (simp add: unat_min)
    then have fits: "unat off + unat ?c \<le> unat (total_size info)" using less.prems(3) by simp
    obtain s' where r: "tegrabl_partition_read alloc (part_handle info a off) buffer ?c s =
        (((TEGRABL_NO_ERROR, subrange (unat off) (unat ?c) (part_img contents info a s)),
          part_handle info a (off + ?c)), s')"
      and same: "pm_same contents s s'"
      by (rule part_read_succeeds [OF less.prems(1,2) c0 fits])
    note live = pm_same_part(2) [OF same less.prems(1)] and img = pm_same_part(1) [OF same]
    have rest: "unat (sz - ?c) = unat sz - unat ?c" by (rule unat_diff) simp
    have "unat off + unat ?c < 2 ^ 64" using fits unat_u64_bound [of "total_size info"] by simp
    then have off': "unat (off + ?c) = unat off + unat ?c" by (rule unat_add_nowrap)
    have "unat (off + ?c) + unat (sz - ?c) \<le> unat (total_size info)"
      using less.prems(3) off' rest cle by simp
    note IH = less.hyps [OF verify_chunk_decreases [OF False] live less.prems(2) this]
    have "subrange (unat off) (unat ?c) (part_img contents info a s) @
        subrange (unat off + unat ?c) (unat sz - unat ?c) (part_img contents info a s) =
        subrange (unat off) (unat sz) (part_img contents info a s)"
      using subrange_append [of "unat off" "unat ?c" _ "unat sz - unat ?c"] cle by simp
    then have split: "tegrabl_utils_crc32 (tegrabl_utils_crc32 crc
          (subrange (unat off) (unat ?c) (part_img contents info a s)))
        (subrange (unat off + unat ?c) (unat sz - unat ?c) (part_img contents info a s)) =
        tegrabl_utils_crc32 crc (subrange (unat off) (unat sz) (part_img contents info a s))"
      by (metis crc32_append)
    have "verify_loop alloc buffer sz crc (part_handle info a off) s =
        verify_loop alloc buffer (sz - ?c) (tegrabl_utils_crc32 crc
          (subrange (unat off) (unat ?c) (part_img contents info a s))) (part_handle info a (off + ?c)) s'"
      using False by (subst verify_loop.simps) (simp only: r Let_def prod.case if_False simp_thms)
    then show ?thesis
      using IH [unfolded off' rest img] pm_same_trans [OF same] unfolding split [symmetric] by metis
  qed
qed

section \<open>Isolation, lookup, seeking and verification\<close>

lemma part_write_isolated:
  assumes "part_ok contents info a s" and "part_ok contents info2 a2 s"
    and "unat off + unat n < 2 ^ 64" and "length data = unat n"
    and "a2 = a \<Longrightarrow> unat (start_sector info) + unat (num_sectors info) \<le> unat (start_sector info2) \<or>
      unat (start_sector info2) + unat (num_sectors info2) \<le> unat (start_sector info)"
    and "part_wr alloc info a s buf data off n = (e, s')"
  shows "part_img contents info2 a2 s' = part_img contents info2 a2 s"
  using assms(6) assms(1,3)
proof (cases rule: part_wr_cases)
  case rejected
  then show ?thesis by simp
next
  case (dev e0 d')
  show ?thesis
  proof (cases "a2 = a")
    case False
    then show ?thesis by (simp add: dev(3) part_img_def part_start_def part_dev_def dev_update_def)
  next
    case True
    let ?o = "off + push_bit (unat (dev_log2 a s)) (start_sector info)" and ?g = "bdev_gran (part_dev a s)"
    note O = part_offset_word [OF assms(1) dev(1)]
    have ok': "bdev_ok contents (part_dev a s)" using assms(1) by (simp add: part_ok_def)
    have "unat ?o + unat n < 2 ^ 64" using O by simp
    note W = bdev_write_ok [OF ok' this assms(4) dev(2)]
    have sd: "same_dev contents (part_dev a s) d'"
      and so: "same_outside (floor_to ?g (unat ?o)) (ceil_to ?g (unat ?o + unat n))
        (bdev_img contents d') (bdev_img contents (part_dev a s))"
      using W by (auto simp: wr_keeps_def)
    have g: "0 < ?g" by simp
    have sz: "unat (total_size info) = unat (num_sectors info) * ?g"
      "unat (total_size info2) = unat (num_sectors info2) * ?g"
      using assms(1,2) True by (simp_all add: part_ok_def)
    let ?st = "unat (start_sector info)" and ?e = "unat (start_sector info) + unat (num_sectors info)"
    have "?st * ?g \<le> floor_to ?g (unat ?o)"
      using floor_to_mono [of "?st * ?g" "unat ?o" ?g] O(1) g by (simp add: part_start_def)
    moreover have end_le: "unat ?o + unat n \<le> ?e * ?g"
      using O(1) dev(1) sz by (simp add: part_start_def add_mult_distrib)
    have "ceil_to ?g (unat ?o + unat n) \<le> ?e * ?g"
      using ceil_to_mono [OF end_le, of ?g] unfolding ceil_to_mult [OF g] .
    ultimately have so': "same_outside (?st * ?g) (?e * ?g) (bdev_img contents d')
        (bdev_img contents (part_dev a s))"
      using same_outside_mono [OF so] by blast
    have disj: "part_start info2 a s + unat (total_size info2) \<le> ?st * ?g \<or> ?e * ?g \<le> part_start info2 a s"
      using assms(5) [OF True] g
      by (auto simp: part_start_def sz add_mult_distrib [symmetric] simp del: add_mult_distrib)
    show ?thesis
      using same_outside_subrange [OF so' disj] same_devD(4) [OF sd] True
      by (simp add: part_img_def part_start_def dev(3) part_dev_update)
  qed
qed

lemma find_partition_flat:
  "find_partition d p entries =
   find (\<lambda>r. p (fst r))
     (concat (map (\<lambda>en. map (\<lambda>i. (i, si_bdev en)) (si_partitions en)) (filter d entries)))"
proof -
  have app: "find q (xs @ ys) = (case find q xs of None \<Rightarrow> find q ys | Some x \<Rightarrow> Some x)"
    for q :: "tegrabl_partition_info \<times> nat \<Rightarrow> bool" and xs ys
    by (induction xs) auto
  have m: "find (\<lambda>r. p (fst r)) (map (\<lambda>i. (i, b)) xs) = map_option (\<lambda>i. (i, b)) (find p xs)" for b :: nat and xs
    by (induction xs) auto
  show ?thesis
    by (induction entries) (auto simp: app m split: option.splits)
qed

lemma sint_u64: "sint (w :: u64) = (if unat w < 2 ^ 63 then int (unat w) else int (unat w) - 2 ^ 64)"
proof -
  have b: "0 \<le> uint w" "uint w < 2 ^ 64" using uint_bounded [of w] by simp_all
  have "sint w = (uint w + 2 ^ 63) mod 2 ^ 64 - 2 ^ 63"
    by (simp add: sint_uint signed_take_bit_eq_take_bit_shift take_bit_eq_mod)
  moreover have "(uint w + 2 ^ 63) mod 2 ^ 64 = (if uint w < 2 ^ 63 then uint w + 2 ^ 63 else uint w - 2 ^ 63)"
  proof (cases "uint w < 2 ^ 63")
    case False
    have "(uint w + 2 ^ 63) mod 2 ^ 64 = (uint w - 2 ^ 63 + 1 * 2 ^ 64) mod 2 ^ 64"
      by (rule arg_cong [of _ _ "\<lambda>k. k mod 2 ^ 64"]) simp
    also have "\<dots> = (uint w - 2 ^ 63) mod 2 ^ 64" by (rule mod_mult_self1)
    also have "\<dots> = uint w - 2 ^ 63" using False b by (intro mod_pos_pos_trivial) simp_all
    finally show ?thesis using False by simp
  qed (use b in simp)
  moreover obtain u where u: "unat w = u" "uint w = int u" by simp
  ultimately show ?thesis unfolding u by auto
qed

lemma unat_u64_add:
  "unat (a + b :: u64) = (if unat a + unat b < 2 ^ 64 then unat a + unat b else unat a + unat b - 2 ^ 64)"
proof (cases "unat a + unat b < 2 ^ 64")
  case False
  have "(unat a + unat b) mod 2 ^ 64 = (unat a + unat b - 2 ^ 64) mod 2 ^ 64"
    using False by (intro le_mod_geq) simp
  also have "\<dots> = unat a + unat b - 2 ^ 64"
    using False unat_u64_bound [of a] unat_u64_bound [of b] by (intro mod_less) simp
  finally show ?thesis using False by (simp add: unat_word_ariths(1))
qed (simp add: unat_add_nowrap)

lemma seek_base_exact:
  fixes b off sz :: u64
  assumes "unat sz < 2 ^ 63" "unat b \<le> unat sz"
  shows "(0 \<le> sint (b + off) \<and> \<not> sz < b + off) \<longleftrightarrow>
      0 \<le> int (unat b) + sint off \<and> int (unat b) + sint off \<le> int (unat sz)"
    and "0 \<le> int (unat b) + sint off \<Longrightarrow> int (unat b) + sint off \<le> int (unat sz) \<Longrightarrow>
      int (unat (b + off)) = int (unat b) + sint off"
proof -
  define x y z where d: "x = unat b" "y = unat off" "z = unat sz"
  have b: "z < 2 ^ 63" "x \<le> z" "y < 2 ^ 64"
    using assms unat_u64_bound [of off] unfolding d by simp_all
  show "(0 \<le> sint (b + off) \<and> \<not> sz < b + off) \<longleftrightarrow>
      0 \<le> int (unat b) + sint off \<and> int (unat b) + sint off \<le> int (unat sz)"
    using b unfolding sint_u64 word_less_nat_alt unat_u64_add d [symmetric] by auto
  show "int (unat (b + off)) = int (unat b) + sint off"
    if "0 \<le> int (unat b) + sint off" "int (unat b) + sint off \<le> int (unat sz)"
    using b that unfolding sint_u64 unat_u64_add d [symmetric] by (auto split: if_splits)
qed

lemma read_verify_exact:
  assumes "part_live contents alloc info a s" and "buffer \<noteq> 0"
    and "unat (verify_size en) \<le> unat (total_size info)"
  shows "\<exists>s'. read_verify_partition alloc (part_handle info a 0) en buffer s =
    (if verify_crc32 en = tegrabl_utils_crc32 0 (take (unat (verify_size en)) (part_img contents info a s))
     then TEGRABL_NO_ERROR else TEGRABL_ERR_VERIFY_FAILED, s') \<and> pm_same contents s s'"
proof -
  have "tegrabl_partition_seek (Some (part_handle info a 0)) 0 TEGRABL_PARTITION_SEEK_SET =
      (TEGRABL_NO_ERROR, Some (part_handle info a 0))"
    by (simp add: tegrabl_partition_seek_def part_handle_def handle_parts_def Let_def)
  then show ?thesis
    using verify_loop_crc [OF assms(1,2), of 0 "verify_size en" 0] assms(3)
    by (auto simp: read_verify_partition_def subrange_def part_handle_def)
qed

text \<open>An entry of the verify list that can be checked: its partition opens, works and is large enough.\<close>

definition verifiable :: "('d \<Rightarrow> bytes) \<Rightarrow> alloc_env \<Rightarrow> 'd pm_state \<Rightarrow> verify_list_info \<Rightarrow> bool" where
  "verifiable contents alloc s en \<longleftrightarrow> verify_crc32 en \<noteq> 0 \<and>
     (\<exists>info a. tegrabl_partition_open (Some (verify_name en)) (Some null_partition) s =
          (TEGRABL_NO_ERROR, Some (part_handle info a 0)) \<and>
        part_live contents alloc info a s \<and> unat (verify_size en) \<le> unat (total_size info))"

text \<open>The bytes the entry covers: the start of the partition that its name opens.\<close>

definition verify_bytes :: "('d \<Rightarrow> bytes) \<Rightarrow> 'd pm_state \<Rightarrow> verify_list_info \<Rightarrow> bytes" where
  "verify_bytes contents s en =
     (case Option.bind (snd (tegrabl_partition_open (Some (verify_name en)) (Some null_partition) s))
             handle_parts of
        Some (info, a) \<Rightarrow> take (unat (verify_size en)) (part_img contents info a s)
      | None \<Rightarrow> [])"

definition verifies :: "('d \<Rightarrow> bytes) \<Rightarrow> 'd pm_state \<Rightarrow> verify_list_info \<Rightarrow> bool" where
  "verifies contents s en \<longleftrightarrow> verify_crc32 en = tegrabl_utils_crc32 0 (verify_bytes contents s en)"

lemma pm_same_open:
  "pm_same contents s s' \<Longrightarrow> tegrabl_partition_open n p s' = tegrabl_partition_open n p s"
  by (simp add: pm_same_def tegrabl_partition_open_def split: option.splits)

lemma pm_same_verifiable:
  "pm_same contents s s' \<Longrightarrow> verifiable contents alloc s en \<Longrightarrow> verifiable contents alloc s' en"
  using pm_same_part(2) [of contents s s'] unfolding verifiable_def pm_same_open by blast

lemma pm_same_verifies: "pm_same contents s s' \<Longrightarrow> verifies contents s' en = verifies contents s en"
  unfolding verifies_def verify_bytes_def
  by (simp add: pm_same_open pm_same_part(1) split: option.splits)

lemma verify_entry_exact:
  assumes "verifiable contents alloc s en" and "buffer \<noteq> 0"
  obtains p s' where
    "tegrabl_partition_open (Some (verify_name en)) (Some null_partition) s = (TEGRABL_NO_ERROR, p)"
    "read_verify_partition alloc (the p) en buffer s =
      (if verifies contents s en then TEGRABL_NO_ERROR else TEGRABL_ERR_VERIFY_FAILED, s')"
    "pm_same contents s s'"
proof -
  obtain info a where o: "tegrabl_partition_open (Some (verify_name en)) (Some null_partition) s =
      (TEGRABL_NO_ERROR, Some (part_handle info a 0))"
    and l: "part_live contents alloc info a s" "unat (verify_size en) \<le> unat (total_size info)"
    using assms(1) by (auto simp: verifiable_def)
  show ?thesis
    using read_verify_exact [OF l(1) assms(2) l(2)] that [OF o]
    by (auto simp: verifies_def verify_bytes_def o part_handle_def handle_parts_def)
qed

lemma verify_entries_exact:
  assumes "\<forall>en \<in> set ens. verifiable contents alloc s en" and "buffer \<noteq> 0"
  shows "\<exists>err s'. verify_entries alloc buffer ens error failed s =
      ((err, failed \<or> (\<exists>en \<in> set ens. \<not> verifies contents s en), []), s') \<and> pm_same contents s s' \<and>
      ((\<forall>en \<in> set ens. verifies contents s en) \<longrightarrow> ens \<noteq> [] \<longrightarrow> err = TEGRABL_NO_ERROR)"
  using assms
proof (induction ens arbitrary: error failed s)
  case Nil
  then show ?case by simp
next
  case (Cons en ens)
  obtain p s1 where e: "tegrabl_partition_open (Some (verify_name en)) (Some null_partition) s =
      (TEGRABL_NO_ERROR, p)"
    "read_verify_partition alloc (the p) en buffer s =
      (if verifies contents s en then TEGRABL_NO_ERROR else TEGRABL_ERR_VERIFY_FAILED, s1)"
    and same: "pm_same contents s s1"
    using verify_entry_exact [of contents alloc s en buffer] Cons.prems by auto
  have crc: "verify_crc32 en \<noteq> 0" using Cons.prems(1) by (simp add: verifiable_def)
  define err1 where "err1 = (if verifies contents s en then TEGRABL_NO_ERROR else TEGRABL_ERR_VERIFY_FAILED)"
  have ok1: "\<forall>en \<in> set ens. verifiable contents alloc s1 en"
    using Cons.prems(1) pm_same_verifiable [OF same] by auto
  have step: "verify_entries alloc buffer (en # ens) error failed s =
      verify_entries alloc buffer ens err1 (failed \<or> \<not> verifies contents s en) s1"
    using e crc by (auto simp: err1_def)
  show ?case
    using Cons.IH [OF ok1 Cons.prems(2), of err1 "failed \<or> \<not> verifies contents s en"]
      pm_same_trans [OF same]
    unfolding step pm_same_verifies [OF same] err1_def
    by (cases "ens = []") fastforce+
qed

end
