(* ===== verification/Partition_Properties.thy ===== *)
theory Partition_Properties
  imports Partition_Correct
begin

text \<open>
  The properties of the partition manager, with a RAM disk of four 4-byte sectors holding two
  partitions as the concrete instance that the witnesses run on.
\<close>

section \<open>A worked example: two partitions of a RAM disk\<close>

definition demo_img :: bytes where "demo_img = [0,1,2,3,4,5,6,7,8,9,10,11,12,13,14,15]"

definition demo_info :: "string \<Rightarrow> u64 \<Rightarrow> u64 \<Rightarrow> tegrabl_partition_info" where
  "demo_info name st n = \<lparr>part_name = c_lit name, part_guid = [], part_ptype_guid = [],
     start_sector = st, num_sectors = n, total_size = 4 * n\<rparr>"

definition demo_smd :: tegrabl_partition_info where "demo_smd = demo_info ''SMD'' 1 1"
definition demo_kernel :: tegrabl_partition_info where "demo_kernel = demo_info ''kernel'' 2 2"

definition demo_pm :: "bytes pm_state" where
  "demo_pm =
     \<lparr>bd = \<lparr>dev_heap = [7 \<mapsto> ram_dev 2 4 demo_img], bdevs = Some [7], xfer_id = 0, close_log = []\<rparr>,
      storage_list = Some [\<lparr>si_bdev = 7, si_partitions = [demo_smd, demo_kernel]\<rparr>],
      set_verify_flag = True, verify_all_partitions = False,
      verify_list = [\<lparr>verify_size = 4, verify_crc32 = tegrabl_utils_crc32 0 [8,9,10,11],
                      verify_name = c_lit ''kernel''\<rparr>]\<rparr>"

lemma demo_fields [simp]:
  "start_sector demo_smd = 1" "num_sectors demo_smd = 1" "total_size demo_smd = 4"
  "start_sector demo_kernel = 2" "num_sectors demo_kernel = 2" "total_size demo_kernel = 8"
  by (simp_all add: demo_smd_def demo_kernel_def demo_info_def)

lemma demo_part_dev [simp]: "part_dev 7 demo_pm = ram_dev 2 4 demo_img"
  by (simp add: part_dev_def demo_pm_def)

lemma demo_gran [simp]: "bdev_gran (ram_dev 2 4 demo_img) = 4"
  by (simp add: bdev_gran_def ram_dev_def)

lemma demo_dev_live: "bdev_live (\<lambda>p. p) ram_alloc (ram_dev 2 4 demo_img)"
  by (rule ram_dev_live) (simp_all add: demo_img_def)

lemma demo_live:
  "part_live (\<lambda>p. p) ram_alloc demo_smd 7 demo_pm" "part_live (\<lambda>p. p) ram_alloc demo_kernel 7 demo_pm"
  using demo_dev_live bdev_live_ok [OF demo_dev_live]
  by (simp_all add: part_live_def part_ok_def part_start_def ram_dev_img)
    (simp_all add: demo_pm_def demo_img_def)

lemma demo_part_img:
  "part_img (\<lambda>p. p) demo_smd 7 demo_pm = [4,5,6,7]"
  "part_img (\<lambda>p. p) demo_kernel 7 demo_pm = [8,9,10,11,12,13,14,15]"
  by (simp_all add: part_img_def part_start_def ram_dev_img subrange_def) (simp_all add: demo_img_def)

lemma demo_open:
  "tegrabl_partition_open (Some (c_lit ''kernel'')) (Some null_partition) demo_pm =
     (TEGRABL_NO_ERROR, Some (part_handle demo_kernel 7 0))"
  by code_simp

definition demo_closed :: "bytes pm_state" where
  "demo_closed = demo_pm\<lparr>bd := dev_update 7 ((ram_dev 2 4 demo_img)\<lparr>ref := 0\<rparr>) (bd demo_pm)\<rparr>"

lemma demo_closed_write:
  "fst (fst (tegrabl_partition_write ram_alloc (part_handle demo_kernel 7 0) 9 [1] 1 demo_closed)) \<noteq>
     TEGRABL_NO_ERROR"
  by code_simp

lemma demo_async:
  "snd (fst (tegrabl_partition_async_write True (Some (part_handle demo_kernel 7 0)) 8 0 1 demo_pm)) \<noteq> None"
  by code_simp

definition demo_unpublished :: "bytes pm_state" where
  "demo_unpublished = demo_pm\<lparr>bd := dev_update 7 (ram_dev 7 6 demo_gpt) (bd demo_pm), storage_list := Some []\<rparr>"

lemma demo_gpt_published:
  "fst (tegrabl_gpt_publish ram_alloc True (ram_dev 7 6 demo_gpt) 0) =
     (TEGRABL_NO_ERROR, gpt_partitions demo_gpt 7 1)"
proof -
  obtain e parts dev' where
    run: "tegrabl_gpt_publish ram_alloc True (ram_dev 7 6 demo_gpt) 0 = ((e, parts), dev')"
    by (metis surj_pair)
  have "2 \<le> unat (block_count (ram_dev 7 6 demo_gpt))" by (simp add: ram_dev_def)
  from gpt_publish_result [OF demo_gpt_dev this run] demo_gpt_valid show ?thesis
    unfolding ram_dev_img by (simp add: run Let_def) (simp add: ram_dev_def)
qed

section \<open>Properties\<close>

text \<open>
  C17. Within a working partition, a write of any in-range interval succeeds, moves the position past
  it and replaces exactly those bytes of the partition, and reading the interval from the resulting
  state succeeds and returns the bytes written.
\<close>

theorem partition_write_read:
  assumes "part_live contents alloc info a s" and "n \<noteq> 0" and "length data = unat n"
    and "unat off + unat n \<le> unat (total_size info)"
    and "buf \<noteq> 0" and "unat buf + unat n < 2 ^ 64" and "buf2 \<noteq> 0"
  shows "\<exists>s1 s2. tegrabl_partition_write alloc (part_handle info a off) buf data n s =
      ((TEGRABL_NO_ERROR, part_handle info a (off + n)), s1) \<and>
    part_img contents info a s1 = overwrite (unat off) data (part_img contents info a s) \<and>
    tegrabl_partition_read alloc (part_handle info a off) buf2 n s1 =
      (((TEGRABL_NO_ERROR, data), part_handle info a (off + n)), s2) \<and>
    part_img contents info a s2 = part_img contents info a s1"
proof -
  obtain s1 where w: "tegrabl_partition_write alloc (part_handle info a off) buf data n s =
      ((TEGRABL_NO_ERROR, part_handle info a (off + n)), s1)"
    and l: "part_live contents alloc info a s1"
    and i: "part_img contents info a s1 = overwrite (unat off) data (part_img contents info a s)"
    by (rule part_write_succeeds [OF assms(1,5,6,2,3,4)])
  obtain s2 where r: "tegrabl_partition_read alloc (part_handle info a off) buf2 n s1 =
      (((TEGRABL_NO_ERROR, subrange (unat off) (unat n) (part_img contents info a s1)),
        part_handle info a (off + n)), s2)" and same: "pm_same contents s1 s2"
    by (rule part_read_succeeds [OF l assms(7,2,4)])
  have "subrange (unat off) (unat n) (part_img contents info a s1) = data"
    using i assms(3,4) part_img_length [of contents info a s] assms(1)
    by (simp add: part_live_def) (metis subrange_overwrite_same)
  then show ?thesis
    using w i r pm_same_part(1) [OF same] by auto
qed

theorem partition_write_read_witness:
  "\<exists>s1 s2. tegrabl_partition_write ram_alloc (part_handle demo_kernel 7 3) 9 [21,22,23] 3 demo_pm =
      ((TEGRABL_NO_ERROR, part_handle demo_kernel 7 6), s1) \<and>
    part_img (\<lambda>p. p) demo_kernel 7 s1 = [8,9,10,21,22,23,14,15] \<and>
    tegrabl_partition_read ram_alloc (part_handle demo_kernel 7 3) 9 3 s1 =
      (((TEGRABL_NO_ERROR, [21,22,23]), part_handle demo_kernel 7 6), s2)"
  using partition_write_read [OF demo_live(2), of 3 "[21,22,23]" 3 9 9]
  by (auto simp: demo_part_img overwrite_def)

text \<open>
  C18. Isolation: whatever a write through a handle of one partition returns, no other partition is
  changed by it, neither on another device nor on the same device when the two sector ranges are
  disjoint. Partial blocks are patched inside the partition only.
\<close>

theorem partition_write_isolated:
  assumes "part_ok contents info a s" and "part_ok contents info2 a2 s"
    and "unat off + unat n < 2 ^ 64" and "length data = unat n"
    and "a2 \<noteq> a \<or> unat (start_sector info) + unat (num_sectors info) \<le> unat (start_sector info2) \<or>
      unat (start_sector info2) + unat (num_sectors info2) \<le> unat (start_sector info)"
    and "tegrabl_partition_write alloc (part_handle info a off) buf data n s = ((e, p), s')"
  shows "part_img contents info2 a2 s' = part_img contents info2 a2 s"
proof -
  have "part_wr alloc info a s buf data off n = (e, s')" using assms(6) by (simp add: part_wr_def)
  then show ?thesis using part_write_isolated [OF assms(1-4)] assms(5) by blast
qed

theorem partition_write_isolated_witness:
  "part_img (\<lambda>p. p) demo_smd 7
     (snd (tegrabl_partition_write ram_alloc (part_handle demo_kernel 7 0) 9 [99] 1 demo_pm)) = [4,5,6,7]"
  using partition_write_isolated [of "\<lambda>p. p" demo_kernel 7 demo_pm demo_smd 7 0 1 "[99]" ram_alloc 9]
    demo_live demo_part_img
  by (cases "tegrabl_partition_write ram_alloc (part_handle demo_kernel 7 0) 9 [99] 1 demo_pm")
    (auto simp: part_live_def)

text \<open>
  Opening by name scans the published devices in order and, within each, the partitions in
  table order; the handle names the first partition whose name matches (the A/B naming rule) and
  its device and stands at offset 0; without a match the handle is cleared and the error is
  "not found", before initialisation "not initialized".
\<close>

theorem partition_open_first_match:
  "tegrabl_partition_open (Some name) (Some p) s =
     (case storage_list s of
        None \<Rightarrow> (PM_ERROR TEGRABL_ERR_NOT_INITIALIZED AUX_INFO_PARTITION_NOT_INIT, Some p)
      | Some entries \<Rightarrow>
          (case filter (\<lambda>r. match_partition_name (part_name (fst r)) name)
                  (concat (map (\<lambda>en. map (\<lambda>i. (i, si_bdev en)) (si_partitions en)) entries)) of
             [] \<Rightarrow> (PM_ERROR TEGRABL_ERR_NOT_FOUND 0, Some null_partition)
           | r # _ \<Rightarrow> (TEGRABL_NO_ERROR, Some (part_handle (fst r) (snd r) 0))))"
proof -
  have f: "find P xs = (case filter P xs of [] \<Rightarrow> None | x # _ \<Rightarrow> Some x)" for P and xs :: "'z list"
    by (induction xs) auto
  show ?thesis
    by (simp add: tegrabl_partition_open_def find_partition_flat f opened_partition_def part_handle_def
        split: option.split list.split)
qed

text \<open>
  Seeking is exact for partitions smaller than 2^63 bytes: from the chosen origin the new
  position is the origin plus the signed offset when that lies between 0 and the partition's size
  (both included), and otherwise the seek fails and the handle is unchanged.
\<close>

theorem partition_seek_exact:
  assumes "unat (total_size info) < 2 ^ 63" and "unat off \<le> unat (total_size info)"
    and "origin \<in> {TEGRABL_PARTITION_SEEK_SET, TEGRABL_PARTITION_SEEK_CUR, TEGRABL_PARTITION_SEEK_END}"
  shows "let base = (if origin = TEGRABL_PARTITION_SEEK_SET then 0
                     else if origin = TEGRABL_PARTITION_SEEK_CUR then int (unat off)
                     else int (unat (total_size info)));
             pos = base + sint delta;
             (e, p) = tegrabl_partition_seek (Some (part_handle info a off)) delta origin
         in if 0 \<le> pos \<and> pos \<le> int (unat (total_size info))
            then e = TEGRABL_NO_ERROR \<and> p = Some (part_handle info a (word_of_int pos)) \<and>
              tegrabl_partition_tell p = pos
            else e \<noteq> TEGRABL_NO_ERROR \<and> p = Some (part_handle info a off)"
proof -
  define b where "b = (if origin = TEGRABL_PARTITION_SEEK_SET then 0
    else if origin = TEGRABL_PARTITION_SEEK_CUR then off else total_size info)"
  have b: "unat b \<le> unat (total_size info)" using assms(2) by (simp add: b_def)
  have base: "(if origin = TEGRABL_PARTITION_SEEK_SET then 0
      else if origin = TEGRABL_PARTITION_SEEK_CUR then int (unat off)
      else int (unat (total_size info))) = int (unat b)" by (simp add: b_def)
  note E = seek_base_exact [OF assms(1) b, of delta]
  have seek: "tegrabl_partition_seek (Some (part_handle info a off)) delta origin =
      (if sint (b + delta) < 0 then (PM_ERROR TEGRABL_ERR_UNDERFLOW 0, Some (part_handle info a off))
       else if total_size info < b + delta then (PM_ERROR TEGRABL_ERR_OVERFLOW 2, Some (part_handle info a off))
       else (TEGRABL_NO_ERROR, Some (part_handle info a (b + delta))))"
    using assms(3) by (auto simp: tegrabl_partition_seek_def part_handle_def handle_parts_def Let_def b_def)
  have tell: "tegrabl_partition_tell (Some (part_handle info a x)) = sint x" for x
    by (simp add: tegrabl_partition_tell_def part_handle_def handle_parts_def)
  show ?thesis
  proof (cases "0 \<le> int (unat b) + sint delta \<and> int (unat b) + sint delta \<le> int (unat (total_size info))")
    case True
    then have pos: "int (unat (b + delta)) = int (unat b) + sint delta" using E(2) by blast
    then have "unat (b + delta) < 2 ^ 63" using True assms(1) by linarith
    then have "sint (b + delta) = int (unat b) + sint delta" using pos sint_u64 by simp
    moreover have "word_of_int (int (unat b) + sint delta) = b + delta"
      unfolding pos [symmetric] by simp
    ultimately show ?thesis
      using True E(1) unfolding base Let_def seek by (simp add: tell)
  next
    case False
    then show ?thesis using E(1) unfolding base Let_def seek by auto
  qed
qed

text \<open>
  Where a transfer leaves the position of the handle. A read moves it exactly when it succeeds. A
  write that passes the argument and range checks moves it also when the device reports an error, so
  a caller that retries a failed write continues past the bytes that were not written.
\<close>

theorem partition_positions:
  assumes "buf \<noteq> 0" and "n \<noteq> 0" and "\<not> total_size info < n + off"
    and "tegrabl_partition_read alloc (part_handle info a off) buf n s = (((er, d), pr), sr)"
    and "tegrabl_partition_write alloc (part_handle info a off) buf data n s = ((ew, pw), sw)"
  shows "pr = part_handle info a (if er = TEGRABL_NO_ERROR then off + n else off) \<and>
    pw = part_handle info a (off + n)"
  using assms
  by (auto simp: tegrabl_partition_read_def tegrabl_partition_write_def part_handle_def handle_parts_def
      Let_def split: prod.splits if_splits)

text \<open>
  Every transfer that \<open>tegrabl_partition_async_write\<close> hands to a driver is typed as a read, with
  exactly the same request as \<open>tegrabl_partition_async_read\<close> issues for the same arguments: an
  asynchronous write overwrites the caller's buffer and leaves the partition as it was.
\<close>

theorem async_write_issues_read:
  assumes "tegrabl_partition_async_write malloc_ok part buf sector count s = ((e, Some x), s')"
  shows "xfer_type x = TEGRABL_BLOCKDEV_READ \<and>
    tegrabl_partition_async_read malloc_ok part buf sector count s = ((e, Some x), s')"
  using assms
  by (auto simp: tegrabl_partition_async_write_def tegrabl_partition_async_read_def partition_async_def
      tegrabl_blockdev_xfer_def Let_def split: if_splits option.splits prod.splits)

text \<open>
  Verification of written partitions: when every entry of the verify list can be checked (its
  partition opens and works, and a CRC was recorded), \<open>tegrabl_partition_verify_write\<close> succeeds
  exactly when the CRC of every entry equals the CRC of the bytes now on the medium, reports
  "verify failed" otherwise, empties the list and changes no partition.
\<close>

theorem verify_write_exact:
  assumes "verify_list s \<noteq> []" and "\<forall>en \<in> set (verify_list s). verifiable contents alloc s en"
    and "alloc 3 4096 READ_BUFFER_SIZE = Some buffer" and "buffer \<noteq> 0"
  shows "\<exists>s'. tegrabl_partition_verify_write alloc s =
      (if \<forall>en \<in> set (verify_list s). verifies contents s en then TEGRABL_NO_ERROR
       else TEGRABL_ERR_VERIFY_FAILED, s') \<and>
    verify_list s' = [] \<and> (\<forall>info a. part_img contents info a s' = part_img contents info a s)"
proof -
  obtain err s1 where v: "verify_entries alloc buffer (verify_list s) TEGRABL_NO_ERROR False s =
      ((err, False \<or> (\<exists>en \<in> set (verify_list s). \<not> verifies contents s en), []), s1)"
    and same: "pm_same contents s s1"
    and err: "(\<forall>en \<in> set (verify_list s). verifies contents s en) \<longrightarrow> verify_list s \<noteq> [] \<longrightarrow>
      err = TEGRABL_NO_ERROR"
    using verify_entries_exact [OF assms(2,4)] by blast
  have "part_img contents info a (s1\<lparr>verify_list := []\<rparr>) = part_img contents info a s" for info a
    using pm_same_part(1) [OF same] by (simp add: part_img_def part_start_def part_dev_def)
  then show ?thesis
    using v err assms(1,3) by (auto simp: tegrabl_partition_verify_write_def)
qed


text \<open>
  Publishing and unpublishing. Publishing an already published device changes nothing; a failed
  publication leaves the list of storage devices as it was; a successful one puts the device with the
  partitions of its GPT in front, and unpublishing the device afterwards restores the list.
\<close>

theorem publish_unpublish:
  assumes "dev_heap (bd s) a = Some d" and "storage_list s = Some entries"
    and "tegrabl_partition_publish alloc mp mi (Some a) offset s = (e, s')"
  shows "(published d \<longrightarrow> e = TEGRABL_NO_ERROR \<and> s' = s) \<and>
    (e \<noteq> TEGRABL_NO_ERROR \<longrightarrow> storage_list s' = Some entries) \<and>
    (\<not> published d \<and> e = TEGRABL_NO_ERROR \<longrightarrow>
       storage_list s' = Some (\<lparr>si_bdev = a,
         si_partitions = snd (fst (tegrabl_gpt_publish alloc mp d offset))\<rparr> # entries) \<and>
       (\<exists>s''. tegrabl_partitions_unpublish (Some a) s' = (TEGRABL_NO_ERROR, s'') \<and>
          storage_list s'' = Some entries \<and> \<not> published (part_dev a s'')))"
  using assms
  by (auto simp: tegrabl_partition_publish_def tegrabl_partitions_unpublish_def set_published_def
      dev_update_def Let_def part_dev_def split: if_splits prod.splits option.splits)

end
