(* ===== verification/Ab_Storage_Correct.thy ===== *)
theory Ab_Storage_Correct
  imports Ab_Smd_Storage Ab_Boot_Properties Partition_Properties
begin

text \<open>
  Lemmas about loading and storing the slot metadata: the checks in terms of the 191 bytes of a copy,
  the states that writes lead to (\<open>pm_devs\<close>), one copy at a time (\<open>smd_copy\<close>, \<open>flush_copy_keeps\<close>,
  \<open>load_copy_exact\<close>), what loading does to the registers, and the write of both copies.
\<close>

section \<open>Checks on an image\<close>

lemma crc_of_image:
  assumes "length b = 191"
  shows "smd_crc (dec_smd_v2 b) = tegrabl_utils_crc32 0 (take 18 b)"
    and "smd_ext_crc (dec_smd_v2 b) = tegrabl_utils_crc32 0 (drop 26 b)"
    and "smd_crc32 (smd (dec_smd_v2 b)) = u32_at 18 b"
    and "smd_magic (smd (dec_smd_v2 b)) = u32_at 0 b"
    and "smd_version (smd (dec_smd_v2 b)) = u16_at 4 b"
proof -
  have "enc_smd (dec_smd (take 22 b)) = take 22 b" using assms by (intro smdc.enc_dec) simp
  then show "smd_crc (dec_smd_v2 b) = tegrabl_utils_crc32 0 (take 18 b)"
    by (simp add: smd_crc_def dec_smd_v2_def)
  have "enc_ext (dec_ext (subrange 22 169 b)) = subrange 22 169 b" using assms by (intro extc.enc_dec) simp
  then show "smd_ext_crc (dec_smd_v2 b) = tegrabl_utils_crc32 0 (drop 26 b)"
    using assms by (simp add: smd_ext_crc_def dec_smd_v2_def) (simp add: subrange_def drop_take)
  show "smd_crc32 (smd (dec_smd_v2 b)) = u32_at 18 b" "smd_magic (smd (dec_smd_v2 b)) = u32_at 0 b"
    "smd_version (smd (dec_smd_v2 b)) = u16_at 4 b"
    by (simp_all add: dec_smd_v2_def dec_smd_def u32_at_def u16_at_def subrange_def drop_take)
qed

lemma version_low_byte:
  assumes "5 \<le> length b"
  shows "BOOT_CHAIN_VERSION_GET (u16_at 4 b) = ucast (b ! 4)"
proof -
  have "subrange 4 2 b = b ! 4 # subrange 5 1 b"
    using assms by (simp add: subrange_def take_Suc_conv_app_nth flip: Cons_nth_drop_Suc)
  then have "u16_at 4 b = ucast (b ! 4) OR push_bit 8 (of_le (subrange 5 1 b))" by (simp add: u16_at_def)
  moreover have m: "(0xFF :: u16) = mask 8" by (simp add: mask_eq_exp_minus_1)
  ultimately show ?thesis
    unfolding BOOT_CHAIN_VERSION_GET_def m
    by (intro bit_word_eqI) (auto simp: bit_simps dest: bit_imp_le_length)
qed

lemma smd_sane_image:
  assumes "length b = 191"
  shows "smd_sane (dec_smd_v2 b) \<longleftrightarrow>
    (if b ! 4 = 1 then u32_at 0 b = BOOT_CHAIN_MAGIC else tegrabl_utils_crc32 0 (take 18 b) = u32_at 18 b) \<and>
    (4 \<le> b ! 4 \<longrightarrow> tegrabl_utils_crc32 0 (drop 26 b) = ext_crc32 (smd_ext (dec_smd_v2 b)))"
proof -
  have v: "BOOT_CHAIN_VERSION_GET (u16_at 4 b) = ucast (b ! 4)" using assms by (intro version_low_byte) simp
  have "(ucast (b ! 4) :: u16) = 1 \<longleftrightarrow> b ! 4 = 1" "(4 :: u16) \<le> ucast (b ! 4) \<longleftrightarrow> 4 \<le> b ! 4"
    by (simp_all add: word_unat_eq_iff word_le_nat_alt unat_ucast_up)
  then show ?thesis
    by (simp add: smd_sane_def Let_def crc_of_image [OF assms] v)
qed

lemma seal_smd_simps [simp]:
  "smd_version (smd (seal_smd s)) = smd_version (smd s)" "smd_magic (smd (seal_smd s)) = smd_magic (smd s)"
  "slot_info (smd (seal_smd s)) = slot_info (smd s)" "num_slots (smd (seal_smd s)) = num_slots (smd s)"
  by (simp_all add: seal_smd_def Let_def)

lemma wf_seal: "wf_v2 s \<Longrightarrow> wf_v2 (seal_smd s)"
  by (simp add: seal_smd_def Let_def wf_v2_def wf_smd_def wf_ext_def)

lemma seal_sane:
  assumes "wf_v2 s" and "BOOT_CHAIN_VERSION_GET (smd_version (smd s)) = BOOT_CHAIN_VERSION_ONE \<Longrightarrow>
    smd_magic (smd s) = BOOT_CHAIN_MAGIC"
  shows "smd_sane (seal_smd s)"
proof -
  have "wf_slot (slot_info (smd s) ! 0)" "wf_slot (slot_info (smd s) ! 1)"
    using assms(1) by (simp_all add: wf_v2_def wf_smd_def list_all_length)
  then have l: "length (enc_slot (slot_info (smd s) ! 0)) = 5" "length (enc_slot (slot_info (smd s) ! 1)) = 5"
    by (simp_all add: slot.length_enc)
  have c: "smd_crc (s\<lparr>smd := (smd s)\<lparr>smd_crc32 := x\<rparr>\<rparr>) = smd_crc s" "smd_crc (s\<lparr>smd_ext := y\<rparr>) = smd_crc s"
    "smd_ext_crc (s\<lparr>smd := z\<rparr>) = smd_ext_crc s"
    "smd_ext_crc (s\<lparr>smd_ext := (smd_ext s)\<lparr>ext_crc32 := w\<rparr>\<rparr>) = smd_ext_crc s" for x y z w
    using l by (simp_all add: smd_crc_def smd_ext_crc_def enc_smd_def enc_ext_def)
  have c': "smd_crc (seal_smd s) = smd_crc s" "smd_ext_crc (seal_smd s) = smd_ext_crc s"
    using l by (simp_all add: smd_crc_def smd_ext_crc_def enc_smd_def enc_ext_def seal_smd_def Let_def)
  have f: "smd_crc32 (smd (seal_smd s)) = smd_crc s"
    "BOOT_CHAIN_VERSION_GET (smd_version (smd s)) \<ge> 4 \<Longrightarrow> ext_crc32 (smd_ext (seal_smd s)) = smd_ext_crc s"
    by (simp_all add: seal_smd_def Let_def c)
  show ?thesis
    using assms(2) f by (simp add: smd_sane_def Let_def c')
qed

section \<open>States that writes lead to\<close>

text \<open>Writes change device contents only: published partitions, device geometry and identity stay.\<close>

definition pm_devs :: "('d \<Rightarrow> bytes) \<Rightarrow> 'd pm_state \<Rightarrow> 'd pm_state \<Rightarrow> bool" where
  "pm_devs contents s s' \<longleftrightarrow>
     storage_list s' = storage_list s \<and>
     (\<forall>b. dev_heap (bd s') b = dev_heap (bd s) b \<or>
        (\<exists>d d'. dev_heap (bd s) b = Some d \<and> dev_heap (bd s') b = Some d' \<and>
          same_dev contents d d' \<and> length (bdev_img contents d') = length (bdev_img contents d)))"

lemma pm_devs_refl [simp]: "pm_devs contents s s"
  by (simp add: pm_devs_def)

lemma pm_same_devs: "pm_same contents s s' \<Longrightarrow> pm_devs contents s s'"
  unfolding pm_same_def pm_devs_def by metis

lemma pm_devs_cases:
  assumes "pm_devs contents s s'"
  obtains "dev_heap (bd s') b = dev_heap (bd s) b"
  | d d' where "dev_heap (bd s) b = Some d" "dev_heap (bd s') b = Some d'" "same_dev contents d d'"
      "length (bdev_img contents d') = length (bdev_img contents d)"
  using assms unfolding pm_devs_def by metis

lemma pm_devs_part:
  assumes "pm_devs contents s s'"
  shows "part_ok contents info b s \<Longrightarrow> part_ok contents info b s'"
    and "part_live contents alloc info b s \<Longrightarrow> part_live contents alloc info b s'"
    and "tegrabl_blockdev_get_storage_type (dev_heap (bd s') b) =
      tegrabl_blockdev_get_storage_type (dev_heap (bd s) b)"
proof -
  show "part_ok contents info b s'" if "part_ok contents info b s"
    by (rule pm_devs_cases [OF assms, of b])
      (use that in \<open>auto simp: part_ok_def part_dev_def part_start_def dest: same_devD\<close>)
  then show "part_live contents alloc info b s'" if "part_live contents alloc info b s"
    by (rule_tac pm_devs_cases [OF assms, of b])
      (use that in \<open>auto simp: part_live_def part_dev_def dest: bdev_live_same\<close>)
  show "tegrabl_blockdev_get_storage_type (dev_heap (bd s') b) =
      tegrabl_blockdev_get_storage_type (dev_heap (bd s) b)"
    by (rule pm_devs_cases [OF assms, of b])
      (auto simp: tegrabl_blockdev_get_storage_type_def same_dev_def)
qed

lemma pm_devs_open:
  "pm_devs contents s s' \<Longrightarrow> tegrabl_partition_open n p s' = tegrabl_partition_open n p s"
  by (simp add: pm_devs_def tegrabl_partition_open_def split: option.splits)

lemma part_wr_devs:
  assumes "part_ok contents info a s" and "unat off + unat n < 2 ^ 64" and "length data = unat n"
    and "part_wr alloc info a s buf data off n = (e, s')"
  shows "pm_devs contents s s'"
  using assms(4,1,2)
proof (cases rule: part_wr_cases)
  case rejected
  then show ?thesis by simp
next
  case (dev e0 d')
  note O = part_offset_word [OF assms(1) dev(1)]
  have ok': "bdev_ok contents (part_dev a s)" using assms(1) by (simp add: part_ok_def)
  have "unat (off + push_bit (unat (dev_log2 a s)) (start_sector info)) + unat n < 2 ^ 64" using O by simp
  note W = bdev_write_ok [OF ok' this assms(3) dev(2)]
  have "same_dev contents (part_dev a s) d'"
    "length (bdev_img contents d') = length (bdev_img contents (part_dev a s))"
    using W by (auto simp: wr_keeps_def same_outside_length)
  moreover have "dev_heap (bd s) a = Some (part_dev a s)"
    using assms(1) by (auto simp: part_ok_def part_dev_def)
  ultimately show ?thesis
    unfolding dev(3) pm_devs_def by (auto simp: dev_update_def)
qed

section \<open>One copy\<close>

text \<open>The copy named \<open>c\<close> is the partition \<open>info\<close> on device \<open>a\<close>, large enough and not on QSPI flash
  (whose erase hook the driver contract does not cover).\<close>

definition smd_copy :: "u32 \<Rightarrow> tegrabl_partition_info \<Rightarrow> nat \<Rightarrow> 'd pm_state \<Rightarrow> bool" where
  "smd_copy c info a pm \<longleftrightarrow>
     tegrabl_partition_open (Some (smd_part_name c)) (Some null_partition) pm =
       (TEGRABL_NO_ERROR, Some (part_handle info a 0)) \<and>
     191 \<le> unat (total_size info) \<and>
     tegrabl_blockdev_get_storage_type (dev_heap (bd pm) a) \<noteq> TEGRABL_STORAGE_QSPI_FLASH"

lemma pm_devs_copy: "pm_devs contents s s' \<Longrightarrow> smd_copy c info a s \<Longrightarrow> smd_copy c info a s'"
  using pm_devs_open [of contents s s'] pm_devs_part(3) [of contents s s' a] by (simp add: smd_copy_def)

lemma seek_start [simp]:
  "tegrabl_partition_seek (Some (part_handle info a 0)) 0 TEGRABL_PARTITION_SEEK_SET =
     (TEGRABL_NO_ERROR, Some (part_handle info a 0))"
  by (simp add: tegrabl_partition_seek_def part_handle_def handle_parts_def Let_def)

lemma open_smd:
  "smd_copy c info a pm \<Longrightarrow>
   tegrabl_partition_open (Some (smd_part_name c)) (Some null_partition) pm =
     (TEGRABL_NO_ERROR, Some (part_handle info a 0))"
  by (simp add: smd_copy_def)

lemma flush_copy_run:
  assumes "smd_copy c info a pm"
  obtains e0 where "fst (flush_smd_bin_copy alloc addr s c pm) = (if e0 = TEGRABL_NO_ERROR then e0 else AB_HIGHEST e0)"
    "part_wr alloc info a pm addr (enc_smd_v2 s) 0 191 = (e0, snd (flush_smd_bin_copy alloc addr s c pm))"
proof -
  have q: "tegrabl_blockdev_get_storage_type (Option.bind (block_device (part_handle info a 0)) (dev_heap (bd pm))) \<noteq>
      TEGRABL_STORAGE_QSPI_FLASH"
    using assms by (simp add: smd_copy_def part_handle_def)
  obtain e0 p pm' where w: "tegrabl_partition_write alloc (part_handle info a 0) addr (enc_smd_v2 s) 191 pm =
      ((e0, p), pm')" by (metis surj_pair)
  have "flush_smd_bin_copy alloc addr s c pm = (if e0 = TEGRABL_NO_ERROR then e0 else AB_HIGHEST e0, pm')"
    using q w by (simp add: flush_smd_bin_copy_def open_smd [OF assms] Let_def)
  then show ?thesis using w by (intro that [of e0]) (simp_all add: part_wr_def)
qed

lemma flush_copy_keeps:
  assumes "smd_copy c info a pm" and "part_ok contents info a pm" and "wf_v2 s"
    and "flush_smd_bin_copy alloc addr s c pm = (e, pm')"
  shows "pm_devs contents pm pm'"
    and "e = TEGRABL_NO_ERROR \<Longrightarrow> take 191 (part_img contents info a pm') = enc_smd_v2 s"
    and "part_ok contents info2 a2 pm \<Longrightarrow>
      a2 \<noteq> a \<or> unat (start_sector info) + unat (num_sectors info) \<le> unat (start_sector info2) \<or>
      unat (start_sector info2) + unat (num_sectors info2) \<le> unat (start_sector info) \<Longrightarrow>
      part_img contents info2 a2 pm' = part_img contents info2 a2 pm"
proof -
  obtain e0 where e0: "e = (if e0 = TEGRABL_NO_ERROR then e0 else AB_HIGHEST e0)"
    "part_wr alloc info a pm addr (enc_smd_v2 s) 0 191 = (e0, pm')"
    using flush_copy_run [OF assms(1), of alloc addr s] assms(4) by auto
  have len: "length (enc_smd_v2 s) = unat (191 :: u64)" using v2.length_enc [OF assms(3)] by simp
  have nw: "unat (0 :: u64) + unat (191 :: u64) < 2 ^ 64" by simp
  show "pm_devs contents pm pm'" by (rule part_wr_devs [OF assms(2) nw len e0(2)])
  show "part_img contents info2 a2 pm' = part_img contents info2 a2 pm"
    if "part_ok contents info2 a2 pm" and "a2 \<noteq> a \<or>
      unat (start_sector info) + unat (num_sectors info) \<le> unat (start_sector info2) \<or>
      unat (start_sector info2) + unat (num_sectors info2) \<le> unat (start_sector info)"
    using part_write_isolated [OF assms(2) that(1) nw len _ e0(2)] that(2) by blast
  show "take 191 (part_img contents info a pm') = enc_smd_v2 s" if "e = TEGRABL_NO_ERROR"
  proof -
    have z: "e0 = TEGRABL_NO_ERROR" using that e0(1) by (auto split: if_splits)
    have "part_img contents info a pm' = overwrite 0 (enc_smd_v2 s) (part_img contents info a pm)"
      using part_wr_ok [OF assms(2) nw len e0(2)] z by simp
    then show ?thesis using len by (simp add: overwrite_def)
  qed
qed

lemma flush_copy_succeeds:
  assumes "smd_copy c info a pm" and "part_live contents alloc info a pm" and "wf_v2 s"
    and "addr \<noteq> 0" and "unat addr + 191 < 2 ^ 64"
  shows "fst (flush_smd_bin_copy alloc addr s c pm) = TEGRABL_NO_ERROR"
proof -
  obtain e0 where e0: "fst (flush_smd_bin_copy alloc addr s c pm) = (if e0 = TEGRABL_NO_ERROR then e0 else AB_HIGHEST e0)"
    "part_wr alloc info a pm addr (enc_smd_v2 s) 0 191 = (e0, snd (flush_smd_bin_copy alloc addr s c pm))"
    by (rule flush_copy_run [OF assms(1)])
  have len: "length (enc_smd_v2 s) = unat (191 :: u64)" using v2.length_enc [OF assms(3)] by simp
  obtain pm' where "tegrabl_partition_write alloc (part_handle info a 0) addr (enc_smd_v2 s) 191 pm =
      ((TEGRABL_NO_ERROR, part_handle info a (0 + 191)), pm')"
    by (rule part_write_succeeds [OF assms(2,4) _ _ len, of 0]) (use assms in \<open>simp_all add: smd_copy_def\<close>)
  then have "e0 = TEGRABL_NO_ERROR" using e0(2) by (simp add: part_wr_def)
  then show ?thesis using e0(1) by simp
qed

text \<open>Loading a copy that works: the image decides.\<close>

lemma load_copy_exact:
  assumes "smd_copy c info a (ab_pm st)" and "part_live contents alloc info a (ab_pm st)" and "addr \<noteq> 0"
  shows "\<exists>pm'. pm_same contents (ab_pm st) pm' \<and>
    load_smd_bin_copy alloc addr c st =
      (let s = dec_smd_v2 (take 191 (part_img contents info a (ab_pm st))) in
       if smd_sane s then ((TEGRABL_NO_ERROR, Some s), st\<lparr>ab_pm := pm', current_smd := c\<rparr>)
       else ((AB_ERROR TEGRABL_ERR_VERIFY_FAILED 0, None), st\<lparr>ab_pm := pm', current_smd := SMD_INVALID\<rparr>))"
proof -
  have fits: "unat (0 :: u64) + unat (191 :: u64) \<le> unat (total_size info)"
    using assms(1) by (simp add: smd_copy_def)
  obtain pm' where r: "tegrabl_partition_read alloc (part_handle info a 0) addr 191 (ab_pm st) =
      (((TEGRABL_NO_ERROR, subrange (unat (0 :: u64)) (unat (191 :: u64)) (part_img contents info a (ab_pm st))),
        part_handle info a (0 + 191)), pm')" and same: "pm_same contents (ab_pm st) pm'"
    by (rule part_read_succeeds [OF assms(2,3) _ fits]) simp_all
  have r': "tegrabl_partition_read alloc (part_handle info a 0) addr (of_nat 191) (ab_pm st) =
      (((TEGRABL_NO_ERROR, take 191 (part_img contents info a (ab_pm st))), part_handle info a 191), pm')"
    using r by (simp add: subrange_def)
  show ?thesis
    using same r' by (intro exI [of _ pm'])
      (simp add: load_smd_bin_copy_def open_smd [OF assms(1)] Let_def)
qed

section \<open>What loading keeps\<close>

lemma set_active_rootfs_keeps:
  "\<exists>s'. snd (tegrabl_a_b_set_active_rootfs (Some s) r) = Some s' \<and> smd s' = smd s \<and> (wf_v2 s \<longrightarrow> wf_v2 s')"
  by (auto simp: tegrabl_a_b_set_active_rootfs_def Let_def wf_features_def intro!: wf_update_features)

lemma set_rootfs_status_keeps:
  "\<exists>s'. snd (tegrabl_a_b_set_rootfs_status (Some s) k v) = Some s' \<and> smd s' = smd s \<and> (wf_v2 s \<longrightarrow> wf_v2 s')"
  by (auto simp: tegrabl_a_b_set_rootfs_status_def wf_features_def intro!: wf_update_features)

lemma select_rootfs_keeps:
  assumes "scratch_ok soc"
  obtains s' m' where "tegrabl_a_b_select_active_rootfs soc (Some s) m = Some (TEGRABL_NO_ERROR, Some s', m')"
    "smd s' = smd s" "wf_v2 s \<Longrightarrow> wf_v2 s'" "op_get_boot_slot_reg soc m' = op_get_boot_slot_reg soc m"
    "ROOTFS_AB_REG_MAGIC_GET (op_get_rootfs_slot_reg soc m') =
      ROOTFS_AB_REG_MAGIC_GET (op_get_rootfs_slot_reg soc m)"
proof -
  let ?rid = "GET_ROOTFS_ACTIVE (ROOTFS_SELECT s)"
  obtain s1 where 1: "snd (tegrabl_a_b_set_rootfs_status (Some s) (ucast ?rid) ROOTFS_STATUS_BOOT_FAILED) = Some s1"
    "smd s1 = smd s" "wf_v2 s \<longrightarrow> wf_v2 s1"
    using set_rootfs_status_keeps by metis
  obtain s2 where 2: "snd (tegrabl_a_b_set_active_rootfs (Some s1) (c_not ?rid)) = Some s2"
    "smd s2 = smd s" "wf_v2 s \<longrightarrow> wf_v2 s2"
    using set_active_rootfs_keeps [of s1] 1 by metis
  obtain s3 where 3: "snd (tegrabl_a_b_set_active_rootfs (Some s1) ROOTFS_INVALID) = Some s3"
    "smd s3 = smd s" "wf_v2 s \<longrightarrow> wf_v2 s3"
    using set_active_rootfs_keeps [of s1] 1 by metis
  have "\<exists>s' m'. tegrabl_a_b_select_active_rootfs soc (Some s) m = Some (TEGRABL_NO_ERROR, Some s', m') \<and>
      smd s' = smd s \<and> (wf_v2 s \<longrightarrow> wf_v2 s') \<and> op_get_boot_slot_reg soc m' = op_get_boot_slot_reg soc m \<and>
      ROOTFS_AB_REG_MAGIC_GET (op_get_rootfs_slot_reg soc m') = ROOTFS_AB_REG_MAGIC_GET (op_get_rootfs_slot_reg soc m)"
    using 2 3 unfolding tegrabl_a_b_select_active_rootfs_def Let_def option.case 1(1)
    by (simp add: scratchD [OF assms])
  then show ?thesis using that by blast
qed

lemma init_rootfs_reg_keeps:
  assumes "scratch_ok soc"
  obtains m' where "tegrabl_a_b_init_rootfs_slot_reg soc (Some s) m = Some (TEGRABL_NO_ERROR, m')"
    "op_get_boot_slot_reg soc m' = op_get_boot_slot_reg soc m"
    "BOOTCTRL_SUPPORT_REDUNDANCY_USER (smd_version (smd s)) \<or> BOOTCTRL_SUPPORT_ROOTFS_AB (smd_version (smd s)) \<Longrightarrow>
     ROOTFS_AB_REG_MAGIC_GET (op_get_rootfs_slot_reg soc m') = ROOTFS_AB_REG_MAGIC"
proof -
  have "\<exists>m'. tegrabl_a_b_init_rootfs_slot_reg soc (Some s) m = Some (TEGRABL_NO_ERROR, m') \<and>
    op_get_boot_slot_reg soc m' = op_get_boot_slot_reg soc m \<and>
    (BOOTCTRL_SUPPORT_REDUNDANCY_USER (smd_version (smd s)) \<or> BOOTCTRL_SUPPORT_ROOTFS_AB (smd_version (smd s)) \<longrightarrow>
     ROOTFS_AB_REG_MAGIC_GET (op_get_rootfs_slot_reg soc m') = ROOTFS_AB_REG_MAGIC)"
    by (auto simp: tegrabl_a_b_init_rootfs_slot_reg_def tegrabl_a_b_get_version_def Let_def scratchD [OF assms])
  then show ?thesis using that by blast
qed

definition rf_reg_ready :: "'m soc_ops \<Rightarrow> slot_meta_data_v2 \<Rightarrow> 'm \<Rightarrow> bool" where
  "rf_reg_ready soc s m \<longleftrightarrow>
     (BOOTCTRL_SUPPORT_REDUNDANCY_USER (smd_version (smd s)) \<or> BOOTCTRL_SUPPORT_ROOTFS_AB (smd_version (smd s)) \<longrightarrow>
      ROOTFS_AB_REG_MAGIC_GET (op_get_rootfs_slot_reg soc m) = ROOTFS_AB_REG_MAGIC)"

lemma init_loaded:
  assumes "scratch_ok soc"
  obtains s' m' where "init_loaded_smd soc addr s st =
      Some ((TEGRABL_NO_ERROR, Some s'), st\<lparr>smd_backup := Some s, ab_soc := m', smd_loadaddress := Some (addr, s')\<rparr>)"
    "smd s' = smd s" "wf_v2 s \<Longrightarrow> wf_v2 s'" "op_get_boot_slot_reg soc m' = op_get_boot_slot_reg soc (ab_soc st)"
    "rf_reg_ready soc s' m'"
proof -
  obtain m1 where 1: "tegrabl_a_b_init_rootfs_slot_reg soc (Some s) (ab_soc st) = Some (TEGRABL_NO_ERROR, m1)"
    "op_get_boot_slot_reg soc m1 = op_get_boot_slot_reg soc (ab_soc st)"
    "BOOTCTRL_SUPPORT_REDUNDANCY_USER (smd_version (smd s)) \<or> BOOTCTRL_SUPPORT_ROOTFS_AB (smd_version (smd s)) \<Longrightarrow>
     ROOTFS_AB_REG_MAGIC_GET (op_get_rootfs_slot_reg soc m1) = ROOTFS_AB_REG_MAGIC"
    using init_rootfs_reg_keeps [OF assms] by blast
  obtain s' m2 where 2: "tegrabl_a_b_select_active_rootfs soc (Some s) m1 = Some (TEGRABL_NO_ERROR, Some s', m2)"
    "smd s' = smd s" "wf_v2 s \<Longrightarrow> wf_v2 s'" "op_get_boot_slot_reg soc m2 = op_get_boot_slot_reg soc m1"
    "ROOTFS_AB_REG_MAGIC_GET (op_get_rootfs_slot_reg soc m2) =
      ROOTFS_AB_REG_MAGIC_GET (op_get_rootfs_slot_reg soc m1)"
    using select_rootfs_keeps [OF assms] by blast
  have "init_loaded_smd soc addr s st =
      Some ((TEGRABL_NO_ERROR, Some s'), st\<lparr>smd_backup := Some s, ab_soc := m2, smd_loadaddress := Some (addr, s')\<rparr>)"
    by (simp add: init_loaded_smd_def 1(1) 2(1) Let_def)
  then show ?thesis
    by (rule that) (use 1 2 in \<open>auto simp: rf_reg_ready_def\<close>)
qed

lemma load_copy_soc: "ab_soc (snd (load_smd_bin_copy alloc addr c st)) = ab_soc st"
  by (simp add: load_smd_bin_copy_def Let_def split: prod.split)

lemma get_smd_boot_reg:
  assumes "scratch_ok soc" and "tegrabl_a_b_get_smd soc alloc st = Some (r, st')"
  shows "op_get_boot_slot_reg soc (ab_soc st') = op_get_boot_slot_reg soc (ab_soc st)"
proof -
  have i: "op_get_boot_slot_reg soc (ab_soc st'') = op_get_boot_slot_reg soc (ab_soc t)"
    if "init_loaded_smd soc addr s t = Some (q, st'')" for addr s t q st''
    by (rule init_loaded [OF assms(1), of addr s t]) (use that in auto)
  have l: "ab_soc t' = ab_soc t" if "load_smd_bin_copy alloc addr c t = (q, t')" for addr c t q t'
    using load_copy_soc [of alloc addr c t] that by simp
  show ?thesis
    using assms(2) by (auto simp: tegrabl_a_b_get_smd_def split: option.splits prod.splits if_splits dest!: i l)
qed

lemma check_redundancy_magic:
  assumes "scratch_ok soc" and "check_redundancy_status soc reg s m = Some (e, s', m')"
  shows "BOOT_CHAIN_REG_MAGIC_GET (op_get_boot_slot_reg soc m') = BOOT_CHAIN_REG_MAGIC_GET (op_get_boot_slot_reg soc m)"
proof -
  have user: "BOOT_CHAIN_REG_MAGIC_GET (op_get_boot_slot_reg soc m') =
      BOOT_CHAIN_REG_MAGIC_GET (op_get_boot_slot_reg soc m)"
    if "check_user_redundancy_status soc reg s m = Some (e, s', m')"
    using that set_retry_count_reg_magic [OF assms(1)] scratchD [OF assms(1)]
    by (auto simp: check_user_redundancy_status_def Let_def split: prod.splits if_splits Option.bind_splits)
  then show ?thesis
    using assms(2) set_retry_count_reg_magic [OF assms(1)]
    by (auto simp: check_redundancy_status_def Let_def check_non_user_redundancy_status_def
        check_rootfs_ab_status_def split: if_splits)
qed

lemma update_smd_done_clears:
  assumes "scratch_ok soc" and "BOOT_CHAIN_REG_MAGIC_GET reg = BOOT_CHAIN_REG_MAGIC"
  shows "op_get_boot_slot_reg soc (ab_soc (snd (update_smd_done soc reg e st))) = 0"
  using assms(2) by (simp add: update_smd_done_def Let_def scratchD [OF assms(1)])

lemma copy_retry_reg:
  "tegrabl_a_b_copy_retry_count (Some s) reg FROM_REG_TO_SMD = Some (s', reg') \<Longrightarrow> reg' = reg"
  by (auto simp: tegrabl_a_b_copy_retry_count_def Let_def)

lemma update_smd_clears:
  assumes "scratch_ok soc"
    and "BOOT_CHAIN_REG_MAGIC_GET (op_get_boot_slot_reg soc (ab_soc st)) = BOOT_CHAIN_REG_MAGIC"
    and "tegrabl_a_b_update_smd soc alloc st = Some (e, st')"
  shows "op_get_boot_slot_reg soc (ab_soc st') = 0"
proof -
  obtain error p st1 where g: "tegrabl_a_b_get_smd soc alloc st = Some ((error, p), st1)"
    using assms(3) by (auto simp: tegrabl_a_b_update_smd_def Let_def split: Option.bind_splits)
  have b: "BOOT_CHAIN_REG_MAGIC_GET (op_get_boot_slot_reg soc (ab_soc st1)) = BOOT_CHAIN_REG_MAGIC"
    using get_smd_boot_reg [OF assms(1) g] assms(2) by simp
  note cl = update_smd_done_clears [OF assms(1)]
  have d: "op_get_boot_slot_reg soc (ab_soc st') = 0"
    if "update_smd_done soc reg e' t = (e, st')" "BOOT_CHAIN_REG_MAGIC_GET reg = BOOT_CHAIN_REG_MAGIC" for reg e' t
    using cl [OF that(2), of e' t] that(1) by simp
  show ?thesis
    using assms(3) g b assms(2)
    by (auto simp: tegrabl_a_b_update_smd_def Let_def split: Option.bind_splits if_splits prod.splits
        dest!: check_redundancy_magic [OF assms(1)] copy_retry_reg elim!: d)
qed

section \<open>Both copies\<close>

lemma pm_devs_trans: "pm_devs contents s s' \<Longrightarrow> pm_devs contents s' s'' \<Longrightarrow> pm_devs contents s s''"
proof -
  assume 1: "pm_devs contents s s'" and 2: "pm_devs contents s' s''"
  have "dev_heap (bd s'') b = dev_heap (bd s) b \<or>
      (\<exists>d d'. dev_heap (bd s) b = Some d \<and> dev_heap (bd s'') b = Some d' \<and>
        same_dev contents d d' \<and> length (bdev_img contents d') = length (bdev_img contents d))" for b
    using conjunct2 [OF 1 [unfolded pm_devs_def], rule_format, of b]
      conjunct2 [OF 2 [unfolded pm_devs_def], rule_format, of b]
    by (elim disjE exE conjE) (auto dest: same_dev_trans)
  then show ?thesis using 1 2 by (simp add: pm_devs_def)
qed

definition parts_disjoint :: "tegrabl_partition_info \<Rightarrow> nat \<Rightarrow> tegrabl_partition_info \<Rightarrow> nat \<Rightarrow> bool" where
  "parts_disjoint info a info2 a2 \<longleftrightarrow> a2 \<noteq> a \<or>
     unat (start_sector info) + unat (num_sectors info) \<le> unat (start_sector info2) \<or>
     unat (start_sector info2) + unat (num_sectors info2) \<le> unat (start_sector info)"

lemma parts_disjoint_sym: "parts_disjoint i a j b \<Longrightarrow> parts_disjoint j b i a"
  by (auto simp: parts_disjoint_def)

lemma flush_keeps_other:
  assumes "smd_copy c i a pm" "part_ok contents i a pm" "wf_v2 s" "flush_smd_bin_copy alloc addr s c pm = (e, pm')"
    "parts_disjoint i a j b" "part_ok contents j b pm"
  shows "part_img contents j b pm' = part_img contents j b pm"
  using flush_copy_keeps(3) [OF assms(1-4) assms(6)] assms(5) by (simp add: parts_disjoint_def)

text \<open>The order of the two writes, as copies \<open>c1\<close> then \<open>c2\<close>.\<close>

definition flush_order :: "u32 \<Rightarrow> u32 \<times> u32" where
  "flush_order current = (if current = SMD_COPY_PRIMARY then (SMD_COPY_SECONDARY, SMD_COPY_PRIMARY)
     else (SMD_COPY_PRIMARY, SMD_COPY_SECONDARY))"

lemma flush_smd_order:
  "tegrabl_a_b_flush_smd alloc addr (Some s) current pm =
     (case flush_smd_bin_copy alloc addr (seal_smd s) (fst (flush_order current)) pm of (e, pm1) \<Rightarrow>
        if e \<noteq> TEGRABL_NO_ERROR then ((e, Some (seal_smd s)), pm1)
        else (case flush_smd_bin_copy alloc addr (seal_smd s) (snd (flush_order current)) pm1 of (e, pm2) \<Rightarrow>
          ((e, Some (seal_smd s)), pm2)))"
  by (auto simp: tegrabl_a_b_flush_smd_def flush_order_def Let_def split: prod.split)

lemma flush_smd_safe:
  assumes "smd_copy (fst (flush_order current)) i a pm" "smd_copy (snd (flush_order current)) j b pm"
    and "part_ok contents i a pm" "part_ok contents j b pm" and "parts_disjoint i a j b" and "wf_v2 s"
    and "tegrabl_a_b_flush_smd alloc addr (Some s) current pm = ((e, p), pm')"
  shows "part_img contents j b pm' = part_img contents j b pm \<or>
    take 191 (part_img contents i a pm') = enc_smd_v2 (seal_smd s)"
    and "e = TEGRABL_NO_ERROR \<Longrightarrow> take 191 (part_img contents i a pm') = enc_smd_v2 (seal_smd s) \<and>
      take 191 (part_img contents j b pm') = enc_smd_v2 (seal_smd s)"
    and "pm_devs contents pm pm' \<and> p = Some (seal_smd s)"
proof -
  note wf = wf_seal [OF assms(6)]
  obtain e1 pm1 where f1: "flush_smd_bin_copy alloc addr (seal_smd s) (fst (flush_order current)) pm = (e1, pm1)"
    by (metis surj_pair)
  obtain e2 pm2 where f2: "flush_smd_bin_copy alloc addr (seal_smd s) (snd (flush_order current)) pm1 = (e2, pm2)"
    by (metis surj_pair)
  note K1 = flush_copy_keeps(1,2) [OF assms(1,3) wf f1]
  have ok1: "part_ok contents i a pm1" "part_ok contents j b pm1" "smd_copy (snd (flush_order current)) j b pm1"
    using pm_devs_part(1) [OF K1(1)] pm_devs_copy [OF K1(1)] assms(2-4) by blast+
  note K2 = flush_copy_keeps(1,2) [OF ok1(3,2) wf f2]
  have o1: "part_img contents j b pm1 = part_img contents j b pm"
    by (rule flush_keeps_other [OF assms(1,3) wf f1 assms(5,4)])
  have o2: "part_img contents i a pm2 = part_img contents i a pm1"
    by (rule flush_keeps_other [OF ok1(3,2) wf f2 parts_disjoint_sym [OF assms(5)] ok1(1)])
  have tr: "pm_devs contents pm pm2" by (rule pm_devs_trans [OF K1(1) K2(1)])
  have run: "((e, p), pm') = (if e1 \<noteq> TEGRABL_NO_ERROR then ((e1, Some (seal_smd s)), pm1)
      else ((e2, Some (seal_smd s)), pm2))"
    using assms(7) by (simp add: flush_smd_order f1 f2 split: if_splits)
  show "part_img contents j b pm' = part_img contents j b pm \<or>
      take 191 (part_img contents i a pm') = enc_smd_v2 (seal_smd s)"
    using run o1 o2 K1(2) by (auto split: if_splits)
  show "take 191 (part_img contents i a pm') = enc_smd_v2 (seal_smd s) \<and>
      take 191 (part_img contents j b pm') = enc_smd_v2 (seal_smd s)" if "e = TEGRABL_NO_ERROR"
    using run o2 K1(2) K2(2) that by (auto split: if_splits)
  show "pm_devs contents pm pm' \<and> p = Some (seal_smd s)" using run K1(1) tr by (auto split: if_splits)
qed

lemma flush_smd_succeeds:
  assumes "smd_copy (fst (flush_order current)) i a pm" "smd_copy (snd (flush_order current)) j b pm"
    and "part_live contents alloc i a pm" "part_live contents alloc j b pm" and "wf_v2 s"
    and "addr \<noteq> 0" and "unat addr + 191 < 2 ^ 64"
  shows "fst (fst (tegrabl_a_b_flush_smd alloc addr (Some s) current pm)) = TEGRABL_NO_ERROR"
proof -
  note wf = wf_seal [OF assms(5)]
  obtain e1 pm1 where f1: "flush_smd_bin_copy alloc addr (seal_smd s) (fst (flush_order current)) pm = (e1, pm1)"
    by (metis surj_pair)
  have ok: "part_ok contents i a pm" using assms(3) by (simp add: part_live_def)
  note K1 = flush_copy_keeps(1) [OF assms(1) ok wf f1]
  have "e1 = TEGRABL_NO_ERROR" using flush_copy_succeeds [OF assms(1,3) wf assms(6,7)] f1 by simp
  moreover have "fst (flush_smd_bin_copy alloc addr (seal_smd s) (snd (flush_order current)) pm1) = TEGRABL_NO_ERROR"
    by (rule flush_copy_succeeds [OF pm_devs_copy [OF K1 assms(2)] pm_devs_part(2) [OF K1 assms(4)] wf assms(6,7)])
  ultimately show ?thesis by (auto simp: flush_smd_order f1 split: prod.split)
qed

end
