(* ===== verification/Ab_Storage_Properties.thy ===== *)
theory Ab_Storage_Properties
  imports Ab_Storage_Correct
begin

text \<open>
  The properties of loading and storing the slot metadata, and a RAM-backed store with both copies on
  which they are shown to apply.
\<close>

section \<open>A concrete store\<close>


definition demo_info2 :: "string \<Rightarrow> u64 \<Rightarrow> tegrabl_partition_info" where
  "demo_info2 name st = \<lparr>part_name = c_lit name, part_guid = [], part_ptype_guid = [],
     start_sector = st, num_sectors = 3, total_size = 192\<rparr>"

definition demo_i :: tegrabl_partition_info where "demo_i = demo_info2 ''SMD'' 0"
definition demo_j :: tegrabl_partition_info where "demo_j = demo_info2 ''SMD_b'' 4"

definition demo_store :: "bytes \<Rightarrow> bytes pm_state" where
  "demo_store img =
     \<lparr>bd = \<lparr>dev_heap = [7 \<mapsto> ram_dev 6 8 img], bdevs = Some [7], xfer_id = 0, close_log = []\<rparr>,
      storage_list = Some [\<lparr>si_bdev = 7, si_partitions = [demo_i, demo_j]\<rparr>],
      set_verify_flag = False, verify_all_partitions = False, verify_list = []\<rparr>"

lemma demo_store_fields [simp]:
  "start_sector demo_i = 0" "num_sectors demo_i = 3" "total_size demo_i = 192"
  "start_sector demo_j = 4" "num_sectors demo_j = 3" "total_size demo_j = 192"
  by (simp_all add: demo_i_def demo_j_def demo_info2_def)

lemma demo_store_dev [simp]: "part_dev 7 (demo_store img) = ram_dev 6 8 img"
  by (simp add: part_dev_def demo_store_def)

lemma demo_store_live:
  assumes "length img = 512"
  shows "part_live (\<lambda>p. p) ram_alloc demo_i 7 (demo_store img)" "part_live (\<lambda>p. p) ram_alloc demo_j 7 (demo_store img)"
    "part_img (\<lambda>p. p) demo_i 7 (demo_store img) = subrange 0 192 img"
    "part_img (\<lambda>p. p) demo_j 7 (demo_store img) = subrange 256 192 img"
proof -
  have live: "bdev_live (\<lambda>p. p) ram_alloc (ram_dev 6 8 img)"
    using assms by (intro ram_dev_live) simp_all
  have g: "bdev_gran (ram_dev 6 8 img) = 64" by (simp add: bdev_gran_def ram_dev_def)
  show "part_live (\<lambda>p. p) ram_alloc demo_i 7 (demo_store img)" "part_live (\<lambda>p. p) ram_alloc demo_j 7 (demo_store img)"
    using live bdev_live_ok [OF live] assms
    by (simp_all add: part_live_def part_ok_def part_start_def ram_dev_img g) (simp_all add: demo_store_def)
  show "part_img (\<lambda>p. p) demo_i 7 (demo_store img) = subrange 0 192 img"
    "part_img (\<lambda>p. p) demo_j 7 (demo_store img) = subrange 256 192 img"
    by (simp_all add: part_img_def part_start_def ram_dev_img g)
qed

lemma demo_copies: "smd_copy 0 demo_i 7 (demo_store img)" "smd_copy 1 demo_j 7 (demo_store img)"
  unfolding smd_copy_def by (intro conjI; code_simp)+

lemma demo_disjoint: "parts_disjoint demo_i 7 demo_j 7"
  by (simp add: parts_disjoint_def)

lemmas demo_blank = demo_store_live [of "replicate 512 0", simplified length_replicate, OF refl]

definition demo_reg :: u32 where
  "demo_reg = BOOT_CHAIN_REG_UPDATE_FLAG_SET BC_FLAG_OTA_ON (BOOT_CHAIN_REG_B_RETRY_COUNT_SET 7
     (BOOT_CHAIN_REG_A_RETRY_COUNT_SET 2 (BOOT_CHAIN_REG_MAGIC_SET 0)))"

definition demo_smd_img :: bytes where
  "demo_smd_img = replicate 4 0 @ [1] @ replicate 251 0 @ [0, 0x4E, 0x42, 0x43, 1] @ replicate 251 0"

lemma seal_prefix:
  assumes "wf_v2 s"
  shows "take 18 (enc_smd_v2 (seal_smd s)) = take 18 (enc_smd_v2 s)"
proof -
  have "wf_slot (slot_info (smd s) ! 0)" "wf_slot (slot_info (smd s) ! 1)"
    using assms by (simp_all add: wf_v2_def wf_smd_def list_all_length)
  then have l: "length (enc_slot (slot_info (smd s) ! 0)) = 5" "length (enc_slot (slot_info (smd s) ! 1)) = 5"
    by (simp_all add: slot.length_enc)
  show ?thesis using l by (simp add: enc_smd_v2_def enc_smd_def seal_smd_def Let_def)
qed

section \<open>Properties\<close>







text \<open>
  The register that hands the boot chain over is consumed: once the metadata has been updated, with
  whatever outcome, a register that held valid data is zero, so that the same boot is not counted twice.
\<close>

theorem update_smd_clears_register:
  assumes "scratch_ok soc"
    and "BOOT_CHAIN_REG_MAGIC_GET (op_get_boot_slot_reg soc (ab_soc st)) = BOOT_CHAIN_REG_MAGIC"
    and "tegrabl_a_b_update_smd soc alloc st = Some (e, st')"
  shows "op_get_boot_slot_reg soc (ab_soc st') = 0"
  by (rule update_smd_clears [OF assms])

text \<open>
  C28. Loading with fallback: with working partitions for both copies, the metadata is taken from the
  first copy that passes the checks, the primary before the secondary, which becomes the current one and
  is kept as backup; the slot table is the stored one and the root filesystem register is initialised.
  When neither passes, the error says so and no buffer is left behind. No copy is modified.
\<close>

theorem get_smd_first_sane:
  assumes "scratch_ok soc" and "smd_loadaddress st = None"
    and "smd_copy 0 i a (ab_pm st)" and "smd_copy 1 j b (ab_pm st)"
    and "part_live contents alloc i a (ab_pm st)" and "part_live contents alloc j b (ab_pm st)"
  shows "let s0 = dec_smd_v2 (take 191 (part_img contents i a (ab_pm st)));
             s1 = dec_smd_v2 (take 191 (part_img contents j b (ab_pm st)));
             c = (if smd_sane s0 then SMD_COPY_PRIMARY else SMD_COPY_SECONDARY);
             s = (if smd_sane s0 then s0 else s1)
         in \<exists>e p st'. tegrabl_a_b_get_smd soc alloc st = Some ((e, p), st') \<and>
              pm_same contents (ab_pm st) (ab_pm st') \<and>
              (if smd_sane s
               then e = TEGRABL_NO_ERROR \<and> current_smd st' = c \<and> smd_backup st' = Some s \<and>
                 (\<exists>addr s'. p = Some s' \<and> smd_loadaddress st' = Some (addr, s') \<and> smd s' = smd s \<and>
                    rf_reg_ready soc s' (ab_soc st'))
               else e = AB_ERROR TEGRABL_ERR_VERIFY_FAILED 0 \<and> p = None \<and>
                 smd_loadaddress st' = None \<and> smd_backup st' = None)"
proof -
  let ?s0 = "dec_smd_v2 (take 191 (part_img contents i a (ab_pm st)))"
  let ?s1 = "dec_smd_v2 (take 191 (part_img contents j b (ab_pm st)))"
  obtain addr ad5 where al: "alloc 4 0 (of_nat sizeof_smd_v2) = Some addr" "addr \<noteq> 0"
    "alloc 5 0 (of_nat sizeof_smd_v2) = Some ad5"
    using assms(5) unfolding part_live_def bdev_live_def by meson
  obtain pm1 where l1: "pm_same contents (ab_pm st) pm1" "load_smd_bin_copy alloc addr 0 st =
      (if smd_sane ?s0 then ((TEGRABL_NO_ERROR, Some ?s0), st\<lparr>ab_pm := pm1, current_smd := 0\<rparr>)
       else ((AB_ERROR TEGRABL_ERR_VERIFY_FAILED 0, None), st\<lparr>ab_pm := pm1, current_smd := 2\<rparr>))"
    using load_copy_exact [OF assms(3,5) al(2)] by (auto simp: Let_def)
  let ?st1 = "st\<lparr>ab_pm := pm1, current_smd := 2\<rparr>"
  have "smd_copy 1 j b (ab_pm ?st1)" "part_live contents alloc j b (ab_pm ?st1)"
    using pm_devs_copy [OF pm_same_devs [OF l1(1)] assms(4)] pm_same_part(2) [OF l1(1) assms(6)] by simp_all
  from load_copy_exact [OF this al(2)] obtain pm2 where l2: "pm_same contents pm1 pm2"
    "load_smd_bin_copy alloc addr 1 ?st1 =
      (if smd_sane ?s1 then ((TEGRABL_NO_ERROR, Some ?s1), ?st1\<lparr>ab_pm := pm2, current_smd := 1\<rparr>)
       else ((AB_ERROR TEGRABL_ERR_VERIFY_FAILED 0, None), ?st1\<lparr>ab_pm := pm2, current_smd := 2\<rparr>))"
    by (auto simp: Let_def pm_same_part(1) [OF l1(1)])
  have same2: "pm_same contents (ab_pm st) pm2" by (rule pm_same_trans [OF l1(1) l2(1)])
  note g = tegrabl_a_b_get_smd_def [of soc alloc st, unfolded assms(2) al(1,3) option.case l1(2)]
  consider "smd_sane ?s0" | "\<not> smd_sane ?s0" "smd_sane ?s1" | "\<not> smd_sane ?s0" "\<not> smd_sane ?s1" by blast
  then show ?thesis
  proof cases
    case 1
    show ?thesis
      by (rule init_loaded [OF assms(1), of addr ?s0 "st\<lparr>ab_pm := pm1, current_smd := 0\<rparr>"])
        (use 1 g l1(1) in \<open>simp add: Let_def\<close>)
  next
    case 2
    show ?thesis
      by (rule init_loaded [OF assms(1), of addr ?s1 "?st1\<lparr>ab_pm := pm2, current_smd := 1\<rparr>"])
        (use 2 g l2(2) same2 in \<open>simp add: Let_def\<close>)
  next
    case 3
    then show ?thesis using g l2(2) same2 by (simp add: Let_def)
  qed
qed

theorem get_smd_first_sane_witness:
  "\<exists>p st'. tegrabl_a_b_get_smd pair_soc ram_alloc \<lparr>ab_pm = demo_store demo_smd_img, ab_soc = (0, 0),
       current_smd = 2, smd_loadaddress = None, smd_backup = None\<rparr> = Some ((TEGRABL_NO_ERROR, p), st') \<and>
     current_smd st' = SMD_COPY_SECONDARY"
proof -
  let ?st = "\<lparr>ab_pm = demo_store demo_smd_img, ab_soc = (0, 0), current_smd = 2, smd_loadaddress = None,
    smd_backup = None\<rparr>"
  have l: "length demo_smd_img = 512" by (simp add: demo_smd_img_def)
  have n: "smd_loadaddress ?st = None" by simp
  have p: "smd_copy 0 demo_i 7 (ab_pm ?st)" "smd_copy 1 demo_j 7 (ab_pm ?st)"
    "part_live (\<lambda>p. p) ram_alloc demo_i 7 (ab_pm ?st)" "part_live (\<lambda>p. p) ram_alloc demo_j 7 (ab_pm ?st)"
    using demo_copies demo_store_live [OF l] by simp_all
  let ?x = "take 191 (subrange 0 192 demo_smd_img)" and ?y = "take 191 (subrange 256 192 demo_smd_img)"
  have xy: "?x ! 4 = 1" "?y ! 4 = 1" "u32_at 0 ?x = 0" "u32_at 0 ?y = BOOT_CHAIN_MAGIC"
    by code_simp+
  have "length ?x = 191" "length ?y = 191" using l by simp_all
  then have s: "\<not> smd_sane (dec_smd_v2 ?x)" "smd_sane (dec_smd_v2 ?y)"
    using xy by (simp_all add: smd_sane_image word_le_nat_alt)
  from get_smd_first_sane [OF pair_soc_ok n p] s show ?thesis
    by (auto simp: Let_def demo_store_live [OF l])
qed

end
