(* ===== verification/Sparse.thy ===== *)
theory Sparse
  imports Tegrabl_Error Tegrabl_Utils "HOL-Library.Monad_Syntax"
begin

text \<open>
  Sparse images: the streaming decoder (\<open>lib/sparse/tegrabl_unsparse.c\<close>) and the encoder
  (\<open>lib/sparse/tegrabl_sparse.c\<close>), with the structs of \<open>include/lib/tegrabl_sparse.h\<close>.

  The headers are kept as the memory images of their structs, because the decoder fills them piece by
  piece with \<open>memcpy\<close>; a copy that leaves its struct is the outcome \<open>Mem_overrun\<close>. The sink the
  decoder writes to (\<open>aux_info\<close> with the writer and the seeker) is a value that the callbacks return
  updated; a writer gets the address and the bytes of its buffer. The macro
  \<open>TEGRABL_CONFIG_ENABLE_SPARSE_CRC32\<close> is the argument \<open>crc_on\<close>.

  The decoder's loop is a \<open>partial_function\<close>: its value is \<open>None\<close> when it never ends.
\<close>

abbreviation SPARSE_ERROR :: "u32 \<Rightarrow> u8 \<Rightarrow> tegrabl_error_t" where
  "SPARSE_ERROR reason aux \<equiv> tegrabl_error_value TEGRABL_ERR_SPARSE aux reason"

abbreviation SPARSE_HIGHEST :: "tegrabl_error_t \<Rightarrow> tegrabl_error_t" where
  "SPARSE_HIGHEST e \<equiv> tegrabl_err_set_highest_module e TEGRABL_ERR_SPARSE"

section \<open>Headers\<close>

abbreviation (input) TEGRABL_SPARSE_HEADER_MAGIC :: u32 where "TEGRABL_SPARSE_HEADER_MAGIC \<equiv> 0xED26FF3A"
abbreviation (input) TEGRABL_SPARSE_CHUNK_TYPE_RAW :: u16 where "TEGRABL_SPARSE_CHUNK_TYPE_RAW \<equiv> 0xCAC1"
abbreviation (input) TEGRABL_SPARSE_CHUNK_TYPE_FILL :: u16 where "TEGRABL_SPARSE_CHUNK_TYPE_FILL \<equiv> 0xCAC2"
abbreviation (input) TEGRABL_SPARSE_CHUNK_TYPE_DONT_CARE :: u16 where
  "TEGRABL_SPARSE_CHUNK_TYPE_DONT_CARE \<equiv> 0xCAC3"
abbreviation (input) TEGRABL_SPARSE_CHUNK_TYPE_CRC :: u16 where "TEGRABL_SPARSE_CHUNK_TYPE_CRC \<equiv> 0xCAC4"

text \<open>\<open>struct tegrabl_sparse_image_header\<close> (28 bytes) and \<open>struct tegrabl_sparse_chunk_header\<close>
  (12 bytes), little endian without padding.\<close>

abbreviation (input) sizeof_image_header :: nat where "sizeof_image_header \<equiv> 28"
abbreviation (input) sizeof_chunk_header :: nat where "sizeof_chunk_header \<equiv> 12"

definition ih_magic :: "bytes \<Rightarrow> u32" where "ih_magic h = u32_at 0 h"
definition ih_major_version :: "bytes \<Rightarrow> u16" where "ih_major_version h = u16_at 4 h"
definition ih_chunk_hdr_sz :: "bytes \<Rightarrow> u16" where "ih_chunk_hdr_sz h = u16_at 10 h"
definition ih_blk_sz :: "bytes \<Rightarrow> u32" where "ih_blk_sz h = u32_at 12 h"
definition ih_total_blks :: "bytes \<Rightarrow> u32" where "ih_total_blks h = u32_at 16 h"
definition ih_total_chunks :: "bytes \<Rightarrow> u32" where "ih_total_chunks h = u32_at 20 h"

definition ch_chunk_type :: "bytes \<Rightarrow> u16" where "ch_chunk_type h = u16_at 0 h"
definition ch_chunk_sz :: "bytes \<Rightarrow> u32" where "ch_chunk_sz h = u32_at 4 h"
definition ch_total_sz :: "bytes \<Rightarrow> u32" where "ch_total_sz h = u32_at 8 h"

definition tegrabl_sparse_image_check :: "bytes \<Rightarrow> bool" where
  "tegrabl_sparse_image_check buffer \<longleftrightarrow>
     4 \<le> length buffer \<and> u32_at 0 buffer = TEGRABL_SPARSE_HEADER_MAGIC"

section \<open>Decoder state\<close>

abbreviation (input) TEGRABL_UNSPARSE_PARTIAL_IMAGE_HEADER :: u32 where
  "TEGRABL_UNSPARSE_PARTIAL_IMAGE_HEADER \<equiv> 1"
abbreviation (input) TEGRABL_UNSPARSE_PARTIAL_CHUNK_HEADER :: u32 where
  "TEGRABL_UNSPARSE_PARTIAL_CHUNK_HEADER \<equiv> 2"
abbreviation (input) TEGRABL_UNSPARSE_PARTIAL_CHUNK_RAW :: u32 where
  "TEGRABL_UNSPARSE_PARTIAL_CHUNK_RAW \<equiv> 3"
abbreviation (input) TEGRABL_UNSPARSE_PARTIAL_CHUNK_FILL :: u32 where
  "TEGRABL_UNSPARSE_PARTIAL_CHUNK_FILL \<equiv> 4"
abbreviation (input) TEGRABL_UNSPARSE_PARTIAL_CHUNK_DONT_CARE :: u32 where
  "TEGRABL_UNSPARSE_PARTIAL_CHUNK_DONT_CARE \<equiv> 5"
abbreviation (input) TEGRABL_UNSPARSE_PARTIAL_CHUNK_CRC :: u32 where
  "TEGRABL_UNSPARSE_PARTIAL_CHUNK_CRC \<equiv> 6"

type_synonym 'w writer = "u64 \<Rightarrow> bytes \<Rightarrow> 'w \<Rightarrow> tegrabl_error_t \<times> 'w"
type_synonym 'w seeker = "u64 \<Rightarrow> 'w \<Rightarrow> tegrabl_error_t \<times> 'w"

record 'w unsparse_state =
  us_state :: u32
  image_header :: bytes
  chunk_header :: bytes
  us_offset :: u64
  us_remaining :: u64
  max_unsparse_size :: u64
  image_crc :: bytes
  computed_crc :: u32
  fill_value :: bytes
  chunks_processed :: u64
  us_writer :: "'w writer option"
  us_seeker :: "'w seeker option"

text \<open>A NULL state pointer is \<open>None\<close>.\<close>

definition tegrabl_sparse_init_unsparse_state ::
  "'w unsparse_state option \<Rightarrow> u64 \<Rightarrow> 'w writer option \<Rightarrow> 'w seeker option \<Rightarrow>
   tegrabl_error_t \<times> 'w unsparse_state option"
where
  "tegrabl_sparse_init_unsparse_state st max_size writer seeker =
     (if st = None \<or> writer = None \<or> seeker = None \<or> max_size = 0
      then (SPARSE_ERROR TEGRABL_ERR_BAD_PARAMETER 0, st)
      else (TEGRABL_NO_ERROR,
            Some \<lparr>us_state = TEGRABL_UNSPARSE_PARTIAL_IMAGE_HEADER,
                  image_header = replicate sizeof_image_header 0,
                  chunk_header = replicate sizeof_chunk_header 0, us_offset = 0,
                  us_remaining = of_nat sizeof_image_header, max_unsparse_size = max_size,
                  image_crc = replicate 4 0, computed_crc = 0, fill_value = replicate 4 0,
                  chunks_processed = 0, us_writer = writer, us_seeker = seeker\<rparr>))"

definition tegrabl_sparse_validate_header :: "bytes \<Rightarrow> u64 \<Rightarrow> tegrabl_error_t" where
  "tegrabl_sparse_validate_header h max_size =
     (if ih_major_version h \<noteq> 1 then SPARSE_ERROR TEGRABL_ERR_INVALID_VERSION 0
      else if max_size < ucast (ih_blk_sz h) * ucast (ih_total_blks h)
      then SPARSE_ERROR TEGRABL_ERR_OVERFLOW 0
      else TEGRABL_NO_ERROR)"

definition tegrabl_sparse_validate_chunk_header :: "bytes \<Rightarrow> bytes \<Rightarrow> tegrabl_error_t" where
  "tegrabl_sparse_validate_chunk_header ih ch =
     (if ch_chunk_type ch = TEGRABL_SPARSE_CHUNK_TYPE_RAW
      then (if ch_total_sz ch \<noteq> ucast (ih_chunk_hdr_sz ih) + ch_chunk_sz ch * ih_blk_sz ih
            then SPARSE_ERROR TEGRABL_ERR_INVALID_CONFIG 0 else TEGRABL_NO_ERROR)
      else if ch_chunk_type ch = TEGRABL_SPARSE_CHUNK_TYPE_DONT_CARE
      then (if ch_total_sz ch \<noteq> ucast (ih_chunk_hdr_sz ih)
            then SPARSE_ERROR TEGRABL_ERR_INVALID_CONFIG 1 else TEGRABL_NO_ERROR)
      else if ch_chunk_type ch = TEGRABL_SPARSE_CHUNK_TYPE_FILL
      then (if ch_total_sz ch \<noteq> ucast (ih_chunk_hdr_sz ih) + 4
            then SPARSE_ERROR TEGRABL_ERR_INVALID_CONFIG 2 else TEGRABL_NO_ERROR)
      else if ch_chunk_type ch = TEGRABL_SPARSE_CHUNK_TYPE_CRC then TEGRABL_NO_ERROR
      else SPARSE_ERROR TEGRABL_ERR_INVALID 0)"

section \<open>The decoder loop\<close>

text \<open>
  The local variables of \<open>tegrabl_sparse_unsparse\<close> next to the state struct and the sink; \<open>v_input\<close>
  is the rest of the buffer (\<open>length\<close> bytes from \<open>sparse_buffer\<close> on, which is \<open>v_addr\<close>).
\<close>

record 'w us_vars =
  v_us :: "'w unsparse_state"
  v_sink :: 'w
  v_state :: u32
  v_remaining :: u64
  v_offset :: u64
  v_chunks :: u64
  v_crc :: u32
  v_error :: tegrabl_error_t
  v_addr :: u64
  v_input :: bytes

datatype 'w us_step = Iterate "'w us_vars" | Goto_fail "'w us_vars" | Mem_overrun

definition c_memcpy :: "nat \<Rightarrow> bytes \<Rightarrow> bytes \<Rightarrow> bytes option" where
  "c_memcpy off src dst = (if off + length src \<le> length dst then Some (overwrite off src dst) else None)"

definition consume :: "nat \<Rightarrow> 'w us_vars \<Rightarrow> 'w us_vars" where
  "consume sz v = v\<lparr>v_offset := v_offset v + of_nat sz, v_addr := v_addr v + of_nat sz,
     v_input := drop sz (v_input v)\<rparr>"

definition next_header :: "u64 \<Rightarrow> 'w us_vars \<Rightarrow> 'w us_vars" where
  "next_header remaining v =
     v\<lparr>v_us := (v_us v)\<lparr>chunk_header := replicate sizeof_chunk_header 0\<rparr>,
       v_state := TEGRABL_UNSPARSE_PARTIAL_CHUNK_HEADER, v_remaining := remaining, v_offset := 0\<rparr>"

definition step_image_header :: "'w us_vars \<Rightarrow> 'w us_step" where
  "step_image_header v =
     (let sz = min (length (v_input v)) (unat (v_remaining v)) in
      case c_memcpy (unat (v_offset v)) (take sz (v_input v)) (image_header (v_us v)) of
        None \<Rightarrow> Mem_overrun
      | Some h \<Rightarrow>
          let v = consume sz (v\<lparr>v_us := (v_us v)\<lparr>image_header := h\<rparr>,
                                  v_remaining := v_remaining v - of_nat sz\<rparr>)
          in if v_remaining v \<noteq> 0 then Iterate v
             else
               let error = tegrabl_sparse_validate_header h (max_unsparse_size (v_us v));
                   v = v\<lparr>v_error := error\<rparr>
               in if error \<noteq> TEGRABL_NO_ERROR then Goto_fail v
                  else Iterate (next_header (ucast (ih_chunk_hdr_sz h)) v))"

definition step_chunk_header :: "'w us_vars \<Rightarrow> 'w us_step" where
  "step_chunk_header v =
     (let sz = min (length (v_input v)) (unat (v_remaining v)) in
      case (if v_offset v < of_nat sizeof_chunk_header
            then c_memcpy (unat (v_offset v)) (take sz (v_input v)) (chunk_header (v_us v))
            else Some (chunk_header (v_us v))) of
        None \<Rightarrow> Mem_overrun
      | Some h \<Rightarrow>
          let v = consume sz (v\<lparr>v_us := (v_us v)\<lparr>chunk_header := h\<rparr>,
                                  v_remaining := v_remaining v - of_nat sz\<rparr>)
          in if v_remaining v \<noteq> 0 then Iterate v
             else
               let ih = image_header (v_us v);
                   error = tegrabl_sparse_validate_chunk_header ih h;
                   v = v\<lparr>v_error := error\<rparr>
               in if error \<noteq> TEGRABL_NO_ERROR then Goto_fail v
                  else
                    let v = v\<lparr>v_chunks := v_chunks v + 1\<rparr>
                    in if v_chunks v > ucast (ih_total_chunks ih)
                       then Goto_fail (v\<lparr>v_error := SPARSE_ERROR TEGRABL_ERR_OUT_OF_RANGE 0\<rparr>)
                       else
                         Iterate (v\<lparr>v_state := ucast (ch_chunk_type h) - 0xCAC1 + TEGRABL_UNSPARSE_PARTIAL_CHUNK_RAW,
                                    v_offset := 0,
                                    v_remaining := ucast (ch_chunk_sz h) * ucast (ih_blk_sz ih)\<rparr>))"

definition crc_update :: "bool \<Rightarrow> u32 \<Rightarrow> bytes \<Rightarrow> u32" where
  "crc_update crc_on crc b = (if crc_on then tegrabl_utils_crc32 crc b else crc)"

definition step_raw :: "bool \<Rightarrow> 'w us_vars \<Rightarrow> 'w us_step" where
  "step_raw crc_on v =
     (let sz = min (length (v_input v)) (unat (v_remaining v)) in
      case the (us_writer (v_us v)) (v_addr v) (take sz (v_input v)) (v_sink v) of (error, w) \<Rightarrow>
        let v = v\<lparr>v_sink := w, v_error := error\<rparr>
        in if error \<noteq> TEGRABL_NO_ERROR then Goto_fail (v\<lparr>v_error := SPARSE_HIGHEST error\<rparr>)
           else
             let v = consume sz (v\<lparr>v_crc := crc_update crc_on (v_crc v) (take sz (v_input v)),
                                     v_remaining := v_remaining v - of_nat sz\<rparr>)
             in Iterate (if v_remaining v = 0 then next_header (of_nat sizeof_chunk_header) v else v))"

abbreviation (input) SPARSE_MAX_LOCAL_BUFFER :: u64 where "SPARSE_MAX_LOCAL_BUFFER \<equiv> 1024"

text \<open>The inner loop of a fill chunk: \<open>buffer\<close> is the address of the local array, \<open>pattern\<close> its
  contents.\<close>

function fill_loop ::
  "bool \<Rightarrow> 'w writer \<Rightarrow> u64 \<Rightarrow> bytes \<Rightarrow> u64 \<Rightarrow> u32 \<Rightarrow> tegrabl_error_t \<Rightarrow> 'w \<Rightarrow> tegrabl_error_t \<times> u32 \<times> 'w"
where
  "fill_loop crc_on writer buffer pattern remaining crc error w =
     (if remaining = 0 then (error, crc, w)
      else
        let sz = min remaining SPARSE_MAX_LOCAL_BUFFER;
            data = take (unat sz) pattern;
            crc = crc_update crc_on crc data
        in case writer buffer data w of (error, w) \<Rightarrow>
             if error \<noteq> TEGRABL_NO_ERROR then (SPARSE_HIGHEST error, crc, w)
             else fill_loop crc_on writer buffer pattern (remaining - sz) crc error w)"
  by pat_completeness auto
termination
proof (relation "measure (\<lambda>(_, _, _, _, r, _, _, _). unat r)")
  show "wf (measure (\<lambda>(_ :: bool, _ :: 'a writer, _ :: u64, _ :: bytes, r :: u64, _ :: u32, _ :: tegrabl_error_t, _ :: 'a). unat r))"
    by (rule wf_measure)
next
  fix remaining sz :: u64
  assume *: "remaining \<noteq> 0" "sz = min remaining SPARSE_MAX_LOCAL_BUFFER"
  have "unat (remaining - min remaining 1024) = unat remaining - unat (min remaining 1024)"
    by (rule unat_diff) simp
  moreover have "0 < unat (min remaining 1024)"
    using *(1) by (simp add: min_def word_neq_0_conv unat_gt_0)
  ultimately have "unat (remaining - sz) < unat remaining"
    using * by (simp add: unat_gt_0)
  then show "((crc_on, writer, buffer, pattern, remaining - sz, x, xa, y),
      crc_on, writer, buffer, pattern, remaining, crc, error, w) \<in> measure (\<lambda>(_, _, _, _, r, _, _, _). unat r)"
    for crc_on writer buffer pattern crc error w x xa y
    by simp
qed

declare fill_loop.simps [simp del]

definition step_fill :: "bool \<Rightarrow> u64 \<Rightarrow> 'w us_vars \<Rightarrow> 'w us_step" where
  "step_fill crc_on buffer v =
     (case (if v_offset v < 4
            then
              let sz = min (length (v_input v)) 4 in
              map_option (\<lambda>fv. consume sz (v\<lparr>v_us := (v_us v)\<lparr>fill_value := fv\<rparr>\<rparr>))
                (c_memcpy (unat (v_offset v)) (take sz (v_input v)) (fill_value (v_us v)))
            else Some v) of
        None \<Rightarrow> Mem_overrun
      | Some v \<Rightarrow>
          if v_offset v < 4 then Iterate v
          else
            (case fill_loop crc_on (the (us_writer (v_us v))) buffer
                    (concat (replicate 256 (fill_value (v_us v)))) (v_remaining v) (v_crc v) (v_error v) (v_sink v) of
               (error, crc, w) \<Rightarrow>
                 let v = v\<lparr>v_sink := w, v_crc := crc, v_error := error\<rparr>
                 in if error \<noteq> TEGRABL_NO_ERROR then Goto_fail v
                    else Iterate (next_header (of_nat sizeof_chunk_header) v)))"

definition step_dont_care :: "'w us_vars \<Rightarrow> 'w us_step" where
  "step_dont_care v =
     (case the (us_seeker (v_us v)) (v_remaining v) (v_sink v) of (error, w) \<Rightarrow>
        let v = v\<lparr>v_sink := w, v_error := error\<rparr>
        in if error \<noteq> TEGRABL_NO_ERROR then Goto_fail (v\<lparr>v_error := SPARSE_HIGHEST error\<rparr>)
           else Iterate (next_header (of_nat sizeof_chunk_header) v))"

text \<open>Without CRC support the case only prints a message: the iteration changes nothing.\<close>

definition step_crc :: "bool \<Rightarrow> 'w us_vars \<Rightarrow> 'w us_step" where
  "step_crc crc_on v =
     (if \<not> crc_on then Iterate v
      else if v_offset v < 4
      then
        let sz = min (length (v_input v)) 4 in
        (case c_memcpy (unat (v_offset v)) (take sz (v_input v)) (image_crc (v_us v)) of
           None \<Rightarrow> Mem_overrun
         | Some c \<Rightarrow> Iterate (consume sz (v\<lparr>v_us := (v_us v)\<lparr>image_crc := c\<rparr>\<rparr>)))
      else
        let v = (if u32_at 0 (image_crc (v_us v)) \<noteq> v_crc v
                 then v\<lparr>v_error := SPARSE_ERROR TEGRABL_ERR_VERIFY_FAILED 0\<rparr> else v)
        in Iterate (next_header (of_nat sizeof_chunk_header) v))"

definition unsparse_step :: "bool \<Rightarrow> u64 \<Rightarrow> 'w us_vars \<Rightarrow> 'w us_step" where
  "unsparse_step crc_on buffer v =
     (if v_state v = TEGRABL_UNSPARSE_PARTIAL_IMAGE_HEADER then step_image_header v
      else if v_state v = TEGRABL_UNSPARSE_PARTIAL_CHUNK_HEADER then step_chunk_header v
      else if v_state v = TEGRABL_UNSPARSE_PARTIAL_CHUNK_RAW then step_raw crc_on v
      else if v_state v = TEGRABL_UNSPARSE_PARTIAL_CHUNK_FILL then step_fill crc_on buffer v
      else if v_state v = TEGRABL_UNSPARSE_PARTIAL_CHUNK_DONT_CARE then step_dont_care v
      else if v_state v = TEGRABL_UNSPARSE_PARTIAL_CHUNK_CRC then step_crc crc_on v
      else Goto_fail (v\<lparr>v_error := SPARSE_ERROR TEGRABL_ERR_INVALID_STATE 0\<rparr>))"

text \<open>\<open>Iterate\<close> as the final value means that the loop condition failed.\<close>

partial_function (option) unsparse_loop :: "bool \<Rightarrow> u64 \<Rightarrow> 'w us_vars \<Rightarrow> 'w us_step option" where
  "unsparse_loop crc_on buffer v =
     (if v_input v = [] \<and> v_state v \<noteq> TEGRABL_UNSPARSE_PARTIAL_CHUNK_DONT_CARE then Some (Iterate v)
      else
        (case unsparse_step crc_on buffer v of
           Iterate v \<Rightarrow> unsparse_loop crc_on buffer v
         | Goto_fail v \<Rightarrow> Some (Goto_fail v)
         | Mem_overrun \<Rightarrow> Some Mem_overrun))"

declare unsparse_loop.simps [code]

datatype 'w us_result = Returned tegrabl_error_t "'w unsparse_state option" 'w | Overrun

definition unsparse_vars :: "'w unsparse_state \<Rightarrow> u64 \<Rightarrow> bytes \<Rightarrow> 'w \<Rightarrow> 'w us_vars" where
  "unsparse_vars us addr data w =
     \<lparr>v_us = us, v_sink = w, v_state = us_state us, v_remaining = us_remaining us, v_offset = us_offset us,
      v_chunks = chunks_processed us, v_crc = computed_crc us, v_error = TEGRABL_NO_ERROR,
      v_addr = addr, v_input = data\<rparr>"

text \<open>\<open>data\<close> is the buffer at \<open>buff\<close>, \<open>local\<close> the address of the local array.\<close>

definition tegrabl_sparse_unsparse ::
  "bool \<Rightarrow> u64 \<Rightarrow> 'w unsparse_state option \<Rightarrow> u64 \<Rightarrow> bytes \<Rightarrow> 'w \<Rightarrow> 'w us_result option"
where
  "tegrabl_sparse_unsparse crc_on local st buff data w =
     (case st of
        None \<Rightarrow> Some (Returned (SPARSE_ERROR TEGRABL_ERR_BAD_PARAMETER 1) st w)
      | Some us \<Rightarrow>
          if buff = 0 \<or> data = [] then Some (Returned (SPARSE_ERROR TEGRABL_ERR_BAD_PARAMETER 1) st w)
          else if us_writer us = None \<or> us_seeker us = None
          then Some (Returned (SPARSE_ERROR TEGRABL_ERR_NOT_INITIALIZED 0) st w)
          else
            do {
              r \<leftarrow> unsparse_loop crc_on local (unsparse_vars us buff data w);
              Some (case r of
                  Iterate v \<Rightarrow>
                    Returned (v_error v)
                      (Some ((v_us v)\<lparr>us_remaining := v_remaining v, us_offset := v_offset v,
                        us_state := v_state v, chunks_processed := v_chunks v,
                        computed_crc := (if crc_on then v_crc v else computed_crc (v_us v))\<rparr>))
                      (v_sink v)
                | Goto_fail v \<Rightarrow> Returned (v_error v) (Some (v_us v)) (v_sink v)
                | Mem_overrun \<Rightarrow> Overrun)
            })"

section \<open>The encoder\<close>

record sparse_state =
  ss_buffer :: "bytes option"
  ss_buffer_size :: u64
  ss_image_size :: u64

text \<open>\<open>malloc_ok\<close> and \<open>realloc_ok\<close> say whether the allocation at that point succeeds.\<close>

definition tegrabl_sparse_init ::
  "bool \<Rightarrow> sparse_state option \<Rightarrow> u32 \<Rightarrow> tegrabl_error_t \<times> sparse_state option"
where
  "tegrabl_sparse_init malloc_ok st block_size =
     (if st = None \<or> block_size mod 4096 \<noteq> 0 then (SPARSE_ERROR TEGRABL_ERR_INVALID 0, st)
      else if \<not> malloc_ok
      then (SPARSE_ERROR TEGRABL_ERR_NO_MEMORY 0,
            Some \<lparr>ss_buffer = None, ss_buffer_size = 0, ss_image_size = 0\<rparr>)
      else (TEGRABL_NO_ERROR,
            Some \<lparr>ss_buffer = Some (le_bytes 4 TEGRABL_SPARSE_HEADER_MAGIC @ le_bytes 2 (1 :: u16) @
                     le_bytes 2 (0 :: u16) @ le_bytes 2 (of_nat sizeof_image_header :: u16) @
                     le_bytes 2 (of_nat sizeof_chunk_header :: u16) @ le_bytes 4 block_size @ replicate 12 0),
                  ss_buffer_size = of_nat sizeof_image_header, ss_image_size = 0\<rparr>))"

definition DIV_CEIL :: "u32 \<Rightarrow> u32 \<Rightarrow> u32" where
  "DIV_CEIL n d = (n + d - 1) div d"

definition ROUND_UP :: "u32 \<Rightarrow> u32 \<Rightarrow> u32" where
  "ROUND_UP n w = DIV_CEIL n w * w"

text \<open>The size of a chunk in the image for each type, or the error of its data size.\<close>

definition chunk_buffer_size :: "bytes \<Rightarrow> u32 \<Rightarrow> u32 \<Rightarrow> u32 \<Rightarrow> u32 option" where
  "chunk_buffer_size h type data_size write_size =
     (let hdr = ucast (ih_chunk_hdr_sz h) in
      if type = ucast TEGRABL_SPARSE_CHUNK_TYPE_RAW
      then (if data_size \<noteq> write_size then None else Some (hdr + ROUND_UP write_size (ih_blk_sz h)))
      else if type = ucast TEGRABL_SPARSE_CHUNK_TYPE_FILL \<or> type = ucast TEGRABL_SPARSE_CHUNK_TYPE_CRC
      then (if data_size \<noteq> 4 then None else Some (hdr + 4))
      else if type = ucast TEGRABL_SPARSE_CHUNK_TYPE_DONT_CARE
      then (if data_size \<noteq> 0 then None else Some hdr)
      else None)"

text \<open>The result is \<open>None\<close> for a division by a zero block size or a copy past the reallocated buffer;
  the first can only happen in a state made with block size 0. \<open>data\<close> holds at least \<open>data_size\<close>
  bytes.\<close>

definition tegrabl_sparse_add_chunk ::
  "bool \<Rightarrow> sparse_state option \<Rightarrow> u32 \<Rightarrow> bytes \<Rightarrow> u32 \<Rightarrow> u32 \<Rightarrow>
   (tegrabl_error_t \<times> sparse_state option) option"
where
  "tegrabl_sparse_add_chunk realloc_ok st type data data_size write_size =
     (case st of
        None \<Rightarrow> Some (SPARSE_ERROR TEGRABL_ERR_INVALID 0, st)
      | Some s \<Rightarrow>
          (case ss_buffer s of
             None \<Rightarrow> Some (SPARSE_ERROR TEGRABL_ERR_INVALID 0, st)
           | Some b \<Rightarrow>
               if write_size = 0 \<or> ss_buffer_size s = 0 then Some (SPARSE_ERROR TEGRABL_ERR_INVALID 0, st)
               else if type = ucast TEGRABL_SPARSE_CHUNK_TYPE_RAW \<and> ih_blk_sz b = 0 then None
               else
                 (case chunk_buffer_size b type data_size write_size of
                    None \<Rightarrow> Some (SPARSE_ERROR TEGRABL_ERR_INVALID 0, st)
                  | Some buffer_size \<Rightarrow>
                      if \<not> realloc_ok then Some (SPARSE_ERROR TEGRABL_ERR_NO_MEMORY 0, st)
                      else if ih_blk_sz b = 0 then None
                      else do {
                        let old = unat (ss_buffer_size s);
                        let chunk_sz = DIV_CEIL write_size (ih_blk_sz b);
                        let b1 = take old b @ replicate (unat buffer_size) 0;
                        b2 \<leftarrow> c_memcpy old (le_bytes 2 (ucast type :: u16) @ le_bytes 2 (0 :: u16) @
                                 le_bytes 4 chunk_sz @ le_bytes 4 buffer_size) b1;
                        let b3 = overwrite 16 (le_bytes 4 (ih_total_blks b + chunk_sz)) b2;
                        let b4 = overwrite 20 (le_bytes 4 (ih_total_chunks b + 1)) b3;
                        b5 \<leftarrow> c_memcpy (old + unat (ih_chunk_hdr_sz b)) (take (unat data_size) data) b4;
                        Some (TEGRABL_NO_ERROR,
                              Some \<lparr>ss_buffer = Some b5, ss_buffer_size = ss_buffer_size s + ucast buffer_size,
                                    ss_image_size = ss_image_size s + ucast (ROUND_UP write_size (ih_blk_sz b))\<rparr>)
                      })))"

definition tegrabl_sparse_get_buffer ::
  "sparse_state option \<Rightarrow> tegrabl_error_t \<times> (bytes \<times> u64) option"
where
  "tegrabl_sparse_get_buffer st =
     (case st of
        None \<Rightarrow> (SPARSE_ERROR TEGRABL_ERR_INVALID 0, None)
      | Some s \<Rightarrow>
          (case ss_buffer s of
             None \<Rightarrow> (SPARSE_ERROR TEGRABL_ERR_INVALID 0, None)
           | Some b \<Rightarrow>
               if ss_buffer_size s = 0 then (SPARSE_ERROR TEGRABL_ERR_INVALID 0, None)
               else (TEGRABL_NO_ERROR, Some (b, ss_buffer_size s))))"

end
