(* ===== verification/Fastboot_Partinfo.thy ===== *)
theory Fastboot_Partinfo
  imports Partition_Manager Sparse
begin

text \<open>
  The partition names of the fastboot protocol (\<open>lib/fastboot/tegrabl_fastboot_partinfo.c\<close>): the
  table that maps fastboot names to partitions, the list of partitions that are not exposed, and the
  writer and seeker that the sparse decoder gets.

  Strings are the characters before their NUL. The static result struct of
  \<open>tegrabl_fastboot_get_partinfo\<close> is returned by value.
\<close>

record tegrabl_fastboot_partition_info =
  fastboot_part_name :: bytes
  tegra_part_name :: bytes
  tegra_part_name_b :: "bytes option"
  fastboot_part_type :: bytes

definition map_entry :: "string \<Rightarrow> string \<Rightarrow> string option \<Rightarrow> string \<Rightarrow> tegrabl_fastboot_partition_info" where
  "map_entry n a b t =
     \<lparr>fastboot_part_name = c_lit n, tegra_part_name = c_lit a, tegra_part_name_b = map_option c_lit b,
      fastboot_part_type = c_lit t\<rparr>"

definition fastboot_partition_map_table :: "tegrabl_fastboot_partition_info list" where
  "fastboot_partition_map_table =
     [map_entry ''recovery'' ''recovery_a'' (Some ''recovery_b'') ''basic'',
      map_entry ''boot'' ''boot_a'' (Some ''boot_b'') ''basic'',
      map_entry ''dtb'' ''kernel-dtb_a'' (Some ''kernel-dtb_b'') ''basic'',
      map_entry ''dtbo'' ''kernel-dtbo_a'' (Some ''kernel-dtbo_b'') ''basic'',
      map_entry ''system'' ''system_a'' (Some ''system_b'') ''ext4'',
      map_entry ''userdata'' ''userdata'' None ''ext4'',
      map_entry ''vendor'' ''vendor_a'' (Some ''vendor_b'') ''ext4'',
      map_entry ''bootlogo'' ''bootlogo'' (Some ''bootlogo_b'') ''basic'',
      map_entry ''rpb'' ''RPB'' None ''basic'',
      map_entry ''odm'' ''odm_a'' (Some ''odm_b'') ''ext4'',
      map_entry ''avb_custom_key'' ''avb_custom_key'' None ''basic'',
      map_entry ''super'' ''super'' None ''basic'']"

definition tegrabl_nv_private_partition_list :: "bytes list" where
  "tegrabl_nv_private_partition_list =
     map c_lit [''BCT'', ''MB1_BCT'', ''mb1'', ''mts-preboot'', ''mts-bootpack'', ''sce-fw'', ''eks'',
       ''sc7'', ''bpmp-fw'', ''NCT'', ''primary_gpt'', ''secondary_gpt'']"

definition tegrabl_fastboot_get_tegra_part_name ::
  "bytes \<Rightarrow> tegrabl_fastboot_partition_info option \<Rightarrow> bytes option"
where
  "tegrabl_fastboot_get_tegra_part_name suf part_info =
     (case part_info of
        None \<Rightarrow> None
      | Some i \<Rightarrow> if suf = c_lit ''_b'' then tegra_part_name_b i else Some (tegra_part_name i))"

fun find_entry ::
  "bytes \<Rightarrow> tegrabl_fastboot_partition_info list \<Rightarrow> tegrabl_fastboot_partition_info option"
where
  "find_entry name [] = None"
| "find_entry name (i # is) =
     (if tegrabl_a_b_match_part_name_with_suffix (fastboot_part_name i) name then Some i else find_entry name is)"

definition tegrabl_fastboot_get_partinfo :: "bytes \<Rightarrow> tegrabl_fastboot_partition_info option" where
  "tegrabl_fastboot_get_partinfo name =
     (case find_entry name fastboot_partition_map_table of
        Some i \<Rightarrow> Some i
      | None \<Rightarrow>
          if list_ex (\<lambda>p. tegrabl_a_b_match_part_name_with_suffix p name) tegrabl_nv_private_partition_list
          then None
          else Some \<lparr>fastboot_part_name = name, tegra_part_name = name, tegra_part_name_b = Some name,
                     fastboot_part_type = c_lit ''basic''\<rparr>)"

text \<open>\<open>aux_info\<close> points at the handle of the partition; the partition manager's state is global.\<close>

type_synonym 'd part_sink = "tegrabl_partition \<times> 'd pm_state"

definition tegrabl_fastboot_partition_write :: "alloc_env \<Rightarrow> 'd part_sink writer" where
  "tegrabl_fastboot_partition_write alloc buffer data w =
     (case w of (p, pm) \<Rightarrow>
        (case tegrabl_partition_write alloc p buffer data (of_nat (length data)) pm of
           ((error, p), pm) \<Rightarrow> (error, (p, pm))))"

definition tegrabl_fastboot_partition_seek :: "'d part_sink seeker" where
  "tegrabl_fastboot_partition_seek n w =
     (case w of (p, pm) \<Rightarrow>
        (case tegrabl_partition_seek (Some p) n TEGRABL_PARTITION_SEEK_CUR of
           (error, q) \<Rightarrow> (error, (case q of Some p \<Rightarrow> p | None \<Rightarrow> p, pm))))"

end
