(* ===== verification/Fastboot.thy ===== *)
theory Fastboot
  imports Fastboot_Partinfo
begin

text \<open>
  The fastboot command protocol (\<open>lib/fastboot/tegrabl_fastboot_protocol.c\<close>, with the dispatch of
  \<open>tegrabl_fastboot_oem.c\<close> and \<open>tegrabl_fastboot_a_b.c\<close>).

  What the platform provides is the parameter \<open>fb_ops\<close> over a platform state: the function pointers of
  the OEM and A/B operation tables (\<open>None\<close> when not set), the USB transport, and the services of other
  parts (serial number, file name of the device tree, loading a kernel, bootloader update). Commands
  and strings are the characters before their NUL: the prefixes that \<open>memcmp\<close> compares hold no NUL, so
  a comparison never matches past the end of the command. The menu lock around a handler is left out.

  A handler can leave the normal flow: reset the device or start a kernel (\<open>Fb_gone\<close>), never end
  (\<open>Fb_stuck\<close>), or write outside a buffer (\<open>Fb_corrupt\<close>).
\<close>

abbreviation FB_ERROR :: "u32 \<Rightarrow> u8 \<Rightarrow> tegrabl_error_t" where
  "FB_ERROR reason aux \<equiv> tegrabl_error_value TEGRABL_ERR_FASTBOOT aux reason"

abbreviation (input) MAX_DOWNLOAD_SIZE :: u32 where "MAX_DOWNLOAD_SIZE \<equiv> 0x2000000"
abbreviation (input) MAX_RESPONSE_SIZE :: nat where "MAX_RESPONSE_SIZE \<equiv> 64"
abbreviation (input) STATE_OFFLINE :: u32 where "STATE_OFFLINE \<equiv> 0"
abbreviation (input) STATE_COMMAND :: u32 where "STATE_COMMAND \<equiv> 1"
abbreviation (input) STATE_COMPLETE :: u32 where "STATE_COMPLETE \<equiv> 2"
abbreviation (input) STATE_ERROR :: u32 where "STATE_ERROR \<equiv> 3"
abbreviation (input) FASTBOOT_LOCK :: u32 where "FASTBOOT_LOCK \<equiv> 0"
abbreviation (input) FASTBOOT_UNLOCK :: u32 where "FASTBOOT_UNLOCK \<equiv> 1"

record ('d, 'p) fb_ops =
  op_is_device_unlocked :: "('p \<Rightarrow> bool) option"
  op_change_device_state :: "(u32 \<Rightarrow> 'p \<Rightarrow> tegrabl_error_t \<times> 'p) option"
  op_get_fuse_ecid :: "('p \<Rightarrow> tegrabl_error_t \<times> bytes) option"
  op_get_current_slot :: "('p \<Rightarrow> tegrabl_error_t \<times> bytes) option"
  op_get_slot_num :: "('p \<Rightarrow> tegrabl_error_t \<times> u8) option"
  op_get_slot_suffix :: "(u8 \<Rightarrow> 'p \<Rightarrow> tegrabl_error_t \<times> bytes) option"
  op_is_slot_successful :: "(bytes \<Rightarrow> 'p \<Rightarrow> tegrabl_error_t \<times> bool) option"
  op_is_slot_unbootable :: "(bytes \<Rightarrow> 'p \<Rightarrow> tegrabl_error_t \<times> bool) option"
  op_get_slot_retry_count :: "(bytes \<Rightarrow> 'p \<Rightarrow> tegrabl_error_t \<times> u8) option"
  op_slot_set_active :: "(bytes \<Rightarrow> 'p \<Rightarrow> tegrabl_error_t \<times> 'p) option"
  op_usbf_send :: "bytes \<Rightarrow> 'p \<Rightarrow> tegrabl_error_t \<times> 'p"
  op_usbf_receive :: "u32 \<Rightarrow> 'p \<Rightarrow> (tegrabl_error_t \<times> bytes) \<times> 'p"
  op_get_serial_no :: "'p \<Rightarrow> tegrabl_error_t \<times> bytes"
  op_dts_filename :: "'p \<Rightarrow> tegrabl_error_t \<times> bytes"
  op_product :: bytes
  op_load_kernel :: "(u64 \<times> bytes) option \<Rightarrow> u32 \<Rightarrow> 'p \<Rightarrow> tegrabl_error_t \<times> 'p"
  op_bl_update :: "bytes \<Rightarrow> bytes \<Rightarrow> 'd pm_state \<Rightarrow> 'p \<Rightarrow> tegrabl_error_t \<times> 'd pm_state \<times> 'p"

text \<open>The configuration of the parts below: allocator, CRC support of the sparse decoder, address of
  its local array.\<close>

record fb_config =
  cfg_alloc :: alloc_env
  cfg_crc :: bool
  cfg_local :: u64

datatype fb_cmd = Reboot | Reboot_bootloader | Reboot_fastboot | Reboot_recovery | Getvar | Erase
  | Download | Flash | Boot | Continue | Oem | Flashing | Set_active

text \<open>The static variables of the file, the partition manager's state and the platform's. The download
  buffer has an address, the size it was allocated with and its contents.\<close>

record ('d, 'p) fb_state =
  fastboot_state :: u32
  cmdlist :: "fb_cmd list"
  download_base :: "(u64 \<times> nat \<times> bytes) option"
  download_size :: u32
  is_allocated :: bool
  fb_pm :: "'d pm_state"
  platform :: 'p

datatype ('d, 'p) fb_result = Fb_done "('d, 'p) fb_state" | Fb_gone "('d, 'p) fb_state" | Fb_stuck | Fb_corrupt

section \<open>Responses\<close>

definition fastboot_ack ::
  "('d, 'p) fb_ops \<Rightarrow> bytes \<Rightarrow> bytes \<Rightarrow> ('d, 'p) fb_state \<Rightarrow> ('d, 'p) fb_state"
where
  "fastboot_ack fo code reason s =
     (if fastboot_state s \<noteq> STATE_COMMAND then s
      else
        let response = take (MAX_RESPONSE_SIZE - 1) (code @ reason);
            s = (if code \<noteq> c_lit ''INFO'' then s\<lparr>fastboot_state := STATE_COMPLETE\<rparr> else s)
        in s\<lparr>platform := snd (op_usbf_send fo response (platform s))\<rparr>)"

definition fastboot_fail :: "('d, 'p) fb_ops \<Rightarrow> string \<Rightarrow> ('d, 'p) fb_state \<Rightarrow> ('d, 'p) fb_state" where
  "fastboot_fail fo reason s = fastboot_ack fo (c_lit ''FAIL'') (c_lit reason) s"

definition fastboot_okay :: "('d, 'p) fb_ops \<Rightarrow> bytes \<Rightarrow> ('d, 'p) fb_state \<Rightarrow> ('d, 'p) fb_state" where
  "fastboot_okay fo info s = fastboot_ack fo (c_lit ''OKAY'') info s"

text \<open>\<open>IS_VAR_TYPE\<close>, \<open>COPY_RESPONSE\<close> on a zeroed response buffer, and \<open>sprintf\<close> behind the
  response; \<open>None\<close> is a write past the buffer.\<close>

definition IS_VAR_TYPE :: "bytes \<Rightarrow> string \<Rightarrow> bool" where
  "IS_VAR_TYPE arg var \<longleftrightarrow> take (length var) arg = c_lit var"

definition COPY_RESPONSE :: "bytes \<Rightarrow> bytes \<Rightarrow> bytes" where
  "COPY_RESPONSE msg response = response @ take (MAX_RESPONSE_SIZE - length response - 1) msg"

definition sprintf_response :: "bytes \<Rightarrow> bytes \<Rightarrow> bytes option" where
  "sprintf_response msg response =
     (if length response + length msg < MAX_RESPONSE_SIZE then Some (response @ msg) else None)"

fun print_digits :: "nat \<Rightarrow> nat \<Rightarrow> nat \<Rightarrow> bytes" where
  "print_digits base 0 n = []"
| "print_digits base (Suc k) n =
     (if n < base then [hex_digit (of_nat n)]
      else print_digits base k (n div base) @ [hex_digit (of_nat (n mod base))])"

section \<open>OEM and A/B operations\<close>

definition tegrabl_change_device_state ::
  "('d, 'p) fb_ops \<Rightarrow> u32 \<Rightarrow> ('d, 'p) fb_state \<Rightarrow> tegrabl_error_t \<times> ('d, 'p) fb_state"
where
  "tegrabl_change_device_state fo cmd s =
     (case op_change_device_state fo of
        None \<Rightarrow> (FB_ERROR TEGRABL_ERR_NOT_SUPPORTED 0, s)
      | Some f \<Rightarrow> (case f cmd (platform s) of (e, p) \<Rightarrow> (e, s\<lparr>platform := p\<rparr>)))"

definition tegrabl_is_device_unlocked ::
  "('d, 'p) fb_ops \<Rightarrow> ('d, 'p) fb_state \<Rightarrow> tegrabl_error_t \<times> bool"
where
  "tegrabl_is_device_unlocked fo s =
     (case op_is_device_unlocked fo of
        None \<Rightarrow> (FB_ERROR TEGRABL_ERR_NOT_SUPPORTED 0, False)
      | Some f \<Rightarrow> (TEGRABL_NO_ERROR, f (platform s)))"

definition tegrabl_set_active_slot ::
  "('d, 'p) fb_ops \<Rightarrow> bytes \<Rightarrow> ('d, 'p) fb_state \<Rightarrow> tegrabl_error_t \<times> ('d, 'p) fb_state"
where
  "tegrabl_set_active_slot fo slot s =
     (case op_slot_set_active fo of
        None \<Rightarrow> (FB_ERROR TEGRABL_ERR_NOT_SUPPORTED 0, s)
      | Some f \<Rightarrow> (case f slot (platform s) of (e, p) \<Rightarrow> (e, s\<lparr>platform := p\<rparr>)))"

text \<open>A query of an operation table.\<close>

definition query :: "('p \<Rightarrow> tegrabl_error_t \<times> 'a) option \<Rightarrow> 'p \<Rightarrow> tegrabl_error_t \<times> 'a option" where
  "query op p =
     (case op of
        None \<Rightarrow> (FB_ERROR TEGRABL_ERR_NOT_SUPPORTED 0, None)
      | Some f \<Rightarrow> (fst (f p), if fst (f p) = TEGRABL_NO_ERROR then Some (snd (f p)) else None))"

definition tegrabl_get_slot_num :: "('d, 'p) fb_ops \<Rightarrow> 'p \<Rightarrow> tegrabl_error_t \<times> u8 option" where
  "tegrabl_get_slot_num fo p = query (op_get_slot_num fo) p"

definition tegrabl_get_current_slot :: "('d, 'p) fb_ops \<Rightarrow> 'p \<Rightarrow> tegrabl_error_t \<times> bytes option" where
  "tegrabl_get_current_slot fo p = query (op_get_current_slot fo) p"

definition tegrabl_get_slot_suffix :: "('d, 'p) fb_ops \<Rightarrow> u8 \<Rightarrow> 'p \<Rightarrow> tegrabl_error_t \<times> bytes option" where
  "tegrabl_get_slot_suffix fo i p = query (map_option (\<lambda>f. f i) (op_get_slot_suffix fo)) p"

definition tegrabl_is_slot_successful :: "('d, 'p) fb_ops \<Rightarrow> bytes \<Rightarrow> 'p \<Rightarrow> tegrabl_error_t \<times> bool option" where
  "tegrabl_is_slot_successful fo slot p = query (map_option (\<lambda>f. f slot) (op_is_slot_successful fo)) p"

definition tegrabl_is_slot_unbootable :: "('d, 'p) fb_ops \<Rightarrow> bytes \<Rightarrow> 'p \<Rightarrow> tegrabl_error_t \<times> bool option" where
  "tegrabl_is_slot_unbootable fo slot p = query (map_option (\<lambda>f. f slot) (op_is_slot_unbootable fo)) p"

definition tegrabl_get_slot_retry_count :: "('d, 'p) fb_ops \<Rightarrow> bytes \<Rightarrow> 'p \<Rightarrow> tegrabl_error_t \<times> u8 option" where
  "tegrabl_get_slot_retry_count fo slot p = query (map_option (\<lambda>f. f slot) (op_get_slot_retry_count fo)) p"

text \<open>The suffixes, separated by commas, in a buffer of 16 characters; \<open>None\<close> when they do not fit.\<close>

fun suffix_loop ::
  "('d, 'p) fb_ops \<Rightarrow> 'p \<Rightarrow> u8 \<Rightarrow> nat \<Rightarrow> bytes \<Rightarrow> (tegrabl_error_t \<times> bytes) option"
where
  "suffix_loop fo p num_slots 0 slot = Some (TEGRABL_NO_ERROR, slot)"
| "suffix_loop fo p num_slots (Suc k) slot =
     (let i = unat num_slots - Suc k in
      case tegrabl_get_slot_suffix fo (of_nat i) p of
        (e, Some suf) \<Rightarrow>
          let slot = slot @ suf @ (if i + 1 < unat num_slots then c_lit '','' else [])
          in if length slot < 16 then suffix_loop fo p num_slots k slot else None
      | (e, None) \<Rightarrow> Some (e, slot))"

definition tegrabl_get_slot_suffixes :: "('d, 'p) fb_ops \<Rightarrow> 'p \<Rightarrow> (tegrabl_error_t \<times> bytes) option" where
  "tegrabl_get_slot_suffixes fo p =
     (if op_get_slot_suffix fo = None then Some (FB_ERROR TEGRABL_ERR_NOT_SUPPORTED 0, [])
      else
        (case tegrabl_get_slot_num fo p of
           (e, None) \<Rightarrow> Some (e, [])
         | (e, Some n) \<Rightarrow> suffix_loop fo p n (unat n) []))"

section \<open>Variables\<close>

text \<open>Opening a partition into a local handle.\<close>

definition opens :: "bytes option \<Rightarrow> 'd pm_state \<Rightarrow> tegrabl_error_t" where
  "opens name pm = fst (tegrabl_partition_open name (Some null_partition) pm)"

definition partition_has_slot :: "bytes \<Rightarrow> 'd pm_state \<Rightarrow> bytes \<Rightarrow> tegrabl_error_t \<times> bool \<times> bytes" where
  "partition_has_slot name pm response =
     (let name = (if name = c_lit ''bootloader'' then c_lit ''cpu-bootloader'' else name) in
      case tegrabl_fastboot_get_partinfo name of
        None \<Rightarrow> (TEGRABL_NO_ERROR, False, COPY_RESPONSE (c_lit ''No partition present with this name.'') response)
      | Some i \<Rightarrow>
          let error = opens (Some (tegra_part_name i)) pm in
          if error \<noteq> TEGRABL_NO_ERROR
          then (error, False, COPY_RESPONSE (c_lit ''No partition present with this name.'') response)
          else (TEGRABL_NO_ERROR, opens (tegra_part_name_b i) pm = TEGRABL_NO_ERROR, response))"

definition partition_is_logical :: "bytes \<Rightarrow> 'd pm_state \<Rightarrow> bytes \<Rightarrow> tegrabl_error_t \<times> bool \<times> bytes" where
  "partition_is_logical name pm response =
     (case tegrabl_fastboot_get_partinfo name of
        None \<Rightarrow> (TEGRABL_NO_ERROR, False, COPY_RESPONSE (c_lit ''No partition present with this name.'') response)
      | Some i \<Rightarrow>
          let error = opens (Some (tegra_part_name i)) pm in
          if error \<noteq> TEGRABL_NO_ERROR
          then (error, False, COPY_RESPONSE (c_lit ''No partition present with this name.'') response)
          else (TEGRABL_NO_ERROR, False, response))"

definition yes_no :: "bool \<Rightarrow> bytes" where
  "yes_no b = (if b then c_lit ''yes'' else c_lit ''no'')"

definition is_a_b_var_type :: "bytes \<Rightarrow> bool" where
  "is_a_b_var_type arg \<longleftrightarrow>
     list_ex (IS_VAR_TYPE arg) [''slot-successful:'', ''slot-unbootable:'', ''slot-retry-count:'',
       ''current-slot'', ''slot-suffixes'', ''has-slot'', ''slot-count'', ''is-logical'']"

text \<open>The response of a per-slot query: the answer, or a message when the slot is unknown.\<close>

definition slot_answer :: "tegrabl_error_t \<times> 'a option \<Rightarrow> ('a \<Rightarrow> bytes \<Rightarrow> bytes option) \<Rightarrow> bytes \<Rightarrow> bytes option" where
  "slot_answer r f response =
     (case r of
        (_, Some x) \<Rightarrow> f x response
      | (_, None) \<Rightarrow> Some (COPY_RESPONSE (c_lit ''No slot present with this suffix.'') response))"

definition tegrabl_fastboot_a_b_var_handler ::
  "('d, 'p) fb_ops \<Rightarrow> ('d, 'p) fb_state \<Rightarrow> bytes \<Rightarrow> bytes \<Rightarrow> bytes option"
where
  "tegrabl_fastboot_a_b_var_handler fo s arg response =
     (let p = platform s in
      if IS_VAR_TYPE arg ''has-slot:''
      then (case partition_has_slot (drop 9 arg) (fb_pm s) response of (error, has_slot, response) \<Rightarrow>
              Some (if error \<noteq> TEGRABL_NO_ERROR then response else COPY_RESPONSE (yes_no has_slot) response))
      else if IS_VAR_TYPE arg ''current-slot''
      then (case tegrabl_get_current_slot fo p of
              (_, Some slot) \<Rightarrow> Some (COPY_RESPONSE slot response)
            | (_, None) \<Rightarrow> Some response)
      else if IS_VAR_TYPE arg ''slot-suffixes''
      then (case tegrabl_get_slot_suffixes fo p of
              None \<Rightarrow> None
            | Some (error, slots) \<Rightarrow>
                Some (if error \<noteq> TEGRABL_NO_ERROR then response else COPY_RESPONSE slots response))
      else if IS_VAR_TYPE arg ''slot-count''
      then (case tegrabl_get_slot_num fo p of
              (_, Some n) \<Rightarrow> sprintf_response (print_digits 10 20 (unat n)) response
            | (_, None) \<Rightarrow> Some response)
      else if IS_VAR_TYPE arg ''slot-successful:''
      then slot_answer (tegrabl_is_slot_successful fo (drop 16 arg) p) (\<lambda>b r. Some (COPY_RESPONSE (yes_no b) r)) response
      else if IS_VAR_TYPE arg ''slot-unbootable:''
      then slot_answer (tegrabl_is_slot_unbootable fo (drop 16 arg) p) (\<lambda>b r. Some (COPY_RESPONSE (yes_no b) r)) response
      else if IS_VAR_TYPE arg ''slot-retry-count:''
      then slot_answer (tegrabl_get_slot_retry_count fo (drop 17 arg) p)
             (\<lambda>n r. sprintf_response (print_digits 10 20 (unat n)) r) response
      else if IS_VAR_TYPE arg ''is-logical:''
      then (case partition_is_logical (drop 11 arg) (fb_pm s) response of (error, is_logical, response) \<Rightarrow>
              Some (if error \<noteq> TEGRABL_NO_ERROR then response else COPY_RESPONSE (yes_no is_logical) response))
      else Some response)"

definition fastboot_getvar ::
  "('d, 'p) fb_ops \<Rightarrow> ('d, 'p) fb_state \<Rightarrow> bytes \<Rightarrow> bytes \<Rightarrow> bytes option"
where
  "fastboot_getvar fo s arg response =
     (if IS_VAR_TYPE arg ''version-bootloader'' then Some (COPY_RESPONSE (c_lit ''1.0'') response)
      else if IS_VAR_TYPE arg ''max-download-size'' then Some (c_lit ''0x02000000'')
      else if IS_VAR_TYPE arg ''product'' then Some (COPY_RESPONSE (op_product fo) response)
      else if IS_VAR_TYPE arg ''serialno''
      then Some (COPY_RESPONSE (if fst (op_get_serial_no fo (platform s)) \<noteq> TEGRABL_NO_ERROR
                                then c_lit ''not valid'' else snd (op_get_serial_no fo (platform s))) response)
      else if IS_VAR_TYPE arg ''secure''
      then (case tegrabl_is_device_unlocked fo s of (error, unlocked) \<Rightarrow>
              Some (if error \<noteq> TEGRABL_NO_ERROR then response
                    else COPY_RESPONSE (if unlocked then c_lit ''No'' else c_lit ''Yes'') response))
      else if IS_VAR_TYPE arg ''unlocked''
      then (case tegrabl_is_device_unlocked fo s of (error, unlocked) \<Rightarrow>
              Some (if error \<noteq> TEGRABL_NO_ERROR then response
                    else COPY_RESPONSE (if unlocked then c_lit ''Yes'' else c_lit ''No'') response))
      else if IS_VAR_TYPE arg ''partition-size:''
      then (case tegrabl_fastboot_get_partinfo (drop 15 arg) of
              None \<Rightarrow> Some response
            | Some i \<Rightarrow>
                (case tegrabl_partition_open (Some (tegra_part_name i)) (Some null_partition) (fb_pm s) of
                   (error, part) \<Rightarrow>
                     let n = tegrabl_partition_size part in
                     if error \<noteq> TEGRABL_NO_ERROR \<or> sint n \<le> 0 then Some response
                     else sprintf_response (c_lit ''0x'' @ print_digits 16 16 (unat n)) response))
      else if IS_VAR_TYPE arg ''partition-type:''
      then (case tegrabl_fastboot_get_partinfo (drop 15 arg) of
              None \<Rightarrow> Some response
            | Some i \<Rightarrow>
                if opens (Some (tegra_part_name i)) (fb_pm s) \<noteq> TEGRABL_NO_ERROR then Some response
                else sprintf_response (fastboot_part_type i) response)
      else if is_a_b_var_type arg then tegrabl_fastboot_a_b_var_handler fo s arg response
      else Some (COPY_RESPONSE (c_lit ''Unknown var!'') response))"

text \<open>One line of \<open>getvar:all\<close>: the variable's name, a separator and its value.\<close>

definition info_var ::
  "('d, 'p) fb_ops \<Rightarrow> bytes \<Rightarrow> ('d, 'p) fb_state \<Rightarrow> ('d, 'p) fb_state option"
where
  "info_var fo name s = do {
     response \<leftarrow> fastboot_getvar fo s name (COPY_RESPONSE (c_lit '': '') name);
     Some (fastboot_ack fo (c_lit ''INFO'') response s)
   }"

fun info_vars ::
  "('d, 'p) fb_ops \<Rightarrow> bytes list \<Rightarrow> ('d, 'p) fb_state \<Rightarrow> ('d, 'p) fb_state option"
where
  "info_vars fo [] s = Some s"
| "info_vars fo (v # vs) s = Option.bind (info_var fo v s) (info_vars fo vs)"

definition fastboot_var_list :: "bytes list" where
  "fastboot_var_list = map c_lit [''version-bootloader'', ''serialno'', ''product'', ''secure'',
     ''unlocked'', ''current-slot'', ''slot-suffixes'']"

definition fastboot_partition_vars :: "bytes list" where
  "fastboot_partition_vars =
     concat (map (\<lambda>i. map (\<lambda>v. COPY_RESPONSE (fastboot_part_name i) (COPY_RESPONSE (c_lit v) []))
                    [''partition-size:'', ''partition-type:'', ''has-slot:'']) fastboot_partition_map_table)"

text \<open>The slot variables; slots whose suffix cannot be read are skipped.\<close>

fun info_slot_vars ::
  "('d, 'p) fb_ops \<Rightarrow> (string \<times> nat) list \<Rightarrow> ('d, 'p) fb_state \<Rightarrow> ('d, 'p) fb_state option"
where
  "info_slot_vars fo [] s = Some s"
| "info_slot_vars fo ((v, j) # vs) s =
     (case tegrabl_get_slot_suffix fo (of_nat j) (platform s) of
        (_, None) \<Rightarrow> info_slot_vars fo vs s
      | (_, Some suf) \<Rightarrow>
          Option.bind (info_var fo (COPY_RESPONSE (c_lit v) [] @ suf) s) (info_slot_vars fo vs))"

definition cmd_getvar ::
  "('d, 'p) fb_ops \<Rightarrow> bytes \<Rightarrow> ('d, 'p) fb_state \<Rightarrow> ('d, 'p) fb_result"
where
  "cmd_getvar fo arg s =
     (case (if IS_VAR_TYPE arg ''all''
            then do {
              s \<leftarrow> info_vars fo fastboot_var_list s;
              s \<leftarrow> info_vars fo fastboot_partition_vars s;
              (case tegrabl_get_slot_num fo (platform s) of
                 (_, None) \<Rightarrow> Some s
               | (_, Some n) \<Rightarrow> do {
                   s \<leftarrow> info_slot_vars fo (List.product [''slot-successful:'', ''slot-unbootable:'',
                          ''slot-retry-count:''] [0..<unat n]) s;
                   Some (fastboot_okay fo [] s)
                 })
            }
            else do {
              response \<leftarrow> fastboot_getvar fo s arg [];
              Some (fastboot_okay fo response s)
            }) of
        None \<Rightarrow> Fb_corrupt
      | Some s \<Rightarrow> Fb_done s)"

section \<open>Commands that need an unlocked device\<close>

definition unless_locked ::
  "('d, 'p) fb_ops \<Rightarrow> ('d, 'p) fb_state \<Rightarrow> ('d, 'p) fb_result \<Rightarrow> ('d, 'p) fb_result"
where
  "unless_locked fo s r =
     (case tegrabl_is_device_unlocked fo s of (error, unlocked) \<Rightarrow>
        if error \<noteq> TEGRABL_NO_ERROR then Fb_done (fastboot_fail fo ''Bootloader lock state unknown'' s)
        else if \<not> unlocked then Fb_done (fastboot_fail fo ''Bootloader is locked.'' s)
        else r)"

definition cmd_set_active_slot ::
  "('d, 'p) fb_ops \<Rightarrow> bytes \<Rightarrow> ('d, 'p) fb_state \<Rightarrow> ('d, 'p) fb_result"
where
  "cmd_set_active_slot fo arg s =
     unless_locked fo s
       (case tegrabl_set_active_slot fo arg s of (err, s) \<Rightarrow>
          Fb_done (if err \<noteq> TEGRABL_NO_ERROR then fastboot_fail fo ''Failed to set slot active'' s
                   else fastboot_okay fo [] s))"

definition cmd_erase ::
  "('d, 'p) fb_ops \<Rightarrow> bytes \<Rightarrow> ('d, 'p) fb_state \<Rightarrow> ('d, 'p) fb_result"
where
  "cmd_erase fo arg s =
     unless_locked fo s
       (case tegrabl_fastboot_get_partinfo arg of
          None \<Rightarrow> Fb_done (fastboot_fail fo ''No partition present with this name.'' s)
        | Some i \<Rightarrow>
            (case tegrabl_partition_open (Some (tegra_part_name i)) (Some null_partition) (fb_pm s) of
               (error, part) \<Rightarrow>
                 (case (if error = TEGRABL_NO_ERROR then tegrabl_partition_erase part False (fb_pm s)
                        else (error, fb_pm s)) of
                    (error, pm) \<Rightarrow>
                      let s = s\<lparr>fb_pm := pm\<rparr>
                      in Fb_done (if error = TEGRABL_NO_ERROR then fastboot_okay fo [] s
                                  else fastboot_fail fo ''Partition erase failed!'' s))))"

definition hex_value :: "u8 \<Rightarrow> u32 option" where
  "hex_value c =
     (if 0x30 \<le> c \<and> c \<le> 0x39 then Some (ucast c - 0x30)
      else if 0x61 \<le> c \<and> c \<le> 0x66 then Some (ucast c - 0x61 + 10)
      else if 0x41 \<le> c \<and> c \<le> 0x46 then Some (ucast c - 0x41 + 10)
      else None)"

fun hex2uint32_loop :: "u32 \<Rightarrow> bytes \<Rightarrow> u32" where
  "hex2uint32_loop n [] = n"
| "hex2uint32_loop n (c # cs) =
     (case hex_value c of None \<Rightarrow> n | Some d \<Rightarrow> hex2uint32_loop (push_bit 4 n OR d) cs)"

definition hex2uint32_t :: "bytes \<Rightarrow> u32" where
  "hex2uint32_t x = hex2uint32_loop 0 x"

text \<open>The allocation site is 6. \<open>op_usbf_receive\<close> stores what it received at the start of the
  buffer.\<close>

definition cmd_download ::
  "('d, 'p) fb_ops \<Rightarrow> fb_config \<Rightarrow> bytes \<Rightarrow> ('d, 'p) fb_state \<Rightarrow> ('d, 'p) fb_result"
where
  "cmd_download fo cfg arg s =
     (let len = hex2uint32_t arg in
      unless_locked fo s
        (let s = s\<lparr>download_size := 0\<rparr> in
         if len > MAX_DOWNLOAD_SIZE then Fb_done (fastboot_fail fo ''data too large'' s)
         else
           (case op_usbf_send fo (c_lit ''DATA'' @
                   (let d = print_digits 16 8 (unat len) in replicate (8 - length d) 0x30 @ d)) (platform s) of
              (error, p) \<Rightarrow>
                let s = s\<lparr>platform := p\<rparr> in
                if error \<noteq> TEGRABL_NO_ERROR then Fb_done s
                else
                  let s = (if is_allocated s then s
                           else s\<lparr>download_base := map_option (\<lambda>a. (a, unat len, replicate (unat len) 0))
                                    (cfg_alloc cfg 6 4096 (ucast len)), is_allocated := True\<rparr>)
                  in (case download_base s of
                        None \<Rightarrow> Fb_done (fastboot_fail fo ''Memory Insufficient'' s)
                      | Some (a, sz, old) \<Rightarrow>
                          (case op_usbf_receive fo len (platform s) of ((retval, data), p) \<Rightarrow>
                             let s = s\<lparr>platform := p\<rparr> in
                             if sz < length data then Fb_corrupt
                             else
                               let s = s\<lparr>download_base := Some (a, sz, overwrite 0 data old)\<rparr> in
                               if retval \<noteq> TEGRABL_NO_ERROR \<or> length data \<noteq> unat len
                               then Fb_done ((fastboot_fail fo ''USB read Failed'' s)\<lparr>fastboot_state := STATE_ERROR\<rparr>)
                               else Fb_done (fastboot_okay fo [] (s\<lparr>download_size := len\<rparr>)))))))"

text \<open>The suffix is read off the end of the command, of which the argument is the tail.\<close>

definition flash_exit ::
  "('d, 'p) fb_ops \<Rightarrow> tegrabl_error_t \<Rightarrow> ('d, 'p) fb_state \<Rightarrow> ('d, 'p) fb_state"
where
  "flash_exit fo error s =
     (if error = 0 then fastboot_okay fo [] s else fastboot_fail fo ''Partition write failed!'' s)"

definition flash_image ::
  "('d, 'p) fb_ops \<Rightarrow> fb_config \<Rightarrow> tegrabl_partition \<Rightarrow> u64 \<Rightarrow> bytes \<Rightarrow> ('d, 'p) fb_state \<Rightarrow> ('d, 'p) fb_result"
where
  "flash_image fo cfg part addr data s =
     (if tegrabl_sparse_image_check data
      then
        (case tegrabl_sparse_init_unsparse_state
                (Some \<lparr>us_state = 0, image_header = [], chunk_header = [], us_offset = 0, us_remaining = 0,
                  max_unsparse_size = 0, image_crc = [], computed_crc = 0, fill_value = [], chunks_processed = 0,
                  us_writer = None, us_seeker = None\<rparr>)
                (tegrabl_partition_size (Some part)) (Some (tegrabl_fastboot_partition_write (cfg_alloc cfg)))
                (Some tegrabl_fastboot_partition_seek) of
           (error, us) \<Rightarrow>
             if error \<noteq> TEGRABL_NO_ERROR then Fb_done s
             else
               (case tegrabl_sparse_unsparse (cfg_crc cfg) (cfg_local cfg) us addr data (part, fb_pm s) of
                  None \<Rightarrow> Fb_stuck
                | Some Overrun \<Rightarrow> Fb_corrupt
                | Some (Returned error _ (_, pm)) \<Rightarrow> Fb_done (flash_exit fo error (s\<lparr>fb_pm := pm\<rparr>))))
      else
        (case tegrabl_fastboot_partition_write (cfg_alloc cfg) addr data (part, fb_pm s) of
           (_, (_, pm)) \<Rightarrow> Fb_done (flash_exit fo TEGRABL_NO_ERROR (s\<lparr>fb_pm := pm\<rparr>))))"

definition cmd_flash ::
  "('d, 'p) fb_ops \<Rightarrow> fb_config \<Rightarrow> bytes \<Rightarrow> ('d, 'p) fb_state \<Rightarrow> ('d, 'p) fb_result"
where
  "cmd_flash fo cfg arg s =
     unless_locked fo s
       (case download_base s of
          None \<Rightarrow> Fb_done s
        | Some (addr, _, buffer) \<Rightarrow>
            if download_size s = 0 then Fb_done s
            else
              let data = take (unat (download_size s)) buffer;
                  suf = the (tegrabl_a_b_get_part_suffix (c_lit ''flash:'' @ arg))
              in if tegrabl_a_b_match_part_name_with_suffix (c_lit ''bootloader'') arg
                 then (case op_bl_update fo data suf (fb_pm s) (platform s) of (error, pm, p) \<Rightarrow>
                         Fb_done (flash_exit fo error (s\<lparr>fb_pm := pm, platform := p\<rparr>)))
                 else
                   (case tegrabl_fastboot_get_partinfo arg of
                      None \<Rightarrow> Fb_done (fastboot_fail fo ''No partition present with this name.'' s)
                    | Some i \<Rightarrow>
                        (case tegrabl_partition_open (tegrabl_fastboot_get_tegra_part_name suf (Some i))
                                (Some null_partition) (fb_pm s) of
                           (error, part) \<Rightarrow>
                             if error \<noteq> TEGRABL_NO_ERROR
                             then Fb_done (fastboot_fail fo ''Partition may not exist or can not be accessed.'' s)
                             else flash_image fo cfg (the part) addr data s)))"

section \<open>Other commands\<close>

definition cmd_boot ::
  "('d, 'p) fb_ops \<Rightarrow> ('d, 'p) fb_state \<Rightarrow> ('d, 'p) fb_result"
where
  "cmd_boot fo s =
     unless_locked fo s
       (let s = fastboot_okay fo [] s in
        case op_load_kernel fo (map_option (\<lambda>(a, _, b). (a, b)) (download_base s)) (download_size s) (platform s) of
          (err, p) \<Rightarrow> if err \<noteq> TEGRABL_NO_ERROR then Fb_done (s\<lparr>platform := p\<rparr>) else Fb_gone (s\<lparr>platform := p\<rparr>))"

definition cmd_flashing ::
  "('d, 'p) fb_ops \<Rightarrow> bytes \<Rightarrow> ('d, 'p) fb_state \<Rightarrow> ('d, 'p) fb_result"
where
  "cmd_flashing fo arg s =
     (let s = (if IS_VAR_TYPE arg ''lock'' then snd (tegrabl_change_device_state fo FASTBOOT_LOCK s)
               else if IS_VAR_TYPE arg ''unlock'' then snd (tegrabl_change_device_state fo FASTBOOT_UNLOCK s)
               else s)
      in Fb_done (fastboot_okay fo [] s))"

definition get_dts_basename :: "bytes \<Rightarrow> bytes" where
  "get_dts_basename path = rev (takeWhile (\<lambda>c. c \<noteq> 0x2F) (rev path))"

text \<open>The right summand is for a reset into recovery mode and for an empty device tree file name, whose
  last character is written before the buffer.\<close>

definition tegrabl_fastboot_oem_handler ::
  "('d, 'p) fb_ops \<Rightarrow> bytes \<Rightarrow> ('d, 'p) fb_state \<Rightarrow> (tegrabl_error_t \<times> ('d, 'p) fb_state, ('d, 'p) fb_result) sum"
where
  "tegrabl_fastboot_oem_handler fo arg s =
     (if IS_VAR_TYPE arg ''lock'' then Inl (tegrabl_change_device_state fo FASTBOOT_LOCK s)
      else if IS_VAR_TYPE arg ''unlock'' then Inl (tegrabl_change_device_state fo FASTBOOT_UNLOCK s)
      else if IS_VAR_TYPE arg ''dtbname''
      then (case op_dts_filename fo (platform s) of (ret, path) \<Rightarrow>
              if ret \<noteq> TEGRABL_NO_ERROR then Inl (ret, fastboot_fail fo ''DTB name not found!'' s)
              else
                let fname = take (MAX_RESPONSE_SIZE - 1) (get_dts_basename path)
                in if fname = [] then Inr Fb_corrupt
                   else Inl (TEGRABL_NO_ERROR, fastboot_ack fo (c_lit ''INFO'') (butlast fname @ c_lit ''b'') s))
      else if IS_VAR_TYPE arg ''ecid''
      then (case query (op_get_fuse_ecid fo) (platform s) of
              (ret, Some ecid) \<Rightarrow> Inl (TEGRABL_NO_ERROR, fastboot_ack fo (c_lit ''INFO'') ecid s)
            | (ret, None) \<Rightarrow> Inl (ret, fastboot_fail fo ''Get ecid failed!'' s))
      else if IS_VAR_TYPE arg ''force-recovery'' then Inr (Fb_gone (fastboot_okay fo [] s))
      else Inl (TEGRABL_NO_ERROR, s))"

definition cmd_oem ::
  "('d, 'p) fb_ops \<Rightarrow> bytes \<Rightarrow> ('d, 'p) fb_state \<Rightarrow> ('d, 'p) fb_result"
where
  "cmd_oem fo arg s =
     (case tegrabl_fastboot_oem_handler fo arg s of
        Inl (ret, s) \<Rightarrow> Fb_done (if ret = TEGRABL_NO_ERROR then fastboot_okay fo [] s else s)
      | Inr r \<Rightarrow> r)"

section \<open>Dispatch\<close>

fun cmd_prefix :: "fb_cmd \<Rightarrow> bytes" where
  "cmd_prefix Reboot = c_lit ''reboot''"
| "cmd_prefix Reboot_bootloader = c_lit ''reboot-bootloader''"
| "cmd_prefix Reboot_fastboot = c_lit ''reboot-fastboot''"
| "cmd_prefix Reboot_recovery = c_lit ''reboot-recovery''"
| "cmd_prefix Getvar = c_lit ''getvar:''"
| "cmd_prefix Erase = c_lit ''erase:''"
| "cmd_prefix Download = c_lit ''download:''"
| "cmd_prefix Flash = c_lit ''flash:''"
| "cmd_prefix Boot = c_lit ''boot''"
| "cmd_prefix Continue = c_lit ''continue''"
| "cmd_prefix Oem = c_lit ''oem ''"
| "cmd_prefix Flashing = c_lit ''flashing ''"
| "cmd_prefix Set_active = c_lit ''set_active:''"

fun handle ::
  "('d, 'p) fb_ops \<Rightarrow> fb_config \<Rightarrow> fb_cmd \<Rightarrow> bytes \<Rightarrow> ('d, 'p) fb_state \<Rightarrow> ('d, 'p) fb_result"
where
  "handle fo cfg Reboot arg s = Fb_gone (fastboot_okay fo [] s)"
| "handle fo cfg Reboot_bootloader arg s = Fb_gone (fastboot_okay fo [] s)"
| "handle fo cfg Reboot_fastboot arg s =
     Fb_done (fastboot_fail fo ''Rebooting to fastbootd is not implemented'' s)"
| "handle fo cfg Reboot_recovery arg s = Fb_gone (fastboot_okay fo [] s)"
| "handle fo cfg Getvar arg s = cmd_getvar fo arg s"
| "handle fo cfg Erase arg s = cmd_erase fo arg s"
| "handle fo cfg Download arg s = cmd_download fo cfg arg s"
| "handle fo cfg Flash arg s = cmd_flash fo cfg arg s"
| "handle fo cfg Boot arg s = cmd_boot fo s"
| "handle fo cfg Continue arg s = Fb_done (fastboot_okay fo [] s)"
| "handle fo cfg Oem arg s = cmd_oem fo arg s"
| "handle fo cfg Flashing arg s = cmd_flashing fo arg s"
| "handle fo cfg Set_active arg s = cmd_set_active_slot fo arg s"

definition fastboot_register :: "bool \<Rightarrow> fb_cmd \<Rightarrow> ('d, 'p) fb_state \<Rightarrow> ('d, 'p) fb_state" where
  "fastboot_register malloc_ok cmd s = (if malloc_ok then s\<lparr>cmdlist := cmd # cmdlist s\<rparr> else s)"

definition tegrabl_fastboot_cmd_init :: "(fb_cmd \<Rightarrow> bool) \<Rightarrow> ('d, 'p) fb_state \<Rightarrow> ('d, 'p) fb_state" where
  "tegrabl_fastboot_cmd_init malloc_ok s =
     fold (\<lambda>c. fastboot_register (malloc_ok c) c)
       [Reboot, Reboot_bootloader, Reboot_fastboot, Reboot_recovery, Getvar, Erase, Download, Flash, Boot,
        Continue, Oem, Flashing, Set_active] s"

text \<open>One command of the handler's loop. The first registered command whose prefix the buffer starts
  with handles it; the flag says that the handler returns (after \<open>continue\<close>).\<close>

definition fastboot_command ::
  "('d, 'p) fb_ops \<Rightarrow> fb_config \<Rightarrow> bytes \<Rightarrow> ('d, 'p) fb_state \<Rightarrow> bool \<times> ('d, 'p) fb_result"
where
  "fastboot_command fo cfg buffer s =
     (let s = (if cmdlist s = [] then s else s\<lparr>fastboot_state := STATE_COMMAND\<rparr>) in
      case find (\<lambda>c. take (length (cmd_prefix c)) buffer = cmd_prefix c) (cmdlist s) of
        None \<Rightarrow> (False, Fb_done (fastboot_fail fo ''unknown command'' s))
      | Some c \<Rightarrow>
          (case handle fo cfg c (drop (length (cmd_prefix c)) buffer) s of
             Fb_done s \<Rightarrow>
               if take 8 buffer = c_lit ''continue'' then (True, Fb_done s)
               else (False, Fb_done (if fastboot_state s = STATE_COMMAND
                                     then fastboot_fail fo ''unknown reason'' s else s))
           | r \<Rightarrow> (False, r)))"

text \<open>The handler's loop on a finite sequence of received commands, each at most 64 characters; it
  stops early when the state is an error or the handler returned, and the state is offline once
  receiving fails, which ends the sequence.\<close>

fun command_loop ::
  "('d, 'p) fb_ops \<Rightarrow> fb_config \<Rightarrow> bytes list \<Rightarrow> ('d, 'p) fb_state \<Rightarrow> bool \<times> ('d, 'p) fb_result"
where
  "command_loop fo cfg [] s = (False, Fb_done (s\<lparr>fastboot_state := STATE_OFFLINE\<rparr>))"
| "command_loop fo cfg (b # bs) s =
     (if fastboot_state s = STATE_ERROR then (False, Fb_done (s\<lparr>fastboot_state := STATE_OFFLINE\<rparr>))
      else
        (case fastboot_command fo cfg (cstr (take 64 b)) s of
           (False, Fb_done s) \<Rightarrow> command_loop fo cfg bs s
         | r \<Rightarrow> r))"

text \<open>The flag is true when the handler returns success; otherwise it returns the error of the allocation
  (site 7) or of the last receive, which is not kept.\<close>

definition tegrabl_fastboot_command_handler ::
  "('d, 'p) fb_ops \<Rightarrow> fb_config \<Rightarrow> bytes list \<Rightarrow> ('d, 'p) fb_state \<Rightarrow> bool \<times> ('d, 'p) fb_result"
where
  "tegrabl_fastboot_command_handler fo cfg bs s =
     (case cfg_alloc cfg 7 4096 512 of
        None \<Rightarrow> (False, Fb_done (s\<lparr>fastboot_state := STATE_OFFLINE\<rparr>))
      | Some _ \<Rightarrow> command_loop fo cfg bs s)"

end
