(* ===== verification/Sparse_Correct.thy ===== *)
theory Sparse_Correct
  imports Sparse
begin

text \<open>
  Correctness of the sparse codec. The format is described by chunk lists (\<open>sparse_image\<close>) and their
  effect on an output (\<open>put_chunk\<close>). The locale \<open>unsparse_sink\<close> is the contract of the writer and
  the seeker; within it the decoder is shown to have that effect. The encoder is shown to produce
  \<open>sparse_image\<close>. Termination of the decoder and its memory safety need no contract.
\<close>

section \<open>Chunks and images\<close>

datatype chunk = Raw bytes | Fill bytes nat | Skip nat

definition chunk_hdr :: "u16 \<Rightarrow> nat \<Rightarrow> nat \<Rightarrow> bytes" where
  "chunk_hdr type blocks tot = le_bytes 2 type @ le_bytes 2 (0 :: u16) @ le_bytes 4 (of_nat blocks :: u32) @
     le_bytes 4 (of_nat tot :: u32)"

fun chunk_blocks :: "nat \<Rightarrow> chunk \<Rightarrow> nat" where
  "chunk_blocks blk (Raw d) = length d div blk"
| "chunk_blocks blk (Fill fv n) = n"
| "chunk_blocks blk (Skip n) = n"

fun enc_chunk :: "nat \<Rightarrow> chunk \<Rightarrow> bytes" where
  "enc_chunk blk (Raw d) = chunk_hdr 0xCAC1 (length d div blk) (12 + length d) @ d"
| "enc_chunk blk (Fill fv n) = chunk_hdr 0xCAC2 n 16 @ fv"
| "enc_chunk blk (Skip n) = chunk_hdr 0xCAC3 n 12"

fun chunk_ok :: "nat \<Rightarrow> chunk \<Rightarrow> bool" where
  "chunk_ok blk (Raw d) \<longleftrightarrow> d \<noteq> [] \<and> blk dvd length d \<and> 12 + length d < 2 ^ 32"
| "chunk_ok blk (Fill fv n) \<longleftrightarrow> length fv = 4 \<and> n < 2 ^ 32"
| "chunk_ok blk (Skip n) \<longleftrightarrow> n < 2 ^ 32"

definition cycled :: "bytes \<Rightarrow> nat \<Rightarrow> bytes" where
  "cycled fv n = map (\<lambda>i. fv ! (i mod length fv)) [0..<n]"

text \<open>What a chunk does to the output, a position and the contents.\<close>

fun put_chunk :: "nat \<Rightarrow> chunk \<Rightarrow> nat \<times> bytes \<Rightarrow> nat \<times> bytes" where
  "put_chunk blk (Raw d) (p, img) = (p + length d, overwrite p d img)"
| "put_chunk blk (Fill fv n) (p, img) = (p + n * blk, overwrite p (cycled fv (n * blk)) img)"
| "put_chunk blk (Skip n) (p, img) = (p + n * blk, img)"

definition image_hdr :: "nat \<Rightarrow> nat \<Rightarrow> nat \<Rightarrow> bytes" where
  "image_hdr blk blocks chunks =
     le_bytes 4 TEGRABL_SPARSE_HEADER_MAGIC @ le_bytes 2 (1 :: u16) @ le_bytes 2 (0 :: u16) @
     le_bytes 2 (28 :: u16) @ le_bytes 2 (12 :: u16) @ le_bytes 4 (of_nat blk :: u32) @
     le_bytes 4 (of_nat blocks :: u32) @ le_bytes 4 (of_nat chunks :: u32) @ le_bytes 4 (0 :: u32)"

definition sparse_image :: "nat \<Rightarrow> chunk list \<Rightarrow> bytes" where
  "sparse_image blk cs =
     image_hdr blk (sum_list (map (chunk_blocks blk) cs)) (length cs) @ concat (map (enc_chunk blk) cs)"

lemma length_hdrs [simp]: "length (chunk_hdr t b n) = 12" "length (image_hdr k b n) = 28"
  by (simp_all add: chunk_hdr_def image_hdr_def)

lemma chunk_hdr_fields [simp]:
  "ch_chunk_type (chunk_hdr t b n) = t" "ch_chunk_sz (chunk_hdr t b n) = of_nat b"
  "ch_total_sz (chunk_hdr t b n) = of_nat n"
proof -
  have "ch_total_sz (chunk_hdr t b n) = of_le (take 4 (le_bytes 4 (of_nat n :: u32)))"
    by (simp add: ch_total_sz_def chunk_hdr_def u32_at_def subrange_app_skip) (simp add: subrange_def)
  then show "ch_total_sz (chunk_hdr t b n) = of_nat n" by (simp add: layout)
qed (simp_all add: ch_chunk_type_def ch_chunk_sz_def chunk_hdr_def layout)

lemma image_hdr_fields [simp]:
  "ih_magic (image_hdr k b n) = TEGRABL_SPARSE_HEADER_MAGIC" "ih_major_version (image_hdr k b n) = 1"
  "ih_chunk_hdr_sz (image_hdr k b n) = 12" "ih_blk_sz (image_hdr k b n) = of_nat k"
  "ih_total_blks (image_hdr k b n) = of_nat b" "ih_total_chunks (image_hdr k b n) = of_nat n"
  by (simp_all only: ih_magic_def ih_major_version_def ih_chunk_hdr_sz_def ih_blk_sz_def ih_total_blks_def
      ih_total_chunks_def image_hdr_def layout length_le_bytes le_numeral_extra order.refl) (simp_all add: layout)

lemma concat_replicate_cycled:
  assumes "fv \<noteq> []"
  shows "concat (replicate k fv) = cycled fv (k * length fv)"
proof (induction k)
  case (Suc k)
  have "concat (replicate (Suc k) fv) = concat (replicate k fv) @ fv"
    by (simp add: replicate_append_same flip: concat_append) (metis append_Nil2 concat.simps concat_append replicate_append_same)
  also have "\<dots> = cycled fv (k * length fv) @ fv" by (simp add: Suc)
  also have "\<dots> = cycled fv (Suc k * length fv)"
  proof (rule nth_equalityI)
    show "(cycled fv (k * length fv) @ fv) ! i = cycled fv (Suc k * length fv) ! i"
      if "i < length (cycled fv (k * length fv) @ fv)" for i
    proof (cases "i < k * length fv")
      case True
      then show ?thesis by (simp add: cycled_def nth_append)
    next
      case False
      then obtain r where r: "i = k * length fv + r" by (metis le_iff_add not_less)
      then have "r < length fv" using that by (simp add: cycled_def)
      then show ?thesis by (simp add: cycled_def nth_append r)
    qed
  qed (simp add: cycled_def)
  finally show ?case .
qed (simp add: cycled_def)

lemma length_cycled [simp]: "length (cycled fv n) = n"
  by (simp add: cycled_def)

lemma take_cycled: "m \<le> n \<Longrightarrow> take m (cycled fv n) = cycled fv m"
  by (simp add: cycled_def take_map)

lemma cycled_append:
  assumes "length fv dvd m"
  shows "cycled fv m @ cycled fv n = cycled fv (m + n)"
proof (rule nth_equalityI)
  obtain q where q: "m = length fv * q" using assms by blast
  show "(cycled fv m @ cycled fv n) ! i = cycled fv (m + n) ! i"
    if "i < length (cycled fv m @ cycled fv n)" for i
  proof (cases "i < m")
    case True
    then show ?thesis by (simp add: cycled_def nth_append)
  next
    case False
    then obtain r where r: "i = m + r" by (metis le_iff_add not_less)
    then show ?thesis using that q by (simp add: cycled_def nth_append)
  qed
qed simp

section \<open>Decoding onto a sink\<close>

lemma unsparse_loop_iterate:
  assumes "v_input v \<noteq> [] \<or> v_state v = 5" and "unsparse_step crc_on buffer v = Iterate v'"
  shows "unsparse_loop crc_on buffer v = unsparse_loop crc_on buffer v'"
  using assms by (subst unsparse_loop.simps) auto

lemma unsparse_loop_end:
  assumes "v_input v = []" and "v_state v \<noteq> 5"
  shows "unsparse_loop crc_on buffer v = Some (Iterate v)"
  using assms by (subst unsparse_loop.simps) simp

lemma memcpy_whole: "length src = length dst \<Longrightarrow> c_memcpy 0 src dst = Some src"
  by (simp add: c_memcpy_def overwrite_def)

text \<open>The decoder between two chunks.\<close>

definition at_header :: "bytes \<Rightarrow> 'w writer \<Rightarrow> 'w seeker \<Rightarrow> 'w us_vars \<Rightarrow> bool" where
  "at_header ih W S v \<longleftrightarrow>
     v_state v = 2 \<and> v_remaining v = 12 \<and> v_offset v = 0 \<and> length (chunk_header (v_us v)) = 12 \<and>
     image_header (v_us v) = ih \<and> length (fill_value (v_us v)) = 4 \<and>
     us_writer (v_us v) = Some W \<and> us_seeker (v_us v) = Some S"

definition at_chunk :: "bytes \<Rightarrow> bytes \<Rightarrow> 'w us_vars \<Rightarrow> 'w us_vars" where
  "at_chunk h rest v =
     v\<lparr>v_us := (v_us v)\<lparr>chunk_header := h\<rparr>, v_error := 0, v_chunks := v_chunks v + 1,
       v_state := ucast (ch_chunk_type h) - 0xCAC1 + 3, v_offset := 0,
       v_remaining := ucast (ch_chunk_sz h) * ucast (ih_blk_sz (image_header (v_us v))),
       v_addr := v_addr v + 12, v_input := rest\<rparr>"

lemma header_step:
  assumes "at_header ih W S v" and "v_input v = h @ rest" and "length h = 12"
    and "tegrabl_sparse_validate_chunk_header ih h = TEGRABL_NO_ERROR"
    and "v_chunks v + 1 \<le> ucast (ih_total_chunks ih)"
  shows "unsparse_loop crc_on buffer v = unsparse_loop crc_on buffer (at_chunk h rest v)"
proof (rule unsparse_loop_iterate)
  show "v_input v \<noteq> [] \<or> v_state v = 5" using assms(2,3) by auto
  have 1: "v_state v = 2" "v_remaining v = 12" "v_offset v = 0" "length (chunk_header (v_us v)) = 12"
    "image_header (v_us v) = ih"
    using assms(1) by (simp_all add: at_header_def)
  have m: "c_memcpy 0 h (chunk_header (v_us v)) = Some h"
    using assms(3) 1 by (intro memcpy_whole) simp
  have le: "\<not> ucast (ih_total_chunks ih) < v_chunks v + 1" using assms(5) by simp
  show "unsparse_step crc_on buffer v = Iterate (at_chunk h rest v)"
    using le by (simp add: unsparse_step_def step_chunk_header_def 1 assms(2,3,4) m consume_def Let_def at_chunk_def)
qed

text \<open>The image header, when it arrives whole.\<close>

lemma init_fields:
  assumes "tegrabl_sparse_init_unsparse_state (Some s0) mx (Some W) (Some S) = (TEGRABL_NO_ERROR, Some us)"
  shows "us_state us = 1" "image_header us = replicate 28 0" "length (chunk_header us) = 12"
    "us_offset us = 0" "us_remaining us = 28" "max_unsparse_size us = mx" "length (fill_value us) = 4"
    "length (image_crc us) = 4" "chunks_processed us = 0" "us_writer us = Some W" "us_seeker us = Some S"
  using assms by (auto simp: tegrabl_sparse_init_unsparse_state_def split: if_splits)

definition after_image_header :: "bytes \<Rightarrow> bytes \<Rightarrow> 'w unsparse_state \<Rightarrow> u64 \<Rightarrow> 'w \<Rightarrow> 'w us_vars" where
  "after_image_header h rest us addr w =
     next_header (ucast (ih_chunk_hdr_sz h))
       ((unsparse_vars (us\<lparr>image_header := h\<rparr>) (addr + 28) rest w)\<lparr>v_remaining := 0, v_offset := 28\<rparr>)"

lemma image_header_step:
  assumes "tegrabl_sparse_init_unsparse_state (Some s0) mx (Some W) (Some S) = (TEGRABL_NO_ERROR, Some us)"
    and "length h = 28" and "tegrabl_sparse_validate_header h mx = TEGRABL_NO_ERROR"
  shows "unsparse_loop crc_on buffer (unsparse_vars us addr (h @ rest) w) =
    unsparse_loop crc_on buffer (after_image_header h rest us addr w)"
proof (rule unsparse_loop_iterate)
  note us = init_fields [OF assms(1)]
  show "v_input (unsparse_vars us addr (h @ rest) w) \<noteq> [] \<or> v_state (unsparse_vars us addr (h @ rest) w) = 5"
    using assms(2) by (auto simp: unsparse_vars_def)
  have m: "c_memcpy 0 h (replicate 28 0) = Some h" using assms(2) by (intro memcpy_whole) simp
  show "unsparse_step crc_on buffer (unsparse_vars us addr (h @ rest) w) =
      Iterate (after_image_header h rest us addr w)"
    using assms(2,3) by (simp add: unsparse_step_def step_image_header_def unsparse_vars_def us m Let_def
        after_image_header_def consume_def next_header_def)
qed

locale unsparse_sink =
  fixes writer :: "'w writer" and seeker :: "'w seeker"
    and ok :: "'w \<Rightarrow> bool" and pos :: "'w \<Rightarrow> nat" and img :: "'w \<Rightarrow> bytes"
  assumes write_law: "ok w \<Longrightarrow> addr \<noteq> 0 \<Longrightarrow> unat addr + length d < 2 ^ 64 \<Longrightarrow> d \<noteq> [] \<Longrightarrow>
      pos w + length d \<le> length (img w) \<Longrightarrow>
      \<exists>w'. writer addr d w = (TEGRABL_NO_ERROR, w') \<and> ok w' \<and> pos w' = pos w + length d \<and>
        img w' = overwrite (pos w) d (img w)"
    and seek_law: "ok w \<Longrightarrow> pos w + unat n \<le> length (img w) \<Longrightarrow>
      \<exists>w'. seeker n w = (TEGRABL_NO_ERROR, w') \<and> ok w' \<and> pos w' = pos w + unat n \<and> img w' = img w"
begin

lemma fill_loop_writes:
  assumes "ok w" and "pos w + unat remaining \<le> length (img w)" and "length fv = 4"
    and "buffer \<noteq> 0" and "unat buffer + 1024 < 2 ^ 64"
  shows "\<exists>crc' w'. fill_loop crc_on writer buffer (cycled fv 1024) remaining crc TEGRABL_NO_ERROR w =
      (TEGRABL_NO_ERROR, crc', w') \<and> ok w' \<and> pos w' = pos w + unat remaining \<and>
      img w' = overwrite (pos w) (cycled fv (unat remaining)) (img w)"
  using assms(1,2)
proof (induction "unat remaining" arbitrary: remaining crc w rule: less_induct)
  case less
  show ?case
  proof (cases "remaining = 0")
    case True
    then show ?thesis using less.prems by (simp add: fill_loop.simps cycled_def)
  next
    case False
    define sz where "sz = min remaining 1024"
    have sz: "unat sz = min (unat remaining) 1024" "sz \<le> remaining"
      by (simp_all add: sz_def unat_min)
    have pos: "0 < unat remaining" using False by (simp add: unat_gt_0)
    have d: "take (unat sz) (cycled fv 1024) = cycled fv (unat sz)" using sz by (intro take_cycled) simp
    have rest: "unat (remaining - sz) = unat remaining - unat sz" by (rule unat_diff) (rule sz(2))
    obtain w1 where w1: "writer buffer (cycled fv (unat sz)) w = (TEGRABL_NO_ERROR, w1)" "ok w1"
      "pos w1 = pos w + unat sz" "img w1 = overwrite (pos w) (cycled fv (unat sz)) (img w)"
    proof -
      have "unat buffer + length (cycled fv (unat sz)) < 2 ^ 64" "cycled fv (unat sz) \<noteq> []"
        "pos w + length (cycled fv (unat sz)) \<le> length (img w)"
        using assms(5) sz pos less.prems(2) by (auto simp: cycled_def)
      from write_law [OF less.prems(1) assms(4) this] show ?thesis using that by auto
    qed
    have len: "length (img w1) = length (img w)" using w1(4) less.prems(2) sz by simp
    obtain crc' w' where w': "fill_loop crc_on writer buffer (cycled fv 1024) (remaining - sz)
        (crc_update crc_on crc (cycled fv (unat sz))) TEGRABL_NO_ERROR w1 = (TEGRABL_NO_ERROR, crc', w')" "ok w'"
      "pos w' = pos w1 + unat (remaining - sz)"
      "img w' = overwrite (pos w1) (cycled fv (unat (remaining - sz))) (img w1)"
      using less.hyps [of "remaining - sz" w1] w1 len less.prems rest sz pos by fastforce
    have run: "fill_loop crc_on writer buffer (cycled fv 1024) remaining crc TEGRABL_NO_ERROR w =
        (TEGRABL_NO_ERROR, crc', w')"
      using False w1(1) w'(1) d by (subst fill_loop.simps) (simp add: Let_def flip: sz_def)
    have join: "cycled fv (unat sz) @ cycled fv (unat remaining - unat sz) = cycled fv (unat remaining)"
    proof (cases "unat remaining \<le> 1024")
      case True
      then show ?thesis using sz by (simp add: cycled_def)
    next
      case False
      then show ?thesis using sz cycled_append [of fv 1024 "unat remaining - 1024"] assms(3) by simp
    qed
    have "img w' = overwrite (pos w + length (cycled fv (unat sz))) (cycled fv (unat remaining - unat sz))
        (overwrite (pos w) (cycled fv (unat sz)) (img w))"
      using w'(4) w1 rest by simp
    also have "\<dots> = overwrite (pos w) (cycled fv (unat remaining)) (img w)"
    proof -
      have "pos w + length (cycled fv (unat sz)) + length (cycled fv (unat remaining - unat sz)) \<le> length (img w)"
        using less.prems(2) sz by simp
      then show ?thesis by (simp only: overwrite_append join)
    qed
    finally show ?thesis using run w' w1 rest sz by (simp add: run)
  qed
qed


text \<open>One chunk, from header to header.\<close>

definition chunk_done :: "bytes \<Rightarrow> nat \<Rightarrow> chunk \<Rightarrow> bytes \<Rightarrow> 'w us_vars \<Rightarrow> 'w us_vars \<Rightarrow> bool" where
  "chunk_done ih blk c rest v v' \<longleftrightarrow>
     at_header ih writer seeker v' \<and> v_input v' = rest \<and> v_error v' = TEGRABL_NO_ERROR \<and>
     v_chunks v' = v_chunks v + 1 \<and> v_addr v' = v_addr v + of_nat (length (enc_chunk blk c)) \<and>
     ok (v_sink v') \<and>
     (pos (v_sink v'), img (v_sink v')) = put_chunk blk c (pos (v_sink v), img (v_sink v))"

lemma remaining_bytes:
  assumes "ih_blk_sz ih = of_nat blk" and "blk < 2 ^ 32" and "n < 2 ^ 32"
  shows "unat (ucast (of_nat n :: u32) * ucast (ih_blk_sz ih) :: u64) = n * blk"
proof -
  have "n * blk \<le> (2 ^ 32 - 1) * (2 ^ 32 - 1)" using assms(2,3) by (intro mult_mono) simp_all
  then have "n * blk < 2 ^ 64" by simp
  then show ?thesis
    using assms by (simp add: unat_word_ariths unat_ucast_up unat_of_nat)
qed

lemma raw_chunk:
  assumes "at_header ih writer seeker v" and "v_input v = enc_chunk blk (Raw d) @ rest"
    and "chunk_ok blk (Raw d)" and "ih_blk_sz ih = of_nat blk" and "blk < 2 ^ 32" and "0 < blk"
    and "ih_chunk_hdr_sz ih = 12" and "v_chunks v + 1 \<le> ucast (ih_total_chunks ih)"
    and "ok (v_sink v)" and "pos (v_sink v) + length d \<le> length (img (v_sink v))"
    and "v_addr v \<noteq> 0" and "unat (v_addr v) + length (v_input v) < 2 ^ 64"
  shows "\<exists>v'. unsparse_loop crc_on buffer v = unsparse_loop crc_on buffer v' \<and> chunk_done ih blk (Raw d) rest v v'"
proof -
  let ?h = "chunk_hdr 0xCAC1 (length d div blk) (12 + length d)"
  have d: "d \<noteq> []" "length d div blk * blk = length d" "12 + length d < 2 ^ 32" "length d div blk < 2 ^ 32"
    using assms(3) by (auto simp: dvd_div_mult_self intro: le_less_trans [OF div_le_dividend])
  have tot: "(of_nat (length d div blk) * of_nat blk :: u32) = of_nat (length d)"
    by (metis d(2) of_nat_mult)
  have val: "tegrabl_sparse_validate_chunk_header ih ?h = TEGRABL_NO_ERROR"
    by (simp add: tegrabl_sparse_validate_chunk_header_def assms(4,7) tot)
  define v1 where "v1 = at_chunk ?h (d @ rest) v"
  have l1: "unsparse_loop crc_on buffer v = unsparse_loop crc_on buffer v1"
    unfolding v1_def using assms(2) by (intro header_step [OF assms(1) _ _ val assms(8)]) simp_all
  note A = assms(1) [unfolded at_header_def]
  have r: "unat (v_remaining v1) = length d"
    using remaining_bytes [OF assms(4,5) d(4)] A d(2) by (simp add: v1_def at_chunk_def)
  then have r': "v_remaining v1 - of_nat (length d) = 0" by (metis of_nat_unat ucast_id right_minus_eq)
  have f: "v_state v1 = 3" "v_input v1 = d @ rest" "v_sink v1 = v_sink v" "v_addr v1 = v_addr v + 12"
    "us_writer (v_us v1) = Some writer"
    using A by (simp_all add: v1_def at_chunk_def)
  have ad: "unat (v_addr v + 12) = unat (v_addr v) + 12"
    using assms(2,12) d(1) by (simp add: unat_word_ariths)
  have a0: "v_addr v + 12 \<noteq> 0" using ad by (metis add_is_0 unat_0 zero_neq_numeral)
  have a1: "unat (v_addr v + 12) + length d < 2 ^ 64" using ad assms(2,12) by simp
  obtain w' where w': "writer (v_addr v + 12) d (v_sink v) = (TEGRABL_NO_ERROR, w')" "ok w'"
    "pos w' = pos (v_sink v) + length d" "img w' = overwrite (pos (v_sink v)) d (img (v_sink v))"
    using write_law [OF assms(9) a0 a1 d(1) assms(10)] by blast
  define v2 where "v2 = next_header 12 (consume (length d) (v1\<lparr>v_sink := w', v_error := 0,
    v_crc := crc_update crc_on (v_crc v1) d, v_remaining := 0\<rparr>))"
  have "unsparse_loop crc_on buffer v1 = unsparse_loop crc_on buffer v2"
  proof (rule unsparse_loop_iterate)
    show "v_input v1 \<noteq> [] \<or> v_state v1 = 5" using d f by simp
    show "unsparse_step crc_on buffer v1 = Iterate v2"
      using w'(1) by (simp add: unsparse_step_def step_raw_def f r Let_def v2_def consume_def r')
  qed
  moreover have "chunk_done ih blk (Raw d) rest v v2"
    using w' A by (simp add: chunk_done_def v2_def v1_def at_chunk_def next_header_def consume_def at_header_def)
  ultimately show ?thesis using l1 by metis
qed

lemma fill_chunk:
  assumes "at_header ih writer seeker v" and "v_input v = enc_chunk blk (Fill fv n) @ rest"
    and "chunk_ok blk (Fill fv n)" and "ih_blk_sz ih = of_nat blk" and "blk < 2 ^ 32"
    and "ih_chunk_hdr_sz ih = 12" and "v_chunks v + 1 \<le> ucast (ih_total_chunks ih)"
    and "ok (v_sink v)" and "pos (v_sink v) + n * blk \<le> length (img (v_sink v))"
    and "buffer \<noteq> 0" and "unat buffer + 1024 < 2 ^ 64"
  shows "\<exists>v'. unsparse_loop crc_on buffer v = unsparse_loop crc_on buffer v' \<and> chunk_done ih blk (Fill fv n) rest v v'"
proof -
  let ?h = "chunk_hdr 0xCAC2 n 16"
  have c: "length fv = 4" "n < 2 ^ 32" using assms(3) by simp_all
  have val: "tegrabl_sparse_validate_chunk_header ih ?h = TEGRABL_NO_ERROR"
    by (simp add: tegrabl_sparse_validate_chunk_header_def assms(6))
  define v1 where "v1 = at_chunk ?h (fv @ rest) v"
  have l1: "unsparse_loop crc_on buffer v = unsparse_loop crc_on buffer v1"
    unfolding v1_def using assms(2) by (intro header_step [OF assms(1) _ _ val assms(7)]) simp_all
  note A = assms(1) [unfolded at_header_def]
  have r: "unat (v_remaining v1) = n * blk"
    using remaining_bytes [OF assms(4,5) c(2)] A by (simp add: v1_def at_chunk_def)
  have f: "v_state v1 = 4" "v_input v1 = fv @ rest" "v_sink v1 = v_sink v" "v_offset v1 = 0" "v_error v1 = 0"
    "us_writer (v_us v1) = Some writer" "length (fill_value (v_us v1)) = 4"
    using A by (simp_all add: v1_def at_chunk_def)
  have pat: "concat (replicate 256 fv) = cycled fv 1024"
    using concat_replicate_cycled [of fv 256] c(1) by (cases fv) simp_all
  have "pos (v_sink v) + unat (v_remaining v1) \<le> length (img (v_sink v))" using assms(9) r by simp
  from fill_loop_writes [OF assms(8) this c(1) assms(10,11), of crc_on "v_crc v1"]
  obtain crc' w' where w': "fill_loop crc_on writer buffer (cycled fv 1024) (v_remaining v1) (v_crc v1)
      TEGRABL_NO_ERROR (v_sink v) = (TEGRABL_NO_ERROR, crc', w')" "ok w'" "pos w' = pos (v_sink v) + n * blk"
    "img w' = overwrite (pos (v_sink v)) (cycled fv (n * blk)) (img (v_sink v))"
    unfolding r by blast
  have m: "c_memcpy 0 fv (fill_value (v_us v1)) = Some fv" using f c(1) by (intro memcpy_whole) simp
  define v2 where "v2 = next_header 12 ((consume 4 (v1\<lparr>v_us := (v_us v1)\<lparr>fill_value := fv\<rparr>\<rparr>))
    \<lparr>v_sink := w', v_crc := crc', v_error := 0\<rparr>)"
  have "unsparse_loop crc_on buffer v1 = unsparse_loop crc_on buffer v2"
  proof (rule unsparse_loop_iterate)
    show "v_input v1 \<noteq> [] \<or> v_state v1 = 5" using c f by auto
    show "unsparse_step crc_on buffer v1 = Iterate v2"
      using w'(1) m by (simp add: unsparse_step_def step_fill_def f c Let_def v2_def consume_def pat)
  qed
  moreover have "chunk_done ih blk (Fill fv n) rest v v2"
    using w' A c(1)
    by (simp add: chunk_done_def v2_def v1_def at_chunk_def next_header_def consume_def at_header_def)
  ultimately show ?thesis using l1 by metis
qed

lemma skip_chunk:
  assumes "at_header ih writer seeker v" and "v_input v = enc_chunk blk (Skip n) @ rest"
    and "chunk_ok blk (Skip n)" and "ih_blk_sz ih = of_nat blk" and "blk < 2 ^ 32"
    and "ih_chunk_hdr_sz ih = 12" and "v_chunks v + 1 \<le> ucast (ih_total_chunks ih)"
    and "ok (v_sink v)" and "pos (v_sink v) + n * blk \<le> length (img (v_sink v))"
  shows "\<exists>v'. unsparse_loop crc_on buffer v = unsparse_loop crc_on buffer v' \<and> chunk_done ih blk (Skip n) rest v v'"
proof -
  let ?h = "chunk_hdr 0xCAC3 n 12"
  have c: "n < 2 ^ 32" using assms(3) by simp
  have val: "tegrabl_sparse_validate_chunk_header ih ?h = TEGRABL_NO_ERROR"
    by (simp add: tegrabl_sparse_validate_chunk_header_def assms(6))
  define v1 where "v1 = at_chunk ?h rest v"
  have l1: "unsparse_loop crc_on buffer v = unsparse_loop crc_on buffer v1"
    unfolding v1_def using assms(2) by (intro header_step [OF assms(1) _ _ val assms(7)]) simp_all
  note A = assms(1) [unfolded at_header_def]
  have r: "unat (v_remaining v1) = n * blk"
    using remaining_bytes [OF assms(4,5) c] A by (simp add: v1_def at_chunk_def)
  have f: "v_state v1 = 5" "v_input v1 = rest" "v_sink v1 = v_sink v" "us_seeker (v_us v1) = Some seeker"
    using A by (simp_all add: v1_def at_chunk_def)
  have "pos (v_sink v) + unat (v_remaining v1) \<le> length (img (v_sink v))" using assms(9) r by simp
  from seek_law [OF assms(8) this] obtain w' where w': "seeker (v_remaining v1) (v_sink v) = (TEGRABL_NO_ERROR, w')"
    "ok w'" "pos w' = pos (v_sink v) + n * blk" "img w' = img (v_sink v)"
    unfolding r by blast
  define v2 where "v2 = next_header 12 (v1\<lparr>v_sink := w', v_error := 0\<rparr>)"
  have "unsparse_loop crc_on buffer v1 = unsparse_loop crc_on buffer v2"
  proof (rule unsparse_loop_iterate)
    show "v_input v1 \<noteq> [] \<or> v_state v1 = 5" using f by simp
    show "unsparse_step crc_on buffer v1 = Iterate v2"
      using w'(1) by (simp add: unsparse_step_def step_dont_care_def f Let_def v2_def)
  qed
  moreover have "chunk_done ih blk (Skip n) rest v v2"
    using w' A by (simp add: chunk_done_def v2_def v1_def at_chunk_def next_header_def at_header_def)
  ultimately show ?thesis using l1 by metis
qed

lemma one_chunk:
  assumes "at_header ih writer seeker v" and "v_input v = enc_chunk blk c @ rest"
    and "chunk_ok blk c" and "ih_blk_sz ih = of_nat blk" and "blk < 2 ^ 32" and "0 < blk"
    and "ih_chunk_hdr_sz ih = 12" and "v_chunks v + 1 \<le> ucast (ih_total_chunks ih)"
    and "ok (v_sink v)" and "pos (v_sink v) + chunk_blocks blk c * blk \<le> length (img (v_sink v))"
    and "v_addr v \<noteq> 0" and "unat (v_addr v) + length (v_input v) < 2 ^ 64"
    and "buffer \<noteq> 0" and "unat buffer + 1024 < 2 ^ 64"
  shows "\<exists>v'. unsparse_loop crc_on buffer v = unsparse_loop crc_on buffer v' \<and> chunk_done ih blk c rest v v'"
proof (cases c)
  case (Raw d)
  have "pos (v_sink v) + length d \<le> length (img (v_sink v))"
    using assms(3,10) by (auto simp: Raw dvd_div_mult_self)
  with assms show ?thesis unfolding Raw by (intro raw_chunk)
next
  case (Fill fv n)
  have "pos (v_sink v) + n * blk \<le> length (img (v_sink v))" using assms(10) by (simp add: Fill)
  with assms show ?thesis unfolding Fill by (intro fill_chunk)
next
  case (Skip n)
  have "pos (v_sink v) + n * blk \<le> length (img (v_sink v))" using assms(10) by (simp add: Skip)
  with assms show ?thesis unfolding Skip by (intro skip_chunk)
qed

lemma all_chunks:
  assumes "at_header ih writer seeker v" and "v_input v = concat (map (enc_chunk blk) cs)"
    and "v_error v = TEGRABL_NO_ERROR"
    and "list_all (chunk_ok blk) cs" and "ih_blk_sz ih = of_nat blk" and "blk < 2 ^ 32" and "0 < blk"
    and "ih_chunk_hdr_sz ih = 12" and "unat (v_chunks v) + length cs \<le> unat (ih_total_chunks ih)"
    and "ok (v_sink v)"
    and "pos (v_sink v) + sum_list (map (chunk_blocks blk) cs) * blk \<le> length (img (v_sink v))"
    and "v_addr v \<noteq> 0" and "unat (v_addr v) + length (v_input v) < 2 ^ 64"
    and "buffer \<noteq> 0" and "unat buffer + 1024 < 2 ^ 64"
  shows "\<exists>v'. unsparse_loop crc_on buffer v = Some (Iterate v') \<and> v_error v' = TEGRABL_NO_ERROR \<and>
    ok (v_sink v') \<and>
    (pos (v_sink v'), img (v_sink v')) = fold (put_chunk blk) cs (pos (v_sink v), img (v_sink v))"
  using assms
proof (induction cs arbitrary: v)
  case Nil
  then have "unsparse_loop crc_on buffer v = Some (Iterate v)"
    by (intro unsparse_loop_end) (simp_all add: at_header_def)
  then show ?case using Nil by auto
next
  case (Cons c cs)
  let ?rest = "concat (map (enc_chunk blk) cs)"
  have inp: "v_input v = enc_chunk blk c @ ?rest" using Cons.prems(2) by simp
  have ch: "unat (v_chunks v + 1) = unat (v_chunks v) + 1"
    using Cons.prems(9) unat_u32_bound [of "ih_total_chunks ih"] by (simp add: unat_word_ariths)
  then have le: "v_chunks v + 1 \<le> ucast (ih_total_chunks ih)"
    using Cons.prems(9) by (simp add: word_le_nat_alt unat_ucast_up)
  have fits: "pos (v_sink v) + chunk_blocks blk c * blk \<le> length (img (v_sink v))"
    using Cons.prems(11) by (simp add: distrib_right)
  have "chunk_ok blk c" using Cons.prems(4) by simp
  from one_chunk [OF Cons.prems(1) inp this Cons.prems(5-8) le Cons.prems(10) fits Cons.prems(12-15), of crc_on]
  obtain v1 where v1: "unsparse_loop crc_on buffer v = unsparse_loop crc_on buffer v1"
    and d: "chunk_done ih blk c ?rest v v1" by blast
  note D = d [unfolded chunk_done_def]
  have ad: "unat (v_addr v1) = unat (v_addr v) + length (enc_chunk blk c)"
    using D Cons.prems(13) inp by (simp add: unat_word_ariths unat_of_nat)
  have len: "length (img (v_sink v1)) = length (img (v_sink v))"
    and p1: "pos (v_sink v1) = pos (v_sink v) + chunk_blocks blk c * blk"
    using D fits Cons.prems(4) by (cases c; simp add: dvd_div_mult_self)+
  have "\<exists>v'. unsparse_loop crc_on buffer v1 = Some (Iterate v') \<and> v_error v' = TEGRABL_NO_ERROR \<and>
      ok (v_sink v') \<and>
      (pos (v_sink v'), img (v_sink v')) = fold (put_chunk blk) cs (pos (v_sink v1), img (v_sink v1))"
  proof (rule Cons.IH)
    show "v_addr v1 \<noteq> 0" using ad Cons.prems(12) by (metis add_is_0 unat_eq_0)
    show "unat (v_addr v1) + length (v_input v1) < 2 ^ 64" using ad D Cons.prems(13) inp by simp
    show "pos (v_sink v1) + sum_list (map (chunk_blocks blk) cs) * blk \<le> length (img (v_sink v1))"
      using Cons.prems(11) len p1 by (simp add: distrib_right)
    show "unat (v_chunks v1) + length cs \<le> unat (ih_total_chunks ih)" using D ch Cons.prems(9) by simp
  qed (use D Cons.prems in auto)
  then show ?case using v1 D by simp
qed

end

context unsparse_sink
begin

lemma image_decoded:
  assumes "tegrabl_sparse_init_unsparse_state (Some s0) mx (Some writer) (Some seeker) = (TEGRABL_NO_ERROR, Some us)"
    and "list_all (chunk_ok blk) cs" and "0 < blk" and "blk < 2 ^ 32"
    and "length cs < 2 ^ 32" and "blocks = sum_list (map (chunk_blocks blk) cs)" and "blocks < 2 ^ 32"
    and "blocks * blk \<le> unat mx"
    and "ok w" and "pos w + blocks * blk \<le> length (img w)"
    and "addr \<noteq> 0" and "unat addr + length (sparse_image blk cs) < 2 ^ 64"
    and "buffer \<noteq> 0" and "unat buffer + 1024 < 2 ^ 64"
  shows "\<exists>us' w'. tegrabl_sparse_unsparse crc_on buffer (Some us) addr (sparse_image blk cs) w =
      Some (Returned TEGRABL_NO_ERROR (Some us') w') \<and> ok w' \<and>
      (pos w', img w') = fold (put_chunk blk) cs (pos w, img w)"
proof -
  let ?ih = "image_hdr blk blocks (length cs)" and ?body = "concat (map (enc_chunk blk) cs)"
  have img: "sparse_image blk cs = ?ih @ ?body" by (simp add: sparse_image_def assms(6))
  note us = init_fields [OF assms(1)]
  have val: "tegrabl_sparse_validate_header ?ih mx = TEGRABL_NO_ERROR"
  proof -
    have "unat (ucast (of_nat blk :: u32) * ucast (of_nat blocks :: u32) :: u64) = blocks * blk"
      using remaining_bytes [of ?ih blk blocks] assms(4,7) by (simp add: mult.commute)
    then show ?thesis using assms(8) by (simp add: tegrabl_sparse_validate_header_def word_less_nat_alt)
  qed
  define v1 where "v1 = after_image_header ?ih ?body us addr w"
  have l: "unsparse_loop crc_on buffer (unsparse_vars us addr (sparse_image blk cs) w) = unsparse_loop crc_on buffer v1"
    unfolding img v1_def by (rule image_header_step [OF assms(1) _ val]) simp
  note v1 = v1_def [unfolded after_image_header_def next_header_def unsparse_vars_def]
  have ad: "unat (addr + 28) = unat addr + 28" using assms(12) img by (simp add: unat_word_ariths)
  have a0: "addr + 28 \<noteq> 0" using ad by (metis add_is_0 unat_0 zero_neq_numeral)
  have "\<exists>v'. unsparse_loop crc_on buffer v1 = Some (Iterate v') \<and> v_error v' = TEGRABL_NO_ERROR \<and>
      ok (v_sink v') \<and>
      (pos (v_sink v'), img (v_sink v')) = fold (put_chunk blk) cs (pos (v_sink v1), img (v_sink v1))"
  proof (rule all_chunks [where ih = ?ih])
    show "at_header ?ih writer seeker v1"
      using us by (simp add: at_header_def v1)
    show "v_addr v1 \<noteq> 0" "unat (v_addr v1) + length (v_input v1) < 2 ^ 64"
      using ad a0 assms(12) img by (simp_all add: v1)
    show "unat (v_chunks v1) + length cs \<le> unat (ih_total_chunks ?ih)"
      using us assms(5) by (simp add: v1 unat_of_nat)
    show "pos (v_sink v1) + sum_list (map (chunk_blocks blk) cs) * blk \<le> length (img (v_sink v1))"
      using assms(6,10) by (simp add: v1)
  qed (use assms img in \<open>simp_all add: v1\<close>)
  then obtain v' where v': "unsparse_loop crc_on buffer v1 = Some (Iterate v')" "v_error v' = TEGRABL_NO_ERROR"
    "ok (v_sink v')" "(pos (v_sink v'), img (v_sink v')) = fold (put_chunk blk) cs (pos (v_sink v1), img (v_sink v1))"
    by blast
  have "v_sink v1 = w" by (simp add: v1)
  moreover have "sparse_image blk cs \<noteq> []" by (simp add: img flip: length_0_conv)
  ultimately show ?thesis
    using v' l assms(11) us by (simp add: tegrabl_sparse_unsparse_def)
qed

end

section \<open>The encoder\<close>

text \<open>The state after some chunks.\<close>

definition encodes :: "nat \<Rightarrow> chunk list \<Rightarrow> sparse_state \<Rightarrow> bool" where
  "encodes blk cs s \<longleftrightarrow>
     ss_buffer s = Some (sparse_image blk cs) \<and> unat (ss_buffer_size s) = length (sparse_image blk cs) \<and>
     list_all (chunk_ok blk) cs"

definition new_chunk :: "nat \<Rightarrow> u32 \<Rightarrow> bytes \<Rightarrow> u32 \<Rightarrow> chunk" where
  "new_chunk blk type data write_size =
     (let n = (unat write_size + blk - 1) div blk in
      if type = 0xCAC1 then Raw (data @ replicate (n * blk - length data) 0)
      else if type = 0xCAC2 then Fill data n else Skip n)"

lemma init_encodes:
  assumes "tegrabl_sparse_init True (Some s0) block_size = (TEGRABL_NO_ERROR, st)"
  shows "\<exists>s. st = Some s \<and> encodes (unat block_size) [] s"
proof -
  have z: "replicate 12 0 = le_bytes 4 (0 :: u32) @ le_bytes 4 (0 :: u32) @ le_bytes 4 (0 :: u32)"
    by (simp add: numeral_eq_Suc)
  show ?thesis
    using assms by (auto simp: tegrabl_sparse_init_def encodes_def sparse_image_def image_hdr_def z split: if_splits)
qed

lemma overwrite_app_left: "off + length x \<le> length a \<Longrightarrow> overwrite off x (a @ b) = overwrite off x a @ b"
  by (simp add: overwrite_def)

lemma overwrite_app_right: "length a \<le> off \<Longrightarrow> overwrite off x (a @ b) = a @ overwrite (off - length a) x b"
  by (simp add: overwrite_def)

lemma image_hdr_counts:
  "overwrite 20 (le_bytes 4 (of_nat m :: u32)) (overwrite 16 (le_bytes 4 (of_nat c :: u32)) (image_hdr k b n)) =
   image_hdr k c m"
  unfolding image_hdr_def
  by (simp add: overwrite_app_right overwrite_def)

lemma DIV_CEIL_nat:
  assumes "0 < blk" and "blk < 2 ^ 32" and "unat n + blk \<le> 2 ^ 32"
  shows "unat (DIV_CEIL n (of_nat blk)) = (unat n + blk - 1) div blk"
proof -
  define k where "k = unat n + blk - 1"
  have "n + of_nat blk - 1 = of_nat k"
    using assms(1) by (simp add: k_def of_nat_diff)
  moreover have "k < 2 ^ 32" using assms by (simp add: k_def)
  ultimately have "unat (n + of_nat blk - 1) = unat n + blk - 1"
    by (simp add: unat_of_nat k_def)
  then show ?thesis using assms by (simp add: DIV_CEIL_def unat_div unat_of_nat)
qed

lemma sparse_image_fields [simp]:
  "ih_chunk_hdr_sz (sparse_image blk cs) = 12" "ih_blk_sz (sparse_image blk cs) = of_nat blk"
  "ih_total_blks (sparse_image blk cs) = of_nat (sum_list (map (chunk_blocks blk) cs))"
  "ih_total_chunks (sparse_image blk cs) = of_nat (length cs)"
proof -
  have u: "u16_at 10 (h @ b) = u16_at 10 h" "u32_at 12 (h @ b) = u32_at 12 h"
    "u32_at 16 (h @ b) = u32_at 16 h" "u32_at 20 (h @ b) = u32_at 20 h" if "length h = 28" for h b
    using that by (simp_all add: u16_at_def u32_at_def subrange_def)
  note f = image_hdr_fields [unfolded ih_chunk_hdr_sz_def ih_blk_sz_def ih_total_blks_def ih_total_chunks_def]
  show "ih_chunk_hdr_sz (sparse_image blk cs) = 12" "ih_blk_sz (sparse_image blk cs) = of_nat blk"
    "ih_total_blks (sparse_image blk cs) = of_nat (sum_list (map (chunk_blocks blk) cs))"
    "ih_total_chunks (sparse_image blk cs) = of_nat (length cs)"
    by (simp_all add: sparse_image_def ih_chunk_hdr_sz_def ih_blk_sz_def ih_total_blks_def ih_total_chunks_def u f)
qed

text \<open>The bytes a successful call adds: the header, the data and zeros up to \<open>bsz\<close>.\<close>

lemma add_chunk_bytes:
  assumes "12 + length data \<le> bsz" and "h = chunk_hdr t (chunk_blocks blk c) bsz"
    and "enc_chunk blk c = h @ data @ replicate (bsz - 12 - length data) 0"
  shows "\<exists>b2. c_memcpy (length (sparse_image blk cs)) h (sparse_image blk cs @ replicate bsz 0) = Some b2 \<and>
    c_memcpy (length (sparse_image blk cs) + 12) data
      (overwrite 20 (le_bytes 4 (of_nat (length cs) + 1 :: u32))
        (overwrite 16 (le_bytes 4 (of_nat (sum_list (map (chunk_blocks blk) cs)) + of_nat (chunk_blocks blk c) :: u32)) b2)) =
    Some (sparse_image blk (cs @ [c]))"
proof -
  let ?b = "sparse_image blk cs" and ?body = "concat (map (enc_chunk blk) cs)"
  let ?n = "sum_list (map (chunk_blocks blk) cs)" and ?ih = "\<lambda>b n. image_hdr blk b n"
  let ?b2 = "?b @ h @ replicate (bsz - 12) 0"
  have lh: "length h = 12" by (simp add: assms(2))
  have "overwrite (length ?b) h (?b @ replicate bsz 0) = ?b2"
    using assms(1) lh by (simp add: overwrite_app_right overwrite_def)
  then have 1: "c_memcpy (length ?b) h (?b @ replicate bsz 0) = Some ?b2"
    using assms(1) lh by (simp add: c_memcpy_def)
  have hdr: "overwrite 20 (le_bytes 4 (of_nat (length cs) + 1 :: u32)) (overwrite 16 (le_bytes 4 (of_nat ?n + of_nat (chunk_blocks blk c) :: u32)) (?ih ?n (length cs))) =
      ?ih (?n + chunk_blocks blk c) (Suc (length cs))"
    using image_hdr_counts [of "Suc (length cs)" "?n + chunk_blocks blk c" blk ?n "length cs"]
    by (simp add: add.commute)
  have 2: "overwrite 20 (le_bytes 4 (of_nat (length cs) + 1 :: u32)) (overwrite 16 (le_bytes 4 (of_nat ?n + of_nat (chunk_blocks blk c) :: u32)) ?b2) =
      ?ih (?n + chunk_blocks blk c) (Suc (length cs)) @ ?body @ h @ replicate (bsz - 12) 0"
    by (simp add: sparse_image_def overwrite_app_left hdr)
  have "overwrite (length ?b + 12) data (?ih (?n + chunk_blocks blk c) (Suc (length cs)) @ ?body @ h @ replicate (bsz - 12) 0) =
      ?ih (?n + chunk_blocks blk c) (Suc (length cs)) @ ?body @ h @ data @ replicate (bsz - 12 - length data) 0"
    using lh assms(1) by (simp add: overwrite_app_right sparse_image_def) (simp add: overwrite_def)
  also have "\<dots> = sparse_image blk (cs @ [c])" by (simp add: sparse_image_def assms(3))
  finally have "c_memcpy (length ?b + 12) data (?ih (?n + chunk_blocks blk c) (Suc (length cs)) @ ?body @ h @ replicate (bsz - 12) 0) =
      Some (sparse_image blk (cs @ [c]))"
    using assms(1) lh by (simp add: c_memcpy_def sparse_image_def)
  then show ?thesis using 1 2 by simp
qed

lemma add_chunk_encodes:
  assumes "encodes blk cs s" and "0 < blk" and "blk < 2 ^ 32" and "type \<in> {0xCAC1, 0xCAC2, 0xCAC3}"
    and "n = (unat write_size + blk - 1) div blk" and "write_size \<noteq> 0" and "unat write_size + blk + 12 \<le> 2 ^ 32"
    and "length data = (if type = 0xCAC1 then unat write_size else if type = 0xCAC2 then 4 else 0)"
    and "length (sparse_image blk cs) + 2 ^ 33 < 2 ^ 64"
  shows "\<exists>s'. tegrabl_sparse_add_chunk True (Some s) type data (of_nat (length data)) write_size =
      Some (TEGRABL_NO_ERROR, Some s') \<and> encodes blk (cs @ [new_chunk blk type data write_size]) s'"
proof -
  let ?c = "new_chunk blk type data write_size" and ?b = "sparse_image blk cs"
  have E: "ss_buffer s = Some ?b" "unat (ss_buffer_size s) = length ?b" "list_all (chunk_ok blk) cs"
    using assms(1) by (simp_all add: encodes_def)
  have n: "unat (DIV_CEIL write_size (of_nat blk)) = n"
    using DIV_CEIL_nat [of blk write_size] assms(2,3,5,7) by simp
  have nb: "n * blk \<le> unat write_size + blk - 1" by (simp add: assms(5))
  have nl: "unat write_size \<le> n * blk"
  proof -
    have "unat write_size + blk - 1 < (n + 1) * blk"
      using assms(2) by (simp add: assms(5) dividend_less_div_times)
    then show ?thesis using assms(2) by (simp add: distrib_right)
  qed
  have ru: "unat (ROUND_UP write_size (of_nat blk)) = n * blk"
    using n nb assms(2,3,7) by (simp add: ROUND_UP_def unat_word_ariths unat_of_nat)
  define bsz where "bsz = 12 + (if type = 0xCAC1 then n * blk else if type = 0xCAC2 then 4 else 0 :: nat)"
  have nb': "12 + n * blk < 2 ^ 32" using nb assms(2,7) by simp
  then have small: "bsz < 2 ^ 32" by (simp add: bsz_def)
  have dsz: "unat (of_nat (length data) :: u32) = length data"
    using assms(8) unat_u32_bound [of write_size] by (simp add: unat_of_nat)
  have data_eq: "(of_nat (length data) :: u32) = write_size" if "type = 0xCAC1"
    using assms(8) that by simp
  have cb: "chunk_buffer_size ?b type (of_nat (length data)) write_size = Some (of_nat bsz)"
  proof -
    have "12 + ROUND_UP write_size (of_nat blk) = of_nat (12 + n * blk)"
      using ru by (metis of_nat_add of_nat_numeral of_nat_unat ucast_id)
    then show ?thesis
      using assms(4,8) data_eq by (auto simp: chunk_buffer_size_def Let_def bsz_def)
  qed
  have c: "?c = (if type = 0xCAC1 then Raw (data @ replicate (n * blk - length data) 0)
      else if type = 0xCAC2 then Fill data n else Skip n)"
    by (simp add: new_chunk_def assms(5) Let_def)
  have cblk: "chunk_blocks blk ?c = n"
    unfolding c using assms(2,4,8) nl by auto
  have sz_ok: "12 + length data \<le> bsz" using assms(4,8) nl by (auto simp: bsz_def)
  have enc: "enc_chunk blk ?c = chunk_hdr (ucast type) n bsz @ data @ replicate (bsz - 12 - length data) 0"
    unfolding c using assms(2,4,8) nl by (auto simp: bsz_def)
  have cok: "chunk_ok blk ?c"
  proof -
    have "n < 2 ^ 32" using nb' assms(2) by (auto intro: le_less_trans [of n "n * blk"])
    then show ?thesis
      unfolding c using assms(2,4,6,8) nl nb' by (auto simp: unat_eq_0)
  qed
  obtain b2 where b2: "c_memcpy (length ?b) (chunk_hdr (ucast type) n bsz) (?b @ replicate bsz 0) = Some b2"
    "c_memcpy (length ?b + 12) data (overwrite 20 (le_bytes 4 (of_nat (length cs) + 1 :: u32))
       (overwrite 16 (le_bytes 4 (of_nat (sum_list (map (chunk_blocks blk) cs)) + of_nat n :: u32)) b2)) =
     Some (sparse_image blk (cs @ [?c]))"
    using add_chunk_bytes [OF sz_ok refl, of blk ?c "ucast type" cs] enc cblk by auto
  have dc: "DIV_CEIL write_size (of_nat blk) = of_nat n" using n by (metis of_nat_unat ucast_id)
  have hb: "le_bytes 2 (ucast type :: u16) @ le_bytes 2 (0 :: u16) @ le_bytes 4 (of_nat n :: u32) @
      le_bytes 4 (of_nat bsz :: u32) = chunk_hdr (ucast type) n bsz"
    by (simp add: chunk_hdr_def)
  have b0: "ss_buffer_size s \<noteq> 0" "(of_nat blk :: u32) \<noteq> 0"
    using E(2) assms(2,3) by (auto simp: sparse_image_def word_unat_eq_iff unat_of_nat)
  have ub: "unat (of_nat bsz :: u32) = bsz" using small by (simp add: unat_of_nat)
  define s' where "s' = \<lparr>ss_buffer = Some (sparse_image blk (cs @ [?c])),
    ss_buffer_size = ss_buffer_size s + ucast (of_nat bsz :: u32),
    ss_image_size = ss_image_size s + ucast (ROUND_UP write_size (of_nat blk))\<rparr>"
  have "tegrabl_sparse_add_chunk True (Some s) type data (of_nat (length data)) write_size =
      Some (TEGRABL_NO_ERROR, Some s')"
    using b2 b0 assms(6) cb
    by (simp add: tegrabl_sparse_add_chunk_def E dc hb ub dsz Let_def s'_def)
  moreover have "length (sparse_image blk (cs @ [?c])) = length ?b + bsz"
    using enc sz_ok by (simp add: sparse_image_def)
  then have "encodes blk (cs @ [?c]) s'"
    using E(2,3) cok ub small assms(9)
    by (simp add: encodes_def s'_def unat_word_ariths unat_ucast_up)
  ultimately show ?thesis by blast
qed

section \<open>Termination\<close>

definition us_rank :: "'w us_vars \<Rightarrow> nat" where
  "us_rank v = (if v_state v = 1 \<and> v_remaining v = 0 then 4
     else if v_state v = 2 \<and> v_remaining v = 0 then 3
     else if v_state v \<in> {3, 4, 5, 6} then 2
     else if v_state v = 2 then 1 else 0)"

definition us_measure :: "'w us_vars \<Rightarrow> nat" where
  "us_measure v = 5 * length (v_input v) + us_rank v"

lemma us_rank_le: "us_rank v \<le> 4"
  by (simp add: us_rank_def)

lemma consumed_measure:
  "length (v_input v') < length (v_input v) \<Longrightarrow> us_measure v' < us_measure v"
  using us_rank_le [of v'] by (simp add: us_measure_def)

lemma validated_type:
  assumes "tegrabl_sparse_validate_chunk_header ih h = TEGRABL_NO_ERROR"
  shows "(ucast (ch_chunk_type h) :: u32) - 0xCAC1 + 3 \<in> {3, 4, 5, 6}"
proof -
  have "SPARSE_ERROR TEGRABL_ERR_INVALID 0 \<noteq> 0" by code_simp
  then have "ch_chunk_type h \<in> {0xCAC1, 0xCAC2, 0xCAC3, 0xCAC4}"
    using assms by (auto simp: tegrabl_sparse_validate_chunk_header_def split: if_splits)
  then show ?thesis by auto
qed

lemma min_pos: "v_input v \<noteq> [] \<Longrightarrow> v_remaining v \<noteq> 0 \<Longrightarrow> 0 < min (length (v_input v)) (unat (v_remaining v))"
  by (simp add: unat_gt_0)

lemma drop_less: "xs \<noteq> [] \<Longrightarrow> 0 < n \<Longrightarrow> length (drop n xs) < length xs"
  by (cases xs) auto

lemma step_decreases:
  assumes "unsparse_step True buffer v = Iterate v'" and "v_input v \<noteq> [] \<or> v_state v = 5"
  shows "us_measure v' < us_measure v"
proof -
  have hdr: "us_measure (next_header 12 u) < us_measure v"
    if "length (v_input u) \<le> length (v_input v)" "v_state v \<in> {3, 4, 5, 6}" for u :: "'a us_vars"
    using that by (auto simp: us_measure_def us_rank_def next_header_def)
  consider (ih) "v_state v = 1" | (ch) "v_state v = 2" | (raw) "v_state v = 3" | (fill) "v_state v = 4"
    | (dc) "v_state v = 5" | (crc) "v_state v = 6"
    using assms(1) by (auto simp: unsparse_step_def split: if_splits)
  then show ?thesis
  proof cases
    case ih
    then have ne: "v_input v \<noteq> []" using assms(2) by auto
    have s: "step_image_header v = Iterate v'" using assms(1) ih by (simp add: unsparse_step_def)
    show ?thesis
    proof (cases "v_remaining v = 0")
      case True
      then show ?thesis
        using s ih by (auto simp: step_image_header_def Let_def consume_def next_header_def us_measure_def us_rank_def
            split: option.splits if_splits)
    next
      case False
      have "length (v_input v') < length (v_input v)"
        using s drop_less [OF ne min_pos [OF ne False]]
        by (auto simp: step_image_header_def Let_def consume_def next_header_def split: option.splits if_splits)
      then show ?thesis by (rule consumed_measure)
    qed
  next
    case ch
    then have ne: "v_input v \<noteq> []" using assms(2) by auto
    have s: "step_chunk_header v = Iterate v'" using assms(1) ch by (simp add: unsparse_step_def)
    show ?thesis
    proof (cases "v_remaining v = 0")
      case True
      then have "v_state v' \<in> {3, 4, 5, 6} \<and> v_input v' = v_input v"
        using s by (auto simp: step_chunk_header_def Let_def consume_def split: option.splits if_splits
            dest: validated_type)
      then have "us_rank v' = 2" "v_input v' = v_input v" by (auto simp: us_rank_def)
      then show ?thesis using ch True by (simp add: us_measure_def us_rank_def)
    next
      case False
      have "length (v_input v') < length (v_input v)"
        using s drop_less [OF ne min_pos [OF ne False]]
        by (auto simp: step_chunk_header_def Let_def consume_def split: option.splits if_splits)
      then show ?thesis by (rule consumed_measure)
    qed
  next
    case raw
    then have ne: "v_input v \<noteq> []" using assms(2) by auto
    have s: "step_raw True v = Iterate v'" using assms(1) raw by (simp add: unsparse_step_def)
    show ?thesis
    proof (cases "v_remaining v = 0")
      case True
      then show ?thesis
        using s raw by (auto simp: step_raw_def Let_def consume_def split: prod.splits if_splits intro!: hdr)
    next
      case False
      have "length (v_input v') < length (v_input v)"
        using s drop_less [OF ne min_pos [OF ne False]]
        by (auto simp: step_raw_def Let_def consume_def next_header_def split: prod.splits if_splits)
      then show ?thesis by (rule consumed_measure)
    qed
  next
    case fill
    then have ne: "v_input v \<noteq> []" using assms(2) by auto
    have s: "step_fill True buffer v = Iterate v'" using assms(1) fill by (simp add: unsparse_step_def)
    show ?thesis
    proof (cases "v_offset v < 4")
      case True
      have "length (v_input v') < length (v_input v)"
        using s ne True drop_less [OF ne, of "min (length (v_input v)) 4"]
        by (auto simp: step_fill_def Let_def consume_def next_header_def o_def
            split: prod.splits if_splits option.splits)
      then show ?thesis by (rule consumed_measure)
    next
      case False
      then show ?thesis
        using s fill by (auto simp: step_fill_def Let_def split: prod.splits if_splits intro!: hdr)
    qed
  next
    case dc
    have s: "step_dont_care v = Iterate v'" using assms(1) dc by (simp add: unsparse_step_def)
    then show ?thesis
      using dc by (auto simp: step_dont_care_def Let_def split: prod.splits if_splits intro!: hdr)
  next
    case crc
    then have ne: "v_input v \<noteq> []" using assms(2) by auto
    have s: "step_crc True v = Iterate v'" using assms(1) crc by (simp add: unsparse_step_def)
    show ?thesis
    proof (cases "v_offset v < 4")
      case True
      have "length (v_input v') < length (v_input v)"
        using s ne True drop_less [OF ne, of "min (length (v_input v)) 4"]
        by (auto simp: step_crc_def Let_def consume_def split: option.splits if_splits)
      then show ?thesis by (rule consumed_measure)
    next
      case False
      then show ?thesis using s crc by (auto simp: step_crc_def Let_def split: if_splits intro!: hdr)
    qed
  qed
qed

lemma unsparse_loop_total: "\<exists>r. unsparse_loop True buffer v = Some r"
proof (induction "us_measure v" arbitrary: v rule: less_induct)
  case less
  show ?case
  proof (cases "v_input v \<noteq> [] \<or> v_state v = 5")
    case False
    then show ?thesis by (subst unsparse_loop.simps) auto
  next
    case True
    then show ?thesis
      using less step_decreases [OF _ True, of buffer]
      by (subst unsparse_loop.simps) (auto split: us_step.splits)
  qed
qed

lemma crc_state_hangs:
  assumes "v_state v = 6" and "v_input v \<noteq> []"
  shows "unsparse_loop False buffer v = None"
proof -
  have "c \<or> \<not> (v_state v = 6 \<and> v_input v \<noteq> [])" if "unsparse_loop c b v = Some r" for c b r and v :: "'a us_vars"
  proof (rule unsparse_loop.raw_induct [OF _ that, where P = "\<lambda>c _ v _. c \<or> \<not> (v_state v = 6 \<and> v_input v \<noteq> [])"])
    fix f :: "bool \<Rightarrow> u64 \<Rightarrow> 'a us_vars \<Rightarrow> 'a us_step option" and c b v r
    assume IH: "\<And>c b v r. f c b v = Some r \<Longrightarrow> c \<or> \<not> (v_state v = 6 \<and> v_input v \<noteq> [])"
    assume run: "(if v_input v = [] \<and> v_state v \<noteq> 5 then Some (Iterate v)
      else case unsparse_step c b v of Iterate v \<Rightarrow> f c b v | Goto_fail v \<Rightarrow> Some (Goto_fail v)
        | Mem_overrun \<Rightarrow> Some Mem_overrun) = Some r"
    have "f c b v = Some r" if "\<not> c" "v_state v = 6" "v_input v \<noteq> []"
      using run that by (simp add: unsparse_step_def step_crc_def)
    then show "c \<or> \<not> (v_state v = 6 \<and> v_input v \<noteq> [])" using IH by blast
  qed
  then show ?thesis using assms by (cases "unsparse_loop False buffer v") auto
qed

section \<open>Memory safety\<close>

text \<open>An invariant of decoding one buffer once the image header is complete: the next copy fits its
  struct.\<close>

definition us_safe :: "'w us_vars \<Rightarrow> bool" where
  "us_safe v \<longleftrightarrow>
     v_state v \<noteq> 1 \<and> length (chunk_header (v_us v)) = 12 \<and>
     length (fill_value (v_us v)) = 4 \<and> length (image_crc (v_us v)) = 4 \<and>
     (v_state v = 2 \<longrightarrow> unat (v_offset v) + unat (v_remaining v) \<le> 12) \<and>
     (v_state v \<in> {4, 6} \<longrightarrow> v_input v = [] \<or> v_offset v = 0 \<or> 4 \<le> v_offset v)"

lemma next_header_safe:
  "length (fill_value (v_us v)) = 4 \<Longrightarrow> length (image_crc (v_us v)) = 4 \<Longrightarrow> us_safe (next_header 12 v)"
  by (simp add: us_safe_def next_header_def)

lemma unat_advance:
  "n \<le> unat (r :: u64) \<Longrightarrow> unat (r - of_nat n) = unat r - n"
  "unat (r :: u64) + n < 2 ^ 64 \<Longrightarrow> unat (r + of_nat n) = unat r + n"
proof -
  assume n: "n \<le> unat r"
  have "n < 2 ^ 64" using n unat_u64_bound [of r] by simp
  then have u: "unat (of_nat n :: u64) = n" by (simp add: unat_of_nat)
  then have "of_nat n \<le> r" using n by (simp add: word_le_nat_alt)
  then show "unat (r - of_nat n) = unat r - n" using unat_diff u by metis
next
  assume "unat r + n < 2 ^ 64"
  then show "unat (r + of_nat n) = unat r + n" by (simp add: unat_word_ariths unat_of_nat)
qed

definition step_safe :: "'w us_step \<Rightarrow> bool" where
  "step_safe r \<longleftrightarrow> (case r of Iterate v \<Rightarrow> us_safe v | Goto_fail _ \<Rightarrow> True | Mem_overrun \<Rightarrow> False)"

lemma step_safe_simps [simp]: "step_safe (Iterate v) = us_safe v" "step_safe (Goto_fail v)" "\<not> step_safe Mem_overrun"
  by (simp_all add: step_safe_def)

lemma chunk_header_safe:
  assumes "us_safe v" and "v_state v = 2"
  shows "step_safe (step_chunk_header v)"
proof -
  let ?sz = "min (length (v_input v)) (unat (v_remaining v))"
  have b: "unat (v_offset v) + unat (v_remaining v) \<le> 12" "length (chunk_header (v_us v)) = 12"
    "length (fill_value (v_us v)) = 4" "length (image_crc (v_us v)) = 4"
    using assms by (simp_all add: us_safe_def)
  obtain h where h: "(if v_offset v < of_nat 12
      then c_memcpy (unat (v_offset v)) (take ?sz (v_input v)) (chunk_header (v_us v))
      else Some (chunk_header (v_us v))) = Some h" "length h = 12"
  proof -
    have "unat (v_offset v) + ?sz \<le> 12" using b(1) by simp
    then show ?thesis
      using b(2) that [of "if v_offset v < of_nat 12
        then overwrite (unat (v_offset v)) (take ?sz (v_input v)) (chunk_header (v_us v)) else chunk_header (v_us v)"]
      by (simp add: c_memcpy_def split: if_splits)
  qed
  have r: "unat (v_remaining v - of_nat ?sz) = unat (v_remaining v) - ?sz"
    "unat (v_offset v + of_nat ?sz) = unat (v_offset v) + ?sz"
    using b by (auto intro!: unat_advance)
  show ?thesis
    unfolding step_chunk_header_def Let_def h(1) option.case
    using b h(2) r assms(2) validated_type [of "image_header (v_us v)" h]
    by (auto simp: us_safe_def consume_def)
qed

lemma unsparse_step_safe:
  assumes "us_safe v" and "v_input v \<noteq> [] \<or> v_state v = 5"
  shows "step_safe (unsparse_step crc_on buffer v)"
proof -
  have b: "v_state v \<noteq> 1" "length (chunk_header (v_us v)) = 12"
    "length (fill_value (v_us v)) = 4" "length (image_crc (v_us v)) = 4"
    and z: "v_state v \<in> {4, 6} \<Longrightarrow> v_offset v < 4 \<Longrightarrow> v_offset v = 0"
    using assms by (auto simp: us_safe_def)
  have raw: "step_safe (step_raw crc_on v)" if "v_state v = 3"
    using b that by (auto simp: step_raw_def Let_def consume_def us_safe_def next_header_def split: prod.splits)
  have fill: "step_safe (step_fill crc_on buffer v)" if "v_state v = 4"
  proof (cases "v_offset v < 4")
    case True
    then have "v_offset v = 0" using z that by simp
    moreover have "unat (of_nat (min (length (v_input v)) 4) :: u64) = min (length (v_input v)) 4"
      by (simp add: unat_of_nat)
    ultimately show ?thesis
      using b that
      by (auto simp: step_fill_def Let_def consume_def c_memcpy_def us_safe_def next_header_def word_less_nat_alt
          split: prod.splits)
  next
    case False
    then show ?thesis
      using b by (auto simp: step_fill_def Let_def us_safe_def next_header_def split: prod.splits)
  qed
  have dc: "step_safe (step_dont_care v)"
    using b by (auto simp: step_dont_care_def Let_def us_safe_def next_header_def split: prod.splits)
  have crc: "step_safe (step_crc crc_on v)" if "v_state v = 6"
  proof (cases "v_offset v < 4")
    case True
    then have "v_offset v = 0" using z that by simp
    moreover have "unat (of_nat (min (length (v_input v)) 4) :: u64) = min (length (v_input v)) 4"
      by (simp add: unat_of_nat)
    ultimately show ?thesis
      using b that assms(1)
      by (auto simp: step_crc_def Let_def consume_def c_memcpy_def us_safe_def word_le_nat_alt)
  next
    case False
    then show ?thesis using b assms(1) by (auto simp: step_crc_def Let_def us_safe_def next_header_def)
  qed
  show ?thesis
    using raw fill dc crc chunk_header_safe [OF assms(1)] b(1) by (simp add: unsparse_step_def)
qed

lemma unsparse_loop_safe:
  assumes "unsparse_loop crc_on buffer v = Some r" and "us_safe v"
  shows "r \<noteq> Mem_overrun"
proof -
  have "us_safe v \<longrightarrow> r \<noteq> Mem_overrun"
  proof (rule unsparse_loop.raw_induct [OF _ assms(1), where P = "\<lambda>_ _ v r. us_safe v \<longrightarrow> r \<noteq> Mem_overrun"])
    fix f :: "bool \<Rightarrow> u64 \<Rightarrow> 'a us_vars \<Rightarrow> 'a us_step option" and c b v r
    assume IH: "\<And>c b v r. f c b v = Some r \<Longrightarrow> us_safe v \<longrightarrow> r \<noteq> Mem_overrun"
    assume run: "(if v_input v = [] \<and> v_state v \<noteq> 5 then Some (Iterate v)
      else case unsparse_step c b v of Iterate v \<Rightarrow> f c b v | Goto_fail v \<Rightarrow> Some (Goto_fail v)
        | Mem_overrun \<Rightarrow> Some Mem_overrun) = Some r"
    show "us_safe v \<longrightarrow> r \<noteq> Mem_overrun"
    proof
      assume safe: "us_safe v"
      show "r \<noteq> Mem_overrun"
      proof (cases "v_input v \<noteq> [] \<or> v_state v = 5")
        case True
        then show ?thesis
          using unsparse_step_safe [OF safe True, of c b] run IH
          by (cases "unsparse_step c b v") (auto split: if_splits)
      qed (use run in auto)
    qed
  qed
  then show ?thesis using assms(2) by simp
qed

end
