(* ===== verification/Fastboot_Correct.thy ===== *)
theory Fastboot_Correct
  imports Fastboot Sparse_Correct Partition_Correct
begin

text \<open>
  Facts about the fastboot protocol: a partition is a sink in the sense of the sparse decoder's
  contract, a locked device keeps its storage through every command, what the flash command does, and
  which names reach which partitions.
\<close>

section \<open>A partition as the sink of the sparse decoder\<close>

definition sink_ok :: "('d \<Rightarrow> bytes) \<Rightarrow> alloc_env \<Rightarrow> tegrabl_partition_info \<Rightarrow> nat \<Rightarrow> 'd part_sink \<Rightarrow> bool" where
  "sink_ok contents alloc info a w \<longleftrightarrow>
     (\<exists>off. fst w = part_handle info a off \<and> unat off \<le> unat (total_size info)) \<and>
     part_live contents alloc info a (snd w) \<and> unat (total_size info) < 2 ^ 63"

definition sink_pos :: "'d part_sink \<Rightarrow> nat" where
  "sink_pos w = unat (part_offset (fst w))"

definition sink_img :: "('d \<Rightarrow> bytes) \<Rightarrow> tegrabl_partition_info \<Rightarrow> nat \<Rightarrow> 'd part_sink \<Rightarrow> bytes" where
  "sink_img contents info a w = part_img contents info a (snd w)"

lemma sink_img_length: "sink_ok contents alloc info a w \<Longrightarrow> length (sink_img contents info a w) = unat (total_size info)"
  by (simp add: sink_ok_def sink_img_def part_live_def part_img_length)

lemma sink_write:
  assumes "sink_ok contents alloc info a w" and "addr \<noteq> 0" and "unat addr + length d < 2 ^ 64" and "d \<noteq> []"
    and "sink_pos w + length d \<le> length (sink_img contents info a w)"
  shows "\<exists>w'. tegrabl_fastboot_partition_write alloc addr d w = (TEGRABL_NO_ERROR, w') \<and>
    sink_ok contents alloc info a w' \<and> sink_pos w' = sink_pos w + length d \<and>
    sink_img contents info a w' = overwrite (sink_pos w) d (sink_img contents info a w)"
proof -
  obtain off where off: "fst w = part_handle info a off" "unat off \<le> unat (total_size info)"
    and live: "part_live contents alloc info a (snd w)" and small: "unat (total_size info) < 2 ^ 63"
    using assms(1) by (auto simp: sink_ok_def)
  let ?n = "of_nat (length d) :: u64"
  have fit: "unat off + length d \<le> unat (total_size info)"
    using assms(5) sink_img_length [OF assms(1)] off(1) by (simp add: sink_pos_def part_handle_def)
  then have n: "unat ?n = length d" using small by (simp add: unat_of_nat)
  have n0: "?n \<noteq> 0" using n assms(4) by (metis length_0_conv unat_0)
  obtain s' where s': "tegrabl_partition_write alloc (part_handle info a off) addr d ?n (snd w) =
      ((TEGRABL_NO_ERROR, part_handle info a (off + ?n)), s')" "part_live contents alloc info a s'"
    "part_img contents info a s' = overwrite (unat off) d (part_img contents info a (snd w))"
    by (rule part_write_succeeds [OF live assms(2) _ n0]) (use n assms(3) fit in simp_all)
  have u: "unat (off + ?n) = unat off + length d"
    using n fit small by (simp add: unat_word_ariths)
  show ?thesis
    using s' off u fit small
    by (auto simp: tegrabl_fastboot_partition_write_def sink_ok_def sink_pos_def sink_img_def part_handle_def
        split: prod.split)
qed

lemma sink_seek:
  assumes "sink_ok contents alloc info a w" and "sink_pos w + unat n \<le> length (sink_img contents info a w)"
  shows "\<exists>w'. tegrabl_fastboot_partition_seek n w = (TEGRABL_NO_ERROR, w') \<and>
    sink_ok contents alloc info a w' \<and> sink_pos w' = sink_pos w + unat n \<and>
    sink_img contents info a w' = sink_img contents info a w"
proof -
  obtain off where off: "fst w = part_handle info a off" "unat off \<le> unat (total_size info)"
    and live: "part_live contents alloc info a (snd w)" and small: "unat (total_size info) < 2 ^ 63"
    using assms(1) by (auto simp: sink_ok_def)
  have fit: "unat off + unat n \<le> unat (total_size info)"
    using assms(2) sink_img_length [OF assms(1)] off(1) by (simp add: sink_pos_def part_handle_def)
  then have u: "unat (off + n) = unat off + unat n" using small by (simp add: unat_word_ariths)
  then have "\<not> sint (off + n) < 0" "\<not> total_size info < off + n"
    using fit small by (simp_all add: sint_u64 word_less_nat_alt not_less)
  then have "tegrabl_partition_seek (Some (part_handle info a off)) n 1 = (TEGRABL_NO_ERROR, Some (part_handle info a (off + n)))"
    by (simp add: tegrabl_partition_seek_def part_handle_def handle_parts_def Let_def)
  then show ?thesis
    using off u fit live small
    by (auto simp: tegrabl_fastboot_partition_seek_def sink_ok_def sink_pos_def sink_img_def part_handle_def
        split: prod.split)
qed

interpretation part_sink: unsparse_sink "tegrabl_fastboot_partition_write alloc" tegrabl_fastboot_partition_seek
  "sink_ok contents alloc info a" sink_pos "sink_img contents info a"
  for contents alloc info a
  by unfold_locales (fact sink_write, fact sink_seek)

section \<open>Locked devices\<close>

definition locked :: "('d, 'p) fb_ops \<Rightarrow> 'p \<Rightarrow> bool" where
  "locked fo p \<longleftrightarrow> (case op_is_device_unlocked fo of None \<Rightarrow> True | Some f \<Rightarrow> \<not> f p)"

text \<open>What is expected of the platform: sending a response does not unlock the device, and neither does
  locking it.\<close>

definition lock_law :: "('d, 'p) fb_ops \<Rightarrow> bool" where
  "lock_law fo \<longleftrightarrow>
     (\<forall>x p. locked fo p \<longrightarrow> locked fo (snd (op_usbf_send fo x p))) \<and>
     (\<forall>g p. op_change_device_state fo = Some g \<longrightarrow> locked fo p \<longrightarrow> locked fo (snd (g FASTBOOT_LOCK p)))"

definition kept :: "('d, 'p) fb_ops \<Rightarrow> ('d, 'p) fb_state \<Rightarrow> ('d, 'p) fb_state \<Rightarrow> bool" where
  "kept fo s s' \<longleftrightarrow> fb_pm s' = fb_pm s \<and> download_base s' = download_base s \<and>
     (locked fo (platform s) \<longrightarrow> locked fo (platform s'))"

fun result_kept :: "('d, 'p) fb_ops \<Rightarrow> ('d, 'p) fb_state \<Rightarrow> ('d, 'p) fb_result \<Rightarrow> bool" where
  "result_kept fo s (Fb_done s') = kept fo s s'"
| "result_kept fo s (Fb_gone s') = kept fo s s'"
| "result_kept fo s Fb_stuck = True"
| "result_kept fo s Fb_corrupt = True"

lemma kept_refl [simp]: "kept fo s s"
  by (simp add: kept_def)

lemma kept_trans: "kept fo s s' \<Longrightarrow> kept fo s' s'' \<Longrightarrow> kept fo s s''"
  by (simp add: kept_def)

lemma kept_fields [simp]:
  "kept fo s (s'\<lparr>fastboot_state := x\<rparr>) = kept fo s s'" "kept fo (s\<lparr>fastboot_state := x\<rparr>) s' = kept fo s s'"
  by (simp_all add: kept_def)

lemma ack_kept: "lock_law fo \<Longrightarrow> kept fo s (fastboot_ack fo code reason s)"
  by (simp add: kept_def fastboot_ack_def Let_def lock_law_def)

lemma fail_okay_kept:
  "lock_law fo \<Longrightarrow> kept fo s s' \<Longrightarrow> kept fo s (fastboot_fail fo r s')"
  "lock_law fo \<Longrightarrow> kept fo s s' \<Longrightarrow> kept fo s (fastboot_okay fo i s')"
  unfolding fastboot_fail_def fastboot_okay_def by (blast intro: kept_trans ack_kept)+

lemma lock_cmd_kept:
  "lock_law fo \<Longrightarrow> kept fo s (snd (tegrabl_change_device_state fo FASTBOOT_LOCK s))"
  by (auto simp: tegrabl_change_device_state_def kept_def lock_law_def split: option.splits prod.splits)
    (metis snd_conv)+

lemma unless_locked_kept:
  "lock_law fo \<Longrightarrow> locked fo (platform s) \<Longrightarrow> result_kept fo s (unless_locked fo s r)"
  by (auto simp: unless_locked_def tegrabl_is_device_unlocked_def locked_def split: option.splits
      intro!: fail_okay_kept)

lemma info_vars_kept: "lock_law fo \<Longrightarrow> info_vars fo vs s = Some s' \<Longrightarrow> kept fo s s'"
proof (induction vs arbitrary: s)
  case (Cons v vs)
  then obtain s1 where 1: "info_var fo v s = Some s1" "info_vars fo vs s1 = Some s'"
    by (auto split: Option.bind_splits)
  have "kept fo s s1" using 1(1) ack_kept [OF Cons.prems(1)] by (auto simp: info_var_def split: Option.bind_splits)
  then show ?case using Cons.IH [OF Cons.prems(1) 1(2)] by (blast intro: kept_trans)
qed simp

lemma info_slot_vars_kept: "lock_law fo \<Longrightarrow> info_slot_vars fo vs s = Some s' \<Longrightarrow> kept fo s s'"
proof (induction vs arbitrary: s)
  case (Cons vj vs)
  obtain v j where vj: "vj = (v, j)" by (cases vj)
  show ?case
  proof (cases "snd (tegrabl_get_slot_suffix fo (of_nat j) (platform s))")
    case None
    then show ?thesis using Cons by (auto simp: vj split: prod.splits)
  next
    case (Some suf)
    then obtain s1 where 1: "info_var fo (COPY_RESPONSE (c_lit v) [] @ suf) s = Some s1" "info_slot_vars fo vs s1 = Some s'"
      using Cons.prems(2) by (auto simp: vj split: prod.splits Option.bind_splits)
    have "kept fo s s1" using 1(1) ack_kept [OF Cons.prems(1)] by (auto simp: info_var_def split: Option.bind_splits)
    then show ?thesis using Cons.IH [OF Cons.prems(1) 1(2)] by (blast intro: kept_trans)
  qed
qed simp

lemma getvar_kept:
  assumes "lock_law fo"
  shows "result_kept fo s (cmd_getvar fo arg s)"
proof -
  note ok = fail_okay_kept(2) [OF assms]
  have "kept fo s s'" if "info_vars fo fastboot_var_list s = Some s1" "info_vars fo fastboot_partition_vars s1 = Some s2"
    "(case tegrabl_get_slot_num fo (platform s2) of (_, None) \<Rightarrow> Some s2
      | (_, Some n) \<Rightarrow> do { s \<leftarrow> info_slot_vars fo (vs n) s2; Some (fastboot_okay fo [] s) }) = Some s'" for s1 s2 s' vs
  proof -
    have k: "kept fo s s2"
      using info_vars_kept [OF assms that(1)] info_vars_kept [OF assms that(2)] by (rule kept_trans)
    moreover have "kept fo s2 s'"
      using that(3) info_slot_vars_kept [OF assms] ok
      by (auto split: prod.splits option.splits Option.bind_splits)
    ultimately show ?thesis by (rule kept_trans)
  qed
  then show ?thesis
    using ok [OF kept_refl]
    by (auto simp: cmd_getvar_def split: option.splits if_splits Option.bind_splits)
qed

definition unlock_command :: "bytes \<Rightarrow> bool" where
  "unlock_command b \<longleftrightarrow> take 10 b = c_lit ''oem unlock'' \<or> take 15 b = c_lit ''flashing unlock''"

lemma oem_kept:
  "lock_law fo \<Longrightarrow> \<not> IS_VAR_TYPE arg ''unlock'' \<Longrightarrow> result_kept fo s (cmd_oem fo arg s)"
  using lock_cmd_kept [of fo s]
  by (auto simp: cmd_oem_def tegrabl_fastboot_oem_handler_def Let_def split: sum.splits prod.splits if_splits option.splits
      intro!: fail_okay_kept ack_kept)

lemma flashing_kept:
  "lock_law fo \<Longrightarrow> \<not> IS_VAR_TYPE arg ''unlock'' \<Longrightarrow> result_kept fo s (cmd_flashing fo arg s)"
  by (auto simp: cmd_flashing_def Let_def intro!: fail_okay_kept lock_cmd_kept)

lemma download_kept:
  "lock_law fo \<Longrightarrow> locked fo (platform s) \<Longrightarrow> result_kept fo s (cmd_download fo cfg arg s)"
  unfolding cmd_download_def Let_def [of "hex2uint32_t arg"] by (rule unless_locked_kept)

lemma handle_kept:
  assumes "lock_law fo" and "locked fo (platform s)"
    and "c \<in> {Oem, Flashing} \<Longrightarrow> \<not> IS_VAR_TYPE arg ''unlock''"
  shows "result_kept fo s (handle fo cfg c arg s)"
  using assms
  by (cases c) (auto simp: cmd_erase_def cmd_flash_def cmd_boot_def cmd_set_active_slot_def
      intro!: getvar_kept oem_kept flashing_kept download_kept unless_locked_kept fail_okay_kept)

lemma prefix_arg: "take n b = p \<Longrightarrow> length p = n \<Longrightarrow> take m (drop n b) = q \<Longrightarrow> take (n + m) b = p @ q"
  by (simp add: take_add)

lemma command_kept:
  assumes "lock_law fo" and "locked fo (platform s)" and "\<not> unlock_command b"
    and "fastboot_command fo cfg b s = (ret, r)"
  shows "result_kept fo s r"
proof -
  define s1 where "s1 = (if cmdlist s = [] then s else s\<lparr>fastboot_state := STATE_COMMAND\<rparr>)"
  have s1: "kept fo s s1" "kept fo s1 s" "locked fo (platform s1)" using assms(2) by (simp_all add: s1_def)
  show ?thesis
  proof (cases "find (\<lambda>c. take (length (cmd_prefix c)) b = cmd_prefix c) (cmdlist s1)")
    case None
    then have "r = Fb_done (fastboot_fail fo ''unknown command'' s1)"
      using assms(4) by (simp add: fastboot_command_def Let_def flip: s1_def)
    then show ?thesis using fail_okay_kept(1) [OF assms(1) s1(1)] by simp
  next
    case (Some c)
    let ?arg = "drop (length (cmd_prefix c)) b"
    have p: "take (length (cmd_prefix c)) b = cmd_prefix c"
      using Some by (auto simp: find_Some_iff)
    have nu: "\<not> IS_VAR_TYPE ?arg ''unlock''" if "c \<in> {Oem, Flashing}"
    proof
      assume u: "IS_VAR_TYPE ?arg ''unlock''"
      have "unlock_command b"
        using that p prefix_arg [OF p refl u [unfolded IS_VAR_TYPE_def]]
        by (auto simp: unlock_command_def c_lit_def numeral_eq_Suc)
      then show False using assms(3) by simp
    qed
    define hr where "hr = handle fo cfg c ?arg s1"
    have h: "result_kept fo s1 hr"
      unfolding hr_def by (rule handle_kept [OF assms(1) s1(3) nu])
    have "result_kept fo s1 r"
      using assms(4) Some h fail_okay_kept(1) [OF assms(1)]
      by (cases hr) (auto simp: fastboot_command_def Let_def s1_def [symmetric] hr_def [symmetric] split: if_splits)
    then show ?thesis using s1(1) by (cases r) (auto intro: kept_trans)
  qed
qed

lemma loop_kept:
  assumes "lock_law fo" and "locked fo (platform s)" and "list_all (\<lambda>b. \<not> unlock_command (cstr (take 64 b))) bs"
  shows "result_kept fo s (snd (command_loop fo cfg bs s))"
  using assms(2,3)
proof (induction bs arbitrary: s)
  case (Cons b bs)
  obtain ret r where r: "fastboot_command fo cfg (cstr (take 64 b)) s = (ret, r)" by (metis surj_pair)
  have k: "result_kept fo s r"
    using command_kept [OF assms(1) Cons.prems(1) _ r] Cons.prems(2) by simp
  have "result_kept fo s (snd (command_loop fo cfg bs s'))" if "r = Fb_done s'" for s'
  proof -
    have s': "kept fo s s'" using k that by simp
    then have "result_kept fo s' (snd (command_loop fo cfg bs s'))"
      using Cons by (simp add: kept_def)
    then show ?thesis
      using s' by (cases "snd (command_loop fo cfg bs s')") (auto intro: kept_trans)
  qed
  then show ?case using r k by (auto split: bool.splits fb_result.splits)
qed simp

section \<open>Flashing\<close>

lemma unless_unlocked:
  "\<not> locked fo (platform s) \<Longrightarrow> unless_locked fo s r = r"
  by (auto simp: unless_locked_def tegrabl_is_device_unlocked_def locked_def split: option.splits)

lemma sparse_image_checked: "tegrabl_sparse_image_check (sparse_image blk cs)"
proof -
  have "u32_at 0 (image_hdr k b n @ x) = ih_magic (image_hdr k b n)" for k b n x
    by (simp add: ih_magic_def u32_at_def subrange_def)
  then show ?thesis by (simp add: tegrabl_sparse_image_check_def sparse_image_def)
qed

lemma flash_sparse_image:
  fixes s :: "('d, 'p) fb_state"
  assumes "part_live contents (cfg_alloc cfg) info a (fb_pm s)" and "total_size info \<noteq> 0"
    and "unat (total_size info) < 2 ^ 63"
    and "list_all (chunk_ok blk) cs" and "0 < blk" and "blk < 2 ^ 32" and "length cs < 2 ^ 32"
    and "blocks = sum_list (map (chunk_blocks blk) cs)" and "blocks < 2 ^ 32"
    and "blocks * blk \<le> unat (total_size info)"
    and "addr \<noteq> 0" and "unat addr + length (sparse_image blk cs) < 2 ^ 64"
    and "cfg_local cfg \<noteq> 0" and "unat (cfg_local cfg) + 1024 < 2 ^ 64"
  shows "\<exists>pm'. flash_image fo cfg (part_handle info a 0) addr (sparse_image blk cs) s =
      Fb_done (fastboot_okay fo [] (s\<lparr>fb_pm := pm'\<rparr>)) \<and>
    part_img contents info a pm' = snd (fold (put_chunk blk) cs (0, part_img contents info a (fb_pm s)))"
proof -
  let ?W = "tegrabl_fastboot_partition_write (cfg_alloc cfg) :: 'd part_sink writer" and ?w = "(part_handle info a 0, fb_pm s)"
  let ?z = "\<lparr>us_state = 0, image_header = [], chunk_header = [], us_offset = 0, us_remaining = 0,
    max_unsparse_size = 0, image_crc = [], computed_crc = 0, fill_value = [], chunks_processed = 0,
    us_writer = None, us_seeker = None\<rparr>"
  have sz: "tegrabl_partition_size (Some (part_handle info a 0)) = total_size info"
    by (simp add: tegrabl_partition_size_def part_handle_def)
  obtain us where init: "tegrabl_sparse_init_unsparse_state (Some ?z) (total_size info) (Some ?W)
      (Some tegrabl_fastboot_partition_seek) = (TEGRABL_NO_ERROR, Some us)"
    using assms(2) by (simp add: tegrabl_sparse_init_unsparse_state_def)
  have ok: "sink_ok contents (cfg_alloc cfg) info a ?w"
    using assms(1,3) by (auto simp: sink_ok_def intro: exI [of _ 0])
  have p0: "sink_pos ?w = 0" by (simp add: sink_pos_def part_handle_def)
  have fits: "sink_pos ?w + blocks * blk \<le> length (sink_img contents info a ?w)"
    using assms(10) sink_img_length [OF ok] p0 by simp
  from part_sink.image_decoded [OF init assms(4-10) ok fits assms(11-14), of "cfg_crc cfg"]
  obtain us' w' where r: "tegrabl_sparse_unsparse (cfg_crc cfg) (cfg_local cfg) (Some us) addr (sparse_image blk cs) ?w =
      Some (Returned TEGRABL_NO_ERROR (Some us') w')"
    "(sink_pos w', sink_img contents info a w') = fold (put_chunk blk) cs (sink_pos ?w, sink_img contents info a ?w)"
    by blast
  have "snd (fold (put_chunk blk) cs (0, part_img contents info a (fb_pm s))) = part_img contents info a (snd w')"
    using r(2) p0 by (simp add: sink_img_def) (metis snd_conv)
  then show ?thesis
    using r(1) by (intro exI [of _ "snd w'"])
      (simp add: flash_image_def sparse_image_checked sz init flash_exit_def split: prod.split)
qed

definition flash_suffix :: "bytes \<Rightarrow> bytes" where
  "flash_suffix arg = the (tegrabl_a_b_get_part_suffix (c_lit ''flash:'' @ arg))"

text \<open>What \<open>cmd_flash\<close> does once the device is unlocked, data was downloaded and the name is a partition's.\<close>

lemma flash_command:
  assumes "\<not> locked fo (platform s)" and "download_base s = Some (addr, sz, buffer)" and "download_size s \<noteq> 0"
    and "\<not> tegrabl_a_b_match_part_name_with_suffix (c_lit ''bootloader'') arg"
    and "tegrabl_fastboot_get_partinfo arg = Some i"
    and "tegrabl_partition_open (tegrabl_fastboot_get_tegra_part_name (flash_suffix arg) (Some i)) (Some null_partition)
      (fb_pm s) = (TEGRABL_NO_ERROR, Some part)"
  shows "cmd_flash fo cfg arg s = flash_image fo cfg part addr (take (unat (download_size s)) buffer) s"
  using assms by (simp add: cmd_flash_def unless_unlocked Let_def flash_suffix_def)

section \<open>Names\<close>

lemma table_lookup:
  "list_all (\<lambda>i. list_all (\<lambda>suf. tegrabl_fastboot_get_partinfo (fastboot_part_name i @ suf) = Some i)
     [[], BOOT_CHAIN_SUFFIX_A, BOOT_CHAIN_SUFFIX_B]) fastboot_partition_map_table"
  by code_simp

lemma private_lookup:
  "list_all (\<lambda>p. list_all (\<lambda>suf. tegrabl_fastboot_get_partinfo (p @ suf) = None)
       [[], BOOT_CHAIN_SUFFIX_A, BOOT_CHAIN_SUFFIX_B] \<and>
     map_option tegra_part_name (tegrabl_fastboot_get_partinfo (p @ BOOT_CHAIN_SUFFIX_B @ BOOT_CHAIN_SUFFIX_A)) =
       Some (p @ BOOT_CHAIN_SUFFIX_B @ BOOT_CHAIN_SUFFIX_A)) tegrabl_nv_private_partition_list"
  by (simp add: tegrabl_nv_private_partition_list_def fastboot_partition_map_table_def map_entry_def
      tegrabl_fastboot_get_partinfo_def match_with_suffix_iff c_lit_def BOOT_CHAIN_SUFFIX_A_def BOOT_CHAIN_SUFFIX_B_def)

end
