(* ===== verification/Sparse_Properties.thy ===== *)
theory Sparse_Properties
  imports Fastboot_Correct
begin

text \<open>
  The properties of the sparse image encoder and decoder, with a RAM-backed partition to apply them to.
\<close>

section \<open>A concrete device\<close>

text \<open>A RAM device of 192 sectors of 64 bytes with one partition, for the fastboot name \<open>userdata\<close>.\<close>

definition demo_part :: tegrabl_partition_info where
  "demo_part = \<lparr>part_name = c_lit ''userdata'', part_guid = [], part_ptype_guid = [],
     start_sector = 0, num_sectors = 192, total_size = 12288\<rparr>"

definition demo_flash :: "bytes \<Rightarrow> bytes pm_state" where
  "demo_flash img =
     \<lparr>bd = \<lparr>dev_heap = [7 \<mapsto> ram_dev 6 192 img], bdevs = Some [7], xfer_id = 0, close_log = []\<rparr>,
      storage_list = Some [\<lparr>si_bdev = 7, si_partitions = [demo_part]\<rparr>],
      set_verify_flag = False, verify_all_partitions = False, verify_list = []\<rparr>"

lemma demo_part_fields [simp]: "start_sector demo_part = 0" "num_sectors demo_part = 192" "total_size demo_part = 12288"
  by (simp_all add: demo_part_def)

lemma demo_flash_live:
  assumes "length img = 12288"
  shows "part_live (\<lambda>p. p) ram_alloc demo_part 7 (demo_flash img)"
    "part_img (\<lambda>p. p) demo_part 7 (demo_flash img) = img"
proof -
  have live: "bdev_live (\<lambda>p. p) ram_alloc (ram_dev 6 192 img)"
    using assms by (intro ram_dev_live) simp_all
  have g: "bdev_gran (ram_dev 6 192 img) = 64" by (simp add: bdev_gran_def ram_dev_def)
  have d: "part_dev 7 (demo_flash img) = ram_dev 6 192 img" by (simp add: part_dev_def demo_flash_def)
  show "part_live (\<lambda>p. p) ram_alloc demo_part 7 (demo_flash img)"
    using live bdev_live_ok [OF live] assms
    by (simp add: part_live_def part_ok_def part_start_def ram_dev_img g d) (simp add: demo_flash_def)
  show "part_img (\<lambda>p. p) demo_part 7 (demo_flash img) = img"
    using assms by (simp add: part_img_def part_start_def ram_dev_img g d subrange_def)
qed

section \<open>Encoding\<close>

text \<open>The encoder run on a list of requests: type, data and size of the region.\<close>

type_synonym request = "u32 \<times> bytes \<times> u32"

fun add_chunks :: "sparse_state option \<Rightarrow> request list \<Rightarrow> sparse_state option" where
  "add_chunks st [] = st"
| "add_chunks st ((t, d, n) # rs) =
     (case tegrabl_sparse_add_chunk True st t d (of_nat (length d)) n of
        Some (e, st') \<Rightarrow> if e = TEGRABL_NO_ERROR then add_chunks st' rs else None
      | None \<Rightarrow> None)"

definition request_ok :: "nat \<Rightarrow> request \<Rightarrow> bool" where
  "request_ok blk r \<longleftrightarrow>
     (case r of (t, d, n) \<Rightarrow>
        t \<in> {0xCAC1, 0xCAC2, 0xCAC3} \<and> n \<noteq> 0 \<and> unat n + blk + 12 \<le> 2 ^ 32 \<and>
        length d = (if t = 0xCAC1 then unat n else if t = 0xCAC2 then 4 else 0))"

definition request_chunk :: "nat \<Rightarrow> request \<Rightarrow> chunk" where
  "request_chunk blk r = (case r of (t, d, n) \<Rightarrow> new_chunk blk t d n)"

lemma length_image_snoc: "length (sparse_image blk (cs @ [c])) = length (sparse_image blk cs) + length (enc_chunk blk c)"
  by (simp add: sparse_image_def)

lemma enc_chunk_length: "chunk_ok blk c \<Longrightarrow> length (enc_chunk blk c) < 2 ^ 32"
  by (cases c) auto

lemma add_chunks_encodes:
  assumes "encodes blk cs s" and "0 < blk" and "blk < 2 ^ 32" and "list_all (request_ok blk) rs"
    and "length (sparse_image blk cs) + (length rs + 1) * 2 ^ 33 < 2 ^ 64"
  shows "\<exists>s'. add_chunks (Some s) rs = Some s' \<and> encodes blk (cs @ map (request_chunk blk) rs) s'"
  using assms
proof (induction rs arbitrary: cs s)
  case Nil
  then show ?case by simp
next
  case (Cons r rs)
  obtain t d n where r: "r = (t, d, n)" by (cases r)
  have ok: "t \<in> {0xCAC1, 0xCAC2, 0xCAC3}" "n \<noteq> 0" "unat n + blk + 12 \<le> 2 ^ 32"
    "length d = (if t = 0xCAC1 then unat n else if t = 0xCAC2 then 4 else 0)"
    using Cons.prems(4) by (simp_all add: r request_ok_def)
  have room: "length (sparse_image blk cs) + 2 ^ 33 < 2 ^ 64" using Cons.prems(5) by simp
  from add_chunk_encodes [OF Cons.prems(1-3) ok(1) refl ok(2-4) room]
  obtain s1 where s1: "tegrabl_sparse_add_chunk True (Some s) t d (of_nat (length d)) n =
      Some (TEGRABL_NO_ERROR, Some s1)" "encodes blk (cs @ [request_chunk blk r]) s1"
    by (auto simp: r request_chunk_def)
  have "length (enc_chunk blk (request_chunk blk r)) < 2 ^ 32"
    using s1(2) by (intro enc_chunk_length) (simp add: encodes_def)
  then have "length (sparse_image blk (cs @ [request_chunk blk r])) + (length rs + 1) * 2 ^ 33 < 2 ^ 64"
    using Cons.prems(5) by (simp add: length_image_snoc)
  from Cons.IH [OF s1(2) Cons.prems(2,3) _ this] Cons.prems(4) s1(1)
  show ?case by (simp add: r request_chunk_def)
qed

section \<open>Properties of sparse images\<close>

text \<open>
  C14. Encoding and decoding: adding raw, fill and don't-care chunks to a new sparse image always
  succeeds when memory is available, and decoding the resulting buffer in one call onto an open
  partition with enough room succeeds and has the effect of the chunks in order: raw data padded with
  zeros to whole blocks, fill patterns repeated, don't-care regions skipped.
\<close>

theorem sparse_roundtrip:
  assumes "tegrabl_sparse_init True (Some s0) block_size = (TEGRABL_NO_ERROR, st)" and "block_size \<noteq> 0"
    and "blk = unat block_size" and "list_all (request_ok blk) rs" and "length rs < 2 ^ 28"
    and "cs = map (request_chunk blk) rs" and "blocks = sum_list (map (chunk_blocks blk) cs)"
    and "blocks < 2 ^ 32" and "blocks * blk \<le> unat mx"
    and "tegrabl_sparse_init_unsparse_state (Some us0) mx (Some (tegrabl_fastboot_partition_write alloc))
      (Some tegrabl_fastboot_partition_seek) = (TEGRABL_NO_ERROR, Some us)"
    and "sink_ok contents alloc info a w" and "sink_pos w + blocks * blk \<le> length (sink_img contents info a w)"
    and "addr \<noteq> 0" and "unat addr + length (sparse_image blk cs) < 2 ^ 64"
    and "buffer \<noteq> 0" and "unat buffer + 1024 < 2 ^ 64"
  shows "\<exists>s b n us' w'. add_chunks st rs = Some s \<and>
    tegrabl_sparse_get_buffer (Some s) = (TEGRABL_NO_ERROR, Some (b, n)) \<and> unat n = length b \<and>
    tegrabl_sparse_unsparse crc_on buffer (Some us) addr b w = Some (Returned TEGRABL_NO_ERROR (Some us') w') \<and>
    (sink_pos w', sink_img contents info a w') =
      fold (put_chunk blk) cs (sink_pos w, sink_img contents info a w)"
proof -
  have blk: "0 < blk" "blk < 2 ^ 32" using assms(2,3) unat_u32_bound [of block_size] by (simp_all add: unat_gt_0)
  obtain s1 where s1: "st = Some s1" "encodes blk [] s1" using init_encodes [OF assms(1)] assms(3) by auto
  have "length (sparse_image blk []) + (length rs + 1) * 2 ^ 33 < 2 ^ 64"
    using assms(5) by (simp add: sparse_image_def)
  from add_chunks_encodes [OF s1(2) blk assms(4) this] obtain s where
    s: "add_chunks st rs = Some s" "encodes blk cs s" by (auto simp: s1(1) assms(6))
  have cs: "list_all (chunk_ok blk) cs" using s(2) by (simp add: encodes_def)
  have len: "length cs < 2 ^ 32" using assms(5,6) by simp
  have "ss_buffer_size s \<noteq> 0" using s(2) by (auto simp: encodes_def sparse_image_def)
  then have "tegrabl_sparse_get_buffer (Some s) = (TEGRABL_NO_ERROR, Some (sparse_image blk cs, ss_buffer_size s))"
    "unat (ss_buffer_size s) = length (sparse_image blk cs)"
    using s(2) by (simp_all add: tegrabl_sparse_get_buffer_def encodes_def)
  with part_sink.image_decoded [OF assms(10) cs blk len assms(7-9,11-16), of crc_on] s(1)
  show ?thesis by blast
qed

definition demo_requests :: "request list" where
  "demo_requests = [(0xCAC1, [1, 2, 3], 3), (0xCAC3, [], 1), (0xCAC2, [7, 8, 9, 10], 4096)]"

definition demo_chunks :: "chunk list" where
  "demo_chunks = [Raw ([1, 2, 3] @ replicate 4093 0), Skip 1, Fill [7, 8, 9, 10] 1]"

definition demo_output :: bytes where
  "demo_output = [1, 2, 3] @ replicate 4093 0 @ replicate 4096 5 @ cycled [7, 8, 9, 10] 4096"

lemma demo_chunks_facts:
  "map (request_chunk 4096) demo_requests = demo_chunks" "length (sparse_image 4096 demo_chunks) = 4164"
  "fold (put_chunk 4096) demo_chunks (0, replicate 12288 5) = (12288, demo_output)"
  "sum_list (map (chunk_blocks 4096) demo_chunks) = 3" "list_all (chunk_ok 4096) demo_chunks"
  by (simp_all add: demo_requests_def demo_chunks_def demo_output_def request_chunk_def new_chunk_def sparse_image_def
      overwrite_def)

lemma demo_sink:
  "sink_ok (\<lambda>p. p) ram_alloc demo_part 7 (part_handle demo_part 7 0, demo_flash (replicate 12288 5))"
  "sink_pos (part_handle demo_part 7 0, s) = 0"
  "sink_img (\<lambda>p. p) demo_part 7 (h, demo_flash (replicate 12288 5)) = replicate 12288 5"
  using demo_flash_live [of "replicate 12288 5"]
  by (auto simp: sink_ok_def sink_pos_def sink_img_def part_handle_def intro!: exI [of _ 0])

theorem sparse_roundtrip_witness:
  "\<exists>s b n us us' w'.
     add_chunks (snd (tegrabl_sparse_init True (Some \<lparr>ss_buffer = None, ss_buffer_size = 0, ss_image_size = 0\<rparr>) 4096))
       demo_requests = Some s \<and>
     tegrabl_sparse_get_buffer (Some s) = (TEGRABL_NO_ERROR, Some (b, n)) \<and>
     tegrabl_sparse_unsparse False 64 (Some us) 4096 b (part_handle demo_part 7 0, demo_flash (replicate 12288 5)) =
       Some (Returned TEGRABL_NO_ERROR (Some us') w') \<and>
     sink_img (\<lambda>p. p) demo_part 7 w' = demo_output"
proof -
  let ?s0 = "\<lparr>ss_buffer = None, ss_buffer_size = 0, ss_image_size = 0\<rparr>"
  let ?z = "undefined :: bytes part_sink unsparse_state"
  have i: "tegrabl_sparse_init True (Some ?s0) 4096 = (TEGRABL_NO_ERROR, snd (tegrabl_sparse_init True (Some ?s0) 4096))"
    by (simp add: tegrabl_sparse_init_def)
  obtain us where u: "tegrabl_sparse_init_unsparse_state (Some ?z) 12288 (Some (tegrabl_fastboot_partition_write ram_alloc))
      (Some tegrabl_fastboot_partition_seek) = (TEGRABL_NO_ERROR, Some us)"
    by (simp add: tegrabl_sparse_init_unsparse_state_def)
  have r: "list_all (request_ok 4096) demo_requests" "length demo_requests < 2 ^ 28"
    by (simp_all add: demo_requests_def request_ok_def)
  have e: "(4096 :: nat) = unat (4096 :: u32)" by simp
  note d = demo_chunks_facts demo_sink(2,3)
  from sparse_roundtrip [OF i _ e r d(1) [symmetric] d(4) [symmetric] _ _ u demo_sink(1), of 4096 64 False]
  show ?thesis by (simp add: d) (metis snd_conv)
qed

lemma unsparse_loop_once:
  assumes "v_input v \<noteq> []" and "v_state v \<noteq> 5"
  shows "unsparse_loop crc_on buffer v =
    (case unsparse_step crc_on buffer v of
       Iterate v \<Rightarrow> unsparse_loop crc_on buffer v
     | Goto_fail v \<Rightarrow> Some (Goto_fail v) | Mem_overrun \<Rightarrow> Some Mem_overrun)"
  using assms by (subst unsparse_loop.simps) simp

lemma unsparse_entry:
  assumes "tegrabl_sparse_init_unsparse_state (Some us0) mx (Some W) (Some S) = (TEGRABL_NO_ERROR, Some us)"
    and "addr \<noteq> 0" and "data \<noteq> []"
  shows "tegrabl_sparse_unsparse crc_on buffer (Some us) addr data w = Some Overrun \<longleftrightarrow>
      unsparse_loop crc_on buffer (unsparse_vars us addr data w) = Some Mem_overrun"
    "tegrabl_sparse_unsparse crc_on buffer (Some us) addr data w = None \<longleftrightarrow>
      unsparse_loop crc_on buffer (unsparse_vars us addr data w) = None"
  using assms(2,3) init_fields(10,11) [OF assms(1)]
  by (auto simp: tegrabl_sparse_unsparse_def split: Option.bind_splits us_step.splits)

text \<open>A header that is incomplete or invalid ends the call without an overrun.\<close>

lemma bad_header_safe:
  assumes "tegrabl_sparse_init_unsparse_state (Some us0) mx (Some W) (Some S) = (TEGRABL_NO_ERROR, Some us)"
    and "data \<noteq> []"
    and "length data < 28 \<or> tegrabl_sparse_validate_header (take 28 data) mx \<noteq> TEGRABL_NO_ERROR"
  shows "unsparse_loop crc_on buffer (unsparse_vars us addr data w) \<noteq> Some Mem_overrun"
proof -
  note us = init_fields [OF assms(1)]
  let ?v = "unsparse_vars us addr data w" and ?sz = "min (length data) 28"
  have v: "v_state ?v = 1" "v_remaining ?v = 28" "v_offset ?v = 0" "v_input ?v = data" "v_us ?v = us"
    by (simp_all add: unsparse_vars_def us)
  have m: "c_memcpy 0 (take ?sz data) (replicate 28 0) = Some (overwrite 0 (take ?sz data) (replicate 28 0))"
    by (simp add: c_memcpy_def)
  have u: "unat (of_nat ?sz :: u64) = ?sz" by (simp add: unat_of_nat)
  have once: "unsparse_loop crc_on buffer ?v = (case step_image_header ?v of
       Iterate v \<Rightarrow> unsparse_loop crc_on buffer v
     | Goto_fail v \<Rightarrow> Some (Goto_fail v) | Mem_overrun \<Rightarrow> Some Mem_overrun)"
    using assms(2) v by (subst unsparse_loop_once) (simp_all add: unsparse_step_def)
  show ?thesis
  proof (cases "length data < 28")
    case True
    have "(28 :: u64) - of_nat (length data) \<noteq> 0"
    proof
      assume "(28 :: u64) - of_nat (length data) = 0"
      then have "unat (of_nat (length data) :: u64) = unat (28 :: u64)" by simp
      then show False using True by (simp add: unat_of_nat)
    qed
    moreover have "?sz = length data" using True by simp
    ultimately obtain v' where "step_image_header ?v = Iterate v'" "v_input v' = []" "v_state v' = 1"
      using m v us(2) True by (simp add: step_image_header_def Let_def consume_def)
    then show ?thesis by (simp add: once unsparse_loop_end)
  next
    case False
    then have "overwrite 0 (take 28 data) (replicate 28 0) = take 28 data" by (simp add: overwrite_def)
    moreover have "?sz = 28" using False by simp
    ultimately have "\<exists>v'. step_image_header ?v = Goto_fail v'"
      using m v us(2,6) False assms(3) by (simp add: step_image_header_def Let_def consume_def)
    then show ?thesis by (auto simp: once)
  qed
qed

lemma good_header_overrun:
  assumes "tegrabl_sparse_init_unsparse_state (Some us0) mx (Some W) (Some S) = (TEGRABL_NO_ERROR, Some us)"
    and "data = h @ rest" and "length h = 28" and "tegrabl_sparse_validate_header h mx = TEGRABL_NO_ERROR"
  shows "unsparse_loop crc_on buffer (unsparse_vars us addr data w) = Some Mem_overrun \<longleftrightarrow>
    12 < length rest \<and> 12 < ih_chunk_hdr_sz h"
proof -
  note us = init_fields [OF assms(1)]
  define v where "v = after_image_header h rest us addr w"
  have l: "unsparse_loop crc_on buffer (unsparse_vars us addr data w) = unsparse_loop crc_on buffer v"
    unfolding v_def assms(2) by (rule image_header_step [OF assms(1,3,4)])
  have v: "v_state v = 2" "v_offset v = 0" "v_input v = rest" "v_remaining v = ucast (ih_chunk_hdr_sz h)"
    "length (chunk_header (v_us v)) = 12" "length (fill_value (v_us v)) = 4" "length (image_crc (v_us v)) = 4"
    by (simp_all add: v_def after_image_header_def next_header_def unsparse_vars_def us)
  have r: "unat (v_remaining v) = unat (ih_chunk_hdr_sz h)" by (simp add: v unat_ucast_up)
  consider (short) "12 < ih_chunk_hdr_sz h" "length rest \<le> 12" | (over) "12 < ih_chunk_hdr_sz h" "12 < length rest"
    | (fits) "\<not> 12 < ih_chunk_hdr_sz h" by linarith
  then show ?thesis
  proof cases
    case fits
    then have "unat (ih_chunk_hdr_sz h) \<le> 12" by (simp add: word_less_nat_alt)
    then have "us_safe v" using v r by (simp add: us_safe_def)
    then show ?thesis using fits l unsparse_loop_safe [of crc_on buffer v] by auto
  next
    case over
    then have "12 < min (length rest) (unat (ih_chunk_hdr_sz h))" by (simp add: word_less_nat_alt)
    then have "c_memcpy 0 (take (min (length rest) (unat (ih_chunk_hdr_sz h))) rest) (chunk_header (v_us v)) = None"
      using v(5) by (simp add: c_memcpy_def not_le)
    then have "step_chunk_header v = Mem_overrun"
      using v(1-3) r by (simp add: step_chunk_header_def)
    moreover have "v_input v \<noteq> []" using over v(3) by auto
    ultimately show ?thesis using over v by (simp add: l unsparse_loop_once unsparse_step_def)
  next
    case short
    show ?thesis
    proof (cases "rest = []")
      case True
      then show ?thesis using short v by (simp add: l unsparse_loop_end)
    next
      case False
      have sz: "min (length rest) (unat (ih_chunk_hdr_sz h)) = length rest"
        using short by (simp add: word_less_nat_alt)
      have "unat (v_remaining v - of_nat (length rest)) = unat (ih_chunk_hdr_sz h) - length rest"
        using r short by (subst unat_advance) (simp_all add: word_less_nat_alt)
      then have "v_remaining v - of_nat (length rest) \<noteq> 0"
        using short by (auto simp: word_less_nat_alt)
      then have "\<exists>v'. step_chunk_header v = Iterate v' \<and> v_input v' = [] \<and> v_state v' = 2"
        using v r sz short by (auto simp: step_chunk_header_def Let_def c_memcpy_def consume_def)
      moreover have "v_input v \<noteq> []" using False v(3) by simp
      ultimately show ?thesis using v short by (auto simp: l unsparse_loop_once unsparse_step_def unsparse_loop_end)
    qed
  qed
qed

text \<open>
  C15. Memory safety of decoding one buffer: on a freshly initialised state the decoder writes outside
  its structs exactly when the buffer holds more than 40 bytes, its image header is accepted and the
  header's own \<open>chunk_hdr_sz\<close> is larger than the chunk header struct. In every other case no copy
  leaves its struct, whatever the chunks say.
\<close>

theorem unsparse_overrun_exact:
  assumes "tegrabl_sparse_init_unsparse_state (Some us0) mx (Some W) (Some S) = (TEGRABL_NO_ERROR, Some us)"
    and "addr \<noteq> 0" and "data \<noteq> []"
  shows "tegrabl_sparse_unsparse crc_on buffer (Some us) addr data w = Some Overrun \<longleftrightarrow>
    40 < length data \<and> tegrabl_sparse_validate_header (take 28 data) mx = TEGRABL_NO_ERROR \<and>
    12 < ih_chunk_hdr_sz (take 28 data)"
proof (cases "length data < 28 \<or> tegrabl_sparse_validate_header (take 28 data) mx \<noteq> TEGRABL_NO_ERROR")
  case True
  then show ?thesis using bad_header_safe [OF assms(1,3)] unsparse_entry(1) [OF assms] by auto
next
  case False
  have "data = take 28 data @ drop 28 data" by simp
  from good_header_overrun [OF assms(1) this] False show ?thesis
    unfolding unsparse_entry(1) [OF assms] by auto
qed

definition demo_writer :: "bytes writer" where
  "demo_writer addr d w = (TEGRABL_NO_ERROR, w @ d)"

definition demo_seeker :: "bytes seeker" where
  "demo_seeker n w = (TEGRABL_NO_ERROR, w)"

definition demo_us :: "bytes unsparse_state" where
  "demo_us = \<lparr>us_state = 1, image_header = replicate 28 0, chunk_header = replicate 12 0, us_offset = 0,
     us_remaining = 28, max_unsparse_size = 8192, image_crc = replicate 4 0, computed_crc = 0,
     fill_value = replicate 4 0, chunks_processed = 0, us_writer = Some demo_writer, us_seeker = Some demo_seeker\<rparr>"

lemma demo_us_init:
  "tegrabl_sparse_init_unsparse_state (Some demo_us) 8192 (Some demo_writer) (Some demo_seeker) =
     (TEGRABL_NO_ERROR, Some demo_us)"
  by (simp add: tegrabl_sparse_init_unsparse_state_def demo_us_def)

definition demo_header :: "u16 \<Rightarrow> bytes" where
  "demo_header n = le_bytes 4 (0xED26FF3A :: u32) @ le_bytes 2 (1 :: u16) @ le_bytes 2 (0 :: u16) @
     le_bytes 2 (28 :: u16) @ le_bytes 2 n @ le_bytes 4 (4096 :: u32) @ le_bytes 4 (1 :: u32) @ le_bytes 4 (1 :: u32) @
     le_bytes 4 (0 :: u32)"

theorem unsparse_overrun_exact_witness:
  "tegrabl_sparse_unsparse False 64 (Some demo_us) 4096 (demo_header 16 @ replicate 16 0) [] = Some Overrun \<and>
   tegrabl_sparse_unsparse False 64 (Some demo_us) 4096 (demo_header 12 @ replicate 16 0) [] \<noteq> Some Overrun"
proof -
  note x = unsparse_overrun_exact [OF demo_us_init]
  have "length (demo_header n) = 28" for n by (simp add: demo_header_def)
  moreover have "tegrabl_sparse_validate_header (demo_header 16) 8192 = TEGRABL_NO_ERROR" by code_simp
  moreover have "ih_chunk_hdr_sz (demo_header 16) = 16" "ih_chunk_hdr_sz (demo_header 12) = 12" by code_simp+
  ultimately show ?thesis
    using x [of 4096 "demo_header 16 @ replicate 16 0" False 64 "[]"]
      x [of 4096 "demo_header 12 @ replicate 16 0" False 64 "[]"]
    by (simp add: demo_header_def)
qed


text \<open>
  Without CRC support a CRC chunk hangs the decoder: on a valid image that starts with a CRC chunk
  header followed by at least one byte, the call never returns.
\<close>

theorem crc_chunk_hangs:
  assumes "tegrabl_sparse_init_unsparse_state (Some us0) mx (Some W) (Some S) = (TEGRABL_NO_ERROR, Some us)"
    and "addr \<noteq> 0" and "length h = 28" and "tegrabl_sparse_validate_header h mx = TEGRABL_NO_ERROR"
    and "ih_chunk_hdr_sz h = 12" and "ih_total_chunks h \<noteq> 0"
    and "length c = 12" and "ch_chunk_type c = TEGRABL_SPARSE_CHUNK_TYPE_CRC" and "rest \<noteq> []"
  shows "tegrabl_sparse_unsparse False buffer (Some us) addr (h @ c @ rest) w = None"
proof -
  note us = init_fields [OF assms(1)]
  define v where "v = after_image_header h (c @ rest) us addr w"
  have v: "at_header h W S v" "v_chunks v = 0" "v_input v = c @ rest"
    by (simp_all add: v_def after_image_header_def next_header_def unsparse_vars_def us at_header_def assms(5))
  have "tegrabl_sparse_validate_chunk_header h c = TEGRABL_NO_ERROR"
    by (simp add: tegrabl_sparse_validate_chunk_header_def assms(8))
  moreover have "v_chunks v + 1 \<le> ucast (ih_total_chunks h)"
    using assms(6) by (simp add: v(2) word_le_nat_alt unat_ucast_up Suc_le_eq unat_gt_0)
  ultimately have "unsparse_loop False buffer v = unsparse_loop False buffer (at_chunk c rest v)"
    by (rule header_step [OF v(1,3) assms(7)])
  also have "\<dots> = None"
    by (rule crc_state_hangs) (simp_all add: at_chunk_def assms(8,9))
  finally have "unsparse_loop False buffer (unsparse_vars us addr (h @ c @ rest) w) = None"
    using image_header_step [OF assms(1,3,4), of False buffer addr "c @ rest" w] by (simp add: v_def)
  moreover have "h @ c @ rest \<noteq> []" using assms(9) by simp
  ultimately show ?thesis using unsparse_entry(2) [OF assms(1,2)] by blast
qed

end
