(* ===== verification/Fastboot_Properties.thy ===== *)
theory Fastboot_Properties
  imports Sparse_Properties
begin

text \<open>
  The properties of the fastboot protocol, with a concrete platform to apply them to.
\<close>

text \<open>An unlocked device on which the transport works: sending and receiving leave it unlocked.\<close>

definition usb_works :: "('d, 'p) fb_ops \<Rightarrow> u32 \<Rightarrow> bytes \<Rightarrow> bool" where
  "usb_works fo len data \<longleftrightarrow>
     (\<forall>x p. fst (op_usbf_send fo x p) = TEGRABL_NO_ERROR \<and> (locked fo (snd (op_usbf_send fo x p)) \<longleftrightarrow> locked fo p)) \<and>
     (\<forall>p. fst (op_usbf_receive fo len p) = (TEGRABL_NO_ERROR, data) \<and>
        (locked fo (snd (op_usbf_receive fo len p)) \<longleftrightarrow> locked fo p))"

lemma okay_fields [simp]:
  "fb_pm (fastboot_okay fo i s) = fb_pm s" "download_base (fastboot_okay fo i s) = download_base s"
  "download_size (fastboot_okay fo i s) = download_size s" "is_allocated (fastboot_okay fo i s) = is_allocated s"
  by (simp_all add: fastboot_okay_def fastboot_ack_def Let_def)

lemma okay_locked:
  "usb_works fo len data \<Longrightarrow> locked fo (platform (fastboot_okay fo i s)) \<longleftrightarrow> locked fo (platform s)"
  by (simp add: fastboot_okay_def fastboot_ack_def Let_def usb_works_def)

lemma download_command:
  assumes "\<not> locked fo (platform s)" and "usb_works fo len data" and "len = hex2uint32_t arg" and "len \<le> MAX_DOWNLOAD_SIZE"
    and "length data = unat len"
    and "is_allocated s \<Longrightarrow> download_base s = Some (a, sz, old)" and "length old = sz"
    and "\<not> is_allocated s \<Longrightarrow> cfg_alloc cfg 6 4096 (ucast len) = Some a \<and> sz = unat len \<and> old = replicate (unat len) 0"
  shows "if sz < unat len then cmd_download fo cfg arg s = Fb_corrupt
    else \<exists>s1. cmd_download fo cfg arg s = Fb_done s1 \<and> download_base s1 = Some (a, sz, overwrite 0 data old) \<and>
      download_size s1 = len \<and> is_allocated s1 \<and> fb_pm s1 = fb_pm s \<and> \<not> locked fo (platform s1)"
proof -
  have S: "\<exists>p'. op_usbf_send fo x p = (TEGRABL_NO_ERROR, p') \<and> locked fo p' = locked fo p" for x p
    using assms(2) by (metis usb_works_def prod.collapse)
  have R: "\<exists>p'. op_usbf_receive fo len p = ((TEGRABL_NO_ERROR, data), p') \<and> locked fo p' = locked fo p" for p
    using assms(2) by (metis usb_works_def prod.collapse)
  obtain p1 where p1: "op_usbf_send fo (c_lit ''DATA'' @
      (replicate (8 - length (print_digits 16 8 (unat len))) 0x30 @ print_digits 16 8 (unat len))) (platform s) =
      (TEGRABL_NO_ERROR, p1)" "locked fo p1 = locked fo (platform s)"
    using S by blast
  obtain p2 where p2: "op_usbf_receive fo len p1 = ((TEGRABL_NO_ERROR, data), p2)" "locked fo p2 = locked fo p1"
    using R by blast
  have le: "\<not> MAX_DOWNLOAD_SIZE < len" using assms(4) by simp
  show ?thesis
    using assms(1,5-8) p1 p2 le okay_locked [OF assms(2)]
    by (cases "is_allocated s")
      (auto simp: cmd_download_def unless_unlocked assms(3) [symmetric] Let_def)
qed

section \<open>A concrete platform\<close>

text \<open>The platform state is the lock flag and the responses sent so far; \<open>img\<close> is what the host sends.\<close>

definition demo_ops :: "bytes \<Rightarrow> (bytes, bool \<times> bytes list) fb_ops" where
  "demo_ops img =
     \<lparr>op_is_device_unlocked = Some fst, op_change_device_state = Some (\<lambda>c p. (TEGRABL_NO_ERROR, (c = FASTBOOT_UNLOCK, snd p))),
      op_get_fuse_ecid = None, op_get_current_slot = None, op_get_slot_num = None, op_get_slot_suffix = None,
      op_is_slot_successful = None, op_is_slot_unbootable = None, op_get_slot_retry_count = None,
      op_slot_set_active = None, op_usbf_send = (\<lambda>x p. (TEGRABL_NO_ERROR, (fst p, snd p @ [x]))),
      op_usbf_receive = (\<lambda>n p. ((TEGRABL_NO_ERROR, take (unat n) img), p)),
      op_get_serial_no = (\<lambda>_. (TEGRABL_NO_ERROR, [])), op_dts_filename = (\<lambda>_. (TEGRABL_NO_ERROR, [])), op_product = [],
      op_load_kernel = (\<lambda>_ _ p. (TEGRABL_NO_ERROR, p)), op_bl_update = (\<lambda>_ _ pm p. (TEGRABL_NO_ERROR, pm, p))\<rparr>"

definition demo_cfg :: fb_config where
  "demo_cfg = \<lparr>cfg_alloc = ram_alloc, cfg_crc = False, cfg_local = 64\<rparr>"

definition demo_fb :: "bool \<Rightarrow> (u64 \<times> nat \<times> bytes) option \<Rightarrow> u32 \<Rightarrow> (bytes, bool \<times> bytes list) fb_state" where
  "demo_fb unl dl n =
     \<lparr>fastboot_state = STATE_COMMAND, cmdlist = [Set_active, Flashing, Oem, Continue, Boot, Flash, Download, Erase,
        Getvar, Reboot_recovery, Reboot_fastboot, Reboot_bootloader, Reboot], download_base = dl, download_size = n,
      is_allocated = (dl \<noteq> None), fb_pm = demo_flash (replicate 12288 5), platform = (unl, [])\<rparr>"

lemma demo_locked: "locked (demo_ops img) p \<longleftrightarrow> \<not> fst p"
  by (simp add: locked_def demo_ops_def)

lemma demo_lock_law: "lock_law (demo_ops img)"
  by (simp add: lock_law_def demo_locked) (simp add: demo_ops_def)

lemma demo_usb: "usb_works (demo_ops img) n (take (unat n) img)"
  by (simp add: usb_works_def demo_locked) (simp add: demo_ops_def)

lemma demo_userdata_open:
  "tegrabl_partition_open (Some (c_lit ''userdata'')) (Some null_partition) (demo_flash img) =
     (TEGRABL_NO_ERROR, Some (part_handle demo_part 7 0))"
  by (simp add: tegrabl_partition_open_def demo_flash_def match_partition_name_def match_part_name_iff demo_part_def
      opened_partition_def part_handle_def)

lemma demo_partinfo:
  "tegrabl_fastboot_get_partinfo (c_lit ''userdata'') = Some (map_entry ''userdata'' ''userdata'' None ''ext4'')"
  "tegrabl_fastboot_get_tegra_part_name (flash_suffix (c_lit ''userdata''))
     (Some (map_entry ''userdata'' ''userdata'' None ''ext4'')) = Some (c_lit ''userdata'')"
  "\<not> tegrabl_a_b_match_part_name_with_suffix (c_lit ''bootloader'') (c_lit ''userdata'')"
  by code_simp+

section \<open>Properties of fastboot\<close>

text \<open>
  C4. A locked device is protected: whatever commands the host sends, as long as none of them is an
  unlock command, storage and the download buffer stay as they are and the device stays locked, also
  at the moment a command resets the device.
\<close>

theorem locked_device_protected:
  assumes "lock_law fo" and "locked fo (platform s)"
    and "list_all (\<lambda>b. \<not> unlock_command (cstr (take 64 b))) bs"
    and "snd (tegrabl_fastboot_command_handler fo cfg bs s) = r" and "r = Fb_done s' \<or> r = Fb_gone s'"
  shows "fb_pm s' = fb_pm s \<and> download_base s' = download_base s \<and> locked fo (platform s')"
  using loop_kept [OF assms(1-3), of cfg] assms(2,4,5)
  by (auto simp: tegrabl_fastboot_command_handler_def kept_def split: option.splits)

theorem locked_device_protected_witness:
  "\<exists>s'. tegrabl_fastboot_command_handler (demo_ops []) demo_cfg [c_lit ''erase:userdata'', c_lit ''flash:boot'', c_lit ''continue'']
       (demo_fb False None 0) = (True, Fb_done s') \<and> fb_pm s' = demo_flash (replicate 12288 5)"
proof -
  let ?bs = "[c_lit ''erase:userdata'', c_lit ''flash:boot'', c_lit ''continue'']"
  let ?r = "tegrabl_fastboot_command_handler (demo_ops []) demo_cfg ?bs (demo_fb False None 0)"
  have l: "locked (demo_ops []) (platform (demo_fb False None 0))" by (simp add: demo_locked demo_fb_def)
  have u: "list_all (\<lambda>b. \<not> unlock_command (cstr (take 64 b))) ?bs"
    by code_simp
  have "\<exists>s'. ?r = (True, Fb_done s')"
    by (simp add: tegrabl_fastboot_command_handler_def demo_cfg_def ram_alloc_def fastboot_command_def Let_def c_lit_def demo_fb_def cmd_erase_def cmd_flash_def unless_locked_def
        tegrabl_is_device_unlocked_def demo_ops_def fastboot_fail_def fastboot_okay_def fastboot_ack_def cstr_def)
  then obtain s' where "?r = (True, Fb_done s')" by blast
  with locked_device_protected [OF demo_lock_law l u, of demo_cfg _ s'] show ?thesis
    by (simp add: demo_fb_def)
qed



text \<open>
  A failed raw flash is reported as success: when the downloaded data is not a sparse image and is
  larger than the partition, nothing is written and the host still gets OKAY.
\<close>

theorem flash_raw_reports_okay:
  assumes "\<not> locked fo (platform s)" and "download_base s = Some (addr, sz, data)"
    and "unat (download_size s) = length data" and "addr \<noteq> 0"
    and "\<not> tegrabl_a_b_match_part_name_with_suffix (c_lit ''bootloader'') arg"
    and "tegrabl_fastboot_get_partinfo arg = Some i"
    and "tegrabl_partition_open (tegrabl_fastboot_get_tegra_part_name (flash_suffix arg) (Some i)) (Some null_partition)
      (fb_pm s) = (TEGRABL_NO_ERROR, Some (part_handle info a 0))"
    and "\<not> tegrabl_sparse_image_check data" and "unat (total_size info) < length data"
  shows "fst (tegrabl_fastboot_partition_write (cfg_alloc cfg) addr data (part_handle info a 0, fb_pm s)) \<noteq> TEGRABL_NO_ERROR \<and>
    cmd_flash fo cfg arg s = Fb_done (fastboot_okay fo [] s)"
proof -
  have len: "length data < 2 ^ 32" using assms(3) unat_u32_bound [of "download_size s"] by simp
  then have n: "unat (of_nat (length data) :: u64) = length data" by (simp add: unat_of_nat)
  have d0: "download_size s \<noteq> 0" using assms(3,9) by auto
  have e: "PM_ERROR TEGRABL_ERR_OVERFLOW 0 \<noteq> TEGRABL_NO_ERROR" by code_simp
  have "total_size info < of_nat (length data)" "(of_nat (length data) :: u64) \<noteq> 0"
    using assms(9) n by (auto simp: word_less_nat_alt)
  then have w: "tegrabl_fastboot_partition_write (cfg_alloc cfg) addr data (part_handle info a 0, fb_pm s) =
      (PM_ERROR TEGRABL_ERR_OVERFLOW 0, (part_handle info a 0, fb_pm s))"
    using assms(4) by (simp add: tegrabl_fastboot_partition_write_def tegrabl_partition_write_def handle_parts_def part_handle_def)
  have "cmd_flash fo cfg arg s = flash_image fo cfg (part_handle info a 0) addr data s"
    using flash_command [OF assms(1,2) d0 assms(5-7)] assms(3) by simp
  then show ?thesis
    using w assms(8) e by (simp add: flash_image_def flash_exit_def)
qed

text \<open>
  Erasing ignores the slot suffix: for every entry of the name table, the commands with suffix
  \<open>_b\<close>, with \<open>_a\<close> and without a suffix erase the same partition, the one of slot A.
\<close>

theorem erase_ignores_slot:
  assumes "\<not> locked fo (platform s)" and "i \<in> set fastboot_partition_map_table"
    and "suf \<in> {[], BOOT_CHAIN_SUFFIX_A, BOOT_CHAIN_SUFFIX_B}"
    and "tegrabl_partition_open (Some (tegra_part_name i)) (Some null_partition) (fb_pm s) = (TEGRABL_NO_ERROR, part)"
    and "tegrabl_partition_erase part False (fb_pm s) = (TEGRABL_NO_ERROR, pm')"
  shows "cmd_erase fo (fastboot_part_name i @ suf) s = Fb_done (fastboot_okay fo [] (s\<lparr>fb_pm := pm'\<rparr>))"
proof -
  have "tegrabl_fastboot_get_partinfo (fastboot_part_name i @ suf) = Some i"
    using table_lookup assms(2,3) by (auto simp: list_all_iff)
  then show ?thesis using assms(1,4,5) by (simp add: cmd_erase_def unless_unlocked Let_def)
qed

definition demo_boot_a :: tegrabl_partition_info where
  "demo_boot_a = \<lparr>part_name = c_lit ''boot_a'', part_guid = [], part_ptype_guid = [],
     start_sector = 0, num_sectors = 2, total_size = 8\<rparr>"

definition demo_boot_b :: tegrabl_partition_info where
  "demo_boot_b = \<lparr>part_name = c_lit ''boot_b'', part_guid = [], part_ptype_guid = [],
     start_sector = 2, num_sectors = 2, total_size = 8\<rparr>"

definition demo_boot_dev :: "bytes \<Rightarrow> bytes tegrabl_bdev" where
  "demo_boot_dev img = (ram_dev 2 4 img)\<lparr>ops := (ram_ops 2)\<lparr>op_erase :=
     (\<lambda>p b c _. (TEGRABL_NO_ERROR, overwrite (unat b * 4) (replicate (unat c * 4) 0) p))\<rparr>\<rparr>"

definition demo_boot :: "bytes \<Rightarrow> (bytes, bool \<times> bytes list) fb_state" where
  "demo_boot img =
     (demo_fb True None 0)\<lparr>fb_pm :=
        \<lparr>bd = \<lparr>dev_heap = [7 \<mapsto> demo_boot_dev img], bdevs = Some [7], xfer_id = 0, close_log = []\<rparr>,
         storage_list = Some [\<lparr>si_bdev = 7, si_partitions = [demo_boot_a, demo_boot_b]\<rparr>],
         set_verify_flag = False, verify_all_partitions = False, verify_list = []\<rparr>\<rparr>"

text \<open>
  The list of private partitions can be bypassed: a private name is hidden without a suffix and
  with either suffix, but with \<open>_b_a\<close> behind it the lookup accepts it as an ordinary partition name,
  and that name opens the partition whose stored name is the private name with \<open>_b\<close>.
\<close>

theorem private_partition_reachable:
  assumes "p \<in> set tegrabl_nv_private_partition_list"
  shows "tegrabl_fastboot_get_partinfo p = None \<and>
    tegrabl_fastboot_get_partinfo (p @ BOOT_CHAIN_SUFFIX_A) = None \<and>
    tegrabl_fastboot_get_partinfo (p @ BOOT_CHAIN_SUFFIX_B) = None \<and>
    (\<exists>i. tegrabl_fastboot_get_partinfo (p @ BOOT_CHAIN_SUFFIX_B @ BOOT_CHAIN_SUFFIX_A) = Some i \<and>
      match_partition_name (p @ BOOT_CHAIN_SUFFIX_B) (tegra_part_name i))"
proof -
  have "list_all (\<lambda>p. match_partition_name (p @ BOOT_CHAIN_SUFFIX_B) (p @ BOOT_CHAIN_SUFFIX_B @ BOOT_CHAIN_SUFFIX_A))
      tegrabl_nv_private_partition_list"
    by code_simp
  then show ?thesis using assms private_lookup by (force simp: list_all_iff)
qed

text \<open>
  The download buffer is allocated once, with the size of the first download: a second download
  that is larger, although within the announced maximum, is received past the end of the buffer.
\<close>

theorem download_second_overflow:
  assumes "\<not> locked fo (platform s)" and "\<not> is_allocated s"
    and "usb_works fo len1 data1" and "usb_works fo len2 data2"
    and "len1 = hex2uint32_t arg1" and "len2 = hex2uint32_t arg2"
    and "len1 < len2" and "len2 \<le> MAX_DOWNLOAD_SIZE"
    and "length data1 = unat len1" and "length data2 = unat len2"
    and "cfg_alloc cfg 6 4096 (ucast len1) = Some a"
  shows "\<exists>s1. cmd_download fo cfg arg1 s = Fb_done s1 \<and> cmd_download fo cfg arg2 s1 = Fb_corrupt"
proof -
  have "len1 \<le> MAX_DOWNLOAD_SIZE" using assms(7,8) by simp
  from download_command [OF assms(1,3,5) this assms(9), of a "unat len1" "replicate (unat len1) 0" cfg] assms(2,11)
  obtain s1 where s1: "cmd_download fo cfg arg1 s = Fb_done s1" "download_base s1 = Some (a, unat len1, overwrite 0 data1 (replicate (unat len1) 0))"
    "is_allocated s1" "\<not> locked fo (platform s1)" by auto
  have "unat len1 < unat len2" using assms(7) by (simp add: word_less_nat_alt)
  with download_command [OF s1(4) assms(4,6,8,10) s1(2)] s1(1,3) assms(9)
  show ?thesis by auto
qed

end
