(* ===== verification/Ivc.thy ===== *)
theory Ivc
  imports Prelude
begin

text \<open>
  Inter-VM communication channels (\<open>lib/ipc/tegra-ivc.c\<close>): two endpoints that share two channels, one
  per direction, each a header with counters and a ring of frames.

  The shared memory maps the address of a channel to its header and the frames behind it. The fields
  of a header are written by one endpoint each: \<open>w_count\<close>, \<open>state\<close> and the frames by the transmitter,
  \<open>r_count\<close> by the receiver. Memory is coherent: the cache hooks are the empty default ones, barriers
  order accesses that the model orders anyway. An operation returns \<open>Inl\<close> the error number or \<open>Inr\<close>
  its value; calls of the notification hook are the flag of the result. The assertions are compiled
  out, as without \<open>IVC_DEBUG\<close>.
\<close>

datatype errno = E2BIG | ECONNRESET | ENOMEM | EAGAIN | EINVAL

abbreviation (input) ivc_state_established :: u32 where "ivc_state_established \<equiv> 0"
abbreviation (input) ivc_state_sync :: u32 where "ivc_state_sync \<equiv> 1"
abbreviation (input) ivc_state_ack :: u32 where "ivc_state_ack \<equiv> 2"

record ivc_channel_header =
  w_count :: u32
  ch_state :: u32
  r_count :: u32
  ch_frames :: bytes

type_synonym ivc_mem = "u64 \<Rightarrow> ivc_channel_header"

record ivc =
  rx_channel :: u64
  tx_channel :: u64
  w_pos :: u32
  r_pos :: u32
  nframes :: u32
  frame_size :: u32

section \<open>Counters\<close>

definition ivc_channel_empty :: "ivc \<Rightarrow> ivc_channel_header \<Rightarrow> bool" where
  "ivc_channel_empty ivc ch =
     (if w_count ch - r_count ch > nframes ivc then True else w_count ch = r_count ch)"

definition ivc_channel_full :: "ivc \<Rightarrow> ivc_channel_header \<Rightarrow> bool" where
  "ivc_channel_full ivc ch \<longleftrightarrow> w_count ch - r_count ch \<ge> nframes ivc"

definition ivc_channel_avail_count :: "ivc_channel_header \<Rightarrow> u32" where
  "ivc_channel_avail_count ch = w_count ch - r_count ch"

definition ivc_advance_tx :: "ivc \<Rightarrow> ivc_mem \<Rightarrow> ivc \<times> ivc_mem" where
  "ivc_advance_tx ivc m =
     (ivc\<lparr>w_pos := if w_pos ivc = nframes ivc - 1 then 0 else w_pos ivc + 1\<rparr>,
      m(tx_channel ivc := (m (tx_channel ivc))\<lparr>w_count := w_count (m (tx_channel ivc)) + 1\<rparr>))"

definition ivc_advance_rx :: "ivc \<Rightarrow> ivc_mem \<Rightarrow> ivc \<times> ivc_mem" where
  "ivc_advance_rx ivc m =
     (ivc\<lparr>r_pos := if r_pos ivc = nframes ivc - 1 then 0 else r_pos ivc + 1\<rparr>,
      m(rx_channel ivc := (m (rx_channel ivc))\<lparr>r_count := r_count (m (rx_channel ivc)) + 1\<rparr>))"

text \<open>The counters are looked at twice; the second look, after a cache invalidation, only differs when
  the other endpoint moved in between.\<close>

definition ivc_check_read :: "ivc \<Rightarrow> ivc_mem \<Rightarrow> errno option" where
  "ivc_check_read ivc m =
     (if ch_state (m (tx_channel ivc)) \<noteq> ivc_state_established then Some ECONNRESET
      else if \<not> ivc_channel_empty ivc (m (rx_channel ivc)) then None
      else if ivc_channel_empty ivc (m (rx_channel ivc)) then Some ENOMEM else None)"

definition ivc_check_write :: "ivc \<Rightarrow> ivc_mem \<Rightarrow> errno option" where
  "ivc_check_write ivc m =
     (if ch_state (m (tx_channel ivc)) \<noteq> ivc_state_established then Some ECONNRESET
      else if \<not> ivc_channel_full ivc (m (tx_channel ivc)) then None
      else if ivc_channel_full ivc (m (tx_channel ivc)) then Some ENOMEM else None)"

definition tegra_ivc_can_read :: "ivc \<Rightarrow> ivc_mem \<Rightarrow> bool" where
  "tegra_ivc_can_read ivc m \<longleftrightarrow> ivc_check_read ivc m = None"

definition tegra_ivc_can_write :: "ivc \<Rightarrow> ivc_mem \<Rightarrow> bool" where
  "tegra_ivc_can_write ivc m \<longleftrightarrow> ivc_check_write ivc m = None"

definition tegra_ivc_tx_empty :: "ivc \<Rightarrow> ivc_mem \<Rightarrow> bool" where
  "tegra_ivc_tx_empty ivc m \<longleftrightarrow> ivc_channel_empty ivc (m (tx_channel ivc))"

section \<open>Reading and writing\<close>

text \<open>A frame's place behind the header; the product is a 32-bit one.\<close>

definition frame_offset :: "ivc \<Rightarrow> u32 \<Rightarrow> nat" where
  "frame_offset ivc frame = unat (frame_size ivc * frame)"

definition ivc_frame_pointer :: "ivc \<Rightarrow> u64 \<Rightarrow> u32 \<Rightarrow> u64" where
  "ivc_frame_pointer ivc ch frame = ch + 128 + ucast (frame_size ivc * frame)"

text \<open>Whether the other endpoint is notified after an advance.\<close>

definition read_notifies :: "ivc \<Rightarrow> ivc_mem \<Rightarrow> bool" where
  "read_notifies ivc m \<longleftrightarrow> ivc_channel_avail_count (m (rx_channel ivc)) = nframes ivc - 1"

definition write_notifies :: "ivc \<Rightarrow> ivc_mem \<Rightarrow> bool" where
  "write_notifies ivc m \<longleftrightarrow> ivc_channel_avail_count (m (tx_channel ivc)) = 1"

definition read_frame :: "ivc \<Rightarrow> nat \<Rightarrow> nat \<Rightarrow> ivc_mem \<Rightarrow> bytes" where
  "read_frame ivc off count m =
     subrange (frame_offset ivc (r_pos ivc) + off) count (ch_frames (m (rx_channel ivc)))"

definition poke_frame :: "ivc \<Rightarrow> nat \<Rightarrow> bytes \<Rightarrow> ivc_mem \<Rightarrow> ivc_mem" where
  "poke_frame ivc off data m =
     m(tx_channel ivc := (m (tx_channel ivc))\<lparr>ch_frames :=
         overwrite (frame_offset ivc (w_pos ivc) + off) data (ch_frames (m (tx_channel ivc)))\<rparr>)"

definition write_frame :: "ivc \<Rightarrow> bytes \<Rightarrow> ivc_mem \<Rightarrow> ivc_mem" where
  "write_frame ivc data m =
     poke_frame ivc (length data) (replicate (unat (frame_size ivc) - length data) 0) (poke_frame ivc 0 data m)"

definition tegra_ivc_read ::
  "ivc \<Rightarrow> u64 \<Rightarrow> ivc_mem \<Rightarrow> (errno, bytes \<times> bool) sum \<times> ivc \<times> ivc_mem"
where
  "tegra_ivc_read ivc max_read m =
     (if max_read > ucast (frame_size ivc) then (Inl E2BIG, ivc, m)
      else
        (case ivc_check_read ivc m of
           Some e \<Rightarrow> (Inl e, ivc, m)
         | None \<Rightarrow>
             let data = read_frame ivc 0 (unat max_read) m in
             case ivc_advance_rx ivc m of (ivc, m) \<Rightarrow> (Inr (data, read_notifies ivc m), ivc, m)))"

text \<open>\<open>None\<close> is a copy that leaves the frame: the sum \<open>off + count\<close> can wrap.\<close>

definition peek_ok :: "ivc \<Rightarrow> u64 \<Rightarrow> u64 \<Rightarrow> bool" where
  "peek_ok ivc off count \<longleftrightarrow> \<not> (off > ucast (frame_size ivc) \<or> off + count > ucast (frame_size ivc))"

definition tegra_ivc_read_peek :: "ivc \<Rightarrow> u64 \<Rightarrow> u64 \<Rightarrow> ivc_mem \<Rightarrow> (errno, bytes) sum option" where
  "tegra_ivc_read_peek ivc off count m =
     (if \<not> peek_ok ivc off count then Some (Inl E2BIG)
      else
        (case ivc_check_read ivc m of
           Some e \<Rightarrow> Some (Inl e)
         | None \<Rightarrow>
             if unat off + unat count > unat (frame_size ivc) then None
             else Some (Inr (read_frame ivc (unat off) (unat count) m))))"

text \<open>The pointer operations return the address of the frame, \<open>None\<close> for NULL.\<close>

definition tegra_ivc_read_get_next_frame :: "ivc \<Rightarrow> ivc_mem \<Rightarrow> u64 option" where
  "tegra_ivc_read_get_next_frame ivc m =
     (if ivc_check_read ivc m \<noteq> None then None
      else Some (ivc_frame_pointer ivc (rx_channel ivc) (r_pos ivc)))"

definition tegra_ivc_read_advance :: "ivc \<Rightarrow> ivc_mem \<Rightarrow> (errno, bool) sum \<times> ivc \<times> ivc_mem" where
  "tegra_ivc_read_advance ivc m =
     (case ivc_check_read ivc m of
        Some e \<Rightarrow> (Inl e, ivc, m)
      | None \<Rightarrow> (case ivc_advance_rx ivc m of (ivc, m) \<Rightarrow> (Inr (read_notifies ivc m), ivc, m)))"

text \<open>\<open>buf\<close> holds at least \<open>n\<close> (\<open>size\<close>) bytes.\<close>

definition tegra_ivc_write ::
  "ivc \<Rightarrow> bytes \<Rightarrow> u64 \<Rightarrow> ivc_mem \<Rightarrow> (errno, bool) sum \<times> ivc \<times> ivc_mem"
where
  "tegra_ivc_write ivc buf n m =
     (if n > ucast (frame_size ivc) then (Inl E2BIG, ivc, m)
      else
        (case ivc_check_write ivc m of
           Some e \<Rightarrow> (Inl e, ivc, m)
         | None \<Rightarrow>
             let m = write_frame ivc (take (unat n) buf) m in
             case ivc_advance_tx ivc m of (ivc, m) \<Rightarrow> (Inr (write_notifies ivc m), ivc, m)))"

definition tegra_ivc_write_poke ::
  "ivc \<Rightarrow> bytes \<Rightarrow> u64 \<Rightarrow> u64 \<Rightarrow> ivc_mem \<Rightarrow> ((errno, unit) sum \<times> ivc_mem) option"
where
  "tegra_ivc_write_poke ivc buf off count m =
     (if \<not> peek_ok ivc off count then Some (Inl E2BIG, m)
      else
        (case ivc_check_write ivc m of
           Some e \<Rightarrow> Some (Inl e, m)
         | None \<Rightarrow>
             if unat off + unat count > unat (frame_size ivc) then None
             else Some (Inr (), poke_frame ivc (unat off) (take (unat count) buf) m)))"

definition tegra_ivc_write_get_next_frame :: "ivc \<Rightarrow> ivc_mem \<Rightarrow> u64 option" where
  "tegra_ivc_write_get_next_frame ivc m =
     (if ivc_check_write ivc m \<noteq> None then None
      else Some (ivc_frame_pointer ivc (tx_channel ivc) (w_pos ivc)))"

definition tegra_ivc_write_advance :: "ivc \<Rightarrow> ivc_mem \<Rightarrow> (errno, bool) sum \<times> ivc \<times> ivc_mem" where
  "tegra_ivc_write_advance ivc m =
     (case ivc_check_write ivc m of
        Some e \<Rightarrow> (Inl e, ivc, m)
      | None \<Rightarrow> (case ivc_advance_tx ivc m of (ivc, m) \<Rightarrow> (Inr (write_notifies ivc m), ivc, m)))"

section \<open>Reset and synchronisation\<close>

definition set_state :: "u32 \<Rightarrow> ivc \<Rightarrow> ivc_mem \<Rightarrow> ivc_mem" where
  "set_state s ivc m = m(tx_channel ivc := (m (tx_channel ivc))\<lparr>ch_state := s\<rparr>)"

definition tegra_ivc_channel_reset :: "ivc \<Rightarrow> ivc_mem \<Rightarrow> ivc_mem" where
  "tegra_ivc_channel_reset ivc m = set_state ivc_state_sync ivc m"

text \<open>Resetting the counters this endpoint owns, one store after the other, and its positions.\<close>

definition clear_tx :: "ivc \<Rightarrow> ivc_mem \<Rightarrow> ivc_mem" where
  "clear_tx ivc m = m(tx_channel ivc := (m (tx_channel ivc))\<lparr>w_count := 0\<rparr>)"

definition clear_rx :: "ivc \<Rightarrow> ivc_mem \<Rightarrow> ivc \<times> ivc_mem" where
  "clear_rx ivc m =
     (ivc\<lparr>w_pos := 0, r_pos := 0\<rparr>, m(rx_channel ivc := (m (rx_channel ivc))\<lparr>r_count := 0\<rparr>))"

text \<open>What the endpoint does once it has copied the state of its peer: whether it resets its counters,
  and the state it moves to, if any (then it also notifies the peer).\<close>

definition notified_action :: "u32 \<Rightarrow> u32 \<Rightarrow> bool \<times> u32 option" where
  "notified_action own peer_state =
     (if peer_state = ivc_state_sync then (True, Some ivc_state_ack)
      else if own = ivc_state_sync \<and> peer_state = ivc_state_ack then (True, Some ivc_state_established)
      else if own = ivc_state_ack then (False, Some ivc_state_established)
      else (False, None))"

definition tegra_ivc_channel_notified ::
  "ivc \<Rightarrow> ivc_mem \<Rightarrow> (errno, unit) sum \<times> bool \<times> ivc \<times> ivc_mem"
where
  "tegra_ivc_channel_notified ivc m =
     (let peer_state = ch_state (m (rx_channel ivc));
          (clear, new) = notified_action (ch_state (m (tx_channel ivc))) peer_state;
          (ivc, m) = (if clear then clear_rx ivc (clear_tx ivc m) else (ivc, m));
          m = (case new of None \<Rightarrow> m | Some s \<Rightarrow> set_state s ivc m)
      in (if ch_state (m (tx_channel ivc)) = ivc_state_established then Inr () else Inl EAGAIN,
          new \<noteq> None, ivc, m))"

definition tegra_ivc_channel_sync :: "ivc option \<Rightarrow> ivc_mem \<Rightarrow> (errno, unit) sum \<times> ivc option" where
  "tegra_ivc_channel_sync ivc m =
     (case ivc of
        None \<Rightarrow> (Inl EINVAL, None)
      | Some i \<Rightarrow>
          if nframes i = 0 then (Inl EINVAL, ivc)
          else (Inr (), Some (i\<lparr>w_pos := w_count (m (tx_channel i)) mod nframes i,
                                r_pos := r_count (m (rx_channel i)) mod nframes i\<rparr>)))"

section \<open>Initialisation\<close>

definition tegra_ivc_align :: "u64 \<Rightarrow> u64" where
  "tegra_ivc_align n = (n + 63) AND NOT 63"

definition tegra_ivc_total_queue_size :: "u32 \<Rightarrow> u32" where
  "tegra_ivc_total_queue_size queue_size =
     (if queue_size AND 63 \<noteq> 0 then 0 else queue_size + 128)"

definition check_ivc_params :: "u64 \<Rightarrow> u64 \<Rightarrow> u32 \<Rightarrow> u32 \<Rightarrow> errno option" where
  "check_ivc_params queue_base1 queue_base2 nfr fsize =
     (if (ucast nfr :: u64) * ucast fsize \<ge> 0x100000000 then Some EINVAL
      else if queue_base1 AND 63 \<noteq> 0 then Some EINVAL
      else if queue_base2 AND 63 \<noteq> 0 then Some EINVAL
      else if fsize AND 63 \<noteq> 0 then Some EINVAL
      else if queue_base1 < queue_base2
      then (if queue_base1 + ucast (fsize * nfr) > queue_base2 then Some EINVAL else None)
      else (if queue_base2 + ucast (fsize * nfr) > queue_base1 then Some EINVAL else None))"

definition tegra_ivc_init :: "u64 \<Rightarrow> u64 \<Rightarrow> u32 \<Rightarrow> u32 \<Rightarrow> ivc \<Rightarrow> (errno, unit) sum \<times> ivc" where
  "tegra_ivc_init rx_base tx_base nfr fsize ivc =
     (case check_ivc_params rx_base tx_base nfr fsize of
        Some e \<Rightarrow> (Inl e, ivc)
      | None \<Rightarrow>
          if fsize > 0x80000000 then (Inl E2BIG, ivc)
          else (Inr (), \<lparr>rx_channel = rx_base, tx_channel = tx_base, w_pos = 0, r_pos = 0, nframes = nfr,
                        frame_size = fsize\<rparr>))"

end
