(* ===== verification/Ivc_Pair.thy ===== *)
theory Ivc_Pair
  imports Ivc "HOL-Library.Sublist"
begin

text \<open>
  Two endpoints of an IVC link running concurrently. A call of \<open>tegra_ivc_write\<close>, \<open>tegra_ivc_read\<close> or
  \<open>tegra_ivc_channel_notified\<close> is cut at its accesses to shared memory, so that every interleaving of
  the two sides is a run of the step relation. The theory shows that an endpoint only changes what it
  owns (its \<open>view\<close>), and an invariant of all runs that start with a reset: which states the endpoints can
  be in while they are inside a call, and, when neither is resynchronising, that the counters, positions
  and frames in memory are those of the frames sent and received.
\<close>

section \<open>Two endpoints\<close>

datatype side = Here | There

fun other :: "side \<Rightarrow> side" where
  "other Here = There"
| "other There = Here"

lemma other_other [simp]: "other (other x) = x" and other_neq [simp]: "other x \<noteq> x" "x \<noteq> other x"
  by (cases x; simp)+

text \<open>Where an endpoint is inside a call, with the values it has read so far.\<close>

datatype pc = Idle | Wr_checked bytes | Wr_copied bytes | Rd_checked | Rd_copied bytes
  | Nt_read u32 | Nt_cleared u32 | Nt_set u32

record endpoint =
  ep_ivc :: ivc
  ep_pc :: pc
  sent :: "bytes list"
  rcvd :: "bytes list"

record ivc_sys =
  mem :: ivc_mem
  ep :: "side \<Rightarrow> endpoint"

abbreviation (input) upd_ep :: "side \<Rightarrow> (endpoint \<Rightarrow> endpoint) \<Rightarrow> ivc_sys \<Rightarrow> ivc_sys" where
  "upd_ep x f s \<equiv> s\<lparr>ep := (ep s)(x := f (ep s x))\<rparr>"

inductive ivc_step :: "side \<Rightarrow> ivc_sys \<Rightarrow> ivc_sys \<Rightarrow> bool" for x where
  write_check: "ep_pc (ep s x) = Idle \<Longrightarrow> length d \<le> unat (frame_size (ep_ivc (ep s x))) \<Longrightarrow>
    ivc_check_write (ep_ivc (ep s x)) (mem s) = None \<Longrightarrow>
    ivc_step x s (upd_ep x (\<lambda>e. e\<lparr>ep_pc := Wr_checked d\<rparr>) s)"
| write_copy: "ep_pc (ep s x) = Wr_checked d \<Longrightarrow>
    ivc_step x s ((upd_ep x (\<lambda>e. e\<lparr>ep_pc := Wr_copied (d @ replicate (unat (frame_size (ep_ivc e)) - length d) 0)\<rparr>) s)
      \<lparr>mem := write_frame (ep_ivc (ep s x)) d (mem s)\<rparr>)"
| write_advance: "ep_pc (ep s x) = Wr_copied f \<Longrightarrow> ivc_advance_tx (ep_ivc (ep s x)) (mem s) = (i, m) \<Longrightarrow>
    ivc_step x s ((upd_ep x (\<lambda>e. e\<lparr>ep_ivc := i, ep_pc := Idle, sent := sent e @ [f]\<rparr>) s)\<lparr>mem := m\<rparr>)"
| read_check: "ep_pc (ep s x) = Idle \<Longrightarrow> ivc_check_read (ep_ivc (ep s x)) (mem s) = None \<Longrightarrow>
    ivc_step x s (upd_ep x (\<lambda>e. e\<lparr>ep_pc := Rd_checked\<rparr>) s)"
| read_copy: "ep_pc (ep s x) = Rd_checked \<Longrightarrow>
    ivc_step x s (upd_ep x (\<lambda>e. e\<lparr>ep_pc :=
      Rd_copied (read_frame (ep_ivc e) 0 (unat (frame_size (ep_ivc e))) (mem s))\<rparr>) s)"
| read_advance: "ep_pc (ep s x) = Rd_copied f \<Longrightarrow> ivc_advance_rx (ep_ivc (ep s x)) (mem s) = (i, m) \<Longrightarrow>
    ivc_step x s ((upd_ep x (\<lambda>e. e\<lparr>ep_ivc := i, ep_pc := Idle, rcvd := rcvd e @ [f]\<rparr>) s)\<lparr>mem := m\<rparr>)"
| notified_read: "ep_pc (ep s x) = Idle \<Longrightarrow>
    ivc_step x s (upd_ep x (\<lambda>e. e\<lparr>ep_pc := Nt_read (ch_state (mem s (rx_channel (ep_ivc e))))\<rparr>) s)"
| notified_clear: "ep_pc (ep s x) = Nt_read p \<Longrightarrow>
    notified_action (ch_state (mem s (tx_channel (ep_ivc (ep s x))))) p = (True, Some st) \<Longrightarrow>
    ivc_step x s ((upd_ep x (\<lambda>e. e\<lparr>ep_pc := Nt_cleared st, sent := []\<rparr>) s)
      \<lparr>mem := clear_tx (ep_ivc (ep s x)) (mem s)\<rparr>)"
| notified_clear_rx: "ep_pc (ep s x) = Nt_cleared st \<Longrightarrow> clear_rx (ep_ivc (ep s x)) (mem s) = (i, m) \<Longrightarrow>
    ivc_step x s ((upd_ep x (\<lambda>e. e\<lparr>ep_ivc := i, ep_pc := Nt_set st, rcvd := []\<rparr>) s)\<lparr>mem := m\<rparr>)"
| notified_keep: "ep_pc (ep s x) = Nt_read p \<Longrightarrow>
    notified_action (ch_state (mem s (tx_channel (ep_ivc (ep s x))))) p = (False, new) \<Longrightarrow>
    ivc_step x s (upd_ep x (\<lambda>e. e\<lparr>ep_pc := (case new of None \<Rightarrow> Idle | Some st \<Rightarrow> Nt_set st)\<rparr>) s)"
| notified_set: "ep_pc (ep s x) = Nt_set st \<Longrightarrow>
    ivc_step x s ((upd_ep x (\<lambda>e. e\<lparr>ep_pc := Idle\<rparr>) s)\<lparr>mem := set_state st (ep_ivc (ep s x)) (mem s)\<rparr>)"

inductive ivc_run :: "ivc_sys \<Rightarrow> ivc_sys \<Rightarrow> bool" where
  run_refl: "ivc_run s s"
| run_step: "ivc_run s s' \<Longrightarrow> ivc_step x s' s'' \<Longrightarrow> ivc_run s s''"

section \<open>Views\<close>

text \<open>What belongs to one endpoint: the state, the write counter and the frames of its transmit channel,
  the read counter of its receive channel, its positions, its place in a call and its history.\<close>

record half =
  vs :: u32
  vw :: u32
  vr :: u32
  vwp :: nat
  vrp :: nat
  vfr :: bytes
  vpc :: pc
  vsent :: "bytes list"
  vrcvd :: "bytes list"

definition chan :: "ivc_sys \<Rightarrow> side \<Rightarrow> ivc_channel_header" where
  "chan s x = mem s (tx_channel (ep_ivc (ep s x)))"

definition view :: "ivc_sys \<Rightarrow> side \<Rightarrow> half" where
  "view s x = \<lparr>vs = ch_state (chan s x), vw = w_count (chan s x), vr = r_count (chan s (other x)),
     vwp = unat (w_pos (ep_ivc (ep s x))), vrp = unat (r_pos (ep_ivc (ep s x))),
     vfr = ch_frames (chan s x), vpc = ep_pc (ep s x), vsent = sent (ep s x), vrcvd = rcvd (ep s x)\<rparr>"

text \<open>How the endpoints are connected; this never changes.\<close>

definition wired :: "nat \<Rightarrow> nat \<Rightarrow> ivc_sys \<Rightarrow> bool" where
  "wired n fs s \<longleftrightarrow>
     0 < n \<and> n * fs < 2 ^ 32 \<and>
     tx_channel (ep_ivc (ep s Here)) \<noteq> tx_channel (ep_ivc (ep s There)) \<and>
     (\<forall>x. rx_channel (ep_ivc (ep s x)) = tx_channel (ep_ivc (ep s (other x))) \<and>
        unat (nframes (ep_ivc (ep s x))) = n \<and> unat (frame_size (ep_ivc (ep s x))) = fs)"

text \<open>A step of an endpoint with view \<open>v\<close> while its peer has view \<open>u\<close>.\<close>

inductive vstep :: "nat \<Rightarrow> nat \<Rightarrow> half \<Rightarrow> half \<Rightarrow> half \<Rightarrow> bool" for n fs v u where
  v_write_check: "vpc v = Idle \<Longrightarrow> vs v = 0 \<Longrightarrow> length d \<le> fs \<Longrightarrow> unat (vw v - vr u) < n \<Longrightarrow>
    vstep n fs v u (v\<lparr>vpc := Wr_checked d\<rparr>)"
| v_write_copy: "vpc v = Wr_checked d \<Longrightarrow> f = d @ replicate (fs - length d) 0 \<Longrightarrow>
    vstep n fs v u (v\<lparr>vpc := Wr_copied f, vfr := overwrite (vwp v * fs) f (vfr v)\<rparr>)"
| v_write_advance: "vpc v = Wr_copied f \<Longrightarrow>
    vstep n fs v u (v\<lparr>vpc := Idle, vw := vw v + 1, vwp := (vwp v + 1) mod n, vsent := vsent v @ [f]\<rparr>)"
| v_read_check: "vpc v = Idle \<Longrightarrow> vs v = 0 \<Longrightarrow> 0 < unat (vw u - vr v) \<Longrightarrow> unat (vw u - vr v) \<le> n \<Longrightarrow>
    vstep n fs v u (v\<lparr>vpc := Rd_checked\<rparr>)"
| v_read_copy: "vpc v = Rd_checked \<Longrightarrow>
    vstep n fs v u (v\<lparr>vpc := Rd_copied (subrange (vrp v * fs) fs (vfr u))\<rparr>)"
| v_read_advance: "vpc v = Rd_copied f \<Longrightarrow>
    vstep n fs v u (v\<lparr>vpc := Idle, vr := vr v + 1, vrp := (vrp v + 1) mod n, vrcvd := vrcvd v @ [f]\<rparr>)"
| v_notified_read: "vpc v = Idle \<Longrightarrow> vstep n fs v u (v\<lparr>vpc := Nt_read (vs u)\<rparr>)"
| v_notified_clear: "vpc v = Nt_read p \<Longrightarrow> notified_action (vs v) p = (True, Some q) \<Longrightarrow>
    vstep n fs v u (v\<lparr>vpc := Nt_cleared q, vw := 0, vsent := []\<rparr>)"
| v_notified_clear_rx: "vpc v = Nt_cleared q \<Longrightarrow>
    vstep n fs v u (v\<lparr>vpc := Nt_set q, vr := 0, vwp := 0, vrp := 0, vrcvd := []\<rparr>)"
| v_notified_keep: "vpc v = Nt_read p \<Longrightarrow> notified_action (vs v) p = (False, new) \<Longrightarrow>
    vstep n fs v u (v\<lparr>vpc := (case new of None \<Rightarrow> Idle | Some q \<Rightarrow> Nt_set q)\<rparr>)"
| v_notified_set: "vpc v = Nt_set q \<Longrightarrow> vstep n fs v u (v\<lparr>vpc := Idle, vs := q\<rparr>)"

definition vok :: "nat \<Rightarrow> nat \<Rightarrow> half \<Rightarrow> bool" where
  "vok n fs v \<longleftrightarrow> vwp v < n \<and> vrp v < n \<and> length (vfr v) = n * fs \<and>
     (\<forall>d. vpc v = Wr_checked d \<longrightarrow> length d \<le> fs)"

lemma wired_chans:
  assumes "wired n fs s"
  shows "tx_channel (ep_ivc (ep s x)) \<noteq> tx_channel (ep_ivc (ep s (other x)))"
    "tx_channel (ep_ivc (ep s (other x))) \<noteq> tx_channel (ep_ivc (ep s x))"
    "rx_channel (ep_ivc (ep s x)) = tx_channel (ep_ivc (ep s (other x)))"
    "unat (nframes (ep_ivc (ep s x))) = n" "unat (frame_size (ep_ivc (ep s x))) = fs"
proof -
  have a: "tx_channel (ep_ivc (ep s Here)) \<noteq> tx_channel (ep_ivc (ep s There))"
    and b: "\<And>x. rx_channel (ep_ivc (ep s x)) = tx_channel (ep_ivc (ep s (other x)))"
    "\<And>x. unat (nframes (ep_ivc (ep s x))) = n" "\<And>x. unat (frame_size (ep_ivc (ep s x))) = fs"
    using assms unfolding wired_def by blast+
  show "rx_channel (ep_ivc (ep s x)) = tx_channel (ep_ivc (ep s (other x)))"
    "unat (nframes (ep_ivc (ep s x))) = n" "unat (frame_size (ep_ivc (ep s x))) = fs"
    by (rule b)+
  show "tx_channel (ep_ivc (ep s x)) \<noteq> tx_channel (ep_ivc (ep s (other x)))"
    "tx_channel (ep_ivc (ep s (other x))) \<noteq> tx_channel (ep_ivc (ep s x))"
    using a by (cases x, simp_all)+
qed

lemma slot_offset:
  assumes "wired n fs s" and "unat p < n"
  shows "frame_offset (ep_ivc (ep s x)) p = unat p * fs"
proof -
  have "fs * unat p \<le> fs * n" using assms(2) by simp
  also have "\<dots> < 2 ^ 32" using assms(1) by (simp add: wired_def mult.commute)
  finally show ?thesis
    using wired_chans(5) [OF assms(1), of x] by (simp add: frame_offset_def unat_word_ariths mult.commute)
qed

lemma next_pos:
  fixes p n :: u32
  assumes "unat p < unat n"
  shows "unat (if p = n - 1 then 0 else p + 1) = (unat p + 1) mod unat n"
proof -
  have n: "unat (n - 1) = unat n - 1" using assms by (intro unat_minus_one) auto
  show ?thesis
  proof (cases "p = n - 1")
    case True
    then show ?thesis using assms n by simp
  next
    case False
    then have "unat p \<noteq> unat n - 1" using n by (metis word_unat_eq_iff)
    then have "unat p + 1 < unat n" using assms by simp
    moreover from this have "unat (p + 1) = unat p + 1"
      using unat_u32_bound [of n] by (simp add: unat_word_ariths)
    ultimately show ?thesis using False by simp
  qed
qed

lemma step_view:
  assumes "wired n fs s" and "vok n fs (view s x)" and "ivc_step x s s'"
  shows "wired n fs s'" "vstep n fs (view s x) (view s (other x)) (view s' x)"
    "view s' (other x) = view s (other x)"
proof -
  note W = wired_chans [OF assms(1), of x]
  show "wired n fs s'"
    using assms(3)
    by cases (use assms(1) in \<open>auto simp: wired_def ivc_advance_tx_def ivc_advance_rx_def clear_rx_def\<close>)
  show "view s' (other x) = view s (other x)"
    using assms(3)
    by cases (use W in \<open>auto simp: view_def chan_def ivc_advance_tx_def ivc_advance_rx_def clear_rx_def clear_tx_def
      set_state_def write_frame_def poke_frame_def\<close>)
  let ?v = "view s x" and ?u = "view s (other x)" and ?i = "ep_ivc (ep s x)"
  have pos: "unat (w_pos ?i) < n" "unat (r_pos ?i) < n" "length (ch_frames (mem s (tx_channel ?i))) = n * fs"
    using assms(2) by (simp_all add: vok_def view_def chan_def)
  note E = view_def chan_def W
  have P: "vpc ?v = ep_pc (ep s x)" "vs ?v = ch_state (mem s (tx_channel ?i))" by (simp_all add: view_def chan_def)
  show "vstep n fs ?v ?u (view s' x)"
    using assms(3)
  proof cases
    case (write_check d)
    have "view s' x = ?v\<lparr>vpc := Wr_checked d\<rparr>" using write_check by (simp add: E)
    moreover have "vs ?v = 0" "unat (vw ?v - vr ?u) < n"
      using write_check(4) W by (auto simp: E ivc_check_write_def ivc_channel_full_def word_le_nat_alt split: if_splits)
    ultimately show ?thesis using write_check(2,3) P W(5) by (simp add: v_write_check)
  next
    case (write_copy d)
    have dle: "length d \<le> fs" using assms(2) write_copy(2) by (simp add: vok_def view_def)
    let ?z = "replicate (fs - length d) 0"
    have "view s' x = ?v\<lparr>vpc := Wr_copied (d @ ?z), vfr := overwrite (vwp ?v * fs) (d @ ?z) (vfr ?v)\<rparr>"
    proof -
      have "unat (w_pos ?i) * fs + length d + length ?z \<le> n * fs"
        using pos(1) dle mult_le_mono1 [of "Suc (unat (w_pos ?i))" n fs] by simp
      then show ?thesis
        using write_copy slot_offset [OF assms(1) pos(1), of x] pos(3)
          overwrite_append [of "unat (w_pos ?i) * fs" d ?z "ch_frames (mem s (tx_channel ?i))"]
        by (simp add: E write_frame_def poke_frame_def)
    qed
    then show ?thesis using write_copy(2) P by (simp add: v_write_copy)
  next
    case (write_advance f i m)
    have "view s' x = ?v\<lparr>vpc := Idle, vw := vw ?v + 1, vwp := (vwp ?v + 1) mod n, vsent := vsent ?v @ [f]\<rparr>"
      using write_advance next_pos [of "w_pos ?i" "nframes ?i"] pos W by (auto simp: E ivc_advance_tx_def)
    then show ?thesis using v_write_advance [of ?v f n fs ?u] write_advance(2) P by simp
  next
    case read_check
    have "view s' x = ?v\<lparr>vpc := Rd_checked\<rparr>" using read_check by (simp add: E)
    moreover have "vs ?v = 0" "0 < unat (vw ?u - vr ?v)" "unat (vw ?u - vr ?v) \<le> n"
      using read_check(3) W
      by (auto simp: E ivc_check_read_def ivc_channel_empty_def word_less_nat_alt unat_gt_0 split: if_splits)
    ultimately show ?thesis using read_check(2) P by (simp add: v_read_check)
  next
    case read_copy
    have "view s' x = ?v\<lparr>vpc := Rd_copied (subrange (vrp ?v * fs) fs (vfr ?u))\<rparr>"
      using read_copy slot_offset [OF assms(1) pos(2), of x] by (simp add: E read_frame_def)
    then show ?thesis using read_copy(2) P by (simp add: v_read_copy)
  next
    case (read_advance f i m)
    have "view s' x = ?v\<lparr>vpc := Idle, vr := vr ?v + 1, vrp := (vrp ?v + 1) mod n, vrcvd := vrcvd ?v @ [f]\<rparr>"
      using read_advance next_pos [of "r_pos ?i" "nframes ?i"] pos W by (auto simp: E ivc_advance_rx_def)
    then show ?thesis using v_read_advance [of ?v f n fs ?u] read_advance(2) P by simp
  next
    case notified_read
    have "view s' x = ?v\<lparr>vpc := Nt_read (vs ?u)\<rparr>" using notified_read by (simp add: E)
    then show ?thesis using notified_read(2) P by (simp add: v_notified_read)
  next
    case (notified_clear p q)
    have "view s' x = ?v\<lparr>vpc := Nt_cleared q, vw := 0, vsent := []\<rparr>"
      using notified_clear by (simp add: E clear_tx_def)
    then show ?thesis using notified_clear(2,3) P by (simp add: v_notified_clear)
  next
    case (notified_clear_rx q i m)
    have "view s' x = ?v\<lparr>vpc := Nt_set q, vr := 0, vwp := 0, vrp := 0, vrcvd := []\<rparr>"
      using notified_clear_rx W by (auto simp: E clear_rx_def)
    then show ?thesis using notified_clear_rx P by (simp add: v_notified_clear_rx)
  next
    case (notified_keep p new)
    have "view s' x = ?v\<lparr>vpc := (case new of None \<Rightarrow> Idle | Some q \<Rightarrow> Nt_set q)\<rparr>"
      using notified_keep by (simp add: E)
    then show ?thesis using notified_keep(2,3) P by (simp add: v_notified_keep)
  next
    case (notified_set q)
    have "view s' x = ?v\<lparr>vpc := Idle, vs := q\<rparr>"
      using notified_set by (simp add: E set_state_def)
    then show ?thesis using notified_set(2) P by (simp add: v_notified_set)
  qed
qed

section \<open>The invariant\<close>

lemma vstep_vok:
  assumes "vok n fs v" and "0 < n" and "vstep n fs v u v'"
  shows "vok n fs v'"
  using assms(3)
proof cases
  case (v_write_copy d f)
  have "length f = fs" using assms(1) v_write_copy by (simp add: vok_def)
  then have "vwp v * fs + length f \<le> n * fs"
    using assms(1) mult_le_mono1 [of "Suc (vwp v)" n fs] by (simp add: vok_def)
  then show ?thesis using assms(1) v_write_copy by (simp add: vok_def)
qed (use assms(1,2) in \<open>auto simp: vok_def split: option.split\<close>)

definition vclean :: "half \<Rightarrow> bool" where
  "vclean v \<longleftrightarrow> vw v = 0 \<and> vr v = 0 \<and> vwp v = 0 \<and> vrp v = 0 \<and> vsent v = [] \<and> vrcvd v = []"

text \<open>Control: in which states an endpoint can be inside which call, what it then knows of its peer, and
  when its counters are clear.\<close>

fun knows :: "u32 \<Rightarrow> u32 \<Rightarrow> pc \<Rightarrow> bool" where
  "knows own peer Idle \<longleftrightarrow> True"
| "knows own peer (Nt_read q) \<longleftrightarrow>
     (q = 0 \<and> (own = 2 \<longrightarrow> peer \<noteq> 1)) \<or>
     (q = 1 \<and> (own = 0 \<longrightarrow> peer = 1) \<and> (own = 1 \<longrightarrow> peer \<noteq> 0)) \<or>
     (q = 2 \<and> (own = 1 \<longrightarrow> peer = 2) \<and> (own = 2 \<longrightarrow> peer \<noteq> 1))"
| "knows own peer (Nt_cleared q) \<longleftrightarrow>
     (q = 0 \<and> own = 1 \<and> peer = 2) \<or> (q = 2 \<and> (own = 0 \<longrightarrow> peer = 1) \<and> (own = 1 \<longrightarrow> peer \<noteq> 0))"
| "knows own peer (Nt_set q) \<longleftrightarrow>
     (q = 0 \<and> (own = 1 \<and> peer = 2 \<or> own = 2 \<and> peer \<noteq> 1)) \<or>
     (q = 2 \<and> (own = 0 \<longrightarrow> peer = 1) \<and> (own = 1 \<longrightarrow> peer \<noteq> 0))"
| "knows own peer _ \<longleftrightarrow> own = 0"

definition vctl :: "half \<Rightarrow> half \<Rightarrow> bool" where
  "vctl v u \<longleftrightarrow>
     vs v \<in> {0, 1, 2} \<and> knows (vs v) (vs u) (vpc v) \<and>
     (vs v = 1 \<and> vs u = 0 \<longrightarrow> vpc v = Idle \<or> vpc v = Nt_read 0) \<and>
     (vs v = 2 \<or> (\<exists>q. vpc v = Nt_set q) \<longrightarrow> vclean v) \<and>
     ((\<exists>q. vpc v = Nt_cleared q) \<longrightarrow> vw v = 0 \<and> vsent v = [])"

lemma action_cases:
  "notified_action own peer = (c, new) \<Longrightarrow> own \<in> {0, 1, 2} \<Longrightarrow> peer \<in> {0, 1, 2} \<Longrightarrow>
   (peer = 1 \<and> c \<and> new = Some 2) \<or> (peer = 2 \<and> own = 1 \<and> c \<and> new = Some 0) \<or>
   (peer \<noteq> 1 \<and> own = 2 \<and> \<not> c \<and> new = Some 0) \<or>
   (\<not> c \<and> new = None \<and> (own = 0 \<and> peer \<noteq> 1 \<or> own = 1 \<and> peer = 0))"
  by (auto simp: notified_action_def split: if_splits)

lemma knows_set:
  "knows own peer (Nt_set q) \<Longrightarrow> own \<in> {0, 1, 2} \<Longrightarrow> peer \<in> {0, 1, 2} \<Longrightarrow> knows peer own c \<Longrightarrow>
   (peer = 1 \<and> own = 0 \<longrightarrow> c = Idle \<or> c = Nt_read 0) \<Longrightarrow>
   knows peer q c \<and> (peer = 1 \<and> q = 0 \<longrightarrow> c = Idle \<or> c = Nt_read 0) \<and> q \<in> {0, 2}"
  by (elim insertE emptyE; hypsubst; cases c) (simp_all, auto)

lemma knows_clear:
  "knows own peer (Nt_read p) \<Longrightarrow> own \<in> {0, 1, 2} \<Longrightarrow> peer \<in> {0, 1, 2} \<Longrightarrow>
   notified_action own p = (True, Some q) \<Longrightarrow>
   (own = 1 \<and> peer = 0 \<longrightarrow> p = 0) \<Longrightarrow> knows own peer (Nt_cleared q) \<and> \<not> (own = 1 \<and> peer = 0)"
  by (elim insertE emptyE; hypsubst) (simp_all add: notified_action_def split: if_splits)

lemma knows_keep:
  "knows own peer (Nt_read p) \<Longrightarrow> own \<in> {0, 1, 2} \<Longrightarrow> peer \<in> {0, 1, 2} \<Longrightarrow>
   notified_action own p = (False, new) \<Longrightarrow>
   new = None \<or> new = Some 0 \<and> own = 2 \<and> knows own peer (Nt_set 0)"
  by (elim insertE emptyE; hypsubst) (simp_all add: notified_action_def split: if_splits)

lemma vstep_ctl:
  assumes "vctl v u" and "vctl u v" and "vstep n fs v u v'"
  shows "vctl v' u"
proof -
  have V: "vs v \<in> {0, 1, 2}" "knows (vs v) (vs u) (vpc v)" "vs u \<in> {0, 1, 2}"
    "vs v = 1 \<and> vs u = 0 \<longrightarrow> vpc v = Idle \<or> vpc v = Nt_read 0"
    "vs v = 2 \<or> (\<exists>q. vpc v = Nt_set q) \<longrightarrow> vclean v"
    "(\<exists>q. vpc v = Nt_cleared q) \<longrightarrow> vw v = 0 \<and> vsent v = []"
    using assms(1,2) unfolding vctl_def by blast+
  show ?thesis
    using assms(3)
  proof cases
    case (v_notified_clear p q)
    have "vs v = 1 \<and> vs u = 0 \<longrightarrow> p = 0" using V(4) unfolding v_notified_clear(2) by blast
    from knows_clear [OF V(2) [unfolded v_notified_clear(2)] V(1,3) v_notified_clear(3) this]
    have "knows (vs v) (vs u) (Nt_cleared q)" "\<not> (vs v = 1 \<and> vs u = 0)" by blast+
    then show ?thesis
      using V(1,5) unfolding v_notified_clear(1) vctl_def vclean_def by simp
  next
    case (v_notified_keep p new)
    from knows_keep [OF V(2) [unfolded v_notified_keep(2)] V(1,3) v_notified_keep(3)]
    consider "new = None" | "new = Some 0" "vs v = 2" "knows (vs v) (vs u) (Nt_set 0)" by blast
    then show ?thesis
    proof cases
      case 1
      then show ?thesis using V(1,5) unfolding v_notified_keep(1) vctl_def vclean_def by simp
    next
      case 2
      then show ?thesis using V(5) unfolding v_notified_keep(1) vctl_def vclean_def by simp
    qed
  next
    case (v_notified_read)
    then show ?thesis using V by (elim insertE emptyE) (simp_all add: vctl_def vclean_def)
  next
    case (v_notified_clear_rx q)
    then have "knows (vs v) (vs u) (Nt_set q)" "vw v = 0" "vsent v = []" "\<not> (vs v = 1 \<and> vs u = 0)"
      using V(2,4,6) by auto
    then show ?thesis using V(1) unfolding v_notified_clear_rx(1) vctl_def vclean_def by simp
  next
    case (v_notified_set q)
    then have "q \<in> {0, 1, 2}" "vclean v" using V by auto
    then show ?thesis unfolding v_notified_set(1) vctl_def vclean_def by simp
  qed (use V in \<open>simp_all add: vctl_def vclean_def\<close>)
qed

lemma vstep_peer_ctl:
  assumes "vctl v u" and "vctl u v" and "vstep n fs v u v'"
  shows "vctl u v'"
  using assms(3)
proof cases
  case (v_notified_set q)
  have "knows (vs v) (vs u) (Nt_set q)" "vs v \<in> {0, 1, 2}" "vs u \<in> {0, 1, 2}" "knows (vs u) (vs v) (vpc u)"
    "vs u = 1 \<and> vs v = 0 \<longrightarrow> vpc u = Idle \<or> vpc u = Nt_read 0"
    using assms(1,2) v_notified_set unfolding vctl_def by auto
  from knows_set [OF this] show ?thesis using assms(2) v_notified_set by (simp add: vctl_def)
qed (use assms(2) in \<open>simp_all add: vctl_def\<close>)

section \<open>The frames in flight\<close>

abbreviation slot :: "nat \<Rightarrow> nat \<Rightarrow> nat \<Rightarrow> bytes \<Rightarrow> bytes" where
  "slot n fs j m \<equiv> subrange (j mod n * fs) fs m"

lemma slot_overwrite:
  assumes "length m = n * fs" and "length f = fs" and "i mod n \<noteq> j mod n" and "0 < n"
  shows "slot n fs i (overwrite (j mod n * fs) f m) = slot n fs i m"
proof (rule subrange_overwrite_disjoint)
  have fits: "Suc (k mod n) * fs \<le> n * fs" for k using assms(4) by (intro mult_le_mono1) (simp add: Suc_leI)
  show "j mod n * fs + length f \<le> length m" using fits [of j] assms by simp
  from assms(3) consider "Suc (i mod n) \<le> j mod n" | "Suc (j mod n) \<le> i mod n" by linarith
  then show "i mod n * fs + fs \<le> j mod n * fs \<or> j mod n * fs + length f \<le> i mod n * fs"
    using mult_le_mono1 [of "Suc (i mod n)" "j mod n" fs] mult_le_mono1 [of "Suc (j mod n)" "i mod n" fs] assms(2)
    by cases simp_all
qed

lemma window_distinct:
  assumes "(j::nat) < k" and "k < j + n"
  shows "j mod n \<noteq> k mod n"
proof
  assume "j mod n = k mod n"
  then have "n dvd k - j" using assms(1) by (metis less_imp_le mod_eq_dvd_iff_nat)
  then show False using assms by (auto dest!: dvd_imp_le)
qed

text \<open>Frames from the endpoint with view \<open>v\<close> to the one with view \<open>u\<close>.\<close>

definition flows :: "nat \<Rightarrow> nat \<Rightarrow> half \<Rightarrow> half \<Rightarrow> bool" where
  "flows n fs v u \<longleftrightarrow>
     vw v = of_nat (length (vsent v)) \<and> vwp v = length (vsent v) mod n \<and>
     vr u = of_nat (length (vrcvd u)) \<and> vrp u = length (vrcvd u) mod n \<and>
     prefix (vrcvd u) (vsent v) \<and> length (vsent v) \<le> length (vrcvd u) + n \<and>
     (\<forall>j. length (vrcvd u) \<le> j \<and> j < length (vsent v) \<longrightarrow> slot n fs j (vfr v) = vsent v ! j) \<and>
     (\<forall>d. vpc v = Wr_checked d \<longrightarrow> length (vsent v) < length (vrcvd u) + n) \<and>
     (\<forall>f. vpc v = Wr_copied f \<longrightarrow> length (vsent v) < length (vrcvd u) + n \<and>
        slot n fs (length (vsent v)) (vfr v) = f) \<and>
     (vpc u = Rd_checked \<longrightarrow> length (vrcvd u) < length (vsent v)) \<and>
     (\<forall>f. vpc u = Rd_copied f \<longrightarrow> length (vrcvd u) < length (vsent v) \<and> f = vsent v ! length (vrcvd u))"

lemma flows_lag:
  assumes "flows n fs v u" and "n < 2 ^ 32"
  shows "unat (vw v - vr u) = length (vsent v) - length (vrcvd u)"
proof -
  have le: "length (vrcvd u) \<le> length (vsent v)" "length (vsent v) \<le> length (vrcvd u) + n"
    using assms(1) by (auto simp: flows_def prefix_length_le)
  then have "vw v - vr u = of_nat (length (vsent v) - length (vrcvd u))"
    using assms(1) by (simp add: flows_def of_nat_diff)
  moreover have "length (vsent v) - length (vrcvd u) < 2 ^ 32" using le assms(2) by linarith
  ultimately show ?thesis by (simp add: unat_of_nat take_bit_nat_eq_self)
qed

lemma flows_tx:
  assumes "flows n fs v u" and "vstep n fs v u v'" and "0 < n" and "n < 2 ^ 32" and "vok n fs v"
    and "\<And>q. vpc v = Nt_cleared q \<Longrightarrow> vclean v"
    and "\<And>p q. vpc v = Nt_read p \<Longrightarrow> notified_action (vs v) p = (True, q) \<Longrightarrow> vclean v"
  shows "flows n fs v' u"
  using assms(2)
proof cases
  case (v_write_check d)
  then show ?thesis using assms(1) flows_lag [OF assms(1,4)] by (auto simp: flows_def)
next
  case (v_write_copy d f)
  have F: "length f = fs" "length (vfr v) = n * fs" "length (vsent v) < length (vrcvd u) + n"
    "vwp v = length (vsent v) mod n"
    using assms(1,5) v_write_copy by (auto simp: vok_def flows_def)
  have "slot n fs (length (vsent v)) (overwrite (vwp v * fs) f (vfr v)) = f"
    using subrange_overwrite_same [of "vwp v * fs" f "vfr v"] F mult_le_mono1 [of "Suc (vwp v)" n fs] assms(3)
    by (simp add: Suc_leI)
  moreover have "slot n fs j (overwrite (vwp v * fs) f (vfr v)) = slot n fs j (vfr v)"
    if "length (vrcvd u) \<le> j" "j < length (vsent v)" for j
    using slot_overwrite [OF F(2,1) window_distinct [of j "length (vsent v)" n] assms(3)] that F(3,4) by simp
  ultimately show ?thesis using assms(1) F(3) v_write_copy by (auto simp: flows_def)
next
  case (v_write_advance f)
  then show ?thesis using assms(1)
    by (auto simp: flows_def nth_append less_Suc_eq mod_Suc_eq)
next
  case (v_notified_clear p q)
  then have "vclean v" using assms(7) by blast
  then show ?thesis using assms(1) v_notified_clear by (auto simp: flows_def vclean_def)
next
  case (v_notified_clear_rx q)
  then have "vclean v" using assms(6) by blast
  then show ?thesis using assms(1) v_notified_clear_rx by (auto simp: flows_def vclean_def)
qed (use assms(1) in \<open>auto simp: flows_def split: option.split\<close>)

lemma flows_rx:
  assumes "flows n fs v u" and "vstep n fs u v u'" and "0 < n" and "n < 2 ^ 32"
    and "\<And>q. vpc u = Nt_cleared q \<Longrightarrow> vclean u"
    and "\<And>p q. vpc u = Nt_read p \<Longrightarrow> notified_action (vs u) p = (True, q) \<Longrightarrow> vclean u"
  shows "flows n fs v u'"
  using assms(2)
proof cases
  case v_read_check
  then show ?thesis using assms(1) flows_lag [OF assms(1,4)] by (auto simp: flows_def)
next
  case v_read_copy
  then show ?thesis using assms(1) by (auto simp: flows_def)
next
  case (v_read_advance f)
  have "prefix (vrcvd u @ [f]) (vsent v)"
  proof -
    from assms(1) obtain zs where "vsent v = vrcvd u @ zs" by (auto simp: flows_def elim: prefixE)
    moreover from this have "zs \<noteq> []" "f = zs ! 0" using assms(1) v_read_advance by (auto simp: flows_def nth_append)
    ultimately show ?thesis by (cases zs) auto
  qed
  then show ?thesis using assms(1) v_read_advance by (auto simp: flows_def mod_Suc_eq)
next
  case (v_notified_clear p q)
  then have "vclean u" using assms(6) by blast
  then show ?thesis using assms(1) v_notified_clear by (auto simp: flows_def vclean_def)
next
  case (v_notified_clear_rx q)
  then have "vclean u" using assms(5) by blast
  then show ?thesis using assms(1) v_notified_clear_rx by (auto simp: flows_def vclean_def)
qed (use assms(1) in \<open>auto simp: flows_def split: option.split\<close>)

section \<open>The invariant\<close>

definition pair_ok :: "nat \<Rightarrow> nat \<Rightarrow> half \<Rightarrow> half \<Rightarrow> bool" where
  "pair_ok n fs v u \<longleftrightarrow> vok n fs v \<and> vok n fs u \<and> vctl v u \<and> vctl u v \<and>
     (vs v \<noteq> 1 \<and> vs u \<noteq> 1 \<longrightarrow> flows n fs v u \<and> flows n fs u v)"

lemma pair_ok_sym: "pair_ok n fs v u \<Longrightarrow> pair_ok n fs u v"
  by (auto simp: pair_ok_def)

lemma flows_clean:
  assumes "vclean v" and "vclean u" and "vpc v \<in> {Idle} \<union> range Nt_read \<union> range Nt_cleared \<union> range Nt_set"
    and "vpc u \<in> {Idle} \<union> range Nt_read \<union> range Nt_cleared \<union> range Nt_set"
  shows "flows n fs v u"
  using assms by (auto simp: flows_def vclean_def)

lemma not_est_pc:
  assumes "vctl v u" and "vs v \<noteq> 0"
  shows "vpc v \<in> {Idle} \<union> range Nt_read \<union> range Nt_cleared \<union> range Nt_set"
  using assms by (cases "vpc v") (auto simp: vctl_def)

lemma clean_clearing:
  assumes "vctl v u" and "vs v \<noteq> 1" and "vs u \<noteq> 1"
  shows "vpc v = Nt_cleared q \<Longrightarrow> vclean v"
    "vpc v = Nt_read p \<Longrightarrow> notified_action (vs v) p = (True, st) \<Longrightarrow> vclean v"
  using assms by (auto simp: vctl_def notified_action_def split: if_splits)

lemma pair_ok_step:
  assumes "pair_ok n fs v u" and "vstep n fs v u v'" and "0 < n" and "n < 2 ^ 32"
  shows "pair_ok n fs v' u"
proof -
  have O: "vok n fs v" "vok n fs u" and C: "vctl v u" "vctl u v"
    and F: "vs v \<noteq> 1 \<Longrightarrow> vs u \<noteq> 1 \<Longrightarrow> flows n fs v u \<and> flows n fs u v"
    using assms(1) by (auto simp: pair_ok_def)
  have "flows n fs v' u \<and> flows n fs u v'" if ns: "vs v' \<noteq> 1" "vs u \<noteq> 1"
  proof (cases "vs v = 1")
    case False
    note cl = clean_clearing [OF C(1) False ns(2)]
    have "flows n fs v u" "flows n fs u v" using F [OF False ns(2)] by blast+
    have "flows n fs v' u" by (rule flows_tx [OF \<open>flows n fs v u\<close> assms(2-4) O(1)]) (erule cl, assumption?)+
    moreover have "flows n fs u v'" by (rule flows_rx [OF \<open>flows n fs u v\<close> assms(2-4)]) (erule cl, assumption?)+
    ultimately show ?thesis ..
  next
    case True
    from assms(2) ns(1) True obtain q where q: "vpc v = Nt_set q" "v' = v\<lparr>vpc := Idle, vs := q\<rparr>"
      by cases auto
    have "vs u \<in> {0, 1, 2}" using C(2) by (simp add: vctl_def)
    then have "vs u = 2" "vclean v" using C(1) True ns(2) q(1) by (auto simp: vctl_def)
    moreover from this have "vclean u" "vpc u \<in> {Idle} \<union> range Nt_read \<union> range Nt_cleared \<union> range Nt_set"
      using C(2) not_est_pc [OF C(2)] by (auto simp: vctl_def)
    ultimately show ?thesis using q by (auto intro!: flows_clean simp: vclean_def)
  qed
  then show ?thesis
    using vstep_vok [OF O(1) assms(3,2)] O(2) vstep_ctl [OF C assms(2)] vstep_peer_ctl [OF C assms(2)]
    by (auto simp: pair_ok_def)
qed

text \<open>On the system.\<close>

definition sys_ok :: "nat \<Rightarrow> nat \<Rightarrow> ivc_sys \<Rightarrow> bool" where
  "sys_ok n fs s \<longleftrightarrow> wired n fs s \<and> pair_ok n fs (view s Here) (view s There)"

lemma sys_ok_view: "sys_ok n fs s \<longleftrightarrow> wired n fs s \<and> pair_ok n fs (view s x) (view s (other x))"
  by (cases x) (auto simp: sys_ok_def pair_ok_sym)

lemma sys_ok_step:
  assumes "sys_ok n fs s" and "ivc_step x s s'"
  shows "sys_ok n fs s'"
proof -
  have W: "wired n fs s" and P: "pair_ok n fs (view s x) (view s (other x))"
    using assms(1) by (simp_all add: sys_ok_view [of n fs s x])
  have "vok n fs (view s x)" using P by (simp add: pair_ok_def)
  note S = step_view [OF W this assms(2)]
  have "0 < n" "n < 2 ^ 32" using W unat_u32_bound [of "nframes (ep_ivc (ep s Here))"] by (auto simp: wired_def)
  from pair_ok_step [OF P S(2) this] show ?thesis using S by (simp add: sys_ok_view [of n fs s' x])
qed

lemma sys_ok_run: "ivc_run s s' \<Longrightarrow> sys_ok n fs s \<Longrightarrow> sys_ok n fs s'"
  by (induction rule: ivc_run.induct) (auto intro: sys_ok_step)

end
