(* ===== verification/Ivc_Queue.thy ===== *)
theory Ivc_Queue
  imports Ivc_Pair
begin

text \<open>
  What an IVC link promises: a bounded queue of frames in each direction. A step of an endpoint is
  nothing, the last store of a write, which appends a frame, or that of a read, which takes the first.
  The locale states what a queue specification needs of a stepping system and derives it for whole
  traces; it is interpreted on the step relation of the two endpoints. Calls that run undisturbed are
  shown to be runs of the step relation, and to be the queue operations with their return values.
\<close>

section \<open>The bounded queue behind a direction\<close>

datatype fifo_event = Silent | Enq side bytes | Deq side bytes

type_synonym fifos = "side \<Rightarrow> bytes list"

fun fifo :: "nat \<Rightarrow> fifo_event \<Rightarrow> fifos \<Rightarrow> fifos option" where
  "fifo n Silent q = Some q"
| "fifo n (Enq x f) q = (if length (q x) < n then Some (q(x := q x @ [f])) else None)"
| "fifo n (Deq x f) q =
     (case q (other x) of [] \<Rightarrow> None | g # r \<Rightarrow> if g = f then Some (q(other x := r)) else None)"

definition in_flight :: "ivc_sys \<Rightarrow> fifos" where
  "in_flight s x = drop (length (rcvd (ep s (other x)))) (sent (ep s x))"

definition ivc_event :: "side \<Rightarrow> ivc_sys \<Rightarrow> fifo_event" where
  "ivc_event x s = (case ep_pc (ep s x) of Wr_copied f \<Rightarrow> Enq x f | Rd_copied f \<Rightarrow> Deq x f | _ \<Rightarrow> Silent)"

definition link_up :: "ivc_sys \<Rightarrow> bool" where
  "link_up s \<longleftrightarrow> (\<forall>x. ch_state (chan s x) \<noteq> ivc_state_sync)"

definition after_reset :: "nat \<Rightarrow> nat \<Rightarrow> ivc_sys \<Rightarrow> bool" where
  "after_reset n fs s \<longleftrightarrow> wired n fs s \<and>
     (\<forall>x. unat (w_pos (ep_ivc (ep s x))) < n \<and> unat (r_pos (ep_ivc (ep s x))) < n \<and>
        length (ch_frames (chan s x)) = n * fs) \<and>
     (\<exists>x. ch_state (chan s x) = ivc_state_sync \<and> ep_pc (ep s x) = Idle \<and>
        (case ep_pc (ep s (other x)) of
           Idle \<Rightarrow> ch_state (chan s (other x)) \<in> {ivc_state_sync, ivc_state_established}
         | Wr_checked d \<Rightarrow> ch_state (chan s (other x)) = ivc_state_established \<and> length d \<le> fs
         | Wr_copied f \<Rightarrow> ch_state (chan s (other x)) = ivc_state_established
         | Rd_checked \<Rightarrow> ch_state (chan s (other x)) = ivc_state_established
         | Rd_copied f \<Rightarrow> ch_state (chan s (other x)) = ivc_state_established
         | _ \<Rightarrow> False))"

lemma all_side: "(\<forall>x. P x) \<longleftrightarrow> P Here \<and> P There"
  by (metis side.exhaust)

lemma ex_side: "(\<exists>x. P x) \<longleftrightarrow> P Here \<or> P There"
  by (metis side.exhaust)

lemma after_reset_ok:
  assumes "after_reset n fs s"
  shows "sys_ok n fs s"
proof -
  from assms obtain x where x: "ch_state (chan s x) = 1" "ep_pc (ep s x) = Idle"
    and y: "case ep_pc (ep s (other x)) of
           Idle \<Rightarrow> ch_state (chan s (other x)) \<in> {1, 0}
         | Wr_checked d \<Rightarrow> ch_state (chan s (other x)) = 0 \<and> length d \<le> fs
         | Wr_copied f \<Rightarrow> ch_state (chan s (other x)) = 0
         | Rd_checked \<Rightarrow> ch_state (chan s (other x)) = 0
         | Rd_copied f \<Rightarrow> ch_state (chan s (other x)) = 0
         | _ \<Rightarrow> False"
    unfolding after_reset_def by blast
  have W: "wired n fs s"
    and P: "\<And>x. unat (w_pos (ep_ivc (ep s x))) < n" "\<And>x. unat (r_pos (ep_ivc (ep s x))) < n"
      "\<And>x. length (ch_frames (chan s x)) = n * fs"
    using assms unfolding after_reset_def by blast+
  have "pair_ok n fs (view s x) (view s (other x))"
    using x y P by (cases "ep_pc (ep s (other x))") (auto simp: pair_ok_def vok_def vctl_def view_def)
  then show ?thesis using W by (simp add: sys_ok_view [of n fs s x])
qed

lemma run_ok: "after_reset n fs s0 \<Longrightarrow> ivc_run s0 s \<Longrightarrow> sys_ok n fs s"
  by (rule sys_ok_run [OF _ after_reset_ok])

lemma sys_flows:
  assumes "sys_ok n fs s" and "link_up s"
  shows "flows n fs (view s x) (view s (other x))"
  using assms by (simp add: sys_ok_view [of n fs s x] pair_ok_def link_up_def view_def)

lemma queue_bounds:
  assumes "sys_ok n fs s" and "link_up s"
  shows "prefix (rcvd (ep s (other x))) (sent (ep s x))" "length (in_flight s x) \<le> n"
  using sys_flows [OF assms, of x] by (auto simp: flows_def view_def in_flight_def)

lemma sent_split:
  assumes "sys_ok n fs s" and "link_up s"
  shows "sent (ep s x) = rcvd (ep s (other x)) @ in_flight s x"
  using queue_bounds(1) [OF assms, of x] by (auto simp: in_flight_def elim: prefixE)

lemma link_stays:
  assumes "sys_ok n fs s" and "link_up s" and "ivc_step x s s'"
  shows "link_up s'"
proof -
  have W: "wired n fs s" and P: "pair_ok n fs (view s x) (view s (other x))"
    using assms(1) by (simp_all add: sys_ok_view [of n fs s x])
  from P have "vok n fs (view s x)" by (simp add: pair_ok_def)
  note S = step_view [OF W this assms(3)]
  have up: "vs (view s x) \<noteq> 1" using assms(2) by (simp add: link_up_def view_def)
  have "vs (view s' x) \<noteq> 1"
    using S(2)
  proof cases
    case (v_notified_set q)
    have "knows (vs (view s x)) (vs (view s (other x))) (vpc (view s x))"
      using P unfolding pair_ok_def vctl_def by blast
    then show ?thesis using v_notified_set by auto
  qed (use up in simp_all)
  moreover have "vs (view s' (other x)) \<noteq> 1" using S(3) assms(2) by (simp add: link_up_def view_def)
  ultimately show ?thesis by (cases x) (auto simp: link_up_def view_def all_side)
qed

lemma step_event:
  assumes "sys_ok n fs s" and "link_up s" and "ivc_step x s s'"
  shows "fifo n (ivc_event x s) (in_flight s) = Some (in_flight s')"
proof -
  note F = sys_flows [OF assms(1,2), of x] sys_flows [OF assms(1,2), of "other x"]
  show ?thesis
    using assms(3)
  proof cases
    case (write_advance f i m)
    have "length (in_flight s x) < n"
      using F(1) write_advance by (auto simp: flows_def view_def in_flight_def dest: prefix_length_le)
    moreover have "in_flight s' = (in_flight s)(x := in_flight s x @ [f])"
      using queue_bounds(1) [OF assms(1,2), of x] write_advance
      by (auto simp: in_flight_def fun_eq_iff dest: prefix_length_le)
    ultimately show ?thesis using write_advance by (simp add: ivc_event_def)
  next
    case (read_advance f i m)
    have "length (rcvd (ep s x)) < length (sent (ep s (other x)))" "f = sent (ep s (other x)) ! length (rcvd (ep s x))"
      using F(2) read_advance by (auto simp: flows_def view_def)
    then have "in_flight s (other x) = f # drop (Suc (length (rcvd (ep s x)))) (sent (ep s (other x)))"
      by (simp add: in_flight_def Cons_nth_drop_Suc)
    moreover have "in_flight s' = (in_flight s)(other x := drop (Suc (length (rcvd (ep s x)))) (sent (ep s (other x))))"
      using read_advance by (auto simp: in_flight_def fun_eq_iff)
    ultimately show ?thesis using read_advance by (simp add: ivc_event_def)
  next
    case (notified_clear p st)
    have "vclean (view s x)"
      using assms(1,2) notified_clear clean_clearing(2) [of "view s x" "view s (other x)" p "Some st"]
      by (simp add: sys_ok_view [of n fs s x] pair_ok_def link_up_def view_def chan_def)
    then have "sent (ep s x) = []" by (simp add: vclean_def view_def)
    then show ?thesis using notified_clear by (auto simp: ivc_event_def in_flight_def fun_eq_iff)
  next
    case (notified_clear_rx st i m)
    have "vclean (view s x)"
      using assms(1,2) notified_clear_rx clean_clearing(1) [of "view s x" "view s (other x)" st]
      by (simp add: sys_ok_view [of n fs s x] pair_ok_def link_up_def view_def chan_def)
    then have "rcvd (ep s x) = []" by (simp add: vclean_def view_def)
    then show ?thesis using notified_clear_rx by (auto simp: ivc_event_def in_flight_def fun_eq_iff)
  qed (auto simp: ivc_event_def in_flight_def fun_eq_iff)
qed

section \<open>Whole calls\<close>

lemma run_trans: "ivc_run s' s'' \<Longrightarrow> ivc_run s s' \<Longrightarrow> ivc_run s s''"
  by (induction rule: ivc_run.induct) (auto intro: run_step)

lemmas run_one = run_step [OF run_refl]

text \<open>A call that nothing interrupts is a run of the steps above.\<close>

definition call_state :: "side \<Rightarrow> ivc \<Rightarrow> ivc_mem \<Rightarrow> bytes list \<Rightarrow> bytes list \<Rightarrow> ivc_sys \<Rightarrow> ivc_sys" where
  "call_state x i m snt rcv s =
     s\<lparr>ep := (ep s)(x := (ep s x)\<lparr>ep_ivc := i, ep_pc := Idle, sent := snt, rcvd := rcv\<rparr>), mem := m\<rparr>"

lemma write_run:
  assumes "ep_pc (ep s x) = Idle" and "length buf \<le> unat (frame_size (ep_ivc (ep s x)))"
    and "ivc_check_write (ep_ivc (ep s x)) (mem s) = None"
    and "ivc_advance_tx (ep_ivc (ep s x)) (write_frame (ep_ivc (ep s x)) buf (mem s)) = (i, m)"
  shows "ivc_run s (call_state x i m
    (sent (ep s x) @ [buf @ replicate (unat (frame_size (ep_ivc (ep s x))) - length buf) 0]) (rcvd (ep s x)) s)"
proof -
  let ?s1 = "upd_ep x (\<lambda>e. e\<lparr>ep_pc := Wr_checked buf\<rparr>) s"
  let ?f = "buf @ replicate (unat (frame_size (ep_ivc (ep s x))) - length buf) 0"
  let ?s2 = "(upd_ep x (\<lambda>e. e\<lparr>ep_pc := Wr_copied ?f\<rparr>) ?s1)\<lparr>mem := write_frame (ep_ivc (ep s x)) buf (mem s)\<rparr>"
  have "ivc_run s ?s1" by (rule run_one, rule write_check) (use assms in simp_all)
  moreover have "ivc_step x ?s1 ?s2"
    using write_copy [of ?s1 x buf] by simp
  moreover have "ivc_step x ?s2 ((upd_ep x (\<lambda>e. e\<lparr>ep_ivc := i, ep_pc := Idle, sent := sent e @ [?f]\<rparr>) ?s2)\<lparr>mem := m\<rparr>)"
    by (rule write_advance) (use assms(4) in simp_all)
  ultimately have "ivc_run s ((upd_ep x (\<lambda>e. e\<lparr>ep_ivc := i, ep_pc := Idle, sent := sent e @ [?f]\<rparr>) ?s2)\<lparr>mem := m\<rparr>)"
    by (meson run_step)
  also have "(upd_ep x (\<lambda>e. e\<lparr>ep_ivc := i, ep_pc := Idle, sent := sent e @ [?f]\<rparr>) ?s2)\<lparr>mem := m\<rparr> =
    call_state x i m (sent (ep s x) @ [?f]) (rcvd (ep s x)) s"
    using assms(1) by (simp add: call_state_def)
  finally show ?thesis .
qed

lemma read_run:
  assumes "ep_pc (ep s x) = Idle" and "ivc_check_read (ep_ivc (ep s x)) (mem s) = None"
    and "ivc_advance_rx (ep_ivc (ep s x)) (mem s) = (i, m)"
  shows "ivc_run s (call_state x i m (sent (ep s x))
    (rcvd (ep s x) @ [read_frame (ep_ivc (ep s x)) 0 (unat (frame_size (ep_ivc (ep s x)))) (mem s)]) s)"
proof -
  let ?f = "read_frame (ep_ivc (ep s x)) 0 (unat (frame_size (ep_ivc (ep s x)))) (mem s)"
  let ?s1 = "upd_ep x (\<lambda>e. e\<lparr>ep_pc := Rd_checked\<rparr>) s"
  let ?s2 = "upd_ep x (\<lambda>e. e\<lparr>ep_pc := Rd_copied ?f\<rparr>) ?s1"
  have "ivc_run s ?s1" by (rule run_one, rule read_check) (use assms in simp_all)
  moreover have "ivc_step x ?s1 ?s2" using read_copy [of ?s1 x] by simp
  moreover have "ivc_step x ?s2 ((upd_ep x (\<lambda>e. e\<lparr>ep_ivc := i, ep_pc := Idle, rcvd := rcvd e @ [?f]\<rparr>) ?s2)\<lparr>mem := m\<rparr>)"
    by (rule read_advance) (use assms(3) in simp_all)
  ultimately have "ivc_run s ((upd_ep x (\<lambda>e. e\<lparr>ep_ivc := i, ep_pc := Idle, rcvd := rcvd e @ [?f]\<rparr>) ?s2)\<lparr>mem := m\<rparr>)"
    by (meson run_step)
  also have "(upd_ep x (\<lambda>e. e\<lparr>ep_ivc := i, ep_pc := Idle, rcvd := rcvd e @ [?f]\<rparr>) ?s2)\<lparr>mem := m\<rparr> =
    call_state x i m (sent (ep s x)) (rcvd (ep s x) @ [?f]) s"
    using assms(1) by (simp add: call_state_def)
  finally show ?thesis .
qed

text \<open>The whole of \<open>tegra_ivc_channel_notified\<close>, with the histories its reset forgets.\<close>

definition notify_call :: "side \<Rightarrow> ivc_sys \<Rightarrow> ivc_sys" where
  "notify_call x s =
     (let clear = fst (notified_action (ch_state (chan s x)) (ch_state (mem s (rx_channel (ep_ivc (ep s x))))))
      in case tegra_ivc_channel_notified (ep_ivc (ep s x)) (mem s) of (r, notify, i, m) \<Rightarrow>
        call_state x i m (if clear then [] else sent (ep s x)) (if clear then [] else rcvd (ep s x)) s)"

lemma notified_run:
  assumes "ep_pc (ep s x) = Idle"
  shows "ivc_run s (notify_call x s)"
proof -
  let ?i = "ep_ivc (ep s x)"
  let ?p = "ch_state (mem s (rx_channel ?i))" and ?o = "ch_state (mem s (tx_channel ?i))"
  let ?s1 = "upd_ep x (\<lambda>e. e\<lparr>ep_pc := Nt_read ?p\<rparr>) s"
  have 1: "ivc_run s ?s1" using run_one [OF notified_read [OF assms]] by simp
  obtain clear new where A: "notified_action ?o ?p = (clear, new)" by (cases "notified_action ?o ?p")
  show ?thesis
  proof (cases clear)
    case True
    then obtain st where new: "new = Some st" using A by (auto simp: notified_action_def split: if_splits)
    let ?s2 = "(upd_ep x (\<lambda>e. e\<lparr>ep_pc := Nt_cleared st, sent := []\<rparr>) ?s1)\<lparr>mem := clear_tx ?i (mem s)\<rparr>"
    have 2: "ivc_step x ?s1 ?s2" using notified_clear [of ?s1 x ?p st] A True new by simp
    obtain i m where C: "clear_rx ?i (clear_tx ?i (mem s)) = (i, m)" by (cases "clear_rx ?i (clear_tx ?i (mem s))")
    let ?s3 = "(upd_ep x (\<lambda>e. e\<lparr>ep_ivc := i, ep_pc := Nt_set st, rcvd := []\<rparr>) ?s2)\<lparr>mem := m\<rparr>"
    have 3: "ivc_step x ?s2 ?s3" by (rule notified_clear_rx) (use C in simp_all)
    let ?s4 = "(upd_ep x (\<lambda>e. e\<lparr>ep_pc := Idle\<rparr>) ?s3)\<lparr>mem := set_state st i m\<rparr>"
    have 4: "ivc_step x ?s3 ?s4" using notified_set [of ?s3 x st] by simp
    have N: "tegra_ivc_channel_notified ?i (mem s) =
        (if ch_state (set_state st i m (tx_channel i)) = 0 then Inr () else Inl EAGAIN, True, i, set_state st i m)"
      using A True new C by (simp add: tegra_ivc_channel_notified_def)
    have "notify_call x s = call_state x i (set_state st i m) [] [] s"
      using A True unfolding notify_call_def N chan_def by simp
    moreover have "?s4 = call_state x i (set_state st i m) [] [] s"
      by (rule ivc_sys.equality) (auto simp: call_state_def intro: endpoint.equality)
    ultimately have eq: "notify_call x s = ?s4" by (rule trans [OF _ sym])
    show ?thesis unfolding eq by (rule run_step [OF run_step [OF run_step [OF 1 2] 3] 4])
  next
    case False
    show ?thesis
    proof (cases new)
      case None
      let ?s2 = "upd_ep x (\<lambda>e. e\<lparr>ep_pc := Idle\<rparr>) ?s1"
      have 2: "ivc_step x ?s1 ?s2" using notified_keep [of ?s1 x ?p new] A False None by simp
      have N: "tegra_ivc_channel_notified ?i (mem s) = (if ?o = 0 then Inr () else Inl EAGAIN, False, ?i, mem s)"
        using A False None by (simp add: tegra_ivc_channel_notified_def)
      have "notify_call x s = call_state x ?i (mem s) (sent (ep s x)) (rcvd (ep s x)) s"
        using A False unfolding notify_call_def N chan_def by simp
      moreover have "?s2 = call_state x ?i (mem s) (sent (ep s x)) (rcvd (ep s x)) s"
        by (rule ivc_sys.equality) (auto simp: call_state_def intro: endpoint.equality)
      ultimately have eq: "notify_call x s = ?s2" by (rule trans [OF _ sym])
      show ?thesis unfolding eq by (rule run_step [OF 1 2])
    next
      case (Some st)
      let ?s2 = "upd_ep x (\<lambda>e. e\<lparr>ep_pc := Nt_set st\<rparr>) ?s1"
      have 2: "ivc_step x ?s1 ?s2" using notified_keep [of ?s1 x ?p new] A False Some by simp
      let ?s3 = "(upd_ep x (\<lambda>e. e\<lparr>ep_pc := Idle\<rparr>) ?s2)\<lparr>mem := set_state st ?i (mem s)\<rparr>"
      have 3: "ivc_step x ?s2 ?s3" using notified_set [of ?s2 x st] by simp
      have N: "tegra_ivc_channel_notified ?i (mem s) =
          (if ch_state (set_state st ?i (mem s) (tx_channel ?i)) = 0 then Inr () else Inl EAGAIN, True, ?i, set_state st ?i (mem s))"
        using A False Some by (simp add: tegra_ivc_channel_notified_def)
      have "notify_call x s = call_state x ?i (set_state st ?i (mem s)) (sent (ep s x)) (rcvd (ep s x)) s"
        using A False unfolding notify_call_def N chan_def by simp
      moreover have "?s3 = call_state x ?i (set_state st ?i (mem s)) (sent (ep s x)) (rcvd (ep s x)) s"
        by (rule ivc_sys.equality) (auto simp: call_state_def intro: endpoint.equality)
      ultimately have eq: "notify_call x s = ?s3" by (rule trans [OF _ sym])
      show ?thesis unfolding eq by (rule run_step [OF run_step [OF 1 2] 3])
    qed
  qed
qed

section \<open>A call is a queue operation\<close>

lemma not_side: "y \<noteq> x \<longleftrightarrow> y = other x"
  by (cases x; cases y; simp)

lemma lag:
  assumes "sys_ok n fs s" and "link_up s"
  shows "unat (w_count (chan s x) - r_count (chan s x)) = length (in_flight s x)"
    "w_count (chan s x) = r_count (chan s x) \<longleftrightarrow> in_flight s x = []"
proof -
  have "n < 2 ^ 32"
    using assms(1) wired_chans(4) [of n fs s x] unat_u32_bound [of "nframes (ep_ivc (ep s x))"]
    by (simp add: sys_ok_def)
  from flows_lag [OF sys_flows [OF assms, of x] this]
  show 1: "unat (w_count (chan s x) - r_count (chan s x)) = length (in_flight s x)"
    by (simp add: view_def in_flight_def)
  show "w_count (chan s x) = r_count (chan s x) \<longleftrightarrow> in_flight s x = []"
    using 1 by (metis length_0_conv right_minus_eq unat_0 unat_eq_zero)
qed

lemma established_check:
  assumes "sys_ok n fs s" and "link_up s" and "ch_state (chan s x) = 0"
  shows "ivc_check_write (ep_ivc (ep s x)) (mem s) = (if length (in_flight s x) < n then None else Some ENOMEM)"
    "ivc_check_read (ep_ivc (ep s x)) (mem s) = (if in_flight s (other x) = [] then Some ENOMEM else None)"
proof -
  have W: "wired n fs s" using assms(1) by (simp add: sys_ok_def)
  note C = wired_chans [OF W, of x] and L = lag [OF assms(1,2)]
  show "ivc_check_write (ep_ivc (ep s x)) (mem s) = (if length (in_flight s x) < n then None else Some ENOMEM)"
    using assms(3) L(1) [of x] C(4)
    by (auto simp: ivc_check_write_def ivc_channel_full_def chan_def word_le_nat_alt)
  show "ivc_check_read (ep_ivc (ep s x)) (mem s) = (if in_flight s (other x) = [] then Some ENOMEM else None)"
    using assms(3) L [of "other x"] queue_bounds(2) [OF assms(1,2), of "other x"] C(3,4)
    by (auto simp: ivc_check_read_def ivc_channel_empty_def chan_def word_less_nat_alt)
qed

lemma in_flight_call:
  "in_flight (call_state x i m snt rcv s) =
   (\<lambda>y. if y = x then drop (length (rcvd (ep s (other x)))) snt else drop (length rcv) (sent (ep s (other x))))"
  by (rule ext) (case_tac y; cases x; simp add: in_flight_def call_state_def)

lemma write_call:
  assumes "sys_ok n fs s" and "link_up s" and "ch_state (chan s x) = 0" and "ep_pc (ep s x) = Idle"
    and "length buf \<le> fs"
  shows "if length (in_flight s x) < n
    then \<exists>i m s'. tegra_ivc_write (ep_ivc (ep s x)) buf (of_nat (length buf)) (mem s) =
             (Inr (in_flight s x = []), i, m) \<and>
           s' = call_state x i m (sent (ep s x) @ [buf @ replicate (fs - length buf) 0]) (rcvd (ep s x)) s \<and>
           ivc_run s s' \<and> in_flight s' = (in_flight s)(x := in_flight s x @ [buf @ replicate (fs - length buf) 0])
    else tegra_ivc_write (ep_ivc (ep s x)) buf (of_nat (length buf)) (mem s) = (Inl ENOMEM, ep_ivc (ep s x), mem s)"
proof -
  let ?i = "ep_ivc (ep s x)" and ?f = "buf @ replicate (fs - length buf) 0"
  have fs: "unat (frame_size ?i) = fs" using wired_chans(5) [of n fs s x] assms(1) by (simp add: sys_ok_def)
  have u: "unat (of_nat (length buf) :: u64) = length buf"
    using assms(5) fs unat_u32_bound [of "frame_size ?i"] by (simp add: unat_of_nat take_bit_nat_eq_self)
  have fits: "\<not> ucast (frame_size ?i) < (of_nat (length buf) :: u64)"
    using u assms(5) fs by (simp add: word_less_nat_alt unat_ucast_up)
  note ck = established_check(1) [OF assms(1-3)]
  show ?thesis
  proof (cases "length (in_flight s x) < n")
    case True
    obtain i m where A: "ivc_advance_tx ?i (write_frame ?i buf (mem s)) = (i, m)"
      by (cases "ivc_advance_tx ?i (write_frame ?i buf (mem s))")
    have nt: "write_notifies i m \<longleftrightarrow> in_flight s x = []"
      using A lag(2) [OF assms(1,2), of x]
      by (auto simp: write_notifies_def ivc_advance_tx_def ivc_channel_avail_count_def write_frame_def
          poke_frame_def chan_def algebra_simps)
    have "tegra_ivc_write ?i buf (of_nat (length buf)) (mem s) = (Inr (in_flight s x = []), i, m)"
      using fits ck True A nt u by (simp add: tegra_ivc_write_def)
    moreover have "ivc_run s (call_state x i m (sent (ep s x) @ [?f]) (rcvd (ep s x)) s)"
      using write_run [OF assms(4) _ _ A] ck True fs assms(5) by simp
    moreover have "in_flight (call_state x i m (sent (ep s x) @ [?f]) (rcvd (ep s x)) s) =
        (in_flight s)(x := in_flight s x @ [?f])"
      using queue_bounds(1) [OF assms(1,2), of x]
      by (auto simp: in_flight_call in_flight_def fun_eq_iff not_side dest: prefix_length_le)
    ultimately show ?thesis using True by auto
  next
    case False
    then show ?thesis using fits ck by (simp add: tegra_ivc_write_def)
  qed
qed

lemma head_frame:
  assumes "sys_ok n fs s" and "link_up s" and "in_flight s (other x) = f # rest" and "k \<le> fs"
  shows "read_frame (ep_ivc (ep s x)) 0 k (mem s) = take k f" "length f = fs"
proof -
  have W: "wired n fs s" and O: "vok n fs (view s x)" "vok n fs (view s (other x))"
    using assms(1) by (simp_all add: sys_ok_view [of n fs s x] pair_ok_def)
  let ?j = "length (rcvd (ep s x))" and ?fr = "ch_frames (chan s (other x))" and ?p = "r_pos (ep_ivc (ep s x))"
  have j: "?j < length (sent (ep s (other x)))" by (rule ccontr) (use assms(3) in \<open>simp add: in_flight_def\<close>)
  then have f: "f = sent (ep s (other x)) ! ?j" using assms(3) by (simp add: in_flight_def flip: Cons_nth_drop_Suc)
  have p: "unat ?p = ?j mod n" "unat ?p < n" "length ?fr = n * fs"
    using sys_flows [OF assms(1,2), of "other x"] O by (simp_all add: flows_def view_def vok_def)
  have sl: "subrange (unat ?p * fs) fs ?fr = f"
    using sys_flows [OF assms(1,2), of "other x"] j f p(1) by (simp add: flows_def view_def)
  show "read_frame (ep_ivc (ep s x)) 0 k (mem s) = take k f"
    using slot_offset [OF W p(2), of x] wired_chans(3) [OF W, of x] take_subrange [OF assms(4), of "unat ?p * fs" ?fr]
    sl
    by (simp add: read_frame_def chan_def)
  have "Suc (unat ?p) * fs \<le> n * fs" using p(2) by (intro mult_le_mono1) simp
  then show "length f = fs" using sl p(3) by (simp flip: sl)
qed

lemma read_call:
  assumes "sys_ok n fs s" and "link_up s" and "ch_state (chan s x) = 0" and "ep_pc (ep s x) = Idle"
    and "unat max_read \<le> fs"
  shows "case in_flight s (other x) of
      [] \<Rightarrow> tegra_ivc_read (ep_ivc (ep s x)) max_read (mem s) = (Inl ENOMEM, ep_ivc (ep s x), mem s)
    | f # rest \<Rightarrow>
        \<exists>i m s'. tegra_ivc_read (ep_ivc (ep s x)) max_read (mem s) =
             (Inr (take (unat max_read) f, length (f # rest) = n), i, m) \<and>
           s' = call_state x i m (sent (ep s x)) (rcvd (ep s x) @ [f]) s \<and>
           ivc_run s s' \<and> in_flight s' = (in_flight s)(other x := rest)"
proof -
  let ?i = "ep_ivc (ep s x)"
  have W: "wired n fs s" using assms(1) by (simp add: sys_ok_def)
  note C = wired_chans [OF W, of x]
  have fits: "\<not> ucast (frame_size ?i) < max_read"
    using assms(5) C(5) by (simp add: word_less_nat_alt unat_ucast_up)
  note ck = established_check(2) [OF assms(1-3)]
  show ?thesis
  proof (cases "in_flight s (other x)")
    case Nil
    then show ?thesis using fits ck by (simp add: tegra_ivc_read_def)
  next
    case (Cons f rest)
    note H = head_frame [OF assms(1,2) Cons]
    obtain i m where A: "ivc_advance_rx ?i (mem s) = (i, m)" by (cases "ivc_advance_rx ?i (mem s)")
    let ?lag = "w_count (chan s (other x)) - r_count (chan s (other x))"
    have "unat ?lag = Suc (length rest)" using lag(1) [OF assms(1,2), of "other x"] Cons by simp
    moreover have "?lag - 1 = nframes ?i - 1 \<longleftrightarrow> unat ?lag = n"
      using C(4) by (auto simp: word_unat_eq_iff [symmetric])
    ultimately have nt: "read_notifies i m \<longleftrightarrow> Suc (length rest) = n"
      using A C(3) by (auto simp: read_notifies_def ivc_advance_rx_def ivc_channel_avail_count_def chan_def algebra_simps)
    have "tegra_ivc_read ?i max_read (mem s) = (Inr (take (unat max_read) f, Suc (length rest) = n), i, m)"
      using fits ck Cons A nt H(1) [OF assms(5)] by (simp add: tegra_ivc_read_def)
    moreover have "ivc_run s (call_state x i m (sent (ep s x)) (rcvd (ep s x) @ [f]) s)"
      using read_run [OF assms(4) _ A] ck Cons C(5) H(1) [of fs] H(2) [of fs] by simp
    moreover have "in_flight (call_state x i m (sent (ep s x)) (rcvd (ep s x) @ [f]) s) = (in_flight s)(other x := rest)"
      using arg_cong [OF Cons, of tl] by (auto simp: in_flight_call in_flight_def fun_eq_iff not_side drop_Suc tl_drop)
    ultimately show ?thesis using Cons by auto
  qed
qed

lemma notify_call_eq:
  assumes "notified_action (ch_state (chan s x)) (ch_state (mem s (rx_channel (ep_ivc (ep s x))))) = (clear, new)"
    and "(if clear then clear_rx (ep_ivc (ep s x)) (clear_tx (ep_ivc (ep s x)) (mem s)) else (ep_ivc (ep s x), mem s)) = (i, m)"
  shows "notify_call x s =
    call_state x i (case new of None \<Rightarrow> m | Some st \<Rightarrow> set_state st i m)
      (if clear then [] else sent (ep s x)) (if clear then [] else rcvd (ep s x)) s"
proof -
  have "tegra_ivc_channel_notified (ep_ivc (ep s x)) (mem s) =
    (if ch_state ((case new of None \<Rightarrow> m | Some st \<Rightarrow> set_state st i m) (tx_channel i)) = 0 then Inr () else Inl EAGAIN,
     new \<noteq> None, i, case new of None \<Rightarrow> m | Some st \<Rightarrow> set_state st i m)"
    using assms unfolding tegra_ivc_channel_notified_def chan_def Let_def by simp
  then show ?thesis using assms(1) unfolding notify_call_def by simp
qed

lemma notify_view:
  assumes "wired n fs s"
  shows "wired n fs (notify_call x s)" "view (notify_call x s) (other x) = view s (other x)"
    "notified_action (vs (view s x)) (vs (view s (other x))) = (clear, new) \<Longrightarrow>
       vs (view (notify_call x s) x) = (case new of None \<Rightarrow> vs (view s x) | Some q \<Rightarrow> q) \<and>
       (clear \<or> vclean (view s x) \<longrightarrow> vclean (view (notify_call x s) x))"
proof -
  note W = wired_chans [OF assms, of x]
  let ?i = "ep_ivc (ep s x)"
  obtain c nw where A: "notified_action (ch_state (chan s x)) (ch_state (mem s (rx_channel ?i))) = (c, nw)"
    by (cases "notified_action (ch_state (chan s x)) (ch_state (mem s (rx_channel ?i)))")
  obtain i m where I: "(if c then clear_rx ?i (clear_tx ?i (mem s)) else (?i, mem s)) = (i, m)"
    by (cases "if c then clear_rx ?i (clear_tx ?i (mem s)) else (?i, mem s)")
  note E = notify_call_eq [OF A I]
  have same: "tx_channel i = tx_channel ?i" "rx_channel i = rx_channel ?i" "nframes i = nframes ?i"
    "frame_size i = frame_size ?i"
    using I by (auto simp: clear_rx_def split: if_splits)
  show "wired n fs (notify_call x s)"
    using assms same unfolding E by (auto simp: wired_def call_state_def)
  have m: "m (tx_channel ?i) = (if c then (chan s x)\<lparr>w_count := 0\<rparr> else chan s x)"
    "m (rx_channel ?i) = (if c then (chan s (other x))\<lparr>r_count := 0\<rparr> else chan s (other x))"
    "w_pos i = (if c then 0 else w_pos ?i)" "r_pos i = (if c then 0 else r_pos ?i)"
    using I W by (auto simp: clear_rx_def clear_tx_def chan_def split: if_splits)
  show "view (notify_call x s) (other x) = view s (other x)"
    using W same m unfolding E
    by (cases nw) (simp_all add: view_def chan_def call_state_def set_state_def)
  show "vs (view (notify_call x s) x) = (case new of None \<Rightarrow> vs (view s x) | Some q \<Rightarrow> q) \<and>
       (clear \<or> vclean (view s x) \<longrightarrow> vclean (view (notify_call x s) x))"
    if "notified_action (vs (view s x)) (vs (view s (other x))) = (clear, new)"
  proof -
    have "c = clear" "nw = new" using that A W(3) by (simp_all add: view_def chan_def)
    then show ?thesis
      using W same m unfolding E
      by (cases new) (simp_all add: view_def chan_def call_state_def set_state_def vclean_def)
  qed
qed

text \<open>A call in terms of the states and of whose counters are clear.\<close>

definition hs :: "nat \<Rightarrow> nat \<Rightarrow> ivc_sys \<Rightarrow> side \<Rightarrow> u32 \<Rightarrow> bool \<Rightarrow> u32 \<Rightarrow> bool \<Rightarrow> bool" where
  "hs n fs s x a ca b cb \<longleftrightarrow> wired n fs s \<and> vs (view s x) = a \<and> (ca \<longrightarrow> vclean (view s x)) \<and>
     vs (view s (other x)) = b \<and> (cb \<longrightarrow> vclean (view s (other x)))"

lemma hs_swap: "hs n fs s (other x) b cb a ca \<longleftrightarrow> hs n fs s x a ca b cb"
  by (auto simp: hs_def)

lemma hs_call:
  assumes "hs n fs s x a ca b cb"
  shows "hs n fs (notify_call x s) x (case snd (notified_action a b) of None \<Rightarrow> a | Some q \<Rightarrow> q)
    (fst (notified_action a b) \<or> ca) b cb"
proof -
  have "wired n fs s" using assms by (simp add: hs_def)
  note N = notify_view [OF this, of x]
  show ?thesis
    using N(1,2) N(3) [of "fst (notified_action a b)" "snd (notified_action a b)"] assms by (auto simp: hs_def)
qed

lemma hs_rounds:
  assumes "hs n fs s y a False b False" and "a = 1 \<and> b \<in> {0, 1} \<or> b = 1 \<and> a \<in> {0, 1}"
  shows "hs n fs (notify_call (other y) (notify_call y (notify_call (other y) (notify_call y s)))) y 0 True 0 True"
proof -
  note 1 = hs_call [OF assms(1)]
  note 2 = hs_call [OF hs_swap [THEN iffD2, OF 1]]
  note 3 = hs_call [OF hs_swap [THEN iffD1, OF 2]]
  note 4 = hs_call [OF hs_swap [THEN iffD2, OF 3]]
  from assms(2) consider "a = 1" "b = 0" | "a = 1" "b = 1" | "b = 1" "a = 0" by auto
  then show ?thesis
    using hs_swap [THEN iffD1, OF 4] by cases (simp_all add: notified_action_def)
qed

fun fifo_run :: "nat \<Rightarrow> fifo_event list \<Rightarrow> fifos \<Rightarrow> fifos option" where
  "fifo_run n [] q = Some q"
| "fifo_run n (e # es) q = (case fifo n e q of None \<Rightarrow> None | Some q' \<Rightarrow> fifo_run n es q')"

lemma fifo_run_append: "fifo_run n (es @ fs) q = (case fifo_run n es q of None \<Rightarrow> None | Some q' \<Rightarrow> fifo_run n fs q')"
  by (induction es arbitrary: q) (simp_all split: option.split)

inductive trace :: "(side \<Rightarrow> 's \<Rightarrow> 's \<Rightarrow> bool) \<Rightarrow> (side \<Rightarrow> 's \<Rightarrow> fifo_event) \<Rightarrow> 's \<Rightarrow> fifo_event list \<Rightarrow> 's \<Rightarrow> bool"
  for step event where
  trace_start: "trace step event s [] s"
| trace_more: "trace step event s es s' \<Longrightarrow> step x s' s'' \<Longrightarrow> trace step event s (es @ [event x s']) s''"

locale fifo_simulation =
  fixes cap :: nat
    and ok :: "'s \<Rightarrow> bool"
    and step :: "side \<Rightarrow> 's \<Rightarrow> 's \<Rightarrow> bool"
    and event :: "side \<Rightarrow> 's \<Rightarrow> fifo_event"
    and queues :: "'s \<Rightarrow> fifos"
  assumes ok_step: "ok s \<Longrightarrow> step x s s' \<Longrightarrow> ok s'"
    and sim_step: "ok s \<Longrightarrow> step x s s' \<Longrightarrow> fifo cap (event x s) (queues s) = Some (queues s')"
begin

lemma trace_simulated:
  "trace step event s es s' \<Longrightarrow> ok s \<Longrightarrow> ok s' \<and> fifo_run cap es (queues s) = Some (queues s')"
  by (induction rule: trace.induct) (auto simp: fifo_run_append ok_step sim_step)

end

interpretation ivcq: fifo_simulation n "\<lambda>s. sys_ok n fs s \<and> link_up s" ivc_step ivc_event in_flight
  for n fs
  by unfold_locales (auto intro: sys_ok_step link_stays step_event)

text \<open>The next step of an endpoint that is inside a call is determined.\<close>

definition resume :: "side \<Rightarrow> ivc_sys \<Rightarrow> ivc_sys" where
  "resume x s =
     (let e = ep s x; i = ep_ivc e; go = (\<lambda>e' m'. s\<lparr>ep := (ep s)(x := e'), mem := m'\<rparr>) in
      case ep_pc e of
        Idle \<Rightarrow> s
      | Wr_checked d \<Rightarrow> go (e\<lparr>ep_pc := Wr_copied (d @ replicate (unat (frame_size i) - length d) 0)\<rparr>) (write_frame i d (mem s))
      | Wr_copied f \<Rightarrow> (case ivc_advance_tx i (mem s) of (i', m') \<Rightarrow>
          go (e\<lparr>ep_ivc := i', ep_pc := Idle, sent := sent e @ [f]\<rparr>) m')
      | Rd_checked \<Rightarrow> go (e\<lparr>ep_pc := Rd_copied (read_frame i 0 (unat (frame_size i)) (mem s))\<rparr>) (mem s)
      | Rd_copied f \<Rightarrow> (case ivc_advance_rx i (mem s) of (i', m') \<Rightarrow>
          go (e\<lparr>ep_ivc := i', ep_pc := Idle, rcvd := rcvd e @ [f]\<rparr>) m')
      | Nt_read p \<Rightarrow> (case notified_action (ch_state (mem s (tx_channel i))) p of
          (True, Some st) \<Rightarrow> go (e\<lparr>ep_pc := Nt_cleared st, sent := []\<rparr>) (clear_tx i (mem s))
        | (clear, new) \<Rightarrow> go (e\<lparr>ep_pc := (case new of None \<Rightarrow> Idle | Some st \<Rightarrow> Nt_set st)\<rparr>) (mem s))
      | Nt_cleared st \<Rightarrow> (case clear_rx i (mem s) of (i', m') \<Rightarrow>
          go (e\<lparr>ep_ivc := i', ep_pc := Nt_set st, rcvd := []\<rparr>) m')
      | Nt_set st \<Rightarrow> go (e\<lparr>ep_pc := Idle\<rparr>) (set_state st i (mem s)))"

lemma action_shape: "notified_action a b \<noteq> (True, None)"
  by (simp add: notified_action_def)

lemma resume_step:
  assumes "ep_pc (ep s x) \<noteq> Idle"
  shows "ivc_step x s (resume x s)"
proof (cases "ep_pc (ep s x)")
  case (Wr_checked d)
  then show ?thesis using write_copy [OF Wr_checked] by (simp add: resume_def Let_def)
next
  case (Wr_copied f)
  obtain i m where "ivc_advance_tx (ep_ivc (ep s x)) (mem s) = (i, m)" by force
  from write_advance [OF Wr_copied this] show ?thesis using Wr_copied \<open>_ = (i, m)\<close> by (simp add: resume_def Let_def)
next
  case Rd_checked
  then show ?thesis using read_copy [OF Rd_checked] by (simp add: resume_def Let_def)
next
  case (Rd_copied f)
  obtain i m where "ivc_advance_rx (ep_ivc (ep s x)) (mem s) = (i, m)" by force
  from read_advance [OF Rd_copied this] show ?thesis using Rd_copied \<open>_ = (i, m)\<close> by (simp add: resume_def Let_def)
next
  case (Nt_read p)
  obtain c new where A: "notified_action (ch_state (mem s (tx_channel (ep_ivc (ep s x))))) p = (c, new)" by force
  show ?thesis
  proof (cases c)
    case True
    then obtain st where "new = Some st" using A action_shape [of "ch_state (mem s (tx_channel (ep_ivc (ep s x))))" p]
      by (cases new) auto
    with notified_clear [OF Nt_read, of st] A True Nt_read show ?thesis by (simp add: resume_def Let_def)
  next
    case False
    with notified_keep [OF Nt_read, of new] A Nt_read show ?thesis by (simp add: resume_def Let_def)
  qed
next
  case (Nt_cleared st)
  obtain i m where "clear_rx (ep_ivc (ep s x)) (mem s) = (i, m)" by force
  from notified_clear_rx [OF Nt_cleared this] show ?thesis using Nt_cleared \<open>_ = (i, m)\<close> by (simp add: resume_def Let_def)
next
  case (Nt_set st)
  then show ?thesis using notified_set [OF Nt_set] by (simp add: resume_def Let_def)
qed (use assms in simp)

lemma resume_run: "ep_pc (ep s x) \<noteq> Idle \<Longrightarrow> ivc_run t s \<Longrightarrow> ivc_run t (resume x s)"
  using resume_step run_step by blast

definition enter :: "side \<Rightarrow> pc \<Rightarrow> ivc_sys \<Rightarrow> ivc_sys" where
  "enter x p s = s\<lparr>ep := (ep s)(x := (ep s x)\<lparr>ep_pc := p\<rparr>)\<rparr>"

lemma enter_write:
  "ep_pc (ep s x) = Idle \<Longrightarrow> length d \<le> unat (frame_size (ep_ivc (ep s x))) \<Longrightarrow>
   ivc_check_write (ep_ivc (ep s x)) (mem s) = None \<Longrightarrow> ivc_run t s \<Longrightarrow> ivc_run t (enter x (Wr_checked d) s)"
  unfolding enter_def by (rule run_step [OF _ write_check])

lemma enter_read:
  "ep_pc (ep s x) = Idle \<Longrightarrow> ivc_check_read (ep_ivc (ep s x)) (mem s) = None \<Longrightarrow> ivc_run t s \<Longrightarrow>
   ivc_run t (enter x Rd_checked s)"
  unfolding enter_def by (rule run_step [OF _ read_check])

lemma enter_notified:
  "ep_pc (ep s x) = Idle \<Longrightarrow> ch_state (mem s (rx_channel (ep_ivc (ep s x)))) = q \<Longrightarrow> ivc_run t s \<Longrightarrow>
   ivc_run t (enter x (Nt_read q) s)"
  unfolding enter_def using run_step [OF _ notified_read] by blast

section \<open>From initialisation\<close>

lemma ivc_init_fields:
  "tegra_ivc_init rx tx nfr fsize i = (Inr (), a) \<Longrightarrow>
   a = \<lparr>rx_channel = rx, tx_channel = tx, w_pos = 0, r_pos = 0, nframes = nfr, frame_size = fsize\<rparr> \<and>
   check_ivc_params rx tx nfr fsize = None"
  by (auto simp: tegra_ivc_init_def split: option.splits if_splits)

lemma params_size:
  assumes "check_ivc_params b1 b2 nfr fsize = None"
  shows "unat nfr * unat fsize < 2 ^ 32"
proof -
  have ge: "\<not> (ucast nfr :: u64) * ucast fsize \<ge> 0x100000000"
    using assms by (auto simp: check_ivc_params_def split: if_splits)
  have "unat nfr * unat fsize < 2 ^ 64"
    using mult_strict_mono [of "unat nfr" "2 ^ 32" "unat fsize" "2 ^ 32"] unat_u32_bound [of nfr] unat_u32_bound [of fsize]
    by simp
  then have "unat ((ucast nfr :: u64) * ucast fsize) = unat nfr * unat fsize"
    by (simp add: unat_word_ariths unat_ucast_up)
  with ge show ?thesis by (simp add: word_le_nat_alt)
qed

text \<open>Two endpoints initialised on swapped channels are connected, and the reset of one of them makes a
  state from which the runs start.\<close>

lemma init_after_reset:
  assumes "tegra_ivc_init b1 b2 nfr fsize i1 = (Inr (), a)" and "tegra_ivc_init b2 b1 nfr fsize i2 = (Inr (), b)"
    and "b1 \<noteq> b2" and "nfr \<noteq> 0" and "ch_state (m b1) \<in> {ivc_state_sync, ivc_state_established}"
    and "\<And>c. c = b1 \<or> c = b2 \<Longrightarrow> length (ch_frames (m c)) = unat nfr * unat fsize"
  shows "after_reset (unat nfr) (unat fsize)
    \<lparr>mem = tegra_ivc_channel_reset a m,
     ep = (\<lambda>x. \<lparr>ep_ivc = (case x of Here \<Rightarrow> a | There \<Rightarrow> b), ep_pc = Idle, sent = [], rcvd = []\<rparr>)\<rparr>"
  using ivc_init_fields [OF assms(1)] ivc_init_fields [OF assms(2)] params_size [of b1 b2 nfr fsize] assms(3-6)
  by (auto simp: after_reset_def wired_def all_side ex_side chan_def tegra_ivc_channel_reset_def set_state_def
      unat_gt_0)

text \<open>The test for overlap forgets the 128-byte header in front of the frames: these two channels share
  memory.\<close>

lemma params_overlap: "check_ivc_params 0x1000 0x1040 1 64 = None \<and> 0x1000 + 128 + 64 > (0x1040 :: u64)"
  by (simp add: check_ivc_params_def)

section \<open>Example pairs\<close>

text \<open>Concrete pairs of endpoints: two frames of four bytes, channels at \<open>0x2000\<close> and \<open>0x1000\<close>.\<close>

definition hdr :: "u32 \<Rightarrow> u32 \<Rightarrow> u32 \<Rightarrow> bytes \<Rightarrow> ivc_channel_header" where
  "hdr w st r fr = \<lparr>w_count = w, ch_state = st, r_count = r, ch_frames = fr\<rparr>"

definition endp :: "u64 \<Rightarrow> u64 \<Rightarrow> u32 \<Rightarrow> u32 \<Rightarrow> pc \<Rightarrow> bytes list \<Rightarrow> bytes list \<Rightarrow> endpoint" where
  "endp rx tx wp rp p snt rcv =
     \<lparr>ep_ivc = \<lparr>rx_channel = rx, tx_channel = tx, w_pos = wp, r_pos = rp, nframes = 2, frame_size = 4\<rparr>,
      ep_pc = p, sent = snt, rcvd = rcv\<rparr>"

definition pair :: "ivc_channel_header \<Rightarrow> ivc_channel_header \<Rightarrow> endpoint \<Rightarrow> endpoint \<Rightarrow> ivc_sys" where
  "pair h t a b =
     \<lparr>mem = (\<lambda>ad. if ad = 0x2000 then h else if ad = 0x1000 then t else hdr 0 0 0 []),
      ep = (\<lambda>x. case x of Here \<Rightarrow> a | There \<Rightarrow> b)\<rparr>"

lemma pair_simps:
  "mem (pair h t a b) 0x2000 = h" "mem (pair h t a b) 0x1000 = t"
  "ep (pair h t a b) Here = a" "ep (pair h t a b) There = b"
  "(mem (pair h t a b))(0x2000 := h') = mem (pair h' t a b)"
  "(mem (pair h t a b))(0x1000 := t') = mem (pair h t' a b)"
  "(ep (pair h t a b))(Here := a') = ep (pair h t a' b)"
  "(ep (pair h t a b))(There := b') = ep (pair h t a b')"
  "(pair h t a b)\<lparr>ep := ep (pair h1 t1 a' b')\<rparr> = pair h t a' b'"
  "(pair h t a b)\<lparr>mem := mem (pair h' t' a1 b1)\<rparr> = pair h' t' a b"
  by (auto simp: pair_def fun_eq_iff split: side.split)

lemmas machine = pair_simps hdr_def endp_def resume_def enter_def Let_def set_state_def clear_tx_def clear_rx_def
  ivc_advance_tx_def ivc_advance_rx_def notified_action_def write_frame_def poke_frame_def read_frame_def
  frame_offset_def

abbreviation (input) "here_ep \<equiv> endp 0x1000 0x2000"
abbreviation (input) "there_ep \<equiv> endp 0x2000 0x1000"

abbreviation (input) "old \<equiv> [9, 9, 9, 9, 9, 9, 9, 9]"
abbreviation (input) "full1 \<equiv> [1, 2, 3, 0, 9, 9, 9, 9]"

definition reset_pair :: ivc_sys where
  "reset_pair = pair (hdr 7 1 5 old) (hdr 7 1 5 old) (here_ep 0 0 Idle [] []) (there_ep 0 0 Idle [] [])"

lemma reset_pair_ok: "wired 2 4 reset_pair" "after_reset 2 4 reset_pair"
  by (auto simp: reset_pair_def after_reset_def wired_def chan_def all_side ex_side pair_simps hdr_def endp_def)

lemmas checks = ivc_check_write_def ivc_check_read_def ivc_channel_full_def ivc_channel_empty_def chan_def

lemma acked_run:
  "ivc_run reset_pair (pair (hdr 0 0 0 old) (hdr 0 2 0 old) (here_ep 0 0 Idle [] []) (there_ep 0 0 Idle [] []))"
proof -
  have 1: "notify_call There reset_pair =
      pair (hdr 7 1 0 old) (hdr 0 2 5 old) (here_ep 0 0 Idle [] []) (there_ep 0 0 Idle [] [])"
    by (simp add: reset_pair_def notify_call_def tegra_ivc_channel_notified_def call_state_def chan_def machine)
  have 2: "notify_call Here (pair (hdr 7 1 0 old) (hdr 0 2 5 old) (here_ep 0 0 Idle [] []) (there_ep 0 0 Idle [] [])) =
      pair (hdr 0 0 0 old) (hdr 0 2 0 old) (here_ep 0 0 Idle [] []) (there_ep 0 0 Idle [] [])"
    by (simp add: notify_call_def tegra_ivc_channel_notified_def call_state_def chan_def machine)
  have "ivc_run reset_pair (notify_call There reset_pair)"
    by (rule notified_run) (simp add: reset_pair_def pair_simps endp_def)
  moreover have "ivc_run (notify_call There reset_pair) (notify_call Here (notify_call There reset_pair))"
    by (rule notified_run) (simp add: 1 pair_simps endp_def)
  ultimately show ?thesis using run_trans unfolding 1 2 by blast
qed

text \<open>The endpoint \<open>Here\<close> writes a frame; then, before \<open>There\<close> acts on the state it has read, \<open>Here\<close> resets.\<close>

abbreviation (input) "race_before \<equiv> pair (hdr 1 0 0 full1) (hdr 0 2 0 old) (here_ep 1 0 Idle [[1,2,3,0]] []) (there_ep 0 0 (Nt_read 0) [] [])"
abbreviation (input) "race_after \<equiv> pair (hdr 0 0 1 full1) (hdr 0 0 0 old) (here_ep 0 0 Idle [] []) (there_ep 0 1 Idle [] [[1,2,3,0]])"

lemma race_before_run: "ivc_run reset_pair race_before"
proof -
  have "ivc_run reset_pair (pair (hdr 0 0 0 old) (hdr 0 2 0 old) (here_ep 0 0 (Wr_checked [1,2,3]) [] []) (there_ep 0 0 Idle [] []))"
    using enter_write [OF _ _ _ acked_run, of Here "[1,2,3]"] by (simp add: machine checks)
  from resume_run [OF _ this, of Here]
  have "ivc_run reset_pair (pair (hdr 0 0 0 full1) (hdr 0 2 0 old) (here_ep 0 0 (Wr_copied [1,2,3,0]) [] []) (there_ep 0 0 Idle [] []))"
    by (simp add: machine overwrite_def)
  from resume_run [OF _ this, of Here]
  have "ivc_run reset_pair (pair (hdr 1 0 0 full1) (hdr 0 2 0 old) (here_ep 1 0 Idle [[1,2,3,0]] []) (there_ep 0 0 Idle [] []))"
    by (simp add: machine)
  from enter_notified [OF _ _ this, of There 0] show ?thesis by (simp add: machine)
qed

lemma race_after_run:
  "ivc_run (pair (hdr 1 1 0 full1) (hdr 0 2 0 old) (here_ep 1 0 Idle [[1,2,3,0]] []) (there_ep 0 0 (Nt_read 0) [] [])) race_after"
    (is "ivc_run ?s _")
proof -
  have "ivc_run ?s (pair (hdr 1 1 0 full1) (hdr 0 2 0 old) (here_ep 1 0 (Nt_read 2) [[1,2,3,0]] []) (there_ep 0 0 (Nt_read 0) [] []))"
    using enter_notified [OF _ _ run_refl, of ?s Here 2] by (simp add: machine)
  from resume_run [OF _ this, of There]
  have "ivc_run ?s (pair (hdr 1 1 0 full1) (hdr 0 2 0 old) (here_ep 1 0 (Nt_read 2) [[1,2,3,0]] []) (there_ep 0 0 (Nt_set 0) [] []))"
    by (simp add: machine)
  from resume_run [OF _ this, of There]
  have "ivc_run ?s (pair (hdr 1 1 0 full1) (hdr 0 0 0 old) (here_ep 1 0 (Nt_read 2) [[1,2,3,0]] []) (there_ep 0 0 Idle [] []))"
    by (simp add: machine)
  from enter_read [OF _ _ this, of There]
  have "ivc_run ?s (pair (hdr 1 1 0 full1) (hdr 0 0 0 old) (here_ep 1 0 (Nt_read 2) [[1,2,3,0]] []) (there_ep 0 0 Rd_checked [] []))"
    by (simp add: machine checks)
  from resume_run [OF _ this, of Here]
  have "ivc_run ?s (pair (hdr 0 1 0 full1) (hdr 0 0 0 old) (here_ep 1 0 (Nt_cleared 0) [] []) (there_ep 0 0 Rd_checked [] []))"
    by (simp add: machine)
  from resume_run [OF _ this, of Here]
  have "ivc_run ?s (pair (hdr 0 1 0 full1) (hdr 0 0 0 old) (here_ep 0 0 (Nt_set 0) [] []) (there_ep 0 0 Rd_checked [] []))"
    by (simp add: machine)
  from resume_run [OF _ this, of Here]
  have "ivc_run ?s (pair (hdr 0 0 0 full1) (hdr 0 0 0 old) (here_ep 0 0 Idle [] []) (there_ep 0 0 Rd_checked [] []))"
    by (simp add: machine)
  from resume_run [OF _ this, of There]
  have "ivc_run ?s (pair (hdr 0 0 0 full1) (hdr 0 0 0 old) (here_ep 0 0 Idle [] []) (there_ep 0 0 (Rd_copied [1,2,3,0]) [] []))"
    by (simp add: machine subrange_def)
  from resume_run [OF _ this, of There] show ?thesis by (simp add: machine)
qed

lemma linked_run:
  "ivc_run reset_pair (pair (hdr 0 0 0 old) (hdr 0 0 0 old) (here_ep 0 0 Idle [] []) (there_ep 0 0 Idle [] []))"
    (is "ivc_run _ ?s")
proof -
  have "notify_call There (pair (hdr 0 0 0 old) (hdr 0 2 0 old) (here_ep 0 0 Idle [] []) (there_ep 0 0 Idle [] [])) = ?s"
    by (simp add: notify_call_def tegra_ivc_channel_notified_def call_state_def chan_def machine)
  then show ?thesis
    using run_trans [OF notified_run acked_run, of There] by (simp add: machine)
qed

abbreviation (input) "linked \<equiv> pair (hdr 0 0 0 old) (hdr 0 0 0 old) (here_ep 0 0 Idle [] []) (there_ep 0 0 Idle [] [])"

lemma linked_up: "link_up linked"
  by (simp add: link_up_def all_side machine chan_def)

lemma linked_trace:
  "trace ivc_step ivc_event linked [Silent, Silent, Enq Here [1, 2, 3, 0]]
     (pair (hdr 1 0 0 full1) (hdr 0 0 0 old) (here_ep 1 0 Idle [[1,2,3,0]] []) (there_ep 0 0 Idle [] []))"
proof -
  have st: "ivc_step Here linked (enter Here (Wr_checked [1,2,3]) linked)"
    unfolding enter_def by (rule write_check) (simp_all add: machine checks)
  have 1: "trace ivc_step ivc_event linked ([] @ [ivc_event Here linked]) (enter Here (Wr_checked [1,2,3]) linked)"
    using trace_more [where step = ivc_step and event = ivc_event, OF trace_start st] .
  have 2: "trace ivc_step ivc_event linked [Silent, Silent]
      (pair (hdr 0 0 0 full1) (hdr 0 0 0 old) (here_ep 0 0 (Wr_copied [1,2,3,0]) [] []) (there_ep 0 0 Idle [] []))"
    using trace_more [where step = ivc_step and event = ivc_event, OF 1 resume_step, of Here] by (simp add: machine overwrite_def ivc_event_def)
  show ?thesis
    using trace_more [where step = ivc_step and event = ivc_event, OF 2 resume_step, of Here] by (simp add: machine ivc_event_def)
qed

end
