(* ===== verification/Ivc_Properties.thy ===== *)
theory Ivc_Properties
  imports Ivc_Queue
begin

text \<open>
  The properties of an IVC link: it refines a bounded queue per direction, its calls are the queue's
  operations, the reset handshake converges, and a second reset at the wrong moment breaks it.
\<close>

text \<open>
  C5. Refinement of a bounded queue: after one endpoint (or both) has been reset, in whatever state the
  counters were and even if the other was in the middle of a read or write, consider any interleaving of
  the two endpoints' accesses from a moment when neither is resynchronising any more. Every step
  is a step of two bounded first-in first-out queues, one per direction: a write appends a frame to a
  queue that holds fewer than \<open>nframes\<close>, a read takes the first frame of a nonempty one, all other
  steps leave both alone. At most \<open>nframes\<close> frames are in flight, and what was received is a prefix of
  what was sent.
\<close>

theorem ivc_refines_fifo:
  assumes "after_reset n fs s0" and "ivc_run s0 s" and "link_up s" and "trace ivc_step ivc_event s es s'"
  shows "fifo_run n es (in_flight s) = Some (in_flight s') \<and>
    (\<forall>x. length (in_flight s' x) \<le> n \<and> prefix (rcvd (ep s' (other x))) (sent (ep s' x)))"
proof -
  have "sys_ok n fs s \<and> link_up s" using run_ok [OF assms(1,2)] assms(3) by simp
  from ivcq.trace_simulated [OF assms(4) this] show ?thesis by (auto intro: queue_bounds)
qed

theorem ivc_refines_fifo_witness:
  "\<exists>s'. trace ivc_step ivc_event linked [Silent, Silent, Enq Here [1, 2, 3, 0]] s' \<and>
     fifo_run 2 [Silent, Silent, Enq Here [1, 2, 3, 0]] (in_flight linked) = Some (in_flight s')"
  using ivc_refines_fifo [OF reset_pair_ok(2) linked_run linked_up linked_trace] linked_trace by blast

text \<open>
  C23. The calls: in such a state an endpoint that is established and calls \<open>tegra_ivc_write\<close> with at
  most a frame of data gets \<open>-ENOMEM\<close>, with nothing changed, exactly when \<open>nframes\<close> frames are in
  flight; otherwise the data, padded with zeros, is appended and the peer is notified exactly if the
  queue was empty. \<open>tegra_ivc_read\<close> gets \<open>-ENOMEM\<close> exactly when no frame is waiting; otherwise the first
  frame, cut to the length asked for, and the peer is notified exactly if the queue was full.
\<close>

theorem ivc_calls_queue:
  assumes "after_reset n fs s0" and "ivc_run s0 s" and "link_up s"
    and "ch_state (chan s x) = ivc_state_established" and "ep_pc (ep s x) = Idle"
    and "length buf \<le> fs" and "unat max_read \<le> fs"
  shows "(if length (in_flight s x) < n
      then \<exists>i m s'. tegra_ivc_write (ep_ivc (ep s x)) buf (of_nat (length buf)) (mem s) =
             (Inr (in_flight s x = []), i, m) \<and>
           s' = call_state x i m (sent (ep s x) @ [buf @ replicate (fs - length buf) 0]) (rcvd (ep s x)) s \<and>
           ivc_run s s' \<and> in_flight s' = (in_flight s)(x := in_flight s x @ [buf @ replicate (fs - length buf) 0])
      else tegra_ivc_write (ep_ivc (ep s x)) buf (of_nat (length buf)) (mem s) = (Inl ENOMEM, ep_ivc (ep s x), mem s)) \<and>
    (case in_flight s (other x) of
      [] \<Rightarrow> tegra_ivc_read (ep_ivc (ep s x)) max_read (mem s) = (Inl ENOMEM, ep_ivc (ep s x), mem s)
    | f # rest \<Rightarrow>
        \<exists>i m s'. tegra_ivc_read (ep_ivc (ep s x)) max_read (mem s) =
             (Inr (take (unat max_read) f, length (f # rest) = n), i, m) \<and>
           s' = call_state x i m (sent (ep s x)) (rcvd (ep s x) @ [f]) s \<and>
           ivc_run s s' \<and> in_flight s' = (in_flight s)(other x := rest))"
  using write_call [OF run_ok [OF assms(1,2)] assms(3-6)] read_call [OF run_ok [OF assms(1,2)] assms(3-5,7)] ..

theorem ivc_calls_queue_witness:
  "tegra_ivc_read (ep_ivc (ep linked There)) 3 (mem linked) = (Inl ENOMEM, ep_ivc (ep linked There), mem linked) \<and>
   (\<exists>i m. tegra_ivc_write (ep_ivc (ep linked There)) [5, 6] 2 (mem linked) = (Inr True, i, m))"
  using ivc_calls_queue [OF reset_pair_ok(2) linked_run linked_up, of There "[5, 6]" 3]
  by (auto simp: machine chan_def in_flight_def)

text \<open>
  C24. The reset handshake ends: when one endpoint has been reset and the other is established or has been
  reset too, with any counters, then after each has handled two notifications, whichever goes first, both
  are established, all four counters and positions are zero, and a further call returns success.
\<close>

theorem ivc_handshake_converges:
  assumes "wired n fs s" and "ch_state (chan s x) = ivc_state_sync"
    and "ch_state (chan s (other x)) \<in> {ivc_state_sync, ivc_state_established}"
    and "s' = notify_call (other y) (notify_call y (notify_call (other y) (notify_call y s)))"
  shows "\<forall>z. ch_state (chan s' z) = ivc_state_established \<and> w_count (chan s' z) = 0 \<and> r_count (chan s' z) = 0 \<and>
    w_pos (ep_ivc (ep s' z)) = 0 \<and> r_pos (ep_ivc (ep s' z)) = 0 \<and>
    fst (tegra_ivc_channel_notified (ep_ivc (ep s' z)) (mem s')) = Inr ()"
proof -
  have "y = x \<or> y = other x" using not_side [of y x] by blast
  then have "hs n fs s' y 0 True 0 True"
    unfolding assms(4) using assms(1-3) by (intro hs_rounds) (auto simp: hs_def view_def)
  then have W: "wired n fs s'" and "\<And>z. z = y \<or> z = other y \<Longrightarrow> vs (view s' z) = 0 \<and> vclean (view s' z)"
    by (auto simp: hs_def)
  then have V: "vs (view s' z) = 0 \<and> vclean (view s' z)" for z using not_side [of z y] by blast
  have "fst (tegra_ivc_channel_notified (ep_ivc (ep s' z)) (mem s')) = Inr ()" for z
    using V [of z] V [of "other z"] wired_chans(3) [OF W, of z]
    by (simp add: view_def chan_def tegra_ivc_channel_notified_def notified_action_def)
  moreover have "r_count (chan s' z) = 0" for z using V [of "other z"] by (simp add: vclean_def view_def)
  ultimately show ?thesis using V by (simp add: vclean_def view_def unat_eq_zero)
qed

theorem ivc_handshake_converges_witness:
  "\<forall>z. ch_state (chan (notify_call There (notify_call Here (notify_call There (notify_call Here reset_pair)))) z) = 0"
  using ivc_handshake_converges [OF reset_pair_ok(1), of Here _ Here] 
  by (simp add: reset_pair_def chan_def machine)

text \<open>
  A second reset can break the link: when an endpoint resets while its peer, still acknowledging,
  has read the earlier established state, the two can end established with a read counter ahead of the
  write counter. The channel is then full for the writer and empty for the reader, though
  nothing was sent since the reset: both get \<open>-ENOMEM\<close>, and the reader has taken a frame from before.
\<close>

theorem ivc_reset_race:
  "\<exists>s1 s2. after_reset 2 4 reset_pair \<and> ivc_run reset_pair s1 \<and> ep_pc (ep s1 Here) = Idle \<and>
     ivc_run (s1\<lparr>mem := tegra_ivc_channel_reset (ep_ivc (ep s1 Here)) (mem s1)\<rparr>) s2 \<and>
     (\<forall>x. ep_pc (ep s2 x) = Idle \<and> ch_state (chan s2 x) = ivc_state_established) \<and>
     sent (ep s2 Here) = [] \<and> rcvd (ep s2 There) = [[1, 2, 3, 0]] \<and>
     w_count (chan s2 Here) - r_count (chan s2 Here) = 0xFFFFFFFF \<and>
     ivc_check_write (ep_ivc (ep s2 Here)) (mem s2) = Some ENOMEM \<and>
     ivc_check_read (ep_ivc (ep s2 There)) (mem s2) = Some ENOMEM"
proof (intro exI conjI)
  show "after_reset 2 4 reset_pair" by (rule reset_pair_ok)
  show "ivc_run reset_pair race_before" by (rule race_before_run)
  show "ivc_run (race_before\<lparr>mem := tegra_ivc_channel_reset (ep_ivc (ep race_before Here)) (mem race_before)\<rparr>) race_after"
    using race_after_run by (simp add: tegra_ivc_channel_reset_def machine)
qed (simp_all add: machine checks all_side)

end
