(* ===== verification/Tegrabl_Malloc.thy ===== *)
theory Tegrabl_Malloc
  imports Tegrabl_Error "HOL-Library.Monad_Syntax"
begin

text \<open>
  The heap allocator (\<open>lib/malloc/tegrabl_malloc.c\<close>).

  Memory is a function from addresses to bytes; the headers the allocator keeps in the heap are read
  and written there in the layout of the C structures: \<open>magic\<close> (32 bits) at offset 0, \<open>size\<close> at 8,
  \<open>prev\<close> (of a free block) or \<open>start\<close> (of an allocated one) at 16, \<open>next\<close> at 24. Pointers are 64-bit
  words, \<open>NULL\<close> is 0. An operation is a function of the state into \<open>option\<close>: \<open>None\<close> means that it never
  returns, because it hangs on a corrupted heap (\<open>tegrabl_hang\<close>, a failed \<open>TEGRABL_ASSERT\<close>) or because a
  loop does not end. Assertions are compiled in, which only adds ways to hang.
\<close>

type_synonym mem = "nat \<Rightarrow> u8"

definition ld :: "nat \<Rightarrow> u64 \<Rightarrow> mem \<Rightarrow> 'a::len word" where
  "ld w a m = of_le (map (\<lambda>i. m (unat a + i)) [0..<w])"

definition sto :: "nat \<Rightarrow> u64 \<Rightarrow> 'a::len word \<Rightarrow> mem \<Rightarrow> mem" where
  "sto w a v m = (\<lambda>x. if unat a \<le> x \<and> x < unat a + w then le_bytes w v ! (x - unat a) else m x)"

abbreviation (input) FREE_MAGIC :: u32 where "FREE_MAGIC \<equiv> 0xDEEFBEEE"
abbreviation (input) ALLOC_MAGIC :: u32 where "ALLOC_MAGIC \<equiv> 0xDEADBEEE"
abbreviation (input) MIN_SIZE :: u64 where "MIN_SIZE \<equiv> 32"
abbreviation (input) ALLOC_HDR :: u64 where "ALLOC_HDR \<equiv> 24"

abbreviation (input) TEGRABL_HEAP_DEFAULT :: u32 where "TEGRABL_HEAP_DEFAULT \<equiv> 0"
abbreviation (input) TEGRABL_HEAP_DMA :: u32 where "TEGRABL_HEAP_DMA \<equiv> 1"
abbreviation (input) TEGRABL_HEAP_TYPE_MAX :: u32 where "TEGRABL_HEAP_TYPE_MAX \<equiv> 2"

text \<open>The fields of the header at an address; \<open>f_prev\<close> is also the \<open>start\<close> of an allocated block.\<close>

definition f_magic :: "u64 \<Rightarrow> mem \<Rightarrow> u32" where "f_magic a m = ld 4 a m"
definition f_size :: "u64 \<Rightarrow> mem \<Rightarrow> u64" where "f_size a m = ld 8 (a + 8) m"
definition f_prev :: "u64 \<Rightarrow> mem \<Rightarrow> u64" where "f_prev a m = ld 8 (a + 16) m"
definition f_next :: "u64 \<Rightarrow> mem \<Rightarrow> u64" where "f_next a m = ld 8 (a + 24) m"

definition set_magic :: "u64 \<Rightarrow> u32 \<Rightarrow> mem \<Rightarrow> mem" where "set_magic a v m = sto 4 a v m"
definition set_size :: "u64 \<Rightarrow> u64 \<Rightarrow> mem \<Rightarrow> mem" where "set_size a v m = sto 8 (a + 8) v m"
definition set_prev :: "u64 \<Rightarrow> u64 \<Rightarrow> mem \<Rightarrow> mem" where "set_prev a v m = sto 8 (a + 16) v m"
definition set_next :: "u64 \<Rightarrow> u64 \<Rightarrow> mem \<Rightarrow> mem" where "set_next a v m = sto 8 (a + 24) v m"

record heap_info =
  max_size :: u64
  free_size :: u64
  heap_start :: u64
  heap_end :: u64
  free_list :: u64

record heaps =
  hmem :: mem
  hinfo :: "u32 \<Rightarrow> heap_info"

definition upd_info :: "u32 \<Rightarrow> (heap_info \<Rightarrow> heap_info) \<Rightarrow> heaps \<Rightarrow> heaps" where
  "upd_info h f s = s\<lparr>hinfo := (hinfo s)(h := f (hinfo s h))\<rparr>"

definition hang_if :: "bool \<Rightarrow> unit option" where
  "hang_if c = (if c then None else Some ())"

definition ASSERT :: "bool \<Rightarrow> unit option" where
  "ASSERT c = hang_if (\<not> c)"

section \<open>Initialisation\<close>

abbreviation (input) HEAP_ERROR :: "u32 \<Rightarrow> u32" where
  "HEAP_ERROR r \<equiv> tegrabl_error_value 0x1a 0 r"

definition tegrabl_heap_init :: "u32 \<Rightarrow> u64 \<Rightarrow> u64 \<Rightarrow> heaps \<Rightarrow> u32 \<times> heaps" where
  "tegrabl_heap_init heap_type start sz s =
     (if sz < MIN_SIZE then (HEAP_ERROR 0x08, s)
      else if heap_type \<ge> TEGRABL_HEAP_TYPE_MAX then (HEAP_ERROR 0x02, s)
      else if free_list (hinfo s heap_type) \<noteq> 0 then (HEAP_ERROR 0x21, s)
      else
        (0, s\<lparr>hmem := set_magic start FREE_MAGIC (set_size start sz (set_next start 0 (set_prev start 0 (hmem s)))),
              hinfo := (hinfo s)(heap_type :=
                \<lparr>max_size = sz, free_size = sz, heap_start = start, heap_end = start + sz, free_list = start\<rparr>)\<rparr>))"

section \<open>Allocation\<close>

definition check_link :: "u64 \<Rightarrow> u64 \<Rightarrow> u64 \<Rightarrow> heap_info \<Rightarrow> mem \<Rightarrow> unit option" where
  "check_link cur_block prev_block next_block hi m =
     (let start = cur_block; end = start + f_size cur_block m in
      do {
        hang_if (end < start);
        hang_if (start < heap_start hi \<or> end > heap_end hi);
        hang_if (prev_block \<noteq> 0 \<and> f_next prev_block m \<noteq> cur_block);
        hang_if (next_block \<noteq> 0 \<and> f_prev next_block m \<noteq> cur_block)
      })"

definition when_ptr :: "u64 \<Rightarrow> (u64 \<Rightarrow> mem \<Rightarrow> mem) \<Rightarrow> mem \<Rightarrow> mem" where
  "when_ptr p f m = (if p \<noteq> 0 then f p m else m)"

definition tegrabl_heap_split_block :: "u32 \<Rightarrow> u64 \<Rightarrow> u64 \<Rightarrow> heaps \<Rightarrow> (u64 \<times> heaps) option" where
  "tegrabl_heap_split_block h free_block sz s =
     do {
       ASSERT (free_block \<noteq> 0);
       let m = hmem s;
       let remaining_size = f_size free_block m - sz;
       let prev_block = f_prev free_block m;
       let next_block = f_next free_block m;
       check_link free_block prev_block next_block (hinfo s h) m;
       let m = set_next free_block 0 (set_prev free_block 0 m);
       (m, head) \<leftarrow>
         (if remaining_size \<le> MIN_SIZE
          then
            (let head = (if free_block = free_list (hinfo s h) then next_block else free_list (hinfo s h));
                 m = when_ptr next_block (\<lambda>p. set_prev p prev_block) m;
                 m = when_ptr prev_block (\<lambda>p. set_next p next_block) m
             in Some (m, head))
          else
            do {
              let new_free = free_block + sz;
              let m = set_next new_free next_block (set_prev new_free prev_block m);
              let m = when_ptr prev_block (\<lambda>p. set_next p new_free) m;
              let m = when_ptr next_block (\<lambda>p. set_prev p new_free) m;
              let m = set_magic new_free FREE_MAGIC (set_size new_free remaining_size m);
              let m = set_size free_block sz m;
              hang_if (sz > free_size (hinfo s h));
              Some (m, if free_block = free_list (hinfo s h) then new_free else free_list (hinfo s h))
            });
       Some (free_block, upd_info h (\<lambda>i. i\<lparr>free_list := head, free_size := free_size i - f_size free_block m\<rparr>)
         (s\<lparr>hmem := m\<rparr>))
     }"

definition round_word :: "u64 \<Rightarrow> u64" where
  "round_word sz = (sz + 8 - 1) div 8 * 8"

text \<open>The walk along the free list for the first block that is large enough.\<close>

partial_function (option) first_fit :: "u64 \<Rightarrow> u64 \<Rightarrow> mem \<Rightarrow> u64 option" where
  "first_fit alloc_size free_block m =
     (if free_block = 0 then Some 0
      else if f_magic free_block m \<noteq> FREE_MAGIC then None
      else if f_size free_block m > alloc_size then Some free_block
      else first_fit alloc_size (f_next free_block m) m)"

definition tegrabl_generic_malloc :: "u32 \<Rightarrow> u64 \<Rightarrow> heaps \<Rightarrow> (u64 \<times> heaps) option" where
  "tegrabl_generic_malloc h sz s =
     (if sz = 0 \<or> sz > free_size (hinfo s h) then Some (0, s)
      else
        let alloc_size = round_word sz + ALLOC_HDR in
        if alloc_size < sz then Some (0, s)
        else
          do {
            let alloc_size = max alloc_size MIN_SIZE;
            free_block \<leftarrow> first_fit alloc_size (free_list (hinfo s h)) (hmem s);
            if free_block = 0 then Some (0, s)
            else
              do {
                (alloc_block, s) \<leftarrow> tegrabl_heap_split_block h free_block alloc_size s;
                Some (alloc_block + ALLOC_HDR,
                  s\<lparr>hmem := set_magic alloc_block ALLOC_MAGIC (set_prev alloc_block alloc_block (hmem s))\<rparr>)
              }
          })"

definition tegrabl_malloc :: "u64 \<Rightarrow> heaps \<Rightarrow> (u64 \<times> heaps) option" where
  "tegrabl_malloc sz s = tegrabl_generic_malloc TEGRABL_HEAP_DEFAULT sz s"

text \<open>Which heap a request for a heap type is served from.\<close>

definition effective_type :: "u32 \<Rightarrow> heaps \<Rightarrow> u32" where
  "effective_type heap_type s =
     (if free_list (hinfo s TEGRABL_HEAP_DMA) = 0 then TEGRABL_HEAP_DEFAULT else heap_type)"

definition tegrabl_alloc :: "u32 \<Rightarrow> u64 \<Rightarrow> heaps \<Rightarrow> (u64 \<times> heaps) option" where
  "tegrabl_alloc heap_type sz s =
     (if heap_type \<ge> TEGRABL_HEAP_TYPE_MAX then Some (0, s)
      else tegrabl_generic_malloc (effective_type heap_type s) sz s)"

section \<open>Freeing\<close>

definition validate_allocated_block :: "u64 \<Rightarrow> heap_info \<Rightarrow> mem \<Rightarrow> unit option" where
  "validate_allocated_block alloc_block hi m =
     (let start = f_prev alloc_block m; end = start + f_size alloc_block m; alloc_ptr = alloc_block;
          total_free_size = f_size alloc_block m + free_size hi in
      do {
        hang_if (end < start \<or> start > alloc_ptr \<or> alloc_ptr > end);
        hang_if (f_magic alloc_block m \<noteq> ALLOC_MAGIC);
        hang_if (start < heap_start hi \<or> end > heap_end hi);
        hang_if (total_free_size < free_size hi \<or> total_free_size > max_size hi)
      })"

definition tegrabl_heap_merge_with_next :: "u64 \<Rightarrow> u64 \<Rightarrow> mem \<Rightarrow> mem option" where
  "tegrabl_heap_merge_with_next cur_block next_block m =
     (let cur_mem_end = cur_block + f_size cur_block m in
      do {
        hang_if (cur_mem_end < cur_block \<or> cur_mem_end > next_block);
        Some (if cur_mem_end = next_block
              then
                (let m = set_size cur_block (f_size cur_block m + f_size next_block m) m;
                     m = set_next cur_block (f_next next_block m) m
                 in when_ptr (f_next next_block m) (\<lambda>p. set_prev p cur_block) m)
              else m)
      })"

definition tegrabl_heap_merge_blocks :: "u64 \<Rightarrow> mem \<Rightarrow> (u64 \<times> mem) option" where
  "tegrabl_heap_merge_blocks free_block m =
     do {
       let next = f_next free_block m;
       let prev = f_prev free_block m;
       m \<leftarrow> (if next \<noteq> 0 then tegrabl_heap_merge_with_next free_block next m else Some m);
       if prev \<noteq> 0
       then do { m \<leftarrow> tegrabl_heap_merge_with_next prev free_block m; Some (prev, m) }
       else Some (free_block, m)
     }"

text \<open>The walk to the place of a freed block, and the merging towards the head of the list.\<close>

partial_function (option) find_place :: "u64 \<Rightarrow> u64 \<Rightarrow> u64 \<Rightarrow> mem \<Rightarrow> (u64 \<times> u64) option" where
  "find_place ptr prev_block free_block m =
     (if free_block \<noteq> 0 \<and> ptr > free_block then find_place ptr free_block (f_next free_block m) m
      else Some (prev_block, free_block))"

partial_function (option) merge_all :: "u64 \<Rightarrow> mem \<Rightarrow> (u64 \<times> mem) option" where
  "merge_all tmp_free m =
     do {
       (free_block, m) \<leftarrow> tegrabl_heap_merge_blocks tmp_free m;
       if free_block = tmp_free then Some (tmp_free, m) else merge_all free_block m
     }"

definition tegrabl_generic_free :: "u32 \<Rightarrow> u64 \<Rightarrow> heaps \<Rightarrow> (u64 \<times> heaps) option" where
  "tegrabl_generic_free h ptr s =
     (if ptr = 0 then Some (0, s)
      else
        do {
          let alloc_block = ptr - ALLOC_HDR;
          validate_allocated_block alloc_block (hinfo s h) (hmem s);
          let tmp_free = f_prev alloc_block (hmem s);
          let sz = f_size alloc_block (hmem s);
          let m = set_size tmp_free sz (hmem s);
          (prev_block, free_block) \<leftarrow> find_place ptr 0 (free_list (hinfo s h)) m;
          let m = when_ptr prev_block (\<lambda>p. set_next p tmp_free) m;
          let m = set_magic tmp_free FREE_MAGIC (set_next tmp_free free_block (set_prev tmp_free prev_block m));
          let m = when_ptr free_block (\<lambda>p. set_prev p tmp_free) m;
          (tmp_free, m) \<leftarrow> merge_all tmp_free m;
          Some (tmp_free, upd_info h (\<lambda>i. i\<lparr>free_size := free_size i + sz\<rparr>) (s\<lparr>hmem := m\<rparr>))
        })"

definition update_free_list_head :: "u32 \<Rightarrow> u64 \<Rightarrow> heaps \<Rightarrow> heaps" where
  "update_free_list_head h free_block s =
     (if free_list (hinfo s h) = 0 \<or> free_list (hinfo s h) > free_block
      then upd_info h (\<lambda>i. i\<lparr>free_list := free_block\<rparr>) s else s)"

definition tegrabl_dealloc :: "u32 \<Rightarrow> u64 \<Rightarrow> heaps \<Rightarrow> heaps option" where
  "tegrabl_dealloc heap_type ptr s =
     (if heap_type \<ge> TEGRABL_HEAP_TYPE_MAX then Some s
      else
        do {
          let h = effective_type heap_type s;
          (tmp_free, s) \<leftarrow> tegrabl_generic_free h ptr s;
          Some (if tmp_free = 0 then s else update_free_list_head h tmp_free s)
        })"

definition tegrabl_free :: "u64 \<Rightarrow> heaps \<Rightarrow> heaps option" where
  "tegrabl_free ptr s = tegrabl_dealloc TEGRABL_HEAP_DEFAULT ptr s"

section \<open>Zeroed and aligned allocation\<close>

definition memset_zero :: "u64 \<Rightarrow> nat \<Rightarrow> mem \<Rightarrow> mem" where
  "memset_zero a n m = (\<lambda>x. if unat a \<le> x \<and> x < unat a + n then 0 else m x)"

definition tegrabl_calloc :: "u64 \<Rightarrow> u64 \<Rightarrow> heaps \<Rightarrow> (u64 \<times> heaps) option" where
  "tegrabl_calloc nmemb sz s =
     (let total_size = sz * nmemb in
      if sz = 0 then Some (0, s)
      else if nmemb > max_size (hinfo s TEGRABL_HEAP_DEFAULT) div sz then Some (0, s)
      else
        do {
          ASSERT (total_size div sz = nmemb);
          (p, s) \<leftarrow> tegrabl_malloc total_size s;
          Some (p, if p \<noteq> 0 then s\<lparr>hmem := memset_zero p (unat total_size) (hmem s)\<rparr> else s)
        })"

definition align_gap :: "u64 \<Rightarrow> u64 \<Rightarrow> u64" where
  "align_gap alignment block = alignment - (block + ALLOC_HDR) mod alignment"

partial_function (option) get_free_block :: "u64 \<Rightarrow> u64 \<Rightarrow> u64 \<Rightarrow> mem \<Rightarrow> u64 option" where
  "get_free_block alignment alloc_size free_block m =
     (if free_block = 0 then Some 0
      else if f_magic free_block m \<noteq> FREE_MAGIC then None
      else if f_size free_block m < alloc_size then get_free_block alignment alloc_size (f_next free_block m) m
      else if align_gap alignment free_block + alloc_size > f_size free_block m
      then get_free_block alignment alloc_size (f_next free_block m) m
      else Some free_block)"

text \<open>The block after the gap in the free list, found again after the split.\<close>

definition next_after_split :: "u64 \<Rightarrow> u64 \<Rightarrow> u64 \<Rightarrow> mem \<Rightarrow> u64" where
  "next_after_split prev_block next_block head m =
     (if prev_block = 0 \<and> next_block = 0 then head
      else if next_block = 0 then f_next prev_block m
      else if f_prev next_block m \<noteq> prev_block then f_prev next_block m
      else next_block)"

definition tegrabl_memalign_generic :: "u32 \<Rightarrow> u64 \<Rightarrow> u64 \<Rightarrow> heaps \<Rightarrow> (u64 \<times> heaps) option" where
  "tegrabl_memalign_generic h alignment sz s =
     (if sz = 0 then Some (0, s)
      else
        do {
          let alloc_size = max (round_word sz + ALLOC_HDR) MIN_SIZE;
          free_block \<leftarrow> get_free_block alignment alloc_size (free_list (hinfo s h)) (hmem s);
          if free_block = 0 then Some (0, s)
          else
            do {
              let prev_block = f_prev free_block (hmem s);
              let next_block = f_next free_block (hmem s);
              let align_size = align_gap alignment free_block;
              (ptr, s) \<leftarrow> tegrabl_heap_split_block h free_block (alloc_size + align_size) s;
              ASSERT (ptr = free_block);
              let orig_size = f_size ptr (hmem s);
              let found = ptr + ALLOC_HDR + align_size;
              let alloc_block = ptr + align_size;
              let m = set_prev alloc_block ptr (set_magic alloc_block ALLOC_MAGIC (set_size alloc_block orig_size (hmem s)));
              s \<leftarrow>
                (if align_size < MIN_SIZE then Some (s\<lparr>hmem := m\<rparr>)
                 else
                   do {
                     let next_block = next_after_split prev_block next_block (free_list (hinfo s h)) m;
                     let m = set_prev alloc_block (ptr + align_size) (set_size alloc_block alloc_size m);
                     let m = set_magic free_block FREE_MAGIC (set_size free_block align_size
                               (set_prev free_block prev_block (set_next free_block next_block m)));
                     ASSERT (next_block = 0 \<or> f_prev next_block m = prev_block);
                     let m = when_ptr next_block (\<lambda>p. set_prev p free_block) m;
                     ASSERT (prev_block = 0 \<or> f_next prev_block m = next_block);
                     let m = when_ptr prev_block (\<lambda>p. set_next p free_block) m;
                     Some (update_free_list_head h free_block
                       (upd_info h (\<lambda>i. i\<lparr>free_size := free_size i + align_size\<rparr>) (s\<lparr>hmem := m\<rparr>)))
                   });
              ASSERT (found mod alignment = 0);
              Some (found, s)
            }
        })"

definition is_size_alignment_valid :: "heap_info \<Rightarrow> u64 \<Rightarrow> u64 \<Rightarrow> bool" where
  "is_size_alignment_valid hi alignment sz =
     (let mx = sz + alignment in
      if sz > max_size hi then False
      else if alignment > max_size hi then False
      else if mx > max_size hi then False
      else if mx < sz then False
      else if mx < alignment then False
      else True)"

definition tegrabl_alloc_align :: "u32 \<Rightarrow> u64 \<Rightarrow> u64 \<Rightarrow> heaps \<Rightarrow> (u64 \<times> heaps) option" where
  "tegrabl_alloc_align heap_type alignment sz s =
     (if heap_type \<ge> TEGRABL_HEAP_TYPE_MAX then Some (0, s)
      else
        let h = effective_type heap_type s in
        if \<not> is_size_alignment_valid (hinfo s h) alignment sz then Some (0, s)
        else tegrabl_memalign_generic h alignment sz s)"

definition tegrabl_memalign :: "u64 \<Rightarrow> u64 \<Rightarrow> heaps \<Rightarrow> (u64 \<times> heaps) option" where
  "tegrabl_memalign alignment sz s =
     (if \<not> is_size_alignment_valid (hinfo s TEGRABL_HEAP_DEFAULT) alignment sz then Some (0, s)
      else tegrabl_memalign_generic TEGRABL_HEAP_DEFAULT alignment sz s)"

end
