(* ===== verification/Heap_Memory.thy ===== *)
theory Heap_Memory
  imports Tegrabl_Malloc
begin

text \<open>
  The free list of the allocator in memory: reading a header field after storing one, the doubly
  linked list as a predicate on memory, and what the stores of the allocator do to it: taking a block
  out, replacing it by its upper part, redirecting the ends of a segment.
\<close>

section \<open>Bytes and fields\<close>

lemma ld_sto_same: "8 * w \<le> LENGTH('a) \<Longrightarrow> take_bit (8 * w) v = v \<Longrightarrow> ld w a (sto w a (v :: 'a::len word) m) = v"
proof -
  assume w: "8 * w \<le> LENGTH('a)" "take_bit (8 * w) v = v"
  have "map (\<lambda>i. sto w a v m (unat a + i)) [0..<w] = le_bytes w v"
    by (rule nth_equalityI) (simp_all add: sto_def)
  then show ?thesis using w by (simp add: ld_def of_le_le_bytes)
qed

lemma ld_cong: "(\<And>x. unat a \<le> x \<Longrightarrow> x < unat a + w \<Longrightarrow> m x = m' x) \<Longrightarrow> ld w a m = ld w a m'"
  by (auto simp: ld_def intro!: arg_cong [where f = of_le])

lemma sto_other: "x < unat a \<or> unat a + w \<le> x \<Longrightarrow> sto w a v m x = m x"
  by (auto simp: sto_def)

lemma ld_sto_other: "unat a + w \<le> unat b \<or> unat b + w' \<le> unat a \<Longrightarrow> ld w' b (sto w a v m) = ld w' b m"
  by (rule ld_cong) (auto simp: sto_def)

lemma take_bit_full: "take_bit 64 (v :: u64) = v" "take_bit 32 (w :: u32) = w"
  by (simp_all add: take_bit_word_eq_self)

text \<open>A header fits below the end of the address space, two headers do not overlap.\<close>

definition hdr_ok :: "u64 \<Rightarrow> bool" where
  "hdr_ok a \<longleftrightarrow> unat a + 32 < 2 ^ 64"

definition apart :: "u64 \<Rightarrow> u64 \<Rightarrow> bool" where
  "apart a b \<longleftrightarrow> unat a + 32 \<le> unat b \<or> unat b + 32 \<le> unat a"

lemma apart_sym: "apart a b = apart b a"
  by (auto simp: apart_def)

lemma hdr_offsets:
  assumes "hdr_ok a"
  shows "unat (a + 8) = unat a + 8" "unat (a + 16) = unat a + 16" "unat (a + 24) = unat a + 24"
    "unat (a + 32) = unat a + 32"
  using assms by (simp_all add: hdr_ok_def unat_word_ariths)

lemmas field_defs = f_magic_def f_size_def f_prev_def f_next_def set_magic_def set_size_def set_prev_def set_next_def

lemma field_same [simp]:
  assumes "hdr_ok a"
  shows "f_magic a (set_magic a g m) = g" "f_size a (set_size a v m) = v"
    "f_prev a (set_prev a v m) = v" "f_next a (set_next a v m) = v"
    "f_magic a (set_size a v m) = f_magic a m" "f_magic a (set_prev a v m) = f_magic a m"
    "f_magic a (set_next a v m) = f_magic a m"
    "f_size a (set_magic a g m) = f_size a m" "f_size a (set_prev a v m) = f_size a m"
    "f_size a (set_next a v m) = f_size a m"
    "f_prev a (set_magic a g m) = f_prev a m" "f_prev a (set_size a v m) = f_prev a m"
    "f_prev a (set_next a v m) = f_prev a m"
    "f_next a (set_magic a g m) = f_next a m" "f_next a (set_size a v m) = f_next a m"
    "f_next a (set_prev a v m) = f_next a m"
  using hdr_offsets [OF assms]
  by (simp_all add: field_defs ld_sto_same ld_sto_other take_bit_full)

lemma field_apart [simp]:
  assumes "hdr_ok a" and "hdr_ok b" and "apart a b"
  shows "f_magic b (set_magic a g m) = f_magic b m" "f_magic b (set_size a v m) = f_magic b m"
    "f_magic b (set_prev a v m) = f_magic b m" "f_magic b (set_next a v m) = f_magic b m"
    "f_size b (set_magic a g m) = f_size b m" "f_size b (set_size a v m) = f_size b m"
    "f_size b (set_prev a v m) = f_size b m" "f_size b (set_next a v m) = f_size b m"
    "f_prev b (set_magic a g m) = f_prev b m" "f_prev b (set_size a v m) = f_prev b m"
    "f_prev b (set_prev a v m) = f_prev b m" "f_prev b (set_next a v m) = f_prev b m"
    "f_next b (set_magic a g m) = f_next b m" "f_next b (set_size a v m) = f_next b m"
    "f_next b (set_prev a v m) = f_next b m" "f_next b (set_next a v m) = f_next b m"
  using assms hdr_offsets [OF assms(1)] hdr_offsets [OF assms(2)]
  by (auto simp: field_defs apart_def intro!: ld_sto_other)

lemma field_bytes:
  assumes "hdr_ok a" and "x < unat a \<or> unat a + 32 \<le> x"
  shows "set_magic a g m x = m x" "set_size a v m x = m x" "set_prev a v m x = m x" "set_next a v m x = m x"
  using assms hdr_offsets [OF assms(1)] by (auto simp: field_defs sto_def)

section \<open>The free list in memory\<close>

type_synonym blocks = "(u64 \<times> u64) list"

definition head_of :: "blocks \<Rightarrow> u64 \<Rightarrow> u64" where
  "head_of F r = (case F of [] \<Rightarrow> r | (a, n) # _ \<Rightarrow> a)"

definition last_of :: "blocks \<Rightarrow> u64 \<Rightarrow> u64" where
  "last_of F q = (if F = [] then q else fst (last F))"

lemma head_of_simps [simp]: "head_of [] r = r" "head_of ((a, n) # F) r = a" "head_of (F @ G) r = head_of F (head_of G r)"
  by (auto simp: head_of_def split: list.split)

lemma last_of_simps [simp]: "last_of [] q = q" "last_of (F @ [(a, n)]) q = a" "last_of ((a, n) # F) q = last_of F a"
  by (auto simp: last_of_def)

fun chain :: "mem \<Rightarrow> u64 \<Rightarrow> blocks \<Rightarrow> u64 \<Rightarrow> bool" where
  "chain m q [] r \<longleftrightarrow> True"
| "chain m q ((a, n) # F) r \<longleftrightarrow>
     a \<noteq> 0 \<and> f_magic a m = FREE_MAGIC \<and> f_size a m = n \<and> f_prev a m = q \<and> f_next a m = head_of F r \<and> chain m a F r"

lemma chain_append: "chain m q (F @ G) r \<longleftrightarrow> chain m q F (head_of G r) \<and> chain m (last_of F q) G r"
  by (induction F arbitrary: q) auto

text \<open>Blocks in ascending order, each with room for a header.\<close>

definition spaced :: "blocks \<Rightarrow> bool" where
  "spaced F \<longleftrightarrow> (\<forall>(a, n) \<in> set F. hdr_ok a \<and> 32 \<le> unat n \<and> unat a + unat n < 2 ^ 64) \<and>
     sorted_wrt (\<lambda>(a, n) (b, k). unat a + unat n \<le> unat b) F"

lemma spaced_append:
  "spaced (F @ G) \<longleftrightarrow> spaced F \<and> spaced G \<and> (\<forall>(a, n) \<in> set F. \<forall>(b, k) \<in> set G. unat a + unat n \<le> unat b)"
  by (auto simp: spaced_def sorted_wrt_append)

lemma spaced_Cons:
  "spaced ((a, n) # F) \<longleftrightarrow> hdr_ok a \<and> 32 \<le> unat n \<and> unat a + unat n < 2 ^ 64 \<and> spaced F \<and>
     (\<forall>(b, k) \<in> set F. unat a + unat n \<le> unat b)"
  by (auto simp: spaced_def)

definition same_hdr :: "mem \<Rightarrow> mem \<Rightarrow> u64 \<Rightarrow> bool" where
  "same_hdr m m' a \<longleftrightarrow>
     f_magic a m' = f_magic a m \<and> f_size a m' = f_size a m \<and> f_prev a m' = f_prev a m \<and> f_next a m' = f_next a m"

lemma chain_frame: "\<forall>b \<in> set F. same_hdr m m' (fst b) \<Longrightarrow> chain m' q F r = chain m q F r"
  by (induction m q F r rule: chain.induct) (simp_all add: same_hdr_def)

lemma same_hdr_apart:
  assumes "hdr_ok a" and "hdr_ok b" and "apart a b"
  shows "same_hdr m (set_magic a g m) b" "same_hdr m (set_size a v m) b" "same_hdr m (set_prev a v m) b"
    "same_hdr m (set_next a v m) b"
  using assms by (simp_all add: same_hdr_def)

lemma same_hdr_bytes:
  assumes "hdr_ok a" and "\<And>x. unat a \<le> x \<Longrightarrow> x < unat a + 32 \<Longrightarrow> m' x = m x"
  shows "same_hdr m m' a"
  using assms(2) hdr_offsets [OF assms(1)] unfolding same_hdr_def field_defs by (auto intro!: ld_cong)

definition away :: "u64 \<Rightarrow> blocks \<Rightarrow> bool" where
  "away a F \<longleftrightarrow> hdr_ok a \<and> (\<forall>b \<in> set F. hdr_ok (fst b) \<and> apart a (fst b))"

lemma chain_away [simp]:
  assumes "away a F"
  shows "chain (set_magic a g m) q F r = chain m q F r" "chain (set_size a v m) q F r = chain m q F r"
    "chain (set_prev a v m) q F r = chain m q F r" "chain (set_next a v m) q F r = chain m q F r"
  using assms unfolding away_def by (auto intro!: chain_frame same_hdr_apart)

text \<open>Redirecting the two ends of a segment.\<close>

lemma spaced_mem: "spaced F \<Longrightarrow> (a, n) \<in> set F \<Longrightarrow> hdr_ok a \<and> 32 \<le> unat n \<and> unat a + unat n < 2 ^ 64"
  by (auto simp: spaced_def)

lemma spaced_away:
  assumes "spaced (L @ (a, n) # R)"
  shows "away a L" "away a R" "hdr_ok a"
proof -
  have a: "hdr_ok a" "32 \<le> unat n" and L: "spaced L" "\<forall>(b, k) \<in> set L. unat b + unat k \<le> unat a"
    and R: "spaced R" "\<forall>(b, k) \<in> set R. unat a + unat n \<le> unat b"
    using assms by (auto simp: spaced_append spaced_Cons)
  show "hdr_ok a" by (rule a)
  show "away a L"
    using a L spaced_mem [OF L(1)] unfolding away_def apart_def by force
  show "away a R"
    using a R spaced_mem [OF R(1)] unfolding away_def apart_def by force
qed

lemma chain_relink_last:
  assumes "chain m q F r" and "spaced F" and "F \<noteq> []"
  shows "chain (set_next (last_of F 0) r' m) q F r'"
proof -
  obtain L b k where F: "F = L @ [(b, k)]" using assms(3) by (metis append_butlast_last_id surj_pair)
  note A = spaced_away [OF assms(2) [unfolded F]]
  then show ?thesis using assms(1) by (simp add: F chain_append)
qed

lemma chain_relink_head:
  assumes "chain m q F r" and "spaced F" and "F \<noteq> []"
  shows "chain (set_prev (head_of F 0) q' m) q' F r"
proof -
  obtain b k R where F: "F = (b, k) # R" using assms(3) by (metis neq_Nil_conv surj_pair)
  note A = spaced_away [of "[]" b k R, simplified, OF assms(2) [unfolded F]]
  then show ?thesis using assms(1) by (simp add: F)
qed

lemma last_in: "F \<noteq> [] \<Longrightarrow> \<exists>n. (last_of F q, n) \<in> set F"
  by (rule exI [of _ "snd (last F)"]) (simp add: last_of_def)

lemma head_in: "F \<noteq> [] \<Longrightarrow> \<exists>n. (head_of F q, n) \<in> set F"
  by (cases F) auto

lemma chain_nonnull: "chain m q F r \<Longrightarrow> (a, n) \<in> set F \<Longrightarrow> a \<noteq> 0"
  by (induction m q F r rule: chain.induct) auto

lemma spaced_cross:
  assumes "spaced (L @ G)" and "(a, n) \<in> set L" and "(b, k) \<in> set G"
  shows "hdr_ok a" "hdr_ok b" "apart a b"
proof -
  have "spaced L" "spaced G" "unat a + unat n \<le> unat b"
    using assms by (auto simp: spaced_append)
  with spaced_mem [OF this(1) assms(2)] spaced_mem [OF this(2) assms(3)]
  show "hdr_ok a" "hdr_ok b" "apart a b" by (auto simp: apart_def)
qed

lemma relink_last:
  assumes "spaced (L @ G)"
  shows "chain m q L r \<Longrightarrow> chain (when_ptr (last_of L 0) (\<lambda>p. set_next p u) m) q L u"
    "\<forall>b \<in> set G. same_hdr m (when_ptr (last_of L 0) (\<lambda>p. set_next p u) m) (fst b)"
proof -
  show "chain (when_ptr (last_of L 0) (\<lambda>p. set_next p u) m) q L u" if c: "chain m q L r"
  proof (cases "L = []")
    case False
    then have "last_of L 0 \<noteq> 0" using last_in [of L 0] chain_nonnull [OF c] by blast
    then show ?thesis
      using chain_relink_last [OF c _ False, of u] assms by (simp add: when_ptr_def spaced_append)
  qed simp
  show "\<forall>b \<in> set G. same_hdr m (when_ptr (last_of L 0) (\<lambda>p. set_next p u) m) (fst b)"
  proof (cases "L = []")
    case False
    then obtain n where "(last_of L 0, n) \<in> set L" using last_in by blast
    then show ?thesis using spaced_cross [OF assms] by (auto simp: when_ptr_def same_hdr_def)
  qed (simp add: when_ptr_def same_hdr_def)
qed

lemma relink_head:
  assumes "spaced (G @ R)"
  shows "chain m q R r \<Longrightarrow> chain (when_ptr (head_of R 0) (\<lambda>p. set_prev p u) m) u R r"
    "\<forall>b \<in> set G. same_hdr m (when_ptr (head_of R 0) (\<lambda>p. set_prev p u) m) (fst b)"
proof -
  show "chain (when_ptr (head_of R 0) (\<lambda>p. set_prev p u) m) u R r" if c: "chain m q R r"
  proof (cases "R = []")
    case False
    then have "head_of R 0 \<noteq> 0" using head_in [of R 0] chain_nonnull [OF c] by blast
    then show ?thesis
      using chain_relink_head [OF c _ False, of u] assms by (simp add: when_ptr_def spaced_append)
  qed simp
  show "\<forall>b \<in> set G. same_hdr m (when_ptr (head_of R 0) (\<lambda>p. set_prev p u) m) (fst b)"
  proof (cases "R = []")
    case False
    then obtain n where "(head_of R 0, n) \<in> set R" using head_in by blast
    then show ?thesis using spaced_cross [OF assms] by (auto simp: when_ptr_def same_hdr_def apart_sym)
  qed (simp add: when_ptr_def same_hdr_def)
qed

text \<open>Taking a block out of the list.\<close>

lemma unlink_chain:
  assumes "chain m 0 (L @ (a, n) # R) 0" and "spaced (L @ (a, n) # R)"
  defines "m1 \<equiv> set_next a 0 (set_prev a 0 m)"
  defines "m2 \<equiv> when_ptr (head_of R 0) (\<lambda>p. set_prev p (last_of L 0)) m1"
  defines "m3 \<equiv> when_ptr (last_of L 0) (\<lambda>p. set_next p (head_of R 0)) m2"
  shows "chain m3 0 (L @ R) 0" "f_size a m3 = n"
proof -
  note A = spaced_away [OF assms(2)]
  have c: "chain m 0 L a" "chain m a R 0" "f_size a m = n" using assms(1) by (simp_all add: chain_append)
  have c1: "chain m1 0 L a" "chain m1 a R 0" "f_size a m1 = n" using c A by (simp_all add: m1_def)
  have sR: "spaced ((L @ [(a, n)]) @ R)" and sL: "spaced (L @ ([(a, n)] @ R))" using assms(2) by simp_all
  note H = relink_head [OF sR, where m = m1 and u = "last_of L 0", folded m2_def]
  have c2: "chain m2 0 L a" "chain m2 (last_of L 0) R 0" "f_size a m2 = n"
    using H(1) [OF c1(2)] H(2) c1 chain_frame [of L m1 m2] by (auto simp: same_hdr_def)
  note K = relink_last [OF sL, where m = m2 and u = "head_of R 0", folded m3_def]
  have c3: "chain m3 0 L (head_of R 0)" "chain m3 (last_of L 0) R 0" "f_size a m3 = n"
    using K(1) [OF c2(1)] K(2) c2 chain_frame [of R m2 m3] by (auto simp: same_hdr_def)
  then show "chain m3 0 (L @ R) 0" "f_size a m3 = n" by (simp_all add: chain_append)
qed

text \<open>Replacing it by its upper part.\<close>

lemma split_chain:
  assumes "chain m 0 (L @ (a, n) # R) 0" and "spaced (L @ (a, sz) # (nf, rest) # R)" and "nf \<noteq> 0"
  defines "m1 \<equiv> set_next a 0 (set_prev a 0 m)"
  defines "m2 \<equiv> set_next nf (head_of R 0) (set_prev nf (last_of L 0) m1)"
  defines "m3 \<equiv> when_ptr (last_of L 0) (\<lambda>p. set_next p nf) m2"
  defines "m4 \<equiv> when_ptr (head_of R 0) (\<lambda>p. set_prev p nf) m3"
  defines "m5 \<equiv> set_magic nf FREE_MAGIC (set_size nf rest m4)"
  defines "m6 \<equiv> set_size a sz m5"
  shows "chain m6 0 (L @ (nf, rest) # R) 0" "f_size a m6 = sz"
proof -
  note A = spaced_away [OF assms(2)]
  have sp: "spaced ((L @ [(a, sz)]) @ (nf, rest) # R)" using assms(2) by simp
  note B = spaced_away [OF sp]
  have an: "hdr_ok nf" "hdr_ok a" "apart a nf" "away a R" using A by (auto simp: away_def)
  have nl: "away nf L" using B(1) by (auto simp: away_def)
  have na: "apart nf a" using an(3) apart_sym by simp
  have c: "chain m 0 L a" "chain m a R 0" using assms(1) by (simp_all add: chain_append)
  have c2: "chain m2 0 L a" "chain m2 a R 0" "f_prev nf m2 = last_of L 0" "f_next nf m2 = head_of R 0"
    using c A nl B an na by (simp_all add: m1_def m2_def)
  have sL: "spaced (L @ ([(a, sz), (nf, rest)] @ R))" and sR: "spaced ((L @ [(a, sz), (nf, rest)]) @ R)"
    using assms(2) by simp_all
  note K = relink_last [OF sL, where m = m2 and u = nf, folded m3_def]
  have c3: "chain m3 0 L nf" "chain m3 a R 0" "f_prev nf m3 = last_of L 0" "f_next nf m3 = head_of R 0"
    using K(1) [OF c2(1)] K(2) c2 chain_frame [of R m2 m3] by (auto simp: same_hdr_def)
  note H = relink_head [OF sR, where m = m3 and u = nf, folded m4_def]
  have c4: "chain m4 0 L nf" "chain m4 nf R 0" "f_prev nf m4 = last_of L 0" "f_next nf m4 = head_of R 0"
    using H(1) [OF c3(2)] H(2) c3 chain_frame [of L m3 m4] by (auto simp: same_hdr_def)
  have "chain m6 0 L nf" "chain m6 nf R 0" "f_prev nf m6 = last_of L 0" "f_next nf m6 = head_of R 0"
    "f_size nf m6 = rest" "f_magic nf m6 = FREE_MAGIC" "f_size a m6 = sz"
    using c4 A B nl an na by (simp_all add: m5_def m6_def)
  then show "chain m6 0 (L @ (nf, rest) # R) 0" "f_size a m6 = sz" using assms(3) by (simp_all add: chain_append)
qed

end
