(* ===== verification/Heap_Alloc.thy ===== *)
theory Heap_Alloc
  imports Heap_Memory
begin

text \<open>
  The invariant of a heap and allocation. A heap is described by its free blocks, in ascending order and
  never adjacent, and by the blocks handed out; the two together never overlap and stay inside the heap.
  \<open>fit_alloc\<close> is the first-fit specification on that description, and \<open>malloc_spec\<close> shows that the code
  follows it, returns always, and touches no byte outside the free blocks.
\<close>

section \<open>The invariant\<close>

text \<open>Free blocks: inside the heap, in ascending order, never adjacent. Allocated blocks are triples of the
  pointer handed out, the start and the size.\<close>

type_synonym used = "(u64 \<times> u64 \<times> u64) list"

definition free_ok :: "nat \<Rightarrow> nat \<Rightarrow> blocks \<Rightarrow> bool" where
  "free_ok lo up F \<longleftrightarrow> (\<forall>(a, n) \<in> set F. lo \<le> unat a \<and> unat a + unat n \<le> up \<and> 32 \<le> unat n) \<and>
     sorted_wrt (\<lambda>(a, n) (b, k). unat a + unat n < unat b) F"

definition total_free :: "blocks \<Rightarrow> nat" where
  "total_free F = (\<Sum>(a, n) \<leftarrow> F. unat n)"

definition heap_free :: "heaps \<Rightarrow> u32 \<Rightarrow> blocks \<Rightarrow> bool" where
  "heap_free s h F \<longleftrightarrow>
     0 < unat (heap_start (hinfo s h)) \<and>
     unat (heap_start (hinfo s h)) + unat (max_size (hinfo s h)) = unat (heap_end (hinfo s h)) \<and>
     free_list (hinfo s h) = head_of F 0 \<and> chain (hmem s) 0 F 0 \<and>
     free_ok (unat (heap_start (hinfo s h))) (unat (heap_end (hinfo s h))) F \<and>
     unat (free_size (hinfo s h)) = total_free F"

definition separate :: "u64 \<Rightarrow> u64 \<Rightarrow> u64 \<Rightarrow> u64 \<Rightarrow> bool" where
  "separate a n b k \<longleftrightarrow> unat a + unat n \<le> unat b \<or> unat b + unat k \<le> unat a"

definition off_free :: "blocks \<Rightarrow> nat \<Rightarrow> bool" where
  "off_free F x \<longleftrightarrow> (\<forall>(a, n) \<in> set F. x < unat a \<or> unat a + unat n \<le> x)"

lemma free_ok_spaced: "free_ok lo up F \<Longrightarrow> up < 2 ^ 64 \<Longrightarrow> spaced F"
  unfolding free_ok_def spaced_def hdr_ok_def
  by (auto intro: sorted_wrt_mono_rel [rotated])

lemma heap_free_spaced:
  assumes "heap_free s h F"
  shows "spaced F"
  using assms free_ok_spaced unat_u64_bound [of "heap_end (hinfo s h)"] by (auto simp: heap_free_def)

lemma ptr_bytes:
  assumes "p \<noteq> 0 \<Longrightarrow> hdr_ok p \<and> (x < unat p \<or> unat p + 32 \<le> x)"
  shows "when_ptr p (\<lambda>p. set_next p v) m x = m x" "when_ptr p (\<lambda>p. set_prev p v) m x = m x"
  using assms by (auto simp: when_ptr_def field_bytes)

lemma off_block: "off_free F x \<Longrightarrow> spaced F \<Longrightarrow> (a, n) \<in> set F \<Longrightarrow> hdr_ok a \<and> (x < unat a \<or> unat a + 32 \<le> x)"
  using spaced_mem [of F a n] by (fastforce simp: off_free_def)

lemma off_ends:
  assumes "off_free F x" and "spaced F"
  shows "last_of F 0 \<noteq> 0 \<Longrightarrow> hdr_ok (last_of F 0) \<and> (x < unat (last_of F 0) \<or> unat (last_of F 0) + 32 \<le> x)"
    "head_of F 0 \<noteq> 0 \<Longrightarrow> hdr_ok (head_of F 0) \<and> (x < unat (head_of F 0) \<or> unat (head_of F 0) + 32 \<le> x)"
  using assms off_block [OF assms] last_in [of F 0] head_in [of F 0] by fastforce+

lemma total_free_simps [simp]: "total_free [] = 0" "total_free ((a, n) # F) = unat n + total_free F"
  "total_free (F @ G) = total_free F + total_free G"
  by (simp_all add: total_free_def)

lemma off_free_simps [simp]: "off_free [] x" "off_free ((a, n) # F) x \<longleftrightarrow> (x < unat a \<or> unat a + unat n \<le> x) \<and> off_free F x"
  "off_free (F @ G) x \<longleftrightarrow> off_free F x \<and> off_free G x"
  by (auto simp: off_free_def)

lemma free_ok_append:
  "free_ok lo up (F @ G) \<longleftrightarrow> free_ok lo up F \<and> free_ok lo up G \<and>
     (\<forall>(a, n) \<in> set F. \<forall>(b, k) \<in> set G. unat a + unat n < unat b)"
  by (auto simp: free_ok_def sorted_wrt_append)

lemma free_ok_Cons:
  "free_ok lo up ((a, n) # F) \<longleftrightarrow> lo \<le> unat a \<and> unat a + unat n \<le> up \<and> 32 \<le> unat n \<and> free_ok lo up F \<and>
     (\<forall>(b, k) \<in> set F. unat a + unat n < unat b)"
  by (auto simp: free_ok_def)

lemma head_is_first:
  assumes "spaced (L @ (a, n) # R)"
  shows "a = head_of (L @ (a, n) # R) 0 \<longleftrightarrow> L = []"
proof (cases L)
  case (Cons b L')
  then have "unat (fst b) + unat (snd b) \<le> unat a" "32 \<le> unat (snd b)"
    using assms by (cases b; auto simp: spaced_append spaced_Cons)+
  then show ?thesis using Cons by (cases b) auto
qed simp

section \<open>Splitting a block\<close>

lemma check_link_passes:
  assumes "heap_free s h (L @ (a, n) # R)"
  shows "check_link a (last_of L 0) (head_of R 0) (hinfo s h) (hmem s) = Some ()"
proof -
  have sz: "f_size a (hmem s) = n" using assms by (simp add: heap_free_def chain_append)
  have b: "unat (heap_start (hinfo s h)) \<le> unat a" "unat a + unat n \<le> unat (heap_end (hinfo s h))"
    using assms by (auto simp: heap_free_def free_ok_append free_ok_Cons)
  then have e: "unat (a + n) = unat a + unat n"
    using unat_u64_bound [of "heap_end (hinfo s h)"] by (simp add: unat_word_ariths)
  have "f_next (last_of L 0) (hmem s) = a" if "last_of L 0 \<noteq> 0"
  proof -
    from that obtain L' b k where "L = L' @ [(b, k)]" by (cases L rule: rev_cases) auto
    then show ?thesis using assms by (simp add: heap_free_def chain_append)
  qed
  moreover have "f_prev (head_of R 0) (hmem s) = a" if "head_of R 0 \<noteq> 0"
    using that assms by (cases R) (auto simp: heap_free_def chain_append)
  ultimately show ?thesis
    using sz b e by (auto simp: check_link_def hang_if_def Let_def word_less_nat_alt)
qed

definition split_rest :: "u64 \<Rightarrow> u64 \<Rightarrow> u64 \<Rightarrow> blocks" where
  "split_rest a n sz = (if unat n - unat sz \<le> 32 then [] else [(a + sz, n - sz)])"

definition split_got :: "u64 \<Rightarrow> u64 \<Rightarrow> u64" where
  "split_got n sz = (if unat n - unat sz \<le> 32 then n else sz)"

lemma split_block_ok:
  assumes "heap_free s h (L @ (a, n) # R)" and "32 \<le> unat sz" and "unat sz \<le> unat n"
  shows "\<exists>s'. tegrabl_heap_split_block h a sz s = Some (a, s') \<and> heap_free s' h (L @ split_rest a n sz @ R) \<and>
    f_size a (hmem s') = split_got n sz \<and> (\<forall>h'. h' \<noteq> h \<longrightarrow> hinfo s' h' = hinfo s h') \<and>
    max_size (hinfo s' h) = max_size (hinfo s h) \<and> heap_start (hinfo s' h) = heap_start (hinfo s h) \<and>
    (\<forall>x. off_free (L @ (a, n) # R) x \<longrightarrow> hmem s' x = hmem s x)"
proof -
  let ?F = "L @ (a, n) # R" and ?m = "hmem s" and ?i = "hinfo s h"
  have sp: "spaced ?F" by (rule heap_free_spaced [OF assms(1)])
  have ch: "chain ?m 0 ?F 0" and fl: "free_list ?i = head_of ?F 0"
    and fo: "free_ok (unat (heap_start ?i)) (unat (heap_end ?i)) ?F" and fs: "unat (free_size ?i) = total_free ?F"
    and lo: "0 < unat (heap_start ?i)" and up: "unat (heap_start ?i) + unat (max_size ?i) = unat (heap_end ?i)"
    using assms(1) unfolding heap_free_def by blast+
  have fld: "f_size a ?m = n" "f_prev a ?m = last_of L 0" "f_next a ?m = head_of R 0" "a \<noteq> 0"
    using ch by (simp_all add: chain_append)
  have rem: "unat (n - sz) = unat n - unat sz" using assms(3) by (simp add: unat_diff word_le_nat_alt)
  have ah: "a = free_list ?i \<longleftrightarrow> L = []" using head_is_first [OF sp] fl by simp
  note ck = check_link_passes [OF assms(1)]
  let ?m1 = "set_next a 0 (set_prev a 0 ?m)"
  show ?thesis
  proof (cases "unat n - unat sz \<le> 32")
    case True
    let ?m2 = "when_ptr (head_of R 0) (\<lambda>p. set_prev p (last_of L 0)) ?m1"
    let ?m3 = "when_ptr (last_of L 0) (\<lambda>p. set_next p (head_of R 0)) ?m2"
    note U = unlink_chain [OF ch sp]
    let ?s = "upd_info h (\<lambda>i. i\<lparr>free_list := head_of (L @ R) 0, free_size := free_size i - n\<rparr>) (s\<lparr>hmem := ?m3\<rparr>)"
    have run: "tegrabl_heap_split_block h a sz s = Some (a, ?s)"
      using True rem fld ck ah U(2) fl
      by (cases L) (auto simp: tegrabl_heap_split_block_def ASSERT_def hang_if_def word_le_nat_alt Let_def)
    have sub: "unat (free_size ?i - n) = total_free (L @ R)"
      using fs by (simp add: unat_diff word_le_nat_alt)
    have "heap_free ?s h (L @ R)"
      using U(1) lo up sub fo by (auto simp: heap_free_def upd_info_def free_ok_append free_ok_Cons)
    moreover have "hmem ?s x = ?m x" if "off_free ?F x" for x
      using that sp off_block [OF that sp, of a n] off_ends [of L x] off_ends [of R x]
      by (simp add: upd_info_def ptr_bytes field_bytes spaced_append spaced_Cons)
    ultimately show ?thesis
      using run True U(2) by (intro exI [of _ ?s]) (auto simp: split_rest_def split_got_def upd_info_def)
  next
    case False
    let ?nf = "a + sz"
    let ?m2 = "set_next ?nf (head_of R 0) (set_prev ?nf (last_of L 0) ?m1)"
    let ?m3 = "when_ptr (last_of L 0) (\<lambda>p. set_next p ?nf) ?m2"
    let ?m4 = "when_ptr (head_of R 0) (\<lambda>p. set_prev p ?nf) ?m3"
    let ?m6 = "set_size a sz (set_magic ?nf FREE_MAGIC (set_size ?nf (n - sz) ?m4))"
    have ab: "unat a + unat n \<le> unat (heap_end ?i)" using fo by (auto simp: free_ok_append free_ok_Cons)
    have nf: "unat ?nf = unat a + unat sz"
      using ab False unat_u64_bound [of "heap_end ?i"] by (simp add: unat_word_ariths)
    then have nf0: "?nf \<noteq> 0" using assms(2) by (auto simp: unat_eq_0)
    have sp2: "spaced (L @ (a, sz) # (?nf, n - sz) # R)"
      using sp nf rem False assms(2) ab unat_u64_bound [of "heap_end ?i"]
      by (auto simp: spaced_append spaced_Cons hdr_ok_def)
    note U = split_chain [OF ch sp2 nf0]
    let ?s = "upd_info h (\<lambda>i. i\<lparr>free_list := head_of (L @ (?nf, n - sz) # R) 0, free_size := free_size i - sz\<rparr>) (s\<lparr>hmem := ?m6\<rparr>)"
    have szf: "unat sz \<le> unat (free_size ?i)" using fs assms(3) by simp
    have run: "tegrabl_heap_split_block h a sz s = Some (a, ?s)"
      using False rem fld ck ah U(2) fl szf
      by (cases L) (auto simp: tegrabl_heap_split_block_def ASSERT_def hang_if_def word_le_nat_alt word_less_nat_alt Let_def)
    have sub: "unat (free_size ?i - sz) = total_free (L @ (?nf, n - sz) # R)"
      using fs szf rem assms(3) by (simp add: unat_diff word_le_nat_alt)
    have "heap_free ?s h (L @ (?nf, n - sz) # R)"
      using U(1) lo up sub fo nf rem False assms(2)
      by (auto simp: heap_free_def upd_info_def free_ok_append free_ok_Cons)
    moreover have "hmem ?s x = ?m x" if "off_free ?F x" for x
    proof -
      have "hdr_ok ?nf" "x < unat ?nf \<or> unat ?nf + 32 \<le> x"
        using that sp2 nf rem False by (auto simp: spaced_append spaced_Cons)
      then show ?thesis
        using that sp off_block [OF that sp, of a n] off_ends [of L x] off_ends [of R x]
        by (simp add: upd_info_def ptr_bytes field_bytes spaced_append spaced_Cons)
    qed
    ultimately show ?thesis
      using run False U(2) by (intro exI [of _ ?s]) (auto simp: split_rest_def split_got_def upd_info_def)
  qed
qed

section \<open>Allocated blocks\<close>

definition used_hdr :: "mem \<Rightarrow> u64 \<Rightarrow> u64 \<Rightarrow> u64 \<Rightarrow> bool" where
  "used_hdr m p s n \<longleftrightarrow> f_magic (p - 24) m = ALLOC_MAGIC \<and> f_size (p - 24) m = n \<and> f_prev (p - 24) m = s"

definition used_block :: "mem \<Rightarrow> nat \<Rightarrow> nat \<Rightarrow> u64 \<times> u64 \<times> u64 \<Rightarrow> bool" where
  "used_block m lo up = (\<lambda>(p, s, n). lo \<le> unat s \<and> unat s + unat n \<le> up \<and> unat s + 24 \<le> unat p \<and>
     unat p \<le> unat s + unat n \<and> 32 \<le> unat n \<and> used_hdr m p s n)"

definition clear_of :: "u64 \<Rightarrow> u64 \<Rightarrow> blocks \<Rightarrow> used \<Rightarrow> bool" where
  "clear_of s n F A \<longleftrightarrow> (\<forall>(a, k) \<in> set F. separate s n a k) \<and> (\<forall>(p, t, k) \<in> set A. separate s n t k)"

fun used_ok :: "mem \<Rightarrow> nat \<Rightarrow> nat \<Rightarrow> blocks \<Rightarrow> used \<Rightarrow> bool" where
  "used_ok m lo up F [] \<longleftrightarrow> True"
| "used_ok m lo up F ((p, s, n) # A) \<longleftrightarrow> used_block m lo up (p, s, n) \<and> clear_of s n F A \<and> used_ok m lo up F A"

definition total_used :: "used \<Rightarrow> nat" where
  "total_used A = (\<Sum>(p, s, n) \<leftarrow> A. unat n)"

lemma total_used_simps [simp]: "total_used [] = 0" "total_used ((p, s, n) # A) = unat n + total_used A"
  "total_used (A @ B) = total_used A + total_used B"
  by (simp_all add: total_used_def)

definition heap_ok :: "heaps \<Rightarrow> u32 \<Rightarrow> blocks \<Rightarrow> used \<Rightarrow> bool" where
  "heap_ok s h F A \<longleftrightarrow> heap_free s h F \<and>
     used_ok (hmem s) (unat (heap_start (hinfo s h))) (unat (heap_end (hinfo s h))) F A \<and>
     total_free F + total_used A \<le> unat (max_size (hinfo s h))"

lemma used_ok_mem:
  "used_ok m lo up F A \<Longrightarrow> (p, s, n) \<in> set A \<Longrightarrow> used_block m lo up (p, s, n) \<and> (\<forall>(a, k) \<in> set F. separate s n a k)"
  by (induction A) (auto simp: clear_of_def)

lemma used_hdr_bytes:
  assumes "24 \<le> unat p" and "\<And>x. unat p - 24 \<le> x \<Longrightarrow> x < unat p \<Longrightarrow> m' x = m x"
  shows "used_hdr m' p s n = used_hdr m p s n"
proof -
  have 0: "unat (p - 24) = unat p - 24" using assms(1) by (simp add: unat_diff word_le_nat_alt)
  have "unat (p - 16) = unat p - 16" "unat (p - 8) = unat p - 8"
    using assms(1) by (simp_all add: unat_diff word_le_nat_alt)
  then have 1: "unat (p - 24 + 8) = unat p - 16" "unat (p - 24 + 16) = unat p - 8" by simp_all
  have "f_magic (p - 24) m' = f_magic (p - 24) m"
    unfolding field_defs by (rule ld_cong, rule assms(2)) (use 0 assms(1) in simp_all)
  moreover have "f_size (p - 24) m' = f_size (p - 24) m"
    unfolding field_defs by (rule ld_cong, rule assms(2)) (use 1 assms(1) in simp_all)
  moreover have "f_prev (p - 24) m' = f_prev (p - 24) m"
    unfolding field_defs by (rule ld_cong, rule assms(2)) (use 1 assms(1) in simp_all)
  ultimately show ?thesis by (simp add: used_hdr_def)
qed

lemma used_block_bytes:
  assumes "\<And>x. unat s \<le> x \<Longrightarrow> x < unat s + unat n \<Longrightarrow> m' x = m x" and "used_block m lo up (p, s, n)"
  shows "used_block m' lo up (p, s, n)"
  using assms used_hdr_bytes [of p m' m s n] by (auto simp: used_block_def)

text \<open>Allocated blocks keep when the memory outside the free blocks does.\<close>

lemma used_ok_bytes:
  assumes "used_ok m lo up F A" and "\<And>x. off_free F x \<Longrightarrow> m' x = m x" and "spaced F"
  shows "used_ok m' lo up F A"
  using assms(1)
proof (induction A)
  case (Cons b A)
  obtain p s n where b: "b = (p, s, n)" by (cases b)
  have d: "\<And>a k. (a, k) \<in> set F \<Longrightarrow> separate s n a k" using Cons.prems b by (auto simp: clear_of_def)
  have "m' x = m x" if "unat s \<le> x" "x < unat s + unat n" for x
    by (rule assms(2)) (use d that in \<open>fastforce simp: off_free_def separate_def\<close>)
  then show ?case using Cons b used_block_bytes [of s n m' m lo up p] by simp
qed simp

lemma used_ok_mono:
  assumes "used_ok m lo up F A" and "\<And>s n. \<forall>(a, k) \<in> set F. separate s n a k \<Longrightarrow> \<forall>(a, k) \<in> set F'. separate s n a k"
  shows "used_ok m lo up F' A"
  using assms(1) by (induction A) (auto simp: clear_of_def dest!: assms(2))

section \<open>The specification of allocation\<close>

definition need :: "nat \<Rightarrow> nat" where
  "need sz = max ((sz + 7) div 8 * 8 + 24) 32"

fun first_block :: "(u64 \<times> u64 \<Rightarrow> bool) \<Rightarrow> blocks \<Rightarrow> (blocks \<times> (u64 \<times> u64) \<times> blocks) option" where
  "first_block P [] = None"
| "first_block P (b # F) =
     (if P b then Some ([], b, F) else (case first_block P F of None \<Rightarrow> None | Some (L, c, R) \<Rightarrow> Some (b # L, c, R)))"

definition fit_alloc :: "nat \<Rightarrow> blocks \<Rightarrow> (u64 \<times> u64 \<times> blocks) option" where
  "fit_alloc k F =
     (case first_block (\<lambda>(a, n). unat n > k) F of
        None \<Rightarrow> None
      | Some (L, (a, n), R) \<Rightarrow> Some (a, split_got n (of_nat k), L @ split_rest a n (of_nat k) @ R))"

lemma first_block_Some: "first_block P F = Some (L, b, R) \<Longrightarrow> F = L @ b # R \<and> P b \<and> (\<forall>c \<in> set L. \<not> P c)"
  by (induction F arbitrary: L) (auto split: if_splits option.splits)

lemma first_block_None: "first_block P F = None \<longleftrightarrow> (\<forall>b \<in> set F. \<not> P b)"
  by (induction F) (auto split: option.splits)

lemma fit_alloc_Some:
  "fit_alloc k F = Some (a, g, F') \<Longrightarrow>
   \<exists>L n R. F = L @ (a, n) # R \<and> k < unat n \<and> g = split_got n (of_nat k) \<and> F' = L @ split_rest a n (of_nat k) @ R"
  by (auto simp: fit_alloc_def split: option.splits dest!: first_block_Some)

lemma fit_alloc_None: "fit_alloc k F = None \<longleftrightarrow> (\<forall>(a, n) \<in> set F. unat n \<le> k)"
  by (auto simp: fit_alloc_def first_block_None split: option.splits)
    (use first_block_None [of "\<lambda>(a, n). unat n > k" F] in fastforce)

lemma first_fit_spec:
  assumes "chain m q F 0" and "k < 2 ^ 64"
  shows "first_fit (of_nat k) (head_of F 0) m = Some (case fit_alloc k F of None \<Rightarrow> 0 | Some (a, g, F') \<Rightarrow> a)"
  using assms(1)
proof (induction F arbitrary: q)
  case Nil
  then show ?case by (simp add: first_fit.simps fit_alloc_def)
next
  case (Cons b F)
  obtain a n where b: "b = (a, n)" by (cases b)
  have k: "unat (of_nat k :: u64) = k" using assms(2) by (simp add: unat_of_nat take_bit_nat_eq_self)
  then show ?case
    using Cons b by (subst first_fit.simps) (auto simp: word_less_nat_alt fit_alloc_def split: option.splits)
qed

lemma unat_round_word:
  assumes "\<not> round_word sz + 24 < sz" and "sz \<noteq> 0"
  shows "unat (round_word sz + 24) = (unat sz + 7) div 8 * 8 + 24"
proof (cases "unat sz + 7 < 2 ^ 64")
  case True
  have a: "unat (sz + 8 - 1) = unat sz + 7" using True by (simp add: unat_word_ariths)
  have b: "unat (round_word sz) = (unat sz + 7) div 8 * 8"
    using a True by (simp add: round_word_def unat_word_ariths unat_div)
  show ?thesis
  proof (rule ccontr)
    assume c: "unat (round_word sz + 24) \<noteq> (unat sz + 7) div 8 * 8 + 24"
    have e: "unat (round_word sz + 24) = ((unat sz + 7) div 8 * 8 + 24) mod 2 ^ 64" using b by (simp add: unat_word_ariths)
    with c have "(unat sz + 7) div 8 * 8 + 24 \<ge> 2 ^ 64" by (metis mod_less not_le)
    moreover have "(unat sz + 7) div 8 * 8 \<le> unat sz + 7" by simp
    moreover from calculation have "unat (round_word sz + 24) = (unat sz + 7) div 8 * 8 + 24 - 2 ^ 64"
      using e True le_mod_geq [of "2 ^ 64" "(unat sz + 7) div 8 * 8 + 24"] by simp
    ultimately have "unat (round_word sz + 24) < unat sz" using True by simp
    then show False using assms(1) by (simp add: word_less_nat_alt)
  qed
next
  case False
  then have "unat (sz + 8 - 1) = unat sz + 7 - 2 ^ 64"
    using unat_u64_bound [of sz] by (simp add: unat_word_ariths le_mod_geq)
  then have "unat (sz + 8 - 1) < 8" using unat_u64_bound [of sz] by simp
  then have "round_word sz = 0" by (simp add: round_word_def word_unat_eq_iff unat_word_ariths unat_div)
  then show ?thesis using assms(1) False by (simp add: word_less_nat_alt)
qed

text \<open>The header of a block just taken from the free list.\<close>

lemma new_used:
  assumes "hdr_ok a" and "f_size a m = g"
  shows "used_hdr (set_magic a ALLOC_MAGIC (set_prev a a m)) (a + 24) a g"
  using assms by (simp add: used_hdr_def)

lemma split_region:
  assumes "unat sz \<le> unat n" and "32 \<le> unat sz" and "unat a + unat n < 2 ^ 64"
  shows "unat sz \<le> unat (split_got n sz)" "unat (split_got n sz) \<le> unat n"
    "\<forall>(b, k) \<in> set (split_rest a n sz). unat b = unat a + unat (split_got n sz) \<and> unat b + unat k = unat a + unat n"
    "unat (split_got n sz) + total_free (split_rest a n sz) = unat n"
proof -
  have d: "unat (n - sz) = unat n - unat sz" using assms(1) by (simp add: unat_diff word_le_nat_alt)
  have e: "unat (a + sz) = unat a + unat sz" using assms(1,3) by (simp add: unat_word_ariths)
  show "unat sz \<le> unat (split_got n sz)" "unat (split_got n sz) \<le> unat n"
    using assms(1) by (simp_all add: split_got_def)
  show "\<forall>(b, k) \<in> set (split_rest a n sz). unat b = unat a + unat (split_got n sz) \<and> unat b + unat k = unat a + unat n"
    using assms(1) d e by (simp add: split_got_def split_rest_def)
  show "unat (split_got n sz) + total_free (split_rest a n sz) = unat n"
    using assms(1) d by (simp add: split_got_def split_rest_def)
qed

text \<open>Turning a part of a free block into an allocated one, with the blocks \<open>S\<close> left of it.\<close>

lemma take_block:
  assumes "used_ok m' lo up (L @ (a, n) # R) A" and "free_ok lo up (L @ (a, n) # R)"
    and "unat a \<le> unat b" and "unat b + unat g \<le> unat a + unat n"
    and "\<forall>(c, j) \<in> set S. separate b g c j \<and> unat a \<le> unat c \<and> unat c + unat j \<le> unat a + unat n"
    and "used_block m' lo up (p, b, g)"
  shows "used_ok m' lo up (L @ S @ R) ((p, b, g) # A)"
proof -
  have out: "separate a n c j" if "(c, j) \<in> set L \<union> set R" for c j
    using assms(2) that by (fastforce simp: free_ok_append free_ok_Cons separate_def)
  have "separate b g c j" if "(c, j) \<in> set (L @ S @ R)" for c j
  proof (cases "(c, j) \<in> set S")
    case True
    then show ?thesis using assms(5) by auto
  next
    case False
    then have "separate a n c j" using that out [of c j] by auto
    then show ?thesis using assms(3,4) by (auto simp: separate_def)
  qed
  moreover have "separate b g t k" if "(q, t, k) \<in> set A" for q t k
    using used_ok_mem [OF assms(1) that] assms(3,4) by (auto simp: separate_def)
  moreover have "used_ok m' lo up (L @ S @ R) A"
    using assms(1)
  proof (rule used_ok_mono)
    fix s k assume d: "\<forall>(c, j) \<in> set (L @ (a, n) # R). separate s k c j"
    then have "separate s k a n" by simp
    then have "separate s k c j" if "(c, j) \<in> set S" for c j
      using assms(5) that unfolding separate_def by fastforce
    then show "\<forall>(c, j) \<in> set (L @ S @ R). separate s k c j" using d by fastforce
  qed
  ultimately show ?thesis using assms(6) by (auto simp: clear_of_def)
qed

lemma round_word_wraps:
  assumes "round_word sz + 24 < sz"
  shows "2 ^ 64 \<le> need (unat sz)"
proof (rule ccontr)
  assume "\<not> 2 ^ 64 \<le> need (unat sz)"
  then have lt: "(unat sz + 7) div 8 * 8 + 24 < 2 ^ 64" by (simp add: need_def)
  moreover have "unat sz \<le> (unat sz + 7) div 8 * 8" by linarith
  ultimately have "unat (sz + 8 - 1) = unat sz + 7" by (simp add: unat_word_ariths)
  then have "unat (round_word sz + 24) = (unat sz + 7) div 8 * 8 + 24"
    using lt by (simp add: round_word_def unat_word_ariths unat_div)
  then show False using assms \<open>unat sz \<le> _\<close> by (simp add: word_less_nat_alt)
qed

lemma need_le: "sz + 24 \<le> need sz" "32 \<le> need sz"
  by (auto simp: need_def)

lemma block_le_total: "(a, n) \<in> set F \<Longrightarrow> unat n \<le> total_free F"
  by (induction F) auto

lemma alloc_size_need:
  assumes "\<not> round_word sz + 24 < sz" and "sz \<noteq> 0"
  shows "max (round_word sz + 24) 32 = of_nat (need (unat sz))" "need (unat sz) < 2 ^ 64"
proof -
  have "unat (max (round_word sz + 24) 32) = need (unat sz)"
    using unat_round_word [OF assms] by (auto simp: need_def max_def word_le_nat_alt)
  then show "max (round_word sz + 24) 32 = of_nat (need (unat sz))" "need (unat sz) < 2 ^ 64"
    using unat_u64_bound [of "max (round_word sz + 24) 32"] by (metis of_nat_unat ucast_id, simp)
qed

definition elsewhere :: "u32 \<Rightarrow> (nat \<Rightarrow> bool) \<Rightarrow> heaps \<Rightarrow> heaps \<Rightarrow> bool" where
  "elsewhere h out s s' \<longleftrightarrow> (\<forall>x. out x \<longrightarrow> hmem s' x = hmem s x) \<and> (\<forall>h'. h' \<noteq> h \<longrightarrow> hinfo s' h' = hinfo s h') \<and>
     max_size (hinfo s' h) = max_size (hinfo s h) \<and> heap_start (hinfo s' h) = heap_start (hinfo s h) \<and>
     heap_end (hinfo s' h) = heap_end (hinfo s h)"

lemma same_bounds: "heap_free s h F \<Longrightarrow> heap_free s' h F' \<Longrightarrow> max_size (hinfo s' h) = max_size (hinfo s h) \<Longrightarrow>
  heap_start (hinfo s' h) = heap_start (hinfo s h) \<Longrightarrow> heap_end (hinfo s' h) = heap_end (hinfo s h)"
  by (auto simp: heap_free_def word_unat_eq_iff)

text \<open>Stores into the header of a block that is in no list keep the free list.\<close>

lemma heap_free_hmem:
  assumes "heap_free s h F" and "\<forall>b \<in> set F. same_hdr (hmem s) m (fst b)"
  shows "heap_free (s\<lparr>hmem := m\<rparr>) h F"
  using assms chain_frame [OF assms(2)] by (simp add: heap_free_def)

text \<open>From a free block taken and its remains put back to the invariant.\<close>

lemma take_heap_ok:
  assumes "heap_ok s h (L @ (a, n) # R) A" and "heap_free t h (L @ S @ R)"
    and "elsewhere h (off_free (L @ (a, n) # R)) s t"
    and "unat a \<le> unat b" and "unat b + unat g \<le> unat a + unat n" and "unat b + 24 \<le> unat p"
      "unat p \<le> unat b + unat g" "32 \<le> unat g" "used_hdr (hmem t) p b g"
    and "\<forall>(c, j) \<in> set S. separate b g c j \<and> unat a \<le> unat c \<and> unat c + unat j \<le> unat a + unat n"
    and "unat g + total_free S \<le> unat n"
  shows "heap_ok t h (L @ S @ R) ((p, b, g) # A)"
proof -
  let ?i = "hinfo s h" and ?F = "L @ (a, n) # R"
  have hfs: "heap_free s h ?F" and used: "used_ok (hmem s) (unat (heap_start ?i)) (unat (heap_end ?i)) ?F A"
    and tot: "total_free ?F + total_used A \<le> unat (max_size ?i)"
    using assms(1) by (simp_all add: heap_ok_def)
  have bounds: "heap_start (hinfo t h) = heap_start ?i" "heap_end (hinfo t h) = heap_end ?i" "max_size (hinfo t h) = max_size ?i"
    and bytes: "\<And>x. off_free ?F x \<Longrightarrow> hmem t x = hmem s x"
    using assms(3) by (simp_all add: elsewhere_def)
  have uo: "used_ok (hmem t) (unat (heap_start ?i)) (unat (heap_end ?i)) ?F A"
    by (rule used_ok_bytes [OF used bytes heap_free_spaced [OF hfs]])
  have fo: "free_ok (unat (heap_start ?i)) (unat (heap_end ?i)) ?F" using hfs by (simp add: heap_free_def)
  have "used_block (hmem t) (unat (heap_start ?i)) (unat (heap_end ?i)) (p, b, g)"
    using fo assms(4-9) by (auto simp: used_block_def free_ok_append free_ok_Cons)
  from take_block [OF uo fo assms(4,5,10) this]
  show ?thesis using assms(2,11) tot bounds by (simp add: heap_ok_def)
qed

text \<open>Stores into a header inside the part that was taken.\<close>

lemma taken_header:
  assumes "heap_free s h (L @ (a, n) # R)" and "heap_free t h (L @ split_rest a n sz @ R)"
    and "32 \<le> unat sz" "unat sz \<le> unat n" and "unat a \<le> unat b" "unat b + 32 \<le> unat a + unat sz"
  shows "hdr_ok b" and "away b (L @ split_rest a n sz @ R)" and "off_free (L @ (a, n) # R) x \<Longrightarrow> x < unat b \<or> unat b + 32 \<le> x"
proof -
  have spc: "spaced (L @ (a, n) # R)" by (rule heap_free_spaced [OF assms(1)])
  then have a: "unat a + unat n < 2 ^ 64" by (simp add: spaced_append spaced_Cons)
  note S = split_region [OF assms(4,3) a]
  show b: "hdr_ok b" using a assms(4,6) by (simp add: hdr_ok_def)
  have "hdr_ok (fst c) \<and> apart b (fst c)" if c: "c \<in> set (L @ split_rest a n sz @ R)" for c
  proof
    show "hdr_ok (fst c)" using heap_free_spaced [OF assms(2)] c by (cases c) (auto simp: spaced_def)
    obtain d j where d: "c = (d, j)" by (cases c)
    consider "c \<in> set (split_rest a n sz)" | "c \<in> set L" | "c \<in> set R" using c by auto
    then show "apart b (fst c)"
    proof cases
      case 1
      then show ?thesis using S(1,3) assms(6) d by (auto simp: apart_def)
    next
      case 2
      then have "unat d + unat j \<le> unat a" "32 \<le> unat j" using spc d by (auto simp: spaced_append spaced_Cons dest: spaced_mem)
      then show ?thesis using assms(5) d by (simp add: apart_def)
    next
      case 3
      then have "unat a + unat n \<le> unat d" using spc d by (auto simp: spaced_append spaced_Cons)
      then show ?thesis using assms(4,6) d by (simp add: apart_def)
    qed
  qed
  then show "away b (L @ split_rest a n sz @ R)" using b by (simp add: away_def)
  show "x < unat b \<or> unat b + 32 \<le> x" if "off_free (L @ (a, n) # R) x"
    using that assms(4-6) by auto
qed

lemma malloc_take:
  assumes ok: "heap_ok s h (L @ (a, n) # R) A" and k: "32 \<le> unat sz" "unat sz < unat n"
    and hf: "heap_free t h (L @ split_rest a n sz @ R)" and g: "f_size a (hmem t) = split_got n sz"
    and el: "elsewhere h (off_free (L @ (a, n) # R)) s t"
  defines "t' \<equiv> t\<lparr>hmem := set_magic a ALLOC_MAGIC (set_prev a a (hmem t))\<rparr>"
  shows "heap_ok t' h (L @ split_rest a n sz @ R) ((a + 24, a, split_got n sz) # A)"
    "elsewhere h (off_free (L @ (a, n) # R)) s t'"
proof -
  have hfs: "heap_free s h (L @ (a, n) # R)" using ok by (simp add: heap_ok_def)
  have a3: "unat a + unat n < 2 ^ 64" using heap_free_spaced [OF hfs] by (simp add: spaced_append spaced_Cons)
  have k2: "unat sz \<le> unat n" using k(2) by simp
  note S = split_region [OF k2 k(1) a3]
  note H = taken_header [OF hfs hf k(1) k2, of a]
  have h: "hdr_ok a" "away a (L @ split_rest a n sz @ R)" using H k by auto
  have hft: "heap_free t' h (L @ split_rest a n sz @ R)"
    using hf h(2) by (simp add: t'_def heap_free_def)
  show el': "elsewhere h (off_free (L @ (a, n) # R)) s t'"
    using el H(3) k(1) h(1) by (auto simp: elsewhere_def t'_def field_bytes)
  have uh: "used_hdr (hmem t') (a + 24) a (split_got n sz)" using new_used [OF h(1) g] by (simp add: t'_def)
  show "heap_ok t' h (L @ split_rest a n sz @ R) ((a + 24, a, split_got n sz) # A)"
    by (rule take_heap_ok [OF ok hft el' _ _ _ _ _ uh])
      (use S k(1) hdr_offsets(3) [OF h(1)] in \<open>auto simp: separate_def\<close>)
qed

lemma malloc_spec:
  assumes "heap_ok s h F A"
  shows "case (if sz = 0 then None else fit_alloc (need (unat sz)) F) of
      None \<Rightarrow> tegrabl_generic_malloc h sz s = Some (0, s)
    | Some (a, g, F') \<Rightarrow> \<exists>s'. tegrabl_generic_malloc h sz s = Some (a + 24, s') \<and>
        heap_ok s' h F' ((a + 24, a, g) # A) \<and> unat (a + 24) = unat a + 24 \<and> need (unat sz) \<le> unat g \<and>
        elsewhere h (off_free F) s s'"
proof -
  let ?i = "hinfo s h" and ?k = "need (unat sz)"
  have hf: "heap_free s h F" and ch: "chain (hmem s) 0 F 0" and fl: "free_list ?i = head_of F 0"
    and fs: "unat (free_size ?i) = total_free F"
    using assms by (simp_all add: heap_ok_def heap_free_def)
  consider "sz = 0" | "sz \<noteq> 0" "sz > free_size ?i" | "sz \<noteq> 0" "\<not> sz > free_size ?i" "round_word sz + 24 < sz"
    | "sz \<noteq> 0" "\<not> sz > free_size ?i" "\<not> round_word sz + 24 < sz" by blast
  then show ?thesis
  proof cases
    case 1
    then show ?thesis by (simp add: tegrabl_generic_malloc_def)
  next
    case 2
    then have "fit_alloc ?k F = None"
      using fs block_le_total [of _ _ F] need_le(1) [of "unat sz"]
      by (fastforce simp: fit_alloc_None word_less_nat_alt)
    then show ?thesis using 2 by (simp add: tegrabl_generic_malloc_def)
  next
    case 3
    have "unat n \<le> ?k" for n :: u64 using round_word_wraps [OF 3(3)] unat_u64_bound [of n] by simp
    then have "fit_alloc ?k F = None" by (auto simp: fit_alloc_None)
    then show ?thesis using 3 by (simp add: tegrabl_generic_malloc_def Let_def)
  next
    case 4
    note N = alloc_size_need [OF 4(3,1)]
    note ff = first_fit_spec [OF ch N(2)]
    show ?thesis
    proof (cases "fit_alloc ?k F")
      case None
      then show ?thesis using 4 ff N(1) fl by (simp add: tegrabl_generic_malloc_def Let_def)
    next
      case (Some r)
      then obtain a g F' where r: "fit_alloc ?k F = Some (a, g, F')" by (cases r) auto
      from fit_alloc_Some [OF r] obtain L n R where F: "F = L @ (a, n) # R" and kn: "?k < unat n"
        and g: "g = split_got n (of_nat ?k)" and F': "F' = L @ split_rest a n (of_nat ?k) @ R" by blast
      have uk: "unat (of_nat ?k :: u64) = ?k" using N(2) by (simp add: unat_of_nat take_bit_nat_eq_self)
      have le: "32 \<le> unat (of_nat ?k :: u64)" "unat (of_nat ?k :: u64) \<le> unat n" "unat (of_nat ?k :: u64) < unat n"
        using uk kn need_le(2) [of "unat sz"] by simp_all
      from split_block_ok [OF hf [unfolded F] le(1,2)] obtain t where
        t: "tegrabl_heap_split_block h a (of_nat ?k) s = Some (a, t)" "heap_free t h F'" "f_size a (hmem t) = g"
        and el: "elsewhere h (off_free F) s t"
        unfolding F' g F elsewhere_def using same_bounds [OF hf [unfolded F]] by blast
      let ?t = "t\<lparr>hmem := set_magic a ALLOC_MAGIC (set_prev a a (hmem t))\<rparr>"
      have "a \<noteq> 0" using ch by (simp add: F chain_append)
      then have run: "tegrabl_generic_malloc h sz s = Some (a + 24, ?t)"
        using 4 ff N(1) fl r t(1) by (simp add: tegrabl_generic_malloc_def Let_def)
      note T = malloc_take [OF assms [unfolded F] le(1,3) t(2,3) [unfolded F' g] el [unfolded F]]
      have h: "hdr_ok a" "unat a + unat n < 2 ^ 64" using heap_free_spaced [OF hf] F by (auto simp: spaced_append spaced_Cons)
      have "?k \<le> unat g" using split_region(1) [OF le(2,1) h(2)] uk g by simp
      then show ?thesis using 4(1) r run T hdr_offsets(3) [OF h(1)] by (simp add: F F' g)
    qed
  qed
qed

end
