(* ===== verification/Heap_Free.thy ===== *)
theory Heap_Free
  imports Heap_Alloc
begin

text \<open>
  Freeing: \<open>release\<close> inserts a block into the list of free blocks and joins it with adjacent ones;
  \<open>free_spec\<close> shows that the code, with its walk to the place, its insertion and its merging towards the
  head of the list, does exactly that and always returns.
\<close>

section \<open>The specification of freeing\<close>

fun join :: "u64 \<Rightarrow> u64 \<Rightarrow> blocks \<Rightarrow> blocks" where
  "join a n [] = [(a, n)]"
| "join a n ((b, k) # R) = (if a + n = b then (a, n + k) # R else (a, n) # (b, k) # R)"

fun release :: "u64 \<Rightarrow> u64 \<Rightarrow> blocks \<Rightarrow> blocks" where
  "release a n [] = [(a, n)]"
| "release a n ((b, k) # F) = (if a < b then join a n ((b, k) # F) else join b k (release a n F))"

lemma join_head: "\<exists>n' R'. join a n R = (a, n') # R'"
  by (cases "(a, n, R)" rule: join.cases) auto

lemma head_of_join [simp]: "head_of (join a n R) r = a"
  using join_head [of a n R] by auto

text \<open>Joining keeps the order, the total and the bytes covered.\<close>

lemma join_ok:
  assumes "free_ok lo up R" and "lo \<le> unat a" and "unat a + unat n \<le> up" and "32 \<le> unat n" and "up < 2 ^ 64"
    and "\<forall>(b, k) \<in> set R. unat a + unat n \<le> unat b"
  shows "free_ok lo up (join a n R)" and "total_free (join a n R) = unat n + total_free R"
    and "\<forall>(b, k) \<in> set (join a n R). unat a \<le> unat b"
    and "off_free (join a n R) x \<longleftrightarrow> (x < unat a \<or> unat a + unat n \<le> x) \<and> off_free R x"
proof -
  have an: "unat (a + n) = unat a + unat n" using assms(3,5) by (simp add: unat_word_ariths)
  have "free_ok lo up (join a n R) \<and> total_free (join a n R) = unat n + total_free R \<and>
    (\<forall>(b, k) \<in> set (join a n R). unat a \<le> unat b) \<and>
    (off_free (join a n R) x \<longleftrightarrow> (x < unat a \<or> unat a + unat n \<le> x) \<and> off_free R x)"
  proof (cases R)
    case Nil
    then show ?thesis using assms by (simp add: free_ok_def)
  next
    case (Cons c R')
    obtain b k where c: "c = (b, k)" by (cases c)
    have R': "free_ok lo up R'" "\<forall>(d, j) \<in> set R'. unat b + unat k < unat d" "unat b + unat k \<le> up" "32 \<le> unat k"
      using assms(1) Cons c by (simp_all add: free_ok_Cons)
    have ab: "unat a + unat n \<le> unat b" using assms(6) Cons c by simp
    have lower: "\<forall>(d, j) \<in> set R'. unat a \<le> unat d" using R'(2) ab by fastforce
    show ?thesis
    proof (cases "a + n = b")
      case True
      then have b: "unat b = unat a + unat n" using an by simp
      then have nk: "unat (n + k) = unat n + unat k" using R'(3) assms(5) by (simp add: unat_word_ariths)
      have J: "join a n R = (a, n + k) # R'" using Cons c True by simp
      have "free_ok lo up (join a n R)"
        using R' assms(2,4) b nk by (simp add: J free_ok_Cons add.assoc)
      then show ?thesis using J Cons c b nk lower by auto
    next
      case False
      then have ne: "unat a + unat n < unat b" using an ab by (metis le_neq_implies_less word_unat_eq_iff)
      have J: "join a n R = (a, n) # (b, k) # R'" using Cons c False by simp
      have "\<forall>(d, j) \<in> set R'. unat a + unat n < unat d" using R'(2) ne by fastforce
      then have "free_ok lo up (join a n R)"
        using assms(1-4) ne Cons c False by (simp add: J free_ok_Cons)
      then show ?thesis using J Cons c ab lower by auto
    qed
  qed
  then show "free_ok lo up (join a n R)" and "total_free (join a n R) = unat n + total_free R"
    and "\<forall>(b, k) \<in> set (join a n R). unat a \<le> unat b"
    and "off_free (join a n R) x \<longleftrightarrow> (x < unat a \<or> unat a + unat n \<le> x) \<and> off_free R x"
    by blast+
qed

lemma release_ok:
  assumes "free_ok lo up F" and "lo \<le> unat a" and "unat a + unat n \<le> up" and "32 \<le> unat n" and "up < 2 ^ 64"
    and "\<forall>(b, k) \<in> set F. separate a n b k"
  shows "free_ok lo up (release a n F) \<and> total_free (release a n F) = unat n + total_free F \<and>
    (\<forall>l. l \<le> unat a \<and> (\<forall>(b, k) \<in> set F. l \<le> unat b) \<longrightarrow> (\<forall>(b, k) \<in> set (release a n F). l \<le> unat b)) \<and>
    (\<forall>x. off_free (release a n F) x \<longleftrightarrow> (x < unat a \<or> unat a + unat n \<le> x) \<and> off_free F x)"
  using assms(1,6)
proof (induction F)
  case Nil
  then show ?case using assms by (simp add: free_ok_def)
next
  case (Cons c F)
  obtain b k where c: "c = (b, k)" by (cases c)
  have F: "free_ok lo up F" "\<forall>(d, j) \<in> set F. unat b + unat k < unat d" "unat b + unat k \<le> up" "32 \<le> unat k" "lo \<le> unat b"
    using Cons.prems(1) c by (simp_all add: free_ok_Cons)
  show ?case
  proof (cases "a < b")
    case True
    have "unat a + unat n \<le> unat b" using True Cons.prems(2) c F(4) by (auto simp: separate_def word_less_nat_alt)
    then have "\<forall>(d, j) \<in> set (c # F). unat a + unat n \<le> unat d" using F(2) c by fastforce
    note J = join_ok [OF Cons.prems(1) assms(2-5) this]
    have "\<forall>(d, j) \<in> set (join a n (c # F)). l \<le> unat d" if "l \<le> unat a" for l using J(3) that by fastforce
    then show ?thesis using J(1,2,4) True c by simp
  next
    case False
    have ba: "unat b + unat k \<le> unat a" using False Cons.prems(2) c assms(4) by (auto simp: separate_def word_less_nat_alt)
    note IH = Cons.IH [OF F(1)]
    have IH: "free_ok lo up (release a n F)" "total_free (release a n F) = unat n + total_free F"
      "\<And>l. l \<le> unat a \<Longrightarrow> \<forall>(d, j) \<in> set F. l \<le> unat d \<Longrightarrow> \<forall>(d, j) \<in> set (release a n F). l \<le> unat d"
      "\<And>x. off_free (release a n F) x \<longleftrightarrow> (x < unat a \<or> unat a + unat n \<le> x) \<and> off_free F x"
      using IH Cons.prems(2) by auto
    have "\<forall>(d, j) \<in> set (release a n F). unat b + unat k \<le> unat d" using IH(3) [OF ba] F(2) by fastforce
    note J = join_ok [OF IH(1) F(5,3,4) assms(5) this]
    have "\<forall>(d, j) \<in> set (join b k (release a n F)). l \<le> unat d" if "l \<le> unat b" for l using J(3) that by fastforce
    then show ?thesis using J(1,2,4) IH(2,4) False c by auto
  qed
qed

text \<open>Where the freed block ends up.\<close>

lemma release_split:
  assumes "free_ok lo up (L @ R)" and "up < 2 ^ 64" and "\<forall>(b, k) \<in> set L. b < a" and "\<forall>(b, k) \<in> set R. a < b"
  shows "release a n (L @ R) =
    (case rev L of [] \<Rightarrow> join a n R | (b, k) # L' \<Rightarrow> rev L' @ join b k (join a n R))"
proof -
  have base: "release a n R = join a n R"
    using assms(4) by (cases R) auto
  show ?thesis
    using assms(1,3)
  proof (induction L)
    case Nil
    then show ?case using base by simp
  next
    case (Cons c L)
    obtain b k where c: "c = (b, k)" by (cases c)
    have rel: "release a n ((c # L) @ R) = join b k (release a n (L @ R))"
      using Cons.prems(2) c by auto
    show ?case
    proof (cases "L = []")
      case True
      then show ?thesis using rel base c by simp
    next
      case False
      then obtain d j L' where L: "rev L = (d, j) # L'" by (metis neq_Nil_conv rev_is_Nil_conv surj_pair)
      have fo: "free_ok lo up (L @ R)" using Cons.prems(1) c by (simp add: free_ok_Cons)
      have IH: "release a n (L @ R) = rev L' @ join d j (join a n R)" using Cons.IH [OF fo] Cons.prems(2) L by simp
      have LL: "L = rev L' @ [(d, j)]" using L by (metis rev.simps(2) rev_rev_ident)
      have gap: "\<forall>(e, i) \<in> set L. unat b + unat k < unat e" "unat b + unat k \<le> up"
        using Cons.prems(1) c by (auto simp: free_ok_Cons)
      have bk: "unat (b + k) = unat b + unat k" using gap(2) assms(2) by (simp add: unat_word_ariths)
      have "join b k (rev L' @ join d j (join a n R)) = (b, k) # rev L' @ join d j (join a n R)"
      proof (cases "rev L'")
        case Nil
        have "b + k \<noteq> d" using gap(1) LL bk by auto
        then show ?thesis using Nil join_head [of d j "join a n R"] by auto
      next
        case (Cons e M)
        then have "e \<in> set L" using LL by simp
        then have "b + k \<noteq> fst e" using gap(1) bk by auto
        then show ?thesis using Cons by (cases e) simp
      qed
      then show ?thesis unfolding rel IH using L c by simp
    qed
  qed
qed

section \<open>Merging in memory\<close>

lemma merge_next:
  assumes "chain m 0 (L @ (a, n) # R) 0" and "spaced (L @ (a, n) # R)" and "R \<noteq> []"
  shows "\<exists>m'. tegrabl_heap_merge_with_next a (head_of R 0) m = Some m' \<and> chain m' 0 (L @ join a n R) 0 \<and>
    (\<forall>x. off_free (L @ (a, n) # R) x \<longrightarrow> m' x = m x)"
proof -
  obtain c j R' where R: "R = (c, j) # R'" using assms(3) by (metis neq_Nil_conv surj_pair)
  note A = spaced_away [OF assms(2)]
  have sp2: "spaced ((L @ [(a, n)]) @ (c, j) # R')" using assms(2) R by simp
  note B = spaced_away [OF sp2]
  have cf: "chain m 0 L a" "chain m c R' 0" "f_magic a m = FREE_MAGIC" "f_size a m = n" "f_prev a m = last_of L 0" "f_next a m = c"
    "f_size c m = j" "f_next c m = head_of R' 0" "a \<noteq> 0"
    using assms(1) by (simp_all add: R chain_append)
  have le: "unat (a + n) = unat a + unat n" "unat a + unat n \<le> unat c" "hdr_ok c" "apart a c" "away a R'"
    using assms(2) A R by (auto simp: spaced_append spaced_Cons unat_word_ariths away_def)
  show ?thesis
  proof (cases "a + n = c")
    case False
    then show ?thesis
      using assms(1) R le cf(4) by (auto simp: tegrabl_heap_merge_with_next_def hang_if_def word_less_nat_alt Let_def)
  next
    case True
    let ?m1 = "set_size a (n + j) m"
    let ?m2 = "set_next a (head_of R' 0) ?m1"
    let ?m3 = "when_ptr (head_of R' 0) (\<lambda>p. set_prev p a) ?m2"
    have run: "tegrabl_heap_merge_with_next a c m = Some ?m3"
      using True le cf A(3) by (simp add: tegrabl_heap_merge_with_next_def hang_if_def word_less_nat_alt Let_def)
    have c2: "chain ?m2 0 L a" "chain ?m2 c R' 0" "f_magic a ?m2 = FREE_MAGIC" "f_size a ?m2 = n + j"
      "f_prev a ?m2 = last_of L 0" "f_next a ?m2 = head_of R' 0"
      using cf A le by simp_all
    have sR: "spaced ((L @ [(a, n), (c, j)]) @ R')" using assms(2) R by simp
    note H = relink_head [OF sR, where m = ?m2 and u = a]
    have c3: "chain ?m3 0 L a" "chain ?m3 a R' 0" "f_magic a ?m3 = FREE_MAGIC" "f_size a ?m3 = n + j"
      "f_prev a ?m3 = last_of L 0" "f_next a ?m3 = head_of R' 0"
      using H(1) [OF c2(2)] H(2) c2 chain_frame [of L ?m2 ?m3] by (auto simp: same_hdr_def)
    moreover have "?m3 x = m x" if "off_free (L @ (a, n) # R) x" for x
      using that assms(2) R off_block [OF that assms(2), of a n] off_ends [of R' x]
      by (simp add: ptr_bytes field_bytes spaced_append spaced_Cons)
    ultimately show ?thesis using run R True cf(9) by (simp add: chain_append)
  qed
qed

text \<open>A list without adjacent blocks is left alone, and the walk ends at its head.\<close>

lemma join_idle: "free_ok lo up ((a, n) # R) \<Longrightarrow> up < 2 ^ 64 \<Longrightarrow> join a n R = (a, n) # R"
  by (cases R) (auto simp: free_ok_Cons unat_word_ariths)

lemma merge_next_idle:
  assumes "chain m 0 (L @ (a, n) # R) 0" and "free_ok lo up (L @ (a, n) # R)" and "up < 2 ^ 64" and "R \<noteq> []"
  shows "tegrabl_heap_merge_with_next a (head_of R 0) m = Some m"
proof -
  obtain c j R' where R: "R = (c, j) # R'" using assms(4) by (metis neq_Nil_conv surj_pair)
  have sz: "f_size a m = n" using assms(1) by (simp add: chain_append)
  have le: "unat (a + n) = unat a + unat n" "unat a + unat n < unat c"
    using assms(2,3) R by (auto simp: free_ok_append free_ok_Cons unat_word_ariths)
  then have "a + n \<noteq> c" by auto
  then show ?thesis using R sz le by (simp add: tegrabl_heap_merge_with_next_def hang_if_def word_less_nat_alt)
qed

lemma merge_all_idle:
  assumes "chain m 0 (L @ (a, n) # R) 0" and "free_ok lo up (L @ (a, n) # R)" and "up < 2 ^ 64"
  shows "merge_all a m = Some (head_of (L @ (a, n) # R) 0, m)"
  using assms(1,2)
proof (induction L arbitrary: a n R rule: rev_induct)
  case Nil
  then have f: "f_next a m = head_of R 0" "f_prev a m = 0" by simp_all
  have "R \<noteq> [] \<Longrightarrow> tegrabl_heap_merge_with_next a (head_of R 0) m = Some m"
    using merge_next_idle [of m "[]" a n R lo up] Nil assms(3) by simp
  then show ?case using f by (subst merge_all.simps) (cases "R = []"; simp add: tegrabl_heap_merge_blocks_def Let_def)
next
  case (snoc c L)
  obtain b k where c: "c = (b, k)" by (cases c)
  have f: "f_next a m = head_of R 0" "f_prev a m = b" "b \<noteq> 0"
    using snoc.prems(1) c by (simp_all add: chain_append)
  have 1: "R \<noteq> [] \<Longrightarrow> tegrabl_heap_merge_with_next a (head_of R 0) m = Some m"
    using merge_next_idle [OF snoc.prems assms(3)] by simp
  have ch: "chain m 0 (L @ (b, k) # (a, n) # R) 0" and fo: "free_ok lo up (L @ (b, k) # (a, n) # R)"
    using snoc.prems c by simp_all
  have 2: "tegrabl_heap_merge_with_next b a m = Some m"
    using merge_next_idle [OF ch fo assms(3)] by simp
  have ne: "b \<noteq> a" using fo by (auto simp: free_ok_append free_ok_Cons)
  show ?case
    using f 1 2 ne snoc.IH [OF ch fo] c
    by (subst merge_all.simps) (cases "R = []"; simp add: tegrabl_heap_merge_blocks_def Let_def)
qed

text \<open>A block just inserted is merged with its neighbours.\<close>

lemma merge_all_ok:
  assumes "chain m 0 (L @ (a, n) # R) 0" and "free_ok lo up (L @ R)" and "up < 2 ^ 64"
    and "lo \<le> unat a" "unat a + unat n \<le> up" "32 \<le> unat n"
    and "\<forall>(b, k) \<in> set L. unat b + unat k \<le> unat a" and "\<forall>(b, k) \<in> set R. unat a + unat n \<le> unat b"
  shows "\<exists>m'. merge_all a m = Some (head_of (release a n (L @ R)) 0, m') \<and> chain m' 0 (release a n (L @ R)) 0 \<and>
    (\<forall>x. off_free (L @ (a, n) # R) x \<longrightarrow> m' x = m x)"
proof -
  have spR: "\<forall>(b, k) \<in> set R. 32 \<le> unat k" and spL: "\<forall>(b, k) \<in> set L. 32 \<le> unat k"
    and foL: "free_ok lo up L" and foR: "free_ok lo up R"
    using assms(2) by (auto simp: free_ok_def sorted_wrt_append)
  have sp: "spaced (L @ (a, n) # R)"
    using free_ok_spaced [OF foL assms(3)] free_ok_spaced [OF foR assms(3)] assms(2-8)
    by (fastforce simp: spaced_append spaced_Cons hdr_ok_def free_ok_append)
  note J = join_ok [OF foR assms(4-6,3,8)]
  obtain n' R' where JR: "join a n R = (a, n') # R'" using join_head by blast
  have ptrs: "f_next a m = head_of R 0" "f_prev a m = last_of L 0" "R \<noteq> [] \<Longrightarrow> head_of R 0 \<noteq> 0"
    using assms(1) by (auto simp: chain_append neq_Nil_conv)
  obtain m1 where m1: "(if head_of R 0 \<noteq> 0 then tegrabl_heap_merge_with_next a (head_of R 0) m else Some m) = Some m1"
      "chain m1 0 (L @ join a n R) 0" "\<And>x. off_free (L @ (a, n) # R) x \<Longrightarrow> m1 x = m x"
  proof (cases "R = []")
    case True
    then show ?thesis using that [of m] assms(1) by simp
  next
    case False
    then show ?thesis using that merge_next [OF assms(1) sp False] ptrs(3) by auto
  qed
  have lt: "\<forall>(b, k) \<in> set L. b < a" and gt: "\<forall>(b, k) \<in> set R. a < b"
    using assms(6-8) spL by (fastforce simp: word_less_nat_alt)+
  note rel = release_split [OF assms(2,3) lt gt, of n]
  show ?thesis
  proof (cases "rev L")
    case Nil
    then have "merge_all a m = Some (a, m1)"
      using m1(1) ptrs by (subst merge_all.simps) (simp add: tegrabl_heap_merge_blocks_def Let_def)
    then show ?thesis using m1(2,3) Nil rel by simp
  next
    case (Cons c L')
    obtain b k where c: "c = (b, k)" by (cases c)
    have L: "L = rev L' @ [(b, k)]" using Cons c by (metis rev.simps(2) rev_rev_ident)
    have separate: "\<forall>(d, j) \<in> set (L @ R). separate a n d j" using assms(7,8) by (auto simp: separate_def)
    note RO = release_ok [OF assms(2,4,5,6,3) separate]
    have relL: "release a n (L @ R) = rev L' @ join b k (join a n R)" using rel Cons c by simp
    obtain k' R2 where J2: "join b k (join a n R) = (b, k') # R2" using join_head by blast
    have ch: "chain m1 0 (rev L' @ (b, k) # join a n R) 0" using m1(2) L by simp
    have sp2: "spaced (rev L' @ (b, k) # join a n R)"
    proof -
      have "\<forall>(d, j) \<in> set L. \<forall>(e, i) \<in> set (join a n R). unat d + unat j \<le> unat e" using J(3) assms(7) by fastforce
      moreover have "spaced L" "spaced (join a n R)" by (rule free_ok_spaced [OF foL assms(3)], rule free_ok_spaced [OF J(1) assms(3)])
      ultimately have "spaced (L @ join a n R)" by (simp add: spaced_append)
      then show ?thesis using L by simp
    qed
    from merge_next [OF ch sp2] JR obtain m2 where m2: "tegrabl_heap_merge_with_next b a m1 = Some m2"
      "chain m2 0 (rev L' @ join b k (join a n R)) 0" "\<And>x. off_free (rev L' @ (b, k) # join a n R) x \<Longrightarrow> m2 x = m1 x"
      by auto
    have b0: "b \<noteq> 0" "b \<noteq> a" using assms(1) L lt by (auto simp: chain_append)
    have idle: "merge_all b m2 = Some (head_of (release a n (L @ R)) 0, m2)"
      using merge_all_idle [OF _ _ assms(3), of m2 "rev L'" b k' R2 lo] m2(2) RO relL J2 by simp
    have "merge_all a m = Some (head_of (release a n (L @ R)) 0, m2)"
      using m1(1) ptrs m2(1) idle b0 L
      by (subst merge_all.simps) (simp add: tegrabl_heap_merge_blocks_def Let_def)
    moreover have "m2 x = m x" if "off_free (L @ (a, n) # R) x" for x
      using that m1(3) m2(3) [of x] J(4) [of x] L by simp
    ultimately show ?thesis using m2(2) relL by auto
  qed
qed

section \<open>Freeing a block\<close>

lemma insert_chain:
  assumes "chain m 0 (L @ R) 0" and "spaced (L @ (a, n) # R)" and "a \<noteq> 0"
  defines "m1 \<equiv> set_size a n m"
  defines "m2 \<equiv> when_ptr (last_of L 0) (\<lambda>p. set_next p a) m1"
  defines "m3 \<equiv> set_magic a FREE_MAGIC (set_next a (head_of R 0) (set_prev a (last_of L 0) m2))"
  defines "m4 \<equiv> when_ptr (head_of R 0) (\<lambda>p. set_prev p a) m3"
  shows "chain m1 0 (L @ R) 0" "chain m4 0 (L @ (a, n) # R) 0" "off_free (L @ (a, n) # R) x \<Longrightarrow> m4 x = m x"
proof -
  note A = spaced_away [OF assms(2)]
  have sL: "spaced (L @ ([(a, n)] @ R))" and sR: "spaced ((L @ [(a, n)]) @ R)" using assms(2) by simp_all
  show c1': "chain m1 0 (L @ R) 0" using assms(1) A by (simp add: m1_def chain_append)
  then have c1: "chain m1 0 L (head_of R 0)" "chain m1 (last_of L 0) R 0" "f_size a m1 = n"
    using A by (simp_all add: chain_append m1_def)
  note K = relink_last [OF sL, where m = m1 and u = a, folded m2_def]
  have c2: "chain m2 0 L a" "chain m2 (last_of L 0) R 0" "f_size a m2 = n"
    using K(1) [OF c1(1)] K(2) c1 chain_frame [of R m1 m2] by (auto simp: same_hdr_def)
  have c3: "chain m3 0 L a" "chain m3 (last_of L 0) R 0" "f_size a m3 = n" "f_magic a m3 = FREE_MAGIC"
    "f_next a m3 = head_of R 0" "f_prev a m3 = last_of L 0"
    using c2 A by (simp_all add: m3_def)
  note H = relink_head [OF sR, where m = m3 and u = a, folded m4_def]
  have "chain m4 0 L a" "chain m4 a R 0" "f_size a m4 = n" "f_magic a m4 = FREE_MAGIC"
    "f_next a m4 = head_of R 0" "f_prev a m4 = last_of L 0"
    using H(1) [OF c3(2)] H(2) c3 chain_frame [of L m3 m4] by (auto simp: same_hdr_def)
  then show "chain m4 0 (L @ (a, n) # R) 0" using assms(3) by (simp add: chain_append)
  show "m4 x = m x" if "off_free (L @ (a, n) # R) x"
    using that assms(2) off_block [OF that assms(2), of a n] off_ends [of R x] off_ends [of L x]
    by (simp add: m4_def m3_def m2_def m1_def ptr_bytes field_bytes spaced_append spaced_Cons)
qed

lemma find_place_spec:
  assumes "chain m q (L @ R) 0" and "\<forall>(b, k) \<in> set L. b < p" and "\<forall>(b, k) \<in> set R. \<not> b < p"
  shows "find_place p q (head_of (L @ R) 0) m = Some (last_of L q, head_of R 0)"
  using assms(1,2)
proof (induction L arbitrary: q)
  case Nil
  then show ?case using assms(3) by (subst find_place.simps) (cases R; auto)
next
  case (Cons c L)
  obtain b k where c: "c = (b, k)" by (cases c)
  have "chain m b (L @ R) 0" "b \<noteq> 0" "b < p" "f_next b m = head_of (L @ R) 0" using Cons.prems c by simp_all
  then show ?case using Cons.IH [of b] Cons.prems(2) c by (subst find_place.simps) simp
qed

lemma used_ok_change:
  assumes "used_ok m lo up F A"
    and "\<And>p s n x. (p, s, n) \<in> set A \<Longrightarrow> unat s \<le> x \<Longrightarrow> x < unat s + unat n \<Longrightarrow> m' x = m x"
    and "\<And>p s n. (p, s, n) \<in> set A \<Longrightarrow> \<forall>(a, k) \<in> set F'. separate s n a k"
  shows "used_ok m' lo up F' A"
  using assms
proof (induction A)
  case (Cons b A)
  obtain p s n where b: "b = (p, s, n)" by (cases b)
  have "used_block m' lo up (p, s, n)"
    by (rule used_block_bytes [of s n m' m]) (use Cons.prems(1,2) b in auto)
  moreover have "used_ok m' lo up F' A"
  proof (rule Cons.IH)
    show "used_ok m lo up F A" using Cons.prems(1) b by simp
    show "m' x = m x" if "(p, s, n) \<in> set A" "unat s \<le> x" "x < unat s + unat n" for p s n x
      using Cons.prems(2) [of p s n x] that by simp
    show "\<forall>(a, k) \<in> set F'. separate s n a k" if "(p, s, n) \<in> set A" for p s n
      using Cons.prems(3) [of p s n] that by simp
  qed
  moreover have "\<forall>(a, k) \<in> set F'. separate s n a k" using Cons.prems(3) [of p s n] b by simp
  ultimately show ?case using Cons.prems(1) b by (simp add: clear_of_def)
qed simp

lemma separate_off:
  assumes "\<And>x. unat s \<le> x \<Longrightarrow> x < unat s + unat n \<Longrightarrow> off_free G x" and "free_ok lo up G" and "32 \<le> unat n"
  shows "\<forall>(a, k) \<in> set G. separate s n a k"
proof safe
  fix a k assume ak: "(a, k) \<in> set G"
  have k: "32 \<le> unat k" using assms(2) ak by (auto simp: free_ok_def)
  have "off_free G (unat s)" "unat s \<le> unat a \<Longrightarrow> unat a < unat s + unat n \<Longrightarrow> off_free G (unat a)"
    using assms(1,3) by auto
  then show "separate s n a k" using ak k unfolding off_free_def separate_def by fastforce
qed

lemma used_ok_remove:
  assumes "used_ok m lo up F (A @ (p, s, n) # B)"
  shows "used_block m lo up (p, s, n)" "\<forall>(a, k) \<in> set F. separate s n a k" "used_ok m lo up F (A @ B)"
    "\<forall>(q, t, k) \<in> set (A @ B). separate t k s n"
proof -
  have "used_block m lo up (p, s, n) \<and> (\<forall>(a, k) \<in> set F. separate s n a k) \<and> used_ok m lo up F (A @ B) \<and>
    (\<forall>(q, t, k) \<in> set (A @ B). separate t k s n)"
    using assms
  proof (induction A)
    case Nil
    have "separate t k s n" if "separate s n t k" for t k using that by (auto simp: separate_def)
    then show ?case using Nil by (fastforce simp: clear_of_def)
  next
    case (Cons b A)
    then show ?case by (cases b) (auto simp: clear_of_def)
  qed
  then show "used_block m lo up (p, s, n)" "\<forall>(a, k) \<in> set F. separate s n a k" "used_ok m lo up F (A @ B)"
    "\<forall>(q, t, k) \<in> set (A @ B). separate t k s n" by blast+
qed

lemma validate_passes:
  assumes "used_block m (unat (heap_start hi)) (unat (heap_end hi)) (p, s, n)"
    and "unat n + unat (free_size hi) \<le> unat (max_size hi)"
  shows "validate_allocated_block (p - 24) hi m = Some ()" "f_prev (p - 24) m = s" "f_size (p - 24) m = n" "p \<noteq> 0"
proof -
  have h: "f_magic (p - 24) m = ALLOC_MAGIC" "f_size (p - 24) m = n" "f_prev (p - 24) m = s"
    and b: "unat (heap_start hi) \<le> unat s" "unat s + unat n \<le> unat (heap_end hi)" "unat s + 24 \<le> unat p"
      "unat p \<le> unat s + unat n"
    using assms(1) by (simp_all add: used_block_def used_hdr_def)
  show "f_prev (p - 24) m = s" "f_size (p - 24) m = n" by (rule h)+
  show "p \<noteq> 0" using b(3) by auto
  have p: "unat (p - 24) = unat p - 24" using b(3) by (simp add: unat_diff word_le_nat_alt)
  have e: "unat (s + n) = unat s + unat n" using b(2) unat_u64_bound [of "heap_end hi"] by (simp add: unat_word_ariths)
  have t: "unat (n + free_size hi) = unat n + unat (free_size hi)"
    using assms(2) unat_u64_bound [of "max_size hi"] by (simp add: unat_word_ariths)
  show "validate_allocated_block (p - 24) hi m = Some ()"
    using h b p e t assms(2)
    by (auto simp: validate_allocated_block_def hang_if_def word_less_nat_alt Let_def)
qed

definition free_and_update :: "u32 \<Rightarrow> u64 \<Rightarrow> heaps \<Rightarrow> heaps option" where
  "free_and_update h p s =
     do { (tmp_free, s) \<leftarrow> tegrabl_generic_free h p s;
          Some (if tmp_free = 0 then s else update_free_list_head h tmp_free s) }"

lemma spaced_insert:
  assumes "free_ok lo up (L @ R)" and "up < 2 ^ 64" and "unat a + unat n \<le> up" and "32 \<le> unat n"
    and "\<forall>(b, k) \<in> set L. unat b + unat k \<le> unat a" and "\<forall>(b, k) \<in> set R. unat a + unat n \<le> unat b"
  shows "spaced (L @ (a, n) # R)"
proof -
  have "spaced L" "spaced R" using assms(1,2) free_ok_spaced [of lo up] by (simp_all add: free_ok_append)
  then show ?thesis using assms by (fastforce simp: spaced_append spaced_Cons hdr_ok_def free_ok_append)
qed

lemma release_head: "head_of (release a n F) 0 = (if F = [] \<or> a < head_of F 0 then a else head_of F 0)"
  by (cases F) auto

lemma release_head_nonzero: "chain m 0 F 0 \<Longrightarrow> a \<noteq> 0 \<Longrightarrow> head_of (release a n F) 0 \<noteq> 0"
  using head_in [of F 0] by (auto simp: release_head dest: chain_nonnull)

lemma update_head_eq:
  assumes "free_list (hinfo s h) = 0 \<or> free_list (hinfo s h) > g \<or> free_list (hinfo s h) = g"
  shows "update_free_list_head h g s = upd_info h (\<lambda>i. i\<lparr>free_list := g\<rparr>) s"
proof (cases "free_list (hinfo s h) = 0 \<or> free_list (hinfo s h) > g")
  case False
  then have "(hinfo s h)\<lparr>free_list := g\<rparr> = hinfo s h" using assms by simp
  then show ?thesis using False by (simp add: update_free_list_head_def upd_info_def)
qed (simp add: update_free_list_head_def)

lemma free_spec:
  assumes "heap_ok s h F (A @ (p, t, n) # B)"
  shows "\<exists>s'. free_and_update h p s = Some s' \<and> heap_ok s' h (release t n F) (A @ B) \<and>
    elsewhere h (\<lambda>x. off_free F x \<and> (x < unat t \<or> unat t + unat n \<le> x)) s s'"
proof -
  let ?i = "hinfo s h" and ?m = "hmem s" and ?lo = "unat (heap_start (hinfo s h))" and ?up = "unat (heap_end (hinfo s h))"
  have hf: "heap_free s h F" and us: "used_ok ?m ?lo ?up F (A @ (p, t, n) # B)"
    and tot: "total_free F + (unat n + total_used (A @ B)) \<le> unat (max_size ?i)"
    using assms by (simp_all add: heap_ok_def)
  have ch: "chain ?m 0 F 0" and fl: "free_list ?i = head_of F 0" and fo: "free_ok ?lo ?up F"
    and fs: "unat (free_size ?i) = total_free F" and lo: "0 < ?lo"
    and mx: "?lo + unat (max_size ?i) = ?up"
    using hf unfolding heap_free_def by blast+
  have up: "?up < 2 ^ 64" using unat_u64_bound [of "heap_end ?i"] by simp
  note U = used_ok_remove [OF us]
  have "unat n + unat (free_size ?i) \<le> unat (max_size ?i)" using tot fs by simp
  note V = validate_passes [OF U(1) this]
  have b: "?lo \<le> unat t" "unat t + unat n \<le> ?up" "unat t + 24 \<le> unat p" "unat p \<le> unat t + unat n" "32 \<le> unat n"
    using U(1) by (simp_all add: used_block_def)
  have t0: "t \<noteq> 0" using b(1) lo by auto
  define L where "L = takeWhile (\<lambda>(b, k). b < p) F"
  define R where "R = dropWhile (\<lambda>(b, k). b < p) F"
  have F: "F = L @ R" by (simp add: L_def R_def)
  have Lp: "\<forall>(b, k) \<in> set L. b < p" using set_takeWhileD unfolding L_def by fastforce
  have dj: "separate t n b k" if "(b, k) \<in> set F" for b k using U(2) that by auto
  have L: "\<forall>(b, k) \<in> set L. unat b + unat k \<le> unat t"
  proof safe
    fix b' k' assume m: "(b', k') \<in> set L"
    then have "b' < p" "separate t n b' k'" using Lp dj F by auto
    then show "unat b' + unat k' \<le> unat t" using b(4) by (auto simp: separate_def word_less_nat_alt)
  qed
  have R: "\<forall>(b, k) \<in> set R. unat t + unat n \<le> unat b"
  proof safe
    fix c j assume m: "(c, j) \<in> set R"
    then obtain d R' where RR: "R = d # R'" by (cases R) auto
    then have "\<not> fst d < p" using hd_dropWhile [of "\<lambda>(b, k). b < p" F] unfolding R_def by (cases d) auto
    moreover have "unat (fst d) \<le> unat c"
      using m fo RR by (cases d) (auto simp: F free_ok_append free_ok_Cons)
    ultimately have "unat p \<le> unat c" by (simp add: word_less_nat_alt)
    moreover have "separate t n c j" using dj m F by auto
    ultimately show "unat t + unat n \<le> unat c" using b(3) by (auto simp: separate_def)
  qed
  have Rp: "\<forall>(b, k) \<in> set R. \<not> b < p" using R b(4) by (fastforce simp: word_less_nat_alt)
  have spc: "spaced (L @ (t, n) # R)" by (rule spaced_insert [OF fo [unfolded F] up b(2,5) L R])
  let ?m1 = "set_size t n ?m"
  let ?m2 = "when_ptr (last_of L 0) (\<lambda>p. set_next p t) ?m1"
  let ?m3 = "set_magic t FREE_MAGIC (set_next t (head_of R 0) (set_prev t (last_of L 0) ?m2))"
  let ?m4 = "when_ptr (head_of R 0) (\<lambda>p. set_prev p t) ?m3"
  note I = insert_chain [OF ch [unfolded F] spc t0]
  have fp: "find_place p 0 (free_list ?i) ?m1 = Some (last_of L 0, head_of R 0)"
    using find_place_spec [OF I(1) Lp Rp] fl F by simp
  from merge_all_ok [OF I(2) fo [unfolded F] up b(1,2,5) L R]
  obtain m' where M: "merge_all t ?m4 = Some (head_of (release t n F) 0, m')" "chain m' 0 (release t n F) 0"
    and Mb: "\<And>x. off_free (L @ (t, n) # R) x \<Longrightarrow> m' x = ?m4 x"
    unfolding F by blast
  let ?G = "release t n F"
  note RO = release_ok [OF fo b(1,2,5) up U(2)]
  let ?s1 = "upd_info h (\<lambda>i. i\<lparr>free_size := free_size i + n\<rparr>) (s\<lparr>hmem := m'\<rparr>)"
  let ?s2 = "upd_info h (\<lambda>i. i\<lparr>free_list := head_of ?G 0\<rparr>) ?s1"
  have run1: "tegrabl_generic_free h p s = Some (head_of ?G 0, ?s1)"
    using V fp M(1) by (simp add: tegrabl_generic_free_def Let_def)
  have run: "free_and_update h p s = Some ?s2"
  proof -
    have "free_list (hinfo ?s1 h) = head_of F 0" using fl by (simp add: upd_info_def)
    then have "update_free_list_head h (head_of ?G 0) ?s1 = ?s2"
      using release_head [of t n F] by (intro update_head_eq) (auto split: if_splits)
    then show ?thesis using run1 release_head_nonzero [OF ch t0, of n] by (simp add: free_and_update_def)
  qed
  have fsz: "unat (free_size ?i + n) = total_free ?G"
    using RO fs tot unat_u64_bound [of "max_size ?i"] by (simp add: unat_word_ariths)
  have bytes: "m' x = ?m x" if "off_free F x \<and> (x < unat t \<or> unat t + unat n \<le> x)" for x
    using that Mb [of x] I(3) [of x] F by simp
  have hf2: "heap_free ?s2 h ?G"
    using M(2) RO lo mx fsz by (simp add: heap_free_def upd_info_def)
  have "used_ok m' ?lo ?up ?G (A @ B)"
  proof (rule used_ok_change [OF U(3)])
    fix q u k assume m: "(q, u, k) \<in> set (A @ B)"
    have d1: "separate u k t n" using bspec [OF U(4) m] by simp
    have ub: "32 \<le> unat k" "\<forall>(a, j) \<in> set F. separate u k a j"
      using used_ok_mem [OF U(3) m] by (auto simp: used_block_def)
    have out: "off_free F x \<and> (x < unat t \<or> unat t + unat n \<le> x)" if "unat u \<le> x" "x < unat u + unat k" for x
      using that d1 ub(2) by (fastforce simp: off_free_def separate_def)
    show "m' x = ?m x" if "unat u \<le> x" "x < unat u + unat k" for x using bytes out that by blast
    show "\<forall>(a, j) \<in> set ?G. separate u k a j"
      by (rule separate_off [of u k ?G ?lo ?up]) (use RO out ub(1) in auto)
  qed
  then have "heap_ok ?s2 h ?G (A @ B)"
    using hf2 tot RO by (simp add: heap_ok_def upd_info_def)
  moreover have "elsewhere h (\<lambda>x. off_free F x \<and> (x < unat t \<or> unat t + unat n \<le> x)) s ?s2"
    using bytes by (simp add: elsewhere_def upd_info_def)
  ultimately show ?thesis using run by blast
qed

end
