(* ===== verification/Heap_Align.thy ===== *)
theory Heap_Align
  imports Heap_Free
begin

text \<open>
  Aligned allocation: the specification \<open>align_alloc\<close>, with a gap in front of the block that stays with
  it when it is too small for a header and goes back to the free list otherwise, and the proof that
  \<open>tegrabl_memalign_generic\<close> follows it.
\<close>

section \<open>Aligned allocation\<close>

definition gap :: "nat \<Rightarrow> u64 \<Rightarrow> nat" where
  "gap al a = al - (unat a + 24) mod al"

definition align_alloc :: "nat \<Rightarrow> nat \<Rightarrow> blocks \<Rightarrow> (u64 \<times> u64 \<times> u64 \<times> blocks) option" where
  "align_alloc al k F =
     (case first_block (\<lambda>(a, n). gap al a + k \<le> unat n) F of
        None \<Rightarrow> None
      | Some (L, (a, n), R) \<Rightarrow>
          let g = of_nat (gap al a); sz = of_nat (k + gap al a); rest = split_rest a n sz in
          Some (if gap al a < 32 then (a + 24 + g, a, split_got n sz, L @ rest @ R)
                else (a + 24 + g, a + g, of_nat k, L @ (a, g) # rest @ R)))"

lemma unat_align_gap:
  assumes "hdr_ok a" and "al \<noteq> 0"
  shows "unat (align_gap al a) = gap (unat al) a" "gap (unat al) a \<le> unat al" "0 < gap (unat al) a"
proof -
  have al: "0 < unat al" using assms(2) by (simp add: unat_gt_0)
  have "unat ((a + 24) mod al) = (unat a + 24) mod unat al"
    using hdr_offsets(3) [OF assms(1)] by (simp add: unat_mod)
  moreover have "(unat a + 24) mod unat al < unat al" using al by simp
  ultimately show "unat (align_gap al a) = gap (unat al) a"
    by (simp add: align_gap_def gap_def unat_diff word_le_nat_alt)
  show "gap (unat al) a \<le> unat al" "0 < gap (unat al) a" using al by (simp_all add: gap_def)
qed

lemma get_free_block_spec:
  assumes "chain m q F 0" and "spaced F" and "unat al + k < 2 ^ 64" and "al \<noteq> 0"
  shows "get_free_block al (of_nat k) (head_of F 0) m =
    Some (case first_block (\<lambda>(a, n). gap (unat al) a + k \<le> unat n) F of None \<Rightarrow> 0 | Some (L, (a, n), R) \<Rightarrow> a)"
  using assms(1,2)
proof (induction F arbitrary: q)
  case Nil
  then show ?case by (simp add: get_free_block.simps)
next
  case (Cons b F)
  obtain a n where b: "b = (a, n)" by (cases b)
  have c: "chain m a F 0" "spaced F" "hdr_ok a" using Cons.prems b by (auto simp: spaced_Cons)
  have k: "unat (of_nat k :: u64) = k" using assms(3) by (simp add: unat_of_nat take_bit_nat_eq_self)
  note G = unat_align_gap [OF c(3) assms(4)]
  have s: "unat (align_gap al a + of_nat k) = gap (unat al) a + k"
    using G k assms(3) by (simp add: unat_word_ariths)
  show ?case
    using Cons.prems(1) Cons.IH [OF c(1,2)] b k s
    by (subst get_free_block.simps) (auto simp: word_less_nat_alt split: option.splits)
qed

lemma insert_chain_before:
  assumes "chain m 0 (L @ R) 0" and "spaced (L @ (a, n) # R)" and "a \<noteq> 0"
  defines "m1 \<equiv> set_magic a FREE_MAGIC (set_size a n (set_prev a (last_of L 0) (set_next a (head_of R 0) m)))"
  defines "m2 \<equiv> when_ptr (head_of R 0) (\<lambda>p. set_prev p a) m1"
  defines "m3 \<equiv> when_ptr (last_of L 0) (\<lambda>p. set_next p a) m2"
  shows "chain m3 0 (L @ (a, n) # R) 0" "off_free (L @ (a, n) # R) x \<Longrightarrow> m3 x = m x"
    "head_of R 0 = 0 \<or> f_prev (head_of R 0) m1 = last_of L 0" "last_of L 0 = 0 \<or> f_next (last_of L 0) m2 = head_of R 0"
proof -
  note A = spaced_away [OF assms(2)]
  have sL: "spaced (L @ ([(a, n)] @ R))" and sR: "spaced ((L @ [(a, n)]) @ R)" using assms(2) by simp_all
  have c1: "chain m1 0 L (head_of R 0)" "chain m1 (last_of L 0) R 0" "f_size a m1 = n" "f_magic a m1 = FREE_MAGIC"
    "f_next a m1 = head_of R 0" "f_prev a m1 = last_of L 0"
    using A assms(1) by (simp_all add: chain_append m1_def)
  show "head_of R 0 = 0 \<or> f_prev (head_of R 0) m1 = last_of L 0" using c1(2) by (cases R) auto
  note H = relink_head [OF sR, where m = m1 and u = a, folded m2_def]
  have c2: "chain m2 0 L (head_of R 0)" "chain m2 a R 0" "f_size a m2 = n" "f_magic a m2 = FREE_MAGIC"
    "f_next a m2 = head_of R 0" "f_prev a m2 = last_of L 0"
    using H(1) [OF c1(2)] H(2) c1 chain_frame [of L m1 m2] by (auto simp: same_hdr_def)
  show "last_of L 0 = 0 \<or> f_next (last_of L 0) m2 = head_of R 0"
    using c2(1) by (cases L rule: rev_cases) (auto simp: chain_append)
  note K = relink_last [OF sL, where m = m2 and u = a, folded m3_def]
  have "chain m3 0 L a" "chain m3 a R 0" "f_size a m3 = n" "f_magic a m3 = FREE_MAGIC"
    "f_next a m3 = head_of R 0" "f_prev a m3 = last_of L 0"
    using K(1) [OF c2(1)] K(2) c2 chain_frame [of R m2 m3] by (auto simp: same_hdr_def)
  then show "chain m3 0 (L @ (a, n) # R) 0" using assms(3) by (simp add: chain_append)
  show "m3 x = m x" if "off_free (L @ (a, n) # R) x"
    using that assms(2) off_block [OF that assms(2), of a n] off_ends [of R x] off_ends [of L x]
    by (simp add: m3_def m2_def m1_def ptr_bytes field_bytes spaced_append spaced_Cons)
qed

text \<open>The successor of the gap in the list, as the code recomputes it after the split.\<close>

lemma successor_after_split:
  assumes "chain m 0 (L @ S @ R) 0" and "spaced (L @ S @ R)" and "S = [] \<or> S = [(nf, j)]"
  shows "next_after_split (last_of L 0) (head_of R 0) (head_of (L @ S @ R) 0) m = head_of (S @ R) 0"
proof -
  have c: "chain m 0 L (head_of (S @ R) 0)" "chain m (last_of L 0) S (head_of R 0)" "chain m (last_of S (last_of L 0)) R 0"
    using assms(1) by (simp_all add: chain_append)
  have nz: "last_of L 0 = 0 \<longleftrightarrow> L = []" "head_of R 0 = 0 \<longleftrightarrow> R = []"
    using last_in [of L 0] head_in [of R 0] chain_nonnull [OF c(1)] chain_nonnull [OF c(3)] by fastforce+
  have nx: "f_next (last_of L 0) m = head_of (S @ R) 0" if "L \<noteq> []"
    using that c(1) by (cases L rule: rev_cases) (auto simp: chain_append)
  have pv: "f_prev (head_of R 0) m = last_of S (last_of L 0)" if "R \<noteq> []" using that c(3) by (cases R) auto
  have ne: "S = [(nf, j)] \<Longrightarrow> nf \<noteq> last_of L 0"
    using last_in [of L 0] spaced_away(1) [of L nf j R] assms(2) c(2)
    by (cases "L = []") (auto simp: away_def apart_def)
  show ?thesis using assms(3) nz nx pv ne by (cases "L = []"; cases "R = []") (auto simp: next_after_split_def)
qed

lemma found_aligned:
  assumes "unat (a + 24 + of_nat (gap al a) :: u64) = unat a + 24 + gap al a" and "0 < al"
  shows "al dvd unat (a + 24 + of_nat (gap al a) :: u64)"
proof -
  have "(unat a + 24) mod al \<le> al" using assms(2) by (simp add: less_imp_le)
  moreover have "unat a + 24 = (unat a + 24) div al * al + (unat a + 24) mod al" by simp
  ultimately have "unat a + 24 + gap al a = (unat a + 24) div al * al + al"
    unfolding gap_def by linarith
  then show ?thesis using assms(1) by simp
qed

text \<open>A gap too small for a header stays with the allocated block.\<close>

lemma memalign_small:
  assumes ok: "heap_ok s h (L @ (a, n) # R) A" and sz: "unat sz = k + g" "k + g \<le> unat n" "32 \<le> k" "0 < g"
    and hf: "heap_free t h (L @ split_rest a n sz @ R)" and el: "elsewhere h (off_free (L @ (a, n) # R)) s t"
    and b: "unat b = unat a + g"
  defines "t' \<equiv> t\<lparr>hmem := set_prev b a (set_magic b ALLOC_MAGIC (set_size b (split_got n sz) (hmem t)))\<rparr>"
  shows "heap_ok t' h (L @ split_rest a n sz @ R) ((b + 24, a, split_got n sz) # A)"
    "elsewhere h (off_free (L @ (a, n) # R)) s t'"
proof -
  have hfs: "heap_free s h (L @ (a, n) # R)" using ok by (simp add: heap_ok_def)
  have a3: "unat a + unat n < 2 ^ 64" using heap_free_spaced [OF hfs] by (simp add: spaced_append spaced_Cons)
  have k2: "unat sz \<le> unat n" "32 \<le> unat sz" using sz by simp_all
  note S = split_region [OF k2 a3]
  note H = taken_header [OF hfs hf k2(2,1), of b]
  have h: "hdr_ok b" "away b (L @ split_rest a n sz @ R)" using H b sz by auto
  have hft: "heap_free t' h (L @ split_rest a n sz @ R)"
    using hf h(2) by (simp add: t'_def heap_free_def)
  show el': "elsewhere h (off_free (L @ (a, n) # R)) s t'"
    using el H(3) b sz h(1) by (auto simp: elsewhere_def t'_def field_bytes)
  have uh: "used_hdr (hmem t') (b + 24) a (split_got n sz)" using h(1) by (simp add: t'_def used_hdr_def)
  show "heap_ok t' h (L @ split_rest a n sz @ R) ((b + 24, a, split_got n sz) # A)"
    by (rule take_heap_ok [OF ok hft el' _ _ _ _ _ uh])
      (use S b sz hdr_offsets(3) [OF h(1)] in \<open>auto simp: separate_def\<close>)
qed

text \<open>A larger gap goes back to the free list.\<close>

lemma memalign_large:
  fixes v :: u64
  assumes ok: "heap_ok s h (L @ (a, n) # R) A" and sz: "unat sz = k + unat g" "k + unat g \<le> unat n" "32 \<le> k" "32 \<le> unat g"
    and kk: "unat kw = k"
    and hf: "heap_free t h (L @ split_rest a n sz @ R)" and el: "elsewhere h (off_free (L @ (a, n) # R)) s t"
    and b: "unat b = unat a + unat g"
  defines "mh \<equiv> set_prev b b (set_size b kw (set_prev b a (set_magic b ALLOC_MAGIC (set_size b v (hmem t)))))"
  defines "RR \<equiv> split_rest a n sz @ R"
  defines "m1 \<equiv> set_magic a FREE_MAGIC (set_size a g (set_prev a (last_of L 0) (set_next a (head_of RR 0) mh)))"
  defines "m2 \<equiv> when_ptr (head_of RR 0) (\<lambda>p. set_prev p a) m1"
  defines "m3 \<equiv> when_ptr (last_of L 0) (\<lambda>p. set_next p a) m2"
  defines "t' \<equiv> upd_info h (\<lambda>i. i\<lparr>free_list := head_of (L @ (a, g) # RR) 0\<rparr>)
    (upd_info h (\<lambda>i. i\<lparr>free_size := free_size i + g\<rparr>) (t\<lparr>hmem := m3\<rparr>))"
  shows "heap_ok t' h (L @ (a, g) # RR) ((b + 24, b, kw) # A)" "elsewhere h (off_free (L @ (a, n) # R)) s t'"
    "head_of RR 0 = 0 \<or> f_prev (head_of RR 0) m1 = last_of L 0" "last_of L 0 = 0 \<or> f_next (last_of L 0) m2 = head_of RR 0"
proof -
  let ?F = "L @ (a, n) # R" and ?i = "hinfo s h"
  have hfs: "heap_free s h ?F" using ok by (simp add: heap_ok_def)
  have spF: "spaced ?F" by (rule heap_free_spaced [OF hfs])
  then have a3: "unat a + unat n < 2 ^ 64" and ha: "hdr_ok a" by (simp_all add: spaced_append spaced_Cons)
  have k2: "unat sz \<le> unat n" "32 \<le> unat sz" using sz by simp_all
  note S = split_region [OF k2 a3]
  note H = taken_header [OF hfs hf k2(2,1), of b]
  have h: "hdr_ok b" "away b (L @ RR)" using H b sz by (auto simp: RR_def)
  have ch: "chain (hmem t) 0 (L @ RR) 0" and flt: "free_ok (unat (heap_start (hinfo t h))) (unat (heap_end (hinfo t h))) (L @ RR)"
    and fst: "unat (free_size (hinfo t h)) = total_free (L @ RR)"
    using hf unfolding heap_free_def RR_def by blast+
  have chh: "chain mh 0 (L @ RR) 0" using ch h(2) by (simp add: mh_def)
  have a0: "a \<noteq> 0" using hfs by (simp add: heap_free_def chain_append)
  have lowL: "\<forall>(c, j) \<in> set L. unat c + unat j < unat a"
    using hfs by (auto simp: heap_free_def free_ok_append free_ok_Cons)
  have hiRR: "\<forall>(c, j) \<in> set RR. unat b + 32 \<le> unat c"
  proof safe
    fix c j assume "(c, j) \<in> set RR"
    then consider "(c, j) \<in> set (split_rest a n sz)" | "(c, j) \<in> set R" by (auto simp: RR_def)
    then show "unat b + 32 \<le> unat c"
    proof cases
      case 1
      then show ?thesis using S(1,3) b sz by auto
    next
      case 2
      then have "unat a + unat n \<le> unat c" using spF by (auto simp: spaced_append spaced_Cons)
      then show ?thesis using b sz by simp
    qed
  qed
  have aRR: "\<forall>(c, j) \<in> set RR. unat a + unat g < unat c" using hiRR b by fastforce
  have "spaced (L @ RR)" using heap_free_spaced [OF hf] by (simp add: RR_def)
  moreover have "\<forall>(c, j) \<in> set L. unat c + unat j \<le> unat a" "\<forall>(c, j) \<in> set RR. unat a + unat g \<le> unat c"
    using lowL aRR by fastforce+
  ultimately have sp: "spaced (L @ (a, g) # RR)"
    using ha a3 sz by (simp add: spaced_append spaced_Cons) fastforce
  note I = insert_chain_before [OF chh sp a0]
  show "head_of RR 0 = 0 \<or> f_prev (head_of RR 0) m1 = last_of L 0" "last_of L 0 = 0 \<or> f_next (last_of L 0) m2 = head_of RR 0"
    using I(3,4) unfolding m1_def m2_def by blast+
  have bounds: "heap_start (hinfo t h) = heap_start ?i" "heap_end (hinfo t h) = heap_end ?i" "max_size (hinfo t h) = max_size ?i"
    using el by (simp_all add: elsewhere_def)
  have tot: "total_free (L @ (a, g) # RR) \<le> total_free ?F" using S(1,4) sz by (simp add: RR_def)
  moreover have "total_free ?F \<le> unat (max_size ?i)" using ok by (simp add: heap_ok_def)
  ultimately have fsz: "unat (free_size (hinfo t h) + g) = total_free (L @ (a, g) # RR)"
    using fst unat_u64_bound [of "max_size ?i"] by (simp add: unat_word_ariths)
  have fo: "free_ok (unat (heap_start ?i)) (unat (heap_end ?i)) (L @ (a, g) # RR)"
    using flt hfs lowL aRR sz bounds by (simp add: heap_free_def free_ok_append free_ok_Cons) fastforce
  have hft: "heap_free t' h (L @ ((a, g) # split_rest a n sz) @ R)"
    using I(1) fo fsz hfs bounds unfolding heap_free_def t'_def m3_def m2_def m1_def by (simp add: upd_info_def RR_def)
  show el': "elsewhere h (off_free ?F) s t'"
  proof -
    have "m3 x = hmem s x" if x: "off_free ?F x" for x
    proof -
      have "off_free (split_rest a n sz) x" using S(2,3) x by (fastforce simp: off_free_def)
      then have "off_free (L @ (a, g) # RR) x" using x sz by (auto simp: RR_def)
      then have "m3 x = mh x" using I(2) unfolding m3_def m2_def m1_def by blast
      also have "\<dots> = hmem t x" using H(3) [OF _ _ x] b sz h(1) by (simp add: mh_def field_bytes)
      finally show ?thesis using el x by (simp add: elsewhere_def)
    qed
    then show ?thesis using el by (simp add: elsewhere_def t'_def upd_info_def)
  qed
  have b24: "unat (b + 24) = unat b + 24" using hdr_offsets(3) [OF h(1)] .
  have uh: "used_hdr (hmem t') (b + 24) b kw"
  proof -
    have "used_hdr mh (b + 24) b kw" using h(1) by (simp add: mh_def used_hdr_def)
    moreover have "m3 x = mh x" if "unat b \<le> x" "x < unat b + 24" for x
    proof -
      have "off_free L x" "off_free RR x" using that lowL hiRR b unfolding off_free_def by fastforce+
      then have "off_free (L @ (a, g) # RR) x" using that b by simp
      then show ?thesis using I(2) unfolding m3_def m2_def m1_def by blast
    qed
    ultimately show ?thesis using used_hdr_bytes [of "b + 24" m3 mh b kw] b24 by (simp add: t'_def upd_info_def)
  qed
  have "heap_ok t' h (L @ ((a, g) # split_rest a n sz) @ R) ((b + 24, b, kw) # A)"
    by (rule take_heap_ok [OF ok hft el' _ _ _ _ _ uh])
      (use S b sz kk b24 in \<open>auto simp: separate_def\<close>)
  then show "heap_ok t' h (L @ (a, g) # RR) ((b + 24, b, kw) # A)" by (simp add: RR_def)
qed

lemma memalign_need:
  assumes "is_size_alignment_valid hi alignment size'" and "size' \<noteq> 0" and "unat (max_size hi) + 64 \<le> 2 ^ 64"
  shows "max (round_word size' + 24) 32 = of_nat (need (unat size'))" "unat alignment + need (unat size') < 2 ^ 64"
proof -
  have v: "unat (size' + alignment) \<le> unat (max_size hi)" "unat size' \<le> unat (size' + alignment)"
    "unat alignment \<le> unat (size' + alignment)"
    using assms(1) by (simp_all add: is_size_alignment_valid_def Let_def word_less_nat_alt not_less split: if_splits)
  have nw: "unat (size' + alignment) = unat size' + unat alignment"
    using v(2) unat_u64_bound [of alignment] unat_plus_if_size [of size' alignment] by (auto simp: word_size split: if_splits)
  have "0 < unat size'" using assms(2) by (simp add: unat_gt_0)
  then have "need (unat size') \<le> unat size' + 31" by (auto simp: need_def)
  then show lt: "unat alignment + need (unat size') < 2 ^ 64" using v nw assms(3) by simp
  have "\<not> round_word size' + 24 < size'" using lt round_word_wraps [of size'] by auto
  from alloc_size_need(1) [OF this assms(2)] show "max (round_word size' + 24) 32 = of_nat (need (unat size'))" .
qed

lemma update_head_insert:
  assumes "free_list (hinfo s h) = head_of (L @ RR) 0" and "spaced (L @ (a, n) # R)" and "spaced (L @ RR)"
    and "chain m 0 (L @ RR) 0" and "\<forall>(c, j) \<in> set RR. unat a < unat c"
  shows "update_free_list_head h a s = upd_info h (\<lambda>i. i\<lparr>free_list := head_of (L @ (a, g) # RR) 0\<rparr>) s"
proof (cases L)
  case Nil
  have "head_of RR 0 = 0 \<or> head_of RR 0 > a"
    using assms(5) head_in [of RR 0] by (cases "RR = []") (auto simp: word_less_nat_alt)
  then show ?thesis using update_head_eq [of s h a] assms(1) Nil by auto
next
  case (Cons c L')
  obtain d j where c: "c = (d, j)" by (cases c)
  have "unat d + unat j \<le> unat a" "32 \<le> unat j" "d \<noteq> 0"
    using assms(2,4) Cons c by (auto simp: spaced_Cons)
  then have n: "\<not> d > a" "free_list (hinfo s h) = d" using assms(1) Cons c by (auto simp: word_less_nat_alt)
  have e: "(hinfo s h)\<lparr>free_list := d\<rparr> = hinfo s h" using n(2) by simp
  show ?thesis using n Cons c \<open>d \<noteq> 0\<close> by (simp add: update_free_list_head_def upd_info_def e)
qed

lemma memalign_spec:
  assumes "heap_ok s h F A" and "is_size_alignment_valid (hinfo s h) al sz" and "al \<noteq> 0"
    and "unat (max_size (hinfo s h)) + 64 \<le> 2 ^ 64"
  shows "case (if sz = 0 then None else align_alloc (unat al) (need (unat sz)) F) of
      None \<Rightarrow> tegrabl_memalign_generic h al sz s = Some (0, s)
    | Some (p, st, g, F') \<Rightarrow> \<exists>s'. tegrabl_memalign_generic h al sz s = Some (p, s') \<and>
        heap_ok s' h F' ((p, st, g) # A) \<and> unat al dvd unat p \<and> unat p + unat sz \<le> unat st + unat g \<and>
        elsewhere h (off_free F) s s'"
proof (cases "sz = 0")
  case True
  then show ?thesis by (simp add: tegrabl_memalign_generic_def)
next
  case nz: False
  let ?k = "need (unat sz)" and ?i = "hinfo s h" and ?al = "unat al"
  have hf: "heap_free s h F" and ch: "chain (hmem s) 0 F 0" and fl: "free_list ?i = head_of F 0"
    using assms(1) unfolding heap_ok_def heap_free_def by blast+
  have spF: "spaced F" by (rule heap_free_spaced [OF hf])
  note N = memalign_need [OF assms(2) nz assms(4)]
  note G = get_free_block_spec [OF ch spF N(2) assms(3)]
  show ?thesis
  proof (cases "first_block (\<lambda>(a, n). gap ?al a + ?k \<le> unat n) F")
    case None
    then show ?thesis using nz G N(1) fl by (simp add: tegrabl_memalign_generic_def align_alloc_def Let_def)
  next
    case (Some r)
    then obtain L a n R where fb: "first_block (\<lambda>(a, n). gap ?al a + ?k \<le> unat n) F = Some (L, (a, n), R)"
      by (cases r) auto
    from first_block_Some [OF fb] have F: "F = L @ (a, n) # R" and fits: "gap ?al a + ?k \<le> unat n" by simp_all
    have ha: "hdr_ok a" "unat a + unat n < 2 ^ 64" using spF F by (simp_all add: spaced_append spaced_Cons)
    note AG = unat_align_gap [OF ha(1) assms(3)]
    define gw where "gw = align_gap al a"
    have gw: "unat gw = gap ?al a" "0 < unat gw" using AG(1,3) by (simp_all add: gw_def)
    have gwo: "of_nat (gap ?al a) = gw" unfolding gw(1) [symmetric] by simp
    define sz' where "sz' = (of_nat ?k + gw :: u64)"
    have uk: "unat (of_nat ?k :: u64) = ?k" using N(2) by (simp add: unat_of_nat take_bit_nat_eq_self)
    have usz: "unat sz' = ?k + unat gw" "of_nat (?k + gap ?al a) = sz'"
      using uk gw gwo fits unat_u64_bound [of n] by (simp_all add: sz'_def unat_word_ariths)
    have le: "32 \<le> unat sz'" "unat sz' \<le> unat n" using usz(1) gw fits need_le(2) [of "unat sz"] by simp_all
    from split_block_ok [OF hf [unfolded F] le] obtain t where
      t: "tegrabl_heap_split_block h a sz' s = Some (a, t)" "heap_free t h (L @ split_rest a n sz' @ R)"
        "f_size a (hmem t) = split_got n sz'" and el: "elsewhere h (off_free (L @ (a, n) # R)) s t"
      unfolding elsewhere_def using same_bounds [OF hf [unfolded F]] by blast
    define b where "b = a + gw"
    have b: "unat b = unat a + unat gw" using fits gw(1) ha(2) by (simp add: b_def unat_word_ariths)
    have fnd: "a + 24 + gw = b + 24" by (simp add: b_def)
    have b24: "unat (b + 24) = unat b + 24" using b fits gw(1) ha(2) need_le(2) [of "unat sz"] by (simp add: unat_word_ariths)
    have dv: "?al dvd unat (b + 24)"
      using found_aligned [of a ?al, unfolded gwo fnd] b b24 gw(1) assms(3) by (simp add: unat_gt_0)
    have as: "(b + 24) mod al = 0" using dv by (simp add: word_unat_eq_iff unat_mod)
    have as2: "(a + 24 + gw) mod al = 0" unfolding fnd by (rule as)
    have a0: "a \<noteq> 0" using ch F by (simp add: chain_append)
    have pn: "f_prev a (hmem s) = last_of L 0" "f_next a (hmem s) = head_of R 0" using ch F by (simp_all add: chain_append)
    show ?thesis
    proof (cases "gap ?al a < 32")
      case True
      note M = memalign_small [OF assms(1) [unfolded F] usz(1) _ need_le(2) gw(2) t(2) el b]
      let ?t = "t\<lparr>hmem := set_prev b a (set_magic b ALLOC_MAGIC (set_size b (split_got n sz') (hmem t)))\<rparr>"
      have run: "tegrabl_memalign_generic h al sz s = Some (b + 24, ?t)"
        using nz G N(1) fl fb a0 t(1,3) True gw(1) as2
        by (simp add: tegrabl_memalign_generic_def Let_def ASSERT_def hang_if_def word_less_nat_alt
            flip: gw_def sz'_def b_def)
      have kg: "?k + unat gw \<le> unat n" using fits gw(1) by simp
      have sg: "unat sz' \<le> unat (split_got n sz')" using split_region(1) [OF le(2,1) ha(2)] .
      have AA: "align_alloc ?al ?k F = Some (b + 24, a, split_got n sz', L @ split_rest a n sz' @ R)"
        using fb True usz(2) gwo fnd by (simp add: align_alloc_def Let_def)
      show ?thesis
        using nz AA run M [OF kg] dv b b24 sg usz(1) need_le(1) [of "unat sz"] by (simp add: F)
    next
      case False
      have kg: "?k + unat gw \<le> unat n" "32 \<le> unat gw" using fits gw(1) False by simp_all
      let ?RR = "split_rest a n sz' @ R"
      note M = memalign_large [OF assms(1) [unfolded F] usz(1) kg(1) need_le(2) kg(2) uk t(2) el b, where v = "split_got n sz'"]
      have chT: "chain (hmem t) 0 (L @ ?RR) 0" and flT: "free_list (hinfo t h) = head_of (L @ ?RR) 0"
        using t(2) unfolding heap_free_def by blast+
      have run: "\<exists>s'. tegrabl_memalign_generic h al sz s = Some (b + 24, s') \<and>
          heap_ok s' h (L @ (a, gw) # ?RR) ((b + 24, b, of_nat ?k) # A) \<and> elsewhere h (off_free (L @ (a, n) # R)) s s'"
      proof -
        let ?mA = "set_prev b a (set_magic b ALLOC_MAGIC (set_size b (split_got n sz') (hmem t)))"
        let ?mh = "set_prev b b (set_size b (of_nat ?k) ?mA)"
        let ?m1 = "set_magic a FREE_MAGIC (set_size a gw (set_prev a (last_of L 0) (set_next a (head_of ?RR 0) ?mh)))"
        let ?m2 = "when_ptr (head_of ?RR 0) (\<lambda>p. set_prev p a) ?m1"
        let ?m3 = "when_ptr (last_of L 0) (\<lambda>p. set_next p a) ?m2"
        let ?s1 = "upd_info h (\<lambda>i. i\<lparr>free_size := free_size i + gw\<rparr>) (t\<lparr>hmem := ?m3\<rparr>)"
        have "away b (L @ ?RR)" using taken_header(2) [OF hf [unfolded F] t(2) le, of b] b usz(1) need_le(2) [of "unat sz"] by simp
        then have chA: "chain ?mA 0 (L @ ?RR) 0" using chT by simp
        have spT: "spaced (L @ ?RR)" by (rule heap_free_spaced [OF t(2)])
        have rest: "split_rest a n sz' = [] \<or> split_rest a n sz' = [(a + sz', n - sz')]" by (simp add: split_rest_def)
        note nx = successor_after_split [OF chA spT rest]
        have hd: "update_free_list_head h a ?s1 = upd_info h (\<lambda>i. i\<lparr>free_list := head_of (L @ (a, gw) # ?RR) 0\<rparr>) ?s1"
        proof (rule update_head_insert [OF _ spF [unfolded F] spT chT])
          show "free_list (hinfo ?s1 h) = head_of (L @ ?RR) 0" using flT by (simp add: upd_info_def)
          show "\<forall>(c, j) \<in> set ?RR. unat a < unat c"
          proof safe
            fix c j assume "(c, j) \<in> set ?RR"
            then consider "(c, j) \<in> set (split_rest a n sz')" | "(c, j) \<in> set R" by auto
            then show "unat a < unat c"
            proof cases
              case 1
              then show ?thesis using split_region(1,3) [OF le(2,1) ha(2)] le(1) by auto
            next
              case 2
              then have "unat a + unat n \<le> unat c" using spF F by (auto simp: spaced_append spaced_Cons)
              then show ?thesis using le by simp
            qed
          qed
        qed
        have "tegrabl_memalign_generic h al sz s = Some (b + 24, update_free_list_head h a ?s1)"
          using nz G N(1) fl fb a0 t(1,3) False gw(1) as2 pn nx flT M(3,4)
          by (simp add: tegrabl_memalign_generic_def Let_def ASSERT_def hang_if_def word_less_nat_alt
            flip: gw_def sz'_def b_def)
        then show ?thesis unfolding hd using M(1,2) by blast
      qed
      have AA: "align_alloc ?al ?k F = Some (b + 24, b, of_nat ?k, L @ (a, gw) # ?RR)"
        using fb False usz(2) gwo fnd b_def by (simp add: align_alloc_def Let_def)
      show ?thesis
        using nz AA run dv b b24 uk need_le(1) [of "unat sz"] by (auto simp: F)
    qed
  qed
qed

end
