(* ===== verification/Heap_Client.thy ===== *)
theory Heap_Client
  imports Heap_Align
begin

text \<open>
  The allocator as its clients see it: initialisation establishes the invariant, writing inside a block
  keeps it, and the locale \<open>allocator\<close> states what a program that requests, fills and releases blocks
  relies on; it is interpreted on the calls of the default heap.
\<close>

section \<open>From initialisation\<close>

lemma heap_init_ok:
  assumes "tegrabl_heap_init h start sz s0 = (0, s)" and "start \<noteq> 0" and "unat start + unat sz < 2 ^ 64"
  shows "heap_ok s h [(start, sz)] []"
proof -
  have sz: "32 \<le> unat sz" and s: "s = s0\<lparr>hmem := set_magic start FREE_MAGIC (set_size start sz (set_next start 0 (set_prev start 0 (hmem s0)))),
      hinfo := (hinfo s0)(h := \<lparr>max_size = sz, free_size = sz, heap_start = start, heap_end = start + sz, free_list = start\<rparr>)\<rparr>"
    using assms(1)
    by (auto simp: tegrabl_heap_init_def word_less_nat_alt split: if_splits)
  have "hdr_ok start" "unat (start + sz) = unat start + unat sz"
    using assms(3) sz by (simp_all add: hdr_ok_def unat_word_ariths)
  then show ?thesis using sz assms(2) by (simp add: heap_ok_def heap_free_def s free_ok_def unat_gt_0)
qed

section \<open>Writing into a block\<close>

lemma used_ok_hdrs:
  assumes "used_ok m lo up F A" and "\<And>q u k. (q, u, k) \<in> set A \<Longrightarrow> used_hdr m' q u k = used_hdr m q u k"
  shows "used_ok m' lo up F A"
  using assms
proof (induction A)
  case (Cons b A)
  then show ?case by (cases b) (simp add: used_block_def)
qed simp

definition write_block :: "u64 \<times> u64 \<times> u64 \<Rightarrow> (nat \<Rightarrow> u8) \<Rightarrow> heaps \<Rightarrow> heaps" where
  "write_block b f s = (case b of (p, t, n) \<Rightarrow>
     s\<lparr>hmem := (\<lambda>x. if unat p \<le> x \<and> x < unat t + unat n then f x else hmem s x)\<rparr>)"

lemma fill_block_ok:
  assumes "heap_ok s h F A" and "b \<in> set A"
  shows "heap_ok (write_block b f s) h F A"
proof -
  obtain p t n where b: "b = (p, t, n)" by (cases b)
  obtain A1 A2 where A: "A = A1 @ (p, t, n) # A2" using assms(2) b by (meson split_list)
  let ?lo = "unat (heap_start (hinfo s h))" and ?up = "unat (heap_end (hinfo s h))"
  let ?m = "\<lambda>x. if unat p \<le> x \<and> x < unat t + unat n then f x else hmem s x"
  have hf: "heap_free s h F" and us: "used_ok (hmem s) ?lo ?up F A" using assms(1) by (simp_all add: heap_ok_def)
  note U = used_ok_remove [OF us [unfolded A]]
  have pt: "unat t + 24 \<le> unat p" "unat p \<le> unat t + unat n" using U(1) by (simp_all add: used_block_def)
  have sp: "spaced F" by (rule heap_free_spaced [OF hf])
  have "same_hdr (hmem s) ?m (fst c)" if "c \<in> set F" for c
  proof -
    obtain d j where c: "c = (d, j)" by (cases c)
    have "hdr_ok d" "32 \<le> unat j" "separate t n d j" using spaced_mem [OF sp, of d j] U(2) that c by auto
    then show ?thesis using pt c by (auto intro!: same_hdr_bytes simp: separate_def)
  qed
  then have 1: "heap_free (s\<lparr>hmem := ?m\<rparr>) h F" using heap_free_hmem [OF hf] by blast
  have "used_hdr ?m q u k = used_hdr (hmem s) q u k" if "(q, u, k) \<in> set A" for q u k
  proof -
    have ub: "unat u + 24 \<le> unat q" "unat q \<le> unat u + unat k" using used_ok_mem [OF us that] by (auto simp: used_block_def)
    have "(q, u, k) = (p, t, n) \<or> separate u k t n" using that bspec [OF U(4), of "(q, u, k)"] by (auto simp: A)
    then show ?thesis using ub pt by (intro used_hdr_bytes) (auto simp: separate_def)
  qed
  then have "used_ok ?m ?lo ?up F A" using used_ok_hdrs [OF us] by blast
  then show ?thesis using 1 assms(1) b by (simp add: heap_ok_def write_block_def)
qed

section \<open>Allocating and freeing again\<close>

lemma release_append:
  assumes "free_ok lo up (L @ R)" and "up < 2 ^ 64" and "\<forall>(b, k) \<in> set L. unat b + unat k < unat a"
  shows "release a n (L @ R) = L @ release a n R"
  using assms(1,3)
proof (induction L)
  case (Cons c L)
  obtain b k where c: "c = (b, k)" by (cases c)
  have IH: "release a n (L @ R) = L @ release a n R" using Cons c by (simp add: free_ok_Cons)
  have b: "unat b + unat k < unat a" "unat b + unat k \<le> up" "\<forall>(d, j) \<in> set (L @ R). unat b + unat k < unat d"
    using Cons.prems c by (auto simp: free_ok_Cons)
  have bk: "unat (b + k) = unat b + unat k" using b(2) assms(2) by (simp add: unat_word_ariths)
  have "b + k \<noteq> head_of (release a n (L @ R)) 0"
  proof
    assume e: "b + k = head_of (release a n (L @ R)) 0"
    have "head_of (release a n (L @ R)) 0 = a \<or> (\<exists>j. (head_of (release a n (L @ R)) 0, j) \<in> set (L @ R))"
      using release_head [of a n "L @ R"] head_in [of "L @ R" 0] by auto
    then show False using b(1,3) bk e by fastforce
  qed
  moreover have "\<not> a < b" using b(1) by (simp add: word_less_nat_alt)
  moreover obtain d j X where "release a n (L @ R) = (d, j) # X"
    by (metis head_of_join join_head neq_Nil_conv release.elims surj_pair)
  ultimately show ?case using IH c by auto
qed simp

lemma release_split_rest:
  assumes "free_ok lo up ((a, n) # R)" and "up < 2 ^ 64" and "unat sz \<le> unat n" and "32 \<le> unat sz"
  shows "release a (split_got n sz) (split_rest a n sz @ R) = (a, n) # R"
proof (cases "unat n - unat sz \<le> 32")
  case True
  have "release a n R = join a n R"
    using assms(1) by (cases R) (auto simp: free_ok_Cons word_less_nat_alt)
  then show ?thesis using True join_idle [OF assms(1,2)] by (simp add: split_got_def split_rest_def)
next
  case False
  have "unat (a + sz) = unat a + unat sz" using assms by (simp add: free_ok_Cons unat_word_ariths)
  then have "a < a + sz" using assms(4) by (simp add: word_less_nat_alt)
  then show ?thesis using False by (simp add: split_got_def split_rest_def)
qed

lemma fit_release:
  assumes "fit_alloc k F = Some (a, g, F')" and "free_ok lo up F" and "free_ok lo up F'" and "up < 2 ^ 64"
    and "32 \<le> k" and "k < 2 ^ 64"
  shows "release a g F' = F"
proof -
  from fit_alloc_Some [OF assms(1)] obtain L n R where F: "F = L @ (a, n) # R" and k: "k < unat n"
    and g: "g = split_got n (of_nat k)" and F': "F' = L @ split_rest a n (of_nat k) @ R" by blast
  have uk: "unat (of_nat k :: u64) = k" using assms(6) by (simp add: unat_of_nat take_bit_nat_eq_self)
  have "\<forall>(b, j) \<in> set L. unat b + unat j < unat a" using assms(2) F by (auto simp: free_ok_append free_ok_Cons)
  from release_append [OF assms(3) [unfolded F'] assms(4) this, of g]
  have "release a g F' = L @ release a g (split_rest a n (of_nat k) @ R)" by (simp add: F')
  also have "release a g (split_rest a n (of_nat k) @ R) = (a, n) # R"
    unfolding g by (rule release_split_rest [OF _ assms(4)]) (use assms(2,5) F k uk in \<open>auto simp: free_ok_append\<close>)
  finally show ?thesis by (simp add: F)
qed

section \<open>The calls on the default heap\<close>

definition same_heap :: "u32 \<Rightarrow> heaps \<Rightarrow> heaps \<Rightarrow> bool" where
  "same_heap h s s' \<longleftrightarrow> max_size (hinfo s' h) = max_size (hinfo s h) \<and> heap_start (hinfo s' h) = heap_start (hinfo s h) \<and>
     heap_end (hinfo s' h) = heap_end (hinfo s h)"

lemma elsewhere_same: "elsewhere h out s s' \<Longrightarrow> same_heap h s s'"
  by (simp add: elsewhere_def same_heap_def)

lemma malloc_ok:
  assumes "heap_ok s 0 F A"
  obtains "tegrabl_malloc sz s = Some (0, s)"
  | p t g s' F' where "tegrabl_malloc sz s = Some (p, s')" "heap_ok s' 0 F' ((p, t, g) # A)" "unat p + unat sz \<le> unat t + unat g"
      "p \<noteq> 0" "elsewhere 0 (off_free F) s s'"
proof (cases "if sz = 0 then None else fit_alloc (need (unat sz)) F")
  case None
  then show ?thesis using that(1) malloc_spec [OF assms, of sz] by (simp add: tegrabl_malloc_def)
next
  case (Some r)
  obtain a g F' where r: "r = (a, g, F')" by (cases r)
  from malloc_spec [OF assms, of sz] Some r obtain s' where
    "tegrabl_malloc sz s = Some (a + 24, s')" "heap_ok s' 0 F' ((a + 24, a, g) # A)" "unat (a + 24) = unat a + 24"
    "need (unat sz) \<le> unat g" "elsewhere 0 (off_free F) s s'"
    by (auto simp: tegrabl_malloc_def)
  moreover from this have "a + 24 \<noteq> 0" by (metis add_is_0 unat_0 zero_neq_numeral)
  ultimately show ?thesis using that(2) need_le(1) [of "unat sz"] by simp
qed

definition calloc_zeroed :: "u64 \<Rightarrow> nat \<Rightarrow> heaps \<Rightarrow> bool" where
  "calloc_zeroed p k s \<longleftrightarrow> (\<forall>x. unat p \<le> x \<and> x < unat p + k \<longrightarrow> hmem s x = 0)"

lemma calloc_ok:
  assumes "heap_ok s 0 F A"
  obtains "tegrabl_calloc nm sz s = Some (0, s)"
  | p t g s' F' where "tegrabl_calloc nm sz s = Some (p, s')" "heap_ok s' 0 F' ((p, t, g) # A)"
      "unat p + unat nm * unat sz \<le> unat t + unat g" "p \<noteq> 0" "calloc_zeroed p (unat nm * unat sz) s'" "same_heap 0 s s'"
proof (cases "sz = 0 \<or> nm > max_size (hinfo s 0) div sz")
  case True
  then show ?thesis using that(1) by (auto simp: tegrabl_calloc_def Let_def)
next
  case False
  let ?mx = "max_size (hinfo s 0)"
  have sz: "0 < unat sz" using False by (simp add: unat_gt_0)
  have "unat nm \<le> unat ?mx div unat sz" using False by (simp add: word_less_nat_alt unat_div not_less)
  then have "unat nm * unat sz \<le> unat ?mx" using sz by (simp add: less_eq_div_iff_mult_less_eq)
  then have tot: "unat (sz * nm) = unat nm * unat sz" using unat_u64_bound [of ?mx] by (simp add: unat_word_ariths mult.commute)
  then have div: "sz * nm div sz = nm" using sz by (simp add: word_unat_eq_iff unat_div)
  show ?thesis
  proof (rule malloc_ok [OF assms, of "sz * nm"])
    assume "tegrabl_malloc (sz * nm) s = Some (0, s)"
    then show ?thesis using that(1) False div by (simp add: tegrabl_calloc_def Let_def ASSERT_def hang_if_def)
  next
    fix p t g s' F' assume m: "tegrabl_malloc (sz * nm) s = Some (p, s')" "heap_ok s' 0 F' ((p, t, g) # A)"
      "unat p + unat (sz * nm) \<le> unat t + unat g" "p \<noteq> 0" "elsewhere 0 (off_free F) s s'"
    let ?s = "s'\<lparr>hmem := memset_zero p (unat (sz * nm)) (hmem s')\<rparr>"
    have "?s = write_block (p, t, g) (memset_zero p (unat (sz * nm)) (hmem s')) s'"
      using m(3) by (auto simp: write_block_def memset_zero_def fun_eq_iff)
    then have "heap_ok ?s 0 F' ((p, t, g) # A)" using fill_block_ok [OF m(2), of "(p, t, g)"] by simp
    moreover have "tegrabl_calloc nm sz s = Some (p, ?s)"
      using m False div by (simp add: tegrabl_calloc_def Let_def ASSERT_def hang_if_def)
    ultimately show ?thesis using that(2) m tot by (auto simp: calloc_zeroed_def memset_zero_def same_heap_def elsewhere_def)
  qed
qed

lemma memalign_ok:
  assumes "heap_ok s 0 F A" and "al \<noteq> 0" and "unat (max_size (hinfo s 0)) + 64 \<le> 2 ^ 64"
  obtains "tegrabl_memalign al sz s = Some (0, s)"
  | p t g s' F' where "tegrabl_memalign al sz s = Some (p, s')" "heap_ok s' 0 F' ((p, t, g) # A)"
      "unat p + unat sz \<le> unat t + unat g" "unat al dvd unat p" "p \<noteq> 0" "same_heap 0 s s'"
proof (cases "is_size_alignment_valid (hinfo s 0) al sz")
  case False
  then show ?thesis using that(1) by (simp add: tegrabl_memalign_def)
next
  case True
  note M = memalign_spec [OF assms(1) True assms(2,3)]
  show ?thesis
  proof (cases "if sz = 0 then None else align_alloc (unat al) (need (unat sz)) F")
    case None
    then show ?thesis using that(1) M True by (simp add: tegrabl_memalign_def)
  next
    case (Some r)
    obtain p t g F' where r: "r = (p, t, g, F')" by (cases r)
    from M Some r obtain s' where S: "tegrabl_memalign_generic 0 al sz s = Some (p, s')" "heap_ok s' 0 F' ((p, t, g) # A)"
      "unat al dvd unat p" "unat p + unat sz \<le> unat t + unat g" "same_heap 0 s s'" by (auto dest: elsewhere_same)
    moreover have "p \<noteq> 0" using S(2) by (auto simp: heap_ok_def used_block_def)
    ultimately show ?thesis using that(2) True by (simp add: tegrabl_memalign_def)
  qed
qed

lemma free_ok_block:
  assumes "heap_ok s 0 F (A @ (p, t, n) # B)"
  shows "\<exists>s'. tegrabl_free p s = Some s' \<and> heap_ok s' 0 (release t n F) (A @ B) \<and>
    elsewhere 0 (\<lambda>x. off_free F x \<and> (x < unat t \<or> unat t + unat n \<le> x)) s s'"
  using free_spec [OF assms]
  by (simp add: tegrabl_free_def tegrabl_dealloc_def free_and_update_def effective_type_def)

section \<open>Programs that use an allocator\<close>

datatype 'r command = Request 'r | Release nat | Fill nat "nat \<Rightarrow> u8"

text \<open>A program keeps the list of the blocks it holds; the start and the size of a block are what the
  allocator says they are.\<close>

fun exec :: "('r \<Rightarrow> 's \<Rightarrow> (u64 \<times> 's) option) \<Rightarrow> (u64 \<Rightarrow> 's \<Rightarrow> 's option) \<Rightarrow> (u64 \<times> u64 \<times> u64 \<Rightarrow> (nat \<Rightarrow> u8) \<Rightarrow> 's \<Rightarrow> 's) \<Rightarrow>
  (u64 \<Rightarrow> 's \<Rightarrow> u64 \<times> u64) \<Rightarrow> 'r command list \<Rightarrow> 's \<times> used \<Rightarrow> ('s \<times> used) option" where
  "exec get put fill info [] (s, A) = Some (s, A)"
| "exec get put fill info (Request r # cs) (s, A) =
     (case get r s of None \<Rightarrow> None
      | Some (p, s) \<Rightarrow> exec get put fill info cs (s, if p = 0 then A else (p, info p s) # A))"
| "exec get put fill info (Release i # cs) (s, A) =
     (if i < length A
      then (case put (fst (A ! i)) s of None \<Rightarrow> None
            | Some s \<Rightarrow> exec get put fill info cs (s, take i A @ drop (Suc i) A))
      else exec get put fill info cs (s, A))"
| "exec get put fill info (Fill i f # cs) (s, A) =
     exec get put fill info cs (if i < length A then fill (A ! i) f s else s, A)"

fun valid_command :: "('r \<Rightarrow> bool) \<Rightarrow> 'r command \<Rightarrow> bool" where
  "valid_command ok (Request r) = ok r"
| "valid_command ok _ = True"

locale allocator =
  fixes get :: "'r \<Rightarrow> 's \<Rightarrow> (u64 \<times> 's) option"
    and put :: "u64 \<Rightarrow> 's \<Rightarrow> 's option"
    and fill :: "u64 \<times> u64 \<times> u64 \<Rightarrow> (nat \<Rightarrow> u8) \<Rightarrow> 's \<Rightarrow> 's"
    and info :: "u64 \<Rightarrow> 's \<Rightarrow> u64 \<times> u64"
    and valid :: "'r \<Rightarrow> bool"
    and inv :: "'s \<Rightarrow> used \<Rightarrow> bool"
  assumes get_ok: "inv s A \<Longrightarrow> valid r \<Longrightarrow>
      \<exists>p s'. get r s = Some (p, s') \<and> inv s' (if p = 0 then A else (p, info p s') # A)"
    and put_ok: "inv s (A @ (p, b) # B) \<Longrightarrow> \<exists>s'. put p s = Some s' \<and> inv s' (A @ B)"
    and fill_ok: "inv s A \<Longrightarrow> c \<in> set A \<Longrightarrow> inv (fill c f s) A"
begin

lemma programs_run:
  "inv s A \<Longrightarrow> \<forall>c \<in> set cs. valid_command valid c \<Longrightarrow>
   \<exists>s' A'. exec get put fill info cs (s, A) = Some (s', A') \<and> inv s' A'"
proof (induction cs arbitrary: s A)
  case (Cons c cs)
  then have IH: "inv s A \<Longrightarrow> \<exists>s' A'. exec get put fill info cs (s, A) = Some (s', A') \<and> inv s' A'" for s A by simp
  show ?case
  proof (cases c)
    case (Request r)
    then obtain p s1 where "get r s = Some (p, s1)" "inv s1 (if p = 0 then A else (p, info p s1) # A)"
      using get_ok Cons.prems by fastforce
    then show ?thesis using IH Request by simp
  next
    case (Release i)
    show ?thesis
    proof (cases "i < length A")
      case True
      obtain p b where "A ! i = (p, b)" by (cases "A ! i")
      then have A: "A = take i A @ (p, b) # drop (Suc i) A" using True by (metis id_take_nth_drop)
      obtain s1 where "put p s = Some s1" "inv s1 (take i A @ drop (Suc i) A)"
        using put_ok [of s "take i A" p b "drop (Suc i) A"] A Cons.prems(1) by metis
      then show ?thesis using IH Release True \<open>A ! i = (p, b)\<close> by simp
    qed (use IH Release Cons.prems in simp)
  next
    case (Fill i f)
    then show ?thesis using IH Cons.prems(1) fill_ok by simp
  qed
qed simp

end

section \<open>The default heap as an allocator\<close>

datatype request = Malloc u64 | Calloc u64 u64 | Memalign u64 u64

fun serve :: "request \<Rightarrow> heaps \<Rightarrow> (u64 \<times> heaps) option" where
  "serve (Malloc n) s = tegrabl_malloc n s"
| "serve (Calloc k n) s = tegrabl_calloc k n s"
| "serve (Memalign al n) s = tegrabl_memalign al n s"

fun proper :: "request \<Rightarrow> bool" where
  "proper (Memalign al n) \<longleftrightarrow> al \<noteq> 0"
| "proper _ \<longleftrightarrow> True"

definition block_info :: "u64 \<Rightarrow> heaps \<Rightarrow> u64 \<times> u64" where
  "block_info p s = (f_prev (p - 24) (hmem s), f_size (p - 24) (hmem s))"

definition heap_inv :: "u64 \<Rightarrow> u64 \<Rightarrow> heaps \<Rightarrow> used \<Rightarrow> bool" where
  "heap_inv lo up s A \<longleftrightarrow> (\<exists>F. heap_ok s 0 F A) \<and> heap_start (hinfo s 0) = lo \<and> heap_end (hinfo s 0) = up \<and>
     unat (max_size (hinfo s 0)) + 64 \<le> 2 ^ 64"

lemma block_info_ok: "heap_ok s h F ((p, t, n) # A) \<Longrightarrow> block_info p s = (t, n)"
  by (simp add: heap_ok_def used_block_def used_hdr_def block_info_def)

lemma heap_inv_got:
  "heap_inv lo up s A \<Longrightarrow> heap_ok s' 0 F' ((p, t, n) # A) \<Longrightarrow> same_heap 0 s s' \<Longrightarrow> heap_inv lo up s' ((p, block_info p s') # A)"
  using block_info_ok [of s' 0 F' p t n A] by (auto simp: heap_inv_def same_heap_def)

interpretation heap0: allocator serve tegrabl_free write_block block_info proper "heap_inv lo up" for lo up
proof unfold_locales
  fix s A r assume i: "heap_inv lo up s A" and v: "proper r"
  then obtain F where ok: "heap_ok s 0 F A" and mx: "unat (max_size (hinfo s 0)) + 64 \<le> 2 ^ 64" by (auto simp: heap_inv_def)
  show "\<exists>p s'. serve r s = Some (p, s') \<and> heap_inv lo up s' (if p = 0 then A else (p, block_info p s') # A)"
  proof (cases r)
    case (Malloc n)
    show ?thesis
      by (rule malloc_ok [OF ok, of n]) (use i heap_inv_got [OF i] Malloc in \<open>auto dest: elsewhere_same\<close>)
  next
    case (Calloc k n)
    show ?thesis
      by (rule calloc_ok [OF ok, of k n]) (use i heap_inv_got [OF i] Calloc in auto)
  next
    case (Memalign al n)
    then have "al \<noteq> 0" using v by simp
    from memalign_ok [OF ok this mx, of n] show ?thesis
      by (rule) (use i heap_inv_got [OF i] Memalign in auto)
  qed
next
  fix s A B p b assume i: "heap_inv lo up s (A @ (p, b) # B)"
  obtain t n where b: "b = (t, n)" by (cases b)
  from i b obtain F where ok: "heap_ok s 0 F (A @ (p, t, n) # B)" by (auto simp: heap_inv_def)
  from free_ok_block [OF ok] obtain s' where "tegrabl_free p s = Some s'" "heap_ok s' 0 (release t n F) (A @ B)"
    "same_heap 0 s s'" by (auto dest: elsewhere_same)
  then show "\<exists>s'. tegrabl_free p s = Some s' \<and> heap_inv lo up s' (A @ B)"
    using i by (auto simp: heap_inv_def same_heap_def)
next
  fix s A b f assume "heap_inv lo up s A" "b \<in> set A"
  moreover have "hinfo (write_block b f s) = hinfo s" by (cases b) (simp add: write_block_def)
  ultimately show "heap_inv lo up (write_block b f s) A"
    using fill_block_ok [of s 0 _ A b f] unfolding heap_inv_def by metis
qed

end
