(* ===== verification/Heap_Properties.thy ===== *)
theory Heap_Properties
  imports Heap_Client
begin

text \<open>
  The properties of the heap allocator, and the example heaps their witnesses use: \<open>fresh\<close>, a default heap
  of 256 bytes, and \<open>with_dma\<close>, with a DMA heap of 64 bytes beside it.
\<close>

lemma dma_type [simp]: "\<not> TEGRABL_HEAP_TYPE_MAX \<le> TEGRABL_HEAP_DMA"
  by (simp add: word_le_nat_alt)

lemma used_ok_pairwise:
  "used_ok m lo up F A \<Longrightarrow> i < j \<Longrightarrow> j < length A \<Longrightarrow>
   separate (fst (snd (A ! i))) (snd (snd (A ! i))) (fst (snd (A ! j))) (snd (snd (A ! j)))"
proof (induction A arbitrary: i j)
  case (Cons b A)
  obtain p t n where b: "b = (p, t, n)" by (cases b)
  obtain j' where j: "j = Suc j'" using Cons.prems(2) by (cases j) auto
  show ?case
  proof (cases i)
    case 0
    obtain q u k where q: "A ! j' = (q, u, k)" by (cases "A ! j'")
    then have "(q, u, k) \<in> set A" using Cons.prems(3) j nth_mem [of j' A] by simp
    then show ?thesis using Cons.prems(1) b 0 j q by (auto simp: clear_of_def)
  next
    case (Suc i')
    then show ?thesis using Cons b j by simp
  qed
qed simp

lemma release_total:
  assumes "heap_ok s h F (A @ (p, t, n) # B)"
  shows "total_free (release t n F) = unat n + total_free F"
proof -
  let ?i = "hinfo s h"
  have us: "used_ok (hmem s) (unat (heap_start ?i)) (unat (heap_end ?i)) F (A @ (p, t, n) # B)"
    and fo: "free_ok (unat (heap_start ?i)) (unat (heap_end ?i)) F"
    using assms by (simp_all add: heap_ok_def heap_free_def)
  note U = used_ok_remove [OF us]
  have "unat (heap_end ?i) < 2 ^ 64" using unat_u64_bound [of "heap_end ?i"] by simp
  then show ?thesis using release_ok [OF fo _ _ _ _ U(2)] U(1) by (simp add: used_block_def)
qed

definition bare :: heaps where
  "bare = \<lparr>hmem = (\<lambda>_. 0), hinfo = (\<lambda>_. \<lparr>max_size = 0, free_size = 0, heap_start = 0, heap_end = 0, free_list = 0\<rparr>)\<rparr>"

definition fresh :: heaps where
  "fresh = snd (tegrabl_heap_init 0 0x1000 0x100 bare)"

lemma fresh_init: "tegrabl_heap_init 0 0x1000 0x100 bare = (0, fresh)"
  by (simp add: fresh_def tegrabl_heap_init_def bare_def)

lemma fresh_ok: "heap_ok fresh 0 [(0x1000, 0x100)] []"
  by (rule heap_init_ok [OF fresh_init]) simp_all

lemma fresh_info: "hinfo fresh 0 = \<lparr>max_size = 0x100, free_size = 0x100, heap_start = 0x1000, heap_end = 0x1100, free_list = 0x1000\<rparr>"
  by (simp add: fresh_def tegrabl_heap_init_def bare_def)

lemma fresh_malloc:
  "\<exists>s1. tegrabl_malloc 40 fresh = Some (0x1018, s1) \<and> heap_ok s1 0 [(0x1040, 0xC0)] [(0x1018, 0x1000, 0x40)]"
  using malloc_spec [OF fresh_ok, of 40]
  by (auto simp: tegrabl_malloc_def fit_alloc_def need_def split_got_def split_rest_def)

definition with_dma :: heaps where
  "with_dma = snd (tegrabl_heap_init 1 0x2000 64 fresh)"

lemma with_dma_init: "tegrabl_heap_init 1 0x2000 64 fresh = (0, with_dma)"
  by (simp add: with_dma_def tegrabl_heap_init_def fresh_def bare_def)

text \<open>
  C6. The allocator is safe for every client: from a successful \<open>tegrabl_heap_init\<close> on a region that does
  not reach the top of the address space, every program that calls \<open>tegrabl_malloc\<close>, \<open>tegrabl_calloc\<close>
  and \<open>tegrabl_memalign\<close>, frees blocks it holds in any order, and writes anything into the blocks it
  holds, runs to its end: no call hangs on a corrupted heap or loops. The blocks it holds then
  lie inside the region and do not overlap, and the lists in memory are well formed.
\<close>

theorem heap_programs_run:
  assumes "tegrabl_heap_init 0 start sz s0 = (0, s)" and "start \<noteq> 0" and "unat start + unat sz + 64 \<le> 2 ^ 64"
    and "\<forall>c \<in> set cs. valid_command proper c"
  shows "\<exists>s' A. exec serve tegrabl_free write_block block_info cs (s, []) = Some (s', A) \<and> (\<exists>F. heap_ok s' 0 F A) \<and>
    (\<forall>(p, t, n) \<in> set A. unat start \<le> unat t \<and> unat t + 24 \<le> unat p \<and> unat p \<le> unat t + unat n \<and>
       unat t + unat n \<le> unat start + unat sz) \<and>
    (\<forall>i j. i < j \<and> j < length A \<longrightarrow>
       separate (fst (snd (A ! i))) (snd (snd (A ! i))) (fst (snd (A ! j))) (snd (snd (A ! j))))"
proof -
  have lt: "unat start + unat sz < 2 ^ 64" using assms(3) by simp
  have i: "hinfo s 0 = \<lparr>max_size = sz, free_size = sz, heap_start = start, heap_end = start + sz, free_list = start\<rparr>"
    using assms(1) by (auto simp: tegrabl_heap_init_def split: if_splits)
  have "heap_inv start (start + sz) s []"
    using heap_init_ok [OF assms(1,2) lt] assms(3) i by (auto simp: heap_inv_def)
  from heap0.programs_run [OF this assms(4)] obtain s' A F where
    run: "exec serve tegrabl_free write_block block_info cs (s, []) = Some (s', A)" and ok: "heap_ok s' 0 F A"
    and b: "heap_start (hinfo s' 0) = start" "heap_end (hinfo s' 0) = start + sz"
    unfolding heap_inv_def by blast
  have e: "unat (start + sz) = unat start + unat sz" using lt by (simp add: unat_word_ariths)
  have us: "used_ok (hmem s') (unat start) (unat start + unat sz) F A" using ok b e by (simp add: heap_ok_def)
  have "\<forall>(p, t, n) \<in> set A. unat start \<le> unat t \<and> unat t + 24 \<le> unat p \<and> unat p \<le> unat t + unat n \<and>
       unat t + unat n \<le> unat start + unat sz"
    using used_ok_mem [OF us] by (auto simp: used_block_def)
  then show ?thesis using run ok used_ok_pairwise [OF us] by blast
qed

theorem heap_programs_run_witness:
  "\<exists>s A. exec serve tegrabl_free write_block block_info
     [Request (Malloc 40), Request (Memalign 64 8), Fill 0 (\<lambda>x. 7), Release 1, Request (Calloc 2 8)] (fresh, []) = Some (s, A)"
  using heap_programs_run [OF fresh_init, of "[Request (Malloc 40), Request (Memalign 64 8), Fill 0 (\<lambda>x. 7), Release 1, Request (Calloc 2 8)]"]
  by auto

text \<open>
  C11. \<open>tegrabl_malloc\<close> refines first-fit allocation: on a well-formed heap with free blocks \<open>F\<close> it returns
  NULL and changes nothing exactly when the size is zero or no free block is larger than the rounded
  size with its header; otherwise it cuts the first such block, whole when at most 32 bytes would
  remain, returns the address after the header, leaves a well-formed heap, and changes no byte outside
  the free blocks and nothing of the other heap.
\<close>

theorem malloc_first_fit:
  assumes "heap_ok s 0 F A"
  shows "case (if sz = 0 then None else fit_alloc (need (unat sz)) F) of
      None \<Rightarrow> tegrabl_malloc sz s = Some (0, s)
    | Some (a, g, F') \<Rightarrow> \<exists>s'. tegrabl_malloc sz s = Some (a + 24, s') \<and> heap_ok s' 0 F' ((a + 24, a, g) # A) \<and>
        unat (a + 24) = unat a + 24 \<and> need (unat sz) \<le> unat g \<and>
        (\<forall>x. off_free F x \<longrightarrow> hmem s' x = hmem s x) \<and> hinfo s' 1 = hinfo s 1"
  using malloc_spec [OF assms, of sz]
  by (auto simp: tegrabl_malloc_def elsewhere_def split: option.splits if_splits)

theorem malloc_first_fit_witness:
  "\<exists>s'. tegrabl_malloc 40 fresh = Some (0x1018, s') \<and> heap_ok s' 0 [(0x1040, 0xC0)] [(0x1018, 0x1000, 0x40)]"
  using malloc_first_fit [OF heap_init_ok [OF fresh_init], of 40]
  by (auto simp: fit_alloc_def need_def split_got_def split_rest_def)

text \<open>
  C12. \<open>tegrabl_free\<close> refines insertion with coalescing: freeing any block handed out always returns, the
  free blocks are then those before with the block inserted at its place and joined with the free
  blocks adjacent to it, the free size grows by the size of the block, and no byte outside the free
  blocks and the block changes.
\<close>

theorem free_merges:
  assumes "heap_ok s 0 F (A @ (p, t, n) # B)"
  shows "\<exists>s'. tegrabl_free p s = Some s' \<and> heap_ok s' 0 (release t n F) (A @ B) \<and>
    unat (free_size (hinfo s' 0)) = unat (free_size (hinfo s 0)) + unat n \<and>
    (\<forall>x. off_free F x \<and> (x < unat t \<or> unat t + unat n \<le> x) \<longrightarrow> hmem s' x = hmem s x)"
proof -
  from free_ok_block [OF assms] obtain s' where S: "tegrabl_free p s = Some s'" "heap_ok s' 0 (release t n F) (A @ B)"
    "elsewhere 0 (\<lambda>x. off_free F x \<and> (x < unat t \<or> unat t + unat n \<le> x)) s s'" by blast
  have "unat (free_size (hinfo s' 0)) = total_free (release t n F)" "unat (free_size (hinfo s 0)) = total_free F"
    using S(2) assms by (simp_all add: heap_ok_def heap_free_def)
  then show ?thesis using S release_total [OF assms] by (auto simp: elsewhere_def)
qed

theorem free_merges_witness:
  "\<exists>s1 s2. tegrabl_malloc 40 fresh = Some (0x1018, s1) \<and> tegrabl_free 0x1018 s1 = Some s2 \<and>
     heap_ok s2 0 [(0x1000, 0x100)] []"
proof -
  obtain s1 where m: "tegrabl_malloc 40 fresh = Some (0x1018, s1)"
    and ok: "heap_ok s1 0 [(0x1040, 0xC0)] ([] @ (0x1018, 0x1000, 0x40) # [])" using fresh_malloc by auto
  show ?thesis using free_merges [OF ok] m by auto
qed

text \<open>
  C22. Round trip: freeing what \<open>tegrabl_malloc\<close> just returned restores exactly the free blocks and the
  free size from before.
\<close>

theorem malloc_free_restores:
  assumes "heap_ok s 0 F A" and "tegrabl_malloc sz s = Some (p, s1)" and "p \<noteq> 0"
  shows "\<exists>s2. tegrabl_free p s1 = Some s2 \<and> heap_ok s2 0 F A \<and> free_size (hinfo s2 0) = free_size (hinfo s 0)"
proof -
  from malloc_spec [OF assms(1), of sz] assms(2,3) obtain a g F' where
    fit: "fit_alloc (need (unat sz)) F = Some (a, g, F')" and p: "p = a + 24" and ok1: "heap_ok s1 0 F' ((p, a, g) # A)"
    and el: "elsewhere 0 (off_free F) s s1"
    by (auto simp: tegrabl_malloc_def split: option.splits if_splits)
  from free_ok_block [of s1 F' "[]" p a g A] ok1 obtain s2 where S: "tegrabl_free p s1 = Some s2" "heap_ok s2 0 (release a g F') A"
    by auto
  have "need (unat sz) < 2 ^ 64" using fit_alloc_Some [OF fit] unat_u64_bound by (auto intro: less_trans)
  then have "release a g F' = F"
    using fit_release [OF fit, of "unat (heap_start (hinfo s 0))" "unat (heap_end (hinfo s 0))"] assms(1) ok1 el need_le(2)
      unat_u64_bound [of "heap_end (hinfo s 0)"]
    by (simp add: heap_ok_def heap_free_def elsewhere_def)
  then have "heap_ok s2 0 F A" using S(2) by simp
  moreover from this have "free_size (hinfo s2 0) = free_size (hinfo s 0)"
    using assms(1) by (simp add: heap_ok_def heap_free_def word_unat_eq_iff)
  ultimately show ?thesis using S(1) by blast
qed

theorem malloc_free_restores_witness:
  "\<exists>s1 s2. tegrabl_malloc 40 fresh = Some (0x1018, s1) \<and> tegrabl_free 0x1018 s1 = Some s2 \<and>
     free_size (hinfo s2 0) = free_size (hinfo fresh 0)"
proof -
  obtain s1 where m: "tegrabl_malloc 40 fresh = Some (0x1018, s1)" using fresh_malloc by auto
  show ?thesis using malloc_free_restores [OF fresh_ok m] m by auto
qed

text \<open>
  C21. \<open>tegrabl_memalign\<close> with a nonzero alignment, of any value, and a valid size returns NULL, with nothing
  changed, exactly when no free block has room for the gap and the block, and otherwise a
  pointer divisible by the alignment with the requested size behind it inside a block of its own; the
  heap stays well formed and no byte outside the free blocks changes.
\<close>

theorem memalign_aligned:
  assumes "heap_ok s 0 F A" and "is_size_alignment_valid (hinfo s 0) al sz" and "al \<noteq> 0" and "sz \<noteq> 0"
    and "unat (max_size (hinfo s 0)) + 64 \<le> 2 ^ 64"
  shows "case align_alloc (unat al) (need (unat sz)) F of
      None \<Rightarrow> tegrabl_memalign al sz s = Some (0, s)
    | Some (p, t, g, F') \<Rightarrow> \<exists>s'. tegrabl_memalign al sz s = Some (p, s') \<and> heap_ok s' 0 F' ((p, t, g) # A) \<and>
        unat al dvd unat p \<and> unat p + unat sz \<le> unat t + unat g \<and>
        (\<forall>x. off_free F x \<longrightarrow> hmem s' x = hmem s x)"
  using memalign_spec [OF assms(1-3,5)] assms(2,4)
  by (auto simp: tegrabl_memalign_def elsewhere_def split: option.splits)

theorem memalign_aligned_witness:
  "\<exists>s'. tegrabl_memalign 64 16 fresh = Some (0x1040, s') \<and>
     heap_ok s' 0 [(0x1000, 40), (0x1050, 176)] [(0x1040, 0x1028, 40)]"
  using memalign_aligned [OF fresh_ok, of 64 16]
  by (simp add: fresh_info is_size_alignment_valid_def align_alloc_def need_def gap_def split_rest_def) blast

text \<open>
  \<open>tegrabl_memalign\<close> loses memory: when the gap in front goes back to the free list and at most 32 bytes
  remain behind, these belong to no block any more. On a fresh heap of 256 bytes, allocating 160 bytes
  aligned to 64 and freeing them leaves 224 bytes, and a request for 200 bytes that the fresh heap
  serves fails afterwards.
\<close>

theorem memalign_leaks:
  assumes "tegrabl_heap_init 0 0x1000 0x100 s0 = (0, s)"
  shows "\<exists>p s1 s2. tegrabl_memalign 64 160 s = Some (p, s1) \<and> p \<noteq> 0 \<and> tegrabl_free p s1 = Some s2 \<and>
    heap_ok s2 0 [(0x1000, 0xE0)] [] \<and> max_size (hinfo s2 0) = 0x100 \<and>
    tegrabl_malloc 200 s2 = Some (0, s2) \<and> (\<exists>q s3. tegrabl_malloc 200 s = Some (q, s3) \<and> q \<noteq> 0)"
proof -
  have ok: "heap_ok s 0 [(0x1000, 0x100)] []" by (rule heap_init_ok [OF assms]) simp_all
  have mx: "max_size (hinfo s 0) = 0x100" using assms by (auto simp: tegrabl_heap_init_def split: if_splits)
  have v: "is_size_alignment_valid (hinfo s 0) 64 160" by (simp add: is_size_alignment_valid_def mx)
  have al: "align_alloc 64 (need 160) [(0x1000, 0x100)] = Some (0x1040, 0x1028, 184, [(0x1000, 40)])"
    by (simp add: align_alloc_def need_def gap_def split_rest_def)
  from memalign_spec [OF ok v] al mx obtain s1 where S1: "tegrabl_memalign 64 160 s = Some (0x1040, s1)"
    "heap_ok s1 0 [(0x1000, 40)] [(0x1040, 0x1028, 184)]" "same_heap 0 s s1"
    using v by (auto simp: tegrabl_memalign_def dest: elsewhere_same)
  from free_ok_block [of s1 "[(0x1000, 40)]" "[]" "0x1040" "0x1028" 184 "[]"] S1(2) obtain s2 where
    S2: "tegrabl_free 0x1040 s1 = Some s2" "heap_ok s2 0 [(0x1000, 0xE0)] []" "same_heap 0 s1 s2"
    by (auto dest: elsewhere_same)
  have "tegrabl_malloc 200 s2 = Some (0, s2)"
    using malloc_spec [OF S2(2), of 200] by (simp add: tegrabl_malloc_def fit_alloc_def need_def)
  moreover have "\<exists>q s3. tegrabl_malloc 200 s = Some (q, s3) \<and> q \<noteq> 0"
    using malloc_spec [OF ok, of 200] by (auto simp: tegrabl_malloc_def fit_alloc_def need_def)
  ultimately show ?thesis using S1 S2 mx by (auto simp: same_heap_def)
qed

text \<open>
  Freeing a block of the DMA heap, outside the default heap, never returns exactly when the DMA heap
  has no free block left: the call is then redirected to the default heap, whose checks take the
  block for a corrupted one.
\<close>

theorem dma_dealloc_hangs_when_exhausted:
  assumes "heap_ok s 1 F (A @ (p, t, n) # B)"
    and "unat t + unat n \<le> unat (heap_start (hinfo s 0)) \<or> unat (heap_end (hinfo s 0)) \<le> unat t"
  shows "tegrabl_dealloc 1 p s = None \<longleftrightarrow> F = []"
proof
  assume F: "F = []"
  let ?i = "hinfo s 1"
  have ub: "used_block (hmem s) (unat (heap_start ?i)) (unat (heap_end ?i)) (p, t, n)"
    using assms(1) unfolding heap_ok_def by (blast intro: used_ok_remove(1))
  then have h: "f_prev (p - 24) (hmem s) = t" "f_size (p - 24) (hmem s) = n" and b: "32 \<le> unat n" "unat t + unat n \<le> unat (heap_end ?i)"
    and p: "p \<noteq> 0" by (auto simp: used_block_def used_hdr_def)
  have e: "unat (t + n) = unat t + unat n" using b(2) unat_u64_bound [of "heap_end ?i"] by (simp add: unat_word_ariths)
  have "t < heap_start (hinfo s 0) \<or> t + n > heap_end (hinfo s 0)"
    using assms(2) b(1) e by (auto simp: word_less_nat_alt)
  then have "validate_allocated_block (p - 24) (hinfo s 0) (hmem s) = None"
    using h by (auto simp: validate_allocated_block_def hang_if_def Let_def)
  moreover have "effective_type 1 s = 0" using assms(1) F by (simp add: effective_type_def heap_ok_def heap_free_def)
  ultimately show "tegrabl_dealloc 1 p s = None" using p by (simp add: tegrabl_dealloc_def tegrabl_generic_free_def)
next
  assume none: "tegrabl_dealloc 1 p s = None"
  show "F = []"
  proof (rule ccontr)
    assume "F \<noteq> []"
    then have "head_of F 0 \<noteq> 0"
      using assms(1) head_in [of F 0] chain_nonnull [of "hmem s" 0 F 0] by (auto simp: heap_ok_def heap_free_def)
    then have "effective_type 1 s = 1" using assms(1) by (simp add: effective_type_def heap_ok_def heap_free_def)
    then show False using none free_spec [OF assms(1)] by (auto simp: tegrabl_dealloc_def free_and_update_def)
  qed
qed

end
