(* ===== verification/List_Nodes.thy ===== *)
theory List_Nodes
  imports Prelude
begin

text \<open>
  The doubly linked lists of \<open>include/lib/list.h\<close>. A list is a head node linked into a circle with
  the nodes of its elements. The store of links maps a node to its \<open>prev\<close> and \<open>next\<close> pointers,
  \<open>None\<close> standing for NULL; a function whose result is \<open>None\<close> has followed a NULL pointer. The
  operations are translated statement by statement; \<open>circ s h xs\<close> says that the circle through the
  head \<open>h\<close> is the list \<open>xs\<close>, and the lemmas show that each operation is the expected operation on
  lists and leaves every other list alone.
\<close>

section \<open>Links and operations\<close>

record 'n links =
  nprev :: "'n \<Rightarrow> 'n option"
  nnext :: "'n \<Rightarrow> 'n option"

definition set_prev_link :: "'n \<Rightarrow> 'n option \<Rightarrow> 'n links \<Rightarrow> 'n links" where
  "set_prev_link n p s = s\<lparr>nprev := (nprev s)(n := p)\<rparr>"

definition set_next_link :: "'n \<Rightarrow> 'n option \<Rightarrow> 'n links \<Rightarrow> 'n links" where
  "set_next_link n p s = s\<lparr>nnext := (nnext s)(n := p)\<rparr>"

definition list_initialize :: "'n \<Rightarrow> 'n links \<Rightarrow> 'n links" where
  "list_initialize list s = set_prev_link list (Some list) (set_next_link list (Some list) s)"

definition list_clear_node :: "'n \<Rightarrow> 'n links \<Rightarrow> 'n links" where
  "list_clear_node item s = set_prev_link item None (set_next_link item None s)"

definition list_in_list :: "'n \<Rightarrow> 'n links \<Rightarrow> bool" where
  "list_in_list item s = (\<not> (nprev s item = None \<and> nnext s item = None))"

definition list_add_head :: "'n \<Rightarrow> 'n \<Rightarrow> 'n links \<Rightarrow> 'n links option" where
  "list_add_head list item s =
     (let s1 = set_next_link item (nnext s list) s;
          s2 = set_prev_link item (Some list) s1
      in case nnext s2 list of
           None \<Rightarrow> None
         | Some first \<Rightarrow> Some (set_next_link list (Some item) (set_prev_link first (Some item) s2)))"

definition list_add_tail :: "'n \<Rightarrow> 'n \<Rightarrow> 'n links \<Rightarrow> 'n links option" where
  "list_add_tail list item s =
     (let s1 = set_prev_link item (nprev s list) s;
          s2 = set_next_link item (Some list) s1
      in case nprev s2 list of
           None \<Rightarrow> None
         | Some tl_node \<Rightarrow> Some (set_prev_link list (Some item) (set_next_link tl_node (Some item) s2)))"

definition list_delete :: "'n \<Rightarrow> 'n links \<Rightarrow> 'n links option" where
  "list_delete item s =
     (case nnext s item of
        None \<Rightarrow> None
      | Some nx \<Rightarrow>
          let s1 = set_prev_link nx (nprev s item) s
          in case nprev s1 item of
               None \<Rightarrow> None
             | Some pv \<Rightarrow>
                 let s2 = set_next_link pv (nnext s1 item) s1
                 in Some (set_prev_link item None (set_next_link item None s2)))"

text \<open>Removing returns the removed node, \<open>None\<close> when the list is empty.\<close>

definition list_remove_head :: "'n \<Rightarrow> 'n links \<Rightarrow> ('n option \<times> 'n links) option" where
  "list_remove_head list s =
     (if nnext s list \<noteq> Some list then
        (case nnext s list of
           None \<Rightarrow> None
         | Some item \<Rightarrow> map_option (Pair (Some item)) (list_delete item s))
      else Some (None, s))"

definition list_remove_tail :: "'n \<Rightarrow> 'n links \<Rightarrow> ('n option \<times> 'n links) option" where
  "list_remove_tail list s =
     (if nprev s list \<noteq> Some list then
        (case nprev s list of
           None \<Rightarrow> None
         | Some item \<Rightarrow> map_option (Pair (Some item)) (list_delete item s))
      else Some (None, s))"

definition list_peek_head :: "'n \<Rightarrow> 'n links \<Rightarrow> 'n option" where
  "list_peek_head list s = (if nnext s list \<noteq> Some list then nnext s list else None)"

definition list_peek_tail :: "'n \<Rightarrow> 'n links \<Rightarrow> 'n option" where
  "list_peek_tail list s = (if nprev s list \<noteq> Some list then nprev s list else None)"

definition list_prev :: "'n \<Rightarrow> 'n \<Rightarrow> 'n links \<Rightarrow> 'n option" where
  "list_prev list item s = (if nprev s item \<noteq> Some list then nprev s item else None)"

definition list_next :: "'n \<Rightarrow> 'n \<Rightarrow> 'n links \<Rightarrow> 'n option" where
  "list_next list item s = (if nnext s item \<noteq> Some list then nnext s item else None)"

text \<open>The wrapping variants step over the head.\<close>

definition list_prev_wrap :: "'n \<Rightarrow> 'n \<Rightarrow> 'n links \<Rightarrow> 'n option" where
  "list_prev_wrap list item s =
     (if nprev s item \<noteq> Some list then nprev s item
      else if nprev s list \<noteq> Some list then nprev s list
      else None)"

definition list_next_wrap :: "'n \<Rightarrow> 'n \<Rightarrow> 'n links \<Rightarrow> 'n option" where
  "list_next_wrap list item s =
     (if nnext s item \<noteq> Some list then nnext s item
      else if nnext s list \<noteq> Some list then nnext s list
      else None)"

definition list_is_empty :: "'n \<Rightarrow> 'n links \<Rightarrow> bool" where
  "list_is_empty list s = (nnext s list = Some list)"

section \<open>The list a circle stands for\<close>

fun linked :: "'n links \<Rightarrow> 'n list \<Rightarrow> bool" where
  "linked s (a # b # ns) \<longleftrightarrow> nnext s a = Some b \<and> nprev s b = Some a \<and> linked s (b # ns)"
| "linked s _ \<longleftrightarrow> True"

definition circ :: "'n links \<Rightarrow> 'n \<Rightarrow> 'n list \<Rightarrow> bool" where
  "circ s h xs \<longleftrightarrow> distinct (h # xs) \<and> linked s (h # xs @ [h])"

lemma link_simps [simp]:
  "nprev (set_prev_link n p s) = (nprev s)(n := p)" "nnext (set_prev_link n p s) = nnext s"
  "nprev (set_next_link n p s) = nprev s" "nnext (set_next_link n p s) = (nnext s)(n := p)"
  by (simp_all add: set_prev_link_def set_next_link_def)

lemma linked_split:
  "linked s (as @ b # cs) \<longleftrightarrow> linked s (as @ [b]) \<and> linked s (b # cs)"
  by (induction as rule: induct_list012) auto

lemma linked_cong:
  assumes "\<And>n. n \<in> set (butlast ns) \<Longrightarrow> nnext t n = nnext s n"
    and "\<And>n. n \<in> set (tl ns) \<Longrightarrow> nprev t n = nprev s n"
  shows "linked t ns = linked s ns"
  using assms by (induction ns rule: induct_list012) (auto split: if_splits)

definition same_links_off :: "'n set \<Rightarrow> 'n links \<Rightarrow> 'n links \<Rightarrow> bool" where
  "same_links_off A s t \<longleftrightarrow> (\<forall>n. n \<notin> A \<longrightarrow> nprev t n = nprev s n \<and> nnext t n = nnext s n)"

lemma circ_other:
  assumes "circ s h xs" and "same_links_off A s t" and "A \<inter> set (h # xs) = {}"
  shows "circ t h xs"
proof -
  have "linked t (h # xs @ [h]) = linked s (h # xs @ [h])"
    using assms(2,3) by (intro linked_cong) (auto simp: same_links_off_def butlast_append split: if_splits)
  then show ?thesis using assms(1) by (simp add: circ_def)
qed

lemma same_links_off_trans:
  "same_links_off A s t \<Longrightarrow> same_links_off A t u \<Longrightarrow> same_links_off A s u"
  by (simp add: same_links_off_def)

lemma same_links_off_mono: "same_links_off A s t \<Longrightarrow> A \<subseteq> B \<Longrightarrow> same_links_off B s t"
  by (auto simp: same_links_off_def)

lemma circ_empty_iff: "circ s h [] \<longleftrightarrow> nnext s h = Some h \<and> nprev s h = Some h"
  by (simp add: circ_def)

lemma circ_next_head: "circ s h xs \<Longrightarrow> nnext s h = Some (hd (xs @ [h]))"
  by (cases xs) (auto simp: circ_def)

lemma linked_last: "linked s (as @ [a, b]) \<Longrightarrow> nnext s a = Some b \<and> nprev s b = Some a"
  using linked_split [of s as a "[b]"] by simp

lemma circ_prev_head: "circ s h xs \<Longrightarrow> nprev s h = Some (last (h # xs))"
  using linked_last [of s "h # butlast xs" "last xs" h] by (cases xs rule: rev_cases) (auto simp: circ_def)

lemma circ_mid:
  assumes "circ s h (as @ x # bs)"
  shows "nnext s x = Some (hd (bs @ [h]))" and "nprev s x = Some (last (h # as))"
proof -
  have "linked s ((h # as) @ x # (bs @ [h]))" using assms by (simp add: circ_def)
  then have l: "linked s ((h # as) @ [x])" and r: "linked s (x # bs @ [h])"
    using linked_split [of s "h # as" x "bs @ [h]"] by simp_all
  show "nnext s x = Some (hd (bs @ [h]))" using r by (cases bs) auto
  show "nprev s x = Some (last (h # as))"
    using l linked_last [of s "butlast (h # as)" "last (h # as)" x]
    by (metis append_butlast_last_id append_Cons append_assoc append_Nil list.distinct(1))
qed

section \<open>Each operation on lists\<close>

lemma list_initialize_circ:
  "circ (list_initialize h s) h [] \<and> same_links_off {h} s (list_initialize h s)"
  by (simp add: circ_empty_iff list_initialize_def same_links_off_def)

lemma list_add_head_circ:
  assumes "circ s h xs" and "x \<notin> set (h # xs)"
  obtains t where "list_add_head h x s = Some t" "circ t h (x # xs)"
    "same_links_off (insert x (set (h # xs))) s t"
proof -
  define f where "f = hd (xs @ [h])"
  define t where "t = set_next_link h (Some x) (set_prev_link f (Some x) (set_prev_link x (Some h) (set_next_link x (Some f) s)))"
  have f: "nnext s h = Some f" using circ_next_head [OF assms(1)] by (simp add: f_def)
  have fin: "f \<in> set (h # xs)" by (cases xs) (auto simp: f_def)
  have t: "list_add_head h x s = Some t"
    using assms(2) f by (auto simp: list_add_head_def t_def)
  have old: "linked s (h # xs @ [h])" "distinct (h # xs)" using assms(1) by (simp_all add: circ_def)
  have "circ t h (x # xs)"
  proof (cases xs)
    case Nil
    then show ?thesis using assms(2) by (auto simp: circ_def t_def f_def)
  next
    case (Cons y ys)
    have "linked t (y # ys @ [h]) = linked s (y # ys @ [h])"
      using Cons old(2) assms(2)
      by (intro linked_cong) (auto simp: t_def f_def butlast_append split: if_splits)
    then show ?thesis using Cons old assms(2) by (auto simp: circ_def t_def f_def)
  qed
  moreover have "same_links_off (insert x (set (h # xs))) s t"
    using fin by (auto simp: same_links_off_def t_def)
  ultimately show thesis using that t by blast
qed

lemma list_add_tail_circ:
  assumes "circ s h xs" and "x \<notin> set (h # xs)"
  obtains t where "list_add_tail h x s = Some t" "circ t h (xs @ [x])"
    "same_links_off (insert x (set (h # xs))) s t"
proof -
  define l where "l = last (h # xs)"
  define t where "t = set_prev_link h (Some x) (set_next_link l (Some x) (set_next_link x (Some h) (set_prev_link x (Some l) s)))"
  have l: "nprev s h = Some l" using circ_prev_head [OF assms(1)] by (simp add: l_def)
  have lin: "l \<in> set (h # xs)" using last_in_set [of "h # xs"] unfolding l_def by blast
  have t: "list_add_tail h x s = Some t"
    using assms(2) l by (auto simp: list_add_tail_def t_def)
  define ini where "ini = butlast (h # xs)"
  have hx: "h # xs = ini @ [l]" unfolding ini_def l_def by (simp del: butlast.simps last.simps)
  have old: "linked s (ini @ [l, h])" "distinct (h # xs)" using assms(1) hx
    by (simp_all add: circ_def) (metis append.assoc append_Cons append_Nil hx)
  have "linked s (ini @ [l])" using old(1) linked_split [of s ini l "[h]"] by simp
  moreover have "linked t (ini @ [l]) = linked s (ini @ [l])"
  proof (rule linked_cong)
    fix n
    have d: "distinct (ini @ [l])" using old(2) hx by metis
    have x: "x \<notin> set (ini @ [l])" using assms(2) hx by metis
    { assume "n \<in> set (butlast (ini @ [l]))"
      then show "nnext t n = nnext s n" using d x by (auto simp: t_def) }
    { assume n: "n \<in> set (tl (ini @ [l]))"
      then have "n \<in> set xs" using hx by (metis list.sel(3))
      then have "n \<noteq> h" "n \<noteq> x" using old(2) assms(2) by auto
      then show "nprev t n = nprev s n" by (simp add: t_def) }
  qed
  moreover have "linked t [l, x, h]" using assms(2) lin by (auto simp: t_def)
  ultimately have "linked t (ini @ l # [x, h])" using linked_split [of t ini l "[x, h]"] by simp
  then have "linked t (h # (xs @ [x]) @ [h])" using hx
    by (metis append.assoc append_Cons append_Nil)
  then have "circ t h (xs @ [x])" using old(2) assms(2) by (auto simp: circ_def)
  moreover have "same_links_off (insert x (set (h # xs))) s t"
    using lin by (auto simp: same_links_off_def t_def)
  ultimately show thesis using that t by blast
qed

lemma list_delete_circ:
  assumes "circ s h (as @ x # bs)"
  obtains t where "list_delete x s = Some t" "circ t h (as @ bs)"
    "same_links_off (set (h # as @ x # bs)) s t" "nprev t x = None" "nnext t x = None"
proof -
  define p where "p = last (h # as)"
  define q where "q = hd (bs @ [h])"
  define t where "t = set_prev_link x None (set_next_link x None (set_next_link p (Some q) (set_prev_link q (Some p) s)))"
  have pq: "nnext s x = Some q" "nprev s x = Some p"
    using circ_mid [OF assms] by (simp_all add: p_def q_def)
  have d: "distinct (h # as @ x # bs)" using assms by (simp add: circ_def)
  have pin: "p \<in> set (h # as)" using last_in_set [of "h # as"] unfolding p_def by blast
  have qin: "q \<in> set (h # bs)" by (cases bs) (auto simp: q_def)
  have xpq: "x \<noteq> p" "x \<noteq> q" using d pin qin by auto
  have t: "list_delete x s = Some t"
    using pq xpq by (auto simp: list_delete_def t_def)
  define ini where "ini = butlast (h # as)"
  have ha: "h # as = ini @ [p]" unfolding ini_def p_def by (simp del: butlast.simps last.simps)
  have old: "linked s (h # as @ x # bs @ [h])" using assms by (simp add: circ_def)
  have L: "linked s (ini @ [p])"
    using old ha linked_split [of s ini p "x # bs @ [h]"]
    by (metis append.assoc append_Cons append_Nil)
  have R: "linked s (bs @ [h])"
    using old linked_split [of s "h # as @ [x]" "hd (bs @ [h])" "tl (bs @ [h])"]
    by (cases bs) auto
  have tl: "linked t (ini @ [p])"
  proof -
    have "linked t (ini @ [p]) = linked s (ini @ [p])"
    proof (rule linked_cong)
      fix n
      { assume n: "n \<in> set (butlast (ini @ [p]))"
        have "distinct (ini @ [p])" using d ha [symmetric] by simp
        then have "n \<noteq> p" using n by auto
        moreover have "n \<in> set (h # as)" using n ha by (metis in_set_butlastD)
        ultimately have "n \<noteq> p" "n \<noteq> x" using d by auto
        then show "nnext t n = nnext s n" by (simp add: t_def) }
      { assume n: "n \<in> set (tl (ini @ [p]))"
        then have "n \<in> set as" using ha by (metis list.sel(3))
        then have "n \<noteq> q" "n \<noteq> x" using d qin by auto
        then show "nprev t n = nprev s n" by (simp add: t_def) }
    qed
    then show ?thesis using L by simp
  qed
  have tr: "linked t (q # tl (bs @ [h]))"
  proof -
    have "linked t (bs @ [h]) = linked s (bs @ [h])"
      using d pin qin
      by (intro linked_cong; cases bs) (auto simp: t_def q_def butlast_append split: if_splits)
    moreover have "q # tl (bs @ [h]) = bs @ [h]" by (simp add: q_def)
    ultimately show ?thesis using R by metis
  qed
  have "linked t [p, q]" using xpq by (auto simp: t_def)
  with tr have "linked t (p # q # tl (bs @ [h]))" by simp
  with tl have "linked t (ini @ p # (q # tl (bs @ [h])))"
    using linked_split [of t ini p "q # tl (bs @ [h])"] by simp
  moreover have "q # tl (bs @ [h]) = bs @ [h]" by (simp add: q_def)
  moreover have "ini @ p # ys = h # as @ ys" for ys
    using arg_cong [OF ha, of "\<lambda>zs. zs @ ys"] by simp
  ultimately have "linked t (h # as @ bs @ [h])" by metis
  then have "circ t h (as @ bs)" using d by (auto simp: circ_def)
  moreover have "same_links_off (set (h # as @ x # bs)) s t"
    using pin qin by (auto simp: same_links_off_def t_def)
  moreover have "nprev t x = None" "nnext t x = None" by (simp_all add: t_def)
  ultimately show thesis using that t by blast
qed

lemma list_remove_head_circ:
  assumes "circ s h (x # xs)"
  obtains t where "list_remove_head h s = Some (Some x, t)" "circ t h xs"
    "same_links_off (set (h # x # xs)) s t"
proof -
  have "nnext s h = Some x" "x \<noteq> h" using assms by (auto simp: circ_def)
  moreover obtain t where "list_delete x s = Some t" "circ t h xs" "same_links_off (set (h # x # xs)) s t"
    using list_delete_circ [of s h "[]" x xs] assms by auto
  ultimately show thesis using that by (simp add: list_remove_head_def)
qed

lemma list_remove_head_empty: "circ s h [] \<Longrightarrow> list_remove_head h s = Some (None, s)"
  by (simp add: list_remove_head_def circ_def)

text \<open>Deleting a node and adding it at the tail moves it there.\<close>

lemma move_to_tail_circ:
  assumes "circ s h (as @ x # bs)"
  obtains t u where "list_delete x s = Some t" "list_add_tail h x t = Some u" "circ u h (as @ bs @ [x])"
    "same_links_off (set (h # as @ x # bs)) s u"
proof -
  have d: "distinct (h # as @ x # bs)" using assms by (simp add: circ_def)
  obtain t where t: "list_delete x s = Some t" "circ t h (as @ bs)"
    "same_links_off (set (h # as @ x # bs)) s t"
    using list_delete_circ [OF assms] by blast
  obtain u where u: "list_add_tail h x t = Some u" "circ u h ((as @ bs) @ [x])"
    "same_links_off (insert x (set (h # as @ bs))) t u"
    using list_add_tail_circ [OF t(2), of x] d by auto
  have "same_links_off (set (h # as @ x # bs)) t u"
    using u(3) by (rule same_links_off_mono) auto
  then show thesis using that t u same_links_off_trans by (metis append.assoc)
qed

end
