(* ===== verification/Bcache.thy ===== *)
theory Bcache
  imports List_Nodes Blockdev
begin

text \<open>
  The block cache of the file systems (\<open>lib/bcache/bcache.c\<close>): a fixed number of blocks, each on the
  free list or on the list of cached blocks in order of use, with reference counts and dirty flags.

  The links of the two lists are kept as in the code: the nodes are the two list heads and the
  \<open>node\<close> field of each block, and every list operation goes through \<open>List_Nodes\<close>. A block's buffer
  is its address and its contents; a pointer returned to the caller is the index of the block. The
  result \<open>None\<close> of an operation means that it does not return: a NULL pointer or a list head is used
  as a block, a list walk does not end, or an assertion stops the machine. \<open>DEBUG_ASSERT\<close> belongs to
  the environment; the flag \<open>dbg\<close> says whether it is compiled in. The block device is named by its
  handle and lives in the state of the block device layer.
\<close>

section \<open>Data\<close>

datatype bc_node = Free_list | Lru_list | Node nat

record bcache_block =
  blocknum :: bnum_t
  ref_count :: int
  is_dirty :: bool
  ptr :: u64
  bdata :: bytes

record bcache_stats =
  hits :: u32
  depth :: u32
  misses :: u32
  reads :: u32
  writes :: u32

record bcache =
  cdev :: "nat option"
  cblock_size :: u64
  cache_count :: int
  fs_offset :: off_t
  stats :: bcache_stats
  clinks :: "bc_node links"
  blocks :: "bcache_block list"

definition no_stats :: bcache_stats where
  "no_stats = \<lparr>hits = 0, depth = 0, misses = 0, reads = 0, writes = 0\<rparr>"

definition upd_block :: "nat \<Rightarrow> (bcache_block \<Rightarrow> bcache_block) \<Rightarrow> bcache \<Rightarrow> bcache" where
  "upd_block i f cache = cache\<lparr>blocks := (blocks cache)[i := f (blocks cache ! i)]\<rparr>"

abbreviation blk :: "bcache \<Rightarrow> nat \<Rightarrow> bcache_block" where
  "blk cache i \<equiv> blocks cache ! i"

section \<open>Creating and destroying a cache\<close>

text \<open>
  \<open>alloc k\<close> is the result of the \<open>k\<close>-th allocation of the call, \<open>junk\<close> the previous contents of
  the allocated array of blocks. The blocks are initialised and put on the free list one by one.
  When the buffer of block \<open>i\<close> cannot be allocated, the clean-up frees the buffer pointers of all
  blocks: those after \<open>i\<close> still hold the previous contents of the array, so the call frees arbitrary
  pointers (result \<open>None\<close>) unless \<open>i\<close> is the last block.
\<close>

fun create_blocks ::
  "(nat \<Rightarrow> u64 \<Rightarrow> u64 option) \<Rightarrow> (u64 \<Rightarrow> bytes) \<Rightarrow> nat \<Rightarrow> nat \<Rightarrow> bcache \<Rightarrow> bcache option option"
where
  "create_blocks alloc mem 0 i cache = Some (Some cache)"
| "create_blocks alloc mem (Suc n) i cache =
     (case alloc (i + 2) (cblock_size cache) of
        None \<Rightarrow> (if n = 0 then Some None else None)
      | Some p \<Rightarrow>
          let cache = upd_block i (\<lambda>b. b\<lparr>ref_count := 0, is_dirty := False, ptr := p, bdata := mem p\<rparr>) cache
          in case list_add_head Free_list (Node i) (clinks cache) of
               None \<Rightarrow> None
             | Some l \<Rightarrow> create_blocks alloc mem n (Suc i) (cache\<lparr>clinks := l\<rparr>))"

definition bcache_create ::
  "(nat \<Rightarrow> u64 \<Rightarrow> u64 option) \<Rightarrow> (u64 \<Rightarrow> bytes) \<Rightarrow> bcache_block list \<Rightarrow> bc_node links \<Rightarrow>
   nat option \<Rightarrow> u64 \<Rightarrow> int \<Rightarrow> off_t \<Rightarrow> bcache option option"
where
  "bcache_create alloc mem junk links dev block_size nblocks offset =
     (case alloc 0 96 of
        None \<Rightarrow> Some None
      | Some _ \<Rightarrow>
          let links = list_initialize Lru_list (list_initialize Free_list links)
          in case alloc 1 (40 * of_int nblocks) of
               None \<Rightarrow> Some None
             | Some _ \<Rightarrow>
                 create_blocks alloc mem (nat nblocks) 0
                   \<lparr>cdev = dev, cblock_size = block_size, cache_count = nblocks, fs_offset = offset,
                    stats = no_stats, clinks = links, blocks = take (nat nblocks) junk\<rparr>)"

text \<open>\<open>bcache_destroy\<close> returns the pointers it frees, in order (\<open>None\<close> for the cache itself); the
  array of blocks is not among them.\<close>

definition bcache_destroy :: "bool \<Rightarrow> bcache \<Rightarrow> u64 option list option" where
  "bcache_destroy dbg cache =
     (let bs = take (nat (cache_count cache)) (blocks cache)
      in if dbg \<and> \<not> list_all (\<lambda>b. ref_count b = 0) bs then None
         else Some (map (\<lambda>b. Some (ptr b)) bs @ [None]))"

section \<open>Finding and replacing blocks\<close>

definition flush_block ::
  "alloc_env \<Rightarrow> nat \<Rightarrow> bcache \<Rightarrow> 'd bd_state \<Rightarrow> bool \<times> bcache \<times> 'd bd_state"
where
  "flush_block alloc i cache st =
     (case tegrabl_blockdev_write alloc (cdev cache) (ptr (blk cache i)) (bdata (blk cache i))
             (ucast (blocknum (blk cache i)) * cblock_size cache) (cblock_size cache) st of
        (err, st) \<Rightarrow>
          if err \<noteq> TEGRABL_NO_ERROR then (False, cache, st)
          else
            let cache = upd_block i (\<lambda>b. b\<lparr>is_dirty := False\<rparr>) cache
            in (True, cache\<lparr>stats := (stats cache)\<lparr>writes := writes (stats cache) + 1\<rparr>\<rparr>, st))"

definition flush_if_dirty ::
  "alloc_env \<Rightarrow> nat \<Rightarrow> bcache \<Rightarrow> 'd bd_state \<Rightarrow> bool \<times> bcache \<times> 'd bd_state"
where
  "flush_if_dirty alloc i cache st =
     (if is_dirty (blk cache i) then flush_block alloc i cache st else (True, cache, st))"

text \<open>
  \<open>list_for_every_entry\<close> over the list of cached blocks: from the node \<open>p\<close> on, the first block that
  satisfies \<open>test\<close>, and the number of blocks looked at.
\<close>

partial_function (option) lru_walk ::
  "(bcache_block \<Rightarrow> bool) \<Rightarrow> bcache \<Rightarrow> bc_node option \<Rightarrow> u32 \<Rightarrow> (nat option \<times> u32) option"
where
  "lru_walk test cache p n =
     (case p of
        None \<Rightarrow> None
      | Some Lru_list \<Rightarrow> Some (None, n)
      | Some Free_list \<Rightarrow> None
      | Some (Node i) \<Rightarrow>
          if i \<ge> length (blocks cache) then None
          else if test (blk cache i) then Some (Some i, n + 1)
          else lru_walk test cache (nnext (clinks cache) (Node i)) (n + 1))"

definition move_to_tail :: "nat \<Rightarrow> bcache \<Rightarrow> bcache option" where
  "move_to_tail i cache =
     (case list_delete (Node i) (clinks cache) of
        None \<Rightarrow> None
      | Some l \<Rightarrow> map_option (\<lambda>l. cache\<lparr>clinks := l\<rparr>) (list_add_tail Lru_list (Node i) l))"

definition find_block :: "bnum_t \<Rightarrow> bcache \<Rightarrow> (nat option \<times> bcache) option" where
  "find_block num cache =
     (case lru_walk (\<lambda>b. blocknum b = num) cache (nnext (clinks cache) Lru_list) 0 of
        None \<Rightarrow> None
      | Some (None, _) \<Rightarrow>
          Some (None, cache\<lparr>stats := (stats cache)\<lparr>misses := misses (stats cache) + 1\<rparr>\<rparr>)
      | Some (Some i, n) \<Rightarrow>
          map_option (\<lambda>cache. (Some i, cache\<lparr>stats := (stats cache)
            \<lparr>hits := hits (stats cache) + 1, depth := depth (stats cache) + n\<rparr>\<rparr>)) (move_to_tail i cache))"

definition alloc_block ::
  "alloc_env \<Rightarrow> bcache \<Rightarrow> 'd bd_state \<Rightarrow> (nat option \<times> bcache \<times> 'd bd_state) option"
where
  "alloc_block alloc cache st =
     (case list_remove_head Free_list (clinks cache) of
        None \<Rightarrow> None
      | Some (Some (Node i), l) \<Rightarrow>
          map_option
            (\<lambda>l. (Some i, upd_block i (\<lambda>b. b\<lparr>ref_count := 0\<rparr>) (cache\<lparr>clinks := l\<rparr>), st))
            (list_add_tail Lru_list (Node i) l)
      | Some (Some _, _) \<Rightarrow> None
      | Some (None, _) \<Rightarrow>
          (case lru_walk (\<lambda>b. ref_count b = 0) cache (nnext (clinks cache) Lru_list) 0 of
             None \<Rightarrow> None
           | Some (None, _) \<Rightarrow> Some (None, cache, st)
           | Some (Some i, _) \<Rightarrow>
               (case flush_if_dirty alloc i cache st of
                  (ok, cache, st) \<Rightarrow>
                    if ok then map_option (\<lambda>cache. (Some i, cache, st)) (move_to_tail i cache)
                    else Some (None, cache, st))))"

text \<open>
  When \<open>alloc_block\<close> returns NULL the code asserts, or dereferences NULL when assertions are compiled
  out; neither returns. A failed read puts the block, which \<open>alloc_block\<close> has linked into the list of
  cached blocks, on the free list as well.
\<close>

definition find_or_fill_block ::
  "alloc_env \<Rightarrow> bnum_t \<Rightarrow> bcache \<Rightarrow> 'd bd_state \<Rightarrow> (nat option \<times> bcache \<times> 'd bd_state) option"
where
  "find_or_fill_block alloc num cache st =
     (case find_block num cache of
        None \<Rightarrow> None
      | Some (Some i, cache) \<Rightarrow> Some (Some i, cache, st)
      | Some (None, cache) \<Rightarrow>
          (case alloc_block alloc cache st of
             None \<Rightarrow> None
           | Some (None, _) \<Rightarrow> None
           | Some (Some i, cache, st) \<Rightarrow>
               let cache = upd_block i (\<lambda>b. b\<lparr>blocknum := num\<rparr>) cache
               in case tegrabl_blockdev_read alloc (cdev cache) (ptr (blk cache i))
                         (fs_offset cache + ucast num * cblock_size cache) (cblock_size cache) st of
                    ((err, d), st) \<Rightarrow>
                      let cache = upd_block i (\<lambda>b. b\<lparr>bdata := overwrite 0 d (bdata b)\<rparr>) cache
                      in if err \<noteq> TEGRABL_NO_ERROR
                         then map_option (\<lambda>l. (None, cache\<lparr>clinks := l\<rparr>, st))
                                (list_add_tail Free_list (Node i) (clinks cache))
                         else Some (Some i,
                                cache\<lparr>stats := (stats cache)\<lparr>reads := reads (stats cache) + 1\<rparr>\<rparr>, st)))"

section \<open>The interface\<close>

text \<open>The integer results are 0 and -1; the copied block is the second result of a read.\<close>

definition bcache_read_block ::
  "alloc_env \<Rightarrow> bnum_t \<Rightarrow> bcache \<Rightarrow> 'd bd_state \<Rightarrow> (bytes option \<times> bcache \<times> 'd bd_state) option"
where
  "bcache_read_block alloc num cache st =
     (case find_or_fill_block alloc num cache st of
        None \<Rightarrow> None
      | Some (None, cache, st) \<Rightarrow> Some (None, cache, st)
      | Some (Some i, cache, st) \<Rightarrow>
          Some (Some (take (unat (cblock_size cache)) (bdata (blk cache i))), cache, st))"

definition bcache_get_block ::
  "alloc_env \<Rightarrow> bnum_t \<Rightarrow> bcache \<Rightarrow> 'd bd_state \<Rightarrow> (nat option \<times> bcache \<times> 'd bd_state) option"
where
  "bcache_get_block alloc num cache st =
     (case find_or_fill_block alloc num cache st of
        None \<Rightarrow> None
      | Some (None, cache, st) \<Rightarrow> Some (None, cache, st)
      | Some (Some i, cache, st) \<Rightarrow>
          Some (Some i, upd_block i (\<lambda>b. b\<lparr>ref_count := ref_count b + 1\<rparr>) cache, st))"

definition bcache_put_block :: "bool \<Rightarrow> bnum_t \<Rightarrow> bcache \<Rightarrow> bcache option" where
  "bcache_put_block dbg num cache =
     (case find_block num cache of
        None \<Rightarrow> None
      | Some (None, _) \<Rightarrow> None
      | Some (Some i, cache) \<Rightarrow>
          if dbg \<and> \<not> 0 < ref_count (blk cache i) then None
          else Some (upd_block i (\<lambda>b. b\<lparr>ref_count := ref_count b - 1\<rparr>) cache))"

definition bcache_mark_block_dirty :: "bnum_t \<Rightarrow> bcache \<Rightarrow> (bool \<times> bcache) option" where
  "bcache_mark_block_dirty num cache =
     (case find_block num cache of
        None \<Rightarrow> None
      | Some (None, cache) \<Rightarrow> Some (False, cache)
      | Some (Some i, cache) \<Rightarrow> Some (True, upd_block i (\<lambda>b. b\<lparr>is_dirty := True\<rparr>) cache))"

definition zero_fill :: "u64 \<Rightarrow> bcache_block \<Rightarrow> bcache_block" where
  "zero_fill n b = b\<lparr>bdata := overwrite 0 (replicate (unat n) 0) (bdata b), is_dirty := True\<rparr>"

definition bcache_zero_block ::
  "alloc_env \<Rightarrow> bnum_t \<Rightarrow> bcache \<Rightarrow> 'd bd_state \<Rightarrow> (bool \<times> bcache \<times> 'd bd_state) option"
where
  "bcache_zero_block alloc num cache st =
     (case find_block num cache of
        None \<Rightarrow> None
      | Some (Some i, cache) \<Rightarrow> Some (True, upd_block i (zero_fill (cblock_size cache)) cache, st)
      | Some (None, cache) \<Rightarrow>
          (case alloc_block alloc cache st of
             None \<Rightarrow> None
           | Some (None, cache, st) \<Rightarrow> Some (False, cache, st)
           | Some (Some i, cache, st) \<Rightarrow>
               let cache = upd_block i (\<lambda>b. b\<lparr>blocknum := num\<rparr>) cache
               in Some (True, upd_block i (zero_fill (cblock_size cache)) cache, st)))"

partial_function (option) flush_walk ::
  "alloc_env \<Rightarrow> bc_node option \<Rightarrow> bcache \<Rightarrow> 'd bd_state \<Rightarrow> (bool \<times> bcache \<times> 'd bd_state) option"
where
  "flush_walk alloc p cache st =
     (case p of
        None \<Rightarrow> None
      | Some Lru_list \<Rightarrow> Some (True, cache, st)
      | Some Free_list \<Rightarrow> None
      | Some (Node i) \<Rightarrow>
          if i \<ge> length (blocks cache) then None
          else
            (case flush_if_dirty alloc i cache st of
               (ok, cache, st) \<Rightarrow>
                 if ok then flush_walk alloc (nnext (clinks cache) (Node i)) cache st
                 else Some (False, cache, st)))"

definition bcache_flush ::
  "alloc_env \<Rightarrow> bcache \<Rightarrow> 'd bd_state \<Rightarrow> (bool \<times> bcache \<times> 'd bd_state) option"
where
  "bcache_flush alloc cache st = flush_walk alloc (nnext (clinks cache) Lru_list) cache st"

text \<open>The numbers \<open>bcache_dump\<close> prints: hits, percentage of hits, average depth, misses, percentage
  of misses, reads, writes. The divisions are guarded; the products by 100 wrap at 32 bits.\<close>

definition bcache_dump :: "bcache \<Rightarrow> u32 list" where
  "bcache_dump cache =
     (let s = stats cache; finds = hits s + misses s
      in [hits s, if finds \<noteq> 0 then hits s * 100 div finds else 0,
          if hits s \<noteq> 0 then depth s div hits s else 0,
          misses s, if finds \<noteq> 0 then misses s * 100 div finds else 0, reads s, writes s])"

end
