(* ===== verification/Ext2_Io.thy ===== *)
theory Ext2_Io
  imports Bcache
begin

text \<open>
  The ext2 reader (\<open>lib/fs/ext2/io.c\<close>, \<open>lib/fs/ext2/ext2.c\<close> without mounting, and the parts of
  \<open>lib/fs/ext2/file.c\<close> that read inodes): superblock and inode fields, the mapping of file blocks to
  device blocks through direct and indirect blocks, reading bytes of a file, loading inodes.

  Structures are decoded from their little-endian image, which is what the conversion macros of the
  environment give; only the fields the code uses are kept. An inode's array of block pointers is kept
  as its 60 bytes, since symbolic links and extents reinterpret them. As for the block cache, \<open>None\<close>
  means that the call does not return normally; it also stands for reading outside an object. The
  signed error codes of the environment are the constructors of \<open>fs_err\<close>.
\<close>

section \<open>Data\<close>

datatype fs_err = ERR_NOT_FOUND | ERR_NO_MEMORY | ERR_GENERIC | ERR_NOT_DIR | ERR_NOT_VALID
  | ERR_RECURSE_TOO_DEEP | ERR_BAD_PATH | ERR_ALREADY_MOUNTED | ERR_NOT_SUPPORTED | ERR_INVALID_ARGS | ERR_CODE int

record ext2fs_super_block =
  e2fs_bcount :: u32
  e2fs_log_bsize :: u32
  e2fs_bpg :: u32
  e2fs_ipg :: u32
  e2fs_magic :: u16
  e2fs_rev :: u32
  e2fs_inode_size :: u16
  e2fs_features_rocompat :: u32
  e3fs_desc_size :: u16

definition ext2_super_block :: "bytes \<Rightarrow> ext2fs_super_block" where
  "ext2_super_block b =
     \<lparr>e2fs_bcount = u32_at 4 b, e2fs_log_bsize = u32_at 24 b, e2fs_bpg = u32_at 32 b, e2fs_ipg = u32_at 40 b,
      e2fs_magic = u16_at 56 b, e2fs_rev = u32_at 76 b, e2fs_inode_size = u16_at 88 b,
      e2fs_features_rocompat = u32_at 100 b, e3fs_desc_size = u16_at 254 b\<rparr>"

record ext2fs_dinode =
  e2di_mode :: u16
  e2di_size :: u32
  e2di_flags :: u32
  e2di_blocks :: bytes
  e2di_size_high :: u32

definition ext2_dinode :: "bytes \<Rightarrow> ext2fs_dinode" where
  "ext2_dinode b =
     \<lparr>e2di_mode = u16_at 0 b, e2di_size = u32_at 4 b, e2di_flags = u32_at 32 b,
      e2di_blocks = subrange 40 60 b, e2di_size_high = u32_at 108 b\<rparr>"

record ext2_t =
  ext2_dev :: "nat option"
  super_blk :: ext2fs_super_block
  group_count :: u32
  grp_desc :: bytes
  root_inode :: ext2fs_dinode
  ext2_fs_offset :: u64

type_synonym 'd fs_st = "bcache \<times> 'd bd_state"

text \<open>What the code takes from its surroundings: allocation inside the block device layer, \<open>malloc\<close>
  (by the number of the call) with the previous contents of memory, whether assertions are compiled in,
  and the contents of a fresh stack array.\<close>

record fs_env =
  fe_alloc :: alloc_env
  fe_malloc :: "nat \<Rightarrow> u64 \<Rightarrow> u64 option"
  fe_mem :: "u64 \<Rightarrow> bytes"
  fe_blocks :: "bcache_block list"
  fe_links :: "bc_node links"
  fe_dbg :: bool
  fe_stack :: "nat \<Rightarrow> u8"

definition E2FS_BLOCK_SIZE :: "ext2fs_super_block \<Rightarrow> u32" where
  "E2FS_BLOCK_SIZE s = push_bit (unat (e2fs_log_bsize s)) 1024"

definition E2FS_ADDR_PER_BLOCK :: "ext2fs_super_block \<Rightarrow> u32" where
  "E2FS_ADDR_PER_BLOCK s = ucast ((ucast (E2FS_BLOCK_SIZE s) :: u64) div 4)"

definition E2FS_INODE_SIZE :: "ext2fs_super_block \<Rightarrow> u32" where
  "E2FS_INODE_SIZE s = (if e2fs_rev s = 0 then 128 else ucast (e2fs_inode_size s))"

abbreviation (input) S_IFMT :: u16 where "S_IFMT \<equiv> 0xF000"

definition S_ISDIR :: "u16 \<Rightarrow> bool" where
  "S_ISDIR mode = (mode AND S_IFMT = 0x4000)"

definition S_ISREG :: "u16 \<Rightarrow> bool" where
  "S_ISREG mode = (mode AND S_IFMT = 0x8000)"

definition S_ISLNK :: "u16 \<Rightarrow> bool" where
  "S_ISLNK mode = (mode AND S_IFMT = 0xA000)"

definition IS_EXTENTS :: "u32 \<Rightarrow> bool" where
  "IS_EXTENTS flags = (flags AND 0x80000 = 0x80000)"

definition IS_HASHED_INDEX :: "u32 \<Rightarrow> bool" where
  "IS_HASHED_INDEX flags = (flags AND 0x1000 = 0x1000)"

definition ext2_file_len :: "ext2_t \<Rightarrow> ext2fs_dinode \<Rightarrow> u64" where
  "ext2_file_len fs inode =
     (let len = ucast (e2di_size inode)
      in if e2fs_features_rocompat (super_blk fs) AND 2 \<noteq> 0 \<and> S_ISREG (e2di_mode inode)
         then len OR push_bit 32 (ucast (e2di_size_high inode)) else len)"

section \<open>Blocks\<close>

text \<open>Block numbers are 64 bits wide here and 32 bits wide in the cache.\<close>

definition ext2_read_block :: "fs_env \<Rightarrow> u64 \<Rightarrow> 'd fs_st \<Rightarrow> (bytes option \<times> 'd fs_st) option" where
  "ext2_read_block env bnum s = bcache_read_block (fe_alloc env) (ucast bnum) (fst s) (snd s)"

definition ext2_get_block :: "fs_env \<Rightarrow> u64 \<Rightarrow> 'd fs_st \<Rightarrow> (nat option \<times> 'd fs_st) option" where
  "ext2_get_block env bnum s = bcache_get_block (fe_alloc env) (ucast bnum) (fst s) (snd s)"

definition ext2_put_block :: "fs_env \<Rightarrow> u64 \<Rightarrow> 'd fs_st \<Rightarrow> 'd fs_st option" where
  "ext2_put_block env bnum s =
     map_option (\<lambda>c. (c, snd s)) (bcache_put_block (fe_dbg env) (ucast bnum) (fst s))"

abbreviation (input) EXT2_NDIR_BLOCKS :: u64 where "EXT2_NDIR_BLOCKS \<equiv> 12"

text \<open>Level of indirection and the index to follow at each level; \<open>None\<close> is the result -1.\<close>

definition ext2_calculate_block_pointer_pos ::
  "ext2_t \<Rightarrow> u64 \<Rightarrow> (nat \<times> u32 list) option"
where
  "ext2_calculate_block_pointer_pos fs block_to_find =
     (if block_to_find < EXT2_NDIR_BLOCKS then Some (0, [ucast block_to_find])
      else
        let ppb = E2FS_ADDR_PER_BLOCK (super_blk fs);
            b1 = block_to_find - EXT2_NDIR_BLOCKS
        in if b1 < ucast ppb then Some (1, [12, ucast b1])
           else
             let b2 = b1 - ucast ppb;
                 pp2 = ppb * ppb
             in if b2 < ucast pp2 then Some (2, [13, ucast (b2 div ucast ppb), ucast (b2 mod ucast ppb)])
                else
                  let b3 = b2 - ucast pp2
                  in if b3 < ucast (pp2 * ppb)
                     then Some (3, [14, ucast (b3 div ucast pp2), ucast ((b3 mod ucast pp2) div ucast ppb),
                                    ucast ((b3 mod ucast pp2) mod ucast ppb)])
                     else None)"

text \<open>Reading an element of a mapped array, \<open>None\<close> outside of it.\<close>

definition elem32 :: "bytes \<Rightarrow> u32 \<Rightarrow> u32 option" where
  "elem32 b i = (if 4 * unat i + 4 \<le> length b then Some (u32_at (4 * unat i) b) else None)"

definition elem64 :: "bytes \<Rightarrow> u32 \<Rightarrow> u64 option" where
  "elem64 b i = (if 8 * unat i + 8 \<le> length b then Some (u64_at (8 * unat i) b) else None)"

text \<open>
  The loop over the levels of indirection: \<open>n\<close> levels are left, \<open>poss\<close> are the indices of the
  levels below, \<open>current_block\<close> is the block to open. The table of a level is declared as an array of
  the 64-bit type \<open>blocknum_t\<close>, and the element read from it is cut to 32 bits.
\<close>

fun indirect_walk ::
  "fs_env \<Rightarrow> u32 list \<Rightarrow> nat \<Rightarrow> u32 \<Rightarrow> 'd fs_st \<Rightarrow> ((nat \<times> u64) option \<times> 'd fs_st) option"
where
  "indirect_walk env poss 0 current_block s = Some (None, s)"
| "indirect_walk env poss (Suc n) current_block s =
     (if current_block = 0 then Some (None, s)
      else
        (case ext2_get_block env (ucast current_block) s of
           None \<Rightarrow> None
         | Some (None, s) \<Rightarrow> Some (None, s)
         | Some (Some i, s) \<Rightarrow>
             if n = 0 then Some (Some (i, ucast current_block), s)
             else
               (case elem64 (bdata (blk (fst s) i)) (hd poss) of
                  None \<Rightarrow> None
                | Some next_block \<Rightarrow>
                    (case ext2_put_block env (ucast current_block) s of
                       None \<Rightarrow> None
                     | Some s \<Rightarrow> indirect_walk env (tl poss) n (ucast next_block) s))))"

definition ext2_get_indirect_block_pointer_cache_block ::
  "fs_env \<Rightarrow> ext2fs_dinode \<Rightarrow> nat \<Rightarrow> u32 list \<Rightarrow> 'd fs_st \<Rightarrow> ((nat \<times> u64) option \<times> 'd fs_st) option"
where
  "ext2_get_indirect_block_pointer_cache_block env inode level pos s =
     (if level > 3 \<or> level = 0 then Some (None, s)
      else
        (case elem32 (e2di_blocks inode) (hd pos) of
           None \<Rightarrow> None
         | Some b \<Rightarrow> indirect_walk env (tl pos) level b s))"

text \<open>A failure to compute the position is not noticed: the level stays 0.\<close>

definition file_block_to_fs_block ::
  "fs_env \<Rightarrow> ext2_t \<Rightarrow> ext2fs_dinode \<Rightarrow> u32 \<Rightarrow> 'd fs_st \<Rightarrow> (u64 \<times> 'd fs_st) option"
where
  "file_block_to_fs_block env fs inode fileblock s =
     (case (case ext2_calculate_block_pointer_pos fs (ucast fileblock) of None \<Rightarrow> (0, []) | Some r \<Rightarrow> r) of
        (level, pos) \<Rightarrow>
          if level = 0 then map_option (\<lambda>b. (ucast b, s)) (elem32 (e2di_blocks inode) fileblock)
          else
            (case ext2_get_indirect_block_pointer_cache_block env inode level pos s of
               None \<Rightarrow> None
             | Some (None, s) \<Rightarrow> Some (0, s)
             | Some (Some (i, phys_block), s) \<Rightarrow>
                 (case elem32 (bdata (blk (fst s) i)) (pos ! level) of
                    None \<Rightarrow> None
                  | Some b \<Rightarrow> map_option (\<lambda>s. (ucast b, s)) (ext2_put_block env phys_block s))))"

section \<open>Reading a file\<close>

text \<open>One block into an array that holds \<open>old\<close>: zeros for a hole; when the read fails, which the code
  does not check, the array keeps what it held.\<close>

definition read_file_block ::
  "fs_env \<Rightarrow> ext2_t \<Rightarrow> ext2fs_dinode \<Rightarrow> u32 \<Rightarrow> bytes \<Rightarrow> 'd fs_st \<Rightarrow> (bytes \<times> 'd fs_st) option"
where
  "read_file_block env fs inode file_block old s =
     (case file_block_to_fs_block env fs inode file_block s of
        None \<Rightarrow> None
      | Some (phys_block, s) \<Rightarrow>
          if phys_block = 0 then Some (replicate (unat (E2FS_BLOCK_SIZE (super_blk fs))) 0, s)
          else
            (case ext2_read_block env phys_block s of
               None \<Rightarrow> None
             | Some (None, s) \<Rightarrow> Some (old, s)
             | Some (Some d, s) \<Rightarrow> Some (d, s)))"

fun read_middle ::
  "fs_env \<Rightarrow> ext2_t \<Rightarrow> ext2fs_dinode \<Rightarrow> nat \<Rightarrow> u32 \<Rightarrow> bytes \<Rightarrow> 'd fs_st \<Rightarrow> (bytes \<times> 'd fs_st) option"
where
  "read_middle env fs inode 0 file_block buf s = Some ([], s)"
| "read_middle env fs inode (Suc n) file_block buf s =
     (let bs = unat (E2FS_BLOCK_SIZE (super_blk fs))
      in case read_file_block env fs inode file_block (take bs buf) s of
           None \<Rightarrow> None
         | Some (d, s) \<Rightarrow>
             map_option (\<lambda>(ds, s). (d @ ds, s)) (read_middle env fs inode n (file_block + 1) (drop bs buf) s))"

definition stack_array :: "fs_env \<Rightarrow> nat \<Rightarrow> bytes" where
  "stack_array env n = map (fe_stack env) [0..<n]"

text \<open>The bytes stored into the caller's buffer, which held \<open>buf\<close>; their number is the result.\<close>

definition ext2_read_inode ::
  "fs_env \<Rightarrow> ext2_t \<Rightarrow> ext2fs_dinode \<Rightarrow> bytes \<Rightarrow> u64 \<Rightarrow> u64 \<Rightarrow> 'd fs_st \<Rightarrow> (bytes \<times> 'd fs_st) option"
where
  "ext2_read_inode env fs inode buf offset len s =
     (let file_size = ext2_file_len fs inode;
          bs = ucast (E2FS_BLOCK_SIZE (super_blk fs)) :: u64
      in if offset > file_size then Some ([], s)
         else
           let len = (if offset + len \<ge> file_size then file_size - offset else len)
           in if len = 0 then Some ([], s)
              else if bs = 0 then None
              else
                let file_block = ucast (offset div bs) :: u32;
                    block_offset = offset mod bs;
                    tocopy = min len (bs - block_offset);
                    temp = stack_array env (unat bs)
                in case (if block_offset \<noteq> 0
                         then map_option (\<lambda>(d, s). (subrange (unat block_offset) (unat tocopy) d, s))
                                (read_file_block env fs inode file_block temp s)
                         else Some ([], s)) of
                     None \<Rightarrow> None
                   | Some (d1, s) \<Rightarrow>
                       let fb = (if block_offset \<noteq> 0 then file_block + 1 else file_block);
                           rest = (if block_offset \<noteq> 0 then len - tocopy else len);
                           n = unat (rest div bs)
                       in case read_middle env fs inode n fb (drop (length d1) buf) s of
                            None \<Rightarrow> None
                          | Some (d2, s) \<Rightarrow>
                              let last = unat (rest mod bs)
                              in if last = 0 then Some (d1 @ d2, s)
                                 else map_option (\<lambda>(d, s). (d1 @ d2 @ take last d, s))
                                        (read_file_block env fs inode (fb + of_nat n) temp s))"

section \<open>Inodes\<close>

text \<open>\<open>None\<close>: division by a zero number of inodes per group, or a group descriptor outside the table.\<close>

definition get_inode_addr :: "ext2_t \<Rightarrow> u32 \<Rightarrow> (u64 \<times> u64) option" where
  "get_inode_addr fs num =
     (let n = num - 1;
          ipg = e2fs_ipg (super_blk fs);
          bs = ucast (E2FS_BLOCK_SIZE (super_blk fs)) :: u64
      in if ipg = 0 \<or> bs = 0 then None
         else
           let group = unat (n div ipg);
               big = e3fs_desc_size (super_blk fs) > 32;
               gd = (if big then group * 64 else group * 32);
               need = (if big then gd + 44 else gd + 12)
           in if need > length (grp_desc fs) then None
              else
                let lo = ucast (u32_at (gd + 8) (grp_desc fs)) :: u64;
                    block = (if big then push_bit 32 (ucast (u32_at (gd + 40) (grp_desc fs))) OR lo else lo);
                    offset = ucast ((n mod ipg) * E2FS_INODE_SIZE (super_blk fs)) :: u64
                in Some (block + offset div bs, offset mod bs))"

text \<open>The copy takes the 160 bytes of the structure from the cached block.\<close>

definition ext2_load_inode ::
  "fs_env \<Rightarrow> ext2_t \<Rightarrow> u32 \<Rightarrow> 'd fs_st \<Rightarrow> ((fs_err + ext2fs_dinode) \<times> 'd fs_st) option"
where
  "ext2_load_inode env fs num s =
     (case get_inode_addr fs num of
        None \<Rightarrow> None
      | Some (bnum, block_offset) \<Rightarrow>
          (case ext2_get_block env bnum s of
             None \<Rightarrow> None
           | Some (None, s) \<Rightarrow> Some (Inl (ERR_CODE (-1)), s)
           | Some (Some i, s) \<Rightarrow>
               let b = bdata (blk (fst s) i)
               in if unat block_offset + 160 > length b then None
                  else map_option (Pair (Inr (ext2_dinode (subrange (unat block_offset) 160 b))))
                         (ext2_put_block env bnum s)))"

text \<open>A short link is stored in the inode, over the block pointers.\<close>

definition ext2_read_link ::
  "fs_env \<Rightarrow> ext2_t \<Rightarrow> ext2fs_dinode \<Rightarrow> bytes \<Rightarrow> 'd fs_st \<Rightarrow> ((fs_err + bytes) \<times> 'd fs_st) option"
where
  "ext2_read_link env fs inode str s =
     (let linklen = ext2_file_len fs inode
      in if linklen = 0 \<or> linklen + 1 > of_nat (length str) then Some (Inl ERR_NO_MEMORY, s)
         else if linklen > 60 then
           map_option (\<lambda>(d, s). (Inr (overwrite 0 (d @ drop (length d) (take (unat linklen) str) @ [0]) str), s))
             (ext2_read_inode env fs inode str 0 linklen s)
         else Some (Inr (overwrite 0 (take (unat linklen) (e2di_blocks inode) @ [0]) str), s))"

end
