(* ===== verification/Ext2_Dir.thy ===== *)
theory Ext2_Dir
  imports Ext2_Io
begin

text \<open>
  Directories, extents and files: \<open>lib/fs/ext4/ext4.c\<close> (extents, directory lookup, mounting, opening,
  reading), \<open>lib/fs/ext2/dir.c\<close> (directory lookup and path walk), \<open>lib/fs/ext2/file.c\<close> and the
  mounting code of \<open>lib/fs/ext2/ext2.c\<close>.

  A buffer a function writes through is the whole object with a start position; a store outside the
  object is \<open>None\<close>, like a load outside of one. Names and paths are the bytes before their NUL.
\<close>

section \<open>Directory blocks\<close>

definition round4 :: "nat \<Rightarrow> nat" where
  "round4 n = (n + 3) div 4 * 4"

text \<open>The scan of one directory block, shared by the three lookups: the inode number of the first
  entry with the name (\<open>Some None\<close> when there is none), \<open>None\<close> for a load outside the buffer.\<close>

function dir_scan :: "bytes \<Rightarrow> nat \<Rightarrow> bytes \<Rightarrow> nat \<Rightarrow> u32 option option" where
  "dir_scan buf bs name pos =
     (if pos \<ge> bs then Some None
      else if pos + 8 > length buf then None
      else
        let reclen = unat (u16_at (pos + 4) buf);
            namelen = unat (buf ! (pos + 6))
        in if reclen = 0 then Some None
           else if namelen = length name \<and> pos + 8 + namelen > length buf then None
           else if namelen = length name \<and> subrange (pos + 8) namelen buf = name
             then Some (Some (u32_at pos buf))
           else dir_scan buf bs name (pos + round4 reclen))"
  by pat_completeness auto
termination
  by (relation "measure (\<lambda>(buf, bs, name, pos). bs - pos)") (auto simp: round4_def)

declare dir_scan.simps [simp del]

section \<open>Extents\<close>

definition eh_magic :: "bytes \<Rightarrow> u16" where "eh_magic h = u16_at 0 h"
definition eh_entries :: "bytes \<Rightarrow> u16" where "eh_entries h = u16_at 2 h"
definition eh_depth :: "bytes \<Rightarrow> u16" where "eh_depth h = u16_at 6 h"

definition validate_extents_magic :: "bytes \<Rightarrow> bool" where
  "validate_extents_magic h = (eh_magic h = 0xF30A)"

record ext4_extent =
  ee_block_no :: u32
  ee_len :: u16
  ee_start_hi :: u16
  ee_start_lo :: u32

text \<open>The \<open>i\<close>-th extent after a header, and the first index entry; both are 12 bytes.\<close>

definition extent_at :: "bytes \<Rightarrow> nat \<Rightarrow> ext4_extent option" where
  "extent_at h i =
     (let p = 12 + 12 * i
      in if p + 12 > length h then None
         else Some \<lparr>ee_block_no = u32_at p h, ee_len = u16_at (p + 4) h, ee_start_hi = u16_at (p + 6) h,
                    ee_start_lo = u32_at (p + 8) h\<rparr>)"

definition extent_start :: "ext4_extent \<Rightarrow> u64" where
  "extent_start e = push_bit 32 (ucast (ee_start_hi e)) OR ucast (ee_start_lo e)"

definition first_leaf :: "bytes \<Rightarrow> u64 option" where
  "first_leaf h =
     (if 24 > length h then None
      else Some (push_bit 32 (ucast (u16_at 20 h)) OR ucast (u32_at 16 h)))"

definition fs_bs :: "ext2_t \<Rightarrow> u64" where
  "fs_bs fs = ucast (E2FS_BLOCK_SIZE (super_blk fs))"

definition block_addr :: "ext2_t \<Rightarrow> u64 \<Rightarrow> u64" where
  "block_addr fs b = b * fs_bs fs + ext2_fs_offset fs"

text \<open>The search of \<open>extents_blk_lookup\<close> over \<open>n\<close> more entries; 0 when no entry reaches the block.\<close>

fun extents_find :: "bytes \<Rightarrow> u32 \<Rightarrow> nat \<Rightarrow> nat \<Rightarrow> u64 option" where
  "extents_find h num i 0 = Some 0"
| "extents_find h num i (Suc n) =
     (case extent_at h i of
        None \<Rightarrow> None
      | Some e \<Rightarrow>
          if ee_block_no e + ucast (ee_len e) > num
          then Some (extent_start e + ucast (num - ee_block_no e))
          else extents_find h num (Suc i) n)"

text \<open>A block is read into the buffer \<open>buf\<close> of the caller at address \<open>p\<close>.\<close>

definition extents_blk_lookup ::
  "fs_env \<Rightarrow> ext2_t \<Rightarrow> bytes \<Rightarrow> u32 \<Rightarrow> u64 \<Rightarrow> bytes \<Rightarrow> 'd bd_state \<Rightarrow> (bool \<times> bytes \<times> 'd bd_state) option"
where
  "extents_blk_lookup env fs h num p buf st =
     (case extents_find h num 0 (unat (eh_entries h)) of
        None \<Rightarrow> None
      | Some b \<Rightarrow>
          (case tegrabl_blockdev_read (fe_alloc env) (ext2_dev fs) p (block_addr fs b) (fs_bs fs) st of
             ((err, d), st) \<Rightarrow>
               if length d > length buf then None
               else Some (err = TEGRABL_NO_ERROR, overwrite 0 d buf, st)))"

text \<open>The result of the lookup is not looked at.\<close>

definition get_extents_blk ::
  "fs_env \<Rightarrow> ext2_t \<Rightarrow> ext2fs_dinode \<Rightarrow> u32 \<Rightarrow> u64 \<Rightarrow> bytes \<Rightarrow> 'd bd_state \<Rightarrow>
   (fs_err option \<times> bytes \<times> 'd bd_state) option"
where
  "get_extents_blk env fs inode num p buf st =
     (let h = e2di_blocks inode
      in if eh_depth h > 0 then
           (case first_leaf h of
              None \<Rightarrow> None
            | Some leaf \<Rightarrow>
                (case fe_malloc env 10 (fs_bs fs) of
                   None \<Rightarrow> Some (Some ERR_NO_MEMORY, buf, st)
                 | Some q \<Rightarrow>
                     (case tegrabl_blockdev_read (fe_alloc env) (ext2_dev fs) q (block_addr fs leaf) (fs_bs fs) st of
                        ((err, d), st) \<Rightarrow>
                          if err \<noteq> TEGRABL_NO_ERROR then Some (Some ERR_GENERIC, buf, st)
                          else map_option (\<lambda>(_, r). (None, r)) (extents_blk_lookup env fs d num p buf st))))
         else map_option (\<lambda>(_, r). (None, r)) (extents_blk_lookup env fs h num p buf st))"

text \<open>
  \<open>ext4_read_extent\<close> reads the extents of one node to their place in the buffer, which starts at
  position \<open>base\<close> of the object \<open>obj\<close> at address \<open>p\<close>. The state of its loop is the object, the
  device, the offset of the last destination, the length of the last extent and the sum of the
  lengths; byte counts of an extent are computed in 32 bits.
\<close>

fun read_extents ::
  "fs_env \<Rightarrow> ext2_t \<Rightarrow> bytes \<Rightarrow> u64 \<Rightarrow> nat \<Rightarrow> nat \<Rightarrow> nat \<Rightarrow> u32 \<times> u32 \<times> u64 \<Rightarrow> bytes \<times> 'd bd_state \<Rightarrow>
   ((u32 \<times> u32 \<times> u64) option \<times> bytes \<times> 'd bd_state) option"
where
  "read_extents env fs h p base i 0 r s = Some (Some r, s)"
| "read_extents env fs h p base i (Suc n) (_, _, tot) (obj, st) =
     (case extent_at h i of
        None \<Rightarrow> None
      | Some e \<Rightarrow>
          let dst = ee_block_no e * E2FS_BLOCK_SIZE (super_blk fs);
              nbytes = ucast (ee_len e) * E2FS_BLOCK_SIZE (super_blk fs)
          in case tegrabl_blockdev_read (fe_alloc env) (ext2_dev fs) (p + of_nat base + ucast dst)
                    (block_addr fs (extent_start e)) (ucast nbytes) st of
               ((err, d), st) \<Rightarrow>
                 if base + unat dst + length d > length obj then None
                 else
                   let obj = overwrite (base + unat dst) d obj
                   in if err \<noteq> TEGRABL_NO_ERROR then Some (None, obj, st)
                      else read_extents env fs h p base (Suc i) n (dst, nbytes, tot + ucast nbytes) (obj, st))"

definition ext4_read_extent ::
  "fs_env \<Rightarrow> ext2_t \<Rightarrow> bytes \<Rightarrow> u64 \<Rightarrow> nat \<Rightarrow> bytes \<times> 'd bd_state \<Rightarrow> (u64 option \<times> bytes \<times> 'd bd_state) option"
where
  "ext4_read_extent env fs h p base s =
     map_option
       (\<lambda>(r, s). (map_option (\<lambda>(dst, nbytes, tot). if dst = 0 then tot else ucast dst + ucast nbytes) r, s))
       (read_extents env fs h p base 0 (unat (eh_entries h)) (0, 0, 0) s)"

definition blocks_of :: "ext2_t \<Rightarrow> u64 \<Rightarrow> u32" where
  "blocks_of fs n = ucast (n div fs_bs fs) + (if n mod fs_bs fs \<noteq> 0 then 1 else 0)"

text \<open>
  The loop over the index entries: the same (first) entry is read every time, and the error of one
  round is forgotten in the next. \<open>last_err\<close> is the error of the last round, \<open>bytes_read\<close> keeps
  its value when a round fails.
\<close>

fun read_index_nodes ::
  "fs_env \<Rightarrow> ext2_t \<Rightarrow> bytes \<Rightarrow> u64 \<Rightarrow> u64 \<Rightarrow> nat \<Rightarrow> u64 \<times> u64 \<times> fs_err option \<Rightarrow> bytes \<times> 'd bd_state \<Rightarrow>
   ((fs_err + u64) \<times> bytes \<times> 'd bd_state) option"
where
  "read_index_nodes env fs h len p 0 (tot, bytes_read, last_err) s =
     Some (case last_err of Some e \<Rightarrow> Inl e | None \<Rightarrow> Inr tot, s)"
| "read_index_nodes env fs h len p (Suc n) (tot, bytes_read, last_err) (obj, st) =
     (case first_leaf h of
        None \<Rightarrow> None
      | Some leaf \<Rightarrow>
          (case fe_malloc env 11 (fs_bs fs) of
             None \<Rightarrow> Some (Inl ERR_NO_MEMORY, obj, st)
           | Some q \<Rightarrow>
               (case tegrabl_blockdev_read (fe_alloc env) (ext2_dev fs) q (block_addr fs leaf) (fs_bs fs) st of
                  ((err, d), st) \<Rightarrow>
                    if err \<noteq> TEGRABL_NO_ERROR then Some (Inl ERR_GENERIC, obj, st)
                    else
                      (case ext4_read_extent env fs d p (unat tot) (obj, st) of
                         None \<Rightarrow> None
                       | Some (r, s) \<Rightarrow>
                           let bytes_read = (case r of None \<Rightarrow> bytes_read | Some k \<Rightarrow> k);
                               tot = tot + bytes_read
                           in if len \<noteq> 0 \<and> blocks_of fs tot > blocks_of fs len then Some (Inl ERR_NOT_VALID, s)
                              else read_index_nodes env fs h len p n
                                     (tot, bytes_read, if r = None then Some ERR_GENERIC else None) s))))"

text \<open>\<open>len = 0\<close> switches the check of the amount off. The check comes after the reads.\<close>

definition ext4_read_data_from_extent ::
  "fs_env \<Rightarrow> ext2_t \<Rightarrow> ext2fs_dinode \<Rightarrow> u64 \<Rightarrow> u64 \<Rightarrow> bytes \<times> 'd bd_state \<Rightarrow>
   ((fs_err + u64) \<times> bytes \<times> 'd bd_state) option"
where
  "ext4_read_data_from_extent env fs inode p len s =
     (let h = e2di_blocks inode
      in if \<not> validate_extents_magic h then Some (Inl ERR_NOT_VALID, s)
         else if eh_depth h > 0 then read_index_nodes env fs h len p (unat (eh_entries h)) (0, 0, None) s
         else
           (case ext4_read_extent env fs h p 0 s of
              None \<Rightarrow> None
            | Some (r, s) \<Rightarrow>
                let tot = (case r of None \<Rightarrow> 0 | Some k \<Rightarrow> k)
                in if len \<noteq> 0 \<and> blocks_of fs tot > blocks_of fs len then Some (Inl ERR_NOT_VALID, s)
                   else Some (case r of None \<Rightarrow> Inl ERR_GENERIC | Some _ \<Rightarrow> Inr tot, s)))"

section \<open>Directory lookup with extents\<close>

fun hashed_scan ::
  "fs_env \<Rightarrow> ext2_t \<Rightarrow> ext2fs_dinode \<Rightarrow> bytes \<Rightarrow> u64 \<Rightarrow> u32 list \<Rightarrow> bytes \<Rightarrow> 'd bd_state \<Rightarrow>
   ((fs_err + u32) \<times> 'd bd_state) option"
where
  "hashed_scan env fs inode name p [] buf st = Some (Inl ERR_NOT_FOUND, st)"
| "hashed_scan env fs inode name p (b # bs) buf st =
     (case get_extents_blk env fs inode b p (replicate (length buf) 0) st of
        None \<Rightarrow> None
      | Some (Some e, _, st) \<Rightarrow> Some (Inl e, st)
      | Some (None, buf, st) \<Rightarrow>
          (case dir_scan buf (unat (fs_bs fs)) name 0 of
             None \<Rightarrow> None
           | Some (Some inum) \<Rightarrow> Some (Inr inum, st)
           | Some None \<Rightarrow> hashed_scan env fs inode name p bs buf st))"

text \<open>The entries of the root: the first is the block of hash 0, the others follow the 40-byte header.\<close>

definition lookup_hashed_dir ::
  "fs_env \<Rightarrow> ext2_t \<Rightarrow> ext2fs_dinode \<Rightarrow> bytes \<Rightarrow> u64 \<Rightarrow> bytes \<Rightarrow> 'd bd_state \<Rightarrow> ((fs_err + u32) \<times> 'd bd_state) option"
where
  "lookup_hashed_dir env fs inode name p buf st =
     (case get_extents_blk env fs inode 0 p buf st of
        None \<Rightarrow> None
      | Some (Some e, _, st) \<Rightarrow> Some (Inl e, st)
      | Some (None, buf, st) \<Rightarrow>
          if 40 > length buf then None
          else
            let count = unat (u16_at 34 buf)
            in (case fe_malloc env 12 (of_nat (count * 8)) of
                  None \<Rightarrow> Some (Inl ERR_NO_MEMORY, st)
                | Some _ \<Rightarrow>
                    if count = 0 \<or> 40 + (count - 1) * 8 > length buf then None
                    else hashed_scan env fs inode name p
                           (u32_at 36 buf # map (\<lambda>i. u32_at (44 + 8 * i) buf) [0..<count - 1]) buf st))"

text \<open>The linear lookup reads the whole directory in every round and scans its first block.\<close>

fun linear_scan ::
  "fs_env \<Rightarrow> ext2_t \<Rightarrow> ext2fs_dinode \<Rightarrow> bytes \<Rightarrow> u64 \<Rightarrow> nat \<Rightarrow> bytes \<times> 'd bd_state \<Rightarrow>
   ((fs_err + u32) \<times> 'd bd_state) option"
where
  "linear_scan env fs inode name p 0 s = Some (Inl (ERR_CODE (-1)), snd s)"
| "linear_scan env fs inode name p (Suc n) s =
     (case ext4_read_data_from_extent env fs inode p 0 s of
        None \<Rightarrow> None
      | Some (Inl _, _, st) \<Rightarrow> Some (Inl (ERR_CODE (-1)), st)
      | Some (Inr k, buf, st) \<Rightarrow>
          if sint (ucast k :: 32 word) \<le> 0 then Some (Inl (ERR_CODE (-1)), st)
          else
            (case dir_scan buf (unat (fs_bs fs)) name 0 of
               None \<Rightarrow> None
             | Some (Some inum) \<Rightarrow> Some (Inr inum, st)
             | Some None \<Rightarrow> linear_scan env fs inode name p n (buf, st)))"

definition lookup_linear_dir ::
  "fs_env \<Rightarrow> ext2_t \<Rightarrow> ext2fs_dinode \<Rightarrow> bytes \<Rightarrow> u64 \<Rightarrow> bytes \<Rightarrow> 'd bd_state \<Rightarrow> ((fs_err + u32) \<times> 'd bd_state) option"
where
  "lookup_linear_dir env fs inode name p buf st = linear_scan env fs inode name p 1025 (buf, st)"

definition ext4_dir_lookup ::
  "fs_env \<Rightarrow> ext2_t \<Rightarrow> ext2fs_dinode \<Rightarrow> bytes \<Rightarrow> 'd bd_state \<Rightarrow> ((fs_err + u32) \<times> 'd bd_state) option"
where
  "ext4_dir_lookup env fs dir_inode name st =
     (if \<not> S_ISDIR (e2di_mode dir_inode) then Some (Inl ERR_NOT_DIR, st)
      else if \<not> validate_extents_magic (e2di_blocks dir_inode) then Some (Inl ERR_NOT_VALID, st)
      else
        (case fe_malloc env 13 (fs_bs fs) of
           None \<Rightarrow> Some (Inl ERR_NO_MEMORY, st)
         | Some p \<Rightarrow>
             let buf = take (unat (fs_bs fs)) (fe_mem env p)
             in if IS_HASHED_INDEX (e2di_flags dir_inode) then lookup_hashed_dir env fs dir_inode name p buf st
                else lookup_linear_dir env fs dir_inode name p buf st))"

section \<open>Directory lookup with block pointers, and the path walk\<close>

text \<open>The blocks of the directory from \<open>fb\<close> on; after block 1024 the lookup gives up.\<close>

fun dir_blocks ::
  "fs_env \<Rightarrow> ext2_t \<Rightarrow> ext2fs_dinode \<Rightarrow> bytes \<Rightarrow> nat \<Rightarrow> u32 \<Rightarrow> bytes \<Rightarrow> 'd fs_st \<Rightarrow> ((fs_err + u32) \<times> 'd fs_st) option"
where
  "dir_blocks env fs inode name 0 fb buf s = Some (Inl (ERR_CODE (-1)), s)"
| "dir_blocks env fs inode name (Suc n) fb buf s =
     (case ext2_read_inode env fs inode buf (ucast (fb * E2FS_BLOCK_SIZE (super_blk fs))) (fs_bs fs) s of
        None \<Rightarrow> None
      | Some (d, s) \<Rightarrow>
          if d = [] then Some (Inl (ERR_CODE (-1)), s)
          else
            let buf = overwrite 0 d buf
            in case dir_scan buf (unat (fs_bs fs)) name 0 of
                 None \<Rightarrow> None
               | Some (Some inum) \<Rightarrow> Some (Inr inum, s)
               | Some None \<Rightarrow> dir_blocks env fs inode name n (fb + 1) buf s)"

definition ext2_dir_lookup ::
  "fs_env \<Rightarrow> ext2_t \<Rightarrow> ext2fs_dinode \<Rightarrow> bytes \<Rightarrow> 'd fs_st \<Rightarrow> ((fs_err + u32) \<times> 'd fs_st) option"
where
  "ext2_dir_lookup env fs dir_inode name s =
     (if \<not> S_ISDIR (e2di_mode dir_inode) then Some (Inl ERR_NOT_DIR, s)
      else
        (case fe_malloc env 14 (fs_bs fs) of
           None \<Rightarrow> Some (Inl ERR_NO_MEMORY, s)
         | Some p \<Rightarrow> dir_blocks env fs dir_inode name 1025 0 (take (unat (fs_bs fs)) (fe_mem env p)) s))"

definition any_dir_lookup ::
  "fs_env \<Rightarrow> ext2_t \<Rightarrow> ext2fs_dinode \<Rightarrow> bytes \<Rightarrow> 'd fs_st \<Rightarrow> ((fs_err + u32) \<times> 'd fs_st) option"
where
  "any_dir_lookup env fs dir_inode name s =
     (if IS_EXTENTS (e2di_flags dir_inode)
      then map_option (\<lambda>(r, st). (r, (fst s, st))) (ext4_dir_lookup env fs dir_inode name (snd s))
      else ext2_dir_lookup env fs dir_inode name s)"

abbreviation (input) slash :: u8 where "slash \<equiv> 47"

text \<open>
  The loop of \<open>ext2_walk\<close>, with \<open>pathp\<close> the rest of the path. At a symbolic link the text of the link
  is read, but the walk goes on with the rest of the path; only the link's first character matters. At
  the last component there is no separator, and the pointer one past NULL is used (\<open>None\<close>). The
  recursive call of \<open>ext2_walk\<close> is unfolded: the depth check, the leading slashes, the loop.
\<close>

function ext2_walk_loop ::
  "fs_env \<Rightarrow> ext2_t \<Rightarrow> bytes \<Rightarrow> ext2fs_dinode \<Rightarrow> nat \<Rightarrow> 'd fs_st \<Rightarrow> ((fs_err + u32) \<times> 'd fs_st) option"
where
  "ext2_walk_loop env fs pathp dir_inode level s =
     (let comp = takeWhile (\<lambda>ch. ch \<noteq> slash) pathp;
          sep = dropWhile (\<lambda>ch. ch \<noteq> slash) pathp;
          rest = dropWhile (\<lambda>ch. ch = slash) sep
      in case any_dir_lookup env fs dir_inode comp s of
           None \<Rightarrow> None
         | Some (Inl e, s) \<Rightarrow> Some (Inl e, s)
         | Some (Inr inum, s) \<Rightarrow>
             (case ext2_load_inode env fs inum s of
                None \<Rightarrow> None
              | Some (Inl e, s) \<Rightarrow> Some (Inl e, s)
              | Some (Inr inode, s) \<Rightarrow>
                  if S_ISLNK (e2di_mode inode) then
                    (case ext2_read_link env fs inode (stack_array env 512) s of
                       None \<Rightarrow> None
                     | Some (Inl e, s) \<Rightarrow> Some (Inl e, s)
                     | Some (Inr link, s) \<Rightarrow>
                         if sep = [] then None
                         else if level + 1 > 4 then Some (Inl ERR_RECURSE_TOO_DEEP, s)
                         else ext2_walk_loop env fs rest
                                (if hd link = slash then root_inode fs else dir_inode) (level + 1) s)
                  else if S_ISDIR (e2di_mode inode) then
                    (if sep = [] then Some (Inr inum, s) else ext2_walk_loop env fs rest inode level s)
                  else if sep = [] then Some (Inr inum, s)
                  else Some (Inl ERR_NOT_FOUND, s)))"
  by pat_completeness auto

lemma rest_shorter:
  "dropWhile (\<lambda>ch. ch \<noteq> (slash :: u8)) p \<noteq> [] \<Longrightarrow>
   length (dropWhile (\<lambda>ch. ch = slash) (dropWhile (\<lambda>ch. ch \<noteq> slash) p)) < length p"
proof -
  assume ne: "dropWhile (\<lambda>ch. ch \<noteq> slash) p \<noteq> []"
  then obtain r where r: "dropWhile (\<lambda>ch. ch \<noteq> slash) p = slash # r"
    using hd_dropWhile [OF ne] by (metis (full_types) list.collapse)
  have "length (dropWhile (\<lambda>ch. ch = slash) (slash # r)) \<le> length r"
    using length_dropWhile_le [of "\<lambda>ch. ch = slash" r] by simp
  moreover have "length (slash # r) \<le> length p" using length_dropWhile_le [of "\<lambda>ch. ch \<noteq> slash" p] r by simp
  ultimately show ?thesis using r by simp
qed

termination ext2_walk_loop
  by (relation "measure (\<lambda>(env, fs, pathp, dir_inode, level, s). length pathp)") (auto simp: rest_shorter)

declare ext2_walk_loop.simps [simp del]

definition ext2_walk ::
  "fs_env \<Rightarrow> ext2_t \<Rightarrow> bytes \<Rightarrow> ext2fs_dinode \<Rightarrow> nat \<Rightarrow> 'd fs_st \<Rightarrow> ((fs_err + u32) \<times> 'd fs_st) option"
where
  "ext2_walk env fs path start_inode level s =
     (if level > 4 then Some (Inl ERR_RECURSE_TOO_DEEP, s)
      else ext2_walk_loop env fs (dropWhile (\<lambda>ch. ch = slash) path) start_inode level s)"

text \<open>The path is copied into an array of 512 bytes first.\<close>

definition ext2_lookup ::
  "fs_env \<Rightarrow> ext2_t \<Rightarrow> bytes \<Rightarrow> 'd fs_st \<Rightarrow> ((fs_err + u32) \<times> 'd fs_st) option"
where
  "ext2_lookup env fs path s = ext2_walk env fs (take 511 path) (root_inode fs) 1 s"

section \<open>Files\<close>

text \<open>Opening is the same in both file systems; the open file is its inode.\<close>

definition ext2_open_file ::
  "fs_env \<Rightarrow> ext2_t \<Rightarrow> bytes \<Rightarrow> 'd fs_st \<Rightarrow> ((fs_err + ext2fs_dinode) \<times> 'd fs_st) option"
where
  "ext2_open_file env fs path s =
     (case ext2_lookup env fs path s of
        None \<Rightarrow> None
      | Some (Inl e, s) \<Rightarrow> Some (Inl e, s)
      | Some (Inr inum, s) \<Rightarrow>
          (case fe_malloc env 15 216 of
             None \<Rightarrow> Some (Inl ERR_NO_MEMORY, s)
           | Some _ \<Rightarrow> ext2_load_inode env fs inum s))"

definition ext4_open_file ::
  "fs_env \<Rightarrow> ext2_t \<Rightarrow> bytes \<Rightarrow> 'd fs_st \<Rightarrow> ((fs_err + ext2fs_dinode) \<times> 'd fs_st) option"
where
  "ext4_open_file env fs path s =
     (case ext2_lookup env fs path s of
        None \<Rightarrow> None
      | Some (Inl e, s) \<Rightarrow> Some (Inl e, s)
      | Some (Inr inum, s) \<Rightarrow>
          (case fe_malloc env 15 216 of
             None \<Rightarrow> Some (Inl ERR_NO_MEMORY, s)
           | Some _ \<Rightarrow> ext2_load_inode env fs inum s))"

definition ext2_read_file ::
  "fs_env \<Rightarrow> ext2_t \<Rightarrow> ext2fs_dinode \<Rightarrow> bytes \<Rightarrow> u64 \<Rightarrow> u64 \<Rightarrow> 'd fs_st \<Rightarrow> ((fs_err + bytes) \<times> 'd fs_st) option"
where
  "ext2_read_file env fs inode buf offset len s =
     (if len = 0 then Some (Inl (ERR_CODE (-1)), s)
      else if \<not> S_ISREG (e2di_mode inode) then Some (Inl (ERR_CODE (-1)), s)
      else map_option (\<lambda>(d, s). (Inr d, s)) (ext2_read_inode env fs inode buf offset len s))"

definition ext4_read_file ::
  "fs_env \<Rightarrow> ext2_t \<Rightarrow> ext2fs_dinode \<Rightarrow> u64 \<Rightarrow> u64 \<Rightarrow> u64 \<Rightarrow> bytes \<times> 'd bd_state \<Rightarrow>
   ((fs_err + u64) \<times> bytes \<times> 'd bd_state) option"
where
  "ext4_read_file env fs inode p offset len s =
     (if len = 0 then Some (Inl (ERR_CODE (-1)), s)
      else if offset \<noteq> 0 then Some (Inl (ERR_CODE (-1)), s)
      else if \<not> S_ISREG (e2di_mode inode) then Some (Inl (ERR_CODE (-1)), s)
      else ext4_read_data_from_extent env fs inode p len s)"

definition ext2_stat_file :: "ext2_t \<Rightarrow> ext2fs_dinode \<Rightarrow> u64 \<times> bool" where
  "ext2_stat_file fs inode = (ext2_file_len fs inode, S_ISDIR (e2di_mode inode))"

text \<open>Closing frees the cached indirect blocks of the file, given as pairs of block number and pointer,
  and the file object; the result is the list of pointers freed.\<close>

definition ext2_close_file :: "u64 \<Rightarrow> (u64 \<times> u64) list \<Rightarrow> u64 list" where
  "ext2_close_file file ind_cache = map snd (filter (\<lambda>(num, p). num \<noteq> 0) (take 3 ind_cache)) @ [file]"

section \<open>Mounting\<close>

text \<open>The read-only features the two file systems accept.\<close>

abbreviation (input) EXT2_ROCOMPAT :: u32 where "EXT2_ROCOMPAT \<equiv> 0x3"
abbreviation (input) EXT4_ROCOMPAT :: u32 where "EXT4_ROCOMPAT \<equiv> 0x47B"

text \<open>What both mount functions do after reading the superblock \<open>sb\<close>: \<open>feats\<close> are the accepted
  features, \<open>gdbytes\<close> the size of the descriptor table as the function computes it.\<close>

definition mount_volume ::
  "fs_env \<Rightarrow> u32 \<Rightarrow> (u32 \<Rightarrow> u32 \<Rightarrow> u64) \<Rightarrow> nat \<Rightarrow> u64 \<Rightarrow> ext2fs_super_block \<Rightarrow> 'd bd_state \<Rightarrow>
   ((fs_err + ext2_t \<times> bcache) \<times> 'd bd_state) option"
where
  "mount_volume env feats gdbytes dev offset sb st =
     (if e2fs_magic sb \<noteq> 0xEF53 then Some (Inl (ERR_CODE (-1)), st)
      else if e2fs_bpg sb = 0 then None
      else
        let groups = (e2fs_bcount sb + e2fs_bpg sb - 1) div e2fs_bpg sb
        in if e2fs_rev sb > 1 then Some (Inl (ERR_CODE (-2)), st)
           else if e2fs_features_rocompat sb AND NOT feats \<noteq> 0 then Some (Inl (ERR_CODE (-3)), st)
           else
             let gd_size = (if e3fs_desc_size sb > 32 then 64 else 32) :: u32;
                 tot = gdbytes gd_size groups
             in case fe_malloc env 2 tot of
                  None \<Rightarrow> Some (Inl ERR_NO_MEMORY, st)
                | Some q \<Rightarrow>
                    (case tegrabl_blockdev_read (fe_alloc env) (Some dev) q
                            (offset + (if E2FS_BLOCK_SIZE sb = 4096 then 4096 else 2048)) tot st of
                       ((err, gd), st) \<Rightarrow>
                         if err \<noteq> TEGRABL_NO_ERROR then Some (Inl ERR_GENERIC, st)
                         else
                           (case bcache_create (\<lambda>k. fe_malloc env (k + 3)) (fe_mem env) (fe_blocks env) (fe_links env)
                                   (Some dev) (ucast (E2FS_BLOCK_SIZE sb)) 4 offset of
                              None \<Rightarrow> None
                            | Some None \<Rightarrow> Some (Inl ERR_GENERIC, st)
                            | Some (Some cache) \<Rightarrow>
                                let fs = \<lparr>ext2_dev = Some dev, super_blk = sb, group_count = groups, grp_desc = gd,
                                          root_inode = ext2_dinode [], ext2_fs_offset = 0\<rparr>
                                in case ext2_load_inode env fs 2 (cache, st) of
                                     None \<Rightarrow> None
                                   | Some (Inl e, s) \<Rightarrow> Some (Inl e, snd s)
                                   | Some (Inr root, cache, st) \<Rightarrow>
                                       Some (Inr (fs\<lparr>root_inode := root, ext2_fs_offset := offset\<rparr>, cache), st))))"

definition read_super ::
  "fs_env \<Rightarrow> u64 \<Rightarrow> nat \<Rightarrow> u64 \<Rightarrow> 'd bd_state \<Rightarrow> ((fs_err + u64 \<times> ext2fs_super_block) \<times> 'd bd_state) option"
where
  "read_super env p dev start_sector st =
     (case dev_heap st dev of
        None \<Rightarrow> None
      | Some d \<Rightarrow>
          let offset = start_sector * TEGRABL_BLOCKDEV_BLOCK_SIZE d
          in case tegrabl_blockdev_read (fe_alloc env) (Some dev) p (offset + 1024) 1024 st of
               ((err, b), st) \<Rightarrow>
                 if err \<noteq> TEGRABL_NO_ERROR then Some (Inl ERR_GENERIC, st)
                 else Some (Inr (offset, ext2_super_block b), st))"

definition ext2_mount ::
  "fs_env \<Rightarrow> nat option \<Rightarrow> u64 \<Rightarrow> 'd bd_state \<Rightarrow> ((fs_err + ext2_t \<times> bcache) \<times> 'd bd_state) option"
where
  "ext2_mount env dev start_sector st =
     (case dev of
        None \<Rightarrow> Some (Inl ERR_NOT_FOUND, st)
      | Some dev \<Rightarrow>
          (case fe_malloc env 0 1224 of
             None \<Rightarrow> Some (Inl ERR_NO_MEMORY, st)
           | Some p \<Rightarrow>
               (case read_super env (p + 16) dev start_sector st of
                  None \<Rightarrow> None
                | Some (Inl e, st) \<Rightarrow> Some (Inl e, st)
                | Some (Inr (offset, sb), st) \<Rightarrow>
                    mount_volume env EXT2_ROCOMPAT (\<lambda>g n. ucast (g * n)) dev offset sb st)))"

definition ext4_mount ::
  "fs_env \<Rightarrow> nat option \<Rightarrow> u64 \<Rightarrow> 'd bd_state \<Rightarrow> ((fs_err + ext2_t \<times> bcache) \<times> 'd bd_state) option"
where
  "ext4_mount env dev start_sector st =
     (case dev of
        None \<Rightarrow> Some (Inl ERR_NOT_FOUND, st)
      | Some dev \<Rightarrow>
          (case (fe_malloc env 0 1224, fe_malloc env 1 1024) of
             (Some _, Some p) \<Rightarrow>
               (case read_super env p dev start_sector st of
                  None \<Rightarrow> None
                | Some (Inl e, st) \<Rightarrow> Some (Inl e, st)
                | Some (Inr (offset, sb), st) \<Rightarrow>
                    mount_volume env EXT4_ROCOMPAT (\<lambda>g n. ucast g * scast n) dev offset sb st)
           | _ \<Rightarrow> Some (Inl ERR_NO_MEMORY, st)))"

definition ext2_unmount :: "bool \<Rightarrow> bcache \<Rightarrow> u64 option list option" where
  "ext2_unmount dbg cache = bcache_destroy dbg cache"

end
