(* ===== verification/Bcache_Lists.thy ===== *)
theory Bcache_Lists
  imports Bcache
begin

text \<open>
  The two lists of the block cache as lists of block indices: every block is on exactly one of them,
  a walk over the cached blocks is a search in that list and always ends, and finding, reusing and
  taking a block are the corresponding list operations.
\<close>

definition bc_lists :: "bcache \<Rightarrow> nat list \<Rightarrow> nat list \<Rightarrow> bool" where
  "bc_lists c fr lru \<longleftrightarrow>
     circ (clinks c) Free_list (map Node fr) \<and> circ (clinks c) Lru_list (map Node lru) \<and>
     distinct (fr @ lru) \<and> set (fr @ lru) = {..<length (blocks c)}"

lemma upd_block_simps [simp]:
  "clinks (upd_block i f c) = clinks c" "cdev (upd_block i f c) = cdev c"
  "cblock_size (upd_block i f c) = cblock_size c" "fs_offset (upd_block i f c) = fs_offset c"
  "stats (upd_block i f c) = stats c" "length (blocks (upd_block i f c)) = length (blocks c)"
  "cache_count (upd_block i f c) = cache_count c"
  by (simp_all add: upd_block_def)

lemma blk_upd_block: "j < length (blocks c) \<Longrightarrow>
  blk (upd_block i f c) j = (if j = i then f (blk c i) else blk c j)"
  by (auto simp: upd_block_def nth_list_update)

lemma bc_lists_cong:
  "clinks c' = clinks c \<Longrightarrow> length (blocks c') = length (blocks c) \<Longrightarrow>
   bc_lists c' fr lru = bc_lists c fr lru"
  by (simp add: bc_lists_def)

lemma bc_lists_less: "bc_lists c fr lru \<Longrightarrow> i \<in> set lru \<Longrightarrow> i < length (blocks c)"
  unfolding bc_lists_def by auto

lemma bc_lists_free_less: "bc_lists c fr lru \<Longrightarrow> i \<in> set fr \<Longrightarrow> i < length (blocks c)"
  unfolding bc_lists_def by auto

text \<open>The number of blocks a walk looks at before it stops.\<close>

definition looked_at :: "('a \<Rightarrow> bool) \<Rightarrow> 'a list \<Rightarrow> nat" where
  "looked_at P xs = min (length xs) (Suc (length (takeWhile (\<lambda>x. \<not> P x) xs)))"

lemma lru_walk_from:
  assumes "circ (clinks c) Lru_list (map Node (as @ bs))" "\<And>i. i \<in> set bs \<Longrightarrow> i < length (blocks c)"
  shows "lru_walk test c (Some (hd (map Node bs @ [Lru_list]))) n =
    Some (find (\<lambda>i. test (blk c i)) bs, n + of_nat (looked_at (\<lambda>i. test (blk c i)) bs))"
  using assms
proof (induction bs arbitrary: as n)
  case Nil
  then show ?case by (subst lru_walk.simps) (simp add: looked_at_def)
next
  case (Cons i bs)
  have "nnext (clinks c) (Node i) = Some (hd (map Node bs @ [Lru_list]))"
    using circ_mid(1) [of "clinks c" Lru_list "map Node as" "Node i" "map Node bs"] Cons.prems(1) by simp
  moreover have "lru_walk test c (Some (hd (map Node bs @ [Lru_list]))) (n + 1) =
      Some (find (\<lambda>i. test (blk c i)) bs, (n + 1) + of_nat (looked_at (\<lambda>i. test (blk c i)) bs))"
    using Cons.IH [of "as @ [i]" "n + 1"] Cons.prems by simp
  ultimately show ?case
    using Cons.prems(2) [of i] by (subst lru_walk.simps) (auto simp: looked_at_def algebra_simps)
qed

lemma lru_walk_all:
  assumes "bc_lists c fr lru"
  shows "lru_walk test c (nnext (clinks c) Lru_list) n =
    Some (find (\<lambda>i. test (blk c i)) lru, n + of_nat (looked_at (\<lambda>i. test (blk c i)) lru))"
  using lru_walk_from [of c "[]" lru test n] circ_next_head [of "clinks c" Lru_list "map Node lru"]
    assms bc_lists_less [OF assms] by (simp add: bc_lists_def)

lemma move_to_tail_lists:
  assumes "bc_lists c fr (as @ i # bs)"
  obtains l where "move_to_tail i c = Some (c\<lparr>clinks := l\<rparr>)" "bc_lists (c\<lparr>clinks := l\<rparr>) fr (as @ bs @ [i])"
proof -
  have c: "circ (clinks c) Lru_list (map Node as @ Node i # map Node bs)"
    and f: "circ (clinks c) Free_list (map Node fr)"
    and d: "distinct (fr @ as @ i # bs)" and s: "set (fr @ as @ i # bs) = {..<length (blocks c)}"
    using assms by (simp_all add: bc_lists_def)
  obtain t u where "list_delete (Node i) (clinks c) = Some t" "list_add_tail Lru_list (Node i) t = Some u"
    and u: "circ u Lru_list (map Node as @ map Node bs @ [Node i])"
      "same_links_off (set (Lru_list # map Node as @ Node i # map Node bs)) (clinks c) u"
    using move_to_tail_circ [OF c] by blast
  then have "move_to_tail i c = Some (c\<lparr>clinks := u\<rparr>)" by (simp add: move_to_tail_def)
  moreover have "circ u Free_list (map Node fr)"
    by (rule circ_other [OF f u(2)]) (use d in auto)
  moreover have "distinct (fr @ as @ bs @ [i])" "set (fr @ as @ bs @ [i]) = {..<length (blocks c)}"
    using d s by auto
  ultimately show thesis using that u(1) by (simp add: bc_lists_def)
qed

lemma take_free_lists:
  assumes "bc_lists c (i # fr) lru"
  obtains l l' where "list_remove_head Free_list (clinks c) = Some (Some (Node i), l)"
    "list_add_tail Lru_list (Node i) l = Some l'" "bc_lists (c\<lparr>clinks := l'\<rparr>) fr (lru @ [i])"
proof -
  have f: "circ (clinks c) Free_list (Node i # map Node fr)" and c: "circ (clinks c) Lru_list (map Node lru)"
    and d: "distinct (i # fr @ lru)" and s: "set (i # fr @ lru) = {..<length (blocks c)}"
    using assms by (simp_all add: bc_lists_def)
  obtain t where t: "list_remove_head Free_list (clinks c) = Some (Some (Node i), t)"
    "circ t Free_list (map Node fr)" "same_links_off (set (Free_list # Node i # map Node fr)) (clinks c) t"
    using list_remove_head_circ [OF f] by blast
  have "circ t Lru_list (map Node lru)"
    by (rule circ_other [OF c t(3)]) (use d in auto)
  then obtain u where u: "list_add_tail Lru_list (Node i) t = Some u"
    "circ u Lru_list (map Node lru @ [Node i])"
    "same_links_off (insert (Node i) (set (Lru_list # map Node lru))) t u"
    using list_add_tail_circ [of t Lru_list "map Node lru" "Node i"] d by auto
  have "circ u Free_list (map Node fr)"
    by (rule circ_other [OF t(2) u(3)]) (use d in auto)
  moreover have "distinct (fr @ lru @ [i])" "set (fr @ lru @ [i]) = {..<length (blocks c)}"
    using d s by auto
  ultimately show thesis using that t(1) u(1,2) by (simp add: bc_lists_def)
qed

lemma find_in_list: "find P xs = Some x \<Longrightarrow> \<exists>as bs. xs = as @ x # bs \<and> P x \<and> (\<forall>y\<in>set as. \<not> P y)"
proof (induction xs)
  case (Cons a xs)
  show ?case
  proof (cases "P a")
    case True
    then have "a # xs = [] @ x # xs" "P x" using Cons.prems by simp_all
    then show ?thesis by (metis empty_iff empty_set)
  next
    case False
    then obtain as bs where "xs = as @ x # bs" "P x" "\<forall>y\<in>set as. \<not> P y" using Cons by auto
    then have "a # xs = (a # as) @ x # bs \<and> P x \<and> (\<forall>y\<in>set (a # as). \<not> P y)" using False by simp
    then show ?thesis by blast
  qed
qed simp

text \<open>Finding a block: a hit moves it to the end of the list, a miss changes the statistics only.\<close>

lemma find_block_hit:
  assumes "bc_lists c fr lru" and "find (\<lambda>i. blocknum (blk c i) = num) lru = Some i"
  obtains as bs l s where "lru = as @ i # bs" "find_block num c = Some (Some i, c\<lparr>clinks := l, stats := s\<rparr>)"
    "bc_lists (c\<lparr>clinks := l, stats := s\<rparr>) fr (as @ bs @ [i])"
    "hits s = hits (stats c) + 1" "misses s = misses (stats c)"
    "depth s = depth (stats c) + of_nat (Suc (length as))"
proof -
  obtain as bs where lru: "lru = as @ i # bs" and hit: "blocknum (blk c i) = num"
    "\<forall>j\<in>set as. blocknum (blk c j) \<noteq> num"
    using find_in_list [OF assms(2)] by blast
  obtain l where l: "move_to_tail i c = Some (c\<lparr>clinks := l\<rparr>)" "bc_lists (c\<lparr>clinks := l\<rparr>) fr (as @ bs @ [i])"
    using move_to_tail_lists assms(1) lru by metis
  have n: "looked_at (\<lambda>i. blocknum (blk c i) = num) lru = Suc (length as)"
    using lru hit by (simp add: looked_at_def takeWhile_append)
  let ?s = "(stats c)\<lparr>hits := hits (stats c) + 1, depth := depth (stats c) + of_nat (Suc (length as))\<rparr>"
  have "find_block num c = Some (Some i, c\<lparr>clinks := l, stats := ?s\<rparr>)"
    using lru_walk_all [OF assms(1), of "\<lambda>b. blocknum b = num" 0] assms(2) l(1) n
    by (simp add: find_block_def)
  moreover have "bc_lists (c\<lparr>clinks := l, stats := ?s\<rparr>) fr (as @ bs @ [i])"
    using l(2) by (simp add: bc_lists_def)
  ultimately show thesis by (rule that [OF lru]) simp_all
qed

lemma find_block_miss:
  assumes "bc_lists c fr lru" and "find (\<lambda>i. blocknum (blk c i) = num) lru = None"
  shows "find_block num c = Some (None, c\<lparr>stats := (stats c)\<lparr>misses := misses (stats c) + 1\<rparr>\<rparr>)"
  using lru_walk_all [OF assms(1), of "\<lambda>b. blocknum b = num" 0] assms(2) by (simp add: find_block_def)

end
