(* ===== verification/Bcache_Correct.thy ===== *)
theory Bcache_Correct
  imports Bcache_Lists Blockdev_Correct
begin

text \<open>
  Correctness of the block cache on a live device. The invariant \<open>bc_ok\<close> says that the lists are
  well formed, no block number is cached twice and every clean cached block holds the bytes of the
  device; \<open>bview\<close> is the file system as seen through the cache. Replacing a block, filling it and
  writing it back keep the invariant and the view, and leave referenced blocks alone.
\<close>

section \<open>The device behind a handle\<close>

definition handle_img :: "('d \<Rightarrow> bytes) \<Rightarrow> nat \<Rightarrow> 'd bd_state \<Rightarrow> bytes" where
  "handle_img contents a st = bdev_img contents (the (dev_heap st a))"

definition handle_live :: "('d \<Rightarrow> bytes) \<Rightarrow> alloc_env \<Rightarrow> nat \<Rightarrow> 'd bd_state \<Rightarrow> bool" where
  "handle_live contents alloc a st \<longleftrightarrow> (\<exists>d. dev_heap st a = Some d \<and> bdev_live contents alloc d)"

lemma handle_img_bound: "handle_live contents alloc a st \<Longrightarrow> length (handle_img contents a st) < 2 ^ 64"
proof -
  assume "handle_live contents alloc a st"
  then obtain d where d: "dev_heap st a = Some d" "bdev_live contents alloc d"
    by (auto simp: handle_live_def)
  have "unat (dev_size d) < 2 ^ 64" using unsigned_less [of "dev_size d"] by simp
  then show ?thesis
    using bdev_size_unat [OF bdev_live_ok [OF d(2)]] d(1) by (simp add: handle_img_def)
qed

lemma handle_read:
  assumes "handle_live contents alloc a st" "p \<noteq> 0" "n \<noteq> 0"
    and "unat off + unat n \<le> length (handle_img contents a st)"
  obtains st' where "tegrabl_blockdev_read alloc (Some a) p off n st =
      ((TEGRABL_NO_ERROR, subrange (unat off) (unat n) (handle_img contents a st)), st')"
    "handle_live contents alloc a st'" "handle_img contents a st' = handle_img contents a st"
proof -
  obtain d where d: "dev_heap st a = Some d" "bdev_live contents alloc d"
    using assms(1) by (auto simp: handle_live_def)
  obtain d' where d': "bdev_read alloc d p off n =
      ((TEGRABL_NO_ERROR, subrange (unat off) (unat n) (bdev_img contents d)), d')"
    "same_dev contents d d'" "bdev_img contents d' = bdev_img contents d"
    using bdev_read_succeeds [OF d(2) assms(2,3)] assms(4) d(1) by (metis handle_img_def option.sel)
  show thesis
    by (rule that [of "dev_update a d' st"])
      (use d d' bdev_live_same [OF d(2) d'(2)] in
        \<open>simp_all add: tegrabl_blockdev_read_def on_dev_def handle_live_def handle_img_def dev_update_def\<close>)
qed

lemma handle_write:
  assumes "handle_live contents alloc a st" "p \<noteq> 0" "unat p + unat n < 2 ^ 64" "n \<noteq> 0" "length x = unat n"
    and "unat off + unat n \<le> length (handle_img contents a st)"
  obtains st' where "tegrabl_blockdev_write alloc (Some a) p x off n st = (TEGRABL_NO_ERROR, st')"
    "handle_live contents alloc a st'"
    "handle_img contents a st' = overwrite (unat off) x (handle_img contents a st)"
proof -
  obtain d where d: "dev_heap st a = Some d" "bdev_live contents alloc d"
    using assms(1) by (auto simp: handle_live_def)
  obtain d' where d': "bdev_write alloc d p x off n = (TEGRABL_NO_ERROR, d')"
    "same_dev contents d d'" "bdev_img contents d' = overwrite (unat off) x (bdev_img contents d)"
    using bdev_write_succeeds [OF d(2) assms(2-5)] assms(6) d(1) by (metis handle_img_def option.sel)
  show thesis
    by (rule that [of "dev_update a d' st"])
      (use d d' bdev_live_same [OF d(2) d'(2)] in
        \<open>simp_all add: tegrabl_blockdev_write_def on_dev_def handle_live_def handle_img_def dev_update_def\<close>)
qed

section \<open>The file system through the cache\<close>

definition fs_at :: "bcache \<Rightarrow> bnum_t \<Rightarrow> nat" where
  "fs_at c n = unat (fs_offset c) + unat n * unat (cblock_size c)"

definition fs_block :: "bcache \<Rightarrow> bytes \<Rightarrow> bnum_t \<Rightarrow> bytes" where
  "fs_block c img n = subrange (fs_at c n) (unat (cblock_size c)) img"

definition fs_has :: "bcache \<Rightarrow> bytes \<Rightarrow> bnum_t \<Rightarrow> bool" where
  "fs_has c img n \<longleftrightarrow> fs_at c n + unat (cblock_size c) \<le> length img"

definition bview :: "bcache \<Rightarrow> nat list \<Rightarrow> bytes \<Rightarrow> bnum_t \<Rightarrow> bytes" where
  "bview c lru img n =
     (case find (\<lambda>i. blocknum (blk c i) = n) lru of
        Some i \<Rightarrow> bdata (blk c i) | None \<Rightarrow> fs_block c img n)"

lemma fs_at_word:
  assumes "fs_has c img n" "length img < 2 ^ 64"
  shows "unat (fs_offset c + ucast n * cblock_size c) = fs_at c n"
proof -
  have n: "unat (ucast n :: u64) = unat n" by (rule unat_ucast_up) simp
  have "unat n * unat (cblock_size c) < 2 ^ 64" "fs_at c n < 2 ^ 64"
    using assms by (simp_all add: fs_has_def fs_at_def)
  then show ?thesis
    by (simp add: fs_at_def n unat_word_ariths)
qed

lemma fs_at_disjoint:
  assumes "m \<noteq> n"
  shows "fs_at c m + unat (cblock_size c) \<le> fs_at c n \<or> fs_at c n + unat (cblock_size c) \<le> fs_at c m"
proof -
  have "unat m \<noteq> unat n" using assms word_unat_eq_iff by blast
  then consider "Suc (unat m) \<le> unat n" | "Suc (unat n) \<le> unat m" by linarith
  then show ?thesis
    by cases (use mult_le_mono1 [of "Suc (unat m)" "unat n" "unat (cblock_size c)"]
        mult_le_mono1 [of "Suc (unat n)" "unat m" "unat (cblock_size c)"] in \<open>simp_all add: fs_at_def\<close>)
qed

lemma fs_block_length: "fs_has c img n \<Longrightarrow> length (fs_block c img n) = unat (cblock_size c)"
  by (simp add: fs_block_def fs_has_def)

lemma fs_block_overwrite:
  assumes "fs_has c img n" "length x = unat (cblock_size c)"
  shows "fs_block c (overwrite (fs_at c n) x img) m = (if m = n then x else fs_block c img m)"
proof (cases "m = n")
  case True
  then show ?thesis
    using assms subrange_overwrite_same [of "fs_at c n" x img] by (simp add: fs_block_def fs_has_def)
next
  case False
  then show ?thesis
    using assms subrange_overwrite_disjoint [of "fs_at c n" x img "fs_at c m" "unat (cblock_size c)"]
      fs_at_disjoint [OF False, of c] by (simp add: fs_block_def fs_has_def)
qed

section \<open>The invariant\<close>

definition coherent :: "bcache \<Rightarrow> nat list \<Rightarrow> bytes \<Rightarrow> bool" where
  "coherent c lru img \<longleftrightarrow>
     distinct (map (\<lambda>i. blocknum (blk c i)) lru) \<and>
     (\<forall>i\<in>set lru. fs_has c img (blocknum (blk c i)) \<and>
        (\<not> is_dirty (blk c i) \<longrightarrow> bdata (blk c i) = fs_block c img (blocknum (blk c i)))) \<and>
     (fs_offset c = 0 \<or> (\<forall>i\<in>set lru. \<not> is_dirty (blk c i)))"

definition block_ok :: "u64 \<Rightarrow> bcache_block \<Rightarrow> bool" where
  "block_ok sz b \<longleftrightarrow> length (bdata b) = unat sz \<and> ptr b \<noteq> 0 \<and> unat (ptr b) + unat sz < 2 ^ 64"

definition bc_base ::
  "('d \<Rightarrow> bytes) \<Rightarrow> alloc_env \<Rightarrow> nat \<Rightarrow> nat list \<Rightarrow> nat list \<Rightarrow> bcache \<Rightarrow> 'd bd_state \<Rightarrow> bool"
where
  "bc_base contents alloc a fr lru c st \<longleftrightarrow>
     cdev c = Some a \<and> handle_live contents alloc a st \<and> cblock_size c \<noteq> 0 \<and> bc_lists c fr lru \<and>
     (\<forall>i<length (blocks c). block_ok (cblock_size c) (blk c i)) \<and> (\<forall>i\<in>set fr. \<not> is_dirty (blk c i))"

definition bc_ok ::
  "('d \<Rightarrow> bytes) \<Rightarrow> alloc_env \<Rightarrow> nat \<Rightarrow> nat list \<Rightarrow> nat list \<Rightarrow> bcache \<Rightarrow> 'd bd_state \<Rightarrow> bool"
where
  "bc_ok contents alloc a fr lru c st \<longleftrightarrow>
     bc_base contents alloc a fr lru c st \<and> coherent c lru (handle_img contents a st)"

text \<open>A cache whose last used block \<open>i\<close> holds nothing yet.\<close>

definition bc_spare ::
  "('d \<Rightarrow> bytes) \<Rightarrow> alloc_env \<Rightarrow> nat \<Rightarrow> nat \<Rightarrow> nat list \<Rightarrow> nat list \<Rightarrow> bcache \<Rightarrow> 'd bd_state \<Rightarrow> bool"
where
  "bc_spare contents alloc a i fr lru c st \<longleftrightarrow>
     bc_base contents alloc a fr (lru @ [i]) c st \<and> coherent c lru (handle_img contents a st) \<and>
     \<not> is_dirty (blk c i) \<and> ref_count (blk c i) = 0"

lemma find_cached:
  assumes "distinct (map f xs)" "i \<in> set xs"
  shows "find (\<lambda>j. f j = f i) xs = Some i"
  using assms by (induction xs) (auto simp: image_iff)

lemma find_not_cached: "find P xs = None \<longleftrightarrow> (\<forall>x\<in>set xs. \<not> P x)"
  by (auto simp: find_None_iff)

lemma bview_cached:
  "coherent c lru img \<Longrightarrow> i \<in> set lru \<Longrightarrow> bview c lru img (blocknum (blk c i)) = bdata (blk c i)"
  using find_cached [of "\<lambda>i. blocknum (blk c i)" lru i] by (simp add: bview_def coherent_def)

lemma bview_uncached:
  "(\<And>i. i \<in> set lru \<Longrightarrow> blocknum (blk c i) \<noteq> n) \<Longrightarrow> bview c lru img n = fs_block c img n"
  using find_not_cached [of "\<lambda>i. blocknum (blk c i) = n" lru] by (simp add: bview_def)

text \<open>The view is determined by what is cached and by the device.\<close>

lemma bview_eqI:
  assumes "coherent c lru img" "coherent c' lru' img'"
    and "\<And>i. i \<in> set lru \<Longrightarrow> bview c' lru' img' (blocknum (blk c i)) = bdata (blk c i)"
    and "\<And>n. (\<And>i. i \<in> set lru \<Longrightarrow> blocknum (blk c i) \<noteq> n) \<Longrightarrow> bview c' lru' img' n = fs_block c img n"
  shows "bview c' lru' img' = bview c lru img"
proof
  fix n
  show "bview c' lru' img' n = bview c lru img n"
  proof (cases "\<exists>i\<in>set lru. blocknum (blk c i) = n")
    case True
    then show ?thesis using assms(3) bview_cached [OF assms(1)] by metis
  next
    case False
    then show ?thesis using assms(4) bview_uncached by metis
  qed
qed

text \<open>Reordering the list, links and statistics matter to neither.\<close>

lemma coherent_reorder:
  assumes "coherent c lru img" "blocks c' = blocks c" "cblock_size c' = cblock_size c"
    "fs_offset c' = fs_offset c" "set lru' = set lru" "distinct lru'"
  shows "coherent c' lru' img" and "bview c' lru' img = bview c lru img"
proof -
  have eq: "fs_has c' img = fs_has c img" "fs_block c' img = fs_block c img"
    using assms by (auto simp: fs_has_def fs_block_def fs_at_def fun_eq_iff)
  have "inj_on (\<lambda>i. blocknum (blk c i)) (set lru)"
    using assms(1) by (simp add: coherent_def distinct_map)
  then show co: "coherent c' lru' img"
    using assms eq by (simp add: coherent_def distinct_map)
  show "bview c' lru' img = bview c lru img"
  proof (rule bview_eqI [OF assms(1) co])
    show "bview c' lru' img (blocknum (blk c i)) = bdata (blk c i)" if "i \<in> set lru" for i
      using bview_cached [OF co, of i] that assms(2,5) by simp
    show "bview c' lru' img n = fs_block c img n" if "\<And>i. i \<in> set lru \<Longrightarrow> blocknum (blk c i) \<noteq> n" for n
      using bview_uncached [of lru' c' n img] that assms(2,5) eq by simp
  qed
qed

text \<open>Dropping a clean block from the list does not change the view.\<close>

lemma coherent_drop:
  assumes "coherent c (lru @ [i]) img" "\<not> is_dirty (blk c i)"
  shows "coherent c lru img" and "bview c lru img = bview c (lru @ [i]) img"
proof -
  show co: "coherent c lru img" using assms(1) by (auto simp: coherent_def)
  show "bview c lru img = bview c (lru @ [i]) img"
  proof (rule bview_eqI [OF assms(1) co])
    show "bview c lru img (blocknum (blk c j)) = bdata (blk c j)" if j: "j \<in> set (lru @ [i])" for j
    proof (cases "j \<in> set lru")
      case True
      then show ?thesis by (rule bview_cached [OF co])
    next
      case False
      then have "j = i" using j by simp
      moreover have "bview c lru img (blocknum (blk c i)) = fs_block c img (blocknum (blk c i))"
        by (rule bview_uncached) (use assms(1) in \<open>auto simp: coherent_def image_iff\<close>)
      ultimately show ?thesis using assms by (simp add: coherent_def)
    qed
    show "bview c lru img n = fs_block c img n"
      if "\<And>j. j \<in> set (lru @ [i]) \<Longrightarrow> blocknum (blk c j) \<noteq> n" for n
      by (rule bview_uncached) (use that in auto)
  qed
qed

section \<open>Writing a block back\<close>

lemma bc_lists_disjoint: "bc_lists c fr lru \<Longrightarrow> i \<in> set fr \<Longrightarrow> i \<notin> set lru"
  by (auto simp: bc_lists_def)

lemma flush_block_ok:
  assumes ok: "bc_ok contents alloc a fr lru c st" and i: "i \<in> set lru" "is_dirty (blk c i)"
  obtains s st' where "flush_block alloc i c st =
      (True, (upd_block i (\<lambda>b. b\<lparr>is_dirty := False\<rparr>) c)\<lparr>stats := s\<rparr>, st')"
    "bc_ok contents alloc a fr lru ((upd_block i (\<lambda>b. b\<lparr>is_dirty := False\<rparr>) c)\<lparr>stats := s\<rparr>) st'"
    "bview ((upd_block i (\<lambda>b. b\<lparr>is_dirty := False\<rparr>) c)\<lparr>stats := s\<rparr>) lru (handle_img contents a st') =
      bview c lru (handle_img contents a st)"
    "length (handle_img contents a st') = length (handle_img contents a st)"
proof -
  let ?img = "handle_img contents a st"
  define n where "n = blocknum (blk c i)"
  define x where "x = bdata (blk c i)"
  have base: "bc_base contents alloc a fr lru c st" and co: "coherent c lru ?img"
    using ok by (simp_all add: bc_ok_def)
  have il: "i < length (blocks c)" using base i(1) bc_lists_less by (auto simp: bc_base_def)
  have b: "block_ok (cblock_size c) (blk c i)" "cdev c = Some a" "handle_live contents alloc a st"
    "cblock_size c \<noteq> 0" using base il by (simp_all add: bc_base_def)
  have off: "fs_offset c = 0" and has: "fs_has c ?img n" using co i by (auto simp: coherent_def n_def)
  have at: "unat (ucast n * cblock_size c) = fs_at c n"
    using fs_at_word [OF has handle_img_bound [OF b(3)]] off by simp
  have lx: "length x = unat (cblock_size c)" using b(1) by (simp add: block_ok_def x_def)
  have fits: "unat (ucast n * cblock_size c) + unat (cblock_size c) \<le> length ?img"
    using has at by (simp add: fs_has_def)
  obtain st' where w: "tegrabl_blockdev_write alloc (Some a) (ptr (blk c i)) x (ucast n * cblock_size c)
      (cblock_size c) st = (TEGRABL_NO_ERROR, st')" "handle_live contents alloc a st'"
    "handle_img contents a st' = overwrite (fs_at c n) x ?img"
    using handle_write [OF b(3) _ _ b(4) lx fits] b(1) unfolding at by (auto simp: block_ok_def)
  let ?c = "upd_block i (\<lambda>b. b\<lparr>is_dirty := False\<rparr>) c"
  let ?s = "(stats ?c)\<lparr>writes := writes (stats ?c) + 1\<rparr>"
  let ?c' = "?c\<lparr>stats := ?s\<rparr>"
  have run: "flush_block alloc i c st = (True, ?c', st')"
    using w(1) b(2) by (simp add: flush_block_def n_def x_def Let_def)
  have len: "length (handle_img contents a st') = length ?img"
    using w(3) has lx by (simp add: fs_has_def)
  have cfg: "fs_has ?c' img = fs_has c img" "fs_block ?c' img = fs_block c img" for img
    by (auto simp: fs_has_def fs_block_def fs_at_def fun_eq_iff)
  have has': "fs_has c (handle_img contents a st') m = fs_has c ?img m" for m
    using len by (simp add: fs_has_def)
  have blk': "blk ?c' j = (if j = i then (blk c i)\<lparr>is_dirty := False\<rparr> else blk c j)"
    if "j < length (blocks c)" for j using blk_upd_block [OF that] by simp
  have ll: "j < length (blocks c)" if "j \<in> set lru" for j
    using base that bc_lists_less by (auto simp: bc_base_def)
  have num: "map (\<lambda>j. blocknum (blk ?c' j)) lru = map (\<lambda>j. blocknum (blk c j)) lru"
    using blk' ll by auto
  have only: "blocknum (blk c j) = n \<longleftrightarrow> j = i" if "j \<in> set lru" for j
    using co that i(1) by (auto simp: coherent_def distinct_map inj_on_def n_def)
  have img': "fs_block c (handle_img contents a st') m = (if m = n then x else fs_block c ?img m)" for m
    unfolding w(3) by (rule fs_block_overwrite [OF has lx])
  have co': "coherent ?c' lru (handle_img contents a st')"
    unfolding coherent_def num cfg has'
    using co ll blk' only off by (auto simp: coherent_def img' x_def n_def)
  have base': "bc_base contents alloc a fr lru ?c' st'"
    using base w(2) blk' bc_lists_cong [of ?c' c fr lru] bc_lists_free_less [of c fr lru]
    by (auto simp: bc_base_def block_ok_def)
  have "bview ?c' lru (handle_img contents a st') = bview c lru ?img"
  proof (rule bview_eqI [OF co co'])
    show "bview ?c' lru (handle_img contents a st') (blocknum (blk c j)) = bdata (blk c j)" if "j \<in> set lru" for j
      using bview_cached [OF co' that] blk' [OF ll [OF that]] by (auto split: if_splits)
    show "bview ?c' lru (handle_img contents a st') m = fs_block c ?img m"
      if m: "\<And>j. j \<in> set lru \<Longrightarrow> blocknum (blk c j) \<noteq> m" for m
    proof -
      have "blocknum (blk ?c' j) \<noteq> m" if "j \<in> set lru" for j
        using m [OF that] blk' [OF ll [OF that]] by (auto split: if_splits)
      then have "bview ?c' lru (handle_img contents a st') m = fs_block ?c' (handle_img contents a st') m"
        by (rule bview_uncached)
      moreover have "m \<noteq> n" using m [OF i(1)] by (auto simp: n_def)
      ultimately show ?thesis using img' cfg by simp
    qed
  qed
  then show thesis using that [OF run] base' co' len by (simp add: bc_ok_def)
qed

section \<open>Taking a block\<close>

text \<open>What an operation leaves alone: every block it does not reuse, and the configuration.\<close>

definition same_config :: "bcache \<Rightarrow> bcache \<Rightarrow> bool" where
  "same_config c c' \<longleftrightarrow> cdev c' = cdev c \<and> cblock_size c' = cblock_size c \<and> fs_offset c' = fs_offset c \<and>
     length (blocks c') = length (blocks c)"

lemma same_config_refl [simp]: "same_config c c"
  by (simp add: same_config_def)

lemma same_config_trans: "same_config c c' \<Longrightarrow> same_config c' c'' \<Longrightarrow> same_config c c''"
  by (simp add: same_config_def)

lemma fs_config:
  "same_config c c' \<Longrightarrow> fs_has c' = fs_has c" "same_config c c' \<Longrightarrow> fs_block c' = fs_block c"
  by (auto simp: same_config_def fs_has_def fs_block_def fs_at_def fun_eq_iff)

lemma alloc_free_block:
  assumes ok: "bc_ok contents alloc a (i # fr) lru c st"
  obtains c' where "alloc_block alloc c st = Some (Some i, c', st)"
    "bc_spare contents alloc a i fr lru c' st" "same_config c c'"
    "\<And>j. j < length (blocks c) \<Longrightarrow> j \<noteq> i \<Longrightarrow> blk c' j = blk c j"
    "bview c' lru (handle_img contents a st) = bview c lru (handle_img contents a st)"
proof -
  have lists: "bc_lists c (i # fr) lru" using ok by (simp add: bc_ok_def bc_base_def)
  obtain l l' where l: "list_remove_head Free_list (clinks c) = Some (Some (Node i), l)"
    "list_add_tail Lru_list (Node i) l = Some l'" "bc_lists (c\<lparr>clinks := l'\<rparr>) fr (lru @ [i])"
    using take_free_lists [OF lists] by blast
  let ?c = "upd_block i (\<lambda>b. b\<lparr>ref_count := 0\<rparr>) (c\<lparr>clinks := l'\<rparr>)"
  have run: "alloc_block alloc c st = Some (Some i, ?c, st)" using l by (simp add: alloc_block_def)
  have il: "i < length (blocks c)" using bc_lists_free_less [OF lists] by simp
  have blk': "blk ?c j = (if j = i then (blk c i)\<lparr>ref_count := 0\<rparr> else blk c j)" if "j < length (blocks c)" for j
    using blk_upd_block [of j "c\<lparr>clinks := l'\<rparr>"] that by simp
  have ne: "j \<noteq> i \<and> j < length (blocks c)" if "j \<in> set lru" for j
    using bc_lists_less [OF lists that] bc_lists_disjoint [OF lists, of i] that by auto
  have cfg: "same_config c ?c" by (simp add: same_config_def)
  have same: "blk ?c j = blk c j" if "j \<in> set lru" for j using blk' ne [OF that] by simp
  have co: "coherent c lru (handle_img contents a st)" using ok by (simp add: bc_ok_def)
  have num: "map (\<lambda>j. blocknum (blk ?c j)) lru = map (\<lambda>j. blocknum (blk c j)) lru" using same by simp
  have co': "coherent ?c lru (handle_img contents a st)"
    unfolding coherent_def num fs_config [OF cfg] using co same by (auto simp: coherent_def)
  have "bview ?c lru (handle_img contents a st) = bview c lru (handle_img contents a st)"
  proof (rule bview_eqI [OF co co'])
    show "bview ?c lru (handle_img contents a st) (blocknum (blk c j)) = bdata (blk c j)" if "j \<in> set lru" for j
      using bview_cached [OF co' that] same [OF that] by simp
    show "bview ?c lru (handle_img contents a st) n = fs_block c (handle_img contents a st) n"
      if "\<And>j. j \<in> set lru \<Longrightarrow> blocknum (blk c j) \<noteq> n" for n
      using bview_uncached [of lru ?c n] that same fs_config(2) [OF cfg] by simp
  qed
  moreover have "bc_spare contents alloc a i fr lru ?c st"
    using ok l(3) co' blk' il bc_lists_cong [of ?c "c\<lparr>clinks := l'\<rparr>"] bc_lists_free_less [OF lists]
    by (auto simp: bc_spare_def bc_ok_def bc_base_def block_ok_def)
  ultimately show thesis using that [OF run] cfg blk' by simp
qed

lemma spare_last:
  assumes ok: "bc_ok contents alloc a fr (as @ i # bs) c st"
    and i: "\<not> is_dirty (blk c i)" "ref_count (blk c i) = 0"
  obtains c' where "move_to_tail i c = Some c'" "bc_spare contents alloc a i fr (as @ bs) c' st"
    "same_config c c'" "blocks c' = blocks c" "stats c' = stats c"
    "bview c' (as @ bs) (handle_img contents a st) = bview c (as @ i # bs) (handle_img contents a st)"
proof -
  have lists: "bc_lists c fr (as @ i # bs)" and co: "coherent c (as @ i # bs) (handle_img contents a st)"
    using ok by (simp_all add: bc_ok_def bc_base_def)
  obtain l where l: "move_to_tail i c = Some (c\<lparr>clinks := l\<rparr>)" "bc_lists (c\<lparr>clinks := l\<rparr>) fr (as @ bs @ [i])"
    using move_to_tail_lists [OF lists] by blast
  let ?c = "c\<lparr>clinks := l\<rparr>"
  have d: "distinct (as @ bs @ [i])" using l(2) by (simp add: bc_lists_def)
  note R = coherent_reorder [OF co, of ?c "(as @ bs) @ [i]"]
  have co1: "coherent ?c ((as @ bs) @ [i]) (handle_img contents a st)"
    and v1: "bview ?c ((as @ bs) @ [i]) (handle_img contents a st) =
      bview c (as @ i # bs) (handle_img contents a st)"
    using R d by auto
  have i': "\<not> is_dirty (blk ?c i)" using i by simp
  note D = coherent_drop [OF co1 i']
  have "bc_spare contents alloc a i fr (as @ bs) ?c st"
    using ok l(2) D(1) i by (auto simp: bc_spare_def bc_ok_def bc_base_def)
  then show thesis using that [OF l(1)] D(2) v1 by (simp add: same_config_def)
qed

lemma alloc_block_ok:
  assumes ok: "bc_ok contents alloc a fr lru c st"
    and room: "fr \<noteq> [] \<or> (\<exists>i\<in>set lru. ref_count (blk c i) = 0)"
  obtains i fr' lru' c' st' where "alloc_block alloc c st = Some (Some i, c', st')"
    "bc_spare contents alloc a i fr' lru' c' st'" "same_config c c'" "set lru' = set lru - {i}"
    "\<And>j. j < length (blocks c) \<Longrightarrow> j \<noteq> i \<Longrightarrow> blk c' j = blk c j"
    "i \<in> set fr \<or> ref_count (blk c i) = 0"
    "bview c' lru' (handle_img contents a st') = bview c lru (handle_img contents a st)"
    "length (handle_img contents a st') = length (handle_img contents a st)"
    "(\<forall>j\<in>set lru. \<not> is_dirty (blk c j)) \<longrightarrow> handle_img contents a st' = handle_img contents a st"
proof (cases fr)
  case (Cons i fr')
  show thesis
  proof (rule alloc_free_block [OF ok [unfolded Cons]])
    fix c'
    assume "alloc_block alloc c st = Some (Some i, c', st)" "bc_spare contents alloc a i fr' lru c' st"
      "same_config c c'" "\<And>j. j < length (blocks c) \<Longrightarrow> j \<noteq> i \<Longrightarrow> blk c' j = blk c j"
      "bview c' lru (handle_img contents a st) = bview c lru (handle_img contents a st)"
    moreover have "i \<notin> set lru" using ok Cons by (auto simp: bc_ok_def bc_base_def bc_lists_def)
    ultimately show thesis using Cons by (intro that [of i c' st fr' lru]) auto
  qed
next
  case Nil
  have lists: "bc_lists c fr lru" using ok by (simp add: bc_ok_def bc_base_def)
  have "\<not> find (\<lambda>i. ref_count (blk c i) = 0) lru = None" using room Nil by (auto simp: find_not_cached)
  then obtain i where fi: "find (\<lambda>i. ref_count (blk c i) = 0) lru = Some i" by blast
  obtain as bs where lru: "lru = as @ i # bs" and r: "ref_count (blk c i) = 0"
    using find_in_list [OF fi] by blast
  have rm: "list_remove_head Free_list (clinks c) = Some (None, clinks c)"
    using lists Nil by (intro list_remove_head_empty) (simp add: bc_lists_def)
  have w: "lru_walk (\<lambda>b. ref_count b = 0) c (nnext (clinks c) Lru_list) 0 =
      Some (Some i, of_nat (looked_at (\<lambda>i. ref_count (blk c i) = 0) lru))"
    using lru_walk_all [OF lists, of "\<lambda>b. ref_count b = 0" 0] fi by simp
  have il: "i < length (blocks c)" using bc_lists_less [OF lists] lru by simp
  have rest: "set (as @ bs) = set lru - {i}" using lists lru by (auto simp: bc_lists_def)
  show thesis
  proof (cases "is_dirty (blk c i)")
    case False
    show thesis
    proof (rule spare_last [OF ok [unfolded lru] False r])
      fix c'
      assume *: "move_to_tail i c = Some c'" "bc_spare contents alloc a i fr (as @ bs) c' st"
        "same_config c c'" "blocks c' = blocks c"
        "bview c' (as @ bs) (handle_img contents a st) = bview c (as @ i # bs) (handle_img contents a st)"
      have "alloc_block alloc c st = Some (Some i, c', st)"
        using rm w False *(1) by (simp add: alloc_block_def flush_if_dirty_def)
      then show thesis using * lru r rest by (intro that [of i c' st fr "as @ bs"]) auto
    qed
  next
    case True
    have "i \<in> set lru" using lru by simp
    show thesis
    proof (rule flush_block_ok [OF ok \<open>i \<in> set lru\<close> True])
      fix s st'
      let ?c = "(upd_block i (\<lambda>b. b\<lparr>is_dirty := False\<rparr>) c)\<lparr>stats := s\<rparr>"
      assume f: "flush_block alloc i c st = (True, ?c, st')" "bc_ok contents alloc a fr lru ?c st'"
        "bview ?c lru (handle_img contents a st') = bview c lru (handle_img contents a st)"
        "length (handle_img contents a st') = length (handle_img contents a st)"
      have bi: "\<not> is_dirty (blk ?c i)" "ref_count (blk ?c i) = 0"
        using blk_upd_block [OF il, of i "\<lambda>b. b\<lparr>is_dirty := False\<rparr>"] r by simp_all
      show thesis
      proof (rule spare_last [OF f(2) [unfolded lru] bi])
        fix c'
        assume *: "move_to_tail i ?c = Some c'" "bc_spare contents alloc a i fr (as @ bs) c' st'"
          "same_config ?c c'" "blocks c' = blocks ?c"
          "bview c' (as @ bs) (handle_img contents a st') = bview ?c (as @ i # bs) (handle_img contents a st')"
        have "alloc_block alloc c st = Some (Some i, c', st')"
          using rm w True f(1) *(1) by (simp add: alloc_block_def flush_if_dirty_def)
        moreover have "same_config c c'" using *(3) by (simp add: same_config_def)
        moreover have "blk c' j = blk c j" if "j < length (blocks c)" "j \<noteq> i" for j
          using *(4) blk_upd_block [OF that(1)] that(2) by simp
        ultimately show thesis
          using * f(3,4) lru r rest True \<open>i \<in> set lru\<close> by (intro that [of i c' st' fr "as @ bs"]) auto
      qed
    qed
  qed
qed

section \<open>Finding or filling a block\<close>

text \<open>Giving the spare block a number and the contents the view has for that number.\<close>

lemma fill_spare:
  assumes sp: "bc_spare contents alloc a i fr lru c st"
    and new: "\<And>j. j \<in> set lru \<Longrightarrow> blocknum (blk c j) \<noteq> n" and has: "fs_has c (handle_img contents a st) n"
    and len: "length x = unat (cblock_size c)"
    and d: "d \<longrightarrow> fs_offset c = 0" "\<not> d \<longrightarrow> x = fs_block c (handle_img contents a st) n"
    and c': "same_config c c'" "clinks c' = clinks c"
      "blk c' i = (blk c i)\<lparr>blocknum := n, bdata := x, is_dirty := d\<rparr>"
      "\<And>j. j < length (blocks c) \<Longrightarrow> j \<noteq> i \<Longrightarrow> blk c' j = blk c j"
  shows "bc_ok contents alloc a fr (lru @ [i]) c' st"
    and "bview c' (lru @ [i]) (handle_img contents a st) = (bview c lru (handle_img contents a st))(n := x)"
proof -
  let ?img = "handle_img contents a st"
  have base: "bc_base contents alloc a fr (lru @ [i]) c st" and co: "coherent c lru ?img"
    using sp by (simp_all add: bc_spare_def)
  have lists: "bc_lists c fr (lru @ [i])" using base by (simp add: bc_base_def)
  have ne: "j \<noteq> i \<and> j < length (blocks c)" if "j \<in> set lru" for j
    using bc_lists_less [OF lists, of j] lists that by (auto simp: bc_lists_def)
  have same: "blk c' j = blk c j" if "j \<in> set lru" for j using c'(4) ne [OF that] by simp
  have num: "map (\<lambda>j. blocknum (blk c' j)) (lru @ [i]) = map (\<lambda>j. blocknum (blk c j)) lru @ [n]"
    using same c'(3) by simp
  have "distinct (map (\<lambda>j. blocknum (blk c j)) lru @ [n])"
    using co new by (auto simp: coherent_def)
  then have co': "coherent c' (lru @ [i]) ?img"
    unfolding coherent_def num fs_config [OF c'(1)]
    using co same c'(1,3) has d by (auto simp: coherent_def same_config_def)
  have fr_same: "blk c' j = blk c j \<and> j < length (blocks c)" if "j \<in> set fr" for j
    using bc_lists_free_less [OF lists that] bc_lists_disjoint [OF lists that] c'(4) [of j] by auto
  have "block_ok (cblock_size c) (blk c' j)" if "j < length (blocks c)" for j
    using base that c'(3,4) len by (cases "j = i") (auto simp: bc_base_def block_ok_def)
  then have "bc_base contents alloc a fr (lru @ [i]) c' st"
    using base c' fr_same bc_lists_cong [of c' c fr "lru @ [i]"] by (auto simp: bc_base_def same_config_def)
  then show "bc_ok contents alloc a fr (lru @ [i]) c' st" using co' by (simp add: bc_ok_def)
  show "bview c' (lru @ [i]) ?img = (bview c lru ?img)(n := x)"
  proof
    fix m
    show "bview c' (lru @ [i]) ?img m = ((bview c lru ?img)(n := x)) m"
    proof (cases "m = n")
      case True
      then show ?thesis using bview_cached [OF co', of i] c'(3) by simp
    next
      case m: False
      show ?thesis
      proof (cases "\<exists>j\<in>set lru. blocknum (blk c j) = m")
        case True
        then obtain j where j: "j \<in> set lru" "blocknum (blk c j) = m" by blast
        then show ?thesis
          using bview_cached [OF co', of j] bview_cached [OF co j(1)] same [OF j(1)] m by simp
      next
        case False
        have "bview c' (lru @ [i]) ?img m = fs_block c' ?img m"
          by (rule bview_uncached) (use False same c'(3) m in auto)
        moreover have "bview c lru ?img m = fs_block c ?img m"
          by (rule bview_uncached) (use False in auto)
        ultimately show ?thesis using m fs_config(2) [OF c'(1)] by simp
      qed
    qed
  qed
qed

text \<open>A hit: the block is moved, nothing else changes.\<close>

lemma find_block_ok:
  assumes ok: "bc_ok contents alloc a fr lru c st" and i: "i \<in> set lru" "blocknum (blk c i) = n"
  obtains c' lru' where "find_block n c = Some (Some i, c')" "bc_ok contents alloc a fr lru' c' st"
    "set lru' = set lru" "same_config c c'" "blocks c' = blocks c" "last lru' = i" "lru' \<noteq> []"
    "bview c' lru' (handle_img contents a st) = bview c lru (handle_img contents a st)"
proof -
  have lists: "bc_lists c fr lru" and co: "coherent c lru (handle_img contents a st)"
    using ok by (simp_all add: bc_ok_def bc_base_def)
  have "find (\<lambda>i. blocknum (blk c i) = n) lru = Some i"
    using find_cached [of "\<lambda>i. blocknum (blk c i)" lru i] co i by (simp add: coherent_def)
  then obtain as bs l s where lru: "lru = as @ i # bs"
    and f: "find_block n c = Some (Some i, c\<lparr>clinks := l, stats := s\<rparr>)"
      "bc_lists (c\<lparr>clinks := l, stats := s\<rparr>) fr (as @ bs @ [i])"
    using find_block_hit [OF lists] by metis
  let ?c = "c\<lparr>clinks := l, stats := s\<rparr>"
  have d: "distinct (as @ bs @ [i])" using f(2) by (simp add: bc_lists_def)
  have "coherent ?c (as @ bs @ [i]) (handle_img contents a st)"
    "bview ?c (as @ bs @ [i]) (handle_img contents a st) = bview c lru (handle_img contents a st)"
    using coherent_reorder [OF co, of ?c "as @ bs @ [i]"] d lru by auto
  moreover have "bc_base contents alloc a fr (as @ bs @ [i]) ?c st"
    using ok f(2) by (auto simp: bc_ok_def bc_base_def)
  ultimately show thesis
    using that [OF f(1), of "as @ bs @ [i]"] lru by (auto simp: bc_ok_def same_config_def)
qed

text \<open>
  \<open>served\<close>: block \<open>i\<close> is cached with number \<open>n\<close>, the view is what it was, referenced blocks are
  untouched, and the device changed only if dirty blocks had to be written back.
\<close>

definition served ::
  "('d \<Rightarrow> bytes) \<Rightarrow> alloc_env \<Rightarrow> nat \<Rightarrow> nat list \<Rightarrow> nat list \<Rightarrow> bcache \<Rightarrow> 'd bd_state \<Rightarrow> bnum_t \<Rightarrow> nat \<Rightarrow>
   nat list \<Rightarrow> nat list \<Rightarrow> bcache \<Rightarrow> 'd bd_state \<Rightarrow> bool"
where
  "served contents alloc a fr lru c st n i fr' lru' c' st' \<longleftrightarrow>
     bc_ok contents alloc a fr' lru' c' st' \<and> same_config c c' \<and>
     i \<in> set lru' \<and> blocknum (blk c' i) = n \<and>
     bdata (blk c' i) = bview c lru (handle_img contents a st) n \<and>
     bview c' lru' (handle_img contents a st') = bview c lru (handle_img contents a st) \<and>
     length (handle_img contents a st') = length (handle_img contents a st) \<and>
     (\<forall>j\<in>set lru. ref_count (blk c j) \<noteq> 0 \<longrightarrow> j \<in> set lru' \<and> blk c' j = blk c j) \<and>
     (\<forall>j<length (blocks c). j \<noteq> i \<longrightarrow> blk c' j = blk c j) \<and>
     (i \<in> set lru \<and> blk c' i = blk c i \<or> ref_count (blk c' i) = 0) \<and>
     ((\<forall>j\<in>set lru. \<not> is_dirty (blk c j)) \<longrightarrow>
        handle_img contents a st' = handle_img contents a st \<and> (\<forall>j\<in>set lru'. \<not> is_dirty (blk c' j)))"

lemma find_or_fill_hit:
  assumes ok: "bc_ok contents alloc a fr lru c st" and i: "i \<in> set lru" "blocknum (blk c i) = n"
  obtains lru' c' where "find_or_fill_block alloc n c st = Some (Some i, c', st)"
    "served contents alloc a fr lru c st n i fr lru' c' st"
proof (rule find_block_ok [OF ok i])
  fix c' lru'
  assume f: "find_block n c = Some (Some i, c')" "bc_ok contents alloc a fr lru' c' st"
    "set lru' = set lru" "same_config c c'" "blocks c' = blocks c"
    "bview c' lru' (handle_img contents a st) = bview c lru (handle_img contents a st)"
  have "bdata (blk c i) = bview c lru (handle_img contents a st) n"
    using bview_cached [of c lru "handle_img contents a st" i] ok i by (simp add: bc_ok_def)
  then show thesis
    using that [of c' lru'] f i by (simp add: find_or_fill_block_def served_def)
qed

lemma find_or_fill_miss:
  assumes ok: "bc_ok contents alloc a fr lru c st" and n: "\<And>i. i \<in> set lru \<Longrightarrow> blocknum (blk c i) \<noteq> n"
    and has: "fs_has c (handle_img contents a st) n"
    and room: "fr \<noteq> [] \<or> (\<exists>i\<in>set lru. ref_count (blk c i) = 0)"
  obtains i fr' lru' c' st' where "find_or_fill_block alloc n c st = Some (Some i, c', st')"
    "served contents alloc a fr lru c st n i fr' lru' c' st'"
proof -
  let ?c0 = "c\<lparr>stats := (stats c)\<lparr>misses := misses (stats c) + 1\<rparr>\<rparr>"
  have lists: "bc_lists c fr lru" and co: "coherent c lru (handle_img contents a st)"
    using ok by (simp_all add: bc_ok_def bc_base_def)
  have miss: "find_block n c = Some (None, ?c0)"
    using find_block_miss [OF lists] n by (simp add: find_not_cached)
  have v0: "coherent ?c0 lru (handle_img contents a st)"
    "bview ?c0 lru (handle_img contents a st) = bview c lru (handle_img contents a st)"
    using coherent_reorder [OF co, of ?c0 lru] lists by (simp_all add: bc_lists_def)
  then have ok0: "bc_ok contents alloc a fr lru ?c0 st"
    using ok bc_lists_cong [of ?c0 c] by (auto simp: bc_ok_def bc_base_def)
  have room0: "fr \<noteq> [] \<or> (\<exists>i\<in>set lru. ref_count (blk ?c0 i) = 0)" using room by simp
  show thesis
  proof (rule alloc_block_ok [OF ok0 room0])
    fix i fr' lru1 c1 st1
    assume al: "alloc_block alloc ?c0 st = Some (Some i, c1, st1)"
      and sp: "bc_spare contents alloc a i fr' lru1 c1 st1" and cfg: "same_config ?c0 c1"
      and sub: "set lru1 = set lru - {i}"
      and oth: "\<And>j. j < length (blocks ?c0) \<Longrightarrow> j \<noteq> i \<Longrightarrow> blk c1 j = blk ?c0 j"
      and ir: "i \<in> set fr \<or> ref_count (blk ?c0 i) = 0"
      and vw: "bview c1 lru1 (handle_img contents a st1) = bview ?c0 lru (handle_img contents a st)"
      and len: "length (handle_img contents a st1) = length (handle_img contents a st)"
      and cl: "(\<forall>j\<in>set lru. \<not> is_dirty (blk ?c0 j)) \<longrightarrow>
        handle_img contents a st1 = handle_img contents a st"
    have cc1: "same_config c c1" using cfg by (simp add: same_config_def)
    have lists1: "bc_lists c1 fr' (lru1 @ [i])" and live1: "handle_live contents alloc a st1"
      and dev1: "cdev c1 = Some a" and sz: "cblock_size c1 \<noteq> 0"
      using sp by (simp_all add: bc_spare_def bc_base_def)
    have il: "i < length (blocks c1)" using bc_lists_less [OF lists1] by simp
    have b1: "block_ok (cblock_size c1) (blk c1 i)" using sp il by (simp add: bc_spare_def bc_base_def)
    have has1: "fs_has c1 (handle_img contents a st1) n"
      using has len cc1 by (simp add: fs_has_def fs_at_def same_config_def)
    let ?c2 = "upd_block i (\<lambda>b. b\<lparr>blocknum := n\<rparr>) c1"
    have bi2: "blk ?c2 i = (blk c1 i)\<lparr>blocknum := n\<rparr>" using blk_upd_block [OF il] by simp
    note at = fs_at_word [OF has1 handle_img_bound [OF live1]]
    have fits: "unat (fs_offset c1 + ucast n * cblock_size c1) + unat (cblock_size c1)
        \<le> length (handle_img contents a st1)" using has1 at by (simp add: fs_has_def)
    have "ptr (blk c1 i) \<noteq> 0" using b1 by (simp add: block_ok_def)
    from handle_read [OF live1 this sz fits] obtain st2 where rd:
      "tegrabl_blockdev_read alloc (Some a) (ptr (blk c1 i)) (fs_offset c1 + ucast n * cblock_size c1)
        (cblock_size c1) st1 = ((TEGRABL_NO_ERROR, fs_block c1 (handle_img contents a st1) n), st2)"
      "handle_live contents alloc a st2" "handle_img contents a st2 = handle_img contents a st1"
      unfolding at fs_block_def by blast
    let ?x = "fs_block c1 (handle_img contents a st1) n"
    have lx: "length ?x = unat (cblock_size c1)" by (rule fs_block_length [OF has1])
    have ov: "overwrite 0 ?x (bdata (blk c1 i)) = ?x"
      using lx b1 by (simp add: overwrite_def block_ok_def)
    let ?c3 = "upd_block i (\<lambda>b. b\<lparr>bdata := overwrite 0 ?x (bdata b)\<rparr>) ?c2"
    define c4 where "c4 = ?c3\<lparr>stats := (stats ?c3)\<lparr>reads := reads (stats ?c3) + 1\<rparr>\<rparr>"
    have run: "find_or_fill_block alloc n c st = Some (Some i, c4, st2)"
      using miss al rd(1) dev1 bi2 by (simp add: find_or_fill_block_def Let_def c4_def)
    have b4: "blk c4 i = (blk c1 i)\<lparr>blocknum := n, bdata := ?x, is_dirty := False\<rparr>"
      using blk_upd_block [of i ?c2 i] bi2 il ov sp by (simp add: bc_spare_def c4_def)
    have o4: "blk c4 j = blk c1 j" if "j < length (blocks c1)" "j \<noteq> i" for j
      using that blk_upd_block [of j ?c2 i] blk_upd_block [of j c1 i] by (simp add: c4_def)
    have cfg4: "same_config c1 c4" "clinks c4 = clinks c1" by (simp_all add: same_config_def c4_def)
    have sp2: "bc_spare contents alloc a i fr' lru1 c1 st2"
      using sp rd(2,3) by (simp add: bc_spare_def bc_base_def)
    have b1c: "blk c1 j = blk c j" if "j \<in> set lru1" for j
      using oth [of j] sub that bc_lists_less [OF lists, of j] by simp
    have new1: "blocknum (blk c1 j) \<noteq> n" if "j \<in> set lru1" for j
      using n [of j] sub that b1c [OF that] by auto
    have has2: "fs_has c1 (handle_img contents a st2) n" using has1 rd(3) by simp
    have x2: "\<not> False \<longrightarrow> ?x = fs_block c1 (handle_img contents a st2) n" using rd(3) by simp
    note F = fill_spare [OF sp2 new1 has2 lx _ x2 cfg4 b4 o4]
    have ok4: "bc_ok contents alloc a fr' (lru1 @ [i]) c4 st2" by (rule F(1)) simp_all
    have vn: "bview c lru (handle_img contents a st) n = ?x"
      using vw v0(2) bview_uncached [of lru1 c1 n "handle_img contents a st1"] new1 by metis
    have "bview c4 (lru1 @ [i]) (handle_img contents a st2) = (bview c1 lru1 (handle_img contents a st2))(n := ?x)"
      by (rule F(2)) simp_all
    then have vall: "bview c4 (lru1 @ [i]) (handle_img contents a st2) = bview c lru (handle_img contents a st)"
      using vw v0(2) vn rd(3) by (metis fun_upd_triv)
    have oth4: "blk c4 j = blk c j" if "j < length (blocks c)" "j \<noteq> i" for j
      using oth [of j] o4 [of j] that cc1 by (simp add: same_config_def)
    have pins: "j \<in> set (lru1 @ [i]) \<and> blk c4 j = blk c j" if j: "j \<in> set lru" "ref_count (blk c j) \<noteq> 0" for j
      using ir j bc_lists_disjoint [OF lists] sub oth4 [of j] bc_lists_less [OF lists j(1)] by auto
    have clean: "handle_img contents a st2 = handle_img contents a st \<and> (\<forall>j\<in>set (lru1 @ [i]). \<not> is_dirty (blk c4 j))"
      if nd: "\<forall>j\<in>set lru. \<not> is_dirty (blk c j)"
    proof -
      have "\<not> is_dirty (blk c4 j)" if "j \<in> set (lru1 @ [i])" for j
        using that nd sub oth4 [of j] bc_lists_less [OF lists, of j] b4 by (cases "j = i") auto
      then show ?thesis using nd cl rd(3) by simp
    qed
    have "served contents alloc a fr lru c st n i fr' (lru1 @ [i]) c4 st2"
      unfolding served_def
      using ok4 same_config_trans [OF cc1 cfg4(1)] b4 vn vall len rd(3) pins oth4 clean sp
      by (simp add: bc_spare_def)
    then show thesis using that run by blast
  qed
qed

end
