(* ===== verification/Bcache_Client.thy ===== *)
theory Bcache_Client
  imports Bcache_Correct
begin

text \<open>
  What the block cache promises to its clients. \<open>represents\<close> relates a cache and its device to the
  memory of blocks they stand for; every operation of the interface returns and is the corresponding
  operation on that memory. The locale \<open>block_memory\<close> states this contract for any command set and
  carries it over to programs; the interpretation \<open>bcm\<close> is on the cache's own operations.
\<close>

section \<open>Operations on a cache whose blocks are all released\<close>

definition released :: "bcache \<Rightarrow> bool" where
  "released c \<longleftrightarrow> blocks c \<noteq> [] \<and> (\<forall>i<length (blocks c). ref_count (blk c i) = 0)"

definition clean :: "bcache \<Rightarrow> bool" where
  "clean c \<longleftrightarrow> (\<forall>i<length (blocks c). \<not> is_dirty (blk c i))"

definition represents ::
  "('d \<Rightarrow> bytes) \<Rightarrow> alloc_env \<Rightarrow> nat \<Rightarrow> bcache \<Rightarrow> 'd bd_state \<Rightarrow> (bnum_t \<Rightarrow> bytes) \<Rightarrow> bool"
where
  "represents contents alloc a c st M \<longleftrightarrow>
     (\<exists>fr lru. bc_ok contents alloc a fr lru c st \<and> bview c lru (handle_img contents a st) = M) \<and> released c"

lemma clean_iff:
  assumes "bc_ok contents alloc a fr lru c st"
  shows "clean c \<longleftrightarrow> (\<forall>i\<in>set lru. \<not> is_dirty (blk c i))"
proof -
  have "i \<in> set fr \<or> i \<in> set lru \<longleftrightarrow> i < length (blocks c)" for i
    using assms by (auto simp: bc_ok_def bc_base_def bc_lists_def)
  then show ?thesis using assms by (auto simp: clean_def bc_ok_def bc_base_def)
qed

lemma released_room:
  assumes "bc_ok contents alloc a fr lru c st" "released c"
  shows "fr \<noteq> [] \<or> (\<exists>i\<in>set lru. ref_count (blk c i) = 0)"
proof -
  have "set (fr @ lru) = {..<length (blocks c)}" "0 < length (blocks c)"
    using assms by (auto simp: bc_ok_def bc_base_def bc_lists_def released_def)
  then have "0 \<in> set (fr @ lru)" by simp
  then show ?thesis using assms(2) \<open>0 < length (blocks c)\<close> by (cases fr) (auto simp: released_def)
qed

lemma find_or_fill_ok:
  assumes ok: "bc_ok contents alloc a fr lru c st" and has: "fs_has c (handle_img contents a st) n"
    and room: "fr \<noteq> [] \<or> (\<exists>i\<in>set lru. ref_count (blk c i) = 0)"
  obtains i fr' lru' c' st' where "find_or_fill_block alloc n c st = Some (Some i, c', st')"
    "served contents alloc a fr lru c st n i fr' lru' c' st'"
proof (cases "\<exists>i\<in>set lru. blocknum (blk c i) = n")
  case True
  then obtain i where i: "i \<in> set lru" "blocknum (blk c i) = n" by blast
  show thesis by (rule find_or_fill_hit [OF ok i]) (rule that)
next
  case False
  then have new: "\<And>i. i \<in> set lru \<Longrightarrow> blocknum (blk c i) \<noteq> n" by blast
  show thesis by (rule find_or_fill_miss [OF ok new has room]) (assumption, rule that)
qed

lemma servedD:
  assumes "served contents alloc a fr lru c st n i fr' lru' c' st'"
  shows "bc_ok contents alloc a fr' lru' c' st'" "same_config c c'" "i \<in> set lru'" "blocknum (blk c' i) = n"
    "bdata (blk c' i) = bview c lru (handle_img contents a st) n"
    "bview c' lru' (handle_img contents a st') = bview c lru (handle_img contents a st)"
    "length (handle_img contents a st') = length (handle_img contents a st)"
  using assms by (simp_all add: served_def)

lemma served_released:
  "served contents alloc a fr lru c st n i fr' lru' c' st' \<Longrightarrow> released c \<Longrightarrow>
   released c' \<and> i < length (blocks c')"
proof -
  assume s: "served contents alloc a fr lru c st n i fr' lru' c' st'" and r: "released c"
  have len: "length (blocks c') = length (blocks c)" using s by (simp add: served_def same_config_def)
  have il: "i < length (blocks c')"
    using s bc_lists_less by (auto simp: served_def bc_ok_def bc_base_def)
  have "ref_count (blk c' j) = 0" if "j < length (blocks c)" for j
    using s r that len il by (cases "j = i") (auto simp: served_def released_def)
  then show ?thesis using r len il by (auto simp: released_def)
qed

lemma served_clean:
  "served contents alloc a fr lru c st n i fr' lru' c' st' \<Longrightarrow> bc_ok contents alloc a fr lru c st \<Longrightarrow> clean c \<Longrightarrow>
   clean c' \<and> handle_img contents a st' = handle_img contents a st"
  using clean_iff [of contents alloc a fr lru c st] clean_iff [of contents alloc a fr' lru' c' st']
  by (auto simp: served_def)

lemma cached_read_ok:
  assumes rep: "represents contents alloc a c st M" and has: "fs_has c (handle_img contents a st) n"
  obtains c' st' where "bcache_read_block alloc n c st = Some (Some (M n), c', st')"
    "represents contents alloc a c' st' M" "same_config c c'"
    "length (handle_img contents a st') = length (handle_img contents a st)"
    "clean c \<Longrightarrow> clean c' \<and> handle_img contents a st' = handle_img contents a st"
proof -
  obtain fr lru where ok: "bc_ok contents alloc a fr lru c st" and M: "bview c lru (handle_img contents a st) = M"
    and rel: "released c" using rep by (auto simp: represents_def)
  obtain i fr' lru' c' st' where run: "find_or_fill_block alloc n c st = Some (Some i, c', st')"
    and s: "served contents alloc a fr lru c st n i fr' lru' c' st'"
    by (rule find_or_fill_ok [OF ok has released_room [OF ok rel]])
  have ok': "bc_ok contents alloc a fr' lru' c' st'" using s by (simp add: served_def)
  have il: "i < length (blocks c')" "released c'" using served_released [OF s rel] by simp_all
  have "length (bdata (blk c' i)) = unat (cblock_size c')"
    using ok' il by (simp add: bc_ok_def bc_base_def block_ok_def)
  then have "bcache_read_block alloc n c st = Some (Some (M n), c', st')"
    using run servedD(5) [OF s] M by (simp add: bcache_read_block_def)
  moreover have "represents contents alloc a c' st' M"
    using ok' il(2) servedD(6) [OF s] M unfolding represents_def by blast
  ultimately show thesis
    using that [OF _ _ servedD(2,7) [OF s] served_clean [OF s ok]] by blast
qed

text \<open>Reference counts belong to neither the invariant nor the view.\<close>

lemma bc_ok_cong:
  assumes ok: "bc_ok contents alloc a fr lru c st" and c': "same_config c c'" "clinks c' = clinks c"
    and b: "\<And>j. j < length (blocks c) \<Longrightarrow> \<exists>r. blk c' j = (blk c j)\<lparr>ref_count := r\<rparr>"
  shows "bc_ok contents alloc a fr lru c' st" and "bview c' lru img = bview c lru img"
proof -
  have lists: "bc_lists c fr lru" using ok by (simp add: bc_ok_def bc_base_def)
  have f: "blocknum (blk c' j) = blocknum (blk c j)" "bdata (blk c' j) = bdata (blk c j)"
    "is_dirty (blk c' j) = is_dirty (blk c j)" "ptr (blk c' j) = ptr (blk c j)"
    if "j < length (blocks c)" for j using b [OF that] by auto
  have num: "map (\<lambda>j. blocknum (blk c' j)) lru = map (\<lambda>j. blocknum (blk c j)) lru"
    using f(1) bc_lists_less [OF lists] by simp
  have "coherent c' lru (handle_img contents a st)"
    unfolding coherent_def num fs_config [OF c'(1)]
    using ok f bc_lists_less [OF lists] c'(1) by (auto simp: bc_ok_def coherent_def same_config_def)
  moreover have "bc_base contents alloc a fr lru c' st"
    using ok f c' bc_lists_free_less [OF lists] bc_lists_cong [of c' c]
    by (auto simp: bc_ok_def bc_base_def same_config_def block_ok_def)
  ultimately show "bc_ok contents alloc a fr lru c' st" by (simp add: bc_ok_def)
  have "find (\<lambda>i. blocknum (blk c' i) = n) lru = find (\<lambda>i. blocknum (blk c i) = n) lru" for n
    by (rule find_cong) (use f(1) bc_lists_less [OF lists] in auto)
  moreover have "bdata (blk c' i) = bdata (blk c i)" if "find P lru = Some i" for P i
    using f(2) bc_lists_less [OF lists] find_in_list [OF that] by auto
  ultimately show "bview c' lru img = bview c lru img"
    using fs_config(2) [OF c'(1)] by (auto simp: bview_def fun_eq_iff split: option.splits)
qed

text \<open>Getting a block pins it; its buffer holds the block until it is put back.\<close>

definition got ::
  "('d \<Rightarrow> bytes) \<Rightarrow> alloc_env \<Rightarrow> nat \<Rightarrow> bcache \<Rightarrow> 'd bd_state \<Rightarrow> (bnum_t \<Rightarrow> bytes) \<Rightarrow> bnum_t \<Rightarrow> nat \<Rightarrow> bool"
where
  "got contents alloc a c st M n i \<longleftrightarrow>
     (\<exists>fr lru. bc_ok contents alloc a fr lru c st \<and> bview c lru (handle_img contents a st) = M \<and>
        i \<in> set lru) \<and> blocknum (blk c i) = n \<and> bdata (blk c i) = M n \<and> ref_count (blk c i) = 1 \<and>
     (\<forall>j<length (blocks c). j \<noteq> i \<longrightarrow> ref_count (blk c j) = 0)"

lemma get_block_ok:
  assumes rep: "represents contents alloc a c st M" and has: "fs_has c (handle_img contents a st) n"
  obtains i c' st' where "bcache_get_block alloc n c st = Some (Some i, c', st')"
    "got contents alloc a c' st' M n i" "same_config c c'"
    "length (handle_img contents a st') = length (handle_img contents a st)"
    "clean c \<Longrightarrow> clean c' \<and> handle_img contents a st' = handle_img contents a st"
proof -
  obtain fr lru where ok: "bc_ok contents alloc a fr lru c st" and M: "bview c lru (handle_img contents a st) = M"
    and rel: "released c" using rep by (auto simp: represents_def)
  obtain i fr' lru' c1 st' where run: "find_or_fill_block alloc n c st = Some (Some i, c1, st')"
    and s: "served contents alloc a fr lru c st n i fr' lru' c1 st'"
    by (rule find_or_fill_ok [OF ok has released_room [OF ok rel]])
  have ok1: "bc_ok contents alloc a fr' lru' c1 st'" using s by (simp add: served_def)
  have r1: "released c1" "i < length (blocks c1)" using served_released [OF s rel] by simp_all
  let ?c = "upd_block i (\<lambda>b. b\<lparr>ref_count := ref_count b + 1\<rparr>) c1"
  have b: "blk ?c j = (if j = i then (blk c1 i)\<lparr>ref_count := ref_count (blk c1 i) + 1\<rparr> else blk c1 j)"
    if "j < length (blocks c1)" for j by (rule blk_upd_block [OF that])
  have "\<exists>r. blk ?c j = (blk c1 j)\<lparr>ref_count := r\<rparr>" if "j < length (blocks c1)" for j
    using b [OF that] by (cases "j = i") (auto intro: exI [of _ "ref_count (blk c1 j)"])
  then have ok2: "bc_ok contents alloc a fr' lru' ?c st'"
    "bview ?c lru' (handle_img contents a st') = bview c1 lru' (handle_img contents a st')"
    using bc_ok_cong [OF ok1, of ?c] by (auto simp: same_config_def)
  have bi: "blk ?c i = (blk c1 i)\<lparr>ref_count := ref_count (blk c1 i) + 1\<rparr>" using b [OF r1(2)] by simp
  have "ref_count (blk ?c j) = 0" if "j < length (blocks ?c)" "j \<noteq> i" for j
    using b [of j] r1(1) that by (simp add: released_def)
  then have "got contents alloc a ?c st' M n i"
    using ok2 servedD(3-6) [OF s] M r1 bi unfolding got_def released_def by auto
  moreover have "bcache_get_block alloc n c st = Some (Some i, ?c, st')"
    using run by (simp add: bcache_get_block_def)
  moreover have "same_config c ?c" using s by (simp add: served_def same_config_def)
  moreover have "clean ?c" if "clean c1"
    unfolding clean_def
  proof (intro allI impI)
    fix j assume "j < length (blocks ?c)"
    then show "\<not> is_dirty (blk ?c j)" using that b [of j] r1 by (cases "j = i") (auto simp: clean_def)
  qed
  ultimately show thesis
    using that [of i ?c st', OF _ _ _ servedD(7) [OF s]] served_clean [OF s ok] by blast
qed

lemma put_block_ok:
  assumes g: "got contents alloc a c st M n i"
  obtains c' where "bcache_put_block dbg n c = Some c'" "represents contents alloc a c' st M"
    "same_config c c'" "clean c \<Longrightarrow> clean c'"
proof -
  obtain fr lru where ok: "bc_ok contents alloc a fr lru c st" and M: "bview c lru (handle_img contents a st) = M"
    and i: "i \<in> set lru" using g by (auto simp: got_def)
  have n: "blocknum (blk c i) = n" using g by (simp add: got_def)
  obtain c1 lru1 where f: "find_block n c = Some (Some i, c1)" "bc_ok contents alloc a fr lru1 c1 st"
    "same_config c c1" "blocks c1 = blocks c"
    "bview c1 lru1 (handle_img contents a st) = bview c lru (handle_img contents a st)"
    using find_block_ok [OF ok i n] by metis
  have il: "i < length (blocks c)" using ok i bc_lists_less by (auto simp: bc_ok_def bc_base_def)
  let ?c = "upd_block i (\<lambda>b. b\<lparr>ref_count := ref_count b - 1\<rparr>) c1"
  have b: "blk ?c j = (if j = i then (blk c i)\<lparr>ref_count := ref_count (blk c i) - 1\<rparr> else blk c j)"
    if "j < length (blocks c)" for j using blk_upd_block [of j c1] that f(4) by simp
  have "\<exists>r. blk ?c j = (blk c1 j)\<lparr>ref_count := r\<rparr>" if "j < length (blocks c1)" for j
    using b [of j] that f(4) by (cases "j = i") (auto intro: exI [of _ "ref_count (blk c j)"])
  then have ok2: "bc_ok contents alloc a fr lru1 ?c st"
    "bview ?c lru1 (handle_img contents a st) = bview c1 lru1 (handle_img contents a st)"
    using bc_ok_cong [OF f(2), of ?c] by (auto simp: same_config_def)
  have "ref_count (blk ?c j) = 0" if "j < length (blocks c)" for j
    using g b [OF that] that by (auto simp: got_def)
  moreover have "blocks ?c \<noteq> []" using il f(4) by (auto simp: upd_block_def)
  ultimately have "released ?c" using f(4) by (simp add: released_def)
  then have "represents contents alloc a ?c st M" using ok2 M f(5) by (auto simp: represents_def)
  moreover have "bcache_put_block dbg n c = Some ?c"
    using f(1,4) g by (simp add: bcache_put_block_def got_def)
  moreover have "same_config c ?c" using f(3) by (simp add: same_config_def)
  moreover have "clean ?c" if "clean c"
    unfolding clean_def
  proof (intro allI impI)
    fix j assume "j < length (blocks ?c)"
    then show "\<not> is_dirty (blk ?c j)" using that b [of j] f(4) il by (cases "j = i") (auto simp: clean_def)
  qed
  ultimately show thesis using that by blast
qed

section \<open>Changing blocks\<close>

text \<open>Storing into a cached block and marking it dirty changes the view at its number.\<close>

lemma store_block:
  assumes ok: "bc_ok contents alloc a fr lru c st" and i: "i \<in> set lru" and off: "fs_offset c = 0"
    and len: "length x = unat (cblock_size c)"
    and c': "same_config c c'" "clinks c' = clinks c"
      "blk c' i = (blk c i)\<lparr>bdata := x, is_dirty := True\<rparr>"
      "\<And>j. j < length (blocks c) \<Longrightarrow> j \<noteq> i \<Longrightarrow> blk c' j = blk c j"
  shows "bc_ok contents alloc a fr lru c' st"
    and "bview c' lru (handle_img contents a st) = (bview c lru (handle_img contents a st))(blocknum (blk c i) := x)"
proof -
  let ?img = "handle_img contents a st"
  have base: "bc_base contents alloc a fr lru c st" and co: "coherent c lru ?img"
    using ok by (simp_all add: bc_ok_def)
  have lists: "bc_lists c fr lru" using base by (simp add: bc_base_def)
  note lt = bc_lists_less [OF lists]
  have b: "blk c' j = (if j = i then (blk c i)\<lparr>bdata := x, is_dirty := True\<rparr> else blk c j)"
    if "j < length (blocks c)" for j using c'(3,4) that by simp
  have num: "map (\<lambda>j. blocknum (blk c' j)) lru = map (\<lambda>j. blocknum (blk c j)) lru"
    using b lt by simp
  have co': "coherent c' lru ?img"
    unfolding coherent_def num fs_config [OF c'(1)]
    using co off c'(1) b lt by (auto simp: coherent_def same_config_def)
  have "\<not> is_dirty (blk c' j)" if "j \<in> set fr" for j
    using base b bc_lists_free_less [OF lists that] bc_lists_disjoint [OF lists that] i that
    by (auto simp: bc_base_def)
  moreover have "block_ok (cblock_size c) (blk c' j)" if "j < length (blocks c)" for j
    using base b [OF that] that len by (auto simp: bc_base_def block_ok_def)
  ultimately have "bc_base contents alloc a fr lru c' st"
    using base c'(1,2) bc_lists_cong [of c' c] by (auto simp: bc_base_def same_config_def)
  then show "bc_ok contents alloc a fr lru c' st" using co' by (simp add: bc_ok_def)
  show "bview c' lru ?img = (bview c lru ?img)(blocknum (blk c i) := x)"
  proof
    fix m
    show "bview c' lru ?img m = ((bview c lru ?img)(blocknum (blk c i) := x)) m"
    proof (cases "\<exists>j\<in>set lru. blocknum (blk c j) = m")
      case True
      then obtain j where j: "j \<in> set lru" "blocknum (blk c j) = m" by blast
      have "blocknum (blk c i) = m \<longleftrightarrow> j = i"
        using co i j by (auto simp: coherent_def distinct_map inj_on_def)
      then show ?thesis
        using bview_cached [OF co' j(1)] bview_cached [OF co j(1)] b [OF lt [OF j(1)]] j(2) by auto
    next
      case False
      have "bview c' lru ?img m = fs_block c' ?img m"
        by (rule bview_uncached) (use False b lt in auto)
      moreover have "bview c lru ?img m = fs_block c ?img m"
        by (rule bview_uncached) (use False in auto)
      ultimately show ?thesis using False i fs_config(2) [OF c'(1)] by auto
    qed
  qed
qed

lemma mark_dirty_ok:
  assumes g: "got contents alloc a c st M n i" and off: "fs_offset c = 0"
  obtains c' where "bcache_mark_block_dirty n c = Some (True, c')" "got contents alloc a c' st M n i"
    "same_config c c'" "is_dirty (blk c' i)"
proof -
  obtain fr lru where ok: "bc_ok contents alloc a fr lru c st" and M: "bview c lru (handle_img contents a st) = M"
    and i: "i \<in> set lru" using g by (auto simp: got_def)
  have n: "blocknum (blk c i) = n" and d: "bdata (blk c i) = M n" using g by (simp_all add: got_def)
  obtain c1 lru1 where f: "find_block n c = Some (Some i, c1)" "bc_ok contents alloc a fr lru1 c1 st"
    "set lru1 = set lru" "same_config c c1" "blocks c1 = blocks c"
    "bview c1 lru1 (handle_img contents a st) = bview c lru (handle_img contents a st)"
    using find_block_ok [OF ok i n] by metis
  have il: "i < length (blocks c)" using ok i bc_lists_less by (auto simp: bc_ok_def bc_base_def)
  have len: "length (M n) = unat (cblock_size c1)"
    using ok il d f(4) by (auto simp: bc_ok_def bc_base_def block_ok_def same_config_def)
  let ?c = "upd_block i (\<lambda>b. b\<lparr>is_dirty := True\<rparr>) c1"
  have b: "blk ?c j = (if j = i then (blk c i)\<lparr>is_dirty := True\<rparr> else blk c j)"
    if "j < length (blocks c)" for j using blk_upd_block [of j c1] that f(5) by simp
  have bi: "blk ?c i = (blk c1 i)\<lparr>bdata := M n, is_dirty := True\<rparr>" using b [OF il] d f(5) by simp
  have bo: "\<And>j. j < length (blocks c1) \<Longrightarrow> j \<noteq> i \<Longrightarrow> blk ?c j = blk c1 j" using b f(5) by simp
  have o1: "fs_offset c1 = 0" using f(4) off by (simp add: same_config_def)
  have i1: "i \<in> set lru1" using i f(3) by simp
  have cfg1: "same_config c1 ?c" by (simp add: same_config_def)
  have lk: "clinks ?c = clinks c1" by simp
  note S = store_block [OF f(2) i1 o1 len cfg1 lk bi bo]
  have "bview ?c lru1 (handle_img contents a st) = M"
    using S(2) f(5,6) M n by (metis fun_upd_triv)
  then have "got contents alloc a ?c st M n i"
    using S(1) i1 g b f(5) il unfolding got_def by auto
  moreover have "bcache_mark_block_dirty n c = Some (True, ?c)"
    using f(1) by (simp add: bcache_mark_block_dirty_def)
  moreover have "same_config c ?c" by (rule same_config_trans [OF f(4) cfg1])
  moreover have "is_dirty (blk ?c i)" using b [OF il] by simp
  ultimately show thesis using that by blast
qed

lemma store_ok:
  assumes g: "got contents alloc a c st M n i" and off: "fs_offset c = 0" and d: "is_dirty (blk c i)"
    and len: "length x = unat (cblock_size c)"
  shows "got contents alloc a (upd_block i (\<lambda>b. b\<lparr>bdata := x\<rparr>) c) st (M(n := x)) n i"
proof -
  obtain fr lru where ok: "bc_ok contents alloc a fr lru c st" and M: "bview c lru (handle_img contents a st) = M"
    and i: "i \<in> set lru" using g by (auto simp: got_def)
  let ?c = "upd_block i (\<lambda>b. b\<lparr>bdata := x\<rparr>) c"
  have il: "i < length (blocks c)" using ok i bc_lists_less by (auto simp: bc_ok_def bc_base_def)
  have b: "blk ?c j = (if j = i then (blk c i)\<lparr>bdata := x\<rparr> else blk c j)" if "j < length (blocks c)" for j
    by (rule blk_upd_block [OF that])
  have bi: "blk ?c i = (blk c i)\<lparr>bdata := x, is_dirty := True\<rparr>" using b [OF il] d by simp
  have "same_config c ?c" "clinks ?c = clinks c" by (simp_all add: same_config_def)
  from store_block [OF ok i off len this bi] b
  have "bc_ok contents alloc a fr lru ?c st"
    "bview ?c lru (handle_img contents a st) = M(blocknum (blk c i) := x)" using M by simp_all
  then show ?thesis
    using g i b [OF il] b unfolding got_def by auto
qed

lemma zero_fill_eq:
  "length (bdata b) = unat n \<Longrightarrow> zero_fill n b = b\<lparr>bdata := replicate (unat n) 0, is_dirty := True\<rparr>"
  by (simp add: zero_fill_def overwrite_def)

lemma zero_block_ok:
  assumes rep: "represents contents alloc a c st M" and has: "fs_has c (handle_img contents a st) n"
    and off: "fs_offset c = 0"
  obtains c' st' where "bcache_zero_block alloc n c st = Some (True, c', st')"
    "represents contents alloc a c' st' (M(n := replicate (unat (cblock_size c)) 0))" "same_config c c'"
    "length (handle_img contents a st') = length (handle_img contents a st)"
proof -
  obtain fr lru where ok: "bc_ok contents alloc a fr lru c st" and M: "bview c lru (handle_img contents a st) = M"
    and rel: "released c" using rep by (auto simp: represents_def)
  have lists: "bc_lists c fr lru" and co: "coherent c lru (handle_img contents a st)"
    using ok by (simp_all add: bc_ok_def bc_base_def)
  let ?z = "replicate (unat (cblock_size c)) (0 :: u8)"
  show thesis
  proof (cases "\<exists>i\<in>set lru. blocknum (blk c i) = n")
    case True
    then obtain i where i: "i \<in> set lru" "blocknum (blk c i) = n" by blast
    obtain c1 lru1 where f: "find_block n c = Some (Some i, c1)" "bc_ok contents alloc a fr lru1 c1 st"
      "set lru1 = set lru" "same_config c c1" "blocks c1 = blocks c"
      "bview c1 lru1 (handle_img contents a st) = bview c lru (handle_img contents a st)"
      using find_block_ok [OF ok i] by metis
    have il: "i < length (blocks c)" by (rule bc_lists_less [OF lists i(1)])
    have sz: "cblock_size c1 = cblock_size c" "fs_offset c1 = 0" using f(4) off by (simp_all add: same_config_def)
    have len: "length (bdata (blk c i)) = unat (cblock_size c)"
      using ok il by (simp add: bc_ok_def bc_base_def block_ok_def)
    define c2 where "c2 = upd_block i (zero_fill (cblock_size c1)) c1"
    have b: "blk c2 j = (if j = i then (blk c i)\<lparr>bdata := ?z, is_dirty := True\<rparr> else blk c j)"
      if "j < length (blocks c)" for j
      using blk_upd_block [of j c1 i "zero_fill (cblock_size c1)"] that f(5) zero_fill_eq len sz(1)
      by (simp add: c2_def)
    have bi: "blk c2 i = (blk c1 i)\<lparr>bdata := ?z, is_dirty := True\<rparr>" using b [OF il] f(5) by simp
    have cfg: "same_config c1 c2" "clinks c2 = clinks c1" by (simp_all add: same_config_def c2_def)
    have i1: "i \<in> set lru1" using i f(3) by simp
    have lz: "length ?z = unat (cblock_size c1)" using sz by simp
    have bo: "\<And>j. j < length (blocks c1) \<Longrightarrow> j \<noteq> i \<Longrightarrow> blk c2 j = blk c1 j" using b f(5) by simp
    note S = store_block [OF f(2) i1 sz(2) lz cfg bi bo]
    have v: "bview c2 lru1 (handle_img contents a st) = M(n := ?z)" using S(2) f(5,6) M i(2) by metis
    have "released c2" using rel b cfg(1) f(4) by (auto simp: released_def same_config_def c2_def upd_block_def f(5))
    then have "represents contents alloc a c2 st (M(n := ?z))" using S(1) v unfolding represents_def by blast
    moreover have "bcache_zero_block alloc n c st = Some (True, c2, st)"
      using f(1) by (simp add: bcache_zero_block_def c2_def)
    ultimately show thesis using that same_config_trans [OF f(4) cfg(1)] by blast
  next
    case False
    let ?c0 = "c\<lparr>stats := (stats c)\<lparr>misses := misses (stats c) + 1\<rparr>\<rparr>"
    have miss: "find_block n c = Some (None, ?c0)"
      using find_block_miss [OF lists] False by (simp add: find_not_cached)
    have v0: "coherent ?c0 lru (handle_img contents a st)" "bview ?c0 lru (handle_img contents a st) = M"
      using coherent_reorder [OF co, of ?c0 lru] lists M by (simp_all add: bc_lists_def)
    then have ok0: "bc_ok contents alloc a fr lru ?c0 st"
      using ok bc_lists_cong [of ?c0 c] by (auto simp: bc_ok_def bc_base_def)
    have rel0: "released ?c0" using rel by (simp add: released_def)
    show thesis
    proof (rule alloc_block_ok [OF ok0 released_room [OF ok0 rel0]])
      fix i fr' lru1 c1 st1
      assume al: "alloc_block alloc ?c0 st = Some (Some i, c1, st1)"
        and sp: "bc_spare contents alloc a i fr' lru1 c1 st1" and cfg: "same_config ?c0 c1"
        and sub: "set lru1 = set lru - {i}"
        and oth: "\<And>j. j < length (blocks ?c0) \<Longrightarrow> j \<noteq> i \<Longrightarrow> blk c1 j = blk ?c0 j"
        and ir: "i \<in> set fr \<or> ref_count (blk ?c0 i) = 0"
        and vw: "bview c1 lru1 (handle_img contents a st1) = bview ?c0 lru (handle_img contents a st)"
        and len: "length (handle_img contents a st1) = length (handle_img contents a st)"
        and cl: "(\<forall>j\<in>set lru. \<not> is_dirty (blk ?c0 j)) \<longrightarrow>
          handle_img contents a st1 = handle_img contents a st"
      have cc1: "same_config c c1" using cfg by (simp add: same_config_def)
      have il: "i < length (blocks c1)" using sp bc_lists_less by (auto simp: bc_spare_def bc_base_def)
      have b1: "length (bdata (blk c1 i)) = unat (cblock_size c1)"
        using sp il by (simp add: bc_spare_def bc_base_def block_ok_def)
      have sz: "cblock_size c1 = cblock_size c" "fs_offset c1 = 0" "length (blocks c1) = length (blocks c)"
        using cc1 off by (simp_all add: same_config_def)
      have has1: "fs_has c1 (handle_img contents a st1) n"
        using has len cc1 by (simp add: fs_has_def fs_at_def same_config_def)
      let ?c2 = "upd_block i (\<lambda>b. b\<lparr>blocknum := n\<rparr>) c1"
      define c3 where "c3 = upd_block i (zero_fill (cblock_size ?c2)) ?c2"
      have bi: "blk c3 i = (blk c1 i)\<lparr>blocknum := n, bdata := ?z, is_dirty := True\<rparr>"
        using blk_upd_block [of i ?c2 i "zero_fill (cblock_size ?c2)"] blk_upd_block [OF il, of i "\<lambda>b. b\<lparr>blocknum := n\<rparr>"]
          il zero_fill_eq b1 sz(1) by (simp add: c3_def)
      have bo: "blk c3 j = blk c1 j" if "j < length (blocks c1)" "j \<noteq> i" for j
        using that blk_upd_block [of j ?c2 i] blk_upd_block [of j c1 i] by (simp add: c3_def)
      have cfg3: "same_config c1 c3" "clinks c3 = clinks c1" by (simp_all add: same_config_def c3_def)
      have new1: "blocknum (blk c1 j) \<noteq> n" if "j \<in> set lru1" for j
        using False sub that oth [of j] bc_lists_less [OF lists, of j] by auto
      have lz: "length ?z = unat (cblock_size c1)" using sz by simp
      note F = fill_spare [OF sp new1 has1 lz _ _ cfg3 bi bo]
      have ok3: "bc_ok contents alloc a fr' (lru1 @ [i]) c3 st1"
        by (rule F(1)) (use sz in simp_all)
      have v3: "bview c3 (lru1 @ [i]) (handle_img contents a st1) = (bview c1 lru1 (handle_img contents a st1))(n := ?z)"
        by (rule F(2)) (use sz in simp_all)
      have "ref_count (blk c3 j) = 0" if "j < length (blocks c)" for j
        using rel bi bo [of j] oth [of j] sz sp that by (cases "j = i") (auto simp: released_def bc_spare_def)
      then have "released c3" using rel sz cfg3(1) by (auto simp: released_def same_config_def)
      then have "represents contents alloc a c3 st1 (M(n := ?z))"
        using ok3 v3 vw v0(2) unfolding represents_def by metis
      moreover have "bcache_zero_block alloc n c st = Some (True, c3, st1)"
        using miss al by (simp add: bcache_zero_block_def Let_def c3_def)
      ultimately show thesis using that same_config_trans [OF cc1 cfg3(1)] len by blast
    qed
  qed
qed

section \<open>Flushing\<close>

definition cleaner :: "bcache \<Rightarrow> bcache \<Rightarrow> bool" where
  "cleaner c c' \<longleftrightarrow> same_config c c' \<and> clinks c' = clinks c \<and>
     (\<forall>j<length (blocks c). ref_count (blk c' j) = ref_count (blk c j) \<and>
        (is_dirty (blk c' j) \<longrightarrow> is_dirty (blk c j)))"

lemma cleaner_refl [simp]: "cleaner c c"
  by (simp add: cleaner_def)

lemma cleaner_trans: "cleaner c c' \<Longrightarrow> cleaner c' c'' \<Longrightarrow> cleaner c c''"
  by (auto simp: cleaner_def same_config_def)

lemma flush_if_dirty_ok:
  assumes ok: "bc_ok contents alloc a fr lru c st" and i: "i \<in> set lru"
  obtains c' st' where "flush_if_dirty alloc i c st = (True, c', st')" "bc_ok contents alloc a fr lru c' st'"
    "bview c' lru (handle_img contents a st') = bview c lru (handle_img contents a st)"
    "length (handle_img contents a st') = length (handle_img contents a st)"
    "cleaner c c'" "\<not> is_dirty (blk c' i)"
proof (cases "is_dirty (blk c i)")
  case False
  then show thesis using that [of c st] ok by (simp add: flush_if_dirty_def)
next
  case True
  show thesis
  proof (rule flush_block_ok [OF ok i True])
    fix s st'
    let ?c = "(upd_block i (\<lambda>b. b\<lparr>is_dirty := False\<rparr>) c)\<lparr>stats := s\<rparr>"
    assume f: "flush_block alloc i c st = (True, ?c, st')" "bc_ok contents alloc a fr lru ?c st'"
      "bview ?c lru (handle_img contents a st') = bview c lru (handle_img contents a st)"
      "length (handle_img contents a st') = length (handle_img contents a st)"
    have il: "i < length (blocks c)" using ok i bc_lists_less by (auto simp: bc_ok_def bc_base_def)
    have b: "blk ?c j = (if j = i then (blk c i)\<lparr>is_dirty := False\<rparr> else blk c j)" if "j < length (blocks c)" for j
      using blk_upd_block [OF that] by simp
    have "cleaner c ?c" using b by (auto simp: cleaner_def same_config_def)
    moreover have "\<not> is_dirty (blk ?c i)" using b [OF il] by simp
    ultimately show thesis using that [OF _ f(2,3,4)] f(1) True by (simp add: flush_if_dirty_def)
  qed
qed

lemma flush_walk_ok:
  assumes "bc_ok contents alloc a fr (as @ bs) c st"
  shows "\<exists>c' st'. flush_walk alloc (Some (hd (map Node bs @ [Lru_list]))) c st = Some (True, c', st') \<and>
    bc_ok contents alloc a fr (as @ bs) c' st' \<and> cleaner c c' \<and> (\<forall>j\<in>set bs. \<not> is_dirty (blk c' j)) \<and>
    bview c' (as @ bs) (handle_img contents a st') = bview c (as @ bs) (handle_img contents a st) \<and>
    length (handle_img contents a st') = length (handle_img contents a st)"
  using assms
proof (induction bs arbitrary: as c st)
  case Nil
  then show ?case by (intro exI [of _ c] exI [of _ st]) (subst flush_walk.simps, simp)
next
  case (Cons i bs)
  have lists: "bc_lists c fr (as @ i # bs)" using Cons.prems by (simp add: bc_ok_def bc_base_def)
  have il: "i < length (blocks c)" using bc_lists_less [OF lists] by simp
  have "i \<in> set (as @ i # bs)" by simp
  then obtain c1 st1 where f: "flush_if_dirty alloc i c st = (True, c1, st1)"
    "bc_ok contents alloc a fr (as @ i # bs) c1 st1"
    "bview c1 (as @ i # bs) (handle_img contents a st1) = bview c (as @ i # bs) (handle_img contents a st)"
    "length (handle_img contents a st1) = length (handle_img contents a st)"
    "cleaner c c1" "\<not> is_dirty (blk c1 i)"
    by (rule flush_if_dirty_ok [OF Cons.prems])
  have "circ (clinks c1) Lru_list (map Node as @ Node i # map Node bs)"
    using f(2) by (simp add: bc_ok_def bc_base_def bc_lists_def)
  then have nx: "nnext (clinks c1) (Node i) = Some (hd (map Node bs @ [Lru_list]))"
    by (rule circ_mid(1))
  have "bc_ok contents alloc a fr ((as @ [i]) @ bs) c1 st1" using f(2) by simp
  from Cons.IH [OF this] obtain c2 st2 where
    g: "flush_walk alloc (Some (hd (map Node bs @ [Lru_list]))) c1 st1 = Some (True, c2, st2)"
    "bc_ok contents alloc a fr ((as @ [i]) @ bs) c2 st2" "cleaner c1 c2" "\<forall>j\<in>set bs. \<not> is_dirty (blk c2 j)"
    "bview c2 ((as @ [i]) @ bs) (handle_img contents a st2) = bview c1 ((as @ [i]) @ bs) (handle_img contents a st1)"
    "length (handle_img contents a st2) = length (handle_img contents a st1)" by blast
  have run: "flush_walk alloc (Some (hd (map Node (i # bs) @ [Lru_list]))) c st = Some (True, c2, st2)"
    using il f(1) g(1) nx by (subst flush_walk.simps) simp
  have "\<not> is_dirty (blk c2 i)"
    using g(3) f(6) f(5) il by (auto simp: cleaner_def same_config_def)
  then show ?case
    using run g f(3,4) cleaner_trans [OF f(5) g(3)] by (intro exI [of _ c2] exI [of _ st2]) simp
qed

lemma flush_ok:
  assumes rep: "represents contents alloc a c st M"
  obtains c' st' where "bcache_flush alloc c st = Some (True, c', st')"
    "represents contents alloc a c' st' M" "same_config c c'" "clean c'"
    "length (handle_img contents a st') = length (handle_img contents a st)"
proof -
  obtain fr lru where ok: "bc_ok contents alloc a fr lru c st" and M: "bview c lru (handle_img contents a st) = M"
    and rel: "released c" using rep by (auto simp: represents_def)
  have "nnext (clinks c) Lru_list = Some (hd (map Node lru @ [Lru_list]))"
    using ok by (intro circ_next_head) (simp add: bc_ok_def bc_base_def bc_lists_def)
  moreover obtain c' st' where
    f: "flush_walk alloc (Some (hd (map Node lru @ [Lru_list]))) c st = Some (True, c', st')"
    "bc_ok contents alloc a fr lru c' st'" "cleaner c c'" "\<forall>j\<in>set lru. \<not> is_dirty (blk c' j)"
    "bview c' lru (handle_img contents a st') = bview c lru (handle_img contents a st)"
    "length (handle_img contents a st') = length (handle_img contents a st)"
    using flush_walk_ok [of contents alloc a fr "[]" lru c st] ok by auto
  ultimately have "bcache_flush alloc c st = Some (True, c', st')" by (simp add: bcache_flush_def)
  moreover have "released c'" using f(3) rel by (auto simp: released_def cleaner_def same_config_def)
  then have "represents contents alloc a c' st' M" using f(2,5) M unfolding represents_def by blast
  ultimately show thesis
    using that f(3,4,6) clean_iff [OF f(2)] by (simp add: cleaner_def)
qed

text \<open>A clean cache shows the device itself.\<close>

lemma clean_view:
  assumes "represents contents alloc a c st M" "clean c"
  shows "M = fs_block c (handle_img contents a st)"
proof
  fix n
  obtain fr lru where ok: "bc_ok contents alloc a fr lru c st" and M: "bview c lru (handle_img contents a st) = M"
    using assms(1) by (auto simp: represents_def)
  have co: "coherent c lru (handle_img contents a st)" using ok by (simp add: bc_ok_def)
  show "M n = fs_block c (handle_img contents a st) n"
  proof (cases "\<exists>i\<in>set lru. blocknum (blk c i) = n")
    case True
    then show ?thesis
      using bview_cached [OF co] co assms(2) clean_iff [OF ok] M by (auto simp: coherent_def)
  next
    case False
    then show ?thesis using bview_uncached [of lru c n] M by blast
  qed
qed

section \<open>Programs over a block memory\<close>

fun run_cmds :: "('c \<Rightarrow> 's \<Rightarrow> ('r \<times> 's) option) \<Rightarrow> 'c list \<Rightarrow> 's \<Rightarrow> ('r list \<times> 's) option" where
  "run_cmds step [] s = Some ([], s)"
| "run_cmds step (c # cs) s =
     (case step c s of
        None \<Rightarrow> None
      | Some (r, s) \<Rightarrow> map_option (\<lambda>(rs, s). (r # rs, s)) (run_cmds step cs s))"

fun spec_cmds :: "('c \<Rightarrow> 'm \<Rightarrow> 'r \<times> 'm) \<Rightarrow> 'c list \<Rightarrow> 'm \<Rightarrow> 'r list \<times> 'm" where
  "spec_cmds spec [] m = ([], m)"
| "spec_cmds spec (c # cs) m =
     (case spec c m of (r, m) \<Rightarrow> case spec_cmds spec cs m of (rs, m) \<Rightarrow> (r # rs, m))"

locale block_memory =
  fixes step :: "'c \<Rightarrow> 's \<Rightarrow> ('r \<times> 's) option" and rep :: "'s \<Rightarrow> 'm \<Rightarrow> bool"
    and allowed :: "'c \<Rightarrow> bool" and spec :: "'c \<Rightarrow> 'm \<Rightarrow> 'r \<times> 'm"
  assumes simulates: "rep s m \<Longrightarrow> allowed c \<Longrightarrow>
    \<exists>s'. step c s = Some (fst (spec c m), s') \<and> rep s' (snd (spec c m))"
begin

lemma programs:
  assumes "rep s m" "list_all allowed cs"
  shows "\<exists>s'. run_cmds step cs s = Some (fst (spec_cmds spec cs m), s') \<and> rep s' (snd (spec_cmds spec cs m))"
  using assms
proof (induction cs arbitrary: s m)
  case (Cons c cs)
  obtain s1 where 1: "step c s = Some (fst (spec c m), s1)" "rep s1 (snd (spec c m))"
    using simulates [OF Cons.prems(1)] Cons.prems(2) by auto
  from Cons.IH [OF this(2)] Cons.prems(2) 1(1) show ?case
    by (auto split: prod.splits)
qed simp

end

datatype bc_cmd = Read_cmd bnum_t | Write_cmd bnum_t bytes | Zero_cmd bnum_t | Flush_cmd

text \<open>A client writes a block by getting it, marking it dirty, storing through the pointer and putting
  it back.\<close>

definition client_write ::
  "alloc_env \<Rightarrow> bool \<Rightarrow> bnum_t \<Rightarrow> bytes \<Rightarrow> bcache \<Rightarrow> 'd bd_state \<Rightarrow> (bool \<times> bcache \<times> 'd bd_state) option"
where
  "client_write alloc dbg n x c st =
     (case bcache_get_block alloc n c st of
        None \<Rightarrow> None
      | Some (None, c, st) \<Rightarrow> Some (False, c, st)
      | Some (Some i, c, st) \<Rightarrow>
          (case bcache_mark_block_dirty n c of
             None \<Rightarrow> None
           | Some (_, c) \<Rightarrow>
               map_option (\<lambda>c. (True, c, st)) (bcache_put_block dbg n (upd_block i (\<lambda>b. b\<lparr>bdata := x\<rparr>) c))))"

definition bc_step ::
  "alloc_env \<Rightarrow> bool \<Rightarrow> bc_cmd \<Rightarrow> bcache \<times> 'd bd_state \<Rightarrow> ((bool \<times> bytes) \<times> bcache \<times> 'd bd_state) option"
where
  "bc_step alloc dbg cmd s =
     (case s of (c, st) \<Rightarrow>
        case cmd of
          Read_cmd n \<Rightarrow>
            map_option (\<lambda>(r, s). (case r of None \<Rightarrow> (False, []) | Some x \<Rightarrow> (True, x), s)) (bcache_read_block alloc n c st)
        | Write_cmd n x \<Rightarrow> map_option (\<lambda>(r, s). ((r, []), s)) (client_write alloc dbg n x c st)
        | Zero_cmd n \<Rightarrow> map_option (\<lambda>(r, s). ((r, []), s)) (bcache_zero_block alloc n c st)
        | Flush_cmd \<Rightarrow> map_option (\<lambda>(r, s). ((r, []), s)) (bcache_flush alloc c st))"

fun mem_spec :: "nat \<Rightarrow> bc_cmd \<Rightarrow> (bnum_t \<Rightarrow> bytes) \<Rightarrow> (bool \<times> bytes) \<times> (bnum_t \<Rightarrow> bytes)" where
  "mem_spec sz (Read_cmd n) M = ((True, M n), M)"
| "mem_spec sz (Write_cmd n x) M = ((True, []), M(n := x))"
| "mem_spec sz (Zero_cmd n) M = ((True, []), M(n := replicate sz 0))"
| "mem_spec sz Flush_cmd M = ((True, []), M)"

fun mem_allowed :: "nat \<Rightarrow> nat \<Rightarrow> bc_cmd \<Rightarrow> bool" where
  "mem_allowed sz len (Read_cmd n) = (Suc (unat n) * sz \<le> len)"
| "mem_allowed sz len (Write_cmd n x) = (Suc (unat n) * sz \<le> len \<and> length x = sz)"
| "mem_allowed sz len (Zero_cmd n) = (Suc (unat n) * sz \<le> len)"
| "mem_allowed sz len Flush_cmd = True"

definition bc_rep ::
  "('d \<Rightarrow> bytes) \<Rightarrow> alloc_env \<Rightarrow> nat \<Rightarrow> nat \<Rightarrow> nat \<Rightarrow> bcache \<times> 'd bd_state \<Rightarrow> (bnum_t \<Rightarrow> bytes) \<Rightarrow> bool"
where
  "bc_rep contents alloc a sz len s M \<longleftrightarrow>
     represents contents alloc a (fst s) (snd s) M \<and> fs_offset (fst s) = 0 \<and>
     unat (cblock_size (fst s)) = sz \<and> length (handle_img contents a (snd s)) = len"

lemma client_write_ok:
  assumes rep: "represents contents alloc a c st M" and has: "fs_has c (handle_img contents a st) n"
    and off: "fs_offset c = 0" and len: "length x = unat (cblock_size c)"
  obtains c' st' where "client_write alloc dbg n x c st = Some (True, c', st')"
    "represents contents alloc a c' st' (M(n := x))" "same_config c c'"
    "length (handle_img contents a st') = length (handle_img contents a st)"
proof -
  obtain i c1 st1 where 1: "bcache_get_block alloc n c st = Some (Some i, c1, st1)"
    "got contents alloc a c1 st1 M n i" "same_config c c1"
    "length (handle_img contents a st1) = length (handle_img contents a st)"
    using get_block_ok [OF rep has] by metis
  have o1: "fs_offset c1 = 0" using 1(3) off by (simp add: same_config_def)
  obtain c2 where 2: "bcache_mark_block_dirty n c1 = Some (True, c2)" "got contents alloc a c2 st1 M n i"
    "same_config c1 c2" "is_dirty (blk c2 i)"
    by (rule mark_dirty_ok [OF 1(2) o1])
  have o2: "fs_offset c2 = 0" "length x = unat (cblock_size c2)"
    using 2(3) 1(3) o1 len by (simp_all add: same_config_def)
  let ?c3 = "upd_block i (\<lambda>b. b\<lparr>bdata := x\<rparr>) c2"
  have 3: "got contents alloc a ?c3 st1 (M(n := x)) n i" by (rule store_ok [OF 2(2) o2(1) 2(4) o2(2)])
  obtain c4 where 4: "bcache_put_block dbg n ?c3 = Some c4" "represents contents alloc a c4 st1 (M(n := x))"
    "same_config ?c3 c4" using put_block_ok [OF 3] by metis
  have "client_write alloc dbg n x c st = Some (True, c4, st1)"
    using 1(1) 2(1) 4(1) by (simp add: client_write_def)
  moreover have "same_config c c4" using 1(3) 2(3) 4(3) by (simp add: same_config_def)
  ultimately show thesis using that 4(2) 1(4) by blast
qed

interpretation bcm: block_memory "bc_step alloc dbg" "bc_rep contents alloc a sz len" "mem_allowed sz len" "mem_spec sz"
  for alloc dbg and contents :: "'d \<Rightarrow> bytes" and a sz len
proof
  fix s :: "bcache \<times> 'd bd_state" and M cmd
  assume rep: "bc_rep contents alloc a sz len s M" and al: "mem_allowed sz len cmd"
  obtain c st where s: "s = (c, st)" by (cases s)
  have r: "represents contents alloc a c st M" and off: "fs_offset c = 0"
    and sz: "unat (cblock_size c) = sz" and len: "length (handle_img contents a st) = len"
    using rep by (simp_all add: bc_rep_def s)
  have has: "fs_has c (handle_img contents a st) n" if "Suc (unat n) * sz \<le> len" for n
    using that off sz len by (simp add: fs_has_def fs_at_def)
  have keep: "bc_rep contents alloc a sz len (c', st') M'"
    if "represents contents alloc a c' st' M'" "same_config c c'"
      "length (handle_img contents a st') = length (handle_img contents a st)" for c' st' M'
    using that off sz len by (simp add: bc_rep_def same_config_def)
  show "\<exists>s'. bc_step alloc dbg cmd s = Some (fst (mem_spec sz cmd M), s') \<and>
      bc_rep contents alloc a sz len s' (snd (mem_spec sz cmd M))"
  proof (cases cmd)
    case (Read_cmd n)
    then have h: "fs_has c (handle_img contents a st) n" using al has by simp
    obtain c' st' where "bcache_read_block alloc n c st = Some (Some (M n), c', st')"
      "represents contents alloc a c' st' M" "same_config c c'"
      "length (handle_img contents a st') = length (handle_img contents a st)"
      using cached_read_ok [OF r h] by metis
    then show ?thesis using keep by (simp add: bc_step_def s Read_cmd)
  next
    case (Write_cmd n x)
    then have h: "fs_has c (handle_img contents a st) n" and lx: "length x = unat (cblock_size c)"
      using al has sz by simp_all
    obtain c' st' where "client_write alloc dbg n x c st = Some (True, c', st')"
      "represents contents alloc a c' st' (M(n := x))" "same_config c c'"
      "length (handle_img contents a st') = length (handle_img contents a st)"
      by (rule client_write_ok [OF r h off lx])
    then show ?thesis using keep by (simp add: bc_step_def s Write_cmd)
  next
    case (Zero_cmd n)
    then have h: "fs_has c (handle_img contents a st) n" using al has by simp
    obtain c' st' where "bcache_zero_block alloc n c st = Some (True, c', st')"
      "represents contents alloc a c' st' (M(n := replicate (unat (cblock_size c)) 0))" "same_config c c'"
      "length (handle_img contents a st') = length (handle_img contents a st)"
      by (rule zero_block_ok [OF r h off])
    then show ?thesis using keep sz by (simp add: bc_step_def s Zero_cmd)
  next
    case Flush_cmd
    obtain c' st' where "bcache_flush alloc c st = Some (True, c', st')"
      "represents contents alloc a c' st' M" "same_config c c'"
      "length (handle_img contents a st') = length (handle_img contents a st)"
      using flush_ok [OF r] by metis
    then show ?thesis using keep by (simp add: bc_step_def s Flush_cmd)
  qed
qed

end
