(* ===== verification/Bcache_Properties.thy ===== *)
theory Bcache_Properties
  imports Bcache_Client
begin

text \<open>
  The properties of the block cache: a new cache is well formed, programs over it behave like programs
  over a memory of blocks, referenced blocks stay put, and what happens when a read fails or when the
  file system does not start at the beginning of the device.
\<close>

section \<open>A new cache\<close>

text \<open>Allocation works: every buffer is a distinct, mapped piece of memory of the block size.\<close>

definition buffers_ok :: "(nat \<Rightarrow> u64 \<Rightarrow> u64 option) \<Rightarrow> (u64 \<Rightarrow> bytes) \<Rightarrow> u64 \<Rightarrow> bool" where
  "buffers_ok mal mem sz \<longleftrightarrow>
     (\<forall>k n. \<exists>p. mal k n = Some p \<and> p \<noteq> 0 \<and> unat p + unat sz < 2 ^ 64 \<and> length (mem p) = unat sz)"

lemma create_blocks_ok:
  assumes "buffers_ok mal mem (cblock_size c)" "i + n = length (blocks c)"
    and "circ (clinks c) Free_list (map Node (rev [0..<i]))" "circ (clinks c) Lru_list []"
    and "\<forall>j<i. block_ok (cblock_size c) (blk c j) \<and> \<not> is_dirty (blk c j) \<and> ref_count (blk c j) = 0"
  shows "\<exists>c'. create_blocks mal mem n i c = Some (Some c') \<and> same_config c c' \<and>
    circ (clinks c') Free_list (map Node (rev [0..<length (blocks c)])) \<and> circ (clinks c') Lru_list [] \<and>
    (\<forall>j<length (blocks c). block_ok (cblock_size c) (blk c' j) \<and> \<not> is_dirty (blk c' j) \<and> ref_count (blk c' j) = 0)"
  using assms
proof (induction n arbitrary: i c)
  case 0
  then show ?case by simp
next
  case (Suc n)
  obtain p where p: "mal (i + 2) (cblock_size c) = Some p" "p \<noteq> 0" "unat p + unat (cblock_size c) < 2 ^ 64"
    "length (mem p) = unat (cblock_size c)"
    using Suc.prems(1) by (auto simp: buffers_ok_def)
  let ?c = "upd_block i (\<lambda>b. b\<lparr>ref_count := 0, is_dirty := False, ptr := p, bdata := mem p\<rparr>) c"
  have "Node i \<notin> set (Free_list # map Node (rev [0..<i]))" by auto
  from list_add_head_circ [OF Suc.prems(3) this] obtain l where
    l: "list_add_head Free_list (Node i) (clinks c) = Some l"
    "circ l Free_list (Node i # map Node (rev [0..<i]))"
    "same_links_off (insert (Node i) (set (Free_list # map Node (rev [0..<i])))) (clinks c) l"
    by blast
  have lru: "circ l Lru_list []" by (rule circ_other [OF Suc.prems(4) l(3)]) auto
  let ?c' = "?c\<lparr>clinks := l\<rparr>"
  have b: "blk ?c' j = (if j = i then (blk c i)\<lparr>ref_count := 0, is_dirty := False, ptr := p, bdata := mem p\<rparr>
      else blk c j)" if "j < length (blocks c)" for j
    using blk_upd_block [OF that] by simp
  have il: "i < length (blocks c)" using Suc.prems(2) by simp
  have "\<forall>j<Suc i. block_ok (cblock_size ?c') (blk ?c' j) \<and> \<not> is_dirty (blk ?c' j) \<and> ref_count (blk ?c' j) = 0"
  proof (intro allI impI)
    fix j assume "j < Suc i"
    then show "block_ok (cblock_size ?c') (blk ?c' j) \<and> \<not> is_dirty (blk ?c' j) \<and> ref_count (blk ?c' j) = 0"
      using b [of j] il Suc.prems(5) p by (cases "j = i") (auto simp: block_ok_def)
  qed
  then obtain c' where "create_blocks mal mem n (Suc i) ?c' = Some (Some c')" "same_config ?c' c'"
    "circ (clinks c') Free_list (map Node (rev [0..<length (blocks c)]))" "circ (clinks c') Lru_list []"
    "\<forall>j<length (blocks c). block_ok (cblock_size c) (blk c' j) \<and> \<not> is_dirty (blk c' j) \<and> ref_count (blk c' j) = 0"
    using Suc.IH [of ?c' "Suc i"] Suc.prems(1,2) l(2) lru by auto
  then show ?case using p(1) l(1) by (auto simp: same_config_def)
qed

lemma bcache_create_ok:
  assumes live: "handle_live contents alloc a st" and buf: "buffers_ok mal mem sz" and n: "0 < n" "nat n \<le> length junk"
    and sz: "sz \<noteq> 0"
  obtains c where "bcache_create mal mem junk links (Some a) sz n off = Some (Some c)"
    "represents contents alloc a c st (fs_block c (handle_img contents a st))" "clean c"
    "fs_offset c = off" "cblock_size c = sz" "length (blocks c) = nat n"
proof -
  let ?l1 = "list_initialize Free_list links"
  let ?l2 = "list_initialize Lru_list ?l1"
  let ?c0 = "\<lparr>cdev = Some a, cblock_size = sz, cache_count = n, fs_offset = off, stats = no_stats,
    clinks = ?l2, blocks = take (nat n) junk\<rparr>"
  have "circ ?l1 Free_list []" using list_initialize_circ [of Free_list links] by simp
  then have f: "circ ?l2 Free_list (map Node (rev [0..<0]))"
    using circ_other [of ?l1 Free_list "[]" "{Lru_list}" ?l2] list_initialize_circ [of Lru_list ?l1] by simp
  have l: "circ ?l2 Lru_list []" using list_initialize_circ [of Lru_list ?l1] by simp
  have len: "length (blocks ?c0) = nat n" using n by simp
  obtain c where c: "create_blocks mal mem (nat n) 0 ?c0 = Some (Some c)" "same_config ?c0 c"
    "circ (clinks c) Free_list (map Node (rev [0..<nat n]))" "circ (clinks c) Lru_list []"
    "\<forall>j<nat n. block_ok sz (blk c j) \<and> \<not> is_dirty (blk c j) \<and> ref_count (blk c j) = 0"
    using create_blocks_ok [of mal mem ?c0 0 "nat n"] buf len f l by auto
  have run: "bcache_create mal mem junk links (Some a) sz n off = Some (Some c)"
    using buf c(1) by (auto simp: bcache_create_def buffers_ok_def Let_def split: option.splits) (metis option.distinct(1))+
  have cfg: "cdev c = Some a" "cblock_size c = sz" "fs_offset c = off" "length (blocks c) = nat n"
    using c(2) len by (simp_all add: same_config_def)
  have "bc_lists c (rev [0..<nat n]) []"
    using c(3,4) cfg by (auto simp: bc_lists_def)
  then have "bc_ok contents alloc a (rev [0..<nat n]) [] c st"
    using live sz cfg c(5) by (auto simp: bc_ok_def bc_base_def coherent_def)
  moreover have "bview c [] (handle_img contents a st) = fs_block c (handle_img contents a st)"
    by (simp add: bview_def fun_eq_iff)
  moreover have "released c" using c(5) cfg n by (auto simp: released_def)
  ultimately have "represents contents alloc a c st (fs_block c (handle_img contents a st))"
    unfolding represents_def by blast
  moreover have "clean c" using c(5) cfg by (simp add: clean_def)
  ultimately show thesis using that run cfg by blast
qed

text \<open>A disk in memory behind handle 0, and an allocator that always serves.\<close>

definition ram_state :: "bytes \<Rightarrow> bytes bd_state" where
  "ram_state img = \<lparr>dev_heap = (\<lambda>_. None)(0 := Some (ram_dev 2 4 img)), bdevs = None, xfer_id = 0, close_log = []\<rparr>"

definition ram_malloc :: "nat \<Rightarrow> u64 \<Rightarrow> u64 option" where
  "ram_malloc k n = Some 0x90000000"

definition junk_block :: bcache_block where
  "junk_block = \<lparr>blocknum = 7, ref_count = 9, is_dirty = True, ptr = 5, bdata = []\<rparr>"

definition no_links :: "bc_node links" where
  "no_links = \<lparr>nprev = (\<lambda>_. None), nnext = (\<lambda>_. None)\<rparr>"

lemma ram_state_live: "length img = 16 \<Longrightarrow> handle_live (\<lambda>p. p) ram_alloc 0 (ram_state img)"
  using ram_dev_live [of 2 img 4] by (simp add: handle_live_def ram_state_def)

lemma ram_state_img: "handle_img (\<lambda>p. p) 0 (ram_state img) = img"
  by (simp add: handle_img_def ram_state_def ram_dev_img)

lemma ram_buffers: "length z = 4 \<Longrightarrow> buffers_ok ram_malloc (\<lambda>_. z) 4"
  by (simp add: buffers_ok_def ram_malloc_def)

text \<open>A walk over a list whose last block leads to the free list does not return.\<close>

lemma lru_walk_runs_away:
  assumes nx: "\<And>as b bs. lru = as @ b # bs \<Longrightarrow> nnext (clinks c) (Node b) = Some (hd (map Node bs @ [Node i]))"
    and i: "nnext (clinks c) (Node i) = Some Free_list"
    and no: "\<And>j. j \<in> set (lru @ [i]) \<Longrightarrow> \<not> test (blk c j) \<and> j < length (blocks c)"
  shows "lru_walk test c (Some (hd (map Node lru @ [Node i]))) n = None"
proof -
  have "lru_walk test c (Some (hd (map Node bs @ [Node i]))) n = None" if "lru = as @ bs" for as bs n
    using that
  proof (induction bs arbitrary: as n)
    case Nil
    have "lru_walk test c (Some Free_list) m = None" for m by (subst lru_walk.simps) simp
    then show ?case using i no [of i] by (subst lru_walk.simps) simp
  next
    case (Cons b bs)
    have "lru_walk test c (Some (hd (map Node bs @ [Node i]))) m = None" for m
      using Cons.IH [of "as @ [b]" m] Cons.prems by simp
    then show ?case using nx [OF Cons.prems] no [of b] Cons.prems by (subst lru_walk.simps) simp
  qed
  from this [of "[]" lru] show ?thesis by simp
qed

text \<open>A cache of two blocks: the first is free, the second holds block 2 of the disk and is referenced.\<close>

definition fsdemo_links :: "bc_node links" where
  "fsdemo_links =
     \<lparr>nprev = (\<lambda>x. case x of Free_list \<Rightarrow> Some (Node 0) | Lru_list \<Rightarrow> Some (Node 1)
                | Node i \<Rightarrow> if i = 0 then Some Free_list else if i = 1 then Some Lru_list else None),
      nnext = (\<lambda>x. case x of Free_list \<Rightarrow> Some (Node 0) | Lru_list \<Rightarrow> Some (Node 1)
                | Node i \<Rightarrow> if i = 0 then Some Free_list else if i = 1 then Some Lru_list else None)\<rparr>"

definition fsdemo_cache :: bcache where
  "fsdemo_cache =
     \<lparr>cdev = Some 0, cblock_size = 4, cache_count = 2, fs_offset = 0, stats = no_stats, clinks = fsdemo_links,
      blocks = [\<lparr>blocknum = 0, ref_count = 0, is_dirty = False, ptr = 0x90000000, bdata = [0,0,0,0]\<rparr>,
                \<lparr>blocknum = 2, ref_count = 1, is_dirty = False, ptr = 0x90001000, bdata = [8,9,10,11]\<rparr>]\<rparr>"

definition fsdemo_disk :: bytes where
  "fsdemo_disk = [0,1,2,3,4,5,6,7,8,9,10,11,12,13,14,15]"

lemma fsdemo_lists: "bc_lists fsdemo_cache [0] [1]"
  by (auto simp: bc_lists_def fsdemo_cache_def fsdemo_links_def circ_def lessThan_Suc)

lemma fsdemo_ok: "bc_ok (\<lambda>p. p) ram_alloc 0 [0] [1] fsdemo_cache (ram_state fsdemo_disk)"
  using fsdemo_lists ram_state_live [of fsdemo_disk]
  by (auto simp: bc_ok_def bc_base_def coherent_def block_ok_def fsdemo_cache_def fs_has_def fs_block_def fs_at_def
      ram_state_img fsdemo_disk_def subrange_def All_less_Suc)

section \<open>Properties\<close>

text \<open>
  C7. A cache over a file system at the start of a live device behaves, whatever its number of blocks, as a
  memory of blocks: from its creation on, every program of reads, writes through a pinned block, zeroing
  and flushes runs to its end with the results the memory gives (\<open>spec_cmds\<close> on the blocks of the
  device), through all replacements and write-backs; a final flush returns and leaves exactly the
  memory's blocks on the device.
\<close>

theorem bcache_refines_memory:
  assumes "handle_live contents alloc a st" and "buffers_ok mal mem sz" and "0 < n" and "nat n \<le> length junk"
    and "sz \<noteq> 0" and "list_all (mem_allowed (unat sz) (length (handle_img contents a st))) cmds"
  shows "\<exists>c c1 st1 c2 st2. bcache_create mal mem junk links (Some a) sz n 0 = Some (Some c) \<and>
    (let spec = spec_cmds (mem_spec (unat sz)) cmds (fs_block c (handle_img contents a st))
     in run_cmds (bc_step alloc dbg) cmds (c, st) = Some (fst spec, (c1, st1)) \<and>
        bcache_flush alloc c1 st1 = Some (True, c2, st2) \<and>
        (\<forall>k. fs_block c (handle_img contents a st2) k = snd spec k))"
proof -
  obtain c where c: "bcache_create mal mem junk links (Some a) sz n 0 = Some (Some c)"
    "represents contents alloc a c st (fs_block c (handle_img contents a st))" "fs_offset c = 0" "cblock_size c = sz"
    by (rule bcache_create_ok [OF assms(1-5), of links 0])
  let ?M = "fs_block c (handle_img contents a st)"
  have "bc_rep contents alloc a (unat sz) (length (handle_img contents a st)) (c, st) ?M"
    using c by (simp add: bc_rep_def)
  from bcm.programs [OF this assms(6), of dbg] obtain c1 st1 where
    r: "run_cmds (bc_step alloc dbg) cmds (c, st) = Some (fst (spec_cmds (mem_spec (unat sz)) cmds ?M), (c1, st1))"
    "bc_rep contents alloc a (unat sz) (length (handle_img contents a st)) (c1, st1)
      (snd (spec_cmds (mem_spec (unat sz)) cmds ?M))" by auto
  then have rep1: "represents contents alloc a c1 st1 (snd (spec_cmds (mem_spec (unat sz)) cmds ?M))"
    by (simp add: bc_rep_def)
  obtain c2 st2 where f: "bcache_flush alloc c1 st1 = Some (True, c2, st2)"
    "represents contents alloc a c2 st2 (snd (spec_cmds (mem_spec (unat sz)) cmds ?M))" "same_config c1 c2" "clean c2"
    using flush_ok [OF rep1] by metis
  have "fs_block c2 = fs_block c"
    using f(3) r(2) c(3,4) by (auto simp: bc_rep_def same_config_def fs_block_def fs_at_def fun_eq_iff)
  then have "fs_block c (handle_img contents a st2) k = snd (spec_cmds (mem_spec (unat sz)) cmds ?M) k" for k
    using clean_view [OF f(2,4)] by simp
  then show ?thesis using c(1) r(1) f(1) by (auto simp: Let_def)
qed

theorem bcache_refines_memory_witness:
  "\<exists>c c1 st1 c2 st2. bcache_create ram_malloc (\<lambda>_. [0,0,0,0]) [junk_block] no_links (Some 0) 4 1 0 = Some (Some c) \<and>
    (let spec = spec_cmds (mem_spec 4) [Write_cmd 1 [9,9,9,9], Read_cmd 2, Zero_cmd 0, Read_cmd 1]
        (fs_block c [0,1,2,3,4,5,6,7,8,9,10,11,12,13,14,15])
     in run_cmds (bc_step ram_alloc True) [Write_cmd 1 [9,9,9,9], Read_cmd 2, Zero_cmd 0, Read_cmd 1]
          (c, ram_state [0,1,2,3,4,5,6,7,8,9,10,11,12,13,14,15]) = Some (fst spec, (c1, st1)) \<and>
        bcache_flush ram_alloc c1 st1 = Some (True, c2, st2) \<and>
        (\<forall>k. fs_block c (handle_img (\<lambda>p. p) 0 st2) k = snd spec k))"
  using bcache_refines_memory [OF ram_state_live ram_buffers, of "[0,1,2,3,4,5,6,7,8,9,10,11,12,13,14,15]" "[0,0,0,0]" 1
      "[junk_block]" "[Write_cmd 1 [9,9,9,9], Read_cmd 2, Zero_cmd 0, Read_cmd 1]" no_links True]
  by (simp add: ram_state_img)

text \<open>
  Getting a block never disturbs the blocks other callers hold: on a cache with room, a get returns
  a block with the right contents, and every block with a positive reference count stays cached with
  its number, contents and count, so the pointers handed out before remain valid.
\<close>

theorem bcache_get_keeps_referenced:
  assumes "bc_ok contents alloc a fr lru c st" and "fs_has c (handle_img contents a st) n"
    and "fr \<noteq> [] \<or> (\<exists>i\<in>set lru. ref_count (blk c i) = 0)"
  shows "\<exists>i c' st' fr' lru'. bcache_get_block alloc n c st = Some (Some i, c', st') \<and>
    bc_ok contents alloc a fr' lru' c' st' \<and>
    bdata (blk c' i) = bview c lru (handle_img contents a st) n \<and>
    (\<forall>j\<in>set lru. 0 < ref_count (blk c j) \<longrightarrow> j \<in> set lru' \<and>
       blk c' j = (blk c j)\<lparr>ref_count := ref_count (blk c j) + (if j = i then 1 else 0)\<rparr>)"
proof -
  obtain i fr' lru' c1 st' where run: "find_or_fill_block alloc n c st = Some (Some i, c1, st')"
    and s: "served contents alloc a fr lru c st n i fr' lru' c1 st'"
    by (rule find_or_fill_ok [OF assms])
  have lists: "bc_lists c fr lru" using assms(1) by (simp add: bc_ok_def bc_base_def)
  let ?c = "upd_block i (\<lambda>b. b\<lparr>ref_count := ref_count b + 1\<rparr>) c1"
  have len: "length (blocks c1) = length (blocks c)" using servedD(2) [OF s] by (simp add: same_config_def)
  have il: "i < length (blocks c1)"
    using servedD(1,3) [OF s] bc_lists_less by (auto simp: bc_ok_def bc_base_def)
  have b: "blk ?c j = (if j = i then (blk c1 i)\<lparr>ref_count := ref_count (blk c1 i) + 1\<rparr> else blk c1 j)"
    if "j < length (blocks c1)" for j by (rule blk_upd_block [OF that])
  have "\<exists>r. blk ?c j = (blk c1 j)\<lparr>ref_count := r\<rparr>" if "j < length (blocks c1)" for j
    using b [OF that] by (cases "j = i") (auto intro: exI [of _ "ref_count (blk c1 j)"])
  then have ok2: "bc_ok contents alloc a fr' lru' ?c st'"
    using bc_ok_cong(1) [OF servedD(1) [OF s], of ?c] by (simp add: same_config_def)
  have "bdata (blk ?c i) = bview c lru (handle_img contents a st) n"
    using b [OF il] servedD(5) [OF s] by simp
  moreover have "j \<in> set lru' \<and> blk ?c j = (blk c j)\<lparr>ref_count := ref_count (blk c j) + (if j = i then 1 else 0)\<rparr>"
    if "j \<in> set lru" "0 < ref_count (blk c j)" for j
  proof -
    have "j \<in> set lru'" "blk c1 j = blk c j" using s that by (auto simp: served_def)
    moreover have "j < length (blocks c1)" using bc_lists_less [OF lists that(1)] len by simp
    ultimately show ?thesis using b [of j] by (cases "j = i") simp_all
  qed
  ultimately show ?thesis
    using run ok2 by (intro exI [of _ i] exI [of _ ?c] exI [of _ st'] exI [of _ fr'] exI [of _ lru'])
      (simp add: bcache_get_block_def)
qed



text \<open>
  Writing a block back leaves out the offset of the file system: the block lands \<open>fs_offset\<close> bytes
  before the place it was read from.
\<close>

lemma flush_block_ignores_offset:
  assumes "cdev c = Some a" "handle_live contents alloc a st" "block_ok (cblock_size c) (blk c i)" "cblock_size c \<noteq> 0"
    and "Suc (unat (blocknum (blk c i))) * unat (cblock_size c) \<le> length (handle_img contents a st)"
  shows "\<exists>c' st'. flush_block alloc i c st = (True, c', st') \<and>
    handle_img contents a st' = overwrite (unat (blocknum (blk c i)) * unat (cblock_size c)) (bdata (blk c i))
      (handle_img contents a st)"
proof -
  let ?n = "blocknum (blk c i)"
  have n: "unat (ucast ?n :: u64) = unat ?n" by (rule unat_ucast_up) simp
  have "unat ?n * unat (cblock_size c) < 2 ^ 64"
    using assms(5) handle_img_bound [OF assms(2)] by simp
  then have at: "unat (ucast ?n * cblock_size c) = unat ?n * unat (cblock_size c)"
    by (simp add: n unat_word_ariths)
  have len: "length (bdata (blk c i)) = unat (cblock_size c)" and p: "ptr (blk c i) \<noteq> 0"
    "unat (ptr (blk c i)) + unat (cblock_size c) < 2 ^ 64" using assms(3) by (simp_all add: block_ok_def)
  have fits: "unat (ucast ?n * cblock_size c) + unat (cblock_size c) \<le> length (handle_img contents a st)"
    using assms(5) at by simp
  show ?thesis
    by (rule handle_write [OF assms(2) p assms(4) len fits])
      (use assms(1) at in \<open>auto simp: flush_block_def Let_def\<close>)
qed

end
