(* ===== verification/Ext2_Correct.thy ===== *)
theory Ext2_Correct
  imports Ext2_Io Bcache_Properties
begin

text \<open>
  Correctness of the ext2 reader. \<open>vol\<close> says that the cache is clean, released and stands for the
  blocks \<open>V\<close> of a live volume; \<open>H\<close> are the block numbers on the device. \<open>file_map\<close> is the mapping
  of the on-disk format (32-bit entries at every level), \<open>file_block\<close> the contents of a file's block.
\<close>

section \<open>A mounted volume\<close>

definition vol ::
  "('d \<Rightarrow> bytes) \<Rightarrow> fs_env \<Rightarrow> nat \<Rightarrow> ext2_t \<Rightarrow> (u32 \<Rightarrow> bytes) \<Rightarrow> (u32 \<Rightarrow> bool) \<Rightarrow> 'd fs_st \<Rightarrow> bool"
where
  "vol contents env a fs V H s \<longleftrightarrow>
     represents contents (fe_alloc env) a (fst s) (snd s) V \<and> clean (fst s) \<and>
     cblock_size (fst s) = ucast (E2FS_BLOCK_SIZE (super_blk fs)) \<and>
     H = fs_has (fst s) (handle_img contents a (snd s))"

lemma vol_keep:
  assumes "vol contents env a fs V H s" "represents contents (fe_alloc env) a c' st' V" "same_config (fst s) c'"
    "clean c'" "handle_img contents a st' = handle_img contents a (snd s)"
  shows "vol contents env a fs V H (c', st')"
  using assms fs_config(1) [OF assms(3)] by (simp add: vol_def same_config_def)

lemma vol_length:
  assumes "vol contents env a fs V H s" "H n"
  shows "length (V n) = unat (E2FS_BLOCK_SIZE (super_blk fs))"
proof -
  have "V = fs_block (fst s) (handle_img contents a (snd s))"
    using assms(1) clean_view by (auto simp: vol_def)
  moreover have "unat (ucast (E2FS_BLOCK_SIZE (super_blk fs)) :: u64) = unat (E2FS_BLOCK_SIZE (super_blk fs))"
    by (rule unat_ucast_up) simp
  ultimately show ?thesis using assms fs_block_length by (auto simp: vol_def)
qed

lemma vol_read:
  assumes v: "vol contents env a fs V H s" and h: "H (ucast b)"
  obtains s' where "ext2_read_block env b s = Some (Some (V (ucast b)), s')" "vol contents env a fs V H s'"
proof -
  have r: "represents contents (fe_alloc env) a (fst s) (snd s) V" and c: "clean (fst s)"
    and has: "fs_has (fst s) (handle_img contents a (snd s)) (ucast b)" using v h by (simp_all add: vol_def)
  obtain c' st' where 1: "bcache_read_block (fe_alloc env) (ucast b) (fst s) (snd s) = Some (Some (V (ucast b)), c', st')"
    "represents contents (fe_alloc env) a c' st' V" "same_config (fst s) c'"
    "clean c' \<and> handle_img contents a st' = handle_img contents a (snd s)"
    using cached_read_ok [OF r has] c by metis
  then have "vol contents env a fs V H (c', st')" using vol_keep [OF v] by blast
  then show thesis using that 1(1) by (simp add: ext2_read_block_def)
qed

lemma vol_get_put:
  assumes v: "vol contents env a fs V H s" and h: "H (ucast b)"
  obtains i s1 s2 where "ext2_get_block env b s = Some (Some i, s1)" "bdata (blk (fst s1) i) = V (ucast b)"
    "ext2_put_block env b s1 = Some s2" "vol contents env a fs V H s2"
proof -
  have r: "represents contents (fe_alloc env) a (fst s) (snd s) V" and c: "clean (fst s)"
    and has: "fs_has (fst s) (handle_img contents a (snd s)) (ucast b)" using v h by (simp_all add: vol_def)
  obtain i c1 st1 where 1: "bcache_get_block (fe_alloc env) (ucast b) (fst s) (snd s) = Some (Some i, c1, st1)"
    "got contents (fe_alloc env) a c1 st1 V (ucast b) i" "same_config (fst s) c1"
    "clean c1 \<and> handle_img contents a st1 = handle_img contents a (snd s)"
    using get_block_ok [OF r has] c by metis
  obtain c2 where 2: "bcache_put_block (fe_dbg env) (ucast b) c1 = Some c2"
    "represents contents (fe_alloc env) a c2 st1 V" "same_config c1 c2" "clean c2"
    using put_block_ok [OF 1(2)] 1(4) by metis
  have "vol contents env a fs V H (c2, st1)"
    using vol_keep [OF v 2(2) same_config_trans [OF 1(3) 2(3)] 2(4)] 1(4) by simp
  moreover have "bdata (blk c1 i) = V (ucast b)" using 1(2) by (simp add: got_def)
  ultimately show thesis
    using that [of i "(c1, st1)" "(c2, st1)"] 1(1) 2(1) by (simp add: ext2_get_block_def ext2_put_block_def)
qed

section \<open>The block map\<close>

definition block_ptr :: "ext2fs_dinode \<Rightarrow> nat \<Rightarrow> u32" where
  "block_ptr inode k = u32_at (4 * k) (e2di_blocks inode)"

definition table_entry :: "(u32 \<Rightarrow> bytes) \<Rightarrow> u32 \<Rightarrow> nat \<Rightarrow> u32" where
  "table_entry V b i = u32_at (4 * i) (V b)"

text \<open>Following indices through tables; a zero pointer at any level is a hole.\<close>

fun follow :: "(u32 \<Rightarrow> bytes) \<Rightarrow> u32 \<Rightarrow> nat list \<Rightarrow> u32" where
  "follow V b [] = b"
| "follow V b (i # is) = (if b = 0 then 0 else follow V (table_entry V b i) is)"

text \<open>The tables on the way are on the device.\<close>

fun tables_on :: "(u32 \<Rightarrow> bool) \<Rightarrow> (u32 \<Rightarrow> bytes) \<Rightarrow> u32 \<Rightarrow> nat list \<Rightarrow> bool" where
  "tables_on H V b [] = True"
| "tables_on H V b (i # is) = (b = 0 \<or> H b \<and> tables_on H V (table_entry V b i) is)"

definition file_path :: "nat \<Rightarrow> nat \<Rightarrow> nat \<times> nat list" where
  "file_path ppb k =
     (if k < 12 then (k, [])
      else if k - 12 < ppb then (12, [k - 12])
      else if k - 12 - ppb < ppb * ppb then (13, [(k - 12 - ppb) div ppb, (k - 12 - ppb) mod ppb])
      else let j = k - 12 - ppb - ppb * ppb
           in (14, [j div (ppb * ppb), (j mod (ppb * ppb)) div ppb, (j mod (ppb * ppb)) mod ppb]))"

definition file_map :: "(u32 \<Rightarrow> bytes) \<Rightarrow> nat \<Rightarrow> ext2fs_dinode \<Rightarrow> nat \<Rightarrow> u32" where
  "file_map V ppb inode k = (case file_path ppb k of (p, is) \<Rightarrow> follow V (block_ptr inode p) is)"

text \<open>A table read as 64-bit elements cut to 32 bits: the entry of twice the index.\<close>

lemma bit_of_le:
  "bit (of_le bs :: 'a::len word) n \<longleftrightarrow> n < LENGTH('a) \<and> n div 8 < length bs \<and> bit (bs ! (n div 8)) (n mod 8)"
proof (induction bs arbitrary: n)
  case (Cons b bs)
  show ?case
  proof (cases "n < 8")
    case True
    then show ?thesis by (auto simp: bit_simps)
  next
    case False
    then have "n div 8 = Suc ((n - 8) div 8)" "(n - 8) mod 8 = n mod 8" by (simp_all add: le_div_geq le_mod_geq)
    then show ?thesis using False Cons.IH [of "n - 8"] by (auto simp: bit_simps)
  qed
qed simp

lemma ucast_of_le: "ucast (of_le bs :: u64) = (of_le (take 4 bs) :: u32)"
proof (rule bit_word_eqI)
  fix n :: nat assume n: "n < LENGTH(32)"
  then have "n div 8 < 4" by simp
  then show "bit (ucast (of_le bs :: u64) :: u32) n = bit (of_le (take 4 bs) :: u32) n"
    using n bit_of_le [of bs n, where 'a = 64] bit_of_le [of "take 4 bs" n, where 'a = 32] by (auto simp: bit_simps)
qed

lemma elem64_entry:
  assumes "8 * i + 8 \<le> length (V b)" "unat p = i"
  shows "\<exists>x. elem64 (V b) p = Some x \<and> ucast x = table_entry V b (2 * i)"
  using assms by (simp add: elem64_def table_entry_def u64_at_def u32_at_def ucast_of_le take_subrange)

section \<open>Sizes\<close>

definition good_super :: "ext2fs_super_block \<Rightarrow> bool" where
  "good_super sb \<longleftrightarrow> unat (e2fs_log_bsize sb) \<le> 2"

definition bsize :: "ext2_t \<Rightarrow> nat" where
  "bsize fs = 1024 * 2 ^ unat (e2fs_log_bsize (super_blk fs))"

definition ptrs_per_block :: "ext2_t \<Rightarrow> nat" where
  "ptrs_per_block fs = 256 * 2 ^ unat (e2fs_log_bsize (super_blk fs))"

lemma bsize_cases:
  assumes "good_super (super_blk fs)"
  obtains "bsize fs = 1024" "ptrs_per_block fs = 256" "E2FS_BLOCK_SIZE (super_blk fs) = 1024"
      "E2FS_ADDR_PER_BLOCK (super_blk fs) = 256"
    | "bsize fs = 2048" "ptrs_per_block fs = 512" "E2FS_BLOCK_SIZE (super_blk fs) = 2048"
      "E2FS_ADDR_PER_BLOCK (super_blk fs) = 512"
    | "bsize fs = 4096" "ptrs_per_block fs = 1024" "E2FS_BLOCK_SIZE (super_blk fs) = 4096"
      "E2FS_ADDR_PER_BLOCK (super_blk fs) = 1024"
proof -
  have "unat (e2fs_log_bsize (super_blk fs)) \<le> 2" using assms by (simp add: good_super_def)
  then consider "unat (e2fs_log_bsize (super_blk fs)) = 0" | "unat (e2fs_log_bsize (super_blk fs)) = 1"
    | "unat (e2fs_log_bsize (super_blk fs)) = 2" by linarith
  then show thesis
    using that by cases (simp_all add: bsize_def ptrs_per_block_def E2FS_BLOCK_SIZE_def E2FS_ADDR_PER_BLOCK_def)
qed

lemma unat_block_size: "good_super (super_blk fs) \<Longrightarrow> unat (E2FS_BLOCK_SIZE (super_blk fs)) = bsize fs"
  by (erule bsize_cases) simp_all

lemma unat_per_block:
  "good_super (super_blk fs) \<Longrightarrow> unat (E2FS_ADDR_PER_BLOCK (super_blk fs)) = ptrs_per_block fs"
  by (erule bsize_cases) simp_all

lemma bsize_ptrs: "bsize fs = 4 * ptrs_per_block fs" "0 < ptrs_per_block fs" "0 < bsize fs"
  by (simp_all add: bsize_def ptrs_per_block_def)

lemma ptrs_le: "good_super (super_blk fs) \<Longrightarrow> ptrs_per_block fs \<le> 1024"
  by (erule bsize_cases) simp_all

lemma bsize_le: "good_super (super_blk fs) \<Longrightarrow> bsize fs \<le> 4096"
  by (erule bsize_cases) simp_all

lemma unat_u64_of_u32: "unat (ucast (w :: u32) :: u64) = unat w"
  by (rule unat_ucast_up) simp

lemma ucast_back: "(ucast (ucast (w :: u32) :: u64) :: u32) = w"
  by (rule bit_word_eqI) (simp add: bit_simps)

lemma unat_bs64: "good_super (super_blk fs) \<Longrightarrow> unat (ucast (E2FS_BLOCK_SIZE (super_blk fs)) :: u64) = bsize fs"
  using unat_block_size by (simp add: unat_u64_of_u32)

lemma unat_u32_of_u64: "unat w < 2 ^ 32 \<Longrightarrow> unat (ucast (w :: u64) :: u32) = unat w"
  by (simp add: unat_ucast_mod)

section \<open>Positions\<close>

lemma position_direct:
  assumes "unat k < 12"
  shows "ext2_calculate_block_pointer_pos fs (ucast (k :: u32)) = Some (0, [ucast (ucast k :: u64)])"
  using assms by (simp add: ext2_calculate_block_pointer_pos_def word_less_nat_alt unat_u64_of_u32)

lemma position_single:
  assumes g: "good_super (super_blk fs)" and k: "12 \<le> unat k" "unat (k :: u32) < 12 + ptrs_per_block fs"
  obtains i where "ext2_calculate_block_pointer_pos fs (ucast k) = Some (1, [12, i])" "unat i = unat k - 12"
proof -
  let ?b = "ucast k - 12 :: u64"
  have "12 \<le> (ucast k :: u64)" using k(1) by (simp add: word_le_nat_alt unat_u64_of_u32)
  then have b: "unat ?b = unat k - 12" by (simp add: unat_sub unat_u64_of_u32)
  have lt: "?b < ucast (E2FS_ADDR_PER_BLOCK (super_blk fs))"
    using b k unat_per_block [OF g] by (simp add: word_less_nat_alt unat_u64_of_u32)
  have "\<not> (ucast k :: u64) < 12" using k(1) by (simp add: word_less_nat_alt unat_u64_of_u32)
  then have "ext2_calculate_block_pointer_pos fs (ucast k) = Some (1, [12, ucast ?b])"
    using lt by (simp add: ext2_calculate_block_pointer_pos_def Let_def)
  moreover have "unat (ucast ?b :: u32) = unat k - 12"
    using b k ptrs_le [OF g] by (subst unat_u32_of_u64) auto
  ultimately show thesis by (rule that)
qed

lemma position_double:
  assumes g: "good_super (super_blk fs)"
    and k: "12 + ptrs_per_block fs \<le> unat k" "unat (k :: u32) < 12 + ptrs_per_block fs + ptrs_per_block fs * ptrs_per_block fs"
  defines "j \<equiv> unat k - 12 - ptrs_per_block fs"
  obtains i1 i2 where "ext2_calculate_block_pointer_pos fs (ucast k) = Some (2, [13, i1, i2])"
    "unat i1 = j div ptrs_per_block fs" "unat i2 = j mod ptrs_per_block fs"
proof -
  let ?p = "E2FS_ADDR_PER_BLOCK (super_blk fs)" and ?n = "ptrs_per_block fs"
  let ?b = "ucast k - 12 :: u64"
  let ?b2 = "?b - ucast ?p"
  have p: "unat ?p = ?n" "unat (ucast ?p :: u64) = ?n" using unat_per_block [OF g] by (simp_all add: unat_u64_of_u32)
  have n2: "?n * ?n \<le> 1024 * 1024" using ptrs_le [OF g] by (intro mult_mono) simp_all
  have pp: "unat (ucast (?p * ?p) :: u64) = ?n * ?n"
    using n2 p by (simp add: unat_u64_of_u32 unat_word_ariths)
  have "12 \<le> (ucast k :: u64)" using k(1) by (simp add: word_le_nat_alt unat_u64_of_u32)
  then have b: "unat ?b = unat k - 12" by (simp add: unat_sub unat_u64_of_u32)
  then have "ucast ?p \<le> ?b" using k(1) p by (simp add: word_le_nat_alt)
  then have b2: "unat ?b2 = j" using b p by (simp add: unat_sub j_def)
  have c1: "\<not> (ucast k :: u64) < 12" using k(1) by (simp add: word_less_nat_alt unat_u64_of_u32)
  have c2: "\<not> ?b < ucast ?p" using \<open>ucast ?p \<le> ?b\<close> by simp
  have c3: "?b2 < ucast (?p * ?p)" using b2 k pp by (simp add: word_less_nat_alt j_def)
  have "ext2_calculate_block_pointer_pos fs (ucast k) =
      Some (2, [13, ucast (?b2 div ucast ?p), ucast (?b2 mod ucast ?p)])"
    using c1 c2 c3 by (simp add: ext2_calculate_block_pointer_pos_def Let_def)
  moreover have "unat (ucast (?b2 div ucast ?p) :: u32) = j div ?n"
  proof -
    have "unat k < 2 ^ 32" using unat_u32_bound [of k] by simp
    moreover have "j div ?n \<le> j" "j \<le> unat k" by (simp_all add: j_def)
    ultimately have "j div ?n < 2 ^ 32" by linarith
    then show ?thesis using b2 p by (subst unat_u32_of_u64) (simp_all add: unat_div)
  qed
  moreover have "unat (ucast (?b2 mod ucast ?p) :: u32) = j mod ?n"
  proof -
    have "j mod ?n < 2 ^ 32" using mod_less_divisor [OF bsize_ptrs(2) [of fs], of j] ptrs_le [OF g] by simp
    then show ?thesis using b2 p by (subst unat_u32_of_u64) (simp_all add: unat_mod)
  qed
  ultimately show thesis by (rule that)
qed

section \<open>From file blocks to device blocks\<close>

definition inode_ok :: "ext2fs_dinode \<Rightarrow> bool" where
  "inode_ok inode \<longleftrightarrow> length (e2di_blocks inode) = 60"

lemma elem32_ptr: "inode_ok inode \<Longrightarrow> unat k < 15 \<Longrightarrow> elem32 (e2di_blocks inode) k = Some (block_ptr inode (unat k))"
  by (simp add: elem32_def inode_ok_def block_ptr_def)

lemma elem32_table:
  "unat i < ptrs_per_block fs \<Longrightarrow> length (V b) = bsize fs \<Longrightarrow> elem32 (V b) i = Some (table_entry V b (unat i))"
  using bsize_ptrs(1) [of fs] by (simp add: elem32_def table_entry_def)

lemma map_direct:
  assumes "inode_ok inode" "unat k < 12"
  shows "file_block_to_fs_block env fs inode k s = Some (ucast (file_map V ppb inode (unat k)), s)"
  using assms position_direct [OF assms(2), of fs] elem32_ptr [of inode k]
  by (simp add: file_block_to_fs_block_def file_map_def file_path_def)

lemma map_single:
  assumes v: "vol contents env a fs V H s" and g: "good_super (super_blk fs)" and io: "inode_ok inode"
    and k: "12 \<le> unat k" "unat k < 12 + ptrs_per_block fs"
    and t: "block_ptr inode 12 = 0 \<or> H (block_ptr inode 12)"
  obtains s' where "file_block_to_fs_block env fs inode k s =
      Some (ucast (file_map V (ptrs_per_block fs) inode (unat k)), s')" "vol contents env a fs V H s'"
proof -
  let ?t = "block_ptr inode 12"
  obtain i where pos: "ext2_calculate_block_pointer_pos fs (ucast k) = Some (1, [12, i])" "unat i = unat k - 12"
    by (rule position_single [OF g k])
  have "unat k - 12 < ptrs_per_block fs" using k by linarith
  then have fm: "file_map V (ptrs_per_block fs) inode (unat k) = (if ?t = 0 then 0 else table_entry V ?t (unat i))"
    using k(1) pos(2) by (simp add: file_map_def file_path_def)
  have e: "elem32 (e2di_blocks inode) 12 = Some ?t" using elem32_ptr [OF io, of 12] by simp
  show thesis
  proof (cases "?t = 0")
    case True
    then show thesis
      using that [of s] v pos(1) e fm
      by (simp add: file_block_to_fs_block_def ext2_get_indirect_block_pointer_cache_block_def)
  next
    case False
    note uu = ucast_back
    then have "H (ucast (ucast ?t :: u64))" using t False by simp
    from vol_get_put [OF v this] obtain j s1 s2 where gp: "ext2_get_block env (ucast ?t) s = Some (Some j, s1)"
      "bdata (blk (fst s1) j) = V ?t" "ext2_put_block env (ucast ?t) s1 = Some s2" "vol contents env a fs V H s2"
      unfolding uu by metis
    have "length (V ?t) = bsize fs" using vol_length [OF v] t False unat_block_size [OF g] by simp
    moreover have "unat i < ptrs_per_block fs" using pos(2) k by simp
    ultimately have "elem32 (V ?t) i = Some (table_entry V ?t (unat i))" using elem32_table by metis
    then show thesis
      using that [of s2] pos(1) e fm False gp
      by (simp add: file_block_to_fs_block_def ext2_get_indirect_block_pointer_cache_block_def)
  qed
qed

text \<open>
  For doubly indirect blocks the code follows the entry of twice the index in the first table, and
  leaves the table for its second half.
\<close>

lemma map_double:
  assumes v: "vol contents env a fs V H s" and g: "good_super (super_blk fs)" and io: "inode_ok inode"
    and k: "12 + ptrs_per_block fs \<le> unat k" "unat k < 12 + ptrs_per_block fs + ptrs_per_block fs * ptrs_per_block fs"
  defines "j \<equiv> unat k - 12 - ptrs_per_block fs"
  defines "path \<equiv> [2 * (j div ptrs_per_block fs), j mod ptrs_per_block fs]"
  assumes t: "tables_on H V (block_ptr inode 13) path"
  shows "if block_ptr inode 13 \<noteq> 0 \<and> ptrs_per_block fs \<le> 2 * (j div ptrs_per_block fs)
    then file_block_to_fs_block env fs inode k s = None
    else \<exists>s'. file_block_to_fs_block env fs inode k s = Some (ucast (follow V (block_ptr inode 13) path), s') \<and>
      vol contents env a fs V H s'"
proof -
  let ?t = "block_ptr inode 13" and ?n = "ptrs_per_block fs"
  obtain i1 i2 where pos: "ext2_calculate_block_pointer_pos fs (ucast k) = Some (2, [13, i1, i2])"
    "unat i1 = j div ?n" "unat i2 = j mod ?n"
    unfolding j_def by (rule position_double [OF g k])
  have e: "elem32 (e2di_blocks inode) 13 = Some ?t" using elem32_ptr [OF io, of 13] by simp
  note uu = ucast_back
  have len: "length (V b) = 4 * ?n" if "H b" for b
    using vol_length [OF v that] unat_block_size [OF g] bsize_ptrs(1) [of fs] by simp
  show ?thesis
  proof (cases "?t = 0")
    case True
    then show ?thesis
      using v pos(1) e
      by (simp add: file_block_to_fs_block_def ext2_get_indirect_block_pointer_cache_block_def path_def numeral_2_eq_2)
  next
    case t0: False
    then have ht: "H ?t" using t by (simp add: path_def)
    then have "H (ucast (ucast ?t :: u64))" using uu by simp
    from vol_get_put [OF v this] obtain x s1 s2 where gp: "ext2_get_block env (ucast ?t) s = Some (Some x, s1)"
      "bdata (blk (fst s1) x) = V ?t" "ext2_put_block env (ucast ?t) s1 = Some s2" "vol contents env a fs V H s2"
      unfolding uu by metis
    show ?thesis
    proof (cases "?n \<le> 2 * (j div ?n)")
      case True
      have "elem64 (V ?t) i1 = None" using True len [OF ht] pos(2) by (simp add: elem64_def)
      then have "file_block_to_fs_block env fs inode k s = None"
        using pos(1) e t0 gp
        by (simp add: file_block_to_fs_block_def ext2_get_indirect_block_pointer_cache_block_def numeral_2_eq_2)
      then show ?thesis using True t0 by simp
    next
      case False
      have "?n = 2 * (128 * 2 ^ unat (e2fs_log_bsize (super_blk fs)))" by (simp add: ptrs_per_block_def)
      then obtain m where m: "?n = 2 * m" by blast
      have "2 * q + 2 \<le> 2 * m" if "\<not> 2 * m \<le> 2 * q" for q :: nat using that by presburger
      from this [of "j div ?n"] have "2 * (j div ?n) + 2 \<le> ?n" using False m by metis
      then have "8 * (j div ?n) + 8 \<le> length (V ?t)" using len [OF ht] by simp
      from elem64_entry [where V = V and b = ?t, OF this pos(2)] obtain nb where nb: "elem64 (V ?t) i1 = Some nb"
        "ucast nb = table_entry V ?t (2 * (j div ?n))" by blast
      let ?m = "table_entry V ?t (2 * (j div ?n))"
      show ?thesis
      proof (cases "?m = 0")
        case True
        have "file_block_to_fs_block env fs inode k s = Some (0, s2)"
          using pos(1) e t0 gp nb True
          by (simp add: file_block_to_fs_block_def ext2_get_indirect_block_pointer_cache_block_def numeral_2_eq_2)
        then show ?thesis using False t0 True gp(4) by (simp add: path_def)
      next
        case m0: False
        then have hm: "H ?m" using t t0 by (simp add: path_def)
        then have "H (ucast (ucast ?m :: u64))" using uu by simp
        from vol_get_put [OF gp(4) this] obtain y s3 s4 where gq: "ext2_get_block env (ucast ?m) s2 = Some (Some y, s3)"
          "bdata (blk (fst s3) y) = V ?m" "ext2_put_block env (ucast ?m) s3 = Some s4" "vol contents env a fs V H s4"
          unfolding uu by metis
        have "unat i2 < ?n" using pos(3) bsize_ptrs(2) [of fs] by simp
        moreover have "length (V ?m) = bsize fs" using len [OF hm] bsize_ptrs(1) [of fs] by simp
        ultimately have "elem32 (V ?m) i2 = Some (table_entry V ?m (unat i2))" using elem32_table by metis
        then have "file_block_to_fs_block env fs inode k s = Some (ucast (table_entry V ?m (unat i2)), s4)"
          using pos(1) e t0 gp nb m0 gq
          by (simp add: file_block_to_fs_block_def ext2_get_indirect_block_pointer_cache_block_def numeral_2_eq_2)
        then show ?thesis using False t0 m0 gq(4) pos(3) by (simp add: path_def)
      qed
    qed
  qed
qed

section \<open>Reading\<close>

definition file_block :: "(u32 \<Rightarrow> bytes) \<Rightarrow> ext2_t \<Rightarrow> ext2fs_dinode \<Rightarrow> nat \<Rightarrow> bytes" where
  "file_block V fs inode k =
     (let p = file_map V (ptrs_per_block fs) inode k in if p = 0 then replicate (bsize fs) 0 else V p)"

definition file_bytes :: "(u32 \<Rightarrow> bytes) \<Rightarrow> ext2_t \<Rightarrow> ext2fs_dinode \<Rightarrow> nat \<Rightarrow> bytes" where
  "file_bytes V fs inode n = concat (map (file_block V fs inode) [0..<n])"

text \<open>The blocks of the file below \<open>n\<close> lie in the direct or singly indirect range, and the device has
  all of them.\<close>

definition readable :: "(u32 \<Rightarrow> bool) \<Rightarrow> (u32 \<Rightarrow> bytes) \<Rightarrow> ext2_t \<Rightarrow> ext2fs_dinode \<Rightarrow> nat \<Rightarrow> bool" where
  "readable H V fs inode n \<longleftrightarrow>
     n \<le> 12 + ptrs_per_block fs \<and> (n \<le> 12 \<or> block_ptr inode 12 = 0 \<or> H (block_ptr inode 12)) \<and>
     (\<forall>k<n. file_map V (ptrs_per_block fs) inode k = 0 \<or> H (file_map V (ptrs_per_block fs) inode k))"

lemma file_block_length:
  assumes "vol contents env a fs V H s" "good_super (super_blk fs)" "readable H V fs inode n" "k < n"
  shows "length (file_block V fs inode k) = bsize fs"
  using assms vol_length [OF assms(1)] unat_block_size [OF assms(2)] by (auto simp: file_block_def readable_def Let_def)

lemma read_file_block_ok:
  assumes v: "vol contents env a fs V H s" and g: "good_super (super_blk fs)" and io: "inode_ok inode"
    and r: "readable H V fs inode n" and k: "unat k < n"
  obtains s' where "read_file_block env fs inode k old s = Some (file_block V fs inode (unat k), s')"
    "vol contents env a fs V H s'"
proof -
  let ?p = "file_map V (ptrs_per_block fs) inode (unat k)"
  obtain s1 where m: "file_block_to_fs_block env fs inode k s = Some (ucast ?p, s1)" "vol contents env a fs V H s1"
  proof (cases "unat k < 12")
    case True
    then show thesis using that map_direct [OF io True] v by metis
  next
    case False
    have "12 \<le> unat k" "unat k < 12 + ptrs_per_block fs" "block_ptr inode 12 = 0 \<or> H (block_ptr inode 12)"
      using False k r by (auto simp: readable_def)
    then show thesis using map_single [OF v g io] that by metis
  qed
  have z: "(ucast ?p :: u64) = 0 \<longleftrightarrow> ?p = 0" using ucast_back [of ?p] by (metis unsigned_0)
  show thesis
  proof (cases "?p = 0")
    case True
    then show thesis
      using that m z unat_block_size [OF g] by (simp add: read_file_block_def file_block_def)
  next
    case False
    then have "H ?p" using r k by (auto simp: readable_def)
    then have "H (ucast (ucast ?p :: u64))" using ucast_back [of ?p] by simp
    then obtain s2 where 2: "ext2_read_block env (ucast ?p) s1 = Some (Some (V ?p), s2)" "vol contents env a fs V H s2"
      using vol_read [OF m(2), of "ucast ?p"] unfolding ucast_back by metis
    then have "read_file_block env fs inode k old s = Some (file_block V fs inode (unat k), s2)"
      using m(1) z False by (simp add: read_file_block_def file_block_def)
    then show thesis using that 2(2) by blast
  qed
qed

lemma read_middle_ok:
  assumes "vol contents env a fs V H s" "good_super (super_blk fs)" "inode_ok inode"
    "readable H V fs inode n" "unat k + m \<le> n" "n < 2 ^ 32"
  shows "\<exists>s'. read_middle env fs inode m k buf s =
      Some (concat (map (file_block V fs inode) [unat k..<unat k + m]), s') \<and> vol contents env a fs V H s'"
  using assms
proof (induction m arbitrary: k buf s)
  case (Suc m)
  let ?bs = "unat (E2FS_BLOCK_SIZE (super_blk fs))"
  have "unat k < n" using Suc.prems(5) by simp
  then obtain s1 where 1: "read_file_block env fs inode k (take ?bs buf) s = Some (file_block V fs inode (unat k), s1)"
    "vol contents env a fs V H s1"
    by (rule read_file_block_ok [OF Suc.prems(1-4)])
  have k1: "unat (k + 1) = unat k + 1" using Suc.prems(5,6) by (simp add: unat_word_ariths)
  have "unat (k + 1) + m \<le> n" using k1 Suc.prems(5) by simp
  from Suc.IH [OF 1(2) Suc.prems(2-4) this Suc.prems(6), of "drop ?bs buf"] obtain s2 where
    2: "read_middle env fs inode m (k + 1) (drop ?bs buf) s1 =
      Some (concat (map (file_block V fs inode) [unat (k + 1)..<unat (k + 1) + m]), s2)" "vol contents env a fs V H s2"
    by blast
  have "[unat k..<unat k + Suc m] = unat k # [unat (k + 1)..<unat (k + 1) + m]"
    using k1 by (simp add: upt_conv_Cons)
  then show ?case using 1(1) 2 by (simp add: Let_def del: upt.simps)
qed simp

text \<open>Slices of a list of blocks of the same length.\<close>

lemma concat_blocks_length:
  "(\<And>k. k \<in> set ks \<Longrightarrow> length (f k) = b) \<Longrightarrow> length (concat (map f ks)) = length ks * b"
  by (induction ks) auto

lemma blocks_slice:
  assumes "\<And>k. k < n \<Longrightarrow> length (f k) = b" "i + m \<le> n"
  shows "subrange (i * b) (m * b) (concat (map f [0..<n])) = concat (map f [i..<i + m])"
proof -
  have "[0..<n] = [0..<i] @ [i..<i + m] @ [i + m..<n]"
    using assms(2) by (metis add.commute le_add1 le_trans upt_add_eq_append le_Suc_ex add_0)
  then have "concat (map f [0..<n]) =
      concat (map f [0..<i]) @ concat (map f [i..<i + m]) @ concat (map f [i + m..<n])" by simp
  moreover have "length (concat (map f [0..<i])) = i * b" "length (concat (map f [i..<i + m])) = m * b"
    using concat_blocks_length [of "[0..<i]" f b] concat_blocks_length [of "[i..<i + m]" f b] assms by auto
  ultimately show ?thesis by (simp add: subrange_def)
qed

lemma block_slice:
  assumes "\<And>k. k < n \<Longrightarrow> length (f k) = b" "i < n" "off + m \<le> b"
  shows "subrange (i * b + off) m (concat (map f [0..<n])) = subrange off m (f i)"
proof -
  have "subrange off m (subrange (i * b) (1 * b) (concat (map f [0..<n]))) = subrange (i * b + off) m (concat (map f [0..<n]))"
    by (rule subrange_subrange) (use assms(3) in simp)
  then show ?thesis using blocks_slice [where n = n and f = f and b = b and i = i and m = 1] assms(1,2) by simp
qed

text \<open>The last two stages of a read, from a block boundary on.\<close>

lemma read_tail_ok:
  assumes v: "vol contents env a fs V H s" and g: "good_super (super_blk fs)" and io: "inode_ok inode"
    and r: "readable H V fs inode n" and fit: "rest \<noteq> 0 \<Longrightarrow> unat k * bsize fs + unat rest \<le> n * bsize fs"
    and m: "m = unat ((rest :: u64) div ucast (E2FS_BLOCK_SIZE (super_blk fs)))"
    and l: "l = unat (rest mod ucast (E2FS_BLOCK_SIZE (super_blk fs)))"
  obtains s1 s2 where "read_middle env fs inode m k buf s =
      Some (subrange (unat k * bsize fs) (m * bsize fs) (file_bytes V fs inode n), s1)"
    "vol contents env a fs V H s1"
    "l \<noteq> 0 \<longrightarrow> (\<exists>d. read_file_block env fs inode (k + of_nat m) temp s1 = Some (d, s2) \<and>
       take l d = subrange ((unat k + m) * bsize fs) l (file_bytes V fs inode n))"
    "vol contents env a fs V H s2" "m * bsize fs + l = unat rest"
proof -
  let ?B = "bsize fs"
  have B: "0 < ?B" by (rule bsize_ptrs(3))
  have ml: "m = unat rest div ?B" "l = unat rest mod ?B"
    using m l unat_bs64 [OF g] by (simp_all add: unat_div unat_mod)
  then have sum: "m * ?B + l = unat rest" by simp
  have n32: "n < 2 ^ 32" using r ptrs_le [OF g] by (simp add: readable_def)
  have bl: "length (file_block V fs inode j) = ?B" if "j < n" for j
    by (rule file_block_length [OF v g r that])
  have km: "unat k + m \<le> n \<and> (l \<noteq> 0 \<longrightarrow> unat k + m < n)" if "rest \<noteq> 0"
  proof -
    have "unat k * ?B + (m * ?B + l) \<le> n * ?B" using fit [OF that] sum by simp
    then have le: "(unat k + m) * ?B + l \<le> n * ?B" by (simp add: add_mult_distrib)
    then have "(unat k + m) * ?B \<le> n * ?B" by linarith
    moreover have "(unat k + m) * ?B < n * ?B" if "l \<noteq> 0" using le that by linarith
    ultimately show ?thesis using B by (metis mult_le_cancel2 mult_less_cancel2)
  qed
  have "\<exists>s1. read_middle env fs inode m k buf s =
      Some (subrange (unat k * ?B) (m * ?B) (file_bytes V fs inode n), s1) \<and> vol contents env a fs V H s1"
  proof (cases "m = 0")
    case True
    then show ?thesis using v by simp
  next
    case False
    then have "rest \<noteq> 0" using ml(1) by (metis div_0 unsigned_0)
    then have le: "unat k + m \<le> n" using km by blast
    from read_middle_ok [OF v g io r this n32, of buf] show ?thesis
      using blocks_slice [of n "file_block V fs inode" ?B, OF bl le] by (simp add: file_bytes_def)
  qed
  then obtain s1 where 1: "read_middle env fs inode m k buf s =
      Some (subrange (unat k * ?B) (m * ?B) (file_bytes V fs inode n), s1)" "vol contents env a fs V H s1" by blast
  show thesis
  proof (cases "l = 0")
    case True
    then show thesis using that [OF 1 _ 1(2) sum] by simp
  next
    case False
    then have "rest \<noteq> 0" using ml(2) by (metis mod_0 unsigned_0)
    then have lt: "unat k + m < n" using km False by blast
    have km32: "unat (k + of_nat m) = unat k + m"
      using lt n32 by (simp add: unat_word_ariths unat_of_nat)
    obtain s2 where 2: "read_file_block env fs inode (k + of_nat m) temp s1 = Some (file_block V fs inode (unat k + m), s2)"
      "vol contents env a fs V H s2"
      using read_file_block_ok [OF 1(2) g io r, of "k + of_nat m"] lt unfolding km32 by blast
    have lB: "l < ?B" using ml(2) B by simp
    then have "subrange ((unat k + m) * ?B + 0) l (file_bytes V fs inode n) = subrange 0 l (file_block V fs inode (unat k + m))"
      unfolding file_bytes_def by (intro block_slice bl lt) simp_all
    then show thesis using that [OF 1 _ 2(2) sum] 2(1) by (simp add: subrange_def)
  qed
qed

lemma read_inode_ok:
  assumes v: "vol contents env a fs V H s" and g: "good_super (super_blk fs)" and io: "inode_ok inode"
    and r: "readable H V fs inode n" and nw: "unat offset + unat len < 2 ^ 64"
    and c: "c = min (unat len) (unat (ext2_file_len fs inode) - unat offset)"
    and fit: "unat offset + c \<le> n * bsize fs"
  shows "\<exists>s'. ext2_read_inode env fs inode buf offset len s =
      Some (subrange (unat offset) c (file_bytes V fs inode n), s') \<and> vol contents env a fs V H s'"
proof -
  let ?B = "bsize fs" and ?W = "ucast (E2FS_BLOCK_SIZE (super_blk fs)) :: u64"
  let ?size = "ext2_file_len fs inode" and ?off = "unat offset"
  define L where "L = (if offset + len \<ge> ?size then ?size - offset else len)"
  have W: "unat ?W = ?B" by (rule unat_bs64 [OF g])
  have B: "0 < ?B" by (rule bsize_ptrs(3))
  have W0: "?W \<noteq> 0" using W B by (metis unsigned_0 less_irrefl)
  show ?thesis
  proof (cases "offset > ?size \<or> L = 0")
    case True
    have "c = 0"
    proof (cases "offset > ?size")
      case False
      then have "L = 0" "offset \<le> ?size" using True by simp_all
      then show ?thesis
        using nw c by (auto simp: L_def word_le_nat_alt unat_word_ariths unat_sub split: if_splits)
    qed (use c in \<open>simp add: word_less_nat_alt\<close>)
    moreover have "ext2_read_inode env fs inode buf offset len s = Some ([], s)"
      using True by (auto simp: ext2_read_inode_def Let_def L_def)
    ultimately show ?thesis using v by simp
  next
    case False
    then have le: "offset \<le> ?size" and L0: "L \<noteq> 0" by (simp_all add: not_less)
    have Lc: "unat L = c"
      using le nw c by (auto simp: L_def word_le_nat_alt unat_word_ariths unat_sub)
    have c0: "0 < c" using L0 Lc by (metis neq0_conv unsigned_eq_0_iff)
    let ?i = "?off div ?B" and ?o = "?off mod ?B"
    define k where "k = (ucast (offset div ?W) :: u32)"
    define bo where "bo = offset mod ?W"
    define tc where "tc = min L (?W - bo)"
    have bo: "unat bo = ?o" using W by (simp add: bo_def unat_mod)
    have boW: "bo \<le> ?W" using bo W mod_less_divisor [OF B, of ?off] by (simp add: word_le_nat_alt)
    have tc: "unat tc = min c (?B - ?o)" using Lc W bo boW by (simp add: tc_def unat_min unat_sub)
    have iB: "?i * ?B \<le> ?off" by simp
    have "?i * ?B < n * ?B" using fit c0 iB by linarith
    then have iN: "?i < n" by simp
    have n32: "n < 2 ^ 32" using r ptrs_le [OF g] by (simp add: readable_def)
    have k: "unat k = ?i" using iN n32 W by (simp add: k_def unat_ucast_mod unat_div)
    define temp where "temp = stack_array env (unat ?W)"
    have bl: "length (file_block V fs inode j) = ?B" if "j < n" for j
      by (rule file_block_length [OF v g r that])
    define c1 where "c1 = (if bo \<noteq> 0 then unat tc else 0)"
    define fb where "fb = (if bo \<noteq> 0 then k + 1 else k)"
    define rest where "rest = (if bo \<noteq> 0 then L - tc else L)"
    have bo0: "bo = 0 \<longleftrightarrow> ?o = 0" using bo by (metis unsigned_0 unsigned_eq_0_iff)
    have tcL: "tc \<le> L" by (simp add: tc_def)
    have rest: "unat rest = c - c1" using tcL Lc by (simp add: rest_def c1_def unat_sub)
    have c1le: "c1 \<le> c" using tc by (simp add: c1_def)
    obtain s1 where first: "(if bo \<noteq> 0 then map_option (\<lambda>(d, s). (subrange (unat bo) (unat tc) d, s))
          (read_file_block env fs inode k temp s) else Some ([], s)) =
        Some (subrange ?off c1 (file_bytes V fs inode n), s1)" "vol contents env a fs V H s1"
    proof (cases "bo = 0")
      case True
      then show thesis using that [of s] v by (simp add: c1_def)
    next
      case bn: False
      have "unat k < n" using k iN by simp
      then obtain s1 where rd: "read_file_block env fs inode k temp s = Some (file_block V fs inode ?i, s1)"
        "vol contents env a fs V H s1"
        using read_file_block_ok [OF v g io r, of k temp] unfolding k by blast
      have "subrange (?i * ?B + ?o) (unat tc) (file_bytes V fs inode n) = subrange ?o (unat tc) (file_block V fs inode ?i)"
        unfolding file_bytes_def by (rule block_slice [OF bl iN]) (use tc mod_less_divisor [OF B, of ?off] in simp_all)
      then show thesis using that [OF _ rd(2)] rd(1) bn bo by (simp add: c1_def)
    qed
    have boundary: "rest \<noteq> 0 \<Longrightarrow> unat fb * ?B = ?off + c1"
    proof -
      assume "rest \<noteq> 0"
      then have c1c: "c1 < c" using rest by (metis unsigned_eq_0_iff zero_less_diff neq0_conv)
      show "unat fb * ?B = ?off + c1"
      proof (cases "bo = 0")
        case True
        then have "?o = 0" using bo0 by simp
        then have "?i * ?B = ?off" by (metis add.right_neutral div_mult_mod_eq)
        then show ?thesis using True k by (simp add: fb_def c1_def)
      next
        case bn: False
        have "unat (k + 1) = ?i + 1" using k iN n32 by (simp add: unat_word_ariths)
        moreover have "c1 = ?B - ?o" using c1c tc bn by (simp add: c1_def)
        moreover have "(?i + 1) * ?B = ?off + (?B - ?o)"
        proof -
          have "?i * ?B + ?o = ?off" "?o < ?B" using B by simp_all
          then show ?thesis unfolding add_mult_distrib by linarith
        qed
        ultimately show ?thesis using bn by (simp only: fb_def if_True simp_thms)
      qed
    qed
    have fit2: "rest \<noteq> 0 \<Longrightarrow> unat fb * ?B + unat rest \<le> n * ?B" using boundary fit rest c1le by simp
    define m where "m = unat (rest div ?W)"
    define l where "l = unat (rest mod ?W)"
    obtain s2 s3 where mid: "read_middle env fs inode m fb (drop (length (subrange ?off c1 (file_bytes V fs inode n))) buf) s1 =
        Some (subrange (unat fb * ?B) (m * ?B) (file_bytes V fs inode n), s2)"
      "vol contents env a fs V H s2"
      "l \<noteq> 0 \<longrightarrow> (\<exists>d. read_file_block env fs inode (fb + of_nat m) temp s2 = Some (d, s3) \<and>
         take l d = subrange ((unat fb + m) * ?B) l (file_bytes V fs inode n))"
      "vol contents env a fs V H s3" "m * ?B + l = unat rest"
      by (rule read_tail_ok [OF first(2) g io r fit2 m_def l_def])
    have whole: "subrange ?off c (file_bytes V fs inode n) = subrange ?off c1 (file_bytes V fs inode n) @
        subrange (unat fb * ?B) (m * ?B) (file_bytes V fs inode n) @ subrange ((unat fb + m) * ?B) l (file_bytes V fs inode n)"
    proof (cases "rest = 0")
      case True
      then have "m = 0" "l = 0" "c1 = c" using mid(5) rest c1le B by simp_all
      then show ?thesis by simp
    next
      case rn: False
      have "subrange (unat fb * ?B) (m * ?B) (file_bytes V fs inode n) @ subrange ((unat fb + m) * ?B) l (file_bytes V fs inode n)
          = subrange (unat fb * ?B) (unat rest) (file_bytes V fs inode n)"
        using subrange_append [of "unat fb * ?B" "m * ?B" "file_bytes V fs inode n" l] mid(5) by (simp add: add_mult_distrib)
      then show ?thesis
        using subrange_append [of ?off c1 "file_bytes V fs inode n" "c - c1"] boundary [OF rn] rest c1le by simp
    qed
    have run: "ext2_read_inode env fs inode buf offset len s =
      (case (if bo \<noteq> 0 then map_option (\<lambda>(d, s). (subrange (unat bo) (unat tc) d, s))
          (read_file_block env fs inode k temp s) else Some ([], s)) of
        None \<Rightarrow> None
      | Some (d1, s) \<Rightarrow>
          (case read_middle env fs inode m fb (drop (length d1) buf) s of
             None \<Rightarrow> None
           | Some (d2, s) \<Rightarrow>
               if l = 0 then Some (d1 @ d2, s)
               else map_option (\<lambda>(d, s). (d1 @ d2 @ take l d, s)) (read_file_block env fs inode (fb + of_nat m) temp s)))"
      using False L0 W0
      unfolding ext2_read_inode_def Let_def L_def [symmetric] k_def [symmetric] bo_def [symmetric]
        tc_def [symmetric] temp_def [symmetric] fb_def [symmetric] rest_def [symmetric] m_def [symmetric] l_def [symmetric]
      by simp
    show ?thesis
    proof (cases "l = 0")
      case True
      then show ?thesis using mid(1,2) whole unfolding run first(1) by simp
    next
      case False
      then show ?thesis using mid(1,3,4) whole unfolding run first(1)
        by (cases s3) auto
    qed
  qed
qed

end
