(* ===== verification/Ext2_Properties.thy ===== *)
theory Ext2_Properties
  imports Ext2_Dir Ext2_Correct
begin

text \<open>
  The properties of the file systems: what a read of a file returns, which device block a doubly
  indirect file block is mapped to, the lookup of names in encoded directory blocks, where the lookup in
  a directory with extents stores, and what the path walk does with symbolic links.
\<close>

section \<open>Inodes\<close>

text \<open>On a volume, loading an inode decodes its 160 bytes from the inode table.\<close>

lemma load_inode_ok:
  assumes v: "vol contents env a fs V H s" and ad: "get_inode_addr fs num = Some (bnum, bo)" and h: "H (ucast bnum)"
    and fit: "unat bo + 160 \<le> unat (E2FS_BLOCK_SIZE (super_blk fs))"
  shows "\<exists>s'. ext2_load_inode env fs num s = Some (Inr (ext2_dinode (subrange (unat bo) 160 (V (ucast bnum)))), s') \<and>
    vol contents env a fs V H s'"
proof -
  obtain i s1 s2 where "ext2_get_block env bnum s = Some (Some i, s1)" "bdata (blk (fst s1) i) = V (ucast bnum)"
    "ext2_put_block env bnum s1 = Some s2" "vol contents env a fs V H s2"
    by (rule vol_get_put [OF v h])
  then show ?thesis using ad fit vol_length [OF v h] by (simp add: ext2_load_inode_def Let_def not_less)
qed

text \<open>The copy of an inode of 128 bytes runs over the end of the block when it is the last one in it.\<close>

lemma load_inode_overreads:
  assumes v: "vol contents env a fs V H s" and ad: "get_inode_addr fs num = Some (bnum, bo)" and h: "H (ucast bnum)"
    and "unat (E2FS_BLOCK_SIZE (super_blk fs)) < unat bo + 160"
  shows "ext2_load_inode env fs num s = None"
proof -
  obtain i s1 s2 where "ext2_get_block env bnum s = Some (Some i, s1)" "bdata (blk (fst s1) i) = V (ucast bnum)"
    by (rule vol_get_put [OF v h])
  then show ?thesis using ad assms(4) vol_length [OF v h] by (simp add: ext2_load_inode_def Let_def)
qed

section \<open>Directory blocks\<close>

record dir_entry =
  de_inode :: u32
  de_name :: bytes
  de_rec_len :: nat

definition enc_entry :: "dir_entry \<Rightarrow> bytes" where
  "enc_entry e = le_bytes 4 (de_inode e) @ le_bytes 2 (of_nat (de_rec_len e) :: u16) @
     [of_nat (length (de_name e)), 0] @ de_name e @ replicate (de_rec_len e - 8 - length (de_name e)) 0"

definition wf_entry :: "dir_entry \<Rightarrow> bool" where
  "wf_entry e \<longleftrightarrow> length (de_name e) < 256 \<and> 8 + length (de_name e) \<le> de_rec_len e \<and> de_rec_len e < 2 ^ 16 \<and>
     4 dvd de_rec_len e"

definition enc_dir :: "dir_entry list \<Rightarrow> bytes" where
  "enc_dir es = concat (map enc_entry es)"

lemma enc_entry_length: "wf_entry e \<Longrightarrow> length (enc_entry e) = de_rec_len e"
  by (auto simp: enc_entry_def wf_entry_def)

lemma enc_entry_fields:
  assumes "wf_entry e"
  shows "u32_at (length xs) (xs @ enc_entry e @ ys) = de_inode e"
    and "unat (u16_at (length xs + 4) (xs @ enc_entry e @ ys)) = de_rec_len e"
    and "unat ((xs @ enc_entry e @ ys) ! (length xs + 6)) = length (de_name e)"
    and "subrange (length xs + 8) (length (de_name e)) (xs @ enc_entry e @ ys) = de_name e"
  using assms
  by (simp_all add: u32_at_def u16_at_def subrange_def enc_entry_def wf_entry_def of_le_exact nth_append unat_of_nat
      take_bit_nat_eq_self_iff)

lemma round4_dvd: "4 dvd n \<Longrightarrow> round4 n = n"
  by (auto simp: round4_def)

lemma dir_scan_from:
  assumes "list_all wf_entry es"
  shows "dir_scan (xs @ enc_dir es) (length (xs @ enc_dir es)) name (length xs) =
    Some (map_option de_inode (find (\<lambda>e. de_name e = name) es))"
  using assms
proof (induction es arbitrary: xs)
  case Nil
  then show ?case by (subst dir_scan.simps) (simp add: enc_dir_def)
next
  case (Cons e es)
  let ?buf = "xs @ enc_entry e @ enc_dir es"
  have wf: "wf_entry e" and wfs: "list_all wf_entry es" using Cons.prems by simp_all
  have buf: "xs @ enc_dir (e # es) = ?buf" by (simp add: enc_dir_def)
  have len: "length ?buf = length xs + de_rec_len e + length (enc_dir es)"
    using enc_entry_length [OF wf] by simp
  note F = enc_entry_fields [OF wf, of xs "enc_dir es"]
  have r: "round4 (de_rec_len e) = de_rec_len e" "8 + length (de_name e) \<le> de_rec_len e"
    using wf by (simp_all add: wf_entry_def round4_dvd)
  have IH: "dir_scan ?buf (length ?buf) name (length xs + de_rec_len e) =
      Some (map_option de_inode (find (\<lambda>e. de_name e = name) es))"
    using Cons.IH [OF wfs, of "xs @ enc_entry e"] enc_entry_length [OF wf] by simp
  have "subrange (length xs + 8) (length (de_name e)) ?buf = name \<longleftrightarrow> de_name e = name" using F(4) by simp
  then show ?case
    unfolding buf
    using F(1-3) r IH len
    by (subst dir_scan.simps) (auto simp: Let_def)
qed

section \<open>Symbolic links\<close>

text \<open>A path whose last component is a symbolic link: the walk uses the pointer after the separator
  that is not there.\<close>

lemma walk_final_link_faults:
  assumes "slash \<notin> set pathp" and "any_dir_lookup env fs dir_inode pathp s = Some (Inr inum, s1)"
    and "ext2_load_inode env fs inum s1 = Some (Inr inode, s2)" and "S_ISLNK (e2di_mode inode)"
    and "ext2_read_link env fs inode (stack_array env 512) s2 = Some (Inr link, s3)"
  shows "ext2_walk_loop env fs pathp dir_inode level s = None"
proof -
  have tw: "takeWhile (\<lambda>ch. ch \<noteq> slash) pathp = pathp" "dropWhile (\<lambda>ch. ch \<noteq> slash) pathp = []"
    using assms(1) by (auto simp: takeWhile_eq_all_conv dropWhile_eq_Nil_conv)
  show ?thesis by (subst ext2_walk_loop.simps) (simp add: Let_def tw assms)
qed

section \<open>A small volume\<close>

text \<open>Two blocks of 1024 bytes in memory behind handle 0, no superblock: enough for one file.\<close>

definition fsdemo_img :: bytes where
  "fsdemo_img = replicate 1024 0 @ [10, 11, 12, 13] @ replicate 1020 7"

definition fsdemo_st :: "bytes bd_state" where
  "fsdemo_st = \<lparr>dev_heap = (\<lambda>_. None)(0 := Some (ram_dev 2 512 fsdemo_img)), bdevs = None, xfer_id = 0, close_log = []\<rparr>"

definition fsdemo_env :: fs_env where
  "fsdemo_env = \<lparr>fe_alloc = ram_alloc, fe_malloc = ram_malloc, fe_mem = (\<lambda>_. replicate 1024 0),
     fe_blocks = [junk_block, junk_block, junk_block, junk_block], fe_links = no_links, fe_dbg = True,
     fe_stack = (\<lambda>_. 0)\<rparr>"

definition fsdemo_fs :: ext2_t where
  "fsdemo_fs = \<lparr>ext2_dev = Some 0, super_blk = ext2_super_block (replicate 1024 0), group_count = 1, grp_desc = [],
     root_inode = ext2_dinode [], ext2_fs_offset = 0\<rparr>"

definition fsdemo_inode :: "u16 \<Rightarrow> bytes \<Rightarrow> ext2fs_dinode" where
  "fsdemo_inode mode ptrs = \<lparr>e2di_mode = mode, e2di_size = 4, e2di_flags = 0, e2di_blocks = ptrs @ replicate (60 - length ptrs) 0,
     e2di_size_high = 0\<rparr>"

lemma fsdemo_live: "handle_live (\<lambda>p. p) ram_alloc 0 fsdemo_st"
  using ram_dev_live [of 2 fsdemo_img 512] by (simp add: handle_live_def fsdemo_st_def fsdemo_img_def)

lemma fsdemo_handle_img: "handle_img (\<lambda>p. p) 0 fsdemo_st = fsdemo_img"
  by (simp add: handle_img_def fsdemo_st_def ram_dev_img)

lemma of_le_zeros: "of_le (replicate n 0) = 0"
  by (induction n) simp_all

lemma fsdemo_super: "E2FS_BLOCK_SIZE (super_blk fsdemo_fs) = 1024" "good_super (super_blk fsdemo_fs)" "bsize fsdemo_fs = 1024"
  "ptrs_per_block fsdemo_fs = 256"
  by (simp_all add: fsdemo_fs_def ext2_super_block_def E2FS_BLOCK_SIZE_def u32_at_def subrange_def of_le_zeros
      good_super_def bsize_def ptrs_per_block_def)

lemma fsdemo_offset: "ext2_fs_offset fsdemo_fs = 0"
  by (simp add: fsdemo_fs_def)

text \<open>The cache a mount creates stands for the blocks of the volume.\<close>

lemma fsdemo_volume:
  obtains c V where "bcache_create ram_malloc (\<lambda>_. replicate 1024 0) [junk_block, junk_block, junk_block, junk_block]
      no_links (Some 0) 1024 4 0 = Some (Some c)"
    "vol (\<lambda>p. p) fsdemo_env 0 fsdemo_fs V (\<lambda>n. unat n < 2) (c, fsdemo_st)"
    "V 1 = [10, 11, 12, 13] @ replicate 1020 7"
proof -
  have b: "buffers_ok ram_malloc (\<lambda>_. replicate 1024 0) 1024" by (simp add: buffers_ok_def ram_malloc_def)
  have n: "0 < (4 :: int)" "nat 4 \<le> length [junk_block, junk_block, junk_block, junk_block]" "(1024 :: u64) \<noteq> 0"
    by simp_all
  obtain c where c: "bcache_create ram_malloc (\<lambda>_. replicate 1024 0) [junk_block, junk_block, junk_block, junk_block]
      no_links (Some 0) 1024 4 0 = Some (Some c)"
    "represents (\<lambda>p. p) ram_alloc 0 c fsdemo_st (fs_block c (handle_img (\<lambda>p. p) 0 fsdemo_st))" "clean c"
    "fs_offset c = 0" "cblock_size c = 1024" "length (blocks c) = nat 4"
    by (rule bcache_create_ok [OF fsdemo_live b n, of no_links 0])
  have "(\<lambda>n. unat n < 2) = fs_has c fsdemo_img"
    using c(4,5) by (auto simp: fs_has_def fs_at_def fsdemo_img_def fun_eq_iff)
  then have "vol (\<lambda>p. p) fsdemo_env 0 fsdemo_fs (fs_block c fsdemo_img) (\<lambda>n. unat n < 2) (c, fsdemo_st)"
    using c fsdemo_super by (simp add: vol_def fsdemo_handle_img fsdemo_env_def)
  moreover have "fs_block c fsdemo_img 1 = [10, 11, 12, 13] @ replicate 1020 7"
    using c(4,5) by (simp add: fs_block_def fs_at_def fsdemo_img_def subrange_def)
  ultimately show thesis using that c(1) by blast
qed

section \<open>Properties\<close>



text \<open>
  C39. Doubly indirect blocks are mapped wrongly. For a file block in the doubly indirect range, whose
  place is entry \<open>j div p\<close> of the first table (\<open>p\<close> entries per table), the code takes entry
  \<open>2 * (j div p)\<close> instead, because it indexes the table as an array of 64-bit numbers; for the second
  half of the range it reads beyond the buffer of the cached block.
\<close>

theorem ext2_double_indirect_wrong_entry:
  assumes "vol contents env a fs V H s" and "good_super (super_blk fs)" and "inode_ok inode"
    and "12 + ptrs_per_block fs \<le> unat k" and "j = unat k - 12 - ptrs_per_block fs"
    and "j < ptrs_per_block fs * ptrs_per_block fs"
    and "tables_on H V (block_ptr inode 13) [2 * (j div ptrs_per_block fs), j mod ptrs_per_block fs]"
  shows "if block_ptr inode 13 \<noteq> 0 \<and> ptrs_per_block fs \<le> 2 * (j div ptrs_per_block fs)
    then file_block_to_fs_block env fs inode k s = None
    else \<exists>s'. file_block_to_fs_block env fs inode k s =
        Some (ucast (follow V (block_ptr inode 13) [2 * (j div ptrs_per_block fs), j mod ptrs_per_block fs]), s') \<and>
      file_map V (ptrs_per_block fs) inode (unat k) =
        follow V (block_ptr inode 13) [j div ptrs_per_block fs, j mod ptrs_per_block fs]"
proof -
  have k2: "unat k < 12 + ptrs_per_block fs + ptrs_per_block fs * ptrs_per_block fs" using assms(4-6) by linarith
  have "file_map V (ptrs_per_block fs) inode (unat k) =
      follow V (block_ptr inode 13) [j div ptrs_per_block fs, j mod ptrs_per_block fs]"
  proof -
    have "\<not> unat k < 12" "\<not> unat k - 12 < ptrs_per_block fs"
      "unat k - 12 - ptrs_per_block fs < ptrs_per_block fs * ptrs_per_block fs"
      using assms(4-6) by linarith+
    then show ?thesis unfolding file_map_def file_path_def assms(5) by (simp only: if_False if_True prod.case)
  qed
  then show ?thesis
    using map_double [OF assms(1-4) k2 assms(7) [unfolded assms(5)]] unfolding assms(5) by auto
qed

theorem ext2_double_indirect_wrong_entry_witness:
  "\<exists>c. bcache_create ram_malloc (\<lambda>_. replicate 1024 0) [junk_block, junk_block, junk_block, junk_block]
      no_links (Some 0) 1024 4 0 = Some (Some c) \<and>
    file_block_to_fs_block fsdemo_env fsdemo_fs (fsdemo_inode 0x8000 (replicate 52 0 @ [1, 0, 0, 0])) 33036 (c, fsdemo_st) = None"
proof (rule fsdemo_volume)
  fix c V
  let ?i = "fsdemo_inode 0x8000 (replicate 52 0 @ [1, 0, 0, 0])"
  assume c: "bcache_create ram_malloc (\<lambda>_. replicate 1024 0) [junk_block, junk_block, junk_block, junk_block]
      no_links (Some 0) 1024 4 0 = Some (Some c)"
    and v: "vol (\<lambda>p. p) fsdemo_env 0 fsdemo_fs V (\<lambda>n. unat n < 2) (c, fsdemo_st)"
    and V: "V 1 = [10, 11, 12, 13] @ replicate 1020 7"
  have io: "inode_ok ?i" by (simp add: inode_ok_def fsdemo_inode_def)
  have bp: "block_ptr ?i 13 = 1" by (simp add: block_ptr_def fsdemo_inode_def u32_at_def subrange_def)
  have z: "table_entry V 1 256 = 0"
    using V by (simp add: table_entry_def u32_at_def subrange_def)
  from ext2_double_indirect_wrong_entry [OF v fsdemo_super(2) io, of 33036 32768]
  show ?thesis using c bp z by (simp add: fsdemo_super)
qed

text \<open>
  C30. Looking up a name in a directory block: in the image of any list of well-formed entries (records
  aligned to four bytes, names of up to 255 bytes), the scan stays inside the block and returns the
  inode of the first entry with that name, or nothing when there is none.
\<close>

theorem dir_scan_finds_first:
  assumes "list_all wf_entry es"
  shows "dir_scan (enc_dir es) (length (enc_dir es)) name 0 =
    Some (map_option de_inode (find (\<lambda>e. de_name e = name) es))"
  using dir_scan_from [OF assms, of "[]"] by simp

theorem dir_scan_finds_first_witness:
  "dir_scan (enc_dir [\<lparr>de_inode = 2, de_name = [46], de_rec_len = 12\<rparr>, \<lparr>de_inode = 7, de_name = [98, 97], de_rec_len = 12\<rparr>])
     (length (enc_dir [\<lparr>de_inode = 2, de_name = [46], de_rec_len = 12\<rparr>, \<lparr>de_inode = 7, de_name = [98, 97], de_rec_len = 12\<rparr>]))
     [98, 97] 0 = Some (Some 7)"
  using dir_scan_finds_first [of "[\<lparr>de_inode = 2, de_name = [46], de_rec_len = 12\<rparr>,
      \<lparr>de_inode = 7, de_name = [98, 97], de_rec_len = 12\<rparr>]" "[98, 97]"]
  by (simp add: wf_entry_def)

text \<open>
  C40. The lookup in an unhashed directory with extents reads the whole directory into a buffer of one
  block: whenever the first extent of the directory reaches beyond one block, the read stores outside
  the buffer, whatever the name looked for.
\<close>

theorem ext4_linear_lookup_overflows:
  assumes live: "handle_live contents (fe_alloc env) a st" and dev: "ext2_dev fs = Some a"
    and dir: "S_ISDIR (e2di_mode inode)" "validate_extents_magic (e2di_blocks inode)"
      "\<not> IS_HASHED_INDEX (e2di_flags inode)" "eh_depth (e2di_blocks inode) = 0" "eh_entries (e2di_blocks inode) \<noteq> 0"
    and ext: "extent_at (e2di_blocks inode) 0 = Some e" "ee_len e \<noteq> 0" "E2FS_BLOCK_SIZE (super_blk fs) \<noteq> 0"
      "1 < unat (ee_block_no e) + unat (ee_len e)"
      "(unat (ee_block_no e) + unat (ee_len e)) * unat (E2FS_BLOCK_SIZE (super_blk fs)) < 2 ^ 32"
    and mem: "fe_malloc env 13 (fs_bs fs) = Some p" "unat p + 2 ^ 32 < 2 ^ 64" "p \<noteq> 0"
    and on: "unat (block_addr fs (extent_start e)) + unat (ee_len e) * unat (E2FS_BLOCK_SIZE (super_blk fs))
      \<le> length (handle_img contents a st)"
  shows "ext4_dir_lookup env fs inode name st = None"
proof -
  let ?B = "E2FS_BLOCK_SIZE (super_blk fs)" and ?h = "e2di_blocks inode"
  let ?dst = "ee_block_no e * ?B" and ?n = "ucast (ee_len e) * ?B :: u32"
  let ?obj = "take (unat (fs_bs fs)) (fe_mem env p)"
  have len: "unat (ucast (ee_len e) :: u32) = unat (ee_len e)" by (rule unat_ucast_up) simp
  have sum: "unat (ee_block_no e) * unat ?B + unat (ee_len e) * unat ?B < 2 ^ 32"
    using ext(5) by (simp add: add_mult_distrib)
  have d: "unat ?dst = unat (ee_block_no e) * unat ?B" and n: "unat ?n = unat (ee_len e) * unat ?B"
    using sum len by (simp_all add: unat_word_ariths)
  have n64: "unat (ucast ?n :: u64) = unat ?n" by (rule unat_ucast_up) simp
  have pos: "0 < unat (ee_len e)" "0 < unat ?B" using ext(2,3) by (simp_all add: unat_gt_0)
  then have "0 < unat ?n" using n by simp
  then have n0: "(ucast ?n :: u64) \<noteq> 0" using n64 by (metis unsigned_0 less_irrefl)
  have bs: "unat (fs_bs fs) = unat ?B" unfolding fs_bs_def by (rule unat_ucast_up) simp
  have "unat (ucast ?dst :: u64) = unat ?dst" by (rule unat_ucast_up) simp
  moreover have "unat ?dst < 2 ^ 32" using unat_u32_bound [of ?dst] by simp
  ultimately have "unat (p + ucast ?dst) = unat p + unat ?dst" using mem(2) by (simp add: unat_word_ariths)
  moreover have "0 < unat p" using mem(3) by (simp add: unat_gt_0)
  ultimately have "unat (p + ucast ?dst) \<noteq> 0" by simp
  then have "p + ucast ?dst \<noteq> 0" by (metis unsigned_0)
  then have p0: "p + of_nat 0 + ucast ?dst \<noteq> 0" by simp
  have fits: "unat (block_addr fs (extent_start e)) + unat (ucast ?n :: u64) \<le> length (handle_img contents a st)"
    using on n n64 by simp
  obtain st' where rd: "tegrabl_blockdev_read (fe_alloc env) (Some a) (p + of_nat 0 + ucast ?dst)
      (block_addr fs (extent_start e)) (ucast ?n) st =
      ((TEGRABL_NO_ERROR, subrange (unat (block_addr fs (extent_start e))) (unat (ucast ?n :: u64)) (handle_img contents a st)), st')"
    using handle_read [OF live p0 n0 fits] by metis
  have "2 * unat ?B \<le> (unat (ee_block_no e) + unat (ee_len e)) * unat ?B" using ext(4) by (intro mult_le_mono1) simp
  then have "length ?obj < unat ?dst + unat ?n"
    using d n bs pos(2) by (simp add: add_mult_distrib)
  moreover have "length (subrange (unat (block_addr fs (extent_start e))) (unat (ucast ?n :: u64)) (handle_img contents a st)) = unat ?n"
    using fits n64 by simp
  ultimately have over: "0 + unat ?dst + length (subrange (unat (block_addr fs (extent_start e))) (unat (ucast ?n :: u64))
      (handle_img contents a st)) > length ?obj" by simp
  obtain m where m: "unat (eh_entries ?h) = Suc m" using dir(5) by (metis not0_implies_Suc unsigned_eq_0_iff)
  have "read_extents env fs ?h p 0 0 (unat (eh_entries ?h)) (0, 0, 0) (?obj, st) = None"
    unfolding m using ext(1) dev rd over by (simp add: Let_def)
  then have "ext4_read_data_from_extent env fs inode p 0 (?obj, st) = None"
    using dir(2,4) by (simp add: ext4_read_data_from_extent_def ext4_read_extent_def Let_def)
  then have "linear_scan env fs inode name p (Suc k) (?obj, st) = None" for k by simp
  then have "lookup_linear_dir env fs inode name p ?obj st = None"
    unfolding lookup_linear_dir_def by (metis numeral_eq_Suc)
  then show ?thesis using dir(1-3) mem(1) by (simp add: ext4_dir_lookup_def Let_def)
qed

theorem ext4_linear_lookup_overflows_witness:
  "ext4_dir_lookup fsdemo_env fsdemo_fs
     (fsdemo_inode 0x4000 [0x0A, 0xF3, 1, 0, 4, 0, 0, 0, 0, 0, 0, 0, 0, 0, 0, 0, 2, 0, 0, 0, 0, 0, 0, 0]) [97] fsdemo_st = None"
proof -
  let ?i = "fsdemo_inode 0x4000 [0x0A, 0xF3, 1, 0, 4, 0, 0, 0, 0, 0, 0, 0, 0, 0, 0, 0, 2, 0, 0, 0, 0, 0, 0, 0]"
  let ?e = "\<lparr>ee_block_no = 0, ee_len = 2, ee_start_hi = 0, ee_start_lo = 0\<rparr>"
  have l: "handle_live (\<lambda>p. p) (fe_alloc fsdemo_env) 0 fsdemo_st" using fsdemo_live by (simp add: fsdemo_env_def)
  have dev: "ext2_dev fsdemo_fs = Some 0" by (simp add: fsdemo_fs_def)
  have i: "S_ISDIR (e2di_mode ?i)" "validate_extents_magic (e2di_blocks ?i)"
      "\<not> IS_HASHED_INDEX (e2di_flags ?i)" "eh_depth (e2di_blocks ?i) = 0" "eh_entries (e2di_blocks ?i) \<noteq> 0"
    by (simp_all add: S_ISDIR_def fsdemo_inode_def validate_extents_magic_def eh_magic_def IS_HASHED_INDEX_def
        eh_depth_def eh_entries_def u16_at_def subrange_def)
  have e: "extent_at (e2di_blocks ?i) 0 = Some ?e"
    by (simp add: extent_at_def fsdemo_inode_def u16_at_def u32_at_def subrange_def)
  have m: "fe_malloc fsdemo_env 13 (fs_bs fsdemo_fs) = Some 0x90000000" by (simp add: fsdemo_env_def ram_malloc_def)
  show ?thesis
    by (rule ext4_linear_lookup_overflows [OF l dev i e _ _ _ _ m])
      (simp_all add: fsdemo_super fsdemo_handle_img fsdemo_img_def block_addr_def extent_start_def fs_bs_def fsdemo_offset)
qed

end
