(* ===== verification/Ext2_Mount.thy ===== *)
theory Ext2_Mount
  imports Ext2_Properties
begin

text \<open>
  Mounting: on a live device with a well-formed volume both mount functions return a mounted volume, so
  that everything shown of \<open>vol\<close> applies from there on.
\<close>

definition vol_view :: "u64 \<Rightarrow> ext2fs_super_block \<Rightarrow> bytes \<Rightarrow> u32 \<Rightarrow> bytes" where
  "vol_view off sb img n =
     subrange (unat off + unat n * unat (E2FS_BLOCK_SIZE sb)) (unat (E2FS_BLOCK_SIZE sb)) img"

definition vol_has :: "u64 \<Rightarrow> ext2fs_super_block \<Rightarrow> bytes \<Rightarrow> u32 \<Rightarrow> bool" where
  "vol_has off sb img n \<longleftrightarrow>
     unat off + unat n * unat (E2FS_BLOCK_SIZE sb) + unat (E2FS_BLOCK_SIZE sb) \<le> length img"

definition group_table_size :: "(u32 \<Rightarrow> u32 \<Rightarrow> u64) \<Rightarrow> ext2fs_super_block \<Rightarrow> u64" where
  "group_table_size gdbytes sb =
     gdbytes (if e3fs_desc_size sb > 32 then 64 else 32) ((e2fs_bcount sb + e2fs_bpg sb - 1) div e2fs_bpg sb)"

definition group_table_at :: "ext2fs_super_block \<Rightarrow> u64" where
  "group_table_at sb = (if E2FS_BLOCK_SIZE sb = 4096 then 4096 else 2048)"

text \<open>The volume in the device image, as the mount functions describe it.\<close>

definition mounted :: "(u32 \<Rightarrow> u32 \<Rightarrow> u64) \<Rightarrow> nat \<Rightarrow> u64 \<Rightarrow> ext2fs_super_block \<Rightarrow> bytes \<Rightarrow> ext2_t" where
  "mounted gdbytes a off sb img =
     \<lparr>ext2_dev = Some a, super_blk = sb, group_count = (e2fs_bcount sb + e2fs_bpg sb - 1) div e2fs_bpg sb,
      grp_desc = subrange (unat (off + group_table_at sb)) (unat (group_table_size gdbytes sb)) img,
      root_inode = ext2_dinode [], ext2_fs_offset = 0\<rparr>"

definition good_volume :: "u32 \<Rightarrow> (u32 \<Rightarrow> u32 \<Rightarrow> u64) \<Rightarrow> nat \<Rightarrow> u64 \<Rightarrow> ext2fs_super_block \<Rightarrow> bytes \<Rightarrow> bool" where
  "good_volume feats gdbytes a off sb img \<longleftrightarrow>
     e2fs_magic sb = 0xEF53 \<and> e2fs_bpg sb \<noteq> 0 \<and> e2fs_rev sb \<le> 1 \<and> e2fs_features_rocompat sb AND NOT feats = 0 \<and>
     good_super sb \<and> group_table_size gdbytes sb \<noteq> 0 \<and>
     unat (off + group_table_at sb) + unat (group_table_size gdbytes sb) \<le> length img \<and>
     (case get_inode_addr (mounted gdbytes a off sb img) 2 of
        None \<Rightarrow> False
      | Some (bnum, bo) \<Rightarrow> vol_has off sb img (ucast bnum) \<and> unat bo + 160 \<le> unat (E2FS_BLOCK_SIZE sb))"

definition env_ok :: "fs_env \<Rightarrow> ext2fs_super_block \<Rightarrow> bool" where
  "env_ok env sb \<longleftrightarrow>
     (\<forall>k n. \<exists>p. fe_malloc env k n = Some p \<and> p \<noteq> 0 \<and> unat p + unat (E2FS_BLOCK_SIZE sb) < 2 ^ 64 \<and>
        length (fe_mem env p) = unat (E2FS_BLOCK_SIZE sb)) \<and> 4 \<le> length (fe_blocks env)"

lemma env_buffers: "env_ok env sb \<Longrightarrow> buffers_ok (\<lambda>k. fe_malloc env (k + 3)) (fe_mem env) (ucast (E2FS_BLOCK_SIZE sb))"
proof -
  assume "env_ok env sb"
  moreover have "unat (ucast (E2FS_BLOCK_SIZE sb) :: u64) = unat (E2FS_BLOCK_SIZE sb)" by (rule unat_u64_of_u32)
  ultimately show ?thesis by (auto simp: env_ok_def buffers_ok_def)
qed

definition root_of :: "(u32 \<Rightarrow> u32 \<Rightarrow> u64) \<Rightarrow> nat \<Rightarrow> u64 \<Rightarrow> ext2fs_super_block \<Rightarrow> bytes \<Rightarrow> ext2fs_dinode" where
  "root_of gdbytes a off sb img =
     (case the (get_inode_addr (mounted gdbytes a off sb img) 2) of (bnum, bo) \<Rightarrow>
        ext2_dinode (subrange (unat bo) 160 (vol_view off sb img (ucast bnum))))"

lemma mount_volume_ok:
  assumes live: "handle_live contents (fe_alloc env) a st" and e: "env_ok env sb"
    and g: "good_volume feats gdbytes a off sb (handle_img contents a st)"
  obtains cache st' where "mount_volume env feats gdbytes a off sb st =
      Some (Inr ((mounted gdbytes a off sb (handle_img contents a st))
        \<lparr>root_inode := root_of gdbytes a off sb (handle_img contents a st), ext2_fs_offset := off\<rparr>, cache), st')"
    "\<And>fs. super_blk fs = sb \<Longrightarrow> vol contents env a fs (vol_view off sb (handle_img contents a st))
      (vol_has off sb (handle_img contents a st)) (cache, st')"
proof -
  let ?img = "handle_img contents a st" and ?B = "E2FS_BLOCK_SIZE sb"
  let ?fs = "mounted gdbytes a off sb ?img"
  let ?tot = "group_table_size gdbytes sb" and ?at = "off + group_table_at sb"
  have good: "good_super sb" "?tot \<noteq> 0" "unat ?at + unat ?tot \<le> length ?img" using g by (simp_all add: good_volume_def)
  have fsb: "super_blk ?fs = sb" by (simp add: mounted_def)
  have "unat ?B = bsize ?fs" using unat_block_size [of ?fs] good(1) fsb by simp
  then have B0: "?B \<noteq> 0" using bsize_ptrs(3) [of ?fs] by (metis unsigned_0 less_irrefl)
  obtain q where q: "fe_malloc env 2 ?tot = Some q" "q \<noteq> 0" using e unfolding env_ok_def by blast
  obtain st1 where rd: "tegrabl_blockdev_read (fe_alloc env) (Some a) q ?at ?tot st =
      ((TEGRABL_NO_ERROR, grp_desc ?fs), st1)" "handle_live contents (fe_alloc env) a st1"
    "handle_img contents a st1 = ?img"
    using handle_read [OF live q(2) good(2,3)] by (auto simp: mounted_def)
  have sz: "unat (ucast ?B :: u64) = unat ?B" by (rule unat_u64_of_u32)
  have bz: "(ucast ?B :: u64) \<noteq> 0" using B0 sz by (metis unsigned_0 unsigned_eq_0_iff)
  have n4: "0 < (4 :: int)" "nat 4 \<le> length (fe_blocks env)" using e by (simp_all add: env_ok_def)
  obtain c where c: "bcache_create (\<lambda>k. fe_malloc env (k + 3)) (fe_mem env) (fe_blocks env) (fe_links env)
      (Some a) (ucast ?B) 4 off = Some (Some c)"
    "represents contents (fe_alloc env) a c st1 (fs_block c (handle_img contents a st1))" "clean c"
    "fs_offset c = off" "cblock_size c = ucast ?B" "length (blocks c) = nat 4"
    by (rule bcache_create_ok [OF rd(2) env_buffers [OF e] n4 bz, of "fe_links env" off])
  have V: "fs_block c ?img = vol_view off sb ?img" "vol_has off sb ?img = fs_has c ?img"
    using c(4,5) sz by (auto simp: fs_block_def fs_at_def fs_has_def vol_view_def vol_has_def fun_eq_iff)
  have v: "vol contents env a fs (vol_view off sb ?img) (vol_has off sb ?img) (c, st1)" if "super_blk fs = sb" for fs
    using c rd(3) V that by (simp add: vol_def)
  obtain bnum bo where ad: "get_inode_addr ?fs 2 = Some (bnum, bo)" "vol_has off sb ?img (ucast bnum)"
    "unat bo + 160 \<le> unat ?B"
    using g by (auto simp: good_volume_def split: option.splits)
  obtain s' where s': "ext2_load_inode env ?fs 2 (c, st1) = Some (Inr (root_of gdbytes a off sb ?img), s')"
    "vol contents env a ?fs (vol_view off sb ?img) (vol_has off sb ?img) s'"
    using load_inode_ok [OF v [OF fsb] ad(1,2)] ad fsb by (auto simp: root_of_def)
  obtain c' st' where s: "s' = (c', st')" by (cases s')
  have run: "mount_volume env feats gdbytes a off sb st =
      Some (Inr (?fs\<lparr>root_inode := root_of gdbytes a off sb ?img, ext2_fs_offset := off\<rparr>, c'), st')"
  proof -
    have "\<not> 1 < e2fs_rev sb" "e2fs_magic sb = 0xEF53" "e2fs_bpg sb \<noteq> 0" "e2fs_features_rocompat sb AND NOT feats = 0"
      using g by (auto simp: good_volume_def not_less)
    then show ?thesis
      using q(1) rd(1) c(1) s'(1) s
      by (simp add: mount_volume_def Let_def group_table_size_def [symmetric] group_table_at_def [symmetric])
        (simp add: mounted_def)
  qed
  have v': "vol contents env a fs (vol_view off sb ?img) (vol_has off sb ?img) (c', st')" if "super_blk fs = sb" for fs
    using s'(2) s fsb that by (simp add: vol_def)
  show thesis using that run v' by blast
qed

lemma read_super_ok:
  assumes live: "handle_live contents (fe_alloc env) a st" and d: "dev_heap st a = Some d" and p: "p \<noteq> 0"
    and off: "off = start_sector * TEGRABL_BLOCKDEV_BLOCK_SIZE d" "unat off + 2048 \<le> length (handle_img contents a st)"
  obtains st' where "read_super env p a start_sector st =
      Some (Inr (off, ext2_super_block (subrange (unat off + 1024) 1024 (handle_img contents a st))), st')"
    "handle_live contents (fe_alloc env) a st'" "handle_img contents a st' = handle_img contents a st"
proof -
  have "unat off + 2048 < 2 ^ 64" using off(2) handle_img_bound [OF live] by linarith
  then have at: "unat (off + 1024) = unat off + 1024" by (simp add: unat_word_ariths)
  have "(1024 :: u64) \<noteq> 0" "unat (off + 1024) + unat (1024 :: u64) \<le> length (handle_img contents a st)"
    using off(2) at by simp_all
  from handle_read [OF live p this] obtain st' where "tegrabl_blockdev_read (fe_alloc env) (Some a) p (off + 1024) 1024 st =
      ((TEGRABL_NO_ERROR, subrange (unat off + 1024) 1024 (handle_img contents a st)), st')"
    "handle_live contents (fe_alloc env) a st'" "handle_img contents a st' = handle_img contents a st"
    using at by auto
  then show thesis using that d off(1) by (simp add: read_super_def Let_def)
qed

text \<open>The volume \<open>ext2_mount\<close> returns.\<close>

definition ext2_volume :: "nat \<Rightarrow> u64 \<Rightarrow> ext2fs_super_block \<Rightarrow> bytes \<Rightarrow> ext2_t" where
  "ext2_volume a off sb img =
     (mounted (\<lambda>g n. ucast (g * n)) a off sb img)
       \<lparr>root_inode := root_of (\<lambda>g n. ucast (g * n)) a off sb img, ext2_fs_offset := off\<rparr>"

lemma ext2_volume_simps [simp]:
  "super_blk (ext2_volume a off sb img) = sb" "ext2_fs_offset (ext2_volume a off sb img) = off"
  "root_inode (ext2_volume a off sb img) = root_of (\<lambda>g n. ucast (g * n)) a off sb img"
  by (simp_all add: ext2_volume_def mounted_def)

lemma ext2_mount_ok:
  assumes "handle_live contents (fe_alloc env) a st" and "dev_heap st a = Some d"
    and "off = start_sector * TEGRABL_BLOCKDEV_BLOCK_SIZE d" and "img = handle_img contents a st"
    and "unat off + 2048 \<le> length img" and "sb = ext2_super_block (subrange (unat off + 1024) 1024 img)"
    and "env_ok env sb" and "good_volume EXT2_ROCOMPAT (\<lambda>g n. ucast (g * n)) a off sb img"
  shows "\<exists>cache st'. ext2_mount env (Some a) start_sector st = Some (Inr (ext2_volume a off sb img, cache), st') \<and>
    vol contents env a (ext2_volume a off sb img) (vol_view off sb img) (vol_has off sb img) (cache, st')"
proof -
  obtain p where p: "fe_malloc env 0 1224 = Some p" "p \<noteq> 0" "unat p + unat (E2FS_BLOCK_SIZE sb) < 2 ^ 64"
    using assms(7) unfolding env_ok_def by blast
  have g: "good_super sb" using assms(8) by (simp add: good_volume_def)
  let ?fs = "ext2_volume a off sb img"
  have "1024 \<le> bsize ?fs" by (simp add: bsize_def)
  then have "1024 \<le> unat (E2FS_BLOCK_SIZE sb)" using unat_block_size [of ?fs] g by simp
  then have "unat (p + 16) = unat p + 16" using p(3) by (simp add: unat_word_ariths)
  then have p16: "p + 16 \<noteq> 0" by (metis add_is_0 unsigned_0 zero_neq_numeral)
  have len: "unat off + 2048 \<le> length (handle_img contents a st)" using assms(4,5) by simp
  obtain st1 where s1: "read_super env (p + 16) a start_sector st = Some (Inr (off, sb), st1)"
    "handle_live contents (fe_alloc env) a st1" "handle_img contents a st1 = img"
    using read_super_ok [OF assms(1,2) p16 assms(3) len] assms(4,6) by metis
  have gv: "good_volume EXT2_ROCOMPAT (\<lambda>g n. ucast (g * n)) a off sb (handle_img contents a st1)"
    using assms(8) s1(3) by simp
  show ?thesis
  proof (rule mount_volume_ok [OF s1(2) assms(7) gv])
    fix cache st'
    assume m: "mount_volume env EXT2_ROCOMPAT (\<lambda>g n. ucast (g * n)) a off sb st1 =
        Some (Inr ((mounted (\<lambda>g n. ucast (g * n)) a off sb (handle_img contents a st1))
          \<lparr>root_inode := root_of (\<lambda>g n. ucast (g * n)) a off sb (handle_img contents a st1), ext2_fs_offset := off\<rparr>, cache), st')"
      and v: "\<And>fs. super_blk fs = sb \<Longrightarrow> vol contents env a fs (vol_view off sb (handle_img contents a st1))
        (vol_has off sb (handle_img contents a st1)) (cache, st')"
    have "ext2_mount env (Some a) start_sector st = Some (Inr (?fs, cache), st')"
      using p(1) s1(1) m s1(3) by (simp add: ext2_mount_def ext2_volume_def)
    moreover have "vol contents env a ?fs (vol_view off sb img) (vol_has off sb img) (cache, st')"
      using v [of ?fs] s1(3) by simp
    ultimately show ?thesis by blast
  qed
qed

section \<open>Properties\<close>


text \<open>A volume of four blocks: superblock in block 1, descriptors in block 2, inodes in block 3.\<close>

definition tiny_super :: bytes where
  "tiny_super = [0, 0, 0, 0, 4, 0, 0, 0] @ replicate 24 0 @ [4, 0, 0, 0, 0, 0, 0, 0, 8, 0, 0, 0] @ replicate 12 0 @
     [0x53, 0xEF] @ replicate 966 0"

definition tiny_img :: bytes where
  "tiny_img = replicate 1024 0 @ tiny_super @ ([0, 0, 0, 0, 0, 0, 0, 0, 3, 0, 0, 0] @ replicate 1012 0) @ replicate 1024 0"

definition tiny_st :: "bytes bd_state" where
  "tiny_st = \<lparr>dev_heap = (\<lambda>_. None)(0 := Some (ram_dev 2 1024 tiny_img)), bdevs = None, xfer_id = 0, close_log = []\<rparr>"

lemma tiny_length: "length tiny_img = 4096"
  by (simp add: tiny_img_def tiny_super_def)

lemma tiny_live: "handle_live (\<lambda>p. p) ram_alloc 0 tiny_st"
  using ram_dev_live [of 2 tiny_img 1024] by (simp add: handle_live_def tiny_st_def tiny_length)

lemma tiny_handle: "handle_img (\<lambda>p. p) 0 tiny_st = tiny_img"
  by (simp add: handle_img_def tiny_st_def ram_dev_img)

lemma tiny_sb: "ext2_super_block (subrange 1024 1024 tiny_img) =
  \<lparr>e2fs_bcount = 4, e2fs_log_bsize = 0, e2fs_bpg = 4, e2fs_ipg = 8, e2fs_magic = 0xEF53, e2fs_rev = 0,
   e2fs_inode_size = 0, e2fs_features_rocompat = 0, e3fs_desc_size = 0\<rparr>"
proof -
  have "subrange 1024 1024 tiny_img = tiny_super"
    by (simp add: tiny_img_def subrange_def tiny_super_def)
  then show ?thesis
    by (simp add: ext2_super_block_def u32_at_def u16_at_def tiny_super_def subrange_def of_le_zeros)
qed

lemma tiny_good: "good_volume EXT2_ROCOMPAT (\<lambda>g n. ucast (g * n)) 0 0
  (ext2_super_block (subrange 1024 1024 tiny_img)) tiny_img"
proof -
  let ?sb = "ext2_super_block (subrange 1024 1024 tiny_img)"
  have tot: "group_table_size (\<lambda>g n. ucast (g * n)) ?sb = 32" by (simp add: group_table_size_def tiny_sb)
  have bs: "E2FS_BLOCK_SIZE ?sb = 1024" by (simp add: tiny_sb E2FS_BLOCK_SIZE_def)
  then have at: "group_table_at ?sb = 2048" by (simp add: group_table_at_def)
  have f: "e2fs_ipg ?sb = 8" "e2fs_rev ?sb = 0" "e3fs_desc_size ?sb = 0" by (simp_all add: tiny_sb)
  have "u32_at 8 (subrange 2048 32 tiny_img) = 3"
    by (simp add: tiny_img_def tiny_super_def subrange_def u32_at_def)
  then have "get_inode_addr (mounted (\<lambda>g n. ucast (g * n)) 0 0 ?sb tiny_img) 2 = Some (3, 128)"
    using tiny_length by (simp add: get_inode_addr_def mounted_def Let_def tot at bs E2FS_INODE_SIZE_def f)
  then show ?thesis
    using bs tot at by (simp add: good_volume_def tiny_length vol_has_def) (simp add: tiny_sb good_super_def)
qed


end
