(* ===== verification/Fs_Path.thy ===== *)
theory Fs_Path
  imports Prelude
begin

text \<open>
  Path names of the file system layer (\<open>lib/fs/fs.c\<close>): \<open>trim_name\<close> and the in-place state machine
  \<open>fs_normalize_path\<close>, with the meaning of a normalised path as a list of fields.

  The path is a character array that ends with a NUL; the machine reads at \<open>pos\<close> and writes at
  \<open>outpos\<close> in the same array. \<open>None\<close> is a read or write outside the array.
\<close>

section \<open>The state machine\<close>

abbreviation (input) path_sep :: u8 where "path_sep \<equiv> 47"
abbreviation (input) path_dot :: u8 where "path_dot \<equiv> 46"
abbreviation (input) path_space :: u8 where "path_space \<equiv> 32"

definition trim_name :: "bytes \<Rightarrow> bytes" where
  "trim_name name = dropWhile (\<lambda>c. c = path_sep) (dropWhile (\<lambda>c. c = path_space) name)"

datatype np_state = INITIAL | FIELD_START | IN_FIELD | SEP | SEEN_SEP | DOT | SEEN_DOT | DOTDOT | SEEN_DOTDOT

text \<open>Walking backwards over the field before \<open>outpos\<close>.\<close>

fun back_field :: "bytes \<Rightarrow> nat \<Rightarrow> nat" where
  "back_field path 0 = 0"
| "back_field path (Suc n) = (if path ! n = path_sep then Suc n else back_field path n)"

fun np_rank :: "np_state \<Rightarrow> nat" where
  "np_rank INITIAL = 5"
| "np_rank SEEN_SEP = 4"
| "np_rank FIELD_START = 3"
| "np_rank SEEN_DOT = 3"
| "np_rank SEEN_DOTDOT = 3"
| "np_rank IN_FIELD = 2"
| "np_rank SEP = 0"
| "np_rank DOT = 0"
| "np_rank DOTDOT = 0"

text \<open>The loop; its result is the array and the final \<open>outpos\<close>. The guard of each store is that the
  stored positions are inside the array.\<close>

function np_loop :: "np_state \<Rightarrow> bytes \<Rightarrow> nat \<Rightarrow> nat \<Rightarrow> (bytes \<times> nat) option" where
  "np_loop state path pos outpos =
     (if pos \<ge> length path then None
      else
        let c = path ! pos
        in case state of
             INITIAL \<Rightarrow>
               if c = path_sep then np_loop SEP path pos outpos
               else if c = path_dot then np_loop DOT path pos outpos
               else np_loop FIELD_START path pos outpos
           | FIELD_START \<Rightarrow>
               if c = path_dot then np_loop DOT path pos outpos
               else if c = 0 then Some (path, outpos)
               else np_loop IN_FIELD path pos outpos
           | IN_FIELD \<Rightarrow>
               if c = path_sep then np_loop SEP path pos outpos
               else if c = 0 then Some (path, outpos)
               else if outpos \<ge> length path then None
               else np_loop IN_FIELD (path[outpos := c]) (pos + 1) (outpos + 1)
           | SEP \<Rightarrow>
               if outpos \<ge> length path then None
               else np_loop SEEN_SEP (path[outpos := path_sep]) (pos + 1) (outpos + 1)
           | SEEN_SEP \<Rightarrow>
               if c = path_sep then np_loop SEEN_SEP path (pos + 1) outpos
               else if c = 0 then Some (path, outpos)
               else np_loop FIELD_START path pos outpos
           | DOT \<Rightarrow> np_loop SEEN_DOT path (pos + 1) outpos
           | SEEN_DOT \<Rightarrow>
               if c = path_dot then np_loop DOTDOT path pos outpos
               else if c = path_sep then np_loop SEEN_SEP path (pos + 1) outpos
               else if c = 0 then Some (path, outpos)
               else if outpos \<ge> length path then None
               else np_loop IN_FIELD (path[outpos := path_dot]) pos (outpos + 1)
           | DOTDOT \<Rightarrow> np_loop SEEN_DOTDOT path (pos + 1) outpos
           | SEEN_DOTDOT \<Rightarrow>
               if c = path_sep \<or> c = 0 then
                 let outpos = (if outpos > 0 then back_field path (outpos - 1) else outpos)
                 in if c = 0 then Some (path, outpos) else np_loop SEEN_SEP path (pos + 1) outpos
               else if outpos + 1 \<ge> length path then None
               else np_loop IN_FIELD (path[outpos := path_dot, outpos + 1 := path_dot]) pos (outpos + 2))"
  by pat_completeness auto
termination
  by (relation "measure (\<lambda>(st, path, pos, outpos). (length path - pos) * 8 + np_rank st)") auto

declare np_loop.simps [simp del]

definition fs_normalize_path :: "bytes \<Rightarrow> bytes option" where
  "fs_normalize_path path =
     (case np_loop INITIAL path 0 0 of
        None \<Rightarrow> None
      | Some (path, outpos) \<Rightarrow>
          let outpos = (if outpos > 0 \<and> path ! (outpos - 1) = path_sep then outpos - 1 else outpos)
          in if outpos \<ge> length path then None else Some (path[outpos := 0]))"

section \<open>The machine without the array\<close>

text \<open>The text emitted so far and the text still to be read.\<close>

definition drop_field :: "bytes \<Rightarrow> bytes" where
  "drop_field out = rev (dropWhile (\<lambda>c. c \<noteq> path_sep) (rev (butlast out)))"

function pure_np :: "np_state \<Rightarrow> bytes \<Rightarrow> bytes \<Rightarrow> bytes" where
  "pure_np state out r =
     (case state of
        INITIAL \<Rightarrow>
          if r \<noteq> [] \<and> hd r = path_sep then pure_np SEP out r
          else if r \<noteq> [] \<and> hd r = path_dot then pure_np DOT out r
          else pure_np FIELD_START out r
      | FIELD_START \<Rightarrow>
          if r = [] then out
          else if hd r = path_dot then pure_np DOT out r
          else pure_np IN_FIELD out r
      | IN_FIELD \<Rightarrow>
          if r = [] then out
          else if hd r = path_sep then pure_np SEP out r
          else pure_np IN_FIELD (out @ [hd r]) (tl r)
      | SEP \<Rightarrow> if r = [] then out else pure_np SEEN_SEP (out @ [path_sep]) (tl r)
      | SEEN_SEP \<Rightarrow>
          if r = [] then out
          else if hd r = path_sep then pure_np SEEN_SEP out (tl r)
          else pure_np FIELD_START out r
      | DOT \<Rightarrow> if r = [] then out else pure_np SEEN_DOT out (tl r)
      | SEEN_DOT \<Rightarrow>
          if r = [] then out
          else if hd r = path_dot then pure_np DOTDOT out r
          else if hd r = path_sep then pure_np SEEN_SEP out (tl r)
          else pure_np IN_FIELD (out @ [path_dot]) r
      | DOTDOT \<Rightarrow> if r = [] then out else pure_np SEEN_DOTDOT out (tl r)
      | SEEN_DOTDOT \<Rightarrow>
          if r = [] then drop_field out
          else if hd r = path_sep then pure_np SEEN_SEP (drop_field out) (tl r)
          else pure_np IN_FIELD (out @ [path_dot, path_dot]) r)"
  by pat_completeness auto
termination
  by (relation "measure (\<lambda>(st, out, r). length r * 8 + np_rank st)") (auto simp: neq_Nil_conv)

declare pure_np.simps [simp del]

text \<open>How far the output stays behind the input, and what the state says about the next character.\<close>

fun np_lag :: "np_state \<Rightarrow> nat" where
  "np_lag SEEN_DOT = 1"
| "np_lag DOTDOT = 1"
| "np_lag SEEN_DOTDOT = 2"
| "np_lag _ = 0"

definition np_view :: "np_state \<Rightarrow> bytes \<Rightarrow> nat \<Rightarrow> nat \<Rightarrow> bytes \<Rightarrow> bytes \<Rightarrow> bool" where
  "np_view state path pos outpos out r \<longleftrightarrow>
     outpos + np_lag state \<le> pos \<and> pos + length r < length path \<and> take outpos path = out \<and>
     take (length r) (drop pos path) = r \<and> path ! (pos + length r) = 0 \<and> 0 \<notin> set r \<and>
     (state \<in> {SEP, DOT, DOTDOT} \<longrightarrow> r \<noteq> [])"

lemma back_field_le: "back_field path n \<le> n"
  by (induction n) auto

lemma take_back_field:
  "n \<le> length path \<Longrightarrow> take (back_field path n) path = rev (dropWhile (\<lambda>c. c \<noteq> path_sep) (rev (take n path)))"
  by (induction n) (auto simp: take_Suc_conv_app_nth)

lemma np_view_hd:
  assumes "np_view state path pos outpos out r"
  shows "path ! pos = (if r = [] then 0 else hd r)" "pos < length path" "r \<noteq> [] \<Longrightarrow> hd r \<noteq> 0"
proof -
  show "pos < length path" using assms by (simp add: np_view_def)
  show "path ! pos = (if r = [] then 0 else hd r)"
  proof (cases r)
    case (Cons c r')
    then have "take (length r) (drop pos path) ! 0 = c" using assms by (simp add: np_view_def)
    then show ?thesis using Cons assms by (simp add: np_view_def)
  qed (use assms in \<open>simp add: np_view_def\<close>)
  show "r \<noteq> [] \<Longrightarrow> hd r \<noteq> 0" using assms by (auto simp: np_view_def) (metis hd_in_set)
qed

lemma np_view_state:
  "np_view state path pos outpos out r \<Longrightarrow> np_lag state' \<le> np_lag state \<Longrightarrow>
   (state' \<in> {SEP, DOT, DOTDOT} \<Longrightarrow> r \<noteq> []) \<Longrightarrow> np_view state' path pos outpos out r"
  by (auto simp: np_view_def)

lemma np_view_consume:
  assumes v: "np_view state path pos outpos out r" and r: "r \<noteq> []"
    and l: "np_lag state' \<le> np_lag state + 1" and s: "state' \<notin> {SEP, DOT, DOTDOT}"
  shows "np_view state' path (pos + 1) outpos out (tl r)"
proof -
  obtain c r' where c: "r = c # r'" using r by (cases r) auto
  have t: "take (length r) (drop pos path) = c # r'" using v c by (simp add: np_view_def)
  have "drop 1 (take (length r) (drop pos path)) = r'" using t by simp
  then have "take (length r') (drop (pos + 1) path) = r'" by (simp add: drop_take c)
  then show ?thesis using v l s c by (auto simp: np_view_def)
qed

lemma np_view_emit:
  assumes v: "np_view state path pos outpos out r" and l: "np_lag state' + 1 \<le> np_lag state"
    and s: "state' \<notin> {SEP, DOT, DOTDOT}"
  shows "np_view state' (path[outpos := ch]) pos (outpos + 1) (out @ [ch]) r"
proof -
  have o: "outpos < pos" "outpos < length path" using v l by (auto simp: np_view_def)
  have "take (outpos + 1) (path[outpos := ch]) = out @ [ch]"
    using v o(2) by (simp add: np_view_def take_Suc_conv_app_nth)
  then show ?thesis using v l s o by (auto simp: np_view_def drop_update_cancel)
qed


lemma np_view_back:
  assumes "np_view SEEN_DOTDOT path pos outpos out r"
  shows "np_view SEEN_SEP path pos (if outpos > 0 then back_field path (outpos - 1) else outpos) (drop_field out) r"
proof (cases "outpos = 0")
  case True
  then show ?thesis using assms by (auto simp: np_view_def drop_field_def)
next
  case False
  have "outpos - 1 \<le> length path" using assms unfolding np_view_def by linarith
  moreover have "butlast out = take (outpos - 1) path"
    using assms by (auto simp: np_view_def butlast_take)
  ultimately have "take (back_field path (outpos - 1)) path = drop_field out"
    by (simp add: drop_field_def take_back_field)
  then show ?thesis
    using assms False back_field_le [of path "outpos - 1"] by (auto simp: np_view_def)
qed

definition np_done :: "np_state \<Rightarrow> bytes \<Rightarrow> nat \<Rightarrow> nat \<Rightarrow> bytes \<Rightarrow> bytes \<Rightarrow> bool" where
  "np_done state path pos outpos out r \<longleftrightarrow>
     (\<exists>path' n. np_loop state path pos outpos = Some (path', n) \<and> take n path' = pure_np state out r \<and>
        n < length path' \<and> length path' = length path)"

lemma np_done_stop:
  "np_view state path pos outpos out r \<Longrightarrow> np_loop state path pos outpos = Some (path, outpos) \<Longrightarrow>
   pure_np state out r = out \<Longrightarrow> np_done state path pos outpos out r"
  by (auto simp: np_done_def np_view_def)

lemma np_done_step:
  "np_done state' path' pos' outpos' out' r' \<Longrightarrow> np_loop state path pos outpos = np_loop state' path' pos' outpos' \<Longrightarrow>
   pure_np state out r = pure_np state' out' r' \<Longrightarrow> length path' = length path \<Longrightarrow> np_done state path pos outpos out r"
  by (auto simp: np_done_def)

lemma np_copy:
  assumes v: "np_view state path pos outpos out r" and r: "r \<noteq> []" and s: "state' \<notin> {SEP, DOT, DOTDOT}" "np_lag state' = 0"
  shows "outpos < length path" "np_view state' (path[outpos := ch]) (pos + 1) (outpos + 1) (out @ [ch]) (tl r)"
proof -
  have "np_view SEEN_DOT path (pos + 1) outpos out (tl r)" by (rule np_view_consume [OF v r]) simp_all
  from np_view_emit [OF this _ s(1), of ch] show "np_view state' (path[outpos := ch]) (pos + 1) (outpos + 1) (out @ [ch]) (tl r)"
    using s(2) by simp
  show "outpos < length path" using v by (auto simp: np_view_def)
qed

lemma np_dots:
  assumes v: "np_view SEEN_DOTDOT path pos outpos out r"
  shows "outpos + 1 < length path"
    "np_view IN_FIELD (path[outpos := path_dot, outpos + 1 := path_dot]) pos (outpos + 2) (out @ [path_dot, path_dot]) r"
proof -
  have "np_view SEEN_DOT (path[outpos := path_dot]) pos (outpos + 1) (out @ [path_dot]) r"
    by (rule np_view_emit [OF v]) simp_all
  from np_view_emit [OF this, of IN_FIELD path_dot]
  show "np_view IN_FIELD (path[outpos := path_dot, outpos + 1 := path_dot]) pos (outpos + 2) (out @ [path_dot, path_dot]) r"
    by (simp add: numeral_2_eq_2)
  show "outpos + 1 < length path" using v by (auto simp: np_view_def)
qed

text \<open>Induction on what is left to be done: everything smaller is known to be right.\<close>

definition np_weight :: "np_state \<Rightarrow> bytes \<Rightarrow> nat" where
  "np_weight state r = length r * 8 + np_rank state"

definition np_ih :: "np_state \<Rightarrow> bytes \<Rightarrow> bool" where
  "np_ih state r \<longleftrightarrow>
     (\<forall>state' path pos outpos out r'. np_weight state' r' < np_weight state r \<longrightarrow>
        np_view state' path pos outpos out r' \<longrightarrow> np_done state' path pos outpos out r')"

lemma np_ihD:
  "np_ih state r \<Longrightarrow> np_weight state' r' < np_weight state r \<Longrightarrow> np_view state' path pos outpos out r' \<Longrightarrow>
   np_done state' path pos outpos out r'"
  by (simp add: np_ih_def)

lemma np_weight_tl: "r \<noteq> [] \<Longrightarrow> np_weight state' (tl r) < np_weight state r"
  by (cases r; cases state') (auto simp: np_weight_def)

lemma np_same:
  assumes "np_ih state r" "np_view state path pos outpos out r"
    and "np_rank state' < np_rank state" "np_lag state' \<le> np_lag state" "state' \<in> {SEP, DOT, DOTDOT} \<Longrightarrow> r \<noteq> []"
    and "np_loop state path pos outpos = np_loop state' path pos outpos" "pure_np state out r = pure_np state' out r"
  shows "np_done state path pos outpos out r"
  using np_done_step [OF np_ihD [OF assms(1) _ np_view_state [OF assms(2,4,5)]] assms(6,7)] assms(3)
  by (simp add: np_weight_def)

lemma np_eat:
  assumes "np_ih state r" "np_view state path pos outpos out r"
    and "r \<noteq> []" "np_lag state' \<le> np_lag state + 1" "state' \<notin> {SEP, DOT, DOTDOT}"
    and "np_loop state path pos outpos = np_loop state' path (pos + 1) outpos"
      "pure_np state out r = pure_np state' out (tl r)"
  shows "np_done state path pos outpos out r"
  using np_done_step [OF np_ihD [OF assms(1) np_weight_tl [OF assms(3)] np_view_consume [OF assms(2-5)]] assms(6,7)]
  by simp

lemma np_put:
  assumes "np_ih state r" "np_view state path pos outpos out r"
    and "r \<noteq> []" "state' \<notin> {SEP, DOT, DOTDOT}" "np_lag state' = 0"
    and "np_loop state path pos outpos = np_loop state' (path[outpos := ch]) (pos + 1) (outpos + 1)"
      "pure_np state out r = pure_np state' (out @ [ch]) (tl r)"
  shows "np_done state path pos outpos out r"
  using np_done_step [OF np_ihD [OF assms(1) np_weight_tl [OF assms(3)] np_copy(2) [OF assms(2-5)]] assms(6,7)]
  by simp

lemma np_initial_ok:
  assumes ih: "np_ih INITIAL r" and v: "np_view INITIAL path pos outpos out r"
  shows "np_done INITIAL path pos outpos out r"
proof -
  note u = np_loop.simps [of INITIAL path pos outpos] pure_np.simps [of INITIAL out r] pure_np.simps [of INITIAL out "[]"] np_weight_def
  note h = np_view_hd [OF v]
  consider "r \<noteq> []" "hd r = path_sep" | "r \<noteq> []" "hd r = path_dot" | "r = [] \<or> hd r \<noteq> path_sep \<and> hd r \<noteq> path_dot" by blast
  then show ?thesis
  proof cases
    case 1 then show ?thesis by (intro np_same [OF ih v, where state' = SEP]) (use h in \<open>simp_all add: u\<close>)
  next
    case 2 then show ?thesis by (intro np_same [OF ih v, where state' = DOT]) (use h in \<open>simp_all add: u\<close>)
  next
    case 3 then show ?thesis by (intro np_same [OF ih v, where state' = FIELD_START]) (use h in \<open>auto simp: u\<close>)
  qed
qed

lemma np_field_start_ok:
  assumes ih: "np_ih FIELD_START r" and v: "np_view FIELD_START path pos outpos out r"
  shows "np_done FIELD_START path pos outpos out r"
proof -
  note u = np_loop.simps [of FIELD_START path pos outpos] pure_np.simps [of FIELD_START out r] pure_np.simps [of FIELD_START out "[]"] np_weight_def
  note h = np_view_hd [OF v]
  consider "r = []" | "r \<noteq> []" "hd r = path_dot" | "r \<noteq> []" "hd r \<noteq> path_dot" by blast
  then show ?thesis
  proof cases
    case 1 then show ?thesis by (intro np_done_stop [OF v]) (use h in \<open>simp_all add: u\<close>)
  next
    case 2 then show ?thesis by (intro np_same [OF ih v, where state' = DOT]) (use h in \<open>simp_all add: u\<close>)
  next
    case 3 then show ?thesis by (intro np_same [OF ih v, where state' = IN_FIELD]) (use h in \<open>simp_all add: u\<close>)
  qed
qed

lemma np_in_field_ok:
  assumes ih: "np_ih IN_FIELD r" and v: "np_view IN_FIELD path pos outpos out r"
  shows "np_done IN_FIELD path pos outpos out r"
proof -
  note u = np_loop.simps [of IN_FIELD path pos outpos] pure_np.simps [of IN_FIELD out r] pure_np.simps [of IN_FIELD out "[]"] np_weight_def
  note h = np_view_hd [OF v]
  consider "r = []" | "r \<noteq> []" "hd r = path_sep" | "r \<noteq> []" "hd r \<noteq> path_sep" by blast
  then show ?thesis
  proof cases
    case 1 then show ?thesis by (intro np_done_stop [OF v]) (use h in \<open>simp_all add: u\<close>)
  next
    case 2 then show ?thesis by (intro np_same [OF ih v, where state' = SEP]) (use h in \<open>simp_all add: u\<close>)
  next
    case 3 then show ?thesis by (intro np_put [OF ih v, where state' = IN_FIELD and ch = "hd r"]) (use h np_copy(1) [OF v, of IN_FIELD] in \<open>simp_all add: u\<close>)
  qed
qed

lemma np_sep_ok:
  assumes ih: "np_ih SEP r" and v: "np_view SEP path pos outpos out r"
  shows "np_done SEP path pos outpos out r"
proof -
  note u = np_loop.simps [of SEP path pos outpos] pure_np.simps [of SEP out r] pure_np.simps [of SEP out "[]"] np_weight_def
  note h = np_view_hd [OF v]
  have "r \<noteq> []" using v by (simp add: np_view_def)
  then show ?thesis
    by (intro np_put [OF ih v, where state' = SEEN_SEP and ch = path_sep]) (use h np_copy(1) [OF v, of SEEN_SEP] in \<open>simp_all add: u\<close>)
qed

lemma np_seen_sep_ok:
  assumes ih: "np_ih SEEN_SEP r" and v: "np_view SEEN_SEP path pos outpos out r"
  shows "np_done SEEN_SEP path pos outpos out r"
proof -
  note u = np_loop.simps [of SEEN_SEP path pos outpos] pure_np.simps [of SEEN_SEP out r] pure_np.simps [of SEEN_SEP out "[]"] np_weight_def
  note h = np_view_hd [OF v]
  consider "r = []" | "r \<noteq> []" "hd r = path_sep" | "r \<noteq> []" "hd r \<noteq> path_sep" by blast
  then show ?thesis
  proof cases
    case 1 then show ?thesis by (intro np_done_stop [OF v]) (use h in \<open>simp_all add: u\<close>)
  next
    case 2 then show ?thesis by (intro np_eat [OF ih v, where state' = SEEN_SEP]) (use h in \<open>simp_all add: u\<close>)
  next
    case 3 then show ?thesis by (intro np_same [OF ih v, where state' = FIELD_START]) (use h in \<open>simp_all add: u\<close>)
  qed
qed

lemma np_dot_ok:
  assumes ih: "np_ih DOT r" and v: "np_view DOT path pos outpos out r"
  shows "np_done DOT path pos outpos out r"
proof -
  note u = np_loop.simps [of DOT path pos outpos] pure_np.simps [of DOT out r] pure_np.simps [of DOT out "[]"] np_weight_def
  note h = np_view_hd [OF v]
  have "r \<noteq> []" using v by (simp add: np_view_def)
  then show ?thesis by (intro np_eat [OF ih v, where state' = SEEN_DOT]) (use h in \<open>simp_all add: u\<close>)
qed

lemma np_seen_dot_ok:
  assumes ih: "np_ih SEEN_DOT r" and v: "np_view SEEN_DOT path pos outpos out r"
  shows "np_done SEEN_DOT path pos outpos out r"
proof -
  note u = np_loop.simps [of SEEN_DOT path pos outpos] pure_np.simps [of SEEN_DOT out r] pure_np.simps [of SEEN_DOT out "[]"] np_weight_def
  note h = np_view_hd [OF v]
  consider "r = []" | "r \<noteq> []" "hd r = path_dot" | "r \<noteq> []" "hd r = path_sep" |
    "r \<noteq> []" "hd r \<noteq> path_sep" "hd r \<noteq> path_dot" by blast
  then show ?thesis
  proof cases
    case 1 then show ?thesis by (intro np_done_stop [OF v]) (use h in \<open>simp_all add: u\<close>)
  next
    case 2 then show ?thesis by (intro np_same [OF ih v, where state' = DOTDOT]) (use h in \<open>simp_all add: u\<close>)
  next
    case 3 then show ?thesis by (intro np_eat [OF ih v, where state' = SEEN_SEP]) (use h in \<open>simp_all add: u\<close>)
  next
    case 4
    have "np_view IN_FIELD (path[outpos := path_dot]) pos (outpos + 1) (out @ [path_dot]) r"
      by (rule np_view_emit [OF v]) simp_all
    moreover have "outpos < length path" using v by (auto simp: np_view_def)
    ultimately show ?thesis
      by (intro np_done_step [OF np_ihD [OF ih, of IN_FIELD r "path[outpos := path_dot]" pos "outpos + 1" "out @ [path_dot]"]])
        (use 4 h in \<open>simp_all add: u\<close>)
  qed
qed

lemma np_dotdot_ok:
  assumes ih: "np_ih DOTDOT r" and v: "np_view DOTDOT path pos outpos out r"
  shows "np_done DOTDOT path pos outpos out r"
proof -
  note u = np_loop.simps [of DOTDOT path pos outpos] pure_np.simps [of DOTDOT out r] pure_np.simps [of DOTDOT out "[]"] np_weight_def
  note h = np_view_hd [OF v]
  have "r \<noteq> []" using v by (simp add: np_view_def)
  then show ?thesis by (intro np_eat [OF ih v, where state' = SEEN_DOTDOT]) (use h in \<open>simp_all add: u\<close>)
qed

lemma np_seen_dotdot_ok:
  assumes ih: "np_ih SEEN_DOTDOT r" and v: "np_view SEEN_DOTDOT path pos outpos out r"
  shows "np_done SEEN_DOTDOT path pos outpos out r"
proof -
  note u = np_loop.simps [of SEEN_DOTDOT path pos outpos] pure_np.simps [of SEEN_DOTDOT out r] pure_np.simps [of SEEN_DOTDOT out "[]"] np_weight_def
  note h = np_view_hd [OF v]
  let ?o = "if outpos > 0 then back_field path (outpos - 1) else outpos"
  have b: "np_view SEEN_SEP path pos ?o (drop_field out) r" using np_view_back v by simp
  consider "r = []" | "r \<noteq> []" "hd r = path_sep" | "r \<noteq> []" "hd r \<noteq> path_sep" by blast
  then show ?thesis
  proof cases
    case 1 then show ?thesis using b h by (auto simp: np_done_def u np_view_def)
  next
    case 2
    have "np_view SEEN_SEP path (pos + 1) ?o (drop_field out) (tl r)"
      by (rule np_view_consume [OF b 2(1)]) simp_all
    then show ?thesis
      by (intro np_done_step [OF np_ihD [OF ih np_weight_tl [OF 2(1)], of SEEN_SEP path "pos + 1" ?o "drop_field out"]])
        (use 2 h in \<open>simp_all add: u\<close>)
  next
    case 3
    note d = np_dots [OF v]
    show ?thesis
      by (intro np_done_step [OF np_ihD [OF ih _ d(2)]]) (use 3 d(1) h in \<open>simp_all add: u\<close>)
  qed
qed

lemma np_loop_pure: "np_view state path pos outpos out r \<Longrightarrow> np_done state path pos outpos out r"
proof (induction "np_weight state r" arbitrary: state path pos outpos out r rule: less_induct)
  case less
  have "np_ih state r" using less.hyps by (auto simp: np_ih_def)
  then show ?case
    using less.prems
    by (cases state) (auto intro: np_initial_ok np_field_start_ok np_in_field_ok np_sep_ok np_seen_sep_ok np_dot_ok np_seen_dot_ok np_dotdot_ok np_seen_dotdot_ok)
qed

section \<open>Paths as lists of fields\<close>

fun split_sep :: "bytes \<Rightarrow> bytes list" where
  "split_sep [] = [[]]"
| "split_sep (c # cs) =
     (if c = path_sep then [] # split_sep cs
      else case split_sep cs of [] \<Rightarrow> [[c]] | f # fs \<Rightarrow> (c # f) # fs)"

definition fields :: "bytes \<Rightarrow> bytes list" where
  "fields r = filter (\<lambda>f. f \<noteq> []) (split_sep r)"

text \<open>The empty field in front stands for the root.\<close>

definition path_fields :: "bytes \<Rightarrow> bytes list" where
  "path_fields r = (if r \<noteq> [] \<and> hd r = path_sep then [] # fields r else fields r)"

definition norm_field :: "bytes list \<Rightarrow> bytes \<Rightarrow> bytes list" where
  "norm_field S f = (if f = [path_dot] then S else if f = [path_dot, path_dot] then butlast S else S @ [f])"

definition emitted :: "bytes list \<Rightarrow> bytes" where
  "emitted S = concat (map (\<lambda>f. f @ [path_sep]) S)"

definition join_path :: "bytes list \<Rightarrow> bytes" where
  "join_path S = butlast (emitted S)"

definition strip_sep :: "bytes \<Rightarrow> bytes" where
  "strip_sep out = (if out \<noteq> [] \<and> last out = path_sep then butlast out else out)"

abbreviation no_sep :: "bytes \<Rightarrow> bool" where "no_sep f \<equiv> path_sep \<notin> set f"

lemma emitted_simps [simp]: "emitted [] = []" "emitted (S @ [f]) = emitted S @ f @ [path_sep]" "emitted [f] = f @ [path_sep]"
  by (simp_all add: emitted_def)

lemma strip_emitted: "strip_sep (emitted S) = join_path S"
  by (cases S rule: rev_cases) (simp_all add: strip_sep_def join_path_def)

lemma strip_emitted_field: "f \<noteq> [] \<Longrightarrow> no_sep f \<Longrightarrow> strip_sep (emitted S @ f) = join_path (S @ [f])"
  by (auto simp: strip_sep_def join_path_def butlast_append) (metis last_in_set)

lemma drop_field_emitted:
  assumes "list_all no_sep S"
  shows "drop_field (emitted S) = emitted (butlast S)"
proof (cases S rule: rev_cases)
  case (snoc T f)
  have nf: "no_sep f" using assms snoc by simp
  have "dropWhile (\<lambda>c. c \<noteq> path_sep) (rev f @ rev (emitted T)) = dropWhile (\<lambda>c. c \<noteq> path_sep) (rev (emitted T))"
    using nf by (simp add: dropWhile_append)
  moreover have "dropWhile (\<lambda>c. c \<noteq> path_sep) (rev (emitted T)) = rev (emitted T)"
    by (cases T rule: rev_cases) simp_all
  ultimately show ?thesis using snoc by (simp add: drop_field_def butlast_append)
qed (simp add: drop_field_def)

lemma split_sep_ne [simp]: "split_sep r \<noteq> []"
  by (induction r) (auto split: list.splits)

lemma split_sep_field: "no_sep g \<Longrightarrow> split_sep g = [g]"
  by (induction g) auto

lemma split_sep_app: "no_sep g \<Longrightarrow> split_sep (g @ path_sep # r) = g # split_sep r"
  by (induction g) (auto split: list.splits)

lemma fields_simps [simp]:
  "fields [] = []" "fields (path_sep # r) = fields r"
  "no_sep g \<Longrightarrow> g \<noteq> [] \<Longrightarrow> fields g = [g]"
  "no_sep g \<Longrightarrow> g \<noteq> [] \<Longrightarrow> fields (g @ path_sep # r) = g # fields r"
  by (simp_all add: fields_def split_sep_field split_sep_app)

text \<open>What the machine does with a whole field.\<close>

definition after_field :: "bytes \<Rightarrow> bytes \<Rightarrow> bytes" where
  "after_field out r = (if r = [] then out else pure_np SEEN_SEP (out @ [path_sep]) (tl r))"

lemma pure_in_field: "no_sep g \<Longrightarrow> r = [] \<or> hd r = path_sep \<Longrightarrow> pure_np IN_FIELD out (g @ r) = after_field (out @ g) r"
proof (induction g arbitrary: out)
  case Nil
  then show ?case by (subst pure_np.simps) (auto simp: after_field_def pure_np.simps [of SEP])
next
  case (Cons c g)
  then show ?case by (subst pure_np.simps) auto
qed

lemma pure_seen_sep: "pure_np SEEN_SEP out [] = out" "pure_np SEEN_SEP out (path_sep # r) = pure_np SEEN_SEP out r"
  "c \<noteq> path_sep \<Longrightarrow> pure_np SEEN_SEP out (c # r) = pure_np FIELD_START out (c # r)"
  by (subst pure_np.simps, simp)+

lemma pure_dots:
  assumes "r = [] \<or> hd r = path_sep"
  shows "pure_np FIELD_START out (path_dot # r) = (if r = [] then out else pure_np SEEN_SEP out (tl r))"
    "pure_np FIELD_START out (path_dot # path_dot # r) =
      (if r = [] then drop_field out else pure_np SEEN_SEP (drop_field out) (tl r))"
  using assms
  by (auto simp: pure_np.simps [of FIELD_START] pure_np.simps [of DOT] pure_np.simps [of SEEN_DOT]
    pure_np.simps [of DOTDOT] pure_np.simps [of SEEN_DOTDOT])

lemma pure_plain_field:
  assumes g: "g \<noteq> []" "no_sep g" "g \<noteq> [path_dot]" "g \<noteq> [path_dot, path_dot]" and r: "r = [] \<or> hd r = path_sep"
  shows "pure_np FIELD_START out (g @ r) = after_field (out @ g) r"
proof -
  obtain c g1 where c: "g = c # g1" using g(1) by (cases g) auto
  show ?thesis
  proof (cases "c = path_dot")
    case False
    then have "pure_np FIELD_START out (g @ r) = pure_np IN_FIELD out (g @ r)" by (simp add: c pure_np.simps [of FIELD_START])
    then show ?thesis using pure_in_field [OF g(2) r] by simp
  next
    case d: True
    obtain c2 g2 where c2: "g1 = c2 # g2" using g(3) c d by (cases g1) auto
    have st: "pure_np FIELD_START out (g @ r) = pure_np SEEN_DOT out (g1 @ r)"
      by (simp add: c d pure_np.simps [of FIELD_START] pure_np.simps [of DOT])
    show ?thesis
    proof (cases "c2 = path_dot")
      case False
      then have "pure_np SEEN_DOT out (g1 @ r) = pure_np IN_FIELD (out @ [path_dot]) (g1 @ r)"
        using g(2) c by (simp add: c2 pure_np.simps [of SEEN_DOT])
      then show ?thesis using st pure_in_field [of g1 r "out @ [path_dot]"] g(2) r c d by simp
    next
      case d2: True
      obtain c3 g3 where c3: "g2 = c3 # g3" using g(4) c c2 d d2 by (cases g2) auto
      have "pure_np SEEN_DOT out (g1 @ r) = pure_np IN_FIELD (out @ [path_dot, path_dot]) (g2 @ r)"
        using g(2) c c2 d2
        by (simp add: c3 pure_np.simps [of SEEN_DOT] pure_np.simps [of DOTDOT] pure_np.simps [of SEEN_DOTDOT])
      then show ?thesis using st pure_in_field [of g2 r "out @ [path_dot, path_dot]"] g(2) r c c2 d d2 by simp
    qed
  qed
qed

lemma first_field:
  assumes "r \<noteq> []" "hd r \<noteq> path_sep"
  obtains g r' where "r = g @ r'" "g \<noteq> []" "no_sep g" "r' = [] \<or> hd r' = path_sep"
proof
  let ?g = "takeWhile (\<lambda>c. c \<noteq> path_sep) r" and ?r = "dropWhile (\<lambda>c. c \<noteq> path_sep) r"
  show "r = ?g @ ?r" by simp
  show "?g \<noteq> []" using assms by (cases r) auto
  show "no_sep ?g" by (auto dest: set_takeWhileD)
  show "?r = [] \<or> hd ?r = path_sep" using hd_dropWhile [of "\<lambda>c. c \<noteq> path_sep" r] by blast
qed

lemma no_sep_norm: "list_all no_sep S \<Longrightarrow> no_sep f \<Longrightarrow> list_all no_sep (norm_field S f)"
  by (auto simp: norm_field_def list_all_iff dest: in_set_butlastD)

lemma pure_fields: "list_all no_sep S \<Longrightarrow> strip_sep (pure_np SEEN_SEP (emitted S) r) = join_path (foldl norm_field S (fields r))"
proof (induction "length r" arbitrary: S r rule: less_induct)
  case less
  note S = less.prems
  consider "r = []" | r' where "r = path_sep # r'" | "r \<noteq> []" "hd r \<noteq> path_sep" by (cases r) auto
  then show ?case
  proof cases
    case 1 then show ?thesis by (simp add: pure_seen_sep strip_emitted)
  next
    case 2 then show ?thesis using less.hyps [of r' S] S by (simp add: pure_seen_sep)
  next
    case 3
    obtain g r' where g: "r = g @ r'" "g \<noteq> []" "no_sep g" "r' = [] \<or> hd r' = path_sep" by (rule first_field [OF 3])
    have fs: "pure_np SEEN_SEP (emitted S) r = pure_np FIELD_START (emitted S) (g @ r')"
      using pure_seen_sep(3) [OF 3(2), of "emitted S" "tl r"] 3(1) unfolding g(1) [symmetric] by simp
    have fr: "fields r = g # fields (tl r')" using g by (cases r') auto
    have ih: "strip_sep (pure_np SEEN_SEP (emitted T) (tl r')) = join_path (foldl norm_field T (fields (tl r')))"
      if "list_all no_sep T" "r' \<noteq> []" for T
      using less.hyps [of "tl r'" T] that g(1,2) by (cases r') auto
    show ?thesis
    proof (cases "g = [path_dot] \<or> g = [path_dot, path_dot]")
      case True
      have "pure_np FIELD_START (emitted S) (g @ r') =
          (if r' = [] then emitted (norm_field S g) else pure_np SEEN_SEP (emitted (norm_field S g)) (tl r'))"
        using True pure_dots [OF g(4), of "emitted S"] drop_field_emitted [OF S] by (auto simp: norm_field_def)
      then show ?thesis using fs fr ih [OF no_sep_norm [OF S g(3)]] by (auto simp: strip_emitted)
    next
      case False
      then have n: "norm_field S g = S @ [g]" by (simp add: norm_field_def)
      have "pure_np FIELD_START (emitted S) (g @ r') = after_field (emitted S @ g) r'"
        using pure_plain_field g False by simp
      moreover have "emitted S @ g @ [path_sep] = emitted (S @ [g])" by simp
      ultimately show ?thesis
        using fs fr ih [OF no_sep_norm [OF S g(3)]] g(2,3) n
        by (auto simp: after_field_def strip_emitted_field)
    qed
  qed
qed

lemma pure_path: "strip_sep (pure_np INITIAL [] r) = join_path (foldl norm_field [] (path_fields r))"
proof (cases "r \<noteq> [] \<and> hd r = path_sep")
  case True
  then obtain r' where r: "r = path_sep # r'" by (cases r) auto
  have "pure_np INITIAL [] r = pure_np SEEN_SEP (emitted [[]]) r'"
    by (simp add: r pure_np.simps [of INITIAL] pure_np.simps [of SEP])
  then show ?thesis using pure_fields [of "[[]]" r'] by (simp add: path_fields_def r norm_field_def)
next
  case False
  then have "pure_np INITIAL [] r = pure_np SEEN_SEP (emitted []) r"
    by (cases r) (auto simp: pure_np.simps [of INITIAL] pure_np.simps [of SEEN_SEP] pure_np.simps [of FIELD_START])
  moreover have "path_fields r = fields r" using False by (simp add: path_fields_def)
  ultimately show ?thesis using pure_fields [of "[]" r] by simp
qed

lemma split_sep_set: "f \<in> set (split_sep r) \<Longrightarrow> set f \<subseteq> set r"
proof (induction r arbitrary: f)
  case (Cons c r)
  obtain g gs where g: "split_sep r = g # gs" by (cases "split_sep r") auto
  have "f = [] \<or> f \<in> set (split_sep r) \<or> f = c # g" using Cons.prems g by (auto split: if_splits)
  then show ?case using Cons.IH [of f] Cons.IH [of g] g by auto
qed simp

lemma split_sep_no_sep: "f \<in> set (split_sep r) \<Longrightarrow> no_sep f"
  by (induction r arbitrary: f) (auto split: list.splits if_splits)

lemma norm_fields_set: "f \<in> set (foldl norm_field S fs) \<Longrightarrow>
  f \<in> set S \<or> f \<in> set fs \<and> f \<noteq> [path_dot] \<and> f \<noteq> [path_dot, path_dot]"
proof (induction fs arbitrary: S)
  case (Cons g fs)
  then have "f \<in> set (norm_field S g) \<or> f \<in> set fs \<and> f \<noteq> [path_dot] \<and> f \<noteq> [path_dot, path_dot]" by simp
  then show ?case by (auto simp: norm_field_def split: if_splits dest: in_set_butlastD)
qed simp

lemma join_path_set: "set (join_path S) \<subseteq> insert path_sep (\<Union> (set ` set S))"
proof
  fix x
  assume "x \<in> set (join_path S)"
  then have "x \<in> set (emitted S)" by (auto simp: join_path_def dest: in_set_butlastD)
  then show "x \<in> insert path_sep (\<Union> (set ` set S))" by (auto simp: emitted_def split: if_splits)
qed

text \<open>The meaning of a path: its fields with \<open>.\<close> and \<open>..\<close> resolved.\<close>

definition normal_path :: "bytes \<Rightarrow> bytes" where
  "normal_path r = join_path (foldl norm_field [] (path_fields r))"

lemma normal_path_no_nul: "0 \<notin> set r \<Longrightarrow> 0 \<notin> set (normal_path r)"
proof
  assume r: "0 \<notin> set r" and z: "0 \<in> set (normal_path r)"
  then obtain f where f: "f \<in> set (foldl norm_field [] (path_fields r))" "0 \<in> set f"
    using join_path_set [of "foldl norm_field [] (path_fields r)"] by (auto simp: normal_path_def)
  then have "f \<in> set (path_fields r)" using norm_fields_set by fastforce
  then show False using f(2) r split_sep_set by (fastforce simp: path_fields_def fields_def split: if_splits)
qed

lemma fs_normalize_path_ok:
  assumes "0 \<notin> set p"
  obtains path' where "fs_normalize_path (p @ 0 # junk) = Some path'" "cstr path' = normal_path p"
    "length path' = length p + 1 + length junk"
proof -
  have v: "np_view INITIAL (p @ 0 # junk) 0 0 [] p" using assms by (simp add: np_view_def)
  obtain path' n where l: "np_loop INITIAL (p @ 0 # junk) 0 0 = Some (path', n)" "take n path' = pure_np INITIAL [] p"
    "n < length path'" "length path' = length p + 1 + length junk"
    using np_loop_pure [OF v] by (auto simp: np_done_def)
  let ?m = "if n > 0 \<and> path' ! (n - 1) = path_sep then n - 1 else n"
  have "take ?m path' = strip_sep (take n path')"
    using l(3) by (cases n) (auto simp: strip_sep_def butlast_take take_Suc_conv_app_nth)
  then have t: "take ?m path' = normal_path p" using l(2) pure_path by (simp add: normal_path_def)
  have m: "?m < length path'" using l(3) by auto
  have "cstr (path'[?m := 0]) = takeWhile (\<lambda>c. c \<noteq> 0) (take ?m path' @ 0 # drop (Suc ?m) path')"
    unfolding cstr_def upd_conv_take_nth_drop [OF m] ..
  also have "\<dots> = normal_path p" using t normal_path_no_nul [OF assms] by (subst takeWhile_append2) auto
  finally have "cstr (path'[?m := 0]) = normal_path p" .
  moreover have "fs_normalize_path (p @ 0 # junk) = Some (path'[?m := 0])"
    using l(1,3) by (auto simp: fs_normalize_path_def Let_def)
  ultimately show thesis using that l(4) by simp
qed

text \<open>Normalising twice is the same as normalising once.\<close>

lemma fields_emitted:
  assumes "list_all (\<lambda>f. no_sep f \<and> f \<noteq> []) T"
  shows "fields (emitted T @ r) = T @ fields r"
  using assms by (induction T) (simp_all add: emitted_def)

lemma fields_join:
  assumes "list_all (\<lambda>f. no_sep f \<and> f \<noteq> []) T"
  shows "fields (join_path T) = T"
proof (cases T rule: rev_cases)
  case (snoc U f)
  then show ?thesis using assms fields_emitted [of U f] by (simp add: join_path_def butlast_append)
qed (simp add: join_path_def)

lemma fields_ok: "list_all (\<lambda>f. no_sep f \<and> f \<noteq> []) (fields r)"
  using split_sep_no_sep by (auto simp: fields_def list_all_iff)

lemma norm_fields_id:
  "list_all (\<lambda>f. f \<noteq> [path_dot] \<and> f \<noteq> [path_dot, path_dot]) T \<Longrightarrow> foldl norm_field S T = S @ T"
  by (induction T arbitrary: S) (simp_all add: norm_field_def)

definition rooted :: "bytes list \<Rightarrow> bool" where
  "rooted S \<longleftrightarrow> S = [] \<or> list_all (\<lambda>f. f \<noteq> []) (tl S)"

lemma rooted_norm: "f \<noteq> [] \<Longrightarrow> rooted S \<Longrightarrow> rooted (norm_field S f)"
  by (cases S) (auto simp: rooted_def norm_field_def list_all_iff dest: in_set_butlastD)

lemma rooted_foldl: "list_all (\<lambda>f. f \<noteq> []) fs \<Longrightarrow> rooted S \<Longrightarrow> rooted (foldl norm_field S fs)"
  by (induction fs arbitrary: S) (simp_all add: rooted_norm)

lemma path_fields_join:
  assumes "rooted S" "list_all no_sep S"
  shows "path_fields (join_path S) = S \<or> S = [[]]"
proof (cases S)
  case (Cons f T)
  have T: "list_all (\<lambda>f. no_sep f \<and> f \<noteq> []) T" using assms Cons by (auto simp: rooted_def list_all_iff)
  show ?thesis
  proof (cases "f = []")
    case True
    have "T = [] \<or> join_path S = path_sep # join_path T" using Cons True by (auto simp: join_path_def emitted_def)
    then show ?thesis using Cons True fields_join [OF T] by (auto simp: path_fields_def)
  next
    case False
    then have all: "list_all (\<lambda>f. no_sep f \<and> f \<noteq> []) S" using T assms(2) Cons by simp
    have "join_path S \<noteq> [] \<and> hd (join_path S) = hd f"
      using Cons False by (cases f) (auto simp: join_path_def emitted_def)
    moreover have "hd f \<noteq> path_sep" using assms(2) Cons False by (cases f) auto
    ultimately show ?thesis using fields_join [OF all] by (simp add: path_fields_def)
  qed
qed (simp add: path_fields_def join_path_def)

lemma normal_path_idem: "normal_path (normal_path r) = normal_path r"
proof -
  let ?S = "foldl norm_field [] (path_fields r)"
  have f: "f \<in> set (path_fields r) \<and> f \<noteq> [path_dot] \<and> f \<noteq> [path_dot, path_dot]" if "f \<in> set ?S" for f
    using norm_fields_set [OF that] by simp
  have "no_sep f" if "f \<in> set (path_fields r)" for f
    using that fields_ok [of r] by (cases "f = []") (simp_all add: list_all_iff path_fields_def split: if_splits)
  then have ns: "list_all no_sep ?S" using f by (simp add: list_all_iff)
  have "rooted ?S"
  proof (cases "r \<noteq> [] \<and> hd r = path_sep")
    case True
    then have "?S = foldl norm_field [[]] (fields r)" by (simp add: path_fields_def norm_field_def)
    then show ?thesis using rooted_foldl [of "fields r" "[[]]"] fields_ok [of r] by (simp add: rooted_def list_all_iff)
  next
    case False
    then have "?S = foldl norm_field [] (fields r)" by (auto simp: path_fields_def)
    then show ?thesis using rooted_foldl [of "fields r" "[]"] fields_ok [of r] by (simp add: rooted_def list_all_iff)
  qed
  from path_fields_join [OF this ns] show ?thesis
  proof
    assume "path_fields (join_path ?S) = ?S"
    then show ?thesis using norm_fields_id [of ?S "[]"] f by (simp add: normal_path_def list_all_iff)
  next
    assume "?S = [[]]"
    then show ?thesis by (simp add: normal_path_def join_path_def path_fields_def)
  qed
qed

end
