(* ===== verification/Fs.thy ===== *)
theory Fs
  imports Fs_Path Ext2_Io
begin

text \<open>
  The file system layer (\<open>lib/fs/fs.c\<close>): a table of mounted file systems with reference counts, and
  the operations that find the file system of a path and call its hooks.

  A mount structure lives in a heap of addresses; the list \<open>mounts\<close> holds the addresses of the
  structures that are linked, newest first (what the list functions do to the links is shown in
  \<open>List_Nodes\<close>). \<open>put_mount\<close> frees the structure, and a later use of its address is \<open>None\<close>, like a
  NULL path. The hooks of a file system (\<open>struct fs_api\<close>) work on the state \<open>'w\<close> of the world below;
  optional hooks may be NULL. An open file is its handle: the file system's cookie and the mount.
  Paths are the bytes before their NUL.
\<close>

section \<open>Data\<close>

record file_stat =
  st_is_dir :: bool
  st_size :: u64

record fs_stat =
  free_space :: u64
  total_space :: u64
  free_inodes :: u32
  total_inodes :: u32

type_synonym ('a, 'w) hook = "'w \<Rightarrow> ((fs_err + 'a) \<times> 'w) option"

text \<open>A read gets the address and the previous contents of the caller's buffer, and returns the
  number of bytes read and the new contents.\<close>

record ('c, 'f, 'k, 'w) fs_api =
  api_fs_stat :: "('c \<Rightarrow> (fs_stat, 'w) hook) option"
  api_mount :: "nat option \<Rightarrow> u64 \<Rightarrow> ('c, 'w) hook"
  api_unmount :: "'c \<Rightarrow> 'w \<Rightarrow> 'w option"
  api_open :: "'c \<Rightarrow> bytes \<Rightarrow> ('f, 'w) hook"
  api_create :: "('c \<Rightarrow> bytes \<Rightarrow> u64 \<Rightarrow> ('f, 'w) hook) option"
  api_remove :: "('c \<Rightarrow> bytes \<Rightarrow> (unit, 'w) hook) option"
  api_truncate :: "('f \<Rightarrow> u64 \<Rightarrow> (unit, 'w) hook) option"
  api_stat :: "'f \<Rightarrow> (file_stat, 'w) hook"
  api_read :: "'f \<Rightarrow> u64 \<Rightarrow> bytes \<Rightarrow> u64 \<Rightarrow> u64 \<Rightarrow> 'w \<Rightarrow> ((fs_err + u64) \<times> bytes \<times> 'w) option"
  api_write :: "('f \<Rightarrow> bytes \<Rightarrow> u64 \<Rightarrow> u64 \<Rightarrow> (u64, 'w) hook) option"
  api_close :: "'f \<Rightarrow> (unit, 'w) hook"
  api_mkdir :: "('c \<Rightarrow> bytes \<Rightarrow> (unit, 'w) hook) option"
  api_opendir :: "('c \<Rightarrow> bytes \<Rightarrow> ('k, 'w) hook) option"
  api_readdir :: "('k \<Rightarrow> (bytes, 'w) hook) option"
  api_closedir :: "('k \<Rightarrow> (unit, 'w) hook) option"
  api_file_ioctl :: "('f \<Rightarrow> int \<Rightarrow> u64 \<Rightarrow> (unit, 'w) hook) option"

record ('c, 'f, 'k, 'w) fs_mnt =
  m_path :: "bytes option"
  m_dev :: "nat option"
  m_cookie :: 'c
  m_ref :: int
  m_api :: "('c, 'f, 'k, 'w) fs_api"

record ('c, 'f, 'k, 'w) fs_state =
  mount_heap :: "nat \<Rightarrow> ('c, 'f, 'k, 'w) fs_mnt option"
  mounts :: "nat list"
  world :: 'w

record 'f filehandle =
  h_cookie :: 'f
  h_mount :: nat

record 'k dirhandle =
  d_cookie :: 'k
  d_mount :: nat

text \<open>What the layer takes from its surroundings: the array of file systems the linker collects,
  \<open>tegrabl_blockdev_close\<close> on the world, the allocator (an address that is not in use, or NULL, for a
  mount structure; whether \<open>strdup\<close> and the allocation of a handle succeed) and the previous contents of the
  stack.\<close>

record ('c, 'f, 'k, 'w) fs_host =
  fs_impls :: "(bytes \<times> ('c, 'f, 'k, 'w) fs_api) list"
  host_close :: "nat \<Rightarrow> 'w \<Rightarrow> 'w"
  host_malloc :: "(nat \<Rightarrow> ('c, 'f, 'k, 'w) fs_mnt option) \<Rightarrow> nat option"
  host_strdup :: bool
  host_handle :: bool
  host_stack :: "nat \<Rightarrow> u8"
  host_stat :: u64

abbreviation (input) FS_MAX_PATH_LEN :: nat where "FS_MAX_PATH_LEN \<equiv> 128"

section \<open>Finding and releasing mounts\<close>

fun find_fs :: "(bytes \<times> 'a) list \<Rightarrow> bytes \<Rightarrow> 'a option" where
  "find_fs [] name = None"
| "find_fs ((n, api) # impls) name = (if n = name then Some api else find_fs impls name)"

fun find_prefix ::
  "(nat \<Rightarrow> ('c, 'f, 'k, 'w) fs_mnt option) \<Rightarrow> bytes \<Rightarrow> nat list \<Rightarrow> (nat \<times> bytes) option option"
where
  "find_prefix heap path [] = Some None"
| "find_prefix heap path (a # as) =
     (case heap a of
        None \<Rightarrow> None
      | Some m \<Rightarrow>
          (case m_path m of
             None \<Rightarrow> None
           | Some mp \<Rightarrow>
               if length mp \<le> length path \<and> take (length mp) path = mp
               then Some (Some (a, drop (length mp) path))
               else find_prefix heap path as))"

definition upd_mnt ::
  "nat \<Rightarrow> ('c, 'f, 'k, 'w) fs_mnt option \<Rightarrow> ('c, 'f, 'k, 'w) fs_state \<Rightarrow> ('c, 'f, 'k, 'w) fs_state"
where
  "upd_mnt a m s = s\<lparr>mount_heap := (mount_heap s)(a := m)\<rparr>"

definition find_mount ::
  "bytes \<Rightarrow> ('c, 'f, 'k, 'w) fs_state \<Rightarrow> ((nat \<times> bytes) option \<times> ('c, 'f, 'k, 'w) fs_state) option"
where
  "find_mount path s =
     (case find_prefix (mount_heap s) path (mounts s) of
        None \<Rightarrow> None
      | Some None \<Rightarrow> Some (None, s)
      | Some (Some (a, trimmed)) \<Rightarrow>
          map_option (\<lambda>m. (Some (a, trimmed), upd_mnt a (Some (m\<lparr>m_ref := m_ref m + 1\<rparr>)) s)) (mount_heap s a))"

definition put_mount ::
  "('c, 'f, 'k, 'w) fs_host \<Rightarrow> nat \<Rightarrow> ('c, 'f, 'k, 'w) fs_state \<Rightarrow> ('c, 'f, 'k, 'w) fs_state option"
where
  "put_mount host a s =
     (case mount_heap s a of
        None \<Rightarrow> None
      | Some m \<Rightarrow>
          let m = m\<lparr>m_ref := m_ref m - 1\<rparr>
          in if m_ref m = 0 then
               (case api_unmount (m_api m) (m_cookie m) (world s) of
                  None \<Rightarrow> None
                | Some w \<Rightarrow>
                    Some (s\<lparr>mounts := remove1 a (mounts s), mount_heap := (mount_heap s)(a := None),
                            world := (case m_dev m of None \<Rightarrow> w | Some dev \<Rightarrow> host_close host dev w)\<rparr>))
             else Some (upd_mnt a (Some m) s))"

text \<open>The path copied to an array of 128 characters and normalised there.\<close>

definition temp_path :: "('c, 'f, 'k, 'w) fs_host \<Rightarrow> bytes \<Rightarrow> bytes option" where
  "temp_path host path =
     (let p = take (FS_MAX_PATH_LEN - 1) path
      in map_option cstr (fs_normalize_path (p @ 0 # map (host_stack host) [length p + 1..<FS_MAX_PATH_LEN])))"

section \<open>Mounting\<close>

definition mount ::
  "('c, 'f, 'k, 'w) fs_host \<Rightarrow> bytes \<Rightarrow> nat option \<Rightarrow> ('c, 'f, 'k, 'w) fs_api \<Rightarrow> u64 \<Rightarrow>
   (unit, ('c, 'f, 'k, 'w) fs_state) hook"
where
  "mount host path dev api start_sector s =
     (case temp_path host path of
        None \<Rightarrow> None
      | Some temppath \<Rightarrow>
          if temppath = [] \<or> hd temppath \<noteq> path_sep then Some (Inl ERR_BAD_PATH, s)
          else
            (case find_mount temppath s of
               None \<Rightarrow> None
             | Some (Some (a, _), s) \<Rightarrow> map_option (Pair (Inl ERR_ALREADY_MOUNTED)) (put_mount host a s)
             | Some (None, s) \<Rightarrow>
                 (case host_malloc host (mount_heap s) of
                    None \<Rightarrow> Some (Inl ERR_NO_MEMORY, s)
                  | Some a \<Rightarrow>
                      (case api_mount api dev start_sector (world s) of
                         None \<Rightarrow> None
                       | Some (Inl err, w) \<Rightarrow>
                           Some (Inl err, s\<lparr>world := (case dev of None \<Rightarrow> w | Some d \<Rightarrow> host_close host d w)\<rparr>)
                       | Some (Inr cookie, w) \<Rightarrow>
                           let m = \<lparr>m_path = (if host_strdup host then Some temppath else None), m_dev = dev,
                                    m_cookie = cookie, m_ref = 1, m_api = api\<rparr>
                           in Some (Inr (), s\<lparr>mounts := a # mounts s, mount_heap := (mount_heap s)(a \<mapsto> m),
                                              world := w\<rparr>)))))"

text \<open>\<open>p\<close> is the address of the superblock on the stack.\<close>

definition fs_detect ::
  "alloc_env \<Rightarrow> u64 \<Rightarrow> nat \<Rightarrow> u64 \<Rightarrow> 'd bd_state \<Rightarrow> (bytes option \<times> 'd bd_state) option"
where
  "fs_detect alloc p dev start_sector st =
     (case dev_heap st dev of
        None \<Rightarrow> None
      | Some d \<Rightarrow>
          (case tegrabl_blockdev_read alloc (Some dev) p (start_sector * TEGRABL_BLOCKDEV_BLOCK_SIZE d + 1024) 1024 st of
             ((err, b), st) \<Rightarrow>
               if err \<noteq> TEGRABL_NO_ERROR then Some (None, st)
               else if e2fs_magic (ext2_super_block b) = 0xEF53 then
                 Some (Some (if u32_at 96 b AND 0x40 \<noteq> 0 then c_lit ''ext4'' else c_lit ''ext2''), st)
               else Some (None, st)))"

definition fs_mount ::
  "('c, 'f, 'k, 'w) fs_host \<Rightarrow> bytes \<Rightarrow> bytes \<Rightarrow> nat option \<Rightarrow> u64 \<Rightarrow> (unit, ('c, 'f, 'k, 'w) fs_state) hook"
where
  "fs_mount host path fsname dev start_sector s =
     (case find_fs (fs_impls host) fsname of
        None \<Rightarrow> Some (Inl ERR_NOT_FOUND, s)
      | Some api \<Rightarrow> mount host path dev api start_sector s)"

text \<open>Operations that start with a path: the mount found for the normalised path, with its new
  reference, and the rest of the path.\<close>

definition with_mount ::
  "('c, 'f, 'k, 'w) fs_host \<Rightarrow> bytes \<Rightarrow>
   (nat \<Rightarrow> ('c, 'f, 'k, 'w) fs_mnt \<Rightarrow> bytes \<Rightarrow> ('a, ('c, 'f, 'k, 'w) fs_state) hook) \<Rightarrow> ('a, ('c, 'f, 'k, 'w) fs_state) hook"
where
  "with_mount host path op s =
     (case temp_path host path of
        None \<Rightarrow> None
      | Some temppath \<Rightarrow>
          (case find_mount temppath s of
             None \<Rightarrow> None
           | Some (None, s) \<Rightarrow> Some (Inl ERR_NOT_FOUND, s)
           | Some (Some (a, newpath), s) \<Rightarrow>
               (case mount_heap s a of None \<Rightarrow> None | Some m \<Rightarrow> op a m newpath s)))"

definition put_result ::
  "('c, 'f, 'k, 'w) fs_host \<Rightarrow> nat \<Rightarrow> fs_err + 'a \<Rightarrow> ('a, ('c, 'f, 'k, 'w) fs_state) hook"
where
  "put_result host a r s = map_option (Pair r) (put_mount host a s)"

definition fs_unmount ::
  "('c, 'f, 'k, 'w) fs_host \<Rightarrow> bytes \<Rightarrow> (unit, ('c, 'f, 'k, 'w) fs_state) hook"
where
  "fs_unmount host path s =
     with_mount host path (\<lambda>a m newpath s.
       case put_mount host a s of None \<Rightarrow> None | Some s \<Rightarrow> put_result host a (Inr ()) s) s"

section \<open>Files\<close>

text \<open>A hook's cookie becomes a handle; a failure gives the reference back, but a failed allocation
  of the handle does not.\<close>

definition new_handle ::
  "('c, 'f, 'k, 'w) fs_host \<Rightarrow> nat \<Rightarrow> ((fs_err + 'x) \<times> 'w) option \<Rightarrow> ('x \<Rightarrow> nat \<Rightarrow> 'h) \<Rightarrow>
   ('h, ('c, 'f, 'k, 'w) fs_state) hook"
where
  "new_handle host a r mk s =
     (case r of
        None \<Rightarrow> None
      | Some (Inl err, w) \<Rightarrow> put_result host a (Inl err) (s\<lparr>world := w\<rparr>)
      | Some (Inr cookie, w) \<Rightarrow>
          Some (if host_handle host then Inr (mk cookie a) else Inl ERR_NO_MEMORY, s\<lparr>world := w\<rparr>))"

definition fs_open_file ::
  "('c, 'f, 'k, 'w) fs_host \<Rightarrow> bytes \<Rightarrow> ('f filehandle, ('c, 'f, 'k, 'w) fs_state) hook"
where
  "fs_open_file host path s =
     with_mount host path (\<lambda>a m newpath s.
       new_handle host a (api_open (m_api m) (m_cookie m) newpath (world s)) filehandle.make s) s"

definition fs_create_file ::
  "('c, 'f, 'k, 'w) fs_host \<Rightarrow> bytes \<Rightarrow> u64 \<Rightarrow> ('f filehandle, ('c, 'f, 'k, 'w) fs_state) hook"
where
  "fs_create_file host path len s =
     with_mount host path (\<lambda>a m newpath s.
       case api_create (m_api m) of
         None \<Rightarrow> put_result host a (Inl ERR_NOT_SUPPORTED) s
       | Some create \<Rightarrow> new_handle host a (create (m_cookie m) newpath len (world s)) filehandle.make s) s"

text \<open>The result of a hook together with the new world; the mount of a handle.\<close>

definition in_world ::
  "((fs_err + 'a) \<times> 'w) option \<Rightarrow> ('a, ('c, 'f, 'k, 'w) fs_state) hook"
where
  "in_world r s = map_option (\<lambda>(r, w). (r, s\<lparr>world := w\<rparr>)) r"

definition on_mount ::
  "nat \<Rightarrow> (('c, 'f, 'k, 'w) fs_mnt \<Rightarrow> ('c, 'f, 'k, 'w) fs_state \<Rightarrow> 'r option) \<Rightarrow> ('c, 'f, 'k, 'w) fs_state \<Rightarrow> 'r option"
where
  "on_mount a op s = (case mount_heap s a of None \<Rightarrow> None | Some m \<Rightarrow> op m s)"

definition fs_file_ioctl ::
  "'f filehandle \<Rightarrow> int \<Rightarrow> u64 \<Rightarrow> (unit, ('c, 'f, 'k, 'w) fs_state) hook"
where
  "fs_file_ioctl h request argp s =
     on_mount (h_mount h) (\<lambda>m s.
       case api_file_ioctl (m_api m) of
         None \<Rightarrow> Some (Inl ERR_INVALID_ARGS, s)
       | Some ioctl \<Rightarrow> in_world (ioctl (h_cookie h) request argp (world s)) s) s"

text \<open>The truncate hook is called without a test for NULL.\<close>

definition fs_truncate_file :: "'f filehandle \<Rightarrow> u64 \<Rightarrow> (unit, ('c, 'f, 'k, 'w) fs_state) hook" where
  "fs_truncate_file h len s =
     on_mount (h_mount h) (\<lambda>m s.
       case api_truncate (m_api m) of
         None \<Rightarrow> None
       | Some trunc \<Rightarrow> in_world (trunc (h_cookie h) len (world s)) s) s"

definition hook_and_put ::
  "('c, 'f, 'k, 'w) fs_host \<Rightarrow> nat \<Rightarrow> ((fs_err + 'a) \<times> 'w) option \<Rightarrow> ('a, ('c, 'f, 'k, 'w) fs_state) hook"
where
  "hook_and_put host a r s = (case r of None \<Rightarrow> None | Some (r, w) \<Rightarrow> put_result host a r (s\<lparr>world := w\<rparr>))"

definition fs_remove_file :: "('c, 'f, 'k, 'w) fs_host \<Rightarrow> bytes \<Rightarrow> (unit, ('c, 'f, 'k, 'w) fs_state) hook" where
  "fs_remove_file host path s =
     with_mount host path (\<lambda>a m newpath s.
       case api_remove (m_api m) of
         None \<Rightarrow> put_result host a (Inl ERR_NOT_SUPPORTED) s
       | Some rm \<Rightarrow> hook_and_put host a (rm (m_cookie m) newpath (world s)) s) s"

definition fs_read_file ::
  "'f filehandle \<Rightarrow> u64 \<Rightarrow> bytes \<Rightarrow> u64 \<Rightarrow> u64 \<Rightarrow> ('c, 'f, 'k, 'w) fs_state \<Rightarrow>
   ((fs_err + u64) \<times> bytes \<times> ('c, 'f, 'k, 'w) fs_state) option"
where
  "fs_read_file h p buf offset len s =
     on_mount (h_mount h) (\<lambda>m s.
       map_option (\<lambda>(r, buf, w). (r, buf, s\<lparr>world := w\<rparr>)) (api_read (m_api m) (h_cookie h) p buf offset len (world s))) s"

definition fs_write_file ::
  "'f filehandle \<Rightarrow> bytes \<Rightarrow> u64 \<Rightarrow> u64 \<Rightarrow> (u64, ('c, 'f, 'k, 'w) fs_state) hook"
where
  "fs_write_file h buf offset len s =
     on_mount (h_mount h) (\<lambda>m s.
       case api_write (m_api m) of
         None \<Rightarrow> Some (Inl ERR_NOT_SUPPORTED, s)
       | Some write \<Rightarrow> in_world (write (h_cookie h) buf offset len (world s)) s) s"

definition fs_close_file ::
  "('c, 'f, 'k, 'w) fs_host \<Rightarrow> 'f filehandle \<Rightarrow> (unit, ('c, 'f, 'k, 'w) fs_state) hook"
where
  "fs_close_file host h s =
     on_mount (h_mount h) (\<lambda>m s.
       case api_close (m_api m) (h_cookie h) (world s) of
         None \<Rightarrow> None
       | Some (Inl err, w) \<Rightarrow> Some (Inl err, s\<lparr>world := w\<rparr>)
       | Some (Inr _, w) \<Rightarrow> put_result host (h_mount h) (Inr ()) (s\<lparr>world := w\<rparr>)) s"

definition fs_stat_file :: "'f filehandle \<Rightarrow> (file_stat, ('c, 'f, 'k, 'w) fs_state) hook" where
  "fs_stat_file h s = on_mount (h_mount h) (\<lambda>m s. in_world (api_stat (m_api m) (h_cookie h) (world s)) s) s"

section \<open>Directories\<close>

definition fs_make_dir :: "('c, 'f, 'k, 'w) fs_host \<Rightarrow> bytes \<Rightarrow> (unit, ('c, 'f, 'k, 'w) fs_state) hook" where
  "fs_make_dir host path s =
     with_mount host path (\<lambda>a m newpath s.
       case api_mkdir (m_api m) of
         None \<Rightarrow> put_result host a (Inl ERR_NOT_SUPPORTED) s
       | Some mkdir \<Rightarrow> hook_and_put host a (mkdir (m_cookie m) newpath (world s)) s) s"

definition fs_open_dir ::
  "('c, 'f, 'k, 'w) fs_host \<Rightarrow> bytes \<Rightarrow> ('k dirhandle, ('c, 'f, 'k, 'w) fs_state) hook"
where
  "fs_open_dir host path s =
     with_mount host path (\<lambda>a m newpath s.
       case api_opendir (m_api m) of
         None \<Rightarrow> put_result host a (Inl ERR_NOT_SUPPORTED) s
       | Some opendir \<Rightarrow> new_handle host a (opendir (m_cookie m) newpath (world s)) dirhandle.make s) s"

definition fs_read_dir :: "'k dirhandle \<Rightarrow> (bytes, ('c, 'f, 'k, 'w) fs_state) hook" where
  "fs_read_dir d s =
     on_mount (d_mount d) (\<lambda>m s.
       case api_readdir (m_api m) of
         None \<Rightarrow> Some (Inl ERR_NOT_SUPPORTED, s)
       | Some readdir \<Rightarrow> in_world (readdir (d_cookie d) (world s)) s) s"

definition fs_close_dir ::
  "('c, 'f, 'k, 'w) fs_host \<Rightarrow> 'k dirhandle \<Rightarrow> (unit, ('c, 'f, 'k, 'w) fs_state) hook"
where
  "fs_close_dir host d s =
     on_mount (d_mount d) (\<lambda>m s.
       case api_closedir (m_api m) of
         None \<Rightarrow> Some (Inl ERR_NOT_SUPPORTED, s)
       | Some closedir \<Rightarrow>
           (case closedir (d_cookie d) (world s) of
              None \<Rightarrow> None
            | Some (Inl err, w) \<Rightarrow> Some (Inl err, s\<lparr>world := w\<rparr>)
            | Some (Inr _, w) \<Rightarrow> put_result host (d_mount d) (Inr ()) (s\<lparr>world := w\<rparr>))) s"

text \<open>The mount point of \<open>fs_stat_fs\<close> is not normalised.\<close>

definition fs_stat_fs :: "('c, 'f, 'k, 'w) fs_host \<Rightarrow> bytes \<Rightarrow> (fs_stat, ('c, 'f, 'k, 'w) fs_state) hook" where
  "fs_stat_fs host mountpoint s =
     (case find_mount mountpoint s of
        None \<Rightarrow> None
      | Some (None, s) \<Rightarrow> Some (Inl ERR_NOT_FOUND, s)
      | Some (Some (a, _), s) \<Rightarrow>
          on_mount a (\<lambda>m s.
            case api_fs_stat (m_api m) of
              None \<Rightarrow> put_result host a (Inl ERR_NOT_SUPPORTED) s
            | Some stat \<Rightarrow> hook_and_put host a (stat (m_cookie m) (world s)) s) s)"

text \<open>The results of \<open>fs_stat_file\<close> and \<open>fs_close_file\<close> are not looked at; when the former fails the
  size is what the stack held.\<close>

definition fs_load_file ::
  "('c, 'f, 'k, 'w) fs_host \<Rightarrow> bytes \<Rightarrow> u64 \<Rightarrow> bytes \<Rightarrow> u64 \<Rightarrow> ('c, 'f, 'k, 'w) fs_state \<Rightarrow>
   ((fs_err + u64) \<times> bytes \<times> ('c, 'f, 'k, 'w) fs_state) option"
where
  "fs_load_file host path p buf maxlen s =
     (case fs_open_file host path s of
        None \<Rightarrow> None
      | Some (Inl err, s) \<Rightarrow> Some (Inl err, buf, s)
      | Some (Inr h, s) \<Rightarrow>
          (case fs_stat_file h s of
             None \<Rightarrow> None
           | Some (r, s) \<Rightarrow>
               let size = (case r of Inl _ \<Rightarrow> host_stat host | Inr stat \<Rightarrow> st_size stat)
               in case fs_read_file h p buf 0 (min maxlen size) s of
                    None \<Rightarrow> None
                  | Some (n, buf, s) \<Rightarrow> map_option (\<lambda>(_, s). (n, buf, s)) (fs_close_file host h s)))"

end
