(* ===== verification/Fs_Ext2.thy ===== *)
theory Fs_Ext2
  imports Fs Ext2_Dir Ab_Smd_Storage
begin

text \<open>
  The two file systems as instances of the file system layer: the tables \<open>ext2_api\<close> and \<open>ext4_api\<close> of
  \<open>lib/fs/ext2/ext2.c\<close> and \<open>lib/fs/ext4/ext4.c\<close>. The world below them is the storage stack and the
  volumes in memory; the cookie of a volume is its address, and the use of one that has been unmounted
  is \<open>None\<close>. The cookie of a file is the volume and the inode.
\<close>

record ('d, 'm) fs_world =
  w_ab :: "('d, 'm) ab_state"
  w_vols :: "nat \<Rightarrow> (ext2_t \<times> bcache) option"

abbreviation w_pm :: "('d, 'm) fs_world \<Rightarrow> 'd pm_state" where "w_pm w \<equiv> ab_pm (w_ab w)"
abbreviation w_bd :: "('d, 'm) fs_world \<Rightarrow> 'd bd_state" where "w_bd w \<equiv> bd (w_pm w)"

definition set_pm :: "'d pm_state \<Rightarrow> ('d, 'm) fs_world \<Rightarrow> ('d, 'm) fs_world" where
  "set_pm pm w = w\<lparr>w_ab := (w_ab w)\<lparr>ab_pm := pm\<rparr>\<rparr>"

definition set_bd :: "'d bd_state \<Rightarrow> ('d, 'm) fs_world \<Rightarrow> ('d, 'm) fs_world" where
  "set_bd st w = set_pm ((w_pm w)\<lparr>bd := st\<rparr>) w"

definition set_vol :: "nat \<Rightarrow> ext2_t \<Rightarrow> 'd fs_st \<Rightarrow> ('d, 'm) fs_world \<Rightarrow> ('d, 'm) fs_world" where
  "set_vol c fs s w = (set_bd (snd s) w)\<lparr>w_vols := (w_vols w)(c \<mapsto> (fs, fst s))\<rparr>"

definition world_close :: "nat \<Rightarrow> ('d, 'm) fs_world \<Rightarrow> ('d, 'm) fs_world" where
  "world_close dev w = set_bd (snd (tegrabl_blockdev_close (Some dev) (w_bd w))) w"

text \<open>\<open>fresh\<close> gives the address of a new volume.\<close>

definition volume_mount ::
  "('d bd_state \<Rightarrow> ((fs_err + ext2_t \<times> bcache) \<times> 'd bd_state) option) \<Rightarrow>
   ((nat \<Rightarrow> (ext2_t \<times> bcache) option) \<Rightarrow> nat) \<Rightarrow> (nat, ('d, 'm) fs_world) hook"
where
  "volume_mount mnt fresh w =
     (case mnt (w_bd w) of
        None \<Rightarrow> None
      | Some (Inl e, st) \<Rightarrow> Some (Inl e, set_bd st w)
      | Some (Inr (fs, cache), st) \<Rightarrow>
          let c = fresh (w_vols w) in Some (Inr c, set_vol c fs (cache, st) w))"

definition volume_unmount :: "fs_env \<Rightarrow> nat \<Rightarrow> ('d, 'm) fs_world \<Rightarrow> ('d, 'm) fs_world option" where
  "volume_unmount env c w =
     (case w_vols w c of
        None \<Rightarrow> None
      | Some (fs, cache) \<Rightarrow>
          map_option (\<lambda>_. w\<lparr>w_vols := (w_vols w)(c := None)\<rparr>) (ext2_unmount (fe_dbg env) cache))"

definition volume_open ::
  "(ext2_t \<Rightarrow> 'd fs_st \<Rightarrow> ((fs_err + ext2fs_dinode) \<times> 'd fs_st) option) \<Rightarrow> nat \<Rightarrow>
   (nat \<times> ext2fs_dinode, ('d, 'm) fs_world) hook"
where
  "volume_open opn c w =
     (case w_vols w c of
        None \<Rightarrow> None
      | Some (fs, cache) \<Rightarrow>
          map_option (\<lambda>(r, s). (map_sum id (Pair c) r, set_vol c fs s w)) (opn fs (cache, w_bd w)))"

definition volume_stat :: "nat \<times> ext2fs_dinode \<Rightarrow> (file_stat, ('d, 'm) fs_world) hook" where
  "volume_stat f w =
     map_option (\<lambda>(fs, _). case ext2_stat_file fs (snd f) of (n, dir) \<Rightarrow> (Inr \<lparr>st_is_dir = dir, st_size = n\<rparr>, w))
       (w_vols w (fst f))"

text \<open>The number of bytes read is returned as an \<open>int\<close>.\<close>

definition int_result :: "nat \<Rightarrow> fs_err + u64" where
  "int_result n = (let v = sint (of_nat n :: u32) in if v < 0 then Inl (ERR_CODE v) else Inr (of_int v))"

definition ext2_api_read ::
  "fs_env \<Rightarrow> nat \<times> ext2fs_dinode \<Rightarrow> u64 \<Rightarrow> bytes \<Rightarrow> u64 \<Rightarrow> u64 \<Rightarrow> ('d, 'm) fs_world \<Rightarrow>
   ((fs_err + u64) \<times> bytes \<times> ('d, 'm) fs_world) option"
where
  "ext2_api_read env f p buf offset len w =
     (case w_vols w (fst f) of
        None \<Rightarrow> None
      | Some (fs, cache) \<Rightarrow>
          (case ext2_read_file env fs (snd f) buf offset len (cache, w_bd w) of
             None \<Rightarrow> None
           | Some (Inl e, s) \<Rightarrow> Some (Inl e, buf, set_vol (fst f) fs s w)
           | Some (Inr d, s) \<Rightarrow>
               if length d > length buf then None
               else Some (int_result (length d), overwrite 0 d buf, set_vol (fst f) fs s w)))"

definition ext4_api_read ::
  "fs_env \<Rightarrow> nat \<times> ext2fs_dinode \<Rightarrow> u64 \<Rightarrow> bytes \<Rightarrow> u64 \<Rightarrow> u64 \<Rightarrow> ('d, 'm) fs_world \<Rightarrow>
   ((fs_err + u64) \<times> bytes \<times> ('d, 'm) fs_world) option"
where
  "ext4_api_read env f p buf offset len w =
     (case w_vols w (fst f) of
        None \<Rightarrow> None
      | Some (fs, cache) \<Rightarrow>
          map_option (\<lambda>(r, buf, st). (r, buf, set_bd st w)) (ext4_read_file env fs (snd f) p offset len (buf, w_bd w)))"

definition volume_api ::
  "(nat option \<Rightarrow> u64 \<Rightarrow> (nat, ('d, 'm) fs_world) hook) \<Rightarrow> (nat \<Rightarrow> ('d, 'm) fs_world \<Rightarrow> ('d, 'm) fs_world option) \<Rightarrow>
   (nat \<Rightarrow> bytes \<Rightarrow> (nat \<times> ext2fs_dinode, ('d, 'm) fs_world) hook) \<Rightarrow>
   (nat \<times> ext2fs_dinode \<Rightarrow> u64 \<Rightarrow> bytes \<Rightarrow> u64 \<Rightarrow> u64 \<Rightarrow> ('d, 'm) fs_world \<Rightarrow>
     ((fs_err + u64) \<times> bytes \<times> ('d, 'm) fs_world) option) \<Rightarrow>
   (nat, nat \<times> ext2fs_dinode, unit, ('d, 'm) fs_world) fs_api"
where
  "volume_api mnt unmnt opn rd =
     \<lparr>api_fs_stat = None, api_mount = mnt, api_unmount = unmnt, api_open = opn, api_create = None, api_remove = None,
      api_truncate = None, api_stat = volume_stat, api_read = rd, api_write = None,
      api_close = (\<lambda>f w. Some (Inr (), w)), api_mkdir = None, api_opendir = None, api_readdir = None,
      api_closedir = None, api_file_ioctl = None\<rparr>"

definition ext2_api ::
  "fs_env \<Rightarrow> ((nat \<Rightarrow> (ext2_t \<times> bcache) option) \<Rightarrow> nat) \<Rightarrow> (nat, nat \<times> ext2fs_dinode, unit, ('d, 'm) fs_world) fs_api"
where
  "ext2_api env fresh =
     volume_api (\<lambda>dev sec. volume_mount (ext2_mount env dev sec) fresh) (volume_unmount env)
       (\<lambda>c path. volume_open (\<lambda>fs. ext2_open_file env fs path) c) (ext2_api_read env)"

definition ext4_api ::
  "fs_env \<Rightarrow> ((nat \<Rightarrow> (ext2_t \<times> bcache) option) \<Rightarrow> nat) \<Rightarrow> (nat, nat \<times> ext2fs_dinode, unit, ('d, 'm) fs_world) fs_api"
where
  "ext4_api env fresh =
     volume_api (\<lambda>dev sec. volume_mount (ext4_mount env dev sec) fresh) (volume_unmount env)
       (\<lambda>c path. volume_open (\<lambda>fs. ext4_open_file env fs path) c) (ext4_api_read env)"

end
