(* ===== verification/File_Manager.thy ===== *)
theory File_Manager
  imports Fs_Ext2 "HOL-Library.Monad_Syntax"
begin

text \<open>
  The file manager (\<open>lib/file_manager/tegrabl_file_manager.c\<close>): it publishes the partitions of a
  device, looks for the boot partition (\<open>tegrabl_partition_boot_guid_lookup_bdev\<close> of the partition
  manager), mounts the file system it finds there, and reads a file from it, falling back to a
  partition. \<open>CONFIG_ENABLE_EXTLINUX_BOOT\<close> and \<open>CONFIG_ENABLE_A_B_SLOT\<close> are on.

  The state is that of the file system layer, whose world holds the boot control and storage state. A
  handle is a value; \<open>None\<close> is a fault, as below. The variable \<open>fm_handle\<close>, a copy of the last handle that
  \<open>tegrabl_file_manager_get_handle\<close> returns, is left out: no operation reads it.
\<close>

abbreviation (input) TEGRABL_ERR_OPEN_FAILED :: u32 where "TEGRABL_ERR_OPEN_FAILED \<equiv> 0x11"
abbreviation (input) TEGRABL_ERR_READ_FAILED :: u32 where "TEGRABL_ERR_READ_FAILED \<equiv> 0x19"
abbreviation FM_ERROR :: "u32 \<Rightarrow> u8 \<Rightarrow> tegrabl_error_t" where
  "FM_ERROR reason aux \<equiv> tegrabl_error_value 0x0c aux reason"
abbreviation FM_HIGHEST :: "tegrabl_error_t \<Rightarrow> tegrabl_error_t" where
  "FM_HIGHEST e \<equiv> tegrabl_err_set_highest_module e 0x0c"

record tegrabl_fm_handle =
  fm_bdev :: "nat option"
  fm_fs_type :: "bytes option"
  fm_mount_path :: "bytes option"
  fm_start_sector :: u32

type_synonym ('d, 'm) vfs = "(nat, nat \<times> ext2fs_dinode, unit, ('d, 'm) fs_world) fs_state"
type_synonym ('d, 'm) vfs_host = "(nat, nat \<times> ext2fs_dinode, unit, ('d, 'm) fs_world) fs_host"

section \<open>The boot partition\<close>

text \<open>\<open>strncasecmp\<close> of the C library, compared with zero; \<open>lower\<close> is \<open>tolower\<close>.\<close>

definition lower :: "u8 \<Rightarrow> u8" where
  "lower c = (if 65 \<le> c \<and> c \<le> 90 then c + 32 else c)"

fun same_nocase :: "nat \<Rightarrow> bytes \<Rightarrow> bytes \<Rightarrow> bool" where
  "same_nocase 0 a b = True"
| "same_nocase (Suc n) a b =
     (let x = (case a of [] \<Rightarrow> 0 | c # _ \<Rightarrow> c); y = (case b of [] \<Rightarrow> 0 | c # _ \<Rightarrow> c)
      in lower x = lower y \<and> (x = 0 \<or> same_nocase n (tl a) (tl b)))"

text \<open>The loop over the storages: the partition found, with the device of its storage, or the
  partitions of the last storage looked at.\<close>

fun find_boot ::
  "bytes \<Rightarrow> nat \<Rightarrow> tegrabl_partition_info list option \<Rightarrow> tegrabl_storage_info list \<Rightarrow>
   (tegrabl_partition_info \<times> nat) + tegrabl_partition_info list option"
where
  "find_boot guid dev prev [] = Inr prev"
| "find_boot guid dev prev (entry # entries) =
     (if si_bdev entry \<noteq> dev then find_boot guid dev prev entries
      else
        (case find (\<lambda>p. same_nocase 36 (part_ptype_guid p) guid) (si_partitions entry) of
           Some info \<Rightarrow> Inl (info, si_bdev entry)
         | None \<Rightarrow> find_boot guid dev (Some (si_partitions entry)) entries))"

text \<open>When no partition type matches, the first partition of the device is taken unless the root file
  systems have A/B copies; its block device is then read from past the end of the list (\<open>stale\<close>).\<close>

definition tegrabl_partition_boot_guid_lookup_bdev ::
  "'m soc_ops \<Rightarrow> alloc_env \<Rightarrow> nat option \<Rightarrow> bytes \<Rightarrow> tegrabl_partition option \<Rightarrow> nat option \<Rightarrow> ('d, 'm) ab_state \<Rightarrow>
   ((tegrabl_error_t \<times> tegrabl_partition option) \<times> ('d, 'm) ab_state) option"
where
  "tegrabl_partition_boot_guid_lookup_bdev soc alloc stale guid part bdev st =
     (case (part, bdev) of
        (Some _, Some dev) \<Rightarrow>
          (case storage_list (ab_pm st) of
             None \<Rightarrow> None
           | Some entries \<Rightarrow>
               (case find_boot guid dev None entries of
                  Inl r \<Rightarrow> Some ((TEGRABL_NO_ERROR, Some (opened_partition r)), st)
                | Inr None \<Rightarrow> Some ((PM_ERROR TEGRABL_ERR_NOT_FOUND 24, Some null_partition), st)
                | Inr (Some infos) \<Rightarrow> do {
                    ((error, rid), st) \<leftarrow> tegrabl_a_b_get_current_rootfs_id soc alloc None True st;
                    if error = TEGRABL_NO_ERROR then
                      if rid = Some ROOTFS_A then
                        Some (tegrabl_partition_lookup_bdev (Some (c_lit ''APP'')) part bdev (ab_pm st), st)
                      else if rid = Some ROOTFS_B then
                        Some (tegrabl_partition_lookup_bdev (Some (c_lit ''APP_b'')) part bdev (ab_pm st), st)
                      else Some ((PM_ERROR TEGRABL_ERR_INVALID 0, part), st)
                    else
                      (case infos of
                         [] \<Rightarrow> None
                       | info # _ \<Rightarrow>
                           Some ((TEGRABL_NO_ERROR,
                             Some \<lparr>partition_info = Some info, block_device = stale, part_offset = 0\<rparr>), st))
                  }))
      | _ \<Rightarrow> Some ((PM_ERROR TEGRABL_ERR_INVALID 21, part), st))"

section \<open>Publishing\<close>

definition get_prefix :: "u32 \<Rightarrow> bytes option" where
  "get_prefix dev_id =
     (let bdev_id = drop_bit 16 dev_id AND 0xFFFF
      in if bdev_id = 5 then Some (c_lit ''/usb'')
         else if bdev_id = 6 then Some (c_lit ''/sd'')
         else if bdev_id = 1 then Some (c_lit ''/sdmmc_user'')
         else if bdev_id = 0 then Some (c_lit ''/sdmmc_boot'')
         else if bdev_id = 10 then Some (c_lit ''/nvme'')
         else None)"

text \<open>What the file manager takes from its surroundings: boot control registers and allocators, whether the
  handle can be allocated, the GUID of the boot partition type, the address of the superblock on the
  stack.\<close>

record ('d, 'm) fm_env =
  fm_soc :: "'m soc_ops"
  fm_alloc :: alloc_env
  fm_malloc :: bool
  fm_parts :: bool
  fm_info :: bool
  fm_guid :: bytes
  fm_sb :: u64
  fm_stale :: "nat option"
  fm_host :: "('d, 'm) vfs_host"

text \<open>Detecting and mounting the file system at a sector; the result is the handle. A success leaves
  \<open>err\<close> as it was.\<close>

definition fm_detect_mount ::
  "('d, 'm) fm_env \<Rightarrow> nat \<Rightarrow> u32 \<Rightarrow> tegrabl_error_t \<Rightarrow> tegrabl_fm_handle \<Rightarrow> ('d, 'm) vfs \<Rightarrow>
   ((tegrabl_error_t \<times> tegrabl_fm_handle) \<times> ('d, 'm) vfs) option"
where
  "fm_detect_mount fm bdev sector err h s = do {
     (fs_type, st) \<leftarrow> fs_detect (fm_alloc fm) (fm_sb fm) bdev (ucast sector) (w_bd (world s));
     let s = s\<lparr>world := set_bd st (world s)\<rparr>;
     case fs_type of
       None \<Rightarrow> Some ((FM_ERROR TEGRABL_ERR_INVALID 0, h), s)
     | Some t \<Rightarrow> do {
         d \<leftarrow> dev_heap st bdev;
         case get_prefix (device_id d) of
           None \<Rightarrow> Some ((FM_ERROR TEGRABL_ERR_INVALID 1, h), s)
         | Some pref \<Rightarrow> do {
             (status, s) \<leftarrow> fs_mount (fm_host fm) pref t (Some bdev) (ucast sector) s;
             case status of
               Inl _ \<Rightarrow> Some ((FM_ERROR TEGRABL_ERR_INVALID 2, h), s)
             | Inr _ \<Rightarrow>
                 Some ((err,
                   h\<lparr>fm_fs_type := Some t, fm_start_sector := sector, fm_mount_path := Some pref\<rparr>), s)
           }
       }
   }"

definition tegrabl_fm_publish ::
  "('d, 'm) fm_env \<Rightarrow> nat \<Rightarrow> ('d, 'm) vfs \<Rightarrow> ((tegrabl_error_t \<times> tegrabl_fm_handle option) \<times> ('d, 'm) vfs) option"
where
  "tegrabl_fm_publish fm bdev s =
     (if \<not> fm_malloc fm then Some ((FM_ERROR TEGRABL_ERR_NO_MEMORY 0, None), s)
      else
        let h = \<lparr>fm_bdev = Some bdev, fm_fs_type = None, fm_mount_path = None, fm_start_sector = 0\<rparr>
        in case tegrabl_partition_publish (fm_alloc fm) (fm_parts fm) (fm_info fm) (Some bdev) 0 (w_pm (world s)) of
             (err, pm) \<Rightarrow>
               let s = s\<lparr>world := set_pm pm (world s)\<rparr>
               in if err \<noteq> TEGRABL_NO_ERROR
                  then map_option (\<lambda>((err, h), s). ((err, Some h), s)) (fm_detect_mount fm bdev 0 err h s)
                  else do {
                    ((err, part), ab) \<leftarrow> tegrabl_partition_boot_guid_lookup_bdev (fm_soc fm) (fm_alloc fm) (fm_stale fm)
                       (fm_guid fm) (Some null_partition) (Some bdev) (w_ab (world s));
                    let s = s\<lparr>world := (world s)\<lparr>w_ab := ab\<rparr>\<rparr>;
                    if err \<noteq> TEGRABL_NO_ERROR then Some ((err, Some h), s)
                    else do {
                      info \<leftarrow> Option.bind part partition_info;
                      map_option (\<lambda>((err, h), s). ((err, Some h), s))
                        (fm_detect_mount fm bdev (ucast (start_sector info)) err h s)
                    }
                  })"

section \<open>Reading\<close>

text \<open>\<open>load_address\<close> and the contents of the memory there; \<open>max_size\<close> is what \<open>*max_size\<close> holds, \<open>None\<close> for a NULL
  pointer. The max_size of a partition is cut to 32 bits.\<close>

definition tegrabl_fm_read_partition ::
  "alloc_env \<Rightarrow> nat option \<Rightarrow> bytes option \<Rightarrow> u64 \<Rightarrow> bytes \<Rightarrow> u32 option \<Rightarrow> 'd pm_state \<Rightarrow>
   ((tegrabl_error_t \<times> bytes \<times> u32 option) \<times> 'd pm_state) option"
where
  "tegrabl_fm_read_partition alloc bdev name addr mem max_size pm =
     (if bdev = None \<or> name = None \<or> addr = 0 then Some ((FM_ERROR TEGRABL_ERR_INVALID 3, mem, max_size), pm)
      else
        (case tegrabl_partition_lookup_bdev name (Some null_partition) bdev pm of
           (err, part) \<Rightarrow>
             if err \<noteq> TEGRABL_NO_ERROR then Some ((FM_HIGHEST err, mem, max_size), pm)
             else
               let n = ucast (tegrabl_partition_size part) :: u32
               in if n = 0 then Some ((FM_ERROR TEGRABL_ERR_INVALID 4, mem, max_size), pm)
                  else if (case max_size of None \<Rightarrow> False | Some m \<Rightarrow> m < n)
                    then Some ((FM_ERROR TEGRABL_ERR_OVERFLOW 1, mem, max_size), pm)
                  else
                    (case tegrabl_partition_read alloc (the part) addr (ucast n) pm of
                       (((err, d), _), pm) \<Rightarrow>
                         if length d > length mem then None
                         else
                           let mem = overwrite 0 d mem
                           in if err \<noteq> TEGRABL_NO_ERROR then Some ((FM_HIGHEST err, mem, max_size), pm)
                              else Some ((TEGRABL_NO_ERROR, mem, map_option (\<lambda>_. n) max_size), pm))))"

text \<open>Reading from the file system. \<open>Inl err\<close>: go on with the partition; an open file is closed at
  the end of the whole operation, so it is returned.\<close>

definition fm_read_fs ::
  "('d, 'm) fm_env \<Rightarrow> bytes \<Rightarrow> u64 \<Rightarrow> bytes \<Rightarrow> u32 \<Rightarrow> ('d, 'm) vfs \<Rightarrow>
   ((tegrabl_error_t + u32) \<times> (nat \<times> ext2fs_dinode) filehandle option \<times> bytes \<times> ('d, 'm) vfs) option"
where
  "fm_read_fs fm path addr mem max_size s = do {
     (status, s) \<leftarrow> fs_open_file (fm_host fm) path s;
     case status of
       Inl _ \<Rightarrow> Some (Inl (FM_ERROR TEGRABL_ERR_OPEN_FAILED 0), None, mem, s)
     | Inr fh \<Rightarrow> do {
         (status, s) \<leftarrow> fs_stat_file fh s;
         case status of
           Inl _ \<Rightarrow> Some (Inl (FM_ERROR TEGRABL_ERR_OPEN_FAILED 1), Some fh, mem, s)
         | Inr stat \<Rightarrow>
             if ucast max_size < st_size stat then Some (Inl (FM_ERROR TEGRABL_ERR_OVERFLOW 0), Some fh, mem, s)
             else do {
               (status, mem, s) \<leftarrow> fs_read_file fh addr mem 0 (st_size stat) s;
               if (case status of Inl _ \<Rightarrow> True | Inr n \<Rightarrow> sint (ucast n :: u32) < 0)
               then Some (Inl (FM_ERROR TEGRABL_ERR_READ_FAILED 1), Some fh, mem, s)
               else Some (Inr (ucast (st_size stat)), Some fh, mem, s)
             }
       }
   }"

definition fm_close_fh ::
  "('d, 'm) fm_env \<Rightarrow> (nat \<times> ext2fs_dinode) filehandle option \<Rightarrow> ('d, 'm) vfs \<Rightarrow> ('d, 'm) vfs option"
where
  "fm_close_fh fm fh s = (case fh of None \<Rightarrow> Some s | Some h \<Rightarrow> map_option snd (fs_close_file (fm_host fm) h s))"

text \<open>The last result says whether the file came from the file system.\<close>

definition tegrabl_fm_read ::
  "('d, 'm) fm_env \<Rightarrow> tegrabl_fm_handle option \<Rightarrow> bytes option \<Rightarrow> bytes option \<Rightarrow> u64 \<Rightarrow> bytes \<Rightarrow> u32 \<Rightarrow> ('d, 'm) vfs \<Rightarrow>
   ((tegrabl_error_t \<times> bytes \<times> u32 \<times> bool) \<times> ('d, 'm) vfs) option"
where
  "tegrabl_fm_read fm handle file_path partition_name addr mem max_size s =
     (case handle of
        None \<Rightarrow> Some ((FM_ERROR TEGRABL_ERR_INVALID 3, mem, max_size, False), s)
      | Some h \<Rightarrow> do {
          (r, fh, mem, s) \<leftarrow>
            (case (file_path, fm_mount_path h) of
               (Some file, Some mnt) \<Rightarrow>
                 if length mnt + length file \<ge> 200 then Some (Inl (FM_ERROR TEGRABL_ERR_OVERFLOW 2), None, mem, s)
                 else fm_read_fs fm (mnt @ file) addr mem max_size s
             | _ \<Rightarrow> Some (Inl TEGRABL_NO_ERROR, None, mem, s));
          case r of
            Inr n \<Rightarrow> map_option (\<lambda>s. ((TEGRABL_NO_ERROR, mem, n, True), s)) (fm_close_fh fm fh s)
          | Inl err \<Rightarrow>
              (case partition_name of
                 None \<Rightarrow> map_option (\<lambda>s. ((err, mem, max_size, False), s)) (fm_close_fh fm fh s)
               | Some name \<Rightarrow> do {
                   ((err, mem, n), pm) \<leftarrow> tegrabl_fm_read_partition (fm_alloc fm) (fm_bdev h) (Some name) addr mem (Some max_size)
                     (w_pm (world s));
                   let s = s\<lparr>world := set_pm pm (world s)\<rparr>;
                   map_option (\<lambda>s. ((err, mem, the n, False), s)) (fm_close_fh fm fh s)
                 })
        })"

definition tegrabl_fm_close ::
  "('d, 'm) fm_env \<Rightarrow> tegrabl_fm_handle option \<Rightarrow> ('d, 'm) vfs \<Rightarrow> ('d, 'm) vfs option"
where
  "tegrabl_fm_close fm handle s =
     (case Option.bind handle fm_mount_path of
        None \<Rightarrow> Some s
      | Some path \<Rightarrow> map_option snd (fs_unmount (fm_host fm) path s))"

end
