(* ===== verification/Fs_Correct.thy ===== *)
theory Fs_Correct
  imports Fs "HOL-Library.Multiset"
begin

text \<open>
  The mount table of the file system layer: its invariant, in terms of which mounts are in force and
  which of them open files and directories refer to, and what each operation does to it.
\<close>

section \<open>The invariant\<close>

definition host_ok :: "('c, 'f, 'k, 'w) fs_host \<Rightarrow> bool" where
  "host_ok host \<longleftrightarrow> (\<forall>h a. host_malloc host h = Some a \<longrightarrow> h a = None) \<and> host_strdup host \<and> host_handle host"

text \<open>\<open>L\<close> are the mounts that have not been unmounted, \<open>Q\<close> the mounts of the open handles. A mount is
  in the table exactly as long as it is in one of them, and its reference count is the number of uses.\<close>

definition uses :: "nat set \<Rightarrow> nat multiset \<Rightarrow> nat \<Rightarrow> int" where
  "uses L Q a = (if a \<in> L then 1 else 0) + int (count Q a)"

definition table_ok :: "nat set \<Rightarrow> nat multiset \<Rightarrow> ('c, 'f, 'k, 'w) fs_state \<Rightarrow> bool" where
  "table_ok L Q s \<longleftrightarrow>
     distinct (mounts s) \<and> (\<forall>a. a \<in> set (mounts s) \<longleftrightarrow> 0 < uses L Q a) \<and>
     dom (mount_heap s) = set (mounts s) \<and>
     (\<forall>a m. mount_heap s a = Some m \<longrightarrow> m_ref m = uses L Q a \<and> m_path m \<noteq> None)"

lemma uses_nonneg: "0 \<le> uses L Q a"
  by (simp add: uses_def)

lemma uses_simps [simp]:
  "uses L (add_mset b Q) a = uses L Q a + (if a = b then 1 else 0)"
  "b \<notin> L \<Longrightarrow> uses (insert b L) Q a = uses L Q a + (if a = b then 1 else 0)"
  "b \<in> L \<Longrightarrow> uses (L - {b}) Q a = uses L Q a - (if a = b then 1 else 0)"
  by (auto simp: uses_def)

lemma uses_remove: "b \<in># Q \<Longrightarrow> uses L (Q - {#b#}) a = uses L Q a - (if a = b then 1 else 0)"
  by (auto simp: uses_def of_nat_diff Suc_le_eq)

lemma table_world [simp]: "table_ok L Q (s\<lparr>world := w\<rparr>) = table_ok L Q s"
  by (simp add: table_ok_def)

lemma table_okD:
  assumes "table_ok L Q s"
  shows "distinct (mounts s)" "a \<in> set (mounts s) \<longleftrightarrow> 0 < uses L Q a" "dom (mount_heap s) = set (mounts s)"
    "mount_heap s a = Some m \<Longrightarrow> m_ref m = uses L Q a" "mount_heap s a = Some m \<Longrightarrow> m_path m \<noteq> None"
  using assms by (simp_all add: table_ok_def)

lemma table_okI:
  "distinct (mounts s) \<Longrightarrow> (\<And>a. a \<in> set (mounts s) \<longleftrightarrow> 0 < uses L Q a) \<Longrightarrow> dom (mount_heap s) = set (mounts s) \<Longrightarrow>
   (\<And>a m. mount_heap s a = Some m \<Longrightarrow> m_ref m = uses L Q a \<and> m_path m \<noteq> None) \<Longrightarrow> table_ok L Q s"
  by (simp add: table_ok_def)

lemma table_heap:
  assumes "table_ok L Q s" "a \<in> set (mounts s)"
  obtains m p where "mount_heap s a = Some m" "m_ref m = uses L Q a" "m_path m = Some p" "0 < uses L Q a"
proof -
  have "a \<in> dom (mount_heap s)" "0 < uses L Q a" using table_okD(2,3) [OF assms(1)] assms(2) by simp_all
  then obtain m where m: "mount_heap s a = Some m" "0 < uses L Q a" by blast
  obtain p where "m_path m = Some p" using table_okD(5) [OF assms(1) m(1)] by blast
  then show thesis using that m table_okD(4) [OF assms(1) m(1)] by blast
qed

section \<open>Finding and releasing\<close>

lemma find_prefix_some:
  assumes "\<forall>a \<in> set as. \<exists>m. heap a = Some m \<and> m_path m \<noteq> None"
  obtains "find_prefix heap path as = Some None" | a n where "a \<in> set as" "find_prefix heap path as = Some (Some (a, n))"
proof -
  have "find_prefix heap path as = Some None \<or> (\<exists>a n. a \<in> set as \<and> find_prefix heap path as = Some (Some (a, n)))"
    using assms by (induction as) (auto split: option.splits)
  then show thesis using that by blast
qed

lemma find_mount_cases:
  assumes t: "table_ok L Q s"
  obtains (none) "find_prefix (mount_heap s) path (mounts s) = Some None" "find_mount path s = Some (None, s)"
  | (found) a n m where "find_prefix (mount_heap s) path (mounts s) = Some (Some (a, n))" "a \<in> set (mounts s)"
      "mount_heap s a = Some m" "m_ref m = uses L Q a" "0 < uses L Q a"
      "find_mount path s = Some (Some (a, n), upd_mnt a (Some (m\<lparr>m_ref := m_ref m + 1\<rparr>)) s)"
proof -
  have "\<forall>a \<in> set (mounts s). \<exists>m. mount_heap s a = Some m \<and> m_path m \<noteq> None"
    using table_heap [OF t] by (metis option.distinct(1))
  then show thesis
  proof (rule find_prefix_some [where path = path])
    assume "find_prefix (mount_heap s) path (mounts s) = Some None"
    then show thesis using none by (simp add: find_mount_def)
  next
    fix a n
    assume a: "a \<in> set (mounts s)" "find_prefix (mount_heap s) path (mounts s) = Some (Some (a, n))"
    obtain m p where m: "mount_heap s a = Some m" "m_ref m = uses L Q a" "m_path m = Some p" "0 < uses L Q a"
      by (rule table_heap [OF t a(1)])
    show thesis by (rule found [OF a(2,1) m(1,2,4)]) (simp add: find_mount_def a(2) m(1))
  qed
qed

text \<open>Releasing a reference just taken restores the table.\<close>

lemma upd_upd [simp]: "upd_mnt a m (upd_mnt a m' s) = upd_mnt a m s"
  by (simp add: upd_mnt_def)

lemma upd_fields [simp]:
  "mount_heap (upd_mnt a m s) = (mount_heap s)(a := m)" "mounts (upd_mnt a m s) = mounts s" "world (upd_mnt a m s) = world s"
  "upd_mnt a m (s\<lparr>world := w\<rparr>) = (upd_mnt a m s)\<lparr>world := w\<rparr>"
  by (simp_all add: upd_mnt_def)

lemma upd_same: "mount_heap s a = Some m \<Longrightarrow> upd_mnt a (Some m) s = s"
  by (simp add: upd_mnt_def fun_upd_idem)

lemma put_taken:
  assumes "mount_heap s a = Some m" "0 < m_ref m"
  shows "put_mount host a ((upd_mnt a (Some (m\<lparr>m_ref := m_ref m + 1\<rparr>)) s)\<lparr>world := w\<rparr>) = Some (s\<lparr>world := w\<rparr>)"
    "put_mount host a (upd_mnt a (Some (m\<lparr>m_ref := m_ref m + 1\<rparr>)) s) = Some s"
  using assms upd_same [OF assms(1)]
  by (auto simp: put_mount_def Let_def)

text \<open>Releasing a reference: the table with one use less; the last release unmounts.\<close>

definition put_result_world ::
  "('c, 'f, 'k, 'w) fs_host \<Rightarrow> ('c, 'f, 'k, 'w) fs_mnt \<Rightarrow> 'w \<Rightarrow> 'w option"
where
  "put_result_world host m w =
     map_option (\<lambda>w. case m_dev m of None \<Rightarrow> w | Some dev \<Rightarrow> host_close host dev w) (api_unmount (m_api m) (m_cookie m) w)"

lemma put_mount_cases:
  assumes "put_mount host a s = Some s'" "mount_heap s a = Some m"
  obtains "m_ref m \<noteq> 1" "s' = upd_mnt a (Some (m\<lparr>m_ref := m_ref m - 1\<rparr>)) s"
  | w where "m_ref m = 1" "put_result_world host m (world s) = Some w"
      "s' = s\<lparr>mounts := remove1 a (mounts s), mount_heap := (mount_heap s)(a := None), world := w\<rparr>"
  using assms by (auto simp: put_mount_def Let_def put_result_world_def split: if_splits option.splits)

lemma table_release:
  assumes t: "table_ok L Q s" and p: "put_mount host a s = Some s'" and a: "a \<in> set (mounts s)"
    and u: "\<And>b. uses L' Q' b = uses L Q b - (if b = a then 1 else 0)"
  shows "table_ok L' Q' s'"
proof -
  obtain m q where m: "mount_heap s a = Some m" "m_ref m = uses L Q a" "m_path m = Some q" "0 < uses L Q a"
    by (rule table_heap [OF t a])
  note d = table_okD [OF t]
  show ?thesis
  proof (rule put_mount_cases [OF p m(1)])
    assume r: "m_ref m \<noteq> 1" "s' = upd_mnt a (Some (m\<lparr>m_ref := m_ref m - 1\<rparr>)) s"
    show ?thesis
    proof (rule table_okI)
      show "distinct (mounts s')" "dom (mount_heap s') = set (mounts s')" using d(1,3) r(2) a by auto
      show "b \<in> set (mounts s') \<longleftrightarrow> 0 < uses L' Q' b" for b
        using d(2) [of b] r m(2,4) a by (cases "b = a") (simp_all add: u)
      show "m_ref n = uses L' Q' b \<and> m_path n \<noteq> None" if "mount_heap s' b = Some n" for b n
        using d(4,5) [of b n] that r(2) m by (cases "b = a") (auto simp: u)
    qed
  next
    fix w
    assume r: "m_ref m = 1" "s' = s\<lparr>mounts := remove1 a (mounts s), mount_heap := (mount_heap s)(a := None), world := w\<rparr>"
    show ?thesis
    proof (rule table_okI)
      show "distinct (mounts s')" "dom (mount_heap s') = set (mounts s')" using d(1,3) r(2) by auto
      show "b \<in> set (mounts s') \<longleftrightarrow> 0 < uses L' Q' b" for b
        using d(1) d(2) [of b] r m(2) by (cases "b = a") (simp_all add: u)
      show "m_ref n = uses L' Q' b \<and> m_path n \<noteq> None" if "mount_heap s' b = Some n" for b n
        using d(4,5) [of b n] that r(2) by (cases "b = a") (simp_all add: u)
    qed
  qed
qed

lemma table_take:
  assumes t: "table_ok L Q s" and m: "mount_heap s a = Some m"
  shows "table_ok L (add_mset a Q) (upd_mnt a (Some (m\<lparr>m_ref := m_ref m + 1\<rparr>)) s)"
proof (rule table_okI)
  note d = table_okD [OF t]
  have a: "a \<in> set (mounts s)" using d(3) m by blast
  let ?s = "upd_mnt a (Some (m\<lparr>m_ref := m_ref m + 1\<rparr>)) s"
  show "distinct (mounts ?s)" "dom (mount_heap ?s) = set (mounts ?s)" using d(1,3) a by auto
  show "b \<in> set (mounts ?s) \<longleftrightarrow> 0 < uses L (add_mset a Q) b" for b
    using d(2) [of b] a uses_nonneg [of L Q a] by (cases "b = a") simp_all
  show "m_ref n = uses L (add_mset a Q) b \<and> m_path n \<noteq> None" if "mount_heap ?s b = Some n" for b n
    using d(4,5) [of b n] d(4,5) [OF m] that by (cases "b = a") auto
qed

section \<open>Operations on the table\<close>

abbreviation taken :: "nat \<Rightarrow> ('c, 'f, 'k, 'w) fs_mnt \<Rightarrow> ('c, 'f, 'k, 'w) fs_state \<Rightarrow> ('c, 'f, 'k, 'w) fs_state" where
  "taken a m s \<equiv> upd_mnt a (Some (m\<lparr>m_ref := m_ref m + 1\<rparr>)) s"

lemma with_mount_cases:
  assumes t: "table_ok L Q s" and r: "with_mount host path op s = Some (r, s')"
  obtains (none) "r = Inl ERR_NOT_FOUND" "s' = s"
  | (found) tp a n m where "temp_path host path = Some tp" "find_prefix (mount_heap s) tp (mounts s) = Some (Some (a, n))"
      "a \<in> set (mounts s)" "mount_heap s a = Some m" "0 < m_ref m"
      "op a (m\<lparr>m_ref := m_ref m + 1\<rparr>) n (taken a m s) = Some (r, s')"
proof -
  obtain tp where tp: "temp_path host path = Some tp" using r by (auto simp: with_mount_def split: option.splits)
  show thesis
  proof (rule find_mount_cases [OF t, where path = tp])
    assume "find_mount tp s = Some (None, s)"
    then show thesis using none r tp by (simp add: with_mount_def)
  next
    fix a n m
    assume f: "find_prefix (mount_heap s) tp (mounts s) = Some (Some (a, n))" "a \<in> set (mounts s)"
      "mount_heap s a = Some m" "m_ref m = uses L Q a" "0 < uses L Q a" "find_mount tp s = Some (Some (a, n), taken a m s)"
    show thesis by (rule found [OF tp f(1,2,3)]) (use f r tp in \<open>simp_all add: with_mount_def\<close>)
  qed
qed

lemma put_result_taken:
  "mount_heap s a = Some m \<Longrightarrow> 0 < m_ref m \<Longrightarrow> put_result host a r (taken a m s) = Some (r, s)"
  by (simp add: put_result_def put_taken)

lemma hook_and_put_taken:
  "mount_heap s a = Some m \<Longrightarrow> 0 < m_ref m \<Longrightarrow> hook_and_put host a (Some (r, w)) (taken a m s) = Some (r, s\<lparr>world := w\<rparr>)"
  by (simp add: hook_and_put_def put_result_def put_taken)

lemma new_handle_taken:
  assumes m: "mount_heap s a = Some m" "0 < m_ref m" and n: "new_handle host a x mk (taken a m s) = Some (r, s')"
    and h: "host_handle host"
  obtains (failed) e w where "r = Inl e" "s' = s\<lparr>world := w\<rparr>"
  | (opened) c w where "r = Inr (mk c a)" "s' = (taken a m s)\<lparr>world := w\<rparr>"
proof (cases x)
  case (Some y)
  obtain q w where y: "y = (q, w)" by (cases y)
  show thesis
  proof (cases q)
    case (Inl e)
    then have "r = Inl e" "s' = s\<lparr>world := w\<rparr>" using n Some y put_taken(1) [OF m, of host w] by (simp_all add: new_handle_def put_result_def)
    then show thesis by (rule failed)
  next
    case (Inr c)
    then have "r = Inr (mk c a)" "s' = (taken a m s)\<lparr>world := w\<rparr>" using n Some y h by (simp_all add: new_handle_def)
    then show thesis by (rule opened)
  qed
qed (use n in \<open>simp add: new_handle_def\<close>)

text \<open>Opening a file or a directory adds one use of its mount, or none when it fails.\<close>

lemma opened_ok:
  assumes t: "table_ok L Q s" and h: "host_handle host"
    and r: "with_mount host path (\<lambda>a m n s. case hook m of
        None \<Rightarrow> put_result host a (Inl ERR_NOT_SUPPORTED) s
      | Some f \<Rightarrow> new_handle host a (f (m_cookie m) n (world s)) mk s) s = Some (r, s')"
  shows "(\<forall>e. r = Inl e \<longrightarrow> table_ok L Q s') \<and> (\<forall>d. r = Inr d \<longrightarrow> (\<exists>c a. d = mk c a \<and> table_ok L (add_mset a Q) s'))"
  using t r
proof (cases rule: with_mount_cases)
  case none
  then show ?thesis using t by simp
next
  case (found tp a n m)
  let ?m = "m\<lparr>m_ref := m_ref m + 1\<rparr>"
  show ?thesis
  proof (cases "hook ?m")
    case None
    then show ?thesis using found(6) t by (auto simp: put_result_taken [OF found(4,5)])
  next
    case (Some f)
    then have "new_handle host a (f (m_cookie ?m) n (world (taken a m s))) mk (taken a m s) = Some (r, s')"
      using found(6) by simp
    from new_handle_taken [OF found(4,5) this h] show ?thesis
    proof cases
      case 1 then show ?thesis using t by simp
    next
      case 2 then show ?thesis using table_take [OF t found(4)] by auto
    qed
  qed
qed

lemma fs_open_file_ok:
  assumes "table_ok L Q s" "host_handle host" "fs_open_file host path s = Some (r, s')"
  shows "\<And>e. r = Inl e \<Longrightarrow> table_ok L Q s'" "\<And>h. r = Inr h \<Longrightarrow> table_ok L (add_mset (h_mount h) Q) s'"
  using opened_ok [OF assms(1,2), where path = path and hook = "\<lambda>m. Some (api_open (m_api m))" and mk = filehandle.make and r = r and s' = s'] assms(3)
  by (auto simp: fs_open_file_def filehandle.make_def)

lemma fs_create_file_ok:
  assumes "table_ok L Q s" "host_handle host" "fs_create_file host path len s = Some (r, s')"
  shows "\<And>e. r = Inl e \<Longrightarrow> table_ok L Q s'" "\<And>h. r = Inr h \<Longrightarrow> table_ok L (add_mset (h_mount h) Q) s'"
proof -
  have "with_mount host path (\<lambda>a m n s. case map_option (\<lambda>f c n. f c n len) (api_create (m_api m)) of
        None \<Rightarrow> put_result host a (Inl ERR_NOT_SUPPORTED) s
      | Some f \<Rightarrow> new_handle host a (f (m_cookie m) n (world s)) filehandle.make s) s = Some (r, s')"
    using assms(3) unfolding fs_create_file_def
    by (rule back_subst [where P = "\<lambda>op. with_mount host path op s = Some (r, s')"]) (intro ext, simp split: option.split)
  from opened_ok [OF assms(1,2) this]
  show "\<And>e. r = Inl e \<Longrightarrow> table_ok L Q s'" "\<And>h. r = Inr h \<Longrightarrow> table_ok L (add_mset (h_mount h) Q) s'"
    by (auto simp: filehandle.make_def)
qed

lemma fs_open_dir_ok:
  assumes "table_ok L Q s" "host_handle host" "fs_open_dir host path s = Some (r, s')"
  shows "\<And>e. r = Inl e \<Longrightarrow> table_ok L Q s'" "\<And>d. r = Inr d \<Longrightarrow> table_ok L (add_mset (d_mount d) Q) s'"
  using opened_ok [OF assms(1,2), where path = path and hook = "\<lambda>m. api_opendir (m_api m)" and mk = dirhandle.make and r = r and s' = s'] assms(3)
  by (auto simp: fs_open_dir_def dirhandle.make_def)

text \<open>Operations that give their reference back leave the table alone.\<close>

lemma balanced_ok:
  assumes t: "table_ok L Q s"
    and r: "with_mount host path (\<lambda>a m n s. case hook m of
        None \<Rightarrow> put_result host a (Inl ERR_NOT_SUPPORTED) s
      | Some f \<Rightarrow> hook_and_put host a (f (m_cookie m) n (world s)) s) s = Some (r, s')"
  shows "table_ok L Q s'"
  using t r
proof (cases rule: with_mount_cases)
  case none
  then show ?thesis using t by simp
next
  case (found tp a n m)
  let ?m = "m\<lparr>m_ref := m_ref m + 1\<rparr>"
  show ?thesis
  proof (cases "hook ?m")
    case None
    then show ?thesis using found(6) t by (auto simp: put_result_taken [OF found(4,5)])
  next
    case (Some f)
    then obtain q w where "f (m_cookie ?m) n (world (taken a m s)) = Some (q, w)"
      using found(6) by (auto simp: hook_and_put_def split: option.splits)
    then show ?thesis using found(6) Some hook_and_put_taken [OF found(4,5), of host q w] t by auto
  qed
qed

lemma fs_remove_file_ok: "table_ok L Q s \<Longrightarrow> fs_remove_file host path s = Some (r, s') \<Longrightarrow> table_ok L Q s'"
  using balanced_ok [where L = L and Q = Q and s = s and host = host and path = path and hook = "\<lambda>m. api_remove (m_api m)" and r = r and s' = s'] by (simp add: fs_remove_file_def)

lemma fs_make_dir_ok: "table_ok L Q s \<Longrightarrow> fs_make_dir host path s = Some (r, s') \<Longrightarrow> table_ok L Q s'"
  using balanced_ok [where L = L and Q = Q and s = s and host = host and path = path and hook = "\<lambda>m. api_mkdir (m_api m)" and r = r and s' = s'] by (simp add: fs_make_dir_def)

lemma fs_stat_fs_ok:
  assumes t: "table_ok L Q s" and r: "fs_stat_fs host path s = Some (r, s')"
  shows "table_ok L Q s'"
proof (rule find_mount_cases [OF t, where path = path])
  assume "find_mount path s = Some (None, s)"
  then show ?thesis using r t by (simp add: fs_stat_fs_def)
next
  fix a n m
  assume f: "mount_heap s a = Some m" "m_ref m = uses L Q a" "0 < uses L Q a" "find_mount path s = Some (Some (a, n), taken a m s)"
  then have pos: "0 < m_ref m" by simp
  show ?thesis
  proof (cases "api_fs_stat (m_api m)")
    case None
    then show ?thesis using r f(1,4) t by (auto simp: fs_stat_fs_def on_mount_def put_result_taken [OF f(1) pos])
  next
    case (Some g)
    then obtain q w where "g (m_cookie m) (world s) = Some (q, w)"
      using r f(1,4) by (auto simp: fs_stat_fs_def on_mount_def hook_and_put_def split: option.splits)
    then show ?thesis
      using r f(1,4) Some t by (auto simp: fs_stat_fs_def on_mount_def hook_and_put_taken [OF f(1) pos])
  qed
qed

text \<open>Operations on a handle that keep it change the world only.\<close>

lemma in_world_table: "table_ok L Q s \<Longrightarrow> in_world x s = Some (r, s') \<Longrightarrow> table_ok L Q s'"
  by (auto simp: in_world_def)

lemma handle_ops_ok:
  assumes t: "table_ok L Q s"
  shows "fs_read_file h p buf off len s = Some (n, b, s') \<Longrightarrow> table_ok L Q s'"
    "fs_write_file h buf off len s = Some (r, s') \<Longrightarrow> table_ok L Q s'"
    "fs_stat_file h s = Some (st, s') \<Longrightarrow> table_ok L Q s'"
    "fs_truncate_file h len s = Some (u, s') \<Longrightarrow> table_ok L Q s'"
    "fs_file_ioctl h req arg s = Some (u, s') \<Longrightarrow> table_ok L Q s'"
    "fs_read_dir d s = Some (e, s') \<Longrightarrow> table_ok L Q s'"
  using t
  by (auto simp: fs_read_file_def fs_write_file_def fs_stat_file_def fs_truncate_file_def fs_file_ioctl_def
      fs_read_dir_def on_mount_def in_world_def split: option.splits)

lemma put_world_table:
  assumes "table_ok L Q s" "put_mount host a (s\<lparr>world := w\<rparr>) = Some s'" "a \<in># Q"
  shows "table_ok L (Q - {#a#}) s'"
proof -
  have t: "table_ok L Q (s\<lparr>world := w\<rparr>)" using assms(1) by simp
  have "0 < uses L Q a" using assms(3) by (simp add: uses_def)
  then have a: "a \<in> set (mounts (s\<lparr>world := w\<rparr>))" using table_okD(2) [OF t] by simp
  show ?thesis by (rule table_release [OF t assms(2) a uses_remove [OF assms(3)]])
qed

lemma fs_close_file_ok:
  assumes "table_ok L Q s" "h_mount h \<in># Q" "fs_close_file host h s = Some (r, s')"
  shows "\<And>e. r = Inl e \<Longrightarrow> table_ok L Q s'" "\<And>u. r = Inr u \<Longrightarrow> table_ok L (Q - {#h_mount h#}) s'"
  using assms(1,3) put_world_table [OF assms(1) _ assms(2)]
  by (auto simp: fs_close_file_def on_mount_def put_result_def split: option.splits sum.splits)

lemma fs_close_dir_ok:
  assumes "table_ok L Q s" "d_mount d \<in># Q" "fs_close_dir host d s = Some (r, s')"
  shows "\<And>e. r = Inl e \<Longrightarrow> table_ok L Q s'" "\<And>u. r = Inr u \<Longrightarrow> table_ok L (Q - {#d_mount d#}) s'"
  using assms(1,3) put_world_table [OF assms(1) _ assms(2)]
  by (auto simp: fs_close_dir_def on_mount_def put_result_def split: option.splits sum.splits)

text \<open>Mounting adds a mount at the front; unmounting one that is in force takes its own use away.\<close>

lemma table_add:
  assumes t: "table_ok L Q s" and a: "mount_heap s a = None" and m: "m_ref m = 1" "m_path m \<noteq> None"
  shows "table_ok (insert a L) Q (s\<lparr>mounts := a # mounts s, mount_heap := (mount_heap s)(a \<mapsto> m), world := w\<rparr>)"
proof (rule table_okI)
  note d = table_okD [OF t]
  let ?s = "s\<lparr>mounts := a # mounts s, mount_heap := (mount_heap s)(a \<mapsto> m), world := w\<rparr>"
  have na: "a \<notin> set (mounts s)" using a d(3) by blast
  then have z: "uses L Q a = 0" using d(2) [of a] uses_nonneg [of L Q a] by simp
  then have nl: "a \<notin> L" by (auto simp: uses_def)
  show "distinct (mounts ?s)" "dom (mount_heap ?s) = set (mounts ?s)" using d(1,3) na by auto
  show "b \<in> set (mounts ?s) \<longleftrightarrow> 0 < uses (insert a L) Q b" for b using d(2) [of b] z nl by (cases "b = a") simp_all
  show "m_ref n = uses (insert a L) Q b \<and> m_path n \<noteq> None" if "mount_heap ?s b = Some n" for b n
    using d(4,5) [of b n] that m z nl by (cases "b = a") auto
qed

lemma mount_ok:
  assumes t: "table_ok L Q s" and h: "host_ok host" and r: "mount host path dev api sec s = Some (r, s')"
  shows "\<And>e. r = Inl e \<Longrightarrow> table_ok L Q s'" "\<And>u. r = Inr u \<Longrightarrow> table_ok (insert (hd (mounts s')) L) Q s'"
proof -
  obtain tp where tp: "temp_path host path = Some tp" using r by (auto simp: mount_def split: option.splits)
  have "(\<forall>e. r = Inl e \<longrightarrow> table_ok L Q s') \<and> (\<forall>u. r = Inr u \<longrightarrow> table_ok (insert (hd (mounts s')) L) Q s')"
  proof (cases "tp = [] \<or> hd tp \<noteq> path_sep")
    case True
    then show ?thesis using r tp t by (auto simp: mount_def)
  next
    case False
    note r' = r [unfolded mount_def, simplified tp option.case if_not_P [OF False]]
    show ?thesis
    proof (rule find_mount_cases [OF t, where path = tp])
      assume f: "find_mount tp s = Some (None, s)"
      have fresh: "mount_heap s a = None" if "host_malloc host (mount_heap s) = Some a" for a
        using that h by (simp add: host_ok_def)
      show ?thesis
        using r' f t h table_add [OF t fresh]
        by (auto simp: host_ok_def split: option.splits sum.splits)
    next
      fix a n m
      assume f: "mount_heap s a = Some m" "m_ref m = uses L Q a" "0 < uses L Q a" "find_mount tp s = Some (Some (a, n), taken a m s)"
      then have "put_mount host a (taken a m s) = Some s" by (intro put_taken(2)) simp_all
      then show ?thesis using r' f(4) t by auto
    qed
  qed
  then show "\<And>e. r = Inl e \<Longrightarrow> table_ok L Q s'" "\<And>u. r = Inr u \<Longrightarrow> table_ok (insert (hd (mounts s')) L) Q s'" by auto
qed

lemma fs_mount_ok:
  assumes "table_ok L Q s" "host_ok host" "fs_mount host path name dev sec s = Some (r, s')"
  shows "\<And>e. r = Inl e \<Longrightarrow> table_ok L Q s'" "\<And>u. r = Inr u \<Longrightarrow> table_ok (insert (hd (mounts s')) L) Q s'"
  using assms(1,3) mount_ok [OF assms(1,2)] by (auto simp: fs_mount_def split: option.splits)

definition resolves :: "('c, 'f, 'k, 'w) fs_host \<Rightarrow> bytes \<Rightarrow> ('c, 'f, 'k, 'w) fs_state \<Rightarrow> nat \<Rightarrow> bytes \<Rightarrow> bool" where
  "resolves host path s a n \<longleftrightarrow>
     (\<exists>tp. temp_path host path = Some tp \<and> find_prefix (mount_heap s) tp (mounts s) = Some (Some (a, n)))"

lemma fs_unmount_eq:
  assumes t: "table_ok L Q s" and r: "resolves host path s a n"
  shows "fs_unmount host path s = put_result host a (Inr ()) s" "a \<in> set (mounts s)"
proof -
  obtain tp where tp: "temp_path host path = Some tp" "find_prefix (mount_heap s) tp (mounts s) = Some (Some (a, n))"
    using r by (auto simp: resolves_def)
  show "fs_unmount host path s = put_result host a (Inr ()) s" "a \<in> set (mounts s)"
  proof (atomize (full), rule find_mount_cases [OF t, where path = tp])
    fix a' n' m
    assume f: "find_prefix (mount_heap s) tp (mounts s) = Some (Some (a', n'))" "a' \<in> set (mounts s)"
      "mount_heap s a' = Some m" "m_ref m = uses L Q a'" "0 < uses L Q a'" "find_mount tp s = Some (Some (a', n'), taken a' m s)"
    then have "put_mount host a' (taken a' m s) = Some s" by (intro put_taken(2)) simp_all
    then show "fs_unmount host path s = put_result host a (Inr ()) s \<and> a \<in> set (mounts s)"
      using f tp by (simp add: fs_unmount_def with_mount_def)
  qed (use tp in simp)
qed

lemma fs_unmount_ok:
  assumes t: "table_ok L Q s" and r: "resolves host path s a n" "a \<in> L" and u: "fs_unmount host path s = Some (x, s')"
  shows "table_ok (L - {a}) Q s'"
proof -
  have "put_mount host a s = Some s'" using u fs_unmount_eq(1) [OF t r(1)] by (auto simp: put_result_def)
  then show ?thesis by (rule table_release [OF t _ fs_unmount_eq(2) [OF t r(1)]]) (simp add: r(2))
qed

section \<open>Runs\<close>

text \<open>Runs in which every mount is unmounted at most once and every handle closed at most once.\<close>

inductive fs_run ::
  "('c, 'f, 'k, 'w) fs_host \<Rightarrow> nat set \<Rightarrow> nat multiset \<Rightarrow> ('c, 'f, 'k, 'w) fs_state \<Rightarrow> bool" for host
where
  start: "fs_run host {} {#} \<lparr>mount_heap = (\<lambda>_. None), mounts = [], world = w\<rparr>"
| mounted: "fs_run host L Q s \<Longrightarrow> fs_mount host path name dev sec s = Some (Inr u, s') \<Longrightarrow>
    fs_run host (insert (hd (mounts s')) L) Q s'"
| mount_failed: "fs_run host L Q s \<Longrightarrow> fs_mount host path name dev sec s = Some (Inl e, s') \<Longrightarrow> fs_run host L Q s'"
| unmounted: "fs_run host L Q s \<Longrightarrow> resolves host path s a n \<Longrightarrow> a \<in> L \<Longrightarrow> fs_unmount host path s = Some (x, s') \<Longrightarrow>
    fs_run host (L - {a}) Q s'"
| opened: "fs_run host L Q s \<Longrightarrow> fs_open_file host path s = Some (Inr h, s') \<Longrightarrow> fs_run host L (add_mset (h_mount h) Q) s'"
| open_failed: "fs_run host L Q s \<Longrightarrow> fs_open_file host path s = Some (Inl e, s') \<Longrightarrow> fs_run host L Q s'"
| created: "fs_run host L Q s \<Longrightarrow> fs_create_file host path len s = Some (Inr h, s') \<Longrightarrow>
    fs_run host L (add_mset (h_mount h) Q) s'"
| create_failed: "fs_run host L Q s \<Longrightarrow> fs_create_file host path len s = Some (Inl e, s') \<Longrightarrow> fs_run host L Q s'"
| dir_opened: "fs_run host L Q s \<Longrightarrow> fs_open_dir host path s = Some (Inr d, s') \<Longrightarrow> fs_run host L (add_mset (d_mount d) Q) s'"
| dir_open_failed: "fs_run host L Q s \<Longrightarrow> fs_open_dir host path s = Some (Inl e, s') \<Longrightarrow> fs_run host L Q s'"
| closed: "fs_run host L Q s \<Longrightarrow> h_mount h \<in># Q \<Longrightarrow> fs_close_file host h s = Some (Inr u, s') \<Longrightarrow>
    fs_run host L (Q - {#h_mount h#}) s'"
| close_failed: "fs_run host L Q s \<Longrightarrow> h_mount h \<in># Q \<Longrightarrow> fs_close_file host h s = Some (Inl e, s') \<Longrightarrow> fs_run host L Q s'"
| dir_closed: "fs_run host L Q s \<Longrightarrow> d_mount d \<in># Q \<Longrightarrow> fs_close_dir host d s = Some (Inr u, s') \<Longrightarrow>
    fs_run host L (Q - {#d_mount d#}) s'"
| dir_close_failed: "fs_run host L Q s \<Longrightarrow> d_mount d \<in># Q \<Longrightarrow> fs_close_dir host d s = Some (Inl e, s') \<Longrightarrow> fs_run host L Q s'"
| removed: "fs_run host L Q s \<Longrightarrow> fs_remove_file host path s = Some (x, s') \<Longrightarrow> fs_run host L Q s'"
| dir_made: "fs_run host L Q s \<Longrightarrow> fs_make_dir host path s = Some (x, s') \<Longrightarrow> fs_run host L Q s'"
| fs_statted: "fs_run host L Q s \<Longrightarrow> fs_stat_fs host path s = Some (y, s') \<Longrightarrow> fs_run host L Q s'"
| file_read: "fs_run host L Q s \<Longrightarrow> fs_read_file h p buf off len s = Some (cnt, b, s') \<Longrightarrow> fs_run host L Q s'"
| file_written: "fs_run host L Q s \<Longrightarrow> fs_write_file h buf off len s = Some (z, s') \<Longrightarrow> fs_run host L Q s'"
| file_statted: "fs_run host L Q s \<Longrightarrow> fs_stat_file h s = Some (v, s') \<Longrightarrow> fs_run host L Q s'"
| file_truncated: "fs_run host L Q s \<Longrightarrow> fs_truncate_file h len s = Some (x, s') \<Longrightarrow> fs_run host L Q s'"
| file_control: "fs_run host L Q s \<Longrightarrow> fs_file_ioctl h req arg s = Some (x, s') \<Longrightarrow> fs_run host L Q s'"
| dir_read: "fs_run host L Q s \<Longrightarrow> fs_read_dir d s = Some (t, s') \<Longrightarrow> fs_run host L Q s'"

lemma table_ok_start: "table_ok {} {#} \<lparr>mount_heap = (\<lambda>_. None), mounts = [], world = w\<rparr>"
  by (rule table_okI) (simp_all add: uses_def)

lemma fs_run_table:
  assumes "host_ok host"
  shows "fs_run host L Q s \<Longrightarrow> table_ok L Q s"
proof (induction rule: fs_run.induct)
  case (start w) then show ?case by (rule table_ok_start)
next
  case (unmounted L Q s path a n x s') then show ?case using fs_unmount_ok by blast
qed (use assms in \<open>auto simp: host_ok_def dest: fs_open_file_ok fs_create_file_ok fs_open_dir_ok fs_close_file_ok fs_close_dir_ok
    fs_remove_file_ok fs_make_dir_ok fs_stat_fs_ok handle_ops_ok intro: fs_mount_ok [OF _ assms]\<close>)

end
