(* ===== verification/Fs_Properties.thy ===== *)
theory Fs_Properties
  imports Fs_Correct
begin

text \<open>
  Properties of the file system layer: what normalising a path does, the reference counts of the mount
  table, what a second unmount does to open files, and which mounts hide others.
\<close>

section \<open>Operations return\<close>

lemma temp_path_ok:
  assumes "0 \<notin> set path"
  shows "temp_path host path = Some (normal_path (take 127 path))"
proof -
  have "0 \<notin> set (take 127 path)" using assms by (meson in_set_takeD)
  then obtain path' where "fs_normalize_path (take 127 path @ 0 # map (host_stack host) [length (take 127 path) + 1..<128]) = Some path'"
    "cstr path' = normal_path (take 127 path)"
    by (rule fs_normalize_path_ok)
  then show ?thesis by (simp add: temp_path_def Let_def)
qed

text \<open>Hooks that return, with or without an error.\<close>

definition api_total :: "('c, 'f, 'k, 'w) fs_api \<Rightarrow> bool" where
  "api_total api \<longleftrightarrow>
     (\<forall>dev sec w. api_mount api dev sec w \<noteq> None) \<and> (\<forall>c w. api_unmount api c w \<noteq> None) \<and>
     (\<forall>c p w. api_open api c p w \<noteq> None) \<and> (\<forall>f w. api_stat api f w \<noteq> None) \<and>
     (\<forall>f p buf off len w. api_read api f p buf off len w \<noteq> None) \<and> (\<forall>f w. api_close api f w \<noteq> None)"

lemma put_total:
  assumes "mount_heap s a = Some m" "api_total (m_api m)"
  shows "\<exists>s'. put_mount host a s = Some s'"
proof -
  obtain w where "api_unmount (m_api m) (m_cookie m) (world s) = Some w" using assms(2) by (fastforce simp: api_total_def)
  then show ?thesis using assms(1) by (simp add: put_mount_def Let_def)
qed

lemma open_total:
  assumes t: "table_ok L Q s" and tot: "\<And>a m. mount_heap s a = Some m \<Longrightarrow> api_total (m_api m)" and p: "0 \<notin> set path"
  shows "fs_open_file host path s \<noteq> None"
proof (rule find_mount_cases [OF t, where path = "normal_path (take 127 path)"])
  assume "find_mount (normal_path (take 127 path)) s = Some (None, s)"
  then show ?thesis by (simp add: fs_open_file_def with_mount_def temp_path_ok [OF p])
next
  fix a n m
  assume f: "mount_heap s a = Some m" "m_ref m = uses L Q a" "0 < uses L Q a"
    "find_mount (normal_path (take 127 path)) s = Some (Some (a, n), taken a m s)"
  obtain r w where "api_open (m_api m) (m_cookie m) n (world s) = Some (r, w)"
    using tot [OF f(1)] by (fastforce simp: api_total_def)
  moreover have "put_mount host a ((taken a m s)\<lparr>world := w\<rparr>) = Some (s\<lparr>world := w\<rparr>)" for w
    using f by (intro put_taken(1)) simp_all
  ultimately show ?thesis
    using f(4) by (cases r) (simp_all add: fs_open_file_def with_mount_def temp_path_ok [OF p] new_handle_def put_result_def)
qed

lemma handle_total:
  assumes t: "table_ok L Q s" and tot: "\<And>a m. mount_heap s a = Some m \<Longrightarrow> api_total (m_api m)" and h: "h_mount h \<in># Q"
  shows "fs_read_file h p buf off len s \<noteq> None" "fs_stat_file h s \<noteq> None" "fs_close_file host h s \<noteq> None"
proof -
  have "h_mount h \<in> set (mounts s)" using h table_okD(2) [OF t, of "h_mount h"] by (simp add: uses_def)
  then obtain m q where m: "mount_heap s (h_mount h) = Some m" by (rule table_heap [OF t])
  note T = tot [OF m]
  show "fs_read_file h p buf off len s \<noteq> None" "fs_stat_file h s \<noteq> None"
    using m T by (simp_all add: fs_read_file_def fs_stat_file_def on_mount_def in_world_def api_total_def)
  obtain r w where c: "api_close (m_api m) (h_cookie h) (world s) = Some (r, w)" using T by (fastforce simp: api_total_def)
  obtain s' where "put_mount host (h_mount h) (s\<lparr>world := w\<rparr>) = Some s'" using put_total [of "s\<lparr>world := w\<rparr>" "h_mount h" m] m T by auto
  then show "fs_close_file host h s \<noteq> None"
    using m c by (cases r) (simp_all add: fs_close_file_def on_mount_def put_result_def)
qed

section \<open>Lookup by prefix\<close>

lemma find_prefix_ref:
  "heap a = Some m \<Longrightarrow> find_prefix (heap(a \<mapsto> m\<lparr>m_ref := r\<rparr>)) path as = find_prefix heap path as"
  by (induction as) (auto split: option.splits)

lemma find_prefix_none:
  assumes "find_prefix heap path as = Some None" "a \<in> set as" "heap a = Some m" "m_path m = Some mp"
  shows "take (length mp) path \<noteq> mp"
proof -
  have "\<not> (length mp \<le> length path \<and> take (length mp) path = mp)"
    using assms by (induction as) (auto split: option.splits if_splits)
  then show ?thesis by (metis length_take min.cobounded1 min.commute)
qed

section \<open>A small table\<close>

text \<open>Hooks that always succeed, behind a host with two addresses for mounts.\<close>

definition null_api :: "(nat, nat, unit, unit) fs_api" where
  "null_api = \<lparr>api_fs_stat = None, api_mount = (\<lambda>dev sec w. Some (Inr 5, w)), api_unmount = (\<lambda>c w. Some w),
     api_open = (\<lambda>c p w. Some (Inr 9, w)), api_create = None, api_remove = None, api_truncate = None,
     api_stat = (\<lambda>f w. Some (Inr \<lparr>st_is_dir = False, st_size = 0\<rparr>, w)),
     api_read = (\<lambda>f p buf off len w. Some (Inr 0, buf, w)), api_write = None, api_close = (\<lambda>f w. Some (Inr (), w)),
     api_mkdir = None, api_opendir = None, api_readdir = None, api_closedir = None, api_file_ioctl = None\<rparr>"

definition null_host :: "(nat, nat, unit, unit) fs_host" where
  "null_host = \<lparr>fs_impls = [(c_lit ''ext2'', null_api)], host_close = (\<lambda>dev w. w),
     host_malloc = (\<lambda>h. if h 0 = None then Some 0 else if h 1 = None then Some 1 else None), host_strdup = True,
     host_handle = True, host_stack = (\<lambda>_. 0), host_stat = 0\<rparr>"

definition null_mnt :: "int \<Rightarrow> (nat, nat, unit, unit) fs_mnt" where
  "null_mnt r = \<lparr>m_path = Some (c_lit ''/sd''), m_dev = Some 3, m_cookie = 5, m_ref = r, m_api = null_api\<rparr>"

definition null_state :: "int \<Rightarrow> (nat, nat, unit, unit) fs_state" where
  "null_state r = \<lparr>mount_heap = (\<lambda>_. None)(0 \<mapsto> null_mnt r), mounts = [0], world = ()\<rparr>"

lemma null_host_ok: "host_ok null_host"
  by (auto simp: host_ok_def null_host_def)

lemma null_total: "api_total null_api"
  by (simp add: api_total_def null_api_def)

lemma null_temp:
  "temp_path null_host (c_lit ''/sd'') = Some (c_lit ''/sd'')" "temp_path null_host (c_lit ''/sd/f'') = Some (c_lit ''/sd/f'')"
proof -
  have "normal_path (take 127 (c_lit ''/sd'')) = c_lit ''/sd''" "normal_path (take 127 (c_lit ''/sd/f'')) = c_lit ''/sd/f''"
    by code_simp+
  then show "temp_path null_host (c_lit ''/sd'') = Some (c_lit ''/sd'')" "temp_path null_host (c_lit ''/sd/f'') = Some (c_lit ''/sd/f'')"
    using temp_path_ok [of "c_lit ''/sd''" null_host] temp_path_ok [of "c_lit ''/sd/f''" null_host] by (simp_all add: c_lit_def)
qed

lemma null_facts:
  "find_fs (fs_impls null_host) (c_lit ''ext2'') = Some null_api" "host_malloc null_host (\<lambda>_. None) = Some 0"
  "host_strdup null_host" "host_handle null_host" "api_mount null_api dev sec w = Some (Inr 5, w)"
  "api_open null_api c p w = Some (Inr 9, w)"
  by (simp_all add: null_host_def null_api_def)

lemma null_run_mounted: "fs_run null_host {0} {#} (null_state 1)"
proof -
  let ?s0 = "\<lparr>mount_heap = (\<lambda>_. None), mounts = [], world = ()\<rparr> :: (nat, nat, unit, unit) fs_state"
  have t: "c_lit ''/sd'' \<noteq> []" "hd (c_lit ''/sd'') = path_sep" by (simp_all add: c_lit_def)
  have "fs_mount null_host (c_lit ''/sd'') (c_lit ''ext2'') (Some 3) 0 ?s0 = Some (Inr (), null_state 1)"
    by (simp add: fs_mount_def mount_def find_mount_def null_state_def null_mnt_def null_temp t null_facts)
  from fs_run.mounted [OF fs_run.start this] show ?thesis by (simp add: null_state_def)
qed

lemma null_run_opened: "fs_run null_host {0} {#0#} (null_state 2)"
proof -
  have p: "take 3 (c_lit ''/sd/f'') = c_lit ''/sd''" "length (c_lit ''/sd'') = 3" "3 \<le> length (c_lit ''/sd/f'')"
    by (simp_all add: c_lit_def)
  have "fs_open_file null_host (c_lit ''/sd/f'') (null_state 1) = Some (Inr \<lparr>h_cookie = 9, h_mount = 0\<rparr>, null_state 2)"
    by (simp add: fs_open_file_def with_mount_def find_mount_def null_state_def null_mnt_def new_handle_def upd_mnt_def
        filehandle.make_def null_temp null_facts p)
  from fs_run.opened [OF null_run_mounted this] show ?thesis by simp
qed

lemma null_resolves: "resolves null_host (c_lit ''/sd'') (null_state r) 0 []"
  using null_temp(1) by (simp add: resolves_def null_state_def null_mnt_def)

section \<open>Properties\<close>

text \<open>
  C26. Normalising a path. For every path in an array that has room for its NUL, the in-place state
  machine returns without leaving the array, and the path it leaves there is the reference
  \<open>normal_path\<close>: the fields between the separators, without empty ones and \<open>.\<close>, each \<open>..\<close> removing the
  field before it, the root counting as a field of its own. Normalising again changes nothing.
\<close>

theorem fs_normalize_path_exact:
  assumes "0 \<notin> set p"
  shows "\<exists>path'. fs_normalize_path (p @ 0 # junk) = Some path' \<and> cstr path' = normal_path p \<and>
      length path' = length p + 1 + length junk \<and> normal_path (normal_path p) = normal_path p"
  using fs_normalize_path_ok [OF assms, of junk] normal_path_idem [of p] by metis

theorem fs_normalize_path_exact_witness:
  "\<exists>path'. fs_normalize_path (c_lit ''/a//./b/../c/'' @ 0 # [1, 2]) = Some path' \<and> cstr path' = c_lit ''/a/c''"
proof -
  have "0 \<notin> set (c_lit ''/a//./b/../c/'')" by (simp add: c_lit_def)
  moreover have "normal_path (c_lit ''/a//./b/../c/'') = c_lit ''/a/c''" by code_simp
  ultimately show ?thesis using fs_normalize_path_exact [of "c_lit ''/a//./b/../c/''" "[1, 2]"] by auto
qed



text \<open>
  C36. Unmounting twice frees a mount under an open file. \<open>fs_unmount\<close> gives back a reference it does not
  hold: when one file is open on a mount, the first unmount leaves the mount in the table for the file,
  the second one finds it there again and takes the file's reference, and the next read through the
  handle uses freed memory.
\<close>

theorem fs_double_unmount_dangles:
  assumes "host_ok host" and "fs_run host L Q s" and "resolves host path s a n" and "a \<in> L" and "count Q a = 1"
    and "mount_heap s a = Some m" and "api_total (m_api m)" and "h_mount h = a"
  shows "\<exists>s1 s2. fs_unmount host path s = Some (Inr (), s1) \<and> fs_unmount host path s1 = Some (Inr (), s2) \<and>
    fs_read_file h p buf off len s2 = None"
proof -
  have t: "table_ok L Q s" by (rule fs_run_table [OF assms(1,2)])
  have r: "m_ref m = 2" using table_okD(4) [OF t assms(6)] assms(4,5) by (simp add: uses_def)
  let ?m = "m\<lparr>m_ref := 1\<rparr>"
  let ?s1 = "upd_mnt a (Some ?m) s"
  have u1: "fs_unmount host path s = Some (Inr (), ?s1)"
    using fs_unmount_eq(1) [OF t assms(3)] assms(6) r by (simp add: put_result_def put_mount_def)
  have t1: "table_ok (L - {a}) Q ?s1" by (rule fs_unmount_ok [OF t assms(3,4) u1])
  have r1: "resolves host path ?s1 a n"
    using assms(3) by (simp add: resolves_def find_prefix_ref [of "mount_heap s" a m] assms(6) upd_mnt_def)
  obtain w where "api_unmount (m_api m) (m_cookie m) (world s) = Some w" using assms(7) by (fastforce simp: api_total_def)
  then obtain s2 where "put_mount host a ?s1 = Some s2" "mount_heap s2 a = None"
    by (simp add: put_mount_def)
  then have "fs_unmount host path ?s1 = Some (Inr (), s2)" "fs_read_file h p buf off len s2 = None"
    using fs_unmount_eq(1) [OF t1 r1] assms(8) by (simp_all add: put_result_def fs_read_file_def on_mount_def)
  then show ?thesis using u1 by blast
qed

theorem fs_double_unmount_dangles_witness:
  "\<exists>s1 s2. fs_unmount null_host (c_lit ''/sd'') (null_state 2) = Some (Inr (), s1) \<and>
    fs_unmount null_host (c_lit ''/sd'') s1 = Some (Inr (), s2) \<and> fs_read_file \<lparr>h_cookie = 9, h_mount = 0\<rparr> 0 [] 0 0 s2 = None"
  using fs_double_unmount_dangles [OF null_host_ok null_run_opened null_resolves, of "null_mnt 2" "\<lparr>h_cookie = 9, h_mount = 0\<rparr>" 0 "[]" 0 0]
    null_total by (simp add: null_state_def null_mnt_def)

text \<open>
  C37. Mount points are compared as strings, not field by field. Whenever the path of a mount is a prefix of
  a path, a file system cannot be mounted there: the call fails with "already mounted" and changes
  nothing. With the SD card mounted at \<open>/sd\<close>, this refuses \<open>/sdmmc_user\<close>, the mount point of the eMMC.
\<close>

theorem fs_mount_prefix_refused:
  assumes "host_ok host" and "fs_run host L Q s" and "mount_heap s a = Some m" and "m_path m = Some mp"
    and "0 \<notin> set path" and "tp = normal_path (take 127 path)" and "tp \<noteq> []" and "hd tp = path_sep" and "take (length mp) tp = mp"
    and "find_fs (fs_impls host) name = Some api"
  shows "fs_mount host path name dev sec s = Some (Inl ERR_ALREADY_MOUNTED, s)"
proof -
  have t: "table_ok L Q s" by (rule fs_run_table [OF assms(1,2)])
  have a: "a \<in> set (mounts s)" using table_okD(3) [OF t] assms(3) by blast
  have tp: "temp_path host path = Some tp" using temp_path_ok [OF assms(5)] assms(6) by simp
  show ?thesis
  proof (rule find_mount_cases [OF t, where path = tp])
    assume "find_prefix (mount_heap s) tp (mounts s) = Some None"
    from find_prefix_none [OF this a assms(3,4)] show ?thesis using assms(9) by simp
  next
    fix b n k
    assume f: "mount_heap s b = Some k" "m_ref k = uses L Q b" "0 < uses L Q b" "find_mount tp s = Some (Some (b, n), taken b k s)"
    then have "put_mount host b (taken b k s) = Some s" by (intro put_taken(2)) simp_all
    then show ?thesis using f(4) tp assms(7,8,10) by (simp add: fs_mount_def mount_def)
  qed
qed

theorem fs_mount_prefix_refused_witness:
  "fs_mount null_host (c_lit ''/sdmmc_user'') (c_lit ''ext2'') (Some 4) 0 (null_state 1) =
     Some (Inl ERR_ALREADY_MOUNTED, null_state 1)"
proof (rule fs_mount_prefix_refused [OF null_host_ok null_run_mounted, where a = 0 and m = "null_mnt 1" and mp = "c_lit ''/sd''"
      and tp = "c_lit ''/sdmmc_user''" and api = null_api])
  show "c_lit ''/sdmmc_user'' = normal_path (take 127 (c_lit ''/sdmmc_user''))" by code_simp
qed (simp_all add: null_state_def null_mnt_def null_host_def c_lit_def)

end
