(* ===== verification/Ext2_Lookup.thy ===== *)
theory Ext2_Lookup
  imports Fs_Path Ext2_Mount
begin

text \<open>
  Path lookup on an ext2 volume: directories as lists of encoded blocks, the lookup of one name, and
  the walk along a path of directories, for volumes without extents and paths without links.
\<close>

section \<open>Directories\<close>

definition inode_on :: "(u32 \<Rightarrow> bool) \<Rightarrow> ext2_t \<Rightarrow> u32 \<Rightarrow> bool" where
  "inode_on H fs num \<longleftrightarrow>
     (case get_inode_addr fs num of
        None \<Rightarrow> False
      | Some (bnum, bo) \<Rightarrow> H (ucast bnum) \<and> unat bo + 160 \<le> unat (E2FS_BLOCK_SIZE (super_blk fs)))"

definition inode_at :: "(u32 \<Rightarrow> bytes) \<Rightarrow> ext2_t \<Rightarrow> u32 \<Rightarrow> ext2fs_dinode" where
  "inode_at V fs num =
     (case get_inode_addr fs num of
        None \<Rightarrow> ext2_dinode []
      | Some (bnum, bo) \<Rightarrow> ext2_dinode (subrange (unat bo) 160 (V (ucast bnum))))"

lemma load_inode_at:
  assumes "vol contents env a fs V H s" "inode_on H fs num"
  obtains s' where "ext2_load_inode env fs num s = Some (Inr (inode_at V fs num), s')" "vol contents env a fs V H s'"
proof -
  obtain bnum bo where i: "get_inode_addr fs num = Some (bnum, bo)" "H (ucast bnum)"
    "unat bo + 160 \<le> unat (E2FS_BLOCK_SIZE (super_blk fs))"
    using assms(2) by (auto simp: inode_on_def split: option.splits)
  obtain s' where "ext2_load_inode env fs num s = Some (Inr (ext2_dinode (subrange (unat bo) 160 (V (ucast bnum)))), s') \<and>
    vol contents env a fs V H s'" using load_inode_ok [OF assms(1) i] by (rule exE)
  then show thesis using that i(1) by (simp add: inode_at_def)
qed

text \<open>The blocks of a directory are the encodings of lists of entries.\<close>

definition dir_on ::
  "(u32 \<Rightarrow> bool) \<Rightarrow> (u32 \<Rightarrow> bytes) \<Rightarrow> ext2_t \<Rightarrow> ext2fs_dinode \<Rightarrow> dir_entry list list \<Rightarrow> bool"
where
  "dir_on H V fs inode ess \<longleftrightarrow>
     S_ISDIR (e2di_mode inode) \<and> \<not> IS_EXTENTS (e2di_flags inode) \<and> inode_ok inode \<and>
     readable H V fs inode (length ess) \<and> length ess \<le> 1024 \<and>
     unat (ext2_file_len fs inode) = length ess * bsize fs \<and>
     (\<forall>i < length ess. list_all wf_entry (ess ! i) \<and> file_block V fs inode i = enc_dir (ess ! i))"

definition dir_find :: "dir_entry list list \<Rightarrow> bytes \<Rightarrow> dir_entry option" where
  "dir_find ess name = find (\<lambda>e. de_name e = name) (concat ess)"

lemma find_append: "find P (xs @ ys) = (case find P xs of None \<Rightarrow> find P ys | Some x \<Rightarrow> Some x)"
  by (induction xs) auto

text \<open>One block of the directory into the buffer.\<close>

lemma read_dir_block:
  assumes v: "vol contents env a fs V H s" and g: "good_super (super_blk fs)" and d: "dir_on H V fs inode ess"
    and i: "unat (i :: u32) < length ess"
  obtains s' where "ext2_read_inode env fs inode buf (ucast (i * E2FS_BLOCK_SIZE (super_blk fs))) (fs_bs fs) s =
      Some (enc_dir (ess ! unat i), s')" "vol contents env a fs V H s'" "length (enc_dir (ess ! unat i)) = bsize fs"
proof -
  note D = d [unfolded dir_on_def]
  have lt: "unat i * bsize fs \<le> 1024 * 4096" "bsize fs \<le> 4096"
    using i D bsize_le [OF g] mult_le_mono [of "unat i" 1024 "bsize fs" 4096] by simp_all
  have off: "unat (ucast (i * E2FS_BLOCK_SIZE (super_blk fs)) :: u64) = unat i * bsize fs"
    using lt unat_block_size [OF g] by (simp add: unat_u64_of_u32 unat_word_ariths)
  have len: "unat (fs_bs fs) = bsize fs" using unat_bs64 [OF g] by (simp add: fs_bs_def)
  have fit: "unat i * bsize fs + bsize fs \<le> length ess * bsize fs"
    using i by (metis Suc_leI add.commute mult_Suc mult_le_mono1)
  have c: "bsize fs = min (unat (fs_bs fs)) (unat (ext2_file_len fs inode) - unat (ucast (i * E2FS_BLOCK_SIZE (super_blk fs)) :: u64))"
    using fit off len D by simp
  have bl: "file_block V fs inode (unat i) = enc_dir (ess ! unat i)" using D i by simp
  have ln: "length (file_block V fs inode k) = bsize fs" if "k < length ess" for k
    by (rule file_block_length [OF v g _ that]) (use D in simp)
  have nw: "unat (ucast (i * E2FS_BLOCK_SIZE (super_blk fs)) :: u64) + unat (fs_bs fs) < 2 ^ 64" using off len lt by simp
  obtain s' where "ext2_read_inode env fs inode buf (ucast (i * E2FS_BLOCK_SIZE (super_blk fs))) (fs_bs fs) s =
      Some (subrange (unat i * bsize fs) (bsize fs) (file_bytes V fs inode (length ess)), s')" "vol contents env a fs V H s'"
    using read_inode_ok [OF v g _ _ nw c, of "length ess" buf] D off fit by auto
  moreover have "subrange (unat i * bsize fs) (bsize fs) (file_bytes V fs inode (length ess)) = enc_dir (ess ! unat i)"
    using block_slice [of "length ess" "file_block V fs inode" "bsize fs" "unat i" 0 "bsize fs"] ln i bl ln [OF i, unfolded bl]
    by (simp add: file_bytes_def subrange_def)
  ultimately show thesis using that bl ln [OF i] by simp
qed

text \<open>Past the last block the read returns nothing.\<close>

lemma read_dir_end:
  assumes v: "vol contents env a fs V H s" and g: "good_super (super_blk fs)" and d: "dir_on H V fs inode ess"
    and i: "unat (i :: u32) = length ess"
  obtains s' where "ext2_read_inode env fs inode buf (ucast (i * E2FS_BLOCK_SIZE (super_blk fs))) (fs_bs fs) s =
      Some ([], s')" "vol contents env a fs V H s'"
proof -
  note D = d [unfolded dir_on_def]
  have lt: "unat i * bsize fs \<le> 1024 * 4096" "bsize fs \<le> 4096"
    using i D bsize_le [OF g] mult_le_mono [of "unat i" 1024 "bsize fs" 4096] by simp_all
  have off: "unat (ucast (i * E2FS_BLOCK_SIZE (super_blk fs)) :: u64) = unat i * bsize fs"
    using lt unat_block_size [OF g] by (simp add: unat_u64_of_u32 unat_word_ariths)
  have len: "unat (fs_bs fs) = bsize fs" using unat_bs64 [OF g] by (simp add: fs_bs_def)
  have c: "0 = min (unat (fs_bs fs)) (unat (ext2_file_len fs inode) - unat (ucast (i * E2FS_BLOCK_SIZE (super_blk fs)) :: u64))"
    using off D i by simp
  have nw: "unat (ucast (i * E2FS_BLOCK_SIZE (super_blk fs)) :: u64) + unat (fs_bs fs) < 2 ^ 64" using off len lt by simp
  show thesis using read_inode_ok [OF v g _ _ nw c, of "length ess" buf] D off i that by auto
qed

lemma dir_blocks_ok:
  assumes g: "good_super (super_blk fs)" and d: "dir_on H V fs inode ess"
  shows "vol contents env a fs V H s \<Longrightarrow> unat i + m = length ess \<Longrightarrow> m < n \<Longrightarrow> length buf = bsize fs \<Longrightarrow>
    \<exists>s'. dir_blocks env fs inode name n i buf s =
      Some (case dir_find (drop (unat i) ess) name of None \<Rightarrow> Inl (ERR_CODE (-1)) | Some e \<Rightarrow> Inr (de_inode e), s') \<and>
      vol contents env a fs V H s'"
proof (induction m arbitrary: n i buf s)
  case 0
  then obtain n' where n: "n = Suc n'" by (cases n) auto
  have "unat i = length ess" using 0 by simp
  then obtain s' where "ext2_read_inode env fs inode buf (ucast (i * E2FS_BLOCK_SIZE (super_blk fs))) (fs_bs fs) s =
      Some ([], s')" "vol contents env a fs V H s'" by (rule read_dir_end [OF 0(1) g d])
  then show ?case using 0 n by (simp add: dir_find_def)
next
  case (Suc m)
  then obtain n' where n: "n = Suc n'" "m < n'" by (cases n) auto
  have i: "unat i < length ess" using Suc.prems by simp
  then obtain s1 where r: "ext2_read_inode env fs inode buf (ucast (i * E2FS_BLOCK_SIZE (super_blk fs))) (fs_bs fs) s =
      Some (enc_dir (ess ! unat i), s1)" "vol contents env a fs V H s1" "length (enc_dir (ess ! unat i)) = bsize fs"
    by (rule read_dir_block [OF Suc.prems(1) g d])
  have ne: "enc_dir (ess ! unat i) \<noteq> []" using r(3) bsize_ptrs(3) [of fs] by auto
  have buf: "overwrite 0 (enc_dir (ess ! unat i)) buf = enc_dir (ess ! unat i)"
    using r(3) Suc.prems(4) by (simp add: overwrite_def)
  have bs: "unat (fs_bs fs) = bsize fs" using unat_bs64 [OF g] by (simp add: fs_bs_def)
  have sc: "dir_scan (enc_dir (ess ! unat i)) (unat (fs_bs fs)) name 0 =
      Some (map_option de_inode (find (\<lambda>e. de_name e = name) (ess ! unat i)))"
    using dir_scan_from [of "ess ! unat i" "[]" name] d i r(3) bs by (simp add: dir_on_def)
  have dr: "dir_find (drop (unat i) ess) name =
      (case find (\<lambda>e. de_name e = name) (ess ! unat i) of None \<Rightarrow> dir_find (drop (unat i + 1) ess) name | Some e \<Rightarrow> Some e)"
    using i by (simp add: dir_find_def find_append flip: Cons_nth_drop_Suc split: option.split)
  have "unat i + 1 < 2 ^ 32" using i d by (simp add: dir_on_def)
  then have i1: "unat (i + 1) = unat i + 1" by (simp add: unat_word_ariths)
  show ?case
  proof (cases "find (\<lambda>e. de_name e = name) (ess ! unat i)")
    case None
    obtain s' where "dir_blocks env fs inode name n' (i + 1) (enc_dir (ess ! unat i)) s1 =
        Some (case dir_find (drop (unat (i + 1)) ess) name of None \<Rightarrow> Inl (ERR_CODE (-1)) | Some e \<Rightarrow> Inr (de_inode e), s')"
      "vol contents env a fs V H s'"
      using Suc.IH [OF r(2) _ n(2) r(3), of "i + 1"] Suc.prems(2) i1 by auto
    then show ?thesis using n(1) r(1) ne buf sc dr None i1 by (simp add: Let_def)
  next
    case (Some e)
    then show ?thesis using n(1) r(1,2) ne buf sc dr by (simp add: Let_def)
  qed
qed

definition dir_alloc_ok :: "fs_env \<Rightarrow> ext2_t \<Rightarrow> bool" where
  "dir_alloc_ok env fs \<longleftrightarrow>
     (\<exists>p. fe_malloc env 14 (fs_bs fs) = Some p \<and> bsize fs \<le> length (fe_mem env p)) \<and> fe_malloc env 15 216 \<noteq> None"

lemma dir_lookup_ok:
  assumes v: "vol contents env a fs V H s" and g: "good_super (super_blk fs)" and d: "dir_on H V fs inode ess"
    and m: "dir_alloc_ok env fs"
  obtains s' where "any_dir_lookup env fs inode name s =
      Some (case dir_find ess name of None \<Rightarrow> Inl (ERR_CODE (-1)) | Some e \<Rightarrow> Inr (de_inode e), s')"
    "vol contents env a fs V H s'"
proof -
  obtain p where p: "fe_malloc env 14 (fs_bs fs) = Some p" "bsize fs \<le> length (fe_mem env p)"
    using m by (auto simp: dir_alloc_ok_def)
  have bs: "unat (fs_bs fs) = bsize fs" using unat_bs64 [OF g] by (simp add: fs_bs_def)
  have l: "length ess < 1025" "length (take (unat (fs_bs fs)) (fe_mem env p)) = bsize fs" using d p(2) bs by (simp_all add: dir_on_def)
  obtain s' where "dir_blocks env fs inode name 1025 0 (take (unat (fs_bs fs)) (fe_mem env p)) s =
      Some (case dir_find ess name of None \<Rightarrow> Inl (ERR_CODE (-1)) | Some e \<Rightarrow> Inr (de_inode e), s')"
    "vol contents env a fs V H s'"
    using dir_blocks_ok [OF g d v _ l, of 0 name] by auto
  then show thesis using that d p(1) by (simp add: any_dir_lookup_def ext2_dir_lookup_def dir_on_def)
qed

section \<open>Paths\<close>

text \<open>\<open>leads H V fs dir comps num\<close>: starting in the directory \<open>dir\<close>, the names \<open>comps\<close> lead through
  directories to the inode number \<open>num\<close>, which is not a link.\<close>

fun leads ::
  "(u32 \<Rightarrow> bool) \<Rightarrow> (u32 \<Rightarrow> bytes) \<Rightarrow> ext2_t \<Rightarrow> ext2fs_dinode \<Rightarrow> bytes list \<Rightarrow> u32 \<Rightarrow> bool"
where
  "leads H V fs dir [] num = False"
| "leads H V fs dir (c # cs) num =
     (\<exists>ess e. dir_on H V fs dir ess \<and> dir_find ess c = Some e \<and> inode_on H fs (de_inode e) \<and>
        \<not> S_ISLNK (e2di_mode (inode_at V fs (de_inode e))) \<and>
        (if cs = [] then num = de_inode e
         else S_ISDIR (e2di_mode (inode_at V fs (de_inode e))) \<and> leads H V fs (inode_at V fs (de_inode e)) cs num))"

abbreviation comp_ok :: "bytes \<Rightarrow> bool" where "comp_ok c \<equiv> c \<noteq> [] \<and> slash \<notin> set c"

lemma join_path_Cons:
  assumes "cs \<noteq> []"
  shows "join_path (c # cs) = c @ slash # join_path cs"
proof -
  have "emitted cs \<noteq> []" using assms by (cases cs) (simp_all add: emitted_def)
  then show ?thesis by (simp add: join_path_def emitted_def butlast_append)
qed

lemma join_path_single: "join_path [c] = c"
  by (simp add: join_path_def)

lemma walk_ok:
  assumes g: "good_super (super_blk fs)" and m: "dir_alloc_ok env fs"
  shows "vol contents env a fs V H s \<Longrightarrow> leads H V fs dir cs num \<Longrightarrow> list_all comp_ok cs \<Longrightarrow>
    \<exists>s'. ext2_walk_loop env fs (join_path cs) dir level s = Some (Inr num, s') \<and> vol contents env a fs V H s'"
proof (induction cs arbitrary: dir s)
  case (Cons c cs)
  obtain ess e where e: "dir_on H V fs dir ess" "dir_find ess c = Some e" "inode_on H fs (de_inode e)"
    "\<not> S_ISLNK (e2di_mode (inode_at V fs (de_inode e)))"
    "if cs = [] then num = de_inode e
     else S_ISDIR (e2di_mode (inode_at V fs (de_inode e))) \<and> leads H V fs (inode_at V fs (de_inode e)) cs num"
    using Cons.prems(2) by auto
  have c: "c \<noteq> []" "slash \<notin> set c" "list_all comp_ok cs" using Cons.prems(3) by simp_all
  obtain s1 where s1: "any_dir_lookup env fs dir c s = Some (Inr (de_inode e), s1)" "vol contents env a fs V H s1"
    using dir_lookup_ok [OF Cons.prems(1) g e(1) m, of c] e(2) by auto
  obtain s2 where s2: "ext2_load_inode env fs (de_inode e) s1 = Some (Inr (inode_at V fs (de_inode e)), s2)"
    "vol contents env a fs V H s2"
    by (rule load_inode_at [OF s1(2) e(3)])
  show ?case
  proof (cases "cs = []")
    case True
    have tw: "takeWhile (\<lambda>ch. ch \<noteq> slash) c = c" "dropWhile (\<lambda>ch. ch \<noteq> slash) c = []"
      using c(2) by (auto simp: takeWhile_eq_all_conv dropWhile_eq_Nil_conv)
    have "ext2_walk_loop env fs (join_path (c # cs)) dir level s = Some (Inr num, s2)"
      using True e(4,5) s1(1) s2(1) by (subst ext2_walk_loop.simps) (simp add: join_path_single Let_def tw)
    then show ?thesis using s2(2) by blast
  next
    case False
    let ?p = "c @ slash # join_path cs"
    have tw: "takeWhile (\<lambda>ch. ch \<noteq> slash) ?p = c" "dropWhile (\<lambda>ch. ch \<noteq> slash) ?p = slash # join_path cs"
      using c(2) by (auto simp: takeWhile_tail dropWhile_append3)
    obtain d ds where cs: "cs = d # ds" using False by (cases cs) auto
    have "join_path cs \<noteq> [] \<and> hd (join_path cs) \<noteq> slash"
      using c(3) cs by (cases "ds = []"; cases d) (auto simp: join_path_single join_path_Cons)
    then have dw: "dropWhile (\<lambda>ch. ch = slash) (slash # join_path cs) = join_path cs"
      by (cases "join_path cs") auto
    obtain s' where "ext2_walk_loop env fs (join_path cs) (inode_at V fs (de_inode e)) level s2 = Some (Inr num, s')"
      "vol contents env a fs V H s'"
      using Cons.IH [OF s2(2) _ c(3), of "inode_at V fs (de_inode e)"] e(5) False by auto
    then have "ext2_walk_loop env fs (join_path (c # cs)) dir level s = Some (Inr num, s')" "vol contents env a fs V H s'"
      using False e(4,5) s1(1) s2(1)
      by (simp_all add: join_path_Cons ext2_walk_loop.simps [of env fs ?p] Let_def tw dw del: dropWhile.simps)
    then show ?thesis by blast
  qed
qed simp

lemma leads_inode: "leads H V fs dir cs num \<Longrightarrow> inode_on H fs num"
  by (induction cs arbitrary: dir) (auto split: if_splits)

lemma open_ok:
  assumes v: "vol contents env a fs V H s" and g: "good_super (super_blk fs)" and m: "dir_alloc_ok env fs"
    and l: "leads H V fs (root_inode fs) cs num" "list_all comp_ok cs" "length (join_path cs) < 511"
  obtains s' where "ext2_open_file env fs (slash # join_path cs) s = Some (Inr (inode_at V fs num), s')"
    "vol contents env a fs V H s'"
proof -
  obtain c cs' where cs: "cs = c # cs'" using l(1) by (cases cs) auto
  have "join_path cs \<noteq> [] \<and> hd (join_path cs) \<noteq> slash"
    using l(2) cs by (cases "cs' = []"; cases c) (auto simp: join_path_single join_path_Cons)
  then have dw: "dropWhile (\<lambda>ch. ch = slash) (slash # join_path cs) = join_path cs" by (cases "join_path cs") auto
  obtain s1 where s1: "ext2_walk_loop env fs (join_path cs) (root_inode fs) 1 s = Some (Inr num, s1)" "vol contents env a fs V H s1"
    using walk_ok [OF g m v l(1,2), of 1] by auto
  have lk: "ext2_lookup env fs (slash # join_path cs) s = Some (Inr num, s1)"
    using s1(1) dw l(3) by (simp add: ext2_lookup_def ext2_walk_def)
  obtain s2 where s2: "ext2_load_inode env fs num s1 = Some (Inr (inode_at V fs num), s2)" "vol contents env a fs V H s2"
    by (rule load_inode_at [OF s1(2) leads_inode [OF l(1)]])
  then have "ext2_open_file env fs (slash # join_path cs) s = Some (Inr (inode_at V fs num), s2)"
    using lk m by (auto simp: ext2_open_file_def dir_alloc_ok_def)
  then show thesis using that s2(2) by blast
qed

end
