(* ===== verification/File_Manager_Correct.thy ===== *)
theory File_Manager_Correct
  imports File_Manager Fs_Properties Ext2_Lookup
begin

text \<open>
  From the device to the file: detecting and mounting an ext2 volume, and opening, reading and closing a
  file through the file system layer and the file manager. Every step is the composition of what is shown of
  the layer below: the block devices, the block cache, ext2, path lookup and the mount table.
\<close>

section \<open>Paths below a mount point\<close>

abbreviation plain_name :: "bytes \<Rightarrow> bool" where
  "plain_name c \<equiv> c \<noteq> [] \<and> path_sep \<notin> set c \<and> 0 \<notin> set c \<and> c \<noteq> [path_dot] \<and> c \<noteq> [path_dot, path_dot]"

lemma normal_rooted:
  assumes "list_all plain_name cs" "cs \<noteq> []"
  shows "normal_path (path_sep # join_path cs) = path_sep # join_path cs"
proof -
  have a: "list_all (\<lambda>f. no_sep f \<and> f \<noteq> []) cs" "list_all (\<lambda>f. f \<noteq> [path_dot] \<and> f \<noteq> [path_dot, path_dot]) ([] # cs)"
    using assms(1) by (auto simp: list_all_iff)
  have f: "path_fields (path_sep # join_path cs) = [] # cs"
    using fields_join [OF a(1)] by (simp add: path_fields_def)
  have "join_path ([] # cs) = path_sep # join_path cs" using join_path_Cons [OF assms(2), of "[]"] by simp
  then show ?thesis using norm_fields_id [OF a(2), of "[]"] by (simp add: normal_path_def f)
qed

lemma join_no_nul: "list_all plain_name cs \<Longrightarrow> 0 \<notin> set (join_path cs)"
  using join_path_set [of cs] by (auto simp: list_all_iff)

text \<open>The mount points of the file manager.\<close>

lemma prefix_name:
  assumes "get_prefix dev_id = Some pref"
  obtains c where "pref = path_sep # c" "plain_name c"
  using assms by (auto simp: get_prefix_def Let_def c_lit_def split: if_splits)

lemma prefix_path:
  assumes "get_prefix dev_id = Some pref" "list_all plain_name cs" "cs \<noteq> []" "length pref + 1 + length (join_path cs) \<le> 127"
  shows "temp_path host pref = Some pref" "temp_path host (pref @ path_sep # join_path cs) = Some (pref @ path_sep # join_path cs)"
    "pref \<noteq> []" "hd pref = path_sep"
proof -
  obtain c where c: "pref = path_sep # c" "plain_name c" by (rule prefix_name [OF assms(1)])
  have p: "pref @ path_sep # join_path cs = path_sep # join_path (c # cs)" "join_path [c] = c"
    using c join_path_Cons [OF assms(3)] by (simp_all add: join_path_single)
  have n: "list_all plain_name (c # cs)" using c(2) assms(2) by simp
  have "normal_path (pref @ path_sep # join_path cs) = pref @ path_sep # join_path cs" "normal_path pref = pref"
    using normal_rooted [OF n] normal_rooted [of "[c]"] c p by simp_all
  moreover have "0 \<notin> set (pref @ path_sep # join_path cs)" "0 \<notin> set pref"
    using c join_no_nul [OF assms(2)] by simp_all
  ultimately show "temp_path host pref = Some pref"
    "temp_path host (pref @ path_sep # join_path cs) = Some (pref @ path_sep # join_path cs)"
    using assms(4) temp_path_ok [of pref host] temp_path_ok [of "pref @ path_sep # join_path cs" host] by simp_all
  show "pref \<noteq> []" "hd pref = path_sep" using c by simp_all
qed

section \<open>One mounted volume\<close>

text \<open>The table holds one mount with \<open>r\<close> references, of an ext2 volume at address \<open>c\<close> whose cache stands for
  the blocks \<open>V\<close>.\<close>

definition on_vol ::
  "('d \<Rightarrow> bytes) \<Rightarrow> fs_env \<Rightarrow> nat \<Rightarrow> ext2_t \<Rightarrow> (u32 \<Rightarrow> bytes) \<Rightarrow> (u32 \<Rightarrow> bool) \<Rightarrow> bytes \<Rightarrow> nat \<Rightarrow> nat \<Rightarrow> int \<Rightarrow> ('d, 'm) vfs \<Rightarrow> bool"
where
  "on_vol contents env a fs V H pref m c r s \<longleftrightarrow>
     mounts s = [m] \<and>
     (\<exists>M fresh. mount_heap s m = Some M \<and> m_path M = Some pref \<and> m_cookie M = c \<and> m_ref M = r \<and> m_api M = ext2_api env fresh) \<and>
     (\<exists>cache. w_vols (world s) c = Some (fs, cache) \<and> vol contents env a fs V H (cache, w_bd (world s)))"

lemma on_volE:
  assumes "on_vol contents env a fs V H pref m c r s"
  obtains M fresh cache where "mounts s = [m]" "mount_heap s m = Some M" "m_path M = Some pref" "m_cookie M = c" "m_ref M = r"
    "m_api M = ext2_api env fresh" "w_vols (world s) c = Some (fs, cache)" "vol contents env a fs V H (cache, w_bd (world s))"
  using assms by (auto simp: on_vol_def)

lemma ext2_api_hooks:
  "api_mount (ext2_api env fresh) dev sec = volume_mount (ext2_mount env dev sec) fresh"
  "api_open (ext2_api env fresh) c path = volume_open (\<lambda>fs. ext2_open_file env fs path) c"
  "api_stat (ext2_api env fresh) = volume_stat" "api_read (ext2_api env fresh) = ext2_api_read env"
  "api_close (ext2_api env fresh) f w = Some (Inr (), w)"
  by (simp_all add: ext2_api_def volume_api_def)

lemma set_vol_simps [simp]:
  "w_vols (set_vol c fs v w) = (w_vols w)(c \<mapsto> (fs, fst v))" "w_bd (set_vol c fs v w) = snd v"
  by (simp_all add: set_vol_def set_bd_def set_pm_def)

lemma open_file_ok:
  assumes v: "on_vol contents env a fs V H pref m c 1 s" and g: "good_super (super_blk fs)" and al: "dir_alloc_ok env fs"
    and l: "leads H V fs (root_inode fs) cs num" "list_all comp_ok cs" "length (join_path cs) < 511"
    and t: "temp_path host (pref @ path_sep # join_path cs) = Some (pref @ path_sep # join_path cs)" and h: "host_handle host"
  shows "\<exists>s'. fs_open_file host (pref @ path_sep # join_path cs) s =
      Some (Inr \<lparr>h_cookie = (c, inode_at V fs num), h_mount = m\<rparr>, s') \<and> on_vol contents env a fs V H pref m c 2 s'"
proof (rule on_volE [OF v])
  fix M fresh cache
  assume M: "mounts s = [m]" "mount_heap s m = Some M" "m_path M = Some pref" "m_cookie M = c" "m_ref M = 1"
    "m_api M = ext2_api env fresh" "w_vols (world s) c = Some (fs, cache)" "vol contents env a fs V H (cache, w_bd (world s))"
  let ?s1 = "upd_mnt m (Some (M\<lparr>m_ref := 2\<rparr>)) s"
  have f: "find_mount (pref @ path_sep # join_path cs) s = Some (Some (m, path_sep # join_path cs), ?s1)"
    using M by (simp add: find_mount_def)
  show ?thesis
  proof (rule open_ok [OF M(8) g al l])
    fix v'
    assume o: "ext2_open_file env fs (slash # join_path cs) (cache, w_bd (world s)) = Some (Inr (inode_at V fs num), v')"
      "vol contents env a fs V H v'"
    let ?s2 = "?s1\<lparr>world := set_vol c fs v' (world s)\<rparr>"
    have "fs_open_file host (pref @ path_sep # join_path cs) s = Some (Inr \<lparr>h_cookie = (c, inode_at V fs num), h_mount = m\<rparr>, ?s2)"
      using M o(1) f t h
      by (simp add: fs_open_file_def with_mount_def new_handle_def filehandle.make_def upd_mnt_def ext2_api_hooks volume_open_def)
    moreover have "on_vol contents env a fs V H pref m c 2 ?s2"
      using M o(2) by (auto simp: on_vol_def upd_mnt_def)
    ultimately show ?thesis by blast
  qed
qed

lemma stat_file_ok:
  assumes "on_vol contents env a fs V H pref m c r s"
  shows "fs_stat_file \<lparr>h_cookie = (c, inode), h_mount = m\<rparr> s =
    Some (Inr \<lparr>st_is_dir = S_ISDIR (e2di_mode inode), st_size = ext2_file_len fs inode\<rparr>, s)"
  by (rule on_volE [OF assms])
    (simp add: fs_stat_file_def on_mount_def in_world_def ext2_api_hooks volume_stat_def ext2_stat_file_def)

text \<open>The bytes of a regular file.\<close>

definition file_data :: "(u32 \<Rightarrow> bool) \<Rightarrow> (u32 \<Rightarrow> bytes) \<Rightarrow> ext2_t \<Rightarrow> ext2fs_dinode \<Rightarrow> bytes \<Rightarrow> bool" where
  "file_data H V fs inode data \<longleftrightarrow>
     S_ISREG (e2di_mode inode) \<and> inode_ok inode \<and> length data = unat (ext2_file_len fs inode) \<and>
     (\<exists>n. readable H V fs inode n \<and> length data \<le> n * bsize fs \<and> data = take (length data) (file_bytes V fs inode n))"

lemma read_file_ok:
  assumes v: "on_vol contents env a fs V H pref m c r s" and g: "good_super (super_blk fs)"
    and d: "file_data H V fs inode data" "data \<noteq> []" "length data < 2 ^ 31" "length data \<le> length mem"
  shows "\<exists>s'. fs_read_file \<lparr>h_cookie = (c, inode), h_mount = m\<rparr> p mem 0 (ext2_file_len fs inode) s =
      Some (Inr (of_nat (length data)), overwrite 0 data mem, s') \<and> on_vol contents env a fs V H pref m c r s'"
proof (rule on_volE [OF v])
  fix M fresh cache
  assume M: "mounts s = [m]" "mount_heap s m = Some M" "m_path M = Some pref" "m_cookie M = c" "m_ref M = r"
    "m_api M = ext2_api env fresh" "w_vols (world s) c = Some (fs, cache)" "vol contents env a fs V H (cache, w_bd (world s))"
  obtain n where n: "readable H V fs inode n" "length data \<le> n * bsize fs" "data = take (length data) (file_bytes V fs inode n)"
    using d(1) by (auto simp: file_data_def)
  have i: "S_ISREG (e2di_mode inode)" "inode_ok inode" "length data = unat (ext2_file_len fs inode)"
    using d(1) by (simp_all add: file_data_def)
  let ?len = "ext2_file_len fs inode"
  have z: "?len \<noteq> 0" using i(3) d(2) by auto
  have "length data = min (unat ?len) (unat ?len - unat (0 :: u64))" "unat (0 :: u64) + unat ?len < 2 ^ 64"
    "unat (0 :: u64) + length data \<le> n * bsize fs" using i(3) n(2) unsigned_less [of ?len] by simp_all
  from read_inode_ok [OF M(8) g i(2) n(1) this(2,1,3), of mem]
  obtain v' where r: "ext2_read_inode env fs inode mem 0 ?len (cache, w_bd (world s)) = Some (data, v')" "vol contents env a fs V H v'"
    using n(3) by (auto simp: subrange_def)
  have si: "sint (of_nat (length data) :: u32) = int (length data)"
    using d(3) by (simp add: signed_of_nat signed_take_bit_int_eq_self)
  then have ir: "int_result (length data) = Inr (of_nat (length data))" by (simp add: int_result_def)
  let ?s' = "s\<lparr>world := set_vol c fs v' (world s)\<rparr>"
  have "fs_read_file \<lparr>h_cookie = (c, inode), h_mount = m\<rparr> p mem 0 ?len s = Some (Inr (of_nat (length data)), overwrite 0 data mem, ?s')"
    using M r(1) z i(1) d(4) ir by (simp add: fs_read_file_def on_mount_def ext2_api_hooks ext2_api_read_def ext2_read_file_def)
  moreover have "on_vol contents env a fs V H pref m c r ?s'" using M r(2) by (auto simp: on_vol_def)
  ultimately show ?thesis by blast
qed

lemma close_file_ok:
  assumes v: "on_vol contents env a fs V H pref m c 2 s"
  shows "\<exists>s'. fs_close_file host \<lparr>h_cookie = (c, inode), h_mount = m\<rparr> s = Some (Inr (), s') \<and>
    on_vol contents env a fs V H pref m c 1 s'"
proof (rule on_volE [OF v])
  fix M fresh cache
  assume M: "mounts s = [m]" "mount_heap s m = Some M" "m_path M = Some pref" "m_cookie M = c" "m_ref M = 2"
    "m_api M = ext2_api env fresh" "w_vols (world s) c = Some (fs, cache)" "vol contents env a fs V H (cache, w_bd (world s))"
  let ?s' = "upd_mnt m (Some (M\<lparr>m_ref := 1\<rparr>)) s"
  have "fs_close_file host \<lparr>h_cookie = (c, inode), h_mount = m\<rparr> s = Some (Inr (), ?s')"
    using M by (simp add: fs_close_file_def on_mount_def ext2_api_hooks put_result_def put_mount_def)
  moreover have "on_vol contents env a fs V H pref m c 1 ?s'" using M by (auto simp: on_vol_def upd_mnt_def)
  ultimately show ?thesis by blast
qed

section \<open>Mounting\<close>

lemma detect_ok:
  assumes live: "handle_live contents alloc a st" and d: "dev_heap st a = Some d" and p: "p \<noteq> 0"
    and off: "off = sec * TEGRABL_BLOCKDEV_BLOCK_SIZE d" "unat off + 2048 \<le> length (handle_img contents a st)"
    and b: "b = subrange (unat off + 1024) 1024 (handle_img contents a st)"
      "e2fs_magic (ext2_super_block b) = 0xEF53" "u32_at 96 b AND 0x40 = 0"
  shows "\<exists>st' d'. fs_detect alloc p a sec st = Some (Some (c_lit ''ext2''), st') \<and> dev_heap st' a = Some d' \<and>
    device_id d' = device_id d \<and> TEGRABL_BLOCKDEV_BLOCK_SIZE d' = TEGRABL_BLOCKDEV_BLOCK_SIZE d \<and>
    handle_live contents alloc a st' \<and> handle_img contents a st' = handle_img contents a st"
proof -
  have dl: "bdev_live contents alloc d" and im: "handle_img contents a st = bdev_img contents d"
    using live d by (simp_all add: handle_live_def handle_img_def)
  have "unat off + 2048 < 2 ^ 64" using off(2) handle_img_bound [OF live] by linarith
  then have at: "unat (off + 1024) = unat off + 1024" by (simp add: unat_word_ariths)
  have "(1024 :: u64) \<noteq> 0" "unat (off + 1024) + unat (1024 :: u64) \<le> length (bdev_img contents d)"
    using off(2) at im by simp_all
  from bdev_read_succeeds [OF dl p this]
  obtain d' where r: "bdev_read alloc d p (off + 1024) 1024 = ((TEGRABL_NO_ERROR, b), d')"
    "same_dev contents d d'" "bdev_img contents d' = bdev_img contents d"
    using at im b(1) by auto
  have s: "device_id d' = device_id d" "TEGRABL_BLOCKDEV_BLOCK_SIZE d' = TEGRABL_BLOCKDEV_BLOCK_SIZE d"
    using r(2) by (auto simp: same_dev_def TEGRABL_BLOCKDEV_BLOCK_SIZE_def)
  let ?st = "dev_update a d' st"
  have "fs_detect alloc p a sec st = Some (Some (c_lit ''ext2''), ?st)"
    using d r(1) off(1) b(2,3) by (simp add: fs_detect_def tegrabl_blockdev_read_def on_dev_def)
  moreover have "dev_heap ?st a = Some d'" "handle_live contents alloc a ?st" "handle_img contents a ?st = handle_img contents a st"
    using r(3) im bdev_live_same [OF dl r(2)] by (simp_all add: dev_update_def handle_live_def handle_img_def)
  ultimately show ?thesis using s by blast
qed

text \<open>What the host gives a mount from an empty table.\<close>

definition host_mounts :: "('d, 'm) vfs_host \<Rightarrow> fs_env \<Rightarrow> ('d, 'm) vfs \<Rightarrow> bool" where
  "host_mounts host env s \<longleftrightarrow>
     mounts s = [] \<and> host_malloc host (mount_heap s) \<noteq> None \<and> host_strdup host \<and> host_handle host \<and>
     (\<exists>fresh. find_fs (fs_impls host) (c_lit ''ext2'') = Some (ext2_api env fresh))"

lemma volume_mounted:
  assumes h: "host_mounts host env s" and t: "temp_path host pref = Some pref" "pref \<noteq> []" "hd pref = path_sep"
    and m: "ext2_mount env (Some a) sec (w_bd (world s)) = Some (Inr (fs, cache), st')" "vol contents env a fs V H (cache, st')"
  shows "\<exists>mn c s'. fs_mount host pref (c_lit ''ext2'') (Some a) sec s = Some (Inr (), s') \<and> on_vol contents env a fs V H pref mn c 1 s'"
proof -
  obtain mn fresh where H: "mounts s = []" "host_malloc host (mount_heap s) = Some mn" "host_strdup host"
    "find_fs (fs_impls host) (c_lit ''ext2'') = Some (ext2_api env fresh)"
    using h by (auto simp: host_mounts_def)
  let ?c = "fresh (w_vols (world s))"
  let ?M = "\<lparr>m_path = Some pref, m_dev = Some a, m_cookie = ?c, m_ref = 1, m_api = ext2_api env fresh\<rparr>"
  let ?s = "s\<lparr>mounts := [mn], mount_heap := (mount_heap s)(mn \<mapsto> ?M), world := set_vol ?c fs (cache, st') (world s)\<rparr>"
  have "fs_mount host pref (c_lit ''ext2'') (Some a) sec s = Some (Inr (), ?s)"
    using H t m(1) by (simp add: fs_mount_def mount_def find_mount_def ext2_api_hooks volume_mount_def Let_def)
  moreover have "on_vol contents env a fs V H pref mn ?c 1 ?s" using m(2) by (auto simp: on_vol_def)
  ultimately show ?thesis by blast
qed

text \<open>\<open>img\<close> holds, at byte \<open>off\<close>, an ext2 volume in which the names \<open>cs\<close> lead to a regular file with the
  contents \<open>data\<close>.\<close>

definition super_at :: "u64 \<Rightarrow> bytes \<Rightarrow> bytes" where
  "super_at off img = subrange (unat off + 1024) 1024 img"

definition volume_file :: "nat \<Rightarrow> u64 \<Rightarrow> bytes \<Rightarrow> bytes list \<Rightarrow> bytes \<Rightarrow> bool" where
  "volume_file a off img cs data \<longleftrightarrow>
     unat off + 2048 \<le> length img \<and> u32_at 96 (super_at off img) AND 0x40 = 0 \<and>
     (let sb = ext2_super_block (super_at off img);
          fs = ext2_volume a off sb img; V = vol_view off sb img; H = vol_has off sb img
      in good_volume EXT2_ROCOMPAT (\<lambda>g n. ucast (g * n)) a off sb img \<and>
         (\<exists>num. leads H V fs (root_inode fs) cs num \<and> file_data H V fs (inode_at V fs num) data))"

lemma env_ok_fits: "env_ok env sb \<Longrightarrow> good_super sb \<Longrightarrow> super_blk fs = sb \<Longrightarrow> dir_alloc_ok env fs"
proof -
  assume e: "env_ok env sb" and g: "good_super sb" "super_blk fs = sb"
  obtain p where "fe_malloc env 14 (fs_bs fs) = Some p" "length (fe_mem env p) = unat (E2FS_BLOCK_SIZE sb)"
    using e unfolding env_ok_def by blast
  moreover have "fe_malloc env 15 216 \<noteq> None" using e unfolding env_ok_def by (metis option.distinct(1))
  moreover have "bsize fs = unat (E2FS_BLOCK_SIZE sb)" using unat_block_size [of fs] g by simp
  ultimately show ?thesis by (auto simp: dir_alloc_ok_def)
qed

end
