(* ===== verification/File_Manager_Properties.thy ===== *)
theory File_Manager_Properties
  imports File_Manager_Correct
begin

text \<open>
  Properties of the file manager: a file on an ext2 volume is loaded exactly.
\<close>

lemma fm_mount_ok:
  assumes live: "handle_live contents (fe_alloc env) a (w_bd (world s))" and d: "dev_heap (w_bd (world s)) a = Some d"
    and off: "off = ucast sector * TEGRABL_BLOCKDEV_BLOCK_SIZE d" and f: "volume_file a off (handle_img contents a (w_bd (world s))) cs data"
    and sb: "sb = ext2_super_block (super_at off (handle_img contents a (w_bd (world s))))" and e: "env_ok env sb"
    and fm: "fm_alloc fm = fe_alloc env" "fm_sb fm \<noteq> 0" "host_mounts (fm_host fm) env s"
    and p: "get_prefix (device_id d) = Some pref" "temp_path (fm_host fm) pref = Some pref" "pref \<noteq> []" "hd pref = path_sep"
    and img: "img = handle_img contents a (w_bd (world s))"
  shows "\<exists>m c s'. fm_detect_mount fm a sector err h s =
      Some ((err, h\<lparr>fm_fs_type := Some (c_lit ''ext2''), fm_start_sector := sector, fm_mount_path := Some pref\<rparr>), s') \<and>
    on_vol contents env a (ext2_volume a off sb img) (vol_view off sb img) (vol_has off sb img) pref m c 1 s'"
proof -
  have vf: "unat off + 2048 \<le> length img" "u32_at 96 (super_at off img) AND 0x40 = 0"
    "good_volume EXT2_ROCOMPAT (\<lambda>g n. ucast (g * n)) a off sb img"
    using f sb img by (auto simp: volume_file_def Let_def)
  have mg: "e2fs_magic (ext2_super_block (super_at off img)) = 0xEF53" using vf(3) sb img by (simp add: good_volume_def)
  obtain st d' where D: "fs_detect (fm_alloc fm) (fm_sb fm) a (ucast sector) (w_bd (world s)) = Some (Some (c_lit ''ext2''), st)"
    "dev_heap st a = Some d'" "device_id d' = device_id d" "TEGRABL_BLOCKDEV_BLOCK_SIZE d' = TEGRABL_BLOCKDEV_BLOCK_SIZE d"
    "handle_live contents (fe_alloc env) a st" "handle_img contents a st = img"
    using detect_ok [OF live d fm(2) off] vf mg img fm(1) by (auto simp: super_at_def)
  let ?s = "s\<lparr>world := set_bd st (world s)\<rparr>"
  have bd: "w_bd (world ?s) = st" by (simp add: set_bd_def set_pm_def)
  have hm: "host_mounts (fm_host fm) env ?s" using fm(3) by (simp add: host_mounts_def)
  have "off = ucast sector * TEGRABL_BLOCKDEV_BLOCK_SIZE d'" "sb = ext2_super_block (subrange (unat off + 1024) 1024 img)"
    using off D(4) sb img by (simp_all add: super_at_def)
  from ext2_mount_ok [OF D(5,2) this(1) D(6) [symmetric] vf(1) this(2) e vf(3)]
  obtain cache st' where "ext2_mount env (Some a) (ucast sector) (w_bd (world ?s)) = Some (Inr (ext2_volume a off sb img, cache), st')"
    "vol contents env a (ext2_volume a off sb img) (vol_view off sb img) (vol_has off sb img) (cache, st')"
    unfolding bd by blast
  from volume_mounted [OF hm p(2-4) this]
  obtain m c s' where "fs_mount (fm_host fm) pref (c_lit ''ext2'') (Some a) (ucast sector) ?s = Some (Inr (), s')"
    "on_vol contents env a (ext2_volume a off sb img) (vol_view off sb img) (vol_has off sb img) pref m c 1 s'" by blast
  then show ?thesis using D(1-3) p(1) by (auto simp: fm_detect_mount_def Let_def)
qed

lemma fm_read_ok:
  assumes v: "on_vol contents env a fs V H pref m c 1 s" and g: "good_super (super_blk fs)" and al: "dir_alloc_ok env fs"
    and l: "leads H V fs (root_inode fs) cs num" "list_all comp_ok cs" "length pref + 1 + length (join_path cs) \<le> 127"
    and t: "temp_path (fm_host fm) (pref @ path_sep # join_path cs) = Some (pref @ path_sep # join_path cs)"
    and hh: "host_handle (fm_host fm)" "fm_mount_path h = Some pref"
    and d: "file_data H V fs (inode_at V fs num) data" "data \<noteq> []" "length data < 2 ^ 31" "length data \<le> length mem"
      "length data \<le> unat max_size"
  shows "\<exists>s'. tegrabl_fm_read fm (Some h) (Some (path_sep # join_path cs)) part addr mem max_size s =
      Some ((TEGRABL_NO_ERROR, overwrite 0 data mem, of_nat (length data), True), s') \<and> on_vol contents env a fs V H pref m c 1 s'"
proof -
  let ?i = "inode_at V fs num" and ?path = "pref @ path_sep # join_path cs"
  let ?h = "\<lparr>h_cookie = (c, ?i), h_mount = m\<rparr>" and ?len = "ext2_file_len fs ?i"
  have "length (join_path cs) < 511" using l(3) by simp
  from open_file_ok [OF v g al l(1,2) this t hh(1)]
  obtain s1 where s1: "fs_open_file (fm_host fm) ?path s = Some (Inr ?h, s1)" "on_vol contents env a fs V H pref m c 2 s1" by blast
  obtain s2 where s2: "fs_read_file ?h addr mem 0 ?len s1 = Some (Inr (of_nat (length data)), overwrite 0 data mem, s2)"
    "on_vol contents env a fs V H pref m c 2 s2"
    using read_file_ok [OF s1(2) g d(1-4)] by blast
  obtain s3 where s3: "fs_close_file (fm_host fm) ?h s2 = Some (Inr (), s3)" "on_vol contents env a fs V H pref m c 1 s3"
    using close_file_ok [OF s2(2)] by blast
  have n: "unat ?len = length data" using d(1) by (simp add: file_data_def)
  have "\<not> ucast max_size < ?len" using d(5) n by (simp add: word_less_nat_alt unat_u64_of_u32)
  moreover have u: "(ucast (of_nat (length data) :: u64) :: u32) = of_nat (length data)"
    using d(3) by (simp add: unsigned_of_nat take_bit_nat_eq_self)
  moreover have "sint (of_nat (length data) :: u32) = int (length data)"
    using d(3) by (simp add: signed_of_nat signed_take_bit_int_eq_self)
  moreover have "?len = of_nat (length data)" by (simp flip: n)
  ultimately have "fm_read_fs fm ?path addr mem max_size s =
      Some (Inr (of_nat (length data)), Some ?h, overwrite 0 data mem, s2)"
    using s1(1) s2(1) stat_file_ok [OF s1(2), of ?i] by (simp add: fm_read_fs_def)
  then have "tegrabl_fm_read fm (Some h) (Some (path_sep # join_path cs)) part addr mem max_size s =
      Some ((TEGRABL_NO_ERROR, overwrite 0 data mem, of_nat (length data), True), s3)"
    using l(3) hh(2) s3(1) by (simp add: tegrabl_fm_read_def fm_close_fh_def)
  then show ?thesis using s3(2) by blast
qed

section \<open>A small card\<close>

text \<open>A volume of six blocks: superblock, descriptors, inodes, the root directory with one file \<open>a\<close>, and the
  block of that file.\<close>

definition card_super :: bytes where
  "card_super = [0, 0, 0, 0, 6, 0, 0, 0] @ replicate 24 0 @ [6, 0, 0, 0, 0, 0, 0, 0, 8, 0, 0, 0] @ replicate 12 0 @
     [0x53, 0xEF] @ replicate 966 0"

definition card_inode :: "u8 \<Rightarrow> u8 \<Rightarrow> u8 \<Rightarrow> u8 \<Rightarrow> bytes" where
  "card_inode mode size0 size1 block = [0, mode, 0, 0, size0, size1, 0, 0] @ replicate 32 0 @ [block, 0, 0, 0] @ replicate 84 0"

definition card_inodes :: bytes where
  "card_inodes = replicate 128 0 @ card_inode 0x40 0 4 4 @ card_inode 0x80 4 0 5 @ replicate 640 0"

definition card_dir :: "dir_entry list" where
  "card_dir = [\<lparr>de_inode = 3, de_name = [97], de_rec_len = 1024\<rparr>]"

definition card_img :: bytes where
  "card_img = replicate 1024 0 @ card_super @ ([0, 0, 0, 0, 0, 0, 0, 0, 3, 0, 0, 0] @ replicate 1012 0) @ card_inodes @
     enc_dir card_dir @ ([10, 11, 12, 13] @ replicate 1020 0)"

abbreviation card_sb :: ext2fs_super_block where "card_sb \<equiv> ext2_super_block (super_at 0 card_img)"
abbreviation card_fs :: ext2_t where "card_fs \<equiv> ext2_volume 0 0 card_sb card_img"
abbreviation card_view :: "u32 \<Rightarrow> bytes" where "card_view \<equiv> vol_view 0 card_sb card_img"
abbreviation card_has :: "u32 \<Rightarrow> bool" where "card_has \<equiv> vol_has 0 card_sb card_img"

lemma card_lengths: "length card_super = 1024" "length card_inodes = 1024" "length (enc_dir card_dir) = 1024" "length card_img = 6144"
proof -
  show l: "length card_super = 1024" "length card_inodes = 1024" "length (enc_dir card_dir) = 1024"
    by (simp_all add: card_super_def card_inodes_def card_inode_def enc_dir_def card_dir_def enc_entry_def)
  then show "length card_img = 6144" by (simp add: card_img_def)
qed

lemma card_super_at: "super_at 0 card_img = card_super"
  using card_lengths by (simp add: card_img_def subrange_def super_at_def)

lemma card_fields: "card_sb =
  \<lparr>e2fs_bcount = 6, e2fs_log_bsize = 0, e2fs_bpg = 6, e2fs_ipg = 8, e2fs_magic = 0xEF53, e2fs_rev = 0,
   e2fs_inode_size = 0, e2fs_features_rocompat = 0, e3fs_desc_size = 0\<rparr>"
  unfolding card_super_at
  by (simp add: ext2_super_block_def u32_at_def u16_at_def card_super_def subrange_def of_le_zeros)

lemma card_bs: "E2FS_BLOCK_SIZE card_sb = 1024" "bsize card_fs = 1024" "ptrs_per_block card_fs = 256"
  by (simp_all add: E2FS_BLOCK_SIZE_def bsize_def ptrs_per_block_def card_fields)

lemma card_blocks: "card_view 3 = card_inodes" "card_view 4 = enc_dir card_dir" "card_view 5 = [10, 11, 12, 13] @ replicate 1020 0"
  "card_has n \<longleftrightarrow> unat n < 6"
proof -
  show "card_view 3 = card_inodes" "card_view 4 = enc_dir card_dir" "card_view 5 = [10, 11, 12, 13] @ replicate 1020 0"
    by (simp_all add: vol_view_def card_bs) (simp_all add: card_img_def subrange_def card_lengths)
  show "card_has n \<longleftrightarrow> unat n < 6" using card_lengths by (auto simp: vol_has_def card_bs)
qed

lemma card_table:
  "group_table_size (\<lambda>g n. ucast (g * n)) card_sb = 32" "group_table_at card_sb = 2048" "u32_at 8 (subrange 2048 32 card_img) = 3"
proof -
  show "group_table_size (\<lambda>g n. ucast (g * n)) card_sb = 32" by (simp add: group_table_size_def card_fields)
  show "group_table_at card_sb = 2048" by (simp add: group_table_at_def card_bs)
  show "u32_at 8 (subrange 2048 32 card_img) = 3" using card_lengths(1) by (simp add: card_img_def subrange_def u32_at_def)
qed

lemma card_addr:
  assumes "num = 2 \<or> num = 3"
  shows "get_inode_addr (mounted (\<lambda>g n. ucast (g * n)) 0 0 card_sb card_img) num = Some (3, ucast ((num - 1) * 128))"
    "get_inode_addr card_fs num = Some (3, ucast ((num - 1) * 128))"
proof -
  have f: "e2fs_ipg card_sb = 8" "e2fs_rev card_sb = 0" "e3fs_desc_size card_sb = 0" by (simp_all add: card_fields)
  show "get_inode_addr (mounted (\<lambda>g n. ucast (g * n)) 0 0 card_sb card_img) num = Some (3, ucast ((num - 1) * 128))"
    "get_inode_addr card_fs num = Some (3, ucast ((num - 1) * 128))"
    using card_lengths(4) assms
    by (auto simp: get_inode_addr_def ext2_volume_def mounted_def Let_def card_table card_bs E2FS_INODE_SIZE_def f)
qed

lemma card_good: "good_volume EXT2_ROCOMPAT (\<lambda>g n. ucast (g * n)) 0 0 card_sb card_img"
  using card_addr(1) [of 2]
  by (simp add: good_volume_def card_blocks card_bs card_table card_lengths) (simp add: card_fields good_super_def)

lemma card_root: "root_inode card_fs = \<lparr>e2di_mode = 0x4000, e2di_size = 1024, e2di_flags = 0,
    e2di_blocks = [4, 0, 0, 0] @ replicate 56 0, e2di_size_high = 0\<rparr>"
  using card_addr(1) [of 2]
  by (simp add: root_of_def card_blocks card_inodes_def card_inode_def subrange_def ext2_dinode_def u16_at_def u32_at_def of_le_zeros)

lemma card_file: "inode_at card_view card_fs 3 = \<lparr>e2di_mode = 0x8000, e2di_size = 4, e2di_flags = 0,
    e2di_blocks = [5, 0, 0, 0] @ replicate 56 0, e2di_size_high = 0\<rparr>"
  using card_addr(2) [of 3]
  by (simp add: inode_at_def card_blocks card_inodes_def card_inode_def subrange_def ext2_dinode_def u16_at_def u32_at_def of_le_zeros)

text \<open>The first block of an inode of one block.\<close>

lemma card_map: "file_map card_view 256 \<lparr>e2di_mode = x, e2di_size = y, e2di_flags = z,
    e2di_blocks = [b, 0, 0, 0] @ replicate 56 0, e2di_size_high = w\<rparr> 0 = ucast b"
  by (simp add: file_map_def file_path_def block_ptr_def u32_at_def subrange_def)

lemma card_len: "ext2_file_len card_fs i = ucast (e2di_size i)"
  by (simp add: ext2_file_len_def Let_def) (simp add: card_fields)

lemma card_on: "dir_on card_has card_view card_fs (root_inode card_fs) [card_dir]"
proof -
  have "list_all wf_entry card_dir" by (simp add: wf_entry_def card_dir_def)
  then show ?thesis
    unfolding card_root dir_on_def readable_def card_bs card_len file_block_def
    by (simp add: card_map [simplified] card_blocks inode_ok_def S_ISDIR_def IS_EXTENTS_def)
qed

lemma card_data: "file_data card_has card_view card_fs (inode_at card_view card_fs 3) [10, 11, 12, 13]"
  unfolding card_file file_data_def readable_def card_bs card_len file_bytes_def file_block_def
  by (auto simp: card_map [simplified] card_blocks inode_ok_def S_ISREG_def intro!: exI [of _ 1])

lemma card_volume: "volume_file 0 0 card_img [[97]] [10, 11, 12, 13]"
proof -
  have "dir_find [card_dir] [97] = Some \<lparr>de_inode = 3, de_name = [97], de_rec_len = 1024\<rparr>"
    by (simp add: dir_find_def card_dir_def)
  moreover have "inode_on card_has card_fs 3" using card_addr(2) [of 3] by (simp add: inode_on_def card_blocks card_bs)
  moreover have "\<not> S_ISLNK (e2di_mode (inode_at card_view card_fs 3))" by (simp add: card_file S_ISLNK_def)
  ultimately have l: "leads card_has card_view card_fs (root_inode card_fs) [[97]] 3"
    using card_on by (auto simp del: ext2_volume_simps)
  have "u32_at 96 (super_at 0 card_img) AND 0x40 = 0"
    by (simp add: card_super_at card_super_def u32_at_def subrange_def of_le_zeros)
  moreover have "unat (0 :: u64) + 2048 \<le> length card_img" by (simp add: card_lengths)
  ultimately show ?thesis
    using l card_data card_good unfolding volume_file_def Let_def by blast
qed

text \<open>The card in a device, an empty mount table above it.\<close>

definition card_st :: "bytes bd_state" where
  "card_st = \<lparr>dev_heap = (\<lambda>_. None)(0 := Some (ram_dev 2 1536 card_img)), bdevs = None, xfer_id = 0, close_log = []\<rparr>"

definition card_vfs :: "(bytes, unit) vfs" where
  "card_vfs = \<lparr>mount_heap = (\<lambda>_. None), mounts = [],
     world = \<lparr>w_ab = \<lparr>ab_pm = \<lparr>bd = card_st, storage_list = None, set_verify_flag = False, verify_all_partitions = False,
         verify_list = []\<rparr>, ab_soc = (), current_smd = 0, smd_loadaddress = None, smd_backup = None\<rparr>, w_vols = (\<lambda>_. None)\<rparr>\<rparr>"

definition card_host :: "(bytes, unit) vfs_host" where
  "card_host = \<lparr>fs_impls = [(c_lit ''ext2'', ext2_api fsdemo_env (\<lambda>_. 7))], host_close = world_close, host_malloc = (\<lambda>_. Some 3),
     host_strdup = True, host_handle = True, host_stack = (\<lambda>_. 0), host_stat = 0\<rparr>"

definition card_fm :: "(bytes, unit) fm_env" where
  "card_fm = \<lparr>fm_soc = \<lparr>op_get_boot_slot_reg = (\<lambda>_. 0), op_set_boot_slot_reg = (\<lambda>v m. m), op_get_rootfs_slot_reg = (\<lambda>_. 0),
       op_set_rootfs_slot_reg = (\<lambda>v m. m)\<rparr>, fm_alloc = ram_alloc, fm_malloc = True, fm_parts = True, fm_info = True,
     fm_guid = [], fm_sb = 0x70000000, fm_stale = None, fm_host = card_host\<rparr>"

section \<open>Properties\<close>

text \<open>
  C8. A file is loaded from the file system exactly as it is stored. On a live device whose image holds, from the
  given sector, an ext2 volume in which the path leads through directories to a non-empty regular file
  (direct and singly indirect blocks), with an empty mount table and a working allocator: detection recognises ext2, the
  volume is mounted below the device's prefix, and reading the path returns no error, the file's size
  and exactly the file's bytes at the start of the destination, whatever fallback partition is named.
\<close>

theorem fm_loads_file:
  assumes "handle_live contents (fe_alloc env) a (w_bd (world s))" and "dev_heap (w_bd (world s)) a = Some d"
    and "off = ucast sector * TEGRABL_BLOCKDEV_BLOCK_SIZE d" and "img = handle_img contents a (w_bd (world s))"
    and "volume_file a off img cs data" and "env_ok env (ext2_super_block (super_at off img))"
    and "fm_alloc fm = fe_alloc env" and "fm_sb fm \<noteq> 0" and "host_mounts (fm_host fm) env s"
    and "get_prefix (device_id d) = Some pref" and "list_all plain_name cs" and "length pref + 1 + length (join_path cs) \<le> 127"
    and "data \<noteq> []" and "length data < 2 ^ 31" and "length data \<le> length mem" and "length data \<le> unat max_size"
  shows "\<exists>h s1 s2. fm_detect_mount fm a sector err h0 s = Some ((err, h), s1) \<and>
    tegrabl_fm_read fm (Some h) (Some (path_sep # join_path cs)) part addr mem max_size s1 =
      Some ((TEGRABL_NO_ERROR, overwrite 0 data mem, of_nat (length data), True), s2)"
proof -
  define sb where "sb = ext2_super_block (super_at off img)"
  let ?fs = "ext2_volume a off sb img" and ?V = "vol_view off sb img" and ?H = "vol_has off sb img"
  obtain num where num: "leads ?H ?V ?fs (root_inode ?fs) cs num" "file_data ?H ?V ?fs (inode_at ?V ?fs num) data"
    and g: "good_super sb"
    using assms(5) unfolding volume_file_def Let_def sb_def [symmetric] by (auto simp: good_volume_def)
  have "cs \<noteq> []" using num(1) by auto
  note P = prefix_path [OF assms(10,11) this assms(12)]
  have sb: "sb = ext2_super_block (super_at off (handle_img contents a (w_bd (world s))))" using assms(4) by (simp add: sb_def)
  have e: "env_ok env sb" using assms(6) by (simp add: sb_def)
  have f: "volume_file a off (handle_img contents a (w_bd (world s))) cs data" using assms(4,5) by simp
  obtain h m c s1 where s1: "fm_detect_mount fm a sector err h0 s = Some ((err, h), s1)" "fm_mount_path h = Some pref"
    "on_vol contents env a ?fs ?V ?H pref m c 1 s1"
    using fm_mount_ok [OF assms(1-3) f sb e assms(7-10) P(1,3,4) assms(4)] by fastforce
  have co: "list_all comp_ok cs" using assms(11) by (auto simp: list_all_iff)
  have hh: "host_handle (fm_host fm)" using assms(9) by (simp add: host_mounts_def)
  have gs: "good_super (super_blk ?fs)" using g by simp
  have al: "dir_alloc_ok env ?fs" using env_ok_fits [OF e g] by simp
  show ?thesis
    using s1(1) fm_read_ok [OF s1(3) gs al num(1) co assms(12) P(2) hh s1(2) num(2) assms(13-16), of part addr] by blast
qed

theorem fm_loads_file_witness:
  "\<exists>h s1 s2. fm_detect_mount card_fm 0 0 0 \<lparr>fm_bdev = Some 0, fm_fs_type = None, fm_mount_path = None, fm_start_sector = 0\<rparr> card_vfs =
      Some ((0, h), s1) \<and>
    tegrabl_fm_read card_fm (Some h) (Some [path_sep, 97]) None 0x1000 [1, 2, 3, 4, 5, 6] 100 s1 =
      Some ((TEGRABL_NO_ERROR, [10, 11, 12, 13, 5, 6], 4, True), s2)"
proof -
  have w: "w_bd (world card_vfs) = card_st" by (simp add: card_vfs_def)
  have l: "handle_live (\<lambda>p. p) (fe_alloc fsdemo_env) 0 (w_bd (world card_vfs))"
    using ram_dev_live [of 2 card_img 1536] unfolding w by (simp add: handle_live_def card_st_def card_lengths fsdemo_env_def)
  have d: "dev_heap (w_bd (world card_vfs)) 0 = Some (ram_dev 2 1536 card_img)" unfolding w by (simp add: card_st_def)
  have o: "(0 :: u64) = ucast (0 :: u32) * TEGRABL_BLOCKDEV_BLOCK_SIZE (ram_dev 2 1536 card_img)" by simp
  have i: "card_img = handle_img (\<lambda>p. p) 0 (w_bd (world card_vfs))"
    unfolding w by (simp add: handle_img_def card_st_def ram_dev_img)
  have e: "env_ok fsdemo_env card_sb"
    by (simp add: env_ok_def card_bs fsdemo_env_def ram_malloc_def)
  have h: "fm_alloc card_fm = fe_alloc fsdemo_env" "fm_sb card_fm \<noteq> 0" "host_mounts (fm_host card_fm) fsdemo_env card_vfs"
    by (auto simp: card_fm_def fsdemo_env_def host_mounts_def card_vfs_def card_host_def)
  have p: "get_prefix (device_id (ram_dev 2 1536 card_img)) = Some (c_lit ''/sdmmc_user'')" by (simp add: get_prefix_def ram_dev_def)
  have c: "length (c_lit ''/sdmmc_user'') + 1 + length (join_path [[97 :: u8]]) \<le> 127" by (simp add: c_lit_def join_path_single)
  have "overwrite 0 [10, 11, 12, 13] [1, 2, 3, 4, 5, 6] = ([10, 11, 12, 13, 5, 6] :: bytes)" by (simp add: overwrite_def)
  moreover have "path_sep # join_path [[97]] = [path_sep, 97]" by (simp add: join_path_single)
  ultimately show ?thesis
    using fm_loads_file [OF l d o i card_volume e h p _ c, where mem = "[1, 2, 3, 4, 5, 6]" and max_size = 100 and err = 0
        and part = None and addr = "0x1000"]
    by simp
qed

end
