(* ===== verification/Spec2Isabelle.thy ===== *)
theory Spec2Isabelle
  imports Tegrabl_Utils_Correct Blockdev_Registry Gpt_Correct Ab_Storage_Properties
    Fastboot_Properties Ivc_Properties Heap_Properties Ext2_Mount File_Manager_Properties
begin

text \<open>
  Verification of the storage, boot-control and update core of the cboot common sources.

  \<^bold>\<open>The program.\<close> The sources are the part of NVIDIA's cboot boot loader that is shared between
  chips. Its core is a stack. Drivers register block devices with the block device framework
  (\<open>lib/blockdev\<close>), which turns their block hooks into byte reads and writes. The GPT reader
  (\<open>lib/gpt\<close>) finds the partitions of a device, the partition manager (\<open>lib/partition_manager\<close>)
  publishes them and gives clients handles with a position. On top of it, A/B boot control
  (\<open>lib/a_b_boot\<close>) keeps the slot metadata (SMD) in two partitions, selects the slot and the root file
  system to boot and hands its decision over in scratch registers; fastboot (\<open>lib/fastboot\<close>) executes
  the commands of a USB host, and writes downloaded images to partitions, raw or through the sparse
  image decoder (\<open>lib/sparse\<close>). Every operation returns an error value (\<open>include/tegrabl_error.h\<close>);
  checksums and number parsing are in \<open>lib/utils\<close>.

  \<^bold>\<open>Theories and sources.\<close>
  \<^item> \<open>Prelude\<close>: word types, byte buffers (\<open>subrange\<close>, \<open>overwrite\<close>), little-endian layout, and two
    interfaces: \<open>reg_field\<close> (a bit field with its get and set macros) and \<open>codec\<close> (the memory image of
    a struct). \<open>Storage_Interface\<close>: the contract \<open>byte_store\<close> that every storage layer offers to the
    next, with the facts clients get from it.
  \<^item> \<open>Tegrabl_Error\<close>: \<open>include/tegrabl_error.h\<close>; its four fields are interpretations of \<open>reg_field\<close>.
    \<open>Tegrabl_Utils\<close>, \<open>Tegrabl_Utils_Correct\<close>: \<open>lib/utils/tegrabl_utils.c\<close> and the macros of
    \<open>include/lib/tegrabl_utils.h\<close>.
  \<^item> \<open>Blockdev\<close>: \<open>lib/blockdev/tegrabl_blockdev.c\<close>. A device is a record with the hooks of its driver,
    the registry a heap of devices and a list of addresses. \<open>Blockdev_Correct\<close>: byte reads and writes,
    and the device as a \<open>byte_store\<close>. \<open>Blockdev_Registry\<close>: the registry as a step relation, with its
    invariant over reachable states.
  \<^item> \<open>Gpt\<close>, \<open>Gpt_Correct\<close>: \<open>lib/gpt/tegrabl_gpt.c\<close>.
  \<^item> \<open>Ab_Naming\<close>: \<open>lib/a_b_boot/tegrabl_a_b_partition_naming.c\<close>.
  \<^item> \<open>Partition_Manager\<close>, \<open>Partition_Correct\<close>, \<open>Partition_Properties\<close>:
    \<open>lib/partition_manager/tegrabl_partition_manager.c\<close>. A partition is again a \<open>byte_store\<close>.
  \<^item> \<open>Ab_Smd\<close> (structs, register fields), \<open>Ab_Smd_Layout\<close> (their memory images and fields as
    interpretations), \<open>Ab_Boot_Control\<close> (slot selection, registers, retry counts, root file system,
    redundancy), \<open>Ab_Smd_Storage\<close> (loading, flushing, updating), with \<open>Ab_Boot_Correct\<close>,
    \<open>Ab_Boot_Properties\<close>, \<open>Ab_Storage_Correct\<close>, \<open>Ab_Storage_Properties\<close>:
    \<open>lib/a_b_boot/tegrabl_a_b_boot_control.c\<close>.
  \<^item> \<open>Sparse\<close>: \<open>lib/sparse/tegrabl_unsparse.c\<close> and \<open>tegrabl_sparse.c\<close>. \<open>Sparse_Correct\<close>: the format as a
    list of chunks, the decoder against any sink that keeps the contract \<open>unsparse_sink\<close>, the encoder,
    termination and memory safety. \<open>Sparse_Properties\<close>.
  \<^item> \<open>Fastboot_Partinfo\<close>, \<open>Fastboot\<close>: \<open>lib/fastboot\<close>. \<open>Fastboot_Correct\<close>: a partition as an
    \<open>unsparse_sink\<close>, what a locked device keeps, what flashing does. \<open>Fastboot_Properties\<close>.

  \<^bold>\<open>How code is modelled.\<close> Machine integers are words of their width, so every wrap-around of the C
  code is there; structs are records; enums that the code computes with stay words. A buffer is an
  address and its bytes: addresses matter where the code tests alignment or NULL. Global state is a
  record that operations return updated. Errors are the 32-bit values of the code. An access outside an
  array or struct, a failed assertion and a division by zero are values of their own (\<open>None\<close>,
  \<open>Mem_overrun\<close>, \<open>Fb_corrupt\<close>), never left unspecified. Loops are structural recursions or functions
  with a termination proof. The one loop that may run forever, the sparse decoder's, is a
  \<open>partial_function\<close> whose value is \<open>None\<close> then; both that it always returns with CRC support and that
  it does not without are proved. There is no fuel.

  \<^bold>\<open>Parameters.\<close> Code outside the modelled files appears as arguments: the hooks of a driver
  (\<open>bdev_ops\<close>; \<open>driver_ok\<close>: a successful block read returns the blocks, a block write changes nothing
  but its blocks; \<open>driver_live\<close>: hooks succeed in range), the allocator (\<open>alloc_env\<close>: an address or
  NULL per allocation site), the scratch registers (\<open>soc_ops\<close>; \<open>scratch_ok\<close>: what is written is read
  back), and the platform of fastboot (\<open>fb_ops\<close>; \<open>lock_law\<close>: sending a response or locking does not
  unlock the device; \<open>usb_works\<close>: transfers succeed). Every property that uses them has a witness on
  concrete instances: a RAM disk, a pair of registers, a platform with a lock flag.

  \<^bold>\<open>What is shown.\<close>
  \<^item> Storage: unaligned reads and writes do exactly what they say on a working device; on any device a
    write damages nothing outside its blocks; the same for partitions, which are isolated from each
    other; a device is not freed while a client holds it; the published partitions are those of the
    primary table or else of the secondary one; a damaged header is never accepted.
  \<^item> Boot control: the slot selected is the first one of highest priority that may be tried; failed
    boots are bounded by the retry counts; flushing the metadata is safe against a failure at every
    point; a flush followed by a load gives the same metadata; register hand-over, root file system
    selection and rotation.
  \<^item> Update: a locked device keeps its storage whatever the host sends short of an unlock command;
    download and flash of a sparse image leave the partition with the contents described; encoding
    and decoding round trip; the decoder's memory safety, exactly.
  \<^item> Utilities: the table-driven CRC is the bitwise one.
  \<^item> Where the code does not do what it means to, the theorem states what it does: wrapping range
    checks, a device unregistered without its close hook, positions after failed writes, an array
    indexed by an unchecked slot count, metadata whose version disables its checksum, a chunk header
    size taken from the image, a decoder that hangs, a download past its buffer, a failed write
    reported as OKAY, an erase of the wrong slot, a private partition that can be named.

  \<^bold>\<open>Not modelled.\<close> Drivers, which are register accesses and DMA (they enter as hooks); vendored
  libraries (\<open>lib/external\<close>, \<open>lib/libfdt\<close>); code that works on device trees through libfdt
  (\<open>lib/linuxboot\<close>, \<open>lib/cbo\<close>, \<open>lib/plugin_manager\<close>, and \<open>tegrabl_partition_boot_guid_lookup_bdev\<close> of
  the partition manager); console, display and exit code. Log output and the profiling counters of the
  block device framework are left out of the functions modelled. Still to be modelled: the heap
  allocator (\<open>lib/malloc\<close>), the block cache (\<open>lib/bcache\<close>), the update blob and bootloader update
  (\<open>lib/nvblob\<close>, \<open>lib/bootloader_update\<close>), IVC channels (\<open>lib/ipc\<close>).
\<close>

end
